(* ===== verification/Prelude.thy ===== *)
theory Prelude
  imports Main "HOL-Library.Word" "HOL-Library.Signed_Division" "HOL-Library.Sublist"
begin

text \<open>
  Shared vocabulary of the development. It holds
  \<^item> the 64-bit signed integers of Go (\<open>int64\<close>) as \<open>int\<close> with the wrap-around written out;
  \<^item> the error-passing combinator of fallible operations (\<open>'e + 'a\<close>, \<open>Inl\<close> is the error);
  \<^item> SQL tables as lists of rows in insertion order, with the few statement shapes the
    repositories issue: select one row, update where, insert with a key check, sum where;
  \<^item> the generic interfaces of the development: machines whose accepted events strictly
    raise a rank, and systems with an inductive invariant.
\<close>

type_synonym id = string
type_synonym time = int

named_theorems table_simps

section \<open>Go's int64\<close>

definition i64 :: "int \<Rightarrow> int" where
  "i64 x = (x + 2 ^ 63) mod 2 ^ 64 - 2 ^ 63"

definition in64 :: "int \<Rightarrow> bool" where
  "in64 x \<longleftrightarrow> - (2 ^ 63) \<le> x \<and> x < 2 ^ 63"

definition quot64 :: "int \<Rightarrow> int \<Rightarrow> int" where
  "quot64 a b = i64 (a sdiv b)"

text \<open>The wrap-around is the one of two's complement words.\<close>

lemma i64_word: "i64 x = sint (word_of_int x :: 64 word)"
proof -
  have "signed_take_bit 63 x = (x + 2 ^ 63) mod 2 ^ 64 - 2 ^ 63"
    by (simp add: signed_take_bit_eq_take_bit_shift take_bit_eq_mod)
  then show ?thesis
    by (simp add: i64_def sint_uint unsigned_of_int signed_take_bit_take_bit)
qed

lemma i64_id [simp]: "in64 x \<Longrightarrow> i64 x = x"
  by (simp add: i64_def in64_def)

lemma in64_i64 [simp]: "in64 (i64 x)"
proof -
  have "0 \<le> (x + 2 ^ 63) mod 2 ^ 64" "(x + 2 ^ 63) mod 2 ^ 64 < (2 ^ 64 :: int)"
    by (simp_all only: pos_mod_sign pos_mod_bound zero_less_power zero_less_numeral)
  then show ?thesis by (simp add: i64_def in64_def)
qed

lemma i64_mod: "i64 x mod 2 ^ 64 = x mod 2 ^ 64"
proof -
  have "i64 x mod 2 ^ 64 = ((x + 2 ^ 63) mod 2 ^ 64 - 2 ^ 63) mod 2 ^ 64"
    by (simp only: i64_def)
  also have "\<dots> = (x + 2 ^ 63 - 2 ^ 63) mod 2 ^ 64"
    by (rule mod_diff_left_eq)
  finally show ?thesis by simp
qed

lemma i64_eq_iff: "i64 x = i64 y \<longleftrightarrow> x mod 2 ^ 64 = y mod 2 ^ 64"
proof
  assume "i64 x = i64 y"
  then show "x mod 2 ^ 64 = y mod 2 ^ 64" by (metis i64_mod)
next
  assume "x mod 2 ^ 64 = y mod 2 ^ 64"
  then have "(x + 2 ^ 63) mod 2 ^ 64 = (y + 2 ^ 63) mod 2 ^ 64"
    by (rule mod_add_cong) simp
  then show "i64 x = i64 y" by (simp only: i64_def)
qed

lemma i64_add_left [simp]: "i64 (i64 x + y) = i64 (x + y)"
  unfolding i64_eq_iff by (rule mod_add_cong) (simp_all only: i64_mod)

lemma in64_between: "in64 a \<Longrightarrow> in64 b \<Longrightarrow> a \<le> x \<Longrightarrow> x \<le> b \<Longrightarrow> in64 x"
  by (simp add: in64_def)

lemma in64_0 [simp]: "in64 0"
  by (simp add: in64_def)

lemma sdiv_nonneg: "0 \<le> (a::int) \<Longrightarrow> 0 < b \<Longrightarrow> a sdiv b = a div b"
  by (cases "a = 0") (simp_all add: signed_divide_int_def)

lemma quot64_nonneg:
  assumes "0 \<le> a" "in64 a" "0 < b" shows "quot64 a b = a div b"
proof -
  have "a div b \<le> a" using assms by (simp add: zdiv_mono2 [of a 1 b, simplified])
  moreover have "0 \<le> a div b" using assms by (simp add: pos_imp_zdiv_nonneg_iff)
  ultimately have "in64 (a div b)" using assms(2) by (simp add: in64_def)
  then show ?thesis using assms by (simp add: quot64_def sdiv_nonneg)
qed

section \<open>Fallible operations\<close>

definition bindR :: "'e + 'a \<Rightarrow> ('a \<Rightarrow> 'e + 'b) \<Rightarrow> 'e + 'b" where
  "bindR m f = (case m of Inl e \<Rightarrow> Inl e | Inr a \<Rightarrow> f a)"

definition mapL :: "('e \<Rightarrow> 'f) \<Rightarrow> 'e + 'a \<Rightarrow> 'f + 'a" where
  "mapL w m = (case m of Inl e \<Rightarrow> Inl (w e) | Inr a \<Rightarrow> Inr a)"

lemma bindR_simps [simp]: "bindR (Inl e) f = Inl e" "bindR (Inr a) f = f a"
  by (simp_all add: bindR_def)

lemma bindR_Inr_iff: "bindR m f = Inr b \<longleftrightarrow> (\<exists>a. m = Inr a \<and> f a = Inr b)"
  by (cases m) simp_all

lemma bindR_Inl_iff: "bindR m f = Inl e \<longleftrightarrow> m = Inl e \<or> (\<exists>a. m = Inr a \<and> f a = Inl e)"
  by (cases m) auto

lemma mapL_simps [simp]: "mapL w (Inl e) = Inl (w e)" "mapL w (Inr a) = Inr a"
  by (simp_all add: mapL_def)

lemma mapL_Inr_iff [simp]: "mapL w m = Inr a \<longleftrightarrow> m = Inr a"
  by (cases m) simp_all

lemma mapL_Inl_iff: "mapL w m = Inl e \<longleftrightarrow> (\<exists>e'. m = Inl e' \<and> e = w e')"
  by (cases m) auto

section \<open>SQL tables as lists of rows\<close>

definition upd_where :: "('r \<Rightarrow> bool) \<Rightarrow> ('r \<Rightarrow> 'r) \<Rightarrow> 'r list \<Rightarrow> 'r list" where
  "upd_where p f t = map (\<lambda>r. if p r then f r else r) t"

definition sum_where :: "('r \<Rightarrow> bool) \<Rightarrow> ('r \<Rightarrow> int) \<Rightarrow> 'r list \<Rightarrow> int" where
  "sum_where p f t = sum_list (map f (filter p t))"

text \<open>An insert fails (\<open>None\<close>) when a row with the same primary key is there.\<close>

definition insert_pk :: "('r \<Rightarrow> 'k) \<Rightarrow> 'r \<Rightarrow> 'r list \<Rightarrow> 'r list option" where
  "insert_pk key r t = (if key r \<in> key ` set t then None else Some (t @ [r]))"

definition unique_key :: "('r \<Rightarrow> 'k) \<Rightarrow> 'r list \<Rightarrow> bool" where
  "unique_key key t \<longleftrightarrow> distinct (map key t)"

lemma unique_key_Nil [simp]: "unique_key key []"
  by (simp add: unique_key_def)

lemma unique_key_append_one [simp]:
  "unique_key key (t @ [r]) \<longleftrightarrow> unique_key key t \<and> key r \<notin> key ` set t"
  by (auto simp: unique_key_def)

lemma insert_pk_Some [table_simps]:
  "insert_pk key r t = Some t' \<longleftrightarrow> key r \<notin> key ` set t \<and> t' = t @ [r]"
  by (auto simp: insert_pk_def)

lemma unique_key_inj:
  "unique_key key t \<Longrightarrow> r \<in> set t \<Longrightarrow> s \<in> set t \<Longrightarrow> key r = key s \<Longrightarrow> r = s"
  by (auto simp: unique_key_def distinct_map inj_on_def)

lemma unique_key_upd_where [simp]:
  assumes "\<And>r. p r \<Longrightarrow> key (f r) = key r"
  shows "unique_key key (upd_where p f t) = unique_key key t"
proof -
  have "map key (upd_where p f t) = map key t"
    using assms by (simp add: upd_where_def)
  then show ?thesis by (simp only: unique_key_def)
qed

lemma filter_unique_key:
  assumes "unique_key key t" "r \<in> set t" "p r" "\<And>s. s \<in> set t \<Longrightarrow> p s \<Longrightarrow> key s = key r"
  shows "filter p t = [r]"
proof -
  have d: "distinct t" using assms(1) by (simp add: unique_key_def distinct_map)
  have "set (filter p t) = {r}"
    using assms unique_key_inj [OF assms(1)] by auto
  moreover have "distinct (filter p t)" using d by simp
  ultimately show ?thesis
    by (metis distinct.simps(2) empty_iff empty_set insertE list.exhaust list.set_intros(1,2) list.simps(15))
qed

lemma set_upd_where: "set (upd_where p f t) = (\<lambda>r. if p r then f r else r) ` set t"
  by (simp add: upd_where_def)

lemma image_key_upd_where [simp]:
  assumes "\<And>r. p r \<Longrightarrow> key (f r) = key r" shows "key ` set (upd_where p f t) = key ` set t"
proof -
  have "map key (upd_where p f t) = map key t" using assms by (simp add: upd_where_def)
  then show ?thesis by (metis set_map)
qed

lemma length_upd_where [simp]: "length (upd_where p f t) = length t"
  by (simp add: upd_where_def)

lemma upd_where_Nil [simp]: "upd_where p f [] = []"
  by (simp add: upd_where_def)

lemma upd_where_Cons [simp]:
  "upd_where p f (r # t) = (if p r then f r else r) # upd_where p f t"
  by (simp add: upd_where_def)

lemma upd_where_append [simp]: "upd_where p f (t @ u) = upd_where p f t @ upd_where p f u"
  by (simp add: upd_where_def)

lemma upd_where_none: "(\<And>r. r \<in> set t \<Longrightarrow> \<not> p r) \<Longrightarrow> upd_where p f t = t"
  by (induction t) auto

lemma find_SomeD: "find p t = Some r \<Longrightarrow> r \<in> set t \<and> p r"
  by (auto simp: find_Some_iff)

lemma find_append: "find p (t @ u) = (case find p t of None \<Rightarrow> find p u | Some r \<Rightarrow> Some r)"
  by (induction t) auto

lemma sum_where_Nil [simp]: "sum_where p f [] = 0"
  by (simp add: sum_where_def)

lemma sum_where_Cons [simp]: "sum_where p f (r # t) = (if p r then f r else 0) + sum_where p f t"
  by (simp add: sum_where_def)

lemma sum_where_append [simp]: "sum_where p f (t @ u) = sum_where p f t + sum_where p f u"
  by (simp add: sum_where_def)

lemma sum_where_nonneg: "(\<And>r. r \<in> set t \<Longrightarrow> p r \<Longrightarrow> 0 \<le> f r) \<Longrightarrow> 0 \<le> sum_where p f t"
  by (induction t) auto

lemma sum_where_ge_member:
  assumes "\<And>r. r \<in> set t \<Longrightarrow> p r \<Longrightarrow> 0 \<le> f r" and "r \<in> set t" and "p r"
  shows "f r \<le> sum_where p f t"
  using assms
proof (induction t)
  case (Cons s t)
  have "0 \<le> sum_where p f t" using Cons.prems(1) by (intro sum_where_nonneg) simp
  with Cons show ?case by (cases "s = r") force+
qed simp

lemma sum_where_mono:
  assumes "\<And>r. r \<in> set t \<Longrightarrow> p r \<Longrightarrow> q r" "\<And>r. r \<in> set t \<Longrightarrow> q r \<Longrightarrow> 0 \<le> f r"
  shows "sum_where p f t \<le> sum_where q f t"
  using assms
proof (induction t)
  case (Cons r t)
  have "sum_where p f t \<le> sum_where q f t" using Cons.prems by (intro Cons.IH) simp_all
  then show ?case using Cons.prems(1,2) [of r] by auto
qed simp

lemma find_unique_key:
  assumes "unique_key key t" "r \<in> set t" "p r" "\<And>s. s \<in> set t \<Longrightarrow> p s \<Longrightarrow> key s = key r"
  shows "find p t = Some r"
proof -
  have "find p t \<noteq> None" using assms(2,3) by (auto simp: find_None_iff)
  then obtain s where s: "find p t = Some s" by blast
  then have "s \<in> set t" "p s" using find_SomeD by metis+
  then have "s = r" using assms unique_key_inj by metis
  with s show ?thesis by simp
qed

lemma sum_where_cong:
  "(\<And>r. r \<in> set t \<Longrightarrow> (p r \<longleftrightarrow> q r) \<and> (p r \<longrightarrow> f r = g r)) \<Longrightarrow> sum_where p f t = sum_where q g t"
  by (induction t) auto

lemma sum_where_none: "(\<And>r. r \<in> set t \<Longrightarrow> \<not> p r) \<Longrightarrow> sum_where p f t = 0"
  by (induction t) auto

lemma sum_where_upd_where:
  "sum_where p f (upd_where q g t)
     = sum_where (\<lambda>r. if q r then p (g r) else p r) (\<lambda>r. if q r then f (g r) else f r) t"
  by (induction t) auto

text \<open>
  The effect on a sum of an update that hits exactly the row found by its key: the old
  contribution of the row is replaced by its new one.
\<close>

lemma sum_where_upd_one:
  assumes uniq: "unique_key key t" and r: "r \<in> set t"
    and hit: "q r" and only: "\<And>s. s \<in> set t \<Longrightarrow> q s \<Longrightarrow> key s = key r"
  shows "sum_where p f (upd_where q g t)
     = sum_where p f t - (if p r then f r else 0) + (if p (g r) then f (g r) else 0)"
  using assms
proof (induction t)
  case (Cons s t)
  have notin: "key s \<notin> key ` set t" and ut: "unique_key key t"
    using Cons.prems(1) by (simp_all add: unique_key_def)
  show ?case
  proof (cases "s = r")
    case True
    have "\<not> q u" if "u \<in> set t" for u
    proof
      assume "q u"
      then have "key u = key s" using Cons.prems(4) [of u] that True by simp
      then show False using notin that by (metis imageI)
    qed
    then have "upd_where q g t = t" by (rule upd_where_none)
    with True Cons.prems(3) show ?thesis by simp
  next
    case False
    then have rt: "r \<in> set t" using Cons.prems(2) by simp
    have "\<not> q s" using Cons.prems(4) [of s] notin rt by (metis imageI list.set_intros(1))
    moreover have "sum_where p f (upd_where q g t)
        = sum_where p f t - (if p r then f r else 0) + (if p (g r) then f (g r) else 0)"
      by (rule Cons.IH [OF ut rt Cons.prems(3)]) (rule Cons.prems(4), simp_all)
    ultimately show ?thesis by simp
  qed
qed simp

lemma sum_where_insort_key: "sum_where q f (insort_key k x xs) = sum_where q f (x # xs)"
  by (induction xs) simp_all

lemma sum_where_sort_key: "sum_where q f (sort_key k xs) = sum_where q f xs"
  by (induction xs) (simp_all add: sum_where_insort_key)

lemma ball_upd_where: "(\<forall>r \<in> set (upd_where q f t). P r) \<longleftrightarrow> (\<forall>r \<in> set t. P (if q r then f r else r))"
  by (simp only: set_upd_where ball_simps)

lemma find_upd_where:
  assumes "\<And>r. q (f r) = q r" shows "find q (upd_where q f rows) = map_option f (find q rows)"
  using assms by (induction rows) auto

lemma unique_find_filter:
  assumes "unique_key key rows" "find (\<lambda>r. key r = i) rows = Some r" "find (\<lambda>r. key r = i \<and> q r) rows = Some r'"
  shows "r' = r"
  using unique_key_inj [OF assms(1)] find_SomeD [OF assms(2)] find_SomeD [OF assms(3)] by blast

section \<open>Machines driven by an event\<close>

fun run_machine :: "('s \<Rightarrow> 'e \<Rightarrow> 'err + 's) \<Rightarrow> 's \<Rightarrow> 'e list \<Rightarrow> 'err + 's" where
  "run_machine delta s [] = Inr s"
| "run_machine delta s (e # es) = bindR (delta s e) (\<lambda>s'. run_machine delta s' es)"

lemma run_machine_append:
  "run_machine delta s (es @ fs) = bindR (run_machine delta s es) (\<lambda>t. run_machine delta t fs)"
proof (induction es arbitrary: s)
  case (Cons e es)
  then show ?case by (cases "delta s e") simp_all
qed simp

text \<open>
  Every status machine of the program moves forward only: an accepted event strictly
  raises a rank. Clients of such a machine get acyclicity and bounded runs.
\<close>

locale ranked_machine =
  fixes delta :: "'s \<Rightarrow> 'e \<Rightarrow> 'err + 's"
    and rank :: "'s \<Rightarrow> nat"
    and top :: nat
  assumes rank_up: "delta s e = Inr s' \<Longrightarrow> rank s < rank s'"
    and rank_top: "rank s \<le> top"
begin

lemma run_rank: "run_machine delta s es = Inr s' \<Longrightarrow> rank s + length es \<le> rank s'"
proof (induction es arbitrary: s)
  case (Cons e es)
  then obtain t where t: "delta s e = Inr t" and rest: "run_machine delta t es = Inr s'"
    by (auto simp: bindR_Inr_iff)
  from Cons.IH [OF rest] rank_up [OF t] show ?case by simp
qed simp

lemma run_bounded: "run_machine delta s es = Inr s' \<Longrightarrow> length es \<le> top - rank s"
  using run_rank rank_top [of s'] by fastforce

lemma no_return: "run_machine delta s es = Inr s \<Longrightarrow> es = []"
  using run_rank by fastforce

lemma top_final: "rank s = top \<Longrightarrow> \<exists>err. delta s e = Inl err"
  using rank_up [of s e] rank_top by (metis isl_def leD sum.collapse(2))

end

section \<open>Numbers as text\<close>

text \<open>The digits of a number, as \<open>strconv\<close> and \<open>fmt\<close> write them.\<close>

fun decimal :: "nat \<Rightarrow> string" where
  "decimal n = (if n < 10 then [char_of (48 + n)] else decimal (n div 10) @ [char_of (48 + n mod 10)])"

declare decimal.simps [simp del]

section \<open>Systems with an invariant\<close>

locale invariant_system =
  fixes step :: "'s \<Rightarrow> 's \<Rightarrow> bool"
    and inv :: "'s \<Rightarrow> bool"
  assumes inv_step: "step s s' \<Longrightarrow> inv s \<Longrightarrow> inv s'"
begin

lemma inv_steps: "step\<^sup>*\<^sup>* s s' \<Longrightarrow> inv s \<Longrightarrow> inv s'"
  by (induction rule: rtranclp_induct) (auto intro: inv_step)

end

end
