(* ===== verification/Outbox.thy ===== *)
theory Outbox
  imports Prelude
begin

text \<open>
  The transactional outbox (\<open>internal/outbox\<close>). The writer appends an unpublished row in
  the caller's transaction; the relay selects unpublished rows in creation order, publishes
  one envelope per schema version of each row, marks the rows and commits. The broker is
  outside the program: it is the world \<open>'w\<close> of the relay, reached through a publish
  function. The contract of a publisher is the locale \<open>publisher\<close>; the fallback publisher
  of \<open>local.go\<close> is proved to keep it.
\<close>

section \<open>Rows and envelopes\<close>

datatype pval = PStr string | PInt int | PBool bool | PStrs "string list"

type_synonym payload = "(string \<times> pval) list"

record outbox_event =
  ev_AggregateType :: string
  ev_AggregateID :: id
  ev_EventType :: string
  ev_MerchantID :: id
  ev_Payload :: payload

record outbox_row =
  ob_ID :: id
  ob_Event :: outbox_event
  ob_PublishedAt :: "time option"
  ob_CreatedAt :: time

record schema_version =
  sv_Subject :: string
  sv_Version :: string

record envelope =
  env_Topic :: string
  env_Key :: id
  env_Row :: outbox_row
  env_Schema :: schema_version

section \<open>The writer\<close>

definition WriteTx :: "id \<Rightarrow> time \<Rightarrow> outbox_event \<Rightarrow> outbox_row list \<Rightarrow> outbox_row list" where
  "WriteTx newid now ev rows =
     rows @ [\<lparr>ob_ID = newid, ob_Event = ev, ob_PublishedAt = None, ob_CreatedAt = now\<rparr>]"

section \<open>Building envelopes\<close>

definition TopicForEvent :: "string \<Rightarrow> string" where
  "TopicForEvent eventType =
     (if prefix ''order.'' eventType then ''paygate.orders''
      else if prefix ''payment.'' eventType then ''paygate.payments''
      else if prefix ''refund.'' eventType then ''paygate.refunds''
      else if prefix ''settlement.'' eventType then ''paygate.settlements''
      else ''paygate.internal'')"

type_synonym resolver = "(string \<Rightarrow> string + schema_version list) option"

definition resolvePublishSchemas :: "resolver \<Rightarrow> string \<Rightarrow> string + schema_version list" where
  "resolvePublishSchemas res eventType =
     (case res of
        None \<Rightarrow> Inr [\<lparr>sv_Subject = eventType, sv_Version = ''1.0.0''\<rparr>]
      | Some r \<Rightarrow> bindR (r eventType) (\<lambda>versions.
          if versions = [] then Inr [\<lparr>sv_Subject = eventType, sv_Version = ''1.0.0''\<rparr>]
          else Inr versions))"

definition BuildPublishedEnvelopes :: "resolver \<Rightarrow> outbox_row \<Rightarrow> string + envelope list" where
  "BuildPublishedEnvelopes res rec =
     bindR (resolvePublishSchemas res (ev_EventType (ob_Event rec))) (\<lambda>schemas.
       Inr (map (\<lambda>sv. \<lparr>env_Topic = TopicForEvent (ev_EventType (ob_Event rec)),
                        env_Key = ev_MerchantID (ob_Event rec),
                        env_Row = rec, env_Schema = sv\<rparr>) schemas))"

section \<open>Publishing\<close>

type_synonym 'w publish = "'w \<Rightarrow> envelope \<Rightarrow> 'w \<times> bool"

fun publish_attempts :: "nat \<Rightarrow> 'w publish \<Rightarrow> 'w \<Rightarrow> envelope \<Rightarrow> 'w \<times> bool" where
  "publish_attempts 0 pub w m = (w, False)"
| "publish_attempts (Suc n) pub w m =
     (case pub w m of (w', ok) \<Rightarrow> if ok then (w', True) else publish_attempts n pub w' m)"

definition publishWithRetry :: "'w publish \<Rightarrow> 'w \<Rightarrow> envelope \<Rightarrow> 'w \<times> bool" where
  "publishWithRetry = publish_attempts 3"

fun publish_envelopes :: "'w publish \<Rightarrow> 'w \<Rightarrow> envelope list \<Rightarrow> 'w \<times> bool" where
  "publish_envelopes pub w [] = (w, True)"
| "publish_envelopes pub w (m # ms) =
     (case publishWithRetry pub w m of
        (w', ok) \<Rightarrow> if ok then publish_envelopes pub w' ms else (w', False))"

definition mark_published :: "time \<Rightarrow> id \<Rightarrow> outbox_row list \<Rightarrow> outbox_row list" where
  "mark_published now i rows =
     upd_where (\<lambda>r. ob_ID r = i) (\<lambda>r. r\<lparr>ob_PublishedAt := Some now\<rparr>) rows"

fun publish_records ::
  "resolver \<Rightarrow> 'w publish \<Rightarrow> time \<Rightarrow> 'w \<Rightarrow> outbox_row list \<Rightarrow> outbox_row list
     \<Rightarrow> 'w \<times> outbox_row list option" where
  "publish_records res pub now w [] rows = (w, Some rows)"
| "publish_records res pub now w (rec # recs) rows =
     (case BuildPublishedEnvelopes res rec of
        Inl _ \<Rightarrow> (w, None)
      | Inr envs \<Rightarrow>
          (case publish_envelopes pub w envs of
             (w', ok) \<Rightarrow> if ok then publish_records res pub now w' recs
                                     (mark_published now (ob_ID rec) rows)
                        else (w', None)))"

definition select_batch :: "nat \<Rightarrow> outbox_row list \<Rightarrow> outbox_row list" where
  "select_batch limit rows =
     take limit (sort_key ob_CreatedAt (filter (\<lambda>r. ob_PublishedAt r = None) rows))"

text \<open>The second component is \<open>None\<close> on an error: the transaction is rolled back.\<close>

definition PublishBatch ::
  "resolver \<Rightarrow> 'w publish \<Rightarrow> time \<Rightarrow> nat \<Rightarrow> 'w \<Rightarrow> outbox_row list
     \<Rightarrow> 'w \<times> (nat \<times> outbox_row list) option" where
  "PublishBatch res pub now limit w rows =
     (let records = select_batch limit rows in
      case publish_records res pub now w records rows of
        (w', None) \<Rightarrow> (w', None)
      | (w', Some rows') \<Rightarrow> (w', Some (length records, rows')))"

definition CleanupPublished :: "time \<Rightarrow> time \<Rightarrow> outbox_row list \<Rightarrow> outbox_row list" where
  "CleanupPublished now olderThan rows =
     filter (\<lambda>r. \<not> (case ob_PublishedAt r of None \<Rightarrow> False | Some t \<Rightarrow> t < now - olderThan)) rows"

definition CountUnpublished :: "outbox_row list \<Rightarrow> nat" where
  "CountUnpublished rows = length (filter (\<lambda>r. ob_PublishedAt r = None) rows)"

section \<open>Publishers of local.go\<close>

definition LocalPublish :: "('w \<Rightarrow> envelope \<Rightarrow> 'w \<times> bool) option \<Rightarrow> 'w publish" where
  "LocalPublish handler w m = (case handler of None \<Rightarrow> (w, True) | Some h \<Rightarrow> h w m)"

definition FallbackPublish :: "'w publish option \<Rightarrow> 'w publish option \<Rightarrow> 'w publish" where
  "FallbackPublish primary fallback w m =
     (let second = (\<lambda>w. case fallback of None \<Rightarrow> (w, True) | Some f \<Rightarrow> f w m) in
      case primary of
        None \<Rightarrow> second w
      | Some p \<Rightarrow> (case p w m of
          (w', ok) \<Rightarrow> if ok then (w', True)
                      else if fallback = None then (w', False) else second w'))"

section \<open>The publisher contract\<close>

text \<open>
  \<open>seen\<close> is what the broker holds: a publish that reports success has handed the message
  over, and nothing is ever taken back.
\<close>

locale publisher =
  fixes pub :: "'w publish"
    and seen :: "'w \<Rightarrow> envelope set"
  assumes pub_ok: "pub w m = (w', True) \<Longrightarrow> m \<in> seen w'"
    and pub_mono: "pub w m = (w', ok) \<Longrightarrow> seen w \<subseteq> seen w'"
begin

lemma attempts_mono: "publish_attempts n pub w m = (w', ok) \<Longrightarrow> seen w \<subseteq> seen w'"
proof (induction n arbitrary: w)
  case (Suc n)
  obtain v b where v: "pub w m = (v, b)" by force
  show ?case
  proof (cases b)
    case True
    with Suc.prems v show ?thesis by (auto dest: pub_mono)
  next
    case False
    with Suc.prems v have "publish_attempts n pub v m = (w', ok)" by simp
    then have "seen v \<subseteq> seen w'" by (rule Suc.IH)
    with pub_mono [OF v] show ?thesis by blast
  qed
qed simp

lemma attempts_ok: "publish_attempts n pub w m = (w', True) \<Longrightarrow> m \<in> seen w'"
  by (induction n arbitrary: w) (auto split: prod.splits if_splits dest: pub_ok)

lemma envelopes_mono: "publish_envelopes pub w ms = (w', ok) \<Longrightarrow> seen w \<subseteq> seen w'"
proof (induction ms arbitrary: w)
  case (Cons m ms)
  obtain v b where v: "publishWithRetry pub w m = (v, b)" by force
  then have "seen w \<subseteq> seen v" unfolding publishWithRetry_def by (rule attempts_mono)
  with Cons v show ?case by (cases b) fastforce+
qed simp

lemma envelopes_ok: "publish_envelopes pub w ms = (w', True) \<Longrightarrow> set ms \<subseteq> seen w'"
proof (induction ms arbitrary: w)
  case (Cons m ms)
  from Cons.prems obtain v where v: "publishWithRetry pub w m = (v, True)"
    and rest: "publish_envelopes pub v ms = (w', True)" by (auto split: prod.splits if_splits)
  have "m \<in> seen v" using v unfolding publishWithRetry_def by (rule attempts_ok)
  with envelopes_mono [OF rest] Cons.IH [OF rest] show ?case by auto
qed simp

lemma records_mono: "publish_records res pub now w recs rows = (w', out) \<Longrightarrow> seen w \<subseteq> seen w'"
proof (induction recs arbitrary: w rows)
  case (Cons rec recs)
  show ?case
  proof (cases "BuildPublishedEnvelopes res rec")
    case (Inr envs)
    obtain v b where v: "publish_envelopes pub w envs = (v, b)" by force
    with Cons Inr envelopes_mono [OF v] show ?thesis by (cases b) fastforce+
  qed (use Cons.prems in simp)
qed simp

lemma records_ok:
  "publish_records res pub now w recs rows = (w', Some rows') \<Longrightarrow> r \<in> set recs \<Longrightarrow>
     \<exists>envs. BuildPublishedEnvelopes res r = Inr envs \<and> set envs \<subseteq> seen w'"
proof (induction recs arbitrary: w rows)
  case (Cons rec recs)
  from Cons.prems(1) obtain envs v where envs: "BuildPublishedEnvelopes res rec = Inr envs"
    and v: "publish_envelopes pub w envs = (v, True)"
    and rest: "publish_records res pub now v recs (mark_published now (ob_ID rec) rows)
                 = (w', Some rows')"
    by (auto split: sum.splits prod.splits if_splits)
  from envelopes_ok [OF v] records_mono [OF rest] have "set envs \<subseteq> seen w'" by blast
  with envs Cons.IH [OF rest] Cons.prems(2) show ?case by auto
qed simp

end

text \<open>A fallback publisher keeps the contract when both of its publishers do.\<close>

locale fallback_pair = p: publisher p seen + l: publisher l seen
  for p l :: "'w publish" and seen :: "'w \<Rightarrow> envelope set"

sublocale fallback_pair \<subseteq> fb: publisher "FallbackPublish (Some p) (Some l)" seen
proof unfold_locales
  fix w m w' ok
  assume a: "FallbackPublish (Some p) (Some l) w m = (w', ok)"
  obtain v b where v: "p w m = (v, b)" by force
  show "seen w \<subseteq> seen w'"
  proof (cases b)
    case True
    with a v show ?thesis by (auto simp: FallbackPublish_def dest: p.pub_mono)
  next
    case False
    with a v have "l v m = (w', ok)" by (simp add: FallbackPublish_def)
    with p.pub_mono [OF v] l.pub_mono show ?thesis by blast
  qed
next
  fix w m w'
  assume "FallbackPublish (Some p) (Some l) w m = (w', True)"
  then show "m \<in> seen w'"
    by (auto simp: FallbackPublish_def split: prod.splits if_splits dest: p.pub_ok l.pub_ok)
qed

section \<open>What a batch marks\<close>

lemma resolve_nonempty: "resolvePublishSchemas res et = Inr vs \<Longrightarrow> vs \<noteq> []"
  by (auto simp: resolvePublishSchemas_def bindR_Inr_iff split: option.splits if_splits)

lemma envelopes_nonempty: "BuildPublishedEnvelopes res rec = Inr envs \<Longrightarrow> envs \<noteq> []"
  by (auto simp: BuildPublishedEnvelopes_def bindR_Inr_iff dest: resolve_nonempty)

lemma publish_records_marks:
  "publish_records res pub now w recs rows = (w', Some rows') \<Longrightarrow>
     rows' = upd_where (\<lambda>r. ob_ID r \<in> ob_ID ` set recs) (\<lambda>r. r\<lparr>ob_PublishedAt := Some now\<rparr>) rows"
proof (induction recs arbitrary: w rows)
  case (Cons rec recs)
  then have "rows' = upd_where (\<lambda>r. ob_ID r \<in> ob_ID ` set recs) (\<lambda>r. r\<lparr>ob_PublishedAt := Some now\<rparr>)
      (mark_published now (ob_ID rec) rows)"
    by (auto split: sum.splits prod.splits if_splits)
  then show ?case by (auto simp: mark_published_def upd_where_def)
qed (simp add: upd_where_def)

lemma select_batch_subset: "set (select_batch limit rows) \<subseteq> {r \<in> set rows. ob_PublishedAt r = None}"
  unfolding select_batch_def using set_take_subset by fastforce

lemma length_select_batch: "length (select_batch limit rows) = min (CountUnpublished rows) limit"
  by (simp add: select_batch_def CountUnpublished_def)

lemma unique_select_batch: "unique_key ob_ID rows \<Longrightarrow> unique_key ob_ID (select_batch limit rows)"
proof -
  assume "unique_key ob_ID rows"
  then have "inj_on ob_ID (set rows)" "distinct rows" by (simp_all add: unique_key_def distinct_map)
  then show ?thesis
    by (auto simp: unique_key_def distinct_map select_batch_def intro!: distinct_take
          elim!: inj_on_subset dest: in_set_takeD)
qed

lemma count_upd_published:
  assumes "unique_key ob_ID rows" and "set recs \<subseteq> {r \<in> set rows. ob_PublishedAt r = None}"
    and "unique_key ob_ID recs"
  shows "CountUnpublished (upd_where (\<lambda>r. ob_ID r \<in> ob_ID ` set recs)
            (\<lambda>r. r\<lparr>ob_PublishedAt := Some now\<rparr>) rows) = CountUnpublished rows - length recs"
proof -
  let ?unp = "filter (\<lambda>r. ob_PublishedAt r = None) rows"
  have d: "distinct rows" and inj: "inj_on ob_ID (set rows)"
    using assms(1) by (simp_all add: unique_key_def distinct_map)
  have hit: "ob_ID r \<in> ob_ID ` set recs \<longleftrightarrow> r \<in> set recs" if "r \<in> set rows" for r
    using that inj assms(2) by (auto dest: inj_onD)
  have "CountUnpublished (upd_where (\<lambda>r. ob_ID r \<in> ob_ID ` set recs)
            (\<lambda>r. r\<lparr>ob_PublishedAt := Some now\<rparr>) rows)
        = length (filter (\<lambda>r. r \<notin> set recs \<and> ob_PublishedAt r = None) rows)"
    unfolding CountUnpublished_def upd_where_def
    by (simp add: filter_map comp_def, rule arg_cong [where f = length], rule filter_cong)
       (auto simp: hit)
  also have "\<dots> = card (set ?unp - set recs)"
    using d by (subst distinct_card [symmetric]) (auto intro: arg_cong [where f = card])
  also have "\<dots> = card (set ?unp) - card (set recs)"
    using assms(2) by (intro card_Diff_subset) auto
  also have "card (set ?unp) = CountUnpublished rows"
    using d by (metis CountUnpublished_def distinct_card distinct_filter)
  also have "card (set recs) = length recs"
    using assms(3) by (simp add: unique_key_def distinct_map distinct_card)
  finally show ?thesis .
qed

lemma PublishBatch_count:
  assumes "unique_key ob_ID rows" and "PublishBatch res pub now limit w rows = (w', Some (n, rows'))"
  shows "n = min (CountUnpublished rows) limit"
    and "CountUnpublished rows' = CountUnpublished rows - n"
    and "unique_key ob_ID rows'"
proof -
  from assms(2) have n: "n = length (select_batch limit rows)"
    and ok: "publish_records res pub now w (select_batch limit rows) rows = (w', Some rows')"
    by (auto simp: PublishBatch_def Let_def split: prod.splits option.splits)
  show "n = min (CountUnpublished rows) limit" by (simp add: n length_select_batch)
  note rows' = publish_records_marks [OF ok]
  show "CountUnpublished rows' = CountUnpublished rows - n"
    unfolding rows' n by (rule count_upd_published [OF assms(1) select_batch_subset
        unique_select_batch [OF assms(1)]])
  show "unique_key ob_ID rows'" using assms(1) by (simp add: rows')
qed

section \<open>The relay as a system\<close>

inductive relay_step :: "'w publish \<Rightarrow> 'w \<times> outbox_row list \<Rightarrow> 'w \<times> outbox_row list \<Rightarrow> bool"
  for pub :: "'w publish" where
  enqueue: "newid \<notin> ob_ID ` set rows \<Longrightarrow> relay_step pub (w, rows) (w, WriteTx newid now ev rows)"
| batch: "PublishBatch res pub now limit w rows = (w', Some (n, rows')) \<Longrightarrow>
    relay_step pub (w, rows) (w', rows')"
| rollback: "PublishBatch res pub now limit w rows = (w', None) \<Longrightarrow>
    relay_step pub (w, rows) (w', rows)"
| cleanup: "relay_step pub (w, rows) (w, CleanupPublished now olderThan rows)"

text \<open>Every row marked as published has had all its envelopes handed to the broker.\<close>

definition delivered :: "('w \<Rightarrow> envelope set) \<Rightarrow> 'w \<Rightarrow> outbox_row \<Rightarrow> bool" where
  "delivered seen w r \<longleftrightarrow>
     (\<exists>res envs. BuildPublishedEnvelopes res (r\<lparr>ob_PublishedAt := None\<rparr>) = Inr envs
        \<and> envs \<noteq> [] \<and> set envs \<subseteq> seen w)"

definition relay_inv :: "('w \<Rightarrow> envelope set) \<Rightarrow> 'w \<times> outbox_row list \<Rightarrow> bool" where
  "relay_inv seen s \<longleftrightarrow> unique_key ob_ID (snd s) \<and>
     (\<forall>r \<in> set (snd s). ob_PublishedAt r \<noteq> None \<longrightarrow> delivered seen (fst s) r)"

context publisher
begin

lemma delivered_mono: "delivered seen w r \<Longrightarrow> seen w \<subseteq> seen w' \<Longrightarrow> delivered seen w' r"
  unfolding delivered_def by blast

lemma batch_delivers:
  assumes inv: "relay_inv seen (w, rows)"
    and ok: "publish_records res pub now w (select_batch limit rows) rows = (w', Some rows')"
  shows "relay_inv seen (w', rows')"
proof -
  let ?recs = "select_batch limit rows"
  from inv have uniq: "unique_key ob_ID rows" by (simp add: relay_inv_def)
  have hit: "delivered seen w' (s\<lparr>ob_PublishedAt := Some now\<rparr>)" if "s \<in> set rows" "ob_ID s \<in> ob_ID ` set ?recs" for s
  proof -
    from that(2) obtain t where t: "t \<in> set ?recs" "ob_ID s = ob_ID t" by blast
    then have t': "t \<in> set rows" "ob_PublishedAt t = None" using select_batch_subset by blast+
    have st: "s = t" by (rule unique_key_inj [OF uniq that(1) t'(1) t(2)])
    obtain envs where envs: "BuildPublishedEnvelopes res t = Inr envs" "set envs \<subseteq> seen w'"
      using records_ok [OF ok t(1)] by blast
    moreover have "s\<lparr>ob_PublishedAt := Some now\<rparr>\<lparr>ob_PublishedAt := None\<rparr> = t"
      using st t'(2) by simp
    ultimately show ?thesis
      unfolding delivered_def using envelopes_nonempty [OF envs(1)] by metis
  qed
  have miss: "delivered seen w' s" if "s \<in> set rows" "ob_PublishedAt s \<noteq> None" for s
    using inv that delivered_mono records_mono [OF ok] by (auto simp: relay_inv_def)
  show ?thesis
    unfolding relay_inv_def publish_records_marks [OF ok]
    using uniq hit miss by (auto simp: set_upd_where)
qed

lemma relay_step_inv: "relay_step pub s s' \<Longrightarrow> relay_inv seen s \<Longrightarrow> relay_inv seen s'"
proof (induction rule: relay_step.induct)
  case (enqueue newid rows w now ev)
  then show ?case by (auto simp: relay_inv_def WriteTx_def)
next
  case (batch res now limit w rows w' n rows')
  then show ?case
    by (auto simp: PublishBatch_def Let_def split: prod.splits option.splits intro: batch_delivers)
next
  case (rollback res now limit w rows w')
  then have "seen w \<subseteq> seen w'"
    by (auto simp: PublishBatch_def Let_def split: prod.splits option.splits dest: records_mono)
  with rollback show ?case by (auto simp: relay_inv_def intro: delivered_mono)
next
  case (cleanup w rows now olderThan)
  then show ?case
    by (auto simp: relay_inv_def CleanupPublished_def unique_key_def distinct_map
        intro: inj_on_subset)
qed

end

sublocale publisher \<subseteq> relay: invariant_system "relay_step pub" "relay_inv seen"
  by unfold_locales (rule relay_step_inv)

text \<open>A row is safe while it waits unpublished in the table or once it has been delivered.\<close>

definition safe_row :: "('w \<Rightarrow> envelope set) \<Rightarrow> outbox_row \<Rightarrow> 'w \<times> outbox_row list \<Rightarrow> bool" where
  "safe_row seen r s \<longleftrightarrow> r \<in> set (snd s) \<and> ob_PublishedAt r = None \<or> delivered seen (fst s) r"

context publisher
begin

lemma batch_safe:
  assumes inv: "relay_inv seen (w, rows)" and r: "r \<in> set rows" "ob_PublishedAt r = None"
    and ok: "publish_records res pub now w (select_batch limit rows) rows = (w', Some rows')"
  shows "safe_row seen r (w', rows')"
proof (cases "ob_ID r \<in> ob_ID ` set (select_batch limit rows)")
  case True
  then have "r\<lparr>ob_PublishedAt := Some now\<rparr> \<in> set rows'"
    using r by (force simp: publish_records_marks [OF ok] set_upd_where)
  then have "delivered seen w' (r\<lparr>ob_PublishedAt := Some now\<rparr>)"
    using batch_delivers [OF inv ok] by (fastforce simp: relay_inv_def)
  then show ?thesis by (simp add: safe_row_def delivered_def)
next
  case False
  then have "r \<in> set rows'" using r by (force simp: publish_records_marks [OF ok] set_upd_where)
  then show ?thesis using r by (simp add: safe_row_def)
qed

lemma safe_step:
  assumes "relay_step pub s s'" "relay_inv seen s" "safe_row seen r s"
  shows "safe_row seen r s'"
  using assms
proof (induction rule: relay_step.induct)
  case (enqueue newid rows w now ev)
  then show ?case by (auto simp: safe_row_def WriteTx_def)
next
  case (batch res now limit w rows w' n rows')
  then have ok: "publish_records res pub now w (select_batch limit rows) rows = (w', Some rows')"
    by (auto simp: PublishBatch_def Let_def split: prod.splits option.splits)
  show ?case
    using batch.prems batch_safe [OF batch.prems(1) _ _ ok] delivered_mono records_mono [OF ok]
    by (auto simp: safe_row_def)
next
  case (rollback res now limit w rows w')
  then have "seen w \<subseteq> seen w'"
    by (auto simp: PublishBatch_def Let_def split: prod.splits option.splits dest: records_mono)
  with rollback show ?case by (auto simp: safe_row_def intro: delivered_mono)
next
  case (cleanup w rows now olderThan)
  then show ?case by (auto simp: safe_row_def CleanupPublished_def)
qed

lemma safe_system: "invariant_system (relay_step pub) (\<lambda>s. relay_inv seen s \<and> safe_row seen r s)"
  by unfold_locales (blast intro: relay_step_inv safe_step)

lemmas safe_steps = invariant_system.inv_steps [OF safe_system]

end

context fallback_pair
begin

lemma fallback_safe:
  "(relay_step (FallbackPublish (Some p) (Some l)))\<^sup>*\<^sup>* s s' \<Longrightarrow> relay_inv seen s \<Longrightarrow> safe_row seen r s \<Longrightarrow>
     relay_inv seen s' \<and> safe_row seen r s'"
  using fb.safe_steps by blast

end

section \<open>Draining the outbox\<close>

lemma attempts_all_ok:
  "(\<And>w m. snd (pub w m)) \<Longrightarrow> snd (publish_envelopes pub w ms)"
proof (induction ms arbitrary: w)
  case (Cons m ms)
  have "snd (publishWithRetry pub w m)"
    using Cons.prems [of w m] by (cases "pub w m") (simp add: publishWithRetry_def numeral_3_eq_3)
  with Cons show ?case by (auto split: prod.splits)
qed simp

lemma publish_records_all_ok:
  assumes "\<And>w m. snd (pub w m)"
  shows "\<exists>w' rows'. publish_records None pub now w recs rows = (w', Some rows')"
proof (induction recs arbitrary: w rows)
  case (Cons rec recs)
  let ?envs = "[\<lparr>env_Topic = TopicForEvent (ev_EventType (ob_Event rec)),
     env_Key = ev_MerchantID (ob_Event rec), env_Row = rec,
     env_Schema = \<lparr>sv_Subject = ev_EventType (ob_Event rec), sv_Version = ''1.0.0''\<rparr>\<rparr>]"
  obtain v b where v: "publish_envelopes pub w ?envs = (v, b)" by force
  moreover have b using attempts_all_ok [of pub w ?envs] assms v by (metis snd_conv)
  ultimately show ?case
    using Cons.IH by (simp add: BuildPublishedEnvelopes_def resolvePublishSchemas_def del: publish_envelopes.simps)
qed simp

text \<open>
  One tick of the loop of \<open>Relay.Start\<close>: a batch of at most 100 rows, then the cleanup of rows
  published more than seven days ago, then the interval until the next tick (\<open>None\<close> when the
  ticker is not reset). Times are in microseconds.
\<close>

definition seconds :: "int \<Rightarrow> time" where
  "seconds n = n * 1000000"

record 'w relay_state =
  rs_emptyStreak :: nat
  rs_reset :: "time option"
  rs_world :: 'w
  rs_rows :: "outbox_row list"

definition relay_tick :: "resolver \<Rightarrow> 'w publish \<Rightarrow> time \<Rightarrow> time \<Rightarrow> 'w relay_state \<Rightarrow> 'w relay_state" where
  "relay_tick res pub interval now s =
     (case PublishBatch res pub now 100 (rs_world s) (rs_rows s) of
        (w', None) \<Rightarrow> s\<lparr>rs_emptyStreak := 0, rs_reset := None, rs_world := w'\<rparr>
      | (w', Some (count, rows')) \<Rightarrow>
          let emptyStreak = (if count > 0 then 0 else Suc (rs_emptyStreak s)) in
          s\<lparr>rs_emptyStreak := emptyStreak,
            rs_reset := Some (if emptyStreak > 10 then seconds 30
                              else if emptyStreak > 5 then seconds 5 else interval),
            rs_world := w', rs_rows := CleanupPublished now (seconds (7 * 24 * 3600)) rows'\<rparr>)"

fun relay_run :: "resolver \<Rightarrow> 'w publish \<Rightarrow> time \<Rightarrow> time list \<Rightarrow> 'w relay_state \<Rightarrow> 'w relay_state" where
  "relay_run res pub interval [] s = s"
| "relay_run res pub interval (now # ticks) s = relay_run res pub interval ticks (relay_tick res pub interval now s)"

lemma CleanupPublished_count [simp]: "CountUnpublished (CleanupPublished now d rows) = CountUnpublished rows"
  unfolding CountUnpublished_def CleanupPublished_def filter_filter
  by (rule arg_cong [where f = length], rule filter_cong) auto

lemma CleanupPublished_unique: "unique_key ob_ID rows \<Longrightarrow> unique_key ob_ID (CleanupPublished now d rows)"
  by (auto simp: CleanupPublished_def unique_key_def distinct_map intro: inj_on_subset)

lemma relay_run_count:
  assumes "\<And>w m. snd (pub w m)" and "unique_key ob_ID (rs_rows s)"
  shows "CountUnpublished (rs_rows (relay_run None pub interval ticks s))
           = CountUnpublished (rs_rows s) - length ticks * 100"
  using assms(2)
proof (induction ticks arbitrary: s)
  case (Cons now ticks)
  let ?batch = "select_batch 100 (rs_rows s)"
  obtain w' rows' where "publish_records None pub now (rs_world s) ?batch (rs_rows s) = (w', Some rows')"
    using publish_records_all_ok [of pub] assms(1) by blast
  then have b: "PublishBatch None pub now 100 (rs_world s) (rs_rows s) = (w', Some (length ?batch, rows'))"
    by (simp add: PublishBatch_def)
  note c = PublishBatch_count [OF Cons.prems b]
  have "unique_key ob_ID (rs_rows (relay_tick None pub interval now s))"
    using c(3) by (simp add: relay_tick_def b Let_def CleanupPublished_unique)
  from Cons.IH [OF this] show ?case
    using c(1,2) by (simp add: relay_tick_def b Let_def)
qed simp

lemma FallbackPublish_total: "(\<And>w m. snd (l w m)) \<Longrightarrow> snd (FallbackPublish (Some p) (Some l) w m)"
  by (auto simp: FallbackPublish_def split: prod.splits)

section \<open>A broker with scripted outcomes\<close>

text \<open>
  The deployment publishes to Kafka first and to the in-process dispatcher when Kafka fails.
  Kafka is a log whose next outcomes are scripted; the dispatcher always accepts.
\<close>

record broker =
  br_kafka :: "envelope list"
  br_local :: "envelope list"
  br_outcomes :: "bool list"

definition kafka_publish :: "broker publish" where
  "kafka_publish b m =
     (case br_outcomes b of
        [] \<Rightarrow> (b\<lparr>br_kafka := br_kafka b @ [m]\<rparr>, True)
      | ok # os \<Rightarrow> (if ok then (b\<lparr>br_kafka := br_kafka b @ [m], br_outcomes := os\<rparr>, True)
                   else (b\<lparr>br_outcomes := os\<rparr>, False)))"

definition dispatch_local :: "broker \<Rightarrow> envelope \<Rightarrow> broker \<times> bool" where
  "dispatch_local b m = (b\<lparr>br_local := br_local b @ [m]\<rparr>, True)"

definition broker_seen :: "broker \<Rightarrow> envelope set" where
  "broker_seen b = set (br_kafka b) \<union> set (br_local b)"

interpretation deployed: fallback_pair kafka_publish "LocalPublish (Some dispatch_local)" broker_seen
  by unfold_locales
     (auto simp: kafka_publish_def LocalPublish_def dispatch_local_def broker_seen_def
        split: list.splits if_splits)

section \<open>Properties\<close>


definition sample_event_row :: outbox_row where
  "sample_event_row = \<lparr>ob_ID = ''e1'', ob_Event = \<lparr>ev_AggregateType = ''order'', ev_AggregateID = ''o1'',
     ev_EventType = ''order.created'', ev_MerchantID = ''m1'', ev_Payload = []\<rparr>, ob_PublishedAt = None, ob_CreatedAt = 5\<rparr>"

definition broker_down :: "nat \<Rightarrow> broker" where
  "broker_down n = \<lparr>br_kafka = [], br_local = [], br_outcomes = replicate n False\<rparr>"


text \<open>
  C35: Draining. With a dispatcher that accepts every message, \<open>n\<close> ticks of the relay loop take
  \<open>100 n\<close> rows off the backlog (all of it once \<open>100 n\<close> reaches its size), however Kafka behaves.
\<close>

theorem relay_drains_backlog:
  assumes "\<And>w m. snd (h w m)" and "unique_key ob_ID (rs_rows s)"
  shows "CountUnpublished (rs_rows (relay_run None (FallbackPublish (Some p) (Some (LocalPublish (Some h)))) interval ticks s))
           = CountUnpublished (rs_rows s) - length ticks * 100"
  using assms by (intro relay_run_count FallbackPublish_total) (auto simp: LocalPublish_def)

theorem relay_drains_backlog_witness:
  "CountUnpublished (rs_rows (relay_run None (FallbackPublish (Some kafka_publish) (Some (LocalPublish (Some dispatch_local))))
     (seconds 1) [9] \<lparr>rs_emptyStreak = 0, rs_reset = None, rs_world = broker_down 7, rs_rows = [sample_event_row]\<rparr>)) = 0"
  using relay_drains_backlog [of dispatch_local
      "\<lparr>rs_emptyStreak = 0, rs_reset = None, rs_world = broker_down 7, rs_rows = [sample_event_row]\<rparr>" kafka_publish "seconds 1" "[9]"]
  by (simp add: dispatch_local_def unique_key_def CountUnpublished_def sample_event_row_def)

end
