(* ===== verification/Ledger.thy ===== *)
theory Ledger
  imports Prelude
begin

text \<open>
  The double-entry ledger (\<open>internal/ledger\<close>): entry validation, posting of balanced
  transactions, balances and holds. The tables are those of migrations 4, 21, 23 and 34,
  with the constraints the posting relies on. Identifiers drawn by \<open>idgen.New\<close> and the
  current time are arguments of the operations. An operation returns \<open>Inl\<close> of an error,
  and then the transaction is rolled back, or \<open>Inr\<close> of its result and the new tables.
\<close>

section \<open>Domain\<close>

datatype ledger_error =
    ErrUnbalancedEntries
  | ErrInvalidEntrySide
  | ErrHoldNotFound
  | ErrHoldNotActive
  | ErrHoldInsufficient
  | ErrInvalidHoldInput
  | ErrTargetAccountRequired
  | ErrLedgerConstraint
  | ErrNoRows
  | ErrScanRange

record entry =
  e_AccountCode :: string
  e_DebitAmount :: int
  e_CreditAmount :: int
  e_Currency :: string
  e_Description :: string

fun validate_loop :: "int \<Rightarrow> int \<Rightarrow> entry list \<Rightarrow> ledger_error + int \<times> int" where
  "validate_loop debit credit [] = Inr (debit, credit)"
| "validate_loop debit credit (e # es) =
     (let debit' = i64 (debit + e_DebitAmount e); credit' = i64 (credit + e_CreditAmount e) in
      if (e_DebitAmount e > 0 \<and> e_CreditAmount e > 0) \<or> (e_DebitAmount e = 0 \<and> e_CreditAmount e = 0)
      then Inl ErrInvalidEntrySide
      else validate_loop debit' credit' es)"

definition ValidateEntries :: "entry list \<Rightarrow> ledger_error + unit" where
  "ValidateEntries entries =
     bindR (validate_loop 0 0 entries) (\<lambda>(debit, credit).
       if debit \<noteq> credit then Inl ErrUnbalancedEntries else Inr ())"

datatype hold_status = HoldActive | HoldReleased | HoldCommitted | HoldExpired

record hold =
  h_ID :: id
  h_MerchantID :: id
  h_AccountCode :: string
  h_SourceType :: string
  h_SourceID :: string
  h_Reason :: string
  h_Currency :: string
  h_Amount :: int
  h_Status :: hold_status
  h_IdempotencyKey :: string
  h_TargetAccountCode :: string
  h_Description :: string
  h_ExpiresAt :: "time option"
  h_ReleasedAt :: "time option"
  h_CommittedAt :: "time option"
  h_CreatedAt :: time
  h_UpdatedAt :: time

record create_hold_input =
  ch_MerchantID :: id
  ch_AccountCode :: string
  ch_SourceType :: string
  ch_SourceID :: string
  ch_Reason :: string
  ch_Currency :: string
  ch_Amount :: int
  ch_IdempotencyKey :: string
  ch_ExpiresAt :: "time option"

section \<open>Tables\<close>

record ledger_transaction =
  lt_ID :: id
  lt_MerchantID :: id
  lt_SourceType :: string
  lt_SourceID :: string
  lt_Currency :: string
  lt_TotalDebit :: int
  lt_TotalCredit :: int
  lt_Description :: string

record ledger_entry =
  le_TransactionID :: id
  le_MerchantID :: id
  le_AccountCode :: string
  le_DebitAmount :: int
  le_CreditAmount :: int
  le_Currency :: string
  le_SourceType :: string
  le_SourceID :: string
  le_Description :: string

record ledger_db =
  ledger_transactions :: "ledger_transaction list"
  ledger_entries :: "ledger_entry list"
  ledger_holds :: "hold list"

text \<open>The accounts seeded by migrations 4, 21 and 34.\<close>

definition ledger_accounts :: "string list" where
  "ledger_accounts = [''CUSTOMER_RECEIVABLE'', ''MERCHANT_PAYABLE'', ''PLATFORM_FEE_REVENUE'',
     ''REFUND_CLEARING'', ''SETTLEMENT_CLEARING'', ''MERCHANT_BANK_PAYOUT'',
     ''MERCHANT_RESERVE_HELD'']"

section \<open>Posting\<close>

text \<open>The totals and the currency: the last entry that names a currency decides it.\<close>

fun txn_totals :: "int \<Rightarrow> int \<Rightarrow> string \<Rightarrow> entry list \<Rightarrow> int \<times> int \<times> string" where
  "txn_totals d c cur [] = (d, c, cur)"
| "txn_totals d c cur (e # es) =
     txn_totals (i64 (d + e_DebitAmount e)) (i64 (c + e_CreditAmount e))
       (if e_Currency e \<noteq> '''' then e_Currency e else cur) es"

definition entry_ok :: "entry \<Rightarrow> bool" where
  "entry_ok e \<longleftrightarrow> e_AccountCode e \<in> set ledger_accounts \<and>
     (e_DebitAmount e > 0 \<and> e_CreditAmount e = 0 \<or> e_DebitAmount e = 0 \<and> e_CreditAmount e > 0)"

definition entry_row :: "id \<Rightarrow> id \<Rightarrow> string \<Rightarrow> string \<Rightarrow> string \<Rightarrow> entry \<Rightarrow> ledger_entry" where
  "entry_row txnID merchantID sourceType sourceID txnCurrency e =
     \<lparr>le_TransactionID = txnID, le_MerchantID = merchantID, le_AccountCode = e_AccountCode e,
      le_DebitAmount = e_DebitAmount e, le_CreditAmount = e_CreditAmount e,
      le_Currency = (if e_Currency e = '''' then txnCurrency else e_Currency e),
      le_SourceType = sourceType, le_SourceID = sourceID, le_Description = e_Description e\<rparr>"

definition InsertTransactionWithEntriesTx ::
  "id \<Rightarrow> id \<Rightarrow> string \<Rightarrow> string \<Rightarrow> string \<Rightarrow> entry list \<Rightarrow> ledger_db \<Rightarrow> ledger_error + ledger_db" where
  "InsertTransactionWithEntriesTx txnID merchantID sourceType sourceID description entries db =
     (case txn_totals 0 0 ''INR'' entries of (totalDebit, totalCredit, txnCurrency) \<Rightarrow>
      let txn = \<lparr>lt_ID = txnID, lt_MerchantID = merchantID, lt_SourceType = sourceType,
                 lt_SourceID = sourceID, lt_Currency = txnCurrency, lt_TotalDebit = totalDebit,
                 lt_TotalCredit = totalCredit, lt_Description = description\<rparr> in
      if txnID \<in> lt_ID ` set (ledger_transactions db)
         \<or> (sourceType, sourceID) \<in> (\<lambda>t. (lt_SourceType t, lt_SourceID t)) ` set (ledger_transactions db)
         \<or> \<not> totalDebit > 0 \<or> \<not> totalCredit > 0 \<or> totalDebit \<noteq> totalCredit
      then Inl ErrLedgerConstraint
      else if \<not> list_all entry_ok entries then Inl ErrLedgerConstraint
      else Inr (db\<lparr>ledger_transactions := ledger_transactions db @ [txn],
                  ledger_entries := ledger_entries db
                    @ map (entry_row txnID merchantID sourceType sourceID txnCurrency) entries\<rparr>))"

definition CreateEntriesTx ::
  "id \<Rightarrow> id \<Rightarrow> string \<Rightarrow> string \<Rightarrow> string \<Rightarrow> entry list \<Rightarrow> ledger_db \<Rightarrow> ledger_error + ledger_db" where
  "CreateEntriesTx txnID merchantID sourceType sourceID description entries db =
     bindR (ValidateEntries entries) (\<lambda>_.
       InsertTransactionWithEntriesTx txnID merchantID sourceType sourceID description entries db)"

section \<open>Balances\<close>

definition scan64 :: "int \<Rightarrow> ledger_error + int" where
  "scan64 x = (if in64 x then Inr x else Inl ErrScanRange)"

definition balance_where :: "(ledger_entry \<Rightarrow> bool) \<Rightarrow> ledger_db \<Rightarrow> int" where
  "balance_where p db = sum_where p (\<lambda>e. le_DebitAmount e - le_CreditAmount e) (ledger_entries db)"

definition GetBalance :: "id \<Rightarrow> string \<Rightarrow> ledger_db \<Rightarrow> ledger_error + int" where
  "GetBalance merchantID accountCode db =
     scan64 (balance_where (\<lambda>e. le_MerchantID e = merchantID \<and> le_AccountCode e = accountCode) db)"

definition GetBalanceByCurrency :: "id \<Rightarrow> string \<Rightarrow> string \<Rightarrow> ledger_db \<Rightarrow> ledger_error + int" where
  "GetBalanceByCurrency merchantID accountCode currency db =
     (let currency = (if currency = '''' then ''INR'' else currency) in
      scan64 (balance_where (\<lambda>e. le_MerchantID e = merchantID \<and> le_AccountCode e = accountCode
                                 \<and> le_Currency e = currency) db))"

definition GetAllBalances :: "id \<Rightarrow> ledger_db \<Rightarrow> (string \<times> int) list" where
  "GetAllBalances merchantID db =
     map (\<lambda>code. (code, balance_where (\<lambda>e. le_AccountCode e = code \<and> le_MerchantID e = merchantID) db))
       ledger_accounts"

definition hold_reserves :: "id \<Rightarrow> string \<Rightarrow> string \<Rightarrow> time \<Rightarrow> hold \<Rightarrow> bool" where
  "hold_reserves merchantID accountCode currency now h \<longleftrightarrow>
     h_MerchantID h = merchantID \<and> h_AccountCode h = accountCode \<and> h_Currency h = currency
     \<and> h_Status h = HoldActive
     \<and> (case h_ExpiresAt h of None \<Rightarrow> True | Some t \<Rightarrow> t > now)"

definition SumActiveHolds :: "id \<Rightarrow> string \<Rightarrow> string \<Rightarrow> time \<Rightarrow> ledger_db \<Rightarrow> ledger_error + int" where
  "SumActiveHolds merchantID accountCode currency now db =
     scan64 (sum_where (hold_reserves merchantID accountCode currency now) h_Amount (ledger_holds db))"

definition GetReservedBalance :: "id \<Rightarrow> string \<Rightarrow> string \<Rightarrow> time \<Rightarrow> ledger_db \<Rightarrow> ledger_error + int" where
  "GetReservedBalance merchantID accountCode currency now db =
     SumActiveHolds merchantID accountCode (if currency = '''' then ''INR'' else currency) now db"

definition GetPayoutableBalance :: "id \<Rightarrow> string \<Rightarrow> time \<Rightarrow> ledger_db \<Rightarrow> ledger_error + int" where
  "GetPayoutableBalance merchantID currency now db =
     bindR (GetBalanceByCurrency merchantID ''SETTLEMENT_CLEARING'' currency db) (\<lambda>balance.
     bindR (GetReservedBalance merchantID ''SETTLEMENT_CLEARING'' currency now db) (\<lambda>reserved.
       let available = i64 ((if balance < 0 then i64 (- balance) else 0) - reserved) in
       Inr (if available < 0 then 0 else available)))"

definition CanReserveForPayout :: "id \<Rightarrow> string \<Rightarrow> int \<Rightarrow> time \<Rightarrow> ledger_db \<Rightarrow> ledger_error + unit" where
  "CanReserveForPayout merchantID currency amount now db =
     bindR (GetPayoutableBalance merchantID currency now db) (\<lambda>available.
       if available < amount then Inl ErrHoldInsufficient else Inr ())"

section \<open>Holds\<close>

text \<open>\<open>strings.TrimSpace\<close> on ASCII input.\<close>

definition is_space :: "char \<Rightarrow> bool" where
  "is_space c \<longleftrightarrow> of_char c \<in> {9, 10, 11, 12, 13, 32 :: nat}"

definition TrimSpace :: "string \<Rightarrow> string" where
  "TrimSpace s = rev (dropWhile is_space (rev (dropWhile is_space s)))"

definition CreateHold :: "id \<Rightarrow> time \<Rightarrow> create_hold_input \<Rightarrow> ledger_db \<Rightarrow> ledger_error + hold \<times> ledger_db" where
  "CreateHold newid now inp db =
     (let currency = (if ch_Currency inp = '''' then ''INR'' else ch_Currency inp);
          account = TrimSpace (ch_AccountCode inp);
          stype = TrimSpace (ch_SourceType inp);
          sid = TrimSpace (ch_SourceID inp) in
      if account = '''' \<or> stype = '''' \<or> sid = '''' \<or> ch_Amount inp \<le> 0
      then Inl ErrInvalidHoldInput
      else
        let h = \<lparr>h_ID = newid, h_MerchantID = ch_MerchantID inp, h_AccountCode = account,
                 h_SourceType = stype, h_SourceID = sid, h_Reason = ch_Reason inp,
                 h_Currency = currency, h_Amount = ch_Amount inp, h_Status = HoldActive,
                 h_IdempotencyKey = ch_IdempotencyKey inp, h_TargetAccountCode = '''',
                 h_Description = '''', h_ExpiresAt = ch_ExpiresAt inp, h_ReleasedAt = None,
                 h_CommittedAt = None, h_CreatedAt = now, h_UpdatedAt = now\<rparr> in
        (case insert_pk h_ID h (ledger_holds db) of
           None \<Rightarrow> Inl ErrLedgerConstraint
         | Some holds \<Rightarrow> Inr (h, db\<lparr>ledger_holds := holds\<rparr>)))"

definition hold_at :: "id \<Rightarrow> id \<Rightarrow> hold \<Rightarrow> bool" where
  "hold_at merchantID holdID h \<longleftrightarrow> h_ID h = holdID \<and> h_MerchantID h = merchantID"

definition GetHold :: "id \<Rightarrow> id \<Rightarrow> ledger_db \<Rightarrow> ledger_error + hold" where
  "GetHold merchantID holdID db =
     (case find (hold_at merchantID holdID) (ledger_holds db) of
        None \<Rightarrow> Inl ErrHoldNotFound | Some h \<Rightarrow> Inr h)"

text \<open>
  The \<open>UPDATE ... WHERE status = 'active' RETURNING\<close> of release, extend and expire: the
  updated row, or nothing.
\<close>

definition update_active ::
  "id \<Rightarrow> id \<Rightarrow> (hold \<Rightarrow> hold) \<Rightarrow> ledger_db \<Rightarrow> (hold \<times> ledger_db) option" where
  "update_active merchantID holdID f db =
     (let p = (\<lambda>h. hold_at merchantID holdID h \<and> h_Status h = HoldActive) in
      case find p (ledger_holds db) of
        None \<Rightarrow> None
      | Some h \<Rightarrow> Some (f h, db\<lparr>ledger_holds := upd_where p f (ledger_holds db)\<rparr>))"

definition ReleaseHold :: "id \<Rightarrow> id \<Rightarrow> time \<Rightarrow> ledger_db \<Rightarrow> ledger_error + hold \<times> ledger_db" where
  "ReleaseHold merchantID holdID now db =
     (case update_active merchantID holdID
             (\<lambda>h. h\<lparr>h_Status := HoldReleased, h_ReleasedAt := Some now, h_UpdatedAt := now\<rparr>) db of
        Some r \<Rightarrow> Inr r
      | None \<Rightarrow> bindR (GetHold merchantID holdID db) (\<lambda>existing.
          if h_Status existing = HoldReleased then Inr (existing, db)
          else if h_Status existing \<noteq> HoldActive then Inl ErrHoldNotActive
          else Inl ErrNoRows))"

definition ExtendHold :: "id \<Rightarrow> id \<Rightarrow> time option \<Rightarrow> time \<Rightarrow> ledger_db \<Rightarrow> ledger_error + hold \<times> ledger_db" where
  "ExtendHold merchantID holdID expiresAt now db =
     (case update_active merchantID holdID
             (\<lambda>h. h\<lparr>h_ExpiresAt := expiresAt, h_UpdatedAt := now\<rparr>) db of
        Some r \<Rightarrow> Inr r
      | None \<Rightarrow> bindR (GetHold merchantID holdID db) (\<lambda>existing.
          if h_Status existing \<noteq> HoldActive then Inl ErrHoldNotActive
          else Inl ErrNoRows))"

definition ExpireHold :: "id \<Rightarrow> id \<Rightarrow> time \<Rightarrow> ledger_db \<Rightarrow> ledger_error + hold \<times> ledger_db" where
  "ExpireHold merchantID holdID now db =
     (case update_active merchantID holdID
             (\<lambda>h. h\<lparr>h_Status := HoldExpired, h_UpdatedAt := now\<rparr>) db of
        Some r \<Rightarrow> Inr r
      | None \<Rightarrow> bindR (GetHold merchantID holdID db) (\<lambda>existing.
          if h_Status existing = HoldExpired then Inr (existing, db)
          else if h_Status existing \<noteq> HoldActive then Inl ErrHoldNotActive
          else Inl ErrNoRows))"

definition CommitHold ::
  "id \<Rightarrow> id \<Rightarrow> id \<Rightarrow> string \<Rightarrow> string \<Rightarrow> time \<Rightarrow> ledger_db \<Rightarrow> ledger_error + hold \<times> ledger_db" where
  "CommitHold txnID merchantID holdID target description now db =
     (if TrimSpace target = '''' then Inl ErrTargetAccountRequired
      else
      let description = (if TrimSpace description = '''' then ''ledger hold commit'' else description) in
      case find (hold_at merchantID holdID) (ledger_holds db) of
        None \<Rightarrow> Inl ErrHoldNotFound
      | Some h \<Rightarrow>
          if h_Status h = HoldCommitted then Inr (h, db)
          else if h_Status h \<noteq> HoldActive then Inl ErrHoldNotActive
          else
          let entries =
                [\<lparr>e_AccountCode = h_AccountCode h, e_DebitAmount = h_Amount h, e_CreditAmount = 0,
                  e_Currency = h_Currency h, e_Description = description\<rparr>,
                 \<lparr>e_AccountCode = target, e_DebitAmount = 0, e_CreditAmount = h_Amount h,
                  e_Currency = h_Currency h, e_Description = description\<rparr>];
              commit = (\<lambda>r. r\<lparr>h_Status := HoldCommitted, h_TargetAccountCode := target,
                              h_Description := description, h_CommittedAt := Some now,
                              h_UpdatedAt := now\<rparr>) in
          bindR (ValidateEntries entries) (\<lambda>_.
          bindR (InsertTransactionWithEntriesTx txnID (h_MerchantID h) ''ledger_hold_commit''
                   (h_ID h) description entries db) (\<lambda>db'.
            Inr (commit h, db'\<lparr>ledger_holds :=
                   upd_where (hold_at merchantID holdID) commit (ledger_holds db')\<rparr>))))"

definition hold_due :: "time \<Rightarrow> hold \<Rightarrow> bool" where
  "hold_due now h \<longleftrightarrow> h_Status h = HoldActive
     \<and> (case h_ExpiresAt h of None \<Rightarrow> False | Some t \<Rightarrow> t \<le> now)"

definition due_holds :: "int \<Rightarrow> time \<Rightarrow> ledger_db \<Rightarrow> hold list" where
  "due_holds limit now db =
     take (nat (if limit \<le> 0 then 100 else limit))
       (sort_key (\<lambda>h. the (h_ExpiresAt h)) (filter (hold_due now) (ledger_holds db)))"

definition ExpireDueHolds :: "int \<Rightarrow> time \<Rightarrow> ledger_db \<Rightarrow> nat \<times> ledger_db" where
  "ExpireDueHolds limit now db =
     (let p = (\<lambda>h. h_ID h \<in> h_ID ` set (due_holds limit now db)) in
      (length (filter p (ledger_holds db)),
       db\<lparr>ledger_holds := upd_where p (\<lambda>h. h\<lparr>h_Status := HoldExpired, h_UpdatedAt := now\<rparr>)
                            (ledger_holds db)\<rparr>))"

section \<open>Posting is balanced\<close>

definition debits :: "entry list \<Rightarrow> int" where
  "debits es = sum_list (map e_DebitAmount es)"

definition credits :: "entry list \<Rightarrow> int" where
  "credits es = sum_list (map e_CreditAmount es)"

lemma debits_simps [simp]: "debits [] = 0" "debits (e # es) = e_DebitAmount e + debits es"
  "debits (es @ fs) = debits es + debits fs"
  by (simp_all add: debits_def)

lemma credits_simps [simp]: "credits [] = 0" "credits (e # es) = e_CreditAmount e + credits es"
  "credits (es @ fs) = credits es + credits fs"
  by (simp_all add: credits_def)

definition one_sided :: "entry \<Rightarrow> bool" where
  "one_sided e \<longleftrightarrow> \<not> (e_DebitAmount e > 0 \<and> e_CreditAmount e > 0)
     \<and> \<not> (e_DebitAmount e = 0 \<and> e_CreditAmount e = 0)"

lemma validate_loop_Inr:
  "validate_loop d c es = Inr (d', c') \<Longrightarrow>
     i64 d' = i64 (d + debits es) \<and> i64 c' = i64 (c + credits es) \<and> list_all one_sided es"
proof (induction es arbitrary: d c)
  case (Cons e es)
  from Cons.prems
  have "validate_loop (i64 (d + e_DebitAmount e)) (i64 (c + e_CreditAmount e)) es = Inr (d', c')"
    and "one_sided e"
    by (auto simp: Let_def one_sided_def split: if_splits)
  with Cons.IH show ?case by (fastforce simp: add.assoc)
qed simp

lemma validate_loop_range:
  "validate_loop d c es = Inr (d', c') \<Longrightarrow> in64 d \<Longrightarrow> in64 c \<Longrightarrow> in64 d' \<and> in64 c'"
  by (induction es arbitrary: d c) (auto simp: Let_def split: if_splits)

lemma validate_loop_ok: "list_all one_sided es \<Longrightarrow> \<exists>d' c'. validate_loop d c es = Inr (d', c')"
  by (induction es arbitrary: d c) (auto simp: one_sided_def)

lemma ValidateEntries_balanced:
  assumes "ValidateEntries es = Inr ()" shows "debits es mod 2 ^ 64 = credits es mod 2 ^ 64"
proof -
  from assms obtain d where "validate_loop 0 0 es = Inr (d, d)"
    by (auto simp: ValidateEntries_def bindR_Inr_iff split: if_splits)
  from validate_loop_Inr [OF this] have "i64 (debits es) = i64 (credits es)" by simp
  then show ?thesis by (simp only: i64_eq_iff)
qed

lemma ValidateEntries_wrap_iff:
  "ValidateEntries es = Inr () \<longleftrightarrow> debits es mod 2 ^ 64 = credits es mod 2 ^ 64 \<and> list_all one_sided es"
    (is "?v \<longleftrightarrow> ?b \<and> ?s")
proof
  assume v: ?v
  then obtain d where d: "validate_loop 0 0 es = Inr (d, d)"
    by (auto simp: ValidateEntries_def bindR_Inr_iff split: if_splits)
  then show "?b \<and> ?s" using validate_loop_Inr [OF d] ValidateEntries_balanced [OF v] by blast
next
  assume bs: "?b \<and> ?s"
  then obtain d c where dc: "validate_loop 0 0 es = Inr (d, c)" using validate_loop_ok by blast
  have "in64 d" "in64 c" using validate_loop_range [OF dc] by simp_all
  then have "d = i64 (debits es)" "c = i64 (credits es)" using validate_loop_Inr [OF dc] by simp_all
  then have "d = c" using bs by (simp only: i64_eq_iff)
  then show ?v using dc by (simp add: ValidateEntries_def)
qed

lemma ValidateEntries_iff:
  assumes "in64 (debits es)" "in64 (credits es)"
  shows "ValidateEntries es = Inr () \<longleftrightarrow> debits es = credits es \<and> list_all one_sided es"
proof -
  have "debits es = i64 (debits es)" "credits es = i64 (credits es)" using assms by simp_all
  then have "debits es mod 2 ^ 64 = credits es mod 2 ^ 64 \<longleftrightarrow> debits es = credits es"
    by (metis i64_eq_iff)
  then show ?thesis by (simp only: ValidateEntries_wrap_iff)
qed

lemma ValidateEntries_zero_entry:
  assumes "e \<in> set es" "\<forall>e \<in> set es. \<not> (e_DebitAmount e > 0 \<and> e_CreditAmount e > 0)"
    "e_DebitAmount e = 0" "e_CreditAmount e = 0"
  shows "ValidateEntries es = Inl ErrInvalidEntrySide"
proof -
  have "validate_loop d c es = Inl ErrInvalidEntrySide" for d c
    using assms by (induction es arbitrary: d c) (auto simp: Let_def)
  then show ?thesis by (simp add: ValidateEntries_def)
qed

lemma txn_totals_eq:
  "fst (txn_totals d c cur es) = (if es = [] then d else i64 (d + debits es))
   \<and> fst (snd (txn_totals d c cur es)) = (if es = [] then c else i64 (c + credits es))"
proof (induction es arbitrary: d c cur)
  case (Cons e es)
  then show ?case by (cases "es = []") (simp_all add: add.assoc)
qed simp

text \<open>The currency of a transaction is that of the last entry naming one, else INR.\<close>

definition post_currency :: "entry list \<Rightarrow> string" where
  "post_currency es = snd (snd (txn_totals 0 0 ''INR'' es))"

lemma txn_currency_none:
  "(\<forall>e \<in> set es. e_Currency e = '''') \<Longrightarrow> snd (snd (txn_totals d c cur es)) = cur"
  by (induction es arbitrary: d c cur) auto

lemma txn_currency_all:
  "(\<forall>e \<in> set es. e_Currency e = k) \<Longrightarrow> k \<noteq> '''' \<Longrightarrow> es \<noteq> [] \<Longrightarrow>
     snd (snd (txn_totals d c cur es)) = k"
proof (induction es arbitrary: d c cur)
  case (Cons e es)
  then show ?case by (cases "es = []") auto
qed simp

definition txn_rows :: "id \<Rightarrow> id \<Rightarrow> string \<Rightarrow> string \<Rightarrow> entry list \<Rightarrow> ledger_entry list" where
  "txn_rows txnID m st sid es = map (entry_row txnID m st sid (post_currency es)) es"

definition source_of :: "ledger_transaction \<Rightarrow> string \<times> string" where
  "source_of t = (lt_SourceType t, lt_SourceID t)"

definition txn_row :: "id \<Rightarrow> id \<Rightarrow> string \<Rightarrow> string \<Rightarrow> string \<Rightarrow> entry list \<Rightarrow> ledger_transaction" where
  "txn_row txnID m st sid desc es =
     \<lparr>lt_ID = txnID, lt_MerchantID = m, lt_SourceType = st, lt_SourceID = sid,
      lt_Currency = post_currency es, lt_TotalDebit = i64 (debits es),
      lt_TotalCredit = i64 (credits es), lt_Description = desc\<rparr>"

lemma InsertTransaction_Inr:
  "InsertTransactionWithEntriesTx txnID m st sid desc es db = Inr db' \<longleftrightarrow>
     txnID \<notin> lt_ID ` set (ledger_transactions db)
     \<and> (st, sid) \<notin> source_of ` set (ledger_transactions db)
     \<and> i64 (debits es) > 0 \<and> i64 (debits es) = i64 (credits es) \<and> list_all entry_ok es
     \<and> db' = db\<lparr>ledger_transactions := ledger_transactions db @ [txn_row txnID m st sid desc es],
               ledger_entries := ledger_entries db @ txn_rows txnID m st sid es\<rparr>"
proof -
  obtain d c k where t: "txn_totals 0 0 ''INR'' es = (d, c, k)" by (metis prod_cases3)
  have "d = i64 (debits es)" "c = i64 (credits es)" "k = post_currency es"
    using txn_totals_eq [of 0 0 "''INR''" es] t by (auto simp: post_currency_def split: if_splits)
  moreover have "source_of ` T = (\<lambda>t. (lt_SourceType t, lt_SourceID t)) ` T" for T
    by (simp add: source_of_def)
  ultimately show ?thesis
    by (auto simp: InsertTransactionWithEntriesTx_def t Let_def txn_rows_def txn_row_def)
qed

lemma CreateEntriesTx_Inr:
  "CreateEntriesTx txnID m st sid desc es db = Inr db' \<longleftrightarrow>
     ValidateEntries es = Inr () \<and> InsertTransactionWithEntriesTx txnID m st sid desc es db = Inr db'"
  by (auto simp: CreateEntriesTx_def bindR_Inr_iff)

text \<open>The entries of a merchant net to zero: the trial balance.\<close>

definition trial_balance :: "id \<Rightarrow> ledger_db \<Rightarrow> int" where
  "trial_balance m db = balance_where (\<lambda>e. le_MerchantID e = m) db"

lemma sum_where_rows:
  "sum_where p (\<lambda>e. le_DebitAmount e - le_CreditAmount e) (map (entry_row t m st sid k) es)
     = sum_where (\<lambda>e. p (entry_row t m st sid k e)) (\<lambda>e. e_DebitAmount e - e_CreditAmount e) es"
  by (induction es) (auto simp: entry_row_def)

lemma sum_where_all:
  "sum_where (\<lambda>e. b) (\<lambda>e. e_DebitAmount e - e_CreditAmount e) es = (if b then debits es - credits es else 0)"
  by (induction es) auto

lemma balance_where_post:
  assumes "InsertTransactionWithEntriesTx txnID m st sid desc es db = Inr db'"
  shows "balance_where p db' = balance_where p db
    + sum_where (\<lambda>e. p (entry_row txnID m st sid (post_currency es) e)) (\<lambda>e. e_DebitAmount e - e_CreditAmount e) es"
  using assms by (auto simp: InsertTransaction_Inr balance_where_def txn_rows_def sum_where_rows)

lemma trial_balance_post:
  assumes "InsertTransactionWithEntriesTx txnID m st sid desc es db = Inr db'"
  shows "trial_balance m' db' = trial_balance m' db + (if m' = m then debits es - credits es else 0)"
  using balance_where_post [OF assms, of "\<lambda>e. le_MerchantID e = m'"]
  by (auto simp: trial_balance_def entry_row_def sum_where_all)

section \<open>The journal contract\<close>

text \<open>
  What the money flows rely on: a post appends rows, keeps the earlier ones, and leaves the
  trial balance of every merchant where it was. \<open>fits\<close> is the caller's side of the contract
  (the totals of the request fit an int64).
\<close>

locale journal =
  fixes post :: "'req \<Rightarrow> 'db \<Rightarrow> 'err + 'db"
    and rows :: "'db \<Rightarrow> ledger_entry list"
    and net :: "id \<Rightarrow> 'db \<Rightarrow> int"
    and fits :: "'req \<Rightarrow> bool"
  assumes post_prefix: "post r db = Inr db' \<Longrightarrow> prefix (rows db) (rows db')"
    and post_net: "post r db = Inr db' \<Longrightarrow> fits r \<Longrightarrow> net m db' = net m db"
begin

lemma posts_prefix: "run_machine (\<lambda>db r. post r db) db rs = Inr db' \<Longrightarrow> prefix (rows db) (rows db')"
proof (induction rs arbitrary: db)
  case (Cons r rs)
  then obtain db1 where "post r db = Inr db1" "run_machine (\<lambda>db r. post r db) db1 rs = Inr db'"
    by (auto simp: bindR_Inr_iff)
  with Cons.IH post_prefix show ?case by (meson prefix_order.trans)
qed simp

lemma posts_net:
  "run_machine (\<lambda>db r. post r db) db rs = Inr db' \<Longrightarrow> list_all fits rs \<Longrightarrow> net m db' = net m db"
proof (induction rs arbitrary: db)
  case (Cons r rs)
  then obtain db1 where "post r db = Inr db1" "run_machine (\<lambda>db r. post r db) db1 rs = Inr db'"
    by (auto simp: bindR_Inr_iff)
  with Cons show ?case by (auto simp: post_net)
qed simp

end

record post_request =
  pr_TxnID :: id
  pr_MerchantID :: id
  pr_SourceType :: string
  pr_SourceID :: string
  pr_Description :: string
  pr_Entries :: "entry list"

definition post_entries :: "post_request \<Rightarrow> ledger_db \<Rightarrow> ledger_error + ledger_db" where
  "post_entries r db = CreateEntriesTx (pr_TxnID r) (pr_MerchantID r) (pr_SourceType r)
     (pr_SourceID r) (pr_Description r) (pr_Entries r) db"

definition totals_fit :: "entry list \<Rightarrow> bool" where
  "totals_fit es \<longleftrightarrow> in64 (debits es) \<and> in64 (credits es)"

interpretation lj: journal post_entries ledger_entries trial_balance "\<lambda>r. totals_fit (pr_Entries r)"
proof unfold_locales
  fix r db db'
  assume "post_entries r db = Inr db'"
  then show "prefix (ledger_entries db) (ledger_entries db')"
    by (auto simp: post_entries_def CreateEntriesTx_Inr InsertTransaction_Inr)
next
  fix r db db' m
  assume p: "post_entries r db = Inr db'" and fits: "totals_fit (pr_Entries r)"
  then have "debits (pr_Entries r) = credits (pr_Entries r)"
    using ValidateEntries_iff by (auto simp: post_entries_def CreateEntriesTx_Inr totals_fit_def)
  then show "trial_balance m db' = trial_balance m db"
    using trial_balance_post p by (auto simp: post_entries_def CreateEntriesTx_Inr)
qed

section \<open>The life of a hold\<close>

lemma update_active_Some:
  "update_active m i f db = Some (h', db') \<longleftrightarrow>
     (\<exists>h. find (\<lambda>h. hold_at m i h \<and> h_Status h = HoldActive) (ledger_holds db) = Some h \<and> h' = f h
        \<and> db' = db\<lparr>ledger_holds := upd_where (\<lambda>h. hold_at m i h \<and> h_Status h = HoldActive) f (ledger_holds db)\<rparr>)"
  by (auto simp: update_active_def Let_def split: option.splits)

lemma GetHold_Inr: "GetHold m i db = Inr h \<Longrightarrow> h \<in> set (ledger_holds db) \<and> hold_at m i h"
  by (auto simp: GetHold_def split: option.splits dest: find_SomeD)

definition commit_row :: "string \<Rightarrow> string \<Rightarrow> time \<Rightarrow> hold \<Rightarrow> hold" where
  "commit_row target desc now r = r\<lparr>h_Status := HoldCommitted, h_TargetAccountCode := target,
     h_Description := desc, h_CommittedAt := Some now, h_UpdatedAt := now\<rparr>"

definition commit_entries :: "hold \<Rightarrow> string \<Rightarrow> string \<Rightarrow> entry list" where
  "commit_entries h target desc =
     [\<lparr>e_AccountCode = h_AccountCode h, e_DebitAmount = h_Amount h, e_CreditAmount = 0,
       e_Currency = h_Currency h, e_Description = desc\<rparr>,
      \<lparr>e_AccountCode = target, e_DebitAmount = 0, e_CreditAmount = h_Amount h,
       e_Currency = h_Currency h, e_Description = desc\<rparr>]"

text \<open>A successful commit either finds the hold committed, or posts its one transaction.\<close>

lemma CommitHold_Inr:
  assumes "CommitHold t m i target desc now db = Inr (h', db')"
  obtains (replay) "find (hold_at m i) (ledger_holds db) = Some h'" "h_Status h' = HoldCommitted" "db' = db"
  | (posted) h d db1 where "find (hold_at m i) (ledger_holds db) = Some h" "h_Status h = HoldActive"
      "h' = commit_row target d now h"
      "InsertTransactionWithEntriesTx t (h_MerchantID h) ''ledger_hold_commit'' (h_ID h) d
         (commit_entries h target d) db = Inr db1"
      "db' = db1\<lparr>ledger_holds := upd_where (hold_at m i) (commit_row target d now) (ledger_holds db)\<rparr>"
proof (cases "find (hold_at m i) (ledger_holds db)")
  case None
  then show ?thesis using assms by (simp add: CommitHold_def Let_def split: if_splits)
next
  case (Some h)
  define d where "d = (if TrimSpace desc = '''' then ''ledger hold commit'' else desc)"
  show ?thesis
  proof (cases "h_Status h = HoldCommitted")
    case True
    then show ?thesis using assms Some replay by (auto simp: CommitHold_def Let_def split: if_splits)
  next
    case False
    then obtain db1 where *: "h_Status h = HoldActive"
        "InsertTransactionWithEntriesTx t (h_MerchantID h) ''ledger_hold_commit'' (h_ID h) d
           (commit_entries h target d) db = Inr db1"
        "h' = commit_row target d now h"
        "db' = db1\<lparr>ledger_holds := upd_where (hold_at m i) (commit_row target d now) (ledger_holds db1)\<rparr>"
      using assms Some
      by (auto simp: CommitHold_def Let_def bindR_Inr_iff d_def [symmetric] commit_entries_def
            commit_row_def [abs_def] split: if_splits)
    moreover have "ledger_holds db1 = ledger_holds db"
      using *(2) by (simp add: InsertTransaction_Inr)
    ultimately show ?thesis using posted [of h d db1] Some by simp
  qed
qed

inductive hold_step :: "ledger_db \<Rightarrow> ledger_db \<Rightarrow> bool" where
  create: "CreateHold i now inp db = Inr (h, db') \<Longrightarrow> in64 (ch_Amount inp) \<Longrightarrow> hold_step db db'"
| release: "ReleaseHold m i now db = Inr (h, db') \<Longrightarrow> hold_step db db'"
| extend: "ExtendHold m i e now db = Inr (h, db') \<Longrightarrow> hold_step db db'"
| expire: "ExpireHold m i now db = Inr (h, db') \<Longrightarrow> hold_step db db'"
| commit: "CommitHold t m i target desc now db = Inr (h, db') \<Longrightarrow> hold_step db db'"
| sweep: "ExpireDueHolds limit now db = (n, db') \<Longrightarrow> hold_step db db'"
| other: "CreateEntriesTx t m st sid desc es db = Inr db' \<Longrightarrow> st \<noteq> ''ledger_hold_commit'' \<Longrightarrow>
    hold_step db db'"

text \<open>
  A hold is committed exactly when the ledger holds a commit transaction for it; such a
  transaction is unique and moves the amount of the hold.
\<close>

definition hold_row_ok :: "ledger_transaction list \<Rightarrow> hold \<Rightarrow> bool" where
  "hold_row_ok txns h \<longleftrightarrow> h_Amount h > 0 \<and> in64 (h_Amount h)
     \<and> (h_Status h = HoldCommitted \<longleftrightarrow> (''ledger_hold_commit'', h_ID h) \<in> source_of ` set txns)"

definition txn_backed :: "hold list \<Rightarrow> ledger_transaction \<Rightarrow> bool" where
  "txn_backed hs t \<longleftrightarrow> (lt_SourceType t = ''ledger_hold_commit'' \<longrightarrow>
     (\<exists>h \<in> set hs. h_ID h = lt_SourceID t \<and> lt_TotalDebit t = h_Amount h \<and> lt_MerchantID t = h_MerchantID h))"

definition hold_inv :: "ledger_db \<Rightarrow> bool" where
  "hold_inv db \<longleftrightarrow> unique_key h_ID (ledger_holds db) \<and> unique_key source_of (ledger_transactions db)
     \<and> (\<forall>h \<in> set (ledger_holds db). hold_row_ok (ledger_transactions db) h)
     \<and> (\<forall>t \<in> set (ledger_transactions db). txn_backed (ledger_holds db) t)"

lemma hold_inv_unique: "hold_inv db \<Longrightarrow> unique_key h_ID (ledger_holds db)"
  by (simp add: hold_inv_def)

text \<open>Rewriting active holds without committing them keeps the invariant.\<close>

definition keeps_hold :: "hold \<Rightarrow> hold \<Rightarrow> bool" where
  "keeps_hold h h' \<longleftrightarrow> h_ID h' = h_ID h \<and> h_Amount h' = h_Amount h \<and> h_MerchantID h' = h_MerchantID h
     \<and> h_AccountCode h' = h_AccountCode h \<and> h_Currency h' = h_Currency h"

lemma txn_backed_upd:
  assumes "txn_backed hs t" and "\<And>h. h \<in> set hs \<Longrightarrow> p h \<Longrightarrow> keeps_hold h (f h)"
  shows "txn_backed (upd_where p f hs) t"
proof -
  have g: "keeps_hold h (if p h then f h else h)" if "h \<in> set hs" for h
    using assms(2) [OF that] by (simp add: keeps_hold_def)
  show ?thesis
    using assms(1) g unfolding txn_backed_def keeps_hold_def set_upd_where by (metis (lifting) imageI)
qed

lemma unique_ids_upd:
  assumes "unique_key h_ID hs" and "\<And>h. h \<in> set hs \<Longrightarrow> p h \<Longrightarrow> keeps_hold h (f h)"
  shows "unique_key h_ID (upd_where p f hs)"
proof -
  have "map h_ID (upd_where p f hs) = map h_ID hs"
    using assms(2) by (auto simp: upd_where_def keeps_hold_def)
  then show ?thesis using assms(1) by (simp only: unique_key_def)
qed

lemma hold_inv_upd:
  assumes inv: "hold_inv db"
    and upd: "\<And>h. h \<in> set (ledger_holds db) \<Longrightarrow> p h \<Longrightarrow>
       h_Status h = HoldActive \<and> h_Status (f h) \<noteq> HoldCommitted \<and> keeps_hold h (f h)"
  shows "hold_inv (db\<lparr>ledger_holds := upd_where p f (ledger_holds db)\<rparr>)"
proof -
  have "hold_row_ok (ledger_transactions db) (if p h then f h else h)" if "h \<in> set (ledger_holds db)" for h
    using upd [OF that] inv that by (auto simp: hold_inv_def hold_row_ok_def keeps_hold_def)
  then have "\<forall>h \<in> set (upd_where p f (ledger_holds db)). hold_row_ok (ledger_transactions db) h"
    unfolding set_upd_where by blast
  then show ?thesis
    using inv upd by (auto simp: hold_inv_def intro!: txn_backed_upd unique_ids_upd)
qed

lemma hold_inv_post:
  assumes "hold_inv db" "InsertTransactionWithEntriesTx t m st sid desc es db = Inr db'"
    "st \<noteq> ''ledger_hold_commit''"
  shows "hold_inv db'"
  using assms unfolding hold_inv_def InsertTransaction_Inr
  by (auto simp: txn_row_def source_of_def hold_row_ok_def txn_backed_def)

lemma hold_inv_commit:
  assumes inv: "hold_inv db" and h: "find (hold_at m i) (ledger_holds db) = Some h"
    and post: "InsertTransactionWithEntriesTx t (h_MerchantID h) ''ledger_hold_commit'' (h_ID h) d
         (commit_entries h target d) db = Inr db1"
  shows "hold_inv (db1\<lparr>ledger_holds := upd_where (hold_at m i) (commit_row target d now) (ledger_holds db)\<rparr>)"
proof -
  let ?txn = "txn_row t (h_MerchantID h) ''ledger_hold_commit'' (h_ID h) d (commit_entries h target d)"
  let ?hs = "upd_where (hold_at m i) (commit_row target d now) (ledger_holds db)"
  from h have hin: "h \<in> set (ledger_holds db)" and hat: "hold_at m i h" by (auto dest: find_SomeD)
  note inj = unique_key_inj [OF hold_inv_unique [OF inv]]
  have txns: "ledger_transactions db1 = ledger_transactions db @ [?txn]"
    and fresh: "(''ledger_hold_commit'', h_ID h) \<notin> source_of ` set (ledger_transactions db)"
    using post by (simp_all add: InsertTransaction_Inr)
  have keeps: "keeps_hold r (commit_row target d now r)" for r by (simp add: keeps_hold_def commit_row_def)
  have src: "source_of ?txn = (''ledger_hold_commit'', h_ID h)" by (simp add: source_of_def txn_row_def)
  have rows: "hold_row_ok (ledger_transactions db @ [?txn]) (if hold_at m i r then commit_row target d now r else r)"
    if r: "r \<in> set (ledger_holds db)" for r
  proof (cases "r = h")
    case True
    then show ?thesis using inv hin hat src by (auto simp: hold_inv_def hold_row_ok_def commit_row_def)
  next
    case False
    then have "h_ID r \<noteq> h_ID h" using inj r hin by blast
    then show ?thesis using inv r hat src by (auto simp: hold_inv_def hold_row_ok_def hold_at_def)
  qed
  then have "\<forall>r \<in> set ?hs. hold_row_ok (ledger_transactions db @ [?txn]) r"
    unfolding set_upd_where by blast
  moreover have "txn_backed (ledger_holds db) ?txn"
    using inv hin by (auto simp: txn_backed_def txn_row_def commit_entries_def hold_inv_def hold_row_ok_def)
  ultimately show ?thesis
    using inv fresh src keeps
    by (auto simp: hold_inv_def txns intro!: txn_backed_upd unique_ids_upd)
qed

lemma due_holds_active:
  "h \<in> set (due_holds limit now db) \<Longrightarrow> h \<in> set (ledger_holds db) \<and> hold_due now h"
  by (auto simp: due_holds_def dest: in_set_takeD)

lemma hold_step_inv: "hold_step db db' \<Longrightarrow> hold_inv db \<Longrightarrow> hold_inv db'"
proof (induction rule: hold_step.induct)
  case (create i now inp db h db')
  then have h: "h_Amount h > 0" "in64 (h_Amount h)" "h_ID h = i" "h_Status h = HoldActive"
    and db': "db' = db\<lparr>ledger_holds := ledger_holds db @ [h]\<rparr>"
    and i: "i \<notin> h_ID ` set (ledger_holds db)"
    by (auto simp: CreateHold_def Let_def insert_pk_def split: if_splits)
  have "(''ledger_hold_commit'', i) \<notin> source_of ` set (ledger_transactions db)"
    using create.prems i by (force simp: hold_inv_def source_of_def txn_backed_def)
  then show ?case
    using create.prems h i by (auto simp: db' hold_inv_def hold_row_ok_def txn_backed_def)
next
  case (release m i now db h db')
  then show ?case
    by (auto simp: ReleaseHold_def bindR_Inr_iff update_active_Some keeps_hold_def
        split: option.splits if_splits intro!: hold_inv_upd)
next
  case (extend m i e now db h db')
  then show ?case
    by (auto simp: ExtendHold_def bindR_Inr_iff update_active_Some keeps_hold_def
        split: option.splits if_splits intro!: hold_inv_upd)
next
  case (expire m i now db h db')
  then show ?case
    by (auto simp: ExpireHold_def bindR_Inr_iff update_active_Some keeps_hold_def
        split: option.splits if_splits intro!: hold_inv_upd)
next
  case (commit t m i target desc now db h db')
  from commit.hyps show ?case
  proof (cases rule: CommitHold_Inr)
    case replay
    then show ?thesis using commit.prems by simp
  next
    case (posted h0 d db1)
    then show ?thesis using hold_inv_commit [OF commit.prems] by simp
  qed
next
  case (sweep limit now db n db')
  have "h_Status h = HoldActive" if "h \<in> set (ledger_holds db)" "h_ID h \<in> h_ID ` set (due_holds limit now db)" for h
    using that due_holds_active unique_key_inj [OF hold_inv_unique [OF sweep.prems]]
    by (metis hold_due_def imageE)
  then show ?case
    using sweep by (auto simp: ExpireDueHolds_def Let_def keeps_hold_def intro!: hold_inv_upd)
next
  case (other t m st sid desc es db db')
  then show ?case by (auto simp: CreateEntriesTx_Inr intro: hold_inv_post)
qed

interpretation holds: invariant_system hold_step hold_inv
  by unfold_locales (rule hold_step_inv)

text \<open>A hold that left \<open>active\<close> never changes again; an active one keeps what it reserves.\<close>

definition hold_evolves :: "hold \<Rightarrow> hold \<Rightarrow> bool" where
  "hold_evolves h h' \<longleftrightarrow> keeps_hold h h' \<and> (h_Status h \<noteq> HoldActive \<longrightarrow> h' = h)"

lemma keeps_hold_refl [simp]: "keeps_hold h h"
  by (simp add: keeps_hold_def)

lemma hold_evolves_refl [simp]: "hold_evolves h h"
  by (simp add: hold_evolves_def)

lemma hold_kept [simp]: "h \<in> set hs \<Longrightarrow> \<exists>h' \<in> set hs. hold_evolves h h'"
  by (rule bexI [of _ h]) simp_all

lemma hold_evolves_trans: "hold_evolves h h' \<Longrightarrow> hold_evolves h' h'' \<Longrightarrow> hold_evolves h h''"
  by (auto simp: hold_evolves_def keeps_hold_def)

lemma evolves_upd:
  assumes "h \<in> set hs" and "p h \<Longrightarrow> h_Status h = HoldActive \<and> keeps_hold h (f h)"
  shows "\<exists>h' \<in> set (upd_where p f hs). hold_evolves h h'"
  using assms by (intro bexI [of _ "if p h then f h else h"]) (auto simp: set_upd_where hold_evolves_def)

lemma hold_step_evolves:
  "hold_step db db' \<Longrightarrow> hold_inv db \<Longrightarrow> h \<in> set (ledger_holds db) \<Longrightarrow>
     \<exists>h' \<in> set (ledger_holds db'). hold_evolves h h'"
proof (induction rule: hold_step.induct)
  case (create i now inp db h0 db')
  then show ?case
    by (auto simp: CreateHold_def Let_def insert_pk_def split: if_splits intro!: bexI [of _ h])
next
  case (commit t m i target desc now db h0 db')
  from commit.hyps show ?case
  proof (cases rule: CommitHold_Inr)
    case replay
    then show ?thesis using commit.prems by (simp add: hold_kept)
  next
    case (posted h1 d db1)
    have "h1 \<in> set (ledger_holds db)" "hold_at m i h1" using posted(1) by (auto dest: find_SomeD)
    then have "hold_at m i h \<Longrightarrow> h = h1"
      using unique_key_inj [OF hold_inv_unique [OF commit.prems(1)] commit.prems(2)]
      by (auto simp: hold_at_def)
    then show ?thesis
      using posted commit.prems by (auto intro!: evolves_upd simp: keeps_hold_def commit_row_def)
  qed
next
  case (sweep limit now db n db')
  have "h_ID h \<in> h_ID ` set (due_holds limit now db) \<Longrightarrow> h_Status h = HoldActive"
    using due_holds_active unique_key_inj [OF hold_inv_unique [OF sweep.prems(1)] sweep.prems(2)]
    by (metis hold_due_def imageE)
  then show ?case
    using sweep by (auto simp: ExpireDueHolds_def Let_def keeps_hold_def intro!: evolves_upd)
qed (auto simp: ReleaseHold_def ExtendHold_def ExpireHold_def CreateEntriesTx_Inr InsertTransaction_Inr
       bindR_Inr_iff update_active_Some keeps_hold_def split: option.splits if_splits
       intro!: evolves_upd)

lemma hold_steps_evolve:
  "hold_step\<^sup>*\<^sup>* db db' \<Longrightarrow> hold_inv db \<Longrightarrow> h \<in> set (ledger_holds db) \<Longrightarrow>
     \<exists>h' \<in> set (ledger_holds db'). hold_evolves h h'"
proof (induction rule: rtranclp_induct)
  case base
  then show ?case by (intro bexI [of _ h]) simp_all
next
  case (step db1 db2)
  then obtain h1 where h1: "h1 \<in> set (ledger_holds db1)" "hold_evolves h h1" by blast
  have "hold_inv db1" using holds.inv_steps step.hyps(1) step.prems(1) by blast
  then obtain h2 where "h2 \<in> set (ledger_holds db2)" "hold_evolves h1 h2"
    using hold_step_evolves step.hyps(2) h1(1) by blast
  with h1(2) show ?case by (blast intro: hold_evolves_trans)
qed

section \<open>Commit and the payoutable balance\<close>

definition clearing_balance :: "id \<Rightarrow> string \<Rightarrow> ledger_db \<Rightarrow> int" where
  "clearing_balance m cur db = balance_where
     (\<lambda>e. le_MerchantID e = m \<and> le_AccountCode e = ''SETTLEMENT_CLEARING'' \<and> le_Currency e = cur) db"

definition reserved :: "id \<Rightarrow> string \<Rightarrow> time \<Rightarrow> ledger_db \<Rightarrow> int" where
  "reserved m cur now db =
     sum_where (hold_reserves m ''SETTLEMENT_CLEARING'' cur now) h_Amount (ledger_holds db)"

lemma GetPayoutableBalance_eq:
  assumes "cur \<noteq> ''''"
    and "in64 (clearing_balance m cur db)" "in64 (- clearing_balance m cur db)"
    and "0 \<le> reserved m cur now db" "in64 (reserved m cur now db)"
  shows "GetPayoutableBalance m cur now db
           = Inr (max 0 (max 0 (- clearing_balance m cur db) - reserved m cur now db))"
proof -
  let ?b = "clearing_balance m cur db" and ?r = "reserved m cur now db"
  have "in64 (max 0 (- ?b) - ?r)" using assms by (auto simp: in64_def)
  moreover have "(if ?b < 0 then i64 (- ?b) else 0) = max 0 (- ?b)" using assms(3) by simp
  moreover have "GetPayoutableBalance m cur now db
      = (let available = i64 ((if ?b < 0 then i64 (- ?b) else 0) - ?r) in
         Inr (if available < 0 then 0 else available))"
    using assms by (simp add: GetPayoutableBalance_def GetBalanceByCurrency_def GetReservedBalance_def
        SumActiveHolds_def scan64_def clearing_balance_def reserved_def)
  ultimately show ?thesis by (simp only: Let_def i64_id) (simp only: max_def not_less, simp)
qed

lemma reserved_nonneg: "hold_inv db \<Longrightarrow> 0 \<le> reserved m cur now db"
  unfolding reserved_def by (rule sum_where_nonneg) (force simp: hold_inv_def hold_row_ok_def)

lemma commit_moves_reservation:
  assumes inv: "hold_inv db" and find: "find (hold_at m i) (ledger_holds db) = Some h"
    and res: "hold_reserves m ''SETTLEMENT_CLEARING'' cur now h"
    and commit: "CommitHold t m i target desc now db = Inr (h', db')"
    and target: "target \<noteq> ''SETTLEMENT_CLEARING''" and cur: "cur \<noteq> ''''"
  shows "clearing_balance m cur db' = clearing_balance m cur db + h_Amount h"
    and "reserved m cur now db' = reserved m cur now db - h_Amount h"
proof -
  from find have hin: "h \<in> set (ledger_holds db)" and hat: "hold_at m i h" by (auto dest: find_SomeD)
  have act: "h_Status h = HoldActive" using res by (simp add: hold_reserves_def)
  from commit act find obtain d db1 where post:
      "InsertTransactionWithEntriesTx t (h_MerchantID h) ''ledger_hold_commit'' (h_ID h) d
         (commit_entries h target d) db = Inr db1"
    and db': "db' = db1\<lparr>ledger_holds := upd_where (hold_at m i) (commit_row target d now) (ledger_holds db)\<rparr>"
    by (cases rule: CommitHold_Inr) auto
  have cur': "post_currency (commit_entries h target d) = cur"
    using res cur unfolding post_currency_def by (intro txn_currency_all) (auto simp: commit_entries_def hold_reserves_def)
  have "clearing_balance m cur db' = clearing_balance m cur db1"
    by (simp add: db' clearing_balance_def balance_where_def)
  also have "\<dots> = clearing_balance m cur db + h_Amount h"
    using res target cur unfolding clearing_balance_def balance_where_post [OF post] cur'
    by (simp add: commit_entries_def entry_row_def hold_reserves_def)
  finally show "clearing_balance m cur db' = clearing_balance m cur db + h_Amount h" .
  have "\<And>s. s \<in> set (ledger_holds db) \<Longrightarrow> hold_at m i s \<Longrightarrow> h_ID s = h_ID h"
    using hat by (simp add: hold_at_def)
  then show "reserved m cur now db' = reserved m cur now db - h_Amount h"
    unfolding reserved_def db'
    using sum_where_upd_one [where key = h_ID, OF hold_inv_unique [OF inv] hin, of "hold_at m i"] hat res
    by (simp add: commit_row_def hold_reserves_def)
qed

section \<open>Properties\<close>

definition empty_ledger :: ledger_db where
  "empty_ledger = \<lparr>ledger_transactions = [], ledger_entries = [], ledger_holds = []\<rparr>"

lemma hold_inv_empty: "hold_inv empty_ledger"
  by (simp add: hold_inv_def empty_ledger_def)

text \<open>
  C29: Any sequence of accepted postings whose totals fit an int64 leaves the trial balance of
  every merchant unchanged, and only appends to the ledger entries.
\<close>

theorem postings_keep_trial_balance:
  assumes "run_machine (\<lambda>db r. post_entries r db) db rs = Inr db'"
    and "list_all (\<lambda>r. totals_fit (pr_Entries r)) rs"
  shows "trial_balance m db' = trial_balance m db \<and> prefix (ledger_entries db) (ledger_entries db')"
  using lj.posts_net [OF assms] lj.posts_prefix [OF assms(1)] by blast

definition sample_post :: "id \<Rightarrow> string \<Rightarrow> post_request" where
  "sample_post t sid = \<lparr>pr_TxnID = t, pr_MerchantID = ''m1'', pr_SourceType = ''payment'', pr_SourceID = sid,
     pr_Description = ''capture'', pr_Entries =
       [\<lparr>e_AccountCode = ''CUSTOMER_RECEIVABLE'', e_DebitAmount = 500, e_CreditAmount = 0, e_Currency = '''', e_Description = ''''\<rparr>,
        \<lparr>e_AccountCode = ''PLATFORM_FEE_REVENUE'', e_DebitAmount = 0, e_CreditAmount = 10, e_Currency = '''', e_Description = ''''\<rparr>,
        \<lparr>e_AccountCode = ''MERCHANT_PAYABLE'', e_DebitAmount = 0, e_CreditAmount = 490, e_Currency = '''', e_Description = ''''\<rparr>]\<rparr>"

theorem postings_keep_trial_balance_witness:
  "\<exists>db'. run_machine (\<lambda>db r. post_entries r db) empty_ledger [sample_post ''t1'' ''p1'', sample_post ''t2'' ''p2''] = Inr db'
     \<and> length (ledger_entries db') = 6 \<and> trial_balance ''m1'' db' = 0"
proof -
  let ?rs = "[sample_post ''t1'' ''p1'', sample_post ''t2'' ''p2'']"
  obtain db' where run: "run_machine (\<lambda>db r. post_entries r db) empty_ledger ?rs = Inr db'"
    and len: "length (ledger_entries db') = 6"
    by (simp add: post_entries_def CreateEntriesTx_def ValidateEntries_def sample_post_def
        InsertTransactionWithEntriesTx_def empty_ledger_def entry_ok_def ledger_accounts_def i64_def Let_def)
  have fit: "list_all (\<lambda>r. totals_fit (pr_Entries r)) ?rs"
    by (simp add: sample_post_def totals_fit_def in64_def)
  from postings_keep_trial_balance [OF run fit, of "''m1''"] len run show ?thesis
    by (simp add: trial_balance_def balance_where_def empty_ledger_def)
qed

text \<open>
  Exactly the postings with one-sided entries that balance modulo 2 to the 64 pass the
  validation: its int64 sums wrap around, and a posting of int64 amounts whose debits exceed its
  credits by 2 to the 64 passes the validation and the constraints of the tables, and is stored.
\<close>

theorem posting_balance_wraps:
  "(ValidateEntries es = Inr () \<longleftrightarrow> debits es mod 2 ^ 64 = credits es mod 2 ^ 64 \<and> list_all one_sided es)
   \<and> (\<exists>es db'. CreateEntriesTx ''t'' ''m'' ''payment'' ''p'' '''' es empty_ledger = Inr db'
        \<and> debits es = credits es + 2 ^ 64 \<and> list_all (\<lambda>e. in64 (e_DebitAmount e) \<and> in64 (e_CreditAmount e)) es)"
proof (intro conjI)
  show "ValidateEntries es = Inr () \<longleftrightarrow> debits es mod 2 ^ 64 = credits es mod 2 ^ 64 \<and> list_all one_sided es"
    by (rule ValidateEntries_wrap_iff)
next
  let ?e = "\<lambda>d c. \<lparr>e_AccountCode = ''MERCHANT_PAYABLE'', e_DebitAmount = d, e_CreditAmount = c,
     e_Currency = '''', e_Description = ''''\<rparr>"
  let ?es = "[?e (2 ^ 63 - 1) 0, ?e (2 ^ 63 - 1) 0, ?e 3 0, ?e 0 1]"
  have "\<exists>db'. CreateEntriesTx ''t'' ''m'' ''payment'' ''p'' '''' ?es empty_ledger = Inr db'"
    by (simp add: CreateEntriesTx_def ValidateEntries_def InsertTransactionWithEntriesTx_def
        empty_ledger_def entry_ok_def ledger_accounts_def i64_def Let_def)
  moreover have "debits ?es = credits ?es + 2 ^ 64" by simp
  moreover have "list_all (\<lambda>e. in64 (e_DebitAmount e) \<and> in64 (e_CreditAmount e)) ?es"
    by (simp add: in64_def)
  ultimately show "\<exists>es db'. CreateEntriesTx ''t'' ''m'' ''payment'' ''p'' '''' es empty_ledger = Inr db'
        \<and> debits es = credits es + 2 ^ 64 \<and> list_all (\<lambda>e. in64 (e_DebitAmount e) \<and> in64 (e_CreditAmount e)) es"
    by blast
qed


definition sample_hold_input :: create_hold_input where
  "sample_hold_input = \<lparr>ch_MerchantID = ''m1'', ch_AccountCode = ''SETTLEMENT_CLEARING'', ch_SourceType = ''payout'',
     ch_SourceID = ''po1'', ch_Reason = '''', ch_Currency = ''INR'', ch_Amount = 700, ch_IdempotencyKey = '''',
     ch_ExpiresAt = None\<rparr>"

definition sample_held :: ledger_db where
  "sample_held = snd (case CreateHold ''h1'' 10 sample_hold_input empty_ledger of Inr r \<Rightarrow> r)"

definition sample_committed :: ledger_db where
  "sample_committed = snd (case CommitHold ''t1'' ''m1'' ''h1'' ''MERCHANT_BANK_PAYOUT'' '''' 20 sample_held of Inr r \<Rightarrow> r)"

lemmas hold_eval = sample_hold_input_def empty_ledger_def CreateHold_def TrimSpace_def is_space_def
  insert_pk_def Let_def CommitHold_def hold_at_def ValidateEntries_def i64_def
  InsertTransactionWithEntriesTx_def entry_ok_def ledger_accounts_def entry_row_def

lemma sample_create: "\<exists>h. CreateHold ''h1'' 10 sample_hold_input empty_ledger = Inr (h, sample_held)"
  by (simp add: sample_held_def hold_eval)

lemma sample_commit:
  "\<exists>h. CommitHold ''t1'' ''m1'' ''h1'' ''MERCHANT_BANK_PAYOUT'' '''' 20 sample_held = Inr (h, sample_committed)"
  by (simp add: sample_committed_def sample_held_def hold_eval)

lemma sample_run: "hold_step\<^sup>*\<^sup>* empty_ledger sample_committed"
proof -
  have "in64 (ch_Amount sample_hold_input)" by (simp add: sample_hold_input_def in64_def)
  with sample_create have "hold_step empty_ledger sample_held" by (auto intro: hold_step.create)
  moreover from sample_commit have "hold_step sample_held sample_committed" by (auto intro: hold_step.commit)
  ultimately show ?thesis by (meson converse_rtranclp_into_rtranclp rtranclp.rtrancl_refl)
qed


text \<open>
  C29: A hold never leaves \<open>released\<close>, \<open>committed\<close> or \<open>expired\<close>: whatever operations follow, a
  hold that is not active stays as it is, and an active one keeps its merchant, account, currency
  and amount.
\<close>

theorem hold_terminal_states_stable:
  assumes "hold_step\<^sup>*\<^sup>* empty_ledger db" and "hold_step\<^sup>*\<^sup>* db db'" and "h \<in> set (ledger_holds db)"
  shows "\<exists>h' \<in> set (ledger_holds db'). h_ID h' = h_ID h \<and> h_Amount h' = h_Amount h
      \<and> h_MerchantID h' = h_MerchantID h \<and> h_AccountCode h' = h_AccountCode h
      \<and> h_Currency h' = h_Currency h \<and> (h_Status h \<noteq> HoldActive \<longrightarrow> h' = h)"
  using hold_steps_evolve [OF assms(2) holds.inv_steps [OF assms(1) hold_inv_empty] assms(3)]
  by (auto simp: hold_evolves_def keeps_hold_def)

theorem hold_terminal_states_stable_witness:
  "\<exists>h \<in> set (ledger_holds sample_held). h_Status h = HoldActive \<and>
     (\<exists>h' \<in> set (ledger_holds sample_committed). h_ID h' = h_ID h \<and> h_Amount h' = 700)"
proof -
  obtain h where h: "ledger_holds sample_held = [h]" "h_Status h = HoldActive" "h_Amount h = 700"
    by (simp add: sample_held_def hold_eval)
  have "in64 (ch_Amount sample_hold_input)" by (simp add: sample_hold_input_def in64_def)
  with sample_create have "hold_step\<^sup>*\<^sup>* empty_ledger sample_held" by (auto intro: hold_step.create)
  moreover from sample_commit have "hold_step\<^sup>*\<^sup>* sample_held sample_committed"
    by (auto intro: hold_step.commit)
  ultimately show ?thesis using hold_terminal_states_stable [of sample_held sample_committed h] h by auto
qed

text \<open>
  Committing a hold that is active, not expired and covered by the settlement clearing
  balance moves money out of the account and frees the reservation by the same amount: the
  payoutable balance of the merchant is the same before and after.
\<close>

theorem commit_keeps_payoutable_balance:
  assumes inv: "hold_inv db" and find: "find (hold_at m i) (ledger_holds db) = Some h"
    and res: "hold_reserves m ''SETTLEMENT_CLEARING'' cur now h"
    and commit: "CommitHold t m i target desc now db = Inr (h', db')"
    and target: "target \<noteq> ''SETTLEMENT_CLEARING''" and cur: "cur \<noteq> ''''"
    and range: "in64 (clearing_balance m cur db)" "in64 (- clearing_balance m cur db)"
    and covered: "reserved m cur now db \<le> - clearing_balance m cur db"
  shows "GetPayoutableBalance m cur now db' = GetPayoutableBalance m cur now db"
proof -
  let ?b = "clearing_balance m cur db" and ?r = "reserved m cur now db"
  note moves = commit_moves_reservation [OF inv find res commit target cur]
  have pos: "0 < h_Amount h" using inv find by (auto simp: hold_inv_def hold_row_ok_def dest: find_SomeD)
  have le: "h_Amount h \<le> ?r"
    unfolding reserved_def using inv res find
    by (intro sum_where_ge_member) (force simp: hold_inv_def hold_row_ok_def dest: find_SomeD)+
  have "GetPayoutableBalance m cur now db = Inr (max 0 (max 0 (- ?b) - ?r))"
    using range covered reserved_nonneg [OF inv, of m cur now] cur by (intro GetPayoutableBalance_eq) (auto simp: in64_def)
  moreover have "GetPayoutableBalance m cur now db' = Inr (max 0 (max 0 (- (?b + h_Amount h)) - (?r - h_Amount h)))"
    using range covered le pos cur unfolding moves [symmetric]
    by (intro GetPayoutableBalance_eq) (auto simp: in64_def moves)
  ultimately show ?thesis using covered le pos by simp
qed

definition sample_funded :: ledger_db where
  "sample_funded = sample_held\<lparr>ledger_entries := [\<lparr>le_TransactionID = ''t0'', le_MerchantID = ''m1'',
     le_AccountCode = ''SETTLEMENT_CLEARING'', le_DebitAmount = 0, le_CreditAmount = 1000, le_Currency = ''INR'',
     le_SourceType = ''settlement'', le_SourceID = ''s1'', le_Description = ''''\<rparr>]\<rparr>"

theorem commit_keeps_payoutable_balance_witness:
  "\<exists>h' db'. CommitHold ''t1'' ''m1'' ''h1'' ''MERCHANT_BANK_PAYOUT'' '''' 20 sample_funded = Inr (h', db')
     \<and> GetPayoutableBalance ''m1'' ''INR'' 20 db' = Inr 300"
proof -
  obtain h where h: "find (hold_at ''m1'' ''h1'') (ledger_holds sample_funded) = Some h"
      "hold_reserves ''m1'' ''SETTLEMENT_CLEARING'' ''INR'' 20 h"
    by (simp add: sample_funded_def sample_held_def hold_eval hold_reserves_def)
  have inv: "hold_inv sample_funded"
    by (simp add: sample_funded_def sample_held_def hold_eval hold_inv_def hold_row_ok_def in64_def unique_key_def)
  obtain h' db' where c: "CommitHold ''t1'' ''m1'' ''h1'' ''MERCHANT_BANK_PAYOUT'' '''' 20 sample_funded = Inr (h', db')"
    by (simp add: sample_funded_def sample_held_def hold_eval)
  have b: "clearing_balance ''m1'' ''INR'' sample_funded = -1000" "reserved ''m1'' ''INR'' 20 sample_funded = 700"
    by (simp_all add: sample_funded_def sample_held_def hold_eval clearing_balance_def reserved_def
        balance_where_def hold_reserves_def)
  have "GetPayoutableBalance ''m1'' ''INR'' 20 sample_funded = Inr 300"
    using b by (subst GetPayoutableBalance_eq) (simp_all add: in64_def)
  moreover have "GetPayoutableBalance ''m1'' ''INR'' 20 db' = GetPayoutableBalance ''m1'' ''INR'' 20 sample_funded"
    by (rule commit_keeps_payoutable_balance [OF inv h c]) (simp_all add: b in64_def)
  ultimately show ?thesis using c by auto
qed

end
