(* ===== verification/Order.thy ===== *)
theory Order
  imports Ledger Outbox "HOL-Library.Char_ord" "HOL-Library.List_Lexorder" "HOL-Library.Product_Lexorder" "HOL-Library.Multiset"
begin

text \<open>
  Orders (\<open>internal/order\<close>): validation, creation with an idempotency key, keyset pagination,
  expiry and the status machine. \<open>core_db\<close> is the part of the database every money flow
  writes in one transaction: the ledger, the outbox and the orders. Operations are polymorphic in
  the rest of the database, so the components above extend the record.

  An idempotency key is stored as NULL when it is empty; the model writes the empty string for
  NULL. A pagination cursor is the pair it encodes, or \<open>BadCursor\<close> when it does not decode.
  Table scans without \<open>ORDER BY\<close> run in insertion order.
\<close>

section \<open>Domain\<close>

datatype order_state = OrderCreated | OrderAttempted | OrderPaid | OrderFailed | OrderExpired

datatype order_event = EvAttempted | EvPaid | EvFailed | EvExpired

datatype order_error =
    ErrInvalidAmount
  | ErrInvalidCurrency
  | ErrOrderTransition
  | ErrInvalidCursor
  | ErrReceiptTooLong
  | ErrTooManyNotes
  | ErrNoteTooLong
  | ErrMerchantRequired
  | ErrOrderNotFound
  | ErrInsertOrder

datatype note_value = NoteStr string | NoteOther

record order =
  o_ID :: id
  o_MerchantID :: id
  o_IdempotencyKey :: string
  o_Amount :: int
  o_AmountPaid :: int
  o_AmountDue :: int
  o_Currency :: string
  o_Receipt :: string
  o_Status :: order_state
  o_PartialPayment :: bool
  o_Notes :: "(string \<times> note_value) list"
  o_ExpiresAt :: time
  o_CreatedAt :: time
  o_UpdatedAt :: time

record core_db =
  db_ledger :: ledger_db
  db_outbox :: "outbox_row list"
  db_orders :: "order list"

definition OrderTransition :: "order_state \<Rightarrow> order_event \<Rightarrow> order_error + order_state" where
  "OrderTransition from ev =
     (case (from, ev) of
        (OrderCreated, EvAttempted) \<Rightarrow> Inr OrderAttempted
      | (OrderCreated, EvExpired) \<Rightarrow> Inr OrderExpired
      | (OrderAttempted, EvPaid) \<Rightarrow> Inr OrderPaid
      | (OrderAttempted, EvFailed) \<Rightarrow> Inr OrderFailed
      | _ \<Rightarrow> Inl ErrOrderTransition)"

definition order_rank :: "order_state \<Rightarrow> nat" where
  "order_rank s = (case s of OrderCreated \<Rightarrow> 0 | OrderAttempted \<Rightarrow> 1 | _ \<Rightarrow> 2)"

interpretation om: ranked_machine OrderTransition order_rank 2
  by unfold_locales
     (auto simp: OrderTransition_def order_rank_def split: order_state.splits order_event.splits)

section \<open>Counting runes\<close>

text \<open>
  \<open>utf8.RuneCountInString\<close>: how many bytes the rune at the head of the byte sequence takes; an
  invalid or truncated sequence takes one byte.
\<close>

definition rune_size :: "nat list \<Rightarrow> nat" where
  "rune_size bs =
     (let c = hd bs;
          size = (if 194 \<le> c \<and> c \<le> 223 then 2 else if 224 \<le> c \<and> c \<le> 239 then 3
                  else if 240 \<le> c \<and> c \<le> 244 then 4 else (1::nat));
          lo = (if c = 224 then 160 else if c = 240 then 144 else 128);
          hi = (if c = 237 then 159 else if c = 244 then 143 else 191) in
      if size = 1 \<or> length bs < size then 1
      else if bs ! 1 < lo \<or> hi < bs ! 1 then 1
      else if \<exists>b \<in> set (take (size - 2) (drop 2 bs)). b < 128 \<or> 191 < b then 1
      else size)"

lemma rune_size_pos: "0 < rune_size bs"
  by (simp add: rune_size_def Let_def)

function rune_count :: "nat list \<Rightarrow> nat" where
  "rune_count [] = 0"
| "rune_count (b # bs) = Suc (rune_count (drop (rune_size (b # bs)) (b # bs)))"
  by pat_completeness auto
termination
  by (relation "measure length") (auto simp: rune_size_pos)

definition RuneCountInString :: "string \<Rightarrow> nat" where
  "RuneCountInString s = rune_count (map of_char s)"

section \<open>Validation\<close>

definition validateNotes :: "(string \<times> note_value) list \<Rightarrow> order_error + unit" where
  "validateNotes notes =
     (if length notes > 15 then Inl ErrTooManyNotes
      else if list_ex (\<lambda>(key, value). RuneCountInString key > 256
             \<or> (case value of NoteStr s \<Rightarrow> RuneCountInString s > 256 | NoteOther \<Rightarrow> False)) notes
      then Inl ErrNoteTooLong
      else Inr ())"

definition ValidateForCreate :: "order \<Rightarrow> order_error + unit" where
  "ValidateForCreate ord =
     (if o_Amount ord \<le> 0 then Inl ErrInvalidAmount
      else if o_Currency ord \<noteq> ''INR'' \<and> o_Currency ord \<noteq> ''USD'' then Inl ErrInvalidCurrency
      else if TrimSpace (o_MerchantID ord) = '''' then Inl ErrMerchantRequired
      else if RuneCountInString (o_Receipt ord) > 40 then Inl ErrReceiptTooLong
      else validateNotes (o_Notes ord))"

section \<open>Creation\<close>

record create_input =
  ci_MerchantID :: id
  ci_IdempotencyKey :: string
  ci_Amount :: int
  ci_Currency :: string
  ci_Receipt :: string
  ci_Notes :: "(string \<times> note_value) list"
  ci_PartialPayment :: bool

text \<open>\<open>strings.ToUpper\<close> on ASCII input.\<close>

definition upper_char :: "char \<Rightarrow> char" where
  "upper_char c = (if 97 \<le> (of_char c :: nat) \<and> (of_char c :: nat) \<le> 122
     then char_of ((of_char c :: nat) - 32) else c)"

definition ToUpper :: "string \<Rightarrow> string" where
  "ToUpper s = map upper_char s"

text \<open>Units of time: microseconds, the resolution of the database clock.\<close>

definition minutes :: "int \<Rightarrow> time" where
  "minutes n = n * 60 * 1000000"

definition order_at :: "id \<Rightarrow> id \<Rightarrow> order \<Rightarrow> bool" where
  "order_at merchantID orderID ord \<longleftrightarrow> o_ID ord = orderID \<and> o_MerchantID ord = merchantID"

definition GetOrder :: "id \<Rightarrow> id \<Rightarrow> 'a core_db_scheme \<Rightarrow> order_error + order" where
  "GetOrder merchantID orderID db =
     (case find (order_at merchantID orderID) (db_orders db) of
        None \<Rightarrow> Inl ErrOrderNotFound
      | Some ord \<Rightarrow> Inr (ord\<lparr>o_IdempotencyKey := ''''\<rparr>))"

definition getByIdempotencyKey :: "id \<Rightarrow> string \<Rightarrow> 'a core_db_scheme \<Rightarrow> order_error + order" where
  "getByIdempotencyKey merchantID key db =
     (case find (\<lambda>ord. o_MerchantID ord = merchantID \<and> o_IdempotencyKey ord = key) (db_orders db) of
        None \<Rightarrow> Inl ErrOrderNotFound
      | Some ord \<Rightarrow> GetOrder merchantID (o_ID ord) db)"

text \<open>The primary key and the partial unique index on merchant and idempotency key.\<close>

definition order_conflict :: "order \<Rightarrow> order list \<Rightarrow> bool" where
  "order_conflict ord rows \<longleftrightarrow> o_ID ord \<in> o_ID ` set rows
     \<or> (o_IdempotencyKey ord \<noteq> ''''
        \<and> (\<exists>r \<in> set rows. o_MerchantID r = o_MerchantID ord \<and> o_IdempotencyKey r = o_IdempotencyKey ord))"

definition order_created_event :: "order \<Rightarrow> outbox_event" where
  "order_created_event ord =
     \<lparr>ev_AggregateType = ''order'', ev_AggregateID = o_ID ord, ev_EventType = ''order.created'',
      ev_MerchantID = o_MerchantID ord,
      ev_Payload = [(''order_id'', PStr (o_ID ord)), (''merchant_id'', PStr (o_MerchantID ord)),
        (''amount'', PInt (o_Amount ord)), (''currency'', PStr (o_Currency ord)),
        (''status'', PStr ''created'')]\<rparr>"

definition InsertOrder ::
  "id \<Rightarrow> time \<Rightarrow> order \<Rightarrow> 'a core_db_scheme \<Rightarrow> order_error + order \<times> 'a core_db_scheme" where
  "InsertOrder evtID now ord db =
     (if order_conflict ord (db_orders db) then
        (if o_IdempotencyKey ord \<noteq> ''''
         then bindR (getByIdempotencyKey (o_MerchantID ord) (o_IdempotencyKey ord) db) (\<lambda>r. Inr (r, db))
         else Inl ErrInsertOrder)
      else
        let ord' = ord\<lparr>o_CreatedAt := now, o_UpdatedAt := now\<rparr> in
        Inr (ord', db\<lparr>db_orders := db_orders db @ [ord'],
                      db_outbox := WriteTx evtID now (order_created_event ord') (db_outbox db)\<rparr>))"

definition new_order :: "id \<Rightarrow> time \<Rightarrow> create_input \<Rightarrow> order" where
  "new_order newid now inp =
     (let currency = TrimSpace (ToUpper (ci_Currency inp)) in
      \<lparr>o_ID = newid, o_MerchantID = TrimSpace (ci_MerchantID inp),
       o_IdempotencyKey = TrimSpace (ci_IdempotencyKey inp), o_Amount = ci_Amount inp,
       o_AmountPaid = 0, o_AmountDue = ci_Amount inp,
       o_Currency = (if currency = '''' then ''INR'' else currency),
       o_Receipt = TrimSpace (ci_Receipt inp), o_Status = OrderCreated,
       o_PartialPayment = ci_PartialPayment inp, o_Notes = ci_Notes inp,
       o_ExpiresAt = now + minutes 30, o_CreatedAt = 0, o_UpdatedAt = 0\<rparr>)"

definition CreateOrder ::
  "id \<Rightarrow> id \<Rightarrow> time \<Rightarrow> create_input \<Rightarrow> 'a core_db_scheme \<Rightarrow> order_error + order \<times> 'a core_db_scheme" where
  "CreateOrder newid evtID now inp db =
     (let ord = new_order newid now inp in
      bindR (ValidateForCreate ord) (\<lambda>_. InsertOrder evtID now ord db))"

section \<open>Listing\<close>

datatype cursor = NoCursor | BadCursor | At time id

record list_filter =
  f_MerchantID :: id
  f_Count :: int
  f_From :: int
  f_To :: int
  f_Cursor :: cursor

record list_result =
  r_Items :: "order list"
  r_HasMore :: bool
  r_NextCursor :: cursor

definition order_key :: "order \<Rightarrow> time \<times> id" where
  "order_key ord = (o_CreatedAt ord, o_ID ord)"

definition list_count :: "list_filter \<Rightarrow> nat" where
  "list_count f = nat (if f_Count f \<le> 0 \<or> f_Count f > 100 then 10 else f_Count f)"

definition list_select :: "list_filter \<Rightarrow> order list \<Rightarrow> order list" where
  "list_select f rows = filter (\<lambda>ord. o_MerchantID ord = f_MerchantID f
      \<and> (f_From f > 0 \<longrightarrow> o_CreatedAt ord \<ge> f_From f * 1000000)
      \<and> (f_To f > 0 \<longrightarrow> o_CreatedAt ord \<le> f_To f * 1000000)) rows"

definition order_desc :: "order list \<Rightarrow> order list" where
  "order_desc rows = rev (sort_key order_key rows)"

definition ListOrders :: "list_filter \<Rightarrow> 'a core_db_scheme \<Rightarrow> order_error + list_result" where
  "ListOrders f db =
     (let count = list_count f;
          selected = list_select f (db_orders db);
          page = (\<lambda>rows.
            let fetched = take (Suc count) (order_desc rows);
                more = length fetched > count;
                items = (if more then take count fetched else fetched) in
            Inr \<lparr>r_Items = items, r_HasMore = more,
                 r_NextCursor = (if items = [] then NoCursor
                   else At (o_CreatedAt (last items)) (o_ID (last items)))\<rparr>) in
      case f_Cursor f of
        NoCursor \<Rightarrow> page selected
      | BadCursor \<Rightarrow> Inl ErrInvalidCursor
      | At t i \<Rightarrow> page (filter (\<lambda>ord. order_key ord < (t, i)) selected))"

section \<open>Expiry and payment\<close>

definition order_due :: "time \<Rightarrow> order \<Rightarrow> bool" where
  "order_due now ord \<longleftrightarrow> o_Status ord = OrderCreated \<and> o_ExpiresAt ord \<le> now"

definition ExpireDueOrders :: "time \<Rightarrow> 'a core_db_scheme \<Rightarrow> nat \<times> 'a core_db_scheme" where
  "ExpireDueOrders now db =
     (let ids = o_ID ` set (take 500 (filter (order_due now) (db_orders db))) in
      (length (filter (\<lambda>ord. o_ID ord \<in> ids) (db_orders db)),
       db\<lparr>db_orders := upd_where (\<lambda>ord. o_ID ord \<in> ids)
              (\<lambda>ord. ord\<lparr>o_Status := OrderExpired, o_UpdatedAt := now\<rparr>) (db_orders db)\<rparr>))"

definition MarkOrderPaid :: "id \<Rightarrow> id \<Rightarrow> time \<Rightarrow> 'a core_db_scheme \<Rightarrow> order_error + 'a core_db_scheme" where
  "MarkOrderPaid merchantID orderID now db =
     (if list_ex (order_at merchantID orderID) (db_orders db)
      then Inr (db\<lparr>db_orders := upd_where (order_at merchantID orderID)
              (\<lambda>ord. ord\<lparr>o_Status := OrderPaid, o_AmountPaid := o_Amount ord, o_AmountDue := 0,
                        o_UpdatedAt := now\<rparr>) (db_orders db)\<rparr>)
      else Inl ErrOrderNotFound)"

section \<open>Invariants of the orders table\<close>

definition order_row_ok :: "order \<Rightarrow> bool" where
  "order_row_ok ord \<longleftrightarrow> 0 < o_Amount ord \<and> 0 \<le> o_AmountPaid ord \<and> 0 \<le> o_AmountDue ord
     \<and> o_AmountPaid ord + o_AmountDue ord = o_Amount ord
     \<and> (o_Status ord = OrderPaid \<longleftrightarrow> o_AmountDue ord = 0)
     \<and> o_Currency ord \<in> {''INR'', ''USD''}"

definition orders_inv :: "'a core_db_scheme \<Rightarrow> bool" where
  "orders_inv db \<longleftrightarrow> unique_key o_ID (db_orders db) \<and> (\<forall>ord \<in> set (db_orders db). order_row_ok ord)"

lemma orders_inv_upd:
  assumes "orders_inv db" and "\<And>ord. p ord \<Longrightarrow> o_ID (f ord) = o_ID ord"
    and "\<And>ord. p ord \<Longrightarrow> order_row_ok ord \<Longrightarrow> order_row_ok (f ord)"
  shows "orders_inv (db\<lparr>db_orders := upd_where p f (db_orders db)\<rparr>)"
  using assms by (auto simp: orders_inv_def set_upd_where)

lemma CreateOrder_Inr:
  assumes "CreateOrder newid evtID now inp db = Inr (ord, db')"
  obtains (fresh) "ValidateForCreate (new_order newid now inp) = Inr ()"
      "\<not> order_conflict (new_order newid now inp) (db_orders db)"
      "ord = (new_order newid now inp)\<lparr>o_CreatedAt := now, o_UpdatedAt := now\<rparr>"
      "db' = db\<lparr>db_orders := db_orders db @ [ord], db_outbox := WriteTx evtID now (order_created_event ord) (db_outbox db)\<rparr>"
  | (replay) "ValidateForCreate (new_order newid now inp) = Inr ()" "TrimSpace (ci_IdempotencyKey inp) \<noteq> ''''"
      "order_conflict (new_order newid now inp) (db_orders db)"
      "getByIdempotencyKey (TrimSpace (ci_MerchantID inp)) (TrimSpace (ci_IdempotencyKey inp)) db = Inr ord" "db' = db"
proof -
  let ?o = "new_order newid now inp"
  have keys: "o_MerchantID ?o = TrimSpace (ci_MerchantID inp)" "o_IdempotencyKey ?o = TrimSpace (ci_IdempotencyKey inp)"
    by (simp_all add: new_order_def Let_def)
  have valid: "ValidateForCreate ?o = Inr ()" and ins: "InsertOrder evtID now ?o db = Inr (ord, db')"
    using assms by (auto simp: CreateOrder_def Let_def bindR_Inr_iff)
  show thesis
  proof (cases "order_conflict ?o (db_orders db)")
    case True
    have key: "o_IdempotencyKey ?o \<noteq> ''''" using ins True by (cases "o_IdempotencyKey ?o = ''''") (simp_all add: InsertOrder_def)
    then have "bindR (getByIdempotencyKey (o_MerchantID ?o) (o_IdempotencyKey ?o) db) (\<lambda>r. Inr (r, db)) = Inr (ord, db')"
      using ins True by (simp add: InsertOrder_def)
    then have "getByIdempotencyKey (o_MerchantID ?o) (o_IdempotencyKey ?o) db = Inr ord" "db' = db"
      by (auto simp: bindR_Inr_iff)
    then show thesis using replay valid True key unfolding keys by blast
  next
    case False
    then have "ord = ?o\<lparr>o_CreatedAt := now, o_UpdatedAt := now\<rparr>"
      "db' = db\<lparr>db_orders := db_orders db @ [ord], db_outbox := WriteTx evtID now (order_created_event ord) (db_outbox db)\<rparr>"
      using ins by (simp_all only: InsertOrder_def Let_def if_False sum.inject prod.inject) auto
    then show thesis using fresh valid False by blast
  qed
qed

lemma CreateOrder_orders_inv:
  assumes "orders_inv db" "CreateOrder newid evtID now inp db = Inr (ord, db')"
  shows "orders_inv db'"
  using assms(2)
proof (cases rule: CreateOrder_Inr)
  case fresh
  then show ?thesis using assms(1)
    by (auto simp: orders_inv_def order_conflict_def order_row_ok_def new_order_def Let_def
        ValidateForCreate_def split: if_splits)
qed (use assms(1) in simp)

lemma ExpireDueOrders_orders_inv:
  assumes "orders_inv db" shows "orders_inv (snd (ExpireDueOrders now db))"
proof -
  let ?ids = "o_ID ` set (take 500 (filter (order_due now) (db_orders db)))"
  have hit: "o_Status ord = OrderCreated" if "ord \<in> set (db_orders db)" "o_ID ord \<in> ?ids" for ord
  proof -
    from that(2) obtain r where "r \<in> set (take 500 (filter (order_due now) (db_orders db)))" "o_ID ord = o_ID r"
      by blast
    then have "r \<in> set (db_orders db)" "order_due now r" "o_ID ord = o_ID r"
      by (auto dest: in_set_takeD)
    then show ?thesis
      using unique_key_inj [of o_ID "db_orders db" ord r] assms that(1)
      by (auto simp: orders_inv_def order_due_def)
  qed
  have "order_row_ok (if o_ID ord \<in> ?ids then ord\<lparr>o_Status := OrderExpired, o_UpdatedAt := now\<rparr> else ord)"
    if "ord \<in> set (db_orders db)" for ord
    using hit [OF that] assms that by (auto simp: orders_inv_def order_row_ok_def)
  then have "\<forall>ord \<in> set (upd_where (\<lambda>ord. o_ID ord \<in> ?ids)
      (\<lambda>ord. ord\<lparr>o_Status := OrderExpired, o_UpdatedAt := now\<rparr>) (db_orders db)). order_row_ok ord"
    unfolding set_upd_where by blast
  then show ?thesis
    using assms by (simp add: orders_inv_def ExpireDueOrders_def Let_def)
qed

lemma MarkOrderPaid_orders_inv:
  "orders_inv db \<Longrightarrow> MarkOrderPaid m i now db = Inr db' \<Longrightarrow> orders_inv db'"
  by (auto simp: MarkOrderPaid_def order_row_ok_def split: if_splits intro!: orders_inv_upd)

section \<open>Keyset pagination\<close>

definition strict_desc :: "order list \<Rightarrow> bool" where
  "strict_desc xs \<longleftrightarrow> sorted_wrt (\<lambda>x y. order_key y < order_key x) xs"

lemma strict_desc_order_desc:
  assumes "unique_key o_ID rows" shows "strict_desc (order_desc rows)"
proof -
  have "distinct (map order_key rows)"
    using assms by (auto simp: unique_key_def distinct_map inj_on_def order_key_def)
  then have "distinct (map order_key (sort_key order_key rows))"
    by (metis distinct_map distinct_sort set_sort)
  then have "sorted_wrt (<) (map order_key (sort_key order_key rows))"
    by (simp add: strict_sorted_iff)
  then show ?thesis
    by (simp add: strict_desc_def order_desc_def sorted_wrt_rev sorted_wrt_map)
qed

lemma order_desc_filter: "order_desc (filter p rows) = filter p (order_desc rows)"
  by (simp only: order_desc_def filter_sort [symmetric] rev_filter)

lemma filter_below_nth:
  assumes "strict_desc xs" "n < length xs"
  shows "filter (\<lambda>x. order_key x < order_key (xs ! n)) xs = drop (Suc n) xs"
proof -
  let ?p = "\<lambda>x. order_key x < order_key (xs ! n)"
  have split: "xs = take n xs @ xs ! n # drop (Suc n) xs" by (rule id_take_nth_drop [OF assms(2)])
  have "sorted_wrt (\<lambda>x y. order_key y < order_key x) (take n xs @ xs ! n # drop (Suc n) xs)"
    using assms(1) split by (simp add: strict_desc_def)
  then have before: "\<forall>x \<in> set (take n xs). order_key (xs ! n) < order_key x"
    and after: "\<forall>x \<in> set (drop (Suc n) xs). order_key x < order_key (xs ! n)"
    by (auto simp: sorted_wrt_append)
  have "filter ?p (take n xs) = []" using before by (auto simp: filter_empty_conv dest: less_asym)
  moreover have "filter ?p (drop (Suc n) xs) = drop (Suc n) xs" using after by simp
  ultimately have "filter ?p (take n xs @ xs ! n # drop (Suc n) xs) = drop (Suc n) xs" by simp
  then show ?thesis using split by simp
qed

definition below :: "cursor \<Rightarrow> order \<Rightarrow> bool" where
  "below c ord \<longleftrightarrow> (case c of NoCursor \<Rightarrow> True | BadCursor \<Rightarrow> False | At t i \<Rightarrow> order_key ord < (t, i))"

lemma below_simps: "below NoCursor = (\<lambda>_. True)" "below (At t i) = (\<lambda>ord. order_key ord < (t, i))"
  by (simp_all add: below_def fun_eq_iff)

definition remaining :: "list_filter \<Rightarrow> 'a core_db_scheme \<Rightarrow> order list" where
  "remaining f db = order_desc (filter (below (f_Cursor f)) (list_select f (db_orders db)))"

text \<open>A client that follows the cursors until there is no further page.\<close>

fun order_pages :: "nat \<Rightarrow> list_filter \<Rightarrow> 'a core_db_scheme \<Rightarrow> order list option" where
  "order_pages 0 f db = None"
| "order_pages (Suc n) f db =
     (case ListOrders f db of
        Inl _ \<Rightarrow> None
      | Inr r \<Rightarrow> if r_HasMore r
                 then map_option ((@) (r_Items r)) (order_pages n (f\<lparr>f_Cursor := r_NextCursor r\<rparr>) db)
                 else Some (r_Items r))"

lemma ListOrders_eq:
  assumes "f_Cursor f \<noteq> BadCursor"
  shows "ListOrders f db =
     (let count = list_count f; xs = remaining f db; items = take count xs in
      Inr \<lparr>r_Items = items, r_HasMore = length xs > count,
           r_NextCursor = (if items = [] then NoCursor
             else At (o_CreatedAt (last items)) (o_ID (last items)))\<rparr>)"
proof -
  have "(if length (take (Suc n) xs) > n then take n (take (Suc n) xs) else take (Suc n) xs) = take n xs"
    and "length (take (Suc n) xs) > n \<longleftrightarrow> length xs > n" for n and xs :: "order list"
    by auto
  then show ?thesis
    using assms by (cases "f_Cursor f") (simp_all add: ListOrders_def remaining_def below_simps Let_def)
qed

lemma list_count_pos: "0 < list_count f"
  by (simp add: list_count_def)

lemma list_select_cursor [simp]: "list_select (f\<lparr>f_Cursor := c\<rparr>) rows = list_select f rows"
  by (simp add: list_select_def)

lemma remaining_strict: "unique_key o_ID (db_orders db) \<Longrightarrow> strict_desc (remaining f db)"
  unfolding remaining_def
  by (rule strict_desc_order_desc)
     (auto simp: unique_key_def list_select_def distinct_map intro: inj_on_subset)

lemma remaining_next:
  assumes uniq: "unique_key o_ID (db_orders db)" and more: "length (remaining f db) > list_count f"
    and last: "z = last (take (list_count f) (remaining f db))"
  shows "remaining (f\<lparr>f_Cursor := At (o_CreatedAt z) (o_ID z)\<rparr>) db = drop (list_count f) (remaining f db)"
proof -
  let ?xs = "remaining f db" and ?c = "list_count f"
  have c: "0 < ?c" by (rule list_count_pos)
  have z: "z = ?xs ! (?c - 1)"
    using last more c by (subst last) (subst last_conv_nth, auto)
  have zin: "z \<in> set ?xs" using z more c by simp
  then have zb: "below (f_Cursor f) z" by (simp add: remaining_def order_desc_def)
  have "below (At (o_CreatedAt z) (o_ID z)) = (\<lambda>ord. below (f_Cursor f) ord \<and> order_key ord < order_key z)"
    using zb by (auto simp: fun_eq_iff below_def order_key_def split: cursor.splits)
  then have "remaining (f\<lparr>f_Cursor := At (o_CreatedAt z) (o_ID z)\<rparr>) db
      = order_desc (filter (\<lambda>ord. order_key ord < order_key z) (filter (below (f_Cursor f)) (list_select f (db_orders db))))"
    by (simp add: remaining_def)
  also have "\<dots> = filter (\<lambda>ord. order_key ord < order_key z) ?xs"
    by (simp only: order_desc_filter remaining_def)
  also have "\<dots> = drop ?c ?xs"
    using filter_below_nth [OF remaining_strict [OF uniq], of "?c - 1"] more c z by simp
  finally show ?thesis .
qed

lemma order_pages_complete:
  assumes "unique_key o_ID (db_orders db)"
  shows "f_Cursor f \<noteq> BadCursor \<Longrightarrow> length (remaining f db) < n \<Longrightarrow> order_pages n f db = Some (remaining f db)"
proof (induction n arbitrary: f)
  case (Suc n)
  let ?xs = "remaining f db" and ?c = "list_count f"
  show ?case
  proof (cases "length ?xs > ?c")
    case False
    then show ?thesis using Suc.prems by (simp add: ListOrders_eq Let_def)
  next
    case True
    define z where "z = last (take ?c ?xs)"
    let ?f = "f\<lparr>f_Cursor := At (o_CreatedAt z) (o_ID z)\<rparr>"
    have next_page: "remaining ?f db = drop ?c ?xs" by (rule remaining_next [OF assms True z_def])
    have "order_pages n ?f db = Some (remaining ?f db)"
      using Suc.prems True list_count_pos [of f] by (intro Suc.IH) (simp_all add: next_page)
    then show ?thesis
      using Suc.prems True list_count_pos [of f]
      by (auto simp: ListOrders_eq Let_def z_def [symmetric] next_page)
  qed
qed simp

section \<open>Properties\<close>

text \<open>
  C34: A client that starts without a cursor and follows \<open>next_cursor\<close> until \<open>has_more\<close> is false
  gets every order of the merchant in the time range exactly once, newest first, after at most as
  many pages as there are orders plus one.
\<close>

theorem pagination_complete:
  assumes "unique_key o_ID (db_orders db)" and "f_Cursor f = NoCursor"
    and "length (list_select f (db_orders db)) < n"
  shows "\<exists>xs. order_pages n f db = Some xs \<and> strict_desc xs \<and> mset xs = mset (list_select f (db_orders db))"
proof -
  have r: "remaining f db = order_desc (list_select f (db_orders db))"
    using assms(2) by (simp add: remaining_def below_def)
  then have "order_pages n f db = Some (remaining f db)"
    using assms by (intro order_pages_complete) (simp_all add: order_desc_def)
  moreover have "mset (remaining f db) = mset (list_select f (db_orders db))"
    by (simp add: r order_desc_def)
  ultimately show ?thesis using remaining_strict [OF assms(1)] by blast
qed

definition sample_order :: "id \<Rightarrow> time \<Rightarrow> order" where
  "sample_order i t = \<lparr>o_ID = i, o_MerchantID = ''m1'', o_IdempotencyKey = '''', o_Amount = 500, o_AmountPaid = 0,
     o_AmountDue = 500, o_Currency = ''INR'', o_Receipt = '''', o_Status = OrderCreated, o_PartialPayment = False,
     o_Notes = [], o_ExpiresAt = t + minutes 30, o_CreatedAt = t, o_UpdatedAt = t\<rparr>"

definition sample_core :: core_db where
  "sample_core = \<lparr>db_ledger = empty_ledger, db_outbox = [],
     db_orders = [sample_order ''o1'' 1, sample_order ''o2'' 2, sample_order ''o3'' 2]\<rparr>"

theorem pagination_complete_witness:
  "\<exists>xs. order_pages 4 \<lparr>f_MerchantID = ''m1'', f_Count = 1, f_From = 0, f_To = 0, f_Cursor = NoCursor\<rparr> sample_core
     = Some xs \<and> length xs = 3"
proof -
  let ?f = "\<lparr>f_MerchantID = ''m1'', f_Count = 1, f_From = 0, f_To = 0, f_Cursor = NoCursor\<rparr>"
  have "unique_key o_ID (db_orders sample_core)"
    by (simp add: sample_core_def unique_key_def sample_order_def)
  moreover have l: "length (list_select ?f (db_orders sample_core)) = 3"
    by (simp add: sample_core_def list_select_def sample_order_def)
  ultimately obtain xs where "order_pages 4 ?f sample_core = Some xs"
      "mset xs = mset (list_select ?f (db_orders sample_core))"
    using pagination_complete [of sample_core ?f 4] by auto
  then show ?thesis using l by (metis size_mset)
qed

text \<open>
  Order creation is idempotent per merchant and key: repeating an accepted request with the
  same non-empty key, whatever fresh identifiers are drawn, returns the same order and leaves the
  database as it is.
\<close>

theorem create_order_idempotent:
  assumes inv: "orders_inv db" and key: "TrimSpace (ci_IdempotencyKey inp) \<noteq> ''''"
    and first: "CreateOrder i e now inp db = Inr (ord, db')"
  shows "\<exists>ord2. CreateOrder i2 e2 now2 inp db' = Inr (ord2, db') \<and> o_ID ord2 = o_ID ord"
proof -
  let ?m = "TrimSpace (ci_MerchantID inp)" and ?k = "TrimSpace (ci_IdempotencyKey inp)"
  have valid: "ValidateForCreate (new_order i2 now2 inp) = ValidateForCreate (new_order i now inp)"
    by (simp add: ValidateForCreate_def new_order_def Let_def)
  have again: "CreateOrder i2 e2 now2 inp db' = Inr (r, db')"
    if "ValidateForCreate (new_order i now inp) = Inr ()" "getByIdempotencyKey ?m ?k db' = Inr r" for r
  proof -
    have "order_conflict (new_order i2 now2 inp) (db_orders db')"
      using that(2) key by (auto simp: order_conflict_def new_order_def Let_def getByIdempotencyKey_def
          split: option.splits dest!: find_SomeD)
    then show ?thesis
      using that key valid by (simp add: CreateOrder_def InsertOrder_def Let_def new_order_def)
  qed
  from first show ?thesis
  proof (cases rule: CreateOrder_Inr)
    case replay
    then show ?thesis using again by blast
  next
    case fresh
    have new: "o_MerchantID ord = ?m" "o_IdempotencyKey ord = ?k" "o_ID ord = i"
      by (simp_all add: fresh(3) new_order_def Let_def)
    have none: "find (\<lambda>x. o_MerchantID x = ?m \<and> o_IdempotencyKey x = ?k) (db_orders db) = None"
        "find (order_at ?m i) (db_orders db) = None"
      using fresh(2) key by (auto simp: order_conflict_def find_None_iff order_at_def new_order_def Let_def)
    have "find (\<lambda>x. o_MerchantID x = ?m \<and> o_IdempotencyKey x = ?k) (db_orders db @ [ord]) = Some ord"
         "find (order_at ?m i) (db_orders db @ [ord]) = Some ord"
      using none new by (simp_all add: find_append order_at_def)
    then have "getByIdempotencyKey ?m ?k db' = Inr (ord\<lparr>o_IdempotencyKey := ''''\<rparr>)"
      using new by (simp add: getByIdempotencyKey_def GetOrder_def fresh(4))
    then show ?thesis using again [OF fresh(1)] by (auto intro!: exI)
  qed
qed

definition sample_input :: create_input where
  "sample_input = \<lparr>ci_MerchantID = ''m1'', ci_IdempotencyKey = ''k1'', ci_Amount = 500, ci_Currency = ''INR'',
     ci_Receipt = '''', ci_Notes = [], ci_PartialPayment = False\<rparr>"

theorem create_order_idempotent_witness:
  "\<exists>ord db'. CreateOrder ''o9'' ''e1'' 5 sample_input sample_core = Inr (ord, db') \<and> length (db_orders db') = 4
     \<and> (\<exists>ord2. CreateOrder ''o10'' ''e2'' 6 sample_input db' = Inr (ord2, db') \<and> o_ID ord2 = ''o9'')"
proof -
  have inv: "orders_inv sample_core"
    by (simp add: orders_inv_def sample_core_def sample_order_def order_row_ok_def unique_key_def)
  have key: "TrimSpace (ci_IdempotencyKey sample_input) \<noteq> ''''"
    by (simp add: sample_input_def TrimSpace_def is_space_def)
  obtain ord db' where c: "CreateOrder ''o9'' ''e1'' 5 sample_input sample_core = Inr (ord, db')"
      "o_ID ord = ''o9''" "length (db_orders db') = 4"
    by (simp add: CreateOrder_def InsertOrder_def new_order_def sample_input_def sample_core_def sample_order_def
        ValidateForCreate_def validateNotes_def TrimSpace_def is_space_def ToUpper_def upper_char_def
        order_conflict_def RuneCountInString_def Let_def)
  from create_order_idempotent [OF inv key c(1)] c show ?thesis by metis
qed

end
