(* ===== verification/Payment.thy ===== *)
theory Payment
  imports Order
begin

text \<open>
  Card payments, the repository (\<open>internal/payment/domain.go\<close>, \<open>postgres.go\<close>): the status machine,
  authorization, the 3DS challenge, reversal, capture with its ledger posting, and the two sweeps.
  The database extends \<open>core_db\<close> with the payment tables; of a nullable text column the empty
  string stands for NULL, except the idempotency key of an attempt, which is an option because
  \<open>CreateFailedAttempt\<close> stores the empty key as a value. \<open>db_card_tokens\<close> holds the primary keys of
  the token vault, which the card tables reference. Identifiers, the clock and the identifiers
  drawn in a loop (a function of the round) are arguments. \<open>updated_at\<close> is not kept.
\<close>

section \<open>Domain\<close>

datatype payment_state =
    Created | RequiresAction | PendingCustomerAction | Processing | Authorized
  | AuthorizationReversed | Captured | Failed | AutoRefunded

datatype payment_event =
    CustomerActionRequired | CustomerActionComplete | ProcessingStarted | AuthSuccess | AuthFailed
  | AuthReversed | Capture | CaptureExpiry

datatype payment_error =
    ErrInvalidTransition
  | ErrPayOrderNotFound
  | ErrOrderIsExpired
  | ErrCurrencyMismatch
  | ErrAmountMismatch
  | ErrOrderAmountExceeded
  | ErrInvalidPaymentMethod
  | ErrAuthorizationDeclined
  | ErrInvalidPaymentAmount
  | ErrCardChallengeRejected
  | ErrPaymentNotFound
  | ErrPaymentMethodTokenRequired
  | ErrPaymentMethodTokenInvalid
  | ErrPayMerchantRequired
  | ErrUniqueViolation
  | ErrCheckViolation
  | ErrForeignKeyViolation
  | ErrPayScan
  | ErrGateway string
  | ErrCleanup payment_error "payment_error list"
  | PayLedger ledger_error

definition Transition :: "payment_state \<Rightarrow> payment_event \<Rightarrow> payment_error + payment_state" where
  "Transition from ev =
     (case (from, ev) of
        (Created, AuthSuccess) \<Rightarrow> Inr Authorized
      | (Created, AuthFailed) \<Rightarrow> Inr Failed
      | (Created, CustomerActionRequired) \<Rightarrow> Inr RequiresAction
      | (RequiresAction, CustomerActionComplete) \<Rightarrow> Inr Authorized
      | (RequiresAction, AuthFailed) \<Rightarrow> Inr Failed
      | (PendingCustomerAction, ProcessingStarted) \<Rightarrow> Inr Processing
      | (PendingCustomerAction, Capture) \<Rightarrow> Inr Captured
      | (PendingCustomerAction, AuthFailed) \<Rightarrow> Inr Failed
      | (Processing, Capture) \<Rightarrow> Inr Captured
      | (Processing, AuthFailed) \<Rightarrow> Inr Failed
      | (Authorized, AuthReversed) \<Rightarrow> Inr AuthorizationReversed
      | (Authorized, Capture) \<Rightarrow> Inr Captured
      | (Authorized, CaptureExpiry) \<Rightarrow> Inr AutoRefunded
      | _ \<Rightarrow> Inl ErrInvalidTransition)"

definition payment_rank :: "payment_state \<Rightarrow> nat" where
  "payment_rank s = (case s of
      Created \<Rightarrow> 0 | PendingCustomerAction \<Rightarrow> 0 | RequiresAction \<Rightarrow> 1 | Processing \<Rightarrow> 1 | Authorized \<Rightarrow> 2
    | AuthorizationReversed \<Rightarrow> 3 | Captured \<Rightarrow> 3 | Failed \<Rightarrow> 3 | AutoRefunded \<Rightarrow> 3)"

interpretation pm: ranked_machine Transition payment_rank 3
  by unfold_locales
     (auto simp: Transition_def payment_rank_def split: payment_state.splits payment_event.splits)

definition initialMethodState :: "string \<Rightarrow> string" where
  "initialMethodState method =
     (if method = ''upi'' then ''upi_intent_created''
      else if method = ''netbanking'' then ''netbanking_redirect_created''
      else if method = ''wallet'' then ''wallet_redirect_created''
      else ''card_authorization_started'')"

definition methodStateForAuthorized :: "string \<Rightarrow> string" where
  "methodStateForAuthorized method =
     (if method = ''upi'' then ''upi_collected''
      else if method = ''netbanking'' then ''netbanking_succeeded''
      else if method = ''wallet'' then ''wallet_succeeded''
      else ''card_authorized'')"

definition methodStateForFailure :: "string \<Rightarrow> string" where
  "methodStateForFailure method =
     (if method = ''upi'' then ''upi_failed''
      else if method = ''netbanking'' then ''netbanking_failed''
      else if method = ''wallet'' then ''wallet_failed''
      else ''card_declined'')"

definition methodStateForChallengeFailure :: "string \<Rightarrow> string" where
  "methodStateForChallengeFailure status =
     (if status = ''abandoned'' then ''card_3ds_abandoned''
      else if status = ''expired'' then ''card_3ds_expired''
      else ''card_3ds_failed'')"

definition methodStateForCapture :: "string \<Rightarrow> string" where
  "methodStateForCapture method =
     (if method = ''upi'' then ''upi_collected''
      else if method = ''netbanking'' then ''netbanking_succeeded''
      else if method = ''wallet'' then ''wallet_succeeded''
      else ''card_captured'')"

section \<open>Tables\<close>

datatype attempt_state =
    AttCreated | AttProcessing | AttRequiresAction | AttAuthorized | AttAuthorizationReversed | AttFailed

record attempt =
  a_ID :: id
  a_OrderID :: id
  a_MerchantID :: id
  a_PaymentID :: id
  a_Amount :: int
  a_Currency :: string
  a_Method :: string
  a_Provider :: string
  a_RoutingReason :: string
  a_AttemptedProviders :: "string list"
  a_Status :: attempt_state
  a_GatewayReference :: string
  a_ErrorCode :: string
  a_ErrorDescription :: string
  a_IdempotencyKey :: "string option"
  a_CreatedAt :: time

record payment =
  p_ID :: id
  p_AttemptID :: id
  p_OrderID :: id
  p_MerchantID :: id
  p_Amount :: int
  p_Currency :: string
  p_Method :: string
  p_Provider :: string
  p_RoutingReason :: string
  p_AttemptedProviders :: "string list"
  p_MethodState :: string
  p_MethodStateReason :: string
  p_Status :: payment_state
  p_Captured :: bool
  p_GatewayReference :: string
  p_AuthCode :: string
  p_Fee :: int
  p_RefundStatus :: string
  p_AmountRefunded :: int
  p_AmountRefundedPending :: int
  p_Settled :: bool
  p_SettlementID :: id
  p_ErrorCode :: string
  p_ErrorDescription :: string
  p_AuthorizedAt :: "time option"
  p_CapturedAt :: "time option"
  p_AutoCaptureAt :: "time option"
  p_CreatedAt :: time

record payment_split =
  s_ID :: id
  s_MerchantID :: id
  s_PaymentID :: id
  s_DestinationType :: string
  s_DestinationRef :: string
  s_BeneficiaryLabel :: string
  s_Amount :: int
  s_Currency :: string
  s_CreatedAt :: time

record card_details =
  cd_PaymentID :: id
  cd_CardTokenID :: id
  cd_Brand :: string
  cd_Last4 :: string
  cd_ExpMonth :: int
  cd_ExpYear :: int
  cd_TokenClass :: string
  cd_IssuerName :: string
  cd_IssuerCountry :: string
  cd_CardCountry :: string
  cd_FundingType :: string
  cd_NetworkTokenType :: string

datatype challenge_state = ChPending | ChCompleted | ChFailed | ChAbandoned | ChExpired

record challenge =
  cc_PaymentID :: id
  cc_MerchantID :: id
  cc_CardTokenID :: id
  cc_SessionID :: id
  cc_CallbackToken :: string
  cc_Status :: challenge_state
  cc_RedirectURL :: string
  cc_ChallengeReference :: string
  cc_AutoCaptureRequested :: bool
  cc_ExpiresAt :: time
  cc_CompletedAt :: "time option"
  cc_FailureCode :: string
  cc_FailureDescription :: string

record payment_db = core_db +
  db_attempts :: "attempt list"
  db_payments :: "payment list"
  db_splits :: "payment_split list"
  db_card_details :: "card_details list"
  db_challenges :: "challenge list"
  db_card_tokens :: "id list"

text \<open>
  What the operations return: the columns of the payment joined with the card details, the challenge
  and the splits. \<open>None\<close> as the status is the zero value of the Go struct.
\<close>

record capture_result =
  cr_PaymentID :: id
  cr_MerchantID :: id
  cr_OrderID :: id
  cr_Amount :: int
  cr_Currency :: string
  cr_Method :: string
  cr_Provider :: string
  cr_RoutingReason :: string
  cr_AttemptedProviders :: "string list"
  cr_Card :: "card_details option"
  cr_MethodState :: string
  cr_MethodStateReason :: string
  cr_Status :: "payment_state option"
  cr_Challenge :: "challenge option"
  cr_Captured :: bool
  cr_CapturedAt :: "time option"
  cr_CreatedAt :: time
  cr_AuthorizedAt :: "time option"
  cr_Splits :: "payment_split list"

record create_split_input =
  si_DestinationType :: string
  si_DestinationRef :: string
  si_BeneficiaryLabel :: string
  si_Amount :: int
  si_Currency :: string

record create_authorized_input =
  ca_PaymentID :: id
  ca_MerchantID :: id
  ca_OrderID :: id
  ca_Amount :: int
  ca_Currency :: string
  ca_Method :: string
  ca_Provider :: string
  ca_RoutingReason :: string
  ca_AttemptedProviders :: "string list"
  ca_IdempotencyKey :: string
  ca_Splits :: "create_split_input list"

section \<open>Rows and events\<close>

definition pay_at :: "id \<Rightarrow> id \<Rightarrow> payment \<Rightarrow> bool" where
  "pay_at merchantID paymentID p \<longleftrightarrow> p_ID p = paymentID \<and> p_MerchantID p = merchantID"

definition lock_payment :: "id \<Rightarrow> id \<Rightarrow> 'a payment_db_scheme \<Rightarrow> payment_error + payment" where
  "lock_payment merchantID paymentID db =
     (case find (pay_at merchantID paymentID) (db_payments db) of
        None \<Rightarrow> Inl ErrPaymentNotFound | Some p \<Rightarrow> Inr p)"

definition set_payment :: "id \<Rightarrow> (payment \<Rightarrow> payment) \<Rightarrow> 'a payment_db_scheme \<Rightarrow> 'a payment_db_scheme" where
  "set_payment paymentID f db =
     db\<lparr>db_payments := upd_where (\<lambda>p. p_ID p = paymentID) f (db_payments db)\<rparr>"

definition set_attempt :: "id \<Rightarrow> (attempt \<Rightarrow> attempt) \<Rightarrow> 'a payment_db_scheme \<Rightarrow> 'a payment_db_scheme" where
  "set_attempt attemptID f db =
     db\<lparr>db_attempts := upd_where (\<lambda>a. a_ID a = attemptID) f (db_attempts db)\<rparr>"

definition set_challenge :: "id \<Rightarrow> (challenge \<Rightarrow> challenge) \<Rightarrow> 'a payment_db_scheme \<Rightarrow> 'a payment_db_scheme" where
  "set_challenge paymentID f db =
     db\<lparr>db_challenges := upd_where (\<lambda>c. cc_PaymentID c = paymentID) f (db_challenges db)\<rparr>"

definition emit :: "id \<Rightarrow> time \<Rightarrow> outbox_event \<Rightarrow> 'a core_db_scheme \<Rightarrow> 'a core_db_scheme" where
  "emit evtID now ev db = db\<lparr>db_outbox := WriteTx evtID now ev (db_outbox db)\<rparr>"

definition pay_event :: "string \<Rightarrow> id \<Rightarrow> string \<Rightarrow> id \<Rightarrow> payload \<Rightarrow> outbox_event" where
  "pay_event aggregate aggregateID eventType merchantID payload =
     \<lparr>ev_AggregateType = aggregate, ev_AggregateID = aggregateID, ev_EventType = eventType,
      ev_MerchantID = merchantID, ev_Payload = payload\<rparr>"

definition set_order :: "id \<Rightarrow> id \<Rightarrow> (order \<Rightarrow> order) \<Rightarrow> 'a core_db_scheme \<Rightarrow> 'a core_db_scheme" where
  "set_order merchantID orderID f db =
     db\<lparr>db_orders := upd_where (order_at merchantID orderID) f (db_orders db)\<rparr>"

definition attempt_order :: "time \<Rightarrow> order \<Rightarrow> order" where
  "attempt_order now ord =
     ord\<lparr>o_Status := (if o_Status ord = OrderCreated then OrderAttempted else o_Status ord), o_UpdatedAt := now\<rparr>"

definition split_key :: "payment_split \<Rightarrow> time \<times> id" where
  "split_key s = (s_CreatedAt s, s_ID s)"

definition listPaymentSplits :: "id \<Rightarrow> 'a payment_db_scheme \<Rightarrow> payment_split list" where
  "listPaymentSplits paymentID db =
     sort_key split_key (filter (\<lambda>s. s_PaymentID s = paymentID) (db_splits db))"

text \<open>The columns every operation reads with its locking SELECT.\<close>

definition current_of :: "payment \<Rightarrow> capture_result" where
  "current_of p =
     \<lparr>cr_PaymentID = p_ID p, cr_MerchantID = p_MerchantID p, cr_OrderID = p_OrderID p,
      cr_Amount = p_Amount p, cr_Currency = p_Currency p, cr_Method = p_Method p,
      cr_Provider = '''', cr_RoutingReason = '''', cr_AttemptedProviders = [], cr_Card = None,
      cr_MethodState = p_MethodState p, cr_MethodStateReason = p_MethodStateReason p,
      cr_Status = None, cr_Challenge = None, cr_Captured = p_Captured p, cr_CapturedAt = None,
      cr_CreatedAt = p_CreatedAt p, cr_AuthorizedAt = p_AuthorizedAt p, cr_Splits = []\<rparr>"

definition result_of :: "'a payment_db_scheme \<Rightarrow> payment \<Rightarrow> capture_result" where
  "result_of db p =
     (current_of p)\<lparr>cr_Provider := p_Provider p, cr_RoutingReason := p_RoutingReason p,
        cr_AttemptedProviders := p_AttemptedProviders p,
        cr_Card := find (\<lambda>c. cd_PaymentID c = p_ID p) (db_card_details db),
        cr_Status := Some (p_Status p),
        cr_Challenge := find (\<lambda>c. cc_PaymentID c = p_ID p) (db_challenges db),
        cr_CapturedAt := p_CapturedAt p, cr_Splits := listPaymentSplits (p_ID p) db\<rparr>"

definition GetPayment :: "id \<Rightarrow> id \<Rightarrow> 'a payment_db_scheme \<Rightarrow> payment_error + capture_result" where
  "GetPayment merchantID paymentID db =
     bindR (lock_payment merchantID paymentID db) (\<lambda>p. Inr (result_of db p))"

definition commit_get :: "id \<Rightarrow> id \<Rightarrow> 'a payment_db_scheme \<Rightarrow> payment_error + capture_result \<times> 'a payment_db_scheme" where
  "commit_get merchantID paymentID db =
     bindR (GetPayment merchantID paymentID db) (\<lambda>r. Inr (r, db))"

definition ListPayments :: "id \<Rightarrow> id \<Rightarrow> int \<Rightarrow> 'a payment_db_scheme \<Rightarrow> capture_result list" where
  "ListPayments merchantID orderID limit db =
     (let n = nat (if limit \<le> 0 \<or> limit > 100 then 20 else limit);
          rows = filter (\<lambda>p. p_MerchantID p = merchantID \<and> (orderID \<noteq> '''' \<longrightarrow> p_OrderID p = orderID)) (db_payments db) in
      map (result_of db) (take n (sort_key (\<lambda>p. - p_CreatedAt p) rows)))"

section \<open>Attempts\<close>

definition methods :: "string list" where
  "methods = [''card'', ''upi'', ''netbanking'', ''wallet'']"

text \<open>The CHECK constraints, the primary key and the unique index of \<open>payment_attempts\<close>.\<close>

definition attempt_conflict :: "attempt \<Rightarrow> attempt list \<Rightarrow> bool" where
  "attempt_conflict a rows \<longleftrightarrow> a_ID a \<in> a_ID ` set rows
     \<or> (a_IdempotencyKey a \<noteq> None
        \<and> (\<exists>r \<in> set rows. a_MerchantID r = a_MerchantID a \<and> a_OrderID r = a_OrderID a
             \<and> a_IdempotencyKey r = a_IdempotencyKey a))"

definition insert_attempt :: "attempt \<Rightarrow> 'a payment_db_scheme \<Rightarrow> payment_error + 'a payment_db_scheme" where
  "insert_attempt a db =
     (if a_Amount a \<le> 0 \<or> a_Method a \<notin> set methods then Inl ErrCheckViolation
      else if attempt_conflict a (db_attempts db) then Inl ErrUniqueViolation
      else Inr (db\<lparr>db_attempts := db_attempts db @ [a]\<rparr>))"

definition new_attempt ::
  "id \<Rightarrow> time \<Rightarrow> create_authorized_input \<Rightarrow> id \<Rightarrow> attempt_state \<Rightarrow> string \<Rightarrow> string \<Rightarrow> string option \<Rightarrow> attempt" where
  "new_attempt attemptID now inp paymentID status errorCode errorDescription key =
     \<lparr>a_ID = attemptID, a_OrderID = ca_OrderID inp, a_MerchantID = ca_MerchantID inp,
      a_PaymentID = paymentID, a_Amount = ca_Amount inp, a_Currency = ca_Currency inp,
      a_Method = ca_Method inp, a_Provider = ca_Provider inp, a_RoutingReason = ca_RoutingReason inp,
      a_AttemptedProviders = ca_AttemptedProviders inp, a_Status = status, a_GatewayReference = '''',
      a_ErrorCode = errorCode, a_ErrorDescription = errorDescription, a_IdempotencyKey = key,
      a_CreatedAt = now\<rparr>"

definition nullableText :: "string \<Rightarrow> string option" where
  "nullableText v = (if v = '''' then None else Some v)"

definition CreateFailedAttempt ::
  "id \<Rightarrow> id \<Rightarrow> time \<Rightarrow> create_authorized_input \<Rightarrow> string \<Rightarrow> string
     \<Rightarrow> 'a payment_db_scheme \<Rightarrow> payment_error + 'a payment_db_scheme" where
  "CreateFailedAttempt attemptID evtID now inp errorCode errorDescription db =
     bindR (insert_attempt (new_attempt attemptID now inp (ca_PaymentID inp) AttFailed errorCode
              errorDescription (Some (ca_IdempotencyKey inp))) db) (\<lambda>db'.
       Inr (emit evtID now (pay_event ''payment_attempt'' attemptID ''payment.failed'' (ca_MerchantID inp)
                [(''order_id'', PStr (ca_OrderID inp)), (''error_code'', PStr errorCode)])
             (set_order (ca_MerchantID inp) (ca_OrderID inp) (attempt_order now) db')))"

section \<open>Starting an authorization\<close>

fun check_splits :: "create_split_input list \<Rightarrow> payment_error + unit" where
  "check_splits [] = Inr ()"
| "check_splits (s # ss) =
     (if si_Amount s < 0 then Inl ErrAmountMismatch
      else if si_DestinationType s \<notin> {''merchant'', ''connected_account''} then Inl ErrCheckViolation
      else check_splits ss)"

definition insertPaymentSplitsTx ::
  "(nat \<Rightarrow> id) \<Rightarrow> time \<Rightarrow> id \<Rightarrow> id \<Rightarrow> create_split_input list
     \<Rightarrow> 'a payment_db_scheme \<Rightarrow> payment_error + 'a payment_db_scheme" where
  "insertPaymentSplitsTx splitID now merchantID paymentID splits db =
     (let row = (\<lambda>(i, s). \<lparr>s_ID = splitID i, s_MerchantID = merchantID, s_PaymentID = paymentID,
                  s_DestinationType = si_DestinationType s, s_DestinationRef = si_DestinationRef s,
                  s_BeneficiaryLabel = si_BeneficiaryLabel s, s_Amount = si_Amount s,
                  s_Currency = si_Currency s, s_CreatedAt = now\<rparr>) in
      bindR (check_splits splits) (\<lambda>_.
        Inr (db\<lparr>db_splits := db_splits db @ map row (enumerate 0 splits)\<rparr>)))"

text \<open>Payments that can still take money hold a claim on their order.\<close>

definition live :: "payment \<Rightarrow> bool" where
  "live p \<longleftrightarrow> p_Status p \<notin> {Failed, AuthorizationReversed, AutoRefunded}"

definition committed :: "id \<Rightarrow> id \<Rightarrow> payment list \<Rightarrow> int" where
  "committed merchantID orderID rows =
     sum_where (\<lambda>p. p_OrderID p = orderID \<and> p_MerchantID p = merchantID \<and> live p) p_Amount rows"

definition getPaymentByIdempotencyKey ::
  "id \<Rightarrow> id \<Rightarrow> string \<Rightarrow> 'a payment_db_scheme \<Rightarrow> payment_error + capture_result" where
  "getPaymentByIdempotencyKey merchantID orderID key db =
     (let rows = filter (\<lambda>a. a_MerchantID a = merchantID \<and> a_OrderID a = orderID
                   \<and> a_IdempotencyKey a = Some key \<and> a_PaymentID a \<noteq> '''') (db_attempts db) in
      case sort_key (\<lambda>a. - a_CreatedAt a) rows of
        [] \<Rightarrow> Inl ErrPaymentNotFound
      | a # _ \<Rightarrow> GetPayment merchantID (a_PaymentID a) db)"

definition new_payment :: "id \<Rightarrow> id \<Rightarrow> time \<Rightarrow> create_authorized_input \<Rightarrow> payment" where
  "new_payment paymentID attemptID now inp =
     \<lparr>p_ID = paymentID, p_AttemptID = attemptID, p_OrderID = ca_OrderID inp,
      p_MerchantID = ca_MerchantID inp, p_Amount = ca_Amount inp, p_Currency = ca_Currency inp,
      p_Method = ca_Method inp, p_Provider = ca_Provider inp, p_RoutingReason = ca_RoutingReason inp,
      p_AttemptedProviders = ca_AttemptedProviders inp, p_MethodState = initialMethodState (ca_Method inp),
      p_MethodStateReason = '''', p_Status = Created, p_Captured = False, p_GatewayReference = '''',
      p_AuthCode = '''', p_Fee = 0, p_RefundStatus = ''none'', p_AmountRefunded = 0,
      p_AmountRefundedPending = 0, p_Settled = False, p_SettlementID = '''', p_ErrorCode = '''',
      p_ErrorDescription = '''', p_AuthorizedAt = None, p_CapturedAt = None, p_AutoCaptureAt = None,
      p_CreatedAt = now\<rparr>"

definition insert_payment :: "payment \<Rightarrow> 'a payment_db_scheme \<Rightarrow> payment_error + 'a payment_db_scheme" where
  "insert_payment p db =
     (if p_Amount p \<le> 0 then Inl ErrCheckViolation
      else if p_ID p \<in> p_ID ` set (db_payments db) \<or> p_AttemptID p \<in> p_AttemptID ` set (db_payments db)
      then Inl ErrUniqueViolation
      else Inr (db\<lparr>db_payments := db_payments db @ [p]\<rparr>))"

text \<open>The checks of the locked order row, up to the cap on the live exposure.\<close>

definition order_admits :: "create_authorized_input \<Rightarrow> time \<Rightarrow> order \<Rightarrow> payment_error + unit" where
  "order_admits inp now ord =
     (if o_Status ord = OrderExpired \<or> now > o_ExpiresAt ord then Inl ErrOrderIsExpired
      else if o_Status ord = OrderPaid \<or> o_Status ord = OrderFailed then Inl ErrInvalidTransition
      else if ca_Currency inp \<noteq> o_Currency ord then Inl ErrCurrencyMismatch
      else if o_PartialPayment ord then
        (if ca_Amount inp \<le> 0 \<or> ca_Amount inp > o_AmountDue ord then Inl ErrAmountMismatch else Inr ())
      else if ca_Amount inp \<noteq> o_Amount ord then Inl ErrAmountMismatch
      else Inr ())"

definition StartAuthorization ::
  "id \<Rightarrow> id \<Rightarrow> (nat \<Rightarrow> id) \<Rightarrow> id \<Rightarrow> time \<Rightarrow> create_authorized_input
     \<Rightarrow> 'a payment_db_scheme \<Rightarrow> payment_error + capture_result \<times> 'a payment_db_scheme" where
  "StartAuthorization attemptID newPayID splitID evtID now inp db =
     (if ca_Amount inp \<le> 0 then Inl ErrAmountMismatch
      else if ca_Method inp \<notin> set methods then Inl ErrInvalidPaymentMethod
      else case find (order_at (ca_MerchantID inp) (ca_OrderID inp)) (db_orders db) of
        None \<Rightarrow> Inl ErrPayOrderNotFound
      | Some ord \<Rightarrow>
          bindR (order_admits inp now ord) (\<lambda>_.
          bindR (mapL (\<lambda>_. ErrPayScan) (scan64 (committed (ca_MerchantID inp) (ca_OrderID inp) (db_payments db)))) (\<lambda>committedAmount.
          if i64 (committedAmount + ca_Amount inp) > o_Amount ord then Inl ErrOrderAmountExceeded
          else
          let paymentID = (if ca_PaymentID inp = '''' then newPayID else ca_PaymentID inp);
              key = nullableText (ca_IdempotencyKey inp);
              att = new_attempt attemptID now inp paymentID AttProcessing '''' '''' key;
              pay = new_payment paymentID attemptID now inp in
          if attempt_conflict att (db_attempts db) \<and> key \<noteq> None
          then bindR (getPaymentByIdempotencyKey (ca_MerchantID inp) (ca_OrderID inp) (ca_IdempotencyKey inp) db)
                 (\<lambda>r. Inr (r, db))
          else
          bindR (insert_attempt att db) (\<lambda>db1.
          bindR (insert_payment pay db1) (\<lambda>db2.
          bindR (insertPaymentSplitsTx splitID now (ca_MerchantID inp) paymentID (ca_Splits inp) db2) (\<lambda>db3.
            Inr ((current_of pay)\<lparr>cr_Provider := ca_Provider inp, cr_RoutingReason := ca_RoutingReason inp,
                    cr_AttemptedProviders := ca_AttemptedProviders inp, cr_Status := Some Created\<rparr>,
                 emit evtID now (pay_event ''payment'' paymentID ''payment.authorized'' (ca_MerchantID inp)
                     [(''payment_id'', PStr paymentID), (''order_id'', PStr (ca_OrderID inp))])
                  (set_order (ca_MerchantID inp) (ca_OrderID inp) (attempt_order now) db3))))))))"

record route_decision =
  rd_Provider :: string
  rd_RoutingReason :: string
  rd_AttemptedProviders :: "string list"

text \<open>
  Two statements outside a transaction. \<open>provider\<close> and \<open>routing_reason\<close> are NOT NULL and written as
  \<open>NULLIF(v, '')\<close>: with an empty value a statement that hits a row fails, and then neither has
  changed anything.
\<close>

definition UpdateGatewayRouting ::
  "id \<Rightarrow> id \<Rightarrow> route_decision \<Rightarrow> 'a payment_db_scheme \<Rightarrow> payment_error + 'a payment_db_scheme" where
  "UpdateGatewayRouting merchantID paymentID d db =
     (let hit = (\<lambda>a. a_PaymentID a = paymentID \<and> a_MerchantID a = merchantID) in
      if (rd_Provider d = '''' \<or> rd_RoutingReason d = '''')
         \<and> (list_ex (pay_at merchantID paymentID) (db_payments db) \<or> list_ex hit (db_attempts db))
      then Inl ErrCheckViolation
      else Inr (db\<lparr>db_payments := upd_where (pay_at merchantID paymentID)
             (\<lambda>p. p\<lparr>p_Provider := rd_Provider d, p_RoutingReason := rd_RoutingReason d,
                     p_AttemptedProviders := rd_AttemptedProviders d\<rparr>) (db_payments db),
           db_attempts := upd_where hit
             (\<lambda>a. a\<lparr>a_Provider := rd_Provider d, a_RoutingReason := rd_RoutingReason d,
                     a_AttemptedProviders := rd_AttemptedProviders d\<rparr>) (db_attempts db)\<rparr>))"

text \<open>Insert or overwrite, with the checks and references of \<open>card_payment_details\<close>.\<close>

definition AttachCardPaymentDetails ::
  "card_details \<Rightarrow> 'a payment_db_scheme \<Rightarrow> payment_error + 'a payment_db_scheme" where
  "AttachCardPaymentDetails d db =
     (if \<not> (1 \<le> cd_ExpMonth d \<and> cd_ExpMonth d \<le> 12 \<and> 2000 \<le> cd_ExpYear d \<and> cd_ExpYear d \<le> 2200
            \<and> cd_TokenClass d \<in> {''single_use'', ''reusable''}) then Inl ErrCheckViolation
      else if cd_PaymentID d \<notin> p_ID ` set (db_payments db) \<or> cd_CardTokenID d \<notin> set (db_card_tokens db)
      then Inl ErrForeignKeyViolation
      else if cd_PaymentID d \<in> cd_PaymentID ` set (db_card_details db)
      then Inr (db\<lparr>db_card_details := upd_where (\<lambda>c. cd_PaymentID c = cd_PaymentID d) (\<lambda>_. d) (db_card_details db)\<rparr>)
      else Inr (db\<lparr>db_card_details := db_card_details db @ [d]\<rparr>))"

section \<open>Outcome of an authorization\<close>

record challenge_input =
  ci_SessionID :: id
  ci_CardTokenID :: id
  ci_RedirectURL :: string
  ci_ChallengeReference :: string
  ci_CallbackToken :: string
  ci_AutoCaptureRequested :: bool
  ci_ExpiresAt :: time

text \<open>\<open>INSERT ... ON CONFLICT (payment_id) DO UPDATE\<close> on \<open>card_challenge_sessions\<close>.\<close>

definition upsert_challenge ::
  "id \<Rightarrow> id \<Rightarrow> challenge_input \<Rightarrow> 'a payment_db_scheme \<Rightarrow> payment_error + 'a payment_db_scheme" where
  "upsert_challenge merchantID paymentID inp db =
     (if \<exists>c \<in> set (db_challenges db). cc_SessionID c = ci_SessionID inp \<and> cc_PaymentID c \<noteq> paymentID
      then Inl ErrUniqueViolation
      else if paymentID \<in> cc_PaymentID ` set (db_challenges db)
      then Inr (set_challenge paymentID
             (\<lambda>c. c\<lparr>cc_Status := ChPending, cc_SessionID := ci_SessionID inp,
                     cc_CallbackToken := ci_CallbackToken inp, cc_RedirectURL := ci_RedirectURL inp,
                     cc_ChallengeReference := ci_ChallengeReference inp,
                     cc_AutoCaptureRequested := ci_AutoCaptureRequested inp,
                     cc_ExpiresAt := ci_ExpiresAt inp, cc_CompletedAt := None, cc_FailureCode := '''',
                     cc_FailureDescription := ''''\<rparr>) db)
      else if ci_CardTokenID inp \<notin> set (db_card_tokens db) then Inl ErrForeignKeyViolation
      else Inr (db\<lparr>db_challenges := db_challenges db @
             [\<lparr>cc_PaymentID = paymentID, cc_MerchantID = merchantID, cc_CardTokenID = ci_CardTokenID inp,
               cc_SessionID = ci_SessionID inp, cc_CallbackToken = ci_CallbackToken inp,
               cc_Status = ChPending, cc_RedirectURL = ci_RedirectURL inp,
               cc_ChallengeReference = ci_ChallengeReference inp,
               cc_AutoCaptureRequested = ci_AutoCaptureRequested inp, cc_ExpiresAt = ci_ExpiresAt inp,
               cc_CompletedAt = None, cc_FailureCode = '''', cc_FailureDescription = ''''\<rparr>]\<rparr>))"

definition MarkAuthorizationRequiresAction ::
  "id \<Rightarrow> time \<Rightarrow> id \<Rightarrow> id \<Rightarrow> challenge_input
     \<Rightarrow> 'a payment_db_scheme \<Rightarrow> payment_error + capture_result \<times> 'a payment_db_scheme" where
  "MarkAuthorizationRequiresAction evtID now merchantID paymentID inp db =
     bindR (lock_payment merchantID paymentID db) (\<lambda>p.
       if p_Status p = RequiresAction then commit_get merchantID paymentID db
       else if p_Status p \<noteq> Created then Inl ErrInvalidTransition
       else
       bindR (upsert_challenge merchantID paymentID inp
                (set_payment paymentID (\<lambda>p. p\<lparr>p_Status := RequiresAction, p_MethodState := ''card_3ds_required''\<rparr>) db)) (\<lambda>db1.
         commit_get merchantID paymentID
           (emit evtID now (pay_event ''payment'' paymentID ''payment.pending_customer_action'' merchantID
                [(''payment_id'', PStr paymentID), (''order_id'', PStr (p_OrderID p)),
                 (''method'', PStr ''card''), (''flow_type'', PStr ''3ds'')])
             (set_attempt (p_AttemptID p)
                (\<lambda>a. a\<lparr>a_Status := AttRequiresAction, a_GatewayReference := ci_ChallengeReference inp\<rparr>) db1))))"

definition MarkAuthorizationAuthorized ::
  "id \<Rightarrow> time \<Rightarrow> id \<Rightarrow> id \<Rightarrow> string \<Rightarrow> string \<Rightarrow> time option
     \<Rightarrow> 'a payment_db_scheme \<Rightarrow> payment_error + capture_result \<times> 'a payment_db_scheme" where
  "MarkAuthorizationAuthorized evtID now merchantID paymentID gatewayReference authCode autoCaptureAt db =
     bindR (lock_payment merchantID paymentID db) (\<lambda>p.
       if p_Status p = Authorized then Inr (current_of p, db)
       else if p_Status p \<noteq> Created then Inl ErrInvalidTransition
       else
       commit_get merchantID paymentID
         (emit evtID now (pay_event ''payment'' paymentID ''payment.authorized'' merchantID
              [(''payment_id'', PStr paymentID), (''order_id'', PStr (p_OrderID p))])
           (set_attempt (p_AttemptID p)
              (\<lambda>a. a\<lparr>a_Status := AttAuthorized, a_GatewayReference := gatewayReference\<rparr>)
             (set_payment paymentID
                (\<lambda>q. q\<lparr>p_Status := Authorized, p_MethodState := methodStateForAuthorized (p_Method p),
                        p_GatewayReference := gatewayReference, p_AuthCode := authCode,
                        p_AuthorizedAt := Some now, p_AutoCaptureAt := autoCaptureAt\<rparr>) db))))"

text \<open>\<open>method_state_reason\<close> is NOT NULL and written as \<open>NULLIF(description, '')\<close>.\<close>

definition MarkAuthorizationFailed ::
  "id \<Rightarrow> time \<Rightarrow> id \<Rightarrow> id \<Rightarrow> string \<Rightarrow> string
     \<Rightarrow> 'a payment_db_scheme \<Rightarrow> payment_error + 'a payment_db_scheme" where
  "MarkAuthorizationFailed evtID now merchantID paymentID errorCode errorDescription db =
     bindR (lock_payment merchantID paymentID db) (\<lambda>p.
       if p_Status p = Failed then Inr db
       else if p_Status p \<notin> {Created, RequiresAction} then Inl ErrInvalidTransition
       else if errorDescription = '''' then Inl ErrCheckViolation
       else
       Inr (emit evtID now (pay_event ''payment_attempt'' (p_AttemptID p) ''payment.failed'' merchantID
               [(''payment_id'', PStr paymentID), (''order_id'', PStr (p_OrderID p)), (''error_code'', PStr errorCode)])
             (set_attempt (p_AttemptID p)
                (\<lambda>a. a\<lparr>a_Status := AttFailed, a_ErrorCode := errorCode, a_ErrorDescription := errorDescription\<rparr>)
               (set_payment paymentID
                  (\<lambda>q. q\<lparr>p_Status := Failed, p_MethodState := methodStateForFailure (p_Method p),
                          p_MethodStateReason := errorDescription, p_ErrorCode := errorCode,
                          p_ErrorDescription := errorDescription\<rparr>) db))))"

section \<open>The 3DS challenge\<close>

definition ResolveCardChallengeMerchant :: "id \<Rightarrow> string \<Rightarrow> 'a payment_db_scheme \<Rightarrow> payment_error + id" where
  "ResolveCardChallengeMerchant paymentID callbackToken db =
     (if paymentID = '''' \<or> callbackToken = '''' then Inl ErrCardChallengeRejected
      else case find (\<lambda>c. cc_PaymentID c = paymentID \<and> cc_CallbackToken c = callbackToken) (db_challenges db) of
             None \<Rightarrow> Inl ErrCardChallengeRejected
           | Some c \<Rightarrow> Inr (cc_MerchantID c))"

definition fail_challenge ::
  "id \<Rightarrow> id \<Rightarrow> payment \<Rightarrow> challenge_state \<Rightarrow> time \<Rightarrow> string \<Rightarrow> string \<Rightarrow> string
     \<Rightarrow> 'a payment_db_scheme \<Rightarrow> 'a payment_db_scheme" where
  "fail_challenge merchantID paymentID p status at errorCode errorDescription methodState db =
     set_attempt (p_AttemptID p)
       (\<lambda>a. a\<lparr>a_Status := AttFailed, a_ErrorCode := errorCode, a_ErrorDescription := errorDescription\<rparr>)
      (set_payment paymentID
        (\<lambda>q. q\<lparr>p_Status := Failed, p_MethodState := methodState, p_MethodStateReason := errorDescription,
                p_ErrorCode := errorCode, p_ErrorDescription := errorDescription\<rparr>)
        (set_challenge paymentID
          (\<lambda>c. c\<lparr>cc_Status := status, cc_CompletedAt := Some at, cc_FailureCode := errorCode,
                  cc_FailureDescription := errorDescription\<rparr>) db))"

definition CompleteCardChallenge ::
  "id \<Rightarrow> time \<Rightarrow> id \<Rightarrow> id \<Rightarrow> string \<Rightarrow> string \<Rightarrow> string \<Rightarrow> time
     \<Rightarrow> 'a payment_db_scheme \<Rightarrow> payment_error + (capture_result \<times> bool) \<times> 'a payment_db_scheme" where
  "CompleteCardChallenge evtID now merchantID paymentID callbackToken gatewayReference authCode completedAt db =
     (let reply = (\<lambda>processed db'. bindR (GetPayment merchantID paymentID db') (\<lambda>r. Inr ((r, processed), db'))) in
      bindR (lock_payment merchantID paymentID db) (\<lambda>p.
        case find (\<lambda>c. cc_PaymentID c = paymentID) (db_challenges db) of
          None \<Rightarrow> Inl ErrCardChallengeRejected
        | Some c \<Rightarrow>
            if cc_CallbackToken c = '''' \<or> callbackToken = '''' \<or> cc_CallbackToken c \<noteq> callbackToken
            then Inl ErrCardChallengeRejected
            else if cc_Status c \<noteq> ChPending then reply False db
            else if p_Status p \<noteq> RequiresAction then reply False db
            else if completedAt > cc_ExpiresAt c
            then reply False (fail_challenge merchantID paymentID p ChExpired completedAt ''CARD_3DS_EXPIRED''
                   ''challenge session expired'' ''card_3ds_expired'' db)
            else
            let autoCaptureAt = (if cc_AutoCaptureRequested c then Some (completedAt + seconds 30) else None) in
            reply True
              (emit evtID now (pay_event ''payment'' paymentID ''payment.authorized'' merchantID
                   [(''payment_id'', PStr paymentID), (''order_id'', PStr (p_OrderID p)), (''flow_type'', PStr ''3ds'')])
                (set_challenge paymentID
                   (\<lambda>c. c\<lparr>cc_Status := ChCompleted, cc_CompletedAt := Some completedAt, cc_FailureCode := '''',
                           cc_FailureDescription := ''''\<rparr>)
                  (set_attempt (p_AttemptID p)
                     (\<lambda>a. a\<lparr>a_Status := AttAuthorized, a_GatewayReference := gatewayReference\<rparr>)
                    (set_payment paymentID
                       (\<lambda>q. q\<lparr>p_Status := Authorized, p_MethodState := ''card_3ds_authenticated'',
                               p_GatewayReference := gatewayReference, p_AuthCode := authCode,
                               p_AuthorizedAt := Some completedAt, p_AutoCaptureAt := autoCaptureAt\<rparr>) db))))))"

definition challenge_status :: "string \<Rightarrow> challenge_state option" where
  "challenge_status s =
     (if s = ''pending'' then Some ChPending else if s = ''completed'' then Some ChCompleted
      else if s = ''failed'' then Some ChFailed else if s = ''abandoned'' then Some ChAbandoned
      else if s = ''expired'' then Some ChExpired else None)"

definition FailCardChallenge ::
  "id \<Rightarrow> time \<Rightarrow> id \<Rightarrow> id \<Rightarrow> string \<Rightarrow> string \<Rightarrow> string \<Rightarrow> string \<Rightarrow> time
     \<Rightarrow> 'a payment_db_scheme \<Rightarrow> payment_error + (capture_result \<times> bool) \<times> 'a payment_db_scheme" where
  "FailCardChallenge evtID now merchantID paymentID callbackToken errorCode errorDescription challengeStatus failedAt db =
     (let reply = (\<lambda>processed db'. bindR (GetPayment merchantID paymentID db') (\<lambda>r. Inr ((r, processed), db'))) in
      bindR (lock_payment merchantID paymentID db) (\<lambda>p.
        case find (\<lambda>c. cc_PaymentID c = paymentID) (db_challenges db) of
          None \<Rightarrow> Inl ErrCardChallengeRejected
        | Some c \<Rightarrow>
            if cc_CallbackToken c = '''' \<or> callbackToken = '''' \<or> cc_CallbackToken c \<noteq> callbackToken
            then Inl ErrCardChallengeRejected
            else if p_Status p \<noteq> RequiresAction then reply False db
            else case challenge_status challengeStatus of
              None \<Rightarrow> Inl ErrCheckViolation
            | Some status \<Rightarrow>
                if errorDescription = '''' then Inl ErrCheckViolation
                else reply True
                  (emit evtID now (pay_event ''payment_attempt'' (p_AttemptID p) ''payment.failed'' merchantID
                       [(''payment_id'', PStr paymentID), (''order_id'', PStr (p_OrderID p)), (''error_code'', PStr errorCode)])
                    (fail_challenge merchantID paymentID p status failedAt errorCode errorDescription
                       (methodStateForChallengeFailure challengeStatus) db))))"

section \<open>Reversal and capture\<close>

definition ReverseAuthorization ::
  "id \<Rightarrow> time \<Rightarrow> id \<Rightarrow> id \<Rightarrow> string
     \<Rightarrow> 'a payment_db_scheme \<Rightarrow> payment_error + capture_result \<times> 'a payment_db_scheme" where
  "ReverseAuthorization evtID now merchantID paymentID reason db =
     bindR (lock_payment merchantID paymentID db) (\<lambda>p.
       if p_Status p = AuthorizationReversed
       then Inr ((current_of p)\<lparr>cr_Status := Some AuthorizationReversed\<rparr>, db)
       else if p_Status p \<noteq> Authorized then Inl ErrInvalidTransition
       else if reason = '''' then Inl ErrCheckViolation
       else
       commit_get merchantID paymentID
         (emit evtID now (pay_event ''payment'' paymentID ''payment.authorization_reversed'' merchantID
              [(''payment_id'', PStr paymentID), (''order_id'', PStr (p_OrderID p)), (''reason'', PStr reason)])
           (set_attempt (p_AttemptID p)
              (\<lambda>a. a\<lparr>a_Status := AttAuthorizationReversed, a_ErrorCode := ''AUTHORIZATION_REVERSED'',
                      a_ErrorDescription := reason\<rparr>)
             (set_payment paymentID
                (\<lambda>q. q\<lparr>p_Status := AuthorizationReversed, p_MethodState := ''card_authorization_reversed'',
                        p_MethodStateReason := reason, p_AutoCaptureAt := None,
                        p_ErrorCode := ''AUTHORIZATION_REVERSED'', p_ErrorDescription := reason\<rparr>) db))))"

definition ledger_line :: "string \<Rightarrow> int \<Rightarrow> int \<Rightarrow> string \<Rightarrow> entry" where
  "ledger_line account debit credit description =
     \<lparr>e_AccountCode = account, e_DebitAmount = debit, e_CreditAmount = credit, e_Currency = '''',
      e_Description = description\<rparr>"

definition split_line :: "payment_split \<Rightarrow> entry" where
  "split_line s = ledger_line ''MERCHANT_PAYABLE'' 0 (s_Amount s)
     (if s_BeneficiaryLabel s \<noteq> '''' then ''connected account payable: '' @ s_BeneficiaryLabel s
      else ''connected account payable'')"

text \<open>The loop over the splits: the running int64 total and the entries.\<close>

fun split_entries :: "int \<Rightarrow> payment_split list \<Rightarrow> int \<times> entry list" where
  "split_entries acc [] = (acc, [])"
| "split_entries acc (s # ss) =
     (if s_Amount s \<le> 0 then split_entries acc ss
      else case split_entries (i64 (acc + s_Amount s)) ss of (t, es) \<Rightarrow> (t, split_line s # es))"

definition capture_fee :: "int \<Rightarrow> int" where
  "capture_fee amount = quot64 (i64 (amount * 2)) 100"

definition capture_entries :: "int \<Rightarrow> payment_split list \<Rightarrow> payment_error + entry list" where
  "capture_entries amount splits =
     (let fee = capture_fee amount in
      case split_entries 0 splits of (splitTotal, lines) \<Rightarrow>
      let residual = i64 (i64 (amount - fee) - splitTotal);
          entries = [ledger_line ''CUSTOMER_RECEIVABLE'' amount 0 ''payment capture receivable'',
                     ledger_line ''PLATFORM_FEE_REVENUE'' 0 fee ''platform fee revenue''] @ lines in
      if residual < 0 then Inl ErrAmountMismatch
      else Inr (if residual > 0
                then entries @ [ledger_line ''MERCHANT_PAYABLE'' 0 residual ''merchant payable on capture'']
                else entries))"

definition pay_order :: "time \<Rightarrow> order \<Rightarrow> order" where
  "pay_order now ord = ord\<lparr>o_Status := OrderPaid, o_AmountPaid := o_Amount ord, o_AmountDue := 0, o_UpdatedAt := now\<rparr>"

definition capture_payment :: "time \<Rightarrow> int \<Rightarrow> payment \<Rightarrow> payment" where
  "capture_payment now fee p =
     p\<lparr>p_Status := Captured, p_MethodState := methodStateForCapture (p_Method p), p_Captured := True,
        p_CapturedAt := Some now, p_Fee := fee\<rparr>"

definition CaptureAuthorizedPayment ::
  "id \<times> id \<times> id \<Rightarrow> time \<Rightarrow> id \<Rightarrow> id \<Rightarrow> int
     \<Rightarrow> 'a payment_db_scheme \<Rightarrow> payment_error + capture_result \<times> 'a payment_db_scheme" where
  "CaptureAuthorizedPayment ids now merchantID paymentID amount db =
     (case ids of (txnID, evtID1, evtID2) \<Rightarrow>
      bindR (lock_payment merchantID paymentID db) (\<lambda>p.
        if p_Status p \<noteq> Authorized then
          (if p_Status p = Captured then Inr (current_of p, db) else Inl ErrInvalidTransition)
        else if amount \<noteq> p_Amount p then Inl ErrAmountMismatch
        else
        bindR (capture_entries amount (listPaymentSplits paymentID db)) (\<lambda>entries.
        bindR (mapL PayLedger (CreateEntriesTx txnID (p_MerchantID p) ''payment'' (p_ID p) ''payment capture'' entries (db_ledger db))) (\<lambda>ledger.
          commit_get merchantID paymentID
            (emit evtID2 now (pay_event ''order'' (p_OrderID p) ''order.paid'' (p_MerchantID p)
                 [(''order_id'', PStr (p_OrderID p)), (''payment_id'', PStr paymentID)])
              (emit evtID1 now (pay_event ''payment'' paymentID ''payment.captured'' (p_MerchantID p)
                   [(''payment_id'', PStr paymentID), (''order_id'', PStr (p_OrderID p))])
                (set_order (p_MerchantID p) (p_OrderID p) (pay_order now)
                  (set_payment paymentID (capture_payment now (capture_fee amount))
                    (db\<lparr>db_ledger := ledger\<rparr>)))))))))"

section \<open>Sweeps\<close>

definition auto_capture_due :: "time \<Rightarrow> payment \<Rightarrow> bool" where
  "auto_capture_due now p \<longleftrightarrow> p_Status p = Authorized
     \<and> (case p_AutoCaptureAt p of None \<Rightarrow> False | Some t \<Rightarrow> t \<le> now)"

definition next_auto_capture :: "time \<Rightarrow> payment list \<Rightarrow> payment option" where
  "next_auto_capture now rows =
     (case sort_key (\<lambda>p. the (p_AutoCaptureAt p)) (filter (auto_capture_due now) rows) of
        [] \<Rightarrow> None | p # _ \<Rightarrow> Some p)"

text \<open>The rounds of \<open>AutoCaptureDue\<close>; \<open>ids i\<close> are the identifiers drawn when \<open>i\<close> rounds remain.\<close>

fun auto_capture_rounds ::
  "(nat \<Rightarrow> id \<times> id \<times> id) \<Rightarrow> time \<Rightarrow> nat \<Rightarrow> int \<Rightarrow> 'a payment_db_scheme \<Rightarrow> int \<times> 'a payment_db_scheme" where
  "auto_capture_rounds ids now 0 cnt db = (cnt, db)"
| "auto_capture_rounds ids now (Suc n) cnt db =
     (case next_auto_capture now (db_payments db) of
        None \<Rightarrow> (cnt, db)
      | Some p \<Rightarrow>
          (case CaptureAuthorizedPayment (ids n) now (p_MerchantID p) (p_ID p) (p_Amount p) db of
             Inl _ \<Rightarrow> auto_capture_rounds ids now n cnt db
           | Inr (_, db') \<Rightarrow> auto_capture_rounds ids now n (cnt + 1) db'))"

definition AutoCaptureDue ::
  "(nat \<Rightarrow> id \<times> id \<times> id) \<Rightarrow> time \<Rightarrow> 'a payment_db_scheme \<Rightarrow> int \<times> 'a payment_db_scheme" where
  "AutoCaptureDue ids now db = auto_capture_rounds ids now 50 0 db"

definition window_due :: "time \<Rightarrow> time \<Rightarrow> payment \<Rightarrow> bool" where
  "window_due now window p \<longleftrightarrow> p_Status p = Authorized
     \<and> (case p_AuthorizedAt p of None \<Rightarrow> False | Some t \<Rightarrow> t \<le> now - window)"

definition fail_order :: "time \<Rightarrow> order \<Rightarrow> order" where
  "fail_order now ord =
     ord\<lparr>o_Status := (if o_Status ord = OrderAttempted then OrderFailed else o_Status ord), o_UpdatedAt := now\<rparr>"

definition expire_payment :: "time \<Rightarrow> id \<Rightarrow> payment \<Rightarrow> 'a payment_db_scheme \<Rightarrow> 'a payment_db_scheme" where
  "expire_payment now evtID p db =
     emit evtID now (pay_event ''payment'' (p_ID p) ''payment.auto_refunded'' (p_MerchantID p)
         [(''payment_id'', PStr (p_ID p)), (''order_id'', PStr (p_OrderID p))])
      (set_order (p_MerchantID p) (p_OrderID p) (fail_order now)
        (set_payment (p_ID p)
          (\<lambda>q. q\<lparr>p_Status := AutoRefunded, p_MethodState := ''card_authorization_reversed'',
                  p_MethodStateReason := ''capture window expired'', p_ErrorCode := ''AUTH_WINDOW_EXPIRED'',
                  p_ErrorDescription := ''capture window expired''\<rparr>) db))"

fun expire_payments :: "time \<Rightarrow> (nat \<Rightarrow> id) \<Rightarrow> nat \<Rightarrow> payment list \<Rightarrow> 'a payment_db_scheme \<Rightarrow> 'a payment_db_scheme" where
  "expire_payments now evtID i [] db = db"
| "expire_payments now evtID i (p # ps) db = expire_payments now evtID (Suc i) ps (expire_payment now (evtID i) p db)"

definition ExpireAuthorizationWindow ::
  "(nat \<Rightarrow> id) \<Rightarrow> time \<Rightarrow> time \<Rightarrow> 'a payment_db_scheme \<Rightarrow> nat \<times> 'a payment_db_scheme" where
  "ExpireAuthorizationWindow evtID now window db =
     (let due = take 50 (sort_key (\<lambda>p. the (p_AuthorizedAt p)) (filter (window_due now window) (db_payments db))) in
      (length due, expire_payments now evtID 0 due db))"

text \<open>One tick of the payment sweeper: auto-capture, then the five-day authorization window.\<close>

definition payment_sweep ::
  "(nat \<Rightarrow> id \<times> id \<times> id) \<Rightarrow> (nat \<Rightarrow> id) \<Rightarrow> time \<Rightarrow> 'a payment_db_scheme \<Rightarrow> 'a payment_db_scheme" where
  "payment_sweep ids evtID now db =
     snd (ExpireAuthorizationWindow evtID now (seconds (5 * 24 * 3600)) (snd (AutoCaptureDue ids now db)))"

end
