(* ===== verification/PaymentFlow.thy ===== *)
theory PaymentFlow
  imports Payment
begin

text \<open>
  Safety of the card payment flow. The abstract state is what an order can still be charged: the
  amount of every order (its cap), for every payment its order, amount and status (its claim), and
  the captures posted to the ledger. Its steps admit a claim below the cap, move a claim along the
  documented transition table, or capture one and post it. Every repository operation is proved to
  be such a step, so that the exposure of an order is bounded and every capture is posted exactly
  once in every reachable database.
\<close>

section \<open>The abstract state\<close>

record claim =
  c_ID :: id
  c_MerchantID :: id
  c_OrderID :: id
  c_Amount :: int
  c_Status :: payment_state

definition claim_of :: "payment \<Rightarrow> claim" where
  "claim_of p = \<lparr>c_ID = p_ID p, c_MerchantID = p_MerchantID p, c_OrderID = p_OrderID p,
     c_Amount = p_Amount p, c_Status = p_Status p\<rparr>"

record exposure =
  x_caps :: "id \<Rightarrow> id \<Rightarrow> int option"
  x_claims :: "claim list"
  x_posted :: "(id \<times> int) list"

definition claim_live :: "claim \<Rightarrow> bool" where
  "claim_live c \<longleftrightarrow> c_Status c \<notin> {Failed, AuthorizationReversed, AutoRefunded}"

definition claimed :: "id \<Rightarrow> id \<Rightarrow> claim list \<Rightarrow> int" where
  "claimed merchantID orderID cs =
     sum_where (\<lambda>c. c_OrderID c = orderID \<and> c_MerchantID c = merchantID \<and> claim_live c) c_Amount cs"

text \<open>Orders above this bound are outside the cap: the int64 sum of the check may wrap.\<close>

definition cap_bound :: int where
  "cap_bound = 2 ^ 62"

inductive exposure_step :: "exposure \<Rightarrow> exposure \<Rightarrow> bool" where
  stay: "exposure_step x x"
| admit: "c_Status c = Created \<Longrightarrow> c_ID c \<notin> c_ID ` set (x_claims x) \<Longrightarrow> 0 < c_Amount c \<Longrightarrow>
    x_caps x (c_MerchantID c) (c_OrderID c) = Some a \<Longrightarrow>
    (a < cap_bound \<longrightarrow> claimed (c_MerchantID c) (c_OrderID c) (x_claims x) + c_Amount c \<le> a) \<Longrightarrow>
    exposure_step x (x\<lparr>x_claims := x_claims x @ [c]\<rparr>)"
| move: "c \<in> set (x_claims x) \<Longrightarrow> Transition (c_Status c) ev = Inr s \<Longrightarrow> s \<noteq> Captured \<Longrightarrow>
    exposure_step x (x\<lparr>x_claims := upd_where (\<lambda>d. c_ID d = c_ID c) (\<lambda>d. d\<lparr>c_Status := s\<rparr>) (x_claims x)\<rparr>)"
| collect: "c \<in> set (x_claims x) \<Longrightarrow> Transition (c_Status c) Capture = Inr Captured \<Longrightarrow>
    c_ID c \<notin> fst ` set (x_posted x) \<Longrightarrow>
    exposure_step x (x\<lparr>x_claims := upd_where (\<lambda>d. c_ID d = c_ID c) (\<lambda>d. d\<lparr>c_Status := Captured\<rparr>) (x_claims x),
      x_posted := x_posted x @ [(c_ID c, i64 (c_Amount c))]\<rparr>)"
| open_order: "x_caps x m i = None \<Longrightarrow> 0 < a \<Longrightarrow>
    exposure_step x (x\<lparr>x_caps := (x_caps x)(m := (x_caps x m)(i := Some a))\<rparr>)"

text \<open>Exactly the captured claims are posted, each for its amount.\<close>

definition posted_ok :: "claim list \<Rightarrow> (id \<times> int) list \<Rightarrow> bool" where
  "posted_ok cs ps \<longleftrightarrow> (\<forall>c \<in> set cs. (if c_Status c = Captured then (c_ID c, i64 (c_Amount c)) \<in> set ps
                                  else c_ID c \<notin> fst ` set ps))"

definition exposure_inv :: "exposure \<Rightarrow> bool" where
  "exposure_inv x \<longleftrightarrow> unique_key c_ID (x_claims x)
     \<and> (\<forall>c \<in> set (x_claims x). 0 < c_Amount c \<and> x_caps x (c_MerchantID c) (c_OrderID c) \<noteq> None)
     \<and> (\<forall>m i a. x_caps x m i = Some a \<longrightarrow> a < cap_bound \<longrightarrow> claimed m i (x_claims x) \<le> a)
     \<and> distinct (map fst (x_posted x)) \<and> fst ` set (x_posted x) \<subseteq> c_ID ` set (x_claims x)
     \<and> posted_ok (x_claims x) (x_posted x)"

lemma claimed_fresh:
  assumes "\<And>c. c \<in> set cs \<Longrightarrow> x (c_MerchantID c) (c_OrderID c) \<noteq> None" "x m i = None"
  shows "claimed m i cs = 0"
proof -
  have "\<not> (c_OrderID c = i \<and> c_MerchantID c = m \<and> claim_live c)" if "c \<in> set cs" for c
    using assms(1) [OF that] assms(2) by blast
  then show ?thesis unfolding claimed_def by (rule sum_where_none)
qed

lemma live_mono: "Transition s ev = Inr s' \<Longrightarrow> s' \<notin> {Failed, AuthorizationReversed, AutoRefunded} \<Longrightarrow>
    s \<notin> {Failed, AuthorizationReversed, AutoRefunded}"
  by (cases s; cases ev) (simp_all add: Transition_def)

lemma claimed_move:
  assumes uniq: "unique_key c_ID cs" and c: "c \<in> set cs" and ev: "Transition (c_Status c) ev = Inr s"
    and pos: "\<And>d. d \<in> set cs \<Longrightarrow> 0 < c_Amount d"
  shows "claimed m i (upd_where (\<lambda>d. c_ID d = c_ID c) (\<lambda>d. d\<lparr>c_Status := s\<rparr>) cs) \<le> claimed m i cs"
proof -
  have "claimed m i (upd_where (\<lambda>d. c_ID d = c_ID c) (\<lambda>d. d\<lparr>c_Status := s\<rparr>) cs)
      = claimed m i cs
        - (if c_OrderID c = i \<and> c_MerchantID c = m \<and> claim_live c then c_Amount c else 0)
        + (if c_OrderID c = i \<and> c_MerchantID c = m \<and> claim_live (c\<lparr>c_Status := s\<rparr>) then c_Amount c else 0)"
    unfolding claimed_def using sum_where_upd_one [OF uniq c, of "\<lambda>d. c_ID d = c_ID c"] by simp
  then show ?thesis using live_mono [OF ev] pos [OF c] by (auto simp: claim_live_def)
qed

lemma exposure_keep:
  assumes inv: "exposure_inv x" and c: "c \<in> set (x_claims x)" and ev: "Transition (c_Status c) ev = Inr s"
    and cs: "cs = upd_where (\<lambda>d. c_ID d = c_ID c) (\<lambda>d. d\<lparr>c_Status := s\<rparr>) (x_claims x)"
  shows "unique_key c_ID cs
     \<and> (\<forall>c \<in> set cs. 0 < c_Amount c \<and> x_caps x (c_MerchantID c) (c_OrderID c) \<noteq> None)
     \<and> (\<forall>m i a. x_caps x m i = Some a \<longrightarrow> a < cap_bound \<longrightarrow> claimed m i cs \<le> a)"
proof -
  have "claimed m i cs \<le> claimed m i (x_claims x)" for m i
    unfolding cs using inv c ev by (intro claimed_move) (auto simp: exposure_inv_def)
  then have "claimed m i cs \<le> a" if "x_caps x m i = Some a" "a < cap_bound" for m i a
    using inv that unfolding exposure_inv_def by (meson order_trans)
  then show ?thesis
    using inv by (auto simp: cs exposure_inv_def set_upd_where)
qed

lemma exposure_step_inv: "exposure_step x x' \<Longrightarrow> exposure_inv x \<Longrightarrow> exposure_inv x'"
proof (induction rule: exposure_step.induct)
  case (admit c x a)
  then show ?case
    by (auto simp: exposure_inv_def posted_ok_def claimed_def claim_live_def split: if_splits)
next
  case (move c x ev s)
  let ?cs = "upd_where (\<lambda>d. c_ID d = c_ID c) (\<lambda>d. d\<lparr>c_Status := s\<rparr>) (x_claims x)"
  have "c_Status c \<noteq> Captured" using move.hyps(2) by (auto simp: Transition_def)
  then have c: "c_ID c \<notin> fst ` set (x_posted x)" using move.hyps(1) move.prems by (auto simp: exposure_inv_def posted_ok_def)
  have "if c_Status e = Captured then (c_ID e, i64 (c_Amount e)) \<in> set (x_posted x) else c_ID e \<notin> fst ` set (x_posted x)"
    if "d \<in> set (x_claims x)" "e = (if c_ID d = c_ID c then d\<lparr>c_Status := s\<rparr> else d)" for d e
    using c move.hyps(3) move.prems that by (cases "c_ID d = c_ID c") (auto simp: exposure_inv_def posted_ok_def)
  then have "posted_ok ?cs (x_posted x)"
    unfolding posted_ok_def set_upd_where by blast
  moreover have "c_ID ` set ?cs = c_ID ` set (x_claims x)" by simp
  ultimately show ?case
    using move.prems exposure_keep [OF move.prems move.hyps(1,2)] by (simp add: exposure_inv_def)
next
  case (collect c x)
  let ?cs = "upd_where (\<lambda>d. c_ID d = c_ID c) (\<lambda>d. d\<lparr>c_Status := Captured\<rparr>) (x_claims x)"
  let ?ps = "x_posted x @ [(c_ID c, i64 (c_Amount c))]"
  have "d = c" if "d \<in> set (x_claims x)" "c_ID d = c_ID c" for d
    using collect.prems collect.hyps(1) that unique_key_inj [of c_ID "x_claims x" d c] by (simp add: exposure_inv_def)
  then have "if c_Status e = Captured then (c_ID e, i64 (c_Amount e)) \<in> set ?ps else c_ID e \<notin> fst ` set ?ps"
    if "d \<in> set (x_claims x)" "e = (if c_ID d = c_ID c then d\<lparr>c_Status := Captured\<rparr> else d)" for d e
    using collect.prems that by (cases "c_ID d = c_ID c") (auto simp: exposure_inv_def posted_ok_def)
  then have "posted_ok ?cs ?ps"
    unfolding posted_ok_def set_upd_where by blast
  moreover have "c_ID ` set ?cs = c_ID ` set (x_claims x)" by simp
  moreover have "fst ` set ?ps \<subseteq> c_ID ` set (x_claims x)" "distinct (map fst ?ps)"
    using collect by (auto simp: exposure_inv_def)
  ultimately show ?case
    using exposure_keep [OF collect.prems collect.hyps(1,2)] by (simp add: exposure_inv_def)
next
  case (open_order x m i a)
  then have "claimed m i (x_claims x) = 0"
    by (intro claimed_fresh [where x = "x_caps x"]) (auto simp: exposure_inv_def)
  with open_order show ?case by (auto simp: exposure_inv_def)
qed simp

interpretation exposure: invariant_system exposure_step exposure_inv
  by unfold_locales (rule exposure_step_inv)

section \<open>Abstraction\<close>

definition caps :: "order list \<Rightarrow> id \<Rightarrow> id \<Rightarrow> int option" where
  "caps ords m i = map_option o_Amount (find (order_at m i) ords)"

definition posted_captures :: "ledger_db \<Rightarrow> (id \<times> int) list" where
  "posted_captures l = map (\<lambda>t. (lt_SourceID t, lt_TotalDebit t))
     (filter (\<lambda>t. lt_SourceType t = ''payment'') (ledger_transactions l))"

definition abs_pay :: "'a payment_db_scheme \<Rightarrow> exposure" where
  "abs_pay db = \<lparr>x_caps = caps (db_orders db), x_claims = map claim_of (db_payments db),
     x_posted = posted_captures (db_ledger db)\<rparr>"

lemma claimed_abs: "claimed m i (map claim_of ps) = committed m i ps"
  by (induction ps) (simp_all add: claimed_def committed_def claim_of_def claim_live_def live_def)

lemma map_claim_upd:
  assumes "\<And>p. claim_of (f p) = (claim_of p)\<lparr>c_Status := s\<rparr>"
  shows "map claim_of (upd_where (\<lambda>p. p_ID p = i) f ps)
    = upd_where (\<lambda>c. c_ID c = i) (\<lambda>c. c\<lparr>c_Status := s\<rparr>) (map claim_of ps)"
  using assms by (induction ps) (simp_all add: claim_of_def)

lemma map_claim_same:
  "(\<And>p. claim_of (f p) = claim_of p) \<Longrightarrow> map claim_of (upd_where q f ps) = map claim_of ps"
  by (induction ps) simp_all

text \<open>Updates of an order keep its identity and its amount.\<close>

definition keeps_order :: "(order \<Rightarrow> order) \<Rightarrow> bool" where
  "keeps_order f \<longleftrightarrow> (\<forall>ord. o_ID (f ord) = o_ID ord \<and> o_MerchantID (f ord) = o_MerchantID ord \<and> o_Amount (f ord) = o_Amount ord)"

lemma caps_upd [simp]: "keeps_order f \<Longrightarrow> caps (upd_where q f ords) = caps ords"
proof (intro ext)
  fix m i
  assume "keeps_order f"
  then show "caps (upd_where q f ords) m i = caps ords m i"
    by (induction ords) (auto simp: caps_def keeps_order_def order_at_def)
qed

lemma keeps_order_updates [simp]:
  "keeps_order (attempt_order now)" "keeps_order (pay_order now)" "keeps_order (fail_order now)"
  "keeps_order (\<lambda>ord. ord\<lparr>o_Status := f ord, o_UpdatedAt := now\<rparr>)"
  by (simp_all add: keeps_order_def attempt_order_def pay_order_def fail_order_def)

lemmas db_simps = set_payment_def set_attempt_def set_challenge_def set_order_def emit_def

lemma lock_paymentD:
  "lock_payment m i db = Inr p \<Longrightarrow> p \<in> set (db_payments db) \<and> p_ID p = i \<and> p_MerchantID p = m"
  by (auto simp: lock_payment_def pay_at_def split: option.splits dest!: find_SomeD)

lemma commit_get_Inr: "commit_get m i db = Inr (r, db') \<Longrightarrow> db' = db"
  by (auto simp: commit_get_def bindR_Inr_iff)

lemma abs_move:
  assumes p: "p \<in> set (db_payments db)" and ev: "Transition (p_Status p) ev = Inr s" "s \<noteq> Captured"
    and rows: "db_payments db' = upd_where (\<lambda>q. p_ID q = p_ID p) f (db_payments db)"
    and f: "\<And>q. claim_of (f q) = (claim_of q)\<lparr>c_Status := s\<rparr>"
    and caps: "caps (db_orders db') = caps (db_orders db)" "db_ledger db' = db_ledger db"
  shows "exposure_step (abs_pay db) (abs_pay db')"
proof -
  have "claim_of p \<in> set (x_claims (abs_pay db))" using p by (simp add: abs_pay_def)
  moreover have "Transition (c_Status (claim_of p)) ev = Inr s" using ev by (simp add: claim_of_def)
  ultimately have "exposure_step (abs_pay db) ((abs_pay db)\<lparr>x_claims := upd_where (\<lambda>d. c_ID d = c_ID (claim_of p))
      (\<lambda>d. d\<lparr>c_Status := s\<rparr>) (x_claims (abs_pay db))\<rparr>)" using ev(2) by (rule exposure_step.move)
  moreover have "abs_pay db' = (abs_pay db)\<lparr>x_claims := upd_where (\<lambda>d. c_ID d = c_ID (claim_of p))
      (\<lambda>d. d\<lparr>c_Status := s\<rparr>) (x_claims (abs_pay db))\<rparr>"
    using map_claim_upd [of f s "p_ID p" "db_payments db"] f caps by (simp add: abs_pay_def rows claim_of_def)
  ultimately show ?thesis by simp
qed

lemma abs_simps [simp]:
  "abs_pay (emit e n v db) = abs_pay db"
  "abs_pay (set_attempt j g db) = abs_pay db"
  "abs_pay (set_challenge j h db) = abs_pay db"
  "abs_pay (db\<lparr>db_attempts := as\<rparr>) = abs_pay db"
  "abs_pay (db\<lparr>db_splits := ss\<rparr>) = abs_pay db"
  "abs_pay (db\<lparr>db_card_details := cds\<rparr>) = abs_pay db"
  "keeps_order k \<Longrightarrow> abs_pay (set_order m i k db) = abs_pay db"
  by (simp_all add: abs_pay_def db_simps)

lemma abs_set_payment:
  assumes "lock_payment m i db = Inr p" and "abs_pay db0 = abs_pay db"
    and "Transition (p_Status p) ev = Inr s" "s \<noteq> Captured" and "\<And>q. claim_of (f q) = (claim_of q)\<lparr>c_Status := s\<rparr>"
  shows "exposure_step (abs_pay db) (abs_pay (set_payment i f db0))"
proof -
  have p: "claim_of p \<in> claim_of ` set (db_payments db0)"
    using lock_paymentD [OF assms(1)] assms(2) by (metis abs_pay_def exposure.ext_inject image_eqI set_map)
  then obtain q where q: "q \<in> set (db_payments db0)" "claim_of q = claim_of p" by auto
  then have "p_ID q = i" "p_Status q = p_Status p"
    using lock_paymentD [OF assms(1)] by (simp_all add: claim_of_def)
  then have "exposure_step (abs_pay db0) (abs_pay (set_payment i f db0))"
    using q(1) assms(3-5) by (intro abs_move [of q _ ev s _ f]) (simp_all add: set_payment_def)
  then show ?thesis by (simp add: assms(2))
qed

lemma abs_stay:
  "map claim_of (db_payments db') = map claim_of (db_payments db) \<Longrightarrow> caps (db_orders db') = caps (db_orders db) \<Longrightarrow>
     db_ledger db' = db_ledger db \<Longrightarrow> exposure_step (abs_pay db) (abs_pay db')"
  using exposure_step.stay [of "abs_pay db"] by (simp add: abs_pay_def)

section \<open>The steps of the flow\<close>

inductive pay_step :: "'a payment_db_scheme \<Rightarrow> 'a payment_db_scheme \<Rightarrow> bool" where
  create_order: "CreateOrder newid evtID now inp db = Inr (ord, db') \<Longrightarrow> pay_step db db'"
| expire_orders: "ExpireDueOrders now db = (n, db') \<Longrightarrow> pay_step db db'"
| start: "StartAuthorization attemptID newPayID splitID evtID now ain db = Inr (r, db') \<Longrightarrow> pay_step db db'"
| failed_attempt: "CreateFailedAttempt attemptID evtID now ain code desc db = Inr db' \<Longrightarrow> pay_step db db'"
| routing: "UpdateGatewayRouting m i d db = Inr db' \<Longrightarrow> pay_step db db'"
| attach: "AttachCardPaymentDetails cd db = Inr db' \<Longrightarrow> pay_step db db'"
| requires_action: "MarkAuthorizationRequiresAction evtID now m i cin db = Inr (r, db') \<Longrightarrow> pay_step db db'"
| authorized: "MarkAuthorizationAuthorized evtID now m i gref auth cap db = Inr (r, db') \<Longrightarrow> pay_step db db'"
| failed: "MarkAuthorizationFailed evtID now m i code desc db = Inr db' \<Longrightarrow> pay_step db db'"
| complete_challenge: "CompleteCardChallenge evtID now m i tok gref auth at db = Inr (r, db') \<Longrightarrow> pay_step db db'"
| fail_challenge: "FailCardChallenge evtID now m i tok code desc st at db = Inr (r, db') \<Longrightarrow> pay_step db db'"
| reverse: "ReverseAuthorization evtID now m i reason db = Inr (r, db') \<Longrightarrow> pay_step db db'"
| capture: "CaptureAuthorizedPayment ids now m i amount db = Inr (r, db') \<Longrightarrow> pay_step db db'"
| expire_window: "p \<in> set (db_payments db) \<Longrightarrow> p_Status p = Authorized \<Longrightarrow> pay_step db (expire_payment now evtID p db)"

definition pay_inv :: "'a payment_db_scheme \<Rightarrow> bool" where
  "pay_inv db \<longleftrightarrow> orders_inv db \<and> exposure_inv (abs_pay db)"

lemma UpdateGatewayRouting_abs: "UpdateGatewayRouting m i d db = Inr db' \<Longrightarrow> exposure_step (abs_pay db) (abs_pay db')"
  by (rule abs_stay) (auto simp: UpdateGatewayRouting_def Let_def map_claim_same claim_of_def split: if_split_asm)

lemma upsert_challenge_abs: "upsert_challenge m i cin db = Inr db' \<Longrightarrow> abs_pay db' = abs_pay db"
  by (auto simp: upsert_challenge_def abs_pay_def db_simps split: if_splits)

lemma MarkAuthorizationRequiresAction_abs:
  assumes "MarkAuthorizationRequiresAction evtID now m i cin db = Inr (r, db')"
  shows "exposure_step (abs_pay db) (abs_pay db')"
  using assms
  by (auto simp: MarkAuthorizationRequiresAction_def bindR_Inr_iff exposure_step.stay Transition_def claim_of_def
      split: if_splits dest!: commit_get_Inr upsert_challenge_abs
      intro!: abs_set_payment [where ev = CustomerActionRequired and s = RequiresAction])

lemma MarkAuthorizationAuthorized_abs:
  assumes "MarkAuthorizationAuthorized evtID now m i gref auth cap db = Inr (r, db')"
  shows "exposure_step (abs_pay db) (abs_pay db')"
  using assms
  by (auto simp: MarkAuthorizationAuthorized_def bindR_Inr_iff exposure_step.stay Transition_def claim_of_def
      split: if_splits dest!: commit_get_Inr
      intro!: abs_set_payment [where ev = AuthSuccess and s = Authorized])

lemma MarkAuthorizationFailed_abs:
  assumes "MarkAuthorizationFailed evtID now m i code desc db = Inr db'"
  shows "exposure_step (abs_pay db) (abs_pay db')"
  using assms
  by (auto simp: MarkAuthorizationFailed_def bindR_Inr_iff exposure_step.stay Transition_def claim_of_def
      split: if_splits intro!: abs_set_payment [where ev = AuthFailed and s = Failed])

lemma CompleteCardChallenge_abs:
  assumes "CompleteCardChallenge evtID now m i tok gref auth at db = Inr (r, db')"
  shows "exposure_step (abs_pay db) (abs_pay db')"
proof -
  obtain p where p: "lock_payment m i db = Inr p" using assms by (auto simp: CompleteCardChallenge_def bindR_Inr_iff)
  obtain c where c: "find (\<lambda>c. cc_PaymentID c = i) (db_challenges db) = Some c"
    using assms p by (cases "find (\<lambda>c. cc_PaymentID c = i) (db_challenges db)") (simp_all add: CompleteCardChallenge_def)
  show ?thesis
  proof (cases "cc_ExpiresAt c < at")
    case True
    with assms p c show ?thesis
      by (auto simp: CompleteCardChallenge_def fail_challenge_def Let_def bindR_Inr_iff exposure_step.stay Transition_def
          claim_of_def split: if_split_asm intro!: abs_set_payment [where ev = AuthFailed and s = Failed])
  next
    case False
    with assms p c show ?thesis
      by (auto simp: CompleteCardChallenge_def Let_def bindR_Inr_iff exposure_step.stay Transition_def
          claim_of_def split: if_split_asm
          intro!: abs_set_payment [where ev = CustomerActionComplete and s = Authorized])
  qed
qed

lemma FailCardChallenge_abs:
  assumes "FailCardChallenge evtID now m i tok code desc st at db = Inr (r, db')"
  shows "exposure_step (abs_pay db) (abs_pay db')"
proof -
  obtain p where p: "lock_payment m i db = Inr p" using assms by (auto simp: FailCardChallenge_def bindR_Inr_iff)
  obtain c where c: "find (\<lambda>c. cc_PaymentID c = i) (db_challenges db) = Some c"
    using assms p by (cases "find (\<lambda>c. cc_PaymentID c = i) (db_challenges db)") (simp_all add: FailCardChallenge_def)
  from assms p c show ?thesis
    by (cases "challenge_status st")
       (auto simp: FailCardChallenge_def fail_challenge_def Let_def bindR_Inr_iff exposure_step.stay Transition_def claim_of_def
        split: if_split_asm intro!: abs_set_payment [where ev = AuthFailed and s = Failed])
qed

lemma ReverseAuthorization_abs:
  assumes "ReverseAuthorization evtID now m i reason db = Inr (r, db')"
  shows "exposure_step (abs_pay db) (abs_pay db')"
  using assms
  by (auto simp: ReverseAuthorization_def bindR_Inr_iff exposure_step.stay Transition_def claim_of_def
      split: if_splits dest!: commit_get_Inr
      intro!: abs_set_payment [where ev = AuthReversed and s = AuthorizationReversed])

lemma split_entries_debits: "debits (snd (split_entries t ss)) = 0"
proof (induction ss arbitrary: t)
  case (Cons s ss)
  obtain u es where "split_entries (i64 (t + s_Amount s)) ss = (u, es)" by force
  moreover from this have "debits es = 0" using Cons.IH [of "i64 (t + s_Amount s)"] by simp
  ultimately show ?case using Cons.IH by (simp add: split_line_def ledger_line_def)
qed simp

lemma capture_entries_debits: "capture_entries amount ss = Inr es \<Longrightarrow> debits es = amount"
  using split_entries_debits [of 0 ss]
  by (auto simp: capture_entries_def Let_def ledger_line_def split: prod.splits if_split_asm)

lemma posted_captures_post:
  assumes "CreateEntriesTx t m ''payment'' sid desc es l = Inr l'"
  shows "posted_captures l' = posted_captures l @ [(sid, i64 (debits es))]"
    and "sid \<notin> fst ` set (posted_captures l)"
  using assms
  by (auto simp: CreateEntriesTx_Inr InsertTransaction_Inr posted_captures_def txn_row_def source_of_def image_iff)

text \<open>What a capture did: nothing to a captured payment, or the posting and the updates.\<close>

lemma CaptureAuthorizedPayment_Inr:
  assumes "CaptureAuthorizedPayment (txnID, evt1, evt2) now m i amount db = Inr (r, db')"
  obtains (replay) p where "lock_payment m i db = Inr p" "p_Status p = Captured" "r = current_of p" "db' = db"
  | (fresh) p es l where "lock_payment m i db = Inr p" "p_Status p = Authorized" "amount = p_Amount p"
      "capture_entries amount (listPaymentSplits i db) = Inr es"
      "CreateEntriesTx txnID m ''payment'' i ''payment capture'' es (db_ledger db) = Inr l"
      "db_ledger db' = l"
      "db_payments db' = upd_where (\<lambda>q. p_ID q = i) (capture_payment now (capture_fee amount)) (db_payments db)"
      "db_orders db' = upd_where (order_at m (p_OrderID p)) (pay_order now) (db_orders db)"
proof -
  obtain p where p: "lock_payment m i db = Inr p"
    using assms by (auto simp: CaptureAuthorizedPayment_def bindR_Inr_iff)
  show thesis
  proof (cases "p_Status p = Captured")
    case True
    then show thesis using assms p by (intro replay [OF p]) (simp_all add: CaptureAuthorizedPayment_def)
  next
    case False
    then show thesis using assms p lock_paymentD [OF p]
      by (auto simp: CaptureAuthorizedPayment_def bindR_Inr_iff db_simps split: if_split_asm
          dest!: commit_get_Inr intro: fresh [OF p])
  qed
qed

lemma CaptureAuthorizedPayment_abs:
  assumes "CaptureAuthorizedPayment ids now m i amount db = Inr (r, db')"
  shows "exposure_step (abs_pay db) (abs_pay db')"
proof -
  obtain t e1 e2 where ids: "ids = (t, e1, e2)" by (metis prod_cases3)
  from assms [unfolded ids] show ?thesis
  proof (cases rule: CaptureAuthorizedPayment_Inr)
    case (fresh p es l)
    have p: "claim_of p \<in> set (x_claims (abs_pay db))" "c_ID (claim_of p) = i" "c_Amount (claim_of p) = amount"
      "Transition (c_Status (claim_of p)) Capture = Inr Captured"
      using lock_paymentD [OF fresh(1)] fresh(2,3)
      by (simp add: abs_pay_def, simp_all add: claim_of_def Transition_def)
    note post = posted_captures_post [OF fresh(5)]
    have "exposure_step (abs_pay db) ((abs_pay db)\<lparr>
        x_claims := upd_where (\<lambda>d. c_ID d = c_ID (claim_of p)) (\<lambda>d. d\<lparr>c_Status := Captured\<rparr>) (x_claims (abs_pay db)),
        x_posted := x_posted (abs_pay db) @ [(c_ID (claim_of p), i64 (c_Amount (claim_of p)))]\<rparr>)"
      using p post(2) by (intro exposure_step.collect) (simp_all add: abs_pay_def)
    moreover have "map claim_of (upd_where (\<lambda>q. p_ID q = i) (capture_payment now (capture_fee amount)) (db_payments db))
        = upd_where (\<lambda>c. c_ID c = i) (\<lambda>c. c\<lparr>c_Status := Captured\<rparr>) (map claim_of (db_payments db))"
      by (rule map_claim_upd) (simp add: capture_payment_def claim_of_def)
    ultimately show ?thesis
      using capture_entries_debits [OF fresh(4)] by (simp add: abs_pay_def fresh(6-8) p(2,3) post(1))
  qed (simp add: exposure_step.stay)
qed

lemma expire_payment_abs:
  assumes "p \<in> set (db_payments db)" "p_Status p = Authorized"
  shows "exposure_step (abs_pay db) (abs_pay (expire_payment now evtID p db))"
  unfolding expire_payment_def using assms
  by (auto intro!: abs_move [where p = p and ev = CaptureExpiry and s = AutoRefunded]
      simp: set_payment_def Transition_def claim_of_def)

lemma CreateFailedAttempt_abs:
  "CreateFailedAttempt attemptID evtID now ain code desc db = Inr db' \<Longrightarrow> exposure_step (abs_pay db) (abs_pay db')"
  by (auto simp: CreateFailedAttempt_def insert_attempt_def bindR_Inr_iff exposure_step.stay split: if_splits)

lemma AttachCardPaymentDetails_abs:
  "AttachCardPaymentDetails cd db = Inr db' \<Longrightarrow> exposure_step (abs_pay db) (abs_pay db')"
  by (auto simp: AttachCardPaymentDetails_def exposure_step.stay split: if_splits)

lemma ExpireDueOrders_abs: "ExpireDueOrders now db = (n, db') \<Longrightarrow> exposure_step (abs_pay db) (abs_pay db')"
  by (auto simp: ExpireDueOrders_def Let_def intro!: abs_stay)

lemma CreateOrder_abs:
  assumes "CreateOrder newid evtID now inp db = Inr (ord, db')"
  shows "exposure_step (abs_pay db) (abs_pay db')"
  using assms
proof (cases rule: CreateOrder_Inr)
  case fresh
  have new: "find (order_at m i) (db_orders db) = None" if "o_ID ord = i" for m i
    using fresh(2) that unfolding fresh(3)
    by (auto simp: find_None_iff order_conflict_def order_at_def image_iff)
  have pos: "0 < o_Amount ord" using fresh(1) unfolding fresh(3) by (auto simp: ValidateForCreate_def split: if_splits)
  have "caps (db_orders db @ [ord]) = (caps (db_orders db))(o_MerchantID ord :=
      (caps (db_orders db) (o_MerchantID ord))(o_ID ord := Some (o_Amount ord)))"
    using new by (auto simp: fun_eq_iff caps_def find_append order_at_def split: option.splits)
  then show ?thesis
    using exposure_step.open_order [of "abs_pay db" "o_MerchantID ord" "o_ID ord" "o_Amount ord"] new [OF refl] pos
    by (simp add: fresh(4) abs_pay_def caps_def)
qed (simp add: exposure_step.stay)

text \<open>What an accepted \<open>StartAuthorization\<close> did: returned an earlier payment, or inserted one.\<close>

lemma StartAuthorization_Inr:
  assumes "StartAuthorization attemptID newPayID splitID evtID now inp db = Inr (r, db')"
  obtains (replay) "db' = db"
  | (fresh) ord pid where
      "find (order_at (ca_MerchantID inp) (ca_OrderID inp)) (db_orders db) = Some ord"
      "order_admits inp now ord = Inr ()" "0 < ca_Amount inp"
      "i64 (committed (ca_MerchantID inp) (ca_OrderID inp) (db_payments db) + ca_Amount inp) \<le> o_Amount ord"
      "pid \<notin> p_ID ` set (db_payments db)" "attemptID \<notin> p_AttemptID ` set (db_payments db)"
      "db_payments db' = db_payments db @ [new_payment pid attemptID now inp]"
      "db_orders db' = upd_where (order_at (ca_MerchantID inp) (ca_OrderID inp)) (attempt_order now) (db_orders db)"
      "db_ledger db' = db_ledger db"
proof -
  obtain ord where ord: "find (order_at (ca_MerchantID inp) (ca_OrderID inp)) (db_orders db) = Some ord"
    and pos: "0 < ca_Amount inp" and meth: "ca_Method inp \<in> set methods"
    using assms by (auto simp: StartAuthorization_def split: if_split_asm option.split_asm)
  let ?pid = "if ca_PaymentID inp = '''' then newPayID else ca_PaymentID inp"
  let ?att = "new_attempt attemptID now inp ?pid AttProcessing '''' '''' (nullableText (ca_IdempotencyKey inp))"
  have adm: "order_admits inp now ord = Inr ()"
    and cap: "i64 (committed (ca_MerchantID inp) (ca_OrderID inp) (db_payments db) + ca_Amount inp) \<le> o_Amount ord"
    using assms pos meth ord
    by (auto simp: StartAuthorization_def bindR_Inr_iff scan64_def split: if_split_asm)
  show thesis
  proof (cases "attempt_conflict ?att (db_attempts db) \<and> nullableText (ca_IdempotencyKey inp) \<noteq> None")
    case True
    then show thesis using assms pos meth ord replay
      by (auto simp: StartAuthorization_def bindR_Inr_iff Let_def split: if_split_asm)
  next
    case False
    then obtain db1 db2 db3 where "insert_attempt ?att db = Inr db1"
      and "insert_payment (new_payment ?pid attemptID now inp) db1 = Inr db2"
      and "insertPaymentSplitsTx splitID now (ca_MerchantID inp) ?pid (ca_Splits inp) db2 = Inr db3"
      and "db_payments db' = db_payments db3" "db_ledger db' = db_ledger db3"
        "db_orders db' = upd_where (order_at (ca_MerchantID inp) (ca_OrderID inp)) (attempt_order now) (db_orders db3)"
      using assms pos meth ord
      by (auto simp: StartAuthorization_def bindR_Inr_iff Let_def db_simps split: if_split_asm)
    then show thesis
      using fresh [OF ord adm pos cap, of ?pid]
      by (auto simp: insert_attempt_def insert_payment_def insertPaymentSplitsTx_def Let_def bindR_Inr_iff
          new_payment_def split: if_split_asm)
  qed
qed

lemma order_amount_fits:
  assumes "order_admits inp now ord = Inr ()" "order_row_ok ord" shows "ca_Amount inp \<le> o_Amount ord"
  using assms by (auto simp: order_admits_def order_row_ok_def split: if_split_asm)

lemma StartAuthorization_abs:
  assumes inv: "pay_inv db" and op: "StartAuthorization attemptID newPayID splitID evtID now inp db = Inr (r, db')"
  shows "exposure_step (abs_pay db) (abs_pay db')"
  using op
proof (cases rule: StartAuthorization_Inr)
  case replay
  then show ?thesis by (simp add: exposure_step.stay)
next
  case (fresh ord pid)
  let ?m = "ca_MerchantID inp" and ?i = "ca_OrderID inp"
  let ?c = "claim_of (new_payment pid attemptID now inp)"
  have cap: "caps (db_orders db) ?m ?i = Some (o_Amount ord)" using fresh(1) by (simp add: caps_def)
  have "ord \<in> set (db_orders db)" using find_SomeD [OF fresh(1)] by simp
  then have fits: "ca_Amount inp \<le> o_Amount ord"
    using inv fresh(2) by (auto simp: pay_inv_def orders_inv_def intro: order_amount_fits)
  have "claimed ?m ?i (map claim_of (db_payments db)) + ca_Amount inp \<le> o_Amount ord" if "o_Amount ord < cap_bound"
  proof -
    have c: "0 \<le> committed ?m ?i (db_payments db)" "committed ?m ?i (db_payments db) \<le> o_Amount ord"
      using inv cap that unfolding pay_inv_def exposure_inv_def
      by (auto simp: abs_pay_def claimed_abs claim_of_def committed_def intro: sum_where_nonneg less_imp_le)
    have "in64 (committed ?m ?i (db_payments db) + ca_Amount inp)"
      using c fits fresh(3) that by (simp add: in64_def cap_bound_def)
    then show ?thesis using fresh(4) by (simp add: claimed_abs)
  qed
  then have "exposure_step (abs_pay db) ((abs_pay db)\<lparr>x_claims := x_claims (abs_pay db) @ [?c]\<rparr>)"
    using fresh(3,5) cap
    by (intro exposure_step.admit [where a = "o_Amount ord"])
       (auto simp: abs_pay_def claim_of_def new_payment_def image_iff)
  then show ?thesis by (simp add: abs_pay_def fresh(7-9))
qed

section \<open>The orders along the flow\<close>

lemma orders_inv_cong: "db_orders db' = db_orders db \<Longrightarrow> orders_inv db' = orders_inv db"
  by (simp add: orders_inv_def)

lemma orders_inv_updates:
  assumes "orders_inv db"
  shows "db_orders db' = upd_where q (attempt_order now) (db_orders db) \<Longrightarrow> orders_inv db'"
    and "db_orders db' = upd_where q (pay_order now) (db_orders db) \<Longrightarrow> orders_inv db'"
    and "db_orders db' = upd_where q (fail_order now) (db_orders db) \<Longrightarrow> orders_inv db'"
proof -
  have "orders_inv (db\<lparr>db_orders := upd_where q f (db_orders db)\<rparr>)"
    if "f = attempt_order now \<or> f = pay_order now \<or> f = fail_order now" for f
    using that by (intro orders_inv_upd [OF assms])
      (auto simp: attempt_order_def pay_order_def fail_order_def order_row_ok_def split: if_splits)
  then show "db_orders db' = upd_where q (attempt_order now) (db_orders db) \<Longrightarrow> orders_inv db'"
    and "db_orders db' = upd_where q (pay_order now) (db_orders db) \<Longrightarrow> orders_inv db'"
    and "db_orders db' = upd_where q (fail_order now) (db_orders db) \<Longrightarrow> orders_inv db'"
    by (auto simp: orders_inv_def)
qed

lemma upsert_challenge_orders: "upsert_challenge m i cin db = Inr db' \<Longrightarrow> db_orders db' = db_orders db"
  by (auto simp: upsert_challenge_def db_simps split: if_splits)

lemma challenge_orders:
  assumes "CompleteCardChallenge evtID now m i tok gref auth at db = Inr (r, db')
    \<or> FailCardChallenge evtID now m i tok code desc st at db = Inr (r, db')"
  shows "db_orders db' = db_orders db"
proof -
  obtain p where "lock_payment m i db = Inr p"
    using assms by (auto simp: CompleteCardChallenge_def FailCardChallenge_def bindR_Inr_iff)
  with assms show ?thesis
    by (cases "find (\<lambda>c. cc_PaymentID c = i) (db_challenges db)"; cases "challenge_status st")
       (auto simp: CompleteCardChallenge_def FailCardChallenge_def fail_challenge_def Let_def bindR_Inr_iff db_simps
          split: if_split_asm)
qed

lemma capture_orders:
  assumes "CaptureAuthorizedPayment ids now m i amount db = Inr (r, db')"
  shows "db_orders db' = db_orders db \<or> (\<exists>q. db_orders db' = upd_where q (pay_order now) (db_orders db))"
  using assms
  by (auto simp: CaptureAuthorizedPayment_def bindR_Inr_iff db_simps split: if_split_asm prod.split_asm
      dest!: commit_get_Inr)

lemma pay_step_orders:
  assumes "pay_step db db'" "orders_inv db" shows "orders_inv db'"
  using assms
proof (induction rule: pay_step.induct)
  case (create_order newid evtID now inp db ord db')
  then show ?case by (blast intro: CreateOrder_orders_inv)
next
  case (expire_orders now db n db')
  then show ?case using ExpireDueOrders_orders_inv [of db now] by simp
next
  case (start attemptID newPayID splitID evtID now ain db r db')
  from start.hyps show ?case
    by (cases rule: StartAuthorization_Inr) (use start.prems in \<open>auto intro: orders_inv_updates\<close>)
next
  case (failed_attempt attemptID evtID now ain code desc db db')
  then show ?case
    by (auto simp: CreateFailedAttempt_def insert_attempt_def bindR_Inr_iff db_simps split: if_splits
        intro: orders_inv_updates)
next
  case (routing m i d db db')
  then show ?case by (auto simp: UpdateGatewayRouting_def Let_def orders_inv_def split: if_split_asm)
next
  case (attach cd db db')
  then show ?case by (auto simp: AttachCardPaymentDetails_def orders_inv_def split: if_splits)
next
  case (requires_action evtID now m i cin db r db')
  then have "db_orders db' = db_orders db"
    by (auto simp: MarkAuthorizationRequiresAction_def bindR_Inr_iff db_simps split: if_splits
        dest!: commit_get_Inr upsert_challenge_orders)
  with requires_action show ?case by (simp add: orders_inv_def)
next
  case (authorized evtID now m i gref auth cap db r db')
  then show ?case
    by (auto simp: MarkAuthorizationAuthorized_def bindR_Inr_iff db_simps orders_inv_def split: if_splits
        dest!: commit_get_Inr)
next
  case (failed evtID now m i code desc db db')
  then show ?case
    by (auto simp: MarkAuthorizationFailed_def bindR_Inr_iff db_simps orders_inv_def split: if_splits)
next
  case (complete_challenge evtID now m i tok gref auth at db r db')
  then show ?case using challenge_orders by (metis orders_inv_cong)
next
  case (fail_challenge evtID now m i tok code desc st at db r db')
  then show ?case using challenge_orders by (metis orders_inv_cong)
next
  case (reverse evtID now m i reason db r db')
  then show ?case
    by (auto simp: ReverseAuthorization_def bindR_Inr_iff db_simps orders_inv_def split: if_splits
        dest!: commit_get_Inr)
next
  case (capture ids now m i amount db r db')
  then show ?case using capture_orders [OF capture.hyps] orders_inv_updates(2) by (metis orders_inv_cong)
next
  case (expire_window p db now evtID)
  then show ?case
    by (auto simp: expire_payment_def db_simps intro: orders_inv_updates(3))
qed

lemma pay_step_abs: "pay_step db db' \<Longrightarrow> pay_inv db \<Longrightarrow> exposure_step (abs_pay db) (abs_pay db')"
  by (induction rule: pay_step.induct)
     (auto intro: CreateOrder_abs ExpireDueOrders_abs StartAuthorization_abs CreateFailedAttempt_abs
        UpdateGatewayRouting_abs AttachCardPaymentDetails_abs MarkAuthorizationRequiresAction_abs
        MarkAuthorizationAuthorized_abs MarkAuthorizationFailed_abs CompleteCardChallenge_abs FailCardChallenge_abs
        ReverseAuthorization_abs CaptureAuthorizedPayment_abs expire_payment_abs)

interpretation flow: invariant_system pay_step pay_inv
proof unfold_locales
  fix db db' :: "'a payment_db_scheme"
  assume step: "pay_step db db'" and inv: "pay_inv db"
  show "pay_inv db'"
    using pay_step_orders [OF step] exposure.inv_step [OF pay_step_abs [OF step inv]] inv
    unfolding pay_inv_def by blast
qed

section \<open>A payment follows the transition table\<close>

definition follows :: "claim \<Rightarrow> claim \<Rightarrow> bool" where
  "follows c c' \<longleftrightarrow> c_ID c' = c_ID c \<and> c_MerchantID c' = c_MerchantID c \<and> c_OrderID c' = c_OrderID c
     \<and> c_Amount c' = c_Amount c \<and> (\<exists>evs. run_machine Transition (c_Status c) evs = Inr (c_Status c'))"

lemma follows_refl [simp]: "follows c c"
  unfolding follows_def by (metis run_machine.simps(1))

lemma follows_trans: "follows c d \<Longrightarrow> follows d e \<Longrightarrow> follows c e"
  unfolding follows_def using run_machine_append [of Transition] by (metis bindR_simps(2))

lemma exposure_step_follows:
  assumes "exposure_step x x'" "exposure_inv x" "c \<in> set (x_claims x)"
  shows "\<exists>c' \<in> set (x_claims x'). follows c c'"
proof -
  have upd: "\<exists>c' \<in> set (upd_where (\<lambda>d. c_ID d = c_ID b) (\<lambda>d. d\<lparr>c_Status := s\<rparr>) (x_claims x)). follows c c'"
    if b: "b \<in> set (x_claims x)" "Transition (c_Status b) ev = Inr s" for b ev s
  proof (cases "c_ID c = c_ID b")
    case True
    then have "c = b" using unique_key_inj [of c_ID "x_claims x" c b] assms(2,3) b(1) by (simp add: exposure_inv_def)
    moreover have "\<exists>evs. run_machine Transition (c_Status b) evs = Inr s" using b(2) by (intro exI [of _ "[ev]"]) simp
    ultimately have "follows c (c\<lparr>c_Status := s\<rparr>)" by (simp add: follows_def)
    then show ?thesis using True assms(3) by (force simp: set_upd_where)
  next
    case False
    then have "c \<in> set (upd_where (\<lambda>d. c_ID d = c_ID b) (\<lambda>d. d\<lparr>c_Status := s\<rparr>) (x_claims x))"
      using assms(3) by (force simp: set_upd_where)
    then show ?thesis using follows_refl by blast
  qed
  from assms(1) show ?thesis
    using assms(3) by cases (force intro: upd bexI [where x = c])+
qed

lemma flow_follows:
  assumes "pay_step\<^sup>*\<^sup>* db db'" "pay_inv db" "p \<in> set (db_payments db)"
  shows "\<exists>p' \<in> set (db_payments db'). follows (claim_of p) (claim_of p')"
  using assms(1)
proof (induction rule: rtranclp_induct)
  case base
  then show ?case using assms(3) by (blast intro: follows_refl)
next
  case (step db1 db2)
  then obtain p1 where p1: "p1 \<in> set (db_payments db1)" "follows (claim_of p) (claim_of p1)" by blast
  have inv: "pay_inv db1" by (rule flow.inv_steps [OF step.hyps(1) assms(2)])
  have "\<exists>c' \<in> set (x_claims (abs_pay db2)). follows (claim_of p1) c'"
    using inv p1(1)
    by (intro exposure_step_follows [OF pay_step_abs [OF step.hyps(2) inv]]) (auto simp: pay_inv_def abs_pay_def)
  then show ?case using p1(2) by (auto simp: abs_pay_def intro: follows_trans)
qed

section \<open>The sweeps are runs of the flow\<close>

lemma next_auto_capture_due: "next_auto_capture now rows = Some p \<Longrightarrow> p \<in> set rows \<and> auto_capture_due now p"
proof -
  assume "next_auto_capture now rows = Some p"
  then obtain ps where "sort_key (\<lambda>p. the (p_AutoCaptureAt p)) (filter (auto_capture_due now) rows) = p # ps"
    by (auto simp: next_auto_capture_def split: list.splits)
  then have "p \<in> set (sort_key (\<lambda>p. the (p_AutoCaptureAt p)) (filter (auto_capture_due now) rows))"
    by (metis list.set_intros(1))
  then show ?thesis by simp
qed

lemma auto_capture_run: "auto_capture_rounds ids now n cnt db = (cnt', db') \<Longrightarrow> pay_step\<^sup>*\<^sup>* db db'"
proof (induction n arbitrary: cnt db)
  case (Suc n)
  show ?case
  proof (cases "next_auto_capture now (db_payments db)")
    case None
    then show ?thesis using Suc.prems by simp
  next
    case (Some p)
    show ?thesis
    proof (cases "CaptureAuthorizedPayment (ids n) now (p_MerchantID p) (p_ID p) (p_Amount p) db")
      case (Inl e)
      then show ?thesis using Suc Some by simp
    next
      case (Inr a)
      obtain r db1 where "a = (r, db1)" by force
      with Inr have cap: "CaptureAuthorizedPayment (ids n) now (p_MerchantID p) (p_ID p) (p_Amount p) db = Inr (r, db1)"
        by simp
      then have "pay_step\<^sup>*\<^sup>* db1 db'" using Suc Some by simp
      then show ?thesis using pay_step.capture [OF cap] by (rule converse_rtranclp_into_rtranclp [rotated])
    qed
  qed
qed simp

lemma expire_payment_payments:
  "db_payments (expire_payment now evtID p db) = upd_where (\<lambda>q. p_ID q = p_ID p)
     (\<lambda>q. q\<lparr>p_Status := AutoRefunded, p_MethodState := ''card_authorization_reversed'',
             p_MethodStateReason := ''capture window expired'', p_ErrorCode := ''AUTH_WINDOW_EXPIRED'',
             p_ErrorDescription := ''capture window expired''\<rparr>) (db_payments db)"
  by (simp add: expire_payment_def db_simps)

lemma expire_run:
  "(\<forall>p \<in> set ps. p \<in> set (db_payments db) \<and> p_Status p = Authorized) \<Longrightarrow> distinct (map p_ID ps) \<Longrightarrow>
     pay_step\<^sup>*\<^sup>* db (expire_payments now evtID i ps db)"
proof (induction ps arbitrary: db i)
  case (Cons p ps)
  let ?db = "expire_payment now (evtID i) p db"
  have "q \<in> set (db_payments ?db)" if "q \<in> set ps" for q
  proof -
    have "p_ID q \<noteq> p_ID p" using Cons.prems(2) that by (auto simp: image_iff)
    then show ?thesis using Cons.prems(1) that by (force simp: expire_payment_payments set_upd_where)
  qed
  then have "pay_step\<^sup>*\<^sup>* ?db (expire_payments now evtID (Suc i) ps ?db)"
    using Cons.prems by (intro Cons.IH) auto
  moreover have "pay_step db ?db" using Cons.prems(1) by (intro pay_step.expire_window) simp_all
  ultimately show ?case by simp
qed simp

lemma pay_inv_unique: "pay_inv db \<Longrightarrow> unique_key p_ID (db_payments db)"
  by (simp add: pay_inv_def exposure_inv_def abs_pay_def unique_key_def comp_def claim_of_def)

lemma window_run:
  assumes "unique_key p_ID (db_payments db)"
  shows "pay_step\<^sup>*\<^sup>* db (snd (ExpireAuthorizationWindow evtID now window db))"
proof -
  let ?due = "take 50 (sort_key (\<lambda>p. the (p_AuthorizedAt p)) (filter (window_due now window) (db_payments db)))"
  have "inj_on p_ID (set (db_payments db))" "distinct (db_payments db)"
    using assms by (simp_all add: unique_key_def distinct_map)
  then have "distinct (map p_ID ?due)"
    by (auto simp: distinct_map distinct_take elim!: inj_on_subset dest: in_set_takeD)
  moreover have "\<forall>p \<in> set ?due. p \<in> set (db_payments db) \<and> p_Status p = Authorized"
    by (auto simp: window_due_def dest!: in_set_takeD)
  ultimately show ?thesis unfolding ExpireAuthorizationWindow_def Let_def snd_conv by (intro expire_run)
qed

lemma sweep_run:
  assumes "pay_inv db" shows "pay_step\<^sup>*\<^sup>* db (payment_sweep ids evtID now db)"
proof -
  let ?db1 = "snd (AutoCaptureDue ids now db)"
  have run: "pay_step\<^sup>*\<^sup>* db ?db1" unfolding AutoCaptureDue_def
    using auto_capture_run [of ids now 50 0 db] by (metis surjective_pairing)
  have "unique_key p_ID (db_payments ?db1)" by (rule pay_inv_unique [OF flow.inv_steps [OF run assms]])
  with window_run run show ?thesis unfolding payment_sweep_def by (blast intro: rtranclp_trans)
qed

section \<open>A run on concrete data\<close>

definition sample_pay_db :: payment_db where
  "sample_pay_db = \<lparr>db_ledger = empty_ledger, db_outbox = [], db_orders = [sample_order ''o1'' 1], db_attempts = [],
     db_payments = [], db_splits = [], db_card_details = [], db_challenges = [], db_card_tokens = []\<rparr>"

definition sample_auth :: "int \<Rightarrow> string \<Rightarrow> create_authorized_input" where
  "sample_auth amount key = \<lparr>ca_PaymentID = ''p1'', ca_MerchantID = ''m1'', ca_OrderID = ''o1'', ca_Amount = amount,
     ca_Currency = ''INR'', ca_Method = ''card'', ca_Provider = '''', ca_RoutingReason = '''', ca_AttemptedProviders = [],
     ca_IdempotencyKey = key, ca_Splits = []\<rparr>"

lemmas pay_eval = sample_pay_db_def sample_auth_def sample_order_def empty_ledger_def StartAuthorization_def methods_def
  order_at_def order_admits_def committed_def scan64_def in64_def i64_def nullableText_def attempt_conflict_def
  insert_attempt_def insert_payment_def insertPaymentSplitsTx_def new_attempt_def new_payment_def db_simps
  current_of_def attempt_order_def initialMethodState_def MarkAuthorizationAuthorized_def lock_payment_def pay_at_def
  methodStateForAuthorized_def commit_get_def GetPayment_def result_of_def listPaymentSplits_def
  CaptureAuthorizedPayment_def capture_entries_def capture_fee_def ledger_line_def CreateEntriesTx_def
  ValidateEntries_def InsertTransactionWithEntriesTx_def entry_ok_def ledger_accounts_def quot64_def
  pay_order_def capture_payment_def methodStateForCapture_def minutes_def Let_def

definition sample_captured :: "payment_error + capture_result \<times> payment_db" where
  "sample_captured =
     bindR (StartAuthorization ''a1'' ''p1'' (\<lambda>_. ''s1'') ''e1'' 5 (sample_auth 500 ''k1'') sample_pay_db) (\<lambda>(_, db1).
     bindR (MarkAuthorizationAuthorized ''e2'' 6 ''m1'' ''p1'' ''g1'' ''ac'' None db1) (\<lambda>(_, db2).
       CaptureAuthorizedPayment (''t1'', ''e3'', ''e4'') 7 ''m1'' ''p1'' 500 db2))"

lemma sample_captured_ok:
  obtains r db where "sample_captured = Inr (r, db)" "map p_Status (db_payments db) = [Captured]"
    "map p_ID (db_payments db) = [''p1'']" "map p_Amount (db_payments db) = [500]" "map p_OrderID (db_payments db) = [''o1'']"
    "map p_MerchantID (db_payments db) = [''m1'']" "map o_ID (db_orders db) = [''o1'']" "map o_Amount (db_orders db) = [500]" "map o_MerchantID (db_orders db) = [''m1'']"
    "map lt_TotalDebit (ledger_transactions (db_ledger db)) = [500]"
  by (simp add: sample_captured_def pay_eval)

lemma sample_captured_run: "sample_captured = Inr (r, db) \<Longrightarrow> pay_step\<^sup>*\<^sup>* sample_pay_db db"
proof -
  assume "sample_captured = Inr (r, db)"
  then obtain r1 db1 r2 db2 where
    "StartAuthorization ''a1'' ''p1'' (\<lambda>_. ''s1'') ''e1'' 5 (sample_auth 500 ''k1'') sample_pay_db = Inr (r1, db1)"
    "MarkAuthorizationAuthorized ''e2'' 6 ''m1'' ''p1'' ''g1'' ''ac'' None db1 = Inr (r2, db2)"
    "CaptureAuthorizedPayment (''t1'', ''e3'', ''e4'') 7 ''m1'' ''p1'' 500 db2 = Inr (r, db)"
    by (auto simp: sample_captured_def bindR_Inr_iff)
  then have "pay_step sample_pay_db db1" "pay_step db1 db2" "pay_step db2 db"
    by (blast intro: pay_step.intros)+
  then show ?thesis by (meson converse_rtranclp_into_rtranclp rtranclp.rtrancl_refl)
qed

lemma pay_inv_start:
  assumes "db_payments db = []" "posted_captures (db_ledger db) = []" "orders_inv db"
  shows "pay_inv db"
proof -
  have "0 \<le> a" if "caps (db_orders db) m i = Some a" for m i a
    using that assms(3) by (auto simp: caps_def orders_inv_def order_row_ok_def dest!: find_SomeD)
  then show ?thesis
    using assms by (auto simp: pay_inv_def exposure_inv_def abs_pay_def claimed_def posted_ok_def)
qed

lemma sample_pay_start: "db_payments sample_pay_db = []" "posted_captures (db_ledger sample_pay_db) = []" "orders_inv sample_pay_db"
  by (simp_all add: sample_pay_db_def posted_captures_def empty_ledger_def orders_inv_def order_row_ok_def sample_order_def
      unique_key_def)

section \<open>Properties\<close>

definition captured_total :: "id \<Rightarrow> id \<Rightarrow> payment list \<Rightarrow> int" where
  "captured_total merchantID orderID rows =
     sum_where (\<lambda>p. p_OrderID p = orderID \<and> p_MerchantID p = merchantID \<and> p_Status p = Captured) p_Amount rows"

lemma captured_le_committed:
  "(\<And>p. p \<in> set rows \<Longrightarrow> 0 \<le> p_Amount p) \<Longrightarrow> captured_total m i rows \<le> committed m i rows"
  unfolding captured_total_def committed_def by (rule sum_where_mono) (auto simp: live_def)



lemma posted_transactions:
  assumes uniq: "unique_key fst (posted_captures l)" and posted: "posted_ok (map claim_of ps) (posted_captures l)" and p: "p \<in> set ps"
  shows "map lt_TotalDebit (filter (\<lambda>t. source_of t = (''payment'', p_ID p)) (ledger_transactions l))
    = (if p_Status p = Captured then [i64 (p_Amount p)] else [])"
proof -
  let ?ps = "posted_captures l"
  have ok: "if p_Status p = Captured then (p_ID p, i64 (p_Amount p)) \<in> set ?ps else p_ID p \<notin> fst ` set ?ps"
    using p posted unfolding posted_ok_def by (simp add: claim_of_def del: image_iff split: if_split_asm) fastforce
  have "map snd (filter (\<lambda>x. fst x = p_ID p) ?ps) = (if p_Status p = Captured then [i64 (p_Amount p)] else [])"
  proof (cases "p_Status p = Captured")
    case True
    then have "filter (\<lambda>x. fst x = p_ID p) ?ps = [(p_ID p, i64 (p_Amount p))]"
      using ok by (intro filter_unique_key [OF uniq]) auto
    then show ?thesis using True by simp
  qed (use ok in \<open>force simp: filter_empty_conv\<close>)
  moreover have "map lt_TotalDebit (filter (\<lambda>t. source_of t = (''payment'', p_ID p)) ts)
      = map snd (filter (\<lambda>x. fst x = p_ID p) (map (\<lambda>t. (lt_SourceID t, lt_TotalDebit t)) (filter (\<lambda>t. lt_SourceType t = ''payment'') ts)))" for ts
    by (induction ts) (auto simp: source_of_def)
  ultimately show ?thesis by (simp add: posted_captures_def)
qed

text \<open>
  In every reachable database a captured payment has exactly one ledger transaction, for its
  amount, and a payment that is not captured has none.
\<close>

theorem capture_posted_exactly_once:
  assumes run: "pay_step\<^sup>*\<^sup>* db db'"
    and start: "db_payments db = []" "posted_captures (db_ledger db) = []" "orders_inv db"
    and p: "p \<in> set (db_payments db')"
  shows "map lt_TotalDebit (filter (\<lambda>t. source_of t = (''payment'', p_ID p)) (ledger_transactions (db_ledger db')))
    = (if p_Status p = Captured then [i64 (p_Amount p)] else [])"
proof -
  have "exposure_inv (abs_pay db')" using flow.inv_steps [OF run pay_inv_start [OF start]] by (simp add: pay_inv_def)
  then show ?thesis using p by (intro posted_transactions) (simp_all add: exposure_inv_def abs_pay_def unique_key_def)
qed

theorem capture_posted_exactly_once_witness:
  "\<exists>r db. sample_captured = Inr (r, db) \<and> (\<exists>p \<in> set (db_payments db).
     map lt_TotalDebit (filter (\<lambda>t. source_of t = (''payment'', p_ID p)) (ledger_transactions (db_ledger db))) = [500])"
proof -
  obtain r db where s: "sample_captured = Inr (r, db)" and db: "map p_Status (db_payments db) = [Captured]"
    "map p_Amount (db_payments db) = [500]"
    by (rule sample_captured_ok)
  then obtain p where p: "db_payments db = [p]" by (auto simp: map_eq_Cons_conv)
  have "i64 500 = 500" by (simp add: in64_def)
  then have "\<exists>p \<in> set (db_payments db).
      map lt_TotalDebit (filter (\<lambda>t. source_of t = (''payment'', p_ID p)) (ledger_transactions (db_ledger db))) = [500]"
    using capture_posted_exactly_once [OF sample_captured_run [OF s] sample_pay_start, of p] db by (simp add: p)
  with s show ?thesis by (intro exI conjI)
qed

text \<open>
  The repository implements the documented status machine: along any run a payment keeps its
  identity, order and amount, and its status moves only by events of the transition table, at most
  three of them.
\<close>

theorem payment_follows_transition_table:
  assumes "pay_step\<^sup>*\<^sup>* db db'" "pay_inv db" "p \<in> set (db_payments db)"
  shows "\<exists>p' \<in> set (db_payments db'). p_ID p' = p_ID p \<and> p_MerchantID p' = p_MerchantID p \<and> p_OrderID p' = p_OrderID p
    \<and> p_Amount p' = p_Amount p
    \<and> (\<exists>evs. length evs \<le> 3 - payment_rank (p_Status p) \<and> run_machine Transition (p_Status p) evs = Inr (p_Status p'))"
  using flow_follows [OF assms] pm.run_bounded by (fastforce simp: follows_def claim_of_def)

theorem payment_follows_transition_table_witness:
  "\<exists>r db. sample_captured = Inr (r, db) \<and> (\<forall>db'. pay_step\<^sup>*\<^sup>* db db' \<longrightarrow> (\<exists>p' \<in> set (db_payments db'). p_ID p' = ''p1'' \<and> p_Status p' = Captured))"
proof -
  obtain r db where s: "sample_captured = Inr (r, db)" and db: "map p_Status (db_payments db) = [Captured]"
    "map p_ID (db_payments db) = [''p1'']"
    by (rule sample_captured_ok)
  then obtain p where p: "p \<in> set (db_payments db)" "p_Status p = Captured" "p_ID p = ''p1''" by (auto simp: map_eq_Cons_conv)
  have inv: "pay_inv db" by (rule flow.inv_steps [OF sample_captured_run [OF s] pay_inv_start [OF sample_pay_start]])
  have "\<exists>p' \<in> set (db_payments db'). p_ID p' = ''p1'' \<and> p_Status p' = Captured" if "pay_step\<^sup>*\<^sup>* db db'" for db'
    using payment_follows_transition_table [OF that inv p(1)] p by (auto simp: payment_rank_def)
  with s show ?thesis by blast
qed

end
