(* ===== verification/Capture.thy ===== *)
theory Capture
  imports PaymentFlow
begin

text \<open>
  The money of a capture: what it posts, when it cannot succeed, and what a repeated call returns.
\<close>

section \<open>The entries of a capture\<close>

definition split_sum :: "payment_split list \<Rightarrow> int" where
  "split_sum ss = sum_where (\<lambda>s. 0 < s_Amount s) s_Amount ss"

lemma split_entries_total: "i64 (fst (split_entries t ss)) = i64 (t + split_sum ss)"
proof (induction ss arbitrary: t)
  case (Cons s ss)
  show ?case
  proof (cases "s_Amount s \<le> 0")
    case False
    then have "fst (split_entries t (s # ss)) = fst (split_entries (i64 (t + s_Amount s)) ss)"
      by (simp add: split_def)
    then show ?thesis using Cons.IH [of "i64 (t + s_Amount s)"] False by (simp add: split_sum_def add.assoc)
  qed (use Cons.IH in \<open>simp add: split_sum_def\<close>)
qed (simp add: split_sum_def)

lemma split_entries_range: "in64 t \<Longrightarrow> in64 (fst (split_entries t ss))"
  by (induction ss arbitrary: t) (auto simp: split_def)

lemma split_entries_lines: "snd (split_entries t ss) = map split_line (filter (\<lambda>s. 0 < s_Amount s) ss)"
  by (induction ss arbitrary: t) (auto simp: split_def)

lemma split_sum_nonneg: "0 \<le> split_sum ss"
  unfolding split_sum_def by (rule sum_where_nonneg) simp

lemma capture_fee_eq:
  assumes "0 \<le> amount" "amount < 2 ^ 62" shows "capture_fee amount = amount * 2 div 100"
proof -
  have "in64 (amount * 2)" using assms by (simp add: in64_def)
  then show ?thesis using assms by (simp add: capture_fee_def quot64_nonneg)
qed

text \<open>The entries, when the splits fit an int64.\<close>

lemma capture_entries_eq:
  assumes amount: "0 < amount" "amount < 2 ^ 62" and fits: "split_sum ss < 2 ^ 62"
  shows "capture_entries amount ss =
    (let fee = amount * 2 div 100; residual = amount - fee - split_sum ss;
         entries = [ledger_line ''CUSTOMER_RECEIVABLE'' amount 0 ''payment capture receivable'',
                    ledger_line ''PLATFORM_FEE_REVENUE'' 0 fee ''platform fee revenue'']
                   @ map split_line (filter (\<lambda>s. 0 < s_Amount s) ss) in
     if residual < 0 then Inl ErrAmountMismatch
     else Inr (if residual > 0 then entries @ [ledger_line ''MERCHANT_PAYABLE'' 0 residual ''merchant payable on capture'']
               else entries))"
proof -
  obtain t es where te: "split_entries 0 ss = (t, es)" by force
  have "in64 (split_sum ss)" using fits split_sum_nonneg [of ss] by (simp add: in64_def)
  moreover have "in64 t" using split_entries_range [of 0 ss] te by (simp add: in64_def)
  ultimately have t: "t = split_sum ss" using split_entries_total [of 0 ss] te by simp
  have es: "es = map split_line (filter (\<lambda>s. 0 < s_Amount s) ss)" using split_entries_lines [of 0 ss] te by simp
  let ?fee = "amount * 2 div 100"
  have fee: "0 \<le> ?fee" "?fee \<le> amount" using amount by auto
  have "in64 (amount - ?fee)" "in64 (amount - ?fee - split_sum ss)"
    using fee amount fits split_sum_nonneg [of ss] by (simp_all add: in64_def)
  then show ?thesis
    using amount by (simp add: capture_entries_def te t es capture_fee_eq Let_def)
qed

lemma split_lines_sum:
  "sum_where (\<lambda>e. e_AccountCode e = acct) (\<lambda>e. e_DebitAmount e - e_CreditAmount e) (map split_line ss)
     = (if acct = ''MERCHANT_PAYABLE'' then - sum_list (map s_Amount ss) else 0)"
  by (induction ss) (auto simp: split_line_def ledger_line_def)

lemma split_lines_totals: "debits (map split_line ss) = 0" "credits (map split_line ss) = sum_list (map s_Amount ss)"
  by (induction ss) (simp_all add: split_line_def ledger_line_def)

lemma capture_entries_balanced:
  assumes "0 < amount" "amount < 2 ^ 62" "split_sum ss < 2 ^ 62" "capture_entries amount ss = Inr es"
  shows "credits es = debits es"
  using assms(4) unfolding capture_entries_eq [OF assms(1-3)] Let_def
  by (auto simp: ledger_line_def split_lines_totals split_sum_def sum_where_def split: if_split_asm)

text \<open>What the accounts of the merchant move by.\<close>

definition capture_delta :: "int \<Rightarrow> string \<Rightarrow> int" where
  "capture_delta amount acct =
     (if acct = ''CUSTOMER_RECEIVABLE'' then amount
      else if acct = ''PLATFORM_FEE_REVENUE'' then - (amount * 2 div 100)
      else if acct = ''MERCHANT_PAYABLE'' then - (amount - amount * 2 div 100)
      else 0)"

lemma capture_entries_delta:
  assumes "0 < amount" "amount < 2 ^ 62" "split_sum ss < 2 ^ 62" "capture_entries amount ss = Inr es"
  shows "sum_where (\<lambda>e. e_AccountCode e = acct) (\<lambda>e. e_DebitAmount e - e_CreditAmount e) es = capture_delta amount acct"
proof -
  let ?net = "\<lambda>e. e_DebitAmount e - e_CreditAmount e" and ?fee = "amount * 2 div 100"
  let ?lines = "map split_line (filter (\<lambda>s. 0 < s_Amount s) ss)"
  let ?es = "[ledger_line ''CUSTOMER_RECEIVABLE'' amount 0 ''payment capture receivable'',
      ledger_line ''PLATFORM_FEE_REVENUE'' 0 ?fee ''platform fee revenue''] @ ?lines"
  let ?res = "amount - ?fee - split_sum ss"
  have es: "0 \<le> ?res" "es = (if ?res > 0 then ?es @ [ledger_line ''MERCHANT_PAYABLE'' 0 ?res ''merchant payable on capture''] else ?es)"
    using assms(4) unfolding capture_entries_eq [OF assms(1-3)] Let_def by (simp_all split: if_split_asm)
  have "sum_where (\<lambda>e. e_AccountCode e = acct) ?net es
      = (if ''CUSTOMER_RECEIVABLE'' = acct then amount else 0) - (if ''PLATFORM_FEE_REVENUE'' = acct then ?fee else 0)
        - (if ''MERCHANT_PAYABLE'' = acct then split_sum ss + ?res else 0)"
    using es split_lines_sum [of acct "filter (\<lambda>s. 0 < s_Amount s) ss"]
    by (simp add: split_sum_def sum_where_def ledger_line_def)
  then show ?thesis by (auto simp: capture_delta_def)
qed

lemma capture_entries_no_currency: "capture_entries amount ss = Inr es \<Longrightarrow> \<forall>e \<in> set es. e_Currency e = ''''"
  using split_entries_lines [of 0 ss]
  by (auto simp: capture_entries_def Let_def ledger_line_def split_line_def split: prod.splits if_split_asm)

section \<open>Properties\<close>

lemma split_sum_zero [simp]: "split_sum [] = 0"
  by (simp add: split_sum_def)

text \<open>
  C28: Capturing an authorized payment moves exactly its amount: the customer receivable grows by
  it, the platform keeps two per cent (rounded down) and the rest is owed to the merchant and its
  connected accounts, on no other account and for no other merchant; the trial balance stays.
\<close>

theorem capture_moves_money:
  assumes op: "CaptureAuthorizedPayment (txnID, evt1, evt2) now m i amount db = Inr (r, db')"
    and p: "lock_payment m i db = Inr p" "p_Status p = Authorized"
    and bounds: "0 < amount" "amount < 2 ^ 62" "split_sum (listPaymentSplits i db) < 2 ^ 62"
  shows "balance_where (\<lambda>e. le_MerchantID e = m' \<and> le_AccountCode e = acct) (db_ledger db')
      = balance_where (\<lambda>e. le_MerchantID e = m' \<and> le_AccountCode e = acct) (db_ledger db)
        + (if m' = m then capture_delta amount acct else 0)
    \<and> trial_balance m' (db_ledger db') = trial_balance m' (db_ledger db)"
  using op
proof (cases rule: CaptureAuthorizedPayment_Inr)
  case (replay q)
  then show ?thesis using p by simp
next
  case (fresh q es l)
  have ins: "InsertTransactionWithEntriesTx txnID m ''payment'' i ''payment capture'' es (db_ledger db) = Inr (db_ledger db')"
    and valid: "ValidateEntries es = Inr ()"
    using fresh(5,6) by (auto simp: CreateEntriesTx_Inr)
  have "credits es = debits es" by (rule capture_entries_balanced [OF bounds fresh(4)])
  moreover have "sum_where (\<lambda>e. le_MerchantID (entry_row txnID m ''payment'' i (post_currency es) e) = m'
      \<and> le_AccountCode (entry_row txnID m ''payment'' i (post_currency es) e) = acct) (\<lambda>e. e_DebitAmount e - e_CreditAmount e) es
     = (if m' = m then capture_delta amount acct else 0)"
    using capture_entries_delta [OF bounds fresh(4), of acct] by (auto simp: entry_row_def sum_where_none)
  ultimately show ?thesis
    using balance_where_post [OF ins] trial_balance_post [OF ins] by simp
qed

lemma sample_splits: "sample_captured = Inr (r, db) \<Longrightarrow> db_splits db = []"
  by (auto simp: sample_captured_def pay_eval)

lemma small_capture_fails:
  assumes p: "lock_payment m i db = Inr p" "p_Status p = Authorized"
    and small: "0 < p_Amount p" "p_Amount p < 50"
  shows "\<exists>e. CaptureAuthorizedPayment ids now m i amount db = Inl e"
proof (rule ccontr)
  obtain t e1 e2 where ids: "ids = (t, e1, e2)" by (metis prod_cases3)
  assume "\<nexists>e. CaptureAuthorizedPayment ids now m i amount db = Inl e"
  then obtain r db' where "CaptureAuthorizedPayment (t, e1, e2) now m i amount db = Inr (r, db')"
    unfolding ids by (metis sum.exhaust surj_pair)
  then show False
  proof (cases rule: CaptureAuthorizedPayment_Inr)
    case (fresh q es l)
    then have amount: "amount = p_Amount p" using p by simp
    have "capture_fee amount = 0" using capture_fee_eq [of amount] small amount by simp
    then have "ledger_line ''PLATFORM_FEE_REVENUE'' 0 0 ''platform fee revenue'' \<in> set es"
      using fresh(4) by (auto simp: capture_entries_def Let_def split: prod.splits if_split_asm)
    moreover have "list_all one_sided es" using fresh(5) by (simp add: CreateEntriesTx_Inr ValidateEntries_wrap_iff)
    ultimately have "one_sided (ledger_line ''PLATFORM_FEE_REVENUE'' 0 0 ''platform fee revenue'')"
      by (auto simp: list_all_iff)
    then show False by (simp add: one_sided_def ledger_line_def)
  qed (use p in simp)
qed

text \<open>
  A payment below 50 minor units can never be captured: its fee rounds to zero and the ledger
  refuses an entry without an amount.
\<close>

theorem small_payment_never_captured:
  assumes "lock_payment m i db = Inr p" "p_Status p = Authorized" "0 < p_Amount p" "p_Amount p < 50"
  shows "\<exists>e. CaptureAuthorizedPayment ids now m i amount db = Inl e"
  using assms by (rule small_capture_fails)

text \<open>
  Head-of-line blocking: when the payment whose automatic capture fell due first is one that
  cannot be captured, the whole sweep captures nothing, whatever else is due.
\<close>

theorem auto_capture_blocked:
  assumes "next_auto_capture now (db_payments db) = Some p" "unique_key p_ID (db_payments db)"
    and "0 < p_Amount p" "p_Amount p < 50"
  shows "AutoCaptureDue ids now db = (0, db)"
proof -
  have due: "p \<in> set (db_payments db)" "p_Status p = Authorized"
    using next_auto_capture_due [OF assms(1)] by (simp_all add: auto_capture_due_def)
  have "find (pay_at (p_MerchantID p) (p_ID p)) (db_payments db) = Some p"
    by (rule find_unique_key [OF assms(2) due(1)]) (simp_all add: pay_at_def)
  then have lock: "lock_payment (p_MerchantID p) (p_ID p) db = Inr p" by (simp add: lock_payment_def)
  have "auto_capture_rounds ids now n cnt db = (cnt, db)" for n cnt
  proof (induction n)
    case (Suc n)
    obtain e where "CaptureAuthorizedPayment (ids n) now (p_MerchantID p) (p_ID p) (p_Amount p) db = Inl e"
      using small_capture_fails [OF lock due(2) assms(3,4)] by blast
    then show ?case using Suc assms(1) by simp
  qed simp
  then show ?thesis by (simp add: AutoCaptureDue_def)
qed

section \<open>Witnesses\<close>

definition sample_authorized :: "int \<Rightarrow> payment_error + capture_result \<times> payment_db" where
  "sample_authorized amount =
     bindR (StartAuthorization ''a1'' ''p1'' (\<lambda>_. ''s1'') ''e1'' 5 (sample_auth amount ''k1'')
       (sample_pay_db\<lparr>db_orders := [(sample_order ''o1'' 1)\<lparr>o_PartialPayment := True\<rparr>]\<rparr>)) (\<lambda>(_, db1).
     MarkAuthorizationAuthorized ''e2'' 6 ''m1'' ''p1'' ''g1'' ''ac'' (Some 6) db1)"

lemma sample_authorized_ok:
  assumes "amount \<in> {20, 100, 500}"
  obtains r db p ord where "sample_authorized amount = Inr (r, db)" "db_payments db = [p]" "p_ID p = ''p1''" "p_MerchantID p = ''m1''"
    "p_OrderID p = ''o1''" "p_Amount p = amount" "p_Status p = Authorized" "p_AutoCaptureAt p = Some 6" "db_splits db = []"
    "db_orders db = [ord]" "order_at ''m1'' ''o1'' ord" "o_Amount ord = 500"
    "amount \<noteq> 20 \<longrightarrow> (\<exists>r' db'. CaptureAuthorizedPayment (''t1'', ''e3'', ''e4'') 7 ''m1'' ''p1'' amount db = Inr (r', db'))"
  using assms by (auto simp: sample_authorized_def pay_eval)

theorem capture_moves_money_witness:
  "\<exists>r db r' db'. sample_authorized 500 = Inr (r, db)
     \<and> CaptureAuthorizedPayment (''t1'', ''e3'', ''e4'') 7 ''m1'' ''p1'' 500 db = Inr (r', db')
     \<and> balance_where (\<lambda>e. le_MerchantID e = ''m1'' \<and> le_AccountCode e = ''MERCHANT_PAYABLE'') (db_ledger db')
       = balance_where (\<lambda>e. le_MerchantID e = ''m1'' \<and> le_AccountCode e = ''MERCHANT_PAYABLE'') (db_ledger db) - 490"
proof -
  obtain r db p r' db' where s: "sample_authorized 500 = Inr (r, db)" and p: "db_payments db = [p]" "p_ID p = ''p1''"
      "p_MerchantID p = ''m1''" "p_Amount p = 500" "p_Status p = Authorized" "db_splits db = []"
    and c: "CaptureAuthorizedPayment (''t1'', ''e3'', ''e4'') 7 ''m1'' ''p1'' 500 db = Inr (r', db')"
    by (rule sample_authorized_ok [of 500]) auto
  have lock: "lock_payment ''m1'' ''p1'' db = Inr p" using p by (simp add: lock_payment_def pay_at_def)
  have "listPaymentSplits ''p1'' db = []" using p by (simp add: listPaymentSplits_def)
  then show ?thesis
    using capture_moves_money [OF c lock p(5), of "''m1''" "''MERCHANT_PAYABLE''"] s c
    by (intro exI conjI) (auto simp: capture_delta_def)
qed

theorem small_payment_never_captured_witness:
  "\<exists>r db e. sample_authorized 20 = Inr (r, db) \<and> CaptureAuthorizedPayment (''t1'', ''e3'', ''e4'') 7 ''m1'' ''p1'' 20 db = Inl e"
proof -
  obtain r db p where s: "sample_authorized 20 = Inr (r, db)" and p: "db_payments db = [p]" "p_ID p = ''p1''"
      "p_MerchantID p = ''m1''" "p_Amount p = 20" "p_Status p = Authorized"
    by (rule sample_authorized_ok [of 20]) auto
  have lock: "lock_payment ''m1'' ''p1'' db = Inr p" using p by (simp add: lock_payment_def pay_at_def)
  show ?thesis
    using small_payment_never_captured [OF lock p(5), of "(''t1'', ''e3'', ''e4'')" 7 20] p(4) s by auto
qed

theorem auto_capture_blocked_witness:
  "\<exists>r db. sample_authorized 20 = Inr (r, db) \<and> AutoCaptureDue (\<lambda>n. (''t1'', ''e3'', ''e4'')) 7 db = (0, db)"
proof -
  obtain r db p where s: "sample_authorized 20 = Inr (r, db)" and p: "db_payments db = [p]"
      "p_Amount p = 20" "p_Status p = Authorized" "p_AutoCaptureAt p = Some 6"
    by (rule sample_authorized_ok [of 20]) auto
  have "next_auto_capture 7 (db_payments db) = Some p" using p by (simp add: next_auto_capture_def auto_capture_due_def)
  with p s show ?thesis
    using auto_capture_blocked [of 7 db p "\<lambda>n. (''t1'', ''e3'', ''e4'')"] by (auto simp: unique_key_def)
qed

section \<open>Repeated calls\<close>

lemma find_order_upd:
  "keeps_order f \<Longrightarrow> find (order_at m i) (upd_where (order_at m i) f ords) = map_option f (find (order_at m i) ords)"
  by (induction ords) (auto simp: keeps_order_def order_at_def)

text \<open>
  C38: Retrying an authorization that was accepted for the full amount of an order is refused with
  \<open>ErrOrderAmountExceeded\<close>, whatever idempotency key it carries: the cap on the exposure is checked
  before the key, so the retry does not get the payment it created.
\<close>

theorem authorization_retry_refused:
  assumes inv: "pay_inv db"
    and first: "StartAuthorization att1 new1 split1 evt1 now1 inp db = Inr (r, db1)" "db_payments db1 \<noteq> db_payments db"
    and ord: "find (order_at (ca_MerchantID inp) (ca_OrderID inp)) (db_orders db) = Some ord" "\<not> o_PartialPayment ord"
      "o_Amount ord < 2 ^ 62" "now2 \<le> o_ExpiresAt ord"
  shows "StartAuthorization att2 new2 split2 evt2 now2 inp db1 = Inl ErrOrderAmountExceeded"
  using first(1)
proof (cases rule: StartAuthorization_Inr)
  case replay
  then show ?thesis using first(2) by simp
next
  case (fresh ord' pid)
  let ?m = "ca_MerchantID inp" and ?i = "ca_OrderID inp"
  have o: "ord' = ord" using fresh(1) ord(1) by simp
  have amt: "ca_Amount inp = o_Amount ord" using fresh(2) ord(2) o by (auto simp: order_admits_def split: if_split_asm)
  have adm: "order_admits inp now2 (attempt_order now1 ord) = Inr ()"
    using fresh(2) ord(2,4) o by (auto simp: order_admits_def attempt_order_def split: if_split_asm)
  have c: "0 \<le> committed ?m ?i (db_payments db)" "committed ?m ?i (db_payments db) \<le> o_Amount ord"
    using inv ord(1,3) unfolding pay_inv_def exposure_inv_def cap_bound_def
    by (auto simp: abs_pay_def claimed_abs claim_of_def committed_def caps_def intro: sum_where_nonneg less_imp_le)
  have c1: "committed ?m ?i (db_payments db1) = committed ?m ?i (db_payments db) + o_Amount ord"
    using amt by (simp add: fresh(7) committed_def new_payment_def live_def)
  have meth: "ca_Method inp \<in> set methods" using first(1) by (auto simp: StartAuthorization_def split: if_split_asm)
  have "in64 (committed ?m ?i (db_payments db1))" "in64 (committed ?m ?i (db_payments db1) + o_Amount ord)"
  proof -
    have "in64 (committed ?m ?i (db_payments db) + ca_Amount inp)"
      using c amt ord(3) fresh(3) by (simp add: in64_def)
    then have "committed ?m ?i (db_payments db) = 0" using fresh(4) c(1) amt o by simp
    then show "in64 (committed ?m ?i (db_payments db1))" "in64 (committed ?m ?i (db_payments db1) + o_Amount ord)"
      using c1 amt fresh(3) ord(3) by (simp_all add: in64_def)
  qed
  moreover have "find (order_at ?m ?i) (db_orders db1) = Some (attempt_order now1 ord)"
    using find_order_upd [of "attempt_order now1" ?m ?i "db_orders db"] ord(1) by (simp add: fresh(8))
  moreover have "o_Amount (attempt_order now1 ord) = o_Amount ord" by (simp add: attempt_order_def)
  ultimately show ?thesis
    using adm fresh(3) meth amt c c1 by (simp add: StartAuthorization_def scan64_def)
qed

theorem authorization_retry_refused_witness:
  "\<exists>r db. StartAuthorization ''a1'' ''p1'' (\<lambda>_. ''s1'') ''e1'' 5 (sample_auth 500 ''k1'') sample_pay_db = Inr (r, db)
     \<and> StartAuthorization ''a2'' ''p2'' (\<lambda>_. ''s2'') ''e2'' 6 (sample_auth 500 ''k1'') db = Inl ErrOrderAmountExceeded"
proof -
  obtain r db where s: "StartAuthorization ''a1'' ''p1'' (\<lambda>_. ''s1'') ''e1'' 5 (sample_auth 500 ''k1'') sample_pay_db = Inr (r, db)"
    and "db_payments db \<noteq> db_payments sample_pay_db"
    by (simp add: pay_eval)
  then have "StartAuthorization ''a2'' ''p2'' (\<lambda>_. ''s2'') ''e2'' 6 (sample_auth 500 ''k1'') db = Inl ErrOrderAmountExceeded"
    by (intro authorization_retry_refused [OF pay_inv_start [OF sample_pay_start] s, of "sample_order ''o1'' 1"])
       (simp_all add: sample_pay_db_def sample_auth_def order_at_def sample_order_def minutes_def)
  with s show ?thesis by blast
qed

text \<open>
  Capturing part of an order that allows partial payments marks the whole order as paid, with
  nothing due.
\<close>

theorem capture_marks_order_paid:
  assumes op: "CaptureAuthorizedPayment (txnID, evt1, evt2) now m i amount db = Inr (r, db')"
    and p: "lock_payment m i db = Inr p" "p_Status p = Authorized"
    and ord: "find (order_at m (p_OrderID p)) (db_orders db) = Some ord"
  shows "\<exists>ord'. find (order_at m (p_OrderID p)) (db_orders db') = Some ord'
     \<and> o_Status ord' = OrderPaid \<and> o_AmountPaid ord' = o_Amount ord \<and> o_AmountDue ord' = 0"
  using op
proof (cases rule: CaptureAuthorizedPayment_Inr)
  case (fresh q es l)
  then show ?thesis using find_order_upd [of "pay_order now" m "p_OrderID p" "db_orders db"] p ord by (simp add: pay_order_def)
qed (use p in simp)

theorem capture_marks_order_paid_witness:
  "\<exists>r db r' db' ord. sample_authorized 100 = Inr (r, db)
     \<and> CaptureAuthorizedPayment (''t1'', ''e3'', ''e4'') 7 ''m1'' ''p1'' 100 db = Inr (r', db')
     \<and> find (order_at ''m1'' ''o1'') (db_orders db') = Some ord \<and> o_AmountPaid ord = 500 \<and> o_AmountDue ord = 0"
proof -
  obtain r db p r' db' ord where s: "sample_authorized 100 = Inr (r, db)"
    and c: "CaptureAuthorizedPayment (''t1'', ''e3'', ''e4'') 7 ''m1'' ''p1'' 100 db = Inr (r', db')"
    and p: "db_payments db = [p]" "p_ID p = ''p1''" "p_MerchantID p = ''m1''" "p_OrderID p = ''o1''" "p_Status p = Authorized"
    and o: "db_orders db = [ord]" "order_at ''m1'' ''o1'' ord" "o_Amount ord = 500"
    by (rule sample_authorized_ok [of 100]) auto
  have "lock_payment ''m1'' ''p1'' db = Inr p" using p by (simp add: lock_payment_def pay_at_def)
  from capture_marks_order_paid [OF c this p(5)] show ?thesis using p o s c by auto
qed

text \<open>
  Capturing a captured payment again changes nothing and reports success, but the result has
  no status: the field is only filled when the payment is read back after the commit.
\<close>

theorem capture_replay_has_no_status:
  assumes "lock_payment m i db = Inr p" "p_Status p = Captured"
  shows "\<exists>r. CaptureAuthorizedPayment ids now m i amount db = Inr (r, db) \<and> cr_Status r = None \<and> cr_PaymentID r = p_ID p"
  using assms by (auto simp: CaptureAuthorizedPayment_def current_of_def split: prod.splits)

theorem capture_replay_has_no_status_witness:
  "\<exists>r db r'. sample_captured = Inr (r, db) \<and> cr_Status r = Some Captured
     \<and> CaptureAuthorizedPayment (''t2'', ''e5'', ''e6'') 9 ''m1'' ''p1'' 500 db = Inr (r', db) \<and> cr_Status r' = None"
proof -
  obtain r db p where s: "sample_captured = Inr (r, db)" "cr_Status r = Some Captured"
      "lock_payment ''m1'' ''p1'' db = Inr p" "p_Status p = Captured"
    by (simp add: sample_captured_def pay_eval)
  then show ?thesis
    using capture_replay_has_no_status [OF s(3,4), of "(''t2'', ''e5'', ''e6'')" 9 500] by auto
qed

end
