(* ===== verification/PaymentService.thy ===== *)
theory PaymentService
  imports Capture
begin

text \<open>
  The payment service (\<open>internal/payment/service.go\<close>): \<open>Authorize\<close> over the repository, the gateway and
  the card token vault, and the card challenge callback. The gateway and the vault are interfaces of
  the service: the gateway is an argument, the vault is an optional pair of functions on a world
  \<open>'v\<close>. The service runs several transactions, so a failure keeps what was committed before it:
  an operation returns its result or error together with the database and the world it leaves.
  All calls of the clock in one request read the same time.
\<close>

section \<open>Interfaces\<close>

record gateway_result =
  gr_Success :: bool
  gr_RequiresAction :: bool
  gr_GatewayReference :: string
  gr_AuthCode :: string
  gr_ChallengeURL :: string
  gr_ChallengeToken :: string
  gr_ChallengeExpiry :: "time option"
  gr_ErrorCode :: string
  gr_ErrorDescription :: string

text \<open>A gateway has a name (empty when it has none) and may decide a route.\<close>

datatype gateway =
    Direct string "int \<Rightarrow> string \<Rightarrow> id \<Rightarrow> string \<Rightarrow> string + gateway_result"
  | Routed string "int \<Rightarrow> string \<Rightarrow> id \<Rightarrow> string \<Rightarrow> (string + gateway_result) \<times> route_decision"

record card_ref =
  rf_TokenClass :: string
  rf_Brand :: string
  rf_Last4 :: string
  rf_ExpMonth :: int
  rf_ExpYear :: int
  rf_IssuerName :: string
  rf_IssuerCountry :: string
  rf_CardCountry :: string
  rf_FundingType :: string
  rf_NetworkTokenType :: string

record 'v card_tokens =
  ct_PrepareAuthorization :: "id \<Rightarrow> id \<Rightarrow> id \<Rightarrow> 'v \<Rightarrow> (string + card_ref) \<times> 'v"
  ct_CompleteAuthorization :: "id \<Rightarrow> id \<Rightarrow> id \<Rightarrow> bool \<Rightarrow> string \<Rightarrow> 'v \<Rightarrow> bool \<times> 'v"

record split_instruction =
  sp_ConnectedAccountID :: id
  sp_BeneficiaryLabel :: string
  sp_Amount :: int

record authorize_input =
  au_PaymentID :: id
  au_MerchantID :: id
  au_OrderID :: id
  au_Amount :: int
  au_Currency :: string
  au_Method :: string
  au_PaymentMethodTokenID :: id
  au_IdempotencyKey :: string
  au_AutoCapture :: bool
  au_SplitInstructions :: "split_instruction list"

text \<open>The identifiers one request draws.\<close>

record auth_ids =
  ai_PaymentID :: id
  ai_AttemptID :: id
  ai_SplitID :: "nat \<Rightarrow> id"
  ai_StartEvent :: id
  ai_OutcomeEvent :: id
  ai_SessionID :: id
  ai_CallbackToken :: id

section \<open>Split instructions\<close>

fun split_total :: "int \<Rightarrow> split_instruction list \<Rightarrow> payment_error + int" where
  "split_total acc [] = Inr acc"
| "split_total acc (s # ss) =
     (if sp_Amount s < 0 \<or> sp_ConnectedAccountID s = '''' then Inl ErrAmountMismatch
      else split_total (i64 (acc + sp_Amount s)) ss)"

definition validateSplitInstructions :: "authorize_input \<Rightarrow> payment_error + unit" where
  "validateSplitInstructions inp =
     (if au_SplitInstructions inp = [] then Inr ()
      else
      let fee = quot64 (i64 (au_Amount inp * 2)) 100 in
      bindR (split_total 0 (au_SplitInstructions inp)) (\<lambda>tot.
        if tot > i64 (au_Amount inp - fee) then Inl ErrAmountMismatch else Inr ()))"

definition toCreatePaymentSplits :: "authorize_input \<Rightarrow> create_split_input list" where
  "toCreatePaymentSplits inp =
     map (\<lambda>s. \<lparr>si_DestinationType = ''connected_account'', si_DestinationRef = sp_ConnectedAccountID s,
               si_BeneficiaryLabel = sp_BeneficiaryLabel s, si_Amount = sp_Amount s,
               si_Currency = au_Currency inp\<rparr>) (au_SplitInstructions inp)"

section \<open>Authorize\<close>

definition gatewayProviderName :: "gateway \<Rightarrow> string" where
  "gatewayProviderName gw =
     (case gw of Direct name _ \<Rightarrow> if name \<noteq> '''' then name else ''unknown''
               | Routed name _ \<Rightarrow> if name \<noteq> '''' then name else ''unknown'')"

definition call_gateway :: "gateway \<Rightarrow> int \<Rightarrow> string \<Rightarrow> id \<Rightarrow> string \<Rightarrow> (string + gateway_result) \<times> route_decision" where
  "call_gateway gw amount currency merchantID method =
     (let provider = gatewayProviderName gw in
      case gw of
        Direct _ f \<Rightarrow> (f amount currency merchantID method,
          \<lparr>rd_Provider = provider, rd_RoutingReason = ''direct_gateway'', rd_AttemptedProviders = [provider]\<rparr>)
      | Routed _ f \<Rightarrow> (case f amount currency merchantID method of
          (result, d) \<Rightarrow>
            let prov = (if rd_Provider d = '''' then provider else rd_Provider d) in
            (result, d\<lparr>rd_Provider := prov,
               rd_AttemptedProviders := (if rd_AttemptedProviders d = [] then [prov] else rd_AttemptedProviders d)\<rparr>)))"

text \<open>A best-effort write: its error is dropped.\<close>

definition try_routing :: "id \<Rightarrow> id \<Rightarrow> route_decision \<Rightarrow> 'a payment_db_scheme \<Rightarrow> 'a payment_db_scheme" where
  "try_routing merchantID paymentID d db =
     (case UpdateGatewayRouting merchantID paymentID d db of Inl _ \<Rightarrow> db | Inr db' \<Rightarrow> db')"

definition complete_token ::
  "'v card_tokens option \<Rightarrow> id \<Rightarrow> id \<Rightarrow> id \<Rightarrow> bool \<Rightarrow> string \<Rightarrow> 'v \<Rightarrow> bool \<times> 'v" where
  "complete_token tokens merchantID tokenID paymentID success reason v =
     (case tokens of
        None \<Rightarrow> (True, v)
      | Some t \<Rightarrow> if tokenID = '''' then (True, v)
                  else ct_CompleteAuthorization t merchantID tokenID paymentID success reason v)"

definition persistAuthorizationFailure ::
  "'v card_tokens option \<Rightarrow> id \<Rightarrow> time \<Rightarrow> capture_result \<Rightarrow> id \<Rightarrow> route_decision \<Rightarrow> string \<Rightarrow> string \<Rightarrow> string
     \<Rightarrow> payment_error \<Rightarrow> 'a payment_db_scheme \<times> 'v \<Rightarrow> payment_error \<times> 'a payment_db_scheme \<times> 'v" where
  "persistAuthorizationFailure tokens evtID now pending tokenID decision errorCode errorDescription tokenReason primary s =
     (case s of (db, v) \<Rightarrow>
      let (errs1, db1) = (case UpdateGatewayRouting (cr_MerchantID pending) (cr_PaymentID pending) decision db of
             Inl e \<Rightarrow> ([e], db) | Inr db' \<Rightarrow> ([], db'));
          (errs2, v1) = (if cr_Method pending = ''card'' then
              (case complete_token tokens (cr_MerchantID pending) tokenID (cr_PaymentID pending) False tokenReason v of
                 (ok, v') \<Rightarrow> (if ok then [] else [ErrPaymentMethodTokenInvalid], v'))
              else ([], v));
          (errs3, db2) = (case MarkAuthorizationFailed evtID now (cr_MerchantID pending) (cr_PaymentID pending)
                                 errorCode errorDescription db1 of
             Inl e \<Rightarrow> ([e], db1) | Inr db' \<Rightarrow> ([], db'));
          errs = errs1 @ errs2 @ errs3 in
      (if errs = [] then primary else ErrCleanup primary errs, db2, v1))"

text \<open>The card step: the token is reserved in the vault and its card attached to the payment.\<close>

definition prepare_card ::
  "'v card_tokens option \<Rightarrow> authorize_input \<Rightarrow> id \<Rightarrow> capture_result \<Rightarrow> 'a payment_db_scheme \<times> 'v
     \<Rightarrow> (payment_error + id) \<times> 'a payment_db_scheme \<times> 'v" where
  "prepare_card tokens inp inPaymentID pending s =
     (case s of (db, v) \<Rightarrow>
      case tokens of
        None \<Rightarrow> (Inr '''', db, v)
      | Some t \<Rightarrow>
          if au_Method inp \<noteq> ''card'' then (Inr '''', db, v)
          else if au_PaymentMethodTokenID inp = '''' then (Inl ErrPaymentMethodTokenRequired, db, v)
          else case ct_PrepareAuthorization t (au_MerchantID inp) (au_PaymentMethodTokenID inp) inPaymentID v of
            (Inl _, v') \<Rightarrow> (Inl ErrPaymentMethodTokenInvalid, db, v')
          | (Inr ref, v') \<Rightarrow>
              (case AttachCardPaymentDetails
                 \<lparr>cd_PaymentID = cr_PaymentID pending, cd_CardTokenID = au_PaymentMethodTokenID inp,
                  cd_Brand = rf_Brand ref, cd_Last4 = rf_Last4 ref, cd_ExpMonth = rf_ExpMonth ref,
                  cd_ExpYear = rf_ExpYear ref, cd_TokenClass = rf_TokenClass ref,
                  cd_IssuerName = rf_IssuerName ref, cd_IssuerCountry = rf_IssuerCountry ref,
                  cd_CardCountry = rf_CardCountry ref, cd_FundingType = rf_FundingType ref,
                  cd_NetworkTokenType = rf_NetworkTokenType ref\<rparr> db of
                 Inl e \<Rightarrow> (Inl e, db, v')
               | Inr db' \<Rightarrow> (Inr (au_PaymentMethodTokenID inp), db', v')))"

definition with_route :: "route_decision \<Rightarrow> capture_result \<Rightarrow> capture_result" where
  "with_route d r = r\<lparr>cr_Provider := rd_Provider d, cr_RoutingReason := rd_RoutingReason d,
     cr_AttemptedProviders := rd_AttemptedProviders d\<rparr>"

text \<open>The outcome of the gateway for a pending payment.\<close>

definition settle_authorization ::
  "'v card_tokens option \<Rightarrow> auth_ids \<Rightarrow> time \<Rightarrow> authorize_input \<Rightarrow> capture_result \<Rightarrow> id
     \<Rightarrow> (string + gateway_result) \<times> route_decision \<Rightarrow> 'a payment_db_scheme \<times> 'v
     \<Rightarrow> (payment_error + capture_result) \<times> 'a payment_db_scheme \<times> 'v" where
  "settle_authorization tokens ids now inp pending tokenID outcome s =
     (let m = au_MerchantID inp; i = cr_PaymentID pending; card = (au_Method inp = ''card'');
          release = (\<lambda>reason v. if card then snd (complete_token tokens m tokenID i False reason v) else v) in
      case s of (db, v) \<Rightarrow>
      case outcome of
        (Inl gerr, d) \<Rightarrow>
          (case persistAuthorizationFailure tokens (ai_OutcomeEvent ids) now pending tokenID d ''GATEWAY_ERROR'' gerr
                  ''gateway error'' (ErrGateway gerr) (db, v) of
             (e, s') \<Rightarrow> (Inl e, s'))
      | (Inr res, d) \<Rightarrow>
          if gr_RequiresAction res then
            (let db1 = try_routing m i d db in
             case MarkAuthorizationRequiresAction (ai_OutcomeEvent ids) now m i
                    \<lparr>ci_SessionID = ai_SessionID ids, ci_CardTokenID = au_PaymentMethodTokenID inp,
                     ci_RedirectURL = gr_ChallengeURL res, ci_ChallengeReference = gr_ChallengeToken res,
                     ci_CallbackToken = ai_CallbackToken ids, ci_AutoCaptureRequested = au_AutoCapture inp,
                     ci_ExpiresAt = (case gr_ChallengeExpiry res of Some t \<Rightarrow> t | None \<Rightarrow> now + minutes 5)\<rparr> db1 of
               Inl e \<Rightarrow> (Inl e, db1, release ''challenge persist failed'' v)
             | Inr (out, db2) \<Rightarrow> (Inr (with_route d out), db2, v))
          else if \<not> gr_Success res then
            (case persistAuthorizationFailure tokens (ai_OutcomeEvent ids) now pending tokenID d (gr_ErrorCode res)
                    (gr_ErrorDescription res) (gr_ErrorDescription res) ErrAuthorizationDeclined (db, v) of
               (e, s') \<Rightarrow> (Inl e, s'))
          else
            (case MarkAuthorizationAuthorized (ai_OutcomeEvent ids) now m i (gr_GatewayReference res) (gr_AuthCode res)
                    (if au_AutoCapture inp then Some (now + seconds 30) else None) db of
               Inl e \<Rightarrow> (Inl e, db, release ''authorization persist failed'' v)
             | Inr (out, db1) \<Rightarrow>
                 (Inr (with_route d out), try_routing m i d db1,
                  if card then snd (complete_token tokens m tokenID i True '''' v) else v)))"

definition Authorize ::
  "gateway \<Rightarrow> 'v card_tokens option \<Rightarrow> auth_ids \<Rightarrow> time \<Rightarrow> authorize_input \<Rightarrow> 'a payment_db_scheme \<times> 'v
     \<Rightarrow> (payment_error + capture_result) \<times> 'a payment_db_scheme \<times> 'v" where
  "Authorize gw tokens ids now inp s =
     (case s of (db, v) \<Rightarrow>
      if au_Amount inp \<le> 0 then (Inl ErrInvalidPaymentAmount, s)
      else case validateSplitInstructions inp of
        Inl e \<Rightarrow> (Inl e, s)
      | Inr _ \<Rightarrow>
          let pid = (if au_PaymentID inp = '''' then ai_PaymentID ids else au_PaymentID inp) in
          (case StartAuthorization (ai_AttemptID ids) pid (ai_SplitID ids) (ai_StartEvent ids) now
                  \<lparr>ca_PaymentID = pid, ca_MerchantID = au_MerchantID inp, ca_OrderID = au_OrderID inp,
                   ca_Amount = au_Amount inp, ca_Currency = au_Currency inp, ca_Method = au_Method inp,
                   ca_Provider = '''', ca_RoutingReason = '''', ca_AttemptedProviders = [],
                   ca_IdempotencyKey = au_IdempotencyKey inp, ca_Splits = toCreatePaymentSplits inp\<rparr> db of
             Inl e \<Rightarrow> (Inl e, s)
           | Inr (pending, db1) \<Rightarrow>
               if cr_Status pending \<noteq> Some Created then (Inr pending, db1, v)
               else case prepare_card tokens inp pid pending (db1, v) of
                 (Inl e, s2) \<Rightarrow> (Inl e, s2)
               | (Inr tokenID, s2) \<Rightarrow>
                   settle_authorization tokens ids now inp pending tokenID
                     (call_gateway gw (au_Amount inp) (au_Currency inp) (au_MerchantID inp) (au_Method inp)) s2))"

definition RecordFailedAttempt ::
  "id \<Rightarrow> id \<Rightarrow> id \<Rightarrow> time \<Rightarrow> authorize_input \<Rightarrow> string \<Rightarrow> string
     \<Rightarrow> 'a payment_db_scheme \<Rightarrow> payment_error + 'a payment_db_scheme" where
  "RecordFailedAttempt newPayID attemptID evtID now inp errorCode errorDescription db =
     (if au_Amount inp \<le> 0 then Inl ErrInvalidPaymentAmount
      else CreateFailedAttempt attemptID evtID now
        \<lparr>ca_PaymentID = (if au_PaymentID inp = '''' then newPayID else au_PaymentID inp),
         ca_MerchantID = au_MerchantID inp, ca_OrderID = au_OrderID inp, ca_Amount = au_Amount inp,
         ca_Currency = au_Currency inp, ca_Method = au_Method inp, ca_Provider = '''', ca_RoutingReason = '''',
         ca_AttemptedProviders = [], ca_IdempotencyKey = au_IdempotencyKey inp, ca_Splits = []\<rparr>
        errorCode errorDescription db)"

definition CaptureForMerchant ::
  "id \<times> id \<times> id \<Rightarrow> time \<Rightarrow> id \<Rightarrow> id \<Rightarrow> int
     \<Rightarrow> 'a payment_db_scheme \<Rightarrow> payment_error + capture_result \<times> 'a payment_db_scheme" where
  "CaptureForMerchant ids now merchantID paymentID amount db =
     (if merchantID = '''' then Inl ErrPayMerchantRequired
      else CaptureAuthorizedPayment ids now merchantID paymentID amount db)"

section \<open>The challenge callback\<close>

record challenge_callback =
  cb_MerchantID :: id
  cb_PaymentID :: id
  cb_CallbackToken :: string
  cb_GatewayReference :: string
  cb_AuthCode :: string
  cb_ErrorCode :: string
  cb_ErrorDescription :: string
  cb_Status :: string

definition challenge_token_of :: "capture_result \<Rightarrow> id" where
  "challenge_token_of r = (case cr_Card r of None \<Rightarrow> '''' | Some d \<Rightarrow> cd_CardTokenID d)"

definition CompleteCardChallengeService ::
  "'v card_tokens option \<Rightarrow> id \<Rightarrow> time \<Rightarrow> challenge_callback \<Rightarrow> 'a payment_db_scheme \<times> 'v
     \<Rightarrow> (payment_error + capture_result \<times> bool) \<times> 'a payment_db_scheme \<times> 'v" where
  "CompleteCardChallengeService tokens evtID now cb s =
     (case s of (db, v) \<Rightarrow>
      let status = (if cb_Status cb = '''' then ''succeeded'' else cb_Status cb);
          finish = (\<lambda>m token success reason out. case out of
             Inl e \<Rightarrow> (Inl e, db, v)
           | Inr ((r, processed), db') \<Rightarrow>
               (Inr (r, processed), db',
                if processed then snd (complete_token tokens m token (cb_PaymentID cb) success reason v) else v)) in
      case (if cb_MerchantID cb = '''' then ResolveCardChallengeMerchant (cb_PaymentID cb) (cb_CallbackToken cb) db
            else Inr (cb_MerchantID cb)) of
        Inl e \<Rightarrow> (Inl e, s)
      | Inr m \<Rightarrow>
          (case GetPayment m (cb_PaymentID cb) db of
             Inl e \<Rightarrow> (Inl e, s)
           | Inr current \<Rightarrow>
               if status = ''succeeded'' then
                 finish m (challenge_token_of current) True ''''
                   (CompleteCardChallenge evtID now m (cb_PaymentID cb) (cb_CallbackToken cb)
                      (cb_GatewayReference cb) (cb_AuthCode cb) now db)
               else if status \<in> {''abandoned'', ''expired'', ''failed''} then
                 (let reason = (if cb_ErrorDescription cb \<noteq> '''' then cb_ErrorDescription cb
                                else if status = ''abandoned'' then ''customer abandoned challenge''
                                else if status = ''expired'' then ''challenge session expired'' else '''');
                      code = (if cb_ErrorCode cb \<noteq> '''' then cb_ErrorCode cb else ''CARD_AUTHENTICATION_FAILED'') in
                  finish m (challenge_token_of current) False reason
                    (FailCardChallenge evtID now m (cb_PaymentID cb) (cb_CallbackToken cb) code reason status now db))
               else (Inl ErrInvalidTransition, s)))"

section \<open>What an authorization does to the tables\<close>

text \<open>
  The service touches the payment tables only through six repository operations. A relation that is reflexive,
  transitive and contains them relates the tables before and after an authorization; \<open>auto\<close> says whether the
  operations may ask for automatic capture.
\<close>

locale authorization_closed =
  fixes R :: "'a payment_db_scheme \<Rightarrow> 'a payment_db_scheme \<Rightarrow> bool" and auto :: bool
  assumes refl: "R db db"
    and trans: "R db db1 \<Longrightarrow> R db1 db2 \<Longrightarrow> R db db2"
    and start: "StartAuthorization attemptID newPayID splitID evtID now ain db = Inr (r, db') \<Longrightarrow> R db db'"
    and routing: "UpdateGatewayRouting m i d db = Inr db' \<Longrightarrow> R db db'"
    and attach: "AttachCardPaymentDetails cd db = Inr db' \<Longrightarrow> R db db'"
    and action: "ci_AutoCaptureRequested cin \<longrightarrow> auto \<Longrightarrow> MarkAuthorizationRequiresAction evtID now m i cin db = Inr (r, db') \<Longrightarrow> R db db'"
    and authorized: "cap \<noteq> None \<longrightarrow> auto \<Longrightarrow> MarkAuthorizationAuthorized evtID now m i gref auth cap db = Inr (r, db') \<Longrightarrow> R db db'"
    and failed: "MarkAuthorizationFailed evtID now m i code desc db = Inr db' \<Longrightarrow> R db db'"
begin

lemma try_routing_rel: "R db (try_routing m i d db)"
  by (cases "UpdateGatewayRouting m i d db") (auto simp: try_routing_def intro: routing refl)

lemma persist_rel:
  assumes "persistAuthorizationFailure tokens evtID now pending tok d code desc reason prim (db, v) = (e, db', v')"
  shows "R db db'"
proof -
  let ?m = "cr_MerchantID pending" and ?i = "cr_PaymentID pending"
  let ?db1 = "try_routing ?m ?i d db"
  have "db' = (case MarkAuthorizationFailed evtID now ?m ?i code desc ?db1 of Inl _ \<Rightarrow> ?db1 | Inr db2 \<Rightarrow> db2)"
    using assms
    by (auto simp: persistAuthorizationFailure_def Let_def try_routing_def split: sum.splits prod.splits if_split_asm)
  moreover have "R ?db1 (case MarkAuthorizationFailed evtID now ?m ?i code desc ?db1 of Inl _ \<Rightarrow> ?db1 | Inr db2 \<Rightarrow> db2)"
    by (auto split: sum.splits intro: failed refl)
  ultimately show ?thesis using try_routing_rel [of db ?m ?i d] trans by metis
qed

lemma prepare_card_rel:
  "prepare_card tokens inp pid pending (db, v) = (res, db', v') \<Longrightarrow> R db db'"
  by (auto simp: prepare_card_def split: option.splits if_split_asm prod.splits sum.splits intro: attach refl)

lemma settle_rel:
  assumes "settle_authorization tokens ids now inp pending tok outcome (db, v) = (res, db', v')" "au_AutoCapture inp \<longrightarrow> auto"
  shows "R db db'"
proof -
  obtain gres d where outcome: "outcome = (gres, d)" by force
  show ?thesis
  proof (cases gres)
    case (Inl gerr)
    then show ?thesis using assms outcome
      by (auto simp: settle_authorization_def Let_def split: prod.splits intro: persist_rel)
  next
    case (Inr r)
    let ?m = "au_MerchantID inp" and ?i = "cr_PaymentID pending"
    consider "gr_RequiresAction r" | "\<not> gr_RequiresAction r" "gr_Success r" | "\<not> gr_RequiresAction r" "\<not> gr_Success r" by blast
    then show ?thesis
    proof cases
      case 1
      then have "R (try_routing ?m ?i d db) db'" using assms outcome Inr
        by (auto simp: settle_authorization_def Let_def split: sum.splits prod.splits intro: refl action [rotated])
      with try_routing_rel show ?thesis by (rule trans)
    next
      case 2
      then show ?thesis using assms outcome Inr
        by (auto simp: settle_authorization_def Let_def refl split: sum.splits prod.splits if_split_asm
            dest!: authorized [rotated] intro: trans [OF _ try_routing_rel])
    next
      case 3
      then show ?thesis using assms outcome Inr
        by (auto simp: settle_authorization_def Let_def split: prod.splits intro: persist_rel)
    qed
  qed
qed

lemma Authorize_rel:
  assumes "Authorize gw tokens ids now inp (db, v) = (res, db', v')" "au_AutoCapture inp \<longrightarrow> auto"
  shows "R db db'"
proof (cases "au_Amount inp \<le> 0 \<or> isl (validateSplitInstructions inp)")
  case True
  then show ?thesis using assms refl by (cases "validateSplitInstructions inp") (auto simp: Authorize_def split: if_split_asm)
next
  case False
  let ?pid = "if au_PaymentID inp = '''' then ai_PaymentID ids else au_PaymentID inp"
  let ?start = "StartAuthorization (ai_AttemptID ids) ?pid (ai_SplitID ids) (ai_StartEvent ids) now
      \<lparr>ca_PaymentID = ?pid, ca_MerchantID = au_MerchantID inp, ca_OrderID = au_OrderID inp,
       ca_Amount = au_Amount inp, ca_Currency = au_Currency inp, ca_Method = au_Method inp,
       ca_Provider = '''', ca_RoutingReason = '''', ca_AttemptedProviders = [],
       ca_IdempotencyKey = au_IdempotencyKey inp, ca_Splits = toCreatePaymentSplits inp\<rparr> db"
  obtain u where valid: "\<not> au_Amount inp \<le> 0" "validateSplitInstructions inp = Inr u"
    using False by (cases "validateSplitInstructions inp") auto
  show ?thesis
  proof (cases ?start)
    case (Inl e)
    then show ?thesis using assms valid refl by (simp add: Authorize_def Let_def)
  next
    case (Inr a)
    obtain pending db1 where a: "a = (pending, db1)" by force
    have "R db db1" by (rule start [OF Inr [unfolded a]])
    moreover have "R db1 db'"
    proof (cases "cr_Status pending = Some Created")
      case True
      obtain tok db2 v2 where prep: "prepare_card tokens inp ?pid pending (db1, v) = (tok, db2, v2)" by (metis surj_pair)
      have "R db2 db'"
        using assms valid Inr a True prep refl
        by (cases tok) (auto simp: Authorize_def Let_def intro: settle_rel)
      with prepare_card_rel [OF prep] show ?thesis by (rule trans)
    qed (use assms valid Inr a refl in \<open>simp add: Authorize_def Let_def\<close>)
    ultimately show ?thesis by (rule trans)
  qed
qed

end

interpretation service_run: authorization_closed "pay_step\<^sup>*\<^sup>*" True
  by unfold_locales
    (auto intro: pay_step.start pay_step.routing pay_step.attach pay_step.requires_action pay_step.authorized pay_step.failed)

lemma challenge_service_run:
  "CompleteCardChallengeService tokens evtID now cb (db, v) = (res, db', v') \<Longrightarrow> pay_step\<^sup>*\<^sup>* db db'"
  unfolding CompleteCardChallengeService_def Let_def prod.case
  by (auto split: sum.split_asm if_split_asm prod.split_asm intro: pay_step.complete_challenge pay_step.fail_challenge)

section \<open>Properties\<close>

lemma split_total_Inr:
  "split_total t ss = Inr t' \<Longrightarrow> i64 t' = i64 (t + sum_list (map sp_Amount ss)) \<and> list_all (\<lambda>s. 0 \<le> sp_Amount s) ss"
proof (induction ss arbitrary: t)
  case (Cons s ss)
  then have "split_total (i64 (t + sp_Amount s)) ss = Inr t'" "0 \<le> sp_Amount s" by (auto split: if_split_asm)
  from Cons.IH [OF this(1)] this(2) show ?case by (simp add: add.assoc)
qed simp

text \<open>
  Whatever the gateway and the token vault answer, an authorization and a challenge callback
  keep the invariant of the payment tables: no order below the bound is over-committed, exactly the
  captured payments are posted, and every order row is consistent.
\<close>

theorem service_keeps_payment_invariant:
  assumes "pay_inv db"
  shows "pay_inv (fst (snd (Authorize gw tokens ids now inp (db, v))))
    \<and> pay_inv (fst (snd (CompleteCardChallengeService tokens evtID now cb (db, v))))
    \<and> pay_inv (payment_sweep capIDs evtIDs now db)"
proof (intro conjI)
  show "pay_inv (fst (snd (Authorize gw tokens ids now inp (db, v))))"
    by (metis service_run.Authorize_rel assms flow.inv_steps surjective_pairing)
  show "pay_inv (fst (snd (CompleteCardChallengeService tokens evtID now cb (db, v))))"
    by (metis challenge_service_run assms flow.inv_steps surjective_pairing)
  show "pay_inv (payment_sweep capIDs evtIDs now db)"
    by (rule flow.inv_steps [OF sweep_run [OF assms] assms])
qed

definition sample_ids :: auth_ids where
  "sample_ids = \<lparr>ai_PaymentID = ''p1'', ai_AttemptID = ''a1'', ai_SplitID = (\<lambda>n. ''s'' @ replicate n (CHR ''x'')), ai_StartEvent = ''e1'',
     ai_OutcomeEvent = ''e2'', ai_SessionID = ''se'', ai_CallbackToken = ''cb''\<rparr>"

definition sample_authorize :: "split_instruction list \<Rightarrow> authorize_input" where
  "sample_authorize splits = \<lparr>au_PaymentID = '''', au_MerchantID = ''m1'', au_OrderID = ''o1'', au_Amount = 500,
     au_Currency = ''INR'', au_Method = ''card'', au_PaymentMethodTokenID = '''', au_IdempotencyKey = ''k1'',
     au_AutoCapture = True, au_SplitInstructions = splits\<rparr>"

definition approving_gateway :: gateway where
  "approving_gateway = Direct ''simulator'' (\<lambda>amount currency m method.
     Inr \<lparr>gr_Success = True, gr_RequiresAction = False, gr_GatewayReference = ''g1'', gr_AuthCode = ''ac'',
          gr_ChallengeURL = '''', gr_ChallengeToken = '''', gr_ChallengeExpiry = None, gr_ErrorCode = '''',
          gr_ErrorDescription = ''''\<rparr>)"

lemmas service_eval = pay_eval sample_ids_def sample_authorize_def approving_gateway_def Authorize_def
  validateSplitInstructions_def toCreatePaymentSplits_def prepare_card_def settle_authorization_def call_gateway_def
  gatewayProviderName_def try_routing_def UpdateGatewayRouting_def complete_token_def with_route_def seconds_def

theorem service_keeps_payment_invariant_witness:
  "\<exists>r db v. Authorize approving_gateway (None :: unit card_tokens option) sample_ids 5 (sample_authorize []) (sample_pay_db, ()) = (Inr r, db, v)
     \<and> cr_Status r = Some Authorized \<and> pay_inv db"
proof -
  let ?out = "Authorize approving_gateway (None :: unit card_tokens option) sample_ids 5 (sample_authorize []) (sample_pay_db, ())"
  obtain r db v where out: "?out = (Inr r, db, v)" "cr_Status r = Some Authorized"
    by (simp add: service_eval)
  have "pay_inv (fst (snd ?out))"
    by (rule service_keeps_payment_invariant [OF pay_inv_start [OF sample_pay_start], THEN conjunct1])
  with out show ?thesis by auto
qed

lemma capture_overflow:
  assumes "split_sum ss = 2 ^ 64"
  shows "\<exists>es. capture_entries 500 ss = Inr es \<and> ValidateEntries es = Inr () \<and> list_all entry_ok es \<and> debits es = 500
     \<and> sum_where (\<lambda>e. e_AccountCode e = ''MERCHANT_PAYABLE'') (\<lambda>e. e_DebitAmount e - e_CreditAmount e) es = - (490 + 2 ^ 64)"
proof -
  let ?lines = "map split_line (filter (\<lambda>s. 0 < s_Amount s) ss)"
  obtain t where t: "split_entries 0 ss = (t, ?lines)" using split_entries_lines [of 0 ss] by (metis prod.collapse)
  have "in64 t" using split_entries_range [of 0 ss] t by (simp add: in64_def)
  moreover have "i64 (2 ^ 64) = 0" by (simp add: i64_def)
  then have "i64 t = 0" using split_entries_total [of 0 ss] t assms by simp
  ultimately have "t = 0" by simp
  then have "capture_entries 500 ss = Inr ([ledger_line ''CUSTOMER_RECEIVABLE'' 500 0 ''payment capture receivable'',
      ledger_line ''PLATFORM_FEE_REVENUE'' 0 10 ''platform fee revenue''] @ ?lines
      @ [ledger_line ''MERCHANT_PAYABLE'' 0 490 ''merchant payable on capture''])" (is "_ = Inr ?es")
    using t by (simp add: capture_entries_def capture_fee_def quot64_def i64_def)
  moreover have tot: "debits ?es = 500" "credits ?es = 500 + 2 ^ 64"
    using assms by (simp_all add: split_lines_totals ledger_line_def split_sum_def sum_where_def)
  moreover have sides: "list_all one_sided ?es" "list_all entry_ok ?es"
    by (auto simp: list_all_iff one_sided_def entry_ok_def ledger_line_def split_line_def ledger_accounts_def)
  moreover have "ValidateEntries ?es = Inr ()"
    using tot sides(1) by (simp only: ValidateEntries_wrap_iff) simp
  moreover have "sum_where (\<lambda>e. e_AccountCode e = ''MERCHANT_PAYABLE'') (\<lambda>e. e_DebitAmount e - e_CreditAmount e) ?es = - (490 + 2 ^ 64)"
    using split_lines_sum [of "''MERCHANT_PAYABLE''" "filter (\<lambda>s. 0 < s_Amount s) ss"] assms
    by (simp add: ledger_line_def split_sum_def sum_where_def)
  ultimately show ?thesis by blast
qed

text \<open>
  C24: The totals of the split instructions wrap around: instructions of int64 amounts that add up
  to 2 to the 64 pass the validation of \<open>Authorize\<close>, and the capture of a payment of 500 then posts
  2 to the 64 more to the merchant payable account than the customer pays.
\<close>

theorem split_total_overflow:
  "\<exists>splits r db v r' db'.
     list_all (\<lambda>s. 0 \<le> sp_Amount s \<and> in64 (sp_Amount s)) splits
     \<and> Authorize approving_gateway (None :: unit card_tokens option) sample_ids 5 (sample_authorize splits) (sample_pay_db, ())
         = (Inr r, db, v)
     \<and> CaptureForMerchant (''t1'', ''e3'', ''e4'') 7 ''m1'' ''p1'' 500 db = Inr (r', db')
     \<and> balance_where (\<lambda>e. le_MerchantID e = ''m1'' \<and> le_AccountCode e = ''MERCHANT_PAYABLE'') (db_ledger db') = - (490 + 2 ^ 64)"
proof -
  let ?s = "\<lambda>a. \<lparr>sp_ConnectedAccountID = ''acct'', sp_BeneficiaryLabel = '''', sp_Amount = a\<rparr>"
  let ?splits = "[?s (2 ^ 63 - 1), ?s (2 ^ 63 - 1), ?s 2]"
  have "list_all (\<lambda>s. 0 \<le> sp_Amount s \<and> in64 (sp_Amount s)) ?splits" by (simp add: in64_def)
  moreover obtain r db v where auth: "Authorize approving_gateway (None :: unit card_tokens option) sample_ids 5
      (sample_authorize ?splits) (sample_pay_db, ()) = (Inr r, db, v)"
    and db: "\<exists>p. db_payments db = [p] \<and> p_ID p = ''p1'' \<and> p_MerchantID p = ''m1'' \<and> p_OrderID p = ''o1'' \<and> p_Status p = Authorized
         \<and> p_Amount p = 500" "db_ledger db = empty_ledger" "map s_Amount (db_splits db) = [2 ^ 63 - 1, 2 ^ 63 - 1, 2]"
       "map s_PaymentID (db_splits db) = [''p1'', ''p1'', ''p1'']"
    by (simp add: service_eval)
  moreover have "\<exists>r' db'. CaptureForMerchant (''t1'', ''e3'', ''e4'') 7 ''m1'' ''p1'' 500 db = Inr (r', db')
     \<and> balance_where (\<lambda>e. le_MerchantID e = ''m1'' \<and> le_AccountCode e = ''MERCHANT_PAYABLE'') (db_ledger db') = - (490 + 2 ^ 64)"
  proof -
    obtain p where p: "db_payments db = [p]" "p_ID p = ''p1''" "p_MerchantID p = ''m1''" "p_Status p = Authorized" "p_Amount p = 500"
      using db(1) by blast
    obtain s1 s2 s3 where "db_splits db = [s1, s2, s3]" using db(3) by (auto simp: map_eq_Cons_conv)
    then have "split_sum (listPaymentSplits ''p1'' db) = 2 ^ 64"
      using db(3,4) by (simp add: split_sum_def listPaymentSplits_def sum_where_sort_key)
    from capture_overflow [OF this] obtain es where es: "capture_entries 500 (listPaymentSplits ''p1'' db) = Inr es"
      "ValidateEntries es = Inr ()" "list_all entry_ok es" "debits es = 500"
      "sum_where (\<lambda>e. e_AccountCode e = ''MERCHANT_PAYABLE'') (\<lambda>e. e_DebitAmount e - e_CreditAmount e) es = - (490 + 2 ^ 64)"
      by blast
    have "i64 (debits es) = i64 (credits es)" using es(2) by (simp only: ValidateEntries_wrap_iff i64_eq_iff)
    then obtain l where l: "CreateEntriesTx ''t1'' ''m1'' ''payment'' ''p1'' ''payment capture'' es (db_ledger db) = Inr l"
      using es(2,3,4) db(2) by (simp add: CreateEntriesTx_Inr InsertTransaction_Inr empty_ledger_def in64_def)
    then have "balance_where (\<lambda>e. le_MerchantID e = ''m1'' \<and> le_AccountCode e = ''MERCHANT_PAYABLE'') l = - (490 + 2 ^ 64)"
      using balance_where_post [of _ _ _ _ _ _ "db_ledger db" l] es(5) db(2)
      by (auto simp: CreateEntriesTx_Inr entry_row_def balance_where_def empty_ledger_def)
    then show ?thesis
      using p es(1) l by (simp add: CaptureForMerchant_def CaptureAuthorizedPayment_def lock_payment_def pay_at_def commit_get_def
          GetPayment_def db_simps capture_payment_def)
  qed
  ultimately show ?thesis by blast
qed

end
