(* ===== verification/Settlement.thy ===== *)
theory Settlement
  imports Capture
begin

text \<open>
  Settlement (\<open>internal/settlement\<close>): the batches that pay out captured payments, with their items,
  their ledger posting and the reserve held back under the merchant's policy
  (\<open>internal/merchant/compliance.go\<close>), holds on a settlement, rollback marks, preferences and
  adjustments, and the daily run of \<open>cmd/settlement-service\<close>. \<open>locked\<close> lists the payments whose rows
  another transaction holds, which \<open>FOR UPDATE SKIP LOCKED\<close> leaves out. The empty string stands for
  NULL in \<open>hold_reason\<close> and \<open>rollback_reason\<close>. \<open>wired\<close> says whether a reserve policy resolver was
  set on the repository.
\<close>

section \<open>Domain\<close>

datatype settlement_state = SttlCreated | SttlProcessing | SttlProcessed | SttlFailed

datatype settlement_event = SttlProcess | SttlComplete | SttlFail

datatype settlement_error =
    ErrSettlementNotFound
  | ErrSttlInvalidTransition
  | ErrNoEligiblePayments
  | ErrSettlementOnHold
  | ErrSettlementNotOnHold
  | ErrInvalidReservePolicy
  | ErrSttlConstraint
  | ErrSttlScan
  | SttlLedger ledger_error

definition SettlementTransition :: "settlement_state \<Rightarrow> settlement_event \<Rightarrow> settlement_error + settlement_state" where
  "SettlementTransition from ev =
     (case (from, ev) of
        (SttlCreated, SttlProcess) \<Rightarrow> Inr SttlProcessing
      | (SttlProcessing, SttlComplete) \<Rightarrow> Inr SttlProcessed
      | (SttlProcessing, SttlFail) \<Rightarrow> Inr SttlFailed
      | _ \<Rightarrow> Inl ErrSttlInvalidTransition)"

definition settlement_rank :: "settlement_state \<Rightarrow> nat" where
  "settlement_rank s = (case s of SttlCreated \<Rightarrow> 0 | SttlProcessing \<Rightarrow> 1 | _ \<Rightarrow> 2)"

interpretation sm: ranked_machine SettlementTransition settlement_rank 2
  by unfold_locales
     (auto simp: SettlementTransition_def settlement_rank_def split: settlement_state.splits settlement_event.splits)

definition CalculateFee :: "int \<Rightarrow> int" where
  "CalculateFee amount = quot64 (i64 (amount * 2)) 100"

definition CalculateNet :: "int \<Rightarrow> int \<Rightarrow> int \<Rightarrow> int" where
  "CalculateNet amount fee refunds = i64 (i64 (amount - fee) - refunds)"

definition CalculateRefundFeeReversal :: "int \<Rightarrow> int \<Rightarrow> int \<Rightarrow> int" where
  "CalculateRefundFeeReversal paymentAmount paymentFee refundedAmount =
     (if paymentAmount \<le> 0 \<or> paymentFee \<le> 0 \<or> refundedAmount \<le> 0 then 0
      else if refundedAmount \<ge> paymentAmount then paymentFee
      else let reversed = quot64 (i64 (paymentFee * refundedAmount)) paymentAmount in
           if reversed > paymentFee then paymentFee else reversed)"

definition CalculateRefundNetImpact :: "int \<Rightarrow> int \<Rightarrow> int \<Rightarrow> int" where
  "CalculateRefundNetImpact paymentAmount paymentFee refundedAmount =
     i64 (refundedAmount - CalculateRefundFeeReversal paymentAmount paymentFee refundedAmount)"

section \<open>Reserve policies\<close>

record reserve_policy =
  rp_ID :: id
  rp_MerchantID :: id
  rp_PolicyType :: string
  rp_PercentageBPS :: int
  rp_HoldDays :: int
  rp_ThresholdAmount :: int
  rp_Notes :: string

definition DefaultReservePolicy :: "id \<Rightarrow> reserve_policy" where
  "DefaultReservePolicy merchantID =
     \<lparr>rp_ID = '''', rp_MerchantID = merchantID, rp_PolicyType = ''none'', rp_PercentageBPS = 0,
      rp_HoldDays = 0, rp_ThresholdAmount = 0, rp_Notes = ''''\<rparr>"

definition ValidatePolicy :: "reserve_policy \<Rightarrow> settlement_error + unit" where
  "ValidatePolicy p =
     (if rp_PolicyType p = ''none'' then
        (if rp_PercentageBPS p \<noteq> 0 \<or> rp_HoldDays p \<noteq> 0 \<or> rp_ThresholdAmount p < 0
         then Inl ErrInvalidReservePolicy else Inr ())
      else if rp_PolicyType p = ''fixed_percentage'' \<or> rp_PolicyType p = ''rolling_percentage'' then
        (if rp_PercentageBPS p < 0 \<or> rp_PercentageBPS p > 10000 \<or> rp_HoldDays p < 0 \<or> rp_ThresholdAmount p < 0
         then Inl ErrInvalidReservePolicy else Inr ())
      else Inl ErrInvalidReservePolicy)"

definition CalculateReserve :: "reserve_policy \<Rightarrow> int \<Rightarrow> int" where
  "CalculateReserve p netAmount =
     (if netAmount \<le> 0 then 0
      else if rp_ThresholdAmount p > 0 \<and> netAmount < rp_ThresholdAmount p then 0
      else if rp_PolicyType p = ''fixed_percentage'' \<or> rp_PolicyType p = ''rolling_percentage''
      then quot64 (i64 (netAmount * rp_PercentageBPS p)) 10000
      else 0)"

section \<open>Tables\<close>

record settlement =
  st_ID :: id
  st_MerchantID :: id
  st_Status :: settlement_state
  st_PeriodStart :: time
  st_PeriodEnd :: time
  st_TotalAmount :: int
  st_TotalFees :: int
  st_TotalRefunds :: int
  st_GrossNetAmount :: int
  st_ReserveAmount :: int
  st_NetAmount :: int
  st_PaymentCount :: nat
  st_Currency :: string
  st_ProcessedAt :: "time option"
  st_CreatedAt :: time
  st_OnHold :: bool
  st_HoldReason :: string
  st_HeldAt :: "time option"
  st_ReleasedAt :: "time option"
  st_RollbackMarkedAt :: "time option"
  st_RollbackReason :: string

record settlement_item =
  it_ID :: id
  it_SettlementID :: id
  it_PaymentID :: id
  it_MerchantID :: id
  it_Amount :: int
  it_Fee :: int
  it_Refunds :: int
  it_Net :: int
  it_Currency :: string
  it_CreatedAt :: time

record reserve_release =
  rr_ID :: id
  rr_MerchantID :: id
  rr_SettlementID :: id
  rr_Amount :: int
  rr_ReleaseAt :: time
  rr_Status :: string

record adjustment =
  aj_ID :: id
  aj_MerchantID :: id
  aj_SettlementID :: id
  aj_PaymentID :: id
  aj_RefundID :: id
  aj_AdjustmentType :: string
  aj_Amount :: int
  aj_Currency :: string
  aj_Reason :: string
  aj_CreatedAt :: time

record preferences =
  pf_MerchantID :: id
  pf_ScheduleType :: string
  pf_WeeklyDayOfWeek :: "int option"
  pf_PayoutMinimum :: int
  pf_ApprovalThresholdAmount :: int
  pf_WeekendPolicy :: string
  pf_AutoPayout :: bool

record settlement_db = payment_db +
  db_settlements :: "settlement list"
  db_items :: "settlement_item list"
  db_releases :: "reserve_release list"
  db_adjustments :: "adjustment list"
  db_preferences :: "preferences list"
  db_policies :: "reserve_policy list"

section \<open>Policies of the merchant\<close>

definition GetReservePolicy :: "id \<Rightarrow> 'a settlement_db_scheme \<Rightarrow> reserve_policy" where
  "GetReservePolicy merchantID db =
     (case find (\<lambda>p. rp_MerchantID p = merchantID) (db_policies db) of
        None \<Rightarrow> DefaultReservePolicy merchantID | Some p \<Rightarrow> p)"

text \<open>The validation of the service and the upsert of the repository; its audit event is not kept.\<close>

definition UpsertReservePolicy ::
  "id \<Rightarrow> reserve_policy \<Rightarrow> 'a settlement_db_scheme \<Rightarrow> settlement_error + reserve_policy \<times> 'a settlement_db_scheme" where
  "UpsertReservePolicy newid inp db =
     (let p = inp\<lparr>rp_ID := '''', rp_Notes := TrimSpace (rp_Notes inp)\<rparr> in
      bindR (ValidatePolicy p) (\<lambda>_.
        case find (\<lambda>q. rp_MerchantID q = rp_MerchantID p) (db_policies db) of
          Some old \<Rightarrow>
            let new = p\<lparr>rp_ID := rp_ID old\<rparr> in
            Inr (new, db\<lparr>db_policies := upd_where (\<lambda>q. rp_MerchantID q = rp_MerchantID p) (\<lambda>q. new) (db_policies db)\<rparr>)
        | None \<Rightarrow>
            let new = p\<lparr>rp_ID := newid\<rparr> in
            (case insert_pk rp_ID new (db_policies db) of
               None \<Rightarrow> Inl ErrSttlConstraint
             | Some rows \<Rightarrow> Inr (new, db\<lparr>db_policies := rows\<rparr>))))"

definition calculateReserveAmount :: "bool \<Rightarrow> id \<Rightarrow> int \<Rightarrow> 'a settlement_db_scheme \<Rightarrow> int" where
  "calculateReserveAmount wired merchantID grossNetAmount db =
     (if \<not> wired \<or> grossNetAmount \<le> 0 then 0
      else CalculateReserve (GetReservePolicy merchantID db) grossNetAmount)"

definition reserveHoldDays :: "bool \<Rightarrow> id \<Rightarrow> 'a settlement_db_scheme \<Rightarrow> int" where
  "reserveHoldDays wired merchantID db = (if \<not> wired then 0 else rp_HoldDays (GetReservePolicy merchantID db))"

section \<open>Batches\<close>

definition settlementEntries :: "int \<Rightarrow> int \<Rightarrow> int \<Rightarrow> entry list" where
  "settlementEntries grossNetAmount reserveAmount payoutAmount =
     [ledger_line ''MERCHANT_PAYABLE'' grossNetAmount 0 ''merchant payout on settlement'']
     @ (if payoutAmount > 0 then [ledger_line ''SETTLEMENT_CLEARING'' 0 payoutAmount ''settlement clearing''] else [])
     @ (if reserveAmount > 0 then [ledger_line ''MERCHANT_RESERVE_HELD'' 0 reserveAmount ''merchant reserve hold''] else [])"

definition refund_impact :: "payment \<Rightarrow> int" where
  "refund_impact p = CalculateRefundNetImpact (p_Amount p) (p_Fee p) (p_AmountRefunded p)"

text \<open>The aggregation loop over the eligible payments.\<close>

fun batch_totals :: "int \<times> int \<times> int \<Rightarrow> payment list \<Rightarrow> int \<times> int \<times> int" where
  "batch_totals acc [] = acc"
| "batch_totals (amt, fees, refunds) (p # ps) =
     batch_totals (i64 (amt + p_Amount p), i64 (fees + p_Fee p), i64 (refunds + refund_impact p)) ps"

record batch_ids =
  bi_Settlement :: id
  bi_Item :: "nat \<Rightarrow> id"
  bi_Txn :: id
  bi_Release :: id
  bi_Event :: id

definition item_of :: "batch_ids \<Rightarrow> time \<Rightarrow> id \<Rightarrow> nat \<Rightarrow> payment \<Rightarrow> settlement_item" where
  "item_of ids now merchantID i p =
     \<lparr>it_ID = bi_Item ids i, it_SettlementID = bi_Settlement ids, it_PaymentID = p_ID p, it_MerchantID = merchantID,
      it_Amount = p_Amount p, it_Fee = p_Fee p, it_Refunds = p_AmountRefunded p,
      it_Net = CalculateNet (p_Amount p) (p_Fee p) (refund_impact p), it_Currency = p_Currency p, it_CreatedAt = now\<rparr>"

text \<open>The inserts of the items, under the primary key and the unique index on the payment.\<close>

fun insert_items ::
  "batch_ids \<Rightarrow> time \<Rightarrow> id \<Rightarrow> nat \<Rightarrow> payment list \<Rightarrow> settlement_item list \<Rightarrow> settlement_error + settlement_item list" where
  "insert_items ids now merchantID i [] rows = Inr rows"
| "insert_items ids now merchantID i (p # ps) rows =
     (let it = item_of ids now merchantID i p in
      if it_ID it \<in> it_ID ` set rows \<or> it_PaymentID it \<in> it_PaymentID ` set rows then Inl ErrSttlConstraint
      else insert_items ids now merchantID (Suc i) ps (rows @ [it]))"

definition days :: "int \<Rightarrow> time" where
  "days n = seconds (n * 24 * 3600)"

definition settlement_at :: "id \<Rightarrow> id \<Rightarrow> settlement \<Rightarrow> bool" where
  "settlement_at merchantID settlementID s \<longleftrightarrow> st_ID s = settlementID \<and> st_MerchantID s = merchantID"

definition GetSettlement :: "id \<Rightarrow> id \<Rightarrow> 'a settlement_db_scheme \<Rightarrow> settlement_error + settlement" where
  "GetSettlement merchantID settlementID db =
     (case find (settlement_at merchantID settlementID) (db_settlements db) of
        None \<Rightarrow> Inl ErrSettlementNotFound | Some s \<Rightarrow> Inr s)"

definition new_settlement ::
  "batch_ids \<Rightarrow> time \<Rightarrow> id \<Rightarrow> time \<times> time \<Rightarrow> int \<times> int \<times> int \<Rightarrow> int \<Rightarrow> int \<Rightarrow> int \<Rightarrow> payment list \<Rightarrow> settlement" where
  "new_settlement ids now merchantID period totals gross reserve net payments =
     \<lparr>st_ID = bi_Settlement ids, st_MerchantID = merchantID, st_Status = SttlProcessed,
      st_PeriodStart = fst period, st_PeriodEnd = snd period, st_TotalAmount = fst totals,
      st_TotalFees = fst (snd totals), st_TotalRefunds = snd (snd totals), st_GrossNetAmount = gross,
      st_ReserveAmount = reserve, st_NetAmount = net, st_PaymentCount = length payments,
      st_Currency = p_Currency (hd payments), st_ProcessedAt = Some now, st_CreatedAt = now, st_OnHold = False,
      st_HoldReason = '''', st_HeldAt = None, st_ReleasedAt = None, st_RollbackMarkedAt = None, st_RollbackReason = ''''\<rparr>"

definition settle_payment :: "id \<Rightarrow> payment \<Rightarrow> payment" where
  "settle_payment settlementID p = p\<lparr>p_Settled := True, p_SettlementID := settlementID\<rparr>"

definition batch_event :: "batch_ids \<Rightarrow> id \<Rightarrow> int \<Rightarrow> int \<Rightarrow> payment list \<Rightarrow> payload \<Rightarrow> outbox_event" where
  "batch_event ids merchantID net reserve payments extra =
     pay_event ''settlement'' (bi_Settlement ids) ''settlement.processed'' merchantID
       ([(''settlement_id'', PStr (bi_Settlement ids)), (''net_amount'', PInt net), (''reserve_amount'', PInt reserve),
         (''payment_count'', PInt (int (length payments))), (''currency'', PStr (p_Currency (hd payments)))] @ extra)"

text \<open>The scheduled release of a positive reserve.\<close>

definition schedule_release ::
  "bool \<Rightarrow> batch_ids \<Rightarrow> time \<Rightarrow> id \<Rightarrow> int \<Rightarrow> 'a settlement_db_scheme \<Rightarrow> settlement_error + reserve_release list" where
  "schedule_release wired ids now merchantID reserve db =
     (if reserve > 0 then
        (let r = \<lparr>rr_ID = bi_Release ids, rr_MerchantID = merchantID, rr_SettlementID = bi_Settlement ids,
                  rr_Amount = reserve, rr_ReleaseAt = now + days (reserveHoldDays wired merchantID db),
                  rr_Status = ''scheduled''\<rparr> in
         case insert_pk rr_ID r (db_releases db) of None \<Rightarrow> Inl ErrSttlConstraint | Some rows \<Rightarrow> Inr rows)
      else Inr (db_releases db))"

text \<open>
  What both batch operations do with the payments they selected: totals, settlement, items, ledger,
  release, marks and event, in one transaction; then the settlement is read back.
\<close>

definition settle_batch ::
  "bool \<Rightarrow> batch_ids \<Rightarrow> time \<Rightarrow> id \<Rightarrow> time \<times> time \<Rightarrow> string \<Rightarrow> payload \<Rightarrow> payment list
     \<Rightarrow> 'a settlement_db_scheme \<Rightarrow> settlement_error + settlement \<times> 'a settlement_db_scheme" where
  "settle_batch wired ids now merchantID period descr extra payments db =
     (let totals = batch_totals (0, 0, 0) payments;
          gross = CalculateNet (fst totals) (fst (snd totals)) (snd (snd totals));
          reserve = calculateReserveAmount wired merchantID gross db;
          net = i64 (gross - reserve);
          s = new_settlement ids now merchantID period totals gross reserve net payments in
      case insert_pk st_ID s (db_settlements db) of
        None \<Rightarrow> Inl ErrSttlConstraint
      | Some sttls \<Rightarrow>
          bindR (insert_items ids now merchantID 0 payments (db_items db)) (\<lambda>items.
          bindR (mapL SttlLedger (CreateEntriesTx (bi_Txn ids) merchantID ''settlement'' (bi_Settlement ids) descr
                   (settlementEntries gross reserve net) (db_ledger db))) (\<lambda>ledger.
          bindR (schedule_release wired ids now merchantID reserve db) (\<lambda>releases.
            let db' = emit (bi_Event ids) now (batch_event ids merchantID net reserve payments extra)
                  (db\<lparr>db_settlements := sttls, db_items := items, db_ledger := ledger, db_releases := releases,
                      db_payments := upd_where (\<lambda>p. p_ID p \<in> p_ID ` set payments) (settle_payment (bi_Settlement ids))
                        (db_payments db)\<rparr>) in
            bindR (GetSettlement merchantID (bi_Settlement ids) db') (\<lambda>r. Inr (r, db'))))))"

definition captured_between :: "time \<Rightarrow> time \<Rightarrow> payment \<Rightarrow> bool" where
  "captured_between periodStart periodEnd p \<longleftrightarrow>
     (case p_CapturedAt p of None \<Rightarrow> False | Some t \<Rightarrow> periodStart \<le> t \<and> t < periodEnd)"

definition settleable :: "id list \<Rightarrow> id \<Rightarrow> payment \<Rightarrow> bool" where
  "settleable locked merchantID p \<longleftrightarrow>
     p_MerchantID p = merchantID \<and> p_Status p = Captured \<and> \<not> p_Settled p \<and> p_ID p \<notin> set locked"

definition RunBatch ::
  "bool \<Rightarrow> id list \<Rightarrow> batch_ids \<Rightarrow> time \<Rightarrow> id \<Rightarrow> time \<Rightarrow> time
     \<Rightarrow> 'a settlement_db_scheme \<Rightarrow> settlement_error + settlement \<times> 'a settlement_db_scheme" where
  "RunBatch wired locked ids now merchantID periodStart periodEnd db =
     (let payments = filter (\<lambda>p. settleable locked merchantID p \<and> captured_between periodStart periodEnd p) (db_payments db) in
      if payments = [] then Inl ErrNoEligiblePayments
      else settle_batch wired ids now merchantID (periodStart, periodEnd)
             (''settlement batch '' @ bi_Settlement ids) [] payments db)"

text \<open>The period of a partial batch comes from all the payments named, eligible or not.\<close>

definition RunPartialBatch ::
  "bool \<Rightarrow> id list \<Rightarrow> batch_ids \<Rightarrow> time \<Rightarrow> id \<Rightarrow> id list
     \<Rightarrow> 'a settlement_db_scheme \<Rightarrow> settlement_error + settlement \<times> 'a settlement_db_scheme" where
  "RunPartialBatch wired locked ids now merchantID paymentIDs db =
     (let payments = filter (\<lambda>p. settleable locked merchantID p \<and> p_ID p \<in> set paymentIDs) (db_payments db);
          times = List.map_filter p_CapturedAt (filter (\<lambda>p. p_ID p \<in> set paymentIDs) (db_payments db)) in
      if payments = [] then Inl ErrNoEligiblePayments
      else if times = [] then Inl ErrSttlScan
      else settle_batch wired ids now merchantID (Min (set times), Max (set times))
             (''partial settlement batch '' @ bi_Settlement ids) [(''partial'', PBool True)] payments db)"

definition RunPartialBatchService ::
  "bool \<Rightarrow> id list \<Rightarrow> batch_ids \<Rightarrow> time \<Rightarrow> id \<Rightarrow> id list
     \<Rightarrow> 'a settlement_db_scheme \<Rightarrow> settlement_error + settlement \<times> 'a settlement_db_scheme" where
  "RunPartialBatchService wired locked ids now merchantID paymentIDs db =
     (if paymentIDs = [] then Inl ErrNoEligiblePayments
      else RunPartialBatch wired locked ids now merchantID paymentIDs db)"

text \<open>
  The daily run: every active merchant in turn, from the epoch to now. The service of this binary
  sets no policy resolver. \<open>ids i\<close> are the identifiers drawn for the merchant at position \<open>i\<close>.
\<close>

fun runBatchAllMerchants ::
  "id list \<Rightarrow> (nat \<Rightarrow> batch_ids) \<Rightarrow> time \<Rightarrow> nat \<Rightarrow> id list \<Rightarrow> 'a settlement_db_scheme \<Rightarrow> 'a settlement_db_scheme" where
  "runBatchAllMerchants locked ids now i [] db = db"
| "runBatchAllMerchants locked ids now i (m # ms) db =
     runBatchAllMerchants locked ids now (Suc i) ms
       (case RunBatch False locked (ids i) now m 0 now db of Inl _ \<Rightarrow> db | Inr (_, db') \<Rightarrow> db')"

section \<open>Reading and marking settlements\<close>

definition ListSettlements :: "id \<Rightarrow> 'a settlement_db_scheme \<Rightarrow> settlement list" where
  "ListSettlements merchantID db =
     take 100 (sort_key (\<lambda>s. - st_CreatedAt s) (filter (\<lambda>s. st_MerchantID s = merchantID) (db_settlements db)))"

definition GetSettlementItems :: "id \<Rightarrow> 'a settlement_db_scheme \<Rightarrow> (settlement_item \<times> payment_split list) list" where
  "GetSettlementItems settlementID db =
     map (\<lambda>it. (it, listPaymentSplits (it_PaymentID it) db))
       (sort_key it_CreatedAt (filter (\<lambda>it. it_SettlementID it = settlementID) (db_items db)))"

definition GetItems :: "id \<Rightarrow> id \<Rightarrow> 'a settlement_db_scheme \<Rightarrow> settlement_error + settlement \<times> (settlement_item \<times> payment_split list) list" where
  "GetItems merchantID settlementID db =
     bindR (GetSettlement merchantID settlementID db) (\<lambda>s. Inr (s, GetSettlementItems settlementID db))"

definition set_settlement :: "(settlement \<Rightarrow> bool) \<Rightarrow> (settlement \<Rightarrow> settlement) \<Rightarrow> 'a settlement_db_scheme \<Rightarrow> 'a settlement_db_scheme" where
  "set_settlement q f db = db\<lparr>db_settlements := upd_where q f (db_settlements db)\<rparr>"

definition HoldSettlement ::
  "time \<Rightarrow> id \<Rightarrow> id \<Rightarrow> string \<Rightarrow> 'a settlement_db_scheme \<Rightarrow> settlement_error + 'a settlement_db_scheme" where
  "HoldSettlement now merchantID settlementID reason db =
     (let q = (\<lambda>s. settlement_at merchantID settlementID s \<and> \<not> st_OnHold s) in
      if filter q (db_settlements db) = [] then Inl ErrSettlementOnHold
      else Inr (set_settlement q (\<lambda>s. s\<lparr>st_OnHold := True, st_HoldReason := reason, st_HeldAt := Some now\<rparr>) db))"

definition ReleaseSettlement ::
  "time \<Rightarrow> id \<Rightarrow> id \<Rightarrow> 'a settlement_db_scheme \<Rightarrow> settlement_error + 'a settlement_db_scheme" where
  "ReleaseSettlement now merchantID settlementID db =
     (let q = (\<lambda>s. settlement_at merchantID settlementID s \<and> st_OnHold s) in
      if filter q (db_settlements db) = [] then Inl ErrSettlementNotOnHold
      else Inr (set_settlement q (\<lambda>s. s\<lparr>st_OnHold := False, st_HoldReason := '''', st_ReleasedAt := Some now\<rparr>) db))"

definition held_since :: "time \<Rightarrow> settlement \<Rightarrow> time option" where
  "held_since now s = (case st_HeldAt s of None \<Rightarrow> Some now | Some t \<Rightarrow> Some t)"

definition MarkRollback ::
  "id \<Rightarrow> time \<Rightarrow> id \<Rightarrow> id \<Rightarrow> string \<Rightarrow> 'a settlement_db_scheme \<Rightarrow> settlement_error + settlement \<times> 'a settlement_db_scheme" where
  "MarkRollback evtID now merchantID settlementID reason db =
     bindR (GetSettlement merchantID settlementID db) (\<lambda>s.
       if st_RollbackMarkedAt s \<noteq> None then Inr (s, db)
       else
       let hold = (if st_HoldReason s \<noteq> '''' then st_HoldReason s
                   else if reason \<noteq> '''' then ''rollback marker: '' @ reason else ''rollback marker'');
           db' = emit evtID now (pay_event ''settlement'' settlementID ''settlement.rollback_marked'' merchantID
                   [(''settlement_id'', PStr settlementID), (''reason'', PStr reason)])
                 (set_settlement (settlement_at merchantID settlementID)
                   (\<lambda>s. s\<lparr>st_RollbackMarkedAt := Some now, st_RollbackReason := reason, st_OnHold := True,
                           st_HoldReason := hold, st_HeldAt := held_since now s\<rparr>) db) in
       bindR (GetSettlement merchantID settlementID db') (\<lambda>r. Inr (r, db')))"

section \<open>Preferences and adjustments\<close>

definition DefaultPreferences :: "id \<Rightarrow> preferences" where
  "DefaultPreferences merchantID =
     \<lparr>pf_MerchantID = merchantID, pf_ScheduleType = ''manual'', pf_WeeklyDayOfWeek = None, pf_PayoutMinimum = 0,
      pf_ApprovalThresholdAmount = 0, pf_WeekendPolicy = ''next_business_day'', pf_AutoPayout = False\<rparr>"

definition GetPreferences :: "id \<Rightarrow> 'a settlement_db_scheme \<Rightarrow> preferences" where
  "GetPreferences merchantID db =
     (case find (\<lambda>p. pf_MerchantID p = merchantID) (db_preferences db) of
        None \<Rightarrow> DefaultPreferences merchantID | Some p \<Rightarrow> p)"

text \<open>The CHECK constraints of the table refuse what the operation itself does not look at.\<close>

definition preferences_ok :: "preferences \<Rightarrow> bool" where
  "preferences_ok p \<longleftrightarrow> pf_ScheduleType p \<in> {''daily'', ''weekly'', ''manual''}
     \<and> (case pf_WeeklyDayOfWeek p of None \<Rightarrow> True | Some d \<Rightarrow> 0 \<le> d \<and> d \<le> 6)
     \<and> 0 \<le> pf_PayoutMinimum p \<and> 0 \<le> pf_ApprovalThresholdAmount p
     \<and> pf_WeekendPolicy p \<in> {''next_business_day'', ''same_day''}"

definition UpsertPreferences ::
  "preferences \<Rightarrow> 'a settlement_db_scheme \<Rightarrow> settlement_error + preferences \<times> 'a settlement_db_scheme" where
  "UpsertPreferences p db =
     (if \<not> preferences_ok p then Inl ErrSttlConstraint
      else if pf_MerchantID p \<in> pf_MerchantID ` set (db_preferences db)
      then Inr (p, db\<lparr>db_preferences := upd_where (\<lambda>q. pf_MerchantID q = pf_MerchantID p) (\<lambda>q. p) (db_preferences db)\<rparr>)
      else Inr (p, db\<lparr>db_preferences := db_preferences db @ [p]\<rparr>))"

definition ListAdjustments :: "id \<Rightarrow> id \<Rightarrow> 'a settlement_db_scheme \<Rightarrow> adjustment list" where
  "ListAdjustments merchantID settlementID db =
     sort_key (\<lambda>a. - aj_CreatedAt a)
       (filter (\<lambda>a. aj_MerchantID a = merchantID \<and> aj_SettlementID a = settlementID) (db_adjustments db))"

definition RecordAdjustment ::
  "adjustment \<Rightarrow> 'a settlement_db_scheme \<Rightarrow> settlement_error + 'a settlement_db_scheme" where
  "RecordAdjustment a db =
     (if aj_SettlementID a \<notin> st_ID ` set (db_settlements db)
         \<or> aj_AdjustmentType a \<notin> {''refund_processed'', ''refund_reversed''} then Inl ErrSttlConstraint
      else case insert_pk aj_ID a (db_adjustments db) of
             None \<Rightarrow> Inl ErrSttlConstraint
           | Some rows \<Rightarrow> Inr (db\<lparr>db_adjustments := rows\<rparr>))"

section \<open>The fee given back on a refund\<close>

text \<open>What the reversal computes when the product of the fee and the refund fits an int64.\<close>

lemma fee_reversal_eq:
  assumes a: "0 < a" and f: "0 \<le> f" "f * a < 2 ^ 63" and r: "0 \<le> r" "r \<le> a"
  shows "CalculateRefundFeeReversal a f r = f * r div a"
proof (cases "f = 0 \<or> r = 0 \<or> r = a")
  case True
  then show ?thesis using a f r by (auto simp: CalculateRefundFeeReversal_def)
next
  case False
  have le: "f * r \<le> f * a" using f r by (simp add: mult_left_mono)
  have "0 \<le> f * r" using f r by simp
  then have "in64 (f * r)" using le f by (simp add: in64_def)
  moreover have "f * r div a \<le> f * a div a" using le a by (rule zdiv_mono1)
  ultimately show ?thesis
    using False a f r by (auto simp: CalculateRefundFeeReversal_def quot64_nonneg Let_def)
qed

lemma fee_reversal_bounds:
  assumes "0 < a" "0 \<le> f" "f * a < 2 ^ 63" "0 \<le> r" "r \<le> a"
  shows "0 \<le> CalculateRefundFeeReversal a f r" "CalculateRefundFeeReversal a f r \<le> f"
    and "f \<le> a \<Longrightarrow> CalculateRefundFeeReversal a f r \<le> r"
proof -
  have le: "f * r \<le> f * a" using assms by (simp add: mult_left_mono)
  have "f * r div a \<le> f * a div a" using le assms(1) by (rule zdiv_mono1)
  then show "CalculateRefundFeeReversal a f r \<le> f" using assms(1) by (simp add: fee_reversal_eq [OF assms])
  show "0 \<le> CalculateRefundFeeReversal a f r"
    using assms by (simp add: fee_reversal_eq [OF assms] pos_imp_zdiv_nonneg_iff)
  assume "f \<le> a"
  then have "f * r \<le> r * a" using assms by (simp add: mult.commute mult_right_mono)
  then have "f * r div a \<le> r * a div a" using assms(1) by (rule zdiv_mono1)
  then show "CalculateRefundFeeReversal a f r \<le> r" using assms(1) by (simp add: fee_reversal_eq [OF assms])
qed

lemma fee_reversal_mono:
  assumes "0 < a" "0 \<le> f" "f * a < 2 ^ 63" "0 \<le> r" "r \<le> s" "s \<le> a"
  shows "CalculateRefundFeeReversal a f r \<le> CalculateRefundFeeReversal a f s"
  using assms by (simp add: fee_reversal_eq mult_left_mono zdiv_mono1)

text \<open>A refund takes no more from the merchant than it gives the customer.\<close>

lemma fee_reversal_growth:
  assumes "0 < a" "0 \<le> f" "f \<le> a" "f * a < 2 ^ 63" "0 \<le> r" "r \<le> s" "s \<le> a"
  shows "CalculateRefundFeeReversal a f s - CalculateRefundFeeReversal a f r \<le> s - r"
proof -
  have "f * s = f * r + f * (s - r)" by (simp add: algebra_simps)
  also have "\<dots> \<le> f * r + (s - r) * a" using assms by (simp add: mult.commute mult_right_mono)
  finally have "f * s div a \<le> (f * r + (s - r) * a) div a" using assms(1) by (rule zdiv_mono1)
  then show ?thesis using assms by (simp add: fee_reversal_eq)
qed

section \<open>What a batch adds up to\<close>

definition account_balance :: "id \<Rightarrow> string \<Rightarrow> ledger_db \<Rightarrow> int" where
  "account_balance m acct l = balance_where (\<lambda>e. le_MerchantID e = m \<and> le_AccountCode e = acct) l"

definition entries_on :: "string \<Rightarrow> entry list \<Rightarrow> int" where
  "entries_on acct es = sum_where (\<lambda>e. e_AccountCode e = acct) (\<lambda>e. e_DebitAmount e - e_CreditAmount e) es"

lemma account_balance_post:
  assumes "CreateEntriesTx t m st sid desc es l = Inr l'"
  shows "account_balance m' acct l' = account_balance m' acct l + (if m' = m then entries_on acct es else 0)"
proof -
  have ins: "InsertTransactionWithEntriesTx t m st sid desc es l = Inr l'" using assms by (simp add: CreateEntriesTx_Inr)
  show ?thesis
    using balance_where_post [OF ins, of "\<lambda>e. le_MerchantID e = m' \<and> le_AccountCode e = acct"]
    by (auto simp: account_balance_def entries_on_def entry_row_def sum_where_none)
qed

text \<open>A captured payment with the fee of its capture, small enough for the fee arithmetic.\<close>

definition money_bound :: int where
  "money_bound = 2 ^ 34"

definition money_ok :: "payment \<Rightarrow> bool" where
  "money_ok p \<longleftrightarrow> 0 < p_Amount p \<and> p_Amount p < money_bound \<and> p_Fee p = p_Amount p * 2 div 100
     \<and> 0 \<le> p_AmountRefunded p \<and> p_AmountRefunded p \<le> p_Amount p"

definition fee_back :: "payment \<Rightarrow> int" where
  "fee_back p = CalculateRefundFeeReversal (p_Amount p) (p_Fee p) (p_AmountRefunded p)"

text \<open>What the merchant is due for a payment: the amount without the fee and the refunds, plus the fee given back.\<close>

definition net_of :: "payment \<Rightarrow> int" where
  "net_of p = p_Amount p - p_Fee p - (p_AmountRefunded p - fee_back p)"

lemma fee_fits:
  assumes "0 < a" "a < money_bound" shows "0 \<le> a * 2 div 100" "a * 2 div 100 \<le> a" "(a * 2 div 100) * a < 2 ^ 63"
proof -
  show f: "0 \<le> a * 2 div 100" "a * 2 div 100 \<le> a" using assms by auto
  let ?x = "(a * 2 div 100) * a"
  have "(a * 2 div 100) * 50 * a \<le> a * a" using assms(1) by (intro mult_right_mono) simp_all
  then have "50 * ?x \<le> a * a" by (simp only: mult.assoc mult.commute mult.left_commute)
  moreover have "a * a < 2 ^ 34 * 2 ^ 34" using assms by (intro mult_strict_mono) (simp_all add: money_bound_def)
  ultimately have "50 * ?x < 2 ^ 34 * 2 ^ 34" by (rule le_less_trans)
  moreover have "2 ^ 34 * 2 ^ 34 < 50 * (2 ^ 63 :: int)" by simp
  ultimately show "?x < 2 ^ 63" by linarith
qed

lemma money_okD:
  assumes "money_ok p"
  shows "0 < p_Amount p" "p_Amount p < money_bound" "0 \<le> p_Fee p" "p_Fee p \<le> p_Amount p" "p_Fee p * p_Amount p < 2 ^ 63"
    "0 \<le> p_AmountRefunded p" "p_AmountRefunded p \<le> p_Amount p"
  using assms fee_fits [of "p_Amount p"] by (simp_all add: money_ok_def)

lemma fee_back_bounds:
  assumes "money_ok p" shows "0 \<le> fee_back p" "fee_back p \<le> p_Fee p" "fee_back p \<le> p_AmountRefunded p"
  using money_okD [OF assms] fee_reversal_bounds [of "p_Amount p" "p_Fee p" "p_AmountRefunded p"]
  by (simp_all add: fee_back_def)

lemma net_of_nonneg: assumes "money_ok p" shows "0 \<le> net_of p"
proof -
  note p = money_okD [OF assms]
  have "CalculateRefundFeeReversal (p_Amount p) (p_Fee p) (p_Amount p) - fee_back p \<le> p_Amount p - p_AmountRefunded p"
    unfolding fee_back_def by (rule fee_reversal_growth) (use p in simp_all)
  moreover have "CalculateRefundFeeReversal (p_Amount p) (p_Fee p) (p_Amount p) = p_Fee p"
    using p by (auto simp: CalculateRefundFeeReversal_def)
  ultimately show ?thesis by (simp add: net_of_def)
qed

lemma net_of_le: "money_ok p \<Longrightarrow> net_of p \<le> p_Amount p"
  using fee_back_bounds [of p] money_okD [of p] by (simp add: net_of_def)

lemma net_of_full_refund: "money_ok p \<Longrightarrow> p_AmountRefunded p = p_Amount p \<Longrightarrow> net_of p = 0"
  using money_okD [of p] by (auto simp: net_of_def fee_back_def CalculateRefundFeeReversal_def)

lemma refund_impact_eq:
  assumes "money_ok p" shows "refund_impact p = p_AmountRefunded p - fee_back p"
proof -
  have "in64 (p_AmountRefunded p - fee_back p)"
    using fee_back_bounds [OF assms] money_okD [OF assms] by (simp add: in64_def money_bound_def)
  then show ?thesis by (simp add: refund_impact_def CalculateRefundNetImpact_def fee_back_def)
qed

lemma item_net_eq:
  assumes "money_ok p" shows "it_Net (item_of ids now m i p) = net_of p"
proof -
  have "in64 (p_Amount p - p_Fee p)" using money_okD [OF assms] by (simp add: in64_def money_bound_def)
  moreover have "in64 (net_of p)"
    using net_of_nonneg [OF assms] net_of_le [OF assms] money_okD [OF assms] by (simp add: in64_def money_bound_def)
  ultimately show ?thesis by (simp add: item_of_def CalculateNet_def net_of_def refund_impact_eq [OF assms])
qed

lemma batch_totals_eq:
  "batch_totals (i64 a, i64 f, i64 r) ps =
     (i64 (a + sum_list (map p_Amount ps)), i64 (f + sum_list (map p_Fee ps)), i64 (r + sum_list (map refund_impact ps)))"
proof (induction ps arbitrary: a f r)
  case (Cons p ps)
  show ?case using Cons.IH [of "a + p_Amount p" "f + p_Fee p" "r + refund_impact p"] by (simp add: add.assoc)
qed simp

definition volume_bound :: int where
  "volume_bound = 2 ^ 49"

text \<open>With the volume below the bound the totals are exact and the gross amount is what the items add up to.\<close>

lemma batch_sums:
  assumes "list_all money_ok ps"
  shows "0 \<le> sum_list (map p_Fee ps)" "sum_list (map p_Fee ps) \<le> sum_list (map p_Amount ps)"
    "0 \<le> sum_list (map refund_impact ps)" "sum_list (map refund_impact ps) \<le> sum_list (map p_Amount ps)"
    "sum_list (map net_of ps) = sum_list (map p_Amount ps) - sum_list (map p_Fee ps) - sum_list (map refund_impact ps)"
    "0 \<le> sum_list (map net_of ps)" "sum_list (map net_of ps) \<le> sum_list (map p_Amount ps)"
proof -
  have "0 \<le> p_Fee p \<and> p_Fee p \<le> p_Amount p \<and> 0 \<le> refund_impact p \<and> refund_impact p \<le> p_Amount p
      \<and> net_of p = p_Amount p - p_Fee p - refund_impact p \<and> 0 \<le> net_of p \<and> net_of p \<le> p_Amount p" if "money_ok p" for p
    using that money_okD [OF that] fee_back_bounds [OF that] refund_impact_eq [OF that] net_of_nonneg [OF that]
      net_of_le [OF that] by (simp add: net_of_def)
  then have "0 \<le> sum_list (map p_Fee ps) \<and> sum_list (map p_Fee ps) \<le> sum_list (map p_Amount ps)
    \<and> 0 \<le> sum_list (map refund_impact ps) \<and> sum_list (map refund_impact ps) \<le> sum_list (map p_Amount ps)
    \<and> sum_list (map net_of ps) = sum_list (map p_Amount ps) - sum_list (map p_Fee ps) - sum_list (map refund_impact ps)
    \<and> 0 \<le> sum_list (map net_of ps) \<and> sum_list (map net_of ps) \<le> sum_list (map p_Amount ps)"
    using assms by (induction ps) force+
  then show "0 \<le> sum_list (map p_Fee ps)" "sum_list (map p_Fee ps) \<le> sum_list (map p_Amount ps)"
    "0 \<le> sum_list (map refund_impact ps)" "sum_list (map refund_impact ps) \<le> sum_list (map p_Amount ps)"
    "sum_list (map net_of ps) = sum_list (map p_Amount ps) - sum_list (map p_Fee ps) - sum_list (map refund_impact ps)"
    "0 \<le> sum_list (map net_of ps)" "sum_list (map net_of ps) \<le> sum_list (map p_Amount ps)"
    by blast+
qed

lemma batch_gross:
  assumes ok: "list_all money_ok ps" and small: "sum_list (map p_Amount ps) < volume_bound"
  defines "t \<equiv> batch_totals (0, 0, 0) ps"
  shows "t = (sum_list (map p_Amount ps), sum_list (map p_Fee ps), sum_list (map refund_impact ps))"
    and "CalculateNet (fst t) (fst (snd t)) (snd (snd t)) = sum_list (map net_of ps)"
proof -
  note s = batch_sums [OF ok] small [unfolded volume_bound_def]
  have fits: "in64 (sum_list (map p_Amount ps))" "in64 (sum_list (map p_Fee ps))" "in64 (sum_list (map refund_impact ps))"
    using s by (simp_all add: in64_def)
  show t: "t = (sum_list (map p_Amount ps), sum_list (map p_Fee ps), sum_list (map refund_impact ps))"
    using batch_totals_eq [of 0 0 0 ps] fits by (simp add: t_def)
  have "in64 (sum_list (map p_Amount ps) - sum_list (map p_Fee ps))" "in64 (sum_list (map net_of ps))"
    using s by (simp_all add: in64_def)
  then show "CalculateNet (fst t) (fst (snd t)) (snd (snd t)) = sum_list (map net_of ps)"
    using s(5) by (simp add: t CalculateNet_def)
qed

section \<open>What a batch does\<close>

definition policies_inv :: "'a settlement_db_scheme \<Rightarrow> bool" where
  "policies_inv db \<longleftrightarrow> (\<forall>p \<in> set (db_policies db). ValidatePolicy p = Inr ())"

lemma default_policy_valid: "ValidatePolicy (DefaultReservePolicy m) = Inr ()"
  by (simp add: ValidatePolicy_def DefaultReservePolicy_def)

lemma GetReservePolicy_valid: "policies_inv db \<Longrightarrow> ValidatePolicy (GetReservePolicy m db) = Inr ()"
  by (auto simp: GetReservePolicy_def policies_inv_def default_policy_valid split: option.splits dest!: find_SomeD)

lemma CalculateReserve_bounds:
  assumes "ValidatePolicy p = Inr ()" "0 \<le> g" "g < volume_bound"
  shows "0 \<le> CalculateReserve p g \<and> CalculateReserve p g \<le> g"
proof (cases "rp_PolicyType p = ''fixed_percentage'' \<or> rp_PolicyType p = ''rolling_percentage''")
  case True
  then have bps: "0 \<le> rp_PercentageBPS p" "rp_PercentageBPS p \<le> 10000"
    using assms(1) by (auto simp: ValidatePolicy_def split: if_split_asm)
  have le: "0 \<le> g * rp_PercentageBPS p" "g * rp_PercentageBPS p \<le> g * 10000"
    using assms(2) bps by (simp_all add: mult_left_mono)
  then have "in64 (g * rp_PercentageBPS p)" using assms(3) by (simp add: in64_def volume_bound_def)
  moreover have "g * rp_PercentageBPS p div 10000 \<le> g * 10000 div 10000" using le(2) by (rule zdiv_mono1) simp
  ultimately show ?thesis
    using assms(2) le by (auto simp: CalculateReserve_def quot64_nonneg pos_imp_zdiv_nonneg_iff)
qed (use assms(2) in \<open>auto simp: CalculateReserve_def\<close>)

lemma reserve_bounds:
  assumes "policies_inv db" "0 \<le> g" "g < volume_bound"
  shows "0 \<le> calculateReserveAmount wired m g db \<and> calculateReserveAmount wired m g db \<le> g"
  using CalculateReserve_bounds [OF GetReservePolicy_valid [OF assms(1)] assms(2,3), of m] assms(2)
  by (auto simp: calculateReserveAmount_def)

lemma settlementEntries_on:
  assumes "0 \<le> reserve" "reserve \<le> gross"
  shows "entries_on acct (settlementEntries gross reserve (gross - reserve)) =
    (if acct = ''MERCHANT_PAYABLE'' then gross else if acct = ''SETTLEMENT_CLEARING'' then - (gross - reserve)
     else if acct = ''MERCHANT_RESERVE_HELD'' then - reserve else 0)"
  using assms by (auto simp: entries_on_def settlementEntries_def ledger_line_def)

lemma item_of_fields [simp]:
  "it_PaymentID (item_of ids now m i p) = p_ID p" "it_SettlementID (item_of ids now m i p) = bi_Settlement ids"
  "it_MerchantID (item_of ids now m i p) = m" "it_Amount (item_of ids now m i p) = p_Amount p"
  by (simp_all add: item_of_def)

definition new_items :: "batch_ids \<Rightarrow> id \<Rightarrow> payment list \<Rightarrow> settlement_item list \<Rightarrow> bool" where
  "new_items ids m ps new \<longleftrightarrow> map it_PaymentID new = map p_ID ps
     \<and> map it_Net new = map (\<lambda>p. CalculateNet (p_Amount p) (p_Fee p) (refund_impact p)) ps
     \<and> (\<forall>it \<in> set new. it_SettlementID it = bi_Settlement ids \<and> it_MerchantID it = m)"

lemma insert_items_Inr:
  assumes "insert_items ids now m i ps rows = Inr rows'"
  shows "\<exists>new. rows' = rows @ new \<and> new_items ids m ps new"
    and "unique_key it_PaymentID rows \<Longrightarrow> unique_key it_PaymentID rows'"
proof -
  have "(\<exists>new. rows' = rows @ new \<and> new_items ids m ps new)
      \<and> (unique_key it_PaymentID rows \<longrightarrow> unique_key it_PaymentID rows')"
    using assms
  proof (induction ps arbitrary: i rows)
    case Nil
    then show ?case by (simp add: new_items_def)
  next
    case (Cons p ps)
    let ?it = "item_of ids now m i p"
    have step: "insert_items ids now m (Suc i) ps (rows @ [?it]) = Inr rows'" "p_ID p \<notin> it_PaymentID ` set rows"
      using Cons.prems by (auto simp: Let_def split: if_split_asm)
    from Cons.IH [OF step(1)] obtain new where new: "rows' = (rows @ [?it]) @ new" "new_items ids m ps new" by blast
    have "new_items ids m (p # ps) (?it # new)" using new(2) by (simp add: new_items_def item_of_def)
    then show ?case using new(1) Cons.IH [OF step(1)] step(2) by auto
  qed
  then show "\<exists>new. rows' = rows @ new \<and> new_items ids m ps new"
    and "unique_key it_PaymentID rows \<Longrightarrow> unique_key it_PaymentID rows'" by blast+
qed

lemma settle_batch_Inr:
  assumes "settle_batch wired ids now m period descr extra ps db = Inr (s, db')"
  obtains totals gross reserve net items where
    "totals = batch_totals (0, 0, 0) ps" "gross = CalculateNet (fst totals) (fst (snd totals)) (snd (snd totals))"
    "reserve = calculateReserveAmount wired m gross db" "net = i64 (gross - reserve)"
    "bi_Settlement ids \<notin> st_ID ` set (db_settlements db)"
    "s = new_settlement ids now m period totals gross reserve net ps"
    "db_settlements db' = db_settlements db @ [s]"
    "insert_items ids now m 0 ps (db_items db) = Inr items" "db_items db' = items"
    "CreateEntriesTx (bi_Txn ids) m ''settlement'' (bi_Settlement ids) descr (settlementEntries gross reserve net) (db_ledger db) = Inr (db_ledger db')"
    "db_payments db' = upd_where (\<lambda>p. p_ID p \<in> p_ID ` set ps) (settle_payment (bi_Settlement ids)) (db_payments db)"
    "db_orders db' = db_orders db" "db_splits db' = db_splits db" "db_adjustments db' = db_adjustments db"
    "db_policies db' = db_policies db" "settlement_db.more db' = settlement_db.more db"
proof -
  let ?t = "batch_totals (0, 0, 0) ps"
  let ?g = "CalculateNet (fst ?t) (fst (snd ?t)) (snd (snd ?t))"
  let ?r = "calculateReserveAmount wired m ?g db"
  let ?n = "i64 (?g - ?r)"
  let ?s = "new_settlement ids now m period ?t ?g ?r ?n ps"
  have fresh: "bi_Settlement ids \<notin> st_ID ` set (db_settlements db)"
    using assms by (auto simp: settle_batch_def Let_def insert_pk_def new_settlement_def split: if_split_asm)
  then have ins: "insert_pk st_ID ?s (db_settlements db) = Some (db_settlements db @ [?s])"
    by (simp add: insert_pk_def new_settlement_def)
  obtain items ledger releases where steps: "insert_items ids now m 0 ps (db_items db) = Inr items"
    "CreateEntriesTx (bi_Txn ids) m ''settlement'' (bi_Settlement ids) descr (settlementEntries ?g ?r ?n) (db_ledger db) = Inr ledger"
    and db': "db' = emit (bi_Event ids) now (batch_event ids m ?n ?r ps extra)
        (db\<lparr>db_settlements := db_settlements db @ [?s], db_items := items, db_ledger := ledger, db_releases := releases,
            db_payments := upd_where (\<lambda>p. p_ID p \<in> p_ID ` set ps) (settle_payment (bi_Settlement ids)) (db_payments db)\<rparr>)"
    and get: "GetSettlement m (bi_Settlement ids) db' = Inr s"
    using assms ins by (auto simp: settle_batch_def Let_def bindR_Inr_iff)
  have "find (settlement_at m (bi_Settlement ids)) (db_settlements db) = None"
    using fresh by (auto simp: find_None_iff settlement_at_def image_iff)
  then have "s = ?s" using get by (simp add: db' GetSettlement_def emit_def find_append settlement_at_def new_settlement_def)
  with steps fresh show thesis by (intro that [OF refl refl refl refl]) (simp_all add: db' emit_def)
qed

end
