(* ===== verification/Refund.thy ===== *)
theory Refund
  imports Settlement
begin

text \<open>
  Refunds (\<open>internal/refund\<close>): a refund reserves its amount on the payment, is processed with a ledger
  posting that gives a share of the fee back, fails, or is reversed; a refund of a settled payment
  writes an adjustment and puts the settlement on hold. The simulated gateway accepts every refund, so
  the service creates and processes in one call. Postgres raises on \<open>bigint\<close> overflow
  (\<open>ErrRefundRange\<close>) where the Go code would wrap.
\<close>

section \<open>Domain\<close>

datatype refund_state = RefundCreated | RefundProcessing | RefundProcessed | RefundReversed | RefundFailed

datatype refund_event = RefundInitiate | RefundSuccess | RefundReverse | RefundFailure

datatype refund_error =
    ErrRefundTransition
  | ErrRefundNotFound
  | ErrRefundPaymentNotFound
  | ErrPaymentNotCaptured
  | ErrRefundAmountExceedsRefundable
  | ErrZeroRefundAmount
  | ErrRefundConstraint
  | ErrRefundRange
  | RefundLedger ledger_error
  | RefundSttl settlement_error

definition RefundTransition :: "refund_state \<Rightarrow> refund_event \<Rightarrow> refund_error + refund_state" where
  "RefundTransition from ev =
     (case (from, ev) of
        (RefundCreated, RefundInitiate) \<Rightarrow> Inr RefundProcessing
      | (RefundProcessing, RefundSuccess) \<Rightarrow> Inr RefundProcessed
      | (RefundProcessing, RefundFailure) \<Rightarrow> Inr RefundFailed
      | (RefundProcessed, RefundReverse) \<Rightarrow> Inr RefundReversed
      | _ \<Rightarrow> Inl ErrRefundTransition)"

definition refund_rank :: "refund_state \<Rightarrow> nat" where
  "refund_rank s = (case s of RefundCreated \<Rightarrow> 0 | RefundProcessing \<Rightarrow> 1 | RefundProcessed \<Rightarrow> 2 | _ \<Rightarrow> 3)"

interpretation rm: ranked_machine RefundTransition refund_rank 3
  by unfold_locales
     (auto simp: RefundTransition_def refund_rank_def split: refund_state.splits refund_event.splits)

record refund =
  r_ID :: id
  r_PaymentID :: id
  r_OrderID :: id
  r_MerchantID :: id
  r_Amount :: int
  r_Currency :: string
  r_Reason :: string
  r_Status :: refund_state
  r_GatewayRefundID :: string
  r_Notes :: "(string \<times> note_value) list"
  r_ProcessedAt :: "time option"
  r_ReversalReason :: string
  r_ReversedAt :: "time option"
  r_CreatedAt :: "time option"

record refund_db = settlement_db +
  db_refunds :: "refund list"

record create_refund_input =
  cr_in_PaymentID :: id
  cr_in_MerchantID :: id
  cr_in_Amount :: int
  cr_in_Reason :: string
  cr_in_Notes :: "(string \<times> note_value) list"

definition RefundableBalance :: "payment \<Rightarrow> int" where
  "RefundableBalance p = i64 (i64 (p_Amount p - p_AmountRefunded p) - p_AmountRefundedPending p)"

section \<open>Operations\<close>

definition GetRefund :: "id \<Rightarrow> id \<Rightarrow> 'a refund_db_scheme \<Rightarrow> refund_error + refund" where
  "GetRefund merchantID refundID db =
     (case find (\<lambda>r. r_ID r = refundID \<and> r_MerchantID r = merchantID) (db_refunds db) of
        None \<Rightarrow> Inl ErrRefundNotFound | Some r \<Rightarrow> Inr r)"

text \<open>The reservation on the payment; \<open>refund_status\<close> looks at the confirmed refunds only.\<close>

definition reserve_refund :: "int \<Rightarrow> payment \<Rightarrow> payment" where
  "reserve_refund amount p =
     p\<lparr>p_AmountRefundedPending := p_AmountRefundedPending p + amount,
        p_RefundStatus := (if p_AmountRefunded p + amount \<ge> p_Amount p then ''full'' else ''partial'')\<rparr>"

definition new_refund :: "id \<Rightarrow> time \<Rightarrow> create_refund_input \<Rightarrow> payment \<Rightarrow> refund" where
  "new_refund refundID now inp p =
     \<lparr>r_ID = refundID, r_PaymentID = cr_in_PaymentID inp, r_OrderID = p_OrderID p, r_MerchantID = cr_in_MerchantID inp,
      r_Amount = cr_in_Amount inp, r_Currency = p_Currency p, r_Reason = cr_in_Reason inp, r_Status = RefundProcessing,
      r_GatewayRefundID = '''', r_Notes = cr_in_Notes inp, r_ProcessedAt = None, r_ReversalReason = '''',
      r_ReversedAt = None, r_CreatedAt = Some now\<rparr>"

definition CreateRefund ::
  "id \<Rightarrow> id \<Rightarrow> time \<Rightarrow> create_refund_input \<Rightarrow> 'a refund_db_scheme \<Rightarrow> refund_error + refund \<times> 'a refund_db_scheme" where
  "CreateRefund refundID evtID now inp db =
     (if cr_in_Amount inp \<le> 0 then Inl ErrZeroRefundAmount
      else case find (pay_at (cr_in_MerchantID inp) (cr_in_PaymentID inp)) (db_payments db) of
        None \<Rightarrow> Inl ErrRefundNotFound
      | Some p \<Rightarrow>
          if p_Status p \<noteq> Captured then Inl ErrPaymentNotCaptured
          else if cr_in_Amount inp > RefundableBalance p then Inl ErrRefundAmountExceedsRefundable
          else (case insert_pk r_ID (new_refund refundID now inp p) (db_refunds db) of
              None \<Rightarrow> Inl ErrRefundConstraint
            | Some rows \<Rightarrow>
                if \<not> in64 (p_AmountRefundedPending p + cr_in_Amount inp) \<or> \<not> in64 (p_AmountRefunded p + cr_in_Amount inp)
                then Inl ErrRefundRange
                else
                let db' = emit evtID now (pay_event ''refund'' refundID ''refund.created'' (cr_in_MerchantID inp)
                       [(''refund_id'', PStr refundID), (''payment_id'', PStr (cr_in_PaymentID inp)),
                        (''amount'', PInt (cr_in_Amount inp)), (''currency'', PStr (p_Currency p))])
                     (set_payment (cr_in_PaymentID inp) (reserve_refund (cr_in_Amount inp)) (db\<lparr>db_refunds := rows\<rparr>)) in
                bindR (GetRefund (cr_in_MerchantID inp) refundID db') (\<lambda>r. Inr (r, db'))))"

definition set_refund :: "id \<Rightarrow> (refund \<Rightarrow> refund) \<Rightarrow> 'a refund_db_scheme \<Rightarrow> 'a refund_db_scheme" where
  "set_refund refundID f db = db\<lparr>db_refunds := upd_where (\<lambda>r. r_ID r = refundID) f (db_refunds db)\<rparr>"

text \<open>The locking SELECT that joins the refund with its payment.\<close>

definition lock_refund :: "(refund \<Rightarrow> bool) \<Rightarrow> 'a refund_db_scheme \<Rightarrow> refund_error + refund \<times> payment" where
  "lock_refund q db =
     (case find q (db_refunds db) of
        None \<Rightarrow> Inl ErrRefundNotFound
      | Some r \<Rightarrow> (case find (\<lambda>p. p_ID p = r_PaymentID r) (db_payments db) of
                     None \<Rightarrow> Inl ErrRefundNotFound | Some p \<Rightarrow> Inr (r, p)))"

definition refund_line :: "string \<Rightarrow> int \<Rightarrow> int \<Rightarrow> string \<Rightarrow> string \<Rightarrow> entry" where
  "refund_line account debit credit currency description =
     \<lparr>e_AccountCode = account, e_DebitAmount = debit, e_CreditAmount = credit, e_Currency = currency,
      e_Description = description\<rparr>"

definition process_entries :: "int \<Rightarrow> int \<Rightarrow> string \<Rightarrow> entry list" where
  "process_entries amount feeDelta currency =
     (let merchantPayableDelta = i64 (amount - feeDelta) in
      [refund_line ''REFUND_CLEARING'' 0 amount currency ''refund clearing credit'']
      @ (if merchantPayableDelta > 0
         then [refund_line ''MERCHANT_PAYABLE'' merchantPayableDelta 0 currency ''refund merchant payable reversal''] else [])
      @ (if feeDelta > 0 then [refund_line ''PLATFORM_FEE_REVENUE'' feeDelta 0 currency ''refund fee reversal''] else []))"

definition confirm_refund :: "int \<Rightarrow> payment \<Rightarrow> payment" where
  "confirm_refund amount p =
     p\<lparr>p_AmountRefunded := p_AmountRefunded p + amount, p_AmountRefundedPending := p_AmountRefundedPending p - amount\<rparr>"

definition refund_adjustment :: "id \<Rightarrow> time \<Rightarrow> string \<Rightarrow> int \<Rightarrow> string \<Rightarrow> refund \<Rightarrow> payment \<Rightarrow> adjustment" where
  "refund_adjustment adjID now kind amount reason r p =
     \<lparr>aj_ID = adjID, aj_MerchantID = r_MerchantID r, aj_SettlementID = p_SettlementID p, aj_PaymentID = r_PaymentID r,
      aj_RefundID = r_ID r, aj_AdjustmentType = kind, aj_Amount = amount, aj_Currency = r_Currency r,
      aj_Reason = reason, aj_CreatedAt = now\<rparr>"

text \<open>The hold and the rollback mark a refund puts on the settlement of its payment.\<close>

definition mark_adjusted :: "time \<Rightarrow> settlement \<Rightarrow> settlement" where
  "mark_adjusted now s =
     (let reason = ''post-settlement refund adjustment'' in
      s\<lparr>st_RollbackMarkedAt := (case st_RollbackMarkedAt s of None \<Rightarrow> Some now | Some t \<Rightarrow> Some t),
         st_RollbackReason := (if st_RollbackReason s = '''' then reason else st_RollbackReason s),
         st_OnHold := True,
         st_HoldReason := (if st_HoldReason s = '''' then reason else st_HoldReason s),
         st_HeldAt := held_since now s\<rparr>)"

definition ProcessRefund ::
  "id \<times> id \<times> id \<Rightarrow> time \<Rightarrow> id \<Rightarrow> 'a refund_db_scheme \<Rightarrow> refund_error + refund \<times> 'a refund_db_scheme" where
  "ProcessRefund ids now refundID db =
     (case ids of (txnID, evtID, adjID) \<Rightarrow>
      bindR (lock_refund (\<lambda>r. r_ID r = refundID) db) (\<lambda>(r, p).
      bindR (RefundTransition (r_Status r) RefundSuccess) (\<lambda>_.
        if \<not> in64 (p_AmountRefunded p + r_Amount r) \<or> \<not> in64 (p_AmountRefundedPending p - r_Amount r) then Inl ErrRefundRange
        else
        let prevFeeReversal = CalculateRefundFeeReversal (p_Amount p) (p_Fee p) (p_AmountRefunded p);
            newFeeReversal = CalculateRefundFeeReversal (p_Amount p) (p_Fee p) (i64 (p_AmountRefunded p + r_Amount r));
            feeDelta = i64 (newFeeReversal - prevFeeReversal);
            merchantPayableDelta = i64 (r_Amount r - feeDelta) in
        bindR (mapL RefundLedger (CreateEntriesTx txnID (r_MerchantID r) ''refund'' refundID ''refund processed''
                 (process_entries (r_Amount r) feeDelta (r_Currency r)) (db_ledger db))) (\<lambda>ledger.
        let db1 = emit evtID now (pay_event ''refund'' refundID ''refund.processed'' (r_MerchantID r)
                [(''refund_id'', PStr refundID), (''payment_id'', PStr (r_PaymentID r)), (''amount'', PInt (r_Amount r))])
              (set_payment (r_PaymentID r) (confirm_refund (r_Amount r))
                (set_refund refundID (\<lambda>r. r\<lparr>r_Status := RefundProcessed, r_ProcessedAt := Some now\<rparr>)
                  (db\<lparr>db_ledger := ledger\<rparr>))) in
        bindR (if p_SettlementID p \<noteq> ''''
               then bindR (mapL RefundSttl (RecordAdjustment
                      (refund_adjustment adjID now ''refund_processed'' merchantPayableDelta (r_Reason r) r p) db1)) (\<lambda>db2.
                    Inr (set_settlement (settlement_at (r_MerchantID r) (p_SettlementID p)) (mark_adjusted now) db2))
               else Inr db1) (\<lambda>db'.
          bindR (GetRefund (r_MerchantID r) refundID db') (\<lambda>res. Inr (res, db')))))))"

definition FailRefund ::
  "id \<Rightarrow> time \<Rightarrow> id \<Rightarrow> 'a refund_db_scheme \<Rightarrow> refund_error + refund \<times> 'a refund_db_scheme" where
  "FailRefund evtID now refundID db =
     (case find (\<lambda>r. r_ID r = refundID) (db_refunds db) of
        None \<Rightarrow> Inl ErrRefundNotFound
      | Some r \<Rightarrow>
          bindR (RefundTransition (r_Status r) RefundFailure) (\<lambda>_.
          if list_ex (\<lambda>p. p_ID p = r_PaymentID r \<and> \<not> in64 (p_AmountRefundedPending p - r_Amount r)) (db_payments db)
          then Inl ErrRefundRange
          else
          Inr (r\<lparr>r_OrderID := '''', r_Reason := '''', r_GatewayRefundID := '''', r_Notes := [], r_ProcessedAt := None,
                  r_ReversalReason := '''', r_ReversedAt := None, r_CreatedAt := None, r_Status := RefundFailed\<rparr>,
            emit evtID now (pay_event ''refund'' refundID ''refund.failed'' (r_MerchantID r)
                [(''refund_id'', PStr refundID), (''payment_id'', PStr (r_PaymentID r))])
              (set_payment (r_PaymentID r) (\<lambda>p. p\<lparr>p_AmountRefundedPending := p_AmountRefundedPending p - r_Amount r\<rparr>)
                (set_refund refundID (\<lambda>r. r\<lparr>r_Status := RefundFailed\<rparr>) db)))))"

definition reversal_entries :: "int \<Rightarrow> int \<Rightarrow> string \<Rightarrow> entry list" where
  "reversal_entries amount feeDelta currency =
     (let merchantPayableDelta = i64 (amount - feeDelta) in
      [refund_line ''REFUND_CLEARING'' amount 0 currency ''refund reversal clearing debit'']
      @ (if merchantPayableDelta > 0
         then [refund_line ''MERCHANT_PAYABLE'' 0 merchantPayableDelta currency ''refund reversal merchant payable restore''] else [])
      @ (if feeDelta > 0 then [refund_line ''PLATFORM_FEE_REVENUE'' 0 feeDelta currency ''refund reversal fee restore''] else []))"

definition refund_status_after :: "int \<Rightarrow> int \<Rightarrow> string" where
  "refund_status_after acc paymentAmount =
     (if acc \<le> 0 then ''none'' else if acc \<ge> paymentAmount then ''full'' else ''partial'')"

definition ReverseRefund ::
  "id \<times> id \<times> id \<Rightarrow> time \<Rightarrow> id \<Rightarrow> id \<Rightarrow> string \<Rightarrow> 'a refund_db_scheme \<Rightarrow> refund_error + refund \<times> 'a refund_db_scheme" where
  "ReverseRefund ids now merchantID refundID reason db =
     (case ids of (txnID, evtID, adjID) \<Rightarrow>
      bindR (lock_refund (\<lambda>r. r_ID r = refundID \<and> r_MerchantID r = merchantID) db) (\<lambda>(r, p).
      bindR (RefundTransition (r_Status r) RefundReverse) (\<lambda>_.
        if p_AmountRefunded p < r_Amount r then Inl ErrRefundTransition
        else
        let prevFeeReversal = CalculateRefundFeeReversal (p_Amount p) (p_Fee p) (p_AmountRefunded p);
            newAmountRefunded = i64 (p_AmountRefunded p - r_Amount r);
            newFeeReversal = CalculateRefundFeeReversal (p_Amount p) (p_Fee p) newAmountRefunded;
            feeDelta = i64 (prevFeeReversal - newFeeReversal);
            merchantPayableDelta = i64 (r_Amount r - feeDelta);
            status = refund_status_after (i64 (newAmountRefunded + p_AmountRefundedPending p)) (p_Amount p) in
        if \<not> in64 (p_AmountRefunded p - r_Amount r) then Inl ErrRefundRange
        else
        bindR (mapL RefundLedger (CreateEntriesTx txnID (r_MerchantID r) ''refund_reversal'' refundID ''refund reversed''
                 (reversal_entries (r_Amount r) feeDelta (r_Currency r)) (db_ledger db))) (\<lambda>ledger.
        let db1 = emit evtID now (pay_event ''refund'' refundID ''refund.reversed'' (r_MerchantID r)
                [(''refund_id'', PStr refundID), (''payment_id'', PStr (r_PaymentID r)), (''amount'', PInt (r_Amount r)),
                 (''reason'', PStr reason)])
              (set_payment (r_PaymentID r) (\<lambda>p. p\<lparr>p_AmountRefunded := p_AmountRefunded p - r_Amount r, p_RefundStatus := status\<rparr>)
                (set_refund refundID
                  (\<lambda>r. r\<lparr>r_Status := RefundReversed, r_ReversalReason := reason, r_ReversedAt := Some now\<rparr>)
                  (db\<lparr>db_ledger := ledger\<rparr>))) in
        bindR (if p_SettlementID p \<noteq> ''''
               then mapL RefundSttl (RecordAdjustment
                      (refund_adjustment adjID now ''refund_reversed'' merchantPayableDelta reason r p) db1)
               else Inr db1) (\<lambda>db'.
          Inr (r\<lparr>r_GatewayRefundID := '''', r_Notes := [], r_ProcessedAt := None, r_CreatedAt := None,
                  r_Status := RefundReversed, r_ReversedAt := Some now, r_ReversalReason := reason\<rparr>, db'))))))"

definition PaymentExists :: "id \<Rightarrow> id \<Rightarrow> 'a refund_db_scheme \<Rightarrow> bool" where
  "PaymentExists merchantID paymentID db \<longleftrightarrow> merchantID \<noteq> '''' \<and> paymentID \<noteq> ''''
     \<and> list_ex (pay_at merchantID paymentID) (db_payments db)"

definition ListRefunds :: "id \<Rightarrow> id \<Rightarrow> 'a refund_db_scheme \<Rightarrow> refund list" where
  "ListRefunds merchantID paymentID db =
     sort_key (\<lambda>r. - the (r_CreatedAt r))
       (filter (\<lambda>r. r_MerchantID r = merchantID \<and> r_PaymentID r = paymentID) (db_refunds db))"

section \<open>Service\<close>

definition Initiate ::
  "id \<times> id \<Rightarrow> id \<times> id \<times> id \<Rightarrow> time \<Rightarrow> create_refund_input \<Rightarrow> 'a refund_db_scheme
     \<Rightarrow> (refund_error + refund) \<times> 'a refund_db_scheme" where
  "Initiate newids ids now inp db =
     (case CreateRefund (fst newids) (snd newids) now inp db of
        Inl e \<Rightarrow> (Inl e, db)
      | Inr (r, db') \<Rightarrow>
          (case ProcessRefund ids now (r_ID r) db' of
             Inl e \<Rightarrow> (Inl e, db') | Inr (r', db'') \<Rightarrow> (Inr r', db'')))"

definition ListByPayment :: "id \<Rightarrow> id \<Rightarrow> 'a refund_db_scheme \<Rightarrow> refund_error + refund list" where
  "ListByPayment merchantID paymentID db =
     (if \<not> PaymentExists merchantID paymentID db then Inl ErrRefundPaymentNotFound
      else Inr (ListRefunds merchantID paymentID db))"

end
