(* ===== verification/Treasury.thy ===== *)
theory Treasury
  imports Refund
begin

text \<open>
  The abstract treasury: what captures, refunds and settlements promise together, in unbounded
  integers. A purse is what the money flows see of a payment. A move opens a purse, captures it,
  reserves, confirms, drops or reverses a refund, or settles a set of captured purses of a merchant;
  the accounts move by the exact amounts as long as the state is within bounds (\<open>bounded\<close>). The
  invariant ties the reservations to the refunds, the settled marks to the items and, within bounds,
  every account of a merchant to its purses and items (\<open>books\<close>).
\<close>

section \<open>State\<close>

record purse =
  u_ID :: id
  u_MerchantID :: id
  u_Amount :: int
  u_Captured :: bool
  u_Fee :: int
  u_Refunded :: int
  u_Pending :: int
  u_Settled :: bool
  u_SettlementID :: id

record refund_view =
  v_ID :: id
  v_PaymentID :: id
  v_MerchantID :: id
  v_Amount :: int
  v_Status :: refund_state

record item_view =
  w_SettlementID :: id
  w_PaymentID :: id
  w_MerchantID :: id
  w_Net :: int

record treasury =
  t_purses :: "purse list"
  t_refunds :: "refund_view list"
  t_items :: "item_view list"
  t_acct :: "id \<Rightarrow> string \<Rightarrow> int"
  t_splits :: int

text \<open>The share of the fee a refunded purse has got back, and what the merchant is due for it.\<close>

definition fee_share :: "int \<Rightarrow> int \<Rightarrow> int \<Rightarrow> int" where
  "fee_share a f r = f * r div a"

definition purse_share :: "purse \<Rightarrow> int" where
  "purse_share u = fee_share (u_Amount u) (u_Fee u) (u_Refunded u)"

definition purse_net :: "purse \<Rightarrow> int" where
  "purse_net u = u_Amount u - u_Fee u - (u_Refunded u - purse_share u)"

definition of_merchant :: "id \<Rightarrow> purse \<Rightarrow> bool" where
  "of_merchant m u \<longleftrightarrow> u_Captured u \<and> u_MerchantID u = m"

text \<open>The bounds under which no int64 of the program wraps.\<close>

definition bounded :: "treasury \<Rightarrow> bool" where
  "bounded s \<longleftrightarrow> (\<forall>u \<in> set (t_purses s). u_Captured u \<longrightarrow> u_Amount u < money_bound)
     \<and> sum_where u_Captured u_Amount (t_purses s) < volume_bound \<and> t_splits s < 2 ^ 62"

definition add_acct :: "id \<Rightarrow> (string \<Rightarrow> int) \<Rightarrow> (id \<Rightarrow> string \<Rightarrow> int) \<Rightarrow> id \<Rightarrow> string \<Rightarrow> int" where
  "add_acct m d acct = (\<lambda>m' a. acct m' a + (if m' = m then d a else 0))"

text \<open>What a refund of \<open>a\<close> does to the accounts when \<open>f\<close> of it is fee given back.\<close>

definition refund_delta :: "int \<Rightarrow> int \<Rightarrow> string \<Rightarrow> int" where
  "refund_delta a f acct =
     (if acct = ''REFUND_CLEARING'' then - a else if acct = ''MERCHANT_PAYABLE'' then a - f
      else if acct = ''PLATFORM_FEE_REVENUE'' then f else 0)"

definition settle_delta :: "int \<Rightarrow> int \<Rightarrow> string \<Rightarrow> int" where
  "settle_delta gross reserve acct =
     (if acct = ''MERCHANT_PAYABLE'' then gross else if acct = ''SETTLEMENT_CLEARING'' then - (gross - reserve)
      else if acct = ''MERCHANT_RESERVE_HELD'' then - reserve else 0)"

section \<open>Moves\<close>

definition upd_purse :: "id \<Rightarrow> (purse \<Rightarrow> purse) \<Rightarrow> treasury \<Rightarrow> treasury" where
  "upd_purse i f s = s\<lparr>t_purses := upd_where (\<lambda>u. u_ID u = i) f (t_purses s)\<rparr>"

definition upd_refund :: "id \<Rightarrow> refund_state \<Rightarrow> treasury \<Rightarrow> treasury" where
  "upd_refund i st s = s\<lparr>t_refunds := upd_where (\<lambda>v. v_ID v = i) (\<lambda>v. v\<lparr>v_Status := st\<rparr>) (t_refunds s)\<rparr>"

definition share_step :: "purse \<Rightarrow> int \<Rightarrow> int" where
  "share_step u a = fee_share (u_Amount u) (u_Fee u) (u_Refunded u + a) - purse_share u"

inductive treasury_move :: "treasury \<Rightarrow> treasury \<Rightarrow> bool" where
  stay: "0 \<le> d \<Longrightarrow> treasury_move s (s\<lparr>t_splits := t_splits s + d\<rparr>)"
| open_purse: "u_ID u \<notin> u_ID ` set (t_purses s) \<Longrightarrow> 0 < u_Amount u \<Longrightarrow> \<not> u_Captured u \<Longrightarrow> u_Refunded u = 0 \<Longrightarrow> u_Pending u = 0
    \<Longrightarrow> \<not> u_Settled u \<Longrightarrow> 0 \<le> d \<Longrightarrow> treasury_move s (s\<lparr>t_purses := t_purses s @ [u], t_splits := t_splits s + d\<rparr>)"
| capture_purse: "u \<in> set (t_purses s) \<Longrightarrow> \<not> u_Captured u
    \<Longrightarrow> s' = (upd_purse (u_ID u) (\<lambda>u. u\<lparr>u_Captured := True, u_Fee := fee\<rparr>) s)\<lparr>t_acct := acct\<rparr>
    \<Longrightarrow> (bounded s' \<Longrightarrow> fee = u_Amount u * 2 div 100 \<and> acct = add_acct (u_MerchantID u) (capture_delta (u_Amount u)) (t_acct s))
    \<Longrightarrow> treasury_move s s'"
| reserve: "u \<in> set (t_purses s) \<Longrightarrow> u_Captured u \<Longrightarrow> v_ID v \<notin> v_ID ` set (t_refunds s) \<Longrightarrow> v_PaymentID v = u_ID u
    \<Longrightarrow> v_MerchantID v = u_MerchantID u \<Longrightarrow> v_Status v = RefundProcessing \<Longrightarrow> 0 < v_Amount v
    \<Longrightarrow> (u_Amount u < 2 ^ 63 \<Longrightarrow> v_Amount v \<le> u_Amount u - u_Refunded u - u_Pending u)
    \<Longrightarrow> treasury_move s (upd_purse (u_ID u) (\<lambda>u. u\<lparr>u_Pending := u_Pending u + v_Amount v\<rparr>) (s\<lparr>t_refunds := t_refunds s @ [v]\<rparr>))"
| confirm: "v \<in> set (t_refunds s) \<Longrightarrow> v_Status v = RefundProcessing \<Longrightarrow> u \<in> set (t_purses s) \<Longrightarrow> u_ID u = v_PaymentID v
    \<Longrightarrow> s' = (upd_purse (u_ID u) (\<lambda>u. u\<lparr>u_Refunded := u_Refunded u + v_Amount v, u_Pending := u_Pending u - v_Amount v\<rparr>)
               (upd_refund (v_ID v) RefundProcessed s))\<lparr>t_acct := acct\<rparr>
    \<Longrightarrow> (bounded s \<Longrightarrow> acct = add_acct (v_MerchantID v) (refund_delta (v_Amount v) (share_step u (v_Amount v))) (t_acct s))
    \<Longrightarrow> treasury_move s s'"
| drop_refund: "v \<in> set (t_refunds s) \<Longrightarrow> v_Status v = RefundProcessing
    \<Longrightarrow> treasury_move s (upd_purse (v_PaymentID v) (\<lambda>u. u\<lparr>u_Pending := u_Pending u - v_Amount v\<rparr>) (upd_refund (v_ID v) RefundFailed s))"
| reverse: "v \<in> set (t_refunds s) \<Longrightarrow> v_Status v = RefundProcessed \<Longrightarrow> u \<in> set (t_purses s) \<Longrightarrow> u_ID u = v_PaymentID v
    \<Longrightarrow> s' = (upd_purse (u_ID u) (\<lambda>u. u\<lparr>u_Refunded := u_Refunded u - v_Amount v\<rparr>)
               (upd_refund (v_ID v) RefundReversed s))\<lparr>t_acct := acct\<rparr>
    \<Longrightarrow> (bounded s \<Longrightarrow> acct = add_acct (v_MerchantID v) (refund_delta (- v_Amount v) (share_step u (- v_Amount v))) (t_acct s))
    \<Longrightarrow> treasury_move s s'"
| settle: "us = filter (\<lambda>u. u_ID u \<in> I) (t_purses s) \<Longrightarrow> \<forall>u \<in> set us. of_merchant m u \<and> \<not> u_Settled u
    \<Longrightarrow> map w_PaymentID ws = map u_ID us \<Longrightarrow> \<forall>w \<in> set ws. w_SettlementID w = sid \<and> w_MerchantID w = m
    \<Longrightarrow> unique_key w_PaymentID (t_items s @ ws)
    \<Longrightarrow> (bounded s \<Longrightarrow> map w_Net ws = map purse_net us
           \<and> (\<exists>reserve. acct = add_acct m (settle_delta (sum_list (map purse_net us)) reserve) (t_acct s)))
    \<Longrightarrow> treasury_move s (s\<lparr>t_purses := upd_where (\<lambda>u. u_ID u \<in> I) (\<lambda>u. u\<lparr>u_Settled := True, u_SettlementID := sid\<rparr>) (t_purses s),
          t_items := t_items s @ ws, t_acct := acct\<rparr>)"

section \<open>Invariant\<close>

definition refund_sum :: "refund_state \<Rightarrow> id \<Rightarrow> refund_view list \<Rightarrow> int" where
  "refund_sum st i vs = sum_where (\<lambda>v. v_PaymentID v = i \<and> v_Status v = st) v_Amount vs"

definition purse_ok :: "refund_view list \<Rightarrow> item_view list \<Rightarrow> purse \<Rightarrow> bool" where
  "purse_ok vs ws u \<longleftrightarrow> 0 < u_Amount u \<and> u_Pending u = refund_sum RefundProcessing (u_ID u) vs
     \<and> u_Refunded u = refund_sum RefundProcessed (u_ID u) vs
     \<and> (u_Amount u < 2 ^ 63 \<longrightarrow> u_Refunded u + u_Pending u \<le> u_Amount u)
     \<and> (u_Settled u \<longleftrightarrow> u_ID u \<in> w_PaymentID ` set ws) \<and> (u_Settled u \<longrightarrow> u_Captured u)"

definition refund_ok :: "purse list \<Rightarrow> refund_view \<Rightarrow> bool" where
  "refund_ok us v \<longleftrightarrow> 0 < v_Amount v
     \<and> (\<exists>u \<in> set us. u_ID u = v_PaymentID v \<and> u_MerchantID u = v_MerchantID v \<and> u_Captured u)"

definition item_ok :: "purse list \<Rightarrow> item_view \<Rightarrow> bool" where
  "item_ok us w \<longleftrightarrow> (\<exists>u \<in> set us. u_ID u = w_PaymentID w \<and> of_merchant (w_MerchantID w) u
     \<and> u_Settled u \<and> u_SettlementID u = w_SettlementID w)"

definition purse_fee_ok :: "purse \<Rightarrow> bool" where
  "purse_fee_ok u \<longleftrightarrow> (u_Captured u \<longrightarrow> u_Fee u = u_Amount u * 2 div 100)"

text \<open>Every account of a merchant is explained by its captured purses and its settlement items.\<close>

definition items_net :: "id \<Rightarrow> item_view list \<Rightarrow> int" where
  "items_net m ws = sum_where (\<lambda>w. w_MerchantID w = m) w_Net ws"

definition books :: "id \<Rightarrow> treasury \<Rightarrow> bool" where
  "books m s \<longleftrightarrow>
     t_acct s m ''CUSTOMER_RECEIVABLE'' = sum_where (of_merchant m) u_Amount (t_purses s)
   \<and> t_acct s m ''PLATFORM_FEE_REVENUE'' = - sum_where (of_merchant m) (\<lambda>u. u_Fee u - purse_share u) (t_purses s)
   \<and> t_acct s m ''REFUND_CLEARING'' = - sum_where (of_merchant m) u_Refunded (t_purses s)
   \<and> t_acct s m ''MERCHANT_PAYABLE'' = items_net m (t_items s) - sum_where (of_merchant m) purse_net (t_purses s)
   \<and> t_acct s m ''SETTLEMENT_CLEARING'' + t_acct s m ''MERCHANT_RESERVE_HELD'' = - items_net m (t_items s)"

definition shape_inv :: "treasury \<Rightarrow> bool" where
  "shape_inv s \<longleftrightarrow> unique_key u_ID (t_purses s) \<and> unique_key v_ID (t_refunds s) \<and> unique_key w_PaymentID (t_items s)
     \<and> (\<forall>u \<in> set (t_purses s). purse_ok (t_refunds s) (t_items s) u)
     \<and> (\<forall>v \<in> set (t_refunds s). refund_ok (t_purses s) v) \<and> (\<forall>w \<in> set (t_items s). item_ok (t_purses s) w)"

definition treasury_inv :: "treasury \<Rightarrow> bool" where
  "treasury_inv s \<longleftrightarrow> shape_inv s
     \<and> (bounded s \<longrightarrow> (\<forall>u \<in> set (t_purses s). purse_fee_ok u) \<and> (\<forall>m. books m s))"

section \<open>The moves keep the shape\<close>

lemma shape_invD:
  assumes "shape_inv s"
  shows "unique_key u_ID (t_purses s)" "unique_key v_ID (t_refunds s)" "unique_key w_PaymentID (t_items s)"
    "\<forall>u \<in> set (t_purses s). purse_ok (t_refunds s) (t_items s) u"
    "\<forall>v \<in> set (t_refunds s). refund_ok (t_purses s) v" "\<forall>w \<in> set (t_items s). item_ok (t_purses s) w"
  using assms by (simp_all add: shape_inv_def)

lemma refund_sum_other:
  assumes "unique_key v_ID vs" "v \<in> set vs" "i \<noteq> v_PaymentID v"
  shows "refund_sum st i (upd_where (\<lambda>x. v_ID x = v_ID v) (\<lambda>x. x\<lparr>v_Status := st'\<rparr>) vs) = refund_sum st i vs"
  unfolding refund_sum_def
  by (subst sum_where_upd_one [OF assms(1,2)]) (use assms(3) in auto)

lemma refund_sum_own:
  assumes "unique_key v_ID vs" "v \<in> set vs"
  shows "refund_sum st (v_PaymentID v) (upd_where (\<lambda>x. v_ID x = v_ID v) (\<lambda>x. x\<lparr>v_Status := st'\<rparr>) vs)
    = refund_sum st (v_PaymentID v) vs - (if v_Status v = st then v_Amount v else 0) + (if st' = st then v_Amount v else 0)"
  unfolding refund_sum_def by (subst sum_where_upd_one [OF assms]) auto

lemma refund_ok_upd:
  assumes "refund_ok us v" "\<And>u. u_ID (f u) = u_ID u \<and> u_MerchantID (f u) = u_MerchantID u \<and> (u_Captured u \<longrightarrow> u_Captured (f u))"
  shows "refund_ok (upd_where q f us) v"
  using assms unfolding refund_ok_def set_upd_where by (smt (verit, best) image_iff)

lemma item_ok_upd:
  assumes "item_ok us w" "\<And>u. q u \<Longrightarrow> u_Settled u \<Longrightarrow> u_ID (f u) = u_ID u \<and> u_MerchantID (f u) = u_MerchantID u \<and> (u_Captured u \<longrightarrow> u_Captured (f u))
      \<and> u_Settled (f u) = u_Settled u \<and> u_SettlementID (f u) = u_SettlementID u"
  shows "item_ok (upd_where q f us) w"
  using assms unfolding item_ok_def of_merchant_def set_upd_where by (smt (verit, best) image_iff)

text \<open>A move on one purse and on the state of refunds of that purse.\<close>

lemma shape_one:
  assumes inv: "shape_inv s" and u: "u \<in> set (t_purses s)"
    and keep: "\<And>u. u_ID (f u) = u_ID u \<and> u_MerchantID (f u) = u_MerchantID u \<and> (u_Captured u \<longrightarrow> u_Captured (f u))
      \<and> u_Settled (f u) = u_Settled u \<and> u_SettlementID (f u) = u_SettlementID u"
    and vs: "unique_key v_ID vs" "\<forall>v \<in> set vs. refund_ok (t_purses s) v"
    and other: "\<And>i st. i \<noteq> u_ID u \<Longrightarrow> refund_sum st i vs = refund_sum st i (t_refunds s)"
    and own: "purse_ok vs (t_items s) (f u)"
    and s': "t_purses s' = upd_where (\<lambda>x. u_ID x = u_ID u) f (t_purses s)" "t_refunds s' = vs" "t_items s' = t_items s"
  shows "shape_inv s'"
proof -
  note S = inv [unfolded shape_inv_def]
  have "purse_ok vs (t_items s) (if u_ID x = u_ID u then f x else x)" if x: "x \<in> set (t_purses s)" for x
  proof (cases "u_ID x = u_ID u")
    case True
    then have "x = u" using S x u unique_key_inj by metis
    then show ?thesis using own by simp
  next
    case False
    have "purse_ok (t_refunds s) (t_items s) x" using S x by blast
    then show ?thesis using False other [OF False] by (auto simp: purse_ok_def)
  qed
  then have "\<forall>x \<in> set (t_purses s'). purse_ok (t_refunds s') (t_items s') x"
    unfolding s' set_upd_where by blast
  moreover have "\<forall>v \<in> set (t_refunds s'). refund_ok (t_purses s') v"
    using vs(2) keep unfolding s' by (auto intro!: refund_ok_upd)
  moreover have "\<forall>w \<in> set (t_items s'). item_ok (t_purses s') w"
    using S keep unfolding s' by (auto intro!: item_ok_upd)
  ultimately show ?thesis using S vs(1) keep by (simp add: shape_inv_def s')
qed

lemma refunds_nonneg: "\<forall>v \<in> set vs. refund_ok us v \<Longrightarrow> 0 \<le> refund_sum st i vs"
  unfolding refund_sum_def by (rule sum_where_nonneg) (auto simp: refund_ok_def)

lemma refund_status_ok: "\<forall>v \<in> set vs. refund_ok us v \<Longrightarrow> \<forall>v \<in> set (upd_where q (\<lambda>x. x\<lparr>v_Status := st\<rparr>) vs). refund_ok us v"
  by (auto simp: set_upd_where refund_ok_def)

lemma fresh_refund_sum: "\<forall>v \<in> set vs. refund_ok us v \<Longrightarrow> i \<notin> u_ID ` set us \<Longrightarrow> refund_sum st i vs = 0"
  unfolding refund_sum_def by (rule sum_where_none) (metis image_eqI refund_ok_def)

lemma refund_ok_append: "refund_ok us v \<Longrightarrow> refund_ok (us @ [u]) v" and item_ok_append: "item_ok us w \<Longrightarrow> item_ok (us @ [u]) w"
  by (auto simp: refund_ok_def item_ok_def)

lemma shape_open:
  assumes inv: "shape_inv s" and u: "u_ID u \<notin> u_ID ` set (t_purses s)" "0 < u_Amount u" "u_Refunded u = 0" "u_Pending u = 0" "\<not> u_Settled u"
  shows "shape_inv (s\<lparr>t_purses := t_purses s @ [u], t_splits := d\<rparr>)"
proof -
  note S = inv [unfolded shape_inv_def]
  have "refund_sum st (u_ID u) (t_refunds s) = 0" for st using S u(1) by (blast intro: fresh_refund_sum)
  moreover have "u_ID u \<notin> w_PaymentID ` set (t_items s)" using S u(1) by (force simp: item_ok_def)
  ultimately have "purse_ok (t_refunds s) (t_items s) u" using u by (simp add: purse_ok_def)
  then show ?thesis using S u(1) by (auto simp: shape_inv_def intro: refund_ok_append item_ok_append)
qed

lemma shape_settle:
  assumes inv: "shape_inv s" and us: "us = filter (\<lambda>u. u_ID u \<in> I) (t_purses s)" "\<forall>u \<in> set us. of_merchant m u \<and> \<not> u_Settled u"
    and ws: "map w_PaymentID ws = map u_ID us" "\<forall>w \<in> set ws. w_SettlementID w = sid \<and> w_MerchantID w = m"
      "unique_key w_PaymentID (t_items s @ ws)"
  shows "shape_inv (s\<lparr>t_purses := upd_where (\<lambda>u. u_ID u \<in> I) (\<lambda>u. u\<lparr>u_Settled := True, u_SettlementID := sid\<rparr>) (t_purses s),
          t_items := t_items s @ ws, t_acct := acct\<rparr>)" (is "shape_inv ?s")
proof -
  note S = inv [unfolded shape_inv_def]
  let ?f = "\<lambda>u. u\<lparr>u_Settled := True, u_SettlementID := sid\<rparr>"
  have ids: "w_PaymentID ` set ws = {u_ID u |u. u \<in> set (t_purses s) \<and> u_ID u \<in> I}"
    using arg_cong [OF ws(1), of set] us(1) by auto
  have chosen: "u_Captured u \<and> u_MerchantID u = m \<and> \<not> u_Settled u" if "u \<in> set (t_purses s)" "u_ID u \<in> I" for u
    using us(2) that unfolding us(1) by (auto simp: of_merchant_def)
  have "purse_ok (t_refunds s) (t_items s @ ws) (if u_ID u \<in> I then ?f u else u)" if u: "u \<in> set (t_purses s)" for u
  proof -
    have "purse_ok (t_refunds s) (t_items s) u" using S u by blast
    moreover have "u_ID u \<in> w_PaymentID ` set ws \<longleftrightarrow> u_ID u \<in> I" using ids u by auto
    ultimately show ?thesis using chosen [OF u] by (auto simp: purse_ok_def)
  qed
  then have "\<forall>u \<in> set (upd_where (\<lambda>u. u_ID u \<in> I) ?f (t_purses s)). purse_ok (t_refunds s) (t_items s @ ws) u"
    unfolding set_upd_where by blast
  moreover have "\<forall>v \<in> set (t_refunds ?s). refund_ok (t_purses ?s) v" using S by (auto intro!: refund_ok_upd)
  moreover have "item_ok (t_purses ?s) w" if "w \<in> set (t_items s)" for w
  proof -
    have "item_ok (t_purses s) w" using S that by blast
    then obtain u where u: "u \<in> set (t_purses s)" "u_ID u = w_PaymentID w" "of_merchant (w_MerchantID w) u" "u_Settled u"
      "u_SettlementID u = w_SettlementID w" by (auto simp: item_ok_def)
    moreover from this have "u_ID u \<notin> I" using chosen by blast
    ultimately have "u \<in> set (t_purses ?s)" by (force simp: set_upd_where)
    then show ?thesis using u by (auto simp: item_ok_def)
  qed
  moreover have "item_ok (t_purses ?s) w" if "w \<in> set ws" for w
  proof -
    have "w_PaymentID w \<in> w_PaymentID ` set ws" using that by simp
    then obtain u where u: "u \<in> set (t_purses s)" "u_ID u \<in> I" "u_ID u = w_PaymentID w" unfolding ids by auto
    then have "?f u \<in> set (t_purses ?s)" by (force simp: set_upd_where)
    moreover have "u_ID (?f u) = w_PaymentID w \<and> of_merchant (w_MerchantID w) (?f u) \<and> u_Settled (?f u)
        \<and> u_SettlementID (?f u) = w_SettlementID w"
      using u(3) chosen [OF u(1,2)] ws(2) that by (simp add: of_merchant_def)
    ultimately show ?thesis unfolding item_ok_def by blast
  qed
  ultimately show ?thesis using S ws(3) by (auto simp: shape_inv_def)
qed

lemma move_shape:
  assumes "treasury_move s s'" "shape_inv s" shows "shape_inv s'"
  using assms
proof (induction rule: treasury_move.induct)
  case (stay d s)
  then show ?case by (simp add: shape_inv_def)
next
  case (open_purse u s d)
  then show ?case by (intro shape_open) simp_all
next
  case (capture_purse u s s' acct fee)
  note S = shape_invD [OF capture_purse.prems]
  have "purse_ok (t_refunds s) (t_items s) u" using S(4) capture_purse.hyps(1) by blast
  then have own: "purse_ok (t_refunds s) (t_items s) (u\<lparr>u_Captured := True, u_Fee := fee\<rparr>)"
    by (auto simp: purse_ok_def)
  show ?case
    by (rule shape_one [where f = "\<lambda>u. u\<lparr>u_Captured := True, u_Fee := fee\<rparr>", OF capture_purse.prems capture_purse.hyps(1) _ S(2,5) _ own])
       (simp_all add: capture_purse.hyps(3) upd_purse_def)
next
  case (reserve u s v)
  note S = shape_invD [OF reserve.prems]
  have "purse_ok (t_refunds s) (t_items s) u" using S(4) reserve.hyps(1) by blast
  then have own: "purse_ok (t_refunds s @ [v]) (t_items s) (u\<lparr>u_Pending := u_Pending u + v_Amount v\<rparr>)"
    using reserve.hyps(4,6,8) by (auto simp: purse_ok_def refund_sum_def)
  have vs: "unique_key v_ID (t_refunds s @ [v])" "\<forall>x \<in> set (t_refunds s @ [v]). refund_ok (t_purses s) x"
    using S(2,5) reserve.hyps(1-7) by (auto simp: refund_ok_def)
  show ?case
    by (rule shape_one [where f = "\<lambda>u. u\<lparr>u_Pending := u_Pending u + v_Amount v\<rparr>", OF reserve.prems reserve.hyps(1) _ vs _ own])
       (use reserve.hyps(4) in \<open>simp_all add: upd_purse_def refund_sum_def\<close>)
next
  case (confirm v s u s' acct)
  note S = shape_invD [OF confirm.prems]
  let ?vs = "upd_where (\<lambda>x. v_ID x = v_ID v) (\<lambda>x. x\<lparr>v_Status := RefundProcessed\<rparr>) (t_refunds s)"
  let ?f = "\<lambda>u. u\<lparr>u_Refunded := u_Refunded u + v_Amount v, u_Pending := u_Pending u - v_Amount v\<rparr>"
  have "purse_ok (t_refunds s) (t_items s) u" using S(4) confirm.hyps(3) by blast
  then have own: "purse_ok ?vs (t_items s) (?f u)"
    using confirm.hyps(2,4) refund_sum_own [OF S(2) confirm.hyps(1), of _ RefundProcessed] by (auto simp: purse_ok_def)
  show ?case
    by (rule shape_one [where f = ?f, OF confirm.prems confirm.hyps(3) _ _ refund_status_ok [OF S(5)] _ own])
       (use S(2) confirm.hyps(1,4) in \<open>simp_all add: confirm.hyps(5) upd_purse_def upd_refund_def refund_sum_other\<close>)
next
  case (drop_refund v s)
  note S = shape_invD [OF drop_refund.prems]
  let ?vs = "upd_where (\<lambda>x. v_ID x = v_ID v) (\<lambda>x. x\<lparr>v_Status := RefundFailed\<rparr>) (t_refunds s)"
  let ?f = "\<lambda>u. u\<lparr>u_Pending := u_Pending u - v_Amount v\<rparr>"
  have v: "refund_ok (t_purses s) v" using S(5) drop_refund.hyps(1) by blast
  then obtain u where u: "u \<in> set (t_purses s)" "u_ID u = v_PaymentID v" by (auto simp: refund_ok_def)
  have "purse_ok (t_refunds s) (t_items s) u" using S(4) u(1) by blast
  moreover have "0 < v_Amount v" using v by (simp add: refund_ok_def)
  ultimately have own: "purse_ok ?vs (t_items s) (?f u)"
    using drop_refund.hyps(2) u(2) refund_sum_own [OF S(2) drop_refund.hyps(1), of _ RefundFailed] by (auto simp: purse_ok_def)
  show ?case
    by (rule shape_one [where f = ?f, OF drop_refund.prems u(1) _ _ refund_status_ok [OF S(5)] _ own])
       (use S(2) drop_refund.hyps(1) u(2) in \<open>simp_all add: upd_purse_def upd_refund_def refund_sum_other\<close>)
next
  case (reverse v s u s' acct)
  note S = shape_invD [OF reverse.prems]
  let ?vs = "upd_where (\<lambda>x. v_ID x = v_ID v) (\<lambda>x. x\<lparr>v_Status := RefundReversed\<rparr>) (t_refunds s)"
  let ?f = "\<lambda>u. u\<lparr>u_Refunded := u_Refunded u - v_Amount v\<rparr>"
  have "refund_ok (t_purses s) v" using S(5) reverse.hyps(1) by blast
  then have "0 < v_Amount v" by (simp add: refund_ok_def)
  moreover have "purse_ok (t_refunds s) (t_items s) u" using S(4) reverse.hyps(3) by blast
  ultimately have own: "purse_ok ?vs (t_items s) (?f u)"
    using reverse.hyps(2,4) refund_sum_own [OF S(2) reverse.hyps(1), of _ RefundReversed] by (auto simp: purse_ok_def)
  show ?case
    by (rule shape_one [where f = ?f, OF reverse.prems reverse.hyps(3) _ _ refund_status_ok [OF S(5)] _ own])
       (use S(2) reverse.hyps(1,4) in \<open>simp_all add: reverse.hyps(5) upd_purse_def upd_refund_def refund_sum_other\<close>)
next
  case (settle us I s m ws sid acct)
  show ?case by (rule shape_settle [OF settle.prems settle.hyps(1-5)])
qed

section \<open>The moves keep the books\<close>

text \<open>Captured amounts and splits only grow, so a state within bounds was always within bounds.\<close>

lemma bounded_cong:
  assumes "\<And>u. u_Captured (f u) = u_Captured u \<and> u_Amount (f u) = u_Amount u"
    and "t_purses s' = upd_where q f (t_purses s)" "t_splits s' = t_splits s"
  shows "bounded s' = bounded s"
proof -
  have "sum_where u_Captured u_Amount (t_purses s') = sum_where u_Captured u_Amount (t_purses s)"
    unfolding assms(2) sum_where_upd_where using assms(1) by (intro sum_where_cong) simp
  moreover have "(\<forall>u \<in> set (t_purses s'). u_Captured u \<longrightarrow> u_Amount u < money_bound)
      = (\<forall>u \<in> set (t_purses s). u_Captured u \<longrightarrow> u_Amount u < money_bound)"
    unfolding assms(2) ball_upd_where using assms(1) by (intro ball_cong) simp_all
  ultimately show ?thesis using assms(3) by (simp add: bounded_def)
qed

lemma bounded_capture:
  assumes inv: "shape_inv s" and u: "u \<in> set (t_purses s)" "\<not> u_Captured u"
    and s': "t_purses s' = upd_where (\<lambda>x. u_ID x = u_ID u) (\<lambda>u. u\<lparr>u_Captured := True, u_Fee := fee\<rparr>) (t_purses s)" "t_splits s' = t_splits s"
    and b: "bounded s'"
  shows "bounded s" "u_Amount u < money_bound"
proof -
  let ?f = "\<lambda>u. u\<lparr>u_Captured := True, u_Fee := fee\<rparr>"
  have pos: "0 < u_Amount u" using shape_invD(4) [OF inv] u(1) by (simp add: purse_ok_def)
  have sum: "sum_where u_Captured u_Amount (t_purses s') = sum_where u_Captured u_Amount (t_purses s) + u_Amount u"
    unfolding s' by (subst sum_where_upd_one [OF shape_invD(1) [OF inv] u(1)]) (use u(2) in simp_all)
  have "\<forall>x \<in> set (t_purses s'). u_Captured x \<longrightarrow> u_Amount x < money_bound" using b by (simp add: bounded_def)
  then have small: "u_Amount x < money_bound" if "x \<in> set (t_purses s)" "u_Captured x \<or> u_ID x = u_ID u" for x
    using that unfolding s' ball_upd_where by (auto split: if_split_asm dest!: bspec [of _ _ x])
  show "u_Amount u < money_bound" using small [OF u(1)] by simp
  have "\<forall>x \<in> set (t_purses s). u_Captured x \<longrightarrow> u_Amount x < money_bound" using small by blast
  then show "bounded s" using b sum pos s'(2) by (simp add: bounded_def)
qed

lemma move_bounded:
  assumes "treasury_move s s'" "shape_inv s" "bounded s'" shows "bounded s"
  using assms
proof (induction rule: treasury_move.induct)
  case (stay d s)
  then show ?case by (simp add: bounded_def)
next
  case (open_purse u s d)
  then show ?case by (simp add: bounded_def)
next
  case (capture_purse u s s' acct fee)
  show ?case
    by (rule bounded_capture [OF capture_purse.prems(1) capture_purse.hyps(1,2) _ _ capture_purse.prems(2)])
       (simp_all add: capture_purse.hyps(3) upd_purse_def)
next
  case (reserve u s v)
  then show ?case using bounded_cong [of "\<lambda>u. u\<lparr>u_Pending := u_Pending u + v_Amount v\<rparr>"] by (simp add: upd_purse_def)
next
  case (confirm v s u s' acct)
  then show ?case
    using bounded_cong [of "\<lambda>u. u\<lparr>u_Refunded := u_Refunded u + v_Amount v, u_Pending := u_Pending u - v_Amount v\<rparr>" s']
    by (simp add: upd_purse_def upd_refund_def)
next
  case (drop_refund v s)
  then show ?case using bounded_cong [of "\<lambda>u. u\<lparr>u_Pending := u_Pending u - v_Amount v\<rparr>"] by (simp add: upd_purse_def upd_refund_def)
next
  case (reverse v s u s' acct)
  then show ?case using bounded_cong [of "\<lambda>u. u\<lparr>u_Refunded := u_Refunded u - v_Amount v\<rparr>" s'] by (simp add: upd_purse_def upd_refund_def)
next
  case (settle us I s m ws sid acct)
  then show ?case using bounded_cong [of "\<lambda>u. u\<lparr>u_Settled := True, u_SettlementID := sid\<rparr>"] by simp
qed

definition gain :: "id \<Rightarrow> (purse \<Rightarrow> int) \<Rightarrow> purse \<Rightarrow> purse \<Rightarrow> int" where
  "gain m g u u' = (if of_merchant m u' then g u' else 0) - (if of_merchant m u then g u else 0)"

text \<open>The books after one purse changed and the accounts followed.\<close>

lemma books_one:
  assumes inv: "shape_inv s" and u: "u \<in> set (t_purses s)" and bks: "books m s"
    and s': "t_purses s' = upd_where (\<lambda>x. u_ID x = u_ID u) f (t_purses s)" "t_items s' = t_items s" "t_acct s' m = (\<lambda>a. t_acct s m a + d a)"
    and d: "d ''CUSTOMER_RECEIVABLE'' = gain m u_Amount u (f u)"
      "d ''PLATFORM_FEE_REVENUE'' = - gain m (\<lambda>u. u_Fee u - purse_share u) u (f u)"
      "d ''REFUND_CLEARING'' = - gain m u_Refunded u (f u)" "d ''MERCHANT_PAYABLE'' = - gain m purse_net u (f u)"
      "d ''SETTLEMENT_CLEARING'' + d ''MERCHANT_RESERVE_HELD'' = 0"
  shows "books m s'"
proof -
  have "sum_where (of_merchant m) g (t_purses s') = sum_where (of_merchant m) g (t_purses s) + gain m g u (f u)" for g
    unfolding s'(1) gain_def by (subst sum_where_upd_one [OF shape_invD(1) [OF inv] u]) simp_all
  then show ?thesis using bks d by (simp add: books_def s'(2,3))
qed

lemma uncaptured_refunded:
  assumes inv: "shape_inv s" and u: "u \<in> set (t_purses s)" "\<not> u_Captured u"
  shows "u_Refunded u = 0"
proof -
  have "v_PaymentID v \<noteq> u_ID u" if v: "v \<in> set (t_refunds s)" for v
  proof
    assume "v_PaymentID v = u_ID u"
    moreover have "refund_ok (t_purses s) v" using shape_invD(5) [OF inv] v by blast
    ultimately obtain x where "x \<in> set (t_purses s)" "u_ID x = u_ID u" "u_Captured x" by (auto simp: refund_ok_def)
    then show False using u unique_key_inj [OF shape_invD(1) [OF inv]] by metis
  qed
  then have "refund_sum RefundProcessed (u_ID u) (t_refunds s) = 0" unfolding refund_sum_def by (intro sum_where_none) simp
  then show ?thesis using shape_invD(4) [OF inv] u(1) by (simp add: purse_ok_def)
qed

text \<open>The purse of a refund belongs to the merchant of the refund.\<close>

lemma refund_purse:
  assumes "shape_inv s" "v \<in> set (t_refunds s)" "u \<in> set (t_purses s)" "u_ID u = v_PaymentID v"
  shows "of_merchant (v_MerchantID v) u"
proof -
  have "refund_ok (t_purses s) v" using shape_invD(5) [OF assms(1)] assms(2) by blast
  then obtain x where x: "x \<in> set (t_purses s)" "u_ID x = v_PaymentID v" "of_merchant (v_MerchantID v) x"
    by (auto simp: refund_ok_def of_merchant_def)
  then have "x = u" using unique_key_inj [OF shape_invD(1) [OF assms(1)]] assms(3,4) by metis
  with x show ?thesis by simp
qed

lemma settle_books:
  assumes bks: "books m s" and us: "us = filter (\<lambda>u. u_ID u \<in> I) (t_purses s)"
    and ws: "map w_Net ws = map purse_net us" "\<forall>w \<in> set ws. w_MerchantID w = m0"
    and s': "s' = s\<lparr>t_purses := upd_where (\<lambda>u. u_ID u \<in> I) (\<lambda>u. u\<lparr>u_Settled := True, u_SettlementID := sid\<rparr>) (t_purses s),
      t_items := t_items s @ ws, t_acct := add_acct m0 (settle_delta (sum_list (map purse_net us)) reserve) (t_acct s)\<rparr>"
  shows "books m s'"
proof -
  have keep: "sum_where (of_merchant m) g (t_purses s') = sum_where (of_merchant m) g (t_purses s)"
    if "\<And>u. g (u\<lparr>u_Settled := True, u_SettlementID := sid\<rparr>) = g u" for g
  proof -
    have "sum_where (of_merchant m) g (upd_where (\<lambda>u. u_ID u \<in> I) (\<lambda>u. u\<lparr>u_Settled := True, u_SettlementID := sid\<rparr>) (t_purses s))
        = sum_where (of_merchant m) g (t_purses s)"
      unfolding sum_where_upd_where using that by (intro sum_where_cong) (simp add: of_merchant_def)
    then show ?thesis by (simp add: s')
  qed
  have "sum_where (of_merchant m) u_Amount (t_purses s') = sum_where (of_merchant m) u_Amount (t_purses s)"
    "sum_where (of_merchant m) (\<lambda>u. u_Fee u - purse_share u) (t_purses s') = sum_where (of_merchant m) (\<lambda>u. u_Fee u - purse_share u) (t_purses s)"
    "sum_where (of_merchant m) u_Refunded (t_purses s') = sum_where (of_merchant m) u_Refunded (t_purses s)"
    "sum_where (of_merchant m) purse_net (t_purses s') = sum_where (of_merchant m) purse_net (t_purses s)"
    by (rule keep, simp add: purse_share_def purse_net_def)+
  moreover have "items_net m ws = (if m = m0 then sum_list (map purse_net us) else 0)"
    using ws by (auto simp: items_net_def sum_where_def simp flip: ws(1) cong: filter_cong)
  ultimately show ?thesis using bks by (cases "m = m0") (auto simp: s' books_def add_acct_def settle_delta_def items_net_def)
qed

lemma move_fees:
  assumes "treasury_move s s'" "bounded s'" "\<forall>u \<in> set (t_purses s). purse_fee_ok u"
    and uniq: "unique_key u_ID (t_purses s)"
  shows "\<forall>u \<in> set (t_purses s'). purse_fee_ok u"
  using assms
proof (induction rule: treasury_move.induct)
  case (capture_purse u s s' acct fee)
  have "purse_fee_ok (if u_ID x = u_ID u then x\<lparr>u_Captured := True, u_Fee := fee\<rparr> else x)" if "x \<in> set (t_purses s)" for x
  proof (cases "u_ID x = u_ID u")
    case True
    then have "x = u" using unique_key_inj [OF capture_purse.prems(3) that capture_purse.hyps(1)] by simp
    then show ?thesis using capture_purse.hyps(4) [OF capture_purse.prems(1)] by (simp add: purse_fee_ok_def)
  qed (use capture_purse.prems(2) that in simp)
  then show ?case unfolding capture_purse.hyps(3) by (simp add: upd_purse_def ball_upd_where)
qed (auto simp: upd_purse_def upd_refund_def ball_upd_where purse_fee_ok_def)

lemma move_books:
  assumes "treasury_move s s'" "shape_inv s" "bounded s'" "bounded s" "\<forall>u \<in> set (t_purses s). purse_fee_ok u" "books m s"
  shows "books m s'"
  using assms
proof (induction rule: treasury_move.induct)
  case (stay d s)
  then show ?case by (simp add: books_def)
next
  case (open_purse u s d)
  then show ?case by (simp add: books_def of_merchant_def)
next
  case (capture_purse u s s' acct fee)
  have "u_Refunded u = 0" using uncaptured_refunded capture_purse by blast
  moreover note capture_purse.hyps(4) [OF capture_purse.prems(2)]
  ultimately show ?case
    using capture_purse.hyps(2)
    by (intro books_one [where s = s and u = u and f = "\<lambda>u. u\<lparr>u_Captured := True, u_Fee := fee\<rparr>"
          and d = "\<lambda>a. if m = u_MerchantID u then capture_delta (u_Amount u) a else 0",
          OF capture_purse.prems(1) capture_purse.hyps(1) capture_purse.prems(5)])
       (simp_all add: capture_purse.hyps(3) upd_purse_def add_acct_def gain_def of_merchant_def purse_net_def purse_share_def
          fee_share_def capture_delta_def)
next
  case (reserve u s v)
  show ?case
    by (rule books_one [where s = s and u = u and f = "\<lambda>u. u\<lparr>u_Pending := u_Pending u + v_Amount v\<rparr>" and d = "\<lambda>a. 0",
          OF reserve.prems(1) reserve.hyps(1) reserve.prems(5)])
       (simp_all add: upd_purse_def gain_def of_merchant_def purse_net_def purse_share_def)
next
  case (confirm v s u s' acct)
  have "of_merchant (v_MerchantID v) u" using refund_purse confirm by blast
  then show ?case
    by (intro books_one [where s = s and u = u
          and f = "\<lambda>u. u\<lparr>u_Refunded := u_Refunded u + v_Amount v, u_Pending := u_Pending u - v_Amount v\<rparr>"
          and d = "\<lambda>a. if m = v_MerchantID v then refund_delta (v_Amount v) (share_step u (v_Amount v)) a else 0",
          OF confirm.prems(1) confirm.hyps(3) confirm.prems(5)])
       (auto simp: confirm.hyps(5) confirm.hyps(6) [OF confirm.prems(3)] upd_purse_def upd_refund_def add_acct_def gain_def of_merchant_def
          purse_net_def purse_share_def share_step_def refund_delta_def)
next
  case (drop_refund v s)
  then obtain u where u: "u \<in> set (t_purses s)" "u_ID u = v_PaymentID v"
    using shape_invD(5) [OF drop_refund.prems(1)] by (auto simp: refund_ok_def)
  show ?case
    by (rule books_one [where s = s and u = u and f = "\<lambda>u. u\<lparr>u_Pending := u_Pending u - v_Amount v\<rparr>" and d = "\<lambda>a. 0",
          OF drop_refund.prems(1) u(1) drop_refund.prems(5)])
       (simp_all add: u(2) upd_purse_def upd_refund_def gain_def of_merchant_def purse_net_def purse_share_def)
next
  case (reverse v s u s' acct)
  have "of_merchant (v_MerchantID v) u" using refund_purse reverse by blast
  then show ?case
    by (intro books_one [where s = s and u = u and f = "\<lambda>u. u\<lparr>u_Refunded := u_Refunded u - v_Amount v\<rparr>"
          and d = "\<lambda>a. if m = v_MerchantID v then refund_delta (- v_Amount v) (share_step u (- v_Amount v)) a else 0",
          OF reverse.prems(1) reverse.hyps(3) reverse.prems(5)])
       (auto simp: reverse.hyps(5) reverse.hyps(6) [OF reverse.prems(3)] upd_purse_def upd_refund_def add_acct_def gain_def of_merchant_def
          purse_net_def purse_share_def share_step_def refund_delta_def)
next
  case (settle us I s m0 ws sid acct)
  from settle.hyps(6) [OF settle.prems(3)] obtain reserve where
    "map w_Net ws = map purse_net us" "acct = add_acct m0 (settle_delta (sum_list (map purse_net us)) reserve) (t_acct s)" by blast
  then show ?case using settle.hyps(4) by (intro settle_books [OF settle.prems(5) settle.hyps(1)]) simp_all
qed

interpretation treasury: invariant_system treasury_move treasury_inv
proof unfold_locales
  fix s s' assume move: "treasury_move s s'" and inv: "treasury_inv s"
  then have shape: "shape_inv s" "shape_inv s'" using move_shape by (auto simp: treasury_inv_def)
  have "(\<forall>u \<in> set (t_purses s'). purse_fee_ok u) \<and> (\<forall>m. books m s')" if b: "bounded s'"
  proof -
    have "bounded s" by (rule move_bounded [OF move shape(1) b])
    then show ?thesis
      using inv move_fees [OF move b _ shape_invD(1) [OF shape(1)]] move_books [OF move shape(1) b] by (auto simp: treasury_inv_def)
  qed
  with shape(2) show "treasury_inv s'" by (simp add: treasury_inv_def)
qed

end
