(* ===== verification/TreasuryFlow.thy ===== *)
theory TreasuryFlow
  imports Treasury
begin

text \<open>
  The money flows of the repositories refine the abstract treasury: every payment operation, sweep
  step, refund and settlement operation is a move of \<open>treasury_move\<close> on the abstraction of the
  database, so the invariant of the treasury holds in every reachable database.
\<close>

section \<open>Abstraction\<close>

definition purse_of :: "payment \<Rightarrow> purse" where
  "purse_of p = \<lparr>u_ID = p_ID p, u_MerchantID = p_MerchantID p, u_Amount = p_Amount p, u_Captured = (p_Status p = Captured),
     u_Fee = p_Fee p, u_Refunded = p_AmountRefunded p, u_Pending = p_AmountRefundedPending p, u_Settled = p_Settled p,
     u_SettlementID = p_SettlementID p\<rparr>"

definition refund_view_of :: "refund \<Rightarrow> refund_view" where
  "refund_view_of r = \<lparr>v_ID = r_ID r, v_PaymentID = r_PaymentID r, v_MerchantID = r_MerchantID r, v_Amount = r_Amount r,
     v_Status = r_Status r\<rparr>"

definition item_view_of :: "settlement_item \<Rightarrow> item_view" where
  "item_view_of it = \<lparr>w_SettlementID = it_SettlementID it, w_PaymentID = it_PaymentID it, w_MerchantID = it_MerchantID it,
     w_Net = it_Net it\<rparr>"

text \<open>
  What is cleared for a merchant and what already left to its bank are one pool: a payout moves money
  between the two accounts, which the treasury does not see.
\<close>

definition pooled :: "id \<Rightarrow> string \<Rightarrow> ledger_db \<Rightarrow> int" where
  "pooled m a l =
     (if a = ''MERCHANT_BANK_PAYOUT'' then 0
      else account_balance m a l + (if a = ''SETTLEMENT_CLEARING'' then account_balance m ''MERCHANT_BANK_PAYOUT'' l else 0))"

lemma pooled_post:
  assumes "CreateEntriesTx t m st sid desc es l = Inr l'" "\<And>a. entries_on a es = d a" "d ''MERCHANT_BANK_PAYOUT'' = 0"
  shows "(\<lambda>m' a. pooled m' a l') = add_acct m d (\<lambda>m' a. pooled m' a l)"
  using account_balance_post [OF assms(1)] assms(2,3) by (simp add: pooled_def add_acct_def fun_eq_iff)

definition abs_tr :: "'a refund_db_scheme \<Rightarrow> treasury" where
  "abs_tr db = \<lparr>t_purses = map purse_of (db_payments db), t_refunds = map refund_view_of (db_refunds db),
     t_items = map item_view_of (db_items db), t_acct = (\<lambda>m a. pooled m a (db_ledger db)),
     t_splits = split_sum (db_splits db)\<rparr>"

section \<open>What the payment operations leave alone\<close>

definition pay_frame :: "'a payment_db_scheme \<Rightarrow> 'a payment_db_scheme \<Rightarrow> bool" where
  "pay_frame db db' \<longleftrightarrow> payment_db.more db' = payment_db.more db \<and> (\<exists>new. db_splits db' = db_splits db @ new)"

lemma pay_frame_refl [simp]: "pay_frame db db"
  by (simp add: pay_frame_def)

lemma pay_frame_updates [simp]:
  "pay_frame db (emit e n v db1) = pay_frame db db1" "pay_frame db (set_payment i f db1) = pay_frame db db1"
  "pay_frame db (set_attempt i g db1) = pay_frame db db1" "pay_frame db (set_challenge i h db1) = pay_frame db db1"
  "pay_frame db (set_order m i k db1) = pay_frame db db1" "pay_frame db (db1\<lparr>db_ledger := l\<rparr>) = pay_frame db db1"
  "pay_frame db (db1\<lparr>db_attempts := as\<rparr>) = pay_frame db db1" "pay_frame db (db1\<lparr>db_payments := ps\<rparr>) = pay_frame db db1"
  "pay_frame db (db1\<lparr>db_card_details := cs\<rparr>) = pay_frame db db1" "pay_frame db (db1\<lparr>db_challenges := chs\<rparr>) = pay_frame db db1"
  "pay_frame db (db1\<lparr>db_orders := os\<rparr>) = pay_frame db db1" "pay_frame db (db1\<lparr>db_outbox := ox\<rparr>) = pay_frame db db1"
  by (simp_all add: pay_frame_def db_simps)

lemma upsert_challenge_frame: "upsert_challenge m i cin db1 = Inr db' \<Longrightarrow> pay_frame db db' = pay_frame db db1"
  by (auto simp: upsert_challenge_def split: if_split_asm)

lemma challenge_frame:
  assumes "CompleteCardChallenge evtID now m i tok gref auth at db = Inr (r, db')
    \<or> FailCardChallenge evtID now m i tok code desc st at db = Inr (r, db')"
  shows "pay_frame db db'"
proof -
  obtain p where "lock_payment m i db = Inr p"
    using assms by (auto simp: CompleteCardChallenge_def FailCardChallenge_def bindR_Inr_iff)
  with assms show ?thesis
    by (cases "find (\<lambda>c. cc_PaymentID c = i) (db_challenges db)"; cases "challenge_status st")
       (auto simp: CompleteCardChallenge_def FailCardChallenge_def fail_challenge_def Let_def bindR_Inr_iff split: if_split_asm)
qed

lemma insertPaymentSplitsTx_frame: "insertPaymentSplitsTx ids now m i ss db = Inr db' \<Longrightarrow> pay_frame db db'"
  by (auto simp: insertPaymentSplitsTx_def Let_def bindR_Inr_iff pay_frame_def)

lemma pay_frame_trans: "pay_frame db db1 \<Longrightarrow> pay_frame db1 db2 \<Longrightarrow> pay_frame db db2"
  by (auto simp: pay_frame_def)

lemma StartAuthorization_frame:
  assumes "StartAuthorization attemptID newPayID splitID evtID now inp db = Inr (r, db')"
  shows "pay_frame db db'"
proof -
  obtain ord where ord: "find (order_at (ca_MerchantID inp) (ca_OrderID inp)) (db_orders db) = Some ord"
    using assms by (auto simp: StartAuthorization_def split: if_split_asm option.split_asm)
  let ?pid = "if ca_PaymentID inp = '''' then newPayID else ca_PaymentID inp"
  let ?att = "new_attempt attemptID now inp ?pid AttProcessing '''' '''' (nullableText (ca_IdempotencyKey inp))"
  show ?thesis
  proof (cases "attempt_conflict ?att (db_attempts db) \<and> nullableText (ca_IdempotencyKey inp) \<noteq> None")
    case True
    then show ?thesis using assms ord
      by (auto simp: StartAuthorization_def bindR_Inr_iff Let_def split: if_split_asm)
  next
    case False
    then obtain db1 db2 db3 where "insert_attempt ?att db = Inr db1"
      and "insert_payment (new_payment ?pid attemptID now inp) db1 = Inr db2"
      and ins: "insertPaymentSplitsTx splitID now (ca_MerchantID inp) ?pid (ca_Splits inp) db2 = Inr db3"
      and db': "pay_frame db db' = pay_frame db db3"
      using assms ord by (auto simp: StartAuthorization_def bindR_Inr_iff Let_def split: if_split_asm)
    then have "pay_frame db db2" by (auto simp: insert_attempt_def insert_payment_def split: if_split_asm)
    then show ?thesis unfolding db' by (rule pay_frame_trans [OF _ insertPaymentSplitsTx_frame [OF ins]])
  qed
qed

lemma CaptureAuthorizedPayment_frame:
  "CaptureAuthorizedPayment ids now m i amount db = Inr (r, db') \<Longrightarrow> pay_frame db db'"
  by (auto simp: CaptureAuthorizedPayment_def bindR_Inr_iff split: if_split_asm prod.split_asm dest!: commit_get_Inr)

lemma CreateOrder_frame:
  assumes "CreateOrder newid evtID now inp db = Inr (ord, db')" shows "pay_frame db db'"
  using assms
  by (auto simp: CreateOrder_def InsertOrder_def Let_def bindR_Inr_iff split: if_split_asm)

lemma pay_step_frame: "pay_step db db' \<Longrightarrow> pay_frame db db'"
proof (induction rule: pay_step.induct)
  case (requires_action evtID now m i cin db r db')
  then show ?case
    by (auto simp: MarkAuthorizationRequiresAction_def bindR_Inr_iff split: if_split_asm
        dest!: commit_get_Inr upsert_challenge_frame)
next
  case (complete_challenge evtID now m i tok gref auth at db r db')
  then show ?case using challenge_frame by blast
next
  case (fail_challenge evtID now m i tok code desc st at db r db')
  then show ?case using challenge_frame by blast
qed (auto simp: ExpireDueOrders_def CreateFailedAttempt_def insert_attempt_def UpdateGatewayRouting_def AttachCardPaymentDetails_def
    MarkAuthorizationAuthorized_def MarkAuthorizationFailed_def ReverseAuthorization_def expire_payment_def Let_def bindR_Inr_iff
    split: if_split_asm dest!: commit_get_Inr
    intro: StartAuthorization_frame CaptureAuthorizedPayment_frame CreateOrder_frame)

lemma payment_more_eq:
  fixes db db' :: "'a refund_db_scheme"
  assumes "payment_db.more db' = payment_db.more db"
  shows "db_refunds db' = db_refunds db" "db_items db' = db_items db" "db_policies db' = db_policies db"
    "db_settlements db' = db_settlements db"
  using assms by (cases db rule: refund_db.cases_scheme; cases db' rule: refund_db.cases_scheme; simp)+

lemma settlement_more_eq:
  fixes db db' :: "'a refund_db_scheme"
  assumes "settlement_db.more db' = settlement_db.more db" shows "db_refunds db' = db_refunds db"
  using assms by (cases db rule: refund_db.cases_scheme; cases db' rule: refund_db.cases_scheme; simp)

lemma split_sum_append [simp]: "split_sum (ss @ ts) = split_sum ss + split_sum ts"
  by (simp add: split_sum_def)

section \<open>The payment operations are moves\<close>

lemma purses_kept:
  assumes "unique_key p_ID (db_payments db)" "lock_payment m i db = Inr p" "p_Status p \<noteq> Captured"
    and "\<And>q. purse_of (f q) = (purse_of q)\<lparr>u_Captured := False\<rparr>"
  shows "map purse_of (upd_where (\<lambda>q. p_ID q = i) f (db_payments db)) = map purse_of (db_payments db)"
proof -
  have "purse_of (if p_ID q = i then f q else q) = purse_of q" if "q \<in> set (db_payments db)" for q
  proof (cases "p_ID q = i")
    case True
    then have "q = p" using lock_paymentD [OF assms(2)] unique_key_inj [OF assms(1)] that by metis
    then show ?thesis using True assms(3,4) by (simp add: purse_of_def)
  qed simp
  then show ?thesis by (simp add: upd_where_def)
qed

definition same_money :: "'a payment_db_scheme \<Rightarrow> 'a payment_db_scheme \<Rightarrow> bool" where
  "same_money db db' \<longleftrightarrow> map purse_of (db_payments db') = map purse_of (db_payments db) \<and> db_ledger db' = db_ledger db"

lemma same_money_refl [simp]: "same_money db db"
  by (simp add: same_money_def)

lemma same_money_updates [simp]:
  "same_money db (emit e n v db1) = same_money db db1" "same_money db (set_attempt i g db1) = same_money db db1"
  "same_money db (set_challenge i h db1) = same_money db db1" "same_money db (set_order m i k db1) = same_money db db1"
  "same_money db (db1\<lparr>db_attempts := as\<rparr>) = same_money db db1" "same_money db (db1\<lparr>db_card_details := cs\<rparr>) = same_money db db1"
  "same_money db (db1\<lparr>db_orders := os\<rparr>) = same_money db db1" "same_money db (db1\<lparr>db_challenges := chs\<rparr>) = same_money db db1"
  "same_money db (db1\<lparr>db_outbox := ox\<rparr>) = same_money db db1"
  by (simp_all add: same_money_def db_simps)

lemma same_money_set:
  assumes "unique_key p_ID (db_payments db)" "lock_payment m i db = Inr p" "p_Status p \<noteq> Captured"
    and "\<And>q. purse_of (f q) = (purse_of q)\<lparr>u_Captured := False\<rparr>" "db_payments db1 = db_payments db" "db_ledger db1 = db_ledger db"
  shows "same_money db (set_payment i f db1)"
  using purses_kept [OF assms(1-4)] assms(5,6) by (simp add: same_money_def set_payment_def)

lemma challenge_money:
  assumes uniq: "unique_key p_ID (db_payments db)"
    and op: "CompleteCardChallenge evtID now m i tok gref auth at db = Inr (r, db')
      \<or> FailCardChallenge evtID now m i tok code desc st at db = Inr (r, db')"
  shows "same_money db db'"
proof -
  obtain p where p: "lock_payment m i db = Inr p"
    using op by (auto simp: CompleteCardChallenge_def FailCardChallenge_def bindR_Inr_iff)
  show ?thesis
  proof (cases "p_Status p = RequiresAction")
    case True
    then have "same_money db (set_payment i f db1)" if "\<And>q. purse_of (f q) = (purse_of q)\<lparr>u_Captured := False\<rparr>"
      "db_payments db1 = db_payments db" "db_ledger db1 = db_ledger db" for f db1
      using that same_money_set [OF uniq p] by simp
    then show ?thesis using op p
      by (cases "find (\<lambda>c. cc_PaymentID c = i) (db_challenges db)"; cases "challenge_status st")
         (auto simp: CompleteCardChallenge_def FailCardChallenge_def fail_challenge_def Let_def bindR_Inr_iff purse_of_def
            set_challenge_def split: if_split_asm)
  next
    case False
    then show ?thesis using op p
      by (cases "find (\<lambda>c. cc_PaymentID c = i) (db_challenges db)"; cases "challenge_status st")
         (auto simp: CompleteCardChallenge_def FailCardChallenge_def Let_def bindR_Inr_iff split: if_split_asm)
  qed
qed

lemma upsert_challenge_money: "upsert_challenge m i cin db1 = Inr db' \<Longrightarrow> same_money db db' = same_money db db1"
  by (auto simp: upsert_challenge_def split: if_split_asm)

lemma mark_money:
  assumes uniq: "unique_key p_ID (db_payments db)"
  shows "MarkAuthorizationRequiresAction evtID now m i cin db = Inr (r, db') \<Longrightarrow> same_money db db'"
    and "MarkAuthorizationAuthorized evtID now m i gref auth cap db = Inr (r, db') \<Longrightarrow> same_money db db'"
    and "MarkAuthorizationFailed evtID now m i code desc db = Inr db' \<Longrightarrow> same_money db db'"
    and "ReverseAuthorization evtID now m i reason db = Inr (r, db') \<Longrightarrow> same_money db db'"
proof -
  note set = same_money_set [OF uniq]
  show "MarkAuthorizationRequiresAction evtID now m i cin db = Inr (r, db') \<Longrightarrow> same_money db db'"
    by (auto simp: MarkAuthorizationRequiresAction_def bindR_Inr_iff purse_of_def split: if_split_asm
        dest!: commit_get_Inr upsert_challenge_money intro!: set)
  show "MarkAuthorizationAuthorized evtID now m i gref auth cap db = Inr (r, db') \<Longrightarrow> same_money db db'"
    by (auto simp: MarkAuthorizationAuthorized_def bindR_Inr_iff purse_of_def split: if_split_asm dest!: commit_get_Inr intro!: set)
  show "MarkAuthorizationFailed evtID now m i code desc db = Inr db' \<Longrightarrow> same_money db db'"
    by (auto simp: MarkAuthorizationFailed_def bindR_Inr_iff purse_of_def split: if_split_asm intro!: set)
  show "ReverseAuthorization evtID now m i reason db = Inr (r, db') \<Longrightarrow> same_money db db'"
    by (auto simp: ReverseAuthorization_def bindR_Inr_iff purse_of_def split: if_split_asm dest!: commit_get_Inr intro!: set)
qed

lemma expire_money:
  assumes "unique_key p_ID (db_payments db)" "p \<in> set (db_payments db)" "p_Status p = Authorized"
  shows "same_money db (expire_payment now evtID p db)"
proof -
  have "lock_payment (p_MerchantID p) (p_ID p) db = Inr p"
    using find_unique_key [OF assms(1,2), of "pay_at (p_MerchantID p) (p_ID p)"] by (simp add: lock_payment_def pay_at_def)
  then show ?thesis unfolding expire_payment_def
    using same_money_set [OF assms(1), of "p_MerchantID p" "p_ID p" p] assms(3) by (simp add: purse_of_def)
qed



lemma split_sum_payment: "split_sum (listPaymentSplits i db) \<le> split_sum (db_splits db)"
proof -
  have "sum_where q f (filter r xs) = sum_where (\<lambda>x. r x \<and> q x) f xs" for q r :: "payment_split \<Rightarrow> bool" and f xs
    by (simp add: sum_where_def conj_commute)
  then show ?thesis
    unfolding split_sum_def listPaymentSplits_def sum_where_sort_key by (auto intro: sum_where_mono)
qed

lemma abs_tr_stay:
  assumes "pay_frame db db'" "same_money db db'" shows "treasury_move (abs_tr db) (abs_tr db')"
proof -
  obtain new where new: "db_splits db' = db_splits db @ new" "payment_db.more db' = payment_db.more db"
    using assms(1) by (auto simp: pay_frame_def)
  have "abs_tr db' = (abs_tr db)\<lparr>t_splits := t_splits (abs_tr db) + split_sum new\<rparr>"
    using assms(2) new payment_more_eq [OF new(2)] by (simp add: abs_tr_def same_money_def)
  then show ?thesis using treasury_move.stay [OF split_sum_nonneg] by metis
qed

lemma map_purse_upd:
  assumes "\<And>p. purse_of (f p) = g (purse_of p)"
  shows "map purse_of (upd_where (\<lambda>p. p_ID p = i) f ps) = upd_where (\<lambda>u. u_ID u = i) g (map purse_of ps)"
  using assms by (induction ps) (simp_all add: purse_of_def)

lemma purse_of_fields [simp]:
  "u_ID (purse_of p) = p_ID p" "u_Amount (purse_of p) = p_Amount p" "u_MerchantID (purse_of p) = p_MerchantID p"
  "u_Captured (purse_of p) = (p_Status p = Captured)" "u_Settled (purse_of p) = p_Settled p"
  "u_Refunded (purse_of p) = p_AmountRefunded p" "u_Pending (purse_of p) = p_AmountRefundedPending p"
  "u_Fee (purse_of p) = p_Fee p" "u_SettlementID (purse_of p) = p_SettlementID p"
  by (simp_all add: purse_of_def)

lemma CreateOrder_money: "CreateOrder newid evtID now inp db = Inr (ord, db') \<Longrightarrow> same_money db db'"
  by (auto simp: CreateOrder_def InsertOrder_def Let_def bindR_Inr_iff split: if_split_asm)

lemma routing_money: "UpdateGatewayRouting m i d db = Inr db' \<Longrightarrow> same_money db db'"
  by (auto simp: UpdateGatewayRouting_def Let_def same_money_def upd_where_def purse_of_def split: if_split_asm)

lemma StartAuthorization_move:
  fixes db :: "'a refund_db_scheme"
  assumes op: "StartAuthorization attemptID newPayID splitID evtID now inp db = Inr (r, db')"
  shows "treasury_move (abs_tr db) (abs_tr db')"
  using op
proof (cases rule: StartAuthorization_Inr)
  case replay
  then show ?thesis by (intro abs_tr_stay) simp_all
next
  case (fresh ord pid)
  obtain new where new: "db_splits db' = db_splits db @ new" "payment_db.more db' = payment_db.more db"
    using StartAuthorization_frame [OF op] by (auto simp: pay_frame_def)
  let ?u = "purse_of (new_payment pid attemptID now inp)"
  have "abs_tr db' = (abs_tr db)\<lparr>t_purses := t_purses (abs_tr db) @ [?u], t_splits := t_splits (abs_tr db) + split_sum new\<rparr>"
    using fresh(7,9) new payment_more_eq [OF new(2)] by (simp add: abs_tr_def)
  moreover have "treasury_move (abs_tr db) ((abs_tr db)\<lparr>t_purses := t_purses (abs_tr db) @ [?u], t_splits := t_splits (abs_tr db) + split_sum new\<rparr>)"
    by (rule treasury_move.open_purse)
       (use fresh(3,5) in \<open>auto simp: abs_tr_def new_payment_def image_iff intro: split_sum_nonneg\<close>)
  ultimately show ?thesis by simp
qed

lemma CaptureAuthorizedPayment_move:
  fixes db :: "'a refund_db_scheme"
  assumes uniq: "unique_key p_ID (db_payments db)" and pos: "\<forall>p \<in> set (db_payments db). 0 < p_Amount p"
    and op: "CaptureAuthorizedPayment (t, e1, e2) now m i amount db = Inr (r, db')"
  shows "treasury_move (abs_tr db) (abs_tr db')"
  using op
proof (cases rule: CaptureAuthorizedPayment_Inr)
  case (replay p)
  then show ?thesis by (intro abs_tr_stay) simp_all
next
  case (fresh p es l)
  note p = lock_paymentD [OF fresh(1)]
  let ?acct = "\<lambda>m a. pooled m a l" and ?f = "\<lambda>u. u\<lparr>u_Captured := True, u_Fee := capture_fee amount\<rparr>"
  let ?s = "(upd_purse (u_ID (purse_of p)) ?f (abs_tr db))\<lparr>t_acct := ?acct\<rparr>"
  obtain new where new: "db_splits db' = db_splits db @ new" "payment_db.more db' = payment_db.more db"
    using CaptureAuthorizedPayment_frame [OF op] by (auto simp: pay_frame_def)
  have splits: "db_splits db' = db_splits db"
    using op fresh(1-3) by (auto simp: CaptureAuthorizedPayment_def bindR_Inr_iff db_simps dest!: commit_get_Inr)
  have "map purse_of (db_payments db') = upd_where (\<lambda>u. u_ID u = i) ?f (map purse_of (db_payments db))"
    unfolding fresh(7) by (rule map_purse_upd) (simp add: capture_payment_def purse_of_def)
  then have s': "abs_tr db' = ?s"
    using payment_more_eq [OF new(2)] splits p fresh(6) by (simp add: abs_tr_def upd_purse_def)
  have "capture_fee amount = u_Amount (purse_of p) * 2 div 100
      \<and> ?acct = add_acct (u_MerchantID (purse_of p)) (capture_delta (u_Amount (purse_of p))) (t_acct (abs_tr db))" if b: "bounded ?s"
  proof -
    have "?f (purse_of p) \<in> set (t_purses ?s)" using p by (force simp: upd_purse_def abs_tr_def set_upd_where)
    then have small: "amount < money_bound" using b fresh(3) by (auto simp: bounded_def)
    have amt: "0 < amount" "amount < 2 ^ 62" using small pos p fresh(3) by (simp_all add: money_bound_def)
    have "t_splits ?s < 2 ^ 62" using b by (simp only: bounded_def)
    then have sp: "split_sum (listPaymentSplits i db) < 2 ^ 62"
      using split_sum_payment [of i db] by (simp add: upd_purse_def abs_tr_def)
    show ?thesis
      using capture_fee_eq [of amount] amt pooled_post [OF fresh(5), of "capture_delta amount"] capture_entries_delta [OF amt sp fresh(4)] p fresh(3)
      by (simp add: abs_tr_def entries_on_def capture_delta_def)
  qed
  then show ?thesis unfolding s'
    by (intro treasury_move.capture_purse [where u = "purse_of p" and fee = "capture_fee amount" and acct = ?acct])
       (use p fresh(2) in \<open>auto simp: abs_tr_def\<close>)
qed

lemma pay_inv_positive: "pay_inv db \<Longrightarrow> \<forall>p \<in> set (db_payments db). 0 < p_Amount p"
  by (auto simp: pay_inv_def exposure_inv_def abs_pay_def claim_of_def)

lemma pay_step_move:
  fixes db :: "'a refund_db_scheme"
  assumes "pay_step db db'" "pay_inv db" shows "treasury_move (abs_tr db) (abs_tr db')"
proof -
  have frame: "pay_frame db db'" by (rule pay_step_frame [OF assms(1)])
  have uniq: "unique_key p_ID (db_payments db)" by (rule pay_inv_unique [OF assms(2)])
  show ?thesis using assms(1)
  proof (cases rule: pay_step.cases)
    case start
    then show ?thesis using StartAuthorization_move by blast
  next
    case (capture ids now m i amount r)
    then show ?thesis using CaptureAuthorizedPayment_move [OF uniq pay_inv_positive [OF assms(2)]] by (metis prod_cases3)
  next
    case expire_window
    then show ?thesis using abs_tr_stay [OF frame] expire_money [OF uniq] by blast
  next
    case expire_orders
    then show ?thesis by (intro abs_tr_stay [OF frame]) (auto simp: ExpireDueOrders_def Let_def)
  next
    case failed_attempt
    then show ?thesis
      by (intro abs_tr_stay [OF frame]) (auto simp: CreateFailedAttempt_def insert_attempt_def bindR_Inr_iff split: if_split_asm)
  next
    case attach
    then show ?thesis by (intro abs_tr_stay [OF frame]) (auto simp: AttachCardPaymentDetails_def split: if_split_asm)
  qed (blast intro: abs_tr_stay [OF frame] mark_money [OF uniq] challenge_money [OF uniq] CreateOrder_money routing_money)+
qed

section \<open>The refund operations are moves\<close>

text \<open>The bounds on a database: amounts per payment, captured volume and splits.\<close>

definition in_bounds :: "'a refund_db_scheme \<Rightarrow> bool" where
  "in_bounds db \<longleftrightarrow> (\<forall>p \<in> set (db_payments db). p_Status p = Captured \<longrightarrow> p_Amount p < money_bound)
     \<and> sum_where (\<lambda>p. p_Status p = Captured) p_Amount (db_payments db) < volume_bound \<and> split_sum (db_splits db) < 2 ^ 62"

lemma captured_volume: "sum_where u_Captured u_Amount (map purse_of ps) = sum_where (\<lambda>p. p_Status p = Captured) p_Amount ps"
  by (induction ps) simp_all

lemma in_bounds_abs: "in_bounds db = bounded (abs_tr db)"
  by (simp add: in_bounds_def bounded_def abs_tr_def captured_volume)

lemma purse_in: "p \<in> set (db_payments db) \<Longrightarrow> purse_of p \<in> set (t_purses (abs_tr db))"
  by (simp add: abs_tr_def)

lemma refund_in: "r \<in> set (db_refunds db) \<Longrightarrow> refund_view_of r \<in> set (t_refunds (abs_tr db))"
  by (simp add: abs_tr_def)

lemma refund_view_fields [simp]:
  "v_ID (refund_view_of r) = r_ID r" "v_PaymentID (refund_view_of r) = r_PaymentID r" "v_Status (refund_view_of r) = r_Status r"
  "v_MerchantID (refund_view_of r) = r_MerchantID r" "v_Amount (refund_view_of r) = r_Amount r"
  by (simp_all add: refund_view_of_def)

text \<open>What the invariant says of a payment row.\<close>

lemma payment_row:
  assumes "shape_inv (abs_tr db)" "p \<in> set (db_payments db)"
  shows "0 < p_Amount p" "0 \<le> p_AmountRefunded p" "0 \<le> p_AmountRefundedPending p"
    "p_Amount p < 2 ^ 63 \<Longrightarrow> p_AmountRefunded p + p_AmountRefundedPending p \<le> p_Amount p"
    "p_AmountRefundedPending p = refund_sum RefundProcessing (p_ID p) (t_refunds (abs_tr db))"
    "p_AmountRefunded p = refund_sum RefundProcessed (p_ID p) (t_refunds (abs_tr db))"
proof -
  have "purse_ok (t_refunds (abs_tr db)) (t_items (abs_tr db)) (purse_of p)"
    using shape_invD(4) [OF assms(1)] purse_in [OF assms(2)] by blast
  then show "0 < p_Amount p" "0 \<le> p_AmountRefunded p" "0 \<le> p_AmountRefundedPending p"
    "p_Amount p < 2 ^ 63 \<Longrightarrow> p_AmountRefunded p + p_AmountRefundedPending p \<le> p_Amount p"
    "p_AmountRefundedPending p = refund_sum RefundProcessing (p_ID p) (t_refunds (abs_tr db))"
    "p_AmountRefunded p = refund_sum RefundProcessed (p_ID p) (t_refunds (abs_tr db))"
    using refunds_nonneg [OF shape_invD(5) [OF assms(1)]] by (auto simp: purse_ok_def)
qed

lemma captured_money_ok:
  assumes "treasury_inv (abs_tr db)" "in_bounds db" "p \<in> set (db_payments db)" "p_Status p = Captured"
  shows "money_ok p"
proof -
  have shape: "shape_inv (abs_tr db)" and fee: "purse_fee_ok (purse_of p)"
    using assms purse_in [OF assms(3)] by (auto simp: treasury_inv_def in_bounds_abs)
  have "p_Amount p < money_bound" using assms(2-4) by (simp add: in_bounds_def)
  then show ?thesis
    using fee assms(4) payment_row [OF shape assms(3)] by (simp add: money_ok_def purse_fee_ok_def money_bound_def)
qed

text \<open>A refund in progress or processed is part of what its payment counts.\<close>

lemma refund_counted:
  assumes "shape_inv (abs_tr db)" "r \<in> set (db_refunds db)" "p_ID p = r_PaymentID r" "p \<in> set (db_payments db)"
  shows "0 < r_Amount r" "p_Status p = Captured" "p_MerchantID p = r_MerchantID r"
    "r_Status r = RefundProcessing \<Longrightarrow> r_Amount r \<le> p_AmountRefundedPending p"
    "r_Status r = RefundProcessed \<Longrightarrow> r_Amount r \<le> p_AmountRefunded p"
proof -
  note S = shape_invD [OF assms(1)]
  have ok: "\<forall>v \<in> set (t_refunds (abs_tr db)). 0 < v_Amount v" using S(5) by (auto simp: refund_ok_def)
  show "0 < r_Amount r" using ok refund_in [OF assms(2)] by force
  have "of_merchant (r_MerchantID r) (purse_of p)"
    using refund_purse [OF assms(1) refund_in [OF assms(2)] purse_in [OF assms(4)]] assms(3) by simp
  then show "p_Status p = Captured" "p_MerchantID p = r_MerchantID r" by (auto simp: of_merchant_def)
  have "r_Amount r \<le> refund_sum st (p_ID p) (t_refunds (abs_tr db))" if "r_Status r = st" for st
    unfolding refund_sum_def
    using sum_where_ge_member [of "t_refunds (abs_tr db)" "\<lambda>v. v_PaymentID v = p_ID p \<and> v_Status v = st" v_Amount "refund_view_of r"]
      ok refund_in [OF assms(2)] assms(3) that by force
  then show "r_Status r = RefundProcessing \<Longrightarrow> r_Amount r \<le> p_AmountRefundedPending p"
    "r_Status r = RefundProcessed \<Longrightarrow> r_Amount r \<le> p_AmountRefunded p"
    using payment_row(5,6) [OF assms(1,4)] by simp_all
qed

lemma CreateRefund_Inr:
  assumes "CreateRefund refundID evtID now inp db = Inr (r, db')"
  obtains p where "find (pay_at (cr_in_MerchantID inp) (cr_in_PaymentID inp)) (db_payments db) = Some p"
    "p_Status p = Captured" "0 < cr_in_Amount inp" "cr_in_Amount inp \<le> RefundableBalance p"
    "refundID \<notin> r_ID ` set (db_refunds db)" "r = new_refund refundID now inp p"
    "db' = emit evtID now (pay_event ''refund'' refundID ''refund.created'' (cr_in_MerchantID inp)
         [(''refund_id'', PStr refundID), (''payment_id'', PStr (cr_in_PaymentID inp)),
          (''amount'', PInt (cr_in_Amount inp)), (''currency'', PStr (p_Currency p))])
       (set_payment (cr_in_PaymentID inp) (reserve_refund (cr_in_Amount inp)) (db\<lparr>db_refunds := db_refunds db @ [r]\<rparr>))"
proof -
  obtain p where p: "find (pay_at (cr_in_MerchantID inp) (cr_in_PaymentID inp)) (db_payments db) = Some p"
    using assms by (cases "find (pay_at (cr_in_MerchantID inp) (cr_in_PaymentID inp)) (db_payments db)")
      (auto simp: CreateRefund_def split: if_split_asm)
  have fresh: "refundID \<notin> r_ID ` set (db_refunds db)" and pos: "0 < cr_in_Amount inp"
    using assms p by (auto simp: CreateRefund_def insert_pk_def new_refund_def split: if_split_asm)
  have none: "find (\<lambda>r. r_ID r = refundID \<and> r_MerchantID r = m) (db_refunds db) = None" for m
    using fresh by (auto simp: find_None_iff image_iff)
  show thesis
    using assms p fresh pos none
    by (intro that [OF p])
       (auto simp: CreateRefund_def insert_pk_def new_refund_def Let_def bindR_Inr_iff GetRefund_def find_append db_simps
          split: if_split_asm option.split_asm)
qed

lemma CreateRefund_move:
  assumes inv: "treasury_inv (abs_tr db)" and op: "CreateRefund refundID evtID now inp db = Inr (r, db')"
  shows "treasury_move (abs_tr db) (abs_tr db')"
  using op
proof (cases rule: CreateRefund_Inr)
  case (1 p)
  let ?m = "cr_in_MerchantID inp" and ?i = "cr_in_PaymentID inp" and ?a = "cr_in_Amount inp"
  let ?f = "\<lambda>u. u\<lparr>u_Pending := u_Pending u + v_Amount (refund_view_of r)\<rparr>"
  have p: "p \<in> set (db_payments db)" "p_ID p = ?i" "p_MerchantID p = ?m" using find_SomeD [OF 1(1)] by (auto simp: pay_at_def)
  have shape: "shape_inv (abs_tr db)" using inv by (simp add: treasury_inv_def)
  have r: "r_ID r = refundID" "r_PaymentID r = ?i" "r_MerchantID r = ?m" "r_Status r = RefundProcessing" "r_Amount r = ?a"
    by (simp_all add: 1(6) new_refund_def)
  have "map purse_of (db_payments db') = upd_where (\<lambda>u. u_ID u = ?i) ?f (map purse_of (db_payments db))"
    unfolding 1(7) by (simp add: db_simps r) (rule map_purse_upd, simp add: reserve_refund_def purse_of_def)
  then have s': "abs_tr db' = upd_purse (u_ID (purse_of p)) ?f ((abs_tr db)\<lparr>t_refunds := t_refunds (abs_tr db) @ [refund_view_of r]\<rparr>)"
    using p(2) by (simp add: abs_tr_def upd_purse_def 1(7) db_simps)
  have "?a \<le> p_Amount p - p_AmountRefunded p - p_AmountRefundedPending p" if "p_Amount p < 2 ^ 63"
  proof -
    note row = payment_row [OF shape p(1)]
    have "in64 (p_Amount p - p_AmountRefunded p)" "in64 (p_Amount p - p_AmountRefunded p - p_AmountRefundedPending p)"
      using row(1-3) row(4) [OF that] that by (simp_all add: in64_def)
    then show ?thesis using 1(4) by (simp add: RefundableBalance_def)
  qed
  then show ?thesis unfolding s'
    by (intro treasury_move.reserve) (use p 1(2,3,5) r purse_in [OF p(1)] in \<open>auto simp: abs_tr_def image_iff\<close>)
qed

lemma lock_refundD:
  assumes "lock_refund q db = Inr (r, p)"
  shows "r \<in> set (db_refunds db)" "q r" "p \<in> set (db_payments db)" "p_ID p = r_PaymentID r"
  using assms by (auto simp: lock_refund_def split: option.split_asm dest!: find_SomeD)

lemma RecordAdjustment_Inr:
  assumes "RecordAdjustment a db = Inr db'" shows "db' = db\<lparr>db_adjustments := db_adjustments db @ [a]\<rparr>"
  using assms by (auto simp: RecordAdjustment_def insert_pk_def split: if_split_asm)

lemma process_entries_on:
  assumes "0 \<le> f" "f \<le> a" "a < 2 ^ 62"
  shows "entries_on acct (process_entries a f cur) = refund_delta a f acct"
proof -
  have "in64 (a - f)" using assms by (simp add: in64_def)
  then show ?thesis
    using assms by (auto simp: entries_on_def process_entries_def refund_line_def refund_delta_def Let_def)
qed

lemma reversal_entries_on:
  assumes "0 \<le> f" "f \<le> a" "a < 2 ^ 62"
  shows "entries_on acct (reversal_entries a f cur) = refund_delta (- a) (- f) acct"
proof -
  have "in64 (a - f)" using assms by (simp add: in64_def)
  then show ?thesis
    using assms by (auto simp: entries_on_def reversal_entries_def refund_line_def refund_delta_def Let_def)
qed

text \<open>The fee given back between two refunded amounts of a payment within bounds.\<close>

lemma fee_delta:
  assumes ok: "money_ok p" and r: "0 \<le> r" "r \<le> s" "s \<le> p_Amount p"
  defines "d \<equiv> CalculateRefundFeeReversal (p_Amount p) (p_Fee p) s - CalculateRefundFeeReversal (p_Amount p) (p_Fee p) r"
  shows "0 \<le> d" "d \<le> s - r" "i64 d = d"
    "d = fee_share (p_Amount p) (p_Fee p) s - fee_share (p_Amount p) (p_Fee p) r"
proof -
  note p = money_okD [OF ok]
  show d: "0 \<le> d" "d \<le> s - r"
    using fee_reversal_mono [of "p_Amount p" "p_Fee p" r s] fee_reversal_growth [of "p_Amount p" "p_Fee p" r s] p r
    by (simp_all add: d_def)
  then have "in64 d" using p r by (simp add: in64_def money_bound_def)
  then show "i64 d = d" by simp
  show "d = fee_share (p_Amount p) (p_Fee p) s - fee_share (p_Amount p) (p_Fee p) r"
    using p r by (simp add: d_def fee_share_def fee_reversal_eq)
qed

text \<open>What an accepted \<open>ProcessRefund\<close> did to the money.\<close>

lemma ProcessRefund_Inr:
  assumes "ProcessRefund (t, e, a) now refundID db = Inr (res, db')"
  obtains r p fd where "lock_refund (\<lambda>r. r_ID r = refundID) db = Inr (r, p)" "r_Status r = RefundProcessing"
    "in64 (p_AmountRefunded p + r_Amount r)"
    "fd = i64 (CalculateRefundFeeReversal (p_Amount p) (p_Fee p) (p_AmountRefunded p + r_Amount r)
               - CalculateRefundFeeReversal (p_Amount p) (p_Fee p) (p_AmountRefunded p))"
    "CreateEntriesTx t (r_MerchantID r) ''refund'' refundID ''refund processed'' (process_entries (r_Amount r) fd (r_Currency r)) (db_ledger db)
       = Inr (db_ledger db')"
    "db_payments db' = upd_where (\<lambda>p. p_ID p = r_PaymentID r) (confirm_refund (r_Amount r)) (db_payments db)"
    "db_refunds db' = upd_where (\<lambda>r. r_ID r = refundID) (\<lambda>r. r\<lparr>r_Status := RefundProcessed, r_ProcessedAt := Some now\<rparr>) (db_refunds db)"
    "db_items db' = db_items db" "db_splits db' = db_splits db" "db_orders db' = db_orders db" "db_policies db' = db_policies db"
    "refund_db.more db' = refund_db.more db"
proof -
  obtain r p where lock: "lock_refund (\<lambda>r. r_ID r = refundID) db = Inr (r, p)"
    using assms by (auto simp: ProcessRefund_def bindR_Inr_iff)
  have st: "r_Status r = RefundProcessing"
    using assms lock by (cases "r_Status r") (auto simp: ProcessRefund_def bindR_Inr_iff RefundTransition_def)
  show thesis
  proof (cases "p_SettlementID p = ''''")
    case True
    then show thesis using assms lock st
      by (intro that [OF lock st _ refl])
         (auto simp: ProcessRefund_def bindR_Inr_iff Let_def RefundTransition_def db_simps set_refund_def split: if_split_asm)
  next
    case False
    then show thesis using assms lock st
      by (intro that [OF lock st _ refl])
         (auto simp: ProcessRefund_def bindR_Inr_iff Let_def RefundTransition_def db_simps set_refund_def set_settlement_def
            split: if_split_asm dest!: RecordAdjustment_Inr)
  qed
qed

lemma map_refund_upd:
  assumes "\<And>r. refund_view_of (f r) = (refund_view_of r)\<lparr>v_Status := st\<rparr>"
  shows "map refund_view_of (upd_where (\<lambda>r. r_ID r = i) f rs)
    = upd_where (\<lambda>v. v_ID v = i) (\<lambda>v. v\<lparr>v_Status := st\<rparr>) (map refund_view_of rs)"
  using assms by (induction rs) simp_all

lemma ProcessRefund_move:
  assumes inv: "treasury_inv (abs_tr db)" and op: "ProcessRefund (t, e, a) now refundID db = Inr (res, db')"
  shows "treasury_move (abs_tr db) (abs_tr db')"
  using op
proof (cases rule: ProcessRefund_Inr)
  case (1 r p fd)
  note D = lock_refundD [OF 1(1)]
  have shape: "shape_inv (abs_tr db)" using inv by (simp add: treasury_inv_def)
  note R = refund_counted [OF shape D(1) D(4) D(3)]
  let ?acct = "\<lambda>m a. pooled m a (db_ledger db')" and ?u = "purse_of p" and ?v = "refund_view_of r"
  let ?f = "\<lambda>u. u\<lparr>u_Refunded := u_Refunded u + v_Amount ?v, u_Pending := u_Pending u - v_Amount ?v\<rparr>"
  have "map purse_of (db_payments db') = upd_where (\<lambda>u. u_ID u = u_ID ?u) ?f (map purse_of (db_payments db))"
    unfolding 1(6) D(4) [symmetric] purse_of_fields by (rule map_purse_upd) (simp add: confirm_refund_def purse_of_def)
  moreover have "map refund_view_of (db_refunds db') = upd_where (\<lambda>v. v_ID v = v_ID ?v) (\<lambda>v. v\<lparr>v_Status := RefundProcessed\<rparr>) (map refund_view_of (db_refunds db))"
    unfolding 1(7) D(2) [symmetric] refund_view_fields by (rule map_refund_upd) (simp add: refund_view_of_def)
  ultimately have s': "abs_tr db' = (upd_purse (u_ID ?u) ?f (upd_refund (v_ID ?v) RefundProcessed (abs_tr db)))\<lparr>t_acct := ?acct\<rparr>"
    by (simp add: abs_tr_def upd_purse_def upd_refund_def 1(8,9))
  have "?acct = add_acct (v_MerchantID ?v) (refund_delta (v_Amount ?v) (share_step ?u (v_Amount ?v))) (t_acct (abs_tr db))"
    if b: "bounded (abs_tr db)"
  proof -
    have ok: "money_ok p" using captured_money_ok [OF inv _ D(3) R(2)] b by (simp add: in_bounds_abs)
    note row = payment_row [OF shape D(3)] and m = money_okD [OF ok]
    have le: "p_AmountRefunded p + r_Amount r \<le> p_Amount p" using row(4) R(4) [OF 1(2)] m(2) by (simp add: money_bound_def)
    note fee = fee_delta [OF ok row(2) _ le]
    have fd: "0 \<le> fd" "fd \<le> r_Amount r" "fd = share_step ?u (r_Amount r)"
      using fee R(1) by (simp_all add: 1(4) share_step_def purse_share_def)
    have "entries_on acct (process_entries (r_Amount r) fd (r_Currency r)) = refund_delta (r_Amount r) fd acct" for acct
      using fd(1,2) le row(2) m(2) by (intro process_entries_on) (simp_all add: money_bound_def)
    then show ?thesis using pooled_post [OF 1(5), of "refund_delta (r_Amount r) fd"] fd(3) by (simp add: abs_tr_def refund_delta_def)
  qed
  then show ?thesis unfolding s'
    by (intro treasury_move.confirm [where v = ?v and u = ?u and acct = ?acct, OF refund_in [OF D(1)] _ purse_in [OF D(3)] _ refl])
       (simp_all add: 1(2) D(4))
qed

lemma FailRefund_Inr:
  assumes "FailRefund evtID now refundID db = Inr (res, db')"
  obtains r where "r \<in> set (db_refunds db)" "r_ID r = refundID" "r_Status r = RefundProcessing" "db_ledger db' = db_ledger db"
    "db_payments db' = upd_where (\<lambda>p. p_ID p = r_PaymentID r) (\<lambda>p. p\<lparr>p_AmountRefundedPending := p_AmountRefundedPending p - r_Amount r\<rparr>) (db_payments db)"
    "db_refunds db' = upd_where (\<lambda>r. r_ID r = refundID) (\<lambda>r. r\<lparr>r_Status := RefundFailed\<rparr>) (db_refunds db)"
    "db_items db' = db_items db" "db_splits db' = db_splits db" "db_orders db' = db_orders db" "db_policies db' = db_policies db"
proof -
  obtain r where r: "find (\<lambda>r. r_ID r = refundID) (db_refunds db) = Some r"
    using assms by (cases "find (\<lambda>r. r_ID r = refundID) (db_refunds db)") (auto simp: FailRefund_def)
  have "r_Status r = RefundProcessing"
    using assms r by (cases "r_Status r") (auto simp: FailRefund_def bindR_Inr_iff RefundTransition_def)
  then show thesis using assms r find_SomeD [OF r]
    by (intro that [of r]) (auto simp: FailRefund_def RefundTransition_def db_simps set_refund_def split: if_split_asm)
qed

lemma FailRefund_move:
  assumes op: "FailRefund evtID now refundID db = Inr (res, db')"
  shows "treasury_move (abs_tr db) (abs_tr db')"
  using op
proof (cases rule: FailRefund_Inr)
  case (1 r)
  let ?v = "refund_view_of r"
  let ?f = "\<lambda>u. u\<lparr>u_Pending := u_Pending u - v_Amount ?v\<rparr>"
  have "map purse_of (db_payments db') = upd_where (\<lambda>u. u_ID u = v_PaymentID ?v) ?f (map purse_of (db_payments db))"
    unfolding 1(5) refund_view_fields by (rule map_purse_upd) (simp add: purse_of_def)
  moreover have "map refund_view_of (db_refunds db') = upd_where (\<lambda>v. v_ID v = v_ID ?v) (\<lambda>v. v\<lparr>v_Status := RefundFailed\<rparr>) (map refund_view_of (db_refunds db))"
    unfolding 1(6) 1(2) [symmetric] refund_view_fields by (rule map_refund_upd) (simp add: refund_view_of_def)
  ultimately have "abs_tr db' = upd_purse (v_PaymentID ?v) ?f (upd_refund (v_ID ?v) RefundFailed (abs_tr db))"
    by (simp add: abs_tr_def upd_purse_def upd_refund_def 1(4,7,8))
  then show ?thesis using treasury_move.drop_refund [OF refund_in [OF 1(1)]] 1(3) by simp
qed

lemma ReverseRefund_Inr:
  assumes "ReverseRefund (t, e, a) now m refundID reason db = Inr (res, db')"
  obtains r p fd status where "lock_refund (\<lambda>r. r_ID r = refundID \<and> r_MerchantID r = m) db = Inr (r, p)" "r_Status r = RefundProcessed"
    "r_Amount r \<le> p_AmountRefunded p" "in64 (p_AmountRefunded p - r_Amount r)"
    "fd = i64 (CalculateRefundFeeReversal (p_Amount p) (p_Fee p) (p_AmountRefunded p)
               - CalculateRefundFeeReversal (p_Amount p) (p_Fee p) (p_AmountRefunded p - r_Amount r))"
    "CreateEntriesTx t (r_MerchantID r) ''refund_reversal'' refundID ''refund reversed'' (reversal_entries (r_Amount r) fd (r_Currency r)) (db_ledger db)
       = Inr (db_ledger db')"
    "db_payments db' = upd_where (\<lambda>p. p_ID p = r_PaymentID r)
       (\<lambda>p. p\<lparr>p_AmountRefunded := p_AmountRefunded p - r_Amount r, p_RefundStatus := status\<rparr>) (db_payments db)"
    "db_refunds db' = upd_where (\<lambda>r. r_ID r = refundID)
       (\<lambda>r. r\<lparr>r_Status := RefundReversed, r_ReversalReason := reason, r_ReversedAt := Some now\<rparr>) (db_refunds db)"
    "db_items db' = db_items db" "db_splits db' = db_splits db" "db_orders db' = db_orders db" "db_policies db' = db_policies db"
    "refund_db.more db' = refund_db.more db"
proof -
  obtain r p where lock: "lock_refund (\<lambda>r. r_ID r = refundID \<and> r_MerchantID r = m) db = Inr (r, p)"
    using assms by (auto simp: ReverseRefund_def bindR_Inr_iff)
  have st: "r_Status r = RefundProcessed"
    using assms lock by (cases "r_Status r") (auto simp: ReverseRefund_def bindR_Inr_iff RefundTransition_def)
  have g: "r_Amount r \<le> p_AmountRefunded p" "in64 (p_AmountRefunded p - r_Amount r)"
    using assms lock st by (auto simp: ReverseRefund_def bindR_Inr_iff RefundTransition_def Let_def split: if_split_asm)
  show thesis
  proof (cases "p_SettlementID p = ''''")
    case True
    then show thesis using assms lock st g
      by (intro that [OF lock st g refl, of "refund_status_after (i64 (p_AmountRefunded p - r_Amount r + p_AmountRefundedPending p)) (p_Amount p)"])
         (auto simp: ReverseRefund_def bindR_Inr_iff Let_def RefundTransition_def db_simps set_refund_def split: if_split_asm)
  next
    case False
    then show thesis using assms lock st g
      by (intro that [OF lock st g refl, of "refund_status_after (i64 (p_AmountRefunded p - r_Amount r + p_AmountRefundedPending p)) (p_Amount p)"])
         (auto simp: ReverseRefund_def bindR_Inr_iff Let_def RefundTransition_def db_simps set_refund_def
            split: if_split_asm dest!: RecordAdjustment_Inr)
  qed
qed

lemma ReverseRefund_move:
  assumes inv: "treasury_inv (abs_tr db)" and op: "ReverseRefund (t, e, a) now m refundID reason db = Inr (res, db')"
  shows "treasury_move (abs_tr db) (abs_tr db')"
  using op
proof (cases rule: ReverseRefund_Inr)
  case (1 r p fd status)
  note D = lock_refundD [OF 1(1)]
  have shape: "shape_inv (abs_tr db)" using inv by (simp add: treasury_inv_def)
  note R = refund_counted [OF shape D(1) D(4) D(3)]
  let ?acct = "\<lambda>m a. pooled m a (db_ledger db')" and ?u = "purse_of p" and ?v = "refund_view_of r"
  let ?f = "\<lambda>u. u\<lparr>u_Refunded := u_Refunded u - v_Amount ?v\<rparr>"
  have "map purse_of (db_payments db') = upd_where (\<lambda>u. u_ID u = u_ID ?u) ?f (map purse_of (db_payments db))"
    unfolding 1(7) D(4) [symmetric] purse_of_fields by (rule map_purse_upd) (simp add: purse_of_def)
  moreover have "map refund_view_of (db_refunds db') = upd_where (\<lambda>v. v_ID v = v_ID ?v) (\<lambda>v. v\<lparr>v_Status := RefundReversed\<rparr>) (map refund_view_of (db_refunds db))"
    unfolding 1(8) conjunct1 [OF D(2), symmetric] refund_view_fields by (rule map_refund_upd) (simp add: refund_view_of_def)
  ultimately have s': "abs_tr db' = (upd_purse (u_ID ?u) ?f (upd_refund (v_ID ?v) RefundReversed (abs_tr db)))\<lparr>t_acct := ?acct\<rparr>"
    by (simp add: abs_tr_def upd_purse_def upd_refund_def 1(9,10))
  have "?acct = add_acct (v_MerchantID ?v) (refund_delta (- v_Amount ?v) (share_step ?u (- v_Amount ?v))) (t_acct (abs_tr db))"
    if b: "bounded (abs_tr db)"
  proof -
    have ok: "money_ok p" using captured_money_ok [OF inv _ D(3) R(2)] b by (simp add: in_bounds_abs)
    note m = money_okD [OF ok]
    have fee: "0 \<le> p_AmountRefunded p - r_Amount r" "p_AmountRefunded p - r_Amount r \<le> p_AmountRefunded p" using 1(3) R(1) by simp_all
    note fee = fee_delta [OF ok fee m(7)]
    have fd: "0 \<le> fd" "fd \<le> r_Amount r" "- fd = share_step ?u (- r_Amount r)"
      using fee by (simp_all add: 1(5) share_step_def purse_share_def)
    have "entries_on acct (reversal_entries (r_Amount r) fd (r_Currency r)) = refund_delta (- r_Amount r) (- fd) acct" for acct
      using fd(1,2) 1(3) m(2,7) by (intro reversal_entries_on) (simp_all add: money_bound_def)
    then show ?thesis using pooled_post [OF 1(6), of "refund_delta (- r_Amount r) (- fd)"] fd(3) by (simp add: abs_tr_def refund_delta_def)
  qed
  then show ?thesis unfolding s'
    by (intro treasury_move.reverse [where v = ?v and u = ?u and acct = ?acct, OF refund_in [OF D(1)] _ purse_in [OF D(3)] _ refl])
       (simp_all add: 1(2) D(4))
qed

section \<open>A settlement batch is a move\<close>

lemma net_of_purse:
  assumes "money_ok p" shows "purse_net (purse_of p) = net_of p"
  using money_okD [OF assms]
  by (simp add: purse_net_def net_of_def purse_share_def fee_share_def fee_back_def fee_reversal_eq)

lemma sum_filter_le: 
  "(\<And>x. x \<in> set xs \<Longrightarrow> q x \<Longrightarrow> r x) \<Longrightarrow> (\<And>x. x \<in> set xs \<Longrightarrow> r x \<Longrightarrow> 0 \<le> f x) \<Longrightarrow> sum_list (map f (filter q xs)) \<le> sum_where r f xs"
  using sum_where_mono [of xs q r f] by (simp add: sum_where_def)

lemma settle_batch_move:
  fixes db :: "'a refund_db_scheme"
  assumes inv: "treasury_inv (abs_tr db)" and pol: "policies_inv db" and uniq: "unique_key p_ID (db_payments db)"
    and ps: "ps = filter q (db_payments db)" "\<forall>p \<in> set ps. p_Status p = Captured \<and> p_MerchantID p = m \<and> \<not> p_Settled p"
    and op: "settle_batch wired ids now m period descr extra ps db = Inr (s, db')"
  shows "treasury_move (abs_tr db) (abs_tr db')"
  using op
proof (cases rule: settle_batch_Inr)
  case (1 totals gross reserve net items)
  have shape: "shape_inv (abs_tr db)" using inv by (simp add: treasury_inv_def)
  obtain new where new: "items = db_items db @ new" "new_items ids m ps new" using insert_items_Inr(1) [OF 1(8)] by blast
  let ?I = "p_ID ` set ps" and ?acct = "\<lambda>m a. pooled m a (db_ledger db')"
  let ?us = "filter (\<lambda>u. u_ID u \<in> ?I) (t_purses (abs_tr db))" and ?ws = "map item_view_of new"
  have "filter (\<lambda>p. p_ID p \<in> ?I) (db_payments db) = ps"
    unfolding ps(1) by (rule filter_cong [OF refl]) (use unique_key_inj [OF uniq] in auto)
  then have us: "?us = map purse_of ps" by (simp add: abs_tr_def filter_map o_def)
  have "map purse_of (db_payments db') = upd_where (\<lambda>u. u_ID u \<in> ?I) (\<lambda>u. u\<lparr>u_Settled := True, u_SettlementID := bi_Settlement ids\<rparr>) (map purse_of (db_payments db))"
    unfolding 1(11) by (simp add: upd_where_def settle_payment_def purse_of_def)
  then have s': "abs_tr db' = (abs_tr db)\<lparr>t_purses := upd_where (\<lambda>u. u_ID u \<in> ?I) (\<lambda>u. u\<lparr>u_Settled := True, u_SettlementID := bi_Settlement ids\<rparr>) (t_purses (abs_tr db)),
      t_items := t_items (abs_tr db) @ ?ws, t_acct := ?acct\<rparr>"
    using settlement_more_eq [OF 1(16)] by (simp add: abs_tr_def 1(9,13) new(1))
  have ids_eq: "map w_PaymentID ?ws = map u_ID ?us" "\<forall>w \<in> set ?ws. w_SettlementID w = bi_Settlement ids \<and> w_MerchantID w = m"
    using new(2) us by (simp_all add: new_items_def item_view_of_def o_def)
  have "unique_key it_PaymentID (db_items db)"
    using shape_invD(3) [OF shape] by (simp add: unique_key_def abs_tr_def item_view_of_def o_def)
  then have uq: "unique_key w_PaymentID (t_items (abs_tr db) @ ?ws)"
    using insert_items_Inr(2) [OF 1(8)] new(1) by (simp add: unique_key_def abs_tr_def item_view_of_def o_def)
  have "map w_Net ?ws = map purse_net ?us \<and> (\<exists>reserve. ?acct = add_acct m (settle_delta (sum_list (map purse_net ?us)) reserve) (t_acct (abs_tr db)))"
    if b: "bounded (abs_tr db)"
  proof -
    have ok: "list_all money_ok ps"
      using captured_money_ok [OF inv] b ps by (auto simp: list_all_iff in_bounds_abs)
    have vol: "sum_list (map p_Amount ps) < volume_bound"
    proof -
      have "sum_list (map p_Amount ps) \<le> sum_where (\<lambda>p. p_Status p = Captured) p_Amount (db_payments db)"
        unfolding ps(1) using ps payment_row(1) [OF shape] by (intro sum_filter_le) force+
      then show ?thesis using b by (simp add: bounded_def abs_tr_def captured_volume)
    qed
    have nets: "map (purse_net \<circ> purse_of) ps = map net_of ps" using ok net_of_purse by (simp add: list_all_iff)
    have gross: "gross = sum_list (map net_of ps)" using batch_gross(2) [OF ok vol] by (simp add: 1(1,2))
    have g: "0 \<le> gross" "gross < volume_bound" using batch_sums(6,7) [OF ok] vol gross by simp_all
    note res = reserve_bounds [OF pol g, of wired m, folded 1(3)]
    have net: "net = gross - reserve" using res g by (simp add: 1(4) in64_def volume_bound_def)
    have "map w_Net ?ws = map purse_net ?us"
      using new(2) ok item_net_eq [of _ ids now m 0] nets unfolding us
      by (simp add: new_items_def item_view_of_def o_def list_all_iff item_of_def)
    moreover have "?acct = add_acct m (settle_delta (sum_list (map purse_net ?us)) reserve) (t_acct (abs_tr db))"
    proof -
      have "sum_list (map purse_net ?us) = gross" unfolding us map_map nets gross by simp
      then show ?thesis
        using pooled_post [OF 1(10) [unfolded net], of "settle_delta gross reserve"] settlementEntries_on [of reserve gross] res
        by (simp add: abs_tr_def settle_delta_def)
    qed
    ultimately show ?thesis by blast
  qed
  then show ?thesis unfolding s'
    by (intro treasury_move.settle [OF refl _ ids_eq uq]) (use ps(2) us in \<open>auto simp: of_merchant_def\<close>)
qed

section \<open>The flow of money\<close>

inductive flow_step :: "'a refund_db_scheme \<Rightarrow> 'a refund_db_scheme \<Rightarrow> bool" where
  payment: "pay_step db db' \<Longrightarrow> flow_step db db'"
| batch: "RunBatch wired locked ids now m lo hi db = Inr (s, db') \<Longrightarrow> flow_step db db'"
| partial_batch: "RunPartialBatch wired locked ids now m pids db = Inr (s, db') \<Longrightarrow> flow_step db db'"
| hold_settlement: "HoldSettlement now m sid reason db = Inr db' \<Longrightarrow> flow_step db db'"
| release_settlement: "ReleaseSettlement now m sid db = Inr db' \<Longrightarrow> flow_step db db'"
| mark_rollback: "MarkRollback evtID now m sid reason db = Inr (s, db') \<Longrightarrow> flow_step db db'"
| set_preferences: "UpsertPreferences prefs db = Inr (pf, db') \<Longrightarrow> flow_step db db'"
| set_policy: "UpsertReservePolicy newid pol db = Inr (pl, db') \<Longrightarrow> flow_step db db'"
| create_refund: "CreateRefund refundID evtID now rin db = Inr (r, db') \<Longrightarrow> flow_step db db'"
| process_refund: "ProcessRefund rids now refundID db = Inr (r, db') \<Longrightarrow> flow_step db db'"
| fail_refund: "FailRefund evtID now refundID db = Inr (r, db') \<Longrightarrow> flow_step db db'"
| reverse_refund: "ReverseRefund rids now m refundID reason db = Inr (r, db') \<Longrightarrow> flow_step db db'"

definition flow_inv :: "'a refund_db_scheme \<Rightarrow> bool" where
  "flow_inv db \<longleftrightarrow> pay_inv db \<and> policies_inv db \<and> treasury_inv (abs_tr db)"

lemma posted_captures_other:
  "CreateEntriesTx t m st sid desc es l = Inr l' \<Longrightarrow> st \<noteq> ''payment'' \<Longrightarrow> posted_captures l' = posted_captures l"
  by (auto simp: CreateEntriesTx_Inr InsertTransaction_Inr posted_captures_def txn_row_def)

lemma pay_inv_kept:
  assumes "pay_inv db" "map claim_of (db_payments db') = map claim_of (db_payments db)" "db_orders db' = db_orders db"
    "posted_captures (db_ledger db') = posted_captures (db_ledger db)"
  shows "pay_inv db'"
  using assms by (simp add: pay_inv_def orders_inv_def abs_pay_def)

lemma settle_batch_claims:
  assumes "settle_batch wired ids now m period descr extra ps db = Inr (s, db')" "pay_inv db" shows "pay_inv db'"
  using assms(1)
proof (cases rule: settle_batch_Inr)
  case (1 totals gross reserve net items)
  show ?thesis
    by (rule pay_inv_kept [OF assms(2)])
       (simp_all add: 1(11,12) map_claim_same settle_payment_def claim_of_def posted_captures_other [OF 1(10)])
qed

lemma marks_same:
  shows "HoldSettlement now m sid reason db = Inr db' \<Longrightarrow> \<exists>ss. db' = db\<lparr>db_settlements := ss\<rparr>"
    and "ReleaseSettlement now m sid db = Inr db' \<Longrightarrow> \<exists>ss. db' = db\<lparr>db_settlements := ss\<rparr>"
    and "MarkRollback evtID now m sid reason db = Inr (s, db') \<Longrightarrow> \<exists>ss ox. db' = db\<lparr>db_settlements := ss, db_outbox := ox\<rparr>"
    and "UpsertPreferences prefs db = Inr (pf, db') \<Longrightarrow> \<exists>ps. db' = db\<lparr>db_preferences := ps\<rparr>"
    and "UpsertReservePolicy newid pol db = Inr (pl, db') \<Longrightarrow> \<exists>ps. db' = db\<lparr>db_policies := ps\<rparr>"
proof -
  show "HoldSettlement now m sid reason db = Inr db' \<Longrightarrow> \<exists>ss. db' = db\<lparr>db_settlements := ss\<rparr>"
    and "ReleaseSettlement now m sid db = Inr db' \<Longrightarrow> \<exists>ss. db' = db\<lparr>db_settlements := ss\<rparr>"
    by (auto simp: HoldSettlement_def ReleaseSettlement_def set_settlement_def Let_def split: if_split_asm)
  have "\<exists>ss ox. db = db\<lparr>db_settlements := ss, db_outbox := ox\<rparr>"
    by (intro exI [of _ "db_settlements db"] exI [of _ "db_outbox db"]) simp
  then show "MarkRollback evtID now m sid reason db = Inr (s, db') \<Longrightarrow> \<exists>ss ox. db' = db\<lparr>db_settlements := ss, db_outbox := ox\<rparr>"
    by (auto simp: MarkRollback_def set_settlement_def emit_def Let_def bindR_Inr_iff split: if_split_asm)
  show "UpsertPreferences prefs db = Inr (pf, db') \<Longrightarrow> \<exists>ps. db' = db\<lparr>db_preferences := ps\<rparr>"
    and "UpsertReservePolicy newid pol db = Inr (pl, db') \<Longrightarrow> \<exists>ps. db' = db\<lparr>db_policies := ps\<rparr>"
    by (auto simp: UpsertPreferences_def UpsertReservePolicy_def Let_def bindR_Inr_iff split: if_split_asm option.split_asm)
qed

lemma UpsertReservePolicy_valid:
  assumes "UpsertReservePolicy newid pol db = Inr (pl, db')" "policies_inv db" shows "policies_inv db'"
proof -
  let ?p = "pol\<lparr>rp_ID := '''', rp_Notes := TrimSpace (rp_Notes pol)\<rparr>"
  have "ValidatePolicy ?p = Inr ()" using assms(1) by (auto simp: UpsertReservePolicy_def bindR_Inr_iff Let_def)
  moreover have "ValidatePolicy (p\<lparr>rp_ID := i\<rparr>) = ValidatePolicy p" for i p by (simp add: ValidatePolicy_def)
  ultimately have valid: "ValidatePolicy (?p\<lparr>rp_ID := i\<rparr>) = Inr ()" for i by metis
  show ?thesis
  proof (cases "find (\<lambda>q. rp_MerchantID q = rp_MerchantID pol) (db_policies db)")
    case None
    then show ?thesis using assms valid [of newid]
      by (auto simp: UpsertReservePolicy_def bindR_Inr_iff Let_def policies_inv_def insert_pk_def split: if_split_asm)
  next
    case (Some old)
    then have "db' = db\<lparr>db_policies := upd_where (\<lambda>q. rp_MerchantID q = rp_MerchantID pol) (\<lambda>q. ?p\<lparr>rp_ID := rp_ID old\<rparr>) (db_policies db)\<rparr>"
      using assms(1) by (auto simp: UpsertReservePolicy_def bindR_Inr_iff Let_def)
    then show ?thesis using assms(2) valid [of "rp_ID old"] by (simp add: policies_inv_def ball_upd_where)
  qed
qed

lemma flow_step_pay_inv:
  assumes "flow_step db db'" "pay_inv db" shows "pay_inv db'"
  using assms
proof (induction rule: flow_step.induct)
  case (payment db db')
  then show ?case by (rule flow.inv_step)
next
  case (batch wired locked ids now m lo hi db s db')
  then show ?case by (auto simp: RunBatch_def Let_def split: if_split_asm intro: settle_batch_claims)
next
  case (partial_batch wired locked ids now m pids db s db')
  then show ?case by (auto simp: RunPartialBatch_def Let_def split: if_split_asm intro: settle_batch_claims)
next
  case (create_refund refundID evtID now rin db r db')
  from create_refund.hyps show ?case
    by (cases rule: CreateRefund_Inr, intro pay_inv_kept [OF create_refund.prems])
       (simp_all add: db_simps map_claim_same reserve_refund_def claim_of_def)
next
  case (process_refund rids now refundID db r db')
  obtain t e a where "rids = (t, e, a)" by (metis prod_cases3)
  from process_refund.hyps [unfolded this] show ?case
    by (cases rule: ProcessRefund_Inr, intro pay_inv_kept [OF process_refund.prems])
       (simp_all add: map_claim_same confirm_refund_def claim_of_def posted_captures_other)
next
  case (fail_refund evtID now refundID db r db')
  from fail_refund.hyps show ?case
    by (cases rule: FailRefund_Inr, intro pay_inv_kept [OF fail_refund.prems]) (simp_all add: map_claim_same claim_of_def)
next
  case (reverse_refund rids now m refundID reason db r db')
  obtain t e a where "rids = (t, e, a)" by (metis prod_cases3)
  from reverse_refund.hyps [unfolded this] show ?case
    by (cases rule: ReverseRefund_Inr, intro pay_inv_kept [OF reverse_refund.prems])
       (simp_all add: map_claim_same claim_of_def posted_captures_other)
qed (auto dest!: marks_same intro: pay_inv_kept)

lemma abs_tr_same:
  assumes "db_payments db' = db_payments db" "db_refunds db' = db_refunds db" "db_items db' = db_items db"
    "db_ledger db' = db_ledger db" "db_splits db' = db_splits db"
  shows "treasury_move (abs_tr db) (abs_tr db')"
proof -
  have "abs_tr db' = (abs_tr db)\<lparr>t_splits := t_splits (abs_tr db) + 0\<rparr>" using assms by (simp add: abs_tr_def)
  then show ?thesis using treasury_move.stay [of 0 "abs_tr db"] by simp
qed

lemma batch_move:
  fixes db :: "'a refund_db_scheme"
  assumes inv: "flow_inv db"
  shows "RunBatch wired locked ids now m lo hi db = Inr (s, db') \<Longrightarrow> treasury_move (abs_tr db) (abs_tr db')"
    and "RunPartialBatch wired locked ids now m pids db = Inr (s, db') \<Longrightarrow> treasury_move (abs_tr db) (abs_tr db')"
proof -
  note I = inv [unfolded flow_inv_def]
  note move = settle_batch_move [OF conjunct2 [OF conjunct2 [OF I]] conjunct1 [OF conjunct2 [OF I]]
      pay_inv_unique [OF conjunct1 [OF I]] refl]
  show "RunBatch wired locked ids now m lo hi db = Inr (s, db') \<Longrightarrow> treasury_move (abs_tr db) (abs_tr db')"
    by (rule move [rotated]) (auto simp: RunBatch_def Let_def settleable_def split: if_split_asm)
  show "RunPartialBatch wired locked ids now m pids db = Inr (s, db') \<Longrightarrow> treasury_move (abs_tr db) (abs_tr db')"
    by (rule move [rotated]) (auto simp: RunPartialBatch_def Let_def settleable_def split: if_split_asm)
qed

lemma flow_step_move:
  assumes "flow_step db db'" "flow_inv db" shows "treasury_move (abs_tr db) (abs_tr db')"
proof -
  have inv: "treasury_inv (abs_tr db)" "pay_inv db" using assms(2) by (simp_all add: flow_inv_def)
  show ?thesis using assms(1)
  proof (cases rule: flow_step.cases)
    case payment
    then show ?thesis using pay_step_move inv(2) by blast
  next
    case (process_refund rids now refundID r)
    then show ?thesis using ProcessRefund_move [OF inv(1)] by (metis prod_cases3)
  next
    case (reverse_refund rids now m refundID reason r)
    then show ?thesis using ReverseRefund_move [OF inv(1)] by (metis prod_cases3)
  next
    case (hold_settlement now m sid reason)
    from marks_same(1) [OF this] show ?thesis by (auto intro!: abs_tr_same)
  next
    case (release_settlement now m sid)
    from marks_same(2) [OF this] show ?thesis by (auto intro!: abs_tr_same)
  next
    case (mark_rollback evtID now m sid reason s)
    from marks_same(3) [OF this] show ?thesis by (auto intro!: abs_tr_same)
  next
    case (set_preferences prefs pf)
    from marks_same(4) [OF this] show ?thesis by (auto intro!: abs_tr_same)
  next
    case (set_policy newid pol pl)
    from marks_same(5) [OF this] show ?thesis by (auto intro!: abs_tr_same)
  next
    case (batch wired locked ids now m lo hi s)
    then show ?thesis by (rule batch_move(1) [OF assms(2)])
  next
    case (partial_batch wired locked ids now m pids s)
    then show ?thesis by (rule batch_move(2) [OF assms(2)])
  next
    case (create_refund refundID evtID now rin r)
    then show ?thesis by (rule CreateRefund_move [OF inv(1)])
  next
    case (fail_refund evtID now refundID r)
    then show ?thesis by (rule FailRefund_move)
  qed
qed

lemma settle_batch_policies: "settle_batch wired ids now m period descr extra ps db = Inr (s, db') \<Longrightarrow> db_policies db' = db_policies db"
  by (erule settle_batch_Inr)

lemma flow_step_policies:
  assumes "flow_step db db'" "policies_inv db" shows "policies_inv db'"
proof (cases "\<exists>newid pol pl. UpsertReservePolicy newid pol db = Inr (pl, db')")
  case True
  then show ?thesis using UpsertReservePolicy_valid assms(2) by blast
next
  case False
  have "db_policies db' = db_policies db" using assms(1)
  proof (cases rule: flow_step.cases)
    case payment
    then show ?thesis using pay_step_frame payment_more_eq(3) by (auto simp: pay_frame_def)
  next
    case (process_refund rids now refundID r)
    obtain t e a where "rids = (t, e, a)" by (metis prod_cases3)
    from process_refund [unfolded this] show ?thesis by (cases rule: ProcessRefund_Inr) simp
  next
    case (reverse_refund rids now m refundID reason r)
    obtain t e a where "rids = (t, e, a)" by (metis prod_cases3)
    from reverse_refund [unfolded this] show ?thesis by (cases rule: ReverseRefund_Inr) simp
  next
    case (create_refund refundID evtID now rin r)
    then show ?thesis by (cases rule: CreateRefund_Inr) (simp add: db_simps)
  next
    case (fail_refund evtID now refundID r)
    then show ?thesis by (cases rule: FailRefund_Inr) simp
  qed (use False in \<open>auto dest!: marks_same simp: RunBatch_def RunPartialBatch_def Let_def split: if_split_asm intro: settle_batch_policies\<close>)
  then show ?thesis using assms(2) by (simp add: policies_inv_def)
qed

interpretation money: invariant_system flow_step flow_inv
proof unfold_locales
  fix db db' :: "'a refund_db_scheme"
  assume step: "flow_step db db'" and inv: "flow_inv db"
  show "flow_inv db'"
    using flow_step_pay_inv [OF step] flow_step_policies [OF step] treasury.inv_step [OF flow_step_move [OF step inv]] inv
    by (simp add: flow_inv_def)
qed

text \<open>A database before any money moved.\<close>

definition blank :: "'a refund_db_scheme \<Rightarrow> bool" where
  "blank db \<longleftrightarrow> db_payments db = [] \<and> db_refunds db = [] \<and> db_items db = []
     \<and> ledger_transactions (db_ledger db) = [] \<and> ledger_entries (db_ledger db) = [] \<and> orders_inv db \<and> policies_inv db"

lemma blank_inv: assumes "blank db" shows "flow_inv db"
proof -
  have "pay_inv db" using assms
    by (simp add: blank_def pay_inv_def exposure_inv_def abs_pay_def posted_captures_def posted_ok_def claimed_def
        caps_def order_row_ok_def orders_inv_def find_None_iff)
       (auto dest!: find_SomeD)
  moreover have "treasury_inv (abs_tr db)"
    using assms by (simp add: blank_def treasury_inv_def shape_inv_def abs_tr_def pooled_def books_def items_net_def account_balance_def balance_where_def)
  ultimately show ?thesis using assms by (simp add: flow_inv_def blank_def)
qed

lemma reachable_inv: "flow_step\<^sup>*\<^sup>* db db' \<Longrightarrow> blank db \<Longrightarrow> flow_inv db'"
  using money.inv_steps blank_inv by blast

end
