(* ===== verification/Payout.thy ===== *)
theory Payout
  imports Refund
begin

text \<open>
  Payouts (\<open>internal/payout\<close>): the bank transfer of a settlement, its approval, the callbacks of the
  payment rail that drive it, the beneficiaries it goes to, payout batches and the simulated rail. The
  empty string stands for NULL in the text columns, as \<open>scanPayout\<close> reads them. Sealing of the
  identity columns (\<open>internal/common/protect\<close>) and the digest of the fingerprint are arguments, and so
  is the saga service. The hash stored with a callback receipt is kept as the text that is hashed;
  nothing reads it.
\<close>

section \<open>Domain\<close>

datatype payout_state = PoPending | PoProcessing | PoCompleted | PoFailed | PoReturned | PoReversed | PoCancelled

datatype payout_event = PoInitiate | PoComplete | PoFail | PoReturn | PoReverse | PoCancel

datatype payout_error =
    ErrPayoutNotFound
  | ErrPayoutTransition
  | ErrInvalidRailSignature
  | ErrSimulatorScenarioNotFound
  | ErrInvalidSimulatorScenario
  | ErrBeneficiaryNotFound
  | ErrBeneficiaryNotApproved
  | ErrBeneficiaryInvalid
  | ErrPayoutBatchNotFound
  | ErrTransientRail
  | ErrPayoutConstraint
  | ErrSeal
  | ErrSaga
  | PayoutLedger ledger_error

definition PayoutTransition :: "payout_state \<Rightarrow> payout_event \<Rightarrow> payout_error + payout_state" where
  "PayoutTransition from ev =
     (case (from, ev) of
        (PoPending, PoInitiate) \<Rightarrow> Inr PoProcessing
      | (PoPending, PoCancel) \<Rightarrow> Inr PoCancelled
      | (PoProcessing, PoComplete) \<Rightarrow> Inr PoCompleted
      | (PoProcessing, PoFail) \<Rightarrow> Inr PoFailed
      | (PoProcessing, PoReturn) \<Rightarrow> Inr PoReturned
      | (PoProcessing, PoReverse) \<Rightarrow> Inr PoReversed
      | (PoProcessing, PoCancel) \<Rightarrow> Inr PoCancelled
      | (PoCompleted, PoReturn) \<Rightarrow> Inr PoReturned
      | (PoCompleted, PoReverse) \<Rightarrow> Inr PoReversed
      | _ \<Rightarrow> Inl ErrPayoutTransition)"

definition payout_rank :: "payout_state \<Rightarrow> nat" where
  "payout_rank s = (case s of PoPending \<Rightarrow> 0 | PoProcessing \<Rightarrow> 1 | PoCompleted \<Rightarrow> 2 | _ \<Rightarrow> 3)"

interpretation pom: ranked_machine PayoutTransition payout_rank 3
  by unfold_locales
     (auto simp: PayoutTransition_def payout_rank_def split: payout_state.splits payout_event.splits)

datatype approval_status = NotRequired | ApprovalPending | ApprovalApproved | ApprovalRejected

definition approval_name :: "approval_status \<Rightarrow> string" where
  "approval_name a = (case a of NotRequired \<Rightarrow> ''not_required'' | ApprovalPending \<Rightarrow> ''pending''
     | ApprovalApproved \<Rightarrow> ''approved'' | ApprovalRejected \<Rightarrow> ''rejected'')"

record payout =
  po_ID :: id
  po_MerchantID :: id
  po_SettlementID :: id
  po_BeneficiaryID :: id
  po_SagaID :: id
  po_BatchID :: id
  po_Status :: payout_state
  po_ApprovalStatus :: approval_status
  po_Amount :: int
  po_Currency :: string
  po_BankReference :: string
  po_RailReference :: string
  po_FailureReason :: string
  po_ReturnReason :: string
  po_CancelReason :: string
  po_ApprovalNotes :: string
  po_ApprovedBy :: string
  po_ApprovedAt :: "time option"
  po_InitiatedAt :: "time option"
  po_CompletedAt :: "time option"
  po_FailedAt :: "time option"
  po_ReturnedAt :: "time option"
  po_ReversedAt :: "time option"
  po_CancelledAt :: "time option"
  po_CreatedAt :: time

record timeline_event =
  te_ID :: id
  te_PayoutID :: id
  te_MerchantID :: id
  te_EventType :: string
  te_StatusBefore :: payout_state
  te_StatusAfter :: payout_state
  te_CallbackEventID :: id
  te_Payload :: payload
  te_CreatedAt :: time

datatype rail_status = RailProcessing | RailCompleted | RailFailed | RailReturned | RailReversed

definition rail_name :: "rail_status \<Rightarrow> string" where
  "rail_name s = (case s of RailProcessing \<Rightarrow> ''processing'' | RailCompleted \<Rightarrow> ''completed'' | RailFailed \<Rightarrow> ''failed''
     | RailReturned \<Rightarrow> ''returned'' | RailReversed \<Rightarrow> ''reversed'')"

definition eventTypeForRailStatus :: "rail_status \<Rightarrow> string" where
  "eventTypeForRailStatus status = ''payout.rail_'' @ rail_name status"

record rail_callback =
  cb_EventID :: id
  cb_PayoutID :: id
  cb_MerchantID :: id
  cb_Status :: rail_status
  cb_RailReference :: string
  cb_Reason :: string
  cb_OccurredAt :: "time option"

record callback_receipt =
  rc_ID :: id
  rc_EventID :: id
  rc_PayoutID :: id
  rc_MerchantID :: id
  rc_Status :: rail_status
  rc_Signature :: string
  rc_Hashed :: string

record scenario_step =
  sc_Status :: rail_status
  sc_DelayMilliseconds :: int
  sc_RailReference :: string
  sc_Reason :: string
  sc_DuplicateCount :: int

record scenario =
  sn_ID :: id
  sn_MerchantID :: id
  sn_SettlementID :: id
  sn_TransientFailuresRemaining :: int
  sn_Steps :: "scenario_step list"
  sn_Notes :: string

datatype destination = DestBankAccount | DestVPA | DestOther string

datatype beneficiary_status = BenPendingVerification | BenVerified | BenApproved | BenRejected | BenDisabled

record beneficiary =
  bn_ID :: id
  bn_MerchantID :: id
  bn_DestinationType :: destination
  bn_AccountHolderName :: string
  bn_BankAccountLast4 :: string
  bn_BankIFSC :: string
  bn_VPA :: string
  bn_Fingerprint :: string
  bn_Status :: beneficiary_status
  bn_VerificationFreshUntil :: "time option"
  bn_ApprovedAt :: "time option"
  bn_ApprovalNotes :: string
  bn_CreatedAt :: time

record approval_record =
  ar_ID :: id
  ar_PayoutID :: id
  ar_MerchantID :: id
  ar_Actor :: string
  ar_ActorScope :: string
  ar_Decision :: string
  ar_Notes :: string
  ar_CreatedAt :: time

record payout_batch =
  pb_ID :: id
  pb_MerchantID :: id
  pb_DryRun :: bool
  pb_Status :: string
  pb_IdempotencyKey :: string
  pb_Summary :: payload
  pb_CreatedAt :: time

record batch_item =
  bt_ID :: id
  bt_BatchID :: id
  bt_MerchantID :: id
  bt_SettlementID :: id
  bt_BeneficiaryID :: id
  bt_PayoutID :: id
  bt_Amount :: int
  bt_Currency :: string
  bt_Status :: string
  bt_ErrorText :: string

record payout_db = refund_db +
  db_payouts :: "payout list"
  db_payout_events :: "timeline_event list"
  db_receipts :: "callback_receipt list"
  db_scenarios :: "scenario list"
  db_beneficiaries :: "beneficiary list"
  db_approvals :: "approval_record list"
  db_batches :: "payout_batch list"
  db_batch_items :: "batch_item list"

section \<open>Rows and events\<close>

definition payout_at :: "id \<Rightarrow> id \<Rightarrow> payout \<Rightarrow> bool" where
  "payout_at merchantID payoutID p \<longleftrightarrow> po_ID p = payoutID \<and> po_MerchantID p = merchantID"

definition GetPayoutByID :: "id \<Rightarrow> id \<Rightarrow> 'a payout_db_scheme \<Rightarrow> payout_error + payout" where
  "GetPayoutByID merchantID payoutID db =
     (case find (payout_at merchantID payoutID) (db_payouts db) of
        None \<Rightarrow> Inl ErrPayoutNotFound | Some p \<Rightarrow> Inr p)"

definition GetBySettlementID :: "id \<Rightarrow> id \<Rightarrow> 'a payout_db_scheme \<Rightarrow> payout_error + payout" where
  "GetBySettlementID merchantID settlementID db =
     (case find (\<lambda>p. po_SettlementID p = settlementID \<and> po_MerchantID p = merchantID) (db_payouts db) of
        None \<Rightarrow> Inl ErrPayoutNotFound | Some p \<Rightarrow> Inr p)"

definition ListPayouts :: "id \<Rightarrow> int \<Rightarrow> 'a payout_db_scheme \<Rightarrow> payout list" where
  "ListPayouts merchantID limit db =
     (let limit = (if limit \<le> 0 then 50 else limit) in
      take (nat limit) (sort_key (\<lambda>p. - po_CreatedAt p) (filter (\<lambda>p. po_MerchantID p = merchantID) (db_payouts db))))"

text \<open>The timeline row, under its primary key and the unique index on the callback event.\<close>

definition recordEventTx :: "timeline_event \<Rightarrow> 'a payout_db_scheme \<Rightarrow> payout_error + 'a payout_db_scheme" where
  "recordEventTx ev db =
     (if te_ID ev \<in> te_ID ` set (db_payout_events db)
         \<or> te_PayoutID ev \<notin> po_ID ` set (db_payouts db)
         \<or> te_CallbackEventID ev \<noteq> '''' \<and> te_CallbackEventID ev \<in> te_CallbackEventID ` set (db_payout_events db)
      then Inl ErrPayoutConstraint
      else Inr (db\<lparr>db_payout_events := db_payout_events db @ [ev]\<rparr>))"

definition timeline :: "id \<Rightarrow> time \<Rightarrow> payout \<Rightarrow> string \<Rightarrow> payout_state \<Rightarrow> id \<Rightarrow> payload \<Rightarrow> timeline_event" where
  "timeline eventID now p eventType after callback payload =
     \<lparr>te_ID = eventID, te_PayoutID = po_ID p, te_MerchantID = po_MerchantID p, te_EventType = eventType,
      te_StatusBefore = po_Status p, te_StatusAfter = after, te_CallbackEventID = callback, te_Payload = payload,
      te_CreatedAt = now\<rparr>"

definition ListEvents :: "id \<Rightarrow> id \<Rightarrow> int \<Rightarrow> 'a payout_db_scheme \<Rightarrow> timeline_event list" where
  "ListEvents merchantID payoutID limit db =
     (let limit = (if limit \<le> 0 \<or> limit > 200 then 100 else limit) in
      take (nat limit) (sort_key (\<lambda>e. - te_CreatedAt e)
        (filter (\<lambda>e. te_PayoutID e = payoutID \<and> te_MerchantID e = merchantID) (db_payout_events db))))"

definition set_payout :: "id \<Rightarrow> (payout \<Rightarrow> payout) \<Rightarrow> 'a payout_db_scheme \<Rightarrow> 'a payout_db_scheme" where
  "set_payout payoutID f db = db\<lparr>db_payouts := upd_where (\<lambda>p. po_ID p = payoutID) f (db_payouts db)\<rparr>"

text \<open>\<open>time.Unix()\<close> of a time in microseconds.\<close>

definition unix :: "time \<Rightarrow> int" where
  "unix t = t div seconds 1"

section \<open>Repository operations\<close>

text \<open>
  \<open>ids\<close> are the identifiers an operation draws: of the timeline row, of the ledger transaction, of the
  outbox row and, for a callback, of the receipt.
\<close>

record payout_ids =
  pi_Event :: id
  pi_Txn :: id
  pi_Outbox :: id
  pi_Receipt :: id

definition payout_outbox :: "payout_ids \<Rightarrow> time \<Rightarrow> payout \<Rightarrow> string \<Rightarrow> payload \<Rightarrow> 'a payout_db_scheme \<Rightarrow> 'a payout_db_scheme" where
  "payout_outbox ids now p eventType payload db =
     emit (pi_Outbox ids) now (pay_event ''payout'' (po_ID p) eventType (po_MerchantID p) payload) db"

definition new_payout :: "id \<Rightarrow> time \<Rightarrow> id \<Rightarrow> id \<Rightarrow> id \<Rightarrow> int \<Rightarrow> string \<Rightarrow> approval_status \<Rightarrow> id \<Rightarrow> payout" where
  "new_payout payoutID now merchantID settlementID beneficiaryID amount currency approval batchID =
     \<lparr>po_ID = payoutID, po_MerchantID = merchantID, po_SettlementID = settlementID, po_BeneficiaryID = beneficiaryID,
      po_SagaID = '''', po_BatchID = batchID, po_Status = PoPending, po_ApprovalStatus = approval, po_Amount = amount,
      po_Currency = currency, po_BankReference = '''', po_RailReference = '''', po_FailureReason = '''',
      po_ReturnReason = '''', po_CancelReason = '''', po_ApprovalNotes = '''', po_ApprovedBy = '''', po_ApprovedAt = None,
      po_InitiatedAt = None, po_CompletedAt = None, po_FailedAt = None, po_ReturnedAt = None, po_ReversedAt = None,
      po_CancelledAt = None, po_CreatedAt = now\<rparr>"

definition CreateForSettlement ::
  "id \<Rightarrow> payout_ids \<Rightarrow> time \<Rightarrow> id \<Rightarrow> id \<Rightarrow> id \<Rightarrow> int \<Rightarrow> string \<Rightarrow> approval_status \<Rightarrow> id
     \<Rightarrow> 'a payout_db_scheme \<Rightarrow> payout_error + payout \<times> 'a payout_db_scheme" where
  "CreateForSettlement payoutID ids now merchantID settlementID beneficiaryID amount currency approval batchID db =
     (let p = new_payout payoutID now merchantID settlementID beneficiaryID amount currency approval batchID;
          details = [(''settlement_id'', PStr settlementID), (''beneficiary_id'', PStr beneficiaryID), (''amount'', PInt amount),
                     (''currency'', PStr currency), (''approval_status'', PStr (approval_name approval))] in
      if payoutID \<in> po_ID ` set (db_payouts db) \<or> settlementID \<in> po_SettlementID ` set (db_payouts db)
      then Inl ErrPayoutConstraint
      else
      bindR (recordEventTx (timeline (pi_Event ids) now p ''payout.created'' PoPending '''' details)
               (db\<lparr>db_payouts := db_payouts db @ [p]\<rparr>)) (\<lambda>db1.
        let db' = payout_outbox ids now p ''payout.created'' ((''payout_id'', PStr payoutID) # details) db1 in
        bindR (GetPayoutByID merchantID payoutID db') (\<lambda>r. Inr (r, db'))))"

definition InitiateRepo ::
  "payout_ids \<Rightarrow> time \<Rightarrow> id \<Rightarrow> id \<Rightarrow> 'a payout_db_scheme \<Rightarrow> payout_error + payout \<times> 'a payout_db_scheme" where
  "InitiateRepo ids now merchantID payoutID db =
     bindR (GetPayoutByID merchantID payoutID db) (\<lambda>p.
     bindR (PayoutTransition (po_Status p) PoInitiate) (\<lambda>_.
     bindR (recordEventTx (timeline (pi_Event ids) now p ''payout.initiated'' PoProcessing ''''
                [(''payout_id'', PStr payoutID), (''occurred_at'', PInt (unix now))])
              (set_payout payoutID (\<lambda>p. p\<lparr>po_Status := PoProcessing, po_InitiatedAt := Some now\<rparr>) db)) (\<lambda>db1.
       let db' = payout_outbox ids now p ''payout.initiated'' [(''payout_id'', PStr payoutID)] db1 in
       bindR (GetPayoutByID merchantID payoutID db') (\<lambda>r. Inr (r, db')))))"

definition transfer_entries :: "string \<Rightarrow> string \<Rightarrow> payout \<Rightarrow> string \<Rightarrow> string \<Rightarrow> entry list" where
  "transfer_entries debited credited p descr1 descr2 =
     [\<lparr>e_AccountCode = debited, e_DebitAmount = po_Amount p, e_CreditAmount = 0, e_Currency = po_Currency p, e_Description = descr1\<rparr>,
      \<lparr>e_AccountCode = credited, e_DebitAmount = 0, e_CreditAmount = po_Amount p, e_Currency = po_Currency p, e_Description = descr2\<rparr>]"

definition completePayoutTx ::
  "payout_ids \<Rightarrow> time \<Rightarrow> payout \<Rightarrow> string \<Rightarrow> 'a payout_db_scheme \<Rightarrow> payout_error + 'a payout_db_scheme" where
  "completePayoutTx ids now p railReference db =
     bindR (mapL PayoutLedger (CreateEntriesTx (pi_Txn ids) (po_MerchantID p) ''payout'' (po_ID p)
              (''payout '' @ po_ID p @ '' completed'')
              (transfer_entries ''SETTLEMENT_CLEARING'' ''MERCHANT_BANK_PAYOUT'' p
                 ''settlement clearing debit on payout'' ''merchant bank payout credit'') (db_ledger db))) (\<lambda>ledger.
       Inr (payout_outbox ids now p ''payout.completed''
              [(''payout_id'', PStr (po_ID p)), (''bank_reference'', PStr railReference), (''amount'', PInt (po_Amount p)),
               (''currency'', PStr (po_Currency p))]
              (set_payout (po_ID p)
                 (\<lambda>p. p\<lparr>po_Status := PoCompleted, po_BankReference := railReference, po_RailReference := railReference,
                         po_CompletedAt := Some now\<rparr>)
                 (db\<lparr>db_ledger := ledger\<rparr>))))"

definition failPayoutTx :: "payout_ids \<Rightarrow> time \<Rightarrow> payout \<Rightarrow> string \<Rightarrow> 'a payout_db_scheme \<Rightarrow> 'a payout_db_scheme" where
  "failPayoutTx ids now p reason db =
     payout_outbox ids now p ''payout.failed'' [(''payout_id'', PStr (po_ID p)), (''reason'', PStr reason)]
       (set_payout (po_ID p) (\<lambda>p. p\<lparr>po_Status := PoFailed, po_FailureReason := reason, po_FailedAt := Some now\<rparr>) db)"

text \<open>The row update both return operations share: the column it stamps depends on the target state.\<close>

definition mark_returned :: "time \<Rightarrow> payout_state \<Rightarrow> string \<Rightarrow> string \<Rightarrow> payout \<Rightarrow> payout" where
  "mark_returned now target railReference reason p =
     (let p' = p\<lparr>po_Status := target, po_RailReference := railReference, po_ReturnReason := reason\<rparr> in
      if target = PoReversed then p'\<lparr>po_ReversedAt := Some now\<rparr> else p'\<lparr>po_ReturnedAt := Some now\<rparr>)"

definition return_name :: "payout_state \<Rightarrow> string" where
  "return_name target = (if target = PoReversed then ''reversed'' else ''returned'')"

definition markReturnedWithoutLedgerTx ::
  "payout_ids \<Rightarrow> time \<Rightarrow> payout_state \<Rightarrow> payout \<Rightarrow> string \<Rightarrow> string \<Rightarrow> 'a payout_db_scheme \<Rightarrow> 'a payout_db_scheme" where
  "markReturnedWithoutLedgerTx ids now target p railReference reason db =
     payout_outbox ids now p (''payout.'' @ return_name target)
       [(''payout_id'', PStr (po_ID p)), (''rail_reference'', PStr railReference), (''reason'', PStr reason)]
       (set_payout (po_ID p) (mark_returned now target railReference reason) db)"

definition reversePayoutLedgerTx ::
  "payout_ids \<Rightarrow> time \<Rightarrow> payout_state \<Rightarrow> string \<Rightarrow> string \<Rightarrow> payout \<Rightarrow> string \<Rightarrow> string
     \<Rightarrow> 'a payout_db_scheme \<Rightarrow> payout_error + 'a payout_db_scheme" where
  "reversePayoutLedgerTx ids now target sourceType eventType p railReference reason db =
     bindR (mapL PayoutLedger (CreateEntriesTx (pi_Txn ids) (po_MerchantID p) sourceType (po_ID p)
              (eventType @ '' for payout '' @ po_ID p)
              (transfer_entries ''MERCHANT_BANK_PAYOUT'' ''SETTLEMENT_CLEARING'' p (eventType @ '' debit'') (eventType @ '' credit''))
              (db_ledger db))) (\<lambda>ledger.
       Inr (payout_outbox ids now p eventType
              [(''payout_id'', PStr (po_ID p)), (''rail_reference'', PStr railReference), (''reason'', PStr reason),
               (''amount'', PInt (po_Amount p)), (''currency'', PStr (po_Currency p))]
              (set_payout (po_ID p) (mark_returned now target railReference reason) (db\<lparr>db_ledger := ledger\<rparr>))))"

definition CompletePayout ::
  "payout_ids \<Rightarrow> time \<Rightarrow> id \<Rightarrow> id \<Rightarrow> string \<Rightarrow> 'a payout_db_scheme \<Rightarrow> payout_error + payout \<times> 'a payout_db_scheme" where
  "CompletePayout ids now merchantID payoutID bankReference db =
     bindR (GetPayoutByID merchantID payoutID db) (\<lambda>p.
     bindR (PayoutTransition (po_Status p) PoComplete) (\<lambda>_.
     bindR (completePayoutTx ids now p bankReference db) (\<lambda>db1.
     bindR (recordEventTx (timeline (pi_Event ids) now p ''payout.completed'' PoCompleted ''''
                [(''payout_id'', PStr payoutID), (''bank_reference'', PStr bankReference), (''amount'', PInt (po_Amount p)),
                 (''currency'', PStr (po_Currency p))]) db1) (\<lambda>db'.
       bindR (GetPayoutByID merchantID payoutID db') (\<lambda>r. Inr (r, db'))))))"

definition FailPayout ::
  "payout_ids \<Rightarrow> time \<Rightarrow> id \<Rightarrow> id \<Rightarrow> string \<Rightarrow> 'a payout_db_scheme \<Rightarrow> payout_error + payout \<times> 'a payout_db_scheme" where
  "FailPayout ids now merchantID payoutID reason db =
     bindR (GetPayoutByID merchantID payoutID db) (\<lambda>p.
     bindR (PayoutTransition (po_Status p) PoFail) (\<lambda>_.
     bindR (recordEventTx (timeline (pi_Event ids) now p ''payout.failed'' PoFailed ''''
                [(''payout_id'', PStr payoutID), (''reason'', PStr reason)])
              (failPayoutTx ids now p reason db)) (\<lambda>db'.
       bindR (GetPayoutByID merchantID payoutID db') (\<lambda>r. Inr (r, db')))))"

definition CancelPayout ::
  "payout_ids \<Rightarrow> time \<Rightarrow> id \<Rightarrow> id \<Rightarrow> string \<Rightarrow> 'a payout_db_scheme \<Rightarrow> payout_error + payout \<times> 'a payout_db_scheme" where
  "CancelPayout ids now merchantID payoutID reason db =
     bindR (GetPayoutByID merchantID payoutID db) (\<lambda>p.
       if po_Status p = PoCancelled then Inr (p, db)
       else if po_Status p \<noteq> PoPending \<and> po_Status p \<noteq> PoProcessing then Inl ErrPayoutTransition
       else
       bindR (recordEventTx (timeline (pi_Event ids) now p ''payout.cancelled'' PoCancelled ''''
                  [(''payout_id'', PStr payoutID), (''reason'', PStr reason)])
                (set_payout payoutID (\<lambda>p. p\<lparr>po_Status := PoCancelled, po_CancelReason := reason, po_CancelledAt := Some now\<rparr>) db))
         (\<lambda>db1.
         let db' = payout_outbox ids now p ''payout.cancelled'' [(''payout_id'', PStr payoutID), (''reason'', PStr reason)] db1 in
         bindR (GetPayoutByID merchantID payoutID db') (\<lambda>r. Inr (r, db'))))"

definition AttachSaga :: "id \<Rightarrow> id \<Rightarrow> id \<Rightarrow> 'a payout_db_scheme \<Rightarrow> payout_error + payout \<times> 'a payout_db_scheme" where
  "AttachSaga merchantID payoutID sagaID db =
     (let db' = db\<lparr>db_payouts := upd_where (payout_at merchantID payoutID) (\<lambda>p. p\<lparr>po_SagaID := sagaID\<rparr>) (db_payouts db)\<rparr> in
      bindR (GetPayoutByID merchantID payoutID db') (\<lambda>r. Inr (r, db')))"

section \<open>Rail callbacks\<close>

text \<open>
  What a callback does to the payout it names, by the state the payout is in, and the state the
  timeline records. A callback that does not fit the state only leaves its timeline row.
\<close>

definition rail_effect ::
  "payout_ids \<Rightarrow> time \<Rightarrow> payout \<Rightarrow> rail_callback \<Rightarrow> 'a payout_db_scheme \<Rightarrow> payout_error + payout_state \<times> 'a payout_db_scheme" where
  "rail_effect ids now p cb db =
     (case (cb_Status cb, po_Status p) of
        (RailProcessing, PoPending) \<Rightarrow>
          Inr (PoProcessing,
            set_payout (po_ID p)
              (\<lambda>p. p\<lparr>po_Status := PoProcessing,
                     po_InitiatedAt := (case po_InitiatedAt p of None \<Rightarrow> Some now | Some t \<Rightarrow> Some t),
                     po_RailReference := cb_RailReference cb\<rparr>) db)
      | (RailCompleted, PoProcessing) \<Rightarrow>
          bindR (completePayoutTx ids now p (cb_RailReference cb) db) (\<lambda>db'. Inr (PoCompleted, db'))
      | (RailFailed, PoProcessing) \<Rightarrow> Inr (PoFailed, failPayoutTx ids now p (cb_Reason cb) db)
      | (RailReturned, PoProcessing) \<Rightarrow>
          Inr (PoReturned, markReturnedWithoutLedgerTx ids now PoReturned p (cb_RailReference cb) (cb_Reason cb) db)
      | (RailReturned, PoCompleted) \<Rightarrow>
          bindR (reversePayoutLedgerTx ids now PoReturned ''payout_return'' ''payout.returned'' p (cb_RailReference cb) (cb_Reason cb) db)
            (\<lambda>db'. Inr (PoReturned, db'))
      | (RailReversed, PoProcessing) \<Rightarrow>
          Inr (PoReversed, markReturnedWithoutLedgerTx ids now PoReversed p (cb_RailReference cb) (cb_Reason cb) db)
      | (RailReversed, PoCompleted) \<Rightarrow>
          bindR (reversePayoutLedgerTx ids now PoReversed ''payout_reversal'' ''payout.reversed'' p (cb_RailReference cb) (cb_Reason cb) db)
            (\<lambda>db'. Inr (PoReversed, db'))
      | _ \<Rightarrow> Inr (po_Status p, db))"

definition applyRailCallbackTx ::
  "payout_ids \<Rightarrow> time \<Rightarrow> payout \<Rightarrow> rail_callback \<Rightarrow> 'a payout_db_scheme \<Rightarrow> payout_error + payout \<times> 'a payout_db_scheme" where
  "applyRailCallbackTx ids clock p cb db =
     (let now = (case cb_OccurredAt cb of None \<Rightarrow> clock | Some t \<Rightarrow> t);
          payload = [(''event_id'', PStr (cb_EventID cb)), (''payout_id'', PStr (cb_PayoutID cb)),
                     (''merchant_id'', PStr (cb_MerchantID cb)), (''status'', PStr (rail_name (cb_Status cb))),
                     (''rail_reference'', PStr (cb_RailReference cb)), (''reason'', PStr (cb_Reason cb)),
                     (''occurred_at'', PInt (unix now))] in
      bindR (rail_effect ids now p cb db) (\<lambda>(after, db1).
      bindR (recordEventTx (timeline (pi_Event ids) clock p (eventTypeForRailStatus (cb_Status cb)) after (cb_EventID cb) payload) db1) (\<lambda>db'.
        bindR (GetPayoutByID (po_MerchantID p) (po_ID p) db') (\<lambda>r. Inr (r, db')))))"

definition receipt_of :: "id \<Rightarrow> rail_callback \<Rightarrow> string \<Rightarrow> callback_receipt" where
  "receipt_of receiptID cb signature =
     \<lparr>rc_ID = receiptID, rc_EventID = cb_EventID cb, rc_PayoutID = cb_PayoutID cb, rc_MerchantID = cb_MerchantID cb,
      rc_Status = cb_Status cb, rc_Signature = signature,
      rc_Hashed = cb_PayoutID cb @ ''|'' @ cb_MerchantID cb @ ''|'' @ rail_name (cb_Status cb) @ ''|'' @ cb_RailReference cb
        @ ''|'' @ cb_Reason cb\<rparr>"

definition ApplyRailCallback ::
  "payout_ids \<Rightarrow> time \<Rightarrow> rail_callback \<Rightarrow> string \<Rightarrow> 'a payout_db_scheme
     \<Rightarrow> payout_error + (payout \<times> bool) \<times> 'a payout_db_scheme" where
  "ApplyRailCallback ids clock cb signature db =
     bindR (GetPayoutByID (cb_MerchantID cb) (cb_PayoutID cb) db) (\<lambda>p.
       if cb_EventID cb \<in> rc_EventID ` set (db_receipts db) then Inr ((p, False), db)
       else case insert_pk rc_ID (receipt_of (pi_Receipt ids) cb signature) (db_receipts db) of
              None \<Rightarrow> Inl ErrPayoutConstraint
            | Some rows \<Rightarrow>
                bindR (applyRailCallbackTx ids clock p cb (db\<lparr>db_receipts := rows\<rparr>)) (\<lambda>(r, db').
                  Inr ((r, True), db')))"

section \<open>Approvals\<close>

definition RecordApproval ::
  "id \<Rightarrow> time \<Rightarrow> id \<Rightarrow> id \<Rightarrow> string \<Rightarrow> string \<Rightarrow> string \<Rightarrow> string
     \<Rightarrow> 'a payout_db_scheme \<Rightarrow> payout_error + payout \<times> 'a payout_db_scheme" where
  "RecordApproval approvalID now merchantID payoutID actor actorScope decision notes db =
     bindR (GetPayoutByID merchantID payoutID db) (\<lambda>p.
       if po_ApprovalStatus p = NotRequired then Inr (p, db)
       else
       let a = \<lparr>ar_ID = approvalID, ar_PayoutID = payoutID, ar_MerchantID = merchantID, ar_Actor = actor,
                ar_ActorScope = actorScope, ar_Decision = decision, ar_Notes = notes, ar_CreatedAt = now\<rparr>;
           decide = (\<lambda>q. q\<lparr>po_ApprovalStatus := (if decision = ''rejected'' then ApprovalRejected else ApprovalApproved),
                           po_ApprovalNotes := notes, po_ApprovedBy := actor, po_ApprovedAt := Some now\<rparr>);
           reject = (\<lambda>q. if decision = ''rejected'' \<and> po_Status p = PoPending
                         then q\<lparr>po_Status := PoCancelled, po_CancelReason := ''approval rejected'', po_CancelledAt := Some now\<rparr>
                         else q) in
       if decision \<noteq> ''approved'' \<and> decision \<noteq> ''rejected'' then Inl ErrPayoutConstraint
       else case insert_pk ar_ID a (db_approvals db) of
         None \<Rightarrow> Inl ErrPayoutConstraint
       | Some rows \<Rightarrow>
           let db' = db\<lparr>db_approvals := rows,
                        db_payouts := upd_where (payout_at merchantID payoutID) (\<lambda>q. reject (decide q)) (db_payouts db)\<rparr> in
           bindR (GetPayoutByID merchantID payoutID db') (\<lambda>r. Inr (r, db')))"

definition ListApprovals :: "id \<Rightarrow> id \<Rightarrow> 'a payout_db_scheme \<Rightarrow> approval_record list" where
  "ListApprovals merchantID payoutID db =
     sort_key ar_CreatedAt (filter (\<lambda>a. ar_MerchantID a = merchantID \<and> ar_PayoutID a = payoutID) (db_approvals db))"

section \<open>Beneficiaries\<close>

type_synonym sealing = "string \<Rightarrow> payout_error + string"

definition lower_char :: "char \<Rightarrow> char" where
  "lower_char c = (if 65 \<le> (of_char c :: nat) \<and> (of_char c :: nat) \<le> 90 then char_of ((of_char c :: nat) + 32) else c)"

definition ToLower :: "string \<Rightarrow> string" where
  "ToLower s = map lower_char s"

definition destination_name :: "destination \<Rightarrow> string" where
  "destination_name d = (case d of DestBankAccount \<Rightarrow> ''bank_account'' | DestVPA \<Rightarrow> ''vpa'' | DestOther s \<Rightarrow> s)"

definition ValidateBeneficiary :: "beneficiary \<Rightarrow> payout_error + unit" where
  "ValidateBeneficiary b =
     (if TrimSpace (bn_AccountHolderName b) = '''' then Inl ErrBeneficiaryInvalid
      else case bn_DestinationType b of
        DestBankAccount \<Rightarrow>
          if TrimSpace (bn_BankAccountLast4 b) = '''' \<or> TrimSpace (bn_BankIFSC b) = '''' then Inl ErrBeneficiaryInvalid else Inr ()
      | DestVPA \<Rightarrow> if TrimSpace (bn_VPA b) = '''' then Inl ErrBeneficiaryInvalid else Inr ()
      | DestOther _ \<Rightarrow> Inl ErrBeneficiaryInvalid)"

definition fingerprintBeneficiary :: "(string \<Rightarrow> string) \<Rightarrow> beneficiary \<Rightarrow> string" where
  "fingerprintBeneficiary digest b =
     digest (destination_name (bn_DestinationType b) @ ''|'' @ TrimSpace (ToLower (bn_AccountHolderName b)) @ ''|''
       @ TrimSpace (ToUpper (bn_BankIFSC b)) @ ''|'' @ TrimSpace (ToLower (bn_VPA b)) @ ''|'' @ TrimSpace (bn_BankAccountLast4 b))"

definition seal_beneficiary :: "sealing \<Rightarrow> beneficiary \<Rightarrow> payout_error + beneficiary" where
  "seal_beneficiary seal b =
     bindR (seal (bn_AccountHolderName b)) (\<lambda>name.
     bindR (seal (bn_BankIFSC b)) (\<lambda>ifsc.
     bindR (seal (bn_VPA b)) (\<lambda>vpa.
       Inr (b\<lparr>bn_AccountHolderName := name, bn_BankIFSC := ifsc, bn_VPA := vpa\<rparr>))))"

text \<open>The insert returns the stored row, with the identity columns still sealed.\<close>

definition CreateBeneficiary ::
  "sealing \<Rightarrow> (string \<Rightarrow> string) \<Rightarrow> id \<Rightarrow> time \<Rightarrow> beneficiary \<Rightarrow> 'a payout_db_scheme
     \<Rightarrow> payout_error + beneficiary \<times> 'a payout_db_scheme" where
  "CreateBeneficiary seal digest newid now inp db =
     (let b = inp\<lparr>bn_ID := newid, bn_Fingerprint := fingerprintBeneficiary digest inp, bn_Status := BenPendingVerification,
                  bn_VerificationFreshUntil := None, bn_ApprovedAt := None, bn_ApprovalNotes := '''', bn_CreatedAt := now\<rparr> in
      bindR (seal_beneficiary seal b) (\<lambda>row.
        if newid \<in> bn_ID ` set (db_beneficiaries db) \<or> bn_DestinationType row \<notin> {DestBankAccount, DestVPA}
           \<or> (bn_MerchantID row, bn_Fingerprint row) \<in> (\<lambda>r. (bn_MerchantID r, bn_Fingerprint r)) ` set (db_beneficiaries db)
        then Inl ErrPayoutConstraint
        else Inr (row, db\<lparr>db_beneficiaries := db_beneficiaries db @ [row]\<rparr>)))"

definition GetBeneficiary :: "sealing \<Rightarrow> id \<Rightarrow> id \<Rightarrow> 'a payout_db_scheme \<Rightarrow> payout_error + beneficiary" where
  "GetBeneficiary unseal merchantID beneficiaryID db =
     (case find (\<lambda>b. bn_MerchantID b = merchantID \<and> bn_ID b = beneficiaryID) (db_beneficiaries db) of
        None \<Rightarrow> Inl ErrBeneficiaryNotFound | Some b \<Rightarrow> seal_beneficiary unseal b)"

definition set_beneficiary :: "id \<Rightarrow> (beneficiary \<Rightarrow> beneficiary) \<Rightarrow> 'a payout_db_scheme \<Rightarrow> 'a payout_db_scheme" where
  "set_beneficiary beneficiaryID f db =
     db\<lparr>db_beneficiaries := upd_where (\<lambda>b. bn_ID b = beneficiaryID) f (db_beneficiaries db)\<rparr>"

definition VerifyBeneficiary ::
  "sealing \<Rightarrow> time \<Rightarrow> id \<Rightarrow> id \<Rightarrow> 'a payout_db_scheme \<Rightarrow> payout_error + beneficiary \<times> 'a payout_db_scheme" where
  "VerifyBeneficiary unseal now merchantID beneficiaryID db =
     bindR (GetBeneficiary unseal merchantID beneficiaryID db) (\<lambda>b.
       let verify = (\<lambda>b. b\<lparr>bn_Status := BenVerified, bn_VerificationFreshUntil := Some (now + days 30)\<rparr>) in
       Inr (verify b, set_beneficiary beneficiaryID verify db))"

definition ApproveBeneficiary ::
  "sealing \<Rightarrow> time \<Rightarrow> id \<Rightarrow> id \<Rightarrow> string \<Rightarrow> 'a payout_db_scheme \<Rightarrow> payout_error + beneficiary \<times> 'a payout_db_scheme" where
  "ApproveBeneficiary unseal now merchantID beneficiaryID notes db =
     bindR (GetBeneficiary unseal merchantID beneficiaryID db) (\<lambda>b.
       if bn_Status b \<noteq> BenVerified \<and> bn_Status b \<noteq> BenApproved then Inl ErrBeneficiaryNotApproved
       else
       let db' = db\<lparr>db_beneficiaries := upd_where (\<lambda>b. bn_ID b = beneficiaryID \<and> bn_MerchantID b = merchantID)
                     (\<lambda>b. b\<lparr>bn_Status := BenApproved, bn_ApprovalNotes := notes, bn_ApprovedAt := Some now\<rparr>) (db_beneficiaries db)\<rparr> in
       bindR (GetBeneficiary unseal merchantID beneficiaryID db') (\<lambda>r. Inr (r, db')))"

section \<open>The simulated rail\<close>

definition validateSimulatorScenario :: "scenario \<Rightarrow> payout_error + unit" where
  "validateSimulatorScenario s =
     (if list_ex (\<lambda>st. sc_DelayMilliseconds st < 0 \<or> sc_DuplicateCount st < 0) (sn_Steps s) then Inl ErrInvalidSimulatorScenario
      else if sn_TransientFailuresRemaining s < 0 then Inl ErrInvalidSimulatorScenario
      else Inr ())"

definition UpsertSimulatorScenario ::
  "id \<Rightarrow> id \<Rightarrow> id \<Rightarrow> scenario \<Rightarrow> 'a payout_db_scheme \<Rightarrow> payout_error + scenario \<times> 'a payout_db_scheme" where
  "UpsertSimulatorScenario newid merchantID settlementID s db =
     bindR (validateSimulatorScenario s) (\<lambda>_.
       let at = (\<lambda>r. sn_MerchantID r = merchantID \<and> sn_SettlementID r = settlementID);
           merge = (\<lambda>r. r\<lparr>sn_TransientFailuresRemaining := sn_TransientFailuresRemaining s, sn_Steps := sn_Steps s, sn_Notes := sn_Notes s\<rparr>);
           row = s\<lparr>sn_ID := newid, sn_MerchantID := merchantID, sn_SettlementID := settlementID\<rparr> in
       case find at (db_scenarios db) of
         Some old \<Rightarrow> Inr (merge old, db\<lparr>db_scenarios := upd_where at merge (db_scenarios db)\<rparr>)
       | None \<Rightarrow> (case insert_pk sn_ID row (db_scenarios db) of
                    None \<Rightarrow> Inl ErrPayoutConstraint | Some rows \<Rightarrow> Inr (row, db\<lparr>db_scenarios := rows\<rparr>)))"

definition defaultSimulatorScenario :: scenario where
  "defaultSimulatorScenario =
     \<lparr>sn_ID = '''', sn_MerchantID = '''', sn_SettlementID = '''', sn_TransientFailuresRemaining = 0,
      sn_Steps = [\<lparr>sc_Status = RailProcessing, sc_DelayMilliseconds = 0, sc_RailReference = '''', sc_Reason = '''', sc_DuplicateCount = 0\<rparr>,
                  \<lparr>sc_Status = RailCompleted, sc_DelayMilliseconds = 2000, sc_RailReference = '''', sc_Reason = '''', sc_DuplicateCount = 0\<rparr>],
      sn_Notes = ''''\<rparr>"

text \<open>The scenario of the payout's settlement; one transient failure is used up.\<close>

definition GetSimulatorScenarioForPayout ::
  "id \<Rightarrow> id \<Rightarrow> 'a payout_db_scheme \<Rightarrow> (scenario option \<times> bool) \<times> 'a payout_db_scheme" where
  "GetSimulatorScenarioForPayout merchantID payoutID db =
     (case find (\<lambda>s. list_ex (\<lambda>p. payout_at merchantID payoutID p \<and> po_SettlementID p = sn_SettlementID s
                                  \<and> po_MerchantID p = sn_MerchantID s) (db_payouts db)) (db_scenarios db) of
        None \<Rightarrow> ((None, False), db)
      | Some s \<Rightarrow>
          if sn_TransientFailuresRemaining s > 0
          then ((Some (s\<lparr>sn_TransientFailuresRemaining := sn_TransientFailuresRemaining s - 1\<rparr>), True),
                db\<lparr>db_scenarios := upd_where (\<lambda>r. sn_ID r = sn_ID s)
                     (\<lambda>r. r\<lparr>sn_TransientFailuresRemaining := sn_TransientFailuresRemaining r - 1\<rparr>) (db_scenarios db)\<rparr>)
          else ((Some s, False), db))"

definition defaultRailReference :: "scenario_step \<Rightarrow> time \<Rightarrow> string" where
  "defaultRailReference step now =
     (if sc_RailReference step \<noteq> '''' then sc_RailReference step
      else if sc_Status step = RailCompleted then ''BNK_'' @ decimal (nat (now * 1000))
      else '''')"

definition step_callback :: "string \<Rightarrow> time \<Rightarrow> id \<Rightarrow> id \<Rightarrow> nat \<Rightarrow> scenario_step \<Rightarrow> rail_callback" where
  "step_callback baseID now merchantID payoutID i step =
     \<lparr>cb_EventID = baseID @ ''_'' @ rail_name (sc_Status step) @ ''_'' @ decimal i, cb_PayoutID = payoutID,
      cb_MerchantID = merchantID, cb_Status = sc_Status step, cb_RailReference = defaultRailReference step now,
      cb_Reason = sc_Reason step, cb_OccurredAt = Some now\<rparr>"

text \<open>
  The callbacks of the steps, each delivered once and then again for every duplicate; each is its own
  transaction, so an error keeps what the earlier ones did. \<open>ids n\<close> are drawn by the \<open>n\<close>-th delivery. The
  wait of a step passes no transaction and is left out.
\<close>

fun deliver_steps ::
  "(nat \<Rightarrow> payout_ids) \<Rightarrow> time \<Rightarrow> string \<Rightarrow> id \<Rightarrow> id \<Rightarrow> nat \<Rightarrow> (nat \<times> scenario_step) list
     \<Rightarrow> payout option \<Rightarrow> 'a payout_db_scheme \<Rightarrow> (payout_error + payout option) \<times> 'a payout_db_scheme" where
  "deliver_steps ids now baseID merchantID payoutID n [] acc db = (Inr acc, db)"
| "deliver_steps ids now baseID merchantID payoutID n ((i, step) # rest) acc db =
     (case ApplyRailCallback (ids n) now (step_callback baseID now merchantID payoutID i step) ''simulated'' db of
        Inl e \<Rightarrow> if e = ErrPayoutTransition then deliver_steps ids now baseID merchantID payoutID (Suc n) rest acc db
                 else (Inl e, db)
      | Inr ((p, _), db') \<Rightarrow> deliver_steps ids now baseID merchantID payoutID (Suc n) rest (Some p) db')"

definition deliveries :: "scenario_step list \<Rightarrow> (nat \<times> scenario_step) list" where
  "deliveries steps = concat (map (\<lambda>(i, st). replicate (Suc (nat (sc_DuplicateCount st))) (i, st)) (enumerate 0 steps))"

definition payout_settled :: "payout_state \<Rightarrow> bool" where
  "payout_settled s \<longleftrightarrow> s \<in> {PoCompleted, PoFailed, PoReturned, PoReversed, PoCancelled}"

definition executeTransfer ::
  "(nat \<Rightarrow> payout_ids) \<Rightarrow> time \<Rightarrow> string \<Rightarrow> id \<Rightarrow> id \<Rightarrow> 'a payout_db_scheme \<Rightarrow> (payout_error + payout) \<times> 'a payout_db_scheme" where
  "executeTransfer ids now commandID merchantID payoutID db =
     (case GetPayoutByID merchantID payoutID db of
        Inr p \<Rightarrow> if payout_settled (po_Status p) then (Inr p, db)
                 else
                   let baseID = (if commandID = '''' then ''rail_'' @ decimal (nat (now * 1000)) else commandID);
                       found = GetSimulatorScenarioForPayout merchantID payoutID db in
                   if snd (fst found) then (Inl ErrTransientRail, snd found)
                   else
                   let steps = (case fst (fst found) of Some s \<Rightarrow> sn_Steps s | None \<Rightarrow> []);
                       steps = (if steps = [] then sn_Steps defaultSimulatorScenario else steps) in
                   (case deliver_steps ids now baseID merchantID payoutID 0 (deliveries steps) None (snd found) of
                      (Inl e, db') \<Rightarrow> (Inl e, db')
                    | (Inr (Some r), db') \<Rightarrow> (Inr r, db')
                    | (Inr None, db') \<Rightarrow> (GetPayoutByID merchantID payoutID db', db'))
      | Inl e \<Rightarrow> (Inl e, db))"

text \<open>
  The background transfer when no saga service is set: a payout whose transfer fails is marked failed.
  \<open>err\<close> is the text of the error, which becomes the reason.
\<close>

definition simulateBankTransfer ::
  "(nat \<Rightarrow> payout_ids) \<Rightarrow> payout_ids \<Rightarrow> (payout_error \<Rightarrow> string) \<Rightarrow> time \<Rightarrow> id \<Rightarrow> id \<Rightarrow> 'a payout_db_scheme \<Rightarrow> 'a payout_db_scheme" where
  "simulateBankTransfer ids ids' err now merchantID payoutID db =
     (case executeTransfer ids now '''' merchantID payoutID db of
        (Inr _, db') \<Rightarrow> db'
      | (Inl e, db') \<Rightarrow>
          (case FailPayout ids' now merchantID payoutID (err e) db' of Inl _ \<Rightarrow> db' | Inr (_, db'') \<Rightarrow> db''))"

section \<open>Service\<close>

text \<open>
  Launching the transfer through the saga service: \<open>start\<close> is its answer, the identifier of the new
  instance or an error, and then the payout is marked failed. \<open>None\<close>: no saga service, and the transfer
  runs in the background.
\<close>

definition launchPayoutExecution ::
  "(payout \<Rightarrow> string + id) option \<Rightarrow> payout_ids \<Rightarrow> time \<Rightarrow> payout \<Rightarrow> 'a payout_db_scheme
     \<Rightarrow> (payout_error + payout) \<times> 'a payout_db_scheme" where
  "launchPayoutExecution saga ids now p db =
     (if po_Status p \<in> {PoCompleted, PoFailed, PoCancelled} then (Inr p, db)
      else case saga of
        None \<Rightarrow> (Inr p, db)
      | Some start \<Rightarrow>
          if po_SagaID p \<noteq> '''' then (Inr p, db)
          else (case start p of
              Inl text \<Rightarrow>
                (Inl ErrSaga,
                 case FailPayout ids now (po_MerchantID p) (po_ID p) (''failed to start payout saga: '' @ text) db of
                   Inl _ \<Rightarrow> db | Inr (_, db') \<Rightarrow> db')
            | Inr sagaID \<Rightarrow>
                (case AttachSaga (po_MerchantID p) (po_ID p) sagaID db of
                   Inl e \<Rightarrow> (Inl ErrSaga, db) | Inr (p', db') \<Rightarrow> (Inr p', db'))))"

definition initiate_and_launch ::
  "(payout \<Rightarrow> string + id) option \<Rightarrow> payout_ids \<Rightarrow> payout_ids \<Rightarrow> time \<Rightarrow> id \<Rightarrow> id \<Rightarrow> 'a payout_db_scheme
     \<Rightarrow> (payout_error + payout) \<times> 'a payout_db_scheme" where
  "initiate_and_launch saga ids ids' now merchantID payoutID db =
     (case InitiateRepo ids now merchantID payoutID db of
        Inl e \<Rightarrow> (Inl e, db)
      | Inr (p, db') \<Rightarrow> launchPayoutExecution saga ids' now p db')"

record service_ids =
  sv_Payout :: id
  sv_Create :: payout_ids
  sv_Initiate :: payout_ids
  sv_Fail :: payout_ids

text \<open>The check of the payoutable balance, when the ledger service is set.\<close>

definition can_reserve :: "bool \<Rightarrow> id \<Rightarrow> string \<Rightarrow> int \<Rightarrow> time \<Rightarrow> 'a payout_db_scheme \<Rightarrow> payout_error + unit" where
  "can_reserve wired merchantID currency amount now db =
     (if wired then mapL PayoutLedger (CanReserveForPayout merchantID currency amount now (db_ledger db)) else Inr ())"

definition existing_or_new ::
  "service_ids \<Rightarrow> time \<Rightarrow> id \<Rightarrow> id \<Rightarrow> id \<Rightarrow> int \<Rightarrow> string \<Rightarrow> int \<Rightarrow> id
     \<Rightarrow> 'a payout_db_scheme \<Rightarrow> payout_error + payout \<times> 'a payout_db_scheme" where
  "existing_or_new ids now merchantID settlementID beneficiaryID amount currency threshold batchID db =
     (case GetBySettlementID merchantID settlementID db of
        Inr p \<Rightarrow> Inr (p, db)
      | Inl _ \<Rightarrow>
          CreateForSettlement (sv_Payout ids) (sv_Create ids) now merchantID settlementID beneficiaryID amount currency
            (if threshold > 0 \<and> amount \<ge> threshold then ApprovalPending else NotRequired) batchID db)"

definition InitiatePayoutForSettlement ::
  "(payout \<Rightarrow> string + id) option \<Rightarrow> bool \<Rightarrow> sealing \<Rightarrow> service_ids \<Rightarrow> time \<Rightarrow> id \<Rightarrow> id \<Rightarrow> id \<Rightarrow> int \<Rightarrow> string \<Rightarrow> int \<Rightarrow> id
     \<Rightarrow> 'a payout_db_scheme \<Rightarrow> (payout_error + payout) \<times> 'a payout_db_scheme" where
  "InitiatePayoutForSettlement saga wired unseal ids now merchantID settlementID beneficiaryID amount currency threshold batchID db =
     (case can_reserve wired merchantID currency amount now db of
        Inl e \<Rightarrow> (Inl e, db)
      | Inr _ \<Rightarrow>
          (case GetBeneficiary unseal merchantID beneficiaryID db of
             Inl e \<Rightarrow> (Inl e, db)
           | Inr b \<Rightarrow>
               if bn_Status b \<noteq> BenApproved then (Inl ErrBeneficiaryNotApproved, db)
               else
               (case existing_or_new ids now merchantID settlementID beneficiaryID amount currency threshold batchID db of
                  Inl e \<Rightarrow> (Inl e, db)
                | Inr (p, db1) \<Rightarrow>
                    if po_ApprovalStatus p = ApprovalPending then (Inr p, db1)
                    else initiate_and_launch saga (sv_Initiate ids) (sv_Fail ids) now merchantID (po_ID p) db1)))"

definition ApprovePayout ::
  "(payout \<Rightarrow> string + id) option \<Rightarrow> id \<Rightarrow> service_ids \<Rightarrow> time \<Rightarrow> id \<Rightarrow> id \<Rightarrow> string \<Rightarrow> string \<Rightarrow> string
     \<Rightarrow> 'a payout_db_scheme \<Rightarrow> (payout_error + payout) \<times> 'a payout_db_scheme" where
  "ApprovePayout saga approvalID ids now merchantID payoutID actor actorScope notes db =
     (case RecordApproval approvalID now merchantID payoutID actor actorScope ''approved'' notes db of
        Inl e \<Rightarrow> (Inl e, db)
      | Inr (p, db1) \<Rightarrow>
          if po_ApprovalStatus p = ApprovalApproved \<and> po_Status p = PoPending
          then initiate_and_launch saga (sv_Initiate ids) (sv_Fail ids) now merchantID payoutID db1
          else (Inr p, db1))"

definition RejectPayout ::
  "id \<Rightarrow> time \<Rightarrow> id \<Rightarrow> id \<Rightarrow> string \<Rightarrow> string \<Rightarrow> string \<Rightarrow> 'a payout_db_scheme \<Rightarrow> payout_error + payout \<times> 'a payout_db_scheme" where
  "RejectPayout approvalID now merchantID payoutID actor actorScope notes db =
     RecordApproval approvalID now merchantID payoutID actor actorScope ''rejected'' notes db"

text \<open>The compensation of a payout saga: a payout still on its way is failed.\<close>

definition compensate_payout ::
  "payout_ids \<Rightarrow> time \<Rightarrow> id \<Rightarrow> id \<Rightarrow> string \<Rightarrow> 'a payout_db_scheme \<Rightarrow> payout_error + 'a payout_db_scheme" where
  "compensate_payout ids now merchantID payoutID failure db =
     (if payoutID = '''' then Inr db
      else case GetPayoutByID merchantID payoutID db of
        Inl _ \<Rightarrow> Inr db
      | Inr p \<Rightarrow> if payout_settled (po_Status p) then Inr db
                 else bindR (FailPayout ids now merchantID payoutID (''saga compensation applied: '' @ failure) db) (\<lambda>(_, db'). Inr db'))"

section \<open>Batches\<close>

definition FinalizeBatch :: "id \<Rightarrow> string \<Rightarrow> payload \<Rightarrow> 'a payout_db_scheme \<Rightarrow> payout_error + payout_batch \<times> 'a payout_db_scheme" where
  "FinalizeBatch batchID status summary db =
     (case find (\<lambda>b. pb_ID b = batchID) (db_batches db) of
        None \<Rightarrow> Inl ErrPayoutBatchNotFound
      | Some b \<Rightarrow>
          let f = (\<lambda>b. b\<lparr>pb_Status := status, pb_Summary := summary\<rparr>) in
          Inr (f b, db\<lparr>db_batches := upd_where (\<lambda>b. pb_ID b = batchID) f (db_batches db)\<rparr>))"

text \<open>The items of a batch get the identifiers \<open>itemID i\<close>, the batch, and the status preview unless they have one.\<close>

definition batch_rows :: "(nat \<Rightarrow> id) \<Rightarrow> id \<Rightarrow> batch_item list \<Rightarrow> batch_item list" where
  "batch_rows itemID batchID items =
     map (\<lambda>(i, it). it\<lparr>bt_ID := itemID i, bt_BatchID := batchID, bt_Status := (if bt_Status it = '''' then ''preview'' else bt_Status it)\<rparr>)
       (enumerate 0 items)"

definition CreateBatchRepo ::
  "id \<Rightarrow> (nat \<Rightarrow> id) \<Rightarrow> time \<Rightarrow> id \<Rightarrow> string \<Rightarrow> bool \<Rightarrow> batch_item list \<Rightarrow> 'a payout_db_scheme
     \<Rightarrow> payout_error + (payout_batch \<times> batch_item list) \<times> 'a payout_db_scheme" where
  "CreateBatchRepo batchID itemID now merchantID key dryRun items db =
     (let b = \<lparr>pb_ID = batchID, pb_MerchantID = merchantID, pb_DryRun = dryRun, pb_Status = ''created'', pb_IdempotencyKey = key,
               pb_Summary = [], pb_CreatedAt = now\<rparr>;
          rows = batch_rows itemID batchID items in
      case insert_pk pb_ID b (db_batches db) of
        None \<Rightarrow> Inl ErrPayoutConstraint
      | Some batches \<Rightarrow>
          if \<not> distinct (map bt_ID (db_batch_items db @ rows)) \<or> \<not> list_all (\<lambda>r. bt_Status r \<in> {''preview'', ''created'', ''failed''}) rows
          then Inl ErrPayoutConstraint
          else bindR (FinalizeBatch batchID ''created'' [(''item_count'', PInt (int (length items)))]
                        (db\<lparr>db_batches := batches, db_batch_items := db_batch_items db @ rows\<rparr>)) (\<lambda>(r, db').
                 Inr ((r, rows), db')))"

definition UpdateBatchItem :: "id \<Rightarrow> id \<Rightarrow> string \<Rightarrow> string \<Rightarrow> 'a payout_db_scheme \<Rightarrow> 'a payout_db_scheme" where
  "UpdateBatchItem batchItemID payoutID status errorText db =
     db\<lparr>db_batch_items := upd_where (\<lambda>b. bt_ID b = batchItemID)
          (\<lambda>b. b\<lparr>bt_PayoutID := payoutID, bt_Status := status, bt_ErrorText := errorText\<rparr>) (db_batch_items db)\<rparr>"

text \<open>
  The loop over the items: a failed item is recorded and the others go on. \<open>err\<close> is the text of an error.
\<close>

fun batch_loop ::
  "(payout \<Rightarrow> string + id) option \<Rightarrow> bool \<Rightarrow> sealing \<Rightarrow> (nat \<Rightarrow> service_ids) \<Rightarrow> (payout_error \<Rightarrow> string) \<Rightarrow> time \<Rightarrow> id \<Rightarrow> int \<Rightarrow> id
     \<Rightarrow> nat \<Rightarrow> batch_item list \<Rightarrow> nat \<times> nat \<Rightarrow> 'a payout_db_scheme \<Rightarrow> (nat \<times> nat \<times> batch_item list) \<times> 'a payout_db_scheme" where
  "batch_loop saga wired unseal ids err now merchantID threshold batchID i [] (ok, bad) db = ((ok, bad, []), db)"
| "batch_loop saga wired unseal ids err now merchantID threshold batchID i (it # rest) (ok, bad) db =
     (case InitiatePayoutForSettlement saga wired unseal (ids i) now merchantID (bt_SettlementID it) (bt_BeneficiaryID it)
             (bt_Amount it) (bt_Currency it) threshold batchID db of
        (Inl e, db1) \<Rightarrow>
          (case batch_loop saga wired unseal ids err now merchantID threshold batchID (Suc i) rest (ok, Suc bad)
                  (UpdateBatchItem (bt_ID it) '''' ''failed'' (err e) db1) of
             ((o', b', its), db') \<Rightarrow> ((o', b', it\<lparr>bt_Status := ''failed'', bt_ErrorText := err e\<rparr> # its), db'))
      | (Inr p, db1) \<Rightarrow>
          (case batch_loop saga wired unseal ids err now merchantID threshold batchID (Suc i) rest (Suc ok, bad)
                  (UpdateBatchItem (bt_ID it) (po_ID p) ''created'' '''' db1) of
             ((o', b', its), db') \<Rightarrow> ((o', b', it\<lparr>bt_PayoutID := po_ID p, bt_Status := ''created''\<rparr> # its), db')))"

definition CreateBatch ::
  "(payout \<Rightarrow> string + id) option \<Rightarrow> bool \<Rightarrow> sealing \<Rightarrow> id \<Rightarrow> (nat \<Rightarrow> id) \<Rightarrow> (nat \<Rightarrow> service_ids) \<Rightarrow> (payout_error \<Rightarrow> string) \<Rightarrow> time
     \<Rightarrow> id \<Rightarrow> string \<Rightarrow> bool \<Rightarrow> batch_item list \<Rightarrow> int \<Rightarrow> 'a payout_db_scheme
     \<Rightarrow> (payout_error + payout_batch \<times> batch_item list) \<times> 'a payout_db_scheme" where
  "CreateBatch saga wired unseal batchID itemID ids err now merchantID key dryRun items threshold db =
     (case CreateBatchRepo batchID itemID now merchantID key dryRun items db of
        Inl e \<Rightarrow> (Inl e, db)
      | Inr ((b, rows), db1) \<Rightarrow>
          if dryRun then (Inr (b, rows), db1)
          else (case batch_loop saga wired unseal ids err now merchantID threshold batchID 0 rows (0, 0) db1 of
              ((ok, bad, rows'), db2) \<Rightarrow>
                (case FinalizeBatch batchID (if bad > 0 then ''partial_failed'' else ''completed'')
                        [(''successes'', PInt (int ok)), (''failures'', PInt (int bad))] db2 of
                   Inl e \<Rightarrow> (Inl e, db2) | Inr (b', db') \<Rightarrow> (Inr (b', rows'), db'))))"

section \<open>The endpoints\<close>

datatype handler_error =
    HErrSettlement settlement_error
  | HErrOnHold
  | HErrRollbackMarked
  | HErrNotProcessed
  | HErrPayout payout_error

text \<open>
  \<open>POST /settlements/{id}/payout\<close>, after the capability check: the amount is the net amount of the
  settlement, which may not be on hold or marked for rollback.
\<close>

definition handle_initiate ::
  "(payout \<Rightarrow> string + id) option \<Rightarrow> bool \<Rightarrow> sealing \<Rightarrow> service_ids \<Rightarrow> time \<Rightarrow> id \<Rightarrow> id \<Rightarrow> string
     \<Rightarrow> 'a payout_db_scheme \<Rightarrow> (handler_error + payout) \<times> 'a payout_db_scheme" where
  "handle_initiate saga wired unseal ids now merchantID settlementID beneficiaryID db =
     (case GetSettlement merchantID settlementID db of
        Inl e \<Rightarrow> (Inl (HErrSettlement e), db)
      | Inr s \<Rightarrow>
          if st_OnHold s then (Inl HErrOnHold, db)
          else if st_RollbackMarkedAt s \<noteq> None then (Inl HErrRollbackMarked, db)
          else (case can_reserve wired merchantID (st_Currency s) (st_NetAmount s) now db of
              Inl e \<Rightarrow> (Inl (HErrPayout e), db)
            | Inr _ \<Rightarrow>
                let prefs = GetPreferences merchantID db in
                if pf_PayoutMinimum prefs > 0 \<and> st_NetAmount s < pf_PayoutMinimum prefs then (Inl HErrNotProcessed, db)
                else (case InitiatePayoutForSettlement saga wired unseal ids now merchantID settlementID (TrimSpace beneficiaryID)
                             (st_NetAmount s) (st_Currency s) (pf_ApprovalThresholdAmount prefs) '''' db of
                    (r, db') \<Rightarrow> (mapL HErrPayout r, db'))))"

text \<open>\<open>POST /payout-batches\<close>: the items are looked up, and nothing but their amount and currency is read.\<close>

fun batch_items_of :: "id \<Rightarrow> (string \<times> string) list \<Rightarrow> 'a payout_db_scheme \<Rightarrow> handler_error + batch_item list" where
  "batch_items_of merchantID [] db = Inr []"
| "batch_items_of merchantID ((settlementID, beneficiaryID) # rest) db =
     bindR (mapL HErrSettlement (GetSettlement merchantID (TrimSpace settlementID) db)) (\<lambda>s.
     bindR (batch_items_of merchantID rest db) (\<lambda>its.
       Inr (\<lparr>bt_ID = '''', bt_BatchID = '''', bt_MerchantID = merchantID, bt_SettlementID = TrimSpace settlementID,
             bt_BeneficiaryID = TrimSpace beneficiaryID, bt_PayoutID = '''', bt_Amount = st_NetAmount s,
             bt_Currency = st_Currency s, bt_Status = ''preview'', bt_ErrorText = ''''\<rparr> # its)))"

definition handle_create_batch ::
  "(payout \<Rightarrow> string + id) option \<Rightarrow> bool \<Rightarrow> sealing \<Rightarrow> id \<Rightarrow> (nat \<Rightarrow> id) \<Rightarrow> (nat \<Rightarrow> service_ids) \<Rightarrow> (payout_error \<Rightarrow> string) \<Rightarrow> time
     \<Rightarrow> id \<Rightarrow> string \<Rightarrow> bool \<Rightarrow> (string \<times> string) list \<Rightarrow> 'a payout_db_scheme
     \<Rightarrow> (handler_error + payout_batch \<times> batch_item list) \<times> 'a payout_db_scheme" where
  "handle_create_batch saga wired unseal batchID itemID ids err now merchantID key dryRun reqs db =
     (case batch_items_of merchantID reqs db of
        Inl e \<Rightarrow> (Inl e, db)
      | Inr items \<Rightarrow>
          (case CreateBatch saga wired unseal batchID itemID ids err now merchantID key dryRun items
                  (pf_ApprovalThresholdAmount (GetPreferences merchantID db)) db of
             (r, db') \<Rightarrow> (mapL HErrPayout r, db')))"

end
