(* ===== verification/PayoutFlow.thy ===== *)
theory PayoutFlow
  imports TreasuryFlow Payout
begin

text \<open>
  Payouts in the flow of money: every payout operation keeps the payments, refunds and settlements,
  moves at most one payout along the transition table, and posts between the clearing account and the
  bank account exactly when a payout completes or comes back. Together with the flow of the treasury
  this explains the bank account by the completed payouts, in whatever order the rail calls back.
\<close>

section \<open>Moves of a payout\<close>

definition bank :: "id \<Rightarrow> ledger_db \<Rightarrow> int" where
  "bank m l = account_balance m ''MERCHANT_BANK_PAYOUT'' l"

record payout_view =
  pv_ID :: id
  pv_MerchantID :: id
  pv_SettlementID :: id
  pv_Amount :: int
  pv_Status :: payout_state

definition payout_view_of :: "payout \<Rightarrow> payout_view" where
  "payout_view_of p = \<lparr>pv_ID = po_ID p, pv_MerchantID = po_MerchantID p, pv_SettlementID = po_SettlementID p,
     pv_Amount = po_Amount p, pv_Status = po_Status p\<rparr>"

lemma payout_view_fields [simp]:
  "pv_ID (payout_view_of p) = po_ID p" "pv_MerchantID (payout_view_of p) = po_MerchantID p"
  "pv_SettlementID (payout_view_of p) = po_SettlementID p" "pv_Amount (payout_view_of p) = po_Amount p"
  "pv_Status (payout_view_of p) = po_Status p"
  by (simp_all add: payout_view_of_def)

definition views :: "'a payout_db_scheme \<Rightarrow> payout_view list" where
  "views db = map payout_view_of (db_payouts db)"

text \<open>
  What the tables of payments, refunds and settlements see of a payout operation: nothing. Receipts of
  callbacks are only added.
\<close>

definition pay_still :: "'a payout_db_scheme \<Rightarrow> 'a payout_db_scheme \<Rightarrow> bool" where
  "pay_still db db' \<longleftrightarrow> db_payments db' = db_payments db \<and> db_orders db' = db_orders db \<and> db_splits db' = db_splits db
     \<and> db_refunds db' = db_refunds db \<and> db_items db' = db_items db \<and> db_policies db' = db_policies db
     \<and> (\<exists>new. db_receipts db' = db_receipts db @ new)"

text \<open>A posting of \<open>d\<close> on the bank account and \<open>-d\<close> on the clearing account, or none when \<open>d\<close> is 0.\<close>

definition bank_posting :: "id \<Rightarrow> int \<Rightarrow> ledger_db \<Rightarrow> ledger_db \<Rightarrow> bool" where
  "bank_posting m d l l' \<longleftrightarrow> d = 0 \<and> l' = l \<or>
     (\<exists>t st sid desc es. CreateEntriesTx t m st sid desc es l = Inr l' \<and> st \<noteq> ''payment''
        \<and> (\<forall>a. entries_on a es = (if a = ''MERCHANT_BANK_PAYOUT'' then d else if a = ''SETTLEMENT_CLEARING'' then - d else 0)))"

definition bank_delta :: "payout_state \<Rightarrow> payout_state \<Rightarrow> int \<Rightarrow> int" where
  "bank_delta st st' a = (if st = PoCompleted then a else 0) - (if st' = PoCompleted then a else 0)"

inductive payout_move :: "'a payout_db_scheme \<Rightarrow> 'a payout_db_scheme \<Rightarrow> bool" where
  keep: "pay_still db db' \<Longrightarrow> db_ledger db' = db_ledger db \<Longrightarrow> views db' = views db \<Longrightarrow> payout_move db db'"
| open_payout: "pay_still db db' \<Longrightarrow> db_ledger db' = db_ledger db \<Longrightarrow> views db' = views db @ [v]
    \<Longrightarrow> pv_ID v \<notin> pv_ID ` set (views db) \<Longrightarrow> pv_SettlementID v \<notin> pv_SettlementID ` set (views db)
    \<Longrightarrow> pv_Status v = PoPending \<Longrightarrow> payout_move db db'"
| advance: "pay_still db db' \<Longrightarrow> v \<in> set (views db) \<Longrightarrow> PayoutTransition (pv_Status v) ev = Inr st
    \<Longrightarrow> views db' = upd_where (\<lambda>w. pv_ID w = pv_ID v) (\<lambda>w. w\<lparr>pv_Status := st\<rparr>) (views db)
    \<Longrightarrow> bank_posting (pv_MerchantID v) (bank_delta (pv_Status v) st (pv_Amount v)) (db_ledger db) (db_ledger db')
    \<Longrightarrow> payout_move db db'"

lemma pay_still_updates [simp]:
  "pay_still db db"
  "pay_still db (emit e n v db1) = pay_still db db1" "pay_still db (db1\<lparr>db_ledger := l\<rparr>) = pay_still db db1"
  "pay_still db (db1\<lparr>db_payouts := ps\<rparr>) = pay_still db db1" "pay_still db (db1\<lparr>db_payout_events := es\<rparr>) = pay_still db db1"
  "pay_still db (db1\<lparr>db_approvals := as\<rparr>) = pay_still db db1"
  "pay_still db (db1\<lparr>db_scenarios := ss\<rparr>) = pay_still db db1" "pay_still db (db1\<lparr>db_beneficiaries := bs\<rparr>) = pay_still db db1"
  "pay_still db (db1\<lparr>db_batches := bts\<rparr>) = pay_still db db1" "pay_still db (db1\<lparr>db_batch_items := its\<rparr>) = pay_still db db1"
  by (simp_all add: pay_still_def emit_def)

lemma views_updates [simp]:
  "views (emit e n v db) = views db" "views (db\<lparr>db_ledger := l\<rparr>) = views db" "views (db\<lparr>db_payout_events := es\<rparr>) = views db"
  "views (db\<lparr>db_receipts := rs\<rparr>) = views db" "views (db\<lparr>db_approvals := as\<rparr>) = views db"
  "views (db\<lparr>db_scenarios := ss\<rparr>) = views db" "views (db\<lparr>db_beneficiaries := bs\<rparr>) = views db"
  "views (db\<lparr>db_batches := bts\<rparr>) = views db" "views (db\<lparr>db_batch_items := its\<rparr>) = views db"
  by (simp_all add: views_def emit_def)

lemma ledger_updates [simp]:
  "db_ledger (emit e n v db) = db_ledger db" "db_ledger (set_payout i f db) = db_ledger db"
  "pay_still db0 (set_payout i f db) = pay_still db0 db" "pay_still db0 (payout_outbox ids now p et pl db) = pay_still db0 db"
  "views (payout_outbox ids now p et pl db) = views db" "db_ledger (payout_outbox ids now p et pl db) = db_ledger db"
  by (simp_all add: set_payout_def payout_outbox_def) (simp_all add: emit_def)

lemma views_set_payout:
  assumes "\<And>p. payout_view_of (f p) = (payout_view_of p)\<lparr>pv_Status := st\<rparr>"
  shows "views (set_payout i f db) = upd_where (\<lambda>w. pv_ID w = i) (\<lambda>w. w\<lparr>pv_Status := st\<rparr>) (views db)"
  using assms by (simp add: views_def set_payout_def upd_where_def)

lemma payout_transitions:
  "PayoutTransition s PoInitiate = Inr t \<longleftrightarrow> s = PoPending \<and> t = PoProcessing"
  "PayoutTransition s PoComplete = Inr t \<longleftrightarrow> s = PoProcessing \<and> t = PoCompleted"
  "PayoutTransition s PoFail = Inr t \<longleftrightarrow> s = PoProcessing \<and> t = PoFailed"
  "PayoutTransition s PoReturn = Inr t \<longleftrightarrow> (s = PoProcessing \<or> s = PoCompleted) \<and> t = PoReturned"
  "PayoutTransition s PoReverse = Inr t \<longleftrightarrow> (s = PoProcessing \<or> s = PoCompleted) \<and> t = PoReversed"
  "PayoutTransition s PoCancel = Inr t \<longleftrightarrow> (s = PoPending \<or> s = PoProcessing) \<and> t = PoCancelled"
  by (cases s; auto simp: PayoutTransition_def)+

lemma recordEventTx_same:
  assumes "recordEventTx ev db = Inr db'"
  shows "pay_still db0 db' = pay_still db0 db" "views db' = views db" "db_ledger db' = db_ledger db"
  using assms by (auto simp: recordEventTx_def split: if_split_asm)

lemma GetPayoutByID_in:
  assumes "GetPayoutByID m i db = Inr p"
  shows "payout_view_of p \<in> set (views db)" "po_ID p = i" "po_MerchantID p = m"
  using assms by (auto simp: GetPayoutByID_def views_def payout_at_def split: option.split_asm dest!: find_SomeD)


section \<open>Every payout operation is a move\<close>

lemma advance_by:
  assumes "GetPayoutByID m i db = Inr p" "PayoutTransition (po_Status p) ev = Inr st" "pay_still db db'"
    "views db' = upd_where (\<lambda>w. pv_ID w = i) (\<lambda>w. w\<lparr>pv_Status := st\<rparr>) (views db)"
    "bank_posting m (bank_delta (po_Status p) st (po_Amount p)) (db_ledger db) (db_ledger db')"
  shows "payout_move db db'"
  using assms GetPayoutByID_in [OF assms(1)] by (intro payout_move.advance [of db db' "payout_view_of p" ev st]) simp_all

lemma transfer_on:
  "entries_on a (transfer_entries x y p d1 d2) = (if a = x then po_Amount p else 0) - (if a = y then po_Amount p else 0)"
  by (simp add: entries_on_def transfer_entries_def)

lemma bank_posting_none [simp]: "bank_posting m 0 l l"
  by (simp add: bank_posting_def)

lemma bank_posting_transfer:
  assumes "CreateEntriesTx t m st sid desc (transfer_entries x y p d1 d2) l = Inr l'" "st \<noteq> ''payment''"
    "x = ''SETTLEMENT_CLEARING'' \<and> y = ''MERCHANT_BANK_PAYOUT'' \<and> d = - po_Amount p
     \<or> x = ''MERCHANT_BANK_PAYOUT'' \<and> y = ''SETTLEMENT_CLEARING'' \<and> d = po_Amount p"
  shows "bank_posting m d l l'"
  unfolding bank_posting_def
  by (rule disjI2, intro exI conjI allI, rule assms(1), rule assms(2)) (use assms(3) in \<open>auto simp: transfer_on\<close>)

lemma completePayoutTx_Inr:
  fixes db :: "'a payout_db_scheme"
  assumes "completePayoutTx ids now p ref db = Inr db'"
  shows "pay_still db0 db' = pay_still db0 db"
    and "views db' = upd_where (\<lambda>w. pv_ID w = po_ID p) (\<lambda>w. w\<lparr>pv_Status := PoCompleted\<rparr>) (views db)"
    and "bank_posting (po_MerchantID p) (- po_Amount p) (db_ledger db) (db_ledger db')"
proof -
  let ?f = "\<lambda>p. p\<lparr>po_Status := PoCompleted, po_BankReference := ref, po_RailReference := ref, po_CompletedAt := Some now\<rparr>"
  have v: "views (set_payout (po_ID p) ?f db1) = upd_where (\<lambda>w. pv_ID w = po_ID p) (\<lambda>w. w\<lparr>pv_Status := PoCompleted\<rparr>) (views db1)"
    for db1 :: "'a payout_db_scheme"
    by (rule views_set_payout) (simp add: payout_view_of_def)
  show "pay_still db0 db' = pay_still db0 db"
    and "views db' = upd_where (\<lambda>w. pv_ID w = po_ID p) (\<lambda>w. w\<lparr>pv_Status := PoCompleted\<rparr>) (views db)"
    and "bank_posting (po_MerchantID p) (- po_Amount p) (db_ledger db) (db_ledger db')"
    using assms by (auto simp: completePayoutTx_def bindR_Inr_iff mapL_Inr_iff v intro: bank_posting_transfer)
qed

lemma failPayoutTx_views:
  "views (failPayoutTx ids now p reason db) = upd_where (\<lambda>w. pv_ID w = po_ID p) (\<lambda>w. w\<lparr>pv_Status := PoFailed\<rparr>) (views db)"
  "pay_still db0 (failPayoutTx ids now p reason db) = pay_still db0 db" "db_ledger (failPayoutTx ids now p reason db) = db_ledger db"
  by (simp_all add: failPayoutTx_def views_set_payout [where st = PoFailed] payout_view_of_def)

lemma mark_returned_view: "payout_view_of (mark_returned now st ref reason p) = (payout_view_of p)\<lparr>pv_Status := st\<rparr>"
  by (simp add: mark_returned_def payout_view_of_def Let_def)

lemma markReturned_views:
  "views (markReturnedWithoutLedgerTx ids now st p ref reason db) = upd_where (\<lambda>w. pv_ID w = po_ID p) (\<lambda>w. w\<lparr>pv_Status := st\<rparr>) (views db)"
  "pay_still db0 (markReturnedWithoutLedgerTx ids now st p ref reason db) = pay_still db0 db"
  "db_ledger (markReturnedWithoutLedgerTx ids now st p ref reason db) = db_ledger db"
  by (simp_all add: markReturnedWithoutLedgerTx_def views_set_payout [OF mark_returned_view])

lemma reversePayoutLedgerTx_Inr:
  assumes "reversePayoutLedgerTx ids now st sourceType et p ref reason db = Inr db'" "sourceType \<noteq> ''payment''"
  shows "pay_still db0 db' = pay_still db0 db"
    and "views db' = upd_where (\<lambda>w. pv_ID w = po_ID p) (\<lambda>w. w\<lparr>pv_Status := st\<rparr>) (views db)"
    and "bank_posting (po_MerchantID p) (po_Amount p) (db_ledger db) (db_ledger db')"
  using assms
  by (auto simp: reversePayoutLedgerTx_def bindR_Inr_iff mapL_Inr_iff views_set_payout [OF mark_returned_view]
      intro: bank_posting_transfer)

lemma CreateForSettlement_move:
  assumes "CreateForSettlement payoutID ids now m s b amount cur app batch db = Inr (r, db')" shows "payout_move db db'"
proof -
  let ?p = "new_payout payoutID now m s b amount cur app batch"
  obtain db1 where new: "payoutID \<notin> po_ID ` set (db_payouts db)" "s \<notin> po_SettlementID ` set (db_payouts db)"
    and ev: "\<exists>ev. recordEventTx ev (db\<lparr>db_payouts := db_payouts db @ [?p]\<rparr>) = Inr db1" and db': "\<exists>et pl. db' = payout_outbox ids now ?p et pl db1"
    using assms by (auto simp: CreateForSettlement_def Let_def bindR_Inr_iff split: if_split_asm)
  have "views (db\<lparr>db_payouts := db_payouts db @ [?p]\<rparr>) = views db @ [payout_view_of ?p]" by (simp add: views_def)
  moreover have "pv_ID ` set (views db) = po_ID ` set (db_payouts db)"
    "pv_SettlementID ` set (views db) = po_SettlementID ` set (db_payouts db)" by (simp_all add: views_def image_image)
  ultimately show ?thesis
    using new ev db'
    by (intro payout_move.open_payout [where v = "payout_view_of ?p"]) (auto simp: recordEventTx_same, simp_all add: new_payout_def)
qed

lemma InitiateRepo_move:
  assumes "InitiateRepo ids now m i db = Inr (r, db')" shows "payout_move db db'"
proof -
  let ?f = "\<lambda>p. p\<lparr>po_Status := PoProcessing, po_InitiatedAt := Some now\<rparr>"
  obtain p db1 where p: "GetPayoutByID m i db = Inr p" "PayoutTransition (po_Status p) PoInitiate = Inr PoProcessing"
    and ev: "\<exists>ev. recordEventTx ev (set_payout i ?f db) = Inr db1" and db': "\<exists>et pl. db' = payout_outbox ids now p et pl db1"
    using assms by (auto simp: InitiateRepo_def Let_def bindR_Inr_iff payout_transitions)
  have "views (set_payout i ?f db) = upd_where (\<lambda>w. pv_ID w = i) (\<lambda>w. w\<lparr>pv_Status := PoProcessing\<rparr>) (views db)"
    by (rule views_set_payout) (simp add: payout_view_of_def)
  moreover have "po_Status p \<noteq> PoCompleted" using p(2) by (auto simp: payout_transitions)
  ultimately show ?thesis
    using ev db' by (intro advance_by [OF p]) (auto simp: recordEventTx_same bank_delta_def)
qed

lemma CompletePayout_move:
  assumes "CompletePayout ids now m i ref db = Inr (r, db')" shows "payout_move db db'"
proof -
  obtain p db1 where p: "GetPayoutByID m i db = Inr p" "PayoutTransition (po_Status p) PoComplete = Inr PoCompleted"
    and c: "completePayoutTx ids now p ref db = Inr db1" and ev: "\<exists>ev. recordEventTx ev db1 = Inr db'"
    using assms by (auto simp: CompletePayout_def bindR_Inr_iff payout_transitions)
  have "po_Status p \<noteq> PoCompleted" using p(2) by (auto simp: payout_transitions)
  then show ?thesis
    using ev completePayoutTx_Inr [OF c] GetPayoutByID_in [OF p(1)]
    by (intro advance_by [OF p]) (auto simp: recordEventTx_same bank_delta_def)
qed

lemma FailPayout_move:
  assumes "FailPayout ids now m i reason db = Inr (r, db')" shows "payout_move db db'"
proof -
  obtain p where p: "GetPayoutByID m i db = Inr p" "PayoutTransition (po_Status p) PoFail = Inr PoFailed"
    and ev: "\<exists>ev. recordEventTx ev (failPayoutTx ids now p reason db) = Inr db'"
    using assms by (auto simp: FailPayout_def bindR_Inr_iff payout_transitions)
  have "po_Status p \<noteq> PoCompleted" using p(2) by (auto simp: payout_transitions)
  then show ?thesis
    using ev GetPayoutByID_in [OF p(1)]
    by (intro advance_by [OF p]) (auto simp: recordEventTx_same failPayoutTx_views bank_delta_def)
qed

lemma CancelPayout_move:
  assumes "CancelPayout ids now m i reason db = Inr (r, db')" shows "payout_move db db'"
proof (cases "db' = db")
  case True
  then show ?thesis by (intro payout_move.keep) simp_all
next
  case False
  let ?f = "\<lambda>p. p\<lparr>po_Status := PoCancelled, po_CancelReason := reason, po_CancelledAt := Some now\<rparr>"
  obtain p db1 where p: "GetPayoutByID m i db = Inr p" "PayoutTransition (po_Status p) PoCancel = Inr PoCancelled"
    and ev: "\<exists>ev. recordEventTx ev (set_payout i ?f db) = Inr db1" and db': "\<exists>et pl. db' = payout_outbox ids now p et pl db1"
    using assms False by (auto simp: CancelPayout_def Let_def bindR_Inr_iff payout_transitions split: if_split_asm)
  have "views (set_payout i ?f db) = upd_where (\<lambda>w. pv_ID w = i) (\<lambda>w. w\<lparr>pv_Status := PoCancelled\<rparr>) (views db)"
    by (rule views_set_payout) (simp add: payout_view_of_def)
  moreover have "po_Status p \<noteq> PoCompleted" using p(2) by (auto simp: payout_transitions)
  ultimately show ?thesis
    using ev db' by (intro advance_by [OF p]) (auto simp: recordEventTx_same bank_delta_def)
qed

text \<open>The event of the transition table a callback amounts to, if it fits the state.\<close>

definition rail_event :: "rail_status \<Rightarrow> payout_event" where
  "rail_event s = (case s of RailProcessing \<Rightarrow> PoInitiate | RailCompleted \<Rightarrow> PoComplete | RailFailed \<Rightarrow> PoFail
     | RailReturned \<Rightarrow> PoReturn | RailReversed \<Rightarrow> PoReverse)"

lemma rail_effect_Inr:
  assumes "rail_effect ids now p cb db = Inr (st, db')" "GetPayoutByID m i db = Inr p"
  obtains (ignored) "db' = db" "st = po_Status p" "\<And>st'. PayoutTransition (po_Status p) (rail_event (cb_Status cb)) \<noteq> Inr st'"
  | (applied) "PayoutTransition (po_Status p) (rail_event (cb_Status cb)) = Inr st" "pay_still db db'"
      "views db' = upd_where (\<lambda>w. pv_ID w = i) (\<lambda>w. w\<lparr>pv_Status := st\<rparr>) (views db)"
      "bank_posting m (bank_delta (po_Status p) st (po_Amount p)) (db_ledger db) (db_ledger db')"
proof (cases "\<exists>st'. PayoutTransition (po_Status p) (rail_event (cb_Status cb)) = Inr st'")
  case True
  let ?init = "\<lambda>p. p\<lparr>po_Status := PoProcessing, po_InitiatedAt := (case po_InitiatedAt p of None \<Rightarrow> Some now | Some t \<Rightarrow> Some t),
    po_RailReference := cb_RailReference cb\<rparr>"
  have init: "views (set_payout j ?init db) = upd_where (\<lambda>w. pv_ID w = j) (\<lambda>w. w\<lparr>pv_Status := PoProcessing\<rparr>) (views db)" for j
    by (rule views_set_payout) (simp add: payout_view_of_def)
  show thesis
    using True assms(1) GetPayoutByID_in [OF assms(2)]
    by (cases "cb_Status cb"; cases "po_Status p")
       (auto simp: rail_effect_def rail_event_def payout_transitions bindR_Inr_iff bank_delta_def init failPayoutTx_views
          markReturned_views completePayoutTx_Inr reversePayoutLedgerTx_Inr intro!: applied
          dest: completePayoutTx_Inr(3) reversePayoutLedgerTx_Inr(3))
next
  case False
  then show thesis
    using assms(1) by (cases "cb_Status cb"; cases "po_Status p") (auto simp: rail_effect_def rail_event_def payout_transitions intro!: ignored)
qed

lemma ApplyRailCallback_Inr:
  assumes "ApplyRailCallback ids clock cb sig db = Inr (r, db')"
  obtains (duplicate) p where "GetPayoutByID (cb_MerchantID cb) (cb_PayoutID cb) db = Inr p" "cb_EventID cb \<in> rc_EventID ` set (db_receipts db)"
      "r = (p, False)" "db' = db"
  | (fresh) p rows st db1 where "GetPayoutByID (cb_MerchantID cb) (cb_PayoutID cb) db = Inr p" "cb_EventID cb \<notin> rc_EventID ` set (db_receipts db)"
      "rows = db_receipts db @ [receipt_of (pi_Receipt ids) cb sig]"
      "rail_effect ids (case cb_OccurredAt cb of None \<Rightarrow> clock | Some t \<Rightarrow> t) p cb (db\<lparr>db_receipts := rows\<rparr>) = Inr (st, db1)"
      "\<exists>ev. recordEventTx ev db1 = Inr db'"
proof -
  obtain p where p: "GetPayoutByID (cb_MerchantID cb) (cb_PayoutID cb) db = Inr p"
    using assms by (auto simp: ApplyRailCallback_def bindR_Inr_iff)
  show thesis
  proof (cases "cb_EventID cb \<in> rc_EventID ` set (db_receipts db)")
    case True
    then show thesis using assms p by (intro duplicate [OF p]) (simp_all add: ApplyRailCallback_def)
  next
    case False
    let ?rows = "db_receipts db @ [receipt_of (pi_Receipt ids) cb sig]"
    have "insert_pk rc_ID (receipt_of (pi_Receipt ids) cb sig) (db_receipts db) = Some ?rows"
      using assms p False by (auto simp: ApplyRailCallback_def insert_pk_def split: if_split_asm)
    then obtain res where tx: "applyRailCallbackTx ids clock p cb (db\<lparr>db_receipts := ?rows\<rparr>) = Inr (res, db')"
      using assms p False by (auto simp: ApplyRailCallback_def bindR_Inr_iff)
    then obtain st db1 where "rail_effect ids (case cb_OccurredAt cb of None \<Rightarrow> clock | Some t \<Rightarrow> t) p cb (db\<lparr>db_receipts := ?rows\<rparr>) = Inr (st, db1)"
      "\<exists>ev. recordEventTx ev db1 = Inr db'"
      by (auto simp: applyRailCallbackTx_def Let_def bindR_Inr_iff simp del: option.case)
    then show thesis by (rule fresh [OF p False refl])
  qed
qed

lemma ApplyRailCallback_move:
  assumes "ApplyRailCallback ids clock cb sig db = Inr (r, db')" shows "payout_move db db'"
  using assms
proof (cases rule: ApplyRailCallback_Inr)
  case duplicate
  then show ?thesis by (intro payout_move.keep) simp_all
next
  case (fresh p rows st db1)
  note p = fresh(1) and eff = fresh(4) and ev = fresh(5)
  have "GetPayoutByID (cb_MerchantID cb) (cb_PayoutID cb) (db\<lparr>db_receipts := rows\<rparr>) = Inr p"
    using p by (simp add: GetPayoutByID_def)
  with eff show ?thesis
  proof (cases rule: rail_effect_Inr)
    case ignored
    moreover have "pay_still db (db\<lparr>db_receipts := rows\<rparr>)" using fresh(3) by (simp add: pay_still_def)
    ultimately show ?thesis using ev by (intro payout_move.keep) (auto simp: recordEventTx_same)
  next
    case applied
    have "pay_still db db1" using applied(2) fresh(3) by (auto simp: pay_still_def)
    then show ?thesis using ev applied(3,4) by (intro advance_by [OF p applied(1)]) (auto simp: recordEventTx_same)
  qed
qed

lemma RecordApproval_move:
  fixes db :: "'a payout_db_scheme"
  assumes uniq: "unique_key pv_ID (views db)"
    and op: "RecordApproval apID now m i actor scope decision notes db = Inr (r, db')"
  shows "payout_move db db'"
proof (cases "db' = db")
  case True
  then show ?thesis by (intro payout_move.keep) simp_all
next
  case False
  obtain p where p: "GetPayoutByID m i db = Inr p" using op by (auto simp: RecordApproval_def bindR_Inr_iff)
  note P = GetPayoutByID_in [OF p]
  let ?rej = "decision = ''rejected'' \<and> po_Status p = PoPending"
  let ?st = "if ?rej then PoCancelled else po_Status p"
  let ?decide = "\<lambda>q. q\<lparr>po_ApprovalStatus := (if decision = ''rejected'' then ApprovalRejected else ApprovalApproved),
    po_ApprovalNotes := notes, po_ApprovedBy := actor, po_ApprovedAt := Some now\<rparr>"
  let ?reject = "\<lambda>q. if ?rej then q\<lparr>po_Status := PoCancelled, po_CancelReason := ''approval rejected'', po_CancelledAt := Some now\<rparr> else q"
  let ?f = "\<lambda>q. ?reject (?decide q)"
  have "decision = ''approved'' \<or> decision = ''rejected''"
    using op False p by (auto simp: RecordApproval_def Let_def split: if_split_asm)
  then have db': "\<exists>rows. db' = db\<lparr>db_approvals := rows, db_payouts := upd_where (payout_at m i) ?f (db_payouts db)\<rparr>"
    using op False p unfolding RecordApproval_def Let_def by (simp add: bindR_Inr_iff split: if_split_asm option.split_asm) (elim conjE; rule exI; erule sym)+
  have only: "payout_view_of q = payout_view_of p" if "q \<in> set (db_payouts db)" "po_ID q = i" for q
    using unique_key_inj [OF uniq, of "payout_view_of q" "payout_view_of p"] P that by (auto simp: views_def)
  have "payout_view_of (if payout_at m i q then ?f q else q) = (if po_ID q = i then (payout_view_of q)\<lparr>pv_Status := ?st\<rparr> else payout_view_of q)"
    if "q \<in> set (db_payouts db)" for q
    using only [OF that] P(2,3) by (auto simp: payout_at_def payout_view_of_def)
  then have v: "views db' = upd_where (\<lambda>w. pv_ID w = i) (\<lambda>w. w\<lparr>pv_Status := ?st\<rparr>) (views db)"
    using db' by (auto simp: views_def upd_where_def)
  have still: "pay_still db db'" "db_ledger db' = db_ledger db" using db' by auto
  show ?thesis
  proof (cases ?rej)
    case True
    then show ?thesis
      by (intro advance_by [OF p, where ev = PoCancel and st = PoCancelled]) (use v still in \<open>simp_all add: payout_transitions bank_delta_def\<close>)
  next
    case False
    have "upd_where (\<lambda>w. pv_ID w = i) (\<lambda>w. w\<lparr>pv_Status := po_Status p\<rparr>) (views db) = views db"
      using only by (auto simp: upd_where_def views_def payout_view_of_def intro!: map_idI)
    then have "views db' = views db" using v False by auto
    then show ?thesis using still by (intro payout_move.keep)
  qed
qed

lemma AttachSaga_move: "AttachSaga m i saga db = Inr (r, db') \<Longrightarrow> payout_move db db'"
  by (rule payout_move.keep)
     (auto simp: AttachSaga_def Let_def bindR_Inr_iff views_def upd_where_def payout_view_of_def)

lemma payout_tables_move:
  shows "UpsertSimulatorScenario newid m s sc db = Inr (r1, db') \<Longrightarrow> payout_move db db'"
    and "GetSimulatorScenarioForPayout m i db = (r2, db') \<Longrightarrow> payout_move db db'"
    and "CreateBeneficiary seal digest newid now b db = Inr (r3, db') \<Longrightarrow> payout_move db db'"
    and "VerifyBeneficiary unseal now m bid db = Inr (r4, db') \<Longrightarrow> payout_move db db'"
    and "ApproveBeneficiary unseal now m bid notes db = Inr (r5, db') \<Longrightarrow> payout_move db db'"
    and "CreateBatchRepo batch itemID now m key dry items db = Inr (r6, db') \<Longrightarrow> payout_move db db'"
    and "db' = UpdateBatchItem itID pid status err db \<Longrightarrow> payout_move db db'"
    and "FinalizeBatch batch status summary db = Inr (r7, db') \<Longrightarrow> payout_move db db'"
  by (rule payout_move.keep;
      auto simp: UpsertSimulatorScenario_def GetSimulatorScenarioForPayout_def CreateBeneficiary_def VerifyBeneficiary_def
        set_beneficiary_def ApproveBeneficiary_def CreateBatchRepo_def FinalizeBatch_def UpdateBatchItem_def Let_def bindR_Inr_iff
        split: if_split_asm option.split_asm)+

section \<open>The bank account\<close>

definition paid_out :: "id \<Rightarrow> payout_view list \<Rightarrow> int" where
  "paid_out m vs = sum_where (\<lambda>v. pv_MerchantID v = m \<and> pv_Status v = PoCompleted) pv_Amount vs"

definition payouts_inv :: "'a payout_db_scheme \<Rightarrow> bool" where
  "payouts_inv db \<longleftrightarrow> unique_key pv_ID (views db) \<and> unique_key pv_SettlementID (views db)
     \<and> (\<forall>m. bank m (db_ledger db) = - paid_out m (views db))"

lemma bank_posting_bank:
  assumes "bank_posting m d l l'" shows "bank m' l' = bank m' l + (if m' = m then d else 0)"
  using assms account_balance_post by (auto simp: bank_posting_def bank_def)

lemma bank_posting_pooled:
  assumes "bank_posting m d l l'" shows "pooled m' a l' = pooled m' a l"
  using assms
proof (unfold bank_posting_def, elim disjE conjE exE)
  fix t st sid desc es
  assume "CreateEntriesTx t m st sid desc es l = Inr l'"
    and on: "\<forall>a. entries_on a es = (if a = ''MERCHANT_BANK_PAYOUT'' then d else if a = ''SETTLEMENT_CLEARING'' then - d else 0)"
  from account_balance_post [OF this(1)] on show ?thesis by (simp add: pooled_def)
qed simp

lemma bank_posting_captures: "bank_posting m d l l' \<Longrightarrow> posted_captures l' = posted_captures l"
  using posted_captures_other by (auto simp: bank_posting_def)

lemma still_flow_inv:
  assumes "pay_still db db'" "bank_posting m d (db_ledger db) (db_ledger db')" "flow_inv db" shows "flow_inv db'"
proof -
  note S = assms(1) [unfolded pay_still_def]
  have "pay_inv db'"
    by (rule pay_inv_kept [of db]) (use S assms(3) bank_posting_captures [OF assms(2)] in \<open>simp_all add: flow_inv_def\<close>)
  moreover have "abs_tr db' = abs_tr db" using S bank_posting_pooled [OF assms(2)] by (simp add: abs_tr_def)
  ultimately show ?thesis using assms(3) S by (simp add: flow_inv_def policies_inv_def)
qed

lemma payout_move_flow_inv: "payout_move db db' \<Longrightarrow> flow_inv db \<Longrightarrow> flow_inv db'"
  by (induction rule: payout_move.induct) (use still_flow_inv bank_posting_none in metis)+

lemma advance_views:
  assumes "unique_key pv_ID vs" "v \<in> set vs"
  shows "paid_out m (upd_where (\<lambda>w. pv_ID w = pv_ID v) (\<lambda>w. w\<lparr>pv_Status := st\<rparr>) vs)
    = paid_out m vs - (if m = pv_MerchantID v then bank_delta (pv_Status v) st (pv_Amount v) else 0)"
  unfolding paid_out_def using sum_where_upd_one [OF assms, of "\<lambda>w. pv_ID w = pv_ID v"] by (simp add: bank_delta_def)

lemma payout_move_inv:
  assumes "payout_move db db'" "payouts_inv db" shows "payouts_inv db'"
  using assms
proof (induction rule: payout_move.induct)
  case (advance db db' v ev st)
  then show ?case
    using bank_posting_bank [OF advance(5)] by (simp add: payouts_inv_def advance_views)
qed (auto simp: payouts_inv_def paid_out_def)

text \<open>The other flows leave the payouts and the bank account alone.\<close>

lemma quiet_bank:
  assumes "CreateEntriesTx t m st sid desc es l = Inr l'" "\<forall>e \<in> set es. e_AccountCode e \<noteq> ''MERCHANT_BANK_PAYOUT''"
  shows "bank m' l' = bank m' l"
proof -
  have "entries_on ''MERCHANT_BANK_PAYOUT'' es = 0" unfolding entries_on_def by (rule sum_where_none) (use assms(2) in blast)
  then show ?thesis using account_balance_post [OF assms(1)] by (simp add: bank_def)
qed

lemma quiet_entries:
  shows "capture_entries amount ss = Inr es \<Longrightarrow> \<forall>e \<in> set es. e_AccountCode e \<noteq> ''MERCHANT_BANK_PAYOUT''"
    and "\<forall>e \<in> set (settlementEntries g r n). e_AccountCode e \<noteq> ''MERCHANT_BANK_PAYOUT''"
    and "\<forall>e \<in> set (process_entries a f cur). e_AccountCode e \<noteq> ''MERCHANT_BANK_PAYOUT''"
    and "\<forall>e \<in> set (reversal_entries a f cur). e_AccountCode e \<noteq> ''MERCHANT_BANK_PAYOUT''"
  using split_entries_lines [of 0 ss]
  by (auto simp: capture_entries_def settlementEntries_def process_entries_def reversal_entries_def refund_line_def ledger_line_def
      split_line_def Let_def split: prod.splits if_split_asm)

lemma pay_step_bank:
  assumes "pay_step db db'" "pay_inv db" shows "bank m (db_ledger db') = bank m (db_ledger db)"
proof -
  note uniq = pay_inv_unique [OF assms(2)]
  have same: "same_money db d \<Longrightarrow> bank m (db_ledger d) = bank m (db_ledger db)" for d by (simp add: same_money_def)
  show ?thesis using assms(1)
  proof (cases rule: pay_step.cases)
    case start
    then show ?thesis by (cases rule: StartAuthorization_Inr) simp_all
  next
    case (capture ids now m' i amount r)
    obtain t e1 e2 where "ids = (t, e1, e2)" by (metis prod_cases3)
    with capture have "CaptureAuthorizedPayment (t, e1, e2) now m' i amount db = Inr (r, db')" by simp
    then show ?thesis
      by (cases rule: CaptureAuthorizedPayment_Inr) (use quiet_bank quiet_entries(1) in \<open>auto\<close>)
  next
    case expire_window
    then show ?thesis using same expire_money [OF uniq] by blast
  next
    case expire_orders
    then show ?thesis by (auto simp: ExpireDueOrders_def Let_def)
  next
    case failed_attempt
    then show ?thesis by (auto simp: CreateFailedAttempt_def insert_attempt_def bindR_Inr_iff db_simps split: if_split_asm)
  next
    case attach
    then show ?thesis by (auto simp: AttachCardPaymentDetails_def split: if_split_asm)
  qed (blast intro: same mark_money [OF uniq] challenge_money [OF uniq] CreateOrder_money routing_money)+
qed

lemma more_payouts:
  fixes db db' :: "'a payout_db_scheme"
  assumes "refund_db.more db' = refund_db.more db"
  shows "db_payouts db' = db_payouts db" "db_receipts db' = db_receipts db"
  using assms by (cases db rule: payout_db.cases_scheme; cases db' rule: payout_db.cases_scheme; simp)+

lemma refund_more:
  shows "CreateRefund rid eid now rin db = Inr (r, db') \<Longrightarrow> refund_db.more db' = refund_db.more db"
    and "FailRefund eid now rid db = Inr (r, db') \<Longrightarrow> refund_db.more db' = refund_db.more db"
proof -
  show "CreateRefund rid eid now rin db = Inr (r, db') \<Longrightarrow> refund_db.more db' = refund_db.more db"
    by (auto simp: CreateRefund_def bindR_Inr_iff Let_def db_simps split: if_split_asm option.split_asm)
  show "FailRefund eid now rid db = Inr (r, db') \<Longrightarrow> refund_db.more db' = refund_db.more db"
    by (auto simp: FailRefund_def bindR_Inr_iff db_simps set_refund_def split: if_split_asm option.split_asm)
qed

lemma settle_batch_more:
  assumes "settle_batch wired ids now m period descr extra ps db = Inr (s, db')"
  shows "settlement_db.more db' = settlement_db.more db" "bank m' (db_ledger db') = bank m' (db_ledger db)"
  using assms by (cases rule: settle_batch_Inr; use quiet_bank quiet_entries(2) in blast)+

lemma coarser_more:
  fixes db db' :: "'a refund_db_scheme"
  shows "payment_db.more db' = payment_db.more db \<Longrightarrow> refund_db.more db' = refund_db.more db"
    and "settlement_db.more db' = settlement_db.more db \<Longrightarrow> refund_db.more db' = refund_db.more db"
  by (cases db rule: refund_db.cases_scheme; cases db' rule: refund_db.cases_scheme; simp)+

lemma flow_step_quiet:
  assumes "flow_step db db'" "flow_inv db"
  shows "refund_db.more db' = refund_db.more db \<and> bank m (db_ledger db') = bank m (db_ledger db)"
  using assms(1)
proof (cases rule: flow_step.cases)
  case payment
  have "payment_db.more db' = payment_db.more db" using pay_step_frame [OF payment] by (simp add: pay_frame_def)
  then show ?thesis using coarser_more(1) pay_step_bank [OF payment] assms(2) by (auto simp: flow_inv_def)
next
  case (batch wired locked ids now m1 lo hi s)
  then obtain period descr extra ps where b: "settle_batch wired ids now m1 period descr extra ps db = Inr (s, db')"
    by (auto simp: RunBatch_def Let_def split: if_split_asm)
  show ?thesis using coarser_more(2) [OF settle_batch_more(1) [OF b]] settle_batch_more(2) [OF b, of m] by blast
next
  case (partial_batch wired locked ids now m1 pids s)
  then obtain period descr extra ps where b: "settle_batch wired ids now m1 period descr extra ps db = Inr (s, db')"
    by (auto simp: RunPartialBatch_def Let_def split: if_split_asm)
  show ?thesis using coarser_more(2) [OF settle_batch_more(1) [OF b]] settle_batch_more(2) [OF b, of m] by blast
next
  case (process_refund rids now refundID r)
  obtain t e a where rids: "rids = (t, e, a)" by (metis prod_cases3)
  from process_refund [unfolded this] show ?thesis
    by (cases rule: ProcessRefund_Inr) (use quiet_bank quiet_entries(3) in blast)
next
  case (reverse_refund rids now m refundID reason r)
  obtain t e a where rids: "rids = (t, e, a)" by (metis prod_cases3)
  from reverse_refund [unfolded this] show ?thesis
    by (cases rule: ReverseRefund_Inr) (use quiet_bank quiet_entries(4) in blast)
next
  case (create_refund refundID evtID now rin r)
  then show ?thesis using refund_more(1) [OF create_refund] by (cases rule: CreateRefund_Inr) (simp add: db_simps)
next
  case (fail_refund evtID now refundID r)
  then show ?thesis using refund_more(2) [OF fail_refund] by (cases rule: FailRefund_Inr) (simp add: db_simps)
qed (auto dest!: marks_same)

section \<open>The whole flow of cash\<close>

inductive cash_step :: "'a payout_db_scheme \<Rightarrow> 'a payout_db_scheme \<Rightarrow> bool" where
  flow: "flow_step db db' \<Longrightarrow> cash_step db db'"
| create: "CreateForSettlement payoutID ids now m s b amount cur app batch db = Inr (r, db') \<Longrightarrow> cash_step db db'"
| initiate: "InitiateRepo ids now m i db = Inr (r, db') \<Longrightarrow> cash_step db db'"
| complete: "CompletePayout ids now m i ref db = Inr (r, db') \<Longrightarrow> cash_step db db'"
| fail: "FailPayout ids now m i reason db = Inr (r, db') \<Longrightarrow> cash_step db db'"
| cancel: "CancelPayout ids now m i reason db = Inr (r, db') \<Longrightarrow> cash_step db db'"
| callback: "ApplyRailCallback ids now cb sig db = Inr (rb, db') \<Longrightarrow> cash_step db db'"
| approval: "RecordApproval apID now m i actor scope decision notes db = Inr (r, db') \<Longrightarrow> cash_step db db'"
| attach: "AttachSaga m i saga db = Inr (r, db') \<Longrightarrow> cash_step db db'"
| scenario: "UpsertSimulatorScenario newid m s sc db = Inr (rs, db') \<Longrightarrow> cash_step db db'"
| use_scenario: "GetSimulatorScenarioForPayout m i db = (ru, db') \<Longrightarrow> cash_step db db'"
| create_beneficiary: "CreateBeneficiary seal digest newid now b db = Inr (rn, db') \<Longrightarrow> cash_step db db'"
| verify_beneficiary: "VerifyBeneficiary unseal now m bid db = Inr (rn, db') \<Longrightarrow> cash_step db db'"
| approve_beneficiary: "ApproveBeneficiary unseal now m bid notes db = Inr (rn, db') \<Longrightarrow> cash_step db db'"
| create_batch: "CreateBatchRepo batch itemID now m key dry items db = Inr (rt, db') \<Longrightarrow> cash_step db db'"
| update_item: "db' = UpdateBatchItem itID pid status err db \<Longrightarrow> cash_step db db'"
| finalize: "FinalizeBatch batch status summary db = Inr (rf, db') \<Longrightarrow> cash_step db db'"

definition cash_inv :: "'a payout_db_scheme \<Rightarrow> bool" where
  "cash_inv db \<longleftrightarrow> flow_inv db \<and> payouts_inv db"

lemma cash_step_cases:
  assumes "cash_step db db'" "unique_key pv_ID (views db)"
  obtains "flow_step db db'" | "payout_move db db'"
  using assms
  by (cases rule: cash_step.cases)
     (blast intro: CreateForSettlement_move InitiateRepo_move CompletePayout_move FailPayout_move CancelPayout_move
        ApplyRailCallback_move RecordApproval_move AttachSaga_move payout_tables_move)+

interpretation cash: invariant_system cash_step cash_inv
proof unfold_locales
  fix db db' :: "'a payout_db_scheme"
  assume step: "cash_step db db'" and inv: "cash_inv db"
  then have "unique_key pv_ID (views db)" by (simp add: cash_inv_def payouts_inv_def)
  with step show "cash_inv db'"
  proof (cases rule: cash_step_cases)
    case 1
    note quiet = flow_step_quiet [OF 1]
    have "views db' = views db" using inv quiet more_payouts(1) [of db' db] by (simp add: views_def cash_inv_def)
    then show ?thesis using inv quiet money.inv_step [OF 1] by (simp add: cash_inv_def payouts_inv_def)
  next
    case 2
    then show ?thesis using inv payout_move_flow_inv payout_move_inv by (auto simp: cash_inv_def)
  qed
qed

definition cash_blank :: "'a payout_db_scheme \<Rightarrow> bool" where
  "cash_blank db \<longleftrightarrow> blank db \<and> db_payouts db = []"

lemma cash_reach:
  assumes "cash_step\<^sup>*\<^sup>* db0 db" "cash_blank db0" shows "cash_inv db"
proof -
  have "cash_inv db0" using assms(2) blank_inv [of db0]
    by (simp add: cash_blank_def cash_inv_def payouts_inv_def views_def paid_out_def bank_def account_balance_def balance_where_def blank_def)
  with assms(1) show ?thesis by (rule cash.inv_steps)
qed

end
