(* ===== verification/Money.thy ===== *)
theory Money
  imports PayoutService
begin

text \<open>
  What the flow of cash guarantees: the books of every merchant are explained by its payments and
  settlement items, refunds stay within their payment, a payment is settled at most once, a batch
  pays out exactly what its items add up to, a reversed refund leaves no trace on the accounts; and
  where the arithmetic or the batches fall short.
\<close>

lemma cash_flow_inv: "cash_step\<^sup>*\<^sup>* db0 db \<Longrightarrow> cash_blank db0 \<Longrightarrow> flow_inv db"
  using cash_reach by (auto simp: cash_inv_def)

section \<open>The books\<close>

definition captured_of :: "id \<Rightarrow> payment \<Rightarrow> bool" where
  "captured_of m p \<longleftrightarrow> p_Status p = Captured \<and> p_MerchantID p = m"

definition settled_net :: "id \<Rightarrow> settlement_item list \<Rightarrow> int" where
  "settled_net m its = sum_where (\<lambda>it. it_MerchantID it = m) it_Net its"

lemma sum_purses:
  assumes "\<And>p. p \<in> set ps \<Longrightarrow> p_Status p = Captured \<Longrightarrow> g (purse_of p) = f p"
  shows "sum_where (of_merchant m) g (map purse_of ps) = sum_where (captured_of m) f ps"
  using assms by (induction ps) (simp_all add: of_merchant_def captured_of_def)

lemma items_net_abs: "items_net m (map item_view_of its) = settled_net m its"
  by (induction its) (simp_all add: items_net_def settled_net_def item_view_of_def)

lemma fee_back_purse: "money_ok p \<Longrightarrow> purse_share (purse_of p) = fee_back p"
  using money_okD [of p] by (simp add: purse_share_def fee_share_def fee_back_def fee_reversal_eq)

lemma flow_books:
  assumes "flow_inv db" "in_bounds db"
  shows "account_balance m ''CUSTOMER_RECEIVABLE'' (db_ledger db) = sum_where (captured_of m) p_Amount (db_payments db)"
    "account_balance m ''PLATFORM_FEE_REVENUE'' (db_ledger db) = - sum_where (captured_of m) (\<lambda>p. p_Fee p - fee_back p) (db_payments db)"
    "account_balance m ''REFUND_CLEARING'' (db_ledger db) = - sum_where (captured_of m) p_AmountRefunded (db_payments db)"
    "account_balance m ''MERCHANT_PAYABLE'' (db_ledger db)
       = settled_net m (db_items db) - sum_where (captured_of m) net_of (db_payments db)"
    "account_balance m ''SETTLEMENT_CLEARING'' (db_ledger db) + account_balance m ''MERCHANT_BANK_PAYOUT'' (db_ledger db)
       + account_balance m ''MERCHANT_RESERVE_HELD'' (db_ledger db)
       = - settled_net m (db_items db)"
proof -
  have inv: "treasury_inv (abs_tr db)" using assms(1) by (simp add: flow_inv_def)
  then have b: "books m (abs_tr db)" using assms(2) by (simp add: treasury_inv_def in_bounds_abs)
  have ok: "money_ok p" if "p \<in> set (db_payments db)" "p_Status p = Captured" for p
    using captured_money_ok [OF inv assms(2)] that by blast
  have sums: "sum_where (of_merchant m) u_Amount (map purse_of (db_payments db)) = sum_where (captured_of m) p_Amount (db_payments db)"
    "sum_where (of_merchant m) u_Refunded (map purse_of (db_payments db)) = sum_where (captured_of m) p_AmountRefunded (db_payments db)"
    "sum_where (of_merchant m) purse_net (map purse_of (db_payments db)) = sum_where (captured_of m) net_of (db_payments db)"
    "sum_where (of_merchant m) (\<lambda>u. u_Fee u - purse_share u) (map purse_of (db_payments db))
       = sum_where (captured_of m) (\<lambda>p. p_Fee p - fee_back p) (db_payments db)"
    by (rule sum_purses, simp add: ok net_of_purse fee_back_purse)+
  from b show "account_balance m ''CUSTOMER_RECEIVABLE'' (db_ledger db) = sum_where (captured_of m) p_Amount (db_payments db)"
    "account_balance m ''PLATFORM_FEE_REVENUE'' (db_ledger db) = - sum_where (captured_of m) (\<lambda>p. p_Fee p - fee_back p) (db_payments db)"
    "account_balance m ''REFUND_CLEARING'' (db_ledger db) = - sum_where (captured_of m) p_AmountRefunded (db_payments db)"
    "account_balance m ''MERCHANT_PAYABLE'' (db_ledger db)
       = settled_net m (db_items db) - sum_where (captured_of m) net_of (db_payments db)"
    "account_balance m ''SETTLEMENT_CLEARING'' (db_ledger db) + account_balance m ''MERCHANT_BANK_PAYOUT'' (db_ledger db)
       + account_balance m ''MERCHANT_RESERVE_HELD'' (db_ledger db)
       = - settled_net m (db_items db)"
    by (simp_all add: books_def abs_tr_def pooled_def sums items_net_abs)
qed

section \<open>A run on concrete data\<close>

definition sample_books :: payout_db where
  "sample_books = \<lparr>db_ledger = empty_ledger, db_outbox = [], db_orders = [sample_order ''o1'' 1], db_attempts = [],
     db_payments = [], db_splits = [], db_card_details = [], db_challenges = [], db_card_tokens = [], db_settlements = [],
     db_items = [], db_releases = [], db_adjustments = [], db_preferences = [],
     db_policies = [\<lparr>rp_ID = ''rp1'', rp_MerchantID = ''m1'', rp_PolicyType = ''fixed_percentage'', rp_PercentageBPS = 1000,
        rp_HoldDays = 30, rp_ThresholdAmount = 0, rp_Notes = ''''\<rparr>], db_refunds = [], db_payouts = [], db_payout_events = [], db_receipts = [],
     db_scenarios = [], db_beneficiaries = [\<lparr>bn_ID = ''bn1'', bn_MerchantID = ''m1'', bn_DestinationType = DestBankAccount,
        bn_AccountHolderName = ''Asha'', bn_BankAccountLast4 = ''1234'', bn_BankIFSC = ''HDFC0001'', bn_VPA = [],
        bn_Fingerprint = ''f1'', bn_Status = BenApproved, bn_VerificationFreshUntil = None, bn_ApprovedAt = None, bn_ApprovalNotes = [],
        bn_CreatedAt = 1\<rparr>], db_approvals = [], db_batches = [], db_batch_items = []\<rparr>"

definition sample_sold :: "payment_error + capture_result \<times> payout_db" where
  "sample_sold =
     bindR (StartAuthorization ''a1'' ''p1'' (\<lambda>_. ''s1'') ''e1'' 5 (sample_auth 500 ''k1'') sample_books) (\<lambda>(_, db1).
     bindR (MarkAuthorizationAuthorized ''e2'' 6 ''m1'' ''p1'' ''g1'' ''ac'' None db1) (\<lambda>(_, db2).
       CaptureAuthorizedPayment (''t1'', ''e3'', ''e4'') 7 ''m1'' ''p1'' 500 db2))"

definition sample_refund_input :: "int \<Rightarrow> create_refund_input" where
  "sample_refund_input amount = \<lparr>cr_in_PaymentID = ''p1'', cr_in_MerchantID = ''m1'', cr_in_Amount = amount, cr_in_Reason = ''damaged'',
     cr_in_Notes = []\<rparr>"

definition sample_batch_ids :: batch_ids where
  "sample_batch_ids = \<lparr>bi_Settlement = ''st1'', bi_Item = (\<lambda>i. ''it'' @ replicate i CHR ''x''), bi_Txn = ''t3'', bi_Release = ''rr1'',
     bi_Event = ''e7''\<rparr>"

lemma sample_blank: "cash_blank sample_books"
  by (simp add: cash_blank_def blank_def sample_books_def empty_ledger_def orders_inv_def order_row_ok_def sample_order_def unique_key_def
      policies_inv_def ValidatePolicy_def)

lemma sample_sold_run: "sample_sold = Inr (r, db) \<Longrightarrow> cash_step\<^sup>*\<^sup>* sample_books db"
proof -
  assume "sample_sold = Inr (r, db)"
  then obtain r1 db1 r2 db2 where
    "StartAuthorization ''a1'' ''p1'' (\<lambda>_. ''s1'') ''e1'' 5 (sample_auth 500 ''k1'') sample_books = Inr (r1, db1)"
    "MarkAuthorizationAuthorized ''e2'' 6 ''m1'' ''p1'' ''g1'' ''ac'' None db1 = Inr (r2, db2)"
    "CaptureAuthorizedPayment (''t1'', ''e3'', ''e4'') 7 ''m1'' ''p1'' 500 db2 = Inr (r, db)"
    by (auto simp: sample_sold_def bindR_Inr_iff)
  then have "pay_step sample_books db1" "pay_step db1 db2" "pay_step db2 db" by (blast intro: pay_step.intros)+
  then show ?thesis by (meson converse_rtranclp_into_rtranclp rtranclp.rtrancl_refl cash_step.flow flow_step.payment)
qed

lemmas money_eval = pay_eval sample_books_def sample_sold_def sample_refund_input_def sample_batch_ids_def CreateRefund_def
  RefundableBalance_def new_refund_def insert_pk_def reserve_refund_def GetRefund_def ProcessRefund_def lock_refund_def
  RefundTransition_def CalculateRefundFeeReversal_def process_entries_def refund_line_def confirm_refund_def set_refund_def
  RunBatch_def settleable_def captured_between_def settle_batch_def CalculateNet_def refund_impact_def CalculateRefundNetImpact_def
  calculateReserveAmount_def GetReservePolicy_def CalculateReserve_def new_settlement_def item_of_def settlementEntries_def
  schedule_release_def reserveHoldDays_def days_def seconds_def settle_payment_def batch_event_def GetSettlement_def settlement_at_def

lemma sample_sold_ok:
  obtains r db p where "sample_sold = Inr (r, db)" "db_payments db = [p]" "p_ID p = ''p1''" "p_Status p = Captured" "p_Amount p = 500"
    "p_MerchantID p = ''m1''" "p_Fee p = 10" "p_AmountRefunded p = 0" "p_AmountRefundedPending p = 0" "\<not> p_Settled p"
    "p_SettlementID p = ''''" "p_CapturedAt p = Some 7" "p_Currency p = ''INR''" "p_OrderID p = ''o1''" "db_refunds db = []" "db_items db = []" "db_settlements db = []" "db_releases db = []"
    "map lt_ID (ledger_transactions (db_ledger db)) = [''t1'']" "map source_of (ledger_transactions (db_ledger db)) = [(''payment'', ''p1'')]"
    "db_policies db = db_policies sample_books" "db_splits db = []"
  by (simp add: money_eval source_of_def)

lemma sample_refund_run:
  assumes n: "n = 100 \<or> n = 500"
  obtains db r1 db1 r2 db2 p where "cash_step\<^sup>*\<^sup>* sample_books db" "CreateRefund ''r1'' ''e5'' 8 (sample_refund_input n) db = Inr (r1, db1)"
    "ProcessRefund (''t2'', ''e6'', ''aj1'') 8 ''r1'' db1 = Inr (r2, db2)" "cash_step\<^sup>*\<^sup>* sample_books db1" "cash_step\<^sup>*\<^sup>* sample_books db2"
    "db_payments db2 = [p]" "p_ID p = ''p1''" "p_Status p = Captured" "p_Amount p = 500"
    "p_MerchantID p = ''m1''" "p_Fee p = 10" "p_AmountRefunded p = n" "p_AmountRefundedPending p = 0" "\<not> p_Settled p"
    "p_SettlementID p = ''''" "p_CapturedAt p = Some 7" "map r_Amount (db_refunds db2) = [n]" "map r_PaymentID (db_refunds db2) = [''p1'']"
    "map r_Status (db_refunds db2) = [RefundProcessed]" "db_items db2 = []" "db_settlements db2 = []" "db_releases db2 = []"
    "map lt_ID (ledger_transactions (db_ledger db2)) = [''t1'', ''t2'']"
    "map source_of (ledger_transactions (db_ledger db2)) = [(''payment'', ''p1''), (''refund'', ''r1'')]"
    "db_policies db2 = db_policies sample_books" "db_splits db2 = []"
    "map r_ID (db_refunds db2) = [''r1'']" "map r_MerchantID (db_refunds db2) = [''m1'']" "map r_Currency (db_refunds db2) = [''INR'']"
proof -
  obtain r db p where sold: "sample_sold = Inr (r, db)" "db_payments db = [p]" "p_ID p = ''p1''" "p_Status p = Captured" "p_Amount p = 500"
    "p_MerchantID p = ''m1''" "p_Fee p = 10" "p_AmountRefunded p = 0" "p_AmountRefundedPending p = 0" "\<not> p_Settled p"
    "p_SettlementID p = ''''" "p_CapturedAt p = Some 7" "p_Currency p = ''INR''" "p_OrderID p = ''o1''" "db_refunds db = []" "db_items db = []" "db_settlements db = []" "db_releases db = []"
    "map lt_ID (ledger_transactions (db_ledger db)) = [''t1'']" "map source_of (ledger_transactions (db_ledger db)) = [(''payment'', ''p1'')]"
    "db_policies db = db_policies sample_books" "db_splits db = []" by (rule sample_sold_ok)
  have run: "cash_step\<^sup>*\<^sup>* sample_books db" by (rule sample_sold_run [OF sold(1)])
  have pos: "0 < n" "n \<le> 500" using n by auto
  have tx: "\<exists>x. ledger_transactions (db_ledger db) = [x] \<and> lt_ID x = ''t1'' \<and> source_of x = (''payment'', ''p1'')"
    using sold(19,20) by (auto simp: map_eq_Cons_conv)
  obtain r1 db1 where c: "CreateRefund ''r1'' ''e5'' 8 (sample_refund_input n) db = Inr (r1, db1)" "db_refunds db1 = [r1]"
      "r_ID r1 = ''r1''" "r_PaymentID r1 = ''p1''" "r_Amount r1 = n" "r_Status r1 = RefundProcessing" "r_MerchantID r1 = ''m1''"
      "r_Currency r1 = ''INR''" "db_payments db1 = [reserve_refund n p]" "db_ledger db1 = db_ledger db" "db_items db1 = []" "db_settlements db1 = []"
      "db_releases db1 = []" "db_policies db1 = db_policies sample_books" "db_splits db1 = []"
    using pos sold(2-18,21,22) by (simp add: CreateRefund_def sample_refund_input_def pay_at_def RefundableBalance_def in64_def insert_pk_def
      new_refund_def Let_def GetRefund_def db_simps)
  obtain r2 db2 where d: "ProcessRefund (''t2'', ''e6'', ''aj1'') 8 ''r1'' db1 = Inr (r2, db2)" "db_payments db2 = [confirm_refund n (reserve_refund n p)]"
      "db_refunds db2 = [r1\<lparr>r_Status := RefundProcessed, r_ProcessedAt := Some 8\<rparr>]" "db_items db2 = []" "db_settlements db2 = []" "db_releases db2 = []"
      "map lt_ID (ledger_transactions (db_ledger db2)) = [''t1'', ''t2'']"
      "map source_of (ledger_transactions (db_ledger db2)) = [(''payment'', ''p1''), (''refund'', ''r1'')]"
      "db_policies db2 = db_policies sample_books" "db_splits db2 = []"
    using n tx c(2-) sold(3-11) by (elim disjE exE conjE) (simp_all add: ProcessRefund_def lock_refund_def reserve_refund_def RefundTransition_def in64_def i64_def quot64_def
      CalculateRefundFeeReversal_def process_entries_def refund_line_def Let_def CreateEntriesTx_Inr InsertTransaction_Inr ValidateEntries_def
      CreateEntriesTx_def InsertTransactionWithEntriesTx_def
      entry_ok_def ledger_accounts_def source_of_def db_simps set_refund_def GetRefund_def)
  have "cash_step db db1" "cash_step db1 db2" using c(1) d(1) by (blast intro: cash_step.flow flow_step.intros)+
  then have "cash_step\<^sup>*\<^sup>* sample_books db1" "cash_step\<^sup>*\<^sup>* sample_books db2" using run by (meson rtranclp.rtrancl_into_rtrancl)+
  then show thesis
    using sold(3-12) c d run by (intro that [OF run c(1) d(1), of "confirm_refund n (reserve_refund n p)"]) (simp_all add: confirm_refund_def reserve_refund_def)
qed

lemmas sample_refunded_ok = sample_refund_run [OF disjI1 [OF refl]]

section \<open>Properties\<close>



definition refunds_of :: "refund_state \<Rightarrow> id \<Rightarrow> 'a refund_db_scheme \<Rightarrow> int" where
  "refunds_of st i db = sum_where (\<lambda>r. r_PaymentID r = i \<and> r_Status r = st) r_Amount (db_refunds db)"

lemma refund_sum_abs: "refund_sum st i (t_refunds (abs_tr db)) = refunds_of st i db"
proof -
  have "refund_sum st i (map refund_view_of rs) = sum_where (\<lambda>r. r_PaymentID r = i \<and> r_Status r = st) r_Amount rs" for rs
    by (induction rs) (simp_all add: refund_sum_def)
  then show ?thesis by (simp add: abs_tr_def refunds_of_def)
qed

text \<open>
  C3: Refunds never exceed their payment. In every reachable database the pending amount of a payment
  is the sum of its refunds in progress, the refunded amount the sum of its processed refunds, and
  both together are within the amount (below 2 to the 63); only captured payments have refunds.
\<close>

theorem refunds_within_payment:
  assumes "cash_step\<^sup>*\<^sup>* db0 db" "cash_blank db0" "p \<in> set (db_payments db)"
  shows "p_AmountRefundedPending p = refunds_of RefundProcessing (p_ID p) db
    \<and> p_AmountRefunded p = refunds_of RefundProcessed (p_ID p) db
    \<and> (p_Amount p < 2 ^ 63 \<longrightarrow> p_AmountRefunded p + p_AmountRefundedPending p \<le> p_Amount p)
    \<and> (\<forall>r \<in> set (db_refunds db). r_PaymentID r = p_ID p \<longrightarrow> p_Status p = Captured \<and> r_MerchantID r = p_MerchantID p)"
proof -
  have shape: "shape_inv (abs_tr db)" using cash_flow_inv [OF assms(1,2)] by (simp add: flow_inv_def treasury_inv_def)
  show ?thesis
    using payment_row(4-6) [OF shape assms(3)] refund_counted(2,3) [OF shape _ _ assms(3)] refund_sum_abs [of _ "p_ID p" db] by auto
qed

theorem refunds_within_payment_witness:
  "\<exists>(db :: payout_db) p. cash_step\<^sup>*\<^sup>* sample_books db \<and> p \<in> set (db_payments db) \<and> p_AmountRefunded p = 100
     \<and> refunds_of RefundProcessed (p_ID p) db = 100 \<and> 100 + p_AmountRefundedPending p \<le> 500"
proof -
  obtain db p where db: "cash_step\<^sup>*\<^sup>* sample_books db" "db_payments db = [p]" "p_Amount p = 500" "p_AmountRefunded p = 100"
    by (rule sample_refunded_ok) blast
  with refunds_within_payment [OF db(1) sample_blank, of p] show ?thesis by auto
qed

text \<open>
  C4: A payment is settled at most once. In every reachable database no two settlement items name the
  same payment, the settled flag says whether there is one, and the item, its settlement and its
  merchant are those of the payment, which is captured.
\<close>

theorem settled_at_most_once:
  assumes "cash_step\<^sup>*\<^sup>* db0 db" "cash_blank db0"
  shows "distinct (map it_PaymentID (db_items db))
    \<and> (\<forall>p \<in> set (db_payments db). p_Settled p \<longleftrightarrow> p_ID p \<in> it_PaymentID ` set (db_items db))
    \<and> (\<forall>it \<in> set (db_items db). \<exists>p \<in> set (db_payments db). p_ID p = it_PaymentID it \<and> p_Status p = Captured
         \<and> p_MerchantID p = it_MerchantID it \<and> p_SettlementID p = it_SettlementID it)"
proof -
  have shape: "shape_inv (abs_tr db)" using cash_flow_inv [OF assms] by (simp add: flow_inv_def treasury_inv_def)
  have "distinct (map it_PaymentID (db_items db))"
    using shape_invD(3) [OF shape] by (simp add: unique_key_def abs_tr_def item_view_of_def o_def)
  moreover have "\<forall>p \<in> set (db_payments db). p_Settled p \<longleftrightarrow> p_ID p \<in> it_PaymentID ` set (db_items db)"
    using shape_invD(4) [OF shape] by (simp add: abs_tr_def purse_ok_def item_view_of_def image_image)
  moreover have "\<forall>it \<in> set (db_items db). \<exists>p \<in> set (db_payments db). p_ID p = it_PaymentID it \<and> p_Status p = Captured
         \<and> p_MerchantID p = it_MerchantID it \<and> p_SettlementID p = it_SettlementID it"
    using shape_invD(6) [OF shape] by (fastforce simp: abs_tr_def item_ok_def item_view_of_def of_merchant_def)
  ultimately show ?thesis by blast
qed

section \<open>Batches\<close>

definition fresh_batch :: "batch_ids \<Rightarrow> 'a settlement_db_scheme \<Rightarrow> bool" where
  "fresh_batch ids db \<longleftrightarrow> bi_Settlement ids \<notin> st_ID ` set (db_settlements db) \<and> inj (bi_Item ids)
     \<and> range (bi_Item ids) \<inter> it_ID ` set (db_items db) = {} \<and> bi_Release ids \<notin> rr_ID ` set (db_releases db)
     \<and> bi_Txn ids \<notin> lt_ID ` set (ledger_transactions (db_ledger db))
     \<and> (''settlement'', bi_Settlement ids) \<notin> source_of ` set (ledger_transactions (db_ledger db))"

lemma insert_items_total:
  assumes "inj (bi_Item ids)" "\<forall>j \<ge> i. bi_Item ids j \<notin> it_ID ` set rows" "distinct (map p_ID ps)"
    "p_ID ` set ps \<inter> it_PaymentID ` set rows = {}"
  shows "\<exists>rows'. insert_items ids now m i ps rows = Inr rows'"
  using assms
proof (induction ps arbitrary: i rows)
  case (Cons p ps)
  let ?it = "item_of ids now m i p"
  have "it_ID ?it = bi_Item ids i" by (simp add: item_of_def)
  moreover have "\<exists>rows'. insert_items ids now m (Suc i) ps (rows @ [?it]) = Inr rows'"
  proof (rule Cons.IH [OF Cons.prems(1)])
    have "bi_Item ids j \<noteq> bi_Item ids i" if "Suc i \<le> j" for j using injD [OF Cons.prems(1)] that by fastforce
    then show "\<forall>j \<ge> Suc i. bi_Item ids j \<notin> it_ID ` set (rows @ [?it])" using Cons.prems(2) by (simp add: item_of_def)
    show "distinct (map p_ID ps)" using Cons.prems(3) by simp
    show "p_ID ` set ps \<inter> it_PaymentID ` set (rows @ [?it]) = {}" using Cons.prems(3,4) by auto
  qed
  ultimately show ?case using Cons.prems(2,4) by (auto simp: Let_def)
qed simp

lemma settlement_posts:
  assumes "0 < gross" "gross < volume_bound" "0 \<le> reserve" "reserve \<le> gross"
    "t \<notin> lt_ID ` set (ledger_transactions l)" "(''settlement'', sid) \<notin> source_of ` set (ledger_transactions l)"
  shows "\<exists>l'. CreateEntriesTx t m ''settlement'' sid descr (settlementEntries gross reserve (gross - reserve)) l = Inr l'"
proof -
  let ?es = "settlementEntries gross reserve (gross - reserve)"
  have dc: "debits ?es = gross" "credits ?es = gross" using assms(3,4) by (auto simp: settlementEntries_def ledger_line_def)
  have "list_all one_sided ?es" "list_all entry_ok ?es"
    using assms by (auto simp: settlementEntries_def ledger_line_def one_sided_def entry_ok_def ledger_accounts_def)
  moreover have "in64 gross" using assms(1,2) by (simp add: in64_def volume_bound_def)
  ultimately show ?thesis using assms dc by (simp add: CreateEntriesTx_Inr InsertTransaction_Inr ValidateEntries_wrap_iff)
qed

lemma schedule_release_total:
  "bi_Release ids \<notin> rr_ID ` set (db_releases db) \<Longrightarrow> \<exists>rows. schedule_release wired ids now m reserve db = Inr rows"
  by (simp add: schedule_release_def insert_pk_def Let_def)

lemma batch_volume:
  assumes "shape_inv (abs_tr db)" "in_bounds db" "\<And>p. p \<in> set (db_payments db) \<Longrightarrow> q p \<Longrightarrow> p_Status p = Captured"
  shows "sum_list (map p_Amount (filter q (db_payments db))) < volume_bound"
proof -
  have "sum_list (map p_Amount (filter q (db_payments db))) \<le> sum_where (\<lambda>p. p_Status p = Captured) p_Amount (db_payments db)"
    using assms(3) payment_row(1) [OF assms(1)] by (intro sum_filter_le) force+
  then show ?thesis using assms(2) by (simp add: in_bounds_def)
qed

text \<open>A batch of payments worth something goes through, and what it records.\<close>

lemma settle_batch_total:
  fixes db :: "'a refund_db_scheme"
  assumes inv: "flow_inv db" and b: "in_bounds db" and ids: "fresh_batch ids db"
    and ps: "ps = filter q (db_payments db)" "\<forall>p \<in> set ps. p_Status p = Captured \<and> \<not> p_Settled p" and worth: "0 < sum_list (map net_of ps)"
  obtains s db' new where "settle_batch wired ids now m period descr extra ps db = Inr (s, db')"
    "st_GrossNetAmount s = sum_list (map net_of ps)" "st_NetAmount s + st_ReserveAmount s = st_GrossNetAmount s"
    "0 \<le> st_ReserveAmount s" "st_ReserveAmount s \<le> st_GrossNetAmount s" "st_PaymentCount s = length ps" "st_ID s = bi_Settlement ids"
    "db_items db' = db_items db @ new" "map it_PaymentID new = map p_ID ps" "map it_Net new = map net_of ps"
    "db_payments db' = upd_where (\<lambda>p. p_ID p \<in> p_ID ` set ps) (settle_payment (bi_Settlement ids)) (db_payments db)"
proof -
  have tinv: "treasury_inv (abs_tr db)" and pol: "policies_inv db" and uniq: "unique_key p_ID (db_payments db)"
    using inv pay_inv_unique by (auto simp: flow_inv_def)
  then have shape: "shape_inv (abs_tr db)" by (simp add: treasury_inv_def)
  have ok: "list_all money_ok ps" using captured_money_ok [OF tinv b] ps by (auto simp: list_all_iff)
  have vol: "sum_list (map p_Amount ps) < volume_bound" using batch_volume [OF shape b, of q] ps by auto
  let ?t = "batch_totals (0, 0, 0) ps" and ?g = "sum_list (map net_of ps)"
  let ?r = "calculateReserveAmount wired m ?g db"
  have gross: "CalculateNet (fst ?t) (fst (snd ?t)) (snd (snd ?t)) = ?g" by (rule batch_gross(2) [OF ok vol])
  have g: "0 \<le> ?g" "?g < volume_bound" using batch_sums(6,7) [OF ok] vol by simp_all
  note r = reserve_bounds [OF pol g, of wired m]
  have net: "i64 (?g - ?r) = ?g - ?r" using r g by (simp add: in64_def volume_bound_def)
  note I = ids [unfolded fresh_batch_def]
  have "p_ID ` set ps \<inter> it_PaymentID ` set (db_items db) = {}"
    using shape_invD(4) [OF shape] ps by (fastforce simp: abs_tr_def purse_ok_def item_view_of_def image_image)
  moreover have "distinct (map p_ID ps)" using uniq unfolding ps(1) unique_key_def by (simp add: distinct_map_filter)
  ultimately obtain items where items: "insert_items ids now m 0 ps (db_items db) = Inr items"
    using insert_items_total [of ids 0 "db_items db" ps now m] I by blast
  have "\<exists>l. CreateEntriesTx (bi_Txn ids) m ''settlement'' (bi_Settlement ids) descr (settlementEntries ?g ?r (?g - ?r)) (db_ledger db) = Inr l"
    by (rule settlement_posts [OF worth g(2) conjunct1 [OF r] conjunct2 [OF r]]) (use I in auto)
  then obtain l where l: "CreateEntriesTx (bi_Txn ids) m ''settlement'' (bi_Settlement ids) descr (settlementEntries ?g ?r (?g - ?r)) (db_ledger db) = Inr l"
    by blast
  obtain rel where rel: "schedule_release wired ids now m ?r db = Inr rel"
    using schedule_release_total [of ids db wired now m ?r] I by auto
  have none: "find (settlement_at m (bi_Settlement ids)) (db_settlements db) = None"
    using I by (auto simp: find_None_iff settlement_at_def image_iff)
  let ?s = "new_settlement ids now m period ?t ?g ?r (?g - ?r) ps"
  have ins: "insert_pk st_ID ?s (db_settlements db) = Some (db_settlements db @ [?s])"
    using I by (simp add: insert_pk_def new_settlement_def)
  have get: "GetSettlement m (bi_Settlement ids) db1 = Inr ?s" if "db_settlements db1 = db_settlements db @ [?s]" for db1 :: "'a refund_db_scheme"
    using that none by (simp add: GetSettlement_def find_append settlement_at_def new_settlement_def)
  have "\<exists>s db'. settle_batch wired ids now m period descr extra ps db = Inr (s, db')"
    by (simp add: settle_batch_def Let_def gross net ins items l rel get emit_def)
  then obtain s db' where op: "settle_batch wired ids now m period descr extra ps db = Inr (s, db')" by blast
  from op show thesis
  proof (cases rule: settle_batch_Inr)
    case (1 totals gross' reserve net' items')
    obtain new where new: "items' = db_items db @ new" "new_items ids m ps new" using insert_items_Inr(1) [OF 1(8)] by blast
    have vals: "gross' = ?g" "reserve = ?r" "net' = ?g - ?r" using 1(1-4) gross net by simp_all
    have nets: "map it_Net new = map net_of ps"
      using new(2) ok item_net_eq [of _ ids now m 0] by (simp add: new_items_def list_all_iff item_of_def)
    show thesis
      by (rule that [OF op, of new]) (use 1(6,9,11) vals r new nets in \<open>simp_all add: new_settlement_def new_items_def\<close>)
  qed
qed

lemma RunBatch_total:
  fixes db :: "'a refund_db_scheme"
  assumes "flow_inv db" "in_bounds db" "fresh_batch ids db"
    and ps: "ps = filter (\<lambda>p. settleable locked m p \<and> captured_between lo hi p) (db_payments db)" and worth: "0 < sum_list (map net_of ps)"
  obtains s db' new where "RunBatch wired locked ids now m lo hi db = Inr (s, db')"
    "st_GrossNetAmount s = sum_list (map net_of ps)" "st_NetAmount s + st_ReserveAmount s = st_GrossNetAmount s"
    "0 \<le> st_ReserveAmount s" "st_ReserveAmount s \<le> st_GrossNetAmount s" "st_PaymentCount s = length ps" "st_ID s = bi_Settlement ids"
    "db_items db' = db_items db @ new" "map it_PaymentID new = map p_ID ps" "map it_Net new = map net_of ps"
    "db_payments db' = upd_where (\<lambda>p. p_ID p \<in> p_ID ` set ps) (settle_payment (bi_Settlement ids)) (db_payments db)"
proof -
  have "ps \<noteq> []" using worth by auto
  then have run: "RunBatch wired locked ids now m lo hi db
      = settle_batch wired ids now m (lo, hi) (''settlement batch '' @ bi_Settlement ids) [] ps db"
    by (simp add: RunBatch_def Let_def ps)
  show thesis
    by (rule settle_batch_total [OF assms(1-3) ps _ worth, of wired now m "(lo, hi)" "''settlement batch '' @ bi_Settlement ids" "[]"])
       (auto simp: ps settleable_def run intro: that)
qed

text \<open>
  C5: A settlement batch pays out exactly what its items add up to. In every reachable database within
  the bounds, with fresh identifiers, a batch whose payments are worth something succeeds; its gross
  amount is the worth of all the eligible payments, split into payout and reserve with nothing lost;
  it writes one item per payment with its worth, and marks exactly those payments settled.
\<close>

theorem batch_pays_items:
  assumes "cash_step\<^sup>*\<^sup>* db0 db" "cash_blank db0" "in_bounds db" "fresh_batch ids db"
    and "ps = filter (\<lambda>p. settleable locked m p \<and> captured_between lo hi p) (db_payments db)" "0 < sum_list (map net_of ps)"
  shows "\<exists>s db' new. RunBatch wired locked ids now m lo hi db = Inr (s, db')
    \<and> st_GrossNetAmount s = sum_list (map net_of ps) \<and> st_NetAmount s + st_ReserveAmount s = st_GrossNetAmount s
    \<and> 0 \<le> st_ReserveAmount s \<and> st_ReserveAmount s \<le> st_GrossNetAmount s \<and> st_PaymentCount s = length ps
    \<and> db_items db' = db_items db @ new \<and> map it_PaymentID new = map p_ID ps \<and> map it_Net new = map net_of ps
    \<and> db_payments db' = upd_where (\<lambda>p. p_ID p \<in> p_ID ` set ps) (settle_payment (st_ID s)) (db_payments db)"
proof (rule RunBatch_total [OF cash_flow_inv [OF assms(1,2)] assms(3-6), of wired now])
  fix s db' new
  assume "RunBatch wired locked ids now m lo hi db = Inr (s, db')"
    "st_GrossNetAmount s = sum_list (map net_of ps)" "st_NetAmount s + st_ReserveAmount s = st_GrossNetAmount s"
    "0 \<le> st_ReserveAmount s" "st_ReserveAmount s \<le> st_GrossNetAmount s" "st_PaymentCount s = length ps" "st_ID s = bi_Settlement ids"
    "db_items db' = db_items db @ new" "map it_PaymentID new = map p_ID ps" "map it_Net new = map net_of ps"
    "db_payments db' = upd_where (\<lambda>p. p_ID p \<in> p_ID ` set ps) (settle_payment (bi_Settlement ids)) (db_payments db)"
  then show ?thesis by (intro exI [of _ s] exI [of _ db'] exI [of _ new]) simp
qed

lemma sample_worth: "p_Amount p = 500 \<Longrightarrow> p_Fee p = 10 \<Longrightarrow> p_AmountRefunded p = 100 \<Longrightarrow> net_of p = 392"
  by (simp add: net_of_def fee_back_def CalculateRefundFeeReversal_def quot64_def i64_def Let_def)

lemma sample_before_batch:
  obtains db p where "cash_step\<^sup>*\<^sup>* sample_books db" "in_bounds db" "fresh_batch sample_batch_ids db"
    "filter (\<lambda>p. settleable [] ''m1'' p \<and> captured_between 0 100 p) (db_payments db) = [p]" "db_payments db = [p]" "net_of p = 392"
    "p_ID p = ''p1''" "db_items db = []"
proof -
  obtain db p where db: "db_payments db = [p]" "cash_step\<^sup>*\<^sup>* sample_books db" "p_ID p = ''p1''" "p_Status p = Captured" "p_Amount p = 500"
    "p_MerchantID p = ''m1''" "p_Fee p = 10" "p_AmountRefunded p = 100" "\<not> p_Settled p" "p_CapturedAt p = Some 7"
    "db_items db = []" "db_settlements db = []" "db_releases db = []"
    "map lt_ID (ledger_transactions (db_ledger db)) = [''t1'', ''t2'']"
    "map source_of (ledger_transactions (db_ledger db)) = [(''payment'', ''p1''), (''refund'', ''r1'')]"
    "db_splits db = []" by (rule sample_refunded_ok) (rule that, assumption+)
  have "inj (\<lambda>i. ''it'' @ replicate i CHR ''x'')" by (auto simp: inj_def replicate_eq_replicate)
  moreover have "lt_ID ` set (ledger_transactions (db_ledger db)) = {''t1'', ''t2''}"
    "source_of ` set (ledger_transactions (db_ledger db)) = {(''payment'', ''p1''), (''refund'', ''r1'')}"
    using arg_cong [OF db(14), of set] arg_cong [OF db(15), of set] by simp_all
  ultimately have "fresh_batch sample_batch_ids db" using db(11-13) by (simp add: fresh_batch_def sample_batch_ids_def)
  moreover have "in_bounds db" using db by (simp add: in_bounds_def money_bound_def volume_bound_def)
  ultimately show thesis
    using db by (intro that [OF db(2)]) (simp_all add: settleable_def captured_between_def sample_worth)
qed

theorem batch_pays_items_witness:
  "\<exists>(db :: payout_db) s db'. cash_step\<^sup>*\<^sup>* sample_books db \<and> RunBatch True [] sample_batch_ids 10 ''m1'' 0 100 db = Inr (s, db')
     \<and> st_NetAmount s + st_ReserveAmount s = 392 \<and> map it_Net (db_items db') = [392]"
proof -
  obtain db p where db: "cash_step\<^sup>*\<^sup>* sample_books db" "in_bounds db" "fresh_batch sample_batch_ids db"
    "filter (\<lambda>p. settleable [] ''m1'' p \<and> captured_between 0 100 p) (db_payments db) = [p]" "net_of p = 392" "db_items db = []"
    by (rule sample_before_batch) (rule that, assumption+)
  from batch_pays_items [OF db(1) sample_blank db(2,3) db(4) [symmetric], of True 10] db(5,6) show ?thesis
    using db(1) by auto
qed

lemma sample_settled_ok:
  obtains db where "cash_step\<^sup>*\<^sup>* sample_books db" "map it_PaymentID (db_items db) = [''p1'']" "map p_SettlementID (db_payments db) = [''st1'']"
proof -
  obtain db p where db: "cash_step\<^sup>*\<^sup>* sample_books db" "in_bounds db" "fresh_batch sample_batch_ids db"
    "filter (\<lambda>p. settleable [] ''m1'' p \<and> captured_between 0 100 p) (db_payments db) = [p]" "net_of p = 392" "db_items db = []"
    "db_payments db = [p]" "p_ID p = ''p1''" by (rule sample_before_batch) (rule that, assumption+)
  have worth: "0 < sum_list (map net_of [p])" using db(5) by simp
  obtain s db' where b: "RunBatch True [] sample_batch_ids 10 ''m1'' 0 100 db = Inr (s, db')" "map it_PaymentID (db_items db') = [''p1'']"
    "map p_SettlementID (db_payments db') = [''st1'']"
    by (rule RunBatch_total [OF cash_flow_inv [OF db(1) sample_blank] db(2,3) db(4) [symmetric] worth, of True 10])
       (use that db in \<open>simp add: settle_payment_def sample_batch_ids_def\<close>)
  have "cash_step\<^sup>*\<^sup>* sample_books db'" using db(1) cash_step.flow [OF flow_step.batch [OF b(1)]] by (rule rtranclp.rtrancl_into_rtrancl)
  then show thesis using b(2,3) by (rule that)
qed

theorem settled_at_most_once_witness:
  "\<exists>db :: payout_db. cash_step\<^sup>*\<^sup>* sample_books db \<and> map p_SettlementID (db_payments db) = [''st1'']
     \<and> distinct (map it_PaymentID (db_items db)) \<and> (\<forall>p \<in> set (db_payments db). p_Settled p \<longleftrightarrow> p_ID p \<in> {''p1''})"
proof -
  obtain db where db: "cash_step\<^sup>*\<^sup>* sample_books db" "map it_PaymentID (db_items db) = [''p1'']" "map p_SettlementID (db_payments db) = [''st1'']"
    by (rule sample_settled_ok)
  have "it_PaymentID ` set (db_items db) = {''p1''}" using arg_cong [OF db(2), of set] by simp
  with settled_at_most_once [OF db(1) sample_blank] have "distinct (map it_PaymentID (db_items db))"
    "\<forall>p \<in> set (db_payments db). p_Settled p \<longleftrightarrow> p_ID p \<in> {''p1''}" by simp_all
  with db(1,3) show ?thesis by (intro exI [of _ db] conjI)
qed

section \<open>Reversing a refund\<close>

lemma reversal_negates: "entries_on acct (reversal_entries a f cur) = - entries_on acct (process_entries a f cur)"
  by (simp add: entries_on_def reversal_entries_def process_entries_def refund_line_def Let_def)

lemma relock_refund:
  assumes keys: "unique_key r_ID (db_refunds db)" and P: "lock_refund (\<lambda>r. r_ID r = rid) db = Inr (x, p)"
    "db_payments db1 = upd_where (\<lambda>p. p_ID p = r_PaymentID x) (confirm_refund (r_Amount x)) (db_payments db)"
    "db_refunds db1 = upd_where (\<lambda>r. r_ID r = rid) (\<lambda>r. r\<lparr>r_Status := RefundProcessed, r_ProcessedAt := Some now\<rparr>) (db_refunds db)"
    and R: "lock_refund (\<lambda>r. r_ID r = rid \<and> r_MerchantID r = m) db1 = Inr (y, q)"
  shows "y = x\<lparr>r_Status := RefundProcessed, r_ProcessedAt := Some now\<rparr>" "q = confirm_refund (r_Amount x) p"
proof -
  have fx: "find (\<lambda>r. r_ID r = rid) (db_refunds db) = Some x" "find (\<lambda>p. p_ID p = r_PaymentID x) (db_payments db) = Some p"
    using P(1) by (auto simp: lock_refund_def split: option.split_asm)
  have fy: "find (\<lambda>r. r_ID r = rid \<and> r_MerchantID r = m) (db_refunds db1) = Some y"
    "find (\<lambda>p. p_ID p = r_PaymentID y) (db_payments db1) = Some q"
    using R by (auto simp: lock_refund_def split: option.split_asm)
  have "find (\<lambda>r. r_ID r = rid) (db_refunds db1) = Some (x\<lparr>r_Status := RefundProcessed, r_ProcessedAt := Some now\<rparr>)"
    by (simp add: P(3) find_upd_where fx)
  then show y: "y = x\<lparr>r_Status := RefundProcessed, r_ProcessedAt := Some now\<rparr>"
    using unique_find_filter [OF _ _ fy(1)] keys by (simp add: P(3))
  have "find (\<lambda>p. p_ID p = r_PaymentID x) (db_payments db1) = Some (confirm_refund (r_Amount x) p)"
    by (simp add: P(2) find_upd_where fx confirm_refund_def)
  then show "q = confirm_refund (r_Amount x) p" using fy(2) by (simp add: y)
qed

text \<open>
  C27: Reversing a refund undoes its posting. When a refund is processed and then reversed, every
  account of every merchant has its balance of before, the refunded amount of every payment too, and
  the refund ends as reversed; the reservation the refund had is given up.
\<close>

theorem refund_reversal_restores:
  fixes db :: "'a refund_db_scheme"
  assumes keys: "unique_key r_ID (db_refunds db)"
    and proc: "ProcessRefund ids now rid db = Inr (r, db1)" and rev: "ReverseRefund ids' now' m rid reason db1 = Inr (r', db2)"
  shows "(\<forall>m' acct. account_balance m' acct (db_ledger db2) = account_balance m' acct (db_ledger db))
    \<and> map p_AmountRefunded (db_payments db2) = map p_AmountRefunded (db_payments db)
    \<and> (\<forall>x \<in> set (db_refunds db2). r_ID x = rid \<longrightarrow> r_Status x = RefundReversed)"
proof -
  obtain t e a t' e' a' where ids: "ids = (t, e, a)" "ids' = (t', e', a')" by (cases ids, cases ids')
  obtain x p fd where P: "lock_refund (\<lambda>r. r_ID r = rid) db = Inr (x, p)"
    "fd = i64 (CalculateRefundFeeReversal (p_Amount p) (p_Fee p) (p_AmountRefunded p + r_Amount x)
               - CalculateRefundFeeReversal (p_Amount p) (p_Fee p) (p_AmountRefunded p))"
    "CreateEntriesTx t (r_MerchantID x) ''refund'' rid ''refund processed'' (process_entries (r_Amount x) fd (r_Currency x)) (db_ledger db)
       = Inr (db_ledger db1)"
    "db_payments db1 = upd_where (\<lambda>p. p_ID p = r_PaymentID x) (confirm_refund (r_Amount x)) (db_payments db)"
    "db_refunds db1 = upd_where (\<lambda>r. r_ID r = rid) (\<lambda>r. r\<lparr>r_Status := RefundProcessed, r_ProcessedAt := Some now\<rparr>) (db_refunds db)"
    by (rule ProcessRefund_Inr [OF proc [unfolded ids]]) (rule that, assumption+)
  obtain y q gd status where R: "lock_refund (\<lambda>r. r_ID r = rid \<and> r_MerchantID r = m) db1 = Inr (y, q)"
    "gd = i64 (CalculateRefundFeeReversal (p_Amount q) (p_Fee q) (p_AmountRefunded q)
               - CalculateRefundFeeReversal (p_Amount q) (p_Fee q) (p_AmountRefunded q - r_Amount y))"
    "CreateEntriesTx t' (r_MerchantID y) ''refund_reversal'' rid ''refund reversed'' (reversal_entries (r_Amount y) gd (r_Currency y)) (db_ledger db1)
       = Inr (db_ledger db2)"
    "db_payments db2 = upd_where (\<lambda>p. p_ID p = r_PaymentID y)
       (\<lambda>p. p\<lparr>p_AmountRefunded := p_AmountRefunded p - r_Amount y, p_RefundStatus := status\<rparr>) (db_payments db1)"
    "db_refunds db2 = upd_where (\<lambda>r. r_ID r = rid)
       (\<lambda>r. r\<lparr>r_Status := RefundReversed, r_ReversalReason := reason, r_ReversedAt := Some now'\<rparr>) (db_refunds db1)"
    by (rule ReverseRefund_Inr [OF rev [unfolded ids]]) (rule that, assumption+)
  note y = relock_refund(1) [OF keys P(1,4,5) R(1)] and q = relock_refund(2) [OF keys P(1,4,5) R(1)]
  have "gd = fd" by (simp add: R(2) P(2) q y confirm_refund_def)
  then have "account_balance m' acct (db_ledger db2) = account_balance m' acct (db_ledger db)" for m' acct
    using account_balance_post [OF P(3), of m' acct] account_balance_post [OF R(3), of m' acct] by (simp add: y reversal_negates)
  moreover have "map p_AmountRefunded (db_payments db2) = map p_AmountRefunded (db_payments db)"
    by (simp add: R(4) P(4) y upd_where_def confirm_refund_def)
  moreover have "\<forall>x \<in> set (db_refunds db2). r_ID x = rid \<longrightarrow> r_Status x = RefundReversed"
    unfolding R(5) by (simp add: set_upd_where ball_Un)
  ultimately show ?thesis by blast
qed

theorem refund_reversal_restores_witness:
  "\<exists>(db :: payout_db) r1 db1 r2 db2. ProcessRefund (''t2'', ''e6'', ''aj1'') 8 ''r1'' db = Inr (r1, db1)
     \<and> ReverseRefund (''t3'', ''e7'', ''aj2'') 9 ''m1'' ''r1'' ''bank recall'' db1 = Inr (r2, db2)
     \<and> account_balance ''m1'' ''MERCHANT_PAYABLE'' (db_ledger db2) = account_balance ''m1'' ''MERCHANT_PAYABLE'' (db_ledger db)"
proof -
  obtain db r1 db1 r2 db2 p where run: "CreateRefund ''r1'' ''e5'' 8 (sample_refund_input 100) db = Inr (r1, db1)"
    "ProcessRefund (''t2'', ''e6'', ''aj1'') 8 ''r1'' db1 = Inr (r2, db2)" "cash_step\<^sup>*\<^sup>* sample_books db1"
    "db_payments db2 = [p]" "p_ID p = ''p1''" "p_Amount p = 500" "p_Fee p = 10" "p_AmountRefunded p = 100" "p_AmountRefundedPending p = 0"
    "p_SettlementID p = ''''" "map r_Amount (db_refunds db2) = [100]" "map r_PaymentID (db_refunds db2) = [''p1'']"
    "map r_Status (db_refunds db2) = [RefundProcessed]" "map r_ID (db_refunds db2) = [''r1'']" "map r_MerchantID (db_refunds db2) = [''m1'']"
    "map r_Currency (db_refunds db2) = [''INR'']"
    "map lt_ID (ledger_transactions (db_ledger db2)) = [''t1'', ''t2'']"
    "map source_of (ledger_transactions (db_ledger db2)) = [(''payment'', ''p1''), (''refund'', ''r1'')]"
    by (rule sample_refunded_ok) (rule that, assumption+)
  have "\<exists>x1 x2. ledger_transactions (db_ledger db2) = [x1, x2] \<and> lt_ID x1 = ''t1'' \<and> lt_ID x2 = ''t2''
      \<and> source_of x1 = (''payment'', ''p1'') \<and> source_of x2 = (''refund'', ''r1'')"
    using run(17,18) by (auto simp: map_eq_Cons_conv)
  moreover obtain x where x: "db_refunds db2 = [x]" "r_ID x = ''r1''" "r_MerchantID x = ''m1''" "r_Amount x = 100" "r_PaymentID x = ''p1''"
    "r_Status x = RefundProcessed" "r_Currency x = ''INR''"
    using run(11-16) by (auto simp: map_eq_Cons_conv)
  ultimately have "\<exists>r3 db3. ReverseRefund (''t3'', ''e7'', ''aj2'') 9 ''m1'' ''r1'' ''bank recall'' db2 = Inr (r3, db3)"
    using run(4-10) by (auto simp: ReverseRefund_def lock_refund_def RefundTransition_def in64_def i64_def quot64_def
      CalculateRefundFeeReversal_def reversal_entries_def refund_line_def Let_def CreateEntriesTx_def InsertTransactionWithEntriesTx_def ValidateEntries_def
      entry_ok_def ledger_accounts_def source_of_def)
  then obtain r3 db3 where rev: "ReverseRefund (''t3'', ''e7'', ''aj2'') 9 ''m1'' ''r1'' ''bank recall'' db2 = Inr (r3, db3)" by blast
  have "unique_key r_ID (db_refunds db1)"
    using cash_flow_inv [OF run(3) sample_blank] by (simp add: flow_inv_def treasury_inv_def shape_inv_def abs_tr_def unique_key_def o_def)
  from refund_reversal_restores [OF this run(2) rev] run(2) rev show ?thesis by blast
qed

section \<open>Where the batches fall short\<close>

text \<open>
  The fee given back can overflow. On a payment of 10 to the 11 with its fee of 2 percent, half of
  it refunded, the product of fee and refund wraps: the reversal is 77662796 minor units instead of half the fee.
\<close>

theorem fee_reversal_overflow:
  "CalculateFee (10 ^ 11) = 2 * 10 ^ 9 \<and> CalculateRefundFeeReversal (10 ^ 11) (2 * 10 ^ 9) (5 * 10 ^ 10) = 77662796"
  by (simp add: CalculateFee_def CalculateRefundFeeReversal_def quot64_def i64_def Let_def)

lemma settle_batch_releases: "settle_batch False ids now m period descr extra ps db = Inr (s, db') \<Longrightarrow> db_releases db' = db_releases db"
  by (auto simp: settle_batch_def Let_def bindR_Inr_iff calculateReserveAmount_def schedule_release_def emit_def split: option.split_asm)

lemma settle_batch_no_reserve:
  assumes "settle_batch False ids now m period descr extra ps db = Inr (s, db')"
  shows "account_balance m' ''MERCHANT_RESERVE_HELD'' (db_ledger db') = account_balance m' ''MERCHANT_RESERVE_HELD'' (db_ledger db)"
  using assms
proof (cases rule: settle_batch_Inr)
  case (1 totals gross reserve net items)
  have "reserve = 0" by (simp add: 1(3) calculateReserveAmount_def)
  then show ?thesis using account_balance_post [OF 1(10), of m'] by (simp add: settlementEntries_def entries_on_def ledger_line_def)
qed

text \<open>
  The daily run holds no reserve. Whatever the reserve policies of the merchants say, the run over
  all merchants schedules no release and leaves the reserve account of every merchant as it is: its
  service is built without the policy resolver.
\<close>

theorem daily_run_holds_no_reserve:
  "db_releases (runBatchAllMerchants locked ids now i ms db) = db_releases db
   \<and> account_balance m ''MERCHANT_RESERVE_HELD'' (db_ledger (runBatchAllMerchants locked ids now i ms db))
       = account_balance m ''MERCHANT_RESERVE_HELD'' (db_ledger db)"
proof (induction ms arbitrary: i db)
  case (Cons mm ms)
  let ?b = "RunBatch False locked (ids i) now mm 0 now db"
  have "db_releases db' = db_releases db \<and> account_balance m ''MERCHANT_RESERVE_HELD'' (db_ledger db')
      = account_balance m ''MERCHANT_RESERVE_HELD'' (db_ledger db)" if "?b = Inr (s, db')" for s db'
    using that settle_batch_releases settle_batch_no_reserve by (fastforce simp: RunBatch_def Let_def split: if_split_asm)
  then show ?case using Cons.IH by (auto split: sum.split)
qed simp

text \<open>
  Fully refunded payments never settle. In every reachable database within the bounds, a batch all
  of whose eligible payments are fully refunded is refused, whatever the identifiers: its entry over
  zero does not pass the ledger. The payments stay eligible, so the next runs fail as well.
\<close>

theorem fully_refunded_never_settle:
  assumes "cash_step\<^sup>*\<^sup>* db0 db" "cash_blank db0" "in_bounds db"
    and full: "\<forall>p \<in> set (db_payments db). settleable locked m p \<longrightarrow> p_AmountRefunded p = p_Amount p"
  shows "\<exists>e. RunBatch wired locked ids now m lo hi db = Inl e"
proof -
  let ?q = "\<lambda>p. settleable locked m p \<and> captured_between lo hi p" and ?zero = "settlementEntries 0 0 0"
  let ?ps = "filter ?q (db_payments db)"
  have tinv: "treasury_inv (abs_tr db)" using cash_flow_inv [OF assms(1,2)] by (simp add: flow_inv_def)
  then have shape: "shape_inv (abs_tr db)" by (simp add: treasury_inv_def)
  have ok: "list_all money_ok ?ps" using captured_money_ok [OF tinv assms(3)] by (auto simp: list_all_iff settleable_def)
  have vol: "sum_list (map p_Amount ?ps) < volume_bound"
    using batch_volume [OF shape assms(3), of ?q] by (simp add: settleable_def)
  have "sum_list (map net_of ?ps) = 0"
  proof -
    have "map net_of ?ps = map (\<lambda>_. 0) ?ps" using ok full net_of_full_refund by (auto simp: list_all_iff)
    then show ?thesis by (simp only: sum_list_0)
  qed
  then have gross: "CalculateNet (fst t) (fst (snd t)) (snd (snd t)) = 0" if "t = batch_totals (0, 0, 0) ?ps" for t
    using batch_gross(2) [OF ok vol] that by simp
  have "ValidateEntries ?zero \<noteq> Inr ()" by (simp add: settlementEntries_def ledger_line_def ValidateEntries_wrap_iff one_sided_def)
  then have "settle_batch wired ids now m period descr extra ?ps db \<noteq> Inr (s, db')" for period descr extra s db'
    using gross by (auto elim!: settle_batch_Inr simp: calculateReserveAmount_def CreateEntriesTx_Inr)
  then show ?thesis by (auto simp: RunBatch_def Let_def intro: sum.exhaust)
qed


theorem fully_refunded_never_settle_witness:
  "\<exists>(db :: payout_db) p e. cash_step\<^sup>*\<^sup>* sample_books db \<and> db_payments db = [p] \<and> settleable [] ''m1'' p \<and> captured_between 0 100 p
     \<and> RunBatch True [] sample_batch_ids 10 ''m1'' 0 100 db = Inl e"
proof -
  obtain db p where db: "cash_step\<^sup>*\<^sup>* sample_books db" "db_payments db = [p]" "p_Status p = Captured" "p_Amount p = 500"
    "p_MerchantID p = ''m1''" "p_AmountRefunded p = 500" "\<not> p_Settled p" "p_CapturedAt p = Some 7" "db_splits db = []"
    by (rule sample_refund_run [OF disjI2 [OF refl]]) blast
  have "in_bounds db" using db by (simp add: in_bounds_def money_bound_def volume_bound_def)
  from fully_refunded_never_settle [OF db(1) sample_blank this, of "[]" "''m1''" True sample_batch_ids 10 0 100] db
  show ?thesis by (auto simp: settleable_def captured_between_def)
qed

end
