(* ===== verification/PayoutProps.thy ===== *)
theory PayoutProps
  imports Money
begin

text \<open>
  What the payouts guarantee, over every run of the flow of cash.
\<close>

section \<open>What a step keeps of a payout\<close>

definition same_payout :: "payout_view \<Rightarrow> payout_view \<Rightarrow> bool" where
  "same_payout v w \<longleftrightarrow> pv_ID w = pv_ID v \<and> pv_MerchantID w = pv_MerchantID v \<and> pv_SettlementID w = pv_SettlementID v
     \<and> pv_Amount w = pv_Amount v \<and> (\<exists>evs. run_machine PayoutTransition (pv_Status v) evs = Inr (pv_Status w))"

lemma same_payout_refl [simp]: "same_payout v v"
  by (auto simp: same_payout_def intro: exI [of _ "[]"])

lemma same_payout_trans: "same_payout u v \<Longrightarrow> same_payout v w \<Longrightarrow> same_payout u w"
  unfolding same_payout_def by (metis run_machine_append bindR_simps(2))

lemma payout_move_keeps:
  assumes "payout_move db db'" "unique_key pv_ID (views db)" "v \<in> set (views db)"
  shows "\<exists>w \<in> set (views db'). same_payout v w"
  using assms
proof (induction rule: payout_move.induct)
  case (keep db db')
  then show ?case by (auto intro!: bexI [of _ v])
next
  case (open_payout db db' u)
  then show ?case by (auto intro!: bexI [of _ v])
next
  case (advance db db' u ev st)
  show ?case
  proof (cases "pv_ID v = pv_ID u")
    case True
    then have "v = u" using unique_key_inj [OF advance.prems(1) advance.prems(2) advance.hyps(2)] by simp
    then have "same_payout v (v\<lparr>pv_Status := st\<rparr>)" using advance.hyps(3) by (auto simp: same_payout_def intro!: exI [of _ "[ev]"])
    moreover have "v\<lparr>pv_Status := st\<rparr> \<in> set (views db')" using advance \<open>v = u\<close> by (force simp: set_upd_where)
    ultimately show ?thesis by blast
  next
    case False
    then have "v \<in> set (views db')" using advance by (force simp: set_upd_where)
    then show ?thesis by (auto intro!: bexI [of _ v])
  qed
qed

lemma cash_step_keeps:
  assumes "cash_step db db'" "cash_inv db"
  shows "(\<forall>v \<in> set (views db). \<exists>w \<in> set (views db'). same_payout v w) \<and> (\<exists>new. db_receipts db' = db_receipts db @ new)"
proof -
  have uniq: "unique_key pv_ID (views db)" using assms(2) by (simp add: cash_inv_def payouts_inv_def)
  with assms(1) show ?thesis
  proof (cases rule: cash_step_cases)
    case 1
    then have more: "refund_db.more db' = refund_db.more db" using flow_step_quiet assms(2) by (auto simp: cash_inv_def)
    have "views db' = views db" "db_receipts db' = db_receipts db" using more_payouts [OF more] by (simp_all add: views_def)
    then show ?thesis using same_payout_refl by (metis append_Nil2)
  next
    case 2
    have "\<exists>new. db_receipts db' = db_receipts db @ new" using 2 by (cases rule: payout_move.cases) (auto simp: pay_still_def)
    then show ?thesis using payout_move_keeps [OF 2 uniq] by blast
  qed
qed

lemma cash_run_keeps:
  assumes "cash_step\<^sup>*\<^sup>* db db'" "cash_inv db"
  shows "(\<forall>v \<in> set (views db). \<exists>w \<in> set (views db'). same_payout v w) \<and> (\<exists>new. db_receipts db' = db_receipts db @ new)"
  using assms
proof (induction rule: rtranclp_induct)
  case (step db1 db2)
  note run = step.IH [OF step.prems]
  have "cash_inv db1" using cash.inv_steps [OF step.hyps(1) step.prems] .
  from cash_step_keeps [OF step.hyps(2) this] run show ?case using same_payout_trans by (metis append.assoc)
qed (auto intro!: bexI)

section \<open>Properties\<close>

text \<open>
  C1: The bank account is explained by the payouts. In every database reached by any interleaving of
  payments, refunds, settlements, payout operations and rail callbacks, what left to the bank of a
  merchant is exactly the sum of its completed payouts, and no settlement has two payouts.
\<close>

theorem bank_account_explained:
  assumes "cash_step\<^sup>*\<^sup>* db0 db" "cash_blank db0"
  shows "account_balance m ''MERCHANT_BANK_PAYOUT'' (db_ledger db)
      = - sum_where (\<lambda>p. po_MerchantID p = m \<and> po_Status p = PoCompleted) po_Amount (db_payouts db)
    \<and> distinct (map po_ID (db_payouts db)) \<and> distinct (map po_SettlementID (db_payouts db))"
proof -
  have "paid_out m (views db) = sum_where (\<lambda>p. po_MerchantID p = m \<and> po_Status p = PoCompleted) po_Amount (db_payouts db)"
    by (simp add: paid_out_def views_def sum_where_def filter_map o_def)
  then show ?thesis
    using cash_reach [OF assms] by (simp add: cash_inv_def payouts_inv_def bank_def views_def unique_key_def o_def)
qed

text \<open>
  C25: A payout follows its transition table. Along every run a payout stays, with its merchant,
  settlement and amount, and its status moves by at most three accepted events of the table.
\<close>

theorem payout_follows_transition_table:
  assumes "cash_step\<^sup>*\<^sup>* db0 db" "cash_blank db0" "cash_step\<^sup>*\<^sup>* db db'" "p \<in> set (db_payouts db)"
  shows "\<exists>p' \<in> set (db_payouts db'). po_ID p' = po_ID p \<and> po_MerchantID p' = po_MerchantID p \<and> po_SettlementID p' = po_SettlementID p
    \<and> po_Amount p' = po_Amount p
    \<and> (\<exists>evs. run_machine PayoutTransition (po_Status p) evs = Inr (po_Status p') \<and> length evs \<le> 3)"
proof -
  have "payout_view_of p \<in> set (views db)" using assms(4) by (simp add: views_def)
  then obtain p' where p': "p' \<in> set (db_payouts db')" "same_payout (payout_view_of p) (payout_view_of p')"
    using cash_run_keeps [OF assms(3) cash_reach [OF assms(1,2)]] by (force simp: views_def)
  then obtain evs where "run_machine PayoutTransition (po_Status p) evs = Inr (po_Status p')" by (auto simp: same_payout_def)
  then have "\<exists>evs. run_machine PayoutTransition (po_Status p) evs = Inr (po_Status p') \<and> length evs \<le> 3"
    using pom.run_bounded by fastforce
  with p' show ?thesis by (auto simp: same_payout_def)
qed

text \<open>
  C6: A rail callback takes effect once. After a callback was accepted, delivering its event again, with
  whatever other contents for the same payout and after any further operations, answers with the
  payout as it is and changes nothing.
\<close>

theorem rail_callback_applied_once:
  assumes "cash_step\<^sup>*\<^sup>* db0 db" "cash_blank db0" "ApplyRailCallback ids clock cb sig db = Inr (r, db1)" "cash_step\<^sup>*\<^sup>* db1 db2"
    and again: "cb_EventID cb' = cb_EventID cb" "cb_PayoutID cb' = cb_PayoutID cb" "cb_MerchantID cb' = cb_MerchantID cb"
  shows "\<exists>p. ApplyRailCallback ids' clock' cb' sig' db2 = Inr ((p, False), db2)"
proof -
  have step: "cash_step db db1" using assms(3) by (cases r) (auto intro: cash_step.callback)
  have inv: "cash_inv db" "cash_inv db1"
    using cash_reach [OF assms(1,2)] cash.inv_step [OF step] by simp_all
  obtain p where p: "GetPayoutByID (cb_MerchantID cb) (cb_PayoutID cb) db = Inr p"
    using assms(3) by (auto simp: ApplyRailCallback_def bindR_Inr_iff)
  have "cash_step\<^sup>*\<^sup>* db db2" using step assms(4) by (rule converse_rtranclp_into_rtranclp)
  then obtain w where "w \<in> set (views db2)" "same_payout (payout_view_of p) w"
    using cash_run_keeps [OF _ inv(1)] GetPayoutByID_in(1) [OF p] by blast
  then obtain q where "q \<in> set (db_payouts db2)" "payout_at (cb_MerchantID cb) (cb_PayoutID cb) q"
    using GetPayoutByID_in(2,3) [OF p] by (auto simp: views_def same_payout_def payout_at_def)
  then obtain p2 where p2: "GetPayoutByID (cb_MerchantID cb) (cb_PayoutID cb) db2 = Inr p2"
    by (cases "find (payout_at (cb_MerchantID cb) (cb_PayoutID cb)) (db_payouts db2)") (auto simp: GetPayoutByID_def find_None_iff)
  have "cb_EventID cb \<in> rc_EventID ` set (db_receipts db1)"
    using assms(3)
  proof (cases rule: ApplyRailCallback_Inr)
    case duplicate
    then show ?thesis by simp
  next
    case (fresh p rows st db3)
    then obtain ev where "recordEventTx ev db3 = Inr db1" by blast
    then have same: "db_receipts db1 = db_receipts db3" by (auto simp: recordEventTx_def split: if_split_asm)
    have "GetPayoutByID (cb_MerchantID cb) (cb_PayoutID cb) (db\<lparr>db_receipts := rows\<rparr>) = Inr p"
      using fresh(1) by (simp add: GetPayoutByID_def)
    with fresh(4) have "pay_still (db\<lparr>db_receipts := rows\<rparr>) db3" by (cases rule: rail_effect_Inr) simp_all
    then have "\<exists>new. db_receipts db3 = rows @ new" by (simp add: pay_still_def)
    then show ?thesis using same fresh(3) by (auto simp: receipt_of_def)
  qed
  then have "cb_EventID cb \<in> rc_EventID ` set (db_receipts db2)" using cash_run_keeps [OF assms(4) inv(2)] by auto
  then show ?thesis using p2 again by (auto simp: ApplyRailCallback_def)
qed

section \<open>The simulated transfer\<close>

lemma decimal_0_1: "decimal 0 = ''0''" "decimal (Suc 0) = ''1''"
  by code_simp+

text \<open>What the last of the callbacks needs: fresh identifiers and a payout the ledger accepts.\<close>

definition fresh_delivery :: "payout_ids \<Rightarrow> id \<Rightarrow> 'a payout_db_scheme \<Rightarrow> bool" where
  "fresh_delivery ids event db \<longleftrightarrow> pi_Receipt ids \<notin> rc_ID ` set (db_receipts db) \<and> event \<notin> rc_EventID ` set (db_receipts db)
     \<and> pi_Event ids \<notin> te_ID ` set (db_payout_events db) \<and> event \<noteq> '''' \<and> event \<notin> te_CallbackEventID ` set (db_payout_events db)"

definition payout_postable :: "id \<Rightarrow> payout \<Rightarrow> ledger_db \<Rightarrow> bool" where
  "payout_postable txn p l \<longleftrightarrow> 0 < po_Amount p \<and> in64 (po_Amount p) \<and> txn \<notin> lt_ID ` set (ledger_transactions l)
     \<and> (''payout'', po_ID p) \<notin> source_of ` set (ledger_transactions l)"

lemma transfer_posts:
  assumes "payout_postable t p l"
  shows "\<exists>l'. CreateEntriesTx t m ''payout'' (po_ID p) desc
    (transfer_entries ''SETTLEMENT_CLEARING'' ''MERCHANT_BANK_PAYOUT'' p d1 d2) l = Inr l'"
  using assms by (auto simp: payout_postable_def transfer_entries_def CreateEntriesTx_def InsertTransactionWithEntriesTx_def
      ValidateEntries_def entry_ok_def ledger_accounts_def source_of_def i64_id Let_def)

lemma recordEventTx_ok:
  assumes "te_ID ev \<notin> te_ID ` set (db_payout_events db)" "te_PayoutID ev \<in> po_ID ` set (db_payouts db)"
    "te_CallbackEventID ev \<notin> te_CallbackEventID ` set (db_payout_events db)"
  shows "recordEventTx ev db = Inr (db\<lparr>db_payout_events := db_payout_events db @ [ev]\<rparr>)"
  using assms by (simp add: recordEventTx_def)

lemma GetPayoutByID_found: "GetPayoutByID m i db = Inr p \<Longrightarrow> po_ID p \<in> po_ID ` set (db_payouts db)"
  by (auto simp: GetPayoutByID_def split: option.split_asm dest!: find_SomeD)

lemma callback_ignored:
  assumes p: "GetPayoutByID m i db = Inr p" "po_Status p = PoProcessing"
    and cb: "cb_MerchantID cb = m" "cb_PayoutID cb = i" "cb_Status cb = RailProcessing" and fresh: "fresh_delivery ids (cb_EventID cb) db"
  obtains ev where "ApplyRailCallback ids now cb sig db
      = Inr ((p, True), db\<lparr>db_receipts := db_receipts db @ [receipt_of (pi_Receipt ids) cb sig], db_payout_events := db_payout_events db @ [ev]\<rparr>)"
    "te_ID ev = pi_Event ids" "te_CallbackEventID ev = cb_EventID cb"
proof -
  note P = GetPayoutByID_in(2,3) [OF p(1)] and F = fresh [unfolded fresh_delivery_def]
  have get: "GetPayoutByID m i (db\<lparr>db_receipts := rs, db_payout_events := es\<rparr>) = Inr p" for rs es
    using p(1) by (simp add: GetPayoutByID_def)
  show thesis
    by (rule that [of "timeline (pi_Event ids) now p (eventTypeForRailStatus (cb_Status cb)) PoProcessing (cb_EventID cb)
          [(''event_id'', PStr (cb_EventID cb)), (''payout_id'', PStr (cb_PayoutID cb)),
           (''merchant_id'', PStr (cb_MerchantID cb)), (''status'', PStr (rail_name (cb_Status cb))),
           (''rail_reference'', PStr (cb_RailReference cb)), (''reason'', PStr (cb_Reason cb)),
           (''occurred_at'', PInt (unix (case cb_OccurredAt cb of None \<Rightarrow> now | Some t \<Rightarrow> t)))]"])
       (use p P F cb GetPayoutByID_found [OF p(1)] get in
         \<open>simp_all add: ApplyRailCallback_def applyRailCallbackTx_def rail_effect_def insert_pk_def receipt_of_def recordEventTx_ok timeline_def\<close>)
qed

lemma callback_completes:
  assumes p: "GetPayoutByID m i db = Inr p" "po_Status p = PoProcessing"
    and cb: "cb_MerchantID cb = m" "cb_PayoutID cb = i" "cb_Status cb = RailCompleted" and fresh: "fresh_delivery ids (cb_EventID cb) db"
    and post: "payout_postable (pi_Txn ids) p (db_ledger db)"
  shows "\<exists>r db'. ApplyRailCallback ids now cb sig db = Inr ((r, True), db') \<and> po_ID r = i \<and> po_Status r = PoCompleted
    \<and> po_MerchantID r = m \<and> po_Amount r = po_Amount p \<and> r \<in> set (db_payouts db') \<and> length (db_payouts db') = length (db_payouts db)"
proof -
  note P = GetPayoutByID_in(2,3) [OF p(1)] and F = fresh [unfolded fresh_delivery_def]
  let ?at = "payout_at m i" and ?f = "\<lambda>t q. q\<lparr>po_Status := PoCompleted, po_BankReference := cb_RailReference cb, po_RailReference := cb_RailReference cb,
      po_CompletedAt := Some t\<rparr>"
  have "find ?at (db_payouts db) = Some p" using p(1) by (simp add: GetPayoutByID_def split: option.split_asm)
  moreover have "find ?at rows = Some p \<Longrightarrow> find ?at (upd_where (\<lambda>q. po_ID q = i) (?f t) rows) = Some (?f t p)" for t rows
    by (induction rows) (auto simp: upd_where_def payout_at_def split: if_split_asm)
  ultimately have found: "find ?at (upd_where (\<lambda>q. po_ID q = i) (?f t) (db_payouts db)) = Some (?f t p)" for t
    by blast
  have ids: "po_ID ` set (upd_where (\<lambda>q. po_ID q = i) (?f t) (db_payouts db)) = po_ID ` set (db_payouts db)" for t
    by (rule image_key_upd_where) simp
  have kept: "?f t p \<in> set (upd_where (\<lambda>q. po_ID q = i) (?f t) (db_payouts db))" for t
    using find_SomeD [OF found] by simp
  obtain l where l: "CreateEntriesTx (pi_Txn ids) m ''payout'' i (''payout '' @ i @ '' completed'')
      (transfer_entries ''SETTLEMENT_CLEARING'' ''MERCHANT_BANK_PAYOUT'' p ''settlement clearing debit on payout'' ''merchant bank payout credit'')
      (db_ledger db) = Inr l" using transfer_posts [OF post] P by blast
  show ?thesis
    using p P F cb l GetPayoutByID_found [OF p(1)] ids found kept
    by (simp add: ApplyRailCallback_def applyRailCallbackTx_def rail_effect_def insert_pk_def receipt_of_def recordEventTx_def timeline_def
        completePayoutTx_def payout_outbox_def emit_def set_payout_def GetPayoutByID_def Let_def)
qed

text \<open>
  C26: The simulated transfer completes a payout. For a payout in processing without a scripted scenario,
  with fresh identifiers and an amount the ledger accepts, executing a transfer command ends with the
  payout completed.
\<close>

theorem transfer_completes:
  assumes p: "GetPayoutByID m i db = Inr p" "po_Status p = PoProcessing"
    and plain: "\<forall>s \<in> set (db_scenarios db). sn_SettlementID s \<notin> po_SettlementID ` set (db_payouts db)" and cmd: "cmd \<noteq> ''''"
    and fresh: "fresh_delivery (ids 0) (cmd @ ''_processing_0'') db" "fresh_delivery (ids 1) (cmd @ ''_completed_1'') db"
      "pi_Receipt (ids 0) \<noteq> pi_Receipt (ids 1)" "pi_Event (ids 0) \<noteq> pi_Event (ids 1)"
    and post: "payout_postable (pi_Txn (ids 1)) p (db_ledger db)"
  shows "\<exists>r db'. executeTransfer ids now cmd m i db = (Inr r, db') \<and> po_ID r = i \<and> po_Status r = PoCompleted"
proof -
  let ?steps = "sn_Steps defaultSimulatorScenario"
  let ?cb0 = "step_callback cmd now m i 0 (?steps ! 0)" and ?cb1 = "step_callback cmd now m i 1 (?steps ! 1)"
  have ev: "cb_EventID ?cb0 = cmd @ ''_processing_0''" "cb_EventID ?cb1 = cmd @ ''_completed_1''"
    "cb_Status ?cb0 = RailProcessing" "cb_Status ?cb1 = RailCompleted"
    by (simp_all add: step_callback_def defaultSimulatorScenario_def rail_name_def decimal_0_1)
  have who: "cb_MerchantID (step_callback cmd now m i n st) = m" "cb_PayoutID (step_callback cmd now m i n st) = i" for n st
    by (simp_all add: step_callback_def)
  obtain e0 where c0: "ApplyRailCallback (ids 0) now ?cb0 ''simulated'' db
      = Inr ((p, True), db\<lparr>db_receipts := db_receipts db @ [receipt_of (pi_Receipt (ids 0)) ?cb0 ''simulated''],
          db_payout_events := db_payout_events db @ [e0]\<rparr>)" (is "_ = Inr (_, ?db1)")
    and e0: "te_ID e0 = pi_Event (ids 0)" "te_CallbackEventID e0 = cmd @ ''_processing_0''"
    using callback_ignored [OF p who ev(3), where ids = "ids 0" and now = now and sig = "''simulated''"] fresh(1) unfolding ev(1) by blast
  have "fresh_delivery (ids 1) (cb_EventID ?cb1) ?db1"
    using fresh e0 ev by (simp add: fresh_delivery_def receipt_of_def)
  moreover have "GetPayoutByID m i ?db1 = Inr p" using p(1) by (simp add: GetPayoutByID_def)
  ultimately obtain r db' where c1: "ApplyRailCallback (ids 1) now ?cb1 ''simulated'' ?db1 = Inr ((r, True), db')" "po_ID r = i" "po_Status r = PoCompleted"
    using callback_completes [OF _ p(2) who ev(4)] post by fastforce
  have "find (\<lambda>s. list_ex (\<lambda>p. payout_at m i p \<and> po_SettlementID p = sn_SettlementID s \<and> po_MerchantID p = sn_MerchantID s) (db_payouts db))
      (db_scenarios db) = None"
    using plain by (force simp: find_None_iff list_ex_iff)
  then have scen: "GetSimulatorScenarioForPayout m i db = ((None, False), db)" by (simp add: GetSimulatorScenarioForPayout_def)
  have "deliveries ?steps = [(0, ?steps ! 0), (1, ?steps ! 1)]" by (simp add: deliveries_def defaultSimulatorScenario_def)
  then have "deliver_steps ids now cmd m i 0 (deliveries ?steps) None db = (Inr (Some r), db')" using c0 c1(1) by simp
  then show ?thesis using p cmd scen c1(2,3) by (simp add: executeTransfer_def payout_settled_def Let_def)
qed

section \<open>A payout on concrete data\<close>

definition sample_pids :: "string \<Rightarrow> payout_ids" where
  "sample_pids x = \<lparr>pi_Event = ''ev'' @ x, pi_Txn = ''pt'' @ x, pi_Outbox = ''ob'' @ x, pi_Receipt = ''rc'' @ x\<rparr>"

definition sample_initiated :: "payout_error + payout \<times> payout_db" where
  "sample_initiated =
     bindR (CreateForSettlement ''po1'' (sample_pids ''1'') 9 ''m1'' ''st1'' ''bn1'' 392 ''INR'' NotRequired '''' sample_books) (\<lambda>(_, db1).
       InitiateRepo (sample_pids ''2'') 10 ''m1'' ''po1'' db1)"

definition sample_callback :: "rail_status \<Rightarrow> rail_callback" where
  "sample_callback status = \<lparr>cb_EventID = ''cb1'', cb_PayoutID = ''po1'', cb_MerchantID = ''m1'', cb_Status = status,
     cb_RailReference = ''UTR1'', cb_Reason = '''', cb_OccurredAt = None\<rparr>"

lemma sample_initiated_run: "sample_initiated = Inr (r, db) \<Longrightarrow> cash_step\<^sup>*\<^sup>* sample_books db"
  unfolding sample_initiated_def
  by (auto simp: bindR_Inr_iff) (meson cash_step.create cash_step.initiate converse_rtranclp_into_rtranclp rtranclp.rtrancl_refl)

lemmas payout_eval = sample_books_def sample_pids_def sample_initiated_def sample_callback_def CreateForSettlement_def new_payout_def
  recordEventTx_def timeline_def payout_outbox_def emit_def GetPayoutByID_def payout_at_def InitiateRepo_def PayoutTransition_def
  set_payout_def upd_where_def Let_def empty_ledger_def

lemma sample_initiated_ok:
  obtains r db where "sample_initiated = Inr (r, db)" "db_payouts db = [r]" "po_ID r = ''po1''" "po_Status r = PoProcessing" "po_Amount r = 392"
    "po_MerchantID r = ''m1''" "po_SettlementID r = ''st1''" "po_Currency r = ''INR''" "db_receipts db = []" "db_scenarios db = []"
    "map te_ID (db_payout_events db) = [''ev1'', ''ev2'']" "map te_CallbackEventID (db_payout_events db) = [[], []]"
    "ledger_transactions (db_ledger db) = []"
  by (simp add: payout_eval)

lemma sample_get: "db_payouts db = [r] \<Longrightarrow> po_ID r = ''po1'' \<Longrightarrow> po_MerchantID r = ''m1'' \<Longrightarrow> GetPayoutByID ''m1'' ''po1'' db = Inr r"
  by (simp add: GetPayoutByID_def payout_at_def)

lemma sample_fresh:
  assumes "db_receipts db = []" "map te_ID (db_payout_events db) = [''ev1'', ''ev2'']"
    "map te_CallbackEventID (db_payout_events db) = [[], []]" "x \<in> {''3'', ''4''}" "event \<noteq> ''''"
  shows "fresh_delivery (sample_pids x) event db"
proof -
  have "te_ID ` set (db_payout_events db) = {''ev1'', ''ev2''}" "te_CallbackEventID ` set (db_payout_events db) = {[]}"
    using arg_cong [OF assms(2), of set] arg_cong [OF assms(3), of set] by simp_all
  then show ?thesis using assms(1,4,5) by (auto simp: fresh_delivery_def sample_pids_def)
qed

lemma sample_completed_ok:
  obtains r db r' db' where "sample_initiated = Inr (r, db)" "po_ID r = ''po1''" "r \<in> set (db_payouts db)" "po_Status r = PoProcessing"
    "ApplyRailCallback (sample_pids ''3'') 11 (sample_callback RailCompleted) ''sig'' db = Inr ((r', True), db')" "po_Status r' = PoCompleted"
    "po_ID r' = ''po1''" "db_payouts db' = [r']" "po_MerchantID r' = ''m1''" "po_Amount r' = 392"
proof (rule sample_initiated_ok)
  fix r db assume db: "sample_initiated = Inr (r, db)" "db_payouts db = [r]" "po_ID r = ''po1''" "po_Status r = PoProcessing" "po_Amount r = 392"
    "po_MerchantID r = ''m1''" "po_SettlementID r = ''st1''" "po_Currency r = ''INR''" "db_receipts db = []" "db_scenarios db = []"
    "map te_ID (db_payout_events db) = [''ev1'', ''ev2'']" "map te_CallbackEventID (db_payout_events db) = [[], []]"
    "ledger_transactions (db_ledger db) = []"
  have "payout_postable (pi_Txn (sample_pids ''3'')) r (db_ledger db)"
    using db(5,13) by (simp add: payout_postable_def in64_def)
  moreover have "fresh_delivery (sample_pids ''3'') (cb_EventID (sample_callback RailCompleted)) db"
    by (rule sample_fresh [OF db(9,11,12)]) (simp_all add: sample_callback_def)
  ultimately show thesis
    using callback_completes [OF sample_get [OF db(2,3,6)] db(4), of "sample_callback RailCompleted" "sample_pids ''3''" 11 "''sig''"]
      that [OF db(1,3) _ db(4)] db(2,5,6) by (auto simp: sample_callback_def length_Suc_conv)
qed

theorem bank_account_explained_witness:
  "\<exists>db :: payout_db. cash_step\<^sup>*\<^sup>* sample_books db \<and> map po_Status (db_payouts db) = [PoCompleted]
     \<and> account_balance ''m1'' ''MERCHANT_BANK_PAYOUT'' (db_ledger db) = - 392"
proof (rule sample_completed_ok)
  fix r db r' db' assume s: "sample_initiated = Inr (r, db)"
    and cb: "ApplyRailCallback (sample_pids ''3'') 11 (sample_callback RailCompleted) ''sig'' db = Inr ((r', True), db')"
    and rows: "db_payouts db' = [r']" "po_Status r' = PoCompleted" "po_MerchantID r' = ''m1''" "po_Amount r' = 392"
  have run: "cash_step\<^sup>*\<^sup>* sample_books db'" using sample_initiated_run [OF s] cash_step.callback [OF cb] by (rule rtranclp.rtrancl_into_rtrancl)
  from bank_account_explained [OF run sample_blank, of "''m1''"] show ?thesis
    using run rows by (intro exI [of _ db']) simp
qed

theorem payout_follows_transition_table_witness:
  "\<exists>(db :: payout_db) db' p p'. cash_step\<^sup>*\<^sup>* sample_books db \<and> cash_step db db' \<and> p \<in> set (db_payouts db) \<and> po_Status p = PoProcessing
     \<and> p' \<in> set (db_payouts db') \<and> po_ID p' = po_ID p \<and> (\<exists>evs. run_machine PayoutTransition PoProcessing evs = Inr (po_Status p'))"
proof (rule sample_completed_ok)
  fix r db r' db' assume s: "sample_initiated = Inr (r, db)" "r \<in> set (db_payouts db)" "po_Status r = PoProcessing"
    and cb: "ApplyRailCallback (sample_pids ''3'') 11 (sample_callback RailCompleted) ''sig'' db = Inr ((r', True), db')"
  have step: "cash_step db db'" by (rule cash_step.callback [OF cb])
  then have "cash_step\<^sup>*\<^sup>* db db'" by (rule r_into_rtranclp)
  from payout_follows_transition_table [OF sample_initiated_run [OF s(1)] sample_blank this s(2)]
  show ?thesis using s step sample_initiated_run [OF s(1)] by metis
qed

theorem rail_callback_applied_once_witness:
  "\<exists>(db :: payout_db) r db1 p. ApplyRailCallback (sample_pids ''3'') 11 (sample_callback RailCompleted) ''sig'' db = Inr ((r, True), db1)
     \<and> ApplyRailCallback (sample_pids ''4'') 12 (sample_callback RailFailed) ''sig'' db1 = Inr ((p, False), db1)"
proof (rule sample_completed_ok)
  fix r db r' db' assume s: "sample_initiated = Inr (r, db)"
    and cb: "ApplyRailCallback (sample_pids ''3'') 11 (sample_callback RailCompleted) ''sig'' db = Inr ((r', True), db')"
  from rail_callback_applied_once [OF sample_initiated_run [OF s] sample_blank cb rtranclp.rtrancl_refl,
      of "sample_callback RailFailed" "sample_pids ''4''" 12 "''sig''"]
  show ?thesis using cb by (auto simp: sample_callback_def)
qed

theorem transfer_completes_witness:
  "\<exists>(db :: payout_db) r db'. cash_step\<^sup>*\<^sup>* sample_books db
     \<and> executeTransfer (\<lambda>n. sample_pids (if n = 0 then ''3'' else ''4'')) 11 ''cmd'' ''m1'' ''po1'' db = (Inr r, db') \<and> po_Status r = PoCompleted"
proof (rule sample_initiated_ok)
  let ?ids = "\<lambda>n. sample_pids (if n = (0::nat) then ''3'' else ''4'')"
  fix r db assume db: "sample_initiated = Inr (r, db)" "db_payouts db = [r]" "po_ID r = ''po1''" "po_Status r = PoProcessing" "po_Amount r = 392"
    "po_MerchantID r = ''m1''" "po_SettlementID r = ''st1''" "po_Currency r = ''INR''" "db_receipts db = []" "db_scenarios db = []"
    "map te_ID (db_payout_events db) = [''ev1'', ''ev2'']" "map te_CallbackEventID (db_payout_events db) = [[], []]"
    "ledger_transactions (db_ledger db) = []"
  have "payout_postable (pi_Txn (?ids 1)) r (db_ledger db)" using db(5,13) by (simp add: payout_postable_def in64_def)
  moreover have "fresh_delivery (?ids 0) (''cmd'' @ ''_processing_0'') db" "fresh_delivery (?ids 1) (''cmd'' @ ''_completed_1'') db"
    by (simp_all add: sample_fresh [OF db(9,11,12)])
  ultimately show ?thesis
    using transfer_completes [OF sample_get [OF db(2,3,6)] db(4), of "''cmd''" ?ids 11] db(10) sample_initiated_run [OF db(1)]
    by (auto simp: sample_pids_def)
qed

section \<open>Settlements on hold\<close>

text \<open>The sample books with a processed settlement of 392 that an operator has put on hold.\<close>

definition held_books :: payout_db where
  "held_books = sample_books\<lparr>db_settlements := [\<lparr>st_ID = ''st1'', st_MerchantID = ''m1'', st_Status = SttlProcessed,
      st_PeriodStart = 0, st_PeriodEnd = 8, st_TotalAmount = 400, st_TotalFees = 8, st_TotalRefunds = 0, st_GrossNetAmount = 392,
      st_ReserveAmount = 0, st_NetAmount = 392, st_PaymentCount = 1, st_Currency = ''INR'', st_ProcessedAt = Some 8, st_CreatedAt = 8,
      st_OnHold = True, st_HoldReason = ''fraud review'', st_HeldAt = Some 9, st_ReleasedAt = None, st_RollbackMarkedAt = None,
      st_RollbackReason = []\<rparr>]\<rparr>"

definition sample_sids :: service_ids where
  "sample_sids = \<lparr>sv_Payout = ''po1'', sv_Create = sample_pids ''1'', sv_Initiate = sample_pids ''2'', sv_Fail = sample_pids ''3''\<rparr>"

text \<open>
  A settlement on hold is paid through a batch. The endpoint that pays one settlement refuses a
  settlement on hold; the batch endpoint, given the same settlement and beneficiary, starts its payout.
\<close>

theorem batch_pays_held_settlement:
  "fst (handle_initiate None False Inr sample_sids 10 ''m1'' ''st1'' ''bn1'' held_books) = Inl HErrOnHold
   \<and> (\<exists>r db'. handle_create_batch None False Inr ''ba1'' (\<lambda>i. ''bi'') (\<lambda>i. sample_sids) (\<lambda>_. []) 10 ''m1'' ''key'' False
           [(''st1'', ''bn1'')] held_books = (Inr r, db')
         \<and> map (\<lambda>p. (po_SettlementID p, po_Status p)) (db_payouts db') = [(''st1'', PoProcessing)]
         \<and> map st_OnHold (db_settlements db') = [True])"
  by (simp add: held_books_def sample_sids_def payout_eval handle_initiate_def handle_create_batch_def GetSettlement_def settlement_at_def
      TrimSpace_def is_space_def CreateBatch_def CreateBatchRepo_def batch_rows_def insert_pk_def FinalizeBatch_def UpdateBatchItem_def
      InitiatePayoutForSettlement_def can_reserve_def GetBeneficiary_def seal_beneficiary_def existing_or_new_def GetBySettlementID_def
      initiate_and_launch_def launchPayoutExecution_def GetPreferences_def DefaultPreferences_def)

end
