(* ===== verification/Idempotency.thy ===== *)
theory Idempotency
  imports Outbox
begin

text \<open>
  The idempotency middleware (\<open>internal/idempotency\<close>): the table of idempotency records, the Redis cache in
  front of it, and the wrapping of a \<open>POST\<close> handler. The requests of a key are shown to run their handler
  to a recorded answer at most once as long as every handler finishes within the lock of its record.
\<close>

section \<open>Records, cache and decisions\<close>

datatype idem_status = IdemInProgress | IdemCompleted | IdemFailed

text \<open>
  The body of a response: empty, a JSON object, another JSON value by its canonical text, or no JSON.
\<close>

datatype body = NoBody | JsonObject payload | JsonValue string | NotJson string

record cached_response =
  cc_RequestHash :: string
  cc_StatusCode :: int
  cc_Body :: body

record idem_record =
  ir_ID :: id
  ir_MerchantID :: id
  ir_EndpointHash :: string
  ir_ClientKey :: string
  ir_RequestHash :: string
  ir_Status :: idem_status
  ir_ResourceType :: string
  ir_ResourceID :: string
  ir_ResponseCode :: "int option"
  ir_ResponseBody :: "body option"
  ir_LockedUntil :: "time option"
  ir_ExpiresAt :: time

record idem_db =
  idem_records :: "idem_record list"
  idem_cache :: "string \<Rightarrow> (cached_response \<times> time) option"

datatype decision = Bypass | Replay int body | InProgress int | Conflict | Proceed

definition idem_ttl :: time where "idem_ttl = 24 * 60 * 60 * 1000000"

definition lockTTL :: time where "lockTTL = 30 * 1000000"

text \<open>\<open>sha\<close> is the hex digest of \<open>crypto/sha256\<close>.\<close>

definition HashRequest :: "(string \<Rightarrow> string) \<Rightarrow> string \<Rightarrow> string \<Rightarrow> string \<Rightarrow> string \<times> string" where
  "HashRequest sha method endpoint body =
     (sha (method @ '':'' @ endpoint), sha (method @ '':'' @ endpoint @ '':'' @ body))"

definition normalizeJSON :: "body \<Rightarrow> body option" where
  "normalizeJSON b = (case b of NoBody \<Rightarrow> Some (JsonObject []) | NotJson _ \<Rightarrow> None | _ \<Rightarrow> Some b)"

definition cacheKey :: "id \<Rightarrow> string \<Rightarrow> string \<Rightarrow> string" where
  "cacheKey merchantID endpointHash clientKey =
     ''idempotency:'' @ merchantID @ '':'' @ endpointHash @ '':'' @ clientKey"

section \<open>The store\<close>

text \<open>\<open>up\<close>: a Redis client is set and answers. An error of Redis counts as a miss.\<close>

definition getCached :: "bool \<Rightarrow> time \<Rightarrow> id \<Rightarrow> string \<Rightarrow> string \<Rightarrow> idem_db \<Rightarrow> cached_response option" where
  "getCached up now merchantID endpointHash clientKey db =
     (if \<not> up then None
      else case idem_cache db (cacheKey merchantID endpointHash clientKey) of
             None \<Rightarrow> None
           | Some (c, expires) \<Rightarrow> if now < expires then Some c else None)"

definition cache_put :: "bool \<Rightarrow> time \<Rightarrow> id \<Rightarrow> string \<Rightarrow> string \<Rightarrow> cached_response \<Rightarrow> idem_db \<Rightarrow> idem_db" where
  "cache_put up now merchantID endpointHash clientKey c db =
     (if up then db\<lparr>idem_cache := (idem_cache db)(cacheKey merchantID endpointHash clientKey \<mapsto> (c, now + idem_ttl))\<rparr> else db)"

definition idem_at :: "id \<Rightarrow> string \<Rightarrow> string \<Rightarrow> idem_record \<Rightarrow> bool" where
  "idem_at merchantID endpointHash clientKey r \<longleftrightarrow>
     ir_MerchantID r = merchantID \<and> ir_EndpointHash r = endpointHash \<and> ir_ClientKey r = clientKey"

definition set_record :: "id \<Rightarrow> string \<Rightarrow> string \<Rightarrow> (idem_record \<Rightarrow> idem_record) \<Rightarrow> idem_db \<Rightarrow> idem_db" where
  "set_record merchantID endpointHash clientKey f db =
     db\<lparr>idem_records := upd_where (idem_at merchantID endpointHash clientKey) f (idem_records db)\<rparr>"

definition new_record :: "id \<Rightarrow> time \<Rightarrow> id \<Rightarrow> string \<Rightarrow> string \<Rightarrow> string \<Rightarrow> idem_record" where
  "new_record recordID now merchantID endpointHash clientKey requestHash =
     \<lparr>ir_ID = recordID, ir_MerchantID = merchantID, ir_EndpointHash = endpointHash, ir_ClientKey = clientKey,
      ir_RequestHash = requestHash, ir_Status = IdemInProgress, ir_ResourceType = '''', ir_ResourceID = '''',
      ir_ResponseCode = None, ir_ResponseBody = None, ir_LockedUntil = Some (now + lockTTL), ir_ExpiresAt = now + idem_ttl\<rparr>"

definition Start ::
  "bool \<Rightarrow> id \<Rightarrow> time \<Rightarrow> id \<Rightarrow> string \<Rightarrow> string \<Rightarrow> string \<Rightarrow> idem_db \<Rightarrow> decision \<times> idem_db" where
  "Start up recordID now merchantID endpointHash clientKey requestHash db =
     (if merchantID = '''' \<or> clientKey = '''' then (Bypass, db)
      else case getCached up now merchantID endpointHash clientKey db of
        Some c \<Rightarrow> (if cc_RequestHash c \<noteq> requestHash then Conflict else Replay (cc_StatusCode c) (cc_Body c), db)
      | None \<Rightarrow>
          if recordID \<notin> ir_ID ` set (idem_records db) \<and> list_all (\<lambda>r. \<not> idem_at merchantID endpointHash clientKey r) (idem_records db)
          then (Proceed, db\<lparr>idem_records := idem_records db @ [new_record recordID now merchantID endpointHash clientKey requestHash]\<rparr>)
          else (case find (idem_at merchantID endpointHash clientKey) (idem_records db) of
              None \<Rightarrow> (Proceed, db)
            | Some r \<Rightarrow>
                if ir_RequestHash r \<noteq> requestHash then (Conflict, db)
                else (case (ir_Status r, ir_ResponseCode r, ir_ResponseBody r, ir_LockedUntil r) of
                    (IdemCompleted, Some code, Some b, _) \<Rightarrow> (Replay code b, db)
                  | (IdemInProgress, _, _, Some locked) \<Rightarrow>
                      if locked > now then (InProgress (max 1 ((locked - now) div 1000000)), db)
                      else (Proceed, set_record merchantID endpointHash clientKey
                              (\<lambda>r. r\<lparr>ir_Status := IdemInProgress, ir_LockedUntil := Some (now + lockTTL), ir_ExpiresAt := now + idem_ttl\<rparr>) db)
                  | _ \<Rightarrow> (Proceed, set_record merchantID endpointHash clientKey
                            (\<lambda>r. r\<lparr>ir_Status := IdemInProgress, ir_LockedUntil := Some (now + lockTTL), ir_ExpiresAt := now + idem_ttl\<rparr>) db))))"

text \<open>A body that is no JSON makes both operations return before they touch the record; the caller ignores the error.\<close>

definition Complete ::
  "bool \<Rightarrow> time \<Rightarrow> id \<Rightarrow> string \<Rightarrow> string \<Rightarrow> string \<Rightarrow> string \<Rightarrow> string \<Rightarrow> int \<Rightarrow> body \<Rightarrow> idem_db \<Rightarrow> idem_db" where
  "Complete up now merchantID endpointHash clientKey requestHash resourceType resourceID statusCode body db =
     (if merchantID = '''' \<or> clientKey = '''' then db
      else case normalizeJSON body of
        None \<Rightarrow> db
      | Some bodyJSON \<Rightarrow>
          cache_put up now merchantID endpointHash clientKey
            \<lparr>cc_RequestHash = requestHash, cc_StatusCode = statusCode, cc_Body = bodyJSON\<rparr>
            (set_record merchantID endpointHash clientKey
               (\<lambda>r. r\<lparr>ir_RequestHash := requestHash, ir_Status := IdemCompleted, ir_ResourceType := resourceType,
                       ir_ResourceID := resourceID, ir_ResponseCode := Some statusCode, ir_ResponseBody := Some bodyJSON,
                       ir_LockedUntil := None\<rparr>) db))"

definition Fail :: "id \<Rightarrow> string \<Rightarrow> string \<Rightarrow> string \<Rightarrow> int \<Rightarrow> body \<Rightarrow> idem_db \<Rightarrow> idem_db" where
  "Fail merchantID endpointHash clientKey requestHash statusCode body db =
     (if merchantID = '''' \<or> clientKey = '''' then db
      else case normalizeJSON body of
        None \<Rightarrow> db
      | Some bodyJSON \<Rightarrow>
          set_record merchantID endpointHash clientKey
            (\<lambda>r. r\<lparr>ir_RequestHash := requestHash, ir_Status := IdemFailed, ir_ResponseCode := Some statusCode,
                    ir_ResponseBody := Some bodyJSON, ir_LockedUntil := None\<rparr>) db)"

section \<open>The middleware\<close>

record http_request =
  rq_Method :: string
  rq_Path :: string
  rq_Key :: string
  rq_Merchant :: "id option"
  rq_Body :: string

record http_response =
  rs_Code :: int
  rs_Body :: body
  rs_Replayed :: bool
  rs_RetryAfter :: "int option"

definition text_field :: "string \<Rightarrow> payload \<Rightarrow> string" where
  "text_field k p = (case map_of p k of Some (PStr s) \<Rightarrow> s | _ \<Rightarrow> '''')"

definition resourceFromBody :: "body \<Rightarrow> string \<times> string" where
  "resourceFromBody b =
     (case b of
        JsonObject p \<Rightarrow> (text_field ''entity'' p, if text_field ''id'' p = '''' then text_field ''key_id'' p else text_field ''id'' p)
      | _ \<Rightarrow> ('''', ''''))"

definition api_error :: "int \<Rightarrow> string \<Rightarrow> int option \<Rightarrow> http_response" where
  "api_error code err retry = \<lparr>rs_Code = code, rs_Body = JsonObject [(''code'', PStr err)], rs_Replayed = False, rs_RetryAfter = retry\<rparr>"

text \<open>
  What the middleware answers by itself; \<open>None\<close> when the handler is to run. Of the error envelope only its
  code is kept.
\<close>

definition answer_of :: "decision \<Rightarrow> http_response option" where
  "answer_of d =
     (case d of
        Conflict \<Rightarrow> Some (api_error 409 ''IDEMPOTENCY_CONFLICT'' (Some 30))
      | InProgress retry \<Rightarrow> Some (api_error 409 ''REQUEST_IN_PROGRESS'' (Some retry))
      | Replay code b \<Rightarrow> Some \<lparr>rs_Code = code, rs_Body = b, rs_Replayed = True, rs_RetryAfter = None\<rparr>
      | _ \<Rightarrow> None)"

definition wrap_finish ::
  "bool \<Rightarrow> time \<Rightarrow> id \<Rightarrow> string \<Rightarrow> string \<Rightarrow> string \<Rightarrow> http_response \<Rightarrow> idem_db \<Rightarrow> idem_db" where
  "wrap_finish up now merchantID endpointHash clientKey requestHash resp db =
     (if rs_Code resp \<ge> 500 then Fail merchantID endpointHash clientKey requestHash (rs_Code resp) (rs_Body resp) db
      else case resourceFromBody (rs_Body resp) of (resourceType, resourceID) \<Rightarrow>
             Complete up now merchantID endpointHash clientKey requestHash resourceType resourceID (rs_Code resp) (rs_Body resp) db)"

text \<open>\<open>now\<close> is the time of the request, \<open>later\<close> that of the answer of the handler \<open>serve\<close>, which acts on its own state.\<close>

definition Wrap ::
  "(string \<Rightarrow> string) \<Rightarrow> bool \<times> bool \<Rightarrow> id \<Rightarrow> time \<Rightarrow> time \<Rightarrow> (http_request \<Rightarrow> 's \<Rightarrow> http_response \<times> 's)
     \<Rightarrow> http_request \<Rightarrow> 's \<times> idem_db \<Rightarrow> http_response \<times> 's \<times> idem_db" where
  "Wrap sha up recordID now later serve req st =
     (case st of (s, db) \<Rightarrow>
      let pass = (case serve req s of (resp, s') \<Rightarrow> (resp, s', db)) in
      if rq_Method req \<noteq> ''POST'' \<or> rq_Key req = '''' then pass
      else case rq_Merchant req of
        None \<Rightarrow> pass
      | Some merchantID \<Rightarrow>
          if merchantID = '''' then pass
          else case HashRequest sha (rq_Method req) (rq_Path req) (rq_Body req) of (endpointHash, requestHash) \<Rightarrow>
            (case Start (fst up) recordID now merchantID endpointHash (rq_Key req) requestHash db of (d, db1) \<Rightarrow>
               (case answer_of d of
                  Some resp \<Rightarrow> (resp, s, db1)
                | None \<Rightarrow>
                    (case serve req s of (resp, s') \<Rightarrow>
                       (resp, s', wrap_finish (snd up) later merchantID endpointHash (rq_Key req) requestHash resp db1)))))"

section \<open>Interleaved requests\<close>

text \<open>
  A request in its handler: the key of its record, the hash of the request and the time it started. The
  system has the store, the clock, the requests in their handlers, and, as a ghost, the log of the answers
  that were recorded.
\<close>

type_synonym idem_key = "id \<times> string \<times> string"

record idem_system =
  sys_db :: idem_db
  sys_clock :: time
  sys_running :: "(idem_key \<times> string \<times> time) list"
  sys_done :: "(idem_key \<times> string \<times> int \<times> body) list"

definition key_of :: "idem_record \<Rightarrow> idem_key" where
  "key_of r = (ir_MerchantID r, ir_EndpointHash r, ir_ClientKey r)"

text \<open>Keys that reach the store: the merchant identifier and the hex digest have no colon.\<close>

definition proper_key :: "idem_key \<Rightarrow> bool" where
  "proper_key k = (case k of (m, e, c) \<Rightarrow> m \<noteq> '''' \<and> c \<noteq> '''' \<and> CHR '':'' \<notin> set m \<and> CHR '':'' \<notin> set e)"

text \<open>
  Requests arrive and finish in any order; time passes only while no running request outlives its lock.
  Redis may answer or not at every step.
\<close>

inductive idem_step :: "idem_system \<Rightarrow> idem_system \<Rightarrow> bool" where
  run: "proper_key (m, e, c) \<Longrightarrow> recordID \<notin> ir_ID ` set (idem_records (sys_db s))
    \<Longrightarrow> Start up recordID (sys_clock s) m e c h (sys_db s) = (Proceed, db')
    \<Longrightarrow> idem_step s (s\<lparr>sys_db := db', sys_running := sys_running s @ [((m, e, c), h, sys_clock s)]\<rparr>)"
| answer: "proper_key (m, e, c) \<Longrightarrow> recordID \<notin> ir_ID ` set (idem_records (sys_db s))
    \<Longrightarrow> Start up recordID (sys_clock s) m e c h (sys_db s) = (d, db') \<Longrightarrow> d \<noteq> Proceed
    \<Longrightarrow> idem_step s (s\<lparr>sys_db := db'\<rparr>)"
| finish: "((m, e, c), h, t) \<in> set (sys_running s)
    \<Longrightarrow> idem_step s (s\<lparr>sys_db := wrap_finish up (sys_clock s) m e c h resp (sys_db s),
          sys_running := filter (\<lambda>x. fst x \<noteq> (m, e, c)) (sys_running s),
          sys_done := sys_done s @ (case normalizeJSON (rs_Body resp) of
             None \<Rightarrow> [] | Some b \<Rightarrow> if rs_Code resp \<ge> 500 then [] else [((m, e, c), h, rs_Code resp, b)])\<rparr>)"
| tick: "sys_clock s \<le> t \<Longrightarrow> list_all (\<lambda>x. t < snd (snd x) + lockTTL) (sys_running s) \<Longrightarrow> idem_step s (s\<lparr>sys_clock := t\<rparr>)"

definition record_of :: "idem_db \<Rightarrow> idem_key \<Rightarrow> idem_record option" where
  "record_of db k = find (\<lambda>r. key_of r = k) (idem_records db)"

definition holds_lock :: "idem_db \<Rightarrow> idem_key \<times> string \<times> time \<Rightarrow> bool" where
  "holds_lock db x = (case x of (k, h, t) \<Rightarrow> case record_of db k of None \<Rightarrow> False
     | Some r \<Rightarrow> ir_RequestHash r = h \<and> ir_Status r = IdemInProgress \<and> ir_LockedUntil r = Some (t + lockTTL))"

definition is_recorded :: "idem_db \<Rightarrow> idem_key \<times> string \<times> int \<times> body \<Rightarrow> bool" where
  "is_recorded db x = (case x of (k, h, code, b) \<Rightarrow> case record_of db k of None \<Rightarrow> False
     | Some r \<Rightarrow> ir_RequestHash r = h \<and> ir_Status r = IdemCompleted \<and> ir_ResponseCode r = Some code \<and> ir_ResponseBody r = Some b)"

definition cached_from :: "string \<Rightarrow> cached_response \<Rightarrow> idem_key \<times> string \<times> int \<times> body \<Rightarrow> bool" where
  "cached_from ck v x = (case x of ((m, e, c), h, code, b) \<Rightarrow>
     ck = cacheKey m e c \<and> v = \<lparr>cc_RequestHash = h, cc_StatusCode = code, cc_Body = b\<rparr>)"

text \<open>
  The invariant: a running request holds the lock of its record; a recorded answer is in its record for
  good, and nothing runs under its key; the cache only holds recorded answers.
\<close>

definition idem_inv :: "idem_system \<Rightarrow> bool" where
  "idem_inv s \<longleftrightarrow>
     distinct (map fst (sys_running s)) \<and> distinct (map fst (sys_done s)) \<and> fst ` set (sys_running s) \<inter> fst ` set (sys_done s) = {}
   \<and> (\<forall>x \<in> set (sys_running s). proper_key (fst x) \<and> sys_clock s < snd (snd x) + lockTTL \<and> holds_lock (sys_db s) x)
   \<and> (\<forall>x \<in> set (sys_done s). proper_key (fst x) \<and> is_recorded (sys_db s) x)
   \<and> (\<forall>ck v. idem_cache (sys_db s) ck = Some v \<longrightarrow> (\<exists>x \<in> set (sys_done s). cached_from ck (fst v) x))"

lemma append_sep_inj: "x \<notin> set a \<Longrightarrow> x \<notin> set b \<Longrightarrow> a @ x # c = b @ x # d \<longleftrightarrow> a = b \<and> c = d"
proof (induction a arbitrary: b)
  case Nil
  then show ?case by (cases b) auto
next
  case (Cons y a)
  then show ?case by (cases b) auto
qed

lemma cacheKey_inj:
  assumes "proper_key (m, e, c)" "proper_key (m', e', c')" "cacheKey m e c = cacheKey m' e' c'"
  shows "(m, e, c) = (m', e', c')"
  using assms append_sep_inj [of "CHR '':''" m m' "e @ CHR '':'' # c" "e' @ CHR '':'' # c'"] append_sep_inj [of "CHR '':''" e e' c c']
  by (simp add: cacheKey_def proper_key_def)

lemma idem_at_key: "idem_at m e c = (\<lambda>r. key_of r = (m, e, c))"
  by (auto simp: key_of_def idem_at_def)

lemma record_of_set:
  assumes "\<And>r. key_of (f r) = key_of r"
  shows "record_of (set_record m e c f db) k = (if k = (m, e, c) then map_option f (record_of db k) else record_of db k)"
proof -
  have "find (\<lambda>r. key_of r = k) (upd_where (\<lambda>r. key_of r = (m, e, c)) f t)
      = (if k = (m, e, c) then map_option f (find (\<lambda>r. key_of r = k) t) else find (\<lambda>r. key_of r = k) t)" for t
    by (induction t) (auto simp: upd_where_def assms)
  then show ?thesis by (simp add: record_of_def set_record_def idem_at_key)
qed

lemma record_of_new: "record_of (db\<lparr>idem_records := idem_records db @ [r]\<rparr>) k
    = (case record_of db k of None \<Rightarrow> if key_of r = k then Some r else None | Some x \<Rightarrow> Some x)"
  by (simp add: record_of_def find_append split: option.split)

lemma set_record_cache [simp]: "idem_cache (set_record m e c f db) = idem_cache db"
  by (simp add: set_record_def)

lemma Start_cases:
  assumes "Start up recordID now m e c h db = (d, db')" "proper_key (m, e, c)" "recordID \<notin> ir_ID ` set (idem_records db)"
  obtains (cached) v where "idem_cache db (cacheKey m e c) = Some v" "db' = db"
      "d = (if cc_RequestHash (fst v) \<noteq> h then Conflict else Replay (cc_StatusCode (fst v)) (cc_Body (fst v)))"
  | (other) r where "record_of db (m, e, c) = Some r" "ir_RequestHash r \<noteq> h" "d = Conflict" "db' = db"
  | (stored) r code b where "record_of db (m, e, c) = Some r" "ir_RequestHash r = h" "ir_Status r = IdemCompleted"
      "ir_ResponseCode r = Some code" "ir_ResponseBody r = Some b" "d = Replay code b" "db' = db"
  | (busy) r l where "record_of db (m, e, c) = Some r" "ir_Status r = IdemInProgress" "ir_LockedUntil r = Some l" "now < l"
      "d = InProgress (max 1 ((l - now) div 1000000))" "db' = db"
  | (fresh) r where "d = Proceed" "idem_cache db' = idem_cache db" "record_of db' (m, e, c) = Some r" "ir_RequestHash r = h"
      "ir_Status r = IdemInProgress" "ir_LockedUntil r = Some (now + lockTTL)"
      "\<And>k. k \<noteq> (m, e, c) \<Longrightarrow> record_of db' k = record_of db k"
      "\<And>x. record_of db (m, e, c) = Some x \<Longrightarrow> ir_RequestHash x = h
         \<and> (ir_Status x = IdemCompleted \<longrightarrow> ir_ResponseCode x = None \<or> ir_ResponseBody x = None)
         \<and> (ir_Status x = IdemInProgress \<longrightarrow> (\<forall>l. ir_LockedUntil x = Some l \<longrightarrow> l \<le> now))"
proof -
  have mc: "m \<noteq> ''''" "c \<noteq> ''''" using assms(2) by (simp_all add: proper_key_def)
  show thesis
  proof (cases "getCached up now m e c db")
    case (Some v)
    then obtain w where "idem_cache db (cacheKey m e c) = Some w" "v = fst w"
      by (auto simp: getCached_def split: if_split_asm option.split_asm)
    then show thesis using assms(1) Some mc by (intro cached) (auto simp: Start_def)
  next
    case None
    show thesis
    proof (cases "record_of db (m, e, c)")
      case no_row: None
      then have "list_all (\<lambda>r. \<not> idem_at m e c r) (idem_records db)"
        by (simp add: record_of_def find_None_iff list_all_iff idem_at_key)
      then have "d = Proceed" "db' = db\<lparr>idem_records := idem_records db @ [new_record recordID now m e c h]\<rparr>"
        using assms(1,3) mc None by (simp_all add: Start_def)
      then show thesis
        by (intro fresh) (auto simp: record_of_new no_row new_record_def key_of_def split: option.split)
    next
      case (Some r)
      then have "\<not> list_all (\<lambda>r. \<not> idem_at m e c r) (idem_records db)"
        using find_SomeD [of _ "idem_records db" r] by (fastforce simp: record_of_def list_all_iff idem_at_key)
      then have run: "(d, db') = (if ir_RequestHash r \<noteq> h then (Conflict, db)
          else (case (ir_Status r, ir_ResponseCode r, ir_ResponseBody r, ir_LockedUntil r) of
              (IdemCompleted, Some code, Some b, _) \<Rightarrow> (Replay code b, db)
            | (IdemInProgress, _, _, Some locked) \<Rightarrow>
                if locked > now then (InProgress (max 1 ((locked - now) div 1000000)), db)
                else (Proceed, set_record m e c
                        (\<lambda>r. r\<lparr>ir_Status := IdemInProgress, ir_LockedUntil := Some (now + lockTTL), ir_ExpiresAt := now + idem_ttl\<rparr>) db)
            | _ \<Rightarrow> (Proceed, set_record m e c
                      (\<lambda>r. r\<lparr>ir_Status := IdemInProgress, ir_LockedUntil := Some (now + lockTTL), ir_ExpiresAt := now + idem_ttl\<rparr>) db)))"
        using assms(1) mc None Some unfolding Start_def record_of_def idem_at_key by simp
      let ?f = "\<lambda>r. r\<lparr>ir_Status := IdemInProgress, ir_LockedUntil := Some (now + lockTTL), ir_ExpiresAt := now + idem_ttl\<rparr>"
      have set: "record_of (set_record m e c ?f db) k = (if k = (m, e, c) then map_option ?f (record_of db k) else record_of db k)" for k
        by (rule record_of_set) (simp add: key_of_def)
      show thesis
      proof (cases "ir_RequestHash r = h")
        case False
        then show thesis using run Some by (intro other) simp_all
      next
        case True
        note again = fresh [of "?f r"]
        show thesis
        proof (cases "\<exists>code b. ir_Status r = IdemCompleted \<and> ir_ResponseCode r = Some code \<and> ir_ResponseBody r = Some b")
          case True
          then show thesis using run Some \<open>ir_RequestHash r = h\<close> stored by auto
        next
          case not_done: False
          show thesis
          proof (cases "\<exists>l. ir_Status r = IdemInProgress \<and> ir_LockedUntil r = Some l \<and> now < l")
            case True
            then show thesis using run Some \<open>ir_RequestHash r = h\<close> busy by auto
          next
            case False
            then have "(d, db') = (Proceed, set_record m e c ?f db)"
              using run \<open>ir_RequestHash r = h\<close> not_done by (auto split: idem_status.splits option.splits)
            then have db': "d = Proceed" "db' = set_record m e c ?f db" by simp_all
            have "ir_Status r = IdemCompleted \<longrightarrow> ir_ResponseCode r = None \<or> ir_ResponseBody r = None" using not_done by (metis not_None_eq)
            moreover have "ir_Status r = IdemInProgress \<longrightarrow> (\<forall>l. ir_LockedUntil r = Some l \<longrightarrow> l \<le> now)" using False by (meson not_less)
            moreover have "record_of db' (m, e, c) = Some (?f r)" "\<And>k. k \<noteq> (m, e, c) \<Longrightarrow> record_of db' k = record_of db k"
              using db'(2) set Some by simp_all
            ultimately show thesis using Some \<open>ir_RequestHash r = h\<close> by (intro again [OF db'(1)]) (simp_all add: db'(2))
          qed
        qed
      qed
    qed
  qed
qed

lemma record_of_cache_put [simp]: "record_of (cache_put up now m e c v db) k = record_of db k"
  by (simp add: record_of_def cache_put_def)

lemma cache_put_cases:
  assumes "idem_cache (cache_put up now m e c v db) ck = Some w"
  obtains "ck = cacheKey m e c" "fst w = v" | "idem_cache db ck = Some w"
  using assms by (auto simp: cache_put_def split: if_split_asm)

lemma wrap_finish_cases:
  assumes "m \<noteq> ''''" "c \<noteq> ''''"
  obtains (garbage) "normalizeJSON (rs_Body resp) = None" "wrap_finish up now m e c h resp db = db"
  | (failed) b where "normalizeJSON (rs_Body resp) = Some b" "500 \<le> rs_Code resp"
      "wrap_finish up now m e c h resp db = set_record m e c (\<lambda>r. r\<lparr>ir_RequestHash := h, ir_Status := IdemFailed,
         ir_ResponseCode := Some (rs_Code resp), ir_ResponseBody := Some b, ir_LockedUntil := None\<rparr>) db"
  | (completed) b rt rid where "normalizeJSON (rs_Body resp) = Some b" "rs_Code resp < 500"
      "wrap_finish up now m e c h resp db = cache_put up now m e c \<lparr>cc_RequestHash = h, cc_StatusCode = rs_Code resp, cc_Body = b\<rparr>
         (set_record m e c (\<lambda>r. r\<lparr>ir_RequestHash := h, ir_Status := IdemCompleted, ir_ResourceType := rt, ir_ResourceID := rid,
            ir_ResponseCode := Some (rs_Code resp), ir_ResponseBody := Some b, ir_LockedUntil := None\<rparr>) db)"
  using assms
  by (cases "normalizeJSON (rs_Body resp)"; cases "500 \<le> rs_Code resp"; cases "resourceFromBody (rs_Body resp)")
     (simp_all add: wrap_finish_def Complete_def Fail_def)

lemma other_key_kept:
  assumes "fst x \<noteq> k" "\<And>k'. k' \<noteq> k \<Longrightarrow> record_of db' k' = record_of db k'"
  shows "holds_lock db' x = holds_lock db x"
  using assms by (cases x) (simp add: holds_lock_def)

lemma other_recorded_kept:
  assumes "fst x \<noteq> k" "\<And>k'. k' \<noteq> k \<Longrightarrow> record_of db' k' = record_of db k'"
  shows "is_recorded db' x = is_recorded db x"
  using assms by (cases x) (simp add: is_recorded_def)

lemma idem_inv_run:
  assumes inv: "idem_inv s" and k: "proper_key (m, e, c)"
    and id: "recordID \<notin> ir_ID ` set (idem_records (sys_db s))"
    and start: "Start up recordID (sys_clock s) m e c h (sys_db s) = (Proceed, db')"
  shows "idem_inv (s\<lparr>sys_db := db', sys_running := sys_running s @ [((m, e, c), h, sys_clock s)]\<rparr>)"
  using start k id
proof (cases rule: Start_cases)
  case (fresh r)
  have not_running: "fst x \<noteq> (m, e, c)" if "x \<in> set (sys_running s)" for x
  proof
    assume "fst x = (m, e, c)"
    then obtain h' t where x: "x = ((m, e, c), h', t)" by (cases x) simp
    have "holds_lock (sys_db s) x" "sys_clock s < t + lockTTL" using inv that x by (auto simp: idem_inv_def)
    then obtain r' where r': "record_of (sys_db s) (m, e, c) = Some r'" "ir_Status r' = IdemInProgress" "ir_LockedUntil r' = Some (t + lockTTL)"
      by (auto simp: x holds_lock_def split: option.split_asm)
    from fresh(8) [OF r'(1)] r'(2,3) have "t + lockTTL \<le> sys_clock s" by simp
    with \<open>sys_clock s < t + lockTTL\<close> show False by simp
  qed
  have not_done: "fst x \<noteq> (m, e, c)" if "x \<in> set (sys_done s)" for x
  proof
    assume "fst x = (m, e, c)"
    then obtain h' code b where x: "x = ((m, e, c), h', code, b)" by (cases x) simp
    have "is_recorded (sys_db s) x" using inv that by (auto simp: idem_inv_def)
    then obtain r' where r': "record_of (sys_db s) (m, e, c) = Some r'" "ir_Status r' = IdemCompleted" "ir_ResponseCode r' = Some code"
      "ir_ResponseBody r' = Some b" by (auto simp: x is_recorded_def split: option.split_asm)
    from fresh(8) [OF r'(1)] r'(2-4) show False by simp
  qed
  have "holds_lock db' ((m, e, c), h, sys_clock s)" using fresh by (simp add: holds_lock_def)
  moreover have "holds_lock db' x" if "x \<in> set (sys_running s)" for x
    using inv that other_key_kept [OF not_running [OF that] fresh(7)] by (simp add: idem_inv_def)
  moreover have "is_recorded db' x" if "x \<in> set (sys_done s)" for x
    using inv that other_recorded_kept [OF not_done [OF that] fresh(7)] by (simp add: idem_inv_def)
  moreover have "(m, e, c) \<notin> fst ` set (sys_running s)" "(m, e, c) \<notin> fst ` set (sys_done s)" using not_running not_done by (metis imageE)+
  ultimately show ?thesis using inv fresh(2) k by (simp add: idem_inv_def lockTTL_def)
qed (simp_all split: if_split_asm)

lemma Start_answer:
  assumes "Start up recordID now m e c h db = (d, db')" "proper_key (m, e, c)" "recordID \<notin> ir_ID ` set (idem_records db)" "d \<noteq> Proceed"
  shows "db' = db"
  using assms(1-3) by (cases rule: Start_cases) (use assms(4) in simp_all)

lemma idem_cacheD: "idem_inv s \<Longrightarrow> idem_cache (sys_db s) ck = Some v \<Longrightarrow> \<exists>x \<in> set (sys_done s). cached_from ck (fst v) x"
  unfolding idem_inv_def by blast

lemma idem_inv_finish:
  assumes inv: "idem_inv s" and run: "((m, e, c), h, t) \<in> set (sys_running s)"
  shows "idem_inv (s\<lparr>sys_db := wrap_finish up (sys_clock s) m e c h resp (sys_db s),
          sys_running := filter (\<lambda>x. fst x \<noteq> (m, e, c)) (sys_running s),
          sys_done := sys_done s @ (case normalizeJSON (rs_Body resp) of
             None \<Rightarrow> [] | Some b \<Rightarrow> if rs_Code resp \<ge> 500 then [] else [((m, e, c), h, rs_Code resp, b)])\<rparr>)"
    (is "idem_inv (s\<lparr>sys_db := ?db, sys_running := ?left, sys_done := sys_done s @ ?new\<rparr>)")
proof -
  have k: "proper_key (m, e, c)" and lock: "holds_lock (sys_db s) ((m, e, c), h, t)" using inv run by (auto simp: idem_inv_def)
  then have mc: "m \<noteq> ''''" "c \<noteq> ''''" by (simp_all add: proper_key_def)
  obtain r where r: "record_of (sys_db s) (m, e, c) = Some r" using lock by (auto simp: holds_lock_def split: option.split_asm)
  have not_done: "fst x \<noteq> (m, e, c)" if "x \<in> set (sys_done s)" for x
    using inv run that by (force simp: idem_inv_def)
  have kept: "record_of ?db k' = record_of (sys_db s) k'" if "k' \<noteq> (m, e, c)" for k'
    by (rule wrap_finish_cases [OF mc, of resp up "sys_clock s" e h "sys_db s"])
       (use that in \<open>simp_all add: record_of_set key_of_def\<close>)
  have "holds_lock ?db x" if "x \<in> set ?left" for x
    using inv that other_key_kept [OF _ kept, of x] by (auto simp: idem_inv_def)
  moreover have old: "is_recorded ?db x" if "x \<in> set (sys_done s)" for x
    using inv that other_recorded_kept [OF not_done [OF that] kept] by (simp add: idem_inv_def)
  moreover have "is_recorded ?db x" if "x \<in> set ?new" for x
    by (rule wrap_finish_cases [OF mc, of resp up "sys_clock s" e h "sys_db s"])
       (use that r in \<open>simp_all add: record_of_set key_of_def is_recorded_def\<close>)
  moreover have "\<exists>x \<in> set (sys_done s @ ?new). cached_from ck (fst v) x" if "idem_cache ?db ck = Some v" for ck v
    using mc
  proof (cases rule: wrap_finish_cases [of m c resp up "sys_clock s" e h "sys_db s"])
    case (completed b rt rid)
    from that [unfolded completed(3)] show ?thesis
    proof (cases rule: cache_put_cases)
      case 1
      then show ?thesis using completed by (simp add: cached_from_def)
    next
      case 2
      then show ?thesis using idem_cacheD [OF inv, of ck v] by auto
    qed
  qed (use that idem_cacheD [OF inv] in auto)
  moreover have "(m, e, c) \<notin> fst ` set (sys_done s)" using not_done by (metis imageE)
  moreover have "fst ` set ?new \<subseteq> {(m, e, c)}" "length ?new \<le> 1" by (auto split: option.split)
  moreover have "distinct (map fst ?left)" using inv by (simp add: idem_inv_def distinct_map_filter)
  ultimately show ?thesis using inv k by (auto simp: idem_inv_def split: option.split)
qed

interpretation idem: invariant_system idem_step idem_inv
proof unfold_locales
  fix s s' assume "idem_step s s'" "idem_inv s"
  then show "idem_inv s'"
  proof (induction rule: idem_step.induct)
    case (run m e c recordID s up h db')
    then show ?case by (blast intro: idem_inv_run)
  next
    case (answer m e c recordID s up h d db')
    then show ?case using Start_answer [OF answer.hyps(3,1,2,4)] by simp
  next
    case (finish m e c h t s up resp)
    then show ?case by (blast intro: idem_inv_finish)
  next
    case (tick s t)
    then show ?case by (auto simp: idem_inv_def list_all_iff)
  qed
qed

definition idem_blank :: "idem_system \<Rightarrow> bool" where
  "idem_blank s \<longleftrightarrow> idem_records (sys_db s) = [] \<and> idem_cache (sys_db s) = (\<lambda>_. None) \<and> sys_running s = [] \<and> sys_done s = []"

lemma idem_reach: "idem_step\<^sup>*\<^sup>* s0 s \<Longrightarrow> idem_blank s0 \<Longrightarrow> idem_inv s"
  by (erule idem.inv_steps) (simp add: idem_blank_def idem_inv_def)

section \<open>Properties\<close>

text \<open>
  C13: A request is carried out at most once. Over every interleaving of requests, answers, failures and
  losses of the cache in which each handler finishes within the lock of its record, a key has at most one
  handler running, at most one recorded answer, and none running once its answer is recorded.
\<close>

theorem idempotent_at_most_once:
  assumes "idem_step\<^sup>*\<^sup>* s0 s" "idem_blank s0"
  shows "distinct (map fst (sys_running s) @ map fst (sys_done s))"
  using idem_reach [OF assms] by (auto simp: idem_inv_def)

text \<open>
  C14: A recorded answer is replayed. Once an answer is recorded under a key, at any later time and whatever
  the cache does, the same request is answered with it and any other request under the key is refused; the
  handler does not run.
\<close>

theorem idempotent_replay:
  assumes "idem_step\<^sup>*\<^sup>* s0 s" "idem_blank s0" "((m, e, c), h, code, b) \<in> set (sys_done s)"
    "recordID \<notin> ir_ID ` set (idem_records (sys_db s))"
  shows "Start up recordID now m e c h' (sys_db s) = (if h' = h then Replay code b else Conflict, sys_db s)"
proof -
  have inv: "idem_inv s" by (rule idem_reach [OF assms(1,2)])
  then have k: "proper_key (m, e, c)" and row: "is_recorded (sys_db s) ((m, e, c), h, code, b)" using assms(3) by (auto simp: idem_inv_def)
  obtain r where r: "record_of (sys_db s) (m, e, c) = Some r" "ir_RequestHash r = h" "ir_Status r = IdemCompleted"
    "ir_ResponseCode r = Some code" "ir_ResponseBody r = Some b"
    using row by (auto simp: is_recorded_def split: option.split_asm)
  obtain d db' where start: "Start up recordID now m e c h' (sys_db s) = (d, db')" by (metis surj_pair)
  from start k assms(4) show ?thesis
  proof (cases rule: Start_cases)
    case (cached v)
    then obtain x where x: "x \<in> set (sys_done s)" "cached_from (cacheKey m e c) (fst v) x" using idem_cacheD [OF inv] by blast
    then obtain m' e' c' h1 code1 b1 where X: "x = ((m', e', c'), h1, code1, b1)" "cacheKey m e c = cacheKey m' e' c'"
      "fst v = \<lparr>cc_RequestHash = h1, cc_StatusCode = code1, cc_Body = b1\<rparr>" by (cases x) (auto simp: cached_from_def)
    have "proper_key (m', e', c')" using inv x(1) X(1) by (auto simp: idem_inv_def)
    then have "(m', e', c') = (m, e, c)" using cacheKey_inj [OF k _ X(2)] by simp
    with x(1) X(1) have "((m, e, c), h1, code1, b1) \<in> set (sys_done s)" by simp
    moreover have "distinct (map fst (sys_done s))" using inv by (simp add: idem_inv_def)
    ultimately have "(h1, code1, b1) = (h, code, b)" using assms(3) by (metis eq_key_imp_eq_value)
    then show ?thesis using start cached X by simp
  qed (use start r in simp_all)
qed

section \<open>On concrete requests\<close>

definition sample_idem :: idem_system where
  "sample_idem = \<lparr>sys_db = \<lparr>idem_records = [], idem_cache = (\<lambda>_. None)\<rparr>, sys_clock = 0, sys_running = [], sys_done = []\<rparr>"

definition sample_started :: idem_db where
  "sample_started = \<lparr>idem_records = [new_record ''i1'' 0 ''m1'' ''e1'' ''k1'' ''h1''], idem_cache = (\<lambda>_. None)\<rparr>"

definition sample_answer :: http_response where
  "sample_answer = \<lparr>rs_Code = 201, rs_Body = JsonObject [(''id'', PStr ''o1'')], rs_Replayed = False, rs_RetryAfter = None\<rparr>"

lemma sample_idem_run:
  obtains s where "idem_step\<^sup>*\<^sup>* sample_idem s" "map fst (sys_running s) = []"
    "sys_done s = [((''m1'', ''e1'', ''k1''), ''h1'', 201, JsonObject [(''id'', PStr ''o1'')])]"
    "map ir_ID (idem_records (sys_db s)) = [''i1'']"
proof -
  have one: "idem_step sample_idem (sample_idem\<lparr>sys_db := sample_started,
      sys_running := sys_running sample_idem @ [((''m1'', ''e1'', ''k1''), ''h1'', sys_clock sample_idem)]\<rparr>)" (is "idem_step _ ?s1")
    by (rule idem_step.run [of _ _ _ "''i1''" _ True])
       (simp_all add: sample_idem_def sample_started_def proper_key_def Start_def getCached_def)
  have "idem_step ?s1 (?s1\<lparr>sys_db := wrap_finish False (sys_clock ?s1) ''m1'' ''e1'' ''k1'' ''h1'' sample_answer (sys_db ?s1),
      sys_running := filter (\<lambda>x. fst x \<noteq> (''m1'', ''e1'', ''k1'')) (sys_running ?s1),
      sys_done := sys_done ?s1 @ (case normalizeJSON (rs_Body sample_answer) of None \<Rightarrow> []
        | Some b \<Rightarrow> if rs_Code sample_answer \<ge> 500 then [] else [((''m1'', ''e1'', ''k1''), ''h1'', rs_Code sample_answer, b)])\<rparr>)"
    (is "idem_step _ ?s2") by (rule idem_step.finish [where t = 0]) (simp add: sample_idem_def)
  then have "idem_step\<^sup>*\<^sup>* sample_idem ?s2" using one by (meson converse_rtranclp_into_rtranclp r_into_rtranclp)
  then show thesis
    by (rule that)
       (simp_all add: sample_idem_def sample_started_def sample_answer_def normalizeJSON_def wrap_finish_def Complete_def cache_put_def
         resourceFromBody_def set_record_def upd_where_def new_record_def)
qed

lemma sample_idem_blank: "idem_blank sample_idem"
  by (simp add: idem_blank_def sample_idem_def)

theorem idempotent_at_most_once_witness:
  "\<exists>s. idem_step\<^sup>*\<^sup>* sample_idem s \<and> length (sys_done s) = 1 \<and> distinct (map fst (sys_running s) @ map fst (sys_done s))"
  by (rule sample_idem_run) (use idempotent_at_most_once [OF _ sample_idem_blank] in fastforce)

theorem idempotent_replay_witness:
  "\<exists>s. idem_step\<^sup>*\<^sup>* sample_idem s
     \<and> Start True ''i2'' 99 ''m1'' ''e1'' ''k1'' ''h1'' (sys_db s) = (Replay 201 (JsonObject [(''id'', PStr ''o1'')]), sys_db s)
     \<and> Start True ''i2'' 99 ''m1'' ''e1'' ''k1'' ''h2'' (sys_db s) = (Conflict, sys_db s)"
proof (rule sample_idem_run)
  fix s assume s: "idem_step\<^sup>*\<^sup>* sample_idem s"
    and row: "sys_done s = [((''m1'', ''e1'', ''k1''), ''h1'', 201, JsonObject [(''id'', PStr ''o1'')])]"
    and ids: "map ir_ID (idem_records (sys_db s)) = [''i1'']"
  have "''i2'' \<notin> ir_ID ` set (idem_records (sys_db s))" using arg_cong [OF ids, of set] by simp
  from idempotent_replay [OF s sample_idem_blank _ this, of "''m1''" "''e1''" "''k1''" "''h1''" 201 "JsonObject [(''id'', PStr ''o1'')]" True 99]
  show ?thesis using row s by auto
qed

text \<open>
  The lock is the limit. A handler that is still running 31 seconds after its request lets a second
  request with the same key run as well; and an answer that is not JSON is never recorded, so a retry
  after the lock runs the handler again.
\<close>

theorem idempotency_lock_gap:
  "(let db = snd (Start False ''i1'' 0 ''m1'' ''e1'' ''k1'' ''h1'' \<lparr>idem_records = [], idem_cache = (\<lambda>_. None)\<rparr>) in
     fst (Start False ''i2'' 31000000 ''m1'' ''e1'' ''k1'' ''h1'' db) = Proceed
   \<and> wrap_finish up 5 ''m1'' ''e1'' ''k1'' ''h1'' (sample_answer\<lparr>rs_Body := NotJson ''ok''\<rparr>) db = db)"
  by (simp add: Start_def getCached_def new_record_def lockTTL_def idem_at_def wrap_finish_def Complete_def sample_answer_def
      normalizeJSON_def resourceFromBody_def Let_def)

end
