(* ===== verification/WebhookTarget.thy ===== *)
theory WebhookTarget
  imports Prelude
begin

text \<open>
  Which addresses a webhook may reach (\<open>internal/webhook/postgres.go\<close>, \<open>validateSubscriptionURL\<close>, and
  \<open>internal/webhook/deliverer.go\<close>, the check of every resolved address at dial time). Addresses are words,
  the predicates are those of Go's \<open>net/netip\<close>; the check is shown to keep exactly the listed ranges out.
\<close>

section \<open>Addresses\<close>

datatype ip = V4 "32 word" | V6 "128 word"

text \<open>An IPv4 address written as IPv6 (\<open>::ffff:a.b.c.d\<close>) is read as the IPv4 address.\<close>

definition Unmap :: "ip \<Rightarrow> ip" where
  "Unmap a = (case a of V4 w \<Rightarrow> V4 w | V6 w \<Rightarrow> if drop_bit 32 w = 0xFFFF then V4 (ucast w) else V6 w)"

definition IsLoopback :: "ip \<Rightarrow> bool" where
  "IsLoopback a = (case a of V4 w \<Rightarrow> drop_bit 24 w = 127 | V6 w \<Rightarrow> w = 1)"

definition IsPrivate :: "ip \<Rightarrow> bool" where
  "IsPrivate a = (case a of
     V4 w \<Rightarrow> drop_bit 24 w = 10 \<or> drop_bit 20 w = 0xAC1 \<or> drop_bit 16 w = 0xC0A8
   | V6 w \<Rightarrow> drop_bit 121 w = 0x7E)"

definition IsMulticast :: "ip \<Rightarrow> bool" where
  "IsMulticast a = (case a of V4 w \<Rightarrow> drop_bit 28 w = 0xE | V6 w \<Rightarrow> drop_bit 120 w = 0xFF)"

definition IsUnspecified :: "ip \<Rightarrow> bool" where
  "IsUnspecified a = (case a of V4 w \<Rightarrow> w = 0 | V6 w \<Rightarrow> w = 0)"

definition IsLinkLocalUnicast :: "ip \<Rightarrow> bool" where
  "IsLinkLocalUnicast a = (case a of V4 w \<Rightarrow> drop_bit 16 w = 0xA9FE | V6 w \<Rightarrow> drop_bit 118 w = 0x3FA)"

definition IsLinkLocalMulticast :: "ip \<Rightarrow> bool" where
  "IsLinkLocalMulticast a = (case a of V4 w \<Rightarrow> drop_bit 8 w = 0xE00000 | V6 w \<Rightarrow> and (drop_bit 112 w) 0xFF0F = 0xFF02)"

definition isBlockedWebhookAddr :: "ip \<Rightarrow> bool" where
  "isBlockedWebhookAddr addr =
     (let a = Unmap addr in
      IsLoopback a \<or> IsPrivate a \<or> IsMulticast a \<or> IsUnspecified a \<or> IsLinkLocalUnicast a \<or> IsLinkLocalMulticast a
      \<or> (case a of V4 w \<Rightarrow> drop_bit 22 w = 0x191 | V6 w \<Rightarrow> False))"

section \<open>The checks\<close>

datatype dial_policy = policyPublicOnly | policyLoopbackOnly

datatype target_error = ErrInvalidURL | ErrBlockedWebhookTarget

text \<open>
  \<open>parse\<close> is \<open>net/url\<close>: the scheme and the host name of an URL; \<open>literal\<close> is \<open>netip.ParseAddr\<close>; \<open>lookup\<close> the resolver
  of the system.
\<close>

definition resolveWebhookHost :: "(string \<Rightarrow> ip option) \<Rightarrow> (string \<Rightarrow> ip list option) \<Rightarrow> string \<Rightarrow> ip list option" where
  "resolveWebhookHost literal lookup host =
     (if host = '''' then None
      else case literal host of
        Some a \<Rightarrow> Some [Unmap a]
      | None \<Rightarrow> map_option (map Unmap) (lookup host))"

definition validateSubscriptionURL ::
  "(string \<Rightarrow> (string \<times> string) option) \<Rightarrow> (string \<Rightarrow> ip option) \<Rightarrow> (string \<Rightarrow> ip list option) \<Rightarrow> string \<Rightarrow> target_error + unit" where
  "validateSubscriptionURL parse literal lookup raw =
     (if raw = '''' then Inl ErrInvalidURL
      else case parse raw of
        None \<Rightarrow> Inl ErrInvalidURL
      | Some (scheme, host) \<Rightarrow>
          if host = '''' \<or> scheme \<noteq> ''https'' \<and> scheme \<noteq> ''http'' then Inl ErrInvalidURL
          else (case resolveWebhookHost literal lookup host of
              None \<Rightarrow> Inl ErrInvalidURL
            | Some addrs \<Rightarrow>
                if addrs = [] then Inl ErrInvalidURL
                else if scheme = ''http''
                then (if list_all IsLoopback addrs then Inr () else Inl ErrInvalidURL)
                else (if list_all (\<lambda>a. \<not> isBlockedWebhookAddr a) addrs then Inr () else Inl ErrInvalidURL)))"

text \<open>\<open>split\<close> is \<open>net.SplitHostPort\<close>; \<open>allowLoopback\<close> is off in production.\<close>

definition checkWebhookDialAddr ::
  "(string \<Rightarrow> string option) \<Rightarrow> (string \<Rightarrow> ip option) \<Rightarrow> dial_policy \<Rightarrow> bool \<Rightarrow> string \<Rightarrow> string \<Rightarrow> target_error + unit" where
  "checkWebhookDialAddr split literal policy allowLoopback network address =
     (if network \<notin> {''tcp'', ''tcp4'', ''tcp6''} then Inl ErrBlockedWebhookTarget
      else case split address of
        None \<Rightarrow> Inl ErrBlockedWebhookTarget
      | Some host \<Rightarrow>
          (case literal host of
             None \<Rightarrow> Inl ErrBlockedWebhookTarget
           | Some a \<Rightarrow>
               (case policy of
                  policyLoopbackOnly \<Rightarrow>
                    if \<not> allowLoopback \<or> \<not> IsLoopback (Unmap a) then Inl ErrBlockedWebhookTarget else Inr ()
                | policyPublicOnly \<Rightarrow>
                    if isBlockedWebhookAddr (Unmap a) then Inl ErrBlockedWebhookTarget else Inr ())))"

section \<open>The ranges\<close>

text \<open>\<open>quad a b c d\<close> is the number of the IPv4 address \<open>a.b.c.d\<close>; \<open>cidr base bits\<close> the addresses that share their first bits with a base.\<close>

definition quad :: "nat \<Rightarrow> nat \<Rightarrow> nat \<Rightarrow> nat \<Rightarrow> nat" where
  "quad a b c d = a * 2 ^ 24 + b * 2 ^ 16 + c * 2 ^ 8 + d"

definition cidr :: "nat \<Rightarrow> nat \<Rightarrow> nat set" where
  "cidr base bits = {base ..< base + 2 ^ (32 - bits)}"

definition reserved_v4 :: "nat set" where
  "reserved_v4 = {0} \<union> cidr (quad 10 0 0 0) 8 \<union> cidr (quad 100 64 0 0) 10 \<union> cidr (quad 127 0 0 0) 8 \<union> cidr (quad 169 254 0 0) 16
     \<union> cidr (quad 172 16 0 0) 12 \<union> cidr (quad 192 168 0 0) 16 \<union> cidr (quad 224 0 0 0) 4"

lemma div_eq_range: "0 < (d :: nat) \<Longrightarrow> a div d = q \<longleftrightarrow> q * d \<le> a \<and> a < Suc q * d"
  by (simp only: less_eq_div_iff_mult_less_eq [symmetric] div_less_iff_less_mult [symmetric]) auto

lemma drop_bit_range: "drop_bit n w = (c :: 32 word) \<longleftrightarrow> unat c * 2 ^ n \<le> unat w \<and> unat w < Suc (unat c) * 2 ^ n"
proof -
  have "drop_bit n w = c \<longleftrightarrow> unat w div 2 ^ n = unat c"
    by (simp only: word_unat_eq_iff unat_drop_bit_eq) (simp only: drop_bit_eq_div)
  also have "\<dots> \<longleftrightarrow> unat c * 2 ^ n \<le> unat w \<and> unat w < Suc (unat c) * 2 ^ n"
    by (rule div_eq_range) simp
  finally show ?thesis .
qed

lemma blocked_v4: "isBlockedWebhookAddr (V4 w) \<longleftrightarrow> unat w \<in> reserved_v4"
proof -
  have "w = 0 \<longleftrightarrow> unat w = 0" by (simp add: unat_eq_0)
  then show ?thesis
    unfolding isBlockedWebhookAddr_def Unmap_def IsLoopback_def IsPrivate_def IsMulticast_def IsUnspecified_def
      IsLinkLocalUnicast_def IsLinkLocalMulticast_def Let_def ip.case drop_bit_range reserved_v4_def cidr_def quad_def
    by (auto simp: unat_numeral)
qed

text \<open>The same address written as IPv6.\<close>

definition mapped :: "32 word \<Rightarrow> ip" where
  "mapped w = V6 (or (push_bit 32 0xFFFF) (ucast w))"

lemma Unmap_mapped: "Unmap (mapped w) = V4 w"
proof -
  have small: "drop_bit 32 (ucast w :: 128 word) = 0" by (rule bit_word_eqI) (auto simp: bit_simps dest: bit_imp_le_length)
  have "drop_bit 32 (or (push_bit 32 0xFFFF) (ucast w :: 128 word)) = 0xFFFF"
    by (simp only: drop_bit_or small) (rule bit_word_eqI, auto simp: bit_simps)
  moreover have "ucast (or (push_bit 32 x) (ucast w :: 128 word)) = w" for x by (rule bit_word_eqI) (auto simp: bit_simps)
  ultimately show ?thesis unfolding mapped_def Unmap_def ip.case by (simp only: if_True refl)
qed

text \<open>
  C31: A webhook never reaches a reserved address. The guard blocks exactly the IPv4 ranges listed in
  \<open>reserved_v4\<close>, in both spellings of an address; a dial that passes the check under the policy for https is
  to an address it does not block, and one under the policy for http only to the loopback, and only
  where that is allowed.
\<close>

theorem webhook_guard_exact:
  "(isBlockedWebhookAddr (V4 w) \<longleftrightarrow> unat w \<in> reserved_v4) \<and> isBlockedWebhookAddr (mapped w) = isBlockedWebhookAddr (V4 w)
   \<and> (checkWebhookDialAddr split literal policy allowLoopback network address = Inr () \<longleftrightarrow>
        network \<in> {''tcp'', ''tcp4'', ''tcp6''} \<and> (\<exists>host a. split address = Some host \<and> literal host = Some a
          \<and> (case policy of policyPublicOnly \<Rightarrow> \<not> isBlockedWebhookAddr a | policyLoopbackOnly \<Rightarrow> allowLoopback \<and> IsLoopback (Unmap a))))"
proof (intro conjI)
  have twice: "Unmap (Unmap a) = Unmap a" for a by (cases a) (simp_all add: Unmap_def)
  then have "isBlockedWebhookAddr (Unmap a) = isBlockedWebhookAddr a" for a by (simp add: isBlockedWebhookAddr_def)
  then show "checkWebhookDialAddr split literal policy allowLoopback network address = Inr () \<longleftrightarrow>
        network \<in> {''tcp'', ''tcp4'', ''tcp6''} \<and> (\<exists>host a. split address = Some host \<and> literal host = Some a
          \<and> (case policy of policyPublicOnly \<Rightarrow> \<not> isBlockedWebhookAddr a | policyLoopbackOnly \<Rightarrow> allowLoopback \<and> IsLoopback (Unmap a)))"
    by (auto simp: checkWebhookDialAddr_def split: option.split dial_policy.split)
  have "Unmap (V4 w) = V4 w" by (simp add: Unmap_def)
  then show "isBlockedWebhookAddr (mapped w) = isBlockedWebhookAddr (V4 w)" by (simp add: isBlockedWebhookAddr_def Unmap_mapped)
qed (rule blocked_v4)

end
