(* ===== verification/Webhook.thy ===== *)
theory Webhook
  imports Outbox WebhookTarget
begin

text \<open>
  Webhooks (\<open>internal/webhook\<close>): subscriptions and their state machine, event matching, the delivery rows and
  their retry schedule, signing, and the consumer of the outbox envelopes. The HTTP client, the sealing of
  secrets, the digests and the JSON encoder are parameters.
\<close>

section \<open>Domain\<close>

datatype sub_status = SubActive | SubDisabled | SubDeleted

datatype sub_event = SubEnable | SubDisable | SubDelete

datatype delivery_status = DeliveryPending | DeliverySucceeded | DeliveryFailed | DeliveryDeadLettered | DeliveryCancelled

datatype signature_mode = ModeUnset | ModeHMAC | ModeCompat | ModeHTTPMessage | ModeOther string

datatype webhook_error =
    ErrSubscriptionNotFound
  | ErrDeliveryAttemptNotFound
  | ErrDeliveryAlreadyReserved
  | ErrSubTransition
  | ErrTarget target_error
  | ErrNoEvents
  | ErrUnknownEventType
  | ErrInvalidSignatureMode
  | ErrSealing
  | ErrNullScan
  | ErrEnvelope string
  | ErrWebhookConstraint

definition SubTransition :: "sub_status \<Rightarrow> sub_event \<Rightarrow> webhook_error + sub_status" where
  "SubTransition s ev =
     (case (s, ev) of
        (SubActive, SubDisable) \<Rightarrow> Inr SubDisabled
      | (SubActive, SubDelete) \<Rightarrow> Inr SubDeleted
      | (SubDisabled, SubEnable) \<Rightarrow> Inr SubActive
      | (SubDisabled, SubDelete) \<Rightarrow> Inr SubDeleted
      | _ \<Rightarrow> Inl ErrSubTransition)"

record subscription =
  ws_ID :: id
  ws_MerchantID :: id
  ws_URL :: string
  ws_Events :: "string list"
  ws_Secret :: string
  ws_PreviousSecret :: "string option"
  ws_PreviousSecretExpiresAt :: "time option"
  ws_SignatureMode :: signature_mode
  ws_Status :: sub_status
  ws_CreatedAt :: time

text \<open>The response code is NULL until a delivery has been tried.\<close>

record delivery =
  wd_ID :: id
  wd_EventID :: id
  wd_EventType :: string
  wd_SubscriptionID :: id
  wd_MerchantID :: id
  wd_Status :: delivery_status
  wd_RequestURL :: string
  wd_RequestBody :: payload
  wd_ResponseCode :: "int option"
  wd_ResponseBody :: string
  wd_ErrorMessage :: string
  wd_CancelReason :: string
  wd_AttemptNumber :: int
  wd_NextRetryAt :: "time option"
  wd_CancelledAt :: "time option"
  wd_CreatedAt :: time

definition MaxDeliveryAttempts :: int where "MaxDeliveryAttempts = 18"

definition secs :: "int \<Rightarrow> time" where "secs n = n * 1000000"

definition RotateSecretGracePeriod :: time where "RotateSecretGracePeriod = secs (24 * 3600)"

definition retry_delays :: "time list" where
  "retry_delays = [0, secs 5, secs 30, secs 120, secs 600, secs 1800, secs 3600] @ replicate 10 (secs 7200)"

definition RetryDelay :: "int \<Rightarrow> time" where
  "RetryDelay attemptNumber =
     (if attemptNumber \<le> 0 \<or> attemptNumber > int (length retry_delays) then secs 7200
      else retry_delays ! nat (attemptNumber - 1))"

definition pattern_matches :: "string \<Rightarrow> string \<Rightarrow> bool" where
  "pattern_matches eventType pattern \<longleftrightarrow>
     pattern = eventType
   \<or> length pattern > 1 \<and> last pattern = CHR ''*'' \<and> take (length (butlast pattern)) eventType = butlast pattern
       \<and> length eventType \<ge> length (butlast pattern)"

definition MatchesEvent :: "subscription \<Rightarrow> string \<Rightarrow> bool" where
  "MatchesEvent s eventType = list_ex (pattern_matches eventType) (ws_Events s)"

definition normalizeSignatureMode :: "signature_mode \<Rightarrow> webhook_error + signature_mode" where
  "normalizeSignatureMode mode =
     (case mode of ModeUnset \<Rightarrow> Inr ModeCompat | ModeOther _ \<Rightarrow> Inl ErrInvalidSignatureMode | _ \<Rightarrow> Inr mode)"

section \<open>Subscriptions\<close>

text \<open>The fingerprints in Redis that mark a delivered pair of event and subscription, with their expiry.\<close>

record webhook_db =
  wh_subs :: "subscription list"
  wh_deliveries :: "delivery list"
  wh_dedup :: "string \<Rightarrow> time option"

type_synonym secrecy = "(string \<Rightarrow> webhook_error + string) \<times> (string \<Rightarrow> webhook_error + string)"

definition sub_at :: "id \<Rightarrow> id \<Rightarrow> subscription \<Rightarrow> bool" where
  "sub_at merchantID subID s \<longleftrightarrow> ws_ID s = subID \<and> ws_MerchantID s = merchantID"

definition open_secrets :: "secrecy \<Rightarrow> subscription \<Rightarrow> webhook_error + subscription" where
  "open_secrets sec s =
     bindR (snd sec (ws_Secret s)) (\<lambda>secret.
       case ws_PreviousSecret s of
         None \<Rightarrow> Inr (s\<lparr>ws_Secret := secret\<rparr>)
       | Some prev \<Rightarrow> bindR (snd sec prev) (\<lambda>p. Inr (s\<lparr>ws_Secret := secret, ws_PreviousSecret := Some p\<rparr>)))"

fun open_all :: "secrecy \<Rightarrow> subscription list \<Rightarrow> webhook_error + subscription list" where
  "open_all sec [] = Inr []"
| "open_all sec (s # rest) = bindR (open_secrets sec s) (\<lambda>s'. bindR (open_all sec rest) (\<lambda>rest'. Inr (s' # rest')))"

definition GetSubscription :: "secrecy \<Rightarrow> id \<Rightarrow> id \<Rightarrow> webhook_db \<Rightarrow> webhook_error + subscription" where
  "GetSubscription sec merchantID subID db =
     (case find (\<lambda>s. sub_at merchantID subID s \<and> ws_Status s \<noteq> SubDeleted) (wh_subs db) of
        None \<Rightarrow> Inl ErrSubscriptionNotFound | Some s \<Rightarrow> open_secrets sec s)"

definition ListSubscriptions :: "secrecy \<Rightarrow> id \<Rightarrow> webhook_db \<Rightarrow> webhook_error + subscription list" where
  "ListSubscriptions sec merchantID db =
     open_all sec (sort_key (\<lambda>s. - ws_CreatedAt s) (filter (\<lambda>s. ws_MerchantID s = merchantID \<and> ws_Status s \<noteq> SubDeleted) (wh_subs db)))"

record sub_input =
  wi_MerchantID :: id
  wi_URL :: string
  wi_Events :: "string list"
  wi_SignatureMode :: signature_mode

text \<open>\<open>check\<close> is the check of the URL (\<open>validateSubscriptionURL\<close> with its environment); \<open>secret\<close> the random secret drawn.\<close>

definition CreateSubscriptionRepo ::
  "(string \<Rightarrow> target_error + unit) \<Rightarrow> secrecy \<Rightarrow> id \<Rightarrow> string \<Rightarrow> time \<Rightarrow> sub_input \<Rightarrow> webhook_db \<Rightarrow> webhook_error + subscription \<times> webhook_db" where
  "CreateSubscriptionRepo check sec subID secret now inp db =
     bindR (mapL ErrTarget (check (wi_URL inp))) (\<lambda>_.
       if wi_Events inp = [] then Inl ErrNoEvents
       else
       bindR (normalizeSignatureMode (wi_SignatureMode inp)) (\<lambda>mode.
       bindR (fst sec secret) (\<lambda>sealed.
         case insert_pk ws_ID \<lparr>ws_ID = subID, ws_MerchantID = wi_MerchantID inp, ws_URL = wi_URL inp, ws_Events = wi_Events inp,
                ws_Secret = sealed, ws_PreviousSecret = None, ws_PreviousSecretExpiresAt = None, ws_SignatureMode = mode,
                ws_Status = SubActive, ws_CreatedAt = now\<rparr> (wh_subs db) of
           None \<Rightarrow> Inl ErrWebhookConstraint
         | Some subs \<Rightarrow>
             let db' = db\<lparr>wh_subs := subs\<rparr> in
             bindR (GetSubscription sec (wi_MerchantID inp) subID db') (\<lambda>s. Inr (s, db')))))"

text \<open>\<open>catalog\<close>: the event types of the registry, when one is set and answers.\<close>

definition validateEventTypes :: "string list option \<Rightarrow> string list \<Rightarrow> webhook_error + unit" where
  "validateEventTypes catalog events =
     (case catalog of
        None \<Rightarrow> Inr ()
      | Some known \<Rightarrow> if events = [] \<or> known = [] \<or> list_all (\<lambda>e. e \<in> set known) events then Inr () else Inl ErrUnknownEventType)"

definition CreateSubscription ::
  "string list option \<Rightarrow> (string \<Rightarrow> target_error + unit) \<Rightarrow> secrecy \<Rightarrow> id \<Rightarrow> string \<Rightarrow> time \<Rightarrow> sub_input \<Rightarrow> webhook_db
     \<Rightarrow> webhook_error + subscription \<times> webhook_db" where
  "CreateSubscription catalog check sec subID secret now inp db =
     bindR (validateEventTypes catalog (wi_Events inp)) (\<lambda>_. CreateSubscriptionRepo check sec subID secret now inp db)"

definition set_sub :: "id \<Rightarrow> id \<Rightarrow> (subscription \<Rightarrow> subscription) \<Rightarrow> webhook_db \<Rightarrow> webhook_db" where
  "set_sub merchantID subID f db = db\<lparr>wh_subs := upd_where (sub_at merchantID subID) f (wh_subs db)\<rparr>"

definition UpdateSubscription ::
  "(string \<Rightarrow> target_error + unit) \<Rightarrow> secrecy \<Rightarrow> id \<Rightarrow> id \<Rightarrow> sub_input \<Rightarrow> webhook_db \<Rightarrow> webhook_error + subscription \<times> webhook_db" where
  "UpdateSubscription check sec merchantID subID inp db =
     bindR (GetSubscription sec merchantID subID db) (\<lambda>current.
     bindR (if wi_URL inp \<noteq> '''' then mapL ErrTarget (check (wi_URL inp)) else Inr ()) (\<lambda>_.
     bindR (if wi_SignatureMode inp \<noteq> ModeUnset then normalizeSignatureMode (wi_SignatureMode inp) else Inr ModeUnset) (\<lambda>mode.
       let db' = set_sub merchantID subID
             (\<lambda>s. s\<lparr>ws_URL := (if wi_URL inp \<noteq> '''' then wi_URL inp else if ws_URL current \<noteq> '''' then ws_URL current else ws_URL s),
                     ws_Events := (if wi_Events inp \<noteq> [] then wi_Events inp else ws_Events s),
                     ws_SignatureMode := (if mode = ModeUnset then ws_SignatureMode s else mode)\<rparr>) db in
       bindR (GetSubscription sec merchantID subID db') (\<lambda>s. Inr (s, db')))))"

definition TransitionSubscription :: "secrecy \<Rightarrow> id \<Rightarrow> id \<Rightarrow> sub_event \<Rightarrow> webhook_db \<Rightarrow> webhook_error + subscription \<times> webhook_db" where
  "TransitionSubscription sec merchantID subID ev db =
     bindR (GetSubscription sec merchantID subID db) (\<lambda>s.
     bindR (SubTransition (ws_Status s) ev) (\<lambda>next.
       Inr (s\<lparr>ws_Status := next\<rparr>, set_sub merchantID subID (\<lambda>s. s\<lparr>ws_Status := next\<rparr>) db)))"

definition RotateSecret :: "secrecy \<Rightarrow> string \<Rightarrow> time \<Rightarrow> id \<Rightarrow> id \<Rightarrow> webhook_db \<Rightarrow> webhook_error + subscription \<times> webhook_db" where
  "RotateSecret sec secret now merchantID subID db =
     bindR (GetSubscription sec merchantID subID db) (\<lambda>current.
     bindR (fst sec secret) (\<lambda>sealed.
     bindR (fst sec (ws_Secret current)) (\<lambda>sealed_current.
       let db' = set_sub merchantID subID
             (\<lambda>s. s\<lparr>ws_PreviousSecret := Some sealed_current, ws_PreviousSecretExpiresAt := Some (now + RotateSecretGracePeriod),
                     ws_Secret := sealed\<rparr>) db in
       bindR (GetSubscription sec merchantID subID db') (\<lambda>s. Inr (s, db')))))"

definition FindActiveSubscriptions :: "secrecy \<Rightarrow> id \<Rightarrow> string \<Rightarrow> webhook_db \<Rightarrow> webhook_error + subscription list" where
  "FindActiveSubscriptions sec merchantID eventType db =
     bindR (open_all sec (filter (\<lambda>s. ws_MerchantID s = merchantID \<and> ws_Status s = SubActive) (wh_subs db))) (\<lambda>subs.
       Inr (filter (\<lambda>s. MatchesEvent s eventType) subs))"

section \<open>Delivery rows\<close>

text \<open>A unique violation, of the key or of the index on event and subscription, means that the delivery is reserved.\<close>

definition ReserveDeliveryAttempt ::
  "id \<Rightarrow> time \<Rightarrow> id \<Rightarrow> string \<Rightarrow> subscription \<Rightarrow> id \<Rightarrow> payload \<Rightarrow> webhook_db \<Rightarrow> webhook_error + delivery \<times> webhook_db" where
  "ReserveDeliveryAttempt attemptID now eventID eventType sub merchantID body db =
     (let d = \<lparr>wd_ID = attemptID, wd_EventID = eventID, wd_EventType = eventType, wd_SubscriptionID = ws_ID sub,
               wd_MerchantID = merchantID, wd_Status = DeliveryPending, wd_RequestURL = ws_URL sub, wd_RequestBody = body,
               wd_ResponseCode = None, wd_ResponseBody = '''', wd_ErrorMessage = '''', wd_CancelReason = '''', wd_AttemptNumber = 1,
               wd_NextRetryAt = None, wd_CancelledAt = None, wd_CreatedAt = now\<rparr> in
      if list_ex (\<lambda>r. wd_ID r = attemptID \<or> wd_EventID r = eventID \<and> wd_SubscriptionID r = ws_ID sub) (wh_deliveries db)
      then Inl ErrDeliveryAlreadyReserved
      else Inr (d, db\<lparr>wh_deliveries := wh_deliveries db @ [d]\<rparr>))"

text \<open>A row whose response code is NULL does not scan into the struct.\<close>

definition scan_delivery :: "delivery \<Rightarrow> webhook_error + delivery" where
  "scan_delivery d = (if wd_ResponseCode d = None then Inl ErrNullScan else Inr d)"

fun scan_deliveries :: "delivery list \<Rightarrow> webhook_error + delivery list" where
  "scan_deliveries [] = Inr []"
| "scan_deliveries (d # rest) = bindR (scan_delivery d) (\<lambda>d'. bindR (scan_deliveries rest) (\<lambda>rest'. Inr (d' # rest')))"

definition GetDeliveryAttempt :: "id \<Rightarrow> webhook_db \<Rightarrow> webhook_error + delivery" where
  "GetDeliveryAttempt attemptID db =
     (case find (\<lambda>d. wd_ID d = attemptID) (wh_deliveries db) of
        None \<Rightarrow> Inl ErrDeliveryAttemptNotFound | Some d \<Rightarrow> scan_delivery d)"

text \<open>The retry time travels as RFC 3339 text and loses its fraction of a second.\<close>

definition rfc3339 :: "time \<Rightarrow> time" where
  "rfc3339 t = t div 1000000 * 1000000"

definition finalize :: "delivery_status \<Rightarrow> int \<Rightarrow> string \<Rightarrow> string \<Rightarrow> time option \<Rightarrow> int \<Rightarrow> delivery \<Rightarrow> delivery" where
  "finalize status code body err nextRetry number d =
     d\<lparr>wd_Status := status, wd_ResponseCode := Some code, wd_ResponseBody := body, wd_ErrorMessage := err,
        wd_NextRetryAt := map_option rfc3339 nextRetry, wd_AttemptNumber := number\<rparr>"

definition UpdateDeliveryAttempt ::
  "id \<Rightarrow> delivery_status \<Rightarrow> int \<Rightarrow> string \<Rightarrow> string \<Rightarrow> time option \<Rightarrow> int \<Rightarrow> webhook_db \<Rightarrow> (webhook_error + delivery) \<times> webhook_db" where
  "UpdateDeliveryAttempt attemptID status code body err nextRetry number db =
     (let db' = db\<lparr>wh_deliveries := upd_where (\<lambda>d. wd_ID d = attemptID) (finalize status code body err nextRetry number) (wh_deliveries db)\<rparr> in
      (GetDeliveryAttempt attemptID db', db'))"

definition ListDeliveryAttempts :: "id \<Rightarrow> id \<Rightarrow> webhook_db \<Rightarrow> webhook_error + delivery list" where
  "ListDeliveryAttempts merchantID subID db =
     scan_deliveries (take 100 (sort_key (\<lambda>d. - wd_CreatedAt d)
       (filter (\<lambda>d. wd_MerchantID d = merchantID \<and> wd_SubscriptionID d = subID) (wh_deliveries db))))"

definition FindDeliveryByEvent :: "id \<Rightarrow> id \<Rightarrow> webhook_db \<Rightarrow> webhook_error + delivery list" where
  "FindDeliveryByEvent merchantID eventID db =
     scan_deliveries (take 100 (sort_key (\<lambda>d. - wd_CreatedAt d)
       (filter (\<lambda>d. wd_MerchantID d = merchantID \<and> wd_EventID d = eventID) (wh_deliveries db))))"

definition retry_due :: "time \<Rightarrow> delivery \<Rightarrow> bool" where
  "retry_due now d \<longleftrightarrow> wd_Status d = DeliveryFailed \<and> (case wd_NextRetryAt d of None \<Rightarrow> False | Some t \<Rightarrow> t \<le> now)"

text \<open>\<open>locked\<close>: the rows another worker has locked, which are skipped.\<close>

definition due_rows :: "id list \<Rightarrow> time \<Rightarrow> nat \<Rightarrow> webhook_db \<Rightarrow> delivery list" where
  "due_rows locked now limit db =
     take limit (filter (\<lambda>d. wd_ID d \<notin> set locked) (sort_key (\<lambda>d. the (wd_NextRetryAt d)) (filter (retry_due now) (wh_deliveries db))))"

definition LeasePendingRetries :: "id list \<Rightarrow> time \<Rightarrow> nat \<Rightarrow> webhook_db \<Rightarrow> webhook_error + delivery list \<times> webhook_db" where
  "LeasePendingRetries locked now limit db =
     bindR (scan_deliveries (due_rows locked now limit db)) (\<lambda>attempts.
       Inr (attempts, db\<lparr>wh_deliveries := upd_where (\<lambda>d. wd_ID d \<in> wd_ID ` set attempts) (\<lambda>d. d\<lparr>wd_Status := DeliveryPending\<rparr>) (wh_deliveries db)\<rparr>))"

definition IsDelivered :: "id \<Rightarrow> id \<Rightarrow> webhook_db \<Rightarrow> bool" where
  "IsDelivered eventID subID db =
     list_ex (\<lambda>d. wd_EventID d = eventID \<and> wd_SubscriptionID d = subID \<and> wd_Status d = DeliverySucceeded) (wh_deliveries db)"

definition cancellable :: "id \<Rightarrow> id \<Rightarrow> delivery \<Rightarrow> bool" where
  "cancellable merchantID eventID d \<longleftrightarrow> wd_MerchantID d = merchantID \<and> wd_EventID d = eventID
     \<and> (wd_Status d = DeliveryFailed \<or> wd_Status d = DeliveryPending)"

definition CancelDeliveryRetries :: "time \<Rightarrow> id \<Rightarrow> id \<Rightarrow> string \<Rightarrow> webhook_db \<Rightarrow> nat \<times> webhook_db" where
  "CancelDeliveryRetries now merchantID eventID reason db =
     (length (filter (cancellable merchantID eventID) (wh_deliveries db)),
      db\<lparr>wh_deliveries := upd_where (cancellable merchantID eventID)
           (\<lambda>d. d\<lparr>wd_Status := DeliveryCancelled, wd_CancelReason := reason, wd_CancelledAt := Some now, wd_NextRetryAt := None\<rparr>)
           (wh_deliveries db)\<rparr>)"

section \<open>Signing\<close>

text \<open>\<open>hmac\<close> is the hex digest of HMAC-SHA256, \<open>hmac64\<close> and \<open>sha64\<close> are the base64 digests.\<close>

record digests =
  dg_hmac :: "string \<Rightarrow> string \<Rightarrow> string"
  dg_hmac64 :: "string \<Rightarrow> string \<Rightarrow> string"
  dg_sha64 :: "string \<Rightarrow> string"

definition sign :: "digests \<Rightarrow> string \<Rightarrow> string \<Rightarrow> string" where
  "sign dg secret payload = dg_hmac dg secret payload"

definition VerifySignature :: "digests \<Rightarrow> string \<Rightarrow> string \<Rightarrow> string \<Rightarrow> bool" where
  "VerifySignature dg secret payload signature \<longleftrightarrow> signature = ''sha256='' @ sign dg secret payload"

definition contentDigest :: "digests \<Rightarrow> string \<Rightarrow> string" where
  "contentDigest dg payload = ''sha-256=:'' @ dg_sha64 dg payload @ '':''"

definition structuredSignatureInput :: "string \<Rightarrow> string" where
  "structuredSignatureInput createdAt =
     ''paygate=(\"@method\" \"@path\" \"content-digest\" \"x-paygate-timestamp\" \"x-paygate-event\");created='' @ createdAt
     @ '';alg=\"hmac-sha256\";keyid=\"webhook\"''"

definition newline :: string where "newline = [char_of (10 :: nat)]"

definition structuredSignature :: "digests \<Rightarrow> string \<Rightarrow> string \<Rightarrow> string \<Rightarrow> string \<Rightarrow> string \<Rightarrow> string \<Rightarrow> string \<Rightarrow> string" where
  "structuredSignature dg secret method path digest ts eventType signatureInput =
     ''paygate=:'' @ dg_hmac64 dg secret
       (''@method: '' @ method @ newline @ ''@path: '' @ path @ newline @ ''content-digest: '' @ digest @ newline
        @ ''x-paygate-timestamp: '' @ ts @ newline @ ''x-paygate-event: '' @ eventType @ newline
        @ ''@signature-params: '' @ signatureInput) @ '':''"

definition canonicalPath :: "string \<Rightarrow> string" where
  "canonicalPath path = (if path = '''' then ''/'' else path)"

type_synonym headers = "(string \<times> string) list"

definition header :: "string \<Rightarrow> headers \<Rightarrow> string" where
  "header k hs = (case map_of hs k of None \<Rightarrow> '''' | Some v \<Rightarrow> v)"

definition delivery_headers :: "digests \<Rightarrow> string \<Rightarrow> string \<Rightarrow> string \<Rightarrow> string \<Rightarrow> string \<Rightarrow> signature_mode \<Rightarrow> headers" where
  "delivery_headers dg path secret eventType payload ts mode =
     (let digest = contentDigest dg payload;
          signatureInput = structuredSignatureInput ts;
          httpSig = structuredSignature dg secret ''POST'' (canonicalPath path) digest ts eventType signatureInput;
          hmac = [(''X-PayGate-Signature'', ''sha256='' @ sign dg secret payload)];
          http = [(''Content-Digest'', digest), (''Signature-Input'', signatureInput), (''Signature'', httpSig)] in
      [(''Content-Type'', ''application/json''), (''X-PayGate-Timestamp'', ts), (''X-PayGate-Event'', eventType)]
      @ (case mode of ModeHMAC \<Rightarrow> hmac | ModeHTTPMessage \<Rightarrow> http | _ \<Rightarrow> hmac @ http))"

definition VerifyHTTPMessageSignature :: "digests \<Rightarrow> string \<Rightarrow> string \<Rightarrow> string \<Rightarrow> headers \<Rightarrow> string \<Rightarrow> bool" where
  "VerifyHTTPMessageSignature dg secret method path hs payload =
     (let signatureInput = header ''Signature-Input'' hs; signature = header ''Signature'' hs; digest = header ''Content-Digest'' hs in
      if signatureInput = '''' \<or> signature = '''' then False
      else if digest = '''' \<or> digest \<noteq> contentDigest dg payload then False
      else signature = structuredSignature dg secret method (canonicalPath path) digest (header ''X-PayGate-Timestamp'' hs)
             (header ''X-PayGate-Event'' hs) signatureInput)"

record delivery_result =
  dr_StatusCode :: int
  dr_ResponseBody :: string
  dr_Error :: string
  dr_Succeeded :: bool

text \<open>
  \<open>parse\<close> gives the scheme and the path of an URL, \<open>send\<close> is the HTTP client: it dials under a policy and answers with an error or
  a status and a body. The transport does not follow redirects.
\<close>

definition Deliver ::
  "digests \<Rightarrow> (string \<Rightarrow> string + string \<times> string) \<Rightarrow> (dial_policy \<Rightarrow> string \<Rightarrow> headers \<Rightarrow> string \<Rightarrow> string + int \<times> string) \<Rightarrow> string
     \<Rightarrow> string \<Rightarrow> string \<Rightarrow> string \<Rightarrow> string \<Rightarrow> signature_mode \<Rightarrow> delivery_result" where
  "Deliver dg parse send ts url secret eventType payload mode =
     (let failed = (\<lambda>e. \<lparr>dr_StatusCode = 0, dr_ResponseBody = '''', dr_Error = e, dr_Succeeded = False\<rparr>) in
      case parse url of
        Inl e \<Rightarrow> failed e
      | Inr (scheme, path) \<Rightarrow>
          if scheme \<noteq> ''http'' \<and> scheme \<noteq> ''https'' then failed ''webhook target address is blocked: unsupported scheme''
          else
          (case send (if scheme = ''http'' then policyLoopbackOnly else policyPublicOnly) url
                  (delivery_headers dg path secret eventType payload ts mode) payload of
             Inl e \<Rightarrow> failed e
           | Inr (code, body) \<Rightarrow> \<lparr>dr_StatusCode = code, dr_ResponseBody = take 4096 body, dr_Error = '''',
                dr_Succeeded = (200 \<le> code \<and> code < 300)\<rparr>))"

section \<open>The service\<close>

text \<open>
  \<open>post\<close> is the delivery to a subscription (\<open>Deliver\<close> over the encoded body); \<open>ids n\<close> the row identifiers drawn. Redis answers
  when \<open>up\<close>; its fingerprint is the digest of event and subscription.
\<close>

definition fingerprint :: "(string \<Rightarrow> string) \<Rightarrow> id \<Rightarrow> id \<Rightarrow> string" where
  "fingerprint sha eventID subID = ''webhook:dedup:'' @ sha (eventID @ '':'' @ subID)"

definition first_status :: "delivery_result \<Rightarrow> delivery_status" where
  "first_status r = (if dr_Succeeded r then DeliverySucceeded else DeliveryFailed)"

fun deliver_loop ::
  "(string \<Rightarrow> string) \<Rightarrow> bool \<Rightarrow> (subscription \<Rightarrow> string \<Rightarrow> payload \<Rightarrow> delivery_result) \<Rightarrow> (nat \<Rightarrow> id) \<Rightarrow> time \<Rightarrow> id \<Rightarrow> id \<Rightarrow> string \<Rightarrow> payload
     \<Rightarrow> nat \<Rightarrow> subscription list \<Rightarrow> webhook_db \<Rightarrow> (webhook_error + unit) \<times> webhook_db" where
  "deliver_loop sha up post ids now eventID merchantID eventType body n [] db = (Inr (), db)"
| "deliver_loop sha up post ids now eventID merchantID eventType body n (sub # rest) db =
     (if up \<and> (case wh_dedup db (fingerprint sha eventID (ws_ID sub)) of None \<Rightarrow> False | Some t \<Rightarrow> now < t)
      then deliver_loop sha up post ids now eventID merchantID eventType body n rest db
      else case ReserveDeliveryAttempt (ids n) now eventID eventType sub merchantID body db of
        Inl _ \<Rightarrow> deliver_loop sha up post ids now eventID merchantID eventType body (Suc n) rest db
      | Inr (attempt, db1) \<Rightarrow>
          (let r = post sub eventType body;
               upd = UpdateDeliveryAttempt (wd_ID attempt) (first_status r) (dr_StatusCode r) (dr_ResponseBody r) (dr_Error r)
                       (if dr_Succeeded r then None else Some (now + RetryDelay 2)) 1 db1 in
           case fst upd of
             Inl e \<Rightarrow> (Inl e, snd upd)
           | Inr _ \<Rightarrow>
               deliver_loop sha up post ids now eventID merchantID eventType body (Suc n) rest
                 (if up \<and> dr_Succeeded r
                  then (snd upd)\<lparr>wh_dedup := (wh_dedup (snd upd))(fingerprint sha eventID (ws_ID sub) \<mapsto> now + secs (48 * 3600))\<rparr>
                  else snd upd)))"

definition DeliverEvent ::
  "secrecy \<Rightarrow> (string \<Rightarrow> string) \<Rightarrow> bool \<Rightarrow> (subscription \<Rightarrow> string \<Rightarrow> payload \<Rightarrow> delivery_result) \<Rightarrow> (nat \<Rightarrow> id) \<Rightarrow> time \<Rightarrow> id \<Rightarrow> id \<Rightarrow> string \<Rightarrow> payload
     \<Rightarrow> webhook_db \<Rightarrow> (webhook_error + unit) \<times> webhook_db" where
  "DeliverEvent sec sha up post ids now eventID merchantID eventType body db =
     (case FindActiveSubscriptions sec merchantID eventType db of
        Inl e \<Rightarrow> (Inl e, db)
      | Inr subs \<Rightarrow> deliver_loop sha up post ids now eventID merchantID eventType body 0 subs db)"

definition ReplayEvent ::
  "secrecy \<Rightarrow> (string \<Rightarrow> string) \<Rightarrow> bool \<Rightarrow> (subscription \<Rightarrow> string \<Rightarrow> payload \<Rightarrow> delivery_result) \<Rightarrow> (nat \<Rightarrow> id) \<Rightarrow> time \<Rightarrow> id \<Rightarrow> id
     \<Rightarrow> webhook_db \<Rightarrow> (webhook_error + nat) \<times> webhook_db" where
  "ReplayEvent sec sha up post ids now merchantID eventID db =
     (case FindDeliveryByEvent merchantID eventID db of
        Inl e \<Rightarrow> (Inl e, db)
      | Inr [] \<Rightarrow> (Inl ErrDeliveryAttemptNotFound, db)
      | Inr (d # _) \<Rightarrow>
          (case DeliverEvent sec sha up post ids now (''replay_'' @ eventID) merchantID
                  (case map_of (wd_RequestBody d) ''event_type'' of Some (PStr t) \<Rightarrow> t | _ \<Rightarrow> '''') (wd_RequestBody d) db of
             (Inl e, db') \<Rightarrow> (Inl e, db') | (Inr _, db') \<Rightarrow> (Inr 1, db')))"

definition retry_status :: "delivery_result \<Rightarrow> int \<Rightarrow> delivery_status" where
  "retry_status r nextAttempt =
     (if dr_Succeeded r then DeliverySucceeded
      else if nextAttempt > MaxDeliveryAttempts then DeliveryDeadLettered else DeliveryFailed)"

definition retry_update ::
  "time \<Rightarrow> delivery_result \<Rightarrow> delivery \<Rightarrow> webhook_db \<Rightarrow> (webhook_error + delivery) \<times> webhook_db" where
  "retry_update now r attempt db =
     (let nextAttempt = wd_AttemptNumber attempt + 1; status = retry_status r nextAttempt in
      UpdateDeliveryAttempt (wd_ID attempt) status (dr_StatusCode r) (dr_ResponseBody r) (dr_Error r)
        (if status = DeliveryFailed then Some (now + RetryDelay (nextAttempt + 1)) else None) nextAttempt db)"

fun retry_loop ::
  "secrecy \<Rightarrow> (subscription \<Rightarrow> string \<Rightarrow> payload \<Rightarrow> delivery_result) \<Rightarrow> time \<Rightarrow> delivery list \<Rightarrow> webhook_db \<Rightarrow> (webhook_error + unit) \<times> webhook_db" where
  "retry_loop sec post now [] db = (Inr (), db)"
| "retry_loop sec post now (attempt # rest) db =
     (case GetSubscription sec (wd_MerchantID attempt) (wd_SubscriptionID attempt) db of
        Inl _ \<Rightarrow> retry_loop sec post now rest db
      | Inr sub \<Rightarrow>
          (case retry_update now (post sub (wd_EventType attempt) (wd_RequestBody attempt)) attempt db of
             (Inl e, db') \<Rightarrow> (Inl e, db') | (Inr _, db') \<Rightarrow> retry_loop sec post now rest db'))"

definition RetryPendingDeliveries ::
  "secrecy \<Rightarrow> (subscription \<Rightarrow> string \<Rightarrow> payload \<Rightarrow> delivery_result) \<Rightarrow> id list \<Rightarrow> time \<Rightarrow> nat \<Rightarrow> webhook_db \<Rightarrow> (webhook_error + nat) \<times> webhook_db" where
  "RetryPendingDeliveries sec post locked now limit db =
     (case LeasePendingRetries locked now limit db of
        Inl e \<Rightarrow> (Inl e, db)
      | Inr (attempts, db1) \<Rightarrow>
          (case retry_loop sec post now attempts db1 of
             (Inl e, db') \<Rightarrow> (Inl e, db') | (Inr _, db') \<Rightarrow> (Inr (length attempts), db')))"

section \<open>The consumer\<close>

definition topics :: "string list" where
  "topics = [''paygate.orders'', ''paygate.payments'', ''paygate.refunds'', ''paygate.settlements'', ''paygate.internal'']"

text \<open>The envelope as it arrives; an absent field is empty.\<close>

record outbox_envelope =
  en_ID :: id
  en_EventID :: id
  en_AggregateType :: string
  en_AggregateID :: id
  en_EventType :: string
  en_MerchantID :: id
  en_Payload :: payload
  en_CreatedAt :: string
  en_OccurredAt :: string
  en_CorrelationID :: id
  en_CausationID :: id
  en_SchemaSubject :: string
  en_SchemaVersion :: string

definition put :: "string \<Rightarrow> string \<Rightarrow> payload \<Rightarrow> payload" where
  "put k v p = (k, PStr v) # filter (\<lambda>x. fst x \<noteq> k) p"

definition put_if :: "string \<Rightarrow> string \<Rightarrow> payload \<Rightarrow> payload" where
  "put_if k v p = (if v = '''' then p else put k v p)"

definition enrich :: "outbox_envelope \<Rightarrow> id \<Rightarrow> payload" where
  "enrich env eventID =
     put_if ''schema_version'' (en_SchemaVersion env) (put_if ''schema_subject'' (en_SchemaSubject env)
     (put_if ''causation_id'' (en_CausationID env) (put_if ''correlation_id'' (en_CorrelationID env)
     (put_if ''occurred_at'' (en_OccurredAt env) (put ''created_at'' (en_CreatedAt env) (put ''aggregate_id'' (en_AggregateID env)
     (put ''aggregate_type'' (en_AggregateType env) (put ''event_type'' (en_EventType env) (put ''event_id'' eventID (en_Payload env))))))))))"

text \<open>\<open>decode\<close> is the JSON decoder of the message.\<close>

definition HandleMessage ::
  "(string \<Rightarrow> outbox_envelope option) \<Rightarrow> secrecy \<Rightarrow> (string \<Rightarrow> string) \<Rightarrow> bool \<Rightarrow> (subscription \<Rightarrow> string \<Rightarrow> payload \<Rightarrow> delivery_result)
     \<Rightarrow> (nat \<Rightarrow> id) \<Rightarrow> time \<Rightarrow> string \<Rightarrow> webhook_db \<Rightarrow> (webhook_error + unit) \<times> webhook_db" where
  "HandleMessage decode sec sha up post ids now message db =
     (case decode message of
        None \<Rightarrow> (Inl (ErrEnvelope ''unmarshal outbox envelope''), db)
      | Some env \<Rightarrow>
          let eventID = (if en_ID env = '''' then en_EventID env else en_ID env) in
          if eventID = '''' then (Inl (ErrEnvelope ''missing id''), db)
          else if en_MerchantID env = '''' then (Inl (ErrEnvelope ''missing merchant_id''), db)
          else if en_EventType env = '''' then (Inl (ErrEnvelope ''missing event_type''), db)
          else DeliverEvent sec sha up post ids now eventID (en_MerchantID env) (en_EventType env) (enrich env eventID) db)"

text \<open>A message is handed over at most three times and its offset is committed in any case.\<close>

fun handle_attempts :: "nat \<Rightarrow> ('w \<Rightarrow> (webhook_error + unit) \<times> 'w) \<Rightarrow> 'w \<Rightarrow> (webhook_error + unit) \<times> 'w" where
  "handle_attempts 0 handler w = (Inr (), w)"
| "handle_attempts (Suc n) handler w =
     (case handler w of (Inr _, w') \<Rightarrow> (Inr (), w') | (Inl e, w') \<Rightarrow> if n = 0 then (Inl e, w') else handle_attempts n handler w')"

definition handleWithRetry :: "('w \<Rightarrow> (webhook_error + unit) \<times> 'w) \<Rightarrow> 'w \<Rightarrow> (webhook_error + unit) \<times> 'w" where
  "handleWithRetry = handle_attempts 3"

end
