(* ===== verification/WebhookFlow.thy ===== *)
theory WebhookFlow
  imports Webhook
begin

text \<open>
  Deliveries under concurrency: consumers reserve and send, retry workers lease, send and record, operators
  cancel, workers die. Over every interleaving an event is delivered successfully at most once to each
  subscription, and every delivery is tried a bounded number of times.
\<close>

section \<open>One attempt\<close>

text \<open>What the first delivery and a retry share: attempt \<open>n\<close> of a row is recorded with its outcome.\<close>

definition record_attempt :: "time \<Rightarrow> delivery_result \<Rightarrow> id \<Rightarrow> int \<Rightarrow> webhook_db \<Rightarrow> (webhook_error + delivery) \<times> webhook_db" where
  "record_attempt now r i n db =
     UpdateDeliveryAttempt i (retry_status r n) (dr_StatusCode r) (dr_ResponseBody r) (dr_Error r)
       (if retry_status r n = DeliveryFailed then Some (now + RetryDelay (n + 1)) else None) n db"

lemma first_attempt:
  "UpdateDeliveryAttempt i (first_status r) (dr_StatusCode r) (dr_ResponseBody r) (dr_Error r)
     (if dr_Succeeded r then None else Some (now + RetryDelay 2)) 1 db = record_attempt now r i 1 db"
  by (simp add: record_attempt_def first_status_def retry_status_def MaxDeliveryAttempts_def)

lemma retry_attempt: "retry_update now r d db = record_attempt now r (wd_ID d) (wd_AttemptNumber d + 1) db"
  by (simp add: record_attempt_def retry_update_def Let_def)

lemma scan_deliveries_Inr: "scan_deliveries ds = Inr xs \<Longrightarrow> xs = ds"
  by (induction ds arbitrary: xs) (auto simp: bindR_Inr_iff scan_delivery_def split: if_split_asm)

definition row_of :: "webhook_db \<Rightarrow> id \<Rightarrow> delivery option" where
  "row_of db i = find (\<lambda>d. wd_ID d = i) (wh_deliveries db)"

lemma row_of_upd:
  assumes "\<And>d. wd_ID (f d) = wd_ID d"
  shows "row_of (db\<lparr>wh_deliveries := upd_where P f (wh_deliveries db)\<rparr>) i = map_option (\<lambda>d. if P d then f d else d) (row_of db i)"
proof -
  have "find (\<lambda>d. wd_ID d = i) (upd_where P f t) = map_option (\<lambda>d. if P d then f d else d) (find (\<lambda>d. wd_ID d = i) t)" for t
    by (induction t) (auto simp: upd_where_def assms)
  then show ?thesis by (simp add: row_of_def)
qed

lemma row_of_record:
  "row_of (snd (record_attempt now r i n db)) j = map_option (\<lambda>d. if wd_ID d = i
     then finalize (retry_status r n) (dr_StatusCode r) (dr_ResponseBody r) (dr_Error r)
       (if retry_status r n = DeliveryFailed then Some (now + RetryDelay (n + 1)) else None) n d else d) (row_of db j)"
  unfolding record_attempt_def UpdateDeliveryAttempt_def Let_def snd_conv by (rule row_of_upd) (simp add: finalize_def)

lemma row_of_id: "row_of db i = Some d \<Longrightarrow> wd_ID d = i"
  unfolding row_of_def using find_SomeD by fastforce

lemma row_of_mem: "row_of db i = Some d \<Longrightarrow> d \<in> set (wh_deliveries db)"
  unfolding row_of_def using find_SomeD by fastforce

lemma row_of_unique:
  assumes "unique_key wd_ID (wh_deliveries db)" "d \<in> set (wh_deliveries db)"
  shows "row_of db (wd_ID d) = Some d"
proof (cases "row_of db (wd_ID d)")
  case None
  then show ?thesis using assms(2) by (auto simp: row_of_def find_None_iff)
next
  case (Some x)
  then show ?thesis using unique_key_inj [OF assms(1) row_of_mem [OF Some] assms(2)] row_of_id [OF Some] by simp
qed

lemma row_of_append:
  "row_of (db\<lparr>wh_deliveries := wh_deliveries db @ [d]\<rparr>) i
     = (case row_of db i of None \<Rightarrow> if wd_ID d = i then Some d else None | Some x \<Rightarrow> Some x)"
proof -
  have "find P (xs @ [d]) = (case find P xs of None \<Rightarrow> if P d then Some d else None | Some x \<Rightarrow> Some x)" for P xs
    by (induction xs) auto
  then show ?thesis by (simp add: row_of_def)
qed

section \<open>The system\<close>

text \<open>
  The database, the rows in the hands of a worker with the number of the attempt it makes, and, as a
  ghost, the log of the attempts made: the row and whether the endpoint accepted.
\<close>

record webhook_system =
  sy_db :: webhook_db
  sy_flight :: "id \<Rightarrow> int option"
  sy_log :: "(id \<times> bool) list"

definition leased :: "delivery list \<Rightarrow> id \<Rightarrow> int option" where
  "leased ds = map_of (map (\<lambda>d. (wd_ID d, wd_AttemptNumber d + 1)) ds)"

inductive webhook_step :: "webhook_system \<Rightarrow> webhook_system \<Rightarrow> bool" where
  reserve: "ReserveDeliveryAttempt i now e ty sub m body (sy_db s) = Inr (d, db')
    \<Longrightarrow> webhook_step s (s\<lparr>sy_db := db', sy_flight := (sy_flight s)(i \<mapsto> 1)\<rparr>)"
| attempt: "sy_flight s i = Some n
    \<Longrightarrow> webhook_step s (s\<lparr>sy_db := snd (record_attempt now r i n (sy_db s)), sy_flight := (sy_flight s)(i := None),
          sy_log := sy_log s @ [(i, dr_Succeeded r)]\<rparr>)"
| lease: "LeasePendingRetries locked now limit (sy_db s) = Inr (ds, db')
    \<Longrightarrow> webhook_step s (s\<lparr>sy_db := db', sy_flight := sy_flight s ++ leased ds\<rparr>)"
| abandon: "webhook_step s (s\<lparr>sy_flight := (sy_flight s)(i := None)\<rparr>)"
| cancel: "CancelDeliveryRetries now m e reason (sy_db s) = (n, db') \<Longrightarrow> webhook_step s (s\<lparr>sy_db := db'\<rparr>)"
| create: "CreateSubscription catalog check sec i secret now inp (sy_db s) = Inr (sub, db') \<Longrightarrow> webhook_step s (s\<lparr>sy_db := db'\<rparr>)"
| update: "UpdateSubscription check sec m i inp (sy_db s) = Inr (sub, db') \<Longrightarrow> webhook_step s (s\<lparr>sy_db := db'\<rparr>)"
| transition: "TransitionSubscription sec m i ev (sy_db s) = Inr (sub, db') \<Longrightarrow> webhook_step s (s\<lparr>sy_db := db'\<rparr>)"
| rotate: "RotateSecret sec secret now m i (sy_db s) = Inr (sub, db') \<Longrightarrow> webhook_step s (s\<lparr>sy_db := db'\<rparr>)"
| dedup: "webhook_step s (s\<lparr>sy_db := (sy_db s)\<lparr>wh_dedup := c\<rparr>\<rparr>)"

definition sends :: "webhook_system \<Rightarrow> id \<Rightarrow> int" where
  "sends s i = int (count_list (map fst (sy_log s)) i)"

definition wins :: "webhook_system \<Rightarrow> id \<Rightarrow> nat" where
  "wins s i = count_list (sy_log s) (i, True)"

text \<open>How the row of an identifier, the worker holding it, and the attempts and successes so far fit together.\<close>

definition row_fits :: "delivery option \<Rightarrow> int option \<Rightarrow> int \<Rightarrow> nat \<Rightarrow> bool" where
  "row_fits row flight n w \<longleftrightarrow>
     (case row of
        None \<Rightarrow> flight = None \<and> n = 0 \<and> w = 0
      | Some d \<Rightarrow>
          (case wd_Status d of
             DeliverySucceeded \<Rightarrow> flight = None \<and> n \<le> 19 \<and> w = 1
           | DeliveryDeadLettered \<Rightarrow> flight = None \<and> n = 19 \<and> w = 0
           | DeliveryFailed \<Rightarrow> flight = None \<and> n = wd_AttemptNumber d \<and> n \<le> 18 \<and> w = 0
           | _ \<Rightarrow> n \<le> 18 \<and> w = 0 \<and> (flight = None \<or> flight = Some (n + 1))))"

definition row_ok :: "webhook_system \<Rightarrow> id \<Rightarrow> bool" where
  "row_ok s i \<longleftrightarrow> row_fits (row_of (sy_db s) i) (sy_flight s i) (sends s i) (wins s i)"

definition webhook_inv :: "webhook_system \<Rightarrow> bool" where
  "webhook_inv s \<longleftrightarrow> unique_key wd_ID (wh_deliveries (sy_db s))
     \<and> unique_key (\<lambda>d. (wd_EventID d, wd_SubscriptionID d)) (wh_deliveries (sy_db s)) \<and> (\<forall>i. row_ok s i)"

lemma sends_snoc: "sends (s\<lparr>sy_db := db, sy_flight := fl, sy_log := sy_log s @ [(i, b)]\<rparr>) j = sends s j + (if j = i then 1 else 0)"
  by (simp add: sends_def)

lemma wins_snoc: "wins (s\<lparr>sy_db := db, sy_flight := fl, sy_log := sy_log s @ [(i, b)]\<rparr>) j = wins s j + (if j = i \<and> b then 1 else 0)"
  by (simp add: wins_def)

lemma log_same [simp]:
  "sends (s\<lparr>sy_db := db, sy_flight := fl\<rparr>) i = sends s i" "wins (s\<lparr>sy_db := db, sy_flight := fl\<rparr>) i = wins s i"
  "sends (s\<lparr>sy_db := db\<rparr>) i = sends s i" "wins (s\<lparr>sy_db := db\<rparr>) i = wins s i"
  "sends (s\<lparr>sy_flight := fl\<rparr>) i = sends s i" "wins (s\<lparr>sy_flight := fl\<rparr>) i = wins s i"
  by (simp_all add: sends_def wins_def)



lemma quiet_inv:
  assumes "webhook_inv s" "wh_deliveries db' = wh_deliveries (sy_db s)" shows "webhook_inv (s\<lparr>sy_db := db'\<rparr>)"
  using assms by (simp add: webhook_inv_def row_ok_def row_of_def)

lemma sub_quiet:
  "CreateSubscription catalog check sec i secret now inp db = Inr (sub, db') \<Longrightarrow> wh_deliveries db' = wh_deliveries db"
  "UpdateSubscription check sec m i inp db = Inr (sub, db') \<Longrightarrow> wh_deliveries db' = wh_deliveries db"
  "TransitionSubscription sec m i ev db = Inr (sub, db') \<Longrightarrow> wh_deliveries db' = wh_deliveries db"
  "RotateSecret sec secret now m i db = Inr (sub, db') \<Longrightarrow> wh_deliveries db' = wh_deliveries db"
  by (auto simp: CreateSubscription_def CreateSubscriptionRepo_def UpdateSubscription_def TransitionSubscription_def RotateSecret_def
      set_sub_def bindR_Inr_iff Let_def split: option.split_asm if_split_asm)

lemma reserve_inv:
  assumes inv: "webhook_inv s" and ok: "ReserveDeliveryAttempt i now e ty sub m body (sy_db s) = Inr (d, db')"
  shows "webhook_inv (s\<lparr>sy_db := db', sy_flight := (sy_flight s)(i \<mapsto> 1)\<rparr>)"
proof -
  have d: "wd_ID d = i" "wd_Status d = DeliveryPending" "wd_EventID d = e" "wd_SubscriptionID d = ws_ID sub"
    and db': "db' = (sy_db s)\<lparr>wh_deliveries := wh_deliveries (sy_db s) @ [d]\<rparr>"
    and new: "\<forall>r \<in> set (wh_deliveries (sy_db s)). wd_ID r \<noteq> i \<and> \<not> (wd_EventID r = e \<and> wd_SubscriptionID r = ws_ID sub)"
    using ok by (auto simp: ReserveDeliveryAttempt_def Let_def list_ex_iff split: if_split_asm)
  have none: "row_of (sy_db s) i = None" using new by (auto simp: row_of_def find_None_iff)
  have fits: "row_fits (row_of (sy_db s) j) (sy_flight s j) (sends s j) (wins s j)" for j using inv by (simp add: webhook_inv_def row_ok_def)
  have "row_ok (s\<lparr>sy_db := db', sy_flight := (sy_flight s)(i \<mapsto> 1)\<rparr>) j" for j
    using fits [of j] d none by (cases "j = i") (auto simp: row_ok_def db' row_of_append row_fits_def split: option.split)
  moreover have "unique_key wd_ID (wh_deliveries db')" "unique_key (\<lambda>d. (wd_EventID d, wd_SubscriptionID d)) (wh_deliveries db')"
    using inv new d by (auto simp: webhook_inv_def db')
  ultimately show ?thesis by (simp add: webhook_inv_def)
qed

lemma attempt_inv:
  assumes inv: "webhook_inv s" and fl: "sy_flight s i = Some n"
  shows "webhook_inv (s\<lparr>sy_db := snd (record_attempt now r i n (sy_db s)), sy_flight := (sy_flight s)(i := None),
          sy_log := sy_log s @ [(i, dr_Succeeded r)]\<rparr>)" (is "webhook_inv ?s'")
proof -
  have fits: "row_fits (row_of (sy_db s) j) (sy_flight s j) (sends s j) (wins s j)" for j using inv by (simp add: webhook_inv_def row_ok_def)
  obtain d where d: "row_of (sy_db s) i = Some d" using fits [of i] fl by (cases "row_of (sy_db s) i") (auto simp: row_fits_def)
  then have n: "n = sends s i + 1" "sends s i \<le> 18" "wins s i = 0" using fits [of i] fl
    by (auto simp: row_fits_def split: delivery_status.split_asm)
  have row: "row_of (sy_db ?s') i = Some (finalize (retry_status r n) (dr_StatusCode r) (dr_ResponseBody r) (dr_Error r)
       (if retry_status r n = DeliveryFailed then Some (now + RetryDelay (n + 1)) else None) n d)"
    using row_of_id [OF d] by (simp add: row_of_record d)
  have "row_ok ?s' i"
    using n row by (simp add: row_ok_def row_fits_def sends_snoc wins_snoc finalize_def retry_status_def MaxDeliveryAttempts_def)
  moreover have "row_ok ?s' j" if "j \<noteq> i" for j
  proof -
    have "row_of (sy_db ?s') j = row_of (sy_db s) j"
      using that row_of_id [of "sy_db s" j] by (cases "row_of (sy_db s) j") (auto simp: row_of_record)
    then show ?thesis using fits [of j] that by (simp add: row_ok_def sends_snoc wins_snoc)
  qed
  ultimately have "\<forall>j. row_ok ?s' j" by metis
  moreover have "unique_key wd_ID (wh_deliveries (sy_db ?s'))" "unique_key (\<lambda>d. (wd_EventID d, wd_SubscriptionID d)) (wh_deliveries (sy_db ?s'))"
    using inv by (simp_all add: webhook_inv_def record_attempt_def UpdateDeliveryAttempt_def finalize_def Let_def)
  ultimately show ?thesis by (simp add: webhook_inv_def)
qed

lemma leased_cases:
  assumes "unique_key wd_ID (wh_deliveries db)" "set ds \<subseteq> set (wh_deliveries db)"
  shows "leased ds i = (if i \<in> wd_ID ` set ds then map_option (\<lambda>d. wd_AttemptNumber d + 1) (row_of db i) else None)"
proof (cases "leased ds i")
  case None
  then have "i \<notin> wd_ID ` set ds" by (simp add: leased_def map_of_eq_None_iff image_image)
  then show ?thesis using None by simp
next
  case (Some n)
  then obtain d where "d \<in> set ds" "wd_ID d = i" "n = wd_AttemptNumber d + 1" by (auto simp: leased_def dest!: map_of_SomeD)
  then show ?thesis using Some row_of_unique [OF assms(1), of d] assms(2) by auto
qed

lemma lease_inv:
  assumes inv: "webhook_inv s" and ok: "LeasePendingRetries locked now limit (sy_db s) = Inr (ds, db')"
  shows "webhook_inv (s\<lparr>sy_db := db', sy_flight := sy_flight s ++ leased ds\<rparr>)" (is "webhook_inv ?s'")
proof -
  have ds: "ds = due_rows locked now limit (sy_db s)"
    and db': "db' = (sy_db s)\<lparr>wh_deliveries := upd_where (\<lambda>d. wd_ID d \<in> wd_ID ` set ds) (\<lambda>d. d\<lparr>wd_Status := DeliveryPending\<rparr>) (wh_deliveries (sy_db s))\<rparr>"
    using ok scan_deliveries_Inr by (auto simp: LeasePendingRetries_def bindR_Inr_iff)
  have uniq: "unique_key wd_ID (wh_deliveries (sy_db s))" using inv by (simp add: webhook_inv_def)
  have due: "d \<in> set (wh_deliveries (sy_db s))" "wd_Status d = DeliveryFailed" if "d \<in> set ds" for d
    using that by (auto simp: ds due_rows_def retry_due_def dest!: in_set_takeD)
  have fits: "row_fits (row_of (sy_db s) j) (sy_flight s j) (sends s j) (wins s j)" for j using inv by (simp add: webhook_inv_def row_ok_def)
  have fl: "leased ds i = (if i \<in> wd_ID ` set ds then map_option (\<lambda>d. wd_AttemptNumber d + 1) (row_of (sy_db s) i) else None)" for i
    by (rule leased_cases [OF uniq]) (use due(1) in blast)
  have row: "row_of db' i = map_option (\<lambda>d. if wd_ID d \<in> wd_ID ` set ds then d\<lparr>wd_Status := DeliveryPending\<rparr> else d) (row_of (sy_db s) i)" for i
    unfolding db' by (rule row_of_upd) simp
  have "row_ok ?s' i" for i
  proof (cases "i \<in> wd_ID ` set ds")
    case True
    then obtain d where d: "d \<in> set ds" "wd_ID d = i" by blast
    then have "row_of (sy_db s) i = Some d" using row_of_unique [OF uniq due(1) [OF d(1)]] by simp
    then show ?thesis using fits [of i] due(2) [OF d(1)] d True fl [of i] row [of i]
      by (simp add: row_ok_def row_fits_def map_add_def)
  next
    case False
    then have "row_of db' i = row_of (sy_db s) i" using row [of i] row_of_id [of "sy_db s" i] by (cases "row_of (sy_db s) i") auto
    then show ?thesis using fits [of i] False fl [of i] by (simp add: row_ok_def map_add_def)
  qed
  then show ?thesis using inv by (simp add: webhook_inv_def db')
qed

lemma cancel_inv:
  assumes inv: "webhook_inv s" shows "webhook_inv (s\<lparr>sy_db := snd (CancelDeliveryRetries now m e reason (sy_db s))\<rparr>)" (is "webhook_inv ?s'")
proof -
  have fits: "row_fits (row_of (sy_db s) j) (sy_flight s j) (sends s j) (wins s j)" for j using inv by (simp add: webhook_inv_def row_ok_def)
  have row: "row_of (sy_db ?s') i = map_option (\<lambda>d. if cancellable m e d then d\<lparr>wd_Status := DeliveryCancelled, wd_CancelReason := reason,
      wd_CancelledAt := Some now, wd_NextRetryAt := None\<rparr> else d) (row_of (sy_db s) i)" for i
    by (simp add: CancelDeliveryRetries_def row_of_upd)
  have "row_ok ?s' i" for i
    using fits [of i] row [of i]
    by (cases "row_of (sy_db s) i") (auto simp: row_ok_def row_fits_def cancellable_def split: delivery_status.split_asm if_split)
  then show ?thesis using inv by (simp add: webhook_inv_def CancelDeliveryRetries_def)
qed

lemma row_fits_abandon: "row_fits row fl n w \<Longrightarrow> row_fits row None n w"
  by (auto simp: row_fits_def split: option.split_asm delivery_status.split_asm)

lemma abandon_inv: "webhook_inv s \<Longrightarrow> webhook_inv (s\<lparr>sy_flight := (sy_flight s)(i := None)\<rparr>)"
  unfolding webhook_inv_def row_ok_def by auto (metis row_fits_abandon)

interpretation webhooks: invariant_system webhook_step webhook_inv
proof unfold_locales
  fix s s' assume "webhook_step s s'" "webhook_inv s"
  then show "webhook_inv s'"
  proof (induction rule: webhook_step.induct)
    case (cancel now m e reason s n db')
    then show ?case using cancel_inv [of s now m e reason] by simp
  qed (use reserve_inv attempt_inv lease_inv abandon_inv quiet_inv sub_quiet in \<open>simp_all add: quiet_inv\<close>)
qed

definition webhook_blank :: "webhook_system \<Rightarrow> bool" where
  "webhook_blank s \<longleftrightarrow> wh_deliveries (sy_db s) = [] \<and> sy_flight s = (\<lambda>_. None) \<and> sy_log s = []"

lemma webhook_reach: "webhook_step\<^sup>*\<^sup>* s0 s \<Longrightarrow> webhook_blank s0 \<Longrightarrow> webhook_inv s"
  by (erule webhooks.inv_steps) (simp add: webhook_blank_def webhook_inv_def row_ok_def row_fits_def row_of_def sends_def wins_def)

lemma distinct_of_count: "(\<And>x. count_list xs x \<le> 1) \<Longrightarrow> distinct xs"
proof (induction xs)
  case (Cons x xs)
  have "count_list xs x = 0" using Cons.prems [of x] by simp
  moreover have "count_list xs y \<le> 1" for y using Cons.prems [of y] by (auto split: if_split_asm)
  ultimately show ?case using Cons.IH by (simp add: count_list_0_iff)
qed simp

lemma count_filter: "P x \<Longrightarrow> count_list (filter P xs) x = count_list xs x"
  by (induction xs) auto

section \<open>Properties\<close>

text \<open>The event and the subscription of a row.\<close>

definition pair_of :: "webhook_db \<Rightarrow> id \<Rightarrow> (id \<times> id) option" where
  "pair_of db i = map_option (\<lambda>d. (wd_EventID d, wd_SubscriptionID d)) (row_of db i)"

text \<open>
  C12: An event is accepted at most once by each subscription, after at most 19 attempts. Over every
  interleaving of consumers, retry workers, cancellations, changes of subscriptions and dying workers, the
  successful attempts are for different pairs of event and subscription, and no delivery is tried more
  than 19 times.
\<close>

theorem webhook_delivered_once:
  assumes "webhook_step\<^sup>*\<^sup>* s0 s" "webhook_blank s0"
  shows "distinct (map (\<lambda>x. pair_of (sy_db s) (fst x)) (filter snd (sy_log s))) \<and> count_list (map fst (sy_log s)) i \<le> 19"
proof -
  have inv: "webhook_inv s" by (rule webhook_reach [OF assms])
  have fits: "row_fits (row_of (sy_db s) j) (sy_flight s j) (sends s j) (wins s j)" for j using inv by (simp add: webhook_inv_def row_ok_def)
  have bounds: "sends s j \<le> 19" "wins s j \<le> 1" for j
    using fits [of j] by (auto simp: row_fits_def split: option.split_asm delivery_status.split_asm)
  have row: "row_of (sy_db s) j \<noteq> None" if "(j, True) \<in> set (sy_log s)" for j
  proof
    assume "row_of (sy_db s) j = None"
    then have "wins s j = 0" using fits [of j] by (simp add: row_fits_def)
    then show False using that by (simp add: wins_def count_list_0_iff)
  qed
  have "count_list (filter snd (sy_log s)) x \<le> 1" for x
  proof (cases x)
    case (Pair j b)
    then show ?thesis using bounds(2) [of j] by (cases b) (simp_all add: count_filter wins_def count_list_0_iff)
  qed
  then have "distinct (filter snd (sy_log s))" by (rule distinct_of_count)
  moreover have "inj_on (\<lambda>x. pair_of (sy_db s) (fst x)) (set (filter snd (sy_log s)))"
  proof (rule inj_onI)
    fix x y assume x: "x \<in> set (filter snd (sy_log s))" and y: "y \<in> set (filter snd (sy_log s))"
      and same: "pair_of (sy_db s) (fst x) = pair_of (sy_db s) (fst y)"
    obtain d where d: "row_of (sy_db s) (fst x) = Some d" using row [of "fst x"] x by (cases x) auto
    obtain e where e: "row_of (sy_db s) (fst y) = Some e" using row [of "fst y"] y by (cases y) auto
    have "d = e"
      by (rule unique_key_inj [of "\<lambda>d. (wd_EventID d, wd_SubscriptionID d)", OF _ row_of_mem [OF d] row_of_mem [OF e]])
         (use inv same in \<open>simp_all add: webhook_inv_def pair_of_def d e\<close>)
    then have "fst x = fst y" using row_of_id [OF d] row_of_id [OF e] by simp
    then show "x = y" using x y by (cases x, cases y) simp
  qed
  ultimately show ?thesis using bounds(1) [of i] by (simp add: distinct_map sends_def)
qed

section \<open>The service in the system\<close>

lemma record_attempt_Inr:
  assumes "row_of db i = Some d" shows "\<exists>r'. fst (record_attempt now r i n db) = Inr r'"
proof -
  have "row_of (snd (record_attempt now r i n db)) i \<noteq> None" using assms by (simp add: row_of_record)
  moreover have "wd_ResponseCode x \<noteq> None" if "row_of (snd (record_attempt now r i n db)) i = Some x" for x
    using that assms row_of_id [OF assms] by (auto simp: row_of_record finalize_def)
  moreover have "fst (record_attempt now r i n db) = GetDeliveryAttempt i (snd (record_attempt now r i n db))"
    by (simp add: record_attempt_def UpdateDeliveryAttempt_def Let_def)
  ultimately show ?thesis by (auto simp: GetDeliveryAttempt_def row_of_def [symmetric] scan_delivery_def)
qed

lemma reserve_row: "ReserveDeliveryAttempt i now e ty sub m body db = Inr (d, db1) \<Longrightarrow> row_of db1 i = Some d \<and> wd_ID d = i"
proof -
  assume ok: "ReserveDeliveryAttempt i now e ty sub m body db = Inr (d, db1)"
  then have "db1 = db\<lparr>wh_deliveries := wh_deliveries db @ [d]\<rparr>" "wd_ID d = i" "row_of db i = None"
    by (auto simp: ReserveDeliveryAttempt_def Let_def list_ex_iff row_of_def find_None_iff split: if_split_asm)
  then show ?thesis by (simp add: row_of_append)
qed

text \<open>Delivering an event is a run of the system.\<close>

lemma deliver_loop_run:
  assumes "deliver_loop sha up post ids now eventID m ty body n subs (sy_db s) = (res, db')"
  shows "\<exists>fl log. webhook_step\<^sup>*\<^sup>* s (s\<lparr>sy_db := db', sy_flight := fl, sy_log := log\<rparr>)"
  using assms
proof (induction subs arbitrary: n s)
  case Nil
  then have "s\<lparr>sy_db := db', sy_flight := sy_flight s, sy_log := sy_log s\<rparr> = s" by simp
  then show ?case by (metis rtranclp.rtrancl_refl)
next
  case (Cons sub rest)
  show ?case
  proof (cases "up \<and> (case wh_dedup (sy_db s) (fingerprint sha eventID (ws_ID sub)) of None \<Rightarrow> False | Some t \<Rightarrow> now < t)")
    case True
    then show ?thesis using Cons by simp
  next
    case miss: False
    show ?thesis
    proof (cases "ReserveDeliveryAttempt (ids n) now eventID ty sub m body (sy_db s)")
      case (Inl e)
      then show ?thesis using Cons miss by auto
    next
      case (Inr x)
      then obtain d db1 where res: "ReserveDeliveryAttempt (ids n) now eventID ty sub m body (sy_db s) = Inr (d, db1)" by (cases x) simp
      let ?r = "post sub ty body"
      let ?db2 = "snd (record_attempt now ?r (ids n) 1 db1)"
      let ?db3 = "if up \<and> dr_Succeeded ?r
          then ?db2\<lparr>wh_dedup := (wh_dedup ?db2)(fingerprint sha eventID (ws_ID sub) \<mapsto> now + secs (48 * 3600))\<rparr> else ?db2"
      let ?s1 = "s\<lparr>sy_db := db1, sy_flight := (sy_flight s)(ids n \<mapsto> 1)\<rparr>"
      let ?s2 = "?s1\<lparr>sy_db := ?db2, sy_flight := (sy_flight ?s1)(ids n := None), sy_log := sy_log ?s1 @ [(ids n, dr_Succeeded ?r)]\<rparr>"
      let ?s3 = "?s2\<lparr>sy_db := ?db3\<rparr>"
      have one: "webhook_step s ?s1" by (rule webhook_step.reserve [OF res])
      have "sy_flight ?s1 (ids n) = Some 1" by simp
      from webhook_step.attempt [OF this, of ?r now] have two: "webhook_step ?s1 ?s2" by simp
      have "\<exists>c. ?db3 = ?db2\<lparr>wh_dedup := c\<rparr>" by (cases "up \<and> dr_Succeeded ?r") (auto intro: exI [of _ "wh_dedup ?db2"])
      then obtain c where "?db3 = (sy_db ?s2)\<lparr>wh_dedup := c\<rparr>" by auto
      then have three: "webhook_step ?s2 ?s3" using webhook_step.dedup [of ?s2 c] by (simp only:)
      have ID: "wd_ID d = ids n" and row: "row_of db1 (ids n) = Some d" using reserve_row [OF res] by simp_all
      obtain r' where "fst (record_attempt now ?r (ids n) 1 db1) = Inr r'" using record_attempt_Inr [OF row] by blast
      then have "deliver_loop sha up post ids now eventID m ty body (Suc n) rest (sy_db ?s3) = (res, db')"
        using Cons.prems miss res by (simp add: Let_def first_attempt ID cong: if_cong)
      from Cons.IH [OF this] obtain fl log where "webhook_step\<^sup>*\<^sup>* ?s3 (?s3\<lparr>sy_db := db', sy_flight := fl, sy_log := log\<rparr>)" by blast
      then have "webhook_step\<^sup>*\<^sup>* s (?s3\<lparr>sy_db := db', sy_flight := fl, sy_log := log\<rparr>)"
        using one two three by (meson converse_rtranclp_into_rtranclp)
      then show ?thesis by auto
    qed
  qed
qed

lemma retry_loop_run:
  assumes "retry_loop sec post now ds (sy_db s) = (res, db')" "distinct (map wd_ID ds)"
    "\<And>d. d \<in> set ds \<Longrightarrow> sy_flight s (wd_ID d) = Some (wd_AttemptNumber d + 1)"
  shows "\<exists>fl log. webhook_step\<^sup>*\<^sup>* s (s\<lparr>sy_db := db', sy_flight := fl, sy_log := log\<rparr>)"
  using assms
proof (induction ds arbitrary: s)
  case Nil
  then have "s\<lparr>sy_db := db', sy_flight := sy_flight s, sy_log := sy_log s\<rparr> = s" by simp
  then show ?case by (metis rtranclp.rtrancl_refl)
next
  case (Cons d rest)
  have others: "sy_flight s (wd_ID x) = Some (wd_AttemptNumber x + 1)" "wd_ID x \<noteq> wd_ID d" if "x \<in> set rest" for x
    using Cons.prems(2,3) that by (auto simp: image_iff)
  show ?case
  proof (cases "GetSubscription sec (wd_MerchantID d) (wd_SubscriptionID d) (sy_db s)")
    case (Inl e)
    then show ?thesis using Cons.IH [of s] Cons.prems others by simp
  next
    case (Inr sub)
    let ?r = "post sub (wd_EventType d) (wd_RequestBody d)"
    let ?db1 = "snd (retry_update now ?r d (sy_db s))"
    let ?s1 = "s\<lparr>sy_db := ?db1, sy_flight := (sy_flight s)(wd_ID d := None), sy_log := sy_log s @ [(wd_ID d, dr_Succeeded ?r)]\<rparr>"
    have "sy_flight s (wd_ID d) = Some (wd_AttemptNumber d + 1)" by (rule Cons.prems(3)) simp
    from webhook_step.attempt [OF this, of ?r now] have one: "webhook_step s ?s1" by (simp add: retry_attempt)
    show ?thesis
    proof (cases "fst (retry_update now ?r d (sy_db s))")
      case (Inl e)
      then have "db' = ?db1" using Cons.prems(1) \<open>_ = Inr sub\<close> by (cases "retry_update now ?r d (sy_db s)") simp
      then have "webhook_step s (s\<lparr>sy_db := db', sy_flight := (sy_flight s)(wd_ID d := None), sy_log := sy_log s @ [(wd_ID d, dr_Succeeded ?r)]\<rparr>)"
        using one by simp
      then show ?thesis by (meson r_into_rtranclp)
    next
      case ok: (Inr x)
      then have "retry_loop sec post now rest (sy_db ?s1) = (res, db')"
        using Cons.prems(1) \<open>_ = Inr sub\<close> by (cases "retry_update now ?r d (sy_db s)") simp
      then obtain fl log where "webhook_step\<^sup>*\<^sup>* ?s1 (?s1\<lparr>sy_db := db', sy_flight := fl, sy_log := log\<rparr>)"
        using Cons.IH [of ?s1] Cons.prems(2) others by fastforce
      then have "webhook_step\<^sup>*\<^sup>* s (?s1\<lparr>sy_db := db', sy_flight := fl, sy_log := log\<rparr>)" using one by (meson converse_rtranclp_into_rtranclp)
      then show ?thesis by auto
    qed
  qed
qed

lemma DeliverEvent_run:
  assumes "DeliverEvent sec sha up post ids now eventID m ty body (sy_db s) = (res, db')"
  shows "\<exists>fl log. webhook_step\<^sup>*\<^sup>* s (s\<lparr>sy_db := db', sy_flight := fl, sy_log := log\<rparr>)"
proof (cases "FindActiveSubscriptions sec m ty (sy_db s)")
  case (Inl e)
  then have "s\<lparr>sy_db := db', sy_flight := sy_flight s, sy_log := sy_log s\<rparr> = s" using assms by (simp add: DeliverEvent_def)
  then show ?thesis by (metis rtranclp.rtrancl_refl)
next
  case (Inr subs)
  then show ?thesis using assms deliver_loop_run by (simp add: DeliverEvent_def)
qed

lemma RetryPendingDeliveries_run:
  assumes "RetryPendingDeliveries sec post locked now limit (sy_db s) = (res, db')" "webhook_inv s"
  shows "\<exists>fl log. webhook_step\<^sup>*\<^sup>* s (s\<lparr>sy_db := db', sy_flight := fl, sy_log := log\<rparr>)"
proof (cases "LeasePendingRetries locked now limit (sy_db s)")
  case (Inl e)
  then have "s\<lparr>sy_db := db', sy_flight := sy_flight s, sy_log := sy_log s\<rparr> = s" using assms(1) by (simp add: RetryPendingDeliveries_def)
  then show ?thesis by (metis rtranclp.rtrancl_refl)
next
  case (Inr x)
  then obtain ds db1 where lease: "LeasePendingRetries locked now limit (sy_db s) = Inr (ds, db1)" by (cases x) simp
  let ?s1 = "s\<lparr>sy_db := db1, sy_flight := sy_flight s ++ leased ds\<rparr>"
  have ds: "ds = due_rows locked now limit (sy_db s)"
    using lease scan_deliveries_Inr by (auto simp: LeasePendingRetries_def bindR_Inr_iff)
  have uniq: "unique_key wd_ID (wh_deliveries (sy_db s))" using assms(2) by (simp add: webhook_inv_def)
  have "distinct (map wd_ID (filter P (sort_key k (filter Q (wh_deliveries (sy_db s))))))" for P Q and k :: "delivery \<Rightarrow> time"
    using uniq by (simp add: unique_key_def distinct_map inj_on_def)
  then have dist: "distinct (map wd_ID ds)" by (simp add: ds due_rows_def take_map [symmetric])
  have rows: "set ds \<subseteq> set (wh_deliveries (sy_db s))" by (auto simp: ds due_rows_def dest!: in_set_takeD)
  have fl: "sy_flight ?s1 (wd_ID d) = Some (wd_AttemptNumber d + 1)" if "d \<in> set ds" for d
    using that leased_cases [OF uniq rows, of "wd_ID d"] row_of_unique [OF uniq, of d] rows by auto
  obtain res' where "retry_loop sec post now ds (sy_db ?s1) = (res', db')"
    using assms(1) lease by (cases "retry_loop sec post now ds db1") (auto simp: RetryPendingDeliveries_def split: sum.split_asm)
  from retry_loop_run [OF this dist fl] obtain fl log where "webhook_step\<^sup>*\<^sup>* ?s1 (?s1\<lparr>sy_db := db', sy_flight := fl, sy_log := log\<rparr>)" by blast
  then have "webhook_step\<^sup>*\<^sup>* s (?s1\<lparr>sy_db := db', sy_flight := fl, sy_log := log\<rparr>)"
    using webhook_step.lease [OF lease] by (meson converse_rtranclp_into_rtranclp)
  then show ?thesis by auto
qed

section \<open>Coverage and exhaustion\<close>

lemma open_secrets_ID: "open_secrets sec s = Inr s' \<Longrightarrow> ws_ID s' = ws_ID s"
  by (auto simp: open_secrets_def bindR_Inr_iff split: option.split_asm)

definition pairs :: "webhook_db \<Rightarrow> (id \<times> id) set" where
  "pairs db = (\<lambda>d. (wd_EventID d, wd_SubscriptionID d)) ` set (wh_deliveries db)"

lemma pairs_record [simp]: "pairs (snd (record_attempt now r i n db)) = pairs db"
  by (simp add: pairs_def record_attempt_def UpdateDeliveryAttempt_def finalize_def Let_def)

lemma ids_record [simp]: "wd_ID ` set (wh_deliveries (snd (record_attempt now r i n db))) = wd_ID ` set (wh_deliveries db)"
  by (simp add: record_attempt_def UpdateDeliveryAttempt_def finalize_def Let_def)

lemma dedup_record [simp]: "wh_dedup (snd (record_attempt now r i n db)) = wh_dedup db"
  by (simp add: record_attempt_def UpdateDeliveryAttempt_def Let_def)

lemma pairs_reserve:
  assumes "ReserveDeliveryAttempt i now e ty sub m body db = Inr (d, db1)"
  shows "pairs db1 = insert (e, ws_ID sub) (pairs db)" "wd_ID ` set (wh_deliveries db1) = insert i (wd_ID ` set (wh_deliveries db))"
    "wh_dedup db1 = wh_dedup db"
  using assms by (auto simp: pairs_def ReserveDeliveryAttempt_def Let_def split: if_split_asm)

lemma reserve_taken:
  assumes "ReserveDeliveryAttempt i now e ty sub m body db = Inl er" "i \<notin> wd_ID ` set (wh_deliveries db)"
  shows "(e, ws_ID sub) \<in> pairs db"
  using assms by (auto simp: pairs_def ReserveDeliveryAttempt_def Let_def list_ex_iff image_iff split: if_split_asm)

definition seen :: "(string \<Rightarrow> string) \<Rightarrow> time \<Rightarrow> id \<Rightarrow> id \<Rightarrow> webhook_db \<Rightarrow> bool" where
  "seen sha now e subID db = (case wh_dedup db (fingerprint sha e subID) of None \<Rightarrow> False | Some t \<Rightarrow> now < t)"

lemma deliver_loop_covers:
  assumes "deliver_loop sha up post ids now e m ty body n subs db = (res, db')" "inj ids" "\<forall>k \<ge> n. ids k \<notin> wd_ID ` set (wh_deliveries db)"
  shows "res = Inr () \<and> pairs db \<subseteq> pairs db' \<and> pairs db' \<subseteq> pairs db \<union> (\<lambda>s. (e, ws_ID s)) ` set subs
    \<and> (\<forall>x. seen sha now e x db \<longrightarrow> seen sha now e x db') \<and> (\<forall>s \<in> set subs. (e, ws_ID s) \<in> pairs db' \<or> seen sha now e (ws_ID s) db')"
  using assms
proof (induction subs arbitrary: n db)
  case (Cons sub rest)
  note [simp] = seen_def [symmetric]
  show ?case
  proof (cases "up \<and> seen sha now e (ws_ID sub) db")
    case True
    then have "deliver_loop sha up post ids now e m ty body n rest db = (res, db')" using Cons.prems(1) by simp
    from Cons.IH [OF this Cons.prems(2,3)] True show ?thesis by auto
  next
    case miss: False
    have later: "\<forall>k \<ge> Suc n. ids k \<notin> wd_ID ` set (wh_deliveries db)" using Cons.prems(3) by simp
    show ?thesis
    proof (cases "ReserveDeliveryAttempt (ids n) now e ty sub m body db")
      case (Inl er)
      have "deliver_loop sha up post ids now e m ty body (Suc n) rest db = (res, db')" using Cons.prems(1) miss Inl by auto
      from Cons.IH [OF this Cons.prems(2) later] reserve_taken [OF Inl] Cons.prems(3) show ?thesis by auto
    next
      case (Inr x)
      then obtain d db1 where res: "ReserveDeliveryAttempt (ids n) now e ty sub m body db = Inr (d, db1)" by (cases x) simp
      note P = pairs_reserve [OF res]
      let ?r = "post sub ty body"
      define db2 where "db2 = snd (record_attempt now ?r (ids n) 1 db1)"
      define db3 where "db3 = (if up \<and> dr_Succeeded ?r
          then db2\<lparr>wh_dedup := (wh_dedup db2)(fingerprint sha e (ws_ID sub) \<mapsto> now + secs (48 * 3600))\<rparr> else db2)"
      obtain r' where "fst (record_attempt now ?r (ids n) 1 db1) = Inr r'" using record_attempt_Inr reserve_row [OF res] by blast
      then have run: "deliver_loop sha up post ids now e m ty body (Suc n) rest db3 = (res, db')"
        using Cons.prems(1) miss res reserve_row [OF res] unfolding db3_def db2_def
        by (simp add: Let_def first_attempt cong: if_cong)
      have "wd_ID ` set (wh_deliveries db3) = insert (ids n) (wd_ID ` set (wh_deliveries db))" by (simp add: db3_def db2_def P)
      then have fresh: "\<forall>k \<ge> Suc n. ids k \<notin> wd_ID ` set (wh_deliveries db3)" using later Cons.prems(2) by (auto dest: injD)
      have rows: "pairs db3 = insert (e, ws_ID sub) (pairs db)" by (simp add: db3_def db2_def P pairs_def [of "_\<lparr>wh_dedup := _\<rparr>"]) (simp add: pairs_def [symmetric] P)
      have "seen sha now e x db \<Longrightarrow> seen sha now e x db3" for x
        by (auto simp: db3_def db2_def seen_def P secs_def simp del: seen_def [symmetric])
      with Cons.IH [OF run Cons.prems(2) fresh] rows show ?thesis by auto
    qed
  qed
qed auto

lemma open_all_Inr: "open_all sec subs = Inr xs \<Longrightarrow> map (\<lambda>s. (ws_ID s, ws_Events s)) xs = map (\<lambda>s. (ws_ID s, ws_Events s)) subs"
proof (induction subs arbitrary: xs)
  case (Cons s rest)
  then obtain s' xs' where x: "open_secrets sec s = Inr s'" "open_all sec rest = Inr xs'" "xs = s' # xs'" by (auto simp: bindR_Inr_iff)
  then have "ws_ID s' = ws_ID s" "ws_Events s' = ws_Events s"
    by (auto simp: open_secrets_def bindR_Inr_iff split: option.split_asm)
  with Cons.IH [OF x(2)] x(3) show ?case by simp
qed simp

definition wants :: "id \<Rightarrow> string \<Rightarrow> subscription \<Rightarrow> bool" where
  "wants m ty s \<longleftrightarrow> ws_MerchantID s = m \<and> ws_Status s = SubActive \<and> MatchesEvent s ty"

lemma FindActive_IDs:
  assumes "FindActiveSubscriptions sec m ty db = Inr subs"
  shows "ws_ID ` set subs = ws_ID ` {s \<in> set (wh_subs db). wants m ty s}"
proof -
  let ?act = "filter (\<lambda>s. ws_MerchantID s = m \<and> ws_Status s = SubActive) (wh_subs db)"
  obtain xs where xs: "open_all sec ?act = Inr xs" "subs = filter (\<lambda>s. MatchesEvent s ty) xs"
    using assms by (auto simp: FindActiveSubscriptions_def bindR_Inr_iff)
  have IDs: "map ws_ID (filter (\<lambda>s. MatchesEvent s ty) ys)
      = map fst (filter (\<lambda>x. list_ex (pattern_matches ty) (snd x)) (map (\<lambda>s. (ws_ID s, ws_Events s)) ys))" for ys
    by (simp add: filter_map o_def MatchesEvent_def)
  have "map ws_ID subs = map ws_ID (filter (\<lambda>s. MatchesEvent s ty) ?act)" unfolding xs(2) IDs open_all_Inr [OF xs(1)] ..
  then have "set (map ws_ID subs) = set (map ws_ID (filter (\<lambda>s. MatchesEvent s ty) ?act))" by (simp only:)
  then show ?thesis by (auto simp: wants_def)
qed

text \<open>
  An event reaches every subscription that wants it. When the delivery of an event answers, every
  active matching subscription of the merchant has a delivery row for it or is marked as served in the
  cache, no row was lost, and new rows are only for those subscriptions.
\<close>

theorem webhook_covers_subscribers:
  assumes "DeliverEvent sec sha up post ids now e m ty body db = (Inr (), db')" "inj ids"
    "\<forall>k. ids k \<notin> wd_ID ` set (wh_deliveries db)"
  shows "(\<forall>s \<in> set (wh_subs db). wants m ty s \<longrightarrow> (e, ws_ID s) \<in> pairs db' \<or> seen sha now e (ws_ID s) db')
    \<and> pairs db \<subseteq> pairs db' \<and> pairs db' - pairs db \<subseteq> (\<lambda>s. (e, ws_ID s)) ` {s \<in> set (wh_subs db). wants m ty s}"
proof -
  obtain subs where subs: "FindActiveSubscriptions sec m ty db = Inr subs"
    "deliver_loop sha up post ids now e m ty body 0 subs db = (Inr (), db')"
    using assms(1) by (auto simp: DeliverEvent_def split: sum.split_asm)
  note cov = deliver_loop_covers [OF subs(2) assms(2)]
  have same: "ws_ID ` set subs = ws_ID ` {s \<in> set (wh_subs db). wants m ty s}" by (rule FindActive_IDs [OF subs(1)])
  have "(\<lambda>s. (e, ws_ID s)) ` set subs = Pair e ` ws_ID ` set subs" by (simp add: image_image)
  also have "\<dots> = (\<lambda>s. (e, ws_ID s)) ` {s \<in> set (wh_subs db). wants m ty s}" by (simp only: same image_image)
  finally have new: "(\<lambda>s. (e, ws_ID s)) ` set subs = (\<lambda>s. (e, ws_ID s)) ` {s \<in> set (wh_subs db). wants m ty s}" .
  have "(e, ws_ID s) \<in> pairs db' \<or> seen sha now e (ws_ID s) db'" if "s \<in> set (wh_subs db)" "wants m ty s" for s
  proof -
    have "ws_ID s \<in> ws_ID ` set subs" using that by (auto simp: same)
    then obtain s' where "s' \<in> set subs" "ws_ID s' = ws_ID s" by auto
    then show ?thesis using cov assms(3) by metis
  qed
  then show ?thesis using cov assms(3) new by auto
qed

text \<open>Rounds of the retry worker at the times \<open>t 0, t 1, \<dots>\<close>.\<close>

fun retry_rounds :: "secrecy \<Rightarrow> (subscription \<Rightarrow> string \<Rightarrow> payload \<Rightarrow> delivery_result) \<Rightarrow> (nat \<Rightarrow> time) \<Rightarrow> nat \<Rightarrow> webhook_db \<Rightarrow> webhook_db" where
  "retry_rounds sec post t 0 db = db"
| "retry_rounds sec post t (Suc k) db = snd (RetryPendingDeliveries sec post [] (t k) 50 (retry_rounds sec post t k db))"

lemma RetryDelay_le: "RetryDelay n \<le> secs 7200"
proof (cases "n \<le> 0 \<or> n > int (length retry_delays)")
  case False
  then have "nat (n - 1) < length retry_delays" by linarith
  then have "retry_delays ! nat (n - 1) \<in> set retry_delays" by (rule nth_mem)
  moreover have "\<forall>d \<in> set retry_delays. d \<le> secs 7200" by (simp add: retry_delays_def secs_def)
  ultimately show ?thesis using False by (simp add: RetryDelay_def)
qed (simp add: RetryDelay_def)

lemma rfc3339_le: "rfc3339 x \<le> x"
  unfolding rfc3339_def using div_mult_mod_eq [of x 1000000] pos_mod_sign [of 1000000 x] by linarith

lemma lease_single:
  assumes "wh_deliveries db = [d]" "retry_due now d" "wd_ResponseCode d \<noteq> None"
  shows "LeasePendingRetries [] now 50 db = Inr ([d], db\<lparr>wh_deliveries := [d\<lparr>wd_Status := DeliveryPending\<rparr>]\<rparr>)"
proof -
  have "due_rows [] now 50 db = [d]" using assms(1,2) by (simp add: due_rows_def)
  then show ?thesis using assms(1,3) by (simp add: LeasePendingRetries_def scan_delivery_def)
qed

lemma retry_round_single:
  assumes n_def: "n = wd_AttemptNumber d + 1" and r_def: "r = post sub (wd_EventType d) (wd_RequestBody d)"
    and "wh_deliveries db = [d]" "retry_due now d" "wd_ResponseCode d \<noteq> None"
    "GetSubscription sec (wd_MerchantID d) (wd_SubscriptionID d) db = Inr sub"
  shows "snd (RetryPendingDeliveries sec post [] now 50 db)
    = db\<lparr>wh_deliveries := [finalize (retry_status r n) (dr_StatusCode r) (dr_ResponseBody r) (dr_Error r)
        (if retry_status r n = DeliveryFailed then Some (now + RetryDelay (n + 1)) else None) n (d\<lparr>wd_Status := DeliveryPending\<rparr>)]\<rparr>"
proof -
  have "GetSubscription sec (wd_MerchantID d) (wd_SubscriptionID d) (db\<lparr>wh_deliveries := rows\<rparr>) = Inr sub" for rows
    using assms(6) by (simp add: GetSubscription_def)
  moreover note lease_single [OF assms(3-5)]
  moreover have "retry_update now r d (db\<lparr>wh_deliveries := [x]\<rparr>) = (Inr y, db\<lparr>wh_deliveries := [y]\<rparr>)"
    if "wd_ID x = wd_ID d" "y = finalize (retry_status r n) (dr_StatusCode r) (dr_ResponseBody r) (dr_Error r)
        (if retry_status r n = DeliveryFailed then Some (now + RetryDelay (n + 1)) else None) n x" for x y
    using that unfolding n_def retry_update_def Let_def
    by (simp only: UpdateDeliveryAttempt_def Let_def) (simp add: GetDeliveryAttempt_def scan_delivery_def finalize_def)
  ultimately show ?thesis by (simp add: RetryPendingDeliveries_def r_def)
qed

text \<open>
  Retries come to an end. When an endpoint never accepts and the worker looks at its delivery every two
  hours, the delivery stays failed through 17 retries and is dead-lettered by the 18th, which is its 19th
  attempt; it is not sent again.
\<close>

theorem webhook_retries_exhaust:
  assumes "wh_deliveries db = [d]" "wd_Status d = DeliveryFailed" "wd_AttemptNumber d = 1" "wd_NextRetryAt d = Some t0" "t0 \<le> t 0"
    "wd_ResponseCode d \<noteq> None" "\<forall>k. t k + secs 7200 \<le> t (Suc k)"
    "GetSubscription sec (wd_MerchantID d) (wd_SubscriptionID d) db = Inr sub" "\<forall>b. \<not> dr_Succeeded (post sub (wd_EventType d) b)"
  shows "\<exists>d'. wh_deliveries (retry_rounds sec post t k db) = [d']
    \<and> wd_Status d' = (if k < 18 then DeliveryFailed else DeliveryDeadLettered) \<and> wd_AttemptNumber d' = 1 + min 18 (int k)"
proof -
  have "\<exists>d'. retry_rounds sec post t k db = db\<lparr>wh_deliveries := [d']\<rparr>
    \<and> wd_Status d' = (if k < 18 then DeliveryFailed else DeliveryDeadLettered) \<and> wd_AttemptNumber d' = 1 + min 18 (int k)
    \<and> wd_ResponseCode d' \<noteq> None \<and> wd_MerchantID d' = wd_MerchantID d \<and> wd_SubscriptionID d' = wd_SubscriptionID d
    \<and> wd_EventType d' = wd_EventType d \<and> (k < 18 \<longrightarrow> retry_due (t k) d')" (is "\<exists>d'. ?P k d'")
  proof (induction k)
    case 0
    have "db\<lparr>wh_deliveries := [d]\<rparr> = db" using assms(1) by simp
    then show ?case using assms(2-6) by (intro exI [of _ d]) (simp add: retry_due_def)
  next
    case (Suc k)
    then obtain d' where d': "?P k d'" by blast
    have sub: "GetSubscription sec (wd_MerchantID d') (wd_SubscriptionID d') (db\<lparr>wh_deliveries := [d']\<rparr>) = Inr sub"
      using assms(8) d' by (simp add: GetSubscription_def)
    show ?case
    proof (cases "k < 18")
      case True
      let ?r = "post sub (wd_EventType d') (wd_RequestBody d')" and ?n = "wd_AttemptNumber d' + 1"
      let ?d = "finalize (retry_status ?r ?n) (dr_StatusCode ?r) (dr_ResponseBody ?r) (dr_Error ?r)
        (if retry_status ?r ?n = DeliveryFailed then Some (t k + RetryDelay (?n + 1)) else None) ?n (d'\<lparr>wd_Status := DeliveryPending\<rparr>)"
      have n: "?n = int k + 2" using d' True by simp
      have status: "retry_status ?r ?n = (if Suc k < 18 then DeliveryFailed else DeliveryDeadLettered)"
        using assms(9) d' n True by (simp add: retry_status_def MaxDeliveryAttempts_def)
      have "rfc3339 (t k + RetryDelay (?n + 1)) \<le> t (Suc k)"
        using rfc3339_le [of "t k + RetryDelay (?n + 1)"] RetryDelay_le [of "?n + 1"] assms(7) [THEN spec, of k] by linarith
      then have "Suc k < 18 \<longrightarrow> retry_due (t (Suc k)) ?d" using status by (simp add: retry_due_def finalize_def)
      moreover have "retry_rounds sec post t (Suc k) db = db\<lparr>wh_deliveries := [?d]\<rparr>"
        using retry_round_single [OF refl refl _ _ _ sub, of "t k" post] d' True by simp
      moreover have "wd_Status ?d = (if Suc k < 18 then DeliveryFailed else DeliveryDeadLettered)"
        using status by (simp add: finalize_def)
      moreover have "wd_AttemptNumber ?d = 1 + min 18 (int (Suc k))" using n True by (simp add: finalize_def)
      moreover have "wd_ResponseCode ?d \<noteq> None" "wd_MerchantID ?d = wd_MerchantID d" "wd_SubscriptionID ?d = wd_SubscriptionID d"
        "wd_EventType ?d = wd_EventType d" using d' by (simp_all add: finalize_def)
      ultimately show ?thesis by blast
    next
      case False
      then have "due_rows [] (t k) 50 (db\<lparr>wh_deliveries := [d']\<rparr>) = []" using d' by (simp add: due_rows_def retry_due_def)
      then have "snd (RetryPendingDeliveries sec post [] (t k) 50 (db\<lparr>wh_deliveries := [d']\<rparr>)) = db\<lparr>wh_deliveries := [d']\<rparr>"
        by (simp add: RetryPendingDeliveries_def LeasePendingRetries_def)
      then show ?thesis using d' False by (intro exI [of _ d']) simp
    qed
  qed
  then show ?thesis by auto
qed

section \<open>Cancelling and signing\<close>

text \<open>
  A cancelled delivery can come back. When the retries of an event are cancelled while a worker has
  one of them in hand, the worker's failed attempt overwrites the cancellation, and the delivery is due
  for a retry again.
\<close>

theorem webhook_cancel_overridden:
  assumes "wh_deliveries db = [d]" "retry_due now d" "wd_ResponseCode d \<noteq> None" "wd_AttemptNumber d < 18" "\<not> dr_Succeeded r"
    "LeasePendingRetries [] now 50 db = Inr (ds, db1)" "CancelDeliveryRetries now (wd_MerchantID d) (wd_EventID d) reason db1 = (n, db2)"
    "retry_update now r d db2 = (res, db3)"
  shows "map wd_Status (wh_deliveries db2) = [DeliveryCancelled] \<and> map wd_Status (wh_deliveries db3) = [DeliveryFailed]
    \<and> list_all (\<lambda>x. wd_CancelledAt x \<noteq> None \<and> wd_NextRetryAt x \<noteq> None) (wh_deliveries db3)"
proof -
  have "db1 = db\<lparr>wh_deliveries := [d\<lparr>wd_Status := DeliveryPending\<rparr>]\<rparr>" using lease_single [OF assms(1-3)] assms(6) by simp
  then have "db2 = db\<lparr>wh_deliveries := [d\<lparr>wd_Status := DeliveryCancelled, wd_CancelReason := reason, wd_CancelledAt := Some now, wd_NextRetryAt := None\<rparr>]\<rparr>"
    using assms(7) by (auto simp: CancelDeliveryRetries_def cancellable_def)
  then show ?thesis
    using assms(4,5,8)
    by (auto simp: retry_update_def retry_status_def MaxDeliveryAttempts_def UpdateDeliveryAttempt_def finalize_def Let_def)
qed



text \<open>
  C32: What is delivered verifies. The headers of a delivery pass the verification of the receiver for the
  same body and secret: the HTTP message signature in the modes that send it, and the HMAC signature in
  the modes that send that one.
\<close>

theorem webhook_signature_roundtrip:
  "(mode = ModeHMAC \<or> VerifyHTTPMessageSignature dg secret ''POST'' path (delivery_headers dg path secret eventType payload ts mode) payload)
   \<and> (mode = ModeHTTPMessage \<or> VerifySignature dg secret payload (header ''X-PayGate-Signature'' (delivery_headers dg path secret eventType payload ts mode)))"
  by (cases mode) (simp_all add: VerifyHTTPMessageSignature_def VerifySignature_def delivery_headers_def header_def contentDigest_def
      structuredSignatureInput_def structuredSignature_def Let_def)

section \<open>On concrete data\<close>

definition sample_sub :: subscription where
  "sample_sub = \<lparr>ws_ID = ''w1'', ws_MerchantID = ''m1'', ws_URL = ''https://shop.example/hook'', ws_Events = [''payment.*''],
     ws_Secret = ''k'', ws_PreviousSecret = None, ws_PreviousSecretExpiresAt = None, ws_SignatureMode = ModeCompat,
     ws_Status = SubActive, ws_CreatedAt = 0\<rparr>"

definition sample_hooks :: webhook_db where
  "sample_hooks = \<lparr>wh_subs = [sample_sub], wh_deliveries = [], wh_dedup = (\<lambda>_. None)\<rparr>"

definition sample_result :: "bool \<Rightarrow> delivery_result" where
  "sample_result ok = \<lparr>dr_StatusCode = (if ok then 200 else 503), dr_ResponseBody = '''', dr_Error = '''', dr_Succeeded = ok\<rparr>"

definition sample_delivery :: delivery where
  "sample_delivery = \<lparr>wd_ID = ''d1'', wd_EventID = ''e1'', wd_EventType = ''payment.captured'', wd_SubscriptionID = ''w1'', wd_MerchantID = ''m1'',
     wd_Status = DeliveryFailed, wd_RequestURL = ''https://shop.example/hook'', wd_RequestBody = [], wd_ResponseCode = Some 503,
     wd_ResponseBody = '''', wd_ErrorMessage = '''', wd_CancelReason = '''', wd_AttemptNumber = 1, wd_NextRetryAt = Some 5000000,
     wd_CancelledAt = None, wd_CreatedAt = 0\<rparr>"

definition hook_ids :: "nat \<Rightarrow> id" where
  "hook_ids n = ''d'' @ replicate n CHR ''x''"

lemma hook_ids_inj: "inj hook_ids"
  by (auto simp: inj_def hook_ids_def replicate_eq_replicate)

lemma sample_delivered:
  obtains db' where "DeliverEvent (Inr, Inr) id False (\<lambda>_ _ _. sample_result True) hook_ids 0 ''e1'' ''m1'' ''payment.captured'' [] sample_hooks = (Inr (), db')"
    "map wd_Status (wh_deliveries db') = [DeliverySucceeded]"
proof -
  have "FindActiveSubscriptions (Inr, Inr) ''m1'' ''payment.captured'' sample_hooks = Inr [sample_sub]"
    by (simp add: FindActiveSubscriptions_def sample_hooks_def sample_sub_def open_secrets_def MatchesEvent_def pattern_matches_def)
  then show thesis
    using that by (simp add: DeliverEvent_def ReserveDeliveryAttempt_def UpdateDeliveryAttempt_def GetDeliveryAttempt_def scan_delivery_def
        finalize_def sample_hooks_def sample_sub_def sample_result_def first_status_def Let_def)
qed

theorem webhook_delivered_once_witness:
  "\<exists>s. webhook_step\<^sup>*\<^sup>* \<lparr>sy_db = sample_hooks, sy_flight = (\<lambda>_. None), sy_log = []\<rparr> s \<and> map wd_Status (wh_deliveries (sy_db s)) = [DeliverySucceeded]
     \<and> distinct (map (\<lambda>x. pair_of (sy_db s) (fst x)) (filter snd (sy_log s)))"
proof (rule sample_delivered)
  let ?s = "\<lparr>sy_db = sample_hooks, sy_flight = (\<lambda>_. None), sy_log = []\<rparr>"
  fix db' assume "DeliverEvent (Inr, Inr) id False (\<lambda>_ _ _. sample_result True) hook_ids 0 ''e1'' ''m1'' ''payment.captured'' [] sample_hooks = (Inr (), db')"
    and st: "map wd_Status (wh_deliveries db') = [DeliverySucceeded]"
  then obtain fl log where run: "webhook_step\<^sup>*\<^sup>* ?s (?s\<lparr>sy_db := db', sy_flight := fl, sy_log := log\<rparr>)"
    using DeliverEvent_run [where s = ?s] by fastforce
  have "webhook_blank ?s" by (simp add: webhook_blank_def sample_hooks_def)
  from webhook_delivered_once [OF run this] run st show ?thesis by auto
qed

theorem webhook_covers_subscribers_witness:
  "\<exists>db'. DeliverEvent (Inr, Inr) id False (\<lambda>_ _ _. sample_result True) hook_ids 0 ''e1'' ''m1'' ''payment.captured'' [] sample_hooks = (Inr (), db')
     \<and> ((''e1'', ''w1'') \<in> pairs db' \<or> seen id 0 ''e1'' ''w1'' db')"
proof (rule sample_delivered)
  fix db' assume run: "DeliverEvent (Inr, Inr) id False (\<lambda>_ _ _. sample_result True) hook_ids 0 ''e1'' ''m1'' ''payment.captured'' [] sample_hooks = (Inr (), db')"
  have "\<forall>k. hook_ids k \<notin> wd_ID ` set (wh_deliveries sample_hooks)" by (simp add: sample_hooks_def)
  from webhook_covers_subscribers [OF run hook_ids_inj this] have "wants ''m1'' ''payment.captured'' sample_sub
      \<longrightarrow> (''e1'', ws_ID sample_sub) \<in> pairs db' \<or> seen id 0 ''e1'' (ws_ID sample_sub) db'" by (simp add: sample_hooks_def)
  then show ?thesis using run by (simp add: wants_def sample_sub_def MatchesEvent_def pattern_matches_def)
qed

definition sample_failed :: webhook_db where
  "sample_failed = sample_hooks\<lparr>wh_deliveries := [sample_delivery]\<rparr>"

theorem webhook_retries_exhaust_witness:
  "\<exists>d'. wh_deliveries (retry_rounds (Inr, Inr) (\<lambda>_ _ _. sample_result False) (\<lambda>k. secs (7200 * (int k + 1))) 18 sample_failed) = [d']
     \<and> wd_Status d' = DeliveryDeadLettered \<and> wd_AttemptNumber d' = 19"
  using webhook_retries_exhaust [of sample_failed sample_delivery 5000000 "\<lambda>k. secs (7200 * (int k + 1))" "(Inr, Inr)" sample_sub "\<lambda>_ _ _. sample_result False" 18]
  by (simp add: sample_failed_def sample_hooks_def sample_delivery_def sample_sub_def sample_result_def secs_def GetSubscription_def sub_at_def open_secrets_def)

theorem webhook_cancel_overridden_witness:
  "\<exists>ds db1 n db2 res db3. LeasePendingRetries [] 5000000 50 sample_failed = Inr (ds, db1)
     \<and> CancelDeliveryRetries 5000000 ''m1'' ''e1'' ''wrong url'' db1 = (n, db2) \<and> retry_update 5000000 (sample_result False) sample_delivery db2 = (res, db3)
     \<and> map wd_Status (wh_deliveries db2) = [DeliveryCancelled] \<and> map wd_Status (wh_deliveries db3) = [DeliveryFailed]"
proof -
  have row: "wh_deliveries sample_failed = [sample_delivery]" "retry_due 5000000 sample_delivery" "wd_ResponseCode sample_delivery \<noteq> None"
    by (simp_all add: sample_failed_def sample_delivery_def retry_due_def)
  obtain db1 where lease: "LeasePendingRetries [] 5000000 50 sample_failed = Inr ([sample_delivery], db1)" using lease_single [OF row] by blast
  obtain n db2 where cancel: "CancelDeliveryRetries 5000000 ''m1'' ''e1'' ''wrong url'' db1 = (n, db2)" by (metis surj_pair)
  obtain res db3 where upd: "retry_update 5000000 (sample_result False) sample_delivery db2 = (res, db3)" by (metis surj_pair)
  have "wd_AttemptNumber sample_delivery < 18" "\<not> dr_Succeeded (sample_result False)" by (simp_all add: sample_delivery_def sample_result_def)
  moreover have "wd_MerchantID sample_delivery = ''m1''" "wd_EventID sample_delivery = ''e1''" by (simp_all add: sample_delivery_def)
  ultimately show ?thesis using webhook_cancel_overridden [OF row _ _ lease _ upd] lease cancel upd by auto
qed

end
