(* ===== verification/Saga.thy ===== *)
theory Saga
  imports Outbox
begin

text \<open>
  Sagas (\<open>internal/saga\<close>): instances with command steps, leases for the workers, dispatch records, the store of
  processed commands, retries with backoff, compensation, dead letters and operator actions. The handlers of
  commands and of compensation are parameters that act on a state of their own (for payouts, the database
  of \<open>Payout\<close>).
\<close>

section \<open>Domain\<close>

datatype saga_status = SagaPending | SagaRunning | SagaWaiting | SagaCompensating | SagaCompleted | SagaFailed | SagaAborted

datatype step_kind = StepCommand | StepWait | StepCompensation

datatype step_status = StepPending | StepInProgress | StepCompleted | StepFailed | StepCompensated | StepCancelled

datatype saga_error = ErrSagaNotFound | ErrSagaNotReplayable | ErrInvalidOverride | ErrSagaConstraint

record saga_instance =
  sg_ID :: id
  sg_MerchantID :: id
  sg_SagaType :: string
  sg_Status :: saga_status
  sg_CorrelationID :: id
  sg_CausationID :: id
  sg_InputPayload :: payload
  sg_ContextPayload :: payload
  sg_CurrentStepIndex :: nat
  sg_FailureCode :: string
  sg_FailureReason :: string
  sg_LeasedBy :: string
  sg_LastLeasedAt :: "time option"
  sg_ReplayCount :: nat
  sg_DeadlineAt :: "time option"
  sg_TimeoutAt :: "time option"
  sg_CompletedAt :: "time option"
  sg_CreatedAt :: time

record saga_step =
  sp_ID :: id
  sp_SagaID :: id
  sp_StepIndex :: nat
  sp_StepName :: string
  sp_StepKind :: step_kind
  sp_Status :: step_status
  sp_CommandName :: string
  sp_CommandID :: id
  sp_ReplyTopic :: string
  sp_InputPayload :: payload
  sp_OutputPayload :: payload
  sp_ErrorCode :: string
  sp_ErrorMessage :: string
  sp_NextRetryAt :: time
  sp_LeasedBy :: string
  sp_LeasedAt :: "time option"
  sp_CompletedAt :: "time option"
  sp_AttemptCount :: int
  sp_MaxAttempts :: int

record command =
  cm_SagaID :: id
  cm_StepID :: id
  cm_MerchantID :: id
  cm_CommandName :: string
  cm_CommandID :: id
  cm_CorrelationID :: id
  cm_CausationID :: id
  cm_ReplyTopic :: string
  cm_DispatchAttempt :: int
  cm_MaxAttempts :: int
  cm_RequestedAt :: time
  cm_InputPayload :: payload

datatype dead_letter_type = DLCommandFailed | DLTimeout | DLOverride | DLCompensationFailed

record dead_letter =
  dl_SagaID :: id
  dl_StepID :: id
  dl_MerchantID :: id
  dl_Type :: dead_letter_type
  dl_CommandName :: string
  dl_CommandID :: id
  dl_ErrorCode :: string
  dl_ErrorMessage :: string
  dl_CreatedAt :: time

datatype dispatch_status = Dispatched | Acked | Nacked

record dispatch =
  dp_SagaID :: id
  dp_StepID :: id
  dp_MerchantID :: id
  dp_CommandName :: string
  dp_CommandID :: id
  dp_DispatchAttempt :: int
  dp_Status :: dispatch_status
  dp_LeasedBy :: string
  dp_RetryBackoff :: time
  dp_ErrorCode :: string
  dp_ErrorMessage :: string
  dp_ErrorClassification :: string
  dp_InputPayload :: payload
  dp_OutputPayload :: payload

record operator_action =
  oa_SagaID :: id
  oa_MerchantID :: id
  oa_Action :: string
  oa_ActorType :: string
  oa_ActorID :: id
  oa_Reason :: string

record saga_db =
  sagas :: "saga_instance list"
  saga_steps :: "saga_step list"
  saga_dead_letters :: "dead_letter list"
  saga_actions :: "operator_action list"
  saga_dispatches :: "dispatch list"
  processed_commands :: "((string \<times> id) \<times> payload) list"

section \<open>Instances\<close>

definition saga_at :: "id \<Rightarrow> id \<Rightarrow> saga_instance \<Rightarrow> bool" where
  "saga_at merchantID sagaID i \<longleftrightarrow> sg_ID i = sagaID \<and> sg_MerchantID i = merchantID"

definition listSteps :: "id \<Rightarrow> saga_db \<Rightarrow> saga_step list" where
  "listSteps sagaID db = sort_key sp_StepIndex (filter (\<lambda>s. sp_SagaID s = sagaID) (saga_steps db))"

definition GetSaga :: "id \<Rightarrow> id \<Rightarrow> saga_db \<Rightarrow> saga_error + saga_instance \<times> saga_step list" where
  "GetSaga merchantID sagaID db =
     (case find (saga_at merchantID sagaID) (sagas db) of
        None \<Rightarrow> Inl ErrSagaNotFound | Some i \<Rightarrow> Inr (i, listSteps sagaID db))"

definition ListSagas :: "id \<Rightarrow> int \<Rightarrow> saga_db \<Rightarrow> (saga_instance \<times> saga_step list) list" where
  "ListSagas merchantID limit db =
     (let limit = (if limit \<le> 0 \<or> limit > 100 then 25 else limit) in
      map (\<lambda>i. (i, listSteps (sg_ID i) db))
        (take (nat limit) (sort_key (\<lambda>i. - sg_CreatedAt i) (filter (\<lambda>i. sg_MerchantID i = merchantID) (sagas db)))))"

definition set_saga :: "id \<Rightarrow> (saga_instance \<Rightarrow> saga_instance) \<Rightarrow> saga_db \<Rightarrow> saga_db" where
  "set_saga sagaID f db = db\<lparr>sagas := upd_where (\<lambda>i. sg_ID i = sagaID) f (sagas db)\<rparr>"

definition set_step :: "id \<Rightarrow> (saga_step \<Rightarrow> saga_step) \<Rightarrow> saga_db \<Rightarrow> saga_db" where
  "set_step stepID f db = db\<lparr>saga_steps := upd_where (\<lambda>s. sp_ID s = stepID) f (saga_steps db)\<rparr>"

record create_saga_input =
  cs_MerchantID :: id
  cs_SagaType :: string
  cs_CorrelationID :: id
  cs_CausationID :: id
  cs_InputPayload :: payload
  cs_ContextPayload :: payload
  cs_DeadlineAt :: "time option"
  cs_TimeoutAt :: "time option"
  cs_StepName :: string
  cs_StepKind :: step_kind
  cs_CommandName :: string
  cs_ReplyTopic :: string
  cs_StepPayload :: payload
  cs_MaxAttempts :: int

text \<open>\<open>ids\<close>: the identifiers of the instance, of its step and of the command.\<close>

definition CreateCommandSaga ::
  "id \<times> id \<times> id \<Rightarrow> time \<Rightarrow> create_saga_input \<Rightarrow> saga_db \<Rightarrow> saga_error + (saga_instance \<times> saga_step list) \<times> saga_db" where
  "CreateCommandSaga ids now inp db =
     (case ids of (sagaID, stepID, commandID) \<Rightarrow>
      let inst = \<lparr>sg_ID = sagaID, sg_MerchantID = cs_MerchantID inp, sg_SagaType = cs_SagaType inp, sg_Status = SagaRunning,
                  sg_CorrelationID = cs_CorrelationID inp, sg_CausationID = cs_CausationID inp, sg_InputPayload = cs_InputPayload inp,
                  sg_ContextPayload = cs_ContextPayload inp, sg_CurrentStepIndex = 0, sg_FailureCode = '''', sg_FailureReason = '''',
                  sg_LeasedBy = '''', sg_LastLeasedAt = None, sg_ReplayCount = 0, sg_DeadlineAt = cs_DeadlineAt inp,
                  sg_TimeoutAt = cs_TimeoutAt inp, sg_CompletedAt = None, sg_CreatedAt = now\<rparr>;
          step = \<lparr>sp_ID = stepID, sp_SagaID = sagaID, sp_StepIndex = 0, sp_StepName = cs_StepName inp, sp_StepKind = cs_StepKind inp,
                  sp_Status = StepPending, sp_CommandName = cs_CommandName inp, sp_CommandID = commandID, sp_ReplyTopic = cs_ReplyTopic inp,
                  sp_InputPayload = cs_StepPayload inp, sp_OutputPayload = [], sp_ErrorCode = '''', sp_ErrorMessage = '''',
                  sp_NextRetryAt = now, sp_LeasedBy = '''', sp_LeasedAt = None, sp_CompletedAt = None, sp_AttemptCount = 0,
                  sp_MaxAttempts = (if cs_MaxAttempts inp \<le> 0 then 1 else cs_MaxAttempts inp)\<rparr> in
      if sagaID \<in> sg_ID ` set (sagas db) \<or> stepID \<in> sp_ID ` set (saga_steps db) \<or> commandID \<in> sp_CommandID ` set (saga_steps db)
      then Inl ErrSagaConstraint
      else
        let db' = db\<lparr>sagas := sagas db @ [inst], saga_steps := saga_steps db @ [step]\<rparr> in
        bindR (GetSaga (cs_MerchantID inp) sagaID db') (\<lambda>r. Inr (r, db')))"

section \<open>Leases\<close>

text \<open>\<open>lock\<close>: the rows other transactions have locked; \<open>ttl\<close> in microseconds, whole seconds count.\<close>

definition lease_time :: "time \<Rightarrow> time" where
  "lease_time ttl = (let s = ttl div 1000000 in (if s \<le> 0 then 30 else s) * 1000000)"

definition saga_of :: "saga_step \<Rightarrow> saga_db \<Rightarrow> saga_instance option" where
  "saga_of s db = find (\<lambda>i. sg_ID i = sp_SagaID s) (sagas db)"

definition runnable :: "time \<Rightarrow> time \<Rightarrow> saga_db \<Rightarrow> saga_step \<Rightarrow> bool" where
  "runnable now ttl db s \<longleftrightarrow>
     sp_StepKind s = StepCommand
   \<and> (sp_Status s = StepPending \<and> sp_NextRetryAt s \<le> now
      \<or> sp_Status s = StepInProgress \<and> (case sp_LeasedAt s of None \<Rightarrow> False | Some t \<Rightarrow> t \<le> now - lease_time ttl))
   \<and> (case saga_of s db of None \<Rightarrow> False | Some i \<Rightarrow> sg_Status i = SagaPending \<or> sg_Status i = SagaRunning)"

definition candidates :: "id list \<Rightarrow> time \<Rightarrow> time \<Rightarrow> saga_db \<Rightarrow> saga_step list" where
  "candidates lock now ttl db =
     sort_key (\<lambda>s. case saga_of s db of None \<Rightarrow> 0 | Some i \<Rightarrow> sg_CreatedAt i)
       (sort_key sp_StepIndex (filter (\<lambda>s. runnable now ttl db s \<and> sp_ID s \<notin> set lock) (saga_steps db)))"

definition LeaseNextCommandStep :: "id list \<Rightarrow> string \<Rightarrow> time \<Rightarrow> time \<Rightarrow> saga_db \<Rightarrow> saga_step option \<times> saga_db" where
  "LeaseNextCommandStep lock owner now ttl db =
     (case candidates lock now ttl db of
        [] \<Rightarrow> (None, db)
      | s # _ \<Rightarrow>
          let s' = s\<lparr>sp_Status := StepInProgress, sp_LeasedBy := owner, sp_LeasedAt := Some now, sp_AttemptCount := sp_AttemptCount s + 1\<rparr> in
          (Some s', set_saga (sp_SagaID s) (\<lambda>i. i\<lparr>sg_LastLeasedAt := Some now, sg_LeasedBy := owner\<rparr>) (set_step (sp_ID s) (\<lambda>_. s') db)))"

definition timed_out :: "time \<Rightarrow> time \<Rightarrow> saga_instance \<Rightarrow> bool" where
  "timed_out now ttl i \<longleftrightarrow>
     (case sg_TimeoutAt i of None \<Rightarrow> False | Some t \<Rightarrow> t \<le> now)
   \<and> sg_Status i \<in> {SagaPending, SagaRunning, SagaWaiting, SagaCompensating}
   \<and> (case sg_LastLeasedAt i of None \<Rightarrow> True | Some t \<Rightarrow> t \<le> now - lease_time ttl)"

definition LeaseTimedOutSaga :: "id list \<Rightarrow> string \<Rightarrow> time \<Rightarrow> time \<Rightarrow> saga_db \<Rightarrow> saga_instance option \<times> saga_db" where
  "LeaseTimedOutSaga lock owner now ttl db =
     (case sort_key (\<lambda>i. the (sg_TimeoutAt i)) (sort_key sg_CreatedAt
             (filter (\<lambda>i. timed_out now ttl i \<and> sg_ID i \<notin> set lock) (sagas db))) of
        [] \<Rightarrow> (None, db)
      | i # _ \<Rightarrow>
          let f = (\<lambda>i. i\<lparr>sg_LeasedBy := owner, sg_LastLeasedAt := Some now\<rparr>) in
          (Some (f i), set_saga (sg_ID i) f db))"

section \<open>Outcomes of a step\<close>

definition step_with_saga :: "id \<Rightarrow> saga_db \<Rightarrow> saga_error + saga_step \<times> saga_instance" where
  "step_with_saga stepID db =
     (case find (\<lambda>s. sp_ID s = stepID) (saga_steps db) of
        None \<Rightarrow> Inl ErrSagaNotFound
      | Some s \<Rightarrow> (case saga_of s db of None \<Rightarrow> Inl ErrSagaNotFound | Some i \<Rightarrow> Inr (s, i)))"

definition unlease :: "saga_instance \<Rightarrow> saga_instance" where
  "unlease i = i\<lparr>sg_LeasedBy := '''', sg_LastLeasedAt := None\<rparr>"

definition incomplete :: "id \<Rightarrow> saga_db \<Rightarrow> bool" where
  "incomplete sagaID db = list_ex (\<lambda>s. sp_SagaID s = sagaID \<and> sp_Status s \<notin> {StepCompleted, StepCompensated, StepCancelled}) (saga_steps db)"

definition CompleteStep :: "time \<Rightarrow> id \<Rightarrow> payload \<Rightarrow> saga_db \<Rightarrow> saga_error + (saga_instance \<times> saga_step list) \<times> saga_db" where
  "CompleteStep now stepID out db =
     bindR (step_with_saga stepID db) (\<lambda>(s, i).
       let db' =
         (if sg_Status i = SagaAborted \<or> sg_Status i = SagaFailed
          then set_step stepID (\<lambda>s. s\<lparr>sp_Status := (if sp_Status s = StepCompleted then StepCompleted else StepCancelled),
                                      sp_LeasedBy := '''', sp_LeasedAt := None\<rparr>) db
          else
            let db1 = set_step stepID (\<lambda>s. s\<lparr>sp_Status := StepCompleted, sp_OutputPayload := out, sp_ErrorCode := '''', sp_ErrorMessage := '''',
                                              sp_CompletedAt := Some now\<rparr>) db in
            if incomplete (sg_ID i) db1
            then set_saga (sg_ID i) (\<lambda>i. (unlease i)\<lparr>sg_Status := SagaRunning\<rparr>) db1
            else set_saga (sg_ID i) (\<lambda>i. (unlease i)\<lparr>sg_Status := SagaCompleted, sg_CompletedAt := Some now, sg_FailureCode := '''', sg_FailureReason := ''''\<rparr>) db1) in
       bindR (GetSaga (sg_MerchantID i) (sg_ID i) db') (\<lambda>r. Inr (r, db')))"

definition FailStep ::
  "time \<Rightarrow> id \<Rightarrow> string \<Rightarrow> string \<Rightarrow> time \<Rightarrow> bool \<Rightarrow> saga_db \<Rightarrow> saga_error + (saga_instance \<times> saga_step list) \<times> saga_db" where
  "FailStep now stepID code message backoff terminal db =
     bindR (step_with_saga stepID db) (\<lambda>(s, i).
       let db' =
         (if terminal \<or> sp_AttemptCount s \<ge> sp_MaxAttempts s
          then set_saga (sg_ID i) (\<lambda>i. (unlease i)\<lparr>sg_Status := SagaFailed, sg_FailureCode := code, sg_FailureReason := message\<rparr>)
                 (set_step stepID (\<lambda>s. s\<lparr>sp_Status := StepFailed, sp_ErrorCode := code, sp_ErrorMessage := message,
                                          sp_LeasedBy := '''', sp_LeasedAt := None\<rparr>) db)
          else set_saga (sg_ID i) (\<lambda>i. (unlease i)\<lparr>sg_Status := SagaRunning\<rparr>)
                 (set_step stepID (\<lambda>s. s\<lparr>sp_Status := StepPending, sp_ErrorCode := code, sp_ErrorMessage := message,
                                          sp_NextRetryAt := now + backoff, sp_LeasedBy := '''', sp_LeasedAt := None\<rparr>) db)) in
       bindR (GetSaga (sg_MerchantID i) (sg_ID i) db') (\<lambda>r. Inr (r, db')))"

text \<open>The updates of the instance by merchant and identifier.\<close>

definition update_saga ::
  "id \<Rightarrow> id \<Rightarrow> (saga_instance \<Rightarrow> saga_instance) \<Rightarrow> saga_db \<Rightarrow> saga_error + saga_db" where
  "update_saga merchantID sagaID f db =
     (if list_ex (saga_at merchantID sagaID) (sagas db)
      then Inr (db\<lparr>sagas := upd_where (saga_at merchantID sagaID) f (sagas db)\<rparr>)
      else Inl ErrSagaNotFound)"

definition FailSaga :: "id \<Rightarrow> id \<Rightarrow> string \<Rightarrow> string \<Rightarrow> saga_db \<Rightarrow> saga_error + (saga_instance \<times> saga_step list) \<times> saga_db" where
  "FailSaga merchantID sagaID code reason db =
     bindR (update_saga merchantID sagaID (\<lambda>i. (unlease i)\<lparr>sg_Status := SagaFailed, sg_FailureCode := code, sg_FailureReason := reason\<rparr>) db) (\<lambda>db'.
     bindR (GetSaga merchantID sagaID db') (\<lambda>r. Inr (r, db')))"

definition MarkCompensating :: "id \<Rightarrow> id \<Rightarrow> string \<Rightarrow> string \<Rightarrow> saga_db \<Rightarrow> saga_error + (saga_instance \<times> saga_step list) \<times> saga_db" where
  "MarkCompensating merchantID sagaID code reason db =
     bindR (update_saga merchantID sagaID (\<lambda>i. (unlease i)\<lparr>sg_Status := SagaCompensating, sg_FailureCode := code, sg_FailureReason := reason\<rparr>) db) (\<lambda>db'.
     bindR (GetSaga merchantID sagaID db') (\<lambda>r. Inr (r, db')))"

definition close_steps :: "id \<Rightarrow> saga_db \<Rightarrow> saga_db" where
  "close_steps sagaID db =
     db\<lparr>saga_steps := upd_where (\<lambda>s. sp_SagaID s = sagaID)
          (\<lambda>s. s\<lparr>sp_Status := (if sp_Status s \<in> {StepCompleted, StepCompensated, StepCancelled, StepFailed} then sp_Status s else StepCancelled),
                  sp_LeasedBy := '''', sp_LeasedAt := None\<rparr>) (saga_steps db)\<rparr>"

definition fallbackString :: "string \<Rightarrow> string \<Rightarrow> string" where
  "fallbackString v fallback = (if v = '''' then fallback else v)"

definition RecordOperatorAction :: "id \<Rightarrow> id \<Rightarrow> string \<Rightarrow> string \<Rightarrow> id \<Rightarrow> string \<Rightarrow> saga_db \<Rightarrow> saga_db" where
  "RecordOperatorAction merchantID sagaID action actorType actorID reason db =
     db\<lparr>saga_actions := saga_actions db @ [\<lparr>oa_SagaID = sagaID, oa_MerchantID = merchantID, oa_Action = action,
          oa_ActorType = fallbackString actorType ''system'', oa_ActorID = actorID, oa_Reason = reason\<rparr>]\<rparr>"

definition Abort :: "time \<Rightarrow> id \<Rightarrow> id \<Rightarrow> string \<Rightarrow> id \<Rightarrow> string \<Rightarrow> saga_db \<Rightarrow> saga_error + (saga_instance \<times> saga_step list) \<times> saga_db" where
  "Abort now merchantID sagaID actorType actorID reason db =
     bindR (update_saga merchantID sagaID (\<lambda>i. (unlease i)\<lparr>sg_Status := SagaAborted, sg_CompletedAt := Some now\<rparr>) db) (\<lambda>db1.
       let db' = RecordOperatorAction merchantID sagaID ''abort'' actorType actorID reason (close_steps sagaID db1) in
       bindR (GetSaga merchantID sagaID db') (\<lambda>r. Inr (r, db')))"

definition ForceComplete :: "time \<Rightarrow> id \<Rightarrow> id \<Rightarrow> string \<Rightarrow> id \<Rightarrow> string \<Rightarrow> saga_db \<Rightarrow> saga_error + (saga_instance \<times> saga_step list) \<times> saga_db" where
  "ForceComplete now merchantID sagaID actorType actorID reason db =
     bindR (update_saga merchantID sagaID (\<lambda>i. (unlease i)\<lparr>sg_Status := SagaCompleted, sg_CompletedAt := Some now,
              sg_FailureCode := '''', sg_FailureReason := ''''\<rparr>) db) (\<lambda>db1.
       let db' = RecordOperatorAction merchantID sagaID ''force_complete'' actorType actorID reason (close_steps sagaID db1) in
       bindR (GetSaga merchantID sagaID db') (\<lambda>r. Inr (r, db')))"

definition ReplaySaga ::
  "id \<Rightarrow> time \<Rightarrow> id \<Rightarrow> id \<Rightarrow> bool \<Rightarrow> bool \<Rightarrow> string \<Rightarrow> id \<Rightarrow> string \<Rightarrow> saga_db \<Rightarrow> saga_error + (saga_instance \<times> saga_step list) \<times> saga_db" where
  "ReplaySaga commandID now merchantID sagaID force dryRun actorType actorID reason db =
     bindR (GetSaga merchantID sagaID db) (\<lambda>(cur, steps).
       if dryRun then Inr ((cur, steps), db)
       else if sg_Status cur \<noteq> SagaFailed \<and> \<not> force then Inl ErrSagaNotReplayable
       else
       case sort_key (\<lambda>s. - int (sp_StepIndex s)) (filter (\<lambda>s. sp_SagaID s = sagaID \<and> sp_Status s = StepFailed) (saga_steps db)) of
         [] \<Rightarrow> Inl ErrSagaNotReplayable
       | s # _ \<Rightarrow>
           if commandID \<in> sp_CommandID ` set (saga_steps db) then Inl ErrSagaConstraint
           else
           let db1 = db\<lparr>saga_dispatches := filter (\<lambda>d. dp_StepID d \<noteq> sp_ID s) (saga_dispatches db)\<rparr>;
               db2 = set_step (sp_ID s) (\<lambda>s. s\<lparr>sp_Status := StepPending, sp_CommandID := commandID, sp_OutputPayload := [], sp_ErrorCode := '''',
                       sp_ErrorMessage := '''', sp_NextRetryAt := now, sp_LeasedBy := '''', sp_LeasedAt := None, sp_CompletedAt := None,
                       sp_AttemptCount := 0\<rparr>) db1;
               db3 = db2\<lparr>sagas := upd_where (saga_at merchantID sagaID)
                       (\<lambda>i. (unlease i)\<lparr>sg_Status := SagaRunning, sg_ReplayCount := sg_ReplayCount i + 1, sg_FailureCode := '''',
                              sg_FailureReason := '''', sg_CompletedAt := None\<rparr>) (sagas db2)\<rparr>;
               db' = RecordOperatorAction merchantID sagaID ''replay'' actorType actorID reason db3 in
           bindR (GetSaga merchantID sagaID db') (\<lambda>r. Inr (r, db')))"

section \<open>Dead letters, dispatches and processed commands\<close>

definition RecordDeadLetter :: "dead_letter \<Rightarrow> saga_db \<Rightarrow> saga_db" where
  "RecordDeadLetter d db = db\<lparr>saga_dead_letters := saga_dead_letters db @ [d]\<rparr>"

definition RecordDispatch :: "string \<Rightarrow> id \<Rightarrow> saga_step \<Rightarrow> saga_db \<Rightarrow> saga_error + saga_db" where
  "RecordDispatch owner merchantID s db =
     (if list_ex (\<lambda>d. dp_StepID d = sp_ID s \<and> dp_DispatchAttempt d = sp_AttemptCount s) (saga_dispatches db) then Inl ErrSagaConstraint
      else Inr (db\<lparr>saga_dispatches := saga_dispatches db @ [\<lparr>dp_SagaID = sp_SagaID s, dp_StepID = sp_ID s, dp_MerchantID = merchantID,
             dp_CommandName = sp_CommandName s, dp_CommandID = sp_CommandID s, dp_DispatchAttempt = sp_AttemptCount s, dp_Status = Dispatched,
             dp_LeasedBy = owner, dp_RetryBackoff = 0, dp_ErrorCode = '''', dp_ErrorMessage = '''', dp_ErrorClassification = '''',
             dp_InputPayload = sp_InputPayload s, dp_OutputPayload = []\<rparr>]\<rparr>))"

definition open_dispatch :: "saga_step \<Rightarrow> dispatch \<Rightarrow> bool" where
  "open_dispatch s d \<longleftrightarrow> dp_StepID d = sp_ID s \<and> dp_CommandID d = sp_CommandID s \<and> dp_Status d = Dispatched"

definition AckDispatch :: "saga_step \<Rightarrow> payload \<Rightarrow> saga_db \<Rightarrow> saga_db" where
  "AckDispatch s out db =
     db\<lparr>saga_dispatches := upd_where (open_dispatch s) (\<lambda>d. d\<lparr>dp_Status := Acked, dp_OutputPayload := out\<rparr>) (saga_dispatches db)\<rparr>"

definition NackDispatch :: "saga_step \<Rightarrow> string \<Rightarrow> string \<Rightarrow> string \<Rightarrow> time \<Rightarrow> saga_db \<Rightarrow> saga_db" where
  "NackDispatch s code message classification backoff db =
     db\<lparr>saga_dispatches := upd_where (open_dispatch s)
          (\<lambda>d. d\<lparr>dp_Status := Nacked, dp_RetryBackoff := backoff, dp_ErrorCode := code, dp_ErrorMessage := message,
                  dp_ErrorClassification := classification\<rparr>) (saga_dispatches db)\<rparr>"

definition RecordProcessedCommand :: "string \<Rightarrow> id \<Rightarrow> payload \<Rightarrow> saga_db \<Rightarrow> (payload \<times> bool) \<times> saga_db" where
  "RecordProcessedCommand consumer commandID result db =
     (case map_of (processed_commands db) (consumer, commandID) of
        Some existing \<Rightarrow> ((existing, False), db)
      | None \<Rightarrow> ((result, True), db\<lparr>processed_commands := processed_commands db @ [((consumer, commandID), result)]\<rparr>))"

section \<open>Service\<close>

text \<open>
  A service operation is a sequence of transactions and calls of handlers; what an earlier transaction
  committed stays when a later one fails. The state is the database and the world \<open>'w\<close> the handlers act on.
  Handlers answer an error text or an output, compensation handlers an error text or nothing.
\<close>

type_synonym ('w, 'a) saga_op = "saga_db \<times> 'w \<Rightarrow> (saga_error + 'a) \<times> saga_db \<times> 'w"

type_synonym 'w command_handler = "command \<Rightarrow> 'w \<Rightarrow> (string + payload) \<times> 'w"

type_synonym 'w compensation_handler = "saga_instance \<times> saga_step list \<Rightarrow> 'w \<Rightarrow> string option \<times> 'w"

definition ret :: "'a \<Rightarrow> ('w, 'a) saga_op" where
  "ret a s = (Inr a, s)"

definition bindS :: "('w, 'a) saga_op \<Rightarrow> ('a \<Rightarrow> ('w, 'b) saga_op) \<Rightarrow> ('w, 'b) saga_op" where
  "bindS m f s = (case m s of (Inl e, s') \<Rightarrow> (Inl e, s') | (Inr a, s') \<Rightarrow> f a s')"

definition tx :: "(saga_db \<Rightarrow> saga_error + 'a \<times> saga_db) \<Rightarrow> ('w, 'a) saga_op" where
  "tx m s = (case m (fst s) of Inl e \<Rightarrow> (Inl e, s) | Inr (a, db) \<Rightarrow> (Inr a, db, snd s))"

definition query :: "(saga_db \<Rightarrow> saga_error + 'a) \<Rightarrow> ('w, 'a) saga_op" where
  "query m s = (m (fst s), s)"

definition exec :: "(saga_db \<Rightarrow> saga_db) \<Rightarrow> ('w, unit) saga_op" where
  "exec f s = (Inr (), f (fst s), snd s)"

definition call :: "('w \<Rightarrow> 'a \<times> 'w) \<Rightarrow> ('w, 'a) saga_op" where
  "call h s = (case h (snd s) of (a, w) \<Rightarrow> (Inr a, fst s, w))"

definition leaseTTL :: time where
  "leaseTTL = 30 * 1000000"

definition retryBackoff :: "int \<Rightarrow> time" where
  "retryBackoff attempt = (if attempt \<le> 0 then 1000000 else 2 ^ nat (min (attempt - 1) 5) * 1000000)"

definition dead_letter_of :: "saga_instance \<Rightarrow> saga_step option \<Rightarrow> dead_letter_type \<Rightarrow> string \<Rightarrow> string \<Rightarrow> time \<Rightarrow> dead_letter" where
  "dead_letter_of i step type code message now =
     \<lparr>dl_SagaID = sg_ID i, dl_StepID = (case step of None \<Rightarrow> '''' | Some s \<Rightarrow> sp_ID s), dl_MerchantID = sg_MerchantID i, dl_Type = type,
      dl_CommandName = (case step of None \<Rightarrow> '''' | Some s \<Rightarrow> sp_CommandName s),
      dl_CommandID = (case step of None \<Rightarrow> '''' | Some s \<Rightarrow> sp_CommandID s), dl_ErrorCode = code, dl_ErrorMessage = message, dl_CreatedAt = now\<rparr>"

definition abortWithCompensation ::
  "(string \<Rightarrow> 'w compensation_handler option) \<Rightarrow> time \<Rightarrow> saga_instance \<Rightarrow> string \<Rightarrow> string \<Rightarrow> ('w, saga_instance \<times> saga_step list) saga_op" where
  "abortWithCompensation comps now current code reason =
     (let m = sg_MerchantID current; i = sg_ID current in
      case comps (sg_SagaType current) of
        None \<Rightarrow> tx (Abort now m i ''system'' '''' reason)
      | Some handler \<Rightarrow>
          bindS (tx (MarkCompensating m i code reason)) (\<lambda>_.
          bindS (query (GetSaga m i)) (\<lambda>updated.
          bindS (call (handler updated)) (\<lambda>outcome.
            case outcome of
              Some err \<Rightarrow>
                bindS (exec (RecordDeadLetter (dead_letter_of current None DLCompensationFailed ''COMPENSATION_FAILED'' err now))) (\<lambda>_.
                  tx (FailSaga m i ''COMPENSATION_FAILED'' err))
            | None \<Rightarrow> tx (Abort now m i ''system'' '''' reason)))))"

definition handleTerminalFailure ::
  "(string \<Rightarrow> 'w compensation_handler option) \<Rightarrow> time \<Rightarrow> saga_instance \<Rightarrow> saga_step \<Rightarrow> string \<Rightarrow> string \<Rightarrow> ('w, unit) saga_op" where
  "handleTerminalFailure comps now current step code message =
     bindS (exec (RecordDeadLetter (dead_letter_of current (Some step) DLCommandFailed code message now))) (\<lambda>_.
     bindS (abortWithCompensation comps now current code message) (\<lambda>_. ret ()))"

datatype override_action = OverrideActionAbort | OverrideActionForceComplete | OtherAction string

definition Override ::
  "(string \<Rightarrow> 'w compensation_handler option) \<Rightarrow> time \<Rightarrow> id \<Rightarrow> id \<Rightarrow> override_action \<Rightarrow> string \<Rightarrow> id \<Rightarrow> string
     \<Rightarrow> ('w, saga_instance \<times> saga_step list) saga_op" where
  "Override comps now merchantID sagaID action actorType actorID reason =
     bindS (query (GetSaga merchantID sagaID)) (\<lambda>(current, _).
       case action of
         OverrideActionAbort \<Rightarrow>
           bindS (exec (RecordDeadLetter (dead_letter_of current None DLOverride ''OPERATOR_ABORT'' reason now))) (\<lambda>_.
             abortWithCompensation comps now current ''OPERATOR_ABORT'' reason)
       | OverrideActionForceComplete \<Rightarrow> tx (ForceComplete now merchantID sagaID actorType actorID reason)
       | OtherAction _ \<Rightarrow> (\<lambda>s. (Inl ErrInvalidOverride, s)))"

definition timeout_text :: string where
  "timeout_text = ''saga timed out before reaching a terminal state''"

definition ProcessNextTimeout ::
  "(string \<Rightarrow> 'w compensation_handler option) \<Rightarrow> id list \<Rightarrow> string \<Rightarrow> time \<Rightarrow> ('w, bool) saga_op" where
  "ProcessNextTimeout comps lock owner now =
     bindS (tx (\<lambda>db. Inr (LeaseTimedOutSaga lock owner now leaseTTL db))) (\<lambda>leased.
       case leased of
         None \<Rightarrow> ret False
       | Some i \<Rightarrow>
           bindS (exec (RecordDeadLetter (dead_letter_of i None DLTimeout ''SAGA_TIMEOUT'' timeout_text now))) (\<lambda>_.
           bindS (abortWithCompensation comps now i ''SAGA_TIMEOUT'' timeout_text) (\<lambda>_. ret True)))"

text \<open>
  A run of a worker: it claims a step (lease and dispatch record, with the merchant of the saga), then calls the
  handler and reports the outcome. \<open>claim_command\<close> and \<open>perform\<close> are the parts another worker can come between.
\<close>

definition claim_command :: "id list \<Rightarrow> string \<Rightarrow> time \<Rightarrow> ('w, (saga_step \<times> id) option) saga_op" where
  "claim_command lock owner now =
     bindS (tx (\<lambda>db. Inr (LeaseNextCommandStep lock owner now leaseTTL db))) (\<lambda>leased.
       case leased of
         None \<Rightarrow> ret None
       | Some step \<Rightarrow>
           bindS (query (step_with_saga (sp_ID step))) (\<lambda>(_, i).
           bindS (tx (\<lambda>db. bindR (RecordDispatch owner (sg_MerchantID i) step db) (\<lambda>db'. Inr ((), db')))) (\<lambda>_.
             ret (Some (step, sg_MerchantID i)))))"

definition no_handler_text :: "saga_step \<Rightarrow> string" where
  "no_handler_text step = ''no command handler registered for '' @ sp_CommandName step"

definition command_of :: "time \<Rightarrow> saga_instance \<Rightarrow> id \<Rightarrow> saga_step \<Rightarrow> command" where
  "command_of now i merchantID step =
     \<lparr>cm_SagaID = sp_SagaID step, cm_StepID = sp_ID step, cm_MerchantID = merchantID, cm_CommandName = sp_CommandName step,
      cm_CommandID = sp_CommandID step, cm_CorrelationID = sg_CorrelationID i, cm_CausationID = sg_CausationID i,
      cm_ReplyTopic = sp_ReplyTopic step, cm_DispatchAttempt = sp_AttemptCount step, cm_MaxAttempts = sp_MaxAttempts step,
      cm_RequestedAt = now, cm_InputPayload = sp_InputPayload step\<rparr>"

definition report_failure ::
  "(string \<Rightarrow> 'w compensation_handler option) \<Rightarrow> time \<Rightarrow> saga_step \<Rightarrow> string \<Rightarrow> ('w, unit) saga_op" where
  "report_failure comps now step err =
     (let terminal = (sp_AttemptCount step \<ge> sp_MaxAttempts step) in
      bindS (exec (NackDispatch step ''COMMAND_FAILED'' err (if terminal then ''poison'' else ''transient'') (retryBackoff (sp_AttemptCount step)))) (\<lambda>_.
      bindS (tx (FailStep now (sp_ID step) ''COMMAND_FAILED'' err (retryBackoff (sp_AttemptCount step)) terminal)) (\<lambda>(i, _).
        if terminal then handleTerminalFailure comps now i step ''COMMAND_FAILED'' err else ret ())))"

definition report_success :: "time \<Rightarrow> saga_step \<Rightarrow> payload \<Rightarrow> ('w, unit) saga_op" where
  "report_success now step result =
     bindS (tx (\<lambda>db. Inr (RecordProcessedCommand (sp_CommandName step) (sp_CommandID step) result db))) (\<lambda>(deduped, _).
     bindS (exec (AckDispatch step deduped)) (\<lambda>_.
     bindS (tx (CompleteStep now (sp_ID step) deduped)) (\<lambda>_. ret ())))"

definition perform ::
  "(string \<Rightarrow> 'w command_handler option) \<Rightarrow> (string \<Rightarrow> 'w compensation_handler option) \<Rightarrow> time \<Rightarrow> saga_step \<times> id \<Rightarrow> ('w, unit) saga_op" where
  "perform handlers comps now claimed =
     (case claimed of (step, merchantID) \<Rightarrow>
      case handlers (sp_CommandName step) of
        None \<Rightarrow>
          bindS (exec (NackDispatch step ''NO_HANDLER'' (no_handler_text step) ''configuration'' 0)) (\<lambda>_.
          bindS (tx (FailStep now (sp_ID step) ''NO_HANDLER'' (no_handler_text step) 0 True)) (\<lambda>(i, _).
            handleTerminalFailure comps now i step ''NO_HANDLER'' (no_handler_text step)))
      | Some handler \<Rightarrow>
          bindS (query (GetSaga merchantID (sp_SagaID step))) (\<lambda>(i, _).
          bindS (call (handler (command_of now i merchantID step))) (\<lambda>outcome.
            case outcome of Inl err \<Rightarrow> report_failure comps now step err | Inr result \<Rightarrow> report_success now step result)))"

definition RunNext ::
  "(string \<Rightarrow> 'w command_handler option) \<Rightarrow> (string \<Rightarrow> 'w compensation_handler option) \<Rightarrow> id list \<Rightarrow> string \<Rightarrow> time \<Rightarrow> ('w, bool) saga_op" where
  "RunNext handlers comps lock owner now =
     bindS (claim_command lock owner now) (\<lambda>claimed.
       case claimed of None \<Rightarrow> ret False | Some c \<Rightarrow> bindS (perform handlers comps now c) (\<lambda>_. ret True))"

text \<open>The loop of the worker; \<open>clock\<close> and \<open>locks\<close> are read in every round, and the fuel bounds the rounds.\<close>

fun drain ::
  "(string \<Rightarrow> 'w command_handler option) \<Rightarrow> (string \<Rightarrow> 'w compensation_handler option) \<Rightarrow> (nat \<Rightarrow> time) \<Rightarrow> (nat \<Rightarrow> id list) \<Rightarrow> string
     \<Rightarrow> nat \<Rightarrow> nat \<Rightarrow> saga_db \<times> 'w \<Rightarrow> ((saga_error + unit) \<times> saga_db \<times> 'w) option" where
  "drain handlers comps clock locks owner round 0 s = None"
| "drain handlers comps clock locks owner round (Suc fuel) s =
     (case ProcessNextTimeout comps (locks round) owner (clock round) s of
        (Inl e, s') \<Rightarrow> Some (Inl e, s')
      | (Inr True, s') \<Rightarrow> drain handlers comps clock locks owner (Suc round) fuel s'
      | (Inr False, s') \<Rightarrow>
          (case RunNext handlers comps (locks round) owner (clock round) s' of
             (Inl e, s'') \<Rightarrow> Some (Inl e, s'')
           | (Inr True, s'') \<Rightarrow> drain handlers comps clock locks owner (Suc round) fuel s''
           | (Inr False, s'') \<Rightarrow> Some (Inr (), s'')))"

end
