(* ===== verification/SagaFlow.thy ===== *)
theory SagaFlow
  imports Saga
begin

text \<open>
  What the worker of \<open>Saga\<close> achieves: its loop returns for every handler, a command that keeps failing is compensated
  once after its last attempt, and where a slow worker and the lease of a second one get into conflict.
\<close>

section \<open>Work left in the database\<close>

definition step_weight :: "saga_step \<Rightarrow> nat" where
  "step_weight s = (if sp_Status s \<in> {StepPending, StepInProgress} then nat (sp_MaxAttempts s - sp_AttemptCount s) + 1 else 0)"

definition open_saga :: "saga_instance \<Rightarrow> bool" where
  "open_saga i \<longleftrightarrow> sg_Status i \<in> {SagaPending, SagaRunning, SagaWaiting, SagaCompensating}"

definition saga_weight :: "saga_instance \<Rightarrow> nat" where
  "saga_weight i = (if open_saga i then 1 else 0)"

definition saga_work :: "saga_db \<Rightarrow> nat" where
  "saga_work db = (\<Sum>s\<leftarrow>saga_steps db. step_weight s) + (\<Sum>i\<leftarrow>sagas db. saga_weight i)"

definition saga_wf :: "saga_db \<Rightarrow> bool" where
  "saga_wf db \<longleftrightarrow> unique_key sp_ID (saga_steps db) \<and> unique_key sg_ID (sagas db)"

lemma weight_upd_where_le:
  assumes "\<And>r. r \<in> set t \<Longrightarrow> p r \<Longrightarrow> (h (f r) :: nat) \<le> h r"
  shows "(\<Sum>r\<leftarrow>upd_where p f t. h r) \<le> (\<Sum>r\<leftarrow>t. h r)"
  using assms by (induction t) (auto simp: upd_where_def intro!: add_mono)

lemma weight_upd_where_less:
  assumes "\<And>r. r \<in> set t \<Longrightarrow> p r \<Longrightarrow> (h (f r) :: nat) \<le> h r" and "x \<in> set t" "p x" "h (f x) < h x"
  shows "(\<Sum>r\<leftarrow>upd_where p f t. h r) < (\<Sum>r\<leftarrow>t. h r)"
  using assms
proof (induction t)
  case (Cons a t)
  have le: "(\<Sum>r\<leftarrow>upd_where p f t. h r) \<le> (\<Sum>r\<leftarrow>t. h r)"
    by (rule weight_upd_where_le) (use Cons.prems in auto)
  show ?case
  proof (cases "x = a")
    case True
    then show ?thesis using le Cons.prems by (simp add: upd_where_def add_less_le_mono)
  next
    case False
    then have "(\<Sum>r\<leftarrow>upd_where p f t. h r) < (\<Sum>r\<leftarrow>t. h r)" using Cons by auto
    moreover have "h (if p a then f a else a) \<le> h a" using Cons.prems by simp
    ultimately show ?thesis by (simp add: upd_where_def add_le_less_mono)
  qed
qed simp

lemma upd_where_twice:
  "(\<And>r. p r \<Longrightarrow> p (f r)) \<Longrightarrow> upd_where p g (upd_where p f t) = upd_where p (g \<circ> f) t"
  by (induction t) auto

section \<open>Sequences of transactions\<close>

lemma bindS_Inr_iff: "bindS m f s = (Inr b, s') \<longleftrightarrow> (\<exists>a s1. m s = (Inr a, s1) \<and> f a s1 = (Inr b, s'))"
  by (auto simp: bindS_def split: prod.splits sum.splits)

lemma ret_Inr_iff: "ret a s = (Inr b, s') \<longleftrightarrow> b = a \<and> s' = s"
  by (auto simp: ret_def)

lemma tx_Inr_iff: "tx m s = (Inr a, s') \<longleftrightarrow> (\<exists>db. m (fst s) = Inr (a, db) \<and> s' = (db, snd s))"
  by (auto simp: tx_def split: sum.splits)

lemma query_Inr_iff: "query m s = (Inr a, s') \<longleftrightarrow> m (fst s) = Inr a \<and> s' = s"
  by (auto simp: query_def)

lemma exec_Inr_iff: "exec f s = (Inr a, s') \<longleftrightarrow> s' = (f (fst s), snd s)"
  by (auto simp: exec_def)

lemma call_Inr_iff: "call h s = (Inr a, s') \<longleftrightarrow> (\<exists>w. h (snd s) = (a, w) \<and> s' = (fst s, w))"
  by (auto simp: call_def split: prod.splits)

lemmas saga_run_simps = bindS_Inr_iff ret_Inr_iff tx_Inr_iff query_Inr_iff exec_Inr_iff call_Inr_iff

section \<open>The end of a saga\<close>

definition closes :: "id \<Rightarrow> id \<Rightarrow> saga_db \<Rightarrow> saga_db \<Rightarrow> bool" where
  "closes m sid db db' \<longleftrightarrow>
     (\<exists>g. (\<forall>i. sg_ID (g i) = sg_ID i \<and> sg_MerchantID (g i) = sg_MerchantID i \<and> \<not> open_saga (g i))
        \<and> sagas db' = upd_where (saga_at m sid) g (sagas db))
   \<and> (saga_steps db' = saga_steps db \<or> saga_steps db' = saga_steps (close_steps sid db))"

lemma closes_wf: assumes "closes m sid db db'" "saga_wf db" shows "saga_wf db'"
proof -
  have "unique_key sp_ID (saga_steps db')" "unique_key sg_ID (sagas db')"
    using assms by (auto simp: closes_def saga_wf_def close_steps_def)
  then show ?thesis by (simp add: saga_wf_def)
qed

lemma close_steps_weight: "(\<Sum>s\<leftarrow>saga_steps (close_steps sid db). step_weight s) \<le> (\<Sum>s\<leftarrow>saga_steps db. step_weight s)"
  unfolding close_steps_def by (simp, rule weight_upd_where_le) (simp add: step_weight_def)

lemma closes_work:
  assumes "closes m sid db db'" shows "saga_work db' \<le> saga_work db"
proof -
  obtain g where g: "\<And>i. \<not> open_saga (g i)" "sagas db' = upd_where (saga_at m sid) g (sagas db)"
    using assms by (auto simp: closes_def)
  have "(\<Sum>i\<leftarrow>sagas db'. saga_weight i) \<le> (\<Sum>i\<leftarrow>sagas db. saga_weight i)"
    unfolding g(2) by (rule weight_upd_where_le) (simp add: saga_weight_def g)
  moreover have "(\<Sum>s\<leftarrow>saga_steps db'. step_weight s) \<le> (\<Sum>s\<leftarrow>saga_steps db. step_weight s)"
    using assms close_steps_weight [of sid db] by (auto simp: closes_def)
  ultimately show ?thesis by (simp add: saga_work_def)
qed

lemma closes_work_less:
  assumes "closes m sid db db'" "i \<in> set (sagas db)" "saga_at m sid i" "open_saga i" shows "saga_work db' < saga_work db"
proof -
  obtain g where g: "\<And>i. \<not> open_saga (g i)" "sagas db' = upd_where (saga_at m sid) g (sagas db)"
    using assms by (auto simp: closes_def)
  have "(\<Sum>i\<leftarrow>sagas db'. saga_weight i) < (\<Sum>i\<leftarrow>sagas db. saga_weight i)"
    unfolding g(2) by (rule weight_upd_where_less [of _ _ _ _ i]) (use assms in \<open>simp_all add: saga_weight_def g\<close>)
  moreover have "(\<Sum>s\<leftarrow>saga_steps db'. step_weight s) \<le> (\<Sum>s\<leftarrow>saga_steps db. step_weight s)"
    using assms close_steps_weight [of sid db] by (auto simp: closes_def)
  ultimately show ?thesis by (simp add: saga_work_def)
qed

lemma closesI:
  assumes "sagas db' = upd_where (saga_at m sid) (g \<circ> f) (sagas db)" "saga_steps db' = saga_steps db \<or> saga_steps db' = saga_steps (close_steps sid db)"
    "\<And>i. sg_ID (f i) = sg_ID i \<and> sg_MerchantID (f i) = sg_MerchantID i"
    "\<And>i. sg_ID (g i) = sg_ID i \<and> sg_MerchantID (g i) = sg_MerchantID i \<and> \<not> open_saga (g i)"
  shows "closes m sid db db'"
  unfolding closes_def using assms by (intro conjI exI [of _ "g \<circ> f"]) auto

lemma Abort_Inr:
  assumes "Abort now m sid a b reason db = Inr (r, db')"
  shows "sagas db' = upd_where (saga_at m sid) (\<lambda>i. (unlease i)\<lparr>sg_Status := SagaAborted, sg_CompletedAt := Some now\<rparr>) (sagas db)"
    "saga_steps db' = saga_steps (close_steps sid db)"
  using assms by (auto simp: Abort_def update_saga_def bindR_Inr_iff RecordOperatorAction_def close_steps_def Let_def split: if_splits)

lemma MarkCompensating_Inr:
  assumes "MarkCompensating m sid code reason db = Inr (r, db')"
  shows "sagas db' = upd_where (saga_at m sid) (\<lambda>i. (unlease i)\<lparr>sg_Status := SagaCompensating, sg_FailureCode := code, sg_FailureReason := reason\<rparr>) (sagas db)"
    "saga_steps db' = saga_steps db"
  using assms by (auto simp: MarkCompensating_def update_saga_def bindR_Inr_iff split: if_splits)

lemma FailSaga_Inr:
  assumes "FailSaga m sid code reason db = Inr (r, db')"
  shows "sagas db' = upd_where (saga_at m sid) (\<lambda>i. (unlease i)\<lparr>sg_Status := SagaFailed, sg_FailureCode := code, sg_FailureReason := reason\<rparr>) (sagas db)"
    "saga_steps db' = saga_steps db"
  using assms by (auto simp: FailSaga_def update_saga_def bindR_Inr_iff split: if_splits)

lemma dead_letter_tables [simp]:
  "sagas (RecordDeadLetter d db) = sagas db" "saga_steps (RecordDeadLetter d db) = saga_steps db"
  by (simp_all add: RecordDeadLetter_def)

lemma closes_dead_letter [simp]: "closes m sid (RecordDeadLetter d db) db' = closes m sid db db'"
  by (simp add: closes_def close_steps_def)

lemma Abort_closes:
  assumes "Abort now m sid a b reason db = Inr (r, db')" shows "closes m sid db db'"
  by (rule closesI [where f = id and g = "\<lambda>i. (unlease i)\<lparr>sg_Status := SagaAborted, sg_CompletedAt := Some now\<rparr>"])
    (use Abort_Inr [OF assms] in \<open>simp_all add: unlease_def open_saga_def\<close>)

lemma compensated_closes:
  assumes mark: "MarkCompensating m sid code reason db = Inr (r1, db1)"
    and fin: "Abort now m sid a b reason' db1 = Inr (r2, db2) \<or> FailSaga m sid code' reason' (RecordDeadLetter d db1) = Inr (r2, db2)"
  shows "closes m sid db db2"
proof -
  define f where "f = (\<lambda>i. (unlease i)\<lparr>sg_Status := SagaCompensating, sg_FailureCode := code, sg_FailureReason := reason\<rparr>)"
  have m1: "sagas db1 = upd_where (saga_at m sid) f (sagas db)" "saga_steps db1 = saga_steps db"
    using MarkCompensating_Inr [OF mark] by (simp_all add: f_def)
  have keep: "sg_ID (f i) = sg_ID i \<and> sg_MerchantID (f i) = sg_MerchantID i" for i by (simp add: f_def unlease_def)
  have twice: "upd_where (saga_at m sid) g (sagas db1) = upd_where (saga_at m sid) (g \<circ> f) (sagas db)" for g
    unfolding m1(1) by (rule upd_where_twice) (simp add: saga_at_def keep)
  show ?thesis using fin
  proof
    assume "Abort now m sid a b reason' db1 = Inr (r2, db2)"
    note A = Abort_Inr [OF this]
    show ?thesis by (rule closesI [where f = f and g = "\<lambda>i. (unlease i)\<lparr>sg_Status := SagaAborted, sg_CompletedAt := Some now\<rparr>"])
        (use A(1) [unfolded twice] A(2) keep m1(2) in \<open>simp_all add: close_steps_def unlease_def open_saga_def\<close>)
  next
    assume "FailSaga m sid code' reason' (RecordDeadLetter d db1) = Inr (r2, db2)"
    note A = FailSaga_Inr [OF this]
    show ?thesis by (rule closesI [where f = f and g = "\<lambda>i. (unlease i)\<lparr>sg_Status := SagaFailed, sg_FailureCode := code', sg_FailureReason := reason'\<rparr>"])
        (use A(1) [unfolded dead_letter_tables twice] A(2) keep m1(2) in \<open>simp_all add: close_steps_def unlease_def open_saga_def\<close>)
  qed
qed

lemma abort_closes:
  assumes "abortWithCompensation comps now i code reason (db, w) = (Inr r, db', w')"
  shows "closes (sg_MerchantID i) (sg_ID i) db db'"
proof (cases "comps (sg_SagaType i)")
  case None
  then show ?thesis using assms by (auto simp: abortWithCompensation_def tx_Inr_iff intro: Abort_closes)
next
  case (Some h)
  from assms Some obtain r1 db1 o1 w1 where
    mark: "MarkCompensating (sg_MerchantID i) (sg_ID i) code reason db = Inr (r1, db1)" and
    fin: "(case o1 of Some err \<Rightarrow>
        bindS (exec (RecordDeadLetter (dead_letter_of i None DLCompensationFailed ''COMPENSATION_FAILED'' err now)))
          (\<lambda>_. tx (FailSaga (sg_MerchantID i) (sg_ID i) ''COMPENSATION_FAILED'' err))
      | None \<Rightarrow> tx (Abort now (sg_MerchantID i) (sg_ID i) ''system'' '''' reason)) (db1, w1) = (Inr r, db', w')"
    by (auto simp: abortWithCompensation_def Let_def saga_run_simps)
  show ?thesis
  proof (cases o1)
    case None
    with fin mark show ?thesis by (auto simp: saga_run_simps intro: compensated_closes)
  next
    case (Some err)
    with fin mark show ?thesis by (auto simp: saga_run_simps intro: compensated_closes)
  qed
qed

section \<open>A round of the worker\<close>

definition live_command :: "saga_step \<Rightarrow> saga_db \<Rightarrow> bool" where
  "live_command s db \<longleftrightarrow> saga_wf db \<and> s \<in> set (saga_steps db) \<and> sp_Status s \<in> {StepPending, StepInProgress}
     \<and> (case saga_of s db of None \<Rightarrow> False | Some i \<Rightarrow> sg_Status i \<in> {SagaPending, SagaRunning})"

lemma live_step: "live_command s db \<Longrightarrow> x \<in> set (saga_steps db) \<Longrightarrow> sp_ID x = sp_ID s \<Longrightarrow> x = s"
  unfolding live_command_def saga_wf_def by (blast intro: unique_key_inj)

lemma live_saga:
  assumes "live_command s db"
  obtains i where "saga_of s db = Some i" "i \<in> set (sagas db)" "sg_ID i = sp_SagaID s" "sg_Status i \<in> {SagaPending, SagaRunning}"
    "\<And>j. j \<in> set (sagas db) \<Longrightarrow> sg_ID j = sp_SagaID s \<Longrightarrow> j = i"
proof -
  obtain i where i: "saga_of s db = Some i" "sg_Status i \<in> {SagaPending, SagaRunning}"
    using assms by (auto simp: live_command_def split: option.splits)
  then have "i \<in> set (sagas db)" "sg_ID i = sp_SagaID s" by (auto simp: saga_of_def dest: find_SomeD)
  moreover have "unique_key sg_ID (sagas db)" using assms by (simp add: live_command_def saga_wf_def)
  ultimately show thesis using that i unique_key_inj by metis
qed

lemma live_step_with_saga:
  assumes "live_command s db" shows "\<exists>i. step_with_saga (sp_ID s) db = Inr (s, i) \<and> saga_of s db = Some i \<and> sg_Status i \<in> {SagaPending, SagaRunning} \<and> sg_ID i = sp_SagaID s"
proof -
  obtain i where i: "saga_of s db = Some i" "sg_Status i \<in> {SagaPending, SagaRunning}" "sg_ID i = sp_SagaID s"
    using assms by (rule live_saga)
  have "find (\<lambda>x. sp_ID x = sp_ID s) (saga_steps db) = Some s"
    by (rule find_unique_key [where key = sp_ID]) (use assms in \<open>simp_all add: live_command_def saga_wf_def\<close>)
  then show ?thesis using i by (simp add: step_with_saga_def)
qed

lemma outcome_work:
  assumes "live_command s db"
    and steps: "saga_steps db' = upd_where (\<lambda>x. sp_ID x = sp_ID s) f (saga_steps db)"
    and insts: "sagas db' = upd_where (\<lambda>i. sg_ID i = sp_SagaID s) g (sagas db)"
    and f: "sp_ID (f s) = sp_ID s" "step_weight (f s) \<le> step_weight s"
    and g: "\<And>i. sg_ID (g i) = sg_ID i"
  shows "saga_wf db' \<and> saga_work db' \<le> saga_work db \<and> (step_weight (f s) < step_weight s \<longrightarrow> saga_work db' < saga_work db)"
proof -
  have s: "x = s" if "x \<in> set (saga_steps db)" "sp_ID x = sp_ID s" for x using assms(1) that by (rule live_step)
  have mem: "s \<in> set (saga_steps db)" using assms(1) by (simp add: live_command_def)
  have "map sp_ID (saga_steps db') = map sp_ID (saga_steps db)" unfolding steps upd_where_def using s f by auto
  moreover have "unique_key sg_ID (sagas db')" using assms(1) unfolding insts by (simp add: g live_command_def saga_wf_def)
  ultimately have wf: "saga_wf db'" using assms(1) by (simp add: saga_wf_def live_command_def unique_key_def)
  have "open_saga i" if "i \<in> set (sagas db)" "sg_ID i = sp_SagaID s" for i
    using assms(1) that by (elim live_saga) (auto simp: open_saga_def)
  then have i: "(\<Sum>i\<leftarrow>sagas db'. saga_weight i) \<le> (\<Sum>i\<leftarrow>sagas db. saga_weight i)"
    unfolding insts by (intro weight_upd_where_le) (simp add: saga_weight_def)
  have le: "(\<Sum>s\<leftarrow>saga_steps db'. step_weight s) \<le> (\<Sum>s\<leftarrow>saga_steps db. step_weight s)"
    unfolding steps by (rule weight_upd_where_le) (use s f in auto)
  have all: "step_weight (f x) \<le> step_weight x" if "x \<in> set (saga_steps db)" "sp_ID x = sp_ID s" for x
    using s [OF that] f by simp
  have "(\<Sum>s\<leftarrow>saga_steps db'. step_weight s) < (\<Sum>s\<leftarrow>saga_steps db. step_weight s)" if "step_weight (f s) < step_weight s"
    unfolding steps by (rule weight_upd_where_less [OF all mem refl that])
  with wf i le show ?thesis by (auto simp: saga_work_def)
qed

lemma claim_Some:
  assumes "saga_wf db" and c: "claim_command lock owner now (db, w) = (Inr (Some (step, m)), db', w')"
  obtains s where "live_command s db" "step = s\<lparr>sp_Status := StepInProgress, sp_LeasedBy := owner, sp_LeasedAt := Some now, sp_AttemptCount := sp_AttemptCount s + 1\<rparr>"
    "saga_steps db' = upd_where (\<lambda>x. sp_ID x = sp_ID s) (\<lambda>_. step) (saga_steps db)"
    "sagas db' = upd_where (\<lambda>i. sg_ID i = sp_SagaID s) (\<lambda>i. i\<lparr>sg_LastLeasedAt := Some now, sg_LeasedBy := owner\<rparr>) (sagas db)" "w' = w"
proof (cases "candidates lock now leaseTTL db")
  case Nil
  then show thesis using c by (simp add: claim_command_def saga_run_simps LeaseNextCommandStep_def)
next
  case (Cons s rest)
  then have "s \<in> set (candidates lock now leaseTTL db)" by simp
  then have "s \<in> set (saga_steps db)" "runnable now leaseTTL db s" by (simp_all add: candidates_def)
  then have l: "live_command s db" using assms(1) by (auto simp: live_command_def runnable_def split: option.splits)
  from c Cons show thesis
    by (intro that [OF l]) (auto simp: claim_command_def saga_run_simps LeaseNextCommandStep_def Let_def set_saga_def set_step_def bindR_Inr_iff RecordDispatch_def split: if_splits)
qed

lemma saga_of_upd:
  assumes "\<And>i. sg_ID (g i) = sg_ID i" "sagas db' = upd_where (\<lambda>i. sg_ID i = sp_SagaID s) g (sagas db)"
  shows "saga_of s db' = map_option g (saga_of s db)"
  unfolding saga_of_def assms(2) by (rule find_upd_where) (simp add: assms(1))

lemma claim_live:
  assumes "saga_wf db" and c: "claim_command lock owner now (db, w) = (Inr (Some (step, m)), db', w')"
  shows "live_command step db' \<and> w' = w \<and> saga_work db' + (if sp_AttemptCount step \<le> sp_MaxAttempts step then 1 else 0) \<le> saga_work db"
  using assms
proof (rule claim_Some)
  fix s
  assume s: "live_command s db" and step: "step = s\<lparr>sp_Status := StepInProgress, sp_LeasedBy := owner, sp_LeasedAt := Some now, sp_AttemptCount := sp_AttemptCount s + 1\<rparr>"
    and steps: "saga_steps db' = upd_where (\<lambda>x. sp_ID x = sp_ID s) (\<lambda>_. step) (saga_steps db)"
    and insts: "sagas db' = upd_where (\<lambda>i. sg_ID i = sp_SagaID s) (\<lambda>i. i\<lparr>sg_LastLeasedAt := Some now, sg_LeasedBy := owner\<rparr>) (sagas db)"
    and w: "w' = w"
  have sw: "step_weight step \<le> step_weight s" "sp_AttemptCount step \<le> sp_MaxAttempts step \<Longrightarrow> step_weight step < step_weight s"
    using s step by (auto simp: step_weight_def live_command_def)
  note o = outcome_work [OF s steps insts]
  have "saga_wf db' \<and> saga_work db' \<le> saga_work db \<and> (step_weight step < step_weight s \<longrightarrow> saga_work db' < saga_work db)"
    by (rule o) (use sw step in auto)
  moreover have "saga_of step db' = map_option (\<lambda>i. i\<lparr>sg_LastLeasedAt := Some now, sg_LeasedBy := owner\<rparr>) (saga_of s db)"
    using saga_of_upd [OF _ insts] step by (simp add: saga_of_def)
  moreover have "step \<in> set (saga_steps db')" using s unfolding steps by (auto simp: set_upd_where live_command_def)
  ultimately show ?thesis using s step sw w by (auto simp: live_command_def split: option.splits)
qed

lemma FailStep_live:
  assumes s: "live_command s db" and r: "FailStep now (sp_ID s) code message backoff terminal db = Inr ((i, ss), db')"
    and t: "sp_AttemptCount s \<ge> sp_MaxAttempts s \<Longrightarrow> terminal"
  shows "saga_wf db' \<and> saga_work db' \<le> saga_work db \<and> (terminal \<longrightarrow> saga_work db' < saga_work db)"
proof -
  obtain i0 where i0: "step_with_saga (sp_ID s) db = Inr (s, i0)" "sg_ID i0 = sp_SagaID s"
    using live_step_with_saga [OF s] by blast
  show ?thesis
  proof (cases terminal)
    case True
    with r i0 have tables:
      "saga_steps db' = upd_where (\<lambda>x. sp_ID x = sp_ID s)
         (\<lambda>s. s\<lparr>sp_Status := StepFailed, sp_ErrorCode := code, sp_ErrorMessage := message, sp_LeasedBy := '''', sp_LeasedAt := None\<rparr>) (saga_steps db)"
      "sagas db' = upd_where (\<lambda>i. sg_ID i = sp_SagaID s)
         (\<lambda>i. (unlease i)\<lparr>sg_Status := SagaFailed, sg_FailureCode := code, sg_FailureReason := message\<rparr>) (sagas db)"
      by (auto simp: FailStep_def bindR_Inr_iff Let_def set_saga_def set_step_def)
    have "step_weight s > 0" using s by (auto simp: live_command_def step_weight_def)
    then show ?thesis using outcome_work [OF s tables] by (simp add: step_weight_def unlease_def)
  next
    case False
    with r i0 t have tables:
      "saga_steps db' = upd_where (\<lambda>x. sp_ID x = sp_ID s)
         (\<lambda>s. s\<lparr>sp_Status := StepPending, sp_ErrorCode := code, sp_ErrorMessage := message, sp_NextRetryAt := now + backoff, sp_LeasedBy := '''', sp_LeasedAt := None\<rparr>) (saga_steps db)"
      "sagas db' = upd_where (\<lambda>i. sg_ID i = sp_SagaID s) (\<lambda>i. (unlease i)\<lparr>sg_Status := SagaRunning\<rparr>) (sagas db)"
      by (auto simp: FailStep_def bindR_Inr_iff Let_def set_saga_def set_step_def)
    have "saga_wf db' \<and> saga_work db' \<le> saga_work db"
      using outcome_work [OF s tables] s by (auto simp: step_weight_def unlease_def live_command_def)
    then show ?thesis using False by simp
  qed
qed

lemma CompleteStep_live:
  assumes s: "live_command s db" and r: "CompleteStep now (sp_ID s) out db = Inr (x, db')"
  shows "saga_wf db' \<and> saga_work db' < saga_work db"
proof -
  obtain i0 where i0: "step_with_saga (sp_ID s) db = Inr (s, i0)" "sg_ID i0 = sp_SagaID s" "sg_Status i0 \<in> {SagaPending, SagaRunning}"
    using live_step_with_saga [OF s] by blast
  have pos: "step_weight s > 0" using s by (auto simp: live_command_def step_weight_def)
  define f where "f = (\<lambda>s :: saga_step. s\<lparr>sp_Status := StepCompleted, sp_OutputPayload := out, sp_ErrorCode := '''', sp_ErrorMessage := '''', sp_CompletedAt := Some now\<rparr>)"
  define open' where "open' = incomplete (sp_SagaID s) (set_step (sp_ID s) f db)"
  define g where "g = (\<lambda>i :: saga_instance. if open' then (unlease i)\<lparr>sg_Status := SagaRunning\<rparr>
                           else (unlease i)\<lparr>sg_Status := SagaCompleted, sg_CompletedAt := Some now, sg_FailureCode := '''', sg_FailureReason := ''''\<rparr>)"
  from r i0 have tables: "saga_steps db' = upd_where (\<lambda>x. sp_ID x = sp_ID s) f (saga_steps db)"
    "sagas db' = upd_where (\<lambda>i. sg_ID i = sp_SagaID s) g (sagas db)"
    unfolding g_def open'_def f_def by (auto simp: CompleteStep_def bindR_Inr_iff Let_def set_saga_def set_step_def split: if_splits)
  have "saga_wf db' \<and> saga_work db' \<le> saga_work db \<and> (step_weight (f s) < step_weight s \<longrightarrow> saga_work db' < saga_work db)"
    by (rule outcome_work [OF s tables]) (simp_all add: f_def g_def step_weight_def unlease_def)
  then show ?thesis using pos by (simp add: f_def step_weight_def)
qed

lemma live_dispatches: "live_command s (db\<lparr>saga_dispatches := d\<rparr>) = live_command s db" "saga_work (db\<lparr>saga_dispatches := d\<rparr>) = saga_work db"
  "live_command s (db\<lparr>processed_commands := c\<rparr>) = live_command s db" "saga_work (db\<lparr>processed_commands := c\<rparr>) = saga_work db"
  by (simp_all add: live_command_def saga_wf_def saga_of_def saga_work_def)

lemma live_nack [simp]: "live_command s (NackDispatch step a b c d db) = live_command s db" "saga_work (NackDispatch step a b c d db) = saga_work db"
  by (simp_all add: NackDispatch_def live_dispatches)

lemma live_ack [simp]: "live_command s (AckDispatch step out db) = live_command s db" "saga_work (AckDispatch step out db) = saga_work db"
  by (simp_all add: AckDispatch_def live_dispatches)

lemma RecordProcessed_tables:
  "RecordProcessedCommand c cid r db = (x, db') \<Longrightarrow> live_command s db' = live_command s db \<and> saga_work db' = saga_work db"
  by (auto simp: RecordProcessedCommand_def live_dispatches split: option.splits)

lemma terminal_work:
  assumes "handleTerminalFailure comps now i step code message (db, w) = (Inr (), db', w')" "saga_wf db"
  shows "saga_wf db' \<and> saga_work db' \<le> saga_work db"
proof -
  obtain r where r: "abortWithCompensation comps now i code message
      (RecordDeadLetter (dead_letter_of i (Some step) DLCommandFailed code message now) db, w) = (Inr r, db', w')"
    using assms(1) by (auto simp: handleTerminalFailure_def saga_run_simps)
  have c: "closes (sg_MerchantID i) (sg_ID i) db db'" using abort_closes [OF r] by simp
  from closes_wf [OF c assms(2)] closes_work [OF c] show ?thesis by simp
qed

lemma report_failure_work:
  assumes "live_command step db" "report_failure comps now step err (db, w) = (Inr (), db', w')"
  shows "saga_wf db' \<and> saga_work db' \<le> saga_work db \<and> (sp_AttemptCount step \<ge> sp_MaxAttempts step \<longrightarrow> saga_work db' < saga_work db)"
proof -
  define t where "t = (sp_AttemptCount step \<ge> sp_MaxAttempts step)"
  define db0 where "db0 = NackDispatch step ''COMMAND_FAILED'' err (if t then ''poison'' else ''transient'') (retryBackoff (sp_AttemptCount step)) db"
  from assms(2) obtain i ss db1 where
    fail: "FailStep now (sp_ID step) ''COMMAND_FAILED'' err (retryBackoff (sp_AttemptCount step)) t db0 = Inr ((i, ss), db1)"
    and rest: "(if t then handleTerminalFailure comps now i step ''COMMAND_FAILED'' err else ret ()) (db1, w) = (Inr (), db', w')"
    unfolding report_failure_def Let_def db0_def t_def by (auto simp: saga_run_simps)
  have l: "live_command step db0" "saga_work db0 = saga_work db" using assms(1) by (simp_all add: db0_def)
  have f: "saga_wf db1 \<and> saga_work db1 \<le> saga_work db \<and> (t \<longrightarrow> saga_work db1 < saga_work db)"
    using FailStep_live [OF l(1) fail] l(2) by (simp add: t_def)
  show ?thesis
  proof (cases t)
    case True
    then have "saga_wf db' \<and> saga_work db' \<le> saga_work db1" using rest f terminal_work by fastforce
    then show ?thesis using f True by auto
  next
    case False
    then show ?thesis using rest f by (auto simp: ret_Inr_iff t_def)
  qed
qed

lemma report_success_work:
  assumes "live_command step db" "report_success now step result (db, w) = (Inr (), db', w')"
  shows "saga_wf db' \<and> saga_work db' < saga_work db"
proof -
  from assms(2) obtain d b db1 r where
    rec: "RecordProcessedCommand (sp_CommandName step) (sp_CommandID step) result db = ((d, b), db1)"
    and comp: "CompleteStep now (sp_ID step) d (AckDispatch step d db1) = Inr (r, db')"
    unfolding report_success_def by (auto simp: saga_run_simps)
  have l: "live_command step (AckDispatch step d db1)" "saga_work (AckDispatch step d db1) = saga_work db"
    using RecordProcessed_tables [OF rec] assms(1) by simp_all
  show ?thesis using CompleteStep_live [OF l(1) comp] l(2) by simp
qed

lemma perform_work:
  assumes "live_command step db" "perform handlers comps now (step, m) (db, w) = (Inr (), db', w')"
  shows "saga_wf db' \<and> saga_work db' \<le> saga_work db \<and> (sp_AttemptCount step \<ge> sp_MaxAttempts step \<longrightarrow> saga_work db' < saga_work db)"
proof (cases "handlers (sp_CommandName step)")
  case None
  define db0 where "db0 = NackDispatch step ''NO_HANDLER'' (no_handler_text step) ''configuration'' 0 db"
  from assms(2) None obtain i ss db1 where
    fail: "FailStep now (sp_ID step) ''NO_HANDLER'' (no_handler_text step) 0 True db0 = Inr ((i, ss), db1)"
    and rest: "handleTerminalFailure comps now i step ''NO_HANDLER'' (no_handler_text step) (db1, w) = (Inr (), db', w')"
    unfolding perform_def db0_def by (auto simp: saga_run_simps)
  have l: "live_command step db0" "saga_work db0 = saga_work db" using assms(1) by (simp_all add: db0_def)
  have f: "saga_wf db1" "saga_work db1 < saga_work db" using FailStep_live [OF l(1) fail] l(2) by simp_all
  then show ?thesis using terminal_work [OF rest f(1)] by auto
next
  case (Some h)
  from assms(2) Some obtain i o1 w1 where
    "(case o1 of Inl err \<Rightarrow> report_failure comps now step err | Inr result \<Rightarrow> report_success now step result) (db, w1) = (Inr (), db', w')"
    unfolding perform_def by (auto simp: saga_run_simps)
  then consider err where "report_failure comps now step err (db, w1) = (Inr (), db', w')"
    | result where "report_success now step result (db, w1) = (Inr (), db', w')" by (cases o1) auto
  then show ?thesis
  proof cases
    case 1
    then show ?thesis by (rule report_failure_work [OF assms(1)])
  next
    case 2
    then have "saga_wf db' \<and> saga_work db' < saga_work db" by (rule report_success_work [OF assms(1)])
    then show ?thesis by simp
  qed
qed

lemma RunNext_work:
  assumes "saga_wf db" "RunNext handlers comps lock owner now (db, w) = (Inr True, db', w')"
  shows "saga_wf db' \<and> saga_work db' < saga_work db"
proof -
  from assms(2) obtain step m db1 w1 where
    c: "claim_command lock owner now (db, w) = (Inr (Some (step, m)), db1, w1)"
    and p: "perform handlers comps now (step, m) (db1, w1) = (Inr (), db', w')"
    unfolding RunNext_def by (auto simp: saga_run_simps split: option.splits)
  have "live_command step db1" "saga_work db1 + (if sp_AttemptCount step \<le> sp_MaxAttempts step then 1 else 0) \<le> saga_work db"
    using claim_live [OF assms(1) c] by simp_all
  with perform_work [OF this(1) p] show ?thesis by (auto split: if_splits)
qed

lemma RunNext_idle:
  assumes "RunNext handlers comps lock owner now (db, w) = (Inr False, db', w')"
  shows "db' = db \<and> w' = w \<and> candidates lock now leaseTTL db = []"
  using assms unfolding RunNext_def claim_command_def
  by (auto simp: saga_run_simps LeaseNextCommandStep_def Let_def split: option.splits list.splits)

lemma LeaseTimedOutSaga_Some:
  assumes "saga_wf db" "LeaseTimedOutSaga lock owner now ttl db = (Some i, db')"
  shows "saga_wf db' \<and> saga_work db' \<le> saga_work db \<and> i \<in> set (sagas db') \<and> open_saga i"
proof -
  define f where "f = (\<lambda>i :: saga_instance. i\<lparr>sg_LeasedBy := owner, sg_LastLeasedAt := Some now\<rparr>)"
  obtain i0 rest where "sort_key (\<lambda>i. the (sg_TimeoutAt i)) (sort_key sg_CreatedAt
      (filter (\<lambda>i. timed_out now ttl i \<and> sg_ID i \<notin> set lock) (sagas db))) = i0 # rest"
    and i: "i = f i0" "db' = set_saga (sg_ID i0) f db"
    using assms(2) unfolding LeaseTimedOutSaga_def f_def Let_def by (auto split: list.splits)
  then have "i0 \<in> set (sort_key (\<lambda>i. the (sg_TimeoutAt i)) (sort_key sg_CreatedAt
      (filter (\<lambda>i. timed_out now ttl i \<and> sg_ID i \<notin> set lock) (sagas db))))" by simp
  then have i0: "i0 \<in> set (sagas db)" "timed_out now ttl i0" by simp_all
  have "(\<Sum>i\<leftarrow>sagas db'. saga_weight i) \<le> (\<Sum>i\<leftarrow>sagas db. saga_weight i)"
    unfolding i(2) set_saga_def by (simp, rule weight_upd_where_le) (simp add: saga_weight_def f_def open_saga_def)
  moreover have "i \<in> set (sagas db')" using i0(1) unfolding i set_saga_def by (auto simp: set_upd_where)
  moreover have "open_saga i" using i0(2) unfolding i by (auto simp: timed_out_def f_def open_saga_def)
  moreover have "saga_wf db'" using assms(1) unfolding i saga_wf_def set_saga_def by (simp add: f_def)
  ultimately show ?thesis by (simp add: saga_work_def i set_saga_def)
qed

lemma Timeout_work:
  assumes "saga_wf db" "ProcessNextTimeout comps lock owner now (db, w) = (Inr True, db', w')"
  shows "saga_wf db' \<and> saga_work db' < saga_work db"
proof -
  from assms(2) obtain i db1 r where lease: "LeaseTimedOutSaga lock owner now leaseTTL db = (Some i, db1)"
    and ab: "abortWithCompensation comps now i ''SAGA_TIMEOUT'' timeout_text
      (RecordDeadLetter (dead_letter_of i None DLTimeout ''SAGA_TIMEOUT'' timeout_text now) db1, w) = (Inr r, db', w')"
    unfolding ProcessNextTimeout_def by (auto simp: saga_run_simps split: option.splits)
  have l: "saga_wf db1" "saga_work db1 \<le> saga_work db" "i \<in> set (sagas db1)" "open_saga i"
    using LeaseTimedOutSaga_Some [OF assms(1) lease] by simp_all
  have c: "closes (sg_MerchantID i) (sg_ID i) db1 db'" using abort_closes [OF ab] by simp
  have "saga_work db' < saga_work db1" by (rule closes_work_less [OF c l(3) _ l(4)]) (simp add: saga_at_def)
  then show ?thesis using closes_wf [OF c l(1)] l(2) by simp
qed

lemma sort_key_Nil_iff: "sort_key f xs = [] \<longleftrightarrow> xs = []"
  by (metis length_0_conv length_sort)

lemma Timeout_idle:
  assumes "ProcessNextTimeout comps lock owner now (db, w) = (Inr False, db', w')"
  shows "db' = db \<and> w' = w \<and> filter (\<lambda>i. timed_out now leaseTTL i \<and> sg_ID i \<notin> set lock) (sagas db) = []"
proof -
  have "LeaseTimedOutSaga lock owner now leaseTTL db = (None, db')" and w: "w' = w"
    using assms unfolding ProcessNextTimeout_def by (auto simp: saga_run_simps split: option.splits)
  then have "sort_key (\<lambda>i. the (sg_TimeoutAt i)) (sort_key sg_CreatedAt
      (filter (\<lambda>i. timed_out now leaseTTL i \<and> sg_ID i \<notin> set lock) (sagas db))) = []" and "db' = db"
    unfolding LeaseTimedOutSaga_def Let_def by (auto split: list.splits)
  then show ?thesis using w by (simp add: sort_key_Nil_iff)
qed

section \<open>Properties\<close>

definition quiet :: "id list \<Rightarrow> time \<Rightarrow> saga_db \<Rightarrow> bool" where
  "quiet lock now db \<longleftrightarrow> candidates lock now leaseTTL db = [] \<and> filter (\<lambda>i. timed_out now leaseTTL i \<and> sg_ID i \<notin> set lock) (sagas db) = []"

lemma drain_returns:
  "saga_wf db \<Longrightarrow> saga_work db < fuel \<Longrightarrow>
   \<exists>out db' w'. drain handlers comps clock locks owner round fuel (db, w) = Some (out, db', w')
     \<and> (out = Inr () \<longrightarrow> saga_wf db' \<and> saga_work db' \<le> saga_work db \<and> (\<exists>k. k \<ge> round \<and> quiet (locks k) (clock k) db'))"
proof (induction fuel arbitrary: round db w)
  case (Suc fuel)
  obtain r db1 w1 where t: "ProcessNextTimeout comps (locks round) owner (clock round) (db, w) = (r, db1, w1)" by (metis prod_cases3)
  obtain r2 db2 w2 where n: "RunNext handlers comps (locks round) owner (clock round) (db1, w1) = (r2, db2, w2)" by (metis prod_cases3)
  have again: ?case if "drain handlers comps clock locks owner round (Suc fuel) (db, w) = drain handlers comps clock locks owner (Suc round) fuel (db'', w'')"
    "saga_wf db'' \<and> saga_work db'' < saga_work db" for db'' w''
  proof -
    note smaller = that
    obtain out db' w' where
      "drain handlers comps clock locks owner (Suc round) fuel (db'', w'') = Some (out, db', w')"
      "out = Inr () \<longrightarrow> saga_wf db' \<and> saga_work db' \<le> saga_work db'' \<and> (\<exists>k. k \<ge> Suc round \<and> quiet (locks k) (clock k) db')"
      using Suc.IH [of db'' "Suc round" w''] Suc.prems smaller(2) by auto
    with smaller show ?thesis by (auto dest: Suc_leD)
  qed
  consider e where "r = Inl e" | "r = Inr True" | e where "r = Inr False" "r2 = Inl e" | "r = Inr False" "r2 = Inr True" | "r = Inr False" "r2 = Inr False"
    by (cases r; cases r2) auto
  then show ?case
  proof cases
    case 1
    then show ?thesis using t by simp
  next
    case 2
    have "saga_wf db1 \<and> saga_work db1 < saga_work db" by (rule Timeout_work [OF Suc.prems(1)]) (use t 2 in simp)
    then show ?thesis by (intro again [of db1 w1]) (use t 2 in auto)
  next
    case 3
    then show ?thesis using t n by simp
  next
    case 4
    then have "db1 = db" "w1 = w" using Timeout_idle t by fastforce+
    moreover from this have "saga_wf db2 \<and> saga_work db2 < saga_work db" by (intro RunNext_work [OF Suc.prems(1)]) (use n 4 in simp)
    ultimately show ?thesis by (intro again [of db2 w2]) (use t n 4 in auto)
  next
    case 5
    then have "db1 = db" "w1 = w" "filter (\<lambda>i. timed_out (clock round) leaseTTL i \<and> sg_ID i \<notin> set (locks round)) (sagas db) = []"
      using Timeout_idle t by fastforce+
    moreover from this 5 have "db2 = db" "w2 = w" "candidates (locks round) (clock round) leaseTTL db = []" using RunNext_idle n by fastforce+
    ultimately show ?thesis using t n 5 Suc.prems by (auto simp: quiet_def)
  qed
qed simp

section \<open>A saga of one command\<close>

text \<open>
  The database of a saga as payouts start it: one instance, one command step. \<open>one_saga\<close> describes it between two
  rounds; the counters of the step are its attempts.
\<close>

definition one_saga :: "saga_instance \<Rightarrow> saga_step \<Rightarrow> saga_db \<Rightarrow> bool" where
  "one_saga i s db \<longleftrightarrow>
     sagas db = [i] \<and> saga_steps db = [s] \<and> sp_SagaID s = sg_ID i \<and> sp_StepKind s = StepCommand
   \<and> sg_Status i = SagaRunning \<and> sp_Status s = StepPending
   \<and> (\<forall>d \<in> set (saga_dispatches db). dp_StepID d = sp_ID s \<longrightarrow> dp_DispatchAttempt d \<le> sp_AttemptCount s)"

definition leased_step :: "string \<Rightarrow> time \<Rightarrow> saga_step \<Rightarrow> saga_step" where
  "leased_step owner now s = s\<lparr>sp_Status := StepInProgress, sp_LeasedBy := owner, sp_LeasedAt := Some now, sp_AttemptCount := sp_AttemptCount s + 1\<rparr>"

definition claimed_db :: "string \<Rightarrow> time \<Rightarrow> saga_instance \<Rightarrow> saga_step \<Rightarrow> saga_db \<Rightarrow> saga_db" where
  "claimed_db owner now i s db =
     (let s' = leased_step owner now s in
      db\<lparr>sagas := [i\<lparr>sg_LastLeasedAt := Some now, sg_LeasedBy := owner\<rparr>], saga_steps := [s'],
         saga_dispatches := saga_dispatches db @ [\<lparr>dp_SagaID = sp_SagaID s', dp_StepID = sp_ID s', dp_MerchantID = sg_MerchantID i,
             dp_CommandName = sp_CommandName s', dp_CommandID = sp_CommandID s', dp_DispatchAttempt = sp_AttemptCount s', dp_Status = Dispatched,
             dp_LeasedBy = owner, dp_RetryBackoff = 0, dp_ErrorCode = '''', dp_ErrorMessage = '''', dp_ErrorClassification = '''',
             dp_InputPayload = sp_InputPayload s', dp_OutputPayload = []\<rparr>]\<rparr>)"

lemma claim_one:
  assumes "sagas db = [i]" "saga_steps db = [s]" "sp_SagaID s = sg_ID i" "sp_StepKind s = StepCommand" "sg_Status i = SagaRunning"
    "sp_Status s = StepPending \<and> sp_NextRetryAt s \<le> now \<or> sp_Status s = StepInProgress \<and> (\<exists>t. sp_LeasedAt s = Some t \<and> t + leaseTTL \<le> now)"
    "\<forall>d \<in> set (saga_dispatches db). dp_StepID d = sp_ID s \<longrightarrow> dp_DispatchAttempt d \<le> sp_AttemptCount s"
  shows "claim_command [] owner now (db, w) = (Inr (Some (leased_step owner now s, sg_MerchantID i)), claimed_db owner now i s db, w)"
proof -
  have "candidates [] now leaseTTL db = [s]"
    using assms by (auto simp: candidates_def runnable_def saga_of_def lease_time_def leaseTTL_def)
  moreover have "\<not> list_ex (\<lambda>d. dp_StepID d = sp_ID s \<and> dp_DispatchAttempt d = sp_AttemptCount s + 1) (saga_dispatches db)"
    using assms(7) by (auto simp: list_ex_iff)
  ultimately show ?thesis
    using assms by (simp add: claim_command_def LeaseNextCommandStep_def bindS_def tx_def query_def ret_def set_saga_def set_step_def
        step_with_saga_def saga_of_def RecordDispatch_def leased_step_def claimed_db_def Let_def)
qed

lemma retryBackoff_bounds: "1000000 \<le> retryBackoff a" "retryBackoff a \<le> 32000000"
proof -
  have "(2::int) ^ nat (min (a - 1) 5) \<le> 2 ^ 5" by (rule power_increasing) auto
  then show "retryBackoff a \<le> 32000000" by (simp add: retryBackoff_def)
  show "1000000 \<le> retryBackoff a" by (simp add: retryBackoff_def)
qed

definition same_saga :: "saga_instance \<Rightarrow> saga_step \<Rightarrow> saga_instance \<Rightarrow> saga_step \<Rightarrow> bool" where
  "same_saga i s i' s' \<longleftrightarrow> sg_ID i' = sg_ID i \<and> sg_MerchantID i' = sg_MerchantID i \<and> sg_SagaType i' = sg_SagaType i
     \<and> sp_ID s' = sp_ID s \<and> sp_CommandName s' = sp_CommandName s \<and> sp_MaxAttempts s' = sp_MaxAttempts s
     \<and> sp_AttemptCount s' = sp_AttemptCount s + 1"

lemmas one_saga_simps = bindS_def tx_def query_def ret_def exec_def call_def set_saga_def set_step_def step_with_saga_def saga_of_def
  GetSaga_def listSteps_def saga_at_def Let_def

lemma retry_round:
  assumes "one_saga i s db" "sp_NextRetryAt s \<le> now" "sp_AttemptCount s + 1 < sp_MaxAttempts s"
    and h: "handlers (sp_CommandName s) = Some h" "\<And>c w. h c w = (Inl err, f w)"
  shows "\<exists>i' s' db'. RunNext handlers comps [] owner now (db, w) = (Inr True, db', f w) \<and> one_saga i' s' db' \<and> same_saga i s i' s'
    \<and> sp_NextRetryAt s' \<le> now + 32000000 \<and> saga_dead_letters db' = saga_dead_letters db"
proof -
  define s1 where "s1 = leased_step owner now s"
  define db1 where "db1 = claimed_db owner now i s db"
  have c: "claim_command [] owner now (db, w) = (Inr (Some (s1, sg_MerchantID i)), db1, w)"
    unfolding s1_def db1_def by (rule claim_one) (use assms in \<open>simp_all add: one_saga_def\<close>)
  define db2 where "db2 = NackDispatch s1 ''COMMAND_FAILED'' err ''transient'' (retryBackoff (sp_AttemptCount s1)) db1"
  define s2 where "s2 = s1\<lparr>sp_Status := StepPending, sp_ErrorCode := ''COMMAND_FAILED'', sp_ErrorMessage := err,
      sp_NextRetryAt := now + retryBackoff (sp_AttemptCount s1), sp_LeasedBy := '''', sp_LeasedAt := None\<rparr>"
  define i2 where "i2 = (unlease i)\<lparr>sg_Status := SagaRunning\<rparr>"
  define db3 where "db3 = db2\<lparr>sagas := [i2], saga_steps := [s2]\<rparr>"
  have s: "sp_SagaID s = sg_ID i" using assms(1) by (simp add: one_saga_def)
  have p: "perform handlers comps now (s1, sg_MerchantID i) (db1, w) = (Inr (), db3, f w)"
    using assms(3) h s unfolding perform_def db1_def s1_def
    by (simp add: one_saga_simps report_failure_def claimed_db_def leased_step_def FailStep_def NackDispatch_def
        db3_def db2_def i2_def s2_def s1_def db1_def unlease_def)
  have "RunNext handlers comps [] owner now (db, w) = (Inr True, db3, f w)"
    using c p by (simp add: RunNext_def bindS_def ret_def)
  moreover have "\<forall>d \<in> set (saga_dispatches db3). dp_StepID d = sp_ID s \<longrightarrow> dp_DispatchAttempt d \<le> sp_AttemptCount s + 1"
    using assms(1) unfolding db3_def db2_def db1_def NackDispatch_def claimed_db_def Let_def one_saga_def s1_def
    by (auto simp: set_upd_where leased_step_def)
  then have "one_saga i2 s2 db3"
    using assms(1) by (simp add: one_saga_def db3_def i2_def s2_def s1_def leased_step_def unlease_def)
  moreover have "same_saga i s i2 s2" by (simp add: same_saga_def i2_def s2_def s1_def leased_step_def unlease_def)
  moreover have "sp_NextRetryAt s2 \<le> now + 32000000" using retryBackoff_bounds by (simp add: s2_def)
  moreover have "saga_dead_letters db3 = saga_dead_letters db" by (simp add: db3_def db2_def db1_def NackDispatch_def claimed_db_def Let_def)
  ultimately show ?thesis by blast
qed

lemma last_round:
  assumes "one_saga i s db" "sp_NextRetryAt s \<le> now" "sp_MaxAttempts s \<le> sp_AttemptCount s + 1"
    and h: "handlers (sp_CommandName s) = Some h" "\<And>c w. h c w = (Inl err, f w)"
    and c: "comps (sg_SagaType i) = Some k" "\<And>x w. k x w = (None, g w)"
  shows "\<exists>i' s' d db'. RunNext handlers comps [] owner now (db, w) = (Inr True, db', g (f w)) \<and> sagas db' = [i'] \<and> saga_steps db' = [s']
    \<and> sg_Status i' = SagaAborted \<and> sp_Status s' = StepFailed \<and> same_saga i s i' s'
    \<and> saga_dead_letters db' = saga_dead_letters db @ [d] \<and> dl_Type d = DLCommandFailed \<and> dl_SagaID d = sg_ID i"
proof -
  have cl: "claim_command [] owner now (db, w) = (Inr (Some (leased_step owner now s, sg_MerchantID i)), claimed_db owner now i s db, w)"
    by (rule claim_one) (use assms in \<open>simp_all add: one_saga_def\<close>)
  have s: "sp_SagaID s = sg_ID i" using assms(1) by (simp add: one_saga_def)
  show ?thesis
    using assms(3) h c s unfolding RunNext_def
    by (simp add: cl perform_def one_saga_simps report_failure_def claimed_db_def leased_step_def FailStep_def NackDispatch_def unlease_def
        handleTerminalFailure_def abortWithCompensation_def MarkCompensating_def Abort_def update_saga_def RecordDeadLetter_def
        RecordOperatorAction_def close_steps_def dead_letter_of_def same_saga_def)
qed

primrec worker_ticks ::
  "(string \<Rightarrow> 'w command_handler option) \<Rightarrow> (string \<Rightarrow> 'w compensation_handler option) \<Rightarrow> string \<Rightarrow> time list \<Rightarrow> saga_db \<times> 'w \<Rightarrow> saga_db \<times> 'w" where
  "worker_ticks handlers comps owner [] st = st"
| "worker_ticks handlers comps owner (t # ts) st = worker_ticks handlers comps owner ts (snd (RunNext handlers comps [] owner t st))"

primrec spaced :: "time \<Rightarrow> time list \<Rightarrow> bool" where
  "spaced t [] \<longleftrightarrow> True"
| "spaced t (u # us) \<longleftrightarrow> t \<le> u \<and> spaced (u + 32000000) us"

lemma spaced_mono: "spaced t ts \<Longrightarrow> t' \<le> t \<Longrightarrow> spaced t' ts"
  by (cases ts) auto

lemma idle_round:
  assumes "sagas db = [i]" "sg_Status i = SagaAborted" shows "RunNext handlers comps [] owner now (db, w) = (Inr False, db, w)"
proof -
  have "candidates [] now leaseTTL db = []"
    using assms by (auto simp: candidates_def runnable_def saga_of_def sort_key_Nil_iff filter_empty_conv)
  then show ?thesis by (simp add: RunNext_def claim_command_def LeaseNextCommandStep_def bindS_def tx_def ret_def)
qed

lemma idle_ticks:
  "sagas db = [i] \<Longrightarrow> sg_Status i = SagaAborted \<Longrightarrow> worker_ticks handlers comps owner ts (db, w) = (db, w)"
  by (induction ts) (simp_all add: idle_round)

lemma failing_ticks:
  assumes h: "handlers cmd = Some h" "\<And>c w. h c w = (Inl err, f w)"
    and c: "comps typ = Some k" "\<And>x w. k x w = (None, g w)"
  shows "one_saga i s db \<Longrightarrow> sp_CommandName s = cmd \<Longrightarrow> sg_SagaType i = typ \<Longrightarrow> spaced (sp_NextRetryAt s) ts
    \<Longrightarrow> sp_AttemptCount s + int (Suc n) = sp_MaxAttempts s \<Longrightarrow> Suc n \<le> length ts
    \<Longrightarrow> \<exists>i' s' d db'. worker_ticks handlers comps owner ts (db, w) = (db', g ((f ^^ Suc n) w)) \<and> sagas db' = [i'] \<and> saga_steps db' = [s']
      \<and> sg_Status i' = SagaAborted \<and> sp_Status s' = StepFailed \<and> sp_AttemptCount s' = sp_MaxAttempts s
      \<and> saga_dead_letters db' = saga_dead_letters db @ [d] \<and> dl_Type d = DLCommandFailed \<and> dl_SagaID d = sg_ID i"
proof (induction n arbitrary: i s db w ts)
  case 0
  then obtain t us where ts: "ts = t # us" by (cases ts) auto
  have "\<exists>i' s' d db'. RunNext handlers comps [] owner t (db, w) = (Inr True, db', g (f w)) \<and> sagas db' = [i'] \<and> saga_steps db' = [s']
    \<and> sg_Status i' = SagaAborted \<and> sp_Status s' = StepFailed \<and> same_saga i s i' s'
    \<and> saga_dead_letters db' = saga_dead_letters db @ [d] \<and> dl_Type d = DLCommandFailed \<and> dl_SagaID d = sg_ID i"
    by (rule last_round [where h = h and k = k and f = f and g = g and err = err]) (use 0 ts h c in simp_all)
  then show ?case using 0 ts idle_ticks by (fastforce simp: same_saga_def)
next
  case (Suc n)
  then obtain t us where ts: "ts = t # us" by (cases ts) auto
  have "\<exists>i' s' db'. RunNext handlers comps [] owner t (db, w) = (Inr True, db', f w) \<and> one_saga i' s' db' \<and> same_saga i s i' s'
    \<and> sp_NextRetryAt s' \<le> t + 32000000 \<and> saga_dead_letters db' = saga_dead_letters db"
    by (rule retry_round [where h = h and f = f and err = err]) (use Suc.prems ts h in simp_all)
  then obtain i1 s1 db1 where r: "RunNext handlers comps [] owner t (db, w) = (Inr True, db1, f w)" "one_saga i1 s1 db1" "same_saga i s i1 s1"
    "sp_NextRetryAt s1 \<le> t + 32000000" "saga_dead_letters db1 = saga_dead_letters db" by blast
  have "spaced (sp_NextRetryAt s1) us" by (rule spaced_mono [OF _ r(4)]) (use Suc.prems ts in simp)
  then show ?case using Suc.IH [OF r(2), of us "f w"] Suc.prems r ts
    by (simp add: same_saga_def funpow_swap1)
qed

section \<open>What the worker achieves\<close>

definition saga_blank :: saga_db where
  "saga_blank = \<lparr>sagas = [], saga_steps = [], saga_dead_letters = [], saga_actions = [], saga_dispatches = [], processed_commands = []\<rparr>"

lemma created_saga:
  assumes "CreateCommandSaga ids now inp saga_blank = Inr ((i, ss), db)" "cs_StepKind inp = StepCommand"
  obtains s where "one_saga i s db" "sp_CommandName s = cs_CommandName inp" "sg_SagaType i = cs_SagaType inp" "sp_NextRetryAt s = now"
    "sp_AttemptCount s = 0" "sp_MaxAttempts s = max 1 (cs_MaxAttempts inp)" "saga_dead_letters db = []" "saga_wf db"
  using assms by (cases ids)
    (auto simp: CreateCommandSaga_def saga_blank_def GetSaga_def saga_at_def Let_def one_saga_def saga_wf_def unique_key_def max_def)

definition sample_saga_input :: create_saga_input where
  "sample_saga_input = \<lparr>cs_MerchantID = ''m1'', cs_SagaType = ''payout_execution'', cs_CorrelationID = '''', cs_CausationID = '''',
     cs_InputPayload = [], cs_ContextPayload = [], cs_DeadlineAt = None, cs_TimeoutAt = None, cs_StepName = ''complete_payout_transfer'',
     cs_StepKind = StepCommand, cs_CommandName = ''payout.complete_transfer'', cs_ReplyTopic = '''', cs_StepPayload = [], cs_MaxAttempts = 3\<rparr>"

definition sample_saga :: "(saga_instance \<times> saga_step list) \<times> saga_db" where
  "sample_saga = projr (CreateCommandSaga (''sg1'', ''st1'', ''cmd1'') 0 sample_saga_input saga_blank)"

lemma sample_saga_created:
  "CreateCommandSaga (''sg1'', ''st1'', ''cmd1'') 0 sample_saga_input saga_blank = Inr ((fst (fst sample_saga), snd (fst sample_saga)), snd sample_saga)"
  by (simp add: sample_saga_def sample_saga_input_def CreateCommandSaga_def saga_blank_def GetSaga_def saga_at_def Let_def)

text \<open>
  C17: The loop of the saga worker returns. Whatever the handlers and compensation handlers do, at whatever times the
  rounds take place and whatever rows other workers hold locked, one more round than the work in the database
  (remaining attempts of the unfinished steps and open sagas) is enough fuel, and a loop that ends without an
  error leaves neither a runnable step nor a timed-out saga at the time of its last round.
\<close>

theorem saga_worker_drains:
  assumes "saga_wf db"
  shows "\<exists>out db' w'. drain handlers comps clock locks owner 0 (Suc (saga_work db)) (db, w) = Some (out, db', w')
    \<and> (out = Inr () \<longrightarrow> (\<exists>k. quiet (locks k) (clock k) db'))"
  using drain_returns [OF assms, of "Suc (saga_work db)" handlers comps clock locks owner 0 w] by auto

theorem saga_worker_drains_witness:
  "saga_wf (snd sample_saga) \<and> saga_work (snd sample_saga) = 5
   \<and> (\<exists>out db' w'. drain (\<lambda>_. None) (\<lambda>_. None) (\<lambda>k. int k) (\<lambda>_. []) ''w1'' 0 6 (snd sample_saga, ()) = Some (out, db', w')
        \<and> (out = Inr () \<longrightarrow> (\<exists>k. quiet [] (int k) db')))"
proof -
  have wf: "saga_wf (snd sample_saga)" by (rule created_saga [OF sample_saga_created]) (simp_all add: sample_saga_input_def)
  have w: "saga_work (snd sample_saga) = 5"
    by (simp add: sample_saga_def sample_saga_input_def CreateCommandSaga_def saga_blank_def GetSaga_def saga_at_def Let_def saga_work_def
        step_weight_def saga_weight_def open_saga_def)
  show ?thesis using saga_worker_drains [OF wf, of "\<lambda>_. None" "\<lambda>_. None" "\<lambda>k. int k" "\<lambda>_. []" "''w1''" "()"] wf w by simp
qed



lemma dispatch_bound_kept:
  assumes "map (\<lambda>d. (dp_StepID d, dp_DispatchAttempt d)) ds = map (\<lambda>d. (dp_StepID d, dp_DispatchAttempt d)) es"
    "\<forall>d \<in> set es. dp_StepID d = x \<longrightarrow> dp_DispatchAttempt d \<le> n"
  shows "\<forall>d \<in> set ds. dp_StepID d = x \<longrightarrow> dp_DispatchAttempt d \<le> n"
proof -
  have "(\<lambda>d. (dp_StepID d, dp_DispatchAttempt d)) ` set ds = (\<lambda>d. (dp_StepID d, dp_DispatchAttempt d)) ` set es"
    using assms(1) by (metis set_map)
  then show ?thesis using assms(2) by (force simp: image_iff)
qed

lemma success_report:
  assumes "sagas db = [i]" "saga_steps db = [s]" "sp_SagaID s = sg_ID i" "sg_Status i = SagaRunning"
  shows "\<exists>d db3. report_success now s result (db, w) = (Inr (), db3, w)
    \<and> sagas db3 = [(unlease i)\<lparr>sg_Status := SagaCompleted, sg_CompletedAt := Some now, sg_FailureCode := '''', sg_FailureReason := ''''\<rparr>]
    \<and> saga_steps db3 = [s\<lparr>sp_Status := StepCompleted, sp_OutputPayload := d, sp_ErrorCode := '''', sp_ErrorMessage := '''', sp_CompletedAt := Some now\<rparr>]
    \<and> map (\<lambda>d. (dp_StepID d, dp_DispatchAttempt d)) (saga_dispatches db3) = map (\<lambda>d. (dp_StepID d, dp_DispatchAttempt d)) (saga_dispatches db)"
proof -
  obtain d b db1 where rec: "RecordProcessedCommand (sp_CommandName s) (sp_CommandID s) result db = ((d, b), db1)" by (metis surj_pair)
  have t: "sagas db1 = [i]" "saga_steps db1 = [s]" "saga_dispatches db1 = saga_dispatches db"
    using rec assms by (auto simp: RecordProcessedCommand_def split: option.splits)
  have "report_success now s result (db, w) = (Inr (), db3, w)
     \<and> sagas db3 = [(unlease i)\<lparr>sg_Status := SagaCompleted, sg_CompletedAt := Some now, sg_FailureCode := '''', sg_FailureReason := ''''\<rparr>]
     \<and> saga_steps db3 = [s\<lparr>sp_Status := StepCompleted, sp_OutputPayload := d, sp_ErrorCode := '''', sp_ErrorMessage := '''', sp_CompletedAt := Some now\<rparr>]
     \<and> map (\<lambda>d. (dp_StepID d, dp_DispatchAttempt d)) (saga_dispatches db3) = map (\<lambda>d. (dp_StepID d, dp_DispatchAttempt d)) (saga_dispatches db)"
    if "db3 = (AckDispatch s d db1)\<lparr>sagas := [(unlease i)\<lparr>sg_Status := SagaCompleted, sg_CompletedAt := Some now, sg_FailureCode := '''', sg_FailureReason := ''''\<rparr>],
      saga_steps := [s\<lparr>sp_Status := StepCompleted, sp_OutputPayload := d, sp_ErrorCode := '''', sp_ErrorMessage := '''', sp_CompletedAt := Some now\<rparr>]\<rparr>" for db3
    using assms t unfolding that report_success_def
    by (simp add: rec one_saga_simps CompleteStep_def AckDispatch_def incomplete_def unlease_def upd_where_def)
  then show ?thesis by blast
qed

lemma late_report:
  assumes t: "sagas db = [i]" "saga_steps db = [s]" and s: "sp_SagaID s = sg_ID i" "sp_StepKind s = StepCommand"
    and sa: "sp_ID sa = sp_ID s" "sp_AttemptCount sa = 1" "sp_MaxAttempts sa = sp_MaxAttempts s"
    and n: "1 < sp_MaxAttempts s" "sp_AttemptCount s < sp_MaxAttempts s" "t3 + 1000000 \<le> t4"
    and d: "\<forall>d \<in> set (saga_dispatches db). dp_StepID d = sp_ID s \<longrightarrow> dp_DispatchAttempt d \<le> sp_AttemptCount s"
  shows "\<exists>db4 sc db5. report_failure comps t3 sa err (db, w) = (Inr (), db4, w)
      \<and> map sg_Status (sagas db4) = [SagaRunning] \<and> map sp_Status (saga_steps db4) = [StepPending]
      \<and> claim_command [] owner t4 (db4, w) = (Inr (Some (sc, sg_MerchantID i)), db5, w) \<and> sp_CommandID sc = sp_CommandID s"
proof -
  define s4 where "s4 = s\<lparr>sp_Status := StepPending, sp_ErrorCode := ''COMMAND_FAILED'', sp_ErrorMessage := err,
      sp_NextRetryAt := t3 + retryBackoff (sp_AttemptCount sa), sp_LeasedBy := '''', sp_LeasedAt := None\<rparr>"
  define i4 where "i4 = (unlease i)\<lparr>sg_Status := SagaRunning\<rparr>"
  define db4 where "db4 = (NackDispatch sa ''COMMAND_FAILED'' err ''transient'' (retryBackoff (sp_AttemptCount sa)) db)\<lparr>sagas := [i4], saga_steps := [s4]\<rparr>"
  have r: "report_failure comps t3 sa err (db, w) = (Inr (), db4, w)"
    using t s sa n unfolding db4_def i4_def s4_def
    by (simp add: report_failure_def one_saga_simps FailStep_def NackDispatch_def unlease_def)
  have "claim_command [] owner t4 (db4, w) = (Inr (Some (leased_step owner t4 s4, sg_MerchantID i4)), claimed_db owner t4 i4 s4 db4, w)"
  proof (rule claim_one)
    show "sagas db4 = [i4]" "saga_steps db4 = [s4]" by (simp_all add: db4_def)
    show "sp_SagaID s4 = sg_ID i4" "sp_StepKind s4 = StepCommand" "sg_Status i4 = SagaRunning"
      using s by (simp_all add: s4_def i4_def unlease_def)
    show "sp_Status s4 = StepPending \<and> sp_NextRetryAt s4 \<le> t4 \<or> sp_Status s4 = StepInProgress \<and> (\<exists>t. sp_LeasedAt s4 = Some t \<and> t + leaseTTL \<le> t4)"
      using sa n by (simp add: s4_def retryBackoff_def)
    show "\<forall>d\<in>set (saga_dispatches db4). dp_StepID d = sp_ID s4 \<longrightarrow> dp_DispatchAttempt d \<le> sp_AttemptCount s4"
      using d by (auto simp: db4_def s4_def NackDispatch_def set_upd_where)
  qed
  moreover have "sg_MerchantID i4 = sg_MerchantID i" "sp_CommandID (leased_step owner t4 s4) = sp_CommandID s"
    "map sg_Status (sagas db4) = [SagaRunning]" "map sp_Status (saga_steps db4) = [StepPending]"
    by (simp_all add: i4_def unlease_def leased_step_def s4_def db4_def)
  ultimately show ?thesis using r by metis
qed

text \<open>
  C33: A late failure reopens a completed saga. A worker \<open>a\<close> claims the step and its handler takes longer than the lease;
  worker \<open>b\<close> claims the step again, performs the command and the saga is completed; then the handler of \<open>a\<close> ends with an
  error, and reporting it puts the saga back to running and the step back to pending, so that a third worker claims
  the command of the completed saga and runs it again.
\<close>

theorem saga_late_failure_reopens:
  assumes "CreateCommandSaga ids now inp saga_blank = Inr ((i, ss), db)" "cs_StepKind inp = StepCommand" "3 \<le> cs_MaxAttempts inp"
    and "handlers (cs_CommandName inp) = Some h" "\<And>c w. h c w = (Inr out, f w)"
    and "now \<le> t" "t + leaseTTL \<le> t1" "t3 + 1000000 \<le> t4"
  shows "\<exists>sa m sb db1 db2 db3 db4 sc db5.
      claim_command [] ''a'' t (db, w) = (Inr (Some (sa, m)), db1, w)
    \<and> claim_command [] ''b'' t1 (db1, w) = (Inr (Some (sb, m)), db2, w)
    \<and> perform handlers comps t2 (sb, m) (db2, w) = (Inr (), db3, f w) \<and> map sg_Status (sagas db3) = [SagaCompleted]
    \<and> report_failure comps t3 sa err (db3, f w) = (Inr (), db4, f w)
    \<and> map sg_Status (sagas db4) = [SagaRunning] \<and> map sp_Status (saga_steps db4) = [StepPending]
    \<and> claim_command [] ''c'' t4 (db4, f w) = (Inr (Some (sc, m)), db5, f w) \<and> sp_CommandID sc = sp_CommandID sb"
proof (rule created_saga [OF assms(1,2)])
  fix s assume s: "one_saga i s db" "sp_CommandName s = cs_CommandName inp" "sp_NextRetryAt s = now"
    "sp_AttemptCount s = 0" "sp_MaxAttempts s = max 1 (cs_MaxAttempts inp)"
  define sa where "sa = leased_step ''a'' t s"
  define db1 where "db1 = claimed_db ''a'' t i s db"
  have c1: "claim_command [] ''a'' t (db, w) = (Inr (Some (sa, sg_MerchantID i)), db1, w)"
    unfolding sa_def db1_def by (rule claim_one) (use s assms(6) in \<open>simp_all add: one_saga_def\<close>)
  define i1 where "i1 = i\<lparr>sg_LastLeasedAt := Some t, sg_LeasedBy := ''a''\<rparr>"
  define sb where "sb = leased_step ''b'' t1 sa"
  define db2 where "db2 = claimed_db ''b'' t1 i1 sa db1"
  have c2: "claim_command [] ''b'' t1 (db1, w) = (Inr (Some (sb, sg_MerchantID i1)), db2, w)"
    unfolding sb_def db2_def by (rule claim_one)
      (use s assms(7) in \<open>auto simp: one_saga_def db1_def i1_def sa_def claimed_db_def leased_step_def Let_def\<close>)
  obtain d db3 i3 s3 where p: "perform handlers comps t2 (sb, sg_MerchantID i1) (db2, w) = (Inr (), db3, f w)"
    "sagas db3 = [i3]" "sg_Status i3 = SagaCompleted" "sg_ID i3 = sg_ID i" "sg_MerchantID i3 = sg_MerchantID i"
    "saga_steps db3 = [s3]" "s3 = sb\<lparr>sp_Status := StepCompleted, sp_OutputPayload := d, sp_ErrorCode := '''', sp_ErrorMessage := '''', sp_CompletedAt := Some t2\<rparr>"
    "\<forall>d \<in> set (saga_dispatches db3). dp_StepID d = sp_ID s \<longrightarrow> dp_DispatchAttempt d \<le> sp_AttemptCount s3"
  proof -
    have sb: "sp_SagaID sb = sg_ID i1" "sp_CommandName sb = cs_CommandName inp" "sagas db2 = [i1\<lparr>sg_LastLeasedAt := Some t1, sg_LeasedBy := ''b''\<rparr>]" "saga_steps db2 = [sb]"
      "sg_Status i1 = SagaRunning"
      using s by (simp_all add: one_saga_def sb_def sa_def i1_def leased_step_def db2_def claimed_db_def Let_def)
    have "perform handlers comps t2 (sb, sg_MerchantID i1) (db2, w) = report_success t2 sb out (db2, f w)"
      using sb assms(4,5) by (simp add: perform_def one_saga_simps)
    moreover have "\<forall>d \<in> set (saga_dispatches db2). dp_StepID d = sp_ID s \<longrightarrow> dp_DispatchAttempt d \<le> sp_AttemptCount sb"
      using s by (auto simp: one_saga_def db2_def db1_def claimed_db_def leased_step_def Let_def sb_def sa_def)
    moreover have "sp_SagaID sb = sg_ID (i1\<lparr>sg_LastLeasedAt := Some t1, sg_LeasedBy := ''b''\<rparr>)"
      "sg_Status (i1\<lparr>sg_LastLeasedAt := Some t1, sg_LeasedBy := ''b''\<rparr>) = SagaRunning" using sb by simp_all
    note done3 = success_report [OF sb(3,4) this, of t2 out "f w"]
    then obtain d db3 where r: "report_success t2 sb out (db2, f w) = (Inr (), db3, f w)"
      "sagas db3 = [(unlease (i1\<lparr>sg_LastLeasedAt := Some t1, sg_LeasedBy := ''b''\<rparr>))\<lparr>sg_Status := SagaCompleted, sg_CompletedAt := Some t2, sg_FailureCode := '''', sg_FailureReason := ''''\<rparr>]"
      "saga_steps db3 = [sb\<lparr>sp_Status := StepCompleted, sp_OutputPayload := d, sp_ErrorCode := '''', sp_ErrorMessage := '''', sp_CompletedAt := Some t2\<rparr>]"
      "map (\<lambda>d. (dp_StepID d, dp_DispatchAttempt d)) (saga_dispatches db3) = map (\<lambda>d. (dp_StepID d, dp_DispatchAttempt d)) (saga_dispatches db2)"
      by blast
    ultimately show thesis
      by (intro that [OF _ r(2) _ _ _ r(3) refl]) (use r(1) dispatch_bound_kept [OF r(4)] in \<open>simp_all add: i1_def unlease_def\<close>)
  qed
  have "\<exists>db4 sc db5. report_failure comps t3 sa err (db3, f w) = (Inr (), db4, f w)
      \<and> map sg_Status (sagas db4) = [SagaRunning] \<and> map sp_Status (saga_steps db4) = [StepPending]
      \<and> claim_command [] ''c'' t4 (db4, f w) = (Inr (Some (sc, sg_MerchantID i3)), db5, f w) \<and> sp_CommandID sc = sp_CommandID s3"
    by (rule late_report [OF p(2,6)]) (use s p(3-) assms(3,8) in \<open>simp_all add: one_saga_def sa_def sb_def leased_step_def\<close>)
  moreover have "sg_MerchantID i1 = sg_MerchantID i" "sp_CommandID s3 = sp_CommandID sb" "map sg_Status (sagas db3) = [SagaCompleted]"
    using p by (simp_all add: i1_def)
  ultimately show ?thesis using c1 c2 p(1,5) by metis
qed

theorem saga_late_failure_reopens_witness:
  "\<exists>sa m sb db1 db2 db3 db4 sc db5.
      claim_command [] ''a'' 0 (snd sample_saga, ()) = (Inr (Some (sa, m)), db1, ())
    \<and> claim_command [] ''b'' 30000000 (db1, ()) = (Inr (Some (sb, m)), db2, ())
    \<and> perform (\<lambda>_. Some (\<lambda>c w. (Inr [], w))) (\<lambda>_. None) 31000000 (sb, m) (db2, ()) = (Inr (), db3, ()) \<and> map sg_Status (sagas db3) = [SagaCompleted]
    \<and> report_failure (\<lambda>_. None) 32000000 sa ''late'' (db3, ()) = (Inr (), db4, ())
    \<and> map sg_Status (sagas db4) = [SagaRunning] \<and> map sp_Status (saga_steps db4) = [StepPending]
    \<and> claim_command [] ''c'' 33000000 (db4, ()) = (Inr (Some (sc, m)), db5, ()) \<and> sp_CommandID sc = sp_CommandID sb"
  using saga_late_failure_reopens [OF sample_saga_created, of "\<lambda>_. Some (\<lambda>c w. (Inr [], w))" "\<lambda>c w. (Inr [], w)" "[]" "\<lambda>w. w" 0 30000000 32000000
      33000000 "()" "\<lambda>_. None" 31000000 "''late''"]
  by (simp add: sample_saga_input_def leaseTTL_def)

end
