(* ===== verification/EventSchema.thy ===== *)
theory EventSchema
  imports Outbox "HOL-Library.List_Lexorder" "HOL-Library.Char_ord"
begin

text \<open>
  The registry of event schemas (\<open>internal/eventschema\<close>): documents, the validation and compatibility checks of
  \<open>compat.go\<close>, versions, rollouts, and the versions the outbox publishes. The properties give the checks
  a meaning: an abstract validator says which JSON values conform to a document, and a version that passes the
  check can be read by the consumers of the one it was compared with.
\<close>

section \<open>Documents\<close>

text \<open>A \<open>Document\<close> and a \<open>FieldSchema\<close> have the same fields; the keys of the map of properties are distinct.\<close>

datatype document = Document (d_Type: string) (d_Properties: "(string \<times> document) list") (d_Required: "string list")

datatype schema_error = ErrSchemaNotFound | ErrSchemaAlreadyExists | ErrSchemaVersionNotFound | ErrSchemaVersionExists | ErrIncompatibleSchema
  | ErrNoActiveSchemaVersion | ErrSchemaRolloutNotFound | ErrInvalidSchemaDocument | ErrInvalidSchemaRollout | SchemaConstraint

definition requiredEnvelopeFields :: "string list" where
  "requiredEnvelopeFields = [''event_id'', ''event_type'', ''occurred_at'', ''correlation_id'', ''causation_id'', ''schema_version'', ''merchant_id'', ''payload'']"

definition envelope_field_ok :: "document \<Rightarrow> string \<Rightarrow> bool" where
  "envelope_field_ok doc field =
     (case map_of (d_Properties doc) field of
        None \<Rightarrow> False
      | Some def \<Rightarrow> field \<in> set (d_Required doc) \<and> (field = ''payload'' \<longrightarrow> d_Type def = ''object''))"

definition ValidateDocument :: "document \<Rightarrow> schema_error + unit" where
  "ValidateDocument doc =
     (if d_Type doc \<noteq> ''object'' then Inl ErrInvalidSchemaDocument
      else if list_all (envelope_field_ok doc) requiredEnvelopeFields then Inr ()
      else Inl ErrInvalidSchemaDocument)"

definition joinPath :: "string \<Rightarrow> string \<Rightarrow> string" where
  "joinPath pre field = (if pre = '''' then field else pre @ ''.'' @ field)"

lemma document_size [termination_simp]: "(f, d) \<in> set ps \<Longrightarrow> size d < Suc (size_list (size_prod (\<lambda>_. 0) size) ps)"
  by (induction ps) auto

section \<open>Compatibility\<close>

function compareFields :: "document \<Rightarrow> document \<Rightarrow> string \<Rightarrow> string list" where
  "compareFields (Document pt pps prq) candidate pre =
     sort (concat (map (\<lambda>(field, prevDef).
             let path = joinPath pre field in
             case map_of (d_Properties candidate) field of
               None \<Rightarrow> [''missing field '' @ path]
             | Some candidateDef \<Rightarrow>
                 if d_Type prevDef \<noteq> d_Type candidateDef
                 then [''field '' @ path @ '' changed type from '' @ d_Type prevDef @ '' to '' @ d_Type candidateDef]
                 else (if field \<in> set prq \<and> field \<notin> set (d_Required candidate) then [''field '' @ path @ '' is no longer required''] else [])
                    @ (if field \<notin> set prq \<and> field \<in> set (d_Required candidate) then [''field '' @ path @ '' became newly required''] else [])
                    @ (if d_Type prevDef = ''object'' then compareFields prevDef candidateDef path else [])) pps)
         @ concat (map (\<lambda>(field, _).
             if map_of pps field = None \<and> field \<in> set (d_Required candidate) then [''new field '' @ joinPath pre field @ '' is required''] else [])
             (d_Properties candidate)))"
  by pat_completeness auto
termination by (relation "measure (\<lambda>(p, _, _). size p)") (auto simp: document_size)

function compareForwardCompatibleFields :: "document \<Rightarrow> document \<Rightarrow> string \<Rightarrow> string list" where
  "compareForwardCompatibleFields (Document ft fps frq) current pre =
     sort (concat (map (\<lambda>(field, futureDef).
             let path = joinPath pre field in
             case map_of (d_Properties current) field of
               None \<Rightarrow> if field \<in> set frq then [''missing required field '' @ path] else []
             | Some currentDef \<Rightarrow>
                 if d_Type futureDef \<noteq> d_Type currentDef
                 then [''field '' @ path @ '' changed type from '' @ d_Type currentDef @ '' to '' @ d_Type futureDef]
                 else (if field \<in> set (d_Required current) \<and> field \<notin> set frq then [''field '' @ path @ '' is no longer required''] else [])
                    @ (if d_Type futureDef = ''object'' then compareForwardCompatibleFields futureDef currentDef path else [])) fps))"
  by pat_completeness auto
termination by (relation "measure (\<lambda>(p, _, _). size p)") (auto simp: document_size)

datatype check_type = CheckBackward | CheckForward

record compat_check =
  cc_Subject :: string
  cc_CandidateVersion :: string
  cc_BaselineVersion :: string
  cc_CheckType :: check_type
  cc_Compatible :: bool
  cc_Summary :: string
  cc_Problems :: "string list"

definition CheckCompatibility :: "document \<Rightarrow> document \<Rightarrow> compat_check list" where
  "CheckCompatibility previous candidate =
     (let backwardProblems = compareFields previous candidate '''';
          forwardProblems = compareForwardCompatibleFields candidate previous '''' in
      [\<lparr>cc_Subject = '''', cc_CandidateVersion = '''', cc_BaselineVersion = '''', cc_CheckType = CheckBackward,
        cc_Compatible = (backwardProblems = []),
        cc_Summary = (if backwardProblems = [] then ''backward compatible'' else ''backward compatibility check failed''), cc_Problems = backwardProblems\<rparr>,
       \<lparr>cc_Subject = '''', cc_CandidateVersion = '''', cc_BaselineVersion = '''', cc_CheckType = CheckForward,
        cc_Compatible = (forwardProblems = []),
        cc_Summary = (if forwardProblems = [] then ''forward compatible'' else ''forward compatibility check failed''), cc_Problems = forwardProblems\<rparr>])"

section \<open>The registry\<close>

datatype version_status = SchemaDraft | SchemaActive | SchemaDeprecated | SchemaRetired

datatype rollout_status = RolloutPlanned | RolloutDualPublish | RolloutCompleted | RolloutRolledBack

record event_schema =
  es_Subject :: string
  es_EventType :: string
  es_TopicName :: string
  es_Owner :: string
  es_ReviewLink :: string

record version =
  vn_Subject :: string
  vn_Version :: string
  vn_Status :: version_status
  vn_Schema :: document
  vn_SamplePayload :: payload
  vn_ReviewLink :: string
  vn_CompatSummary :: string
  vn_ActivatedAt :: "time option"
  vn_DeprecatedAt :: "time option"
  vn_CreatedAt :: time

record rollout_consumer =
  rc_ConsumerName :: string
  rc_AcknowledgedVersion :: string
  rc_AcknowledgedAt :: time

record rollout =
  ro_ID :: id
  ro_Subject :: string
  ro_FromVersion :: string
  ro_ToVersion :: string
  ro_Status :: rollout_status
  ro_CutoverDeadline :: "time option"
  ro_Notes :: string
  ro_CreatedAt :: time
  ro_Consumers :: "rollout_consumer list"

record schema_db =
  sc_schemas :: "event_schema list"
  sc_versions :: "version list"
  sc_checks :: "compat_check list"
  sc_rollouts :: "rollout list"

text \<open>
  \<open>isUniqueViolation\<close> looks for the error type of an older driver than the one in use and never finds it, so a
  violated unique constraint surfaces as an error of the database.
\<close>

definition CreateSchema :: "event_schema \<Rightarrow> schema_db \<Rightarrow> schema_error + event_schema \<times> schema_db" where
  "CreateSchema s db =
     (if es_Subject s \<in> es_Subject ` set (sc_schemas db) then Inl SchemaConstraint
      else Inr (s, db\<lparr>sc_schemas := sc_schemas db @ [s]\<rparr>))"

definition GetSchemaRow :: "string \<Rightarrow> schema_db \<Rightarrow> schema_error + event_schema" where
  "GetSchemaRow subject db = (case find (\<lambda>s. es_Subject s = subject) (sc_schemas db) of None \<Rightarrow> Inl ErrSchemaNotFound | Some s \<Rightarrow> Inr s)"

definition version_at :: "string \<Rightarrow> string \<Rightarrow> version \<Rightarrow> bool" where
  "version_at subject ver v \<longleftrightarrow> vn_Subject v = subject \<and> vn_Version v = ver"

definition GetVersion :: "string \<Rightarrow> string \<Rightarrow> schema_db \<Rightarrow> schema_error + version" where
  "GetVersion subject ver db = (case find (version_at subject ver) (sc_versions db) of None \<Rightarrow> Inl ErrSchemaVersionNotFound | Some v \<Rightarrow> Inr v)"

definition ListVersions :: "string \<Rightarrow> schema_db \<Rightarrow> version list" where
  "ListVersions subject db = sort_key vn_CreatedAt (filter (\<lambda>v. vn_Subject v = subject) (sc_versions db))"

definition GetActiveVersion :: "string \<Rightarrow> schema_db \<Rightarrow> schema_error + version" where
  "GetActiveVersion subject db =
     (let active = sort_key (\<lambda>v. - vn_CreatedAt v) (filter (\<lambda>v. vn_Subject v = subject \<and> vn_Status v = SchemaActive) (sc_versions db));
          dated = sort_key (\<lambda>v. - the (vn_ActivatedAt v)) (filter (\<lambda>v. vn_ActivatedAt v \<noteq> None) active);
          undated = filter (\<lambda>v. vn_ActivatedAt v = None) active in
      case dated @ undated of [] \<Rightarrow> Inl ErrNoActiveSchemaVersion | v # _ \<Rightarrow> Inr v)"

record version_input =
  vi_Subject :: string
  vi_Version :: string
  vi_Schema :: document
  vi_SamplePayload :: payload
  vi_ReviewLink :: string

definition CreateVersion :: "time \<Rightarrow> version_input \<Rightarrow> compat_check list \<Rightarrow> schema_db \<Rightarrow> schema_error + version \<times> schema_db" where
  "CreateVersion now inp checks db =
     (if vi_Subject inp \<notin> es_Subject ` set (sc_schemas db) \<or> list_ex (version_at (vi_Subject inp) (vi_Version inp)) (sc_versions db)
      then Inl SchemaConstraint
      else
        let v = \<lparr>vn_Subject = vi_Subject inp, vn_Version = vi_Version inp, vn_Status = SchemaDraft, vn_Schema = vi_Schema inp,
                 vn_SamplePayload = vi_SamplePayload inp, vn_ReviewLink = vi_ReviewLink inp,
                 vn_CompatSummary = (case checks of [] \<Rightarrow> ''initial version'' | c # _ \<Rightarrow> cc_Summary c),
                 vn_ActivatedAt = None, vn_DeprecatedAt = None, vn_CreatedAt = now\<rparr> in
        Inr (v, db\<lparr>sc_versions := sc_versions db @ [v], sc_checks := sc_checks db @ checks\<rparr>))"

definition label_check :: "string \<Rightarrow> string \<Rightarrow> string \<Rightarrow> compat_check \<Rightarrow> compat_check" where
  "label_check subject candidate baseline c = c\<lparr>cc_Subject := subject, cc_CandidateVersion := candidate, cc_BaselineVersion := baseline\<rparr>"

definition RegisterVersion :: "time \<Rightarrow> version_input \<Rightarrow> schema_db \<Rightarrow> schema_error + (version \<times> compat_check list) \<times> schema_db" where
  "RegisterVersion now inp db =
     bindR (ValidateDocument (vi_Schema inp)) (\<lambda>_.
       case GetActiveVersion (vi_Subject inp) db of
         Inr previous \<Rightarrow>
           let checks = map (label_check (vi_Subject inp) (vi_Version inp) (vn_Version previous)) (CheckCompatibility (vn_Schema previous) (vi_Schema inp)) in
           if list_ex (\<lambda>c. \<not> cc_Compatible c) checks then Inl ErrIncompatibleSchema
           else bindR (CreateVersion now inp checks db) (\<lambda>(v, db'). Inr ((v, checks), db'))
       | Inl ErrNoActiveSchemaVersion \<Rightarrow> bindR (CreateVersion now inp [] db) (\<lambda>(v, db'). Inr ((v, []), db'))
       | Inl e \<Rightarrow> Inl e)"

definition ActivateVersionRepo :: "time \<Rightarrow> string \<Rightarrow> string \<Rightarrow> schema_db \<Rightarrow> schema_error + version \<times> schema_db" where
  "ActivateVersionRepo now subject ver db =
     (let vs = upd_where (\<lambda>v. vn_Subject v = subject \<and> vn_Status v = SchemaActive)
                 (\<lambda>v. v\<lparr>vn_Status := SchemaDeprecated, vn_DeprecatedAt := Some now\<rparr>) (sc_versions db);
          vs' = upd_where (version_at subject ver)
                 (\<lambda>v. v\<lparr>vn_Status := SchemaActive, vn_ActivatedAt := Some now, vn_DeprecatedAt := None\<rparr>) vs in
      case find (version_at subject ver) vs' of
        None \<Rightarrow> Inl ErrSchemaVersionNotFound
      | Some v \<Rightarrow>
          Inr (v, db\<lparr>sc_versions := vs',
                     sc_rollouts := upd_where (\<lambda>r. ro_Subject r = subject \<and> ro_Status r = RolloutDualPublish \<and> ro_ToVersion r = ver)
                       (\<lambda>r. r\<lparr>ro_Status := RolloutCompleted\<rparr>) (sc_rollouts db)\<rparr>))"

definition ActivateVersion :: "time \<Rightarrow> string \<Rightarrow> string \<Rightarrow> schema_db \<Rightarrow> schema_error + version \<times> schema_db" where
  "ActivateVersion now subject ver db =
     bindR (GetVersion subject ver db) (\<lambda>v. bindR (ValidateDocument (vn_Schema v)) (\<lambda>_. ActivateVersionRepo now subject ver db))"

definition CompareVersions :: "string \<Rightarrow> string \<Rightarrow> string \<Rightarrow> schema_db \<Rightarrow> schema_error + compat_check list" where
  "CompareVersions subject from to db =
     bindR (GetVersion subject from db) (\<lambda>f. bindR (GetVersion subject to db) (\<lambda>t.
       Inr (map (label_check subject to from) (CheckCompatibility (vn_Schema f) (vn_Schema t)))))"

section \<open>Rollouts\<close>

definition CreateRollout :: "id \<Rightarrow> time \<Rightarrow> string \<Rightarrow> string \<Rightarrow> string \<Rightarrow> time option \<Rightarrow> string \<Rightarrow> schema_db \<Rightarrow> schema_error + rollout \<times> schema_db" where
  "CreateRollout rid now subject from to deadline notes db =
     (if from = to then Inl ErrInvalidSchemaRollout
      else bindR (GetActiveVersion subject db) (\<lambda>active.
        if vn_Version active \<noteq> from then Inl ErrInvalidSchemaRollout
        else bindR (GetVersion subject to db) (\<lambda>target.
          if vn_Status target = SchemaRetired then Inl ErrInvalidSchemaRollout
          else if rid \<in> ro_ID ` set (sc_rollouts db) then Inl SchemaConstraint
          else
            let r = \<lparr>ro_ID = rid, ro_Subject = subject, ro_FromVersion = from, ro_ToVersion = to, ro_Status = RolloutDualPublish,
                     ro_CutoverDeadline = deadline, ro_Notes = notes, ro_CreatedAt = now, ro_Consumers = []\<rparr> in
            Inr (r, db\<lparr>sc_rollouts := sc_rollouts db @ [r]\<rparr>))))"

definition GetRollout :: "id \<Rightarrow> schema_db \<Rightarrow> schema_error + rollout" where
  "GetRollout rid db =
     (case find (\<lambda>r. ro_ID r = rid) (sc_rollouts db) of
        None \<Rightarrow> Inl ErrSchemaRolloutNotFound | Some r \<Rightarrow> Inr (r\<lparr>ro_Consumers := sort_key rc_ConsumerName (ro_Consumers r)\<rparr>))"

definition GetActiveRollout :: "string \<Rightarrow> schema_db \<Rightarrow> schema_error + rollout" where
  "GetActiveRollout subject db =
     (case sort_key (\<lambda>r. - ro_CreatedAt r) (filter (\<lambda>r. ro_Subject r = subject \<and> ro_Status r = RolloutDualPublish) (sc_rollouts db)) of
        [] \<Rightarrow> Inl ErrSchemaRolloutNotFound | r # _ \<Rightarrow> Inr r)"

definition put_consumer :: "rollout_consumer \<Rightarrow> rollout_consumer list \<Rightarrow> rollout_consumer list" where
  "put_consumer c cs =
     (if rc_ConsumerName c \<in> rc_ConsumerName ` set cs
      then upd_where (\<lambda>x. rc_ConsumerName x = rc_ConsumerName c)
             (\<lambda>x. x\<lparr>rc_AcknowledgedVersion := rc_AcknowledgedVersion c, rc_AcknowledgedAt := rc_AcknowledgedAt c\<rparr>) cs
      else cs @ [c])"

definition AckRollout :: "time \<Rightarrow> id \<Rightarrow> string \<Rightarrow> string \<Rightarrow> schema_db \<Rightarrow> schema_error + schema_db" where
  "AckRollout now rid consumer ver db =
     bindR (GetRollout rid db) (\<lambda>r.
       if ver \<noteq> ro_FromVersion r \<and> ver \<noteq> ro_ToVersion r then Inl ErrInvalidSchemaRollout
       else Inr (db\<lparr>sc_rollouts := upd_where (\<lambda>r. ro_ID r = rid)
              (\<lambda>r. r\<lparr>ro_Consumers := put_consumer \<lparr>rc_ConsumerName = consumer, rc_AcknowledgedVersion = ver, rc_AcknowledgedAt = now\<rparr> (ro_Consumers r)\<rparr>)
              (sc_rollouts db)\<rparr>))"

definition deprecated_alert :: "time \<Rightarrow> rollout \<Rightarrow> rollout_consumer \<Rightarrow> bool" where
  "deprecated_alert now r c \<longleftrightarrow>
     ro_Status r = RolloutDualPublish \<and> (case ro_CutoverDeadline r of None \<Rightarrow> False | Some t \<Rightarrow> t < now) \<and> rc_AcknowledgedVersion c = ro_FromVersion r"

definition ListDeprecatedVersionAlerts :: "time \<Rightarrow> schema_db \<Rightarrow> (rollout \<times> rollout_consumer) list" where
  "ListDeprecatedVersionAlerts now db =
     sort_key (\<lambda>(r, _). the (ro_CutoverDeadline r)) (sort_key (\<lambda>(r, _). ro_Subject r) (sort_key (\<lambda>(_, c). rc_ConsumerName c)
       (concat (map (\<lambda>r. map (Pair r) (filter (deprecated_alert now r) (ro_Consumers r))) (sc_rollouts db)))))"

definition ResolvePublishVersions :: "string \<Rightarrow> schema_db \<Rightarrow> schema_error + schema_version list" where
  "ResolvePublishVersions subject db =
     bindR (GetActiveVersion subject db) (\<lambda>active.
       case GetActiveRollout subject db of
         Inr r \<Rightarrow> if ro_FromVersion r \<noteq> vn_Version active then Inr [\<lparr>sv_Subject = subject, sv_Version = vn_Version active\<rparr>]
                  else Inr [\<lparr>sv_Subject = subject, sv_Version = ro_FromVersion r\<rparr>, \<lparr>sv_Subject = subject, sv_Version = ro_ToVersion r\<rparr>]
       | Inl ErrSchemaRolloutNotFound \<Rightarrow> Inr [\<lparr>sv_Subject = subject, sv_Version = vn_Version active\<rparr>]
       | Inl e \<Rightarrow> Inl e)"

section \<open>Bootstrapping from the fixtures\<close>

text \<open>
  \<open>fixtures\<close>: the directories with their versions in ascending order (\<open>compareVersions\<close>) and what the files hold.
  Every call of the service is a transaction of its own; an error ends the bootstrap and leaves what was done.
\<close>

type_synonym fixture = "string \<times> (string \<times> document \<times> payload) list"

definition ensure_schema :: "string \<Rightarrow> string \<Rightarrow> schema_db \<Rightarrow> schema_error + schema_db" where
  "ensure_schema owner subject db =
     (case GetSchemaRow subject db of
        Inr _ \<Rightarrow> Inr db
      | Inl ErrSchemaNotFound \<Rightarrow>
          bindR (CreateSchema \<lparr>es_Subject = subject, es_EventType = subject, es_TopicName = TopicForEvent subject, es_Owner = owner,
                   es_ReviewLink = ''schemas/events/'' @ subject\<rparr> db) (\<lambda>(_, db'). Inr db')
      | Inl e \<Rightarrow> Inl e)"

definition ensure_version :: "time \<Rightarrow> string \<Rightarrow> string \<times> document \<times> payload \<Rightarrow> schema_db \<Rightarrow> schema_error + schema_db" where
  "ensure_version now subject fx db =
     (case fx of (ver, doc, sample) \<Rightarrow>
      case GetVersion subject ver db of
        Inr _ \<Rightarrow> Inr db
      | Inl ErrSchemaVersionNotFound \<Rightarrow>
          bindR (RegisterVersion now \<lparr>vi_Subject = subject, vi_Version = ver, vi_Schema = doc, vi_SamplePayload = sample,
                   vi_ReviewLink = ''schemas/events/'' @ subject @ ''/'' @ ver @ ''.schema.json''\<rparr> db) (\<lambda>(_, db'). Inr db')
      | Inl e \<Rightarrow> Inl e)"

text \<open>\<open>active\<close> is the active version, if any; the first fixture is activated when there is none.\<close>

fun bootstrap_versions ::
  "time \<Rightarrow> string \<Rightarrow> string option \<Rightarrow> bool \<Rightarrow> (string \<times> document \<times> payload) list \<Rightarrow> schema_db \<Rightarrow> schema_error + string option \<times> schema_db" where
  "bootstrap_versions now subject active first [] db = Inr (active, db)"
| "bootstrap_versions now subject active first (fx # fxs) db =
     bindR (ensure_version now subject fx db) (\<lambda>db1.
       if active = None \<and> first
       then bindR (ActivateVersion now subject (fst fx) db1) (\<lambda>(_, db2). bootstrap_versions now subject (Some (fst fx)) False fxs db2)
       else bootstrap_versions now subject active False fxs db1)"

definition bootstrap_subject :: "time \<Rightarrow> string \<Rightarrow> fixture \<Rightarrow> schema_db \<Rightarrow> schema_error + schema_db" where
  "bootstrap_subject now owner fx db =
     (case fx of (subject, versions) \<Rightarrow>
      bindR (ensure_schema owner subject db) (\<lambda>db1.
        if versions = [] then Inr db1
        else
          let active = (case GetActiveVersion subject db1 of Inr v \<Rightarrow> Some (vn_Version v) | Inl _ \<Rightarrow> None) in
          bindR (bootstrap_versions now subject active True versions db1) (\<lambda>(active', db2).
            let latest = fst (last versions) in
            if active' \<noteq> None \<and> active' \<noteq> Some latest
            then bindR (ActivateVersion now subject latest db2) (\<lambda>(_, db3). Inr db3)
            else Inr db2)))"

fun BootstrapFromFixtures :: "time \<Rightarrow> string \<Rightarrow> fixture list \<Rightarrow> schema_db \<Rightarrow> schema_error + schema_db" where
  "BootstrapFromFixtures now owner [] db = Inr db"
| "BootstrapFromFixtures now owner (fx # fxs) db = bindR (bootstrap_subject now owner fx db) (BootstrapFromFixtures now owner fxs)"

section \<open>What compatibility means\<close>

text \<open>
  An abstract validator: a JSON value conforms to a document of type object when it is an object, has the required
  fields, and every declared field it has conforms in turn; to any other document when it has its type.
  \<open>declared\<close> says that a value has no fields the document does not declare.
\<close>

datatype json = JObject "(string \<times> json) list" | JOther string string

definition json_type :: "json \<Rightarrow> string" where
  "json_type v = (case v of JObject _ \<Rightarrow> ''object'' | JOther t _ \<Rightarrow> t)"

function conforms :: "document \<Rightarrow> json \<Rightarrow> bool" where
  "conforms (Document t ps rq) v \<longleftrightarrow>
     (if t = ''object''
      then (case v of
              JObject fs \<Rightarrow> (\<forall>r \<in> set rq. map_of fs r \<noteq> None)
                \<and> (\<forall>(f, d) \<in> set ps. case map_of fs f of None \<Rightarrow> True | Some w \<Rightarrow> conforms d w)
            | JOther _ _ \<Rightarrow> False)
      else json_type v = t)"
  by pat_completeness auto
termination by (relation "measure (\<lambda>(p, _). size p)") (auto simp: document_size)

function declared :: "document \<Rightarrow> json \<Rightarrow> bool" where
  "declared (Document t ps rq) v \<longleftrightarrow>
     (t = ''object'' \<longrightarrow>
       (case v of
          JObject fs \<Rightarrow> fst ` set fs \<subseteq> fst ` set ps
            \<and> (\<forall>(f, d) \<in> set ps. case map_of fs f of None \<Rightarrow> True | Some w \<Rightarrow> declared d w)
        | JOther _ _ \<Rightarrow> True))"
  by pat_completeness auto
termination by (relation "measure (\<lambda>(p, _). size p)") (auto simp: document_size)

function doc_wf :: "document \<Rightarrow> bool" where
  "doc_wf (Document t ps rq) \<longleftrightarrow> distinct (map fst ps) \<and> set rq \<subseteq> fst ` set ps \<and> (\<forall>(f, d) \<in> set ps. doc_wf d)"
  by pat_completeness auto
termination by (relation "measure size") (auto simp: document_size)

function compat_doc :: "document \<Rightarrow> document \<Rightarrow> bool" where
  "compat_doc (Document pt pps prq) cand \<longleftrightarrow>
     (\<forall>(f, d) \<in> set pps. case map_of (d_Properties cand) f of
        None \<Rightarrow> False
      | Some c \<Rightarrow> d_Type d = d_Type c \<and> (f \<in> set prq \<longleftrightarrow> f \<in> set (d_Required cand)) \<and> (d_Type d = ''object'' \<longrightarrow> compat_doc d c))
   \<and> (\<forall>(f, _) \<in> set (d_Properties cand). map_of pps f = None \<longrightarrow> f \<notin> set (d_Required cand))"
  by pat_completeness auto
termination by (relation "measure (\<lambda>(p, _). size p)") (auto simp: document_size)

lemma sort_Nil_iff: "sort xs = [] \<longleftrightarrow> xs = []"
  by (metis length_0_conv length_sort)

lemma compareFields_iff: "compareFields prev cand pre = [] \<longleftrightarrow> compat_doc prev cand"
proof (induction prev cand pre rule: compareFields.induct)
  case (1 pt pps prq cand pre)
  have "(let path = joinPath pre f in case map_of (d_Properties cand) f of None \<Rightarrow> [''missing field '' @ path]
         | Some c \<Rightarrow> if d_Type d \<noteq> d_Type c then [''field '' @ path @ '' changed type from '' @ d_Type d @ '' to '' @ d_Type c]
             else (if f \<in> set prq \<and> f \<notin> set (d_Required cand) then [''field '' @ path @ '' is no longer required''] else [])
                @ (if f \<notin> set prq \<and> f \<in> set (d_Required cand) then [''field '' @ path @ '' became newly required''] else [])
                @ (if d_Type d = ''object'' then compareFields d c path else [])) = []
      \<longleftrightarrow> (case map_of (d_Properties cand) f of None \<Rightarrow> False
         | Some c \<Rightarrow> d_Type d = d_Type c \<and> (f \<in> set prq \<longleftrightarrow> f \<in> set (d_Required cand)) \<and> (d_Type d = ''object'' \<longrightarrow> compat_doc d c))"
    if "(f, d) \<in> set pps" for f d
    using 1 [OF that refl refl] by (auto simp: Let_def split: option.splits)
  then show ?case
    by (simp add: sort_Nil_iff concat_eq_Nil_conv split_beta del: compat_doc.simps) (auto simp: split_beta)
qed

lemma compatD:
  assumes "compat_doc p c" "(f, d) \<in> set (d_Properties p)"
  obtains e where "map_of (d_Properties c) f = Some e" "d_Type d = d_Type e" "f \<in> set (d_Required p) \<longleftrightarrow> f \<in> set (d_Required c)"
    "d_Type d = ''object'' \<Longrightarrow> compat_doc d e"
  using assms by (cases p) (force split: option.splits)

lemma compat_newD:
  "compat_doc p c \<Longrightarrow> map_of (d_Properties c) f = Some e \<Longrightarrow> map_of (d_Properties p) f = None \<Longrightarrow> f \<notin> set (d_Required c)"
  by (cases p) (force dest: map_of_SomeD)

lemma doc_wfD:
  assumes "doc_wf p"
  shows "distinct (map fst (d_Properties p))" "set (d_Required p) \<subseteq> fst ` set (d_Properties p)" "(f, d) \<in> set (d_Properties p) \<Longrightarrow> doc_wf d"
  using assms by (cases p; force)+

text \<open>The forward check refuses nothing the backward check accepts.\<close>

lemma forward_check_implied:
  "compat_doc prev cand \<Longrightarrow> doc_wf prev \<Longrightarrow> doc_wf cand \<Longrightarrow> compareForwardCompatibleFields cand prev pre = []"
proof (induction cand prev pre rule: compareForwardCompatibleFields.induct)
  case (1 ft fps frq prev pre)
  let ?cand = "Document ft fps frq"
  have "(let path = joinPath pre f in case map_of (d_Properties prev) f of None \<Rightarrow> if f \<in> set frq then [''missing required field '' @ path] else []
         | Some c \<Rightarrow> if d_Type d \<noteq> d_Type c then [''field '' @ path @ '' changed type from '' @ d_Type c @ '' to '' @ d_Type d]
             else (if f \<in> set (d_Required prev) \<and> f \<notin> set frq then [''field '' @ path @ '' is no longer required''] else [])
                @ (if d_Type d = ''object'' then compareForwardCompatibleFields d c path else [])) = []"
    if mem: "(f, d) \<in> set fps" for f d
  proof (cases "map_of (d_Properties prev) f")
    case None
    have "map_of fps f = Some d" using doc_wfD(1) [OF 1(4)] mem by simp
    then show ?thesis using compat_newD [OF 1(2), of f d] None by simp
  next
    case (Some c)
    then have c: "(f, c) \<in> set (d_Properties prev)" by (rule map_of_SomeD)
    obtain e where e: "map_of fps f = Some e" "d_Type c = d_Type e" "f \<in> set (d_Required prev) \<longleftrightarrow> f \<in> set frq"
      "d_Type c = ''object'' \<Longrightarrow> compat_doc c e" using compatD [OF 1(2) c] by auto
    have "e = d" using doc_wfD(1) [OF 1(4)] mem e(1) by simp
    moreover have "doc_wf c" "doc_wf d" using doc_wfD(3) [OF 1(3) c] doc_wfD(3) [OF 1(4)] mem by auto
    ultimately show ?thesis using 1(1) [OF mem refl refl Some] e Some by (simp add: Let_def)
  qed
  then show ?case by (auto simp: sort_Nil_iff split_beta)
qed

lemma conforms_other: "d_Type d \<noteq> ''object'' \<Longrightarrow> conforms d v \<longleftrightarrow> json_type v = d_Type d"
  by (cases d) simp

text \<open>Consumers of the old version can read what conforms to the new one.\<close>

lemma new_events_readable:
  "compat_doc prev cand \<Longrightarrow> doc_wf prev \<Longrightarrow> d_Type prev = d_Type cand \<Longrightarrow> conforms cand v \<Longrightarrow> conforms prev v"
proof (induction prev cand arbitrary: v rule: compat_doc.induct)
  case (1 t pps prq cand)
  let ?prev = "Document t pps prq"
  obtain cps crq where cand: "cand = Document t cps crq" using 1(4) by (cases cand) simp
  show ?case
  proof (cases "t = ''object''")
    case False
    then show ?thesis using 1(5) by (simp add: cand)
  next
    case True
    with 1(5) cand obtain fs where fs: "v = JObject fs" "\<And>r. r \<in> set crq \<Longrightarrow> map_of fs r \<noteq> None"
      "\<And>f d. (f, d) \<in> set cps \<Longrightarrow> case map_of fs f of None \<Rightarrow> True | Some w \<Rightarrow> conforms d w"
      by (auto split: json.splits)
    have "map_of fs r \<noteq> None" if r: "r \<in> set prq" for r
    proof -
      obtain d where "(r, d) \<in> set pps" using doc_wfD(2) [OF 1(3)] r by auto
      then show ?thesis using compatD [OF 1(2), of r d] fs(2) r by (auto simp: cand)
    qed
    moreover have "conforms d w" if mem: "(f, d) \<in> set pps" and w: "map_of fs f = Some w" for f d w
    proof -
      obtain e where e: "map_of cps f = Some e" "d_Type d = d_Type e" "d_Type d = ''object'' \<Longrightarrow> compat_doc d e"
        using compatD [OF 1(2), of f d] mem by (auto simp: cand)
      have ce: "conforms e w" using fs(3) [OF map_of_SomeD [OF e(1)]] w by simp
      have wf: "doc_wf d" using doc_wfD(3) [OF 1(3)] mem by simp
      show ?thesis
      proof (cases "d_Type d = ''object''")
        case True
        then show ?thesis using 1(1) [OF mem refl _ _ e(3)] e ce wf by (simp add: cand)
      next
        case False
        then show ?thesis using ce e(2) by (simp add: conforms_other)
      qed
    qed
    ultimately show ?thesis using True fs(1) by (auto split: option.splits)
  qed
qed

text \<open>Consumers of the new version can read what conforms to the old one and has no undeclared fields.\<close>

lemma old_events_readable:
  "compat_doc prev cand \<Longrightarrow> doc_wf cand \<Longrightarrow> d_Type prev = d_Type cand \<Longrightarrow> conforms prev v \<Longrightarrow> declared prev v \<Longrightarrow> conforms cand v"
proof (induction prev cand arbitrary: v rule: compat_doc.induct)
  case (1 t pps prq cand)
  obtain cps crq where cand: "cand = Document t cps crq" using 1(4) by (cases cand) simp
  show ?case
  proof (cases "t = ''object''")
    case False
    then show ?thesis using 1(5) by (simp add: cand)
  next
    case True
    with 1(5) obtain fs where v: "v = JObject fs" by (auto split: json.splits)
    have c: "\<forall>r \<in> set prq. map_of fs r \<noteq> None" "\<forall>(f, d) \<in> set pps. case map_of fs f of None \<Rightarrow> True | Some w \<Rightarrow> conforms d w"
      using 1(5) True v by simp_all
    have d: "fst ` set fs \<subseteq> fst ` set pps" "\<forall>(f, d) \<in> set pps. case map_of fs f of None \<Rightarrow> True | Some w \<Rightarrow> declared d w"
      using 1(6) True v by simp_all
    have sub: "conforms d w \<and> declared d w" if "(f, d) \<in> set pps" "map_of fs f = Some w" for f d w
      using bspec [OF c(2) that(1)] bspec [OF d(2) that(1)] that(2) by simp
    have "map_of fs r \<noteq> None" if r: "r \<in> set crq" for r
    proof -
      have "r \<in> fst ` set cps" using doc_wfD(2) [OF 1(3)] r by (auto simp: cand)
      then obtain e where e: "map_of cps r = Some e" by (metis map_of_eq_None_iff not_None_eq)
      have "map_of pps r \<noteq> None" using compat_newD [OF 1(2), of r e] e r by (auto simp: cand)
      then obtain d where "(r, d) \<in> set pps" by (auto dest: map_of_SomeD)
      then show ?thesis using compatD [OF 1(2), of r d] c(1) r by (auto simp: cand)
    qed
    moreover have "conforms e w" if mem: "(f, e) \<in> set cps" and w: "map_of fs f = Some w" for f e w
    proof -
      have "f \<in> fst ` set pps" using d(1) map_of_SomeD [OF w] by force
      then obtain d where d: "(f, d) \<in> set pps" by auto
      obtain e' where e': "map_of cps f = Some e'" "d_Type d = d_Type e'" "d_Type d = ''object'' \<Longrightarrow> compat_doc d e'"
        using compatD [OF 1(2), of f d] d by (auto simp: cand)
      have "e' = e" using doc_wfD(1) [OF 1(3)] mem e'(1) by (simp add: cand)
      note e = e' [unfolded this]
      have cd: "conforms d w" "declared d w" using sub [OF d w] by simp_all
      have wf: "doc_wf e" using doc_wfD(3) [OF 1(3)] mem by (simp add: cand)
      show ?thesis
      proof (cases "d_Type d = ''object''")
        case True
        then show ?thesis using 1(1) [OF d refl _ _ e(3)] e cd wf by (simp add: cand)
      next
        case False
        then show ?thesis using cd(1) e(2) by (simp add: conforms_other)
      qed
    qed
    ultimately show ?thesis using True v by (auto simp: cand split: option.splits)
  qed
qed

section \<open>The registry over time\<close>

inductive schema_step :: "schema_db \<Rightarrow> schema_db \<Rightarrow> bool" where
  create: "CreateSchema s db = Inr (r, db') \<Longrightarrow> schema_step db db'"
| register: "RegisterVersion now inp db = Inr (rv, db') \<Longrightarrow> schema_step db db'"
| activate: "ActivateVersion now subject ver db = Inr (v, db') \<Longrightarrow> schema_step db db'"
| rollout: "CreateRollout rid now subject from to deadline notes db = Inr (ro, db') \<Longrightarrow> schema_step db db'"
| ack: "AckRollout now rid consumer ver db = Inr db' \<Longrightarrow> schema_step db db'"

definition active_of :: "string \<Rightarrow> version list \<Rightarrow> version list" where
  "active_of subject vs = filter (\<lambda>v. vn_Subject v = subject \<and> vn_Status v = SchemaActive) vs"

definition schema_inv :: "schema_db \<Rightarrow> bool" where
  "schema_inv db \<longleftrightarrow> unique_key (\<lambda>v. (vn_Subject v, vn_Version v)) (sc_versions db)
     \<and> (\<forall>subject. length (active_of subject (sc_versions db)) \<le> 1)
     \<and> (\<forall>v \<in> set (sc_versions db). d_Type (vn_Schema v) = ''object'')"

lemma ValidateDocument_object: "ValidateDocument d = Inr () \<Longrightarrow> d_Type d = ''object''"
  by (auto simp: ValidateDocument_def split: if_splits)

lemma RegisterVersion_Inr:
  assumes "RegisterVersion now inp db = Inr ((v, checks), db')"
  shows "ValidateDocument (vi_Schema inp) = Inr ()" "CreateVersion now inp checks db = Inr (v, db')"
    "GetActiveVersion (vi_Subject inp) db = Inr prev \<Longrightarrow> compat_doc (vn_Schema prev) (vi_Schema inp)"
  using assms
  by (auto simp: RegisterVersion_def bindR_Inr_iff CheckCompatibility_def label_check_def Let_def compareFields_iff
      split: sum.splits schema_error.splits if_splits)

lemma CreateVersion_Inr:
  assumes "CreateVersion now inp checks db = Inr (v, db')"
  shows "sc_versions db' = sc_versions db @ [v]" "vn_Status v = SchemaDraft" "vn_Schema v = vi_Schema inp" "vn_Subject v = vi_Subject inp"
    "vn_Version v = vi_Version inp" "\<not> list_ex (version_at (vi_Subject inp) (vi_Version inp)) (sc_versions db)" "sc_rollouts db' = sc_rollouts db"
  using assms by (auto simp: CreateVersion_def Let_def split: if_splits)

definition deprecate :: "time \<Rightarrow> string \<Rightarrow> version list \<Rightarrow> version list" where
  "deprecate now subject vs = upd_where (\<lambda>v. vn_Subject v = subject \<and> vn_Status v = SchemaActive)
     (\<lambda>v. v\<lparr>vn_Status := SchemaDeprecated, vn_DeprecatedAt := Some now\<rparr>) vs"

definition make_active :: "time \<Rightarrow> string \<Rightarrow> string \<Rightarrow> version list \<Rightarrow> version list" where
  "make_active now subject ver vs = upd_where (version_at subject ver)
     (\<lambda>v. v\<lparr>vn_Status := SchemaActive, vn_ActivatedAt := Some now, vn_DeprecatedAt := None\<rparr>) vs"

lemma Activate_Inr:
  assumes "ActivateVersion now subject ver db = Inr (v, db')"
  shows "sc_versions db' = make_active now subject ver (deprecate now subject (sc_versions db))"
    "find (version_at subject ver) (sc_versions db') = Some v"
  using assms
  by (auto simp: ActivateVersion_def ActivateVersionRepo_def bindR_Inr_iff make_active_def deprecate_def Let_def split: option.splits)

lemma version_key_upd:
  "unique_key (\<lambda>v. (vn_Subject v, vn_Version v)) (make_active now subject ver (deprecate now subject vs))
     = unique_key (\<lambda>v. (vn_Subject v, vn_Version v)) vs"
  by (simp add: make_active_def deprecate_def)

lemma active_other: "s \<noteq> subject \<Longrightarrow> active_of s (make_active now subject ver (deprecate now subject vs)) = active_of s vs"
  by (induction vs) (auto simp: active_of_def make_active_def deprecate_def version_at_def)

lemma active_same:
  "active_of subject (make_active now subject ver (deprecate now subject vs))
     = filter (version_at subject ver) (make_active now subject ver (deprecate now subject vs))"
  by (induction vs) (auto simp: active_of_def make_active_def deprecate_def version_at_def)

lemma version_unique:
  assumes "unique_key (\<lambda>v. (vn_Subject v, vn_Version v)) vs" "find (version_at subject ver) vs = Some v"
  shows "filter (version_at subject ver) vs = [v]"
  by (rule filter_unique_key [OF assms(1)]) (use find_SomeD [OF assms(2)] in \<open>auto simp: version_at_def\<close>)

lemma schema_inv_activate:
  assumes "ActivateVersion now subject ver db = Inr (v, db')" "schema_inv db"
  shows "schema_inv db' \<and> active_of subject (sc_versions db') = [v] \<and> vn_Version v = ver \<and> (\<forall>s. s \<noteq> subject \<longrightarrow> active_of s (sc_versions db') = active_of s (sc_versions db))"
proof -
  note a = Activate_Inr [OF assms(1)]
  have u: "unique_key (\<lambda>v. (vn_Subject v, vn_Version v)) (sc_versions db')"
    using assms(2) by (simp add: a(1) version_key_upd schema_inv_def)
  have act: "active_of subject (sc_versions db') = [v]"
    using version_unique [OF u a(2)] by (simp add: a(1) active_same)
  have other: "active_of s (sc_versions db') = active_of s (sc_versions db)" if "s \<noteq> subject" for s
    using that by (simp add: a(1) active_other)
  have "\<forall>x \<in> set (sc_versions db'). d_Type (vn_Schema x) = ''object''"
    using assms(2) by (auto simp: a(1) make_active_def deprecate_def schema_inv_def set_upd_where)
  moreover have "length (active_of s (sc_versions db')) \<le> 1" for s
    using act other [of s] assms(2) by (cases "s = subject") (simp_all add: schema_inv_def)
  moreover have "vn_Version v = ver" using find_SomeD [OF a(2)] by (simp add: version_at_def)
  ultimately show ?thesis using u act other by (simp add: schema_inv_def)
qed

lemma schema_inv_create:
  assumes "CreateVersion now inp checks db = Inr (v, db')" "schema_inv db" "d_Type (vi_Schema inp) = ''object''"
  shows "schema_inv db' \<and> (\<forall>s. active_of s (sc_versions db') = active_of s (sc_versions db))"
proof -
  note c = CreateVersion_Inr [OF assms(1)]
  have same: "active_of s (sc_versions db') = active_of s (sc_versions db)" for s using c(2) by (simp add: c(1) active_of_def)
  have "unique_key (\<lambda>v. (vn_Subject v, vn_Version v)) (sc_versions db')"
    using assms(2) c(4-6) by (auto simp: c(1) schema_inv_def list_ex_iff version_at_def)
  then show ?thesis using assms(2,3) same c(3) by (simp add: schema_inv_def c(1) del: unique_key_append_one)
qed

lemma schema_inv_versions: "sc_versions db' = sc_versions db \<Longrightarrow> schema_inv db' = schema_inv db"
  by (simp add: schema_inv_def)

interpretation schemas: invariant_system schema_step schema_inv
proof unfold_locales
  fix db db' assume "schema_step db db'" "schema_inv db"
  then show "schema_inv db'"
  proof (cases rule: schema_step.cases)
    case (create s r)
    then show ?thesis using \<open>schema_inv db\<close> schema_inv_versions [of db' db] by (auto simp: CreateSchema_def split: if_splits)
  next
    case (register now inp rv)
    then obtain v checks where r: "RegisterVersion now inp db = Inr ((v, checks), db')" by (cases rv) auto
    from RegisterVersion_Inr(1,2) [OF r] show ?thesis
      using schema_inv_create \<open>schema_inv db\<close> ValidateDocument_object by blast
  next
    case (activate now subject ver v)
    then show ?thesis using schema_inv_activate \<open>schema_inv db\<close> by blast
  next
    case (rollout rid now subject a b deadline c ro)
    then show ?thesis using \<open>schema_inv db\<close> schema_inv_versions [of db' db]
      by (auto simp: CreateRollout_def bindR_Inr_iff Let_def split: if_splits)
  next
    case (ack now rid consumer ver)
    then show ?thesis using \<open>schema_inv db\<close> schema_inv_versions [of db' db] by (auto simp: AckRollout_def bindR_Inr_iff split: if_splits)
  qed
qed

definition schema_blank :: "schema_db \<Rightarrow> bool" where
  "schema_blank db \<longleftrightarrow> sc_versions db = []"

lemma schema_reach: "schema_step\<^sup>*\<^sup>* db0 db \<Longrightarrow> schema_blank db0 \<Longrightarrow> schema_inv db"
  using schemas.inv_steps by (auto simp: schema_blank_def schema_inv_def active_of_def)

lemma GetActive_eq:
  assumes "schema_inv db"
  shows "GetActiveVersion s db = (case active_of s (sc_versions db) of [] \<Rightarrow> Inl ErrNoActiveSchemaVersion | v # _ \<Rightarrow> Inr v)"
proof -
  have "length (active_of s (sc_versions db)) \<le> 1" using assms by (simp add: schema_inv_def)
  then consider "active_of s (sc_versions db) = []" | v where "active_of s (sc_versions db) = [v]"
    by (cases "active_of s (sc_versions db)") auto
  then show ?thesis by cases (simp_all add: GetActiveVersion_def active_of_def)
qed

section \<open>Bootstrap\<close>

definition current :: "string \<Rightarrow> schema_db \<Rightarrow> string option" where
  "current s db = (case active_of s (sc_versions db) of [] \<Rightarrow> None | v # _ \<Rightarrow> Some (vn_Version v))"

lemma current_eq: "schema_inv db \<Longrightarrow> (case GetActiveVersion s db of Inr v \<Rightarrow> Some (vn_Version v) | Inl _ \<Rightarrow> None) = current s db"
  by (simp add: GetActive_eq current_def split: list.splits)

lemma current_activate:
  assumes "ActivateVersion now subject ver db = Inr (v, db')" "schema_inv db"
  shows "schema_inv db' \<and> (\<forall>s. current s db' = (if s = subject then Some ver else current s db))"
  using schema_inv_activate [OF assms] by (auto simp: current_def)

lemma ensure_version_current:
  assumes "ensure_version now subject fx db = Inr db'" "schema_inv db"
  shows "schema_inv db' \<and> (\<forall>s. current s db' = current s db)"
proof (cases "db' = db")
  case False
  then obtain inp v checks where "RegisterVersion now inp db = Inr ((v, checks), db')"
    using assms(1) by (auto simp: ensure_version_def bindR_Inr_iff split: prod.splits sum.splits schema_error.splits)
  then show ?thesis using RegisterVersion_Inr(1,2) schema_inv_create [OF _ assms(2)] ValidateDocument_object
    unfolding current_def by (metis (no_types, lifting))
qed (use assms in simp)

lemma ensure_schema_current:
  assumes "ensure_schema owner subject db = Inr db'" "schema_inv db"
  shows "schema_inv db' \<and> (\<forall>s. current s db' = current s db)"
  using assms by (auto simp: ensure_schema_def CreateSchema_def bindR_Inr_iff schema_inv_def current_def
      split: sum.splits schema_error.splits if_splits)

lemma bootstrap_versions_current:
  "bootstrap_versions now subject a first fxs db = Inr (a', db') \<Longrightarrow> schema_inv db \<Longrightarrow> a = current subject db
   \<Longrightarrow> schema_inv db' \<and> a' = current subject db' \<and> (\<forall>s. s \<noteq> subject \<longrightarrow> current s db' = current s db)
     \<and> (a \<noteq> None \<longrightarrow> a' \<noteq> None) \<and> (first \<and> fxs \<noteq> [] \<longrightarrow> a' \<noteq> None)"
proof (induction fxs arbitrary: a first db)
  case (Cons fx fxs)
  from Cons.prems(1) obtain db1 where e: "ensure_version now subject fx db = Inr db1"
    and rest: "(if a = None \<and> first then bindR (ActivateVersion now subject (fst fx) db1) (\<lambda>(_, db2). bootstrap_versions now subject (Some (fst fx)) False fxs db2)
       else bootstrap_versions now subject a False fxs db1) = Inr (a', db')"
    by (auto simp: bindR_Inr_iff)
  have db1: "schema_inv db1" "\<And>s. current s db1 = current s db" using ensure_version_current [OF e Cons.prems(2)] by auto
  show ?case
  proof (cases "a = None \<and> first")
    case True
    with rest obtain v db2 where act: "ActivateVersion now subject (fst fx) db1 = Inr (v, db2)"
      and b: "bootstrap_versions now subject (Some (fst fx)) False fxs db2 = Inr (a', db')"
      by (auto simp: bindR_Inr_iff)
    have c: "schema_inv db2" "\<And>s. current s db2 = (if s = subject then Some (fst fx) else current s db1)"
      using current_activate [OF act db1(1)] by auto
    show ?thesis using Cons.IH [OF b c(1)] c(2) db1(2) by auto
  next
    case False
    then have "bootstrap_versions now subject a False fxs db1 = Inr (a', db')" using rest by (simp split: if_splits)
    from Cons.IH [OF this db1(1)] show ?thesis using db1(2) Cons.prems(3) False by auto
  qed
qed simp

lemma bootstrap_subject_current:
  assumes "bootstrap_subject now owner (subject, vs) db = Inr db'" "schema_inv db"
  shows "schema_inv db' \<and> (\<forall>s. s \<noteq> subject \<longrightarrow> current s db' = current s db) \<and> (vs \<noteq> [] \<longrightarrow> current subject db' = Some (fst (last vs)))"
proof -
  from assms(1) obtain db1 where e: "ensure_schema owner subject db = Inr db1" by (auto simp: bootstrap_subject_def bindR_Inr_iff)
  have db1: "schema_inv db1" "\<And>s. current s db1 = current s db" using ensure_schema_current [OF e assms(2)] by auto
  show ?thesis
  proof (cases "vs = []")
    case True
    then show ?thesis using assms(1) e db1 by (simp add: bootstrap_subject_def)
  next
    case False
    from assms(1) e False obtain a db2 where b: "bootstrap_versions now subject (current subject db1) True vs db1 = Inr (a, db2)"
      and rest: "(if a \<noteq> None \<and> a \<noteq> Some (fst (last vs)) then bindR (ActivateVersion now subject (fst (last vs)) db2) (\<lambda>(_, db3). Inr db3) else Inr db2) = Inr db'"
      by (auto simp: bootstrap_subject_def bindR_Inr_iff Let_def current_eq [OF db1(1)])
    have db2: "schema_inv db2" "a = current subject db2" "\<And>s. s \<noteq> subject \<Longrightarrow> current s db2 = current s db1" "a \<noteq> None"
      using bootstrap_versions_current [OF b db1(1) refl] False by auto
    show ?thesis
    proof (cases "a = Some (fst (last vs))")
      case True
      then show ?thesis using rest db2 db1 by auto
    next
      case False
      with rest db2(4) obtain v where "ActivateVersion now subject (fst (last vs)) db2 = Inr (v, db')" by (auto simp: bindR_Inr_iff)
      from current_activate [OF this db2(1)] show ?thesis using db2(3) db1(2) by auto
    qed
  qed
qed

lemma bootstrap_current:
  "BootstrapFromFixtures now owner fxs db = Inr db' \<Longrightarrow> schema_inv db \<Longrightarrow> distinct (map fst fxs)
   \<Longrightarrow> schema_inv db' \<and> (\<forall>s. s \<notin> fst ` set fxs \<longrightarrow> current s db' = current s db)
     \<and> (\<forall>(s, vs) \<in> set fxs. vs \<noteq> [] \<longrightarrow> current s db' = Some (fst (last vs)))"
proof (induction fxs arbitrary: db)
  case (Cons fx fxs)
  obtain subject vs where fx: "fx = (subject, vs)" by (cases fx)
  from Cons.prems(1) obtain db1 where b: "bootstrap_subject now owner (subject, vs) db = Inr db1" and rest: "BootstrapFromFixtures now owner fxs db1 = Inr db'"
    by (auto simp: bindR_Inr_iff fx)
  have db1: "schema_inv db1" "\<And>s. s \<noteq> subject \<Longrightarrow> current s db1 = current s db" "vs \<noteq> [] \<Longrightarrow> current subject db1 = Some (fst (last vs))"
    using bootstrap_subject_current [OF b Cons.prems(2)] by auto
  have "subject \<notin> fst ` set fxs" using Cons.prems(3) fx by simp
  then show ?case using Cons.IH [OF rest db1(1)] Cons.prems(3) db1 fx by auto
qed simp

section \<open>Properties\<close>


definition registry_resolver :: "(schema_error \<Rightarrow> string) \<Rightarrow> schema_db \<Rightarrow> resolver" where
  "registry_resolver text db = Some (\<lambda>subject. mapL text (ResolvePublishVersions subject db))"

lemma resolve_active:
  assumes "GetActiveVersion s db = Inr v"
  shows "\<exists>a as. ResolvePublishVersions s db = Inr (a # as) \<and> sv_Version a = vn_Version v"
  using assms by (auto simp: ResolvePublishVersions_def GetActiveRollout_def split: list.splits)

text \<open>
  After a bootstrap the relay can publish every event the fixtures describe. When the bootstrap of a registry
  ends without an error, each subject with fixtures has its latest fixture as the active version, and the
  envelopes of an event of that type are built, the first one in that version.
\<close>

theorem bootstrap_makes_publishable:
  assumes "schema_step\<^sup>*\<^sup>* db0 db" "schema_blank db0" "BootstrapFromFixtures now owner fxs db = Inr db'" "distinct (map fst fxs)"
    and "(ev_EventType (ob_Event row), vs) \<in> set fxs" "vs \<noteq> []"
  shows "\<exists>e es. BuildPublishedEnvelopes (registry_resolver text db') row = Inr (e # es) \<and> env_Row e = row
    \<and> sv_Version (env_Schema e) = fst (last vs)"
proof -
  let ?s = "ev_EventType (ob_Event row)"
  have b: "schema_inv db'" "current ?s db' = Some (fst (last vs))"
    using bootstrap_current [OF assms(3) schema_reach [OF assms(1,2)] assms(4)] assms(5,6) by auto
  then obtain v where v: "GetActiveVersion ?s db' = Inr v" "vn_Version v = fst (last vs)"
    by (auto simp: GetActive_eq current_def split: list.splits)
  then show ?thesis using resolve_active [OF v(1)]
    by (auto simp: BuildPublishedEnvelopes_def resolvePublishSchemas_def registry_resolver_def)
qed

section \<open>Samples\<close>

definition text_doc :: document where "text_doc = Document ''string'' [] []"

definition sample_doc :: "(string \<times> document) list \<Rightarrow> document" where
  "sample_doc fds = Document ''object''
     [(''event_id'', text_doc), (''event_type'', text_doc), (''occurred_at'', text_doc), (''correlation_id'', text_doc), (''causation_id'', text_doc),
      (''schema_version'', text_doc), (''merchant_id'', text_doc), (''payload'', Document ''object'' fds [])] requiredEnvelopeFields"

lemma sample_doc_ok: "ValidateDocument (sample_doc fds) = Inr ()"
  by (simp add: ValidateDocument_def sample_doc_def envelope_field_ok_def requiredEnvelopeFields_def)

lemma sample_doc_wf: "distinct (map fst fds) \<Longrightarrow> (\<forall>(f, d) \<in> set fds. doc_wf d) \<Longrightarrow> doc_wf (sample_doc fds)"
  by (simp add: sample_doc_def requiredEnvelopeFields_def text_doc_def)

definition sample_version :: "string \<Rightarrow> (string \<times> document) list \<Rightarrow> version_input" where
  "sample_version ver fds = \<lparr>vi_Subject = ''order.paid'', vi_Version = ver, vi_Schema = sample_doc fds, vi_SamplePayload = [], vi_ReviewLink = ''''\<rparr>"

definition sample_schema :: event_schema where
  "sample_schema = \<lparr>es_Subject = ''order.paid'', es_EventType = ''order.paid'', es_TopicName = ''paygate.orders'', es_Owner = '''', es_ReviewLink = ''''\<rparr>"

definition version_row :: "version_status \<Rightarrow> time option \<Rightarrow> time option \<Rightarrow> time \<Rightarrow> string \<Rightarrow> string \<Rightarrow> (string \<times> document) list \<Rightarrow> version" where
  "version_row st act dep made ver summary fds =
     \<lparr>vn_Subject = ''order.paid'', vn_Version = ver, vn_Status = st, vn_Schema = sample_doc fds, vn_SamplePayload = [], vn_ReviewLink = '''',
      vn_CompatSummary = summary, vn_ActivatedAt = act, vn_DeprecatedAt = dep, vn_CreatedAt = made\<rparr>"

definition registry :: "version list \<Rightarrow> compat_check list \<Rightarrow> schema_db" where
  "registry vs cs = \<lparr>sc_schemas = [sample_schema], sc_versions = vs, sc_checks = cs, sc_rollouts = []\<rparr>"

abbreviation num_doc :: document where "num_doc \<equiv> Document ''integer'' [] []"

lemmas registry_simps = registry_def version_row_def sample_version_def sample_schema_def

lemma sample_compat: "map_of fs ''x'' = None \<Longrightarrow> set fs = {} \<Longrightarrow> compat_doc (sample_doc []) (sample_doc [(''x'', d)])"
  by (simp add: sample_doc_def requiredEnvelopeFields_def text_doc_def)

text \<open>The registry with version 1 active, then with 2 and 3 registered against it.\<close>

definition checks_of :: "string \<Rightarrow> document \<Rightarrow> compat_check list" where
  "checks_of ver d = map (label_check ''order.paid'' ver ''1'') (CheckCompatibility (sample_doc []) (sample_doc [(''x'', d)]))"

lemma sample_checks:
  assumes "doc_wf d" shows "\<not> list_ex (\<lambda>c. \<not> cc_Compatible c) (checks_of ver d)"
proof -
  have "compareForwardCompatibleFields (sample_doc [(''x'', d)]) (sample_doc []) '''' = []"
    by (rule forward_check_implied) (use assms sample_compat [of "[]" d] sample_doc_wf in auto)
  moreover have "compareFields (sample_doc []) (sample_doc [(''x'', d)]) '''' = []"
    unfolding compareFields_iff using sample_compat [of "[]" d] by simp
  ultimately show ?thesis by (simp add: checks_of_def CheckCompatibility_def label_check_def Let_def)
qed

definition v1_active :: version where "v1_active = version_row SchemaActive (Some 2) None 1 ''1'' ''initial version'' []"

lemma register_one: "RegisterVersion 1 (sample_version ''1'' []) (registry [] []) = Inr ((version_row SchemaDraft None None 1 ''1'' ''initial version'' [], []), registry [version_row SchemaDraft None None 1 ''1'' ''initial version'' []] [])"
  by (simp add: RegisterVersion_def sample_doc_ok GetActiveVersion_def CreateVersion_def registry_simps Let_def)

lemma activate_one: "ActivateVersion 2 ''order.paid'' ''1'' (registry [version_row SchemaDraft None None 1 ''1'' ''initial version'' []] []) = Inr (v1_active, registry [v1_active] [])"
  by (simp add: ActivateVersion_def GetVersion_def sample_doc_ok ActivateVersionRepo_def registry_simps v1_active_def version_at_def Let_def)

definition next_version :: "time \<Rightarrow> string \<Rightarrow> document \<Rightarrow> version" where
  "next_version now ver d = version_row SchemaDraft None None now ver ''backward compatible'' [(''x'', d)]"

lemma register_next:
  assumes "doc_wf d" "ver \<notin> vn_Version ` set vs" "vs = v1_active # ws" "\<forall>w \<in> set ws. vn_Status w = SchemaDraft"
  shows "RegisterVersion now (sample_version ver [(''x'', d)]) (registry vs cs)
    = Inr ((next_version now ver d, checks_of ver d), registry (vs @ [next_version now ver d]) (cs @ checks_of ver d))"
proof -
  have "active_of ''order.paid'' vs = [v1_active]" using assms(3,4) by (auto simp: active_of_def v1_active_def version_row_def filter_empty_conv)
  then have act: "GetActiveVersion ''order.paid'' (registry vs cs) = Inr v1_active"
    by (simp add: GetActiveVersion_def registry_def active_of_def v1_active_def version_row_def)
  have "compareFields (sample_doc []) (sample_doc [(''x'', d)]) '''' = []"
    unfolding compareFields_iff using sample_compat [of "[]" d] by simp
  then have sum: "(case checks_of ver d of [] \<Rightarrow> ''initial version'' | c # _ \<Rightarrow> cc_Summary c) = ''backward compatible''"
    by (simp add: checks_of_def CheckCompatibility_def label_check_def Let_def)
  have new: "\<not> list_ex (version_at ''order.paid'' ver) vs" using assms(2) by (auto simp: list_ex_iff version_at_def)
  have "vn_Version v1_active = ''1''" "vn_Schema v1_active = sample_doc []" by (simp_all add: v1_active_def version_row_def)
  then show ?thesis
    using sample_checks [OF assms(1), of ver] sum new act
    by (simp add: RegisterVersion_def sample_doc_ok CreateVersion_def sample_version_def Let_def checks_of_def [symmetric] registry_def sample_schema_def
        next_version_def version_row_def)
qed

lemma blank_registry: "schema_blank (registry [] cs)"
  by (simp add: schema_blank_def registry_def)

lemma sample_one_run: "schema_step\<^sup>*\<^sup>* (registry [] []) (registry [v1_active] [])"
  using r_into_rtranclp [of schema_step, OF schema_step.register [OF register_one]] schema_step.activate [OF activate_one]
  by (rule rtranclp.rtrancl_into_rtrancl)

lemma draft_versions: "vn_Version v1_active = ''1''" "vn_Version (next_version now ver d) = ver" "vn_Status (next_version now ver d) = SchemaDraft"
  "vn_Schema (next_version now ver d) = sample_doc [(''x'', d)]" "vn_Schema v1_active = sample_doc []"
  by (simp_all add: v1_active_def next_version_def version_row_def)

definition both_registered :: schema_db where
  "both_registered = registry [v1_active, next_version 3 ''2'' text_doc, next_version 4 ''3'' num_doc] (checks_of ''2'' text_doc @ checks_of ''3'' num_doc)"

lemma register_two: "RegisterVersion 3 (sample_version ''2'' [(''x'', text_doc)]) (registry [v1_active] [])
    = Inr ((next_version 3 ''2'' text_doc, checks_of ''2'' text_doc), registry ([v1_active] @ [next_version 3 ''2'' text_doc]) ([] @ checks_of ''2'' text_doc))"
  by (rule register_next [where ws = "[]"]) (simp_all add: draft_versions text_doc_def)

lemma both_registered_run: "schema_step\<^sup>*\<^sup>* (registry [] []) both_registered"
proof -
  have three: "RegisterVersion 4 (sample_version ''3'' [(''x'', num_doc)]) (registry [v1_active, next_version 3 ''2'' text_doc] (checks_of ''2'' text_doc))
      = Inr ((next_version 4 ''3'' num_doc, checks_of ''3'' num_doc),
             registry ([v1_active, next_version 3 ''2'' text_doc] @ [next_version 4 ''3'' num_doc]) (checks_of ''2'' text_doc @ checks_of ''3'' num_doc))"
    by (rule register_next [where ws = "[next_version 3 ''2'' text_doc]"]) (simp_all add: draft_versions)
  have "schema_step\<^sup>*\<^sup>* (registry [v1_active] []) both_registered"
    using schema_step.register [OF register_two] schema_step.register [OF three] unfolding both_registered_def append.simps by (rule converse_rtranclp_into_rtranclp [OF _ r_into_rtranclp])
  with sample_one_run show ?thesis by (rule rtranclp_trans)
qed

text \<open>
  Activation does not compare versions. Two versions registered against the same active one can be activated
  one after the other although the second is incompatible with the first: it accepts events that consumers of the
  first cannot read, and no check refuses it.
\<close>

theorem schema_activation_unchecked:
  "\<exists>db v2 db2 v3 db3 x. schema_step\<^sup>*\<^sup>* (registry [] []) db \<and> ActivateVersion 5 ''order.paid'' ''2'' db = Inr (v2, db2)
     \<and> ActivateVersion 6 ''order.paid'' ''3'' db2 = Inr (v3, db3) \<and> GetActiveVersion ''order.paid'' db3 = Inr v3
     \<and> compareFields (vn_Schema v2) (vn_Schema v3) '''' \<noteq> [] \<and> conforms (vn_Schema v3) x \<and> \<not> conforms (vn_Schema v2) x"
proof -
  define v2 where "v2 = (next_version 3 ''2'' text_doc)\<lparr>vn_Status := SchemaActive, vn_ActivatedAt := Some 5, vn_DeprecatedAt := None\<rparr>"
  define v3 where "v3 = (next_version 4 ''3'' num_doc)\<lparr>vn_Status := SchemaActive, vn_ActivatedAt := Some 6, vn_DeprecatedAt := None\<rparr>"
  define cs where "cs = checks_of ''2'' text_doc @ checks_of ''3'' num_doc"
  define old where "old = v1_active\<lparr>vn_Status := SchemaDeprecated, vn_DeprecatedAt := Some 5\<rparr>"
  define db2 where "db2 = registry [old, v2, next_version 4 ''3'' num_doc] cs"
  define db3 where "db3 = registry [old, v2\<lparr>vn_Status := SchemaDeprecated, vn_DeprecatedAt := Some 6\<rparr>, v3] cs"
  have a2: "ActivateVersion 5 ''order.paid'' ''2'' both_registered = Inr (v2, db2)"
    by (simp add: ActivateVersion_def GetVersion_def sample_doc_ok ActivateVersionRepo_def both_registered_def db2_def cs_def old_def v2_def registry_def
        v1_active_def next_version_def version_row_def version_at_def Let_def)
  have a3: "ActivateVersion 6 ''order.paid'' ''3'' db2 = Inr (v3, db3)"
    by (simp add: ActivateVersion_def GetVersion_def sample_doc_ok ActivateVersionRepo_def db2_def db3_def old_def v2_def v3_def registry_def
        v1_active_def next_version_def version_row_def version_at_def Let_def)
  have act: "GetActiveVersion ''order.paid'' db3 = Inr v3"
    by (simp add: GetActiveVersion_def db3_def old_def v2_def v3_def registry_def v1_active_def next_version_def version_row_def Let_def)
  define x where "x = JObject ((''payload'', JObject [(''x'', JOther ''integer'' ''1'')]) # map (\<lambda>f. (f, JOther ''string'' '''')) requiredEnvelopeFields)"
  have "conforms (vn_Schema v3) x" "\<not> conforms (vn_Schema v2) x"
    by (simp_all add: v2_def v3_def draft_versions x_def sample_doc_def text_doc_def requiredEnvelopeFields_def json_type_def)
  moreover have "compareFields (vn_Schema v2) (vn_Schema v3) '''' \<noteq> []"
    unfolding compareFields_iff by (simp add: v2_def v3_def draft_versions sample_doc_def text_doc_def requiredEnvelopeFields_def)
  ultimately show ?thesis using both_registered_run a2 a3 act by blast
qed


definition sample_fixtures :: "fixture list" where
  "sample_fixtures = [(''order.created'', [(''1'', sample_doc [], [])])]"

theorem bootstrap_makes_publishable_witness:
  "\<exists>db' e es. BootstrapFromFixtures 1 ''platform'' sample_fixtures (registry [] []) = Inr db'
     \<and> BuildPublishedEnvelopes (registry_resolver (\<lambda>_. '''') db') sample_event_row = Inr (e # es) \<and> sv_Version (env_Schema e) = ''1''"
proof -
  have "\<exists>db'. BootstrapFromFixtures 1 ''platform'' sample_fixtures (registry [] []) = Inr db'"
    by (simp add: sample_fixtures_def bootstrap_subject_def ensure_schema_def GetSchemaRow_def CreateSchema_def registry_def sample_schema_def
        GetActiveVersion_def ensure_version_def GetVersion_def RegisterVersion_def sample_doc_ok CreateVersion_def ActivateVersion_def
        ActivateVersionRepo_def version_at_def Let_def)
  then obtain db' where b: "BootstrapFromFixtures 1 ''platform'' sample_fixtures (registry [] []) = Inr db'" by blast
  have "\<exists>e es. BuildPublishedEnvelopes (registry_resolver (\<lambda>_. '''') db') sample_event_row = Inr (e # es) \<and> env_Row e = sample_event_row
      \<and> sv_Version (env_Schema e) = fst (last [(''1'', sample_doc [], [])])"
    using bootstrap_makes_publishable [OF rtranclp.rtrancl_refl blank_registry b, of sample_event_row "[(''1'', sample_doc [], [])]"]
    by (simp add: sample_fixtures_def sample_event_row_def)
  then show ?thesis using b by auto
qed

end
