(* ===== verification/Recon.thy ===== *)
theory Recon
  imports Money
begin

text \<open>
  Reconciliation (\<open>internal/recon\<close>): the three periodic checks of \<open>worker.go\<close> over ledger, payments and settlements,
  imports of external sources, and the life of a mismatch. A check reads the tables in one statement per query and
  stores its findings in a transaction of its own; both see one database here. The properties compare the checks
  with what the flow of cash guarantees: which of them can ever report something, and what.
\<close>

section \<open>Data\<close>

datatype batch_type = BatchTypeLedgerBalance | BatchTypePaymentLedger | BatchTypeThreeWay | BatchTypeExternalSource

datatype mismatch_type =
  MismatchLedgerImbalance | MismatchPaymentMissingLedger | MismatchPaymentAmountMismatch | MismatchSettlementPaymentMismatch
  | MismatchPaymentSettledNotInBatch | MismatchOrphanSettlementItem | MismatchExternalSourceMissingInternal
  | MismatchExternalSourceAmountMismatch | MismatchInternalMissingExternalSource

datatype mismatch_status = MmOpen | MmAssigned | MmResolved

datatype recon_error = ReconScan ledger_error | ErrReconConstraint

record recon_batch =
  rb_ID :: id
  rb_MerchantID :: id
  rb_Type :: batch_type
  rb_Status :: string
  rb_PeriodStart :: time
  rb_PeriodEnd :: time
  rb_CheckedCount :: nat
  rb_MismatchCount :: nat

record recon_mismatch =
  mm_ID :: id
  mm_BatchID :: id
  mm_MerchantID :: id
  mm_SourceImportID :: id
  mm_Type :: mismatch_type
  mm_EntityType :: string
  mm_EntityID :: id
  mm_ExpectedValue :: string
  mm_ActualValue :: string
  mm_Description :: string
  mm_Resolved :: bool
  mm_Status :: mismatch_status
  mm_AssignedTo :: string
  mm_AssignedAt :: "time option"
  mm_ResolvedAt :: "time option"
  mm_ResolvedBy :: string
  mm_ResolutionCode :: string
  mm_ResolutionNotes :: string

record source_entry =
  se_ID :: id
  se_SourceImportID :: id
  se_MerchantID :: id
  se_EntityType :: string
  se_ExternalID :: string
  se_ReferenceID :: id
  se_Amount :: int
  se_Currency :: string
  se_Status :: string
  se_OccurredAt :: time

record source_import =
  sm_ID :: id
  sm_BatchID :: id
  sm_MerchantID :: id
  sm_SourceType :: string
  sm_Status :: string
  sm_PeriodStart :: time
  sm_PeriodEnd :: time
  sm_EntryCount :: nat
  sm_MismatchCount :: nat

record mismatch_note =
  nt_ID :: id
  nt_MismatchID :: id
  nt_MerchantID :: id
  nt_Author :: string
  nt_Note :: string
  nt_CreatedAt :: time

record recon_db =
  rc_batches :: "recon_batch list"
  rc_mismatches :: "recon_mismatch list"
  rc_imports :: "source_import list"
  rc_entries :: "source_entry list"
  rc_notes :: "mismatch_note list"

text \<open>\<open>%d\<close> of an \<open>int64\<close>.\<close>

definition show_int :: "int \<Rightarrow> string" where
  "show_int x = (if x < 0 then ''-'' @ decimal (nat (- x)) else decimal (nat x))"

text \<open>A mismatch as it is inserted; its identifier is drawn when it is found, here when the list is complete.\<close>

definition new_mismatch :: "id \<Rightarrow> id \<Rightarrow> id \<Rightarrow> mismatch_type \<Rightarrow> string \<Rightarrow> id \<Rightarrow> string \<Rightarrow> string \<Rightarrow> string \<Rightarrow> recon_mismatch" where
  "new_mismatch batchID m imp ty ety eid expected actual descr =
     \<lparr>mm_ID = '''', mm_BatchID = batchID, mm_MerchantID = m, mm_SourceImportID = imp, mm_Type = ty, mm_EntityType = ety,
      mm_EntityID = eid, mm_ExpectedValue = expected, mm_ActualValue = actual, mm_Description = descr, mm_Resolved = False,
      mm_Status = MmOpen, mm_AssignedTo = '''', mm_AssignedAt = None, mm_ResolvedAt = None, mm_ResolvedBy = '''',
      mm_ResolutionCode = '''', mm_ResolutionNotes = ''''\<rparr>"

definition number_ids :: "(nat \<Rightarrow> id) \<Rightarrow> recon_mismatch list \<Rightarrow> recon_mismatch list" where
  "number_ids ids mms = map2 (\<lambda>i mm. mm\<lparr>mm_ID := ids i\<rparr>) [0..<length mms] mms"

fun scan_rows :: "('r \<Rightarrow> 'e + 'b) \<Rightarrow> 'r list \<Rightarrow> 'e + 'b list" where
  "scan_rows f [] = Inr []"
| "scan_rows f (r # rs) = bindR (f r) (\<lambda>b. bindR (scan_rows f rs) (\<lambda>bs. Inr (b # bs)))"

section \<open>Storing a batch\<close>

definition insert_mismatches :: "recon_mismatch list \<Rightarrow> recon_db \<Rightarrow> recon_error + recon_db" where
  "insert_mismatches mms rdb =
     (if distinct (map mm_ID mms) \<and> set (map mm_ID mms) \<inter> mm_ID ` set (rc_mismatches rdb) = {}
      then Inr (rdb\<lparr>rc_mismatches := rc_mismatches rdb @ mms\<rparr>) else Inl ErrReconConstraint)"

definition persistBatch ::
  "id \<Rightarrow> id \<Rightarrow> batch_type \<Rightarrow> time \<Rightarrow> time \<Rightarrow> nat \<Rightarrow> nat \<Rightarrow> recon_mismatch list \<Rightarrow> recon_db \<Rightarrow> recon_error + nat \<times> recon_db" where
  "persistBatch batchID m ty start fin checked found mms rdb =
     (if batchID \<in> rb_ID ` set (rc_batches rdb) then Inl ErrReconConstraint
      else bindR (insert_mismatches mms (rdb\<lparr>rc_batches := rc_batches rdb @
             [\<lparr>rb_ID = batchID, rb_MerchantID = m, rb_Type = ty, rb_Status = ''completed'', rb_PeriodStart = start, rb_PeriodEnd = fin,
               rb_CheckedCount = checked, rb_MismatchCount = found\<rparr>]\<rparr>)) (\<lambda>rdb'. Inr (found, rdb')))"

section \<open>The ledger check\<close>

definition merchant_debits :: "id \<Rightarrow> ledger_db \<Rightarrow> int" where
  "merchant_debits m l = sum_where (\<lambda>e. le_MerchantID e = m) le_DebitAmount (ledger_entries l)"

definition merchant_credits :: "id \<Rightarrow> ledger_db \<Rightarrow> int" where
  "merchant_credits m l = sum_where (\<lambda>e. le_MerchantID e = m) le_CreditAmount (ledger_entries l)"

definition unbalanced_merchants :: "ledger_db \<Rightarrow> id list" where
  "unbalanced_merchants l = filter (\<lambda>m. merchant_debits m l \<noteq> merchant_credits m l) (remdups (map le_MerchantID (ledger_entries l)))"

definition scan_imbalance :: "id \<Rightarrow> ledger_db \<Rightarrow> id \<Rightarrow> recon_error + recon_mismatch" where
  "scan_imbalance batchID l m =
     mapL ReconScan (bindR (scan64 (merchant_debits m l)) (\<lambda>d. bindR (scan64 (merchant_credits m l)) (\<lambda>c.
       Inr (new_mismatch batchID m '''' MismatchLedgerImbalance ''merchant'' m (''debits='' @ show_int d) (''credits='' @ show_int c)
         (''ledger imbalance: debits='' @ show_int d @ '' credits='' @ show_int c @ '' diff='' @ show_int (i64 (d - c)))))))"

definition RunLedgerBalanceCheck :: "id \<Rightarrow> (nat \<Rightarrow> id) \<Rightarrow> time \<Rightarrow> ledger_db \<Rightarrow> recon_db \<Rightarrow> recon_error + nat \<times> recon_db" where
  "RunLedgerBalanceCheck batchID ids now l rdb =
     bindR (scan_rows (scan_imbalance batchID l) (unbalanced_merchants l)) (\<lambda>mms.
       persistBatch batchID '''' BatchTypeLedgerBalance 0 now (length mms) (length mms) (number_ids ids mms) rdb)"

section \<open>The payment check\<close>

definition captured_in :: "time \<Rightarrow> time \<Rightarrow> payment \<Rightarrow> bool" where
  "captured_in start fin p \<longleftrightarrow> p_Status p = Captured \<and> (case p_CapturedAt p of None \<Rightarrow> False | Some t \<Rightarrow> start \<le> t \<and> t < fin)"

definition countCapturedPayments :: "time \<Rightarrow> time \<Rightarrow> 'a payment_db_scheme \<Rightarrow> nat" where
  "countCapturedPayments start fin db = length (filter (captured_in start fin) (db_payments db))"

definition ledger_credits :: "id \<Rightarrow> ledger_db \<Rightarrow> int" where
  "ledger_credits i l = sum_where (\<lambda>e. le_SourceID e = i \<and> le_SourceType e = ''payment'') le_CreditAmount (ledger_entries l)"

definition credits_differ :: "ledger_db \<Rightarrow> payment \<Rightarrow> bool" where
  "credits_differ l p \<longleftrightarrow> ledger_credits (p_ID p) l = 0 \<or> \<bar>ledger_credits (p_ID p) l - p_Amount p\<bar> > 0"

definition scan_payment_row :: "id \<Rightarrow> ledger_db \<Rightarrow> payment \<Rightarrow> recon_error + recon_mismatch" where
  "scan_payment_row batchID l p =
     mapL ReconScan (bindR (scan64 (p_Amount p)) (\<lambda>a. bindR (scan64 (ledger_credits (p_ID p) l)) (\<lambda>c.
       Inr (new_mismatch batchID (p_MerchantID p) '''' (if c = 0 then MismatchPaymentMissingLedger else MismatchPaymentAmountMismatch)
         ''payment'' (p_ID p) (show_int a) (show_int c)
         (''payment '' @ p_ID p @ '': amount='' @ show_int a @ '' ledger_credits='' @ show_int c)))))"

definition RunPaymentLedgerCheck :: "id \<Rightarrow> (nat \<Rightarrow> id) \<Rightarrow> time \<Rightarrow> time \<Rightarrow> 'a payment_db_scheme \<Rightarrow> recon_db \<Rightarrow> recon_error + nat \<times> recon_db" where
  "RunPaymentLedgerCheck batchID ids start fin db rdb =
     bindR (scan_rows (scan_payment_row batchID (db_ledger db))
              (filter (\<lambda>p. captured_in start fin p \<and> credits_differ (db_ledger db) p) (db_payments db))) (\<lambda>mms.
       persistBatch batchID '''' BatchTypePaymentLedger start fin (countCapturedPayments start fin db) (length mms) (number_ids ids mms) rdb)"

section \<open>The three-way check\<close>

text \<open>The rows of the left join: a payment with each of its settlement items, or with none when it has none.\<close>

definition items_of :: "payment \<Rightarrow> settlement_item list \<Rightarrow> settlement_item list" where
  "items_of p its = filter (\<lambda>it. it_PaymentID it = p_ID p) its"

definition three_way_rows :: "time \<Rightarrow> time \<Rightarrow> 'a settlement_db_scheme \<Rightarrow> (payment \<times> settlement_item option) list" where
  "three_way_rows start fin db =
     concat (map (\<lambda>p. if items_of p (db_items db) = [] then (if p_Settled p then [(p, None)] else [])
                      else map (\<lambda>it. (p, Some it)) (items_of p (db_items db)))
       (filter (captured_in start fin) (db_payments db)))"

definition expectedNet :: "payment \<Rightarrow> int" where
  "expectedNet p = CalculateNet (p_Amount p) (p_Fee p) (CalculateRefundNetImpact (p_Amount p) (p_Fee p) (p_AmountRefunded p))"

definition compare_row :: "id \<Rightarrow> payment \<times> settlement_item option \<Rightarrow> recon_mismatch list" where
  "compare_row batchID row =
     (case row of (p, si) \<Rightarrow>
      if p_Settled p \<and> si = None
      then [new_mismatch batchID (p_MerchantID p) '''' MismatchPaymentSettledNotInBatch ''payment'' (p_ID p) ''settlement_item exists''
              ''no settlement_item found'' (''payment '' @ p_ID p @ '' marked settled but no settlement_item'')]
      else (case si of None \<Rightarrow> [] | Some it \<Rightarrow>
              if it_Net it \<noteq> expectedNet p
              then [new_mismatch batchID (p_MerchantID p) '''' MismatchSettlementPaymentMismatch ''payment'' (p_ID p) (show_int (expectedNet p))
                      (show_int (it_Net it)) (''payment '' @ p_ID p @ '' settlement net mismatch: expected='' @ show_int (expectedNet p)
                        @ '' actual='' @ show_int (it_Net it))]
              else [])
        @ (if \<not> p_Settled p \<and> si \<noteq> None
           then [new_mismatch batchID (p_MerchantID p) '''' MismatchSettlementPaymentMismatch ''payment'' (p_ID p) ''settled=true'' ''settled=false''
                   (''payment '' @ p_ID p @ '' has settlement_item but is not marked settled'')]
           else []))"

definition orphan_items :: "time \<Rightarrow> time \<Rightarrow> 'a settlement_db_scheme \<Rightarrow> settlement_item list" where
  "orphan_items start fin db =
     filter (\<lambda>it. it_PaymentID it \<notin> p_ID ` set (db_payments db)
       \<and> list_ex (\<lambda>s. st_ID s = it_SettlementID it \<and> (case st_ProcessedAt s of None \<Rightarrow> False | Some t \<Rightarrow> start \<le> t \<and> t < fin)) (db_settlements db))
       (db_items db)"

definition orphan_mismatch :: "id \<Rightarrow> settlement_item \<Rightarrow> recon_mismatch" where
  "orphan_mismatch batchID it =
     new_mismatch batchID (it_MerchantID it) '''' MismatchOrphanSettlementItem ''settlement_item'' (it_ID it) ''payment exists''
       (''missing payment '' @ it_PaymentID it) (''settlement item '' @ it_ID it @ '' references missing payment '' @ it_PaymentID it)"

definition three_way_mismatches :: "id \<Rightarrow> time \<Rightarrow> time \<Rightarrow> 'a settlement_db_scheme \<Rightarrow> recon_mismatch list" where
  "three_way_mismatches batchID start fin db =
     concat (map (compare_row batchID) (three_way_rows start fin db)) @ map (orphan_mismatch batchID) (orphan_items start fin db)"

definition RunThreeWayCheck :: "id \<Rightarrow> (nat \<Rightarrow> id) \<Rightarrow> time \<Rightarrow> time \<Rightarrow> 'a settlement_db_scheme \<Rightarrow> recon_db \<Rightarrow> recon_error + nat \<times> recon_db" where
  "RunThreeWayCheck batchID ids start fin db rdb =
     (let mms = three_way_mismatches batchID start fin db in
      persistBatch batchID '''' BatchTypeThreeWay start fin (countCapturedPayments start fin db) (length mms) (number_ids ids mms) rdb)"

section \<open>External sources\<close>

record import_input =
  ip_MerchantID :: id
  ip_SourceType :: string
  ip_PeriodStart :: time
  ip_PeriodEnd :: time
  ip_Entries :: "source_entry list"

definition settlement_name :: "settlement_state \<Rightarrow> string" where
  "settlement_name s = (case s of SttlCreated \<Rightarrow> ''created'' | SttlProcessing \<Rightarrow> ''processing'' | SttlProcessed \<Rightarrow> ''processed'' | SttlFailed \<Rightarrow> ''failed'')"

definition payout_name :: "payout_state \<Rightarrow> string" where
  "payout_name s = (case s of PoPending \<Rightarrow> ''pending'' | PoProcessing \<Rightarrow> ''processing'' | PoCompleted \<Rightarrow> ''completed'' | PoFailed \<Rightarrow> ''failed''
     | PoReturned \<Rightarrow> ''returned'' | PoReversed \<Rightarrow> ''reversed'' | PoCancelled \<Rightarrow> ''cancelled'')"

definition money_text :: "int \<Rightarrow> string \<Rightarrow> string" where
  "money_text a cur = show_int a @ '' '' @ cur"

definition compareSourceEntry :: "id \<Rightarrow> id \<Rightarrow> id \<Rightarrow> source_entry \<Rightarrow> 'a payout_db_scheme \<Rightarrow> recon_mismatch option" where
  "compareSourceEntry batchID importID m e db =
     (if se_EntityType e = ''settlement''
      then (case find (\<lambda>s. st_ID s = se_ReferenceID e \<and> st_MerchantID s = m) (db_settlements db) of
              None \<Rightarrow> Some (new_mismatch batchID m importID MismatchExternalSourceMissingInternal ''settlement'' (se_ReferenceID e)
                        (money_text (se_Amount e) (se_Currency e)) ''missing'' ''external settlement source row has no matching internal settlement'')
            | Some s \<Rightarrow>
                if st_NetAmount s \<noteq> se_Amount e \<or> st_Currency s \<noteq> se_Currency e
                then Some (new_mismatch batchID m importID MismatchExternalSourceAmountMismatch ''settlement'' (se_ReferenceID e)
                       (money_text (se_Amount e) (se_Currency e)) (money_text (st_NetAmount s) (st_Currency s))
                       ''external settlement amount or currency does not match internal settlement'')
                else if se_Status e \<noteq> '''' \<and> settlement_name (st_Status s) \<noteq> se_Status e
                then Some (new_mismatch batchID m importID MismatchExternalSourceAmountMismatch ''settlement'' (se_ReferenceID e)
                       (se_Status e) (settlement_name (st_Status s)) ''external settlement status does not match internal settlement'')
                else None)
      else if se_EntityType e = ''payout''
      then (case find (\<lambda>p. po_ID p = se_ReferenceID e \<and> po_MerchantID p = m) (db_payouts db) of
              None \<Rightarrow> Some (new_mismatch batchID m importID MismatchExternalSourceMissingInternal ''payout'' (se_ReferenceID e)
                        (money_text (se_Amount e) (se_Currency e)) ''missing'' ''external payout source row has no matching internal payout'')
            | Some p \<Rightarrow>
                if po_Amount p \<noteq> se_Amount e \<or> po_Currency p \<noteq> se_Currency e \<or> (se_Status e \<noteq> '''' \<and> payout_name (po_Status p) \<noteq> se_Status e)
                then Some (new_mismatch batchID m importID MismatchExternalSourceAmountMismatch ''payout'' (se_ReferenceID e)
                       (money_text (se_Amount e) (se_Currency e) @ '' '' @ se_Status e)
                       (money_text (po_Amount p) (po_Currency p) @ '' '' @ payout_name (po_Status p))
                       ''external payout source row does not match internal payout'')
                else None)
      else None)"

definition findMissingInternalEntities :: "id \<Rightarrow> id \<Rightarrow> import_input \<Rightarrow> id set \<Rightarrow> 'a payout_db_scheme \<Rightarrow> recon_mismatch list" where
  "findMissingInternalEntities batchID importID inp seenRefs db =
     (case ip_Entries inp of
        [] \<Rightarrow> []
      | e # _ \<Rightarrow>
          if se_EntityType e = ''settlement''
          then map (\<lambda>s. new_mismatch batchID (ip_MerchantID inp) importID MismatchInternalMissingExternalSource ''settlement'' (st_ID s)
                      ''present in external source'' (money_text (st_NetAmount s) (st_Currency s) @ '' missing'')
                      ''internal settlement missing from imported external source'')
                 (filter (\<lambda>s. st_MerchantID s = ip_MerchantID inp \<and> ip_PeriodStart inp \<le> st_CreatedAt s \<and> st_CreatedAt s < ip_PeriodEnd inp
                     \<and> st_ID s \<notin> seenRefs) (db_settlements db))
          else [])"

definition import_mismatches :: "id \<Rightarrow> id \<Rightarrow> import_input \<Rightarrow> 'a payout_db_scheme \<Rightarrow> recon_mismatch list" where
  "import_mismatches batchID importID inp db =
     List.map_filter (\<lambda>e. compareSourceEntry batchID importID (ip_MerchantID inp) e db) (ip_Entries inp)
     @ findMissingInternalEntities batchID importID inp (se_ReferenceID ` set (ip_Entries inp)) db"

text \<open>\<open>entryID\<close>: the identifiers of the stored entries. The counts are inserted as 0 and updated at the end.\<close>

definition number_entries :: "(nat \<Rightarrow> id) \<Rightarrow> id \<Rightarrow> id \<Rightarrow> source_entry list \<Rightarrow> source_entry list" where
  "number_entries entryID imp m es = map2 (\<lambda>i e. e\<lparr>se_ID := entryID i, se_SourceImportID := imp, se_MerchantID := m\<rparr>) [0..<length es] es"

definition ImportSource ::
  "id \<Rightarrow> id \<Rightarrow> (nat \<Rightarrow> id) \<Rightarrow> (nat \<Rightarrow> id) \<Rightarrow> import_input \<Rightarrow> 'a payout_db_scheme \<Rightarrow> recon_db \<Rightarrow> recon_error + source_import \<times> recon_db" where
  "ImportSource batchID importID entryID ids inp db rdb =
     (let mms = import_mismatches batchID importID inp db;
          es = number_entries entryID importID (ip_MerchantID inp) (ip_Entries inp);
          imp = \<lparr>sm_ID = importID, sm_BatchID = batchID, sm_MerchantID = ip_MerchantID inp, sm_SourceType = ip_SourceType inp,
                 sm_Status = ''completed'', sm_PeriodStart = ip_PeriodStart inp, sm_PeriodEnd = ip_PeriodEnd inp,
                 sm_EntryCount = length (ip_Entries inp), sm_MismatchCount = length mms\<rparr> in
      if importID \<in> sm_ID ` set (rc_imports rdb) \<or> \<not> distinct (map se_ID es) \<or> set (map se_ID es) \<inter> se_ID ` set (rc_entries rdb) \<noteq> {}
      then Inl ErrReconConstraint
      else bindR (persistBatch batchID (ip_MerchantID inp) BatchTypeExternalSource (ip_PeriodStart inp) (ip_PeriodEnd inp)
                    (length (ip_Entries inp)) (length mms) (number_ids ids mms) rdb) (\<lambda>(_, rdb').
             Inr (imp, rdb'\<lparr>rc_imports := rc_imports rdb' @ [imp], rc_entries := rc_entries rdb' @ es\<rparr>)))"

section \<open>The life of a mismatch\<close>

definition mismatch_at :: "id \<Rightarrow> id \<Rightarrow> recon_mismatch \<Rightarrow> bool" where
  "mismatch_at m i mm \<longleftrightarrow> mm_ID mm = i \<and> mm_MerchantID mm = m"

definition insert_note :: "mismatch_note \<Rightarrow> recon_db \<Rightarrow> recon_error + recon_db" where
  "insert_note n rdb =
     (if nt_ID n \<in> nt_ID ` set (rc_notes rdb) \<or> nt_MismatchID n \<notin> mm_ID ` set (rc_mismatches rdb) then Inl ErrReconConstraint
      else Inr (rdb\<lparr>rc_notes := rc_notes rdb @ [n]\<rparr>))"

definition note_if :: "id \<Rightarrow> time \<Rightarrow> id \<Rightarrow> id \<Rightarrow> string \<Rightarrow> string \<Rightarrow> recon_db \<Rightarrow> recon_error + recon_db" where
  "note_if noteID now m i author note rdb =
     (if note = '''' then Inr rdb
      else insert_note \<lparr>nt_ID = noteID, nt_MismatchID = i, nt_MerchantID = m, nt_Author = author, nt_Note = note, nt_CreatedAt = now\<rparr> rdb)"

definition AssignMismatch :: "id \<Rightarrow> time \<Rightarrow> id \<Rightarrow> id \<Rightarrow> string \<Rightarrow> string \<Rightarrow> recon_db \<Rightarrow> recon_error + recon_db" where
  "AssignMismatch noteID now m i assignedTo note rdb =
     note_if noteID now m i assignedTo note (rdb\<lparr>rc_mismatches := upd_where (mismatch_at m i)
       (\<lambda>mm. mm\<lparr>mm_Status := MmAssigned, mm_AssignedTo := assignedTo, mm_AssignedAt := Some now, mm_Resolved := False\<rparr>) (rc_mismatches rdb)\<rparr>)"

definition ResolveMismatch :: "time \<Rightarrow> id \<Rightarrow> id \<Rightarrow> string \<Rightarrow> string \<Rightarrow> string \<Rightarrow> recon_db \<Rightarrow> recon_error + recon_db" where
  "ResolveMismatch now m i actor code txt rdb =
     Inr (rdb\<lparr>rc_mismatches := upd_where (mismatch_at m i)
       (\<lambda>mm. mm\<lparr>mm_Status := MmResolved, mm_Resolved := True, mm_ResolvedAt := Some now, mm_ResolvedBy := actor,
                mm_ResolutionCode := code, mm_ResolutionNotes := txt\<rparr>) (rc_mismatches rdb)\<rparr>)"

definition ReopenMismatch :: "id \<Rightarrow> time \<Rightarrow> id \<Rightarrow> id \<Rightarrow> string \<Rightarrow> recon_db \<Rightarrow> recon_error + recon_db" where
  "ReopenMismatch noteID now m i note rdb =
     note_if noteID now m i ''system'' note (rdb\<lparr>rc_mismatches := upd_where (mismatch_at m i)
       (\<lambda>mm. mm\<lparr>mm_Status := MmOpen, mm_Resolved := False, mm_ResolvedAt := None, mm_ResolvedBy := '''', mm_ResolutionCode := '''',
                mm_ResolutionNotes := '''', mm_AssignedTo := '''', mm_AssignedAt := None\<rparr>) (rc_mismatches rdb)\<rparr>)"

definition AddMismatchNote :: "id \<Rightarrow> time \<Rightarrow> id \<Rightarrow> id \<Rightarrow> string \<Rightarrow> string \<Rightarrow> recon_db \<Rightarrow> recon_error + recon_db" where
  "AddMismatchNote noteID now m i author note rdb =
     insert_note \<lparr>nt_ID = noteID, nt_MismatchID = i, nt_MerchantID = m, nt_Author = author, nt_Note = note, nt_CreatedAt = now\<rparr> rdb"

text \<open>\<open>ListMismatches\<close>: the open ones only, on request; a limit outside 1..200 becomes 50. Rows are kept in order of creation.\<close>

definition ListMismatches :: "id \<Rightarrow> int \<Rightarrow> bool \<Rightarrow> recon_db \<Rightarrow> recon_mismatch list" where
  "ListMismatches m limit unresolvedOnly rdb =
     take (nat (if limit \<le> 0 \<or> limit > 200 then 50 else limit))
       (rev (filter (\<lambda>mm. mm_MerchantID mm = m \<and> (\<not> unresolvedOnly \<or> \<not> mm_Resolved mm)) (rc_mismatches rdb)))"

section \<open>What every posting keeps\<close>

text \<open>
  The ledger after accepted postings: entries lie on the seeded accounts and belong to a transaction, every
  merchant is balanced modulo 2 to the 64, and so are the credits of every source and the total of its transaction.
\<close>

definition source_credits :: "string \<times> id \<Rightarrow> ledger_db \<Rightarrow> int" where
  "source_credits src l = sum_where (\<lambda>e. (le_SourceType e, le_SourceID e) = src) le_CreditAmount (ledger_entries l)"

definition ledger_ok :: "ledger_db \<Rightarrow> bool" where
  "ledger_ok l \<longleftrightarrow>
     (\<forall>e \<in> set (ledger_entries l). le_AccountCode e \<in> set ledger_accounts \<and> 0 \<le> le_DebitAmount e \<and> 0 \<le> le_CreditAmount e
        \<and> (le_SourceType e, le_SourceID e) \<in> source_of ` set (ledger_transactions l))
   \<and> (\<forall>m. trial_balance m l mod 2 ^ 64 = 0)
   \<and> (\<forall>t \<in> set (ledger_transactions l). i64 (source_credits (source_of t) l) = lt_TotalDebit t)"

lemma source_credits_rows: "sum_where (\<lambda>e. (le_SourceType e, le_SourceID e) = src) le_CreditAmount (txn_rows t m st sid es)
    = (if src = (st, sid) then credits es else 0)"
proof -
  have "sum_where (\<lambda>e. (le_SourceType e, le_SourceID e) = src) le_CreditAmount (map (entry_row t m st sid k) es)
      = (if src = (st, sid) then credits es else 0)" for k
    by (induction es) (auto simp: entry_row_def)
  then show ?thesis by (simp only: txn_rows_def)
qed

lemma ledger_ok_post:
  assumes post: "CreateEntriesTx t m st sid desc es l = Inr l'" and ok: "ledger_ok l"
  shows "ledger_ok l'"
proof -
  from post have ins: "InsertTransactionWithEntriesTx t m st sid desc es l = Inr l'" by (simp add: CreateEntriesTx_Inr)
  then have fresh: "(st, sid) \<notin> source_of ` set (ledger_transactions l)" and tot: "i64 (debits es) = i64 (credits es)"
    and es: "list_all entry_ok es"
    and l': "l' = l\<lparr>ledger_transactions := ledger_transactions l @ [txn_row t m st sid desc es],
        ledger_entries := ledger_entries l @ txn_rows t m st sid es\<rparr>"
    by (simp_all add: InsertTransaction_Inr)
  have src: "source_of (txn_row t m st sid desc es) = (st, sid)" by (simp add: source_of_def txn_row_def)
  have cr: "source_credits x l' = source_credits x l + (if x = (st, sid) then credits es else 0)" for x
    by (simp add: source_credits_def l' source_credits_rows)
  have none: "source_credits (st, sid) l = 0"
    unfolding source_credits_def by (rule sum_where_none) (use ok fresh in \<open>auto simp: ledger_ok_def\<close>)
  have "\<forall>e \<in> set (txn_rows t m st sid es). le_AccountCode e \<in> set ledger_accounts \<and> 0 \<le> le_DebitAmount e \<and> 0 \<le> le_CreditAmount e
      \<and> (le_SourceType e, le_SourceID e) = (st, sid)"
    using es by (auto simp: txn_rows_def entry_row_def entry_ok_def list_all_iff)
  then have a: "\<forall>e \<in> set (ledger_entries l'). le_AccountCode e \<in> set ledger_accounts \<and> 0 \<le> le_DebitAmount e \<and> 0 \<le> le_CreditAmount e
        \<and> (le_SourceType e, le_SourceID e) \<in> source_of ` set (ledger_transactions l')"
    using ok by (auto simp: ledger_ok_def l' src)
  have "(debits es - credits es) mod 2 ^ 64 = 0" using tot unfolding i64_eq_iff by (metis mod_eq_dvd_iff mod_0_imp_dvd dvd_imp_mod_0)
  then have b: "trial_balance m' l' mod 2 ^ 64 = 0" for m'
    using ok trial_balance_post [OF ins, of m'] by (auto simp: ledger_ok_def mod_0_imp_dvd dvd_imp_mod_0)
  have c: "i64 (source_credits (source_of x) l') = lt_TotalDebit x" if "x \<in> set (ledger_transactions l')" for x
  proof (cases "x \<in> set (ledger_transactions l)")
    case True
    then have "source_of x \<noteq> (st, sid)" using fresh by (metis image_eqI)
    then show ?thesis using ok True by (simp add: cr ledger_ok_def)
  next
    case False
    then have "x = txn_row t m st sid desc es" using that by (simp add: l')
    then show ?thesis using tot by (simp add: cr src none) (simp add: txn_row_def)
  qed
  show ?thesis using a b c unfolding ledger_ok_def by blast
qed

text \<open>Every step of the flow leaves the ledger alone or makes one posting.\<close>

definition posting_step :: "ledger_db \<Rightarrow> ledger_db \<Rightarrow> bool" where
  "posting_step l l' \<longleftrightarrow> l' = l \<or> (\<exists>t m st sid desc es. CreateEntriesTx t m st sid desc es l = Inr l')"

lemma posting_stepI: "l' = l \<Longrightarrow> posting_step l l'" "CreateEntriesTx t m st sid desc es l = Inr l' \<Longrightarrow> posting_step l l'"
  by (auto simp: posting_step_def)

lemma pay_step_posting:
  assumes "pay_step db db'" "pay_inv db" shows "posting_step (db_ledger db) (db_ledger db')"
proof -
  note uniq = pay_inv_unique [OF assms(2)]
  have same: "same_money db d \<Longrightarrow> posting_step (db_ledger db) (db_ledger d)" for d by (simp add: same_money_def posting_step_def)
  show ?thesis using assms(1)
  proof (cases rule: pay_step.cases)
    case start
    then show ?thesis by (cases rule: StartAuthorization_Inr) (simp_all add: posting_step_def)
  next
    case (capture ids now m' i amount r)
    obtain t e1 e2 where "ids = (t, e1, e2)" by (metis prod_cases3)
    with capture have "CaptureAuthorizedPayment (t, e1, e2) now m' i amount db = Inr (r, db')" by simp
    then show ?thesis by (cases rule: CaptureAuthorizedPayment_Inr) (auto intro: posting_stepI)
  next
    case expire_window
    then show ?thesis using same expire_money [OF uniq] by blast
  next
    case expire_orders
    then show ?thesis by (auto simp: ExpireDueOrders_def Let_def posting_step_def)
  next
    case failed_attempt
    then show ?thesis by (auto simp: CreateFailedAttempt_def insert_attempt_def bindR_Inr_iff db_simps posting_step_def split: if_split_asm)
  next
    case attach
    then show ?thesis by (auto simp: AttachCardPaymentDetails_def posting_step_def split: if_split_asm)
  qed (blast intro: same mark_money [OF uniq] challenge_money [OF uniq] CreateOrder_money routing_money)+
qed

lemma flow_step_posting:
  assumes "flow_step db db'" "flow_inv db" shows "posting_step (db_ledger db) (db_ledger db')"
  using assms(1)
proof (cases rule: flow_step.cases)
  case payment
  then show ?thesis using pay_step_posting assms(2) by (auto simp: flow_inv_def)
next
  case (batch wired locked ids now m1 lo hi s)
  then obtain period descr extra ps where "settle_batch wired ids now m1 period descr extra ps db = Inr (s, db')"
    by (auto simp: RunBatch_def Let_def split: if_split_asm)
  then show ?thesis by (cases rule: settle_batch_Inr) (rule posting_stepI(2))
next
  case (partial_batch wired locked ids now m1 pids s)
  then obtain period descr extra ps where "settle_batch wired ids now m1 period descr extra ps db = Inr (s, db')"
    by (auto simp: RunPartialBatch_def Let_def split: if_split_asm)
  then show ?thesis by (cases rule: settle_batch_Inr) (rule posting_stepI(2))
next
  case (process_refund rids now refundID r)
  obtain t e a where rids: "rids = (t, e, a)" by (metis prod_cases3)
  from process_refund [unfolded this] show ?thesis by (cases rule: ProcessRefund_Inr) (rule posting_stepI(2))
next
  case (reverse_refund rids now m refundID reason r)
  obtain t e a where rids: "rids = (t, e, a)" by (metis prod_cases3)
  from reverse_refund [unfolded this] show ?thesis by (cases rule: ReverseRefund_Inr) (rule posting_stepI(2))
next
  case (create_refund refundID evtID now rin r)
  then show ?thesis by (cases rule: CreateRefund_Inr) (simp add: db_simps posting_step_def)
next
  case (fail_refund evtID now refundID r)
  then show ?thesis by (cases rule: FailRefund_Inr) (simp add: db_simps posting_step_def)
qed (auto dest!: marks_same simp: posting_step_def)

lemma cash_step_posting:
  assumes "cash_step db db'" "cash_inv db" shows "posting_step (db_ledger db) (db_ledger db')"
proof -
  have "unique_key pv_ID (views db)" using assms(2) by (simp add: cash_inv_def payouts_inv_def)
  with assms(1) show ?thesis
  proof (cases rule: cash_step_cases)
    case 1
    then show ?thesis using flow_step_posting assms(2) by (auto simp: cash_inv_def)
  next
    case 2
    then show ?thesis by (cases rule: payout_move.cases) (auto simp: bank_posting_def intro: posting_stepI)
  qed
qed

definition audited :: "'a payout_db_scheme \<Rightarrow> bool" where
  "audited db \<longleftrightarrow> cash_inv db \<and> ledger_ok (db_ledger db)"

interpretation audit: invariant_system cash_step audited
proof unfold_locales
  fix db db' :: "'a payout_db_scheme"
  assume step: "cash_step db db'" and inv: "audited db"
  then have "posting_step (db_ledger db) (db_ledger db')" "cash_inv db'" using cash_step_posting cash.inv_step by (auto simp: audited_def)
  then show "audited db'" using inv ledger_ok_post by (auto simp: audited_def posting_step_def)
qed

lemma audit_reach:
  assumes "cash_step\<^sup>*\<^sup>* db0 db" "cash_blank db0" shows "audited db"
proof -
  have "ledger_ok (db_ledger db0)" using assms(2) by (simp add: ledger_ok_def cash_blank_def blank_def trial_balance_def balance_where_def)
  then have "audited db0" using cash_reach [of db0 db0] assms(2) by (simp add: audited_def)
  then show ?thesis using audit.inv_steps assms(1) by blast
qed

section \<open>The first two checks\<close>

lemma scan_rows_InrD: "scan_rows f rs = Inr bs \<Longrightarrow> length bs = length rs \<and> (\<forall>r \<in> set rs. \<exists>b. f r = Inr b)"
  by (induction rs arbitrary: bs) (auto simp: bindR_Inr_iff)

lemma persistBatch_Inr: "persistBatch b m ty lo hi c n mms rdb = Inr (k, rdb') \<Longrightarrow> k = n"
  by (auto simp: persistBatch_def bindR_Inr_iff split: if_split_asm)

lemma persistBatch_clean: "b \<notin> rb_ID ` set (rc_batches rdb) \<Longrightarrow> \<exists>rdb'. persistBatch b m ty lo hi c n [] rdb = Inr (n, rdb')"
  by (simp add: persistBatch_def insert_mismatches_def)

lemma number_ids_Nil [simp]: "number_ids ids [] = []"
  by (simp add: number_ids_def)

lemma trial_balance_split: "trial_balance m l = merchant_debits m l - merchant_credits m l"
proof -
  have "sum_where p (\<lambda>e. le_DebitAmount e - le_CreditAmount e) es = sum_where p le_DebitAmount es - sum_where p le_CreditAmount es" for p es
    by (induction es) auto
  then show ?thesis by (simp add: trial_balance_def balance_where_def merchant_debits_def merchant_credits_def)
qed

lemma merchant_nonneg:
  assumes "ledger_ok l" shows "0 \<le> merchant_debits m l" "0 \<le> merchant_credits m l"
  using assms by (auto simp: merchant_debits_def merchant_credits_def ledger_ok_def intro!: sum_where_nonneg)

text \<open>Two numbers that agree modulo 2 to the 64 and both scan into an int64 are equal.\<close>

lemma scan_both: "i64 x = i64 y \<Longrightarrow> scan64 x = Inr a \<Longrightarrow> scan64 y = Inr b \<Longrightarrow> x = y"
  by (auto simp: scan64_def split: if_split_asm)

lemma imbalance_never_scans:
  assumes "ledger_ok l" "m \<in> set (unbalanced_merchants l)" shows "\<nexists>mm. scan_imbalance b l m = Inr mm"
proof
  assume "\<exists>mm. scan_imbalance b l m = Inr mm"
  then obtain d c where s: "scan64 (merchant_debits m l) = Inr d" "scan64 (merchant_credits m l) = Inr c"
    by (auto simp: scan_imbalance_def bindR_Inr_iff)
  have "trial_balance m l mod 2 ^ 64 = 0" using assms(1) by (simp add: ledger_ok_def)
  then have "i64 (merchant_debits m l) = i64 (merchant_credits m l)"
    unfolding i64_eq_iff trial_balance_split by (metis mod_eq_dvd_iff mod_0_imp_dvd)
  then have "merchant_debits m l = merchant_credits m l" by (rule scan_both [OF _ s])
  then show False using assms(2) by (simp add: unbalanced_merchants_def)
qed

lemma unbalanced_none: "unbalanced_merchants l = [] \<longleftrightarrow> (\<forall>m. trial_balance m l = 0)"
proof
  assume none: "unbalanced_merchants l = []"
  show "\<forall>m. trial_balance m l = 0"
  proof
    fix m
    show "trial_balance m l = 0"
    proof (cases "m \<in> le_MerchantID ` set (ledger_entries l)")
      case True
      then show ?thesis using none by (auto simp: unbalanced_merchants_def filter_empty_conv trial_balance_split)
    next
      case False
      then show ?thesis unfolding trial_balance_def balance_where_def by (intro sum_where_none) auto
    qed
  qed
qed (auto simp: unbalanced_merchants_def filter_empty_conv trial_balance_split)

lemma ledger_check_result:
  assumes "ledger_ok l" "RunLedgerBalanceCheck b ids now l rdb = Inr (n, rdb')" shows "n = 0 \<and> (\<forall>m. trial_balance m l = 0)"
proof -
  obtain mms where s: "scan_rows (scan_imbalance b l) (unbalanced_merchants l) = Inr mms" and n: "n = length mms"
    using assms(2) by (auto simp: RunLedgerBalanceCheck_def bindR_Inr_iff dest!: persistBatch_Inr)
  have "unbalanced_merchants l = []"
  proof (rule ccontr)
    assume "unbalanced_merchants l \<noteq> []"
    then have "hd (unbalanced_merchants l) \<in> set (unbalanced_merchants l)" by simp
    then show False using imbalance_never_scans [OF assms(1), of _ b] scan_rows_InrD [OF s] by blast
  qed
  then show ?thesis using s n unbalanced_none [of l] by auto
qed

lemma captured_transaction:
  assumes "flow_inv db" "p \<in> set (db_payments db)" "p_Status p = Captured"
  shows "\<exists>t \<in> set (ledger_transactions (db_ledger db)). source_of t = (''payment'', p_ID p) \<and> lt_TotalDebit t = i64 (p_Amount p)" "0 < p_Amount p"
proof -
  let ?ps = "posted_captures (db_ledger db)"
  have inv: "pay_inv db" using assms(1) by (simp add: flow_inv_def)
  then have "posted_ok (map claim_of (db_payments db)) ?ps" by (simp add: pay_inv_def exposure_inv_def abs_pay_def)
  then have "(p_ID p, i64 (p_Amount p)) \<in> set ?ps"
    using assms(2,3) unfolding posted_ok_def by (auto simp: claim_of_def)
  then show "\<exists>t \<in> set (ledger_transactions (db_ledger db)). source_of t = (''payment'', p_ID p) \<and> lt_TotalDebit t = i64 (p_Amount p)"
    by (auto simp: posted_captures_def source_of_def)
  show "0 < p_Amount p" using pay_inv_positive [OF inv] assms(2) by blast
qed

lemma payment_credits:
  assumes "audited db" "p \<in> set (db_payments db)" "p_Status p = Captured"
  shows "i64 (ledger_credits (p_ID p) (db_ledger db)) = i64 (p_Amount p)"
proof -
  have inv: "flow_inv db" "ledger_ok (db_ledger db)" using assms(1) by (simp_all add: audited_def cash_inv_def)
  obtain t where t: "t \<in> set (ledger_transactions (db_ledger db))" "source_of t = (''payment'', p_ID p)" "lt_TotalDebit t = i64 (p_Amount p)"
    using captured_transaction(1) [OF inv(1) assms(2,3)] by blast
  have "ledger_credits (p_ID p) (db_ledger db) = source_credits (''payment'', p_ID p) (db_ledger db)"
    unfolding ledger_credits_def source_credits_def by (rule sum_where_cong) auto
  moreover have "i64 (source_credits (source_of t) (db_ledger db)) = lt_TotalDebit t" using inv(2) t(1) unfolding ledger_ok_def by blast
  ultimately show ?thesis using t(2,3) by simp
qed

lemma credits_never_scan:
  assumes "audited db" "p \<in> set (db_payments db)" "captured_in lo hi p" "credits_differ (db_ledger db) p"
  shows "\<nexists>mm. scan_payment_row b (db_ledger db) p = Inr mm"
proof
  assume "\<exists>mm. scan_payment_row b (db_ledger db) p = Inr mm"
  then obtain a c where s: "scan64 (p_Amount p) = Inr a" "scan64 (ledger_credits (p_ID p) (db_ledger db)) = Inr c"
    by (auto simp: scan_payment_row_def bindR_Inr_iff)
  have p: "p_Status p = Captured" using assms(3) by (simp add: captured_in_def)
  have "ledger_credits (p_ID p) (db_ledger db) = p_Amount p" by (rule scan_both [OF payment_credits [OF assms(1,2) p] s(2,1)])
  moreover have "flow_inv db" using assms(1) by (simp add: audited_def cash_inv_def)
  ultimately show False using captured_transaction(2) [OF _ assms(2) p] assms(4) by (auto simp: credits_differ_def)
qed

lemma payment_check_result:
  assumes "audited db" "RunPaymentLedgerCheck b ids lo hi db rdb = Inr (n, rdb')"
  shows "n = 0 \<and> (\<forall>p \<in> set (db_payments db). captured_in lo hi p \<longrightarrow> ledger_credits (p_ID p) (db_ledger db) = p_Amount p)"
proof -
  let ?rows = "filter (\<lambda>p. captured_in lo hi p \<and> credits_differ (db_ledger db) p) (db_payments db)"
  obtain mms where s: "scan_rows (scan_payment_row b (db_ledger db)) ?rows = Inr mms" and n: "n = length mms"
    using assms(2) by (auto simp: RunPaymentLedgerCheck_def bindR_Inr_iff dest!: persistBatch_Inr)
  have none: "?rows = []"
  proof (rule ccontr)
    assume "?rows \<noteq> []"
    then have h: "hd ?rows \<in> set ?rows" by (rule hd_in_set)
    then have "\<exists>mm. scan_payment_row b (db_ledger db) (hd ?rows) = Inr mm" using scan_rows_InrD [OF s] by blast
    then show False using credits_never_scan [OF assms(1)] h by auto
  qed
  then have "n = 0" using s n by simp
  moreover have "ledger_credits (p_ID p) (db_ledger db) = p_Amount p" if "p \<in> set (db_payments db)" "captured_in lo hi p" for p
    using none that by (auto simp: filter_empty_conv credits_differ_def)
  ultimately show ?thesis by blast
qed

lemma sum_by_key:
  assumes "distinct ks" "\<forall>e \<in> set es. k e \<in> set ks"
  shows "sum_where p f es = sum_list (map (\<lambda>a. sum_where (\<lambda>e. p e \<and> k e = a) f es) ks)"
  using assms(2)
proof (induction es)
  case (Cons e es)
  have "sum_list (map (\<lambda>a. if p e \<and> k e = a then f e else 0) ks) = (if p e then f e else 0)"
    using assms(1) Cons.prems by (simp add: sum_list_distinct_conv_sum_set if_distrib cong: if_cong)
  then show ?case using Cons by (simp add: sum_list_addf)
qed (induction ks; simp)

lemma trial_balance_accounts:
  assumes "ledger_ok l" shows "trial_balance m l = sum_list (map (\<lambda>a. account_balance m a l) ledger_accounts)"
  unfolding trial_balance_def account_balance_def balance_where_def
  by (rule sum_by_key) (use assms in \<open>auto simp: ledger_ok_def ledger_accounts_def\<close>)

lemma sum_where_diff: "sum_where p (\<lambda>x. f x - g x) xs = sum_where p f xs - sum_where p g xs"
  by (induction xs) auto

lemma books_balance:
  assumes "audited db" "in_bounds db" shows "trial_balance m (db_ledger db) = 0"
proof -
  have inv: "flow_inv db" "ledger_ok (db_ledger db)" using assms(1) by (simp_all add: audited_def cash_inv_def)
  let ?s = "\<lambda>f. sum_where (captured_of m) f (db_payments db)"
  have "?s net_of = ?s p_Amount - ?s (\<lambda>p. p_Fee p - fee_back p) - ?s p_AmountRefunded"
    unfolding sum_where_diff [symmetric] by (rule sum_where_cong) (simp_all add: net_of_def)
  then show ?thesis using flow_books [OF inv(1) assms(2), of m] by (simp add: trial_balance_accounts [OF inv(2)] ledger_accounts_def)
qed

text \<open>
  C18: What the ledger checks can find. On every database that the operations of payments, refunds, settlements and
  payouts reach, the check of the balances and the check of the captured payments never report a mismatch: when
  they succeed, every merchant is balanced and the credits of every captured payment in the window are exactly its
  amount. Within the bounds the balance check does succeed.
\<close>

theorem recon_ledger_clean:
  assumes "cash_step\<^sup>*\<^sup>* db0 db" "cash_blank db0"
  shows "(RunLedgerBalanceCheck b ids now (db_ledger db) rdb = Inr (n, rdb1) \<longrightarrow> n = 0 \<and> (\<forall>m. trial_balance m (db_ledger db) = 0))
    \<and> (RunPaymentLedgerCheck b ids start fin db rdb = Inr (k, rdb2) \<longrightarrow> k = 0
         \<and> (\<forall>p \<in> set (db_payments db). captured_in start fin p \<longrightarrow> ledger_credits (p_ID p) (db_ledger db) = p_Amount p))
    \<and> (in_bounds db \<and> b \<notin> rb_ID ` set (rc_batches rdb) \<longrightarrow> (\<exists>rdb'. RunLedgerBalanceCheck b ids now (db_ledger db) rdb = Inr (0, rdb')))"
proof (intro conjI impI)
  have a: "audited db" by (rule audit_reach [OF assms])
  then have ok: "ledger_ok (db_ledger db)" by (simp add: audited_def)
  show "n = 0" "\<forall>m. trial_balance m (db_ledger db) = 0" if "RunLedgerBalanceCheck b ids now (db_ledger db) rdb = Inr (n, rdb1)"
    using ledger_check_result [OF ok that] by simp_all
  show "k = 0" "\<forall>p \<in> set (db_payments db). captured_in start fin p \<longrightarrow> ledger_credits (p_ID p) (db_ledger db) = p_Amount p"
    if "RunPaymentLedgerCheck b ids start fin db rdb = Inr (k, rdb2)"
    using payment_check_result [OF a that] by simp_all
  assume h: "in_bounds db \<and> b \<notin> rb_ID ` set (rc_batches rdb)"
  then have "unbalanced_merchants (db_ledger db) = []" unfolding unbalanced_none using books_balance [OF a] by blast
  then show "\<exists>rdb'. RunLedgerBalanceCheck b ids now (db_ledger db) rdb = Inr (0, rdb')"
    using persistBatch_clean [of b rdb] h by (simp add: RunLedgerBalanceCheck_def)
qed

definition no_recon :: recon_db where
  "no_recon = \<lparr>rc_batches = [], rc_mismatches = [], rc_imports = [], rc_entries = [], rc_notes = []\<rparr>"

definition wrapped_entries :: "entry list" where
  "wrapped_entries = map (\<lambda>(d, c). \<lparr>e_AccountCode = ''MERCHANT_PAYABLE'', e_DebitAmount = d, e_CreditAmount = c, e_Currency = '''', e_Description = ''''\<rparr>)
     [(2 ^ 63 - 1, 0), (2 ^ 63 - 1, 0), (3, 0), (0, 1)]"

text \<open>
  What they cannot find. A posting whose debits exceed its credits by 2 to the 64 is accepted, the merchant is
  out of balance, and the check ends with an error of the driver, for the total does not fit the int64 it is read
  into: the one imbalance the postings can produce is never stored as a mismatch.
\<close>

theorem recon_blind_to_wrap:
  "\<exists>l. CreateEntriesTx ''t'' ''m'' ''payment'' ''p'' '''' wrapped_entries empty_ledger = Inr l \<and> trial_balance ''m'' l = 2 ^ 64
     \<and> (\<forall>b ids now rdb. RunLedgerBalanceCheck b ids now l rdb = Inl (ReconScan ErrScanRange))"
proof -
  obtain l where l: "CreateEntriesTx ''t'' ''m'' ''payment'' ''p'' '''' wrapped_entries empty_ledger = Inr l"
    and es: "map le_MerchantID (ledger_entries l) = [''m'', ''m'', ''m'', ''m'']" "merchant_debits ''m'' l = 2 ^ 64 + 1" "merchant_credits ''m'' l = 1"
    by (simp add: CreateEntriesTx_def ValidateEntries_def InsertTransactionWithEntriesTx_def wrapped_entries_def merchant_debits_def merchant_credits_def
        empty_ledger_def entry_ok_def ledger_accounts_def i64_def Let_def entry_row_def)
  have "unbalanced_merchants l = [''m'']" by (simp add: unbalanced_merchants_def es)
  then have "RunLedgerBalanceCheck b ids now l rdb = Inl (ReconScan ErrScanRange)" for b ids now rdb
    by (simp add: RunLedgerBalanceCheck_def scan_imbalance_def es scan64_def in64_def)
  then show ?thesis using l es by (auto simp: trial_balance_split)
qed

theorem recon_ledger_clean_witness:
  "\<exists>db :: payout_db. cash_step\<^sup>*\<^sup>* sample_books db \<and> db_payments db \<noteq> []
     \<and> (\<exists>rdb'. RunLedgerBalanceCheck ''b1'' (\<lambda>_. '''') 9 (db_ledger db) no_recon = Inr (0, rdb'))"
proof -
  obtain db p where db: "cash_step\<^sup>*\<^sup>* sample_books db" "db_payments db = [p]" "p_Status p = Captured" "p_Amount p = 500" "db_splits db = []"
    by (rule sample_refunded_ok) blast
  then have "in_bounds db" by (simp add: in_bounds_def money_bound_def volume_bound_def)
  then show ?thesis using recon_ledger_clean [OF db(1) sample_blank, of "''b1''" _ 9 no_recon] db(1,2) by (auto simp: no_recon_def)
qed

section \<open>The three-way check\<close>

lemma expectedNet_eq: "money_ok p \<Longrightarrow> expectedNet p = net_of p"
  using item_net_eq [of p "undefined" 0 "''''" 0] by (simp add: expectedNet_def item_of_def refund_impact_def)

text \<open>What the shape of the treasury says of payments and items.\<close>

lemma settled_rows:
  assumes "flow_inv db"
  shows "unique_key it_PaymentID (db_items db)" "unique_key p_ID (db_payments db)"
    "p \<in> set (db_payments db) \<Longrightarrow> p_Settled p \<longleftrightarrow> p_ID p \<in> it_PaymentID ` set (db_items db)"
    "it \<in> set (db_items db) \<Longrightarrow> it_PaymentID it \<in> p_ID ` set (db_payments db)"
proof -
  have shape: "shape_inv (abs_tr db)" using assms by (simp add: flow_inv_def treasury_inv_def)
  show "unique_key it_PaymentID (db_items db)" "unique_key p_ID (db_payments db)"
    using shape_invD(1,3) [OF shape] by (simp_all add: unique_key_def abs_tr_def item_view_of_def purse_of_def o_def)
  show "p \<in> set (db_payments db) \<Longrightarrow> p_Settled p \<longleftrightarrow> p_ID p \<in> it_PaymentID ` set (db_items db)"
    using shape_invD(4) [OF shape] by (simp add: abs_tr_def purse_ok_def item_view_of_def image_image)
  show "it_PaymentID it \<in> p_ID ` set (db_payments db)" if "it \<in> set (db_items db)"
  proof -
    have "item_ok (map purse_of (db_payments db)) (item_view_of it)" using shape_invD(6) [OF shape] that by (simp add: abs_tr_def)
    then show ?thesis by (auto simp: item_ok_def item_view_of_def) (metis image_eqI)
  qed
qed

lemma three_way_entities:
  assumes "flow_inv db" "mm \<in> set (three_way_mismatches b lo hi db)"
  shows "mm_Type mm = MismatchSettlementPaymentMismatch \<and> (\<exists>p it. mm_EntityID mm = p_ID p \<and> p \<in> set (db_payments db) \<and> captured_in lo hi p
    \<and> it \<in> set (db_items db) \<and> it_PaymentID it = p_ID p \<and> it_Net it \<noteq> expectedNet p)"
proof -
  note rows = settled_rows [OF assms(1)]
  have "orphan_items lo hi db = []" using rows(4) by (auto simp: orphan_items_def filter_empty_conv)
  then obtain row where r: "row \<in> set (three_way_rows lo hi db)" and mm: "mm \<in> set (compare_row b row)"
    using assms(2) by (auto simp: three_way_mismatches_def)
  then obtain p it where p: "p \<in> set (db_payments db)" "captured_in lo hi p" "it \<in> set (db_items db)" "it_PaymentID it = p_ID p" and row: "row = (p, Some it)"
    using rows(3) by (auto simp: three_way_rows_def items_of_def filter_empty_conv split: if_split_asm)
  have "p_Settled p" using rows(3) [OF p(1)] p(3,4) by (metis image_eqI)
  then show ?thesis using mm p unfolding row by (auto simp: compare_row_def new_mismatch_def split: if_split_asm)
qed

lemma three_way_complete:
  assumes "p \<in> set (db_payments db)" "captured_in lo hi p" "it \<in> set (db_items db)" "it_PaymentID it = p_ID p" "it_Net it \<noteq> expectedNet p"
  shows "p_ID p \<in> mm_EntityID ` set (three_way_mismatches b lo hi db)"
proof -
  have "(p, Some it) \<in> set (three_way_rows lo hi db)"
    using assms(1-4) by (auto simp: three_way_rows_def items_of_def filter_empty_conv)
  moreover have "\<exists>mm \<in> set (compare_row b (p, Some it)). mm_EntityID mm = p_ID p"
    using assms(5) by (simp add: compare_row_def new_mismatch_def)
  ultimately show ?thesis unfolding three_way_mismatches_def by force
qed

text \<open>Items are only appended, each with what its purse is worth when it is settled.\<close>

lemma move_items:
  assumes "treasury_move s s'" "bounded s" "w \<in> set (t_items s')" "w \<notin> set (t_items s)"
  shows "\<exists>u \<in> set (t_purses s). u_ID u = w_PaymentID w \<and> u_Captured u \<and> w_Net w = purse_net u"
  using assms
proof (induction rule: treasury_move.induct)
  case (settle us I s m ws sid acct)
  then have w: "w \<in> set ws" by simp
  then obtain i where i: "i < length ws" "w = ws ! i" by (metis in_set_conv_nth)
  have nets: "map w_Net ws = map purse_net us" using settle.hyps(6) settle.prems(1) by blast
  have len: "length us = length ws" using map_eq_imp_length_eq [OF settle.hyps(3)] by simp
  have "us ! i \<in> set us" using i(1) len by simp
  moreover from this have "us ! i \<in> set (t_purses s)" "u_Captured (us ! i)" using settle.hyps(1,2) by (auto simp: of_merchant_def)
  moreover have "w_PaymentID w = u_ID (us ! i)" "w_Net w = purse_net (us ! i)"
    using i len arg_cong [OF settle.hyps(3), of "\<lambda>xs. xs ! i"] arg_cong [OF nets, of "\<lambda>xs. xs ! i"] by simp_all
  ultimately show ?case by (metis (no_types, lifting))
qed (auto simp: upd_purse_def upd_refund_def)

lemma move_items_kept: "treasury_move s s' \<Longrightarrow> set (t_items s) \<subseteq> set (t_items s')"
  by (induction rule: treasury_move.induct) (auto simp: upd_purse_def upd_refund_def)

lemma cash_step_treasury:
  assumes "cash_step db db'" "cash_inv db"
  obtains "treasury_move (abs_tr db) (abs_tr db')"
    | "db_payments db' = db_payments db" "db_items db' = db_items db" "db_splits db' = db_splits db"
proof -
  have "unique_key pv_ID (views db)" using assms(2) by (simp add: cash_inv_def payouts_inv_def)
  with assms(1) show thesis
  proof (cases rule: cash_step_cases)
    case 1
    then show thesis using flow_step_move assms(2) that(1) by (auto simp: cash_inv_def)
  next
    case 2
    then show thesis using that(2) by (cases rule: payout_move.cases) (simp_all add: pay_still_def)
  qed
qed

lemma cash_step_bounds:
  assumes "cash_step db db'" "cash_inv db" "in_bounds db'" shows "in_bounds db"
  using assms(1,2)
proof (cases rule: cash_step_treasury)
  case 1
  have "shape_inv (abs_tr db)" using assms(2) by (simp add: cash_inv_def flow_inv_def treasury_inv_def)
  then show ?thesis using move_bounded [OF 1] assms(3) by (simp add: in_bounds_abs)
next
  case 2
  then show ?thesis using assms(3) by (simp add: in_bounds_def)
qed

lemma item_views: "it \<in> set (db_items db) \<Longrightarrow> item_view_of it \<in> set (t_items (abs_tr db))"
  by (simp add: abs_tr_def)

text \<open>The items of a later database still say what they said, up to what the treasury does not see.\<close>

lemma item_kept:
  assumes "cash_step\<^sup>*\<^sup>* db db'" "cash_inv db" "it \<in> set (db_items db)"
  shows "\<exists>it' \<in> set (db_items db'). item_view_of it' = item_view_of it"
  using assms(1)
proof (induction rule: rtranclp_induct)
  case (step y z)
  then obtain it' where it': "it' \<in> set (db_items y)" "item_view_of it' = item_view_of it" by blast
  have "cash_inv y" using cash.inv_steps [OF step.hyps(1) assms(2)] .
  with step.hyps(2) show ?case
  proof (cases rule: cash_step_treasury)
    case 1
    then have "item_view_of it \<in> set (t_items (abs_tr z))" using move_items_kept item_views [OF it'(1)] it'(2) by (metis subsetD)
    then show ?thesis by (auto simp: abs_tr_def)
  next
    case 2
    then show ?thesis using it' by auto
  qed
qed (use assms(3) in blast)

lemma bounds_back: "cash_step\<^sup>*\<^sup>* db db' \<Longrightarrow> cash_inv db \<Longrightarrow> in_bounds db' \<Longrightarrow> in_bounds db"
proof (induction rule: rtranclp_induct)
  case (step y z)
  then show ?case using cash_step_bounds cash.inv_steps by blast
qed

text \<open>The step that settles a payment writes an item over what the payment is worth then.\<close>

lemma settling_item:
  assumes "cash_step db db'" "cash_inv db" "in_bounds db" "p \<in> set (db_payments db)" "\<not> p_Settled p"
    and "p' \<in> set (db_payments db')" "p_ID p' = p_ID p" "p_Settled p'"
  shows "\<exists>it \<in> set (db_items db'). it_PaymentID it = p_ID p \<and> it_Net it = net_of p"
proof -
  have inv: "flow_inv db" "flow_inv db'" using assms(2) cash.inv_step [OF assms(1,2)] by (simp_all add: cash_inv_def)
  obtain it where it: "it \<in> set (db_items db')" "it_PaymentID it = p_ID p"
    using settled_rows(3) [OF inv(2) assms(6)] assms(7,8) by auto
  have old: "p_ID p \<notin> it_PaymentID ` set (db_items db)" using settled_rows(3) [OF inv(1) assms(4)] assms(5) by simp
  from assms(1,2) show ?thesis
  proof (cases rule: cash_step_treasury)
    case 1
    have "item_view_of it \<notin> set (t_items (abs_tr db))"
      using old it(2) by (auto simp: abs_tr_def item_view_of_def)
    then obtain u where u: "u \<in> set (t_purses (abs_tr db))" "u_ID u = p_ID p" "u_Captured u" "it_Net it = purse_net u"
      using move_items [OF 1 _ item_views [OF it(1)]] assms(3) it(2) by (auto simp: in_bounds_abs item_view_of_def)
    then obtain q where q: "q \<in> set (db_payments db)" "u = purse_of q" by (auto simp: abs_tr_def)
    then have "q = p" using settled_rows(2) [OF inv(1)] u(2) assms(4) unique_key_inj by (metis purse_of_fields(1))
    moreover have "money_ok p"
      using captured_money_ok [OF _ assms(3,4)] inv(1) u(3) q \<open>q = p\<close> by (simp add: flow_inv_def purse_of_def)
    ultimately show ?thesis using it u(4) q(2) net_of_purse by auto
  next
    case 2
    then show ?thesis using old it by (auto simp: image_iff)
  qed
qed

text \<open>
  What the three-way check reports. In every reachable database all its mismatches are payments whose settlement
  item and expected net differ, and after the step that settled a payment, any run of operations within the bounds
  leads to a report for it exactly when refunds have changed what the payment is worth: the check flags the
  refunds of settled payments, which the settlement module handles by adjustments, and nothing else.
\<close>

theorem three_way_reports_refunds:
  assumes "cash_step\<^sup>*\<^sup>* db0 db1" "cash_blank db0" "cash_step db1 db2" "cash_step\<^sup>*\<^sup>* db2 db3" "in_bounds db3"
    and "p1 \<in> set (db_payments db1)" "\<not> p_Settled p1" "p2 \<in> set (db_payments db2)" "p_ID p2 = p_ID p1" "p_Settled p2"
    and "p3 \<in> set (db_payments db3)" "p_ID p3 = p_ID p1" "captured_in start fin p3"
  shows "(\<forall>mm \<in> set (three_way_mismatches b start fin db3). mm_Type mm = MismatchSettlementPaymentMismatch)
    \<and> (p_ID p3 \<in> mm_EntityID ` set (three_way_mismatches b start fin db3) \<longleftrightarrow> net_of p3 \<noteq> net_of p1)"
proof -
  have inv1: "cash_inv db1" by (rule cash_reach [OF assms(1,2)])
  have inv2: "cash_inv db2" by (rule cash.inv_step [OF assms(3) inv1])
  have inv3: "cash_inv db3" by (rule cash.inv_steps [OF assms(4) inv2])
  have fi: "flow_inv db3" using inv3 by (simp add: cash_inv_def)
  have b1: "in_bounds db1" using cash_step_bounds [OF assms(3) inv1] bounds_back [OF assms(4) inv2 assms(5)] by blast
  obtain it where it: "it \<in> set (db_items db2)" "it_PaymentID it = p_ID p1" "it_Net it = net_of p1"
    using settling_item [OF assms(3) inv1 b1 assms(6-10)] by blast
  obtain it' where i: "it' \<in> set (db_items db3)" "item_view_of it' = item_view_of it" using item_kept [OF assms(4) inv2 it(1)] by blast
  then have i': "it_PaymentID it' = p_ID p3" "it_Net it' = net_of p1" using it assms(12) by (simp_all add: item_view_of_def)
  have "money_ok p3" using captured_money_ok [OF _ assms(5,11)] fi assms(13) by (simp add: flow_inv_def captured_in_def)
  then have e: "expectedNet p3 = net_of p3" by (rule expectedNet_eq)
  have "net_of p3 \<noteq> net_of p1" if r: "p_ID p3 \<in> mm_EntityID ` set (three_way_mismatches b start fin db3)"
  proof -
    obtain q jt where q: "p_ID q = p_ID p3" "q \<in> set (db_payments db3)" "jt \<in> set (db_items db3)" "it_PaymentID jt = p_ID q" "it_Net jt \<noteq> expectedNet q"
      using r three_way_entities [OF fi] by fastforce
    have "q = p3" "jt = it'" using q i'(1) i(1) assms(11) settled_rows(1,2) [OF fi] unique_key_inj by metis+
    then show ?thesis using q(5) e i'(2) by simp
  qed
  moreover have "p_ID p3 \<in> mm_EntityID ` set (three_way_mismatches b start fin db3)" if "net_of p3 \<noteq> net_of p1"
    by (rule three_way_complete [OF assms(11,13) i(1) i'(1)]) (use that e i'(2) in simp)
  ultimately show ?thesis using three_way_entities [OF fi] by blast
qed

lemma sample_filter: "filter P xs = [p] \<Longrightarrow> P p"
  by (metis list.set_intros(1) mem_Collect_eq set_filter)

lemma batch_splits: "RunBatch wired locked ids now m lo hi db = Inr (s, db') \<Longrightarrow> db_splits db' = db_splits db"
  by (auto simp: RunBatch_def Let_def split: if_split_asm elim!: settle_batch_Inr)

theorem three_way_reports_refunds_witness:
  "\<exists>(db :: payout_db) p. cash_step\<^sup>*\<^sup>* sample_books db \<and> p \<in> set (db_payments db) \<and> p_Settled p \<and> captured_in 0 100 p
     \<and> p_ID p \<notin> mm_EntityID ` set (three_way_mismatches ''b1'' 0 100 db)"
proof -
  obtain db p where db: "cash_step\<^sup>*\<^sup>* sample_books db" "in_bounds db" "fresh_batch sample_batch_ids db"
    "filter (\<lambda>p. settleable [] ''m1'' p \<and> captured_between 0 100 p) (db_payments db) = [p]" "net_of p = 392" "db_items db = []"
    "db_payments db = [p]" "p_ID p = ''p1''" by (rule sample_before_batch) (rule that, assumption+)
  have worth: "0 < sum_list (map net_of [p])" using db(5) by simp
  have p: "\<not> p_Settled p" "p_Status p = Captured" "captured_in 0 100 p"
    using sample_filter [OF db(4)]
    by (auto simp: settleable_def captured_between_def captured_in_def split: option.split_asm)
  obtain s db' where b: "RunBatch True [] sample_batch_ids 10 ''m1'' 0 100 db = Inr (s, db')"
    "db_payments db' = [settle_payment ''st1'' p]"
    by (rule RunBatch_total [OF cash_flow_inv [OF db(1) sample_blank] db(2,3) db(4) [symmetric] worth, of True 10])
       (use that db in \<open>simp add: sample_batch_ids_def\<close>)
  have step: "cash_step db db'" by (rule cash_step.flow [OF flow_step.batch [OF b(1)]])
  let ?q = "settle_payment ''st1'' p"
  have q: "p_ID ?q = p_ID p" "p_Settled ?q" "captured_in 0 100 ?q" "net_of ?q = net_of p" "p_Status ?q = Captured" "p_Amount ?q = p_Amount p"
    using p by (simp_all add: settle_payment_def captured_in_def net_of_def fee_back_def)
  have "in_bounds db'" using db(2) p(2) q by (simp add: in_bounds_def b(2) batch_splits [OF b(1)] db(7))
  then have "p_ID ?q \<notin> mm_EntityID ` set (three_way_mismatches ''b1'' 0 100 db')"
    using three_way_reports_refunds [OF db(1) sample_blank step rtranclp.rtrancl_refl, of p ?q ?q 0 100 "''b1''"] p q db(7) b(2) by simp
  moreover have "cash_step\<^sup>*\<^sup>* sample_books db'" using db(1) step by (rule rtranclp.rtrancl_into_rtrancl)
  ultimately show ?thesis using b(2) q by (intro exI [of _ db'] exI [of _ ?q]) simp
qed

section \<open>Imports\<close>

definition entry_matches :: "id \<Rightarrow> 'a payout_db_scheme \<Rightarrow> source_entry \<Rightarrow> bool" where
  "entry_matches m db e \<longleftrightarrow> (\<exists>s \<in> set (db_settlements db). st_ID s = se_ReferenceID e \<and> st_MerchantID s = m
     \<and> st_NetAmount s = se_Amount e \<and> st_Currency s = se_Currency e \<and> (se_Status e \<noteq> '''' \<longrightarrow> settlement_name (st_Status s) = se_Status e))"

lemma compare_settlement:
  assumes "unique_key st_ID (db_settlements db)" "se_EntityType e = ''settlement''"
  shows "compareSourceEntry b i m e db = None \<longleftrightarrow> entry_matches m db e"
proof (cases "find (\<lambda>s. st_ID s = se_ReferenceID e \<and> st_MerchantID s = m) (db_settlements db)")
  case None
  then have "\<not> entry_matches m db e" by (auto simp: entry_matches_def find_None_iff)
  then show ?thesis using assms(2) None by (simp add: compareSourceEntry_def)
next
  case (Some s)
  have "s' = s" if "s' \<in> set (db_settlements db)" "st_ID s' = se_ReferenceID e" for s'
    using unique_key_inj [OF assms(1) that(1)] find_SomeD [OF Some] that(2) by metis
  then have "entry_matches m db e \<longleftrightarrow> st_NetAmount s = se_Amount e \<and> st_Currency s = se_Currency e
      \<and> (se_Status e \<noteq> '''' \<longrightarrow> settlement_name (st_Status s) = se_Status e)"
    using find_SomeD [OF Some] unfolding entry_matches_def by blast
  then show ?thesis using Some assms(2) by (auto simp: compareSourceEntry_def)
qed

lemma map_filter_Nil_iff: "List.map_filter f xs = [] \<longleftrightarrow> (\<forall>x \<in> set xs. f x = None)"
  by (auto simp: List.map_filter_def filter_empty_conv)

text \<open>
  Importing settlements is exact. For a source of settlement rows with at least one entry, no mismatch is stored
  exactly when every entry agrees with the settlement it refers to in amount, currency and (if given) status, and
  every settlement the merchant got in the period is among the entries.
\<close>

theorem import_settlements_exact:
  assumes "unique_key st_ID (db_settlements db)" "ip_Entries inp \<noteq> []" "\<forall>e \<in> set (ip_Entries inp). se_EntityType e = ''settlement''"
    and "ImportSource b i entryID ids inp db rdb = Inr (imp, rdb')"
  shows "sm_MismatchCount imp = 0 \<longleftrightarrow> (\<forall>e \<in> set (ip_Entries inp). entry_matches (ip_MerchantID inp) db e)
    \<and> (\<forall>s \<in> set (db_settlements db). st_MerchantID s = ip_MerchantID inp \<and> ip_PeriodStart inp \<le> st_CreatedAt s \<and> st_CreatedAt s < ip_PeriodEnd inp
         \<longrightarrow> st_ID s \<in> se_ReferenceID ` set (ip_Entries inp))"
proof -
  have cnt: "sm_MismatchCount imp = length (import_mismatches b i inp db)"
    using assms(4) by (auto simp: ImportSource_def Let_def bindR_Inr_iff split: if_split_asm)
  have "List.map_filter (\<lambda>e. compareSourceEntry b i (ip_MerchantID inp) e db) (ip_Entries inp) = []
      \<longleftrightarrow> (\<forall>e \<in> set (ip_Entries inp). entry_matches (ip_MerchantID inp) db e)"
    using compare_settlement [OF assms(1)] assms(3) by (auto simp: map_filter_Nil_iff)
  moreover have "findMissingInternalEntities b i inp (se_ReferenceID ` set (ip_Entries inp)) db = []
      \<longleftrightarrow> (\<forall>s \<in> set (db_settlements db). st_MerchantID s = ip_MerchantID inp \<and> ip_PeriodStart inp \<le> st_CreatedAt s \<and> st_CreatedAt s < ip_PeriodEnd inp
         \<longrightarrow> st_ID s \<in> se_ReferenceID ` set (ip_Entries inp))"
    using assms(2,3) by (auto simp: findMissingInternalEntities_def filter_empty_conv split: list.split)
  ultimately show ?thesis unfolding cnt length_0_conv import_mismatches_def append_is_Nil_conv by simp
qed

text \<open>Payouts that are missing from a source are never reported, whatever the period.\<close>

lemma missing_payouts_unreported:
  assumes "ip_Entries inp = e # es" "se_EntityType e = ''payout''"
  shows "findMissingInternalEntities b i inp refs db = []"
  using assms by (simp add: findMissingInternalEntities_def)

section \<open>The life of a mismatch\<close>

inductive mismatch_step :: "recon_db \<Rightarrow> recon_db \<Rightarrow> bool" where
  assign: "AssignMismatch noteID now m i who note rdb = Inr rdb' \<Longrightarrow> mismatch_step rdb rdb'"
| resolve: "ResolveMismatch now m i who code txt rdb = Inr rdb' \<Longrightarrow> mismatch_step rdb rdb'"
| reopen: "ReopenMismatch noteID now m i note rdb = Inr rdb' \<Longrightarrow> mismatch_step rdb rdb'"
| add_note: "AddMismatchNote noteID now m i author note rdb = Inr rdb' \<Longrightarrow> mismatch_step rdb rdb'"
| persist: "persistBatch b m ty lo hi c n (number_ids ids mms) rdb = Inr (k, rdb')
    \<Longrightarrow> \<forall>mm \<in> set mms. mm_Status mm = MmOpen \<and> \<not> mm_Resolved mm \<Longrightarrow> mismatch_step rdb rdb'"

definition mismatch_ok :: "recon_mismatch \<Rightarrow> bool" where
  "mismatch_ok mm \<longleftrightarrow> (mm_Resolved mm \<longleftrightarrow> mm_Status mm = MmResolved)
     \<and> (mm_Status mm = MmResolved \<longrightarrow> mm_ResolvedAt mm \<noteq> None) \<and> (mm_Status mm = MmAssigned \<longrightarrow> mm_AssignedAt mm \<noteq> None)"

definition recon_inv :: "recon_db \<Rightarrow> bool" where
  "recon_inv rdb \<longleftrightarrow> unique_key mm_ID (rc_mismatches rdb) \<and> (\<forall>mm \<in> set (rc_mismatches rdb). mismatch_ok mm)
     \<and> (\<forall>n \<in> set (rc_notes rdb). nt_MismatchID n \<in> mm_ID ` set (rc_mismatches rdb))"

lemma insert_note_inv: "insert_note n rdb = Inr rdb' \<Longrightarrow> recon_inv rdb \<Longrightarrow> recon_inv rdb'"
  by (auto simp: insert_note_def recon_inv_def split: if_split_asm)

lemma note_if_inv: "note_if noteID now m i who note rdb = Inr rdb' \<Longrightarrow> recon_inv rdb \<Longrightarrow> recon_inv rdb'"
  by (auto simp: note_if_def insert_note_inv split: if_split_asm)

lemma update_inv:
  assumes "recon_inv rdb" "\<And>mm. mm_ID (f mm) = mm_ID mm" "\<And>mm. mismatch_ok mm \<Longrightarrow> mismatch_ok (f mm)"
  shows "recon_inv (rdb\<lparr>rc_mismatches := upd_where q f (rc_mismatches rdb)\<rparr>)"
  using assms by (simp add: recon_inv_def ball_upd_where)

lemma number_ids_in: "mm \<in> set (number_ids ids mms) \<Longrightarrow> \<exists>x \<in> set mms. \<exists>j. mm = x\<lparr>mm_ID := j\<rparr>"
  by (auto simp: number_ids_def dest!: set_zip_rightD)

interpretation mismatches: invariant_system mismatch_step recon_inv
proof unfold_locales
  fix rdb rdb' assume "mismatch_step rdb rdb'" and inv: "recon_inv rdb"
  then show "recon_inv rdb'"
  proof (cases rule: mismatch_step.cases)
    case (persist b m ty lo hi c n ids mms k)
    have ok: "mismatch_ok mm" if "mm \<in> set (number_ids ids mms)" for mm
      using number_ids_in [OF that] persist(2) by (auto simp: mismatch_ok_def)
    have new: "distinct (map mm_ID (number_ids ids mms))" "set (map mm_ID (number_ids ids mms)) \<inter> mm_ID ` set (rc_mismatches rdb) = {}"
      and rows: "rc_mismatches rdb' = rc_mismatches rdb @ number_ids ids mms" "rc_notes rdb' = rc_notes rdb"
      using persist(1) by (auto simp: persistBatch_def insert_mismatches_def split: if_split_asm)
    have "unique_key mm_ID (rc_mismatches rdb')" using new inv unfolding rows recon_inv_def unique_key_def by auto
    moreover have "\<forall>mm \<in> set (rc_mismatches rdb'). mismatch_ok mm" using inv ok unfolding rows recon_inv_def by auto
    ultimately show ?thesis using inv unfolding recon_inv_def rows by auto
  next
    case assign
    then show ?thesis unfolding AssignMismatch_def by (rule note_if_inv) (rule update_inv [OF inv]; simp add: mismatch_ok_def)
  next
    case resolve
    then have "rdb' = rdb\<lparr>rc_mismatches := rc_mismatches rdb'\<rparr>" by (auto simp: ResolveMismatch_def)
    with resolve show ?thesis unfolding ResolveMismatch_def sum.inject
      by (elim ssubst [OF sym]) (rule update_inv [OF inv]; simp add: mismatch_ok_def)
  next
    case reopen
    then show ?thesis unfolding ReopenMismatch_def by (rule note_if_inv) (rule update_inv [OF inv]; simp add: mismatch_ok_def)
  next
    case add_note
    then show ?thesis using inv by (auto simp: AddMismatchNote_def intro: insert_note_inv)
  qed
qed

definition sample_paid_settlement :: settlement where
  "sample_paid_settlement = \<lparr>st_ID = ''st1'', st_MerchantID = ''m1'', st_Status = SttlProcessed, st_PeriodStart = 0, st_PeriodEnd = 10, st_TotalAmount = 500,
     st_TotalFees = 10, st_TotalRefunds = 0, st_GrossNetAmount = 490, st_ReserveAmount = 0, st_NetAmount = 490, st_PaymentCount = 1, st_Currency = ''INR'',
     st_ProcessedAt = Some 11, st_CreatedAt = 11, st_OnHold = False, st_HoldReason = '''', st_HeldAt = None, st_ReleasedAt = None,
     st_RollbackMarkedAt = None, st_RollbackReason = ''''\<rparr>"

definition sample_source :: "int \<Rightarrow> import_input" where
  "sample_source amount = \<lparr>ip_MerchantID = ''m1'', ip_SourceType = ''bank'', ip_PeriodStart = 0, ip_PeriodEnd = 20, ip_Entries =
     [\<lparr>se_ID = '''', se_SourceImportID = '''', se_MerchantID = '''', se_EntityType = ''settlement'', se_ExternalID = ''x1'', se_ReferenceID = ''st1'',
       se_Amount = amount, se_Currency = ''INR'', se_Status = ''processed'', se_OccurredAt = 12\<rparr>]\<rparr>"

lemma number_ids_ids: "map mm_ID (number_ids ids mms) = map ids [0..<length mms]"
  by (rule nth_equalityI) (simp_all add: number_ids_def)

lemma number_entries_ids: "map se_ID (number_entries entryID imp m es) = map entryID [0..<length es]"
  by (rule nth_equalityI) (simp_all add: number_entries_def)

lemma import_total:
  assumes "inj entryID" "inj ids" shows "\<exists>imp rdb'. ImportSource b i entryID ids inp db no_recon = Inr (imp, rdb')"
proof -
  have "distinct (map f [0..<n])" if "inj f" for f :: "nat \<Rightarrow> id" and n using inj_on_subset [OF that] by (simp add: distinct_map)
  then show ?thesis using assms
    by (simp add: ImportSource_def Let_def no_recon_def persistBatch_def insert_mismatches_def number_ids_ids number_entries_ids)
qed

theorem import_settlements_exact_witness:
  "\<exists>ids imp rdb' imp2 rdb2. ImportSource ''b1'' ''i1'' ids ids (sample_source 490) (sample_books\<lparr>db_settlements := [sample_paid_settlement]\<rparr>) no_recon
       = Inr (imp, rdb') \<and> sm_MismatchCount imp = 0
     \<and> ImportSource ''b1'' ''i1'' ids ids (sample_source 480) (sample_books\<lparr>db_settlements := [sample_paid_settlement]\<rparr>) no_recon
       = Inr (imp2, rdb2) \<and> sm_MismatchCount imp2 \<noteq> 0"
proof -
  let ?db = "sample_books\<lparr>db_settlements := [sample_paid_settlement]\<rparr>" and ?ids = "\<lambda>i. replicate i CHR ''x''"
  have inj: "inj ?ids" by (auto simp: inj_def replicate_eq_replicate)
  obtain imp rdb' imp2 rdb2 where i: "ImportSource ''b1'' ''i1'' ?ids ?ids (sample_source 490) ?db no_recon = Inr (imp, rdb')"
    "ImportSource ''b1'' ''i1'' ?ids ?ids (sample_source 480) ?db no_recon = Inr (imp2, rdb2)" using import_total [OF inj inj] by metis
  have u: "unique_key st_ID (db_settlements ?db)" by (simp add: unique_key_def)
  have "sm_MismatchCount imp = 0" "sm_MismatchCount imp2 \<noteq> 0"
    using import_settlements_exact [OF u _ _ i(1)] import_settlements_exact [OF u _ _ i(2)]
    by (simp_all add: sample_source_def entry_matches_def sample_paid_settlement_def settlement_name_def)
  with i show ?thesis by blast
qed

end
