(* ===== verification/Gateway.thy ===== *)
theory Gateway
  imports Complex_Main PaymentService
begin

text \<open>
  The payment gateway (\<open>internal/gateway\<close>): routing policies and the router of \<open>router.go\<close>, simulation scenarios
  (\<open>config.go\<close>), method profiles and overrides (\<open>method.go\<close>) and the simulator (\<open>simulator.go\<close>). Success and failure
  rates are float64 in the code and rationals here; the draws of the random generator, the environment variables
  and the outcome of a cancelled context are arguments. Delays have no effect on the result and are left out. The
  router is given as the routed gateway of the payment service.
\<close>

section \<open>Routing policies\<close>

datatype gateway_error = ErrRoutingPolicyNotFound | ErrMethodConfigNotFound | ErrGatewayConstraint

definition ProviderSimulatorPrimary :: string where "ProviderSimulatorPrimary = ''simulator_primary''"

definition ProviderSimulatorFailover :: string where "ProviderSimulatorFailover = ''simulator_failover''"

definition ProviderSimulatorSaver :: string where "ProviderSimulatorSaver = ''simulator_cost_saver''"

lemmas provider_names = ProviderSimulatorPrimary_def ProviderSimulatorFailover_def ProviderSimulatorSaver_def

record provider_definition =
  pd_Name :: string
  pd_SupportedMethods :: "string list"
  pd_BaseCostBPS :: int
  pd_SuccessScore :: int

record routing_policy =
  pl_ID :: id
  pl_MerchantID :: id
  pl_Method :: string
  pl_PrimaryProvider :: string
  pl_FallbackProvider :: string
  pl_ForceProvider :: string
  pl_FailoverOnDecline :: bool
  pl_FailoverOnError :: bool
  pl_CostWeight :: int
  pl_SuccessWeight :: int

definition policy_at :: "id \<Rightarrow> string \<Rightarrow> routing_policy \<Rightarrow> bool" where
  "policy_at m method p \<longleftrightarrow> pl_MerchantID p = m \<and> pl_Method p = method"

definition GetPolicy :: "id \<Rightarrow> string \<Rightarrow> routing_policy list \<Rightarrow> gateway_error + routing_policy" where
  "GetPolicy m method ps = (case find (policy_at m method) ps of None \<Rightarrow> Inl ErrRoutingPolicyNotFound | Some p \<Rightarrow> Inr p)"

text \<open>\<open>newid\<close> is drawn when the policy has no identifier; on a conflict the stored identifier stays.\<close>

definition UpsertPolicy :: "id \<Rightarrow> routing_policy \<Rightarrow> routing_policy list \<Rightarrow> gateway_error + routing_policy \<times> routing_policy list" where
  "UpsertPolicy newid pol ps =
     (let p = pol\<lparr>pl_ID := (if pl_ID pol = '''' then newid else pl_ID pol),
                  pl_CostWeight := (if pl_CostWeight pol \<le> 0 then 50 else pl_CostWeight pol),
                  pl_SuccessWeight := (if pl_SuccessWeight pol \<le> 0 then 50 else pl_SuccessWeight pol)\<rparr>;
          here = policy_at (pl_MerchantID p) (pl_Method p) in
      if list_ex here ps
      then (let ps' = upd_where here (\<lambda>q. p\<lparr>pl_ID := pl_ID q\<rparr>) ps in
            bindR (GetPolicy (pl_MerchantID p) (pl_Method p) ps') (\<lambda>r. Inr (r, ps')))
      else if pl_ID p \<in> pl_ID ` set ps then Inl ErrGatewayConstraint
      else (let ps' = ps @ [p] in bindR (GetPolicy (pl_MerchantID p) (pl_Method p) ps') (\<lambda>r. Inr (r, ps'))))"

section \<open>The router\<close>

definition supportedMethodSet :: "string list" where
  "supportedMethodSet = [''card'', ''upi'', ''netbanking'', ''wallet'']"

definition providers :: "string \<Rightarrow> provider_definition option" where
  "providers = map_of (map (\<lambda>(n, c, s). (n, \<lparr>pd_Name = n, pd_SupportedMethods = supportedMethodSet, pd_BaseCostBPS = c, pd_SuccessScore = s\<rparr>))
     [(ProviderSimulatorPrimary, 100, 92), (ProviderSimulatorFailover, 135, 99), (ProviderSimulatorSaver, 65, 84)])"

definition supports :: "string \<Rightarrow> string \<Rightarrow> bool" where
  "supports provider method = (case providers provider of None \<Rightarrow> False | Some d \<Rightarrow> method \<in> set (pd_SupportedMethods d))"

text \<open>The zero definition of an unknown provider scores 0. The products wrap as int does.\<close>

definition routeScore :: "string \<Rightarrow> routing_policy \<Rightarrow> int" where
  "routeScore provider pol =
     (case providers provider of None \<Rightarrow> 0
      | Some d \<Rightarrow> i64 (i64 (pd_SuccessScore d * pl_SuccessWeight pol) - i64 (pd_BaseCostBPS d * pl_CostWeight pol)))"

definition defaultRoutingPolicy :: "string \<Rightarrow> routing_policy" where
  "defaultRoutingPolicy method =
     \<lparr>pl_ID = '''', pl_MerchantID = '''', pl_Method = method, pl_PrimaryProvider = ProviderSimulatorPrimary,
      pl_FallbackProvider = ProviderSimulatorFailover, pl_ForceProvider = '''', pl_FailoverOnDecline = False, pl_FailoverOnError = True,
      pl_CostWeight = 40, pl_SuccessWeight = 60\<rparr>"

text \<open>\<open>None\<close>: a router without a store.\<close>

definition policyFor :: "routing_policy list option \<Rightarrow> id \<Rightarrow> string \<Rightarrow> routing_policy" where
  "policyFor store m method =
     (case store of
        None \<Rightarrow> defaultRoutingPolicy method
      | Some ps \<Rightarrow>
          if m = '''' then defaultRoutingPolicy method
          else (case GetPolicy m method ps of Inr p \<Rightarrow> p | Inl _ \<Rightarrow> defaultRoutingPolicy method))"

definition selectPrimary :: "routing_policy \<Rightarrow> string \<Rightarrow> string \<times> string" where
  "selectPrimary pol method =
     (let force = TrimSpace (pl_ForceProvider pol) in
      if force \<noteq> '''' \<and> supports force method then (force, ''forced_provider'')
      else
      let primary0 = TrimSpace (pl_PrimaryProvider pol);
          fallback = TrimSpace (pl_FallbackProvider pol);
          primary1 = (if primary0 = '''' then ProviderSimulatorPrimary else primary0);
          primary = (if supports primary1 method then primary1 else ProviderSimulatorPrimary) in
      if fallback = '''' \<or> \<not> supports fallback method then (primary, ''policy_primary'')
      else if routeScore fallback pol > routeScore primary pol then (fallback, ''weighted_score'')
      else (primary, ''policy_primary''))"

text \<open>A provider gateway: what it answers at its \<open>n\<close>-th call within a request.\<close>

type_synonym provider_gateway = "nat \<Rightarrow> string \<Rightarrow> int \<Rightarrow> string \<Rightarrow> id \<Rightarrow> string \<Rightarrow> string + gateway_result"

definition declined :: "gateway_result \<Rightarrow> bool" where
  "declined r \<longleftrightarrow> \<not> gr_Success r \<and> \<not> gr_RequiresAction r"

text \<open>The condition for a second call, from the early returns.\<close>

definition fails_over :: "routing_policy \<Rightarrow> string \<Rightarrow> string + gateway_result \<Rightarrow> bool" where
  "fails_over pol primary res =
     (let fallback = TrimSpace (pl_FallbackProvider pol) in
      case res of
        Inr r \<Rightarrow> \<not> (gr_Success r \<or> gr_RequiresAction r \<or> pl_FallbackProvider pol = '''' \<or> pl_FallbackProvider pol = primary)
                   \<and> \<not> (declined r \<and> \<not> pl_FailoverOnDecline pol) \<and> fallback \<noteq> '''' \<and> fallback \<noteq> primary
      | Inl _ \<Rightarrow> pl_FailoverOnError pol \<and> fallback \<noteq> '''' \<and> fallback \<noteq> primary)"

definition AuthorizeWithRouting ::
  "routing_policy list option \<Rightarrow> provider_gateway \<Rightarrow> int \<Rightarrow> string \<Rightarrow> id \<Rightarrow> string \<Rightarrow> (string + gateway_result) \<times> route_decision" where
  "AuthorizeWithRouting store gw amount currency m method =
     (let pol = policyFor store m method;
          (sel, reason) = selectPrimary pol method;
          primary = (if sel = '''' then ProviderSimulatorPrimary else sel);
          res = gw 0 primary amount currency m method;
          fallback = TrimSpace (pl_FallbackProvider pol) in
      if \<not> fails_over pol primary res
      then (res, \<lparr>rd_Provider = primary, rd_RoutingReason = reason, rd_AttemptedProviders = [primary]\<rparr>)
      else
      let res2 = gw 1 fallback amount currency m method;
          d = \<lparr>rd_Provider = fallback, rd_RoutingReason = reason @ ''+failover'', rd_AttemptedProviders = [primary, fallback]\<rparr> in
      case res2 of
        Inr r2 \<Rightarrow> (Inr r2, d)
      | Inl e2 \<Rightarrow> (case res of Inl _ \<Rightarrow> (Inl e2, d) | Inr r \<Rightarrow> (Inr r, d)))"

definition router :: "routing_policy list option \<Rightarrow> provider_gateway \<Rightarrow> gateway" where
  "router store gw = Routed ''gateway_router'' (AuthorizeWithRouting store gw)"

section \<open>Scenarios\<close>

datatype scenario_mode = ModeSuccess | ModeSlow | ModeFlaky | ModeTimeout | ModeDecline | ModeLateCallback | ModeChallenge

record gateway_scenario =
  sn_ID :: id
  sn_MerchantID :: id
  sn_Mode :: scenario_mode
  sn_FailureRate :: rat
  sn_DelayMS :: int
  sn_DeclineCode :: string
  sn_Active :: bool

definition getActive :: "id \<Rightarrow> gateway_scenario list \<Rightarrow> gateway_scenario option" where
  "getActive m scs = find (\<lambda>s. sn_MerchantID s = m \<and> sn_Active s) scs"

definition GetScenario :: "id \<Rightarrow> gateway_scenario list \<Rightarrow> gateway_scenario" where
  "GetScenario m scs =
     (case getActive m scs of
        Some s \<Rightarrow> s
      | None \<Rightarrow> (case (if m \<noteq> '''' then getActive '''' scs else None) of
           Some s \<Rightarrow> s
         | None \<Rightarrow> \<lparr>sn_ID = '''', sn_MerchantID = '''', sn_Mode = ModeSuccess, sn_FailureRate = 0, sn_DelayMS = 0, sn_DeclineCode = ''CARD_DECLINED'',
                    sn_Active = True\<rparr>))"

definition UpsertScenario :: "id \<Rightarrow> gateway_scenario \<Rightarrow> gateway_scenario list \<Rightarrow> gateway_error + gateway_scenario \<times> gateway_scenario list" where
  "UpsertScenario newid sc scs =
     (if newid \<in> sn_ID ` set scs then Inl ErrGatewayConstraint
      else
      let new = sc\<lparr>sn_ID := newid, sn_DeclineCode := (if sn_DeclineCode sc = '''' then ''CARD_DECLINED'' else sn_DeclineCode sc), sn_Active := True\<rparr> in
      Inr (new, upd_where (\<lambda>s. sn_MerchantID s = sn_MerchantID sc \<and> sn_Active s) (\<lambda>s. s\<lparr>sn_Active := False\<rparr>) scs @ [new]))"

section \<open>Methods\<close>

record method_profile =
  mp_SuccessRate :: rat
  mp_DeclineCodes :: "string list"

definition card_profile :: method_profile where
  "card_profile = \<lparr>mp_SuccessRate = 97 / 100, mp_DeclineCodes = [''INSUFFICIENT_FUNDS'', ''CARD_DECLINED'', ''EXPIRED_CARD'', ''STOLEN_CARD'']\<rparr>"

definition defaultProfiles :: "string \<Rightarrow> method_profile option" where
  "defaultProfiles = map_of
     [(''card'', card_profile),
      (''upi'', \<lparr>mp_SuccessRate = 95 / 100, mp_DeclineCodes = [''VPA_INVALID'', ''UPI_LIMIT_EXCEEDED'', ''UPI_NOT_REGISTERED'']\<rparr>),
      (''netbanking'', \<lparr>mp_SuccessRate = 92 / 100, mp_DeclineCodes = [''NET_BANKING_FAILED'', ''BANK_SERVER_ERROR'', ''SESSION_EXPIRED'']\<rparr>),
      (''wallet'', \<lparr>mp_SuccessRate = 99 / 100, mp_DeclineCodes = [''WALLET_INSUFFICIENT_BALANCE'', ''WALLET_BLOCKED'']\<rparr>)]"

definition ProfileForMethod :: "string \<Rightarrow> method_profile" where
  "ProfileForMethod method = (case defaultProfiles method of Some p \<Rightarrow> p | None \<Rightarrow> card_profile)"

record method_config =
  mc_ID :: id
  mc_MerchantID :: id
  mc_Method :: string
  mc_Enabled :: bool
  mc_SuccessRate :: rat
  mc_DeclineCode :: string
  mc_DelayMS :: int

definition config_at :: "id \<Rightarrow> string \<Rightarrow> method_config \<Rightarrow> bool" where
  "config_at m method c \<longleftrightarrow> mc_MerchantID c = m \<and> mc_Method c = method"

definition GetConfig :: "id \<Rightarrow> string \<Rightarrow> method_config list \<Rightarrow> gateway_error + method_config" where
  "GetConfig m method cs = (case find (config_at m method) cs of None \<Rightarrow> Inl ErrMethodConfigNotFound | Some c \<Rightarrow> Inr c)"

definition UpsertConfig :: "id \<Rightarrow> method_config \<Rightarrow> method_config list \<Rightarrow> gateway_error + method_config \<times> method_config list" where
  "UpsertConfig newid cfg cs =
     (let c = cfg\<lparr>mc_ID := (if mc_ID cfg = '''' then newid else mc_ID cfg)\<rparr>;
          here = config_at (mc_MerchantID c) (mc_Method c) in
      if mc_Method c \<notin> set supportedMethodSet \<or> \<not> (0 \<le> mc_SuccessRate c \<and> mc_SuccessRate c \<le> 1) then Inl ErrGatewayConstraint
      else if list_ex here cs
      then (let cs' = upd_where here (\<lambda>q. c\<lparr>mc_ID := mc_ID q\<rparr>) cs in
            bindR (GetConfig (mc_MerchantID c) (mc_Method c) cs') (\<lambda>r. Inr (r, cs')))
      else if mc_ID c \<in> mc_ID ` set cs then Inl ErrGatewayConstraint
      else (let cs' = cs @ [c] in bindR (GetConfig (mc_MerchantID c) (mc_Method c) cs') (\<lambda>r. Inr (r, cs'))))"

section \<open>The simulator\<close>

text \<open>
  \<open>sx_SuccessRateEnv\<close>: the value of \<open>GATEWAY_SIM_SUCCESS_RATE\<close> if it is set to a number; \<open>sx_ScenarioStore\<close> and \<open>sx_MethodStore\<close>: the
  tables, if configured. \<open>d1\<close>, \<open>d2\<close> are the draws of the random generator and \<open>now\<close> the clock.
\<close>

record simulator =
  sx_ForceDecline :: bool
  sx_DeclineCode :: string
  sx_SuccessRateEnv :: "rat option"
  sx_ScenarioStore :: "gateway_scenario list option"
  sx_MethodStore :: "method_config list option"

definition effectiveSuccessRate :: "simulator \<Rightarrow> rat \<Rightarrow> rat" where
  "effectiveSuccessRate s rate =
     (case sx_SuccessRateEnv s of None \<Rightarrow> rate | Some r \<Rightarrow> if r < 0 \<or> r > 1 then rate else r)"

definition approved :: gateway_result where
  "approved = \<lparr>gr_Success = True, gr_RequiresAction = False, gr_GatewayReference = ''gw_ref_success'', gr_AuthCode = ''AUTH_OK'', gr_ChallengeURL = '''',
     gr_ChallengeToken = '''', gr_ChallengeExpiry = None, gr_ErrorCode = '''', gr_ErrorDescription = ''''\<rparr>"

definition refused :: "string \<Rightarrow> string \<Rightarrow> gateway_result" where
  "refused code descr = \<lparr>gr_Success = False, gr_RequiresAction = False, gr_GatewayReference = '''', gr_AuthCode = '''', gr_ChallengeURL = '''',
     gr_ChallengeToken = '''', gr_ChallengeExpiry = None, gr_ErrorCode = code, gr_ErrorDescription = descr\<rparr>"

definition methodDeclineCode :: "method_profile \<Rightarrow> string" where
  "methodDeclineCode p = (case mp_DeclineCodes p of [] \<Rightarrow> ''DECLINED'' | c # _ \<Rightarrow> c)"

definition stampProvider :: "string \<Rightarrow> gateway_result \<Rightarrow> gateway_result" where
  "stampProvider provider r =
     (if provider = '''' then r
      else r\<lparr>gr_GatewayReference := (if gr_GatewayReference r \<noteq> '''' then provider @ '':'' @ gr_GatewayReference r else ''''),
             gr_AuthCode := (if gr_AuthCode r \<noteq> '''' then provider @ '':'' @ gr_AuthCode r else ''''),
             gr_ChallengeToken := (if gr_ChallengeToken r \<noteq> '''' then provider @ '':'' @ gr_ChallengeToken r else ''''),
             gr_ChallengeURL := (if gr_ChallengeURL r \<noteq> '''' then gr_ChallengeURL r @ ''?provider='' @ provider else '''')\<rparr>)"

definition legacyAuthorize :: "simulator \<Rightarrow> gateway_result" where
  "legacyAuthorize s = (if sx_ForceDecline s then refused (sx_DeclineCode s) ''simulator: authorization declined'' else approved)"

text \<open>The draw against the success rate of the method.\<close>

definition rate_draw :: "simulator \<Rightarrow> method_profile \<Rightarrow> method_config option \<Rightarrow> rat \<Rightarrow> gateway_result" where
  "rate_draw s profile override d =
     (let rate = effectiveSuccessRate s (case override of None \<Rightarrow> mp_SuccessRate profile | Some c \<Rightarrow> mc_SuccessRate c);
          code = (case override of None \<Rightarrow> methodDeclineCode profile
                  | Some c \<Rightarrow> if mc_DeclineCode c \<noteq> '''' then mc_DeclineCode c else methodDeclineCode profile) in
      if d \<ge> rate then refused code ''simulator: method rate decline'' else approved)"

definition method_override :: "simulator \<Rightarrow> gateway_scenario \<Rightarrow> string \<Rightarrow> method_config option" where
  "method_override s sc method =
     (case sx_MethodStore s of None \<Rightarrow> None
      | Some cs \<Rightarrow> (case GetConfig (sn_MerchantID sc) method cs of Inr c \<Rightarrow> Some c | Inl _ \<Rightarrow> None))"

definition challenged :: "gateway_scenario \<Rightarrow> time \<Rightarrow> gateway_result" where
  "challenged sc now = \<lparr>gr_Success = False, gr_RequiresAction = True, gr_GatewayReference = ''gw_ref_3ds_pending'', gr_AuthCode = '''',
     gr_ChallengeURL = ''https://sandbox.paygate.local/3ds/'' @ sn_MerchantID sc, gr_ChallengeToken = ''3ds_tok_'' @ sn_MerchantID sc,
     gr_ChallengeExpiry = Some (now + minutes 5), gr_ErrorCode = '''', gr_ErrorDescription = ''''\<rparr>"

text \<open>\<open>ctxErr\<close>: the error of the context, when it ends before the 30 seconds of the timeout mode.\<close>

definition applyScenario :: "simulator \<Rightarrow> rat \<Rightarrow> rat \<Rightarrow> time \<Rightarrow> string option \<Rightarrow> gateway_scenario \<Rightarrow> string \<Rightarrow> string + gateway_result" where
  "applyScenario s d1 d2 now ctxErr sc method =
     (let profile = ProfileForMethod method;
          override = method_override s sc method;
          code = (\<lambda>c. if c = '''' then methodDeclineCode profile else c) in
      if (case override of None \<Rightarrow> False | Some c \<Rightarrow> \<not> mc_Enabled c)
      then Inr (refused (code (mc_DeclineCode (the override))) ''simulator: method disabled'')
      else case sn_Mode sc of
        ModeSuccess \<Rightarrow> Inr (rate_draw s profile override d1)
      | ModeFlaky \<Rightarrow> if d1 < sn_FailureRate sc then Inr (refused (code (sn_DeclineCode sc)) ''simulator: flaky decline'')
                     else Inr (rate_draw s profile override d2)
      | ModeTimeout \<Rightarrow> Inl (case ctxErr of Some e \<Rightarrow> e | None \<Rightarrow> ''context deadline exceeded'')
      | ModeDecline \<Rightarrow> Inr (refused (code (sn_DeclineCode sc)) ''simulator: authorization declined'')
      | ModeChallenge \<Rightarrow> Inr (challenged sc now)
      | _ \<Rightarrow> Inr approved)"

definition AuthorizeWithProvider ::
  "simulator \<Rightarrow> rat \<Rightarrow> rat \<Rightarrow> time \<Rightarrow> string option \<Rightarrow> string \<Rightarrow> int \<Rightarrow> string \<Rightarrow> id \<Rightarrow> string \<Rightarrow> string + gateway_result" where
  "AuthorizeWithProvider s d1 d2 now ctxErr prov amount currency m method =
     (let provider = (if prov = '''' then ProviderSimulatorPrimary else prov); profile = ProfileForMethod method in
      if provider = ProviderSimulatorFailover then Inr (stampProvider provider approved)
      else if provider = ProviderSimulatorSaver
      then Inr (stampProvider provider (if d1 \<ge> max (7 / 10) (mp_SuccessRate profile - 8 / 100)
                  then refused (methodDeclineCode profile) ''simulator: cost-saver route decline'' else approved))
      else (case sx_ScenarioStore s of
              Some scs \<Rightarrow> if m \<noteq> ''''
                 then bindR (applyScenario s d1 d2 now ctxErr (GetScenario m scs) method) (\<lambda>r. Inr (stampProvider provider r))
                 else Inr (stampProvider provider (legacyAuthorize s))
            | None \<Rightarrow> Inr (stampProvider provider (legacyAuthorize s))))"

section \<open>What the router may do\<close>

text \<open>The providers a request asks, in order, and what each answered.\<close>

definition answers :: "provider_gateway \<Rightarrow> string list \<Rightarrow> int \<Rightarrow> string \<Rightarrow> id \<Rightarrow> string \<Rightarrow> (string + gateway_result) list" where
  "answers gw ps amount currency m method = map (\<lambda>(n, p). gw n p amount currency m method) (enumerate 0 ps)"

lemma select_reason: "selectPrimary pol method = (p, reason) \<Longrightarrow> reason \<noteq> ''''"
  by (auto simp: selectPrimary_def Let_def split: if_split_asm)

lemma primary_names: "ProviderSimulatorPrimary \<noteq> ''''"
  by (simp add: provider_names)

lemma select_nonempty: "selectPrimary pol method = (p, reason) \<Longrightarrow> p \<noteq> ''''"
  using primary_names by (auto simp: selectPrimary_def Let_def split: if_split_asm)

lemma select_chosen:
  assumes "selectPrimary pol method = (p, reason)"
  shows "p = ProviderSimulatorPrimary \<or> (p \<in> TrimSpace ` {pl_ForceProvider pol, pl_PrimaryProvider pol, pl_FallbackProvider pol} \<and> supports p method)"
  using assms by (auto simp: selectPrimary_def Let_def split: if_split_asm)

text \<open>
  C34: Routing asks at most two providers, and the second only where the policy allows. The decision names the
  providers that were asked, without repetition, and a reason; the answer is that of one of them, an approval or
  challenge always that of the provider the decision names; a second provider is asked only after an error with
  failover on errors or after a decline with failover on declines.
\<close>

theorem routing_decision_sound:
  fixes gw :: provider_gateway
  assumes "AuthorizeWithRouting store gw amount currency m method = (res, d)"
  defines "pol \<equiv> policyFor store m method" and "asked \<equiv> answers gw (rd_AttemptedProviders d) amount currency m method"
  shows "rd_AttemptedProviders d \<noteq> [] \<and> length (rd_AttemptedProviders d) \<le> 2 \<and> distinct (rd_AttemptedProviders d)
    \<and> rd_Provider d = last (rd_AttemptedProviders d) \<and> rd_Provider d \<noteq> '''' \<and> rd_RoutingReason d \<noteq> '''' \<and> res \<in> set asked
    \<and> (\<forall>r. res = Inr r \<and> \<not> declined r \<longrightarrow> res = last asked)
    \<and> (length (rd_AttemptedProviders d) = 2 \<longrightarrow>
         (\<exists>e. hd asked = Inl e \<and> pl_FailoverOnError pol) \<or> (\<exists>r. hd asked = Inr r \<and> declined r \<and> pl_FailoverOnDecline pol))"
proof -
  obtain sel reason where sel: "selectPrimary pol method = (sel, reason)" by (metis surj_pair)
  have ne: "sel \<noteq> ''''" "reason \<noteq> ''''" using select_nonempty [OF sel] select_reason [OF sel] by simp_all
  let ?r1 = "gw 0 sel amount currency m method" and ?fb = "TrimSpace (pl_FallbackProvider pol)"
  let ?r2 = "gw 1 ?fb amount currency m method"
  show ?thesis
  proof (cases "fails_over pol sel ?r1")
    case False
    then have "res = ?r1" "d = \<lparr>rd_Provider = sel, rd_RoutingReason = reason, rd_AttemptedProviders = [sel]\<rparr>"
      using assms(1) sel ne by (simp_all add: AuthorizeWithRouting_def pol_def [symmetric] Let_def)
    then show ?thesis using ne by (simp add: asked_def answers_def)
  next
    case True
    then have fb: "?fb \<noteq> ''''" "?fb \<noteq> sel" by (auto simp: fails_over_def Let_def split: sum.split_asm)
    have why: "(\<exists>e. ?r1 = Inl e \<and> pl_FailoverOnError pol) \<or> (\<exists>r. ?r1 = Inr r \<and> declined r \<and> pl_FailoverOnDecline pol)"
      using True by (auto simp: fails_over_def declined_def Let_def split: sum.split_asm)
    have d: "d = \<lparr>rd_Provider = ?fb, rd_RoutingReason = reason @ ''+failover'', rd_AttemptedProviders = [sel, ?fb]\<rparr>"
      and res: "res = (case ?r2 of Inr r2 \<Rightarrow> Inr r2 | Inl e2 \<Rightarrow> (case ?r1 of Inl _ \<Rightarrow> Inl e2 | Inr r \<Rightarrow> Inr r))"
      using assms(1) sel ne True by (auto simp: AuthorizeWithRouting_def pol_def [symmetric] Let_def split: sum.splits)
    have "asked = [?r1, ?r2]" by (simp add: asked_def answers_def d)
    then show ?thesis using fb ne why by (auto simp: d res split: sum.splits)
  qed
qed


lemma TrimSpace_names: "TrimSpace ProviderSimulatorPrimary = ProviderSimulatorPrimary" "TrimSpace ProviderSimulatorFailover = ProviderSimulatorFailover"
  "TrimSpace ProviderSimulatorSaver = ProviderSimulatorSaver" "TrimSpace '''' = ''''"
  by (simp_all add: provider_names TrimSpace_def is_space_def)

lemma provider_scores:
  "routeScore ProviderSimulatorPrimary pol = i64 (i64 (92 * pl_SuccessWeight pol) - i64 (100 * pl_CostWeight pol))"
  "routeScore ProviderSimulatorFailover pol = i64 (i64 (99 * pl_SuccessWeight pol) - i64 (135 * pl_CostWeight pol))"
  "routeScore ProviderSimulatorSaver pol = i64 (i64 (84 * pl_SuccessWeight pol) - i64 (65 * pl_CostWeight pol))"
  by (simp_all add: routeScore_def providers_def provider_names)

lemma provider_supports:
  "supports ProviderSimulatorPrimary method = (method \<in> set supportedMethodSet)" "supports ProviderSimulatorSaver method = (method \<in> set supportedMethodSet)"
  by (simp_all add: supports_def providers_def provider_names)

lemma default_primary: "selectPrimary (defaultRoutingPolicy x) method = (ProviderSimulatorPrimary, ''policy_primary'')"
  by (simp add: selectPrimary_def defaultRoutingPolicy_def TrimSpace_names provider_scores i64_def Let_def)

text \<open>
  The default route. For a merchant without a policy of its own the primary simulator is asked; whatever it
  answers is final, also a decline, and only when it cannot be reached the failover provider is asked instead.
\<close>

theorem default_route:
  fixes gw :: provider_gateway
  assumes "case store of None \<Rightarrow> True | Some ps \<Rightarrow> m = '''' \<or> find (policy_at m meth) ps = None"
  shows "AuthorizeWithRouting store gw amount currency m meth =
    (case gw 0 ''simulator_primary'' amount currency m meth of
       Inr r \<Rightarrow> (Inr r, \<lparr>rd_Provider = ''simulator_primary'', rd_RoutingReason = ''policy_primary'', rd_AttemptedProviders = [''simulator_primary'']\<rparr>)
     | Inl e \<Rightarrow> (gw 1 ''simulator_failover'' amount currency m meth,
         \<lparr>rd_Provider = ''simulator_failover'', rd_RoutingReason = ''policy_primary+failover'',
          rd_AttemptedProviders = [''simulator_primary'', ''simulator_failover'']\<rparr>))"
proof -
  have pol: "policyFor store m meth = defaultRoutingPolicy meth" using assms by (auto simp: policyFor_def GetPolicy_def split: option.splits)
  have fb: "TrimSpace (pl_FallbackProvider (defaultRoutingPolicy meth)) = ''simulator_failover''"
    using TrimSpace_names(2) by (simp add: defaultRoutingPolicy_def provider_names)
  have fo: "fails_over (defaultRoutingPolicy meth) ''simulator_primary'' res \<longleftrightarrow> (\<exists>e. res = Inl e)" for res
    using fb by (auto simp: fails_over_def defaultRoutingPolicy_def declined_def Let_def split: sum.splits)
  show ?thesis using default_primary [of meth meth] fb fo
    by (auto simp: AuthorizeWithRouting_def pol provider_names Let_def split: sum.splits)
qed

definition own_policy :: "string \<Rightarrow> routing_policy" where
  "own_policy fallback = \<lparr>pl_ID = '''', pl_MerchantID = ''m1'', pl_Method = ''card'', pl_PrimaryProvider = ''simulator_primary'',
     pl_FallbackProvider = fallback, pl_ForceProvider = '''', pl_FailoverOnDecline = True, pl_FailoverOnError = True, pl_CostWeight = 0, pl_SuccessWeight = 0\<rparr>"

text \<open>
  Failover can be configured away. A merchant that names the primary simulator, the cost saver as fallback, asks
  for failover on errors and declines and leaves the weights to their defaults gets the cost saver as the only
  provider: the weighted score prefers the fallback, nothing is left to fail over to, and an error or decline of
  the cost saver is final although the named primary was never asked.
\<close>

theorem weighted_route_has_no_failover:
  "\<exists>p ps. UpsertPolicy ''grp1'' (own_policy ''simulator_cost_saver'') [] = Inr (p, ps) \<and> pl_PrimaryProvider p = ''simulator_primary''
     \<and> pl_FallbackProvider p = ''simulator_cost_saver'' \<and> pl_FailoverOnError p \<and> pl_FailoverOnDecline p
     \<and> (\<forall>gw amount currency. AuthorizeWithRouting (Some ps) gw amount currency ''m1'' ''card''
          = (gw 0 ''simulator_cost_saver'' amount currency ''m1'' ''card'',
             \<lparr>rd_Provider = ''simulator_cost_saver'', rd_RoutingReason = ''weighted_score'', rd_AttemptedProviders = [''simulator_cost_saver'']\<rparr>))"
proof -
  let ?p = "(own_policy ''simulator_cost_saver'')\<lparr>pl_ID := ''grp1'', pl_CostWeight := 50, pl_SuccessWeight := 50\<rparr>"
  have up: "UpsertPolicy ''grp1'' (own_policy ''simulator_cost_saver'') [] = Inr (?p, [?p])"
    by (simp add: UpsertPolicy_def own_policy_def GetPolicy_def policy_at_def Let_def)
  have trim: "TrimSpace ''simulator_primary'' = ''simulator_primary''" "TrimSpace ''simulator_cost_saver'' = ''simulator_cost_saver''" "TrimSpace '''' = ''''"
    using TrimSpace_names by (simp_all add: provider_names)
  have scores: "routeScore ''simulator_primary'' ?p = - 400" "routeScore ''simulator_cost_saver'' ?p = 950"
    using provider_scores(1,3) [of ?p] by (simp_all add: provider_names own_policy_def i64_def)
  have sup: "supports ''simulator_primary'' ''card''" "supports ''simulator_cost_saver'' ''card''"
    using provider_supports [of "''card''"] by (simp_all add: provider_names supportedMethodSet_def)
  have sel: "selectPrimary ?p ''card'' = (''simulator_cost_saver'', ''weighted_score'')"
    using trim scores sup by (simp add: selectPrimary_def own_policy_def Let_def)
  have pol: "policyFor (Some [?p]) ''m1'' ''card'' = ?p" by (simp add: policyFor_def GetPolicy_def policy_at_def own_policy_def)
  have no: "\<not> fails_over ?p ''simulator_cost_saver'' res" for res
    using trim by (simp add: fails_over_def own_policy_def Let_def split: sum.split)
  have "AuthorizeWithRouting (Some [?p]) gw amount currency ''m1'' ''card''
      = (gw 0 ''simulator_cost_saver'' amount currency ''m1'' ''card'',
         \<lparr>rd_Provider = ''simulator_cost_saver'', rd_RoutingReason = ''weighted_score'', rd_AttemptedProviders = [''simulator_cost_saver'']\<rparr>)" for gw amount currency
    using sel no by (simp add: AuthorizeWithRouting_def pol Let_def)
  then show ?thesis using up by (intro exI [of _ ?p] exI [of _ "[?p]"]) (simp add: own_policy_def)
qed

text \<open>The payment service can always store the decision of the router.\<close>

lemma router_decision_stored:
  "\<exists>db'. UpdateGatewayRouting m i (snd (call_gateway (router store gw) amount currency m method)) db = Inr db'"
proof -
  obtain res d where r: "AuthorizeWithRouting store gw amount currency m method = (res, d)" by (metis surj_pair)
  obtain sel reason where sel: "selectPrimary (policyFor store m method) method = (sel, reason)" by (metis surj_pair)
  have "rd_Provider d \<noteq> ''''" "rd_RoutingReason d \<noteq> ''''"
    using r select_nonempty [OF sel] select_reason [OF sel] sel
    by (auto simp: AuthorizeWithRouting_def Let_def fails_over_def split: if_split_asm sum.split_asm)
  then show ?thesis by (simp add: call_gateway_def router_def r UpdateGatewayRouting_def Let_def)
qed

section \<open>Scenarios and overrides\<close>

definition scenarios_ok :: "gateway_scenario list \<Rightarrow> bool" where
  "scenarios_ok scs \<longleftrightarrow> unique_key sn_ID scs \<and> unique_key sn_MerchantID (filter sn_Active scs)"

lemma UpsertScenario_ok:
  assumes "UpsertScenario newid sc scs = Inr (new, scs')" "scenarios_ok scs"
  shows "scenarios_ok scs' \<and> GetScenario (sn_MerchantID sc) scs' = new"
proof -
  let ?q = "\<lambda>s. sn_MerchantID s = sn_MerchantID sc \<and> sn_Active s"
  let ?old = "upd_where ?q (\<lambda>s. s\<lparr>sn_Active := False\<rparr>) scs"
  have new: "sn_MerchantID new = sn_MerchantID sc" "sn_Active new" "sn_ID new = newid" and scs': "scs' = ?old @ [new]" and fresh: "newid \<notin> sn_ID ` set scs"
    using assms(1) by (auto simp: UpsertScenario_def Let_def split: if_split_asm)
  have act: "filter sn_Active ?old = filter (\<lambda>s. sn_MerchantID s \<noteq> sn_MerchantID sc) (filter sn_Active scs)"
    by (induction scs) (auto simp: upd_where_def)
  have "unique_key sn_MerchantID (filter sn_Active ?old)" using assms(2) unfolding act scenarios_ok_def unique_key_def
    by (simp only: distinct_map_filter)
  moreover have "sn_MerchantID sc \<notin> sn_MerchantID ` set (filter sn_Active ?old)" unfolding act by auto
  ultimately have "unique_key sn_MerchantID (filter sn_Active scs')" using new by (simp add: scs')
  moreover have "unique_key sn_ID scs'" using assms(2) fresh new by (simp add: scs' scenarios_ok_def)
  moreover have "find ?q ?old = None" by (auto simp: find_None_iff set_upd_where)
  then have "GetScenario (sn_MerchantID sc) scs' = new" using new by (simp add: GetScenario_def getActive_def scs' find_append)
  ultimately show ?thesis by (simp add: scenarios_ok_def)
qed

definition disabled_card :: method_config where
  "disabled_card = \<lparr>mc_ID = ''gmc1'', mc_MerchantID = ''m1'', mc_Method = ''card'', mc_Enabled = False, mc_SuccessRate = 0, mc_DeclineCode = ''BLOCKED'', mc_DelayMS = 0\<rparr>"

text \<open>
  Switching a method off for a merchant has no effect unless the merchant has a scenario of its own. The override
  is looked up under the merchant of the scenario, which is empty for the global and the default scenario: with
  cards disabled for the merchant, the primary simulator still approves.
\<close>

theorem method_override_ignored:
  "\<exists>cs. UpsertConfig ''x'' disabled_card [] = Inr (disabled_card, cs)
     \<and> AuthorizeWithProvider \<lparr>sx_ForceDecline = False, sx_DeclineCode = ''CARD_DECLINED'', sx_SuccessRateEnv = None, sx_ScenarioStore = Some [],
          sx_MethodStore = Some cs\<rparr> 0 0 now None ''simulator_primary'' amount ''INR'' ''m1'' ''card'' = Inr (stampProvider ''simulator_primary'' approved)"
proof -
  have "UpsertConfig ''x'' disabled_card [] = Inr (disabled_card, [disabled_card])"
    by (simp add: UpsertConfig_def disabled_card_def supportedMethodSet_def GetConfig_def config_at_def Let_def)
  then show ?thesis
    by (intro exI [of _ "[disabled_card]"])
       (simp add: AuthorizeWithProvider_def provider_names GetScenario_def getActive_def applyScenario_def method_override_def GetConfig_def config_at_def
          disabled_card_def rate_draw_def effectiveSuccessRate_def ProfileForMethod_def defaultProfiles_def card_profile_def Let_def)
qed

definition outage :: provider_gateway where
  "outage n p amount currency m method = (if p = ''simulator_primary'' then Inl ''timeout'' else Inr approved)"

theorem default_route_witness:
  "rd_AttemptedProviders (snd (AuthorizeWithRouting (Some []) outage 500 ''INR'' ''m1'' ''card'')) = [''simulator_primary'', ''simulator_failover'']
   \<and> fst (AuthorizeWithRouting (Some []) outage 500 ''INR'' ''m1'' ''card'') = Inr approved"
  using default_route [where store = "Some []" and m = "''m1''" and meth = "''card''" and gw = outage and amount = 500 and currency = "''INR''"] by (simp add: outage_def)

theorem routing_decision_sound_witness:
  "\<exists>res d. AuthorizeWithRouting (Some []) outage 500 ''INR'' ''m1'' ''card'' = (res, d) \<and> distinct (rd_AttemptedProviders d)
     \<and> rd_Provider d = last (rd_AttemptedProviders d) \<and> rd_RoutingReason d \<noteq> ''''"
proof -
  obtain res d where r: "AuthorizeWithRouting (Some []) outage 500 ''INR'' ''m1'' ''card'' = (res, d)" by (metis surj_pair)
  from routing_decision_sound [OF r] r show ?thesis by blast
qed

end
