(* ===== verification/Risk.thy ===== *)
theory Risk
  imports PaymentService
begin

text \<open>
  Risk evaluation (\<open>internal/risk\<close>): the scoring rules of \<open>domain.go\<close>, velocity counters, merchant configurations and
  events (\<open>postgres.go\<close>), and the service with its manual review, which captures or reverses the payment. The
  callbacks the service starts in the background are a list of what is launched; the outbox alert is given.
\<close>

section \<open>Data\<close>

datatype risk_action = RiskActionAllow | RiskActionHold | RiskActionBlock

datatype review_status = ReviewStatusNotRequired | ReviewStatusPending | ReviewStatusApproved | ReviewStatusBlocked

datatype velocity_window = VelocityWindow1H | VelocityWindow24H

datatype risk_error = ErrRiskEventNotFound | ErrRiskConstraint | ErrRiskRange | ErrRiskPayment payment_error

record risk_event =
  re_ID :: id
  re_MerchantID :: id
  re_PaymentID :: id
  re_Score :: int
  re_Action :: risk_action
  re_TriggeredRules :: "string list"
  re_ReviewStatus :: review_status
  re_AssignedTo :: string
  re_AssignedAt :: "time option"
  re_ReviewNotes :: string
  re_ManualDecision :: "review_status option"
  re_Resolved :: bool
  re_ResolvedBy :: string
  re_ResolvedAt :: "time option"
  re_CreatedAt :: time

record velocity_counter =
  vc_Dimension :: string
  vc_DimValue :: string
  vc_Window :: velocity_window
  vc_Count :: int
  vc_Amount :: int
  vc_WindowEnd :: time

record eval_input =
  ev_in_MerchantID :: id
  ev_in_PaymentID :: id
  ev_in_Amount :: int
  ev_in_IPAddress :: string
  ev_in_MerchantAvgTxn :: int
  ev_in_DeviceFingerprint :: string
  ev_in_CardBIN :: string
  ev_in_CardCountry :: string
  ev_in_MerchantCountry :: string

record eval_result =
  er_Score :: int
  er_Action :: risk_action
  er_TriggeredRules :: "string list"

record fraud_config =
  fc_MerchantID :: id
  fc_IPVelocityThreshold :: int
  fc_DeviceVelocityThreshold :: int
  fc_MerchantVelocityThreshold :: int
  fc_AmountSpikeFactor :: int
  fc_ReviewThreshold :: int
  fc_BlockThreshold :: int
  fc_BlockedCountries :: "string list"
  fc_BlockedBINs :: "string list"
  fc_ReviewOnCountryMismatch :: bool

definition DefaultMerchantFraudConfig :: "id \<Rightarrow> fraud_config" where
  "DefaultMerchantFraudConfig m =
     \<lparr>fc_MerchantID = m, fc_IPVelocityThreshold = 20, fc_DeviceVelocityThreshold = 6, fc_MerchantVelocityThreshold = 200, fc_AmountSpikeFactor = 3,
      fc_ReviewThreshold = 40, fc_BlockThreshold = 90, fc_BlockedCountries = [], fc_BlockedBINs = [], fc_ReviewOnCountryMismatch = True\<rparr>"

section \<open>Scoring\<close>

text \<open>The rules that trigger, in the order of the code, with their scores.\<close>

definition triggered :: "eval_input \<Rightarrow> fraud_config \<Rightarrow> int \<Rightarrow> int \<Rightarrow> int \<Rightarrow> (string \<times> int) list" where
  "triggered inp cfg merchantCount ipCount deviceCount =
     (if merchantCount \<ge> fc_MerchantVelocityThreshold cfg then [(''merchant_velocity_1h'', 50)] else [])
   @ (if ev_in_IPAddress inp \<noteq> '''' \<and> ipCount \<ge> fc_IPVelocityThreshold cfg then [(''ip_velocity_1h'', 50)] else [])
   @ (if ev_in_DeviceFingerprint inp \<noteq> '''' \<and> deviceCount \<ge> fc_DeviceVelocityThreshold cfg then [(''device_velocity_1h'', 40)] else [])
   @ (if ev_in_MerchantAvgTxn inp \<ge> 1000 \<and> ev_in_Amount inp > i64 (ev_in_MerchantAvgTxn inp * fc_AmountSpikeFactor cfg) then [(''amount_spike_3x'', 50)] else [])
   @ (if ev_in_CardCountry inp \<noteq> '''' \<and> ev_in_MerchantCountry inp \<noteq> '''' \<and> ev_in_CardCountry inp \<noteq> ev_in_MerchantCountry inp
         \<and> fc_ReviewOnCountryMismatch cfg then [(''country_mismatch'', 40)] else [])
   @ (if list_ex (\<lambda>c. ev_in_CardCountry inp \<noteq> '''' \<and> c = ev_in_CardCountry inp) (fc_BlockedCountries cfg) then [(''blocked_country'', 90)] else [])
   @ (if list_ex (\<lambda>b. ev_in_CardBIN inp \<noteq> '''' \<and> b = ev_in_CardBIN inp) (fc_BlockedBINs cfg) then [(''blocked_bin'', 90)] else [])"

definition action_of :: "fraud_config \<Rightarrow> int \<Rightarrow> risk_action" where
  "action_of cfg score =
     (if score \<ge> fc_BlockThreshold cfg then RiskActionBlock
      else if score \<ge> fc_ReviewThreshold cfg then RiskActionHold else RiskActionAllow)"

definition Evaluate :: "eval_input \<Rightarrow> fraud_config \<Rightarrow> int \<Rightarrow> int \<Rightarrow> int \<Rightarrow> eval_result" where
  "Evaluate inp cfg merchantCount ipCount deviceCount =
     (let rs = triggered inp cfg merchantCount ipCount deviceCount; score = sum_list (map snd rs) in
      \<lparr>er_Score = score, er_Action = action_of cfg score, er_TriggeredRules = map fst rs\<rparr>)"

section \<open>Tables\<close>

record risk_db =
  rk_events :: "risk_event list"
  rk_counters :: "velocity_counter list"
  rk_configs :: "fraud_config list"

definition hours :: "int \<Rightarrow> time" where
  "hours n = n * 3600 * 1000000"

definition windowEndTime :: "velocity_window \<Rightarrow> time \<Rightarrow> time" where
  "windowEndTime w now =
     (case w of VelocityWindow24H \<Rightarrow> (now div hours 24) * hours 24 + hours 24
      | VelocityWindow1H \<Rightarrow> (now div hours 1) * hours 1 + hours 1)"

definition counter_at :: "string \<Rightarrow> string \<Rightarrow> velocity_window \<Rightarrow> time \<Rightarrow> velocity_counter \<Rightarrow> bool" where
  "counter_at dim val w fin c \<longleftrightarrow> vc_Dimension c = dim \<and> vc_DimValue c = val \<and> vc_Window c = w \<and> vc_WindowEnd c = fin"

text \<open>\<open>count\<close> is an INT and \<open>amount\<close> a BIGINT: a statement that leaves them fails and changes nothing.\<close>

definition UpsertVelocityCounter ::
  "time \<Rightarrow> string \<Rightarrow> string \<Rightarrow> velocity_window \<Rightarrow> int \<Rightarrow> risk_db \<Rightarrow> risk_error + int \<times> risk_db" where
  "UpsertVelocityCounter now dim val w amount db =
     (let fin = windowEndTime w now in
      case find (counter_at dim val w fin) (rk_counters db) of
        None \<Rightarrow> Inr (1, db\<lparr>rk_counters := rk_counters db @
                  [\<lparr>vc_Dimension = dim, vc_DimValue = val, vc_Window = w, vc_Count = 1, vc_Amount = amount, vc_WindowEnd = fin\<rparr>]\<rparr>)
      | Some c \<Rightarrow>
          if vc_Count c + 1 \<ge> 2 ^ 31 \<or> \<not> in64 (vc_Amount c + amount) then Inl ErrRiskRange
          else Inr (vc_Count c + 1, db\<lparr>rk_counters := upd_where (counter_at dim val w fin)
                 (\<lambda>c. c\<lparr>vc_Count := vc_Count c + 1, vc_Amount := vc_Amount c + amount\<rparr>) (rk_counters db)\<rparr>))"

definition GetVelocityCount :: "time \<Rightarrow> string \<Rightarrow> string \<Rightarrow> velocity_window \<Rightarrow> risk_db \<Rightarrow> int" where
  "GetVelocityCount now dim val w db =
     (case find (counter_at dim val w (windowEndTime w now)) (rk_counters db) of None \<Rightarrow> 0 | Some c \<Rightarrow> vc_Count c)"

text \<open>The average of the captured payments of the last 30 days; the cast to BIGINT rounds half away from zero.\<close>

definition MerchantAverageTxnAmount :: "time \<Rightarrow> id \<Rightarrow> 'a payment_db_scheme \<Rightarrow> int" where
  "MerchantAverageTxnAmount now m pdb =
     (let amounts = map p_Amount (filter (\<lambda>p. p_MerchantID p = m \<and> p_Status p = Captured \<and> p_CreatedAt p > now - hours (30 * 24)) (db_payments pdb));
          n = int (length amounts); s = sum_list amounts in
      if n = 0 then 0 else if s \<ge> 0 then (2 * s + n) div (2 * n) else - ((2 * (- s) + n) div (2 * n)))"

definition CreateRiskEvent :: "id \<Rightarrow> risk_event \<Rightarrow> risk_db \<Rightarrow> risk_error + risk_event \<times> risk_db" where
  "CreateRiskEvent newid ev db =
     (if newid \<in> re_ID ` set (rk_events db) then Inl ErrRiskConstraint
      else Inr (ev\<lparr>re_ID := newid\<rparr>, db\<lparr>rk_events := rk_events db @ [ev\<lparr>re_ID := newid\<rparr>]\<rparr>))"

definition event_at :: "id \<Rightarrow> id \<Rightarrow> risk_event \<Rightarrow> bool" where
  "event_at m i ev \<longleftrightarrow> re_MerchantID ev = m \<and> re_ID ev = i"

definition GetRiskEvent :: "id \<Rightarrow> id \<Rightarrow> risk_db \<Rightarrow> risk_error + risk_event" where
  "GetRiskEvent m i db = (case find (event_at m i) (rk_events db) of None \<Rightarrow> Inl ErrRiskEventNotFound | Some ev \<Rightarrow> Inr ev)"

definition ListRiskEvents :: "id \<Rightarrow> int \<Rightarrow> bool \<Rightarrow> risk_db \<Rightarrow> risk_event list" where
  "ListRiskEvents m limit unresolvedOnly db =
     take (nat (if limit \<le> 0 \<or> limit > 100 then 25 else limit))
       (sort_key (\<lambda>ev. - re_CreatedAt ev) (filter (\<lambda>ev. re_MerchantID ev = m \<and> (unresolvedOnly \<longrightarrow> \<not> re_Resolved ev)) (rk_events db)))"

definition update_event :: "(risk_event \<Rightarrow> bool) \<Rightarrow> (risk_event \<Rightarrow> risk_event) \<Rightarrow> risk_db \<Rightarrow> risk_error + risk_db" where
  "update_event q f db =
     (if list_ex q (rk_events db) then Inr (db\<lparr>rk_events := upd_where q f (rk_events db)\<rparr>) else Inl ErrRiskEventNotFound)"

definition ResolveRiskEvent :: "time \<Rightarrow> id \<Rightarrow> id \<Rightarrow> string \<Rightarrow> risk_db \<Rightarrow> risk_error + risk_db" where
  "ResolveRiskEvent now m i who =
     update_event (\<lambda>ev. event_at m i ev \<and> \<not> re_Resolved ev) (\<lambda>ev. ev\<lparr>re_Resolved := True, re_ResolvedBy := who, re_ResolvedAt := Some now\<rparr>)"

definition AssignRiskEvent :: "time \<Rightarrow> id \<Rightarrow> id \<Rightarrow> string \<Rightarrow> risk_db \<Rightarrow> risk_error + risk_db" where
  "AssignRiskEvent now m i who = update_event (event_at m i) (\<lambda>ev. ev\<lparr>re_AssignedTo := who, re_AssignedAt := Some now\<rparr>)"

definition ReviewRiskEventRepo :: "time \<Rightarrow> id \<Rightarrow> id \<Rightarrow> review_status \<Rightarrow> string \<Rightarrow> string \<Rightarrow> risk_db \<Rightarrow> risk_error + risk_event \<times> risk_db" where
  "ReviewRiskEventRepo now m i status txt actor db =
     bindR (update_event (event_at m i)
              (\<lambda>ev. ev\<lparr>re_ReviewStatus := status, re_ReviewNotes := txt, re_ManualDecision := Some status, re_Resolved := True, re_ResolvedBy := actor,
                       re_ResolvedAt := Some now\<rparr>) db) (\<lambda>db'.
       bindR (GetRiskEvent m i db') (\<lambda>ev. Inr (ev, db')))"

definition GetMerchantFraudConfig :: "id \<Rightarrow> risk_db \<Rightarrow> fraud_config" where
  "GetMerchantFraudConfig m db =
     (case find (\<lambda>c. fc_MerchantID c = m) (rk_configs db) of None \<Rightarrow> DefaultMerchantFraudConfig m | Some c \<Rightarrow> c)"

definition normalizeUpper :: "string list \<Rightarrow> string list" where
  "normalizeUpper values = filter (\<lambda>v. v \<noteq> '''') (map (\<lambda>v. ToUpper (TrimSpace v)) values)"

definition UpsertMerchantFraudConfig :: "fraud_config \<Rightarrow> risk_db \<Rightarrow> risk_error + fraud_config \<times> risk_db" where
  "UpsertMerchantFraudConfig cfg db =
     (let c = cfg\<lparr>fc_BlockedCountries := normalizeUpper (fc_BlockedCountries cfg), fc_BlockedBINs := normalizeUpper (fc_BlockedBINs cfg)\<rparr>;
          here = (\<lambda>c. fc_MerchantID c = fc_MerchantID cfg) in
      if fc_IPVelocityThreshold c \<le> 0 \<or> fc_DeviceVelocityThreshold c \<le> 0 \<or> fc_MerchantVelocityThreshold c \<le> 0 \<or> fc_AmountSpikeFactor c \<le> 0
         \<or> fc_ReviewThreshold c < 0 \<or> fc_BlockThreshold c < 0 then Inl ErrRiskConstraint
      else Inr (c, db\<lparr>rk_configs := (if list_ex here (rk_configs db) then upd_where here (\<lambda>_. c) (rk_configs db) else rk_configs db @ [c])\<rparr>))"

section \<open>The service\<close>

text \<open>An error of a counter is logged and counts as 0; every statement is a transaction of its own.\<close>

definition try_counter :: "time \<Rightarrow> string \<Rightarrow> string \<Rightarrow> int \<Rightarrow> risk_db \<Rightarrow> int \<times> risk_db" where
  "try_counter now dim val amount db =
     (case UpsertVelocityCounter now dim val VelocityWindow1H amount db of Inl _ \<Rightarrow> (0, db) | Inr r \<Rightarrow> r)"

datatype async_op = RiskAlert risk_event | ReserveEscalation risk_event

definition shouldEscalateReserve :: "risk_event \<Rightarrow> bool" where
  "shouldEscalateReserve ev \<longleftrightarrow> re_Score ev \<ge> 90
     \<or> list_ex (\<lambda>r. r \<in> {''blocked_country'', ''blocked_bin'', ''merchant_velocity_1h''}) (re_TriggeredRules ev)"

text \<open>\<open>free\<close>: the free places of the semaphore; what finds none is dropped.\<close>

definition runAsync :: "nat \<Rightarrow> async_op list \<Rightarrow> async_op list" where
  "runAsync free ops = take free ops"

definition EvaluatePayment ::
  "bool \<Rightarrow> bool \<Rightarrow> nat \<Rightarrow> id \<Rightarrow> time \<Rightarrow> eval_input \<Rightarrow> 'a payment_db_scheme \<Rightarrow> risk_db \<Rightarrow> (risk_error + risk_event \<times> async_op list) \<times> risk_db" where
  "EvaluatePayment alerts escalates free newid now inp pdb db =
     (let cfg = GetMerchantFraudConfig (ev_in_MerchantID inp) db;
          (mc, db1) = try_counter now ''merchant_id'' (ev_in_MerchantID inp) (ev_in_Amount inp) db;
          (ic, db2) = (if ev_in_IPAddress inp \<noteq> '''' then try_counter now ''ip_address'' (ev_in_IPAddress inp) (ev_in_Amount inp) db1 else (0, db1));
          (dc, db3) = (if ev_in_DeviceFingerprint inp \<noteq> '''' then try_counter now ''device_fingerprint'' (ev_in_DeviceFingerprint inp) (ev_in_Amount inp) db2
                       else (0, db2));
          inp' = (if ev_in_MerchantAvgTxn inp = 0 then inp\<lparr>ev_in_MerchantAvgTxn := MerchantAverageTxnAmount now (ev_in_MerchantID inp) pdb\<rparr> else inp);
          res = Evaluate inp' cfg mc ic dc;
          ev = \<lparr>re_ID = '''', re_MerchantID = ev_in_MerchantID inp, re_PaymentID = ev_in_PaymentID inp, re_Score = er_Score res, re_Action = er_Action res,
                re_TriggeredRules = er_TriggeredRules res,
                re_ReviewStatus = (if er_Action res = RiskActionHold then ReviewStatusPending else ReviewStatusNotRequired), re_AssignedTo = '''',
                re_AssignedAt = None, re_ReviewNotes = '''', re_ManualDecision = None, re_Resolved = False, re_ResolvedBy = '''', re_ResolvedAt = None,
                re_CreatedAt = now\<rparr> in
      case CreateRiskEvent newid ev db3 of
        Inl e \<Rightarrow> (Inl e, db3)
      | Inr (ev', db4) \<Rightarrow>
          (Inr (ev', runAsync free
             (if re_Action ev' = RiskActionAllow then []
              else (if alerts then [RiskAlert ev'] else []) @ (if escalates \<and> shouldEscalateReserve ev' then [ReserveEscalation ev'] else []))), db4))"

definition action_name :: "risk_action \<Rightarrow> string" where
  "action_name a = (case a of RiskActionAllow \<Rightarrow> ''allow'' | RiskActionHold \<Rightarrow> ''hold'' | RiskActionBlock \<Rightarrow> ''block'')"

definition OutboxAlertFunc :: "id \<Rightarrow> time \<Rightarrow> risk_event \<Rightarrow> 'a payment_db_scheme \<Rightarrow> 'a payment_db_scheme" where
  "OutboxAlertFunc evtID now ev pdb =
     emit evtID now \<lparr>ev_AggregateType = ''risk'', ev_AggregateID = re_ID ev, ev_EventType = ''risk.alert'', ev_MerchantID = re_MerchantID ev,
       ev_Payload = [(''risk_event_id'', PStr (re_ID ev)), (''payment_id'', PStr (re_PaymentID ev)), (''score'', PInt (re_Score ev)),
         (''action'', PStr (action_name (re_Action ev))), (''rules'', PStrs (re_TriggeredRules ev))]\<rparr> pdb"

text \<open>
  The manual review. \<open>payments\<close> says whether the payment service is wired. The payment is captured or reversed in a
  transaction of its own before the event is updated: an error after that leaves it done.
\<close>

definition ReviewRiskEvent ::
  "bool \<Rightarrow> id \<times> id \<times> id \<Rightarrow> time \<Rightarrow> id \<Rightarrow> id \<Rightarrow> string \<Rightarrow> string \<Rightarrow> string \<Rightarrow> 'a payment_db_scheme \<times> risk_db
     \<Rightarrow> (risk_error + risk_event) \<times> 'a payment_db_scheme \<times> risk_db" where
  "ReviewRiskEvent payments ids now m eventID dec txt actor s =
     (case s of (pdb, db) \<Rightarrow>
      case GetRiskEvent m eventID db of
        Inl e \<Rightarrow> (Inl e, pdb, db)
      | Inr ev \<Rightarrow>
          let finish = (\<lambda>status pdb'. case ReviewRiskEventRepo now m eventID status txt actor db of
                          Inl e \<Rightarrow> (Inl e, pdb', db) | Inr (ev', db') \<Rightarrow> (Inr ev', pdb', db')) in
          if dec = ''approve'' then
            (if \<not> payments then finish ReviewStatusApproved pdb
             else case GetPayment m (re_PaymentID ev) pdb of
               Inl e \<Rightarrow> (Inl (ErrRiskPayment e), pdb, db)
             | Inr rec \<Rightarrow>
                 if cr_Status rec = Some Authorized
                 then (case CaptureForMerchant ids now m (re_PaymentID ev) (cr_Amount rec) pdb of
                         Inl e \<Rightarrow> (Inl (ErrRiskPayment e), pdb, db)
                       | Inr (_, pdb') \<Rightarrow> finish ReviewStatusApproved pdb')
                 else finish ReviewStatusApproved pdb)
          else if payments then
            (case ReverseAuthorization (fst ids) now m (re_PaymentID ev) ''risk review blocked'' pdb of
               Inl e \<Rightarrow> (Inl (ErrRiskPayment e), pdb, db)
             | Inr (_, pdb') \<Rightarrow> finish ReviewStatusBlocked pdb')
          else finish ReviewStatusBlocked pdb)"

section \<open>The authorization endpoint\<close>

text \<open>
  What \<open>payment/handler.go\<close> does once the request is decoded and the capabilities are checked: the adapter of
  \<open>cmd/api-gateway/main.go\<close> evaluates the risk, a block is recorded as a failed attempt and refused, a hold switches
  automatic capture off. An error of the evaluation lets the payment pass.
\<close>

record risk_context =
  rx_IPAddress :: string
  rx_DeviceFingerprint :: string
  rx_CardBIN :: string
  rx_CardCountry :: string
  rx_MerchantCountry :: string

definition EvaluateAuthorize ::
  "bool \<Rightarrow> bool \<Rightarrow> nat \<Rightarrow> id \<Rightarrow> time \<Rightarrow> risk_context \<Rightarrow> authorize_input \<Rightarrow> 'a payment_db_scheme \<Rightarrow> risk_db \<Rightarrow> (risk_error + risk_action) \<times> async_op list \<times> risk_db" where
  "EvaluateAuthorize alerts escalates free newid now ctx req pdb db =
     (case EvaluatePayment alerts escalates free newid now
         \<lparr>ev_in_MerchantID = au_MerchantID req, ev_in_PaymentID = au_PaymentID req, ev_in_Amount = au_Amount req, ev_in_IPAddress = rx_IPAddress ctx,
          ev_in_MerchantAvgTxn = 0, ev_in_DeviceFingerprint = rx_DeviceFingerprint ctx, ev_in_CardBIN = rx_CardBIN ctx,
          ev_in_CardCountry = rx_CardCountry ctx, ev_in_MerchantCountry = rx_MerchantCountry ctx\<rparr> pdb db of
        (Inl e, db') \<Rightarrow> (Inl e, [], db')
      | (Inr (ev, ops), db') \<Rightarrow> (Inr (re_Action ev), ops, db'))"

datatype auth_refusal = RiskBlocked | AuthFailed payment_error

record gate_ids =
  gi_RiskEvent :: id
  gi_Payment :: id
  gi_Attempt :: id
  gi_Event :: id

definition authorize_request ::
  "gateway \<Rightarrow> 'v card_tokens option \<Rightarrow> auth_ids \<Rightarrow> gate_ids \<Rightarrow> time \<Rightarrow> (bool \<times> bool \<times> nat) option \<Rightarrow> risk_context \<Rightarrow> authorize_input
     \<Rightarrow> 'a payment_db_scheme \<times> 'v \<times> risk_db \<Rightarrow> (auth_refusal + capture_result) \<times> 'a payment_db_scheme \<times> 'v \<times> risk_db" where
  "authorize_request gw tokens ids gids now risk ctx req s =
     (case s of (pdb, v, db) \<Rightarrow>
      let go = (\<lambda>req db'. case Authorize gw tokens ids now req (pdb, v) of (r, pdb', v') \<Rightarrow> (mapL AuthFailed r, pdb', v', db')) in
      case risk of
        None \<Rightarrow> go req db
      | Some (alerts, escalates, free) \<Rightarrow>
          (case EvaluateAuthorize alerts escalates free (gi_RiskEvent gids) now ctx req pdb db of
             (Inr RiskActionBlock, _, db') \<Rightarrow>
               (Inl RiskBlocked,
                (case RecordFailedAttempt (gi_Payment gids) (gi_Attempt gids) (gi_Event gids) now req ''RISK_BLOCKED''
                        ''payment blocked due to risk policy'' pdb of Inl _ \<Rightarrow> pdb | Inr pdb' \<Rightarrow> pdb'), v, db')
           | (Inr RiskActionHold, _, db') \<Rightarrow> go (req\<lparr>au_AutoCapture := False\<rparr>) db'
           | (_, _, db') \<Rightarrow> go req db'))"

section \<open>Scoring\<close>

lemma triggered_nonneg: "r \<in> set (triggered inp cfg a b c) \<Longrightarrow> 0 \<le> snd r"
  by (auto simp: triggered_def split: if_split_asm)

lemma rule_counts:
  assumes "(rule, s) \<in> set (triggered inp cfg a b c)" shows "s \<le> er_Score (Evaluate inp cfg a b c)"
proof -
  have "s \<le> sum_list (map snd (triggered inp cfg a b c))"
    using assms triggered_nonneg by (intro member_le_sum_list) (auto simp: image_iff, force)
  then show ?thesis by (simp add: Evaluate_def Let_def)
qed

lemma held_by_rule:
  assumes "(rule, s) \<in> set (triggered inp cfg a b c)" "fc_ReviewThreshold cfg \<le> s"
  shows "er_Action (Evaluate inp cfg a b c) \<noteq> RiskActionAllow"
  using rule_counts [OF assms(1)] assms(2) by (simp add: Evaluate_def action_of_def Let_def)

section \<open>Velocity\<close>

definition bucket :: "time \<Rightarrow> time" where
  "bucket now = windowEndTime VelocityWindow1H now"

definition ip_counter :: "string \<Rightarrow> time \<Rightarrow> risk_db \<Rightarrow> velocity_counter option" where
  "ip_counter ip fin db = find (counter_at ''ip_address'' ip VelocityWindow1H fin) (rk_counters db)"

definition ip_count :: "string \<Rightarrow> time \<Rightarrow> risk_db \<Rightarrow> int" where
  "ip_count ip fin db = (case ip_counter ip fin db of None \<Rightarrow> 0 | Some c \<Rightarrow> vc_Count c)"

definition ip_amount :: "string \<Rightarrow> time \<Rightarrow> risk_db \<Rightarrow> int" where
  "ip_amount ip fin db = (case ip_counter ip fin db of None \<Rightarrow> 0 | Some c \<Rightarrow> vc_Amount c)"

lemma find_upd_other:
  assumes "\<And>r. q r \<Longrightarrow> \<not> p r \<and> \<not> p (f r)" shows "find p (upd_where q f rows) = find p rows"
  using assms by (induction rows) auto

lemma try_counter_other:
  assumes "try_counter now dim val amount db = (n, db')" "(dim, val, bucket now) \<noteq> (''ip_address'', ip, fin)"
  shows "ip_counter ip fin db' = ip_counter ip fin db"
proof -
  let ?p = "counter_at ''ip_address'' ip VelocityWindow1H fin" and ?q = "counter_at dim val VelocityWindow1H (bucket now)"
  have "find ?p (upd_where ?q (\<lambda>c. c\<lparr>vc_Count := vc_Count c + 1, vc_Amount := vc_Amount c + amount\<rparr>) (rk_counters db)) = find ?p (rk_counters db)"
    by (rule find_upd_other) (use assms(2) in \<open>auto simp: counter_at_def\<close>)
  moreover have "find ?p (rk_counters db @ [c]) = find ?p (rk_counters db)" if "?q c" for c
    using that assms(2) by (auto simp: find_append counter_at_def split: option.split)
  ultimately show ?thesis using assms(1)
    by (auto simp: try_counter_def UpsertVelocityCounter_def ip_counter_def Let_def bucket_def [symmetric] counter_at_def
        split: option.split_asm if_split_asm sum.split_asm)
qed

lemma try_counter_own:
  assumes "try_counter now ''ip_address'' ip amount db = (n, db')" "ip_count ip (bucket now) db + 1 < 2 ^ 31" "in64 (ip_amount ip (bucket now) db + amount)"
  shows "n = ip_count ip (bucket now) db + 1" "ip_count ip (bucket now) db' = n" "ip_amount ip (bucket now) db' = ip_amount ip (bucket now) db + amount"
proof -
  let ?q = "counter_at ''ip_address'' ip VelocityWindow1H (bucket now)"
  have "n = ip_count ip (bucket now) db + 1 \<and> ip_count ip (bucket now) db' = n \<and> ip_amount ip (bucket now) db' = ip_amount ip (bucket now) db + amount"
  proof (cases "find ?q (rk_counters db)")
    case None
    then show ?thesis using assms
      by (auto simp: try_counter_def UpsertVelocityCounter_def ip_count_def ip_amount_def ip_counter_def Let_def find_append bucket_def counter_at_def)
  next
    case (Some c)
    let ?f = "\<lambda>c. c\<lparr>vc_Count := vc_Count c + 1, vc_Amount := vc_Amount c + amount\<rparr>"
    have "find ?q (upd_where ?q ?f (rk_counters db)) = Some (?f c)"
      using Some by (subst find_upd_where) (auto simp: counter_at_def dest: find_SomeD)
    then show ?thesis using assms Some
      by (auto simp: try_counter_def UpsertVelocityCounter_def ip_count_def ip_amount_def ip_counter_def Let_def bucket_def split: if_split_asm)
  qed
  then show "n = ip_count ip (bucket now) db + 1" "ip_count ip (bucket now) db' = n" "ip_amount ip (bucket now) db' = ip_amount ip (bucket now) db + amount"
    by simp_all
qed

lemma try_counter_configs: "try_counter now dim val amount db = (n, db') \<Longrightarrow> rk_configs db' = rk_configs db"
  by (auto simp: try_counter_def UpsertVelocityCounter_def Let_def split: sum.split_asm option.split_asm if_split_asm)

text \<open>What an evaluation reads and writes.\<close>

lemma EvaluatePayment_steps:
  assumes "EvaluatePayment alerts escalates free newid now inp pdb db = (r, db')"
  obtains mc db1 ic db2 dc db3 inp' where "try_counter now ''merchant_id'' (ev_in_MerchantID inp) (ev_in_Amount inp) db = (mc, db1)"
    "(if ev_in_IPAddress inp \<noteq> '''' then try_counter now ''ip_address'' (ev_in_IPAddress inp) (ev_in_Amount inp) db1 else (0, db1)) = (ic, db2)"
    "(if ev_in_DeviceFingerprint inp \<noteq> '''' then try_counter now ''device_fingerprint'' (ev_in_DeviceFingerprint inp) (ev_in_Amount inp) db2 else (0, db2)) = (dc, db3)"
    "ev_in_IPAddress inp' = ev_in_IPAddress inp" "rk_counters db' = rk_counters db3" "rk_configs db' = rk_configs db3"
    "\<And>ev ops. r = Inr (ev, ops) \<Longrightarrow> re_Action ev = er_Action (Evaluate inp' (GetMerchantFraudConfig (ev_in_MerchantID inp) db) mc ic dc)"
proof -
  obtain mc db1 where 1: "try_counter now ''merchant_id'' (ev_in_MerchantID inp) (ev_in_Amount inp) db = (mc, db1)" by (metis surj_pair)
  obtain ic db2 where 2: "(if ev_in_IPAddress inp \<noteq> '''' then try_counter now ''ip_address'' (ev_in_IPAddress inp) (ev_in_Amount inp) db1 else (0, db1)) = (ic, db2)"
    by (metis surj_pair)
  obtain dc db3 where 3: "(if ev_in_DeviceFingerprint inp \<noteq> '''' then try_counter now ''device_fingerprint'' (ev_in_DeviceFingerprint inp) (ev_in_Amount inp) db2 else (0, db2)) = (dc, db3)"
    by (metis surj_pair)
  show thesis
    by (rule that [OF 1 2 3, of "if ev_in_MerchantAvgTxn inp = 0 then inp\<lparr>ev_in_MerchantAvgTxn := MerchantAverageTxnAmount now (ev_in_MerchantID inp) pdb\<rparr> else inp"])
       (use assms in \<open>auto simp: EvaluatePayment_def 1 2 3 Let_def CreateRiskEvent_def split: if_split_asm sum.split_asm prod.split_asm\<close>)
qed

lemma ip_counter_cong: "rk_counters db' = rk_counters db \<Longrightarrow> ip_counter ip fin db' = ip_counter ip fin db"
  by (simp add: ip_counter_def)

lemma ip_counts_cong: "ip_counter ip fin db' = ip_counter ip fin db \<Longrightarrow> ip_count ip fin db' = ip_count ip fin db \<and> ip_amount ip fin db' = ip_amount ip fin db"
  by (simp add: ip_count_def ip_amount_def)

lemma EvaluatePayment_configs:
  assumes "EvaluatePayment alerts escalates free newid now inp pdb db = (r, db')" shows "rk_configs db' = rk_configs db"
  using assms by (cases rule: EvaluatePayment_steps) (auto split: if_split_asm dest!: try_counter_configs)

lemma EvaluatePayment_other:
  assumes "EvaluatePayment alerts escalates free newid now inp pdb db = (r, db')" "ip \<noteq> ''''" "\<not> (ev_in_IPAddress inp = ip \<and> bucket now = fin)"
  shows "ip_counter ip fin db' = ip_counter ip fin db"
  using assms(1)
proof (cases rule: EvaluatePayment_steps)
  case (1 mc db1 ic db2 dc db3 inp')
  have "ip_counter ip fin db1 = ip_counter ip fin db" using try_counter_other [OF 1(1)] by simp
  moreover have "ip_counter ip fin db2 = ip_counter ip fin db1" using 1(2) assms(2,3) try_counter_other [of now "''ip_address''" "ev_in_IPAddress inp"]
    by (auto split: if_split_asm)
  moreover have "ip_counter ip fin db3 = ip_counter ip fin db2" using 1(3) try_counter_other [of now "''device_fingerprint''"] by (auto split: if_split_asm)
  ultimately show ?thesis using ip_counter_cong [OF 1(5)] by simp
qed

lemma EvaluatePayment_own:
  assumes "EvaluatePayment alerts escalates free newid now inp pdb db = (r, db')" "ip \<noteq> ''''" "ev_in_IPAddress inp = ip"
    and "ip_count ip (bucket now) db + 1 < 2 ^ 31" "in64 (ip_amount ip (bucket now) db + ev_in_Amount inp)"
    and "fc_IPVelocityThreshold (GetMerchantFraudConfig (ev_in_MerchantID inp) db) \<le> T" "fc_ReviewThreshold (GetMerchantFraudConfig (ev_in_MerchantID inp) db) \<le> 50"
  shows "ip_count ip (bucket now) db' = ip_count ip (bucket now) db + 1 \<and> ip_amount ip (bucket now) db' = ip_amount ip (bucket now) db + ev_in_Amount inp
    \<and> (r = Inr (ev, ops) \<and> re_Action ev = RiskActionAllow \<longrightarrow> ip_count ip (bucket now) db + 1 < T)"
  using assms(1)
proof (cases rule: EvaluatePayment_steps)
  case (1 mc db1 ic db2 dc db3 inp')
  let ?fin = "bucket now"
  have c1: "ip_counter ip ?fin db1 = ip_counter ip ?fin db" using try_counter_other [OF 1(1)] by simp
  note n1 = ip_counts_cong [OF c1]
  have t: "try_counter now ''ip_address'' ip (ev_in_Amount inp) db1 = (ic, db2)" using 1(2) assms(2,3) by (simp split: if_split_asm)
  have own: "ic = ip_count ip ?fin db + 1" "ip_count ip ?fin db2 = ic" "ip_amount ip ?fin db2 = ip_amount ip ?fin db + ev_in_Amount inp"
    using try_counter_own [OF t] n1 assms(4,5) by simp_all
  have "ip_counter ip ?fin db3 = ip_counter ip ?fin db2" using 1(3) try_counter_other [of now "''device_fingerprint''"] by (auto split: if_split_asm)
  then have c3: "ip_counter ip ?fin db' = ip_counter ip ?fin db2" using ip_counter_cong [OF 1(5)] by simp
  have "ic < T" if "r = Inr (ev, ops)" "re_Action ev = RiskActionAllow"
  proof (rule ccontr)
    assume "\<not> ic < T"
    then have "(''ip_velocity_1h'', 50) \<in> set (triggered inp' (GetMerchantFraudConfig (ev_in_MerchantID inp) db) mc ic dc)"
      using assms(2,3,6) 1(4) by (simp add: triggered_def)
    from held_by_rule [OF this assms(7)] show False using 1(7) [OF that(1)] that(2) by simp
  qed
  then show ?thesis using own ip_counts_cong [OF c3] by auto
qed

type_synonym 'a eval_request = "id \<times> time \<times> eval_input \<times> 'a payment_db_scheme"

fun evaluate_run :: "'a eval_request list \<Rightarrow> risk_db \<Rightarrow> risk_action option list \<times> risk_db" where
  "evaluate_run [] db = ([], db)"
| "evaluate_run ((newid, now, inp, pdb) # rs) db =
     (case EvaluatePayment True True 32 newid now inp pdb db of (r, db1) \<Rightarrow>
      case evaluate_run rs db1 of (acts, db2) \<Rightarrow> ((case r of Inl _ \<Rightarrow> None | Inr (ev, _) \<Rightarrow> Some (re_Action ev)) # acts, db2))"

definition from_ip :: "string \<Rightarrow> time \<Rightarrow> 'a eval_request \<Rightarrow> bool" where
  "from_ip ip fin rq \<longleftrightarrow> (case rq of (_, now, inp, _) \<Rightarrow> ev_in_IPAddress inp = ip \<and> bucket now = fin)"

definition rq_amount :: "'a eval_request \<Rightarrow> int" where
  "rq_amount rq = (case rq of (_, _, inp, _) \<Rightarrow> ev_in_Amount inp)"

definition rq_merchant :: "'a eval_request \<Rightarrow> id" where
  "rq_merchant rq = (case rq of (_, _, inp, _) \<Rightarrow> ev_in_MerchantID inp)"

definition allowed_from :: "string \<Rightarrow> time \<Rightarrow> 'a eval_request list \<Rightarrow> risk_action option list \<Rightarrow> nat" where
  "allowed_from ip fin rs acts = length (filter (\<lambda>(rq, a). from_ip ip fin rq \<and> a = Some RiskActionAllow) (zip rs acts))"

lemma GetConfig_cong: "rk_configs db' = rk_configs db \<Longrightarrow> GetMerchantFraudConfig m db' = GetMerchantFraudConfig m db"
  by (simp add: GetMerchantFraudConfig_def)

lemma velocity_run:
  assumes "evaluate_run rs db = (acts, db')" "ip \<noteq> ''''" "\<forall>rq \<in> set rs. 0 \<le> rq_amount rq"
    and "0 \<le> ip_amount ip fin db" "ip_amount ip fin db + sum_where (from_ip ip fin) rq_amount rs < 2 ^ 63" "ip_count ip fin db + int (length rs) < 2 ^ 31"
    and "\<forall>rq \<in> set rs. fc_IPVelocityThreshold (GetMerchantFraudConfig (rq_merchant rq) db) \<le> T \<and> fc_ReviewThreshold (GetMerchantFraudConfig (rq_merchant rq) db) \<le> 50"
  shows "int (allowed_from ip fin rs acts) \<le> max 0 (T - 1 - ip_count ip fin db)"
  using assms(1,3-)
proof (induction rs arbitrary: db acts db')
  case Nil
  then show ?case by (simp add: allowed_from_def)
next
  case (Cons rq rs)
  obtain newid now inp pdb where rq: "rq = (newid, now, inp, pdb)" by (metis prod_cases4)
  obtain r db1 where e: "EvaluatePayment True True 32 newid now inp pdb db = (r, db1)" by (metis surj_pair)
  obtain bs db2 where run: "evaluate_run rs db1 = (bs, db2)" by (metis surj_pair)
  let ?a = "case r of Inl _ \<Rightarrow> None | Inr (ev, _) \<Rightarrow> Some (re_Action ev)"
  have acts: "acts = ?a # bs" using Cons.prems(1) by (simp add: rq e run)
  note cfg = GetConfig_cong [OF EvaluatePayment_configs [OF e]]
  have rest: "0 \<le> sum_where (from_ip ip fin) rq_amount rs" using Cons.prems(2) by (intro sum_where_nonneg) auto
  show ?case
  proof (cases "from_ip ip fin rq")
    case False
    then have "ip_counter ip fin db1 = ip_counter ip fin db" using EvaluatePayment_other [OF e assms(2)] by (simp add: from_ip_def rq)
    note same = ip_counts_cong [OF this]
    have "int (allowed_from ip fin rs bs) \<le> max 0 (T - 1 - ip_count ip fin db1)"
      by (rule Cons.IH [OF run]) (use Cons.prems False same cfg in simp_all)
    then show ?thesis using False same by (simp add: acts allowed_from_def)
  next
    case True
    then have own: "ev_in_IPAddress inp = ip" "bucket now = fin" by (simp_all add: from_ip_def rq)
    have amt: "0 \<le> ev_in_Amount inp" "rq_amount rq = ev_in_Amount inp" using Cons.prems(2) by (simp_all add: rq rq_amount_def)
    have "in64 (ip_amount ip fin db + ev_in_Amount inp)" using Cons.prems(3,4) rest True amt by (simp add: in64_def)
    moreover have "ip_count ip fin db + 1 < 2 ^ 31" using Cons.prems(5) by simp
    ultimately have eff: "ip_count ip fin db1 = ip_count ip fin db + 1 \<and> ip_amount ip fin db1 = ip_amount ip fin db + ev_in_Amount inp
        \<and> (r = Inr (ev, ops) \<and> re_Action ev = RiskActionAllow \<longrightarrow> ip_count ip fin db + 1 < T)" for ev ops
      using EvaluatePayment_own [OF e assms(2) own(1), of T ev ops] own(2) Cons.prems(6) by (simp add: rq rq_merchant_def)
    have "int (allowed_from ip fin rs bs) \<le> max 0 (T - 1 - ip_count ip fin db1)"
      by (rule Cons.IH [OF run]) (use Cons.prems True eff amt cfg in simp_all)
    moreover have "?a = Some RiskActionAllow \<Longrightarrow> ip_count ip fin db + 1 < T" using eff by (auto split: sum.split_asm)
    ultimately show ?thesis using True eff by (auto simp: acts allowed_from_def)
  qed
qed


definition busy_config :: fraud_config where
  "busy_config = (DefaultMerchantFraudConfig ''m1'')\<lparr>fc_IPVelocityThreshold := 2\<rparr>"

definition busy_db :: risk_db where
  "busy_db = \<lparr>rk_events = [], rk_counters = [], rk_configs = [busy_config]\<rparr>"

definition busy_request :: "id \<Rightarrow> time \<Rightarrow> unit eval_request" where
  "busy_request i now = (i, now, \<lparr>ev_in_MerchantID = ''m1'', ev_in_PaymentID = '''', ev_in_Amount = 100, ev_in_IPAddress = ''10.0.0.1'', ev_in_MerchantAvgTxn = 0,
     ev_in_DeviceFingerprint = '''', ev_in_CardBIN = '''', ev_in_CardCountry = '''', ev_in_MerchantCountry = ''''\<rparr>, sample_pay_db)"

lemmas risk_eval = busy_db_def busy_config_def busy_request_def EvaluatePayment_def DefaultMerchantFraudConfig_def GetMerchantFraudConfig_def try_counter_def
  UpsertVelocityCounter_def windowEndTime_def hours_def counter_at_def MerchantAverageTxnAmount_def Evaluate_def triggered_def action_of_def
  CreateRiskEvent_def runAsync_def shouldEscalateReserve_def Let_def


section \<open>Held payments\<close>

text \<open>The payments that would be captured without anyone asking: marked, or to be marked when their challenge completes.\<close>

definition automatic :: "'a payment_db_scheme \<Rightarrow> id set" where
  "automatic db = {p_ID p |p. p \<in> set (db_payments db) \<and> p_AutoCaptureAt p \<noteq> None}
     \<union> {cc_PaymentID c |c. c \<in> set (db_challenges db) \<and> cc_AutoCaptureRequested c}"

lemma automaticI:
  "p \<in> set (db_payments db) \<Longrightarrow> p_AutoCaptureAt p = Some t \<Longrightarrow> p_ID p \<in> automatic db"
  "c \<in> set (db_challenges db) \<Longrightarrow> cc_AutoCaptureRequested c \<Longrightarrow> cc_PaymentID c \<in> automatic db"
  by (auto simp: automatic_def)

lemma automatic_mono:
  assumes "\<And>p t. p \<in> set (db_payments db') \<Longrightarrow> p_AutoCaptureAt p = Some t \<Longrightarrow> p_ID p \<in> automatic db"
    and "\<And>c. c \<in> set (db_challenges db') \<Longrightarrow> cc_AutoCaptureRequested c \<Longrightarrow> cc_PaymentID c \<in> automatic db"
  shows "automatic db' \<subseteq> automatic db"
  using assms by (auto simp: automatic_def [of db'])

lemma automatic_cong: "db_payments db' = db_payments db \<Longrightarrow> db_challenges db' = db_challenges db \<Longrightarrow> automatic db' = automatic db"
  by (simp add: automatic_def)

lemma automatic_simps [simp]:
  "automatic (emit e now ev db) = automatic db" "automatic (set_attempt i g db) = automatic db" "automatic (set_order m i h db) = automatic db"
  by (rule automatic_cong; simp add: db_simps)+

lemma automatic_set_payment:
  assumes "\<And>p. p_ID (f p) = p_ID p" "\<And>p. p_AutoCaptureAt (f p) \<noteq> None \<Longrightarrow> p_AutoCaptureAt (f p) = p_AutoCaptureAt p"
  shows "automatic (set_payment i f db) \<subseteq> automatic db"
proof (rule automatic_mono)
  fix p t assume "p \<in> set (db_payments (set_payment i f db))" "p_AutoCaptureAt p = Some t"
  then obtain q where "q \<in> set (db_payments db)" "p_ID p = p_ID q" "p_AutoCaptureAt q = Some t"
    using assms by (auto simp: set_payment_def set_upd_where)
  then show "p_ID p \<in> automatic db" by (simp add: automaticI)
qed (simp add: set_payment_def automaticI)

lemma StartAuthorization_challenges: "StartAuthorization a pid sp e now inp db = Inr (r, db') \<Longrightarrow> db_challenges db' = db_challenges db"
  by (auto simp: StartAuthorization_def Let_def bindR_Inr_iff insert_attempt_def insert_payment_def insertPaymentSplitsTx_def emit_def set_order_def
      split: if_split_asm option.split_asm)

lemma StartAuthorization_automatic:
  assumes "StartAuthorization a pid sp e now inp db = Inr (r, db')" shows "automatic db' \<subseteq> automatic db"
proof (rule automatic_mono)
  fix p t assume "p \<in> set (db_payments db')" "p_AutoCaptureAt p = Some t"
  then show "p_ID p \<in> automatic db" using assms
    by (cases rule: StartAuthorization_Inr [OF assms, case_names replay fresh]) (auto simp: new_payment_def automaticI)
qed (simp add: StartAuthorization_challenges [OF assms] automaticI)

lemma UpdateGatewayRouting_automatic:
  assumes "UpdateGatewayRouting m i d db = Inr db'" shows "automatic db' \<subseteq> automatic db"
  by (rule automatic_mono) (use assms in \<open>auto simp: UpdateGatewayRouting_def Let_def set_upd_where automaticI split: if_split_asm\<close>)

lemma MarkAuthorizationFailed_automatic: "MarkAuthorizationFailed e now m i code desc db = Inr db' \<Longrightarrow> automatic db' \<subseteq> automatic db"
  by (auto simp: MarkAuthorizationFailed_def bindR_Inr_iff split: if_split_asm elim!: automatic_set_payment [THEN subsetD, rotated 2])

lemma MarkAuthorizationAuthorized_automatic:
  "MarkAuthorizationAuthorized e now m i ref code None db = Inr (r, db') \<Longrightarrow> automatic db' \<subseteq> automatic db"
  by (auto simp: MarkAuthorizationAuthorized_def bindR_Inr_iff split: if_split_asm dest!: commit_get_Inr elim!: automatic_set_payment [THEN subsetD, rotated 2])

lemma upsert_challenge_automatic:
  "upsert_challenge m i cin db = Inr db' \<Longrightarrow> \<not> ci_AutoCaptureRequested cin \<Longrightarrow> automatic db' \<subseteq> automatic db"
  by (rule automatic_mono) (auto simp: upsert_challenge_def set_challenge_def set_upd_where automaticI split: if_split_asm)

lemma MarkAuthorizationRequiresAction_automatic:
  assumes "MarkAuthorizationRequiresAction e now m i cin db = Inr (r, db')" "\<not> ci_AutoCaptureRequested cin"
  shows "automatic db' \<subseteq> automatic db"
proof -
  let ?db = "set_payment i (\<lambda>p. p\<lparr>p_Status := RequiresAction, p_MethodState := ''card_3ds_required''\<rparr>) db"
  have "automatic ?db \<subseteq> automatic db" by (rule automatic_set_payment) auto
  then have "automatic db1 \<subseteq> automatic db" if "upsert_challenge m i cin ?db = Inr db1" for db1
    using upsert_challenge_automatic [OF that assms(2)] by (rule order_trans [rotated])
  then show ?thesis using assms(1)
    by (auto simp: MarkAuthorizationRequiresAction_def bindR_Inr_iff split: if_split_asm dest!: commit_get_Inr)
qed

interpretation unmarked: authorization_closed "\<lambda>db db'. automatic db' \<subseteq> automatic db" False
proof unfold_locales
  show "AttachCardPaymentDetails cd db = Inr db' \<Longrightarrow> automatic db' \<subseteq> automatic db" for cd and db db' :: "'a payment_db_scheme"
    by (simp add: AttachCardPaymentDetails_def automatic_def split: if_split_asm) auto
qed (auto dest: StartAuthorization_automatic UpdateGatewayRouting_automatic MarkAuthorizationFailed_automatic MarkAuthorizationAuthorized_automatic
      MarkAuthorizationRequiresAction_automatic)

lemma RecordFailedAttempt_tables:
  "RecordFailedAttempt pid aid eid now req code desc db = Inr db'
   \<Longrightarrow> db_payments db' = db_payments db \<and> db_challenges db' = db_challenges db \<and> db_ledger db' = db_ledger db"
  by (auto simp: RecordFailedAttempt_def CreateFailedAttempt_def insert_attempt_def bindR_Inr_iff db_simps split: if_split_asm)

text \<open>
  C20: A payment that risk does not allow is not captured by itself. When the evaluation of an authorization request
  asks for a hold, no payment is marked for automatic capture that was not before, neither at once nor through
  its 3DS challenge; when it asks for a block the request is refused and the payments, the challenges and the
  ledger stay as they are.
\<close>

theorem risk_action_enforced:
  assumes "authorize_request gw tokens ids gids now (Some (alerts, escalates, free)) ctx req (pdb, v, db) = (r, pdb', v', db')"
    and "EvaluateAuthorize alerts escalates free (gi_RiskEvent gids) now ctx req pdb db = (Inr act, ops, db1)" "act \<noteq> RiskActionAllow"
  shows "automatic pdb' \<subseteq> automatic pdb
    \<and> (act = RiskActionBlock \<longrightarrow> r = Inl RiskBlocked \<and> db_payments pdb' = db_payments pdb \<and> db_challenges pdb' = db_challenges pdb
         \<and> db_ledger pdb' = db_ledger pdb)"
proof (cases act)
  case RiskActionHold
  then have "\<exists>res. Authorize gw tokens ids now (req\<lparr>au_AutoCapture := False\<rparr>) (pdb, v) = (res, pdb', v')"
    using assms(1,2) by (auto simp: authorize_request_def Let_def split: prod.split_asm)
  then show ?thesis using unmarked.Authorize_rel RiskActionHold by fastforce
next
  case RiskActionBlock
  then have "r = Inl RiskBlocked" "db_payments pdb' = db_payments pdb" "db_challenges pdb' = db_challenges pdb" "db_ledger pdb' = db_ledger pdb"
    using assms(1,2) by (auto simp: authorize_request_def Let_def split: sum.split_asm dest: RecordFailedAttempt_tables)
  then show ?thesis using automatic_cong by blast
qed (use assms(3) in simp)

section \<open>Manual review\<close>

lemma ReviewRepo_Inr:
  assumes "ReviewRiskEventRepo now m i status txt actor db = Inr (ev', db')" "GetRiskEvent m i db = Inr ev"
  shows "re_PaymentID ev' = re_PaymentID ev \<and> re_ReviewStatus ev' = status \<and> re_Resolved ev' \<and> re_ManualDecision ev' = Some status"
proof -
  let ?f = "\<lambda>ev. ev\<lparr>re_ReviewStatus := status, re_ReviewNotes := txt, re_ManualDecision := Some status, re_Resolved := True, re_ResolvedBy := actor,
                       re_ResolvedAt := Some now\<rparr>"
  have "find (event_at m i) (upd_where (event_at m i) ?f (rk_events db)) = map_option ?f (find (event_at m i) (rk_events db))"
    by (rule find_upd_where) (simp add: event_at_def)
  then show ?thesis using assms
    by (auto simp: ReviewRiskEventRepo_def update_event_def GetRiskEvent_def bindR_Inr_iff split: if_split_asm option.split_asm)
qed

lemma find_payment_upd:
  assumes "\<And>q. p_ID (f q) = p_ID q \<and> p_MerchantID (f q) = p_MerchantID q"
  shows "find (pay_at m i) (upd_where (\<lambda>q. p_ID q = i) f rows) = map_option f (find (pay_at m i) rows)"
  using assms by (induction rows) (auto simp: pay_at_def)

lemma ReverseAuthorization_reverses:
  assumes "ReverseAuthorization e now m i reason db = Inr (r, db')" shows "\<exists>p. lock_payment m i db' = Inr p \<and> p_Status p = AuthorizationReversed"
  using assms
  by (auto simp: ReverseAuthorization_def bindR_Inr_iff db_simps lock_payment_def find_payment_upd split: if_split_asm option.split_asm dest!: commit_get_Inr)

lemma Capture_captures:
  assumes "CaptureForMerchant ids now m i amount db = Inr (r, db')" shows "\<exists>p. lock_payment m i db' = Inr p \<and> p_Status p = Captured"
proof -
  obtain t e1 e2 where ids: "ids = (t, e1, e2)" by (metis prod_cases3)
  have "CaptureAuthorizedPayment (t, e1, e2) now m i amount db = Inr (r, db')" using assms by (simp add: CaptureForMerchant_def ids split: if_split_asm)
  then show ?thesis
    by (cases rule: CaptureAuthorizedPayment_Inr) (auto simp: lock_payment_def find_payment_upd capture_payment_def split: option.split_asm)
qed

lemma review_approve_payment:
  assumes "GetPayment m i pdb = Inr rec" "cr_Status rec \<noteq> Some Authorized" shows "\<exists>p. lock_payment m i pdb = Inr p \<and> p_Status p \<noteq> Authorized"
  using assms by (auto simp: GetPayment_def bindR_Inr_iff result_of_def)

text \<open>
  A manual review settles the payment it is about. With the payment service wired, a review that succeeds leaves
  the payment reversed when it blocks and not authorized (captured, when it was) when it approves, closes the
  event with the decision, and touches the payment tables only by steps of the payment flow.
\<close>

theorem review_settles_payment:
  assumes "ReviewRiskEvent True ids now m i dec txt actor (pdb, db) = (Inr ev, pdb', db')"
  shows "\<exists>p. lock_payment m (re_PaymentID ev) pdb' = Inr p
    \<and> (if dec = ''approve'' then p_Status p \<noteq> Authorized \<and> re_ReviewStatus ev = ReviewStatusApproved
       else p_Status p = AuthorizationReversed \<and> re_ReviewStatus ev = ReviewStatusBlocked)
    \<and> re_Resolved ev \<and> pay_step\<^sup>*\<^sup>* pdb pdb'"
proof -
  obtain ev0 where ev0: "GetRiskEvent m i db = Inr ev0" using assms by (auto simp: ReviewRiskEvent_def split: sum.split_asm)
  show ?thesis
  proof (cases "dec = ''approve''")
    case True
    then obtain rec where rec: "GetPayment m (re_PaymentID ev0) pdb = Inr rec" and w: "ReviewRiskEventRepo now m i ReviewStatusApproved txt actor db = Inr (ev, db')"
      and cap: "if cr_Status rec = Some Authorized then \<exists>r. CaptureForMerchant ids now m (re_PaymentID ev0) (cr_Amount rec) pdb = Inr (r, pdb') else pdb' = pdb"
      using assms ev0 by (auto simp: ReviewRiskEvent_def Let_def split: sum.split_asm if_split_asm prod.split_asm)
    note ev = ReviewRepo_Inr [OF w ev0]
    show ?thesis
    proof (cases "cr_Status rec = Some Authorized")
      case True
      then obtain r where r: "CaptureForMerchant ids now m (re_PaymentID ev0) (cr_Amount rec) pdb = Inr (r, pdb')" using cap by auto
      then have "pay_step pdb pdb'" by (auto simp: CaptureForMerchant_def split: if_split_asm intro: pay_step.capture)
      then show ?thesis using Capture_captures [OF r] ev \<open>dec = ''approve''\<close> by force
    qed (use cap review_approve_payment [OF rec] ev \<open>dec = ''approve''\<close> in auto)
  next
    case False
    then obtain r where r: "ReverseAuthorization (fst ids) now m (re_PaymentID ev0) ''risk review blocked'' pdb = Inr (r, pdb')"
      and w: "ReviewRiskEventRepo now m i ReviewStatusBlocked txt actor db = Inr (ev, db')"
      using assms ev0 by (auto simp: ReviewRiskEvent_def Let_def split: sum.split_asm if_split_asm prod.split_asm)
    show ?thesis using ReverseAuthorization_reverses [OF r] ReviewRepo_Inr [OF w ev0] pay_step.reverse [OF r] False by auto
  qed
qed

section \<open>Limits of the rules\<close>

definition quiet_input :: eval_input where
  "quiet_input = \<lparr>ev_in_MerchantID = ''m1'', ev_in_PaymentID = ''p1'', ev_in_Amount = 100, ev_in_IPAddress = ''10.0.0.1'', ev_in_MerchantAvgTxn = 0,
     ev_in_DeviceFingerprint = ''d1'', ev_in_CardBIN = '''', ev_in_CardCountry = ''US'', ev_in_MerchantCountry = ''IN''\<rparr>"

text \<open>Two rules need not block: the device and the country rules add up to less than the threshold of the default configuration.\<close>

lemma two_rules_may_only_hold:
  "Evaluate quiet_input (DefaultMerchantFraudConfig ''m1'') 1 1 6
     = \<lparr>er_Score = 80, er_Action = RiskActionHold, er_TriggeredRules = [''device_velocity_1h'', ''country_mismatch'']\<rparr>"
  by (simp add: Evaluate_def triggered_def action_of_def quiet_input_def DefaultMerchantFraudConfig_def)

text \<open>The country of the card is compared as it is sent, the list of the configuration is in upper case.\<close>

lemma blocked_country_case:
  "\<exists>c db'. UpsertMerchantFraudConfig ((DefaultMerchantFraudConfig ''m1'')\<lparr>fc_BlockedCountries := [''kp'']\<rparr>) busy_db = Inr (c, db')
     \<and> er_TriggeredRules (Evaluate (quiet_input\<lparr>ev_in_CardCountry := ''KP'', ev_in_MerchantCountry := ''''\<rparr>) c 1 1 1) = [''blocked_country'']
     \<and> er_TriggeredRules (Evaluate (quiet_input\<lparr>ev_in_CardCountry := ''kp'', ev_in_MerchantCountry := ''''\<rparr>) c 1 1 1) = []"
  by (simp add: UpsertMerchantFraudConfig_def DefaultMerchantFraudConfig_def normalizeUpper_def ToUpper_def upper_char_def TrimSpace_def is_space_def char_of_def bit_0
      Evaluate_def triggered_def quiet_input_def Let_def)

text \<open>The window is the clock hour: two bursts on both sides of the hour fall into different buckets.\<close>

lemma bucket_is_clock_hour: "bucket (hours 1 - 1) = hours 1" "bucket (hours 1) = hours 2"
  by (simp_all add: bucket_def windowEndTime_def hours_def)

section \<open>Witnesses\<close>


definition empty_context :: risk_context where
  "empty_context = \<lparr>rx_IPAddress = '''', rx_DeviceFingerprint = '''', rx_CardBIN = '''', rx_CardCountry = ''US'', rx_MerchantCountry = ''IN''\<rparr>"

definition sample_gate :: gate_ids where
  "sample_gate = \<lparr>gi_RiskEvent = ''r1'', gi_Payment = ''p1'', gi_Attempt = ''a1'', gi_Event = ''e0''\<rparr>"

lemmas gate_eval = empty_context_def sample_gate_def EvaluateAuthorize_def authorize_request_def sample_authorize_def risk_eval sample_pay_db_def

text \<open>A card of another country is held: the payment is authorized and not marked for automatic capture.\<close>

theorem risk_action_enforced_witness:
  "\<exists>r pdb v db. authorize_request approving_gateway (None :: unit card_tokens option) sample_ids sample_gate 5 (Some (True, True, 32)) empty_context
        (sample_authorize []) (sample_pay_db, (), busy_db) = (Inr r, pdb, v, db)
     \<and> cr_Status r = Some Authorized \<and> automatic pdb \<subseteq> automatic sample_pay_db \<and> automatic pdb = {}"
proof -
  let ?out = "authorize_request approving_gateway (None :: unit card_tokens option) sample_ids sample_gate 5 (Some (True, True, 32)) empty_context
        (sample_authorize []) (sample_pay_db, (), busy_db)"
  obtain ops db1 where ev: "EvaluateAuthorize True True 32 (gi_RiskEvent sample_gate) 5 empty_context (sample_authorize []) sample_pay_db busy_db
      = (Inr RiskActionHold, ops, db1)"
    by (simp add: gate_eval)
  then obtain r pdb v db where out: "?out = (Inr r, pdb, v, db)" "cr_Status r = Some Authorized"
    by (simp add: authorize_request_def service_eval)
  have "automatic sample_pay_db = {}" by (simp add: automatic_def sample_pay_db_def)
  with risk_action_enforced [OF out(1) ev] out show ?thesis by auto
qed

definition held_event :: risk_event where
  "held_event = \<lparr>re_ID = ''r1'', re_MerchantID = ''m1'', re_PaymentID = ''p1'', re_Score = 40, re_Action = RiskActionHold,
     re_TriggeredRules = [''country_mismatch''], re_ReviewStatus = ReviewStatusPending, re_AssignedTo = '''', re_AssignedAt = None, re_ReviewNotes = '''',
     re_ManualDecision = None, re_Resolved = False, re_ResolvedBy = '''', re_ResolvedAt = None, re_CreatedAt = 5\<rparr>"

theorem review_settles_payment_witness:
  "\<exists>r pdb v ev pdb' db' p. Authorize approving_gateway (None :: unit card_tokens option) sample_ids 5 (sample_authorize []) (sample_pay_db, ()) = (Inr r, pdb, v)
     \<and> ReviewRiskEvent True (''e8'', ''e9'', ''e10'') 6 ''m1'' ''r1'' ''block'' '''' ''ops'' (pdb, busy_db\<lparr>rk_events := [held_event]\<rparr>) = (Inr ev, pdb', db')
     \<and> lock_payment ''m1'' (re_PaymentID ev) pdb' = Inr p \<and> p_Status p = AuthorizationReversed"
proof -
  obtain r pdb v where out: "Authorize approving_gateway (None :: unit card_tokens option) sample_ids 5 (sample_authorize []) (sample_pay_db, ()) = (Inr r, pdb, v)"
    and row: "\<exists>p. db_payments pdb = [p] \<and> p_ID p = ''p1'' \<and> p_MerchantID p = ''m1'' \<and> p_Status p = Authorized"
    by (simp add: service_eval)
  obtain ev pdb' db' where rev: "ReviewRiskEvent True (''e8'', ''e9'', ''e10'') 6 ''m1'' ''r1'' ''block'' '''' ''ops'' (pdb, busy_db\<lparr>rk_events := [held_event]\<rparr>)
      = (Inr ev, pdb', db')"
    using row by (auto simp: ReviewRiskEvent_def GetRiskEvent_def event_at_def held_event_def ReverseAuthorization_def lock_payment_def pay_at_def commit_get_def
        GetPayment_def db_simps ReviewRiskEventRepo_def update_event_def)
  show ?thesis using review_settles_payment [OF rev] out rev by auto
qed

end
