(* ===== verification/Dispute.thy ===== *)
theory Dispute
  imports Settlement
begin

text \<open>
  Disputes (\<open>internal/dispute\<close>): the state machine of \<open>domain.go\<close>, the repository and the service. A service call reads
  the dispute, checks the transition and then writes in a second transaction, so a call is modelled as its check
  followed by its write: run back to back the disputes follow the table, and interleaved with another call they
  need not.
\<close>

section \<open>State machine\<close>

datatype dispute_state = DspOpen | DspUnderReview | DspWon | DspLost | DspAccepted

datatype dispute_event = DspSubmitEvidence | DspStartReview | DspWin | DspLose | DspAccept

datatype dispute_error =
  ErrDisputeNotFound | ErrDisputePaymentNotFound | ErrDisputeSettlementNotFound | ErrDisputeTransition | ErrInvalidReason | ErrDisputeAmount
  | ErrDisputeCurrency | ErrEvidenceAlreadySubmitted | ErrEvidenceNotAllowed | ErrDisputeTerminal | ErrDisputeConstraint

definition dispute_terminal :: "dispute_state \<Rightarrow> bool" where
  "dispute_terminal s \<longleftrightarrow> s \<in> {DspWon, DspLost, DspAccepted}"

definition DisputeTransition :: "dispute_state \<Rightarrow> dispute_event \<Rightarrow> dispute_error + dispute_state" where
  "DisputeTransition s ev =
     (if dispute_terminal s then Inl ErrDisputeTerminal
      else case (s, ev) of
        (DspOpen, DspStartReview) \<Rightarrow> Inr DspUnderReview
      | (DspOpen, DspAccept) \<Rightarrow> Inr DspAccepted
      | (DspOpen, DspWin) \<Rightarrow> Inr DspWon
      | (DspOpen, DspLose) \<Rightarrow> Inr DspLost
      | (DspUnderReview, DspWin) \<Rightarrow> Inr DspWon
      | (DspUnderReview, DspLose) \<Rightarrow> Inr DspLost
      | (DspUnderReview, DspAccept) \<Rightarrow> Inr DspAccepted
      | _ \<Rightarrow> Inl ErrDisputeTransition)"

definition ValidReasons :: "string list" where
  "ValidReasons = [''fraudulent'', ''product_not_received'', ''duplicate'', ''product_unacceptable'', ''credit_not_processed'', ''general'']"

record dispute =
  ds_ID :: id
  ds_MerchantID :: id
  ds_PaymentID :: id
  ds_SettlementID :: id
  ds_Status :: dispute_state
  ds_Reason :: string
  ds_Amount :: int
  ds_Currency :: string
  ds_Evidence :: payload
  ds_EvidenceSubmittedAt :: "time option"
  ds_DueBy :: "time option"
  ds_ResolvedAt :: "time option"
  ds_Notes :: string
  ds_CreatedAt :: time

text \<open>The disputes with the outbox and the tables they refer to; \<open>dd_merchants\<close> are the keys of the merchants table.\<close>

record dispute_db =
  dd_disputes :: "dispute list"
  dd_merchants :: "id list"
  dd_outbox :: "outbox_row list"

section \<open>Repository\<close>

definition dispute_at :: "id \<Rightarrow> id \<Rightarrow> dispute \<Rightarrow> bool" where
  "dispute_at m i d \<longleftrightarrow> ds_ID d = i \<and> ds_MerchantID d = m"

definition GetDispute :: "id \<Rightarrow> id \<Rightarrow> dispute_db \<Rightarrow> dispute_error + dispute" where
  "GetDispute m i db = (case find (dispute_at m i) (dd_disputes db) of None \<Rightarrow> Inl ErrDisputeNotFound | Some d \<Rightarrow> Inr d)"

definition ListDisputes :: "id \<Rightarrow> int \<Rightarrow> dispute_db \<Rightarrow> dispute list" where
  "ListDisputes m limit db =
     take (nat (if limit \<le> 0 then 100 else limit)) (sort_key (\<lambda>d. - ds_CreatedAt d) (filter (\<lambda>d. ds_MerchantID d = m) (dd_disputes db)))"

definition dispute_outbox :: "id \<Rightarrow> time \<Rightarrow> id \<Rightarrow> id \<Rightarrow> string \<Rightarrow> payload \<Rightarrow> dispute_db \<Rightarrow> dispute_db" where
  "dispute_outbox evtID now m i ty pl db =
     db\<lparr>dd_outbox := dd_outbox db @
       [\<lparr>ob_ID = evtID, ob_Event = \<lparr>ev_AggregateType = ''dispute'', ev_AggregateID = i, ev_EventType = ty, ev_MerchantID = m, ev_Payload = pl\<rparr>,
         ob_PublishedAt = None, ob_CreatedAt = now\<rparr>]\<rparr>"

definition CreateDisputeRepo :: "id \<Rightarrow> time \<Rightarrow> dispute \<Rightarrow> dispute_db \<Rightarrow> dispute_error + dispute \<times> dispute_db" where
  "CreateDisputeRepo evtID now d db =
     (if ds_ID d \<in> ds_ID ` set (dd_disputes db) \<or> ds_MerchantID d \<notin> set (dd_merchants db) then Inl ErrDisputeConstraint
      else
      let db' = dispute_outbox evtID now (ds_MerchantID d) (ds_ID d) ''dispute.created''
                  [(''dispute_id'', PStr (ds_ID d)), (''payment_id'', PStr (ds_PaymentID d)), (''reason'', PStr (ds_Reason d)),
                   (''amount'', PInt (ds_Amount d)), (''currency'', PStr (ds_Currency d))] (db\<lparr>dd_disputes := dd_disputes db @ [d]\<rparr>) in
      bindR (GetDispute (ds_MerchantID d) (ds_ID d) db') (\<lambda>r. Inr (r, db')))"

definition dispute_name :: "dispute_state \<Rightarrow> string" where
  "dispute_name s = (case s of DspOpen \<Rightarrow> ''open'' | DspUnderReview \<Rightarrow> ''under_review'' | DspWon \<Rightarrow> ''won'' | DspLost \<Rightarrow> ''lost'' | DspAccepted \<Rightarrow> ''accepted'')"

definition set_status :: "time \<Rightarrow> dispute_state \<Rightarrow> string \<Rightarrow> dispute \<Rightarrow> dispute" where
  "set_status now status txt d =
     d\<lparr>ds_Status := status, ds_Notes := (if txt \<noteq> '''' then txt else ds_Notes d),
       ds_ResolvedAt := (if dispute_terminal status then Some now else ds_ResolvedAt d)\<rparr>"

definition UpdateStatus ::
  "id \<times> id \<Rightarrow> time \<Rightarrow> id \<Rightarrow> id \<Rightarrow> dispute_state \<Rightarrow> string \<Rightarrow> dispute_db \<Rightarrow> dispute_error + dispute \<times> dispute_db" where
  "UpdateStatus ids now m i status txt db =
     (if \<not> list_ex (dispute_at m i) (dd_disputes db) then Inl ErrDisputeNotFound
      else
      let pl = [(''dispute_id'', PStr i), (''status'', PStr (dispute_name status))];
          db1 = db\<lparr>dd_disputes := upd_where (dispute_at m i) (set_status now status txt) (dd_disputes db)\<rparr>;
          db2 = dispute_outbox (fst ids) now m i ''dispute.updated'' pl db1;
          db3 = (if dispute_terminal status then dispute_outbox (snd ids) now m i (''dispute.'' @ dispute_name status) pl db2 else db2) in
      bindR (GetDispute m i db3) (\<lambda>d. Inr (d, db3)))"

definition SubmitEvidenceRepo :: "time \<Rightarrow> id \<Rightarrow> id \<Rightarrow> payload \<Rightarrow> dispute_db \<Rightarrow> dispute_error + dispute \<times> dispute_db" where
  "SubmitEvidenceRepo now m i evidence db =
     (if \<not> list_ex (dispute_at m i) (dd_disputes db) then Inl ErrDisputeNotFound
      else
      let db' = db\<lparr>dd_disputes := upd_where (dispute_at m i) (\<lambda>d. d\<lparr>ds_Evidence := evidence, ds_EvidenceSubmittedAt := Some now\<rparr>) (dd_disputes db)\<rparr> in
      bindR (GetDispute m i db') (\<lambda>d. Inr (d, db')))"

definition GetPaymentReference :: "id \<Rightarrow> id \<Rightarrow> 'a settlement_db_scheme \<Rightarrow> dispute_error + payment" where
  "GetPaymentReference m paymentID pdb = (case find (pay_at m paymentID) (db_payments pdb) of None \<Rightarrow> Inl ErrDisputePaymentNotFound | Some p \<Rightarrow> Inr p)"

definition SettlementExists :: "id \<Rightarrow> id \<Rightarrow> 'a settlement_db_scheme \<Rightarrow> bool" where
  "SettlementExists m sid pdb = list_ex (\<lambda>s. st_ID s = sid \<and> st_MerchantID s = m) (db_settlements pdb)"

section \<open>Service\<close>

definition CreateDispute ::
  "id \<Rightarrow> id \<Rightarrow> time \<Rightarrow> id \<Rightarrow> id \<Rightarrow> id \<Rightarrow> string \<Rightarrow> int \<Rightarrow> string \<Rightarrow> time option \<Rightarrow> 'a settlement_db_scheme \<Rightarrow> dispute_db \<Rightarrow> dispute_error + dispute \<times> dispute_db" where
  "CreateDispute newid evtID now m paymentID settlementID reason amount currency dueBy pdb db =
     (if paymentID = '''' then Inl ErrDisputePaymentNotFound
      else if reason \<notin> set ValidReasons then Inl ErrInvalidReason
      else if amount \<le> 0 then Inl ErrDisputeAmount
      else bindR (GetPaymentReference m paymentID pdb) (\<lambda>p.
        if amount > p_Amount p then Inl ErrDisputeAmount
        else
        let cur = (if currency = '''' then p_Currency p else currency) in
        if cur \<noteq> p_Currency p then Inl ErrDisputeCurrency
        else if settlementID \<noteq> '''' \<and> \<not> SettlementExists m settlementID pdb then Inl ErrDisputeSettlementNotFound
        else CreateDisputeRepo evtID now
          \<lparr>ds_ID = newid, ds_MerchantID = m, ds_PaymentID = paymentID, ds_SettlementID = settlementID, ds_Status = DspOpen, ds_Reason = reason,
           ds_Amount = amount, ds_Currency = cur, ds_Evidence = [], ds_EvidenceSubmittedAt = None, ds_DueBy = dueBy, ds_ResolvedAt = None,
           ds_Notes = '''', ds_CreatedAt = now\<rparr> db))"

text \<open>The calls that change a dispute: what they check on the row they read, and what they then write.\<close>

datatype dispute_call = CallStartReview | CallSubmitEvidence payload | CallResolve dispute_state string | CallAccept

definition resolve_event :: "dispute_state \<Rightarrow> dispute_event" where
  "resolve_event outcome = (case outcome of DspWon \<Rightarrow> DspWin | DspLost \<Rightarrow> DspLose | _ \<Rightarrow> DspAccept)"

definition check_call :: "id \<Rightarrow> id \<Rightarrow> dispute_call \<Rightarrow> dispute_db \<Rightarrow> dispute_error + unit" where
  "check_call m i c db =
     (case c of
        CallStartReview \<Rightarrow> bindR (GetDispute m i db) (\<lambda>d. bindR (DisputeTransition (ds_Status d) DspStartReview) (\<lambda>_. Inr ()))
      | CallSubmitEvidence _ \<Rightarrow> bindR (GetDispute m i db) (\<lambda>d.
          if ds_Status d \<noteq> DspOpen then Inl ErrEvidenceNotAllowed
          else if ds_EvidenceSubmittedAt d \<noteq> None then Inl ErrEvidenceAlreadySubmitted else Inr ())
      | CallResolve outcome _ \<Rightarrow>
          if \<not> dispute_terminal outcome then Inl ErrDisputeTransition
          else bindR (GetDispute m i db) (\<lambda>d. bindR (DisputeTransition (ds_Status d) (resolve_event outcome)) (\<lambda>_. Inr ()))
      | CallAccept \<Rightarrow> bindR (GetDispute m i db) (\<lambda>d. bindR (DisputeTransition (ds_Status d) DspAccept) (\<lambda>_. Inr ())))"

definition write_call :: "id \<times> id \<Rightarrow> time \<Rightarrow> id \<Rightarrow> id \<Rightarrow> dispute_call \<Rightarrow> dispute_db \<Rightarrow> dispute_error + dispute \<times> dispute_db" where
  "write_call ids now m i c db =
     (case c of
        CallStartReview \<Rightarrow> UpdateStatus ids now m i DspUnderReview '''' db
      | CallSubmitEvidence evidence \<Rightarrow> SubmitEvidenceRepo now m i evidence db
      | CallResolve outcome txt \<Rightarrow> UpdateStatus ids now m i outcome txt db
      | CallAccept \<Rightarrow> UpdateStatus ids now m i DspAccepted '''' db)"

definition StartReview :: "id \<times> id \<Rightarrow> time \<Rightarrow> id \<Rightarrow> id \<Rightarrow> dispute_db \<Rightarrow> dispute_error + dispute \<times> dispute_db" where
  "StartReview ids now m i db = bindR (check_call m i CallStartReview db) (\<lambda>_. write_call ids now m i CallStartReview db)"

definition SubmitEvidence :: "time \<Rightarrow> id \<Rightarrow> id \<Rightarrow> payload \<Rightarrow> dispute_db \<Rightarrow> dispute_error + dispute \<times> dispute_db" where
  "SubmitEvidence now m i evidence db =
     bindR (check_call m i (CallSubmitEvidence evidence) db) (\<lambda>_. write_call ('''', '''') now m i (CallSubmitEvidence evidence) db)"

definition ResolveDispute :: "id \<times> id \<Rightarrow> time \<Rightarrow> id \<Rightarrow> id \<Rightarrow> dispute_state \<Rightarrow> string \<Rightarrow> dispute_db \<Rightarrow> dispute_error + dispute \<times> dispute_db" where
  "ResolveDispute ids now m i outcome txt db =
     bindR (check_call m i (CallResolve outcome txt) db) (\<lambda>_. write_call ids now m i (CallResolve outcome txt) db)"

definition AcceptDispute :: "id \<times> id \<Rightarrow> time \<Rightarrow> id \<Rightarrow> id \<Rightarrow> dispute_db \<Rightarrow> dispute_error + dispute \<times> dispute_db" where
  "AcceptDispute ids now m i db = bindR (check_call m i CallAccept db) (\<lambda>_. write_call ids now m i CallAccept db)"

section \<open>The table\<close>

definition dispute_rank :: "dispute_state \<Rightarrow> nat" where
  "dispute_rank s = (case s of DspOpen \<Rightarrow> 0 | DspUnderReview \<Rightarrow> 1 | _ \<Rightarrow> 2)"

interpretation disputes: ranked_machine DisputeTransition dispute_rank 2
proof unfold_locales
  show "DisputeTransition s e = Inr s' \<Longrightarrow> dispute_rank s < dispute_rank s'" for s e s'
    by (cases s; cases e) (auto simp: DisputeTransition_def dispute_terminal_def dispute_rank_def)
qed (auto simp: dispute_rank_def split: dispute_state.split)

section \<open>Calls one after the other\<close>

inductive serial_step :: "dispute_db \<Rightarrow> dispute_db \<Rightarrow> bool" where
  create: "CreateDispute newid evtID now m pid sid reason amount cur due (pdb :: settlement_db) db = Inr (r, db') \<Longrightarrow> serial_step db db'"
| start_review: "StartReview ids now m i db = Inr (r, db') \<Longrightarrow> serial_step db db'"
| evidence: "SubmitEvidence now m i ev db = Inr (r, db') \<Longrightarrow> serial_step db db'"
| resolve: "ResolveDispute ids now m i outcome txt db = Inr (r, db') \<Longrightarrow> serial_step db db'"
| accept: "AcceptDispute ids now m i db = Inr (r, db') \<Longrightarrow> serial_step db db'"

text \<open>What a call does to a row: nothing, a step of the table, or evidence on an open dispute.\<close>

definition dispute_moves :: "dispute \<Rightarrow> dispute \<Rightarrow> bool" where
  "dispute_moves d d' \<longleftrightarrow> ds_ID d' = ds_ID d \<and> ds_MerchantID d' = ds_MerchantID d \<and> ds_PaymentID d' = ds_PaymentID d
     \<and> ds_Amount d' = ds_Amount d \<and> ds_Currency d' = ds_Currency d
     \<and> (\<exists>es. run_machine DisputeTransition (ds_Status d) es = Inr (ds_Status d')) \<and> (dispute_terminal (ds_Status d) \<longrightarrow> d' = d)"

lemma dispute_moves_refl [simp]: "dispute_moves d d"
  by (auto simp: dispute_moves_def intro: exI [of _ "[]"])

lemma dispute_moves_trans:
  assumes "dispute_moves d e" "dispute_moves e f" shows "dispute_moves d f"
proof -
  obtain xs ys where "run_machine DisputeTransition (ds_Status d) xs = Inr (ds_Status e)" "run_machine DisputeTransition (ds_Status e) ys = Inr (ds_Status f)"
    using assms by (auto simp: dispute_moves_def)
  then have "run_machine DisputeTransition (ds_Status d) (xs @ ys) = Inr (ds_Status f)" by (simp add: run_machine_append)
  then show ?thesis using assms by (auto simp: dispute_moves_def)
qed

lemma GetDispute_Inr: "GetDispute m i db = Inr d \<Longrightarrow> d \<in> set (dd_disputes db) \<and> ds_ID d = i \<and> ds_MerchantID d = m"
  by (auto simp: GetDispute_def dispute_at_def split: option.split_asm dest!: find_SomeD)

lemma outbox_disputes [simp]: "dd_disputes (dispute_outbox e now m i ty pl db) = dd_disputes db"
  by (simp add: dispute_outbox_def)

lemma UpdateStatus_rows:
  "UpdateStatus ids now m i status txt db = Inr (r, db') \<Longrightarrow> dd_disputes db' = upd_where (dispute_at m i) (set_status now status txt) (dd_disputes db)"
  by (auto simp: UpdateStatus_def Let_def bindR_Inr_iff split: if_split_asm)

lemma SubmitEvidence_rows:
  "SubmitEvidenceRepo now m i ev db = Inr (r, db')
   \<Longrightarrow> dd_disputes db' = upd_where (dispute_at m i) (\<lambda>d. d\<lparr>ds_Evidence := ev, ds_EvidenceSubmittedAt := Some now\<rparr>) (dd_disputes db)"
  by (auto simp: SubmitEvidenceRepo_def Let_def bindR_Inr_iff split: if_split_asm)

lemma set_status_moves: "DisputeTransition (ds_Status d) ev = Inr status \<Longrightarrow> dispute_moves d (set_status now status txt d)"
  by (auto simp: dispute_moves_def set_status_def DisputeTransition_def split: if_split_asm intro!: exI [of _ "[ev]"])

text \<open>The rows a call touches are the one it checked.\<close>

lemma rows_move:
  assumes "unique_key ds_ID (dd_disputes db)" "GetDispute m i db = Inr d" "dd_disputes db' = upd_where (dispute_at m i) f (dd_disputes db)"
    and "dispute_moves d (f d)" "x \<in> set (dd_disputes db)"
  shows "\<exists>y \<in> set (dd_disputes db'). dispute_moves x y"
proof (cases "dispute_at m i x")
  case True
  then have "x = d" using unique_key_inj [OF assms(1,5)] GetDispute_Inr [OF assms(2)] by (auto simp: dispute_at_def)
  then have "f x \<in> set (dd_disputes db')" "dispute_moves x (f x)" using True assms(3-5) by (auto simp: set_upd_where image_iff)
  then show ?thesis by blast
next
  case False
  then have "x \<in> set (dd_disputes db')" using assms(3,5) by (force simp: set_upd_where)
  then show ?thesis by (metis dispute_moves_refl)
qed

lemma ids_kept:
  assumes "unique_key ds_ID (dd_disputes db)" "dd_disputes db' = upd_where q f (dd_disputes db)" "\<And>d. ds_ID (f d) = ds_ID d"
  shows "unique_key ds_ID (dd_disputes db')"
  using assms by simp

lemma transition_target:
  "DisputeTransition s DspStartReview = Inr t \<Longrightarrow> t = DspUnderReview" "DisputeTransition s DspAccept = Inr t \<Longrightarrow> t = DspAccepted"
  "DisputeTransition s (resolve_event out) = Inr t \<Longrightarrow> dispute_terminal out \<Longrightarrow> t = out"
  by (cases s; cases out; auto simp: DisputeTransition_def dispute_terminal_def resolve_event_def)+

lemma set_status_ids [simp]: "ds_ID (set_status now st txt d) = ds_ID d"
  by (simp add: set_status_def)

lemma status_call:
  assumes "unique_key ds_ID (dd_disputes db)" "GetDispute m i db = Inr d" "DisputeTransition (ds_Status d) ev = Inr status"
    and "UpdateStatus ids now m i status txt db = Inr (r, db')"
  shows "unique_key ds_ID (dd_disputes db') \<and> (\<forall>x \<in> set (dd_disputes db). \<exists>y \<in> set (dd_disputes db'). dispute_moves x y)"
  using rows_move [OF assms(1,2) UpdateStatus_rows [OF assms(4)] set_status_moves [OF assms(3)]]
    ids_kept [OF assms(1) UpdateStatus_rows [OF assms(4)]] by auto

lemma serial_step_moves:
  assumes "serial_step db db'" "unique_key ds_ID (dd_disputes db)"
  shows "unique_key ds_ID (dd_disputes db') \<and> (\<forall>x \<in> set (dd_disputes db). \<exists>y \<in> set (dd_disputes db'). dispute_moves x y)"
  using assms(1)
proof (cases rule: serial_step.cases)
  case create
  then obtain d where "dd_disputes db' = dd_disputes db @ [d]" "ds_ID d \<notin> ds_ID ` set (dd_disputes db)"
    by (auto simp: CreateDispute_def CreateDisputeRepo_def Let_def bindR_Inr_iff split: if_split_asm)
  then show ?thesis using assms(2) by (auto intro: dispute_moves_refl)
next
  case (start_review ids now m i r)
  then obtain d t where "GetDispute m i db = Inr d" "DisputeTransition (ds_Status d) DspStartReview = Inr t" "UpdateStatus ids now m i DspUnderReview '''' db = Inr (r, db')"
    by (auto simp: StartReview_def check_call_def write_call_def bindR_Inr_iff)
  then show ?thesis using status_call [OF assms(2)] transition_target(1) by blast
next
  case (resolve ids now m i outcome why r)
  then obtain d t where "dispute_terminal outcome" "GetDispute m i db = Inr d" "DisputeTransition (ds_Status d) (resolve_event outcome) = Inr t"
    "UpdateStatus ids now m i outcome why db = Inr (r, db')"
    by (auto simp: ResolveDispute_def check_call_def write_call_def bindR_Inr_iff split: if_split_asm)
  then show ?thesis using status_call [OF assms(2)] transition_target(3) by blast
next
  case (accept ids now m i r)
  then obtain d t where "GetDispute m i db = Inr d" "DisputeTransition (ds_Status d) DspAccept = Inr t" "UpdateStatus ids now m i DspAccepted '''' db = Inr (r, db')"
    by (auto simp: AcceptDispute_def check_call_def write_call_def bindR_Inr_iff)
  then show ?thesis using status_call [OF assms(2)] transition_target(2) by blast
next
  case (evidence now m i ev r)
  then obtain d where d: "GetDispute m i db = Inr d" "ds_Status d = DspOpen" and w: "SubmitEvidenceRepo now m i ev db = Inr (r, db')"
    by (auto simp: SubmitEvidence_def check_call_def write_call_def bindR_Inr_iff split: if_split_asm)
  have "dispute_moves d (d\<lparr>ds_Evidence := ev, ds_EvidenceSubmittedAt := Some now\<rparr>)"
    using d(2) by (auto simp: dispute_moves_def dispute_terminal_def intro: exI [of _ "[]"])
  from rows_move [OF assms(2) d(1) SubmitEvidence_rows [OF w] this] show ?thesis using ids_kept [OF assms(2) SubmitEvidence_rows [OF w]] by auto
qed

text \<open>
  C21: Disputes follow their table when calls do not overlap. Along every run of service calls each dispute stays,
  with its merchant, payment, amount and currency; its status moves by at most two accepted events of the table,
  and a dispute that is won, lost or accepted never changes again, evidence included.
\<close>

theorem dispute_follows_table:
  assumes "serial_step\<^sup>*\<^sup>* db db'" "unique_key ds_ID (dd_disputes db)" "d \<in> set (dd_disputes db)"
  shows "\<exists>d' \<in> set (dd_disputes db'). ds_ID d' = ds_ID d \<and> ds_PaymentID d' = ds_PaymentID d \<and> ds_Amount d' = ds_Amount d
    \<and> (\<exists>es. length es \<le> 2 \<and> run_machine DisputeTransition (ds_Status d) es = Inr (ds_Status d'))
    \<and> (dispute_terminal (ds_Status d) \<longrightarrow> d' = d)"
proof -
  have "unique_key ds_ID (dd_disputes db') \<and> (\<exists>d' \<in> set (dd_disputes db'). dispute_moves d d')"
    using assms(1)
  proof (induction rule: rtranclp_induct)
    case (step y z)
    then show ?case using serial_step_moves [OF step.hyps(2)] dispute_moves_trans by blast
  qed (use assms(2,3) dispute_moves_refl in blast)
  then obtain d' es where d': "d' \<in> set (dd_disputes db')" "dispute_moves d d'" "run_machine DisputeTransition (ds_Status d) es = Inr (ds_Status d')"
    by (auto simp: dispute_moves_def)
  then have "length es \<le> 2" using disputes.run_bounded by fastforce
  with d' show ?thesis by (auto simp: dispute_moves_def)
qed

section \<open>Overlapping calls\<close>

definition open_dispute :: dispute where
  "open_dispute = \<lparr>ds_ID = ''d1'', ds_MerchantID = ''m1'', ds_PaymentID = ''p1'', ds_SettlementID = '''', ds_Status = DspOpen, ds_Reason = ''general'',
     ds_Amount = 400, ds_Currency = ''INR'', ds_Evidence = [], ds_EvidenceSubmittedAt = None, ds_DueBy = None, ds_ResolvedAt = None, ds_Notes = '''', ds_CreatedAt = 1\<rparr>"

definition one_dispute :: dispute_db where
  "one_dispute = \<lparr>dd_disputes = [open_dispute], dd_merchants = [''m1''], dd_outbox = []\<rparr>"

lemmas dispute_eval = one_dispute_def open_dispute_def check_call_def write_call_def GetDispute_def dispute_at_def DisputeTransition_def dispute_terminal_def
  resolve_event_def UpdateStatus_def set_status_def dispute_outbox_def dispute_name_def Let_def

text \<open>
  Two resolutions that overlap both take effect. Each reads the open dispute and passes its check; the second
  write overwrites the first, so a won dispute becomes lost, and both outcomes are announced.
\<close>

theorem dispute_race_overwrites:
  "\<exists>w db1 l db2. check_call ''m1'' ''d1'' (CallResolve DspWon '''') one_dispute = Inr () \<and> check_call ''m1'' ''d1'' (CallResolve DspLost '''') one_dispute = Inr ()
     \<and> write_call (''e1'', ''e2'') 5 ''m1'' ''d1'' (CallResolve DspWon '''') one_dispute = Inr (w, db1) \<and> ds_Status w = DspWon
     \<and> write_call (''e3'', ''e4'') 6 ''m1'' ''d1'' (CallResolve DspLost '''') db1 = Inr (l, db2) \<and> ds_Status l = DspLost
     \<and> map (\<lambda>r. ev_EventType (ob_Event r)) (dd_outbox db2) = [''dispute.updated'', ''dispute.won'', ''dispute.updated'', ''dispute.lost'']"
  by (simp add: dispute_eval)

theorem dispute_follows_table_witness:
  "\<exists>w db1. ResolveDispute (''e1'', ''e2'') 5 ''m1'' ''d1'' DspWon '''' one_dispute = Inr (w, db1)
     \<and> (\<exists>d' \<in> set (dd_disputes db1). \<exists>es. length es \<le> 2 \<and> run_machine DisputeTransition DspOpen es = Inr (ds_Status d'))"
proof -
  obtain w db1 where r: "ResolveDispute (''e1'', ''e2'') 5 ''m1'' ''d1'' DspWon '''' one_dispute = Inr (w, db1)"
    by (simp add: ResolveDispute_def dispute_eval)
  have run: "serial_step\<^sup>*\<^sup>* one_dispute db1" by (rule r_into_rtranclp) (rule serial_step.resolve [OF r])
  have "unique_key ds_ID (dd_disputes one_dispute)" "open_dispute \<in> set (dd_disputes one_dispute)" "ds_Status open_dispute = DspOpen"
    by (simp_all add: one_dispute_def unique_key_def open_dispute_def)
  from dispute_follows_table [OF run this(1,2)] this(3) r show ?thesis by auto
qed

text \<open>Nothing adds up the disputes of a payment.\<close>

lemma disputes_exceed_payment:
  assumes "pay_at ''m1'' ''p1'' p" "db_payments pdb = [p]" "p_Amount p = 500" "p_Currency p = ''INR''"
  shows "\<exists>d db'. CreateDispute ''d2'' ''e1'' 2 ''m1'' ''p1'' '''' ''general'' 400 ''INR'' None pdb one_dispute = Inr (d, db')
     \<and> sum_list (map ds_Amount (dd_disputes db')) = 800"
  using assms by (simp add: CreateDispute_def ValidReasons_def GetPaymentReference_def CreateDisputeRepo_def dispute_eval)

end
