(* ===== verification/UPIVerify.thy ===== *)
theory UPIVerify
  imports Payout
begin

text \<open>
  Verification of UPI addresses (\<open>internal/upiverify\<close>): the syntax of an address, the recorded verifications and the
  service that asks the directory again when the last answer is too old. The directory is a parameter. The
  evidence stored beside an answer is left out.
\<close>

section \<open>Syntax\<close>

definition lower_or_digit :: "char \<Rightarrow> bool" where
  "lower_or_digit c \<longleftrightarrow> (let n = (of_char c :: nat) in 97 \<le> n \<and> n \<le> 122 \<or> 48 \<le> n \<and> n \<le> 57)"

definition lower_letter :: "char \<Rightarrow> bool" where
  "lower_letter c \<longleftrightarrow> (let n = (of_char c :: nat) in 97 \<le> n \<and> n \<le> 122)"

text \<open>\<open>^[a-z0-9][a-z0-9._-]{1,63}@[a-z][a-z0-9.-]{1,63}$\<close>: the name has no \<open>@\<close>, so the first one separates.\<close>

definition vpaPattern :: "string \<Rightarrow> bool" where
  "vpaPattern s =
     (let user = takeWhile (\<lambda>c. c \<noteq> CHR ''@'') s; rest = dropWhile (\<lambda>c. c \<noteq> CHR ''@'') s in
      case (user, rest) of
        (u # us, _ # h # hs) \<Rightarrow>
          lower_or_digit u \<and> 1 \<le> length us \<and> length us \<le> 63 \<and> list_all (\<lambda>c. lower_or_digit c \<or> c \<in> set ''._-'') us
          \<and> lower_letter h \<and> 1 \<le> length hs \<and> length hs \<le> 63 \<and> list_all (\<lambda>c. lower_or_digit c \<or> c \<in> set ''.-'') hs
      | _ \<Rightarrow> False)"

datatype vpa_error = ErrInvalidVPA | ErrVPAVerificationMiss | ErrVPAProvider string | ErrVPAConstraint

definition NormalizeVPA :: "string \<Rightarrow> vpa_error + string" where
  "NormalizeVPA vpa = (let n = ToLower (TrimSpace vpa) in if vpaPattern n then Inr n else Inl ErrInvalidVPA)"

section \<open>Verifications\<close>

datatype vpa_status = VPAVerified | VPARejected

record verification =
  vv_ID :: id
  vv_MerchantID :: id
  vv_VPA :: string
  vv_Purpose :: string
  vv_Version :: int
  vv_Status :: vpa_status
  vv_Provider :: string
  vv_ProviderReference :: string
  vv_VerifiedAt :: time
  vv_ExpiresAt :: time

text \<open>An answer of the directory; \<open>None\<close> is the zero time.\<close>

record vpa_answer =
  va_Status :: vpa_status
  va_Provider :: string
  va_ProviderReference :: string
  va_VerifiedAt :: "time option"
  va_ExpiresAt :: "time option"

definition same_vpa :: "id \<Rightarrow> string \<Rightarrow> string \<Rightarrow> verification \<Rightarrow> bool" where
  "same_vpa m vpa purpose v \<longleftrightarrow> vv_MerchantID v = m \<and> vv_VPA v = vpa \<and> vv_Purpose v = purpose"

definition GetLatestRow :: "id \<Rightarrow> string \<Rightarrow> string \<Rightarrow> verification list \<Rightarrow> vpa_error + verification" where
  "GetLatestRow m vpa purpose rows =
     (case sort_key (\<lambda>v. - vv_Version v) (filter (same_vpa m vpa purpose) rows) of [] \<Rightarrow> Inl ErrVPAVerificationMiss | v # _ \<Rightarrow> Inr v)"

definition RecordVerification :: "id \<Rightarrow> verification \<Rightarrow> verification list \<Rightarrow> vpa_error + verification \<times> verification list" where
  "RecordVerification newid v rows =
     (let mine = map vv_Version (filter (same_vpa (vv_MerchantID v) (vv_VPA v) (vv_Purpose v)) rows);
          v' = v\<lparr>vv_ID := newid, vv_Version := (if mine = [] then 1 else Max (set mine) + 1)\<rparr> in
      if newid \<in> vv_ID ` set rows \<or> vv_Purpose v \<notin> {''mandate'', ''payout_destination''} then Inl ErrVPAConstraint
      else Inr (v', rows @ [v']))"

definition GetLatest :: "id \<Rightarrow> string \<Rightarrow> string \<Rightarrow> verification list \<Rightarrow> vpa_error + verification" where
  "GetLatest m vpa purpose rows = bindR (NormalizeVPA vpa) (\<lambda>n. GetLatestRow m n purpose rows)"

text \<open>\<open>provider\<close> is the directory, or \<open>None\<close> when none is configured. A rejected answer is recorded and then refused.\<close>

definition EnsureFresh ::
  "(id \<Rightarrow> string \<Rightarrow> string \<Rightarrow> string + vpa_answer) option \<Rightarrow> id \<Rightarrow> time \<Rightarrow> id \<Rightarrow> string \<Rightarrow> string \<Rightarrow> time \<Rightarrow> verification list
     \<Rightarrow> (vpa_error + verification) \<times> verification list" where
  "EnsureFresh provider newid now m vpa purpose maxAge rows =
     (case NormalizeVPA vpa of
        Inl e \<Rightarrow> (Inl e, rows)
      | Inr n \<Rightarrow>
          let age = (if maxAge \<le> 0 then days 30 else maxAge); latest = GetLatestRow m n purpose rows in
          if (case latest of Inr v \<Rightarrow> vv_Status v = VPAVerified \<and> vv_ExpiresAt v > now \<and> vv_VerifiedAt v + age > now | Inl _ \<Rightarrow> False)
          then (latest, rows)
          else case provider of
            None \<Rightarrow> (Inl ErrVPAVerificationMiss, rows)
          | Some verify \<Rightarrow>
              (case verify m n purpose of
                 Inl e \<Rightarrow> (Inl (ErrVPAProvider e), rows)
               | Inr a \<Rightarrow>
                   let at = (case va_VerifiedAt a of None \<Rightarrow> now | Some t \<Rightarrow> t);
                       ends = (case va_ExpiresAt a of None \<Rightarrow> at + age | Some t \<Rightarrow> t) in
                   (case RecordVerification newid
                      \<lparr>vv_ID = '''', vv_MerchantID = m, vv_VPA = n, vv_Purpose = purpose, vv_Version = 0, vv_Status = va_Status a,
                       vv_Provider = (if va_Provider a = '''' then ''simulated'' else va_Provider a), vv_ProviderReference = va_ProviderReference a,
                       vv_VerifiedAt = at, vv_ExpiresAt = ends\<rparr> rows of
                      Inl e \<Rightarrow> (Inl e, rows)
                    | Inr (v, rows') \<Rightarrow> (if vv_Status v \<noteq> VPAVerified then Inl ErrInvalidVPA else Inr v, rows'))))"

text \<open>The simulated directory refuses addresses with one of three words in them.\<close>

fun contains :: "string \<Rightarrow> string \<Rightarrow> bool" where
  "contains [] w = (w = [])"
| "contains (c # s) w = (take (length w) (c # s) = w \<or> contains s w)"

definition SimulatorVerifyVPA :: "time \<Rightarrow> id \<Rightarrow> string \<Rightarrow> string \<Rightarrow> string + vpa_answer" where
  "SimulatorVerifyVPA now m vpa purpose =
     Inr \<lparr>va_Status = (if contains vpa ''invalid'' \<or> contains vpa ''blocked'' \<or> contains vpa ''reject'' then VPARejected else VPAVerified),
          va_Provider = ''simulated_upi_directory'', va_ProviderReference = ''upi_verify_'' @ m @ ''_'' @ purpose, va_VerifiedAt = Some now,
          va_ExpiresAt = Some (now + days 30)\<rparr>"

section \<open>Properties\<close>

lemma lower_nat [simp]: "(of_char (lower_char c) :: nat) = (let n = (of_char c :: nat) in if 65 \<le> n \<and> n \<le> 90 then n + 32 else n)"
  by (auto simp: lower_char_def Let_def of_char_of)

lemma lower_char_idem [simp]: "lower_char (lower_char c) = lower_char c"
  by (auto simp: lower_char_def of_char_of)

lemma ToLower_idem [simp]: "ToLower (ToLower s) = ToLower s"
  by (simp add: ToLower_def)

lemma lower_char_space [simp]: "is_space (lower_char c) = is_space c"
  by (auto simp: is_space_def Let_def)

lemma dropWhile_lower: "dropWhile is_space (map lower_char s) = map lower_char (dropWhile is_space s)"
  by (induction s) auto

lemma TrimSpace_lower: "TrimSpace (ToLower s) = ToLower (TrimSpace s)"
  by (simp add: TrimSpace_def ToLower_def dropWhile_lower rev_map)

lemma dropWhile_idem: "dropWhile P (dropWhile P s) = dropWhile P s"
  by (induction s) auto

lemma hd_rev_dropWhile:
  assumes "s = [] \<or> \<not> P (hd s)" shows "rev (dropWhile P (rev s)) = [] \<or> \<not> P (hd (rev (dropWhile P (rev s))))"
  using assms
proof (induction s rule: rev_induct)
  case (snoc x xs)
  then show ?case by (cases xs) auto
qed simp

lemma dropWhile_id: "s = [] \<or> \<not> P (hd s) \<Longrightarrow> dropWhile P s = s"
  by (cases s) auto

lemma TrimSpace_idem [simp]: "TrimSpace (TrimSpace s) = TrimSpace s"
proof -
  let ?t = "dropWhile is_space s"
  have "?t = [] \<or> \<not> is_space (hd ?t)" using hd_dropWhile [of is_space s] by blast
  then have "dropWhile is_space (TrimSpace s) = TrimSpace s"
    unfolding TrimSpace_def by (intro dropWhile_id hd_rev_dropWhile)
  then show ?thesis by (simp add: TrimSpace_def [of "TrimSpace s"]) (simp add: TrimSpace_def dropWhile_idem)
qed

text \<open>Normalizing twice is normalizing once, so that what is stored is found again.\<close>

lemma NormalizeVPA_idem: "NormalizeVPA vpa = Inr n \<Longrightarrow> NormalizeVPA n = Inr n"
  by (auto simp: NormalizeVPA_def Let_def TrimSpace_lower split: if_split_asm)

lemma GetLatestRow_Inr:
  "GetLatestRow m n purpose rows = Inr v \<Longrightarrow> v \<in> set rows \<and> same_vpa m n purpose v"
proof -
  assume "GetLatestRow m n purpose rows = Inr v"
  then obtain vs where "sort_key (\<lambda>v. - vv_Version v) (filter (same_vpa m n purpose) rows) = v # vs" by (auto simp: GetLatestRow_def split: list.split_asm)
  then have "v \<in> set (sort_key (\<lambda>v. - vv_Version v) (filter (same_vpa m n purpose) rows))" by simp
  then show ?thesis by simp
qed

text \<open>
  C39: What \<open>EnsureFresh\<close> returns is a verified record of that merchant, the normalized address and the purpose, and it
  is stored: either it was fresh already and nothing changed, or it is the one new record.
\<close>

theorem fresh_verification:
  assumes "EnsureFresh provider newid now m vpa purpose maxAge rows = (Inr v, rows')"
  shows "NormalizeVPA (vv_VPA v) = Inr (vv_VPA v) \<and> vv_MerchantID v = m \<and> vv_Purpose v = purpose \<and> vv_Status v = VPAVerified
    \<and> v \<in> set rows' \<and> (rows' = rows \<and> now < vv_ExpiresAt v \<or> rows' = rows @ [v] \<and> vv_ID v = newid)"
proof -
  obtain n where n: "NormalizeVPA vpa = Inr n" using assms by (auto simp: EnsureFresh_def split: sum.split_asm)
  show ?thesis
  proof (cases "\<exists>w. GetLatestRow m n purpose rows = Inr w \<and> vv_Status w = VPAVerified \<and> vv_ExpiresAt w > now
      \<and> vv_VerifiedAt w + (if maxAge \<le> 0 then days 30 else maxAge) > now")
    case True
    then have v: "GetLatestRow m n purpose rows = Inr v" "rows' = rows" "vv_Status v = VPAVerified" "now < vv_ExpiresAt v"
      using assms n by (auto simp: EnsureFresh_def Let_def)
    show ?thesis using GetLatestRow_Inr [OF v(1)] v NormalizeVPA_idem [OF n] by (auto simp: same_vpa_def)
  next
    case False
    then have stale: "\<not> (case GetLatestRow m n purpose rows of Inr v \<Rightarrow> vv_Status v = VPAVerified \<and> vv_ExpiresAt v > now
        \<and> vv_VerifiedAt v + (if maxAge \<le> 0 then days 30 else maxAge) > now | Inl _ \<Rightarrow> False)" by (auto split: sum.split)
    then obtain verify a where "provider = Some verify" "verify m n purpose = Inr a"
      using assms n by (auto simp: EnsureFresh_def Let_def split: option.split_asm sum.split_asm if_split_asm)
    with stale assms n have "\<exists>w. RecordVerification newid w rows = Inr (v, rows') \<and> vv_VPA w = n \<and> vv_MerchantID w = m \<and> vv_Purpose w = purpose"
      "vv_Status v = VPAVerified"
      by (auto simp: EnsureFresh_def Let_def split: sum.split_asm if_split_asm)
    then show ?thesis using NormalizeVPA_idem [OF n] by (auto simp: RecordVerification_def Let_def split: if_split_asm)
  qed
qed

lemma alice_ok: "NormalizeVPA '' Alice@okbank '' = Inr ''alice@okbank''"
  by (simp add: NormalizeVPA_def TrimSpace_def is_space_def ToLower_def lower_char_def char_of_def bit_0 vpaPattern_def lower_or_digit_def lower_letter_def)

theorem fresh_verification_witness:
  "\<exists>v rows'. EnsureFresh (Some (SimulatorVerifyVPA 5)) ''v1'' 5 ''m1'' '' Alice@okbank '' ''mandate'' 0 [] = (Inr v, rows')
     \<and> vv_VPA v = ''alice@okbank'' \<and> NormalizeVPA (vv_VPA v) = Inr (vv_VPA v)"
proof -
  obtain v rows' where r: "EnsureFresh (Some (SimulatorVerifyVPA 5)) ''v1'' 5 ''m1'' '' Alice@okbank '' ''mandate'' 0 [] = (Inr v, rows')" "vv_VPA v = ''alice@okbank''"
    by (simp add: EnsureFresh_def alice_ok GetLatestRow_def SimulatorVerifyVPA_def RecordVerification_def Let_def)
  from fresh_verification [OF r(1)] r show ?thesis by blast
qed

end
