(* ===== verification/Hosted.thy ===== *)
theory Hosted
  imports UPIVerify PaymentService
begin

text \<open>
  Payments whose customer acts elsewhere (\<open>internal/payment\<close>: \<open>upi_postgres.go\<close>, \<open>redirect_postgres.go\<close>, \<open>redirect.go\<close> and the
  UPI half of \<open>service.go\<close>): UPI intents, QR codes and mandate charges, net banking and wallet redirects. Their rows
  live beside the payment tables, in \<open>hosted_db\<close>; an operation works on both. The provider behind them is a
  parameter. The replay of an idempotency key is modelled as written (see \<open>Payment\<close>).
\<close>

section \<open>Tables\<close>

datatype provider_status = ProviderPending | ProviderSucceeded | ProviderFailed | ProviderExpired | ProviderAbandoned

record upi_detail =
  ud_PaymentID :: id
  ud_MerchantID :: id
  ud_OrderID :: id
  ud_FlowType :: string
  ud_MandateID :: id
  ud_QRMode :: string
  ud_QRPayload :: string
  ud_QRImageURL :: string
  ud_DisplayName :: string
  ud_IsReusable :: bool
  ud_VPA :: string
  ud_DeepLink :: string
  ud_IntentURI :: string
  ud_GatewayReference :: string
  ud_ProviderStatus :: provider_status
  ud_CallbackToken :: string
  ud_ExpiresAt :: time
  ud_LastPolledAt :: "time option"
  ud_CompletedAt :: "time option"
  ud_FailureCode :: string
  ud_FailureDescription :: string

record redirect_detail =
  xd_PaymentID :: id
  xd_MerchantID :: id
  xd_OrderID :: id
  xd_Method :: string
  xd_BankCode :: string
  xd_BankName :: string
  xd_WalletCode :: string
  xd_WalletName :: string
  xd_RedirectURL :: string
  xd_GatewayReference :: string
  xd_ProviderStatus :: provider_status
  xd_CallbackToken :: string
  xd_ExpiresAt :: time
  xd_LastPolledAt :: "time option"
  xd_CompletedAt :: "time option"
  xd_FailureCode :: string
  xd_FailureDescription :: string

text \<open>\<open>hd_mandates\<close> are the keys of \<open>upi_mandates\<close>, which a UPI row may refer to.\<close>

record hosted_db =
  hd_upi :: "upi_detail list"
  hd_upi_events :: "(id \<times> id) list"
  hd_redirects :: "redirect_detail list"
  hd_redirect_events :: "(id \<times> id) list"
  hd_mandates :: "id list"

type_synonym 'a hosted_state = "'a payment_db_scheme \<times> hosted_db"

datatype hosted_error =
  ErrUPIIntentNotFound | ErrUPICallbackRejected | ErrInvalidUPIVPA | ErrHostedNotConfigured | ErrHosted payment_error
  | ErrHostedGateway string | ErrHostedCleanup hosted_error hosted_error

section \<open>What both flows share\<close>

text \<open>The checks of the locked order row.\<close>

definition session_admits :: "int \<Rightarrow> string \<Rightarrow> time \<Rightarrow> order \<Rightarrow> payment_error + unit" where
  "session_admits amount currency now ord =
     (if o_Status ord = OrderExpired \<or> now > o_ExpiresAt ord then Inl ErrOrderIsExpired
      else if currency \<noteq> o_Currency ord then Inl ErrCurrencyMismatch
      else if o_PartialPayment ord then (if amount \<le> 0 \<or> amount > o_AmountDue ord then Inl ErrAmountMismatch else Inr ())
      else if amount \<noteq> o_Amount ord then Inl ErrAmountMismatch else Inr ())"

text \<open>
  The attempt and the payment of a new session. \<open>None\<close>: the attempt conflicts and the key is not empty, so the
  earlier session is returned. Unlike a card attempt an empty key is stored as it is, not as NULL.
\<close>

definition open_session ::
  "id \<Rightarrow> time \<Rightarrow> string \<Rightarrow> create_authorized_input \<Rightarrow> 'a payment_db_scheme \<Rightarrow> payment_error + 'a payment_db_scheme option" where
  "open_session attemptID now mstate inp db =
     (if ca_Amount inp \<le> 0 then Inl ErrAmountMismatch
      else case find (order_at (ca_MerchantID inp) (ca_OrderID inp)) (db_orders db) of
        None \<Rightarrow> Inl ErrPayOrderNotFound
      | Some ord \<Rightarrow>
          bindR (session_admits (ca_Amount inp) (ca_Currency inp) now ord) (\<lambda>_.
          let att = new_attempt attemptID now inp (ca_PaymentID inp) AttProcessing '''' '''' (Some (ca_IdempotencyKey inp)) in
          if attempt_conflict att (db_attempts db) \<and> ca_IdempotencyKey inp \<noteq> '''' then Inr None
          else
          bindR (insert_attempt att db) (\<lambda>db1.
          bindR (insert_payment ((new_payment (ca_PaymentID inp) attemptID now inp)\<lparr>p_Status := PendingCustomerAction, p_MethodState := mstate\<rparr>) db1) (\<lambda>db2.
            Inr (Some db2)))))"

definition session_started :: "id \<Rightarrow> time \<Rightarrow> create_authorized_input \<Rightarrow> 'a payment_db_scheme \<Rightarrow> 'a payment_db_scheme" where
  "session_started evtID now inp db =
     emit evtID now (pay_event ''payment'' (ca_PaymentID inp) ''payment.pending_customer_action'' (ca_MerchantID inp)
         [(''payment_id'', PStr (ca_PaymentID inp)), (''order_id'', PStr (ca_OrderID inp)), (''method'', PStr (ca_Method inp))])
       (set_order (ca_MerchantID inp) (ca_OrderID inp) (attempt_order now) db)"

definition keyed_payment :: "id \<Rightarrow> id \<Rightarrow> string \<Rightarrow> 'a payment_db_scheme \<Rightarrow> id option" where
  "keyed_payment m orderID key db =
     (case sort_key (\<lambda>a. - a_CreatedAt a)
        (filter (\<lambda>a. a_MerchantID a = m \<and> a_OrderID a = orderID \<and> a_IdempotencyKey a = Some key \<and> a_PaymentID a \<noteq> '''') (db_attempts db)) of
        [] \<Rightarrow> None | a # _ \<Rightarrow> Some (a_PaymentID a))"

definition payment_by_id :: "id \<Rightarrow> 'a payment_db_scheme \<Rightarrow> payment option" where
  "payment_by_id i db = find (\<lambda>p. p_ID p = i) (db_payments db)"

text \<open>The receipt of a callback event: \<open>ON CONFLICT DO NOTHING\<close> on the event identifier. \<open>None\<close> when it was there.\<close>

definition insert_event :: "id \<Rightarrow> id \<Rightarrow> (id \<times> id) list \<Rightarrow> (id \<times> id) list option" where
  "insert_event paymentID eventID rows =
     (if eventID = '''' then Some rows else if eventID \<in> fst ` set rows then None else Some (rows @ [(eventID, paymentID)]))"

definition session_entries :: "int \<Rightarrow> string \<Rightarrow> string \<Rightarrow> entry list" where
  "session_entries amount receivable payable =
     (let fee = capture_fee amount in
      [ledger_line ''CUSTOMER_RECEIVABLE'' amount 0 receivable, ledger_line ''MERCHANT_PAYABLE'' 0 (i64 (amount - fee)) payable,
       ledger_line ''PLATFORM_FEE_REVENUE'' 0 fee ''platform fee revenue''])"

definition nonempty_or :: "string \<Rightarrow> string \<Rightarrow> string" where
  "nonempty_or v old = (if v = '''' then old else v)"

text \<open>The capture: posting, payment, order, two events.\<close>

definition collect_session ::
  "id \<times> id \<times> id \<Rightarrow> time \<Rightarrow> string \<times> string \<times> string \<Rightarrow> string \<Rightarrow> string \<Rightarrow> payment \<Rightarrow> 'a payment_db_scheme \<Rightarrow> payment_error + 'a payment_db_scheme" where
  "collect_session ids now texts mstate gref p db =
     (case ids of (txnID, evtID1, evtID2) \<Rightarrow> case texts of (receivable, payable, description) \<Rightarrow>
      let fee = capture_fee (p_Amount p) in
      bindR (mapL PayLedger (CreateEntriesTx txnID (p_MerchantID p) ''payment'' (p_ID p) description
               (session_entries (p_Amount p) receivable payable) (db_ledger db))) (\<lambda>ledger.
        Inr (emit evtID2 now (pay_event ''order'' (p_OrderID p) ''order.paid'' (p_MerchantID p)
                 [(''order_id'', PStr (p_OrderID p)), (''payment_id'', PStr (p_ID p))])
              (emit evtID1 now (pay_event ''payment'' (p_ID p) ''payment.captured'' (p_MerchantID p)
                   [(''payment_id'', PStr (p_ID p)), (''order_id'', PStr (p_OrderID p)), (''method'', PStr (p_Method p))])
                (set_order (p_MerchantID p) (p_OrderID p) (pay_order now)
                  (set_payment (p_ID p)
                     (\<lambda>q. q\<lparr>p_Status := Captured, p_MethodState := mstate, p_Captured := True, p_CapturedAt := Some now,
                             p_GatewayReference := nonempty_or gref (p_GatewayReference q), p_Fee := fee\<rparr>)
                     (db\<lparr>db_ledger := ledger\<rparr>)))))))"

text \<open>\<open>method_state_reason\<close> is NOT NULL and written as \<open>NULLIF(description, '')\<close>: an empty description fails the transaction.\<close>

definition set_attempts_of :: "id \<Rightarrow> (attempt \<Rightarrow> attempt) \<Rightarrow> 'a payment_db_scheme \<Rightarrow> 'a payment_db_scheme" where
  "set_attempts_of paymentID f db = db\<lparr>db_attempts := upd_where (\<lambda>a. a_PaymentID a = paymentID) f (db_attempts db)\<rparr>"

definition fail_session ::
  "id \<Rightarrow> time \<Rightarrow> string \<Rightarrow> string \<Rightarrow> string \<Rightarrow> payment \<Rightarrow> 'a payment_db_scheme \<Rightarrow> payment_error + 'a payment_db_scheme" where
  "fail_session evtID now mstate errorCode errorDescription p db =
     (if errorDescription = '''' then Inl ErrCheckViolation
      else Inr (emit evtID now (pay_event ''payment'' (p_ID p) ''payment.failed'' (p_MerchantID p)
               [(''payment_id'', PStr (p_ID p)), (''order_id'', PStr (p_OrderID p)), (''method'', PStr (p_Method p)), (''error_code'', PStr errorCode)])
             (set_order (p_MerchantID p) (p_OrderID p) (fail_order now)
               (set_attempts_of (p_ID p) (\<lambda>a. a\<lparr>a_Status := AttFailed, a_ErrorCode := errorCode, a_ErrorDescription := errorDescription\<rparr>)
                 (set_payment (p_ID p)
                    (\<lambda>q. q\<lparr>p_Status := Failed, p_MethodState := mstate, p_MethodStateReason := errorDescription, p_ErrorCode := errorCode,
                            p_ErrorDescription := errorDescription\<rparr>) db)))))"

definition process_session :: "string \<Rightarrow> payment \<Rightarrow> 'a payment_db_scheme \<Rightarrow> 'a payment_db_scheme" where
  "process_session mstate p db =
     (if p_Status p = PendingCustomerAction
      then set_payment (p_ID p) (\<lambda>q. q\<lparr>p_Status := Processing, p_MethodState := mstate\<rparr>) db else db)"

definition session_over :: "payment \<Rightarrow> bool" where
  "session_over p \<longleftrightarrow> p_Status p = Captured \<or> p_Status p = Failed"

section \<open>UPI\<close>

record upi_input =
  ui_PaymentID :: id
  ui_MerchantID :: id
  ui_OrderID :: id
  ui_Amount :: int
  ui_Currency :: string
  ui_IdempotencyKey :: string
  ui_FlowType :: string
  ui_MandateID :: id
  ui_QRMode :: string
  ui_QRPayload :: string
  ui_QRImageURL :: string
  ui_DisplayName :: string
  ui_IsReusable :: bool
  ui_VPA :: string
  ui_ExpiresAt :: time
  ui_CallbackToken :: string

text \<open>\<open>UPIIntentResult\<close>: the payment columns with the columns of the UPI row.\<close>

type_synonym upi_result = "capture_result \<times> upi_detail"

definition upi_view :: "payment \<Rightarrow> upi_detail \<Rightarrow> upi_result" where
  "upi_view p d = ((current_of p)\<lparr>cr_Status := Some (p_Status p), cr_CapturedAt := p_CapturedAt p\<rparr>, d)"

definition upi_row :: "id \<Rightarrow> hosted_db \<Rightarrow> upi_detail option" where
  "upi_row i h = find (\<lambda>d. ud_PaymentID d = i) (hd_upi h)"

definition set_upi :: "id \<Rightarrow> (upi_detail \<Rightarrow> upi_detail) \<Rightarrow> hosted_db \<Rightarrow> hosted_db" where
  "set_upi i f h = h\<lparr>hd_upi := upd_where (\<lambda>d. ud_PaymentID d = i) f (hd_upi h)\<rparr>"

definition GetUPIIntent :: "id \<Rightarrow> id \<Rightarrow> 'a hosted_state \<Rightarrow> hosted_error + upi_result" where
  "GetUPIIntent m i s =
     (case s of (db, h) \<Rightarrow> case (find (pay_at m i) (db_payments db), upi_row i h) of
        (Some p, Some d) \<Rightarrow> Inr (upi_view p d) | _ \<Rightarrow> Inl ErrUPIIntentNotFound)"

definition getUPIIntentByIdempotencyKey :: "id \<Rightarrow> id \<Rightarrow> string \<Rightarrow> 'a hosted_state \<Rightarrow> hosted_error + upi_result" where
  "getUPIIntentByIdempotencyKey m orderID key s =
     (case keyed_payment m orderID key (fst s) of None \<Rightarrow> Inl ErrUPIIntentNotFound | Some i \<Rightarrow> GetUPIIntent m i s)"

definition upi_payment_input :: "upi_input \<Rightarrow> create_authorized_input" where
  "upi_payment_input inp =
     \<lparr>ca_PaymentID = ui_PaymentID inp, ca_MerchantID = ui_MerchantID inp, ca_OrderID = ui_OrderID inp, ca_Amount = ui_Amount inp,
      ca_Currency = ui_Currency inp, ca_Method = ''upi'', ca_Provider = '''', ca_RoutingReason = '''', ca_AttemptedProviders = [],
      ca_IdempotencyKey = ui_IdempotencyKey inp, ca_Splits = []\<rparr>"

definition new_upi_detail :: "upi_input \<Rightarrow> upi_detail" where
  "new_upi_detail inp =
     \<lparr>ud_PaymentID = ui_PaymentID inp, ud_MerchantID = ui_MerchantID inp, ud_OrderID = ui_OrderID inp, ud_FlowType = ui_FlowType inp,
      ud_MandateID = ui_MandateID inp, ud_QRMode = ui_QRMode inp, ud_QRPayload = ui_QRPayload inp, ud_QRImageURL = ui_QRImageURL inp,
      ud_DisplayName = ui_DisplayName inp, ud_IsReusable = ui_IsReusable inp, ud_VPA = ui_VPA inp, ud_DeepLink = '''', ud_IntentURI = '''',
      ud_GatewayReference = '''', ud_ProviderStatus = ProviderPending, ud_CallbackToken = ui_CallbackToken inp, ud_ExpiresAt = ui_ExpiresAt inp,
      ud_LastPolledAt = None, ud_CompletedAt = None, ud_FailureCode = '''', ud_FailureDescription = ''''\<rparr>"

text \<open>The key, the checks and the reference of \<open>upi_payment_details\<close>.\<close>

definition insert_upi :: "upi_detail \<Rightarrow> hosted_db \<Rightarrow> payment_error + hosted_db" where
  "insert_upi d h =
     (if ud_FlowType d \<notin> {''intent'', ''qr'', ''mandate''} \<or> ud_QRMode d \<notin> {'''', ''static'', ''dynamic''} then Inl ErrCheckViolation
      else if ud_PaymentID d \<in> ud_PaymentID ` set (hd_upi h) then Inl ErrUniqueViolation
      else if ud_MandateID d \<noteq> '''' \<and> ud_MandateID d \<notin> set (hd_mandates h) then Inl ErrForeignKeyViolation
      else Inr (h\<lparr>hd_upi := hd_upi h @ [d]\<rparr>))"

definition CreateUPIIntent :: "id \<Rightarrow> id \<Rightarrow> time \<Rightarrow> upi_input \<Rightarrow> 'a hosted_state \<Rightarrow> hosted_error + upi_result \<times> 'a hosted_state" where
  "CreateUPIIntent attemptID evtID now inp s =
     (case s of (db, h) \<Rightarrow>
      let pin = upi_payment_input inp in
      bindR (mapL ErrHosted (open_session attemptID now ''upi_pending_customer_action'' pin db)) (\<lambda>opened.
      case opened of
        None \<Rightarrow> bindR (getUPIIntentByIdempotencyKey (ui_MerchantID inp) (ui_OrderID inp) (ui_IdempotencyKey inp) s) (\<lambda>r. Inr (r, s))
      | Some db1 \<Rightarrow>
          bindR (mapL ErrHosted (insert_upi (new_upi_detail inp) h)) (\<lambda>h1.
            Inr (((current_of (new_payment (ui_PaymentID inp) attemptID now pin))\<lparr>cr_MethodState := ''upi_pending_customer_action'',
                    cr_Status := Some PendingCustomerAction\<rparr>, (new_upi_detail inp)\<lparr>ud_CallbackToken := ''''\<rparr>),
                 session_started evtID now pin db1, h1))))"

record upi_gateway_result =
  ug_GatewayReference :: string
  ug_DeepLink :: string
  ug_IntentURI :: string
  ug_QRPayload :: string
  ug_QRImageURL :: string
  ug_ExpiresAt :: time

definition AttachUPIIntentGatewayData ::
  "id \<Rightarrow> id \<Rightarrow> upi_gateway_result \<Rightarrow> 'a hosted_state \<Rightarrow> hosted_error + upi_result \<times> 'a hosted_state" where
  "AttachUPIIntentGatewayData m i g s =
     (case s of (db, h) \<Rightarrow>
      let h' = h\<lparr>hd_upi := upd_where (\<lambda>d. ud_PaymentID d = i \<and> ud_MerchantID d = m)
                 (\<lambda>d. d\<lparr>ud_DeepLink := ug_DeepLink g, ud_IntentURI := ug_IntentURI g, ud_GatewayReference := ug_GatewayReference g,
                         ud_QRPayload := nonempty_or (ug_QRPayload g) (ud_QRPayload d), ud_QRImageURL := nonempty_or (ug_QRImageURL g) (ud_QRImageURL d),
                         ud_ExpiresAt := ug_ExpiresAt g\<rparr>) (hd_upi h)\<rparr>;
          db' = db\<lparr>db_payments := upd_where (pay_at m i)
                  (\<lambda>p. p\<lparr>p_GatewayReference := ug_GatewayReference g, p_MethodState := ''upi_pending_customer_action''\<rparr>) (db_payments db)\<rparr> in
      bindR (GetUPIIntent m i (db', h')) (\<lambda>r. Inr (r, (db', h'))))"

definition PollUPIIntentRepo :: "id \<Rightarrow> id \<Rightarrow> time \<Rightarrow> hosted_db \<Rightarrow> hosted_error + hosted_db" where
  "PollUPIIntentRepo m i at h =
     (let q = (\<lambda>d. ud_PaymentID d = i \<and> ud_MerchantID d = m) in
      if list_ex q (hd_upi h) then Inr (h\<lparr>hd_upi := upd_where q (\<lambda>d. d\<lparr>ud_LastPolledAt := Some at\<rparr>) (hd_upi h)\<rparr>) else Inl ErrUPIIntentNotFound)"

text \<open>
  The rows of the payment, whether the event was new, and the receipts with it. The merchant is not asked for.
\<close>

definition lockUPIIntentTx :: "id \<Rightarrow> id \<Rightarrow> 'a hosted_state \<Rightarrow> hosted_error + (payment \<times> upi_detail) \<times> bool \<times> hosted_db" where
  "lockUPIIntentTx i eventID s =
     (case s of (db, h) \<Rightarrow> case (payment_by_id i db, upi_row i h) of
        (Some p, Some d) \<Rightarrow>
          (case insert_event i eventID (hd_upi_events h) of
             None \<Rightarrow> Inr ((p, d), False, h) | Some evs \<Rightarrow> Inr ((p, d), True, h\<lparr>hd_upi_events := evs\<rparr>))
      | _ \<Rightarrow> Inl ErrUPIIntentNotFound)"

text \<open>What the three outcomes have in common: lock, leave early, change the rows, read them again.\<close>

definition with_upi ::
  "id \<Rightarrow> id \<Rightarrow> (payment \<Rightarrow> 'a payment_db_scheme \<Rightarrow> payment_error + 'a payment_db_scheme) \<Rightarrow> (upi_detail \<Rightarrow> upi_detail) \<Rightarrow> 'a hosted_state
     \<Rightarrow> hosted_error + (upi_result \<times> bool) \<times> 'a hosted_state" where
  "with_upi i eventID act f s =
     bindR (lockUPIIntentTx i eventID s) (\<lambda>((p, d), processed, h).
       if \<not> processed \<or> session_over p then Inr ((upi_view p d, False), (fst s, h))
       else bindR (mapL ErrHosted (act p (fst s))) (\<lambda>db'.
         let s' = (db', set_upi i f h) in
         bindR (GetUPIIntent (p_MerchantID p) i s') (\<lambda>r. Inr ((r, True), s'))))"

definition MarkUPIIntentProcessing :: "id \<Rightarrow> id \<Rightarrow> 'a hosted_state \<Rightarrow> hosted_error + (upi_result \<times> bool) \<times> 'a hosted_state" where
  "MarkUPIIntentProcessing i eventID =
     with_upi i eventID (\<lambda>p db. Inr (process_session ''upi_processing'' p db)) (\<lambda>d. d\<lparr>ud_ProviderStatus := ProviderPending\<rparr>)"

definition CompleteUPIIntent ::
  "id \<times> id \<times> id \<Rightarrow> time \<Rightarrow> id \<Rightarrow> id \<Rightarrow> string \<Rightarrow> 'a hosted_state \<Rightarrow> hosted_error + (upi_result \<times> bool) \<times> 'a hosted_state" where
  "CompleteUPIIntent ids now i eventID gref =
     with_upi i eventID
       (collect_session ids now (''upi intent capture receivable'', ''merchant payable on upi capture'', ''upi payment capture'') ''upi_collected'' gref)
       (\<lambda>d. d\<lparr>ud_ProviderStatus := ProviderSucceeded, ud_CompletedAt := Some now, ud_GatewayReference := nonempty_or gref (ud_GatewayReference d)\<rparr>)"

definition FailUPIIntent ::
  "id \<Rightarrow> time \<Rightarrow> id \<Rightarrow> id \<Rightarrow> provider_status \<Rightarrow> string \<Rightarrow> string \<Rightarrow> 'a hosted_state \<Rightarrow> hosted_error + (upi_result \<times> bool) \<times> 'a hosted_state" where
  "FailUPIIntent evtID now i eventID status errorCode errorDescription =
     with_upi i eventID (fail_session evtID now (methodStateForFailure ''upi'') errorCode errorDescription)
       (\<lambda>d. d\<lparr>ud_ProviderStatus := status, ud_CompletedAt := Some now, ud_FailureCode := errorCode, ud_FailureDescription := errorDescription\<rparr>)"

text \<open>The failure is committed before the row is read for the merchant.\<close>

definition AbandonUPIIntent ::
  "id \<Rightarrow> time \<Rightarrow> id \<Rightarrow> id \<Rightarrow> string \<Rightarrow> 'a hosted_state \<Rightarrow> (hosted_error + upi_result) \<times> 'a hosted_state" where
  "AbandonUPIIntent evtID now m i reason s =
     (case FailUPIIntent evtID now i '''' ProviderAbandoned ''CUSTOMER_ABANDONED'' reason s of
        Inl e \<Rightarrow> (Inl e, s) | Inr (_, s') \<Rightarrow> (GetUPIIntent m i s', s'))"

definition ExpireUPIIntent :: "id \<Rightarrow> time \<Rightarrow> id \<Rightarrow> id \<Rightarrow> 'a hosted_state \<Rightarrow> (hosted_error + upi_result) \<times> 'a hosted_state" where
  "ExpireUPIIntent evtID now m i s =
     (case FailUPIIntent evtID now i '''' ProviderExpired ''UPI_INTENT_EXPIRED'' ''upi intent expired before completion'' s of
        Inl e \<Rightarrow> (Inl e, s) | Inr (_, s') \<Rightarrow> (GetUPIIntent m i s', s'))"

definition ResolveUPIIntentMerchant :: "id \<Rightarrow> string \<Rightarrow> hosted_db \<Rightarrow> hosted_error + id" where
  "ResolveUPIIntentMerchant i token h =
     (if i = '''' \<or> token = '''' then Inl ErrUPICallbackRejected
      else case find (\<lambda>d. ud_PaymentID d = i \<and> ud_CallbackToken d = token) (hd_upi h) of
        None \<Rightarrow> Inl ErrUPICallbackRejected | Some d \<Rightarrow> Inr (ud_MerchantID d))"

section \<open>Redirects\<close>

record redirect_input =
  xi_PaymentID :: id
  xi_MerchantID :: id
  xi_OrderID :: id
  xi_Amount :: int
  xi_Currency :: string
  xi_Method :: string
  xi_IdempotencyKey :: string
  xi_BankCode :: string
  xi_BankName :: string
  xi_WalletCode :: string
  xi_WalletName :: string
  xi_ExpiresAt :: time
  xi_CallbackToken :: string
  xi_Provider :: string
  xi_RoutingReason :: string
  xi_Attempted :: "string list"

type_synonym redirect_result = "capture_result \<times> redirect_detail"

definition redirect_view :: "payment \<Rightarrow> redirect_detail \<Rightarrow> redirect_result" where
  "redirect_view p d = ((current_of p)\<lparr>cr_Provider := p_Provider p, cr_RoutingReason := p_RoutingReason p, cr_AttemptedProviders := p_AttemptedProviders p,
     cr_Status := Some (p_Status p), cr_CapturedAt := p_CapturedAt p\<rparr>, d)"

definition redirect_row :: "id \<Rightarrow> hosted_db \<Rightarrow> redirect_detail option" where
  "redirect_row i h = find (\<lambda>d. xd_PaymentID d = i) (hd_redirects h)"

definition set_redirect :: "id \<Rightarrow> (redirect_detail \<Rightarrow> redirect_detail) \<Rightarrow> hosted_db \<Rightarrow> hosted_db" where
  "set_redirect i f h = h\<lparr>hd_redirects := upd_where (\<lambda>d. xd_PaymentID d = i) f (hd_redirects h)\<rparr>"

definition GetRedirectSession :: "id \<Rightarrow> id \<Rightarrow> 'a hosted_state \<Rightarrow> hosted_error + redirect_result" where
  "GetRedirectSession m i s =
     (case s of (db, h) \<Rightarrow> case (find (pay_at m i) (db_payments db), redirect_row i h) of
        (Some p, Some d) \<Rightarrow> Inr (redirect_view p d) | _ \<Rightarrow> Inl (ErrHosted ErrPaymentNotFound))"

definition getRedirectSessionByIdempotencyKey :: "id \<Rightarrow> id \<Rightarrow> string \<Rightarrow> 'a hosted_state \<Rightarrow> hosted_error + redirect_result" where
  "getRedirectSessionByIdempotencyKey m orderID key s =
     (case keyed_payment m orderID key (fst s) of None \<Rightarrow> Inl (ErrHosted ErrPaymentNotFound) | Some i \<Rightarrow> GetRedirectSession m i s)"

definition redirect_payment_input :: "redirect_input \<Rightarrow> create_authorized_input" where
  "redirect_payment_input inp =
     \<lparr>ca_PaymentID = xi_PaymentID inp, ca_MerchantID = xi_MerchantID inp, ca_OrderID = xi_OrderID inp, ca_Amount = xi_Amount inp,
      ca_Currency = xi_Currency inp, ca_Method = xi_Method inp, ca_Provider = xi_Provider inp, ca_RoutingReason = xi_RoutingReason inp,
      ca_AttemptedProviders = xi_Attempted inp, ca_IdempotencyKey = xi_IdempotencyKey inp, ca_Splits = []\<rparr>"

definition new_redirect_detail :: "redirect_input \<Rightarrow> redirect_detail" where
  "new_redirect_detail inp =
     \<lparr>xd_PaymentID = xi_PaymentID inp, xd_MerchantID = xi_MerchantID inp, xd_OrderID = xi_OrderID inp, xd_Method = xi_Method inp,
      xd_BankCode = xi_BankCode inp, xd_BankName = xi_BankName inp, xd_WalletCode = xi_WalletCode inp, xd_WalletName = xi_WalletName inp,
      xd_RedirectURL = '''', xd_GatewayReference = '''', xd_ProviderStatus = ProviderPending, xd_CallbackToken = xi_CallbackToken inp,
      xd_ExpiresAt = xi_ExpiresAt inp, xd_LastPolledAt = None, xd_CompletedAt = None, xd_FailureCode = '''', xd_FailureDescription = ''''\<rparr>"

definition insert_redirect :: "redirect_detail \<Rightarrow> hosted_db \<Rightarrow> payment_error + hosted_db" where
  "insert_redirect d h =
     (if xd_Method d \<notin> {''netbanking'', ''wallet''} then Inl ErrCheckViolation
      else if xd_PaymentID d \<in> xd_PaymentID ` set (hd_redirects h) then Inl ErrUniqueViolation
      else Inr (h\<lparr>hd_redirects := hd_redirects h @ [d]\<rparr>))"

definition CreateRedirectSessionRepo ::
  "id \<Rightarrow> id \<Rightarrow> time \<Rightarrow> redirect_input \<Rightarrow> 'a hosted_state \<Rightarrow> hosted_error + redirect_result \<times> 'a hosted_state" where
  "CreateRedirectSessionRepo attemptID evtID now inp s =
     (case s of (db, h) \<Rightarrow>
      let pin = redirect_payment_input inp; mstate = initialMethodState (xi_Method inp) in
      bindR (mapL ErrHosted (open_session attemptID now mstate pin db)) (\<lambda>opened.
      case opened of
        None \<Rightarrow> bindR (getRedirectSessionByIdempotencyKey (xi_MerchantID inp) (xi_OrderID inp) (xi_IdempotencyKey inp) s) (\<lambda>r. Inr (r, s))
      | Some db1 \<Rightarrow>
          bindR (mapL ErrHosted (insert_redirect (new_redirect_detail inp) h)) (\<lambda>h1.
            Inr (((current_of (new_payment (xi_PaymentID inp) attemptID now pin))\<lparr>cr_Provider := xi_Provider inp, cr_RoutingReason := xi_RoutingReason inp,
                    cr_AttemptedProviders := xi_Attempted inp, cr_MethodState := mstate, cr_Status := Some PendingCustomerAction\<rparr>, new_redirect_detail inp),
                 session_started evtID now pin db1, h1))))"

record redirect_gateway_result =
  xg_GatewayReference :: string
  xg_RedirectURL :: string
  xg_BankCode :: string
  xg_BankName :: string
  xg_WalletCode :: string
  xg_WalletName :: string
  xg_ExpiresAt :: time

definition AttachRedirectGatewayData ::
  "id \<Rightarrow> id \<Rightarrow> redirect_gateway_result \<Rightarrow> 'a hosted_state \<Rightarrow> hosted_error + redirect_result \<times> 'a hosted_state" where
  "AttachRedirectGatewayData m i g s =
     (case s of (db, h) \<Rightarrow>
      let h' = h\<lparr>hd_redirects := upd_where (\<lambda>d. xd_PaymentID d = i \<and> xd_MerchantID d = m)
                 (\<lambda>d. d\<lparr>xd_RedirectURL := xg_RedirectURL g, xd_GatewayReference := xg_GatewayReference g,
                         xd_BankCode := nonempty_or (xg_BankCode g) (xd_BankCode d), xd_BankName := nonempty_or (xg_BankName g) (xd_BankName d),
                         xd_WalletCode := nonempty_or (xg_WalletCode g) (xd_WalletCode d), xd_WalletName := nonempty_or (xg_WalletName g) (xd_WalletName d),
                         xd_ExpiresAt := xg_ExpiresAt g\<rparr>) (hd_redirects h)\<rparr>;
          db' = db\<lparr>db_payments := upd_where (pay_at m i) (\<lambda>p. p\<lparr>p_GatewayReference := xg_GatewayReference g\<rparr>) (db_payments db)\<rparr> in
      bindR (GetRedirectSession m i (db', h')) (\<lambda>r. Inr (r, (db', h'))))"

definition PollRedirectSessionRepo :: "id \<Rightarrow> id \<Rightarrow> time \<Rightarrow> hosted_db \<Rightarrow> hosted_error + hosted_db" where
  "PollRedirectSessionRepo m i at h =
     (let q = (\<lambda>d. xd_PaymentID d = i \<and> xd_MerchantID d = m) in
      if list_ex q (hd_redirects h) then Inr (h\<lparr>hd_redirects := upd_where q (\<lambda>d. d\<lparr>xd_LastPolledAt := Some at\<rparr>) (hd_redirects h)\<rparr>)
      else Inl (ErrHosted ErrPaymentNotFound))"

definition lockRedirectSessionTx :: "id \<Rightarrow> id \<Rightarrow> 'a hosted_state \<Rightarrow> hosted_error + (payment \<times> redirect_detail) \<times> bool \<times> hosted_db" where
  "lockRedirectSessionTx i eventID s =
     (case s of (db, h) \<Rightarrow> case (payment_by_id i db, redirect_row i h) of
        (Some p, Some d) \<Rightarrow>
          (case insert_event i eventID (hd_redirect_events h) of
             None \<Rightarrow> Inr ((p, d), False, h) | Some evs \<Rightarrow> Inr ((p, d), True, h\<lparr>hd_redirect_events := evs\<rparr>))
      | _ \<Rightarrow> Inl (ErrHosted ErrPaymentNotFound))"

definition with_redirect ::
  "id \<Rightarrow> id \<Rightarrow> (payment \<Rightarrow> 'a payment_db_scheme \<Rightarrow> payment_error + 'a payment_db_scheme) \<Rightarrow> (redirect_detail \<Rightarrow> redirect_detail) \<Rightarrow> 'a hosted_state
     \<Rightarrow> hosted_error + (redirect_result \<times> bool) \<times> 'a hosted_state" where
  "with_redirect i eventID act f s =
     bindR (lockRedirectSessionTx i eventID s) (\<lambda>((p, d), processed, h).
       if \<not> processed \<or> session_over p then Inr ((redirect_view p d, False), (fst s, h))
       else bindR (mapL ErrHosted (act p (fst s))) (\<lambda>db'.
         let s' = (db', set_redirect i f h) in
         bindR (GetRedirectSession (p_MerchantID p) i s') (\<lambda>r. Inr ((r, True), s'))))"

definition MarkRedirectProcessing :: "id \<Rightarrow> id \<Rightarrow> 'a hosted_state \<Rightarrow> hosted_error + (redirect_result \<times> bool) \<times> 'a hosted_state" where
  "MarkRedirectProcessing i eventID =
     with_redirect i eventID
       (\<lambda>p db. Inr (process_session (if p_Method p = ''wallet'' then ''wallet_processing'' else ''netbanking_processing'') p db))
       (\<lambda>d. d\<lparr>xd_ProviderStatus := ProviderPending\<rparr>)"

definition CompleteRedirectSession ::
  "id \<times> id \<times> id \<Rightarrow> time \<Rightarrow> id \<Rightarrow> id \<Rightarrow> string \<Rightarrow> 'a hosted_state \<Rightarrow> hosted_error + (redirect_result \<times> bool) \<times> 'a hosted_state" where
  "CompleteRedirectSession ids now i eventID gref =
     with_redirect i eventID
       (\<lambda>p. collect_session ids now (p_Method p @ '' capture receivable'', ''merchant payable on '' @ p_Method p @ '' capture'', p_Method p @ '' payment capture'')
              (methodStateForCapture (p_Method p)) gref p)
       (\<lambda>d. d\<lparr>xd_ProviderStatus := ProviderSucceeded, xd_CompletedAt := Some now, xd_GatewayReference := nonempty_or gref (xd_GatewayReference d)\<rparr>)"

definition FailRedirectSession ::
  "id \<Rightarrow> time \<Rightarrow> id \<Rightarrow> id \<Rightarrow> provider_status \<Rightarrow> string \<Rightarrow> string \<Rightarrow> 'a hosted_state \<Rightarrow> hosted_error + (redirect_result \<times> bool) \<times> 'a hosted_state" where
  "FailRedirectSession evtID now i eventID status errorCode errorDescription =
     with_redirect i eventID (\<lambda>p. fail_session evtID now (methodStateForFailure (p_Method p)) errorCode errorDescription p)
       (\<lambda>d. d\<lparr>xd_ProviderStatus := status, xd_CompletedAt := Some now, xd_FailureCode := errorCode, xd_FailureDescription := errorDescription\<rparr>)"

definition AbandonRedirectSession ::
  "id \<Rightarrow> time \<Rightarrow> id \<Rightarrow> id \<Rightarrow> string \<Rightarrow> 'a hosted_state \<Rightarrow> (hosted_error + redirect_result) \<times> 'a hosted_state" where
  "AbandonRedirectSession evtID now m i reason s =
     (case FailRedirectSession evtID now i '''' ProviderAbandoned ''CUSTOMER_ABANDONED'' reason s of
        Inl e \<Rightarrow> (Inl e, s) | Inr (_, s') \<Rightarrow> (GetRedirectSession m i s', s'))"

definition ExpireRedirectSession :: "id \<Rightarrow> time \<Rightarrow> id \<Rightarrow> id \<Rightarrow> 'a hosted_state \<Rightarrow> (hosted_error + redirect_result) \<times> 'a hosted_state" where
  "ExpireRedirectSession evtID now m i s =
     (case FailRedirectSession evtID now i '''' ProviderExpired ''REDIRECT_EXPIRED'' ''redirect session expired before completion'' s of
        Inl e \<Rightarrow> (Inl e, s) | Inr (_, s') \<Rightarrow> (GetRedirectSession m i s', s'))"

section \<open>The service\<close>

text \<open>
  The providers of the service. The code passes the provider fields of the session it just read; the model passes the
  session.
\<close>

record poll_status =
  ps_ProviderStatus :: provider_status
  ps_GatewayReference :: string
  ps_ErrorCode :: string
  ps_ErrorDescription :: string

record 'r hosted_gateway =
  hg_Name :: string
  hg_Poll :: "'r \<Rightarrow> string + poll_status"

record upi_gateway = "upi_result hosted_gateway" +
  hg_CreateUPI :: "upi_result \<Rightarrow> string + upi_gateway_result"

record redirect_gateway = "redirect_result hosted_gateway" +
  hg_CreateRedirect :: "redirect_result \<Rightarrow> string + redirect_gateway_result"

record session_ids =
  hi_Payment :: id
  hi_Attempt :: id
  hi_Event :: id
  hi_FailEvent :: id
  hi_Token :: id
  hi_Capture :: "id \<times> id \<times> id"

definition persistUPIIntentFailure ::
  "id \<Rightarrow> time \<Rightarrow> id \<Rightarrow> string \<Rightarrow> string \<Rightarrow> hosted_error \<Rightarrow> 'a hosted_state \<Rightarrow> hosted_error \<times> 'a hosted_state" where
  "persistUPIIntentFailure evtID now i errorCode errorDescription primary s =
     (case FailUPIIntent evtID now i '''' ProviderFailed errorCode errorDescription s of
        Inl e \<Rightarrow> (ErrHostedCleanup primary e, s) | Inr (_, s') \<Rightarrow> (primary, s'))"

text \<open>After the rows are there the provider is called, and its answer attached or its error recorded.\<close>

definition call_upi_gateway ::
  "upi_gateway \<Rightarrow> session_ids \<Rightarrow> time \<Rightarrow> string \<Rightarrow> upi_result \<Rightarrow> 'a hosted_state \<Rightarrow> (hosted_error + upi_result \<times> upi_gateway_result) \<times> 'a hosted_state" where
  "call_upi_gateway gw ids now code intent s =
     (case hg_CreateUPI gw intent of
        Inl e \<Rightarrow> (case persistUPIIntentFailure (hi_FailEvent ids) now (cr_PaymentID (fst intent)) code e (ErrHostedGateway e) s of (err, s') \<Rightarrow> (Inl err, s'))
      | Inr g \<Rightarrow> (case AttachUPIIntentGatewayData (cr_MerchantID (fst intent)) (cr_PaymentID (fst intent)) g s of
                    Inl e \<Rightarrow> (Inl e, s) | Inr (r, s') \<Rightarrow> (Inr (r, g), s')))"

definition create_upi ::
  "session_ids \<Rightarrow> time \<Rightarrow> upi_input \<Rightarrow> (upi_result \<Rightarrow> 'a hosted_state \<Rightarrow> (hosted_error + upi_result) \<times> 'a hosted_state) \<Rightarrow> 'a hosted_state
     \<Rightarrow> (hosted_error + upi_result) \<times> 'a hosted_state" where
  "create_upi ids now inp cont s =
     (case CreateUPIIntent (hi_Attempt ids) (hi_Event ids) now inp s of Inl e \<Rightarrow> (Inl e, s) | Inr (intent, s') \<Rightarrow> cont intent s')"

definition with_session :: "session_ids \<Rightarrow> time \<Rightarrow> time \<Rightarrow> string \<Rightarrow> upi_input \<Rightarrow> upi_input" where
  "with_session ids now expiresIn flow inp =
     inp\<lparr>ui_PaymentID := (if ui_PaymentID inp = '''' then hi_Payment ids else ui_PaymentID inp), ui_FlowType := flow,
         ui_ExpiresAt := now + expiresIn, ui_CallbackToken := hi_Token ids\<rparr>"

definition CreateUPIIntentService ::
  "upi_gateway option \<Rightarrow> session_ids \<Rightarrow> time \<Rightarrow> int \<Rightarrow> upi_input \<Rightarrow> 'a hosted_state \<Rightarrow> (hosted_error + upi_result) \<times> 'a hosted_state" where
  "CreateUPIIntentService upi ids now expiresIn inp s =
     (case upi of
        None \<Rightarrow> (Inl ErrHostedNotConfigured, s)
      | Some gw \<Rightarrow>
          if ui_Amount inp \<le> 0 then (Inl (ErrHosted ErrInvalidPaymentAmount), s)
          else case NormalizeVPA (ui_VPA inp) of
            Inl _ \<Rightarrow> (Inl ErrInvalidUPIVPA, s)
          | Inr vpa \<Rightarrow>
              create_upi ids now ((with_session ids now (seconds (if expiresIn \<le> 0 then 300 else expiresIn)) ''intent'' inp)\<lparr>ui_VPA := vpa\<rparr>)
                (\<lambda>intent s1. if ud_DeepLink (snd intent) \<noteq> '''' then (Inr intent, s1)
                   else case call_upi_gateway gw ids now ''UPI_GATEWAY_ERROR'' intent s1 of
                     (Inl e, s2) \<Rightarrow> (Inl e, s2) | (Inr (r, _), s2) \<Rightarrow> (Inr r, s2)) s)"

definition CreateUPIQR ::
  "upi_gateway option \<Rightarrow> session_ids \<Rightarrow> time \<Rightarrow> int \<Rightarrow> upi_input \<Rightarrow> 'a hosted_state \<Rightarrow> (hosted_error + upi_result) \<times> 'a hosted_state" where
  "CreateUPIQR upi ids now expiresIn inp s =
     (case upi of
        None \<Rightarrow> (Inl ErrHostedNotConfigured, s)
      | Some gw \<Rightarrow>
          if ui_Amount inp \<le> 0 then (Inl (ErrHosted ErrInvalidPaymentAmount), s)
          else create_upi ids now
                 ((with_session ids now (seconds (if expiresIn \<le> 0 then 300 else expiresIn)) ''qr'' inp)\<lparr>
                    ui_QRMode := (if ui_QRMode inp = '''' then ''dynamic'' else ui_QRMode inp)\<rparr>)
                 (\<lambda>intent s1. if ud_QRPayload (snd intent) \<noteq> '''' then (Inr intent, s1)
                    else case call_upi_gateway gw ids now ''UPI_GATEWAY_ERROR'' intent s1 of
                      (Inl e, s2) \<Rightarrow> (Inl e, s2) | (Inr (r, _), s2) \<Rightarrow> (Inr r, s2)) s)"

definition CreateUPIMandateCharge ::
  "upi_gateway option \<Rightarrow> session_ids \<Rightarrow> time \<Rightarrow> upi_input \<Rightarrow> 'a hosted_state \<Rightarrow> (hosted_error + upi_result) \<times> 'a hosted_state" where
  "CreateUPIMandateCharge upi ids now inp s =
     (case upi of
        None \<Rightarrow> (Inl ErrHostedNotConfigured, s)
      | Some gw \<Rightarrow>
          if ui_Amount inp \<le> 0 then (Inl (ErrHosted ErrInvalidPaymentAmount), s)
          else create_upi ids now (with_session ids now (minutes 5) ''mandate'' inp)
                 (\<lambda>intent s1. case call_upi_gateway gw ids now ''UPI_MANDATE_GATEWAY_ERROR'' intent s1 of
                    (Inl e, s2) \<Rightarrow> (Inl e, s2)
                  | (Inr (r, g), s2) \<Rightarrow>
                      (case CompleteUPIIntent (hi_Capture ids) now (cr_PaymentID (fst r)) '''' (ug_GatewayReference g) s2 of
                         Inl e \<Rightarrow> (Inl e, s2) | Inr ((out, _), s3) \<Rightarrow> (Inr out, s3))) s)"

text \<open>A repository operation as a step of a service: its error leaves the tables as they are.\<close>

definition run_op :: "('s \<Rightarrow> hosted_error + ('r \<times> bool) \<times> 's) \<Rightarrow> 's \<Rightarrow> (hosted_error + 'r \<times> bool) \<times> 's" where
  "run_op f s = (case f s of Inl e \<Rightarrow> (Inl e, s) | Inr (r, s') \<Rightarrow> (Inr r, s'))"

definition drop_flag :: "(hosted_error + 'r \<times> bool) \<times> 's \<Rightarrow> (hosted_error + 'r) \<times> 's" where
  "drop_flag x = (case x of (Inl e, s) \<Rightarrow> (Inl e, s) | (Inr (r, _), s) \<Rightarrow> (Inr r, s))"

definition waiting :: "capture_result \<Rightarrow> bool" where
  "waiting r \<longleftrightarrow> cr_Status r = Some PendingCustomerAction \<or> cr_Status r = Some Processing"

definition PollUPIIntent ::
  "upi_gateway option \<Rightarrow> session_ids \<Rightarrow> time \<Rightarrow> id \<Rightarrow> id \<Rightarrow> 'a hosted_state \<Rightarrow> (hosted_error + upi_result) \<times> 'a hosted_state" where
  "PollUPIIntent upi ids now m i s =
     (case upi of
        None \<Rightarrow> (Inl ErrHostedNotConfigured, s)
      | Some gw \<Rightarrow>
          (case GetUPIIntent m i s of
             Inl e \<Rightarrow> (Inl e, s)
           | Inr intent \<Rightarrow>
               if now > ud_ExpiresAt (snd intent) \<and> waiting (fst intent) then ExpireUPIIntent (hi_FailEvent ids) now m i s
               else case hg_Poll gw intent of
                 Inl e \<Rightarrow> (Inl (ErrHostedGateway e), s)
               | Inr st \<Rightarrow>
                   (case PollUPIIntentRepo m i now (snd s) of
                      Inl e \<Rightarrow> (Inl e, s)
                    | Inr h \<Rightarrow>
                        let s1 = (fst s, h) in
                        case ps_ProviderStatus st of
                          ProviderPending \<Rightarrow> (if cr_Status (fst intent) = Some PendingCustomerAction
                                              then drop_flag (run_op (MarkUPIIntentProcessing i '''') s1) else (GetUPIIntent m i s1, s1))
                        | ProviderSucceeded \<Rightarrow> drop_flag (run_op (CompleteUPIIntent (hi_Capture ids) now i '''' (ps_GatewayReference st)) s1)
                        | ProviderFailed \<Rightarrow>
                            drop_flag (run_op (FailUPIIntent (hi_FailEvent ids) now i '''' ProviderFailed (ps_ErrorCode st) (ps_ErrorDescription st)) s1)
                        | _ \<Rightarrow> (GetUPIIntent m i s1, s1))))"

record session_callback =
  sc_MerchantID :: id
  sc_PaymentID :: id
  sc_CallbackToken :: string
  sc_EventID :: id
  sc_Status :: string
  sc_GatewayReference :: string
  sc_ErrorCode :: string
  sc_ErrorDescription :: string

definition flagged :: "(hosted_error + 'r) \<times> 's \<Rightarrow> (hosted_error + 'r \<times> bool) \<times> 's" where
  "flagged x = (case x of (Inl e, s) \<Rightarrow> (Inl e, s) | (Inr r, s) \<Rightarrow> (Inr (r, True), s))"

definition ApplyUPICallback ::
  "session_ids \<Rightarrow> time \<Rightarrow> session_callback \<Rightarrow> 'a hosted_state \<Rightarrow> (hosted_error + upi_result \<times> bool) \<times> 'a hosted_state" where
  "ApplyUPICallback ids now cb s =
     (let i = sc_PaymentID cb; ev = sc_EventID cb; st = sc_Status cb in
      case (if sc_MerchantID cb = '''' then ResolveUPIIntentMerchant i (sc_CallbackToken cb) (snd s) else Inr (sc_MerchantID cb)) of
        Inl e \<Rightarrow> (Inl e, s)
      | Inr m \<Rightarrow>
          (case GetUPIIntent m i s of
             Inl e \<Rightarrow> (Inl e, s)
           | Inr intent \<Rightarrow>
               if sc_CallbackToken cb = '''' \<or> sc_CallbackToken cb \<noteq> ud_CallbackToken (snd intent) then (Inl ErrUPICallbackRejected, s)
               else if st = ''processing'' then run_op (MarkUPIIntentProcessing i ev) s
               else if st = ''succeeded'' then run_op (CompleteUPIIntent (hi_Capture ids) now i ev (sc_GatewayReference cb)) s
               else if st = ''failed'' then run_op (FailUPIIntent (hi_FailEvent ids) now i ev ProviderFailed (sc_ErrorCode cb) (sc_ErrorDescription cb)) s
               else if st = ''abandoned'' then flagged (AbandonUPIIntent (hi_FailEvent ids) now m i (sc_ErrorDescription cb) s)
               else if st = ''expired'' then flagged (ExpireUPIIntent (hi_FailEvent ids) now m i s)
               else (Inl ErrUPICallbackRejected, s)))"

definition CreateRedirectSession ::
  "redirect_gateway option \<Rightarrow> session_ids \<Rightarrow> time \<Rightarrow> int \<Rightarrow> redirect_input \<Rightarrow> 'a hosted_state \<Rightarrow> (hosted_error + redirect_result) \<times> 'a hosted_state" where
  "CreateRedirectSession gw ids now expiresIn inp s =
     (case gw of
        None \<Rightarrow> (Inl ErrHostedNotConfigured, s)
      | Some g \<Rightarrow>
          if xi_Amount inp \<le> 0 then (Inl (ErrHosted ErrInvalidPaymentAmount), s)
          else if xi_Method inp \<notin> {''netbanking'', ''wallet''} then (Inl (ErrHosted ErrInvalidTransition), s)
          else
          let provider = (if hg_Name g = '''' then ''unknown'' else hg_Name g);
              inp' = inp\<lparr>xi_PaymentID := (if xi_PaymentID inp = '''' then hi_Payment ids else xi_PaymentID inp), xi_BankName := '''', xi_WalletName := '''',
                         xi_ExpiresAt := now + seconds (if expiresIn \<le> 0 then 900 else expiresIn), xi_CallbackToken := hi_Token ids,
                         xi_Provider := provider, xi_RoutingReason := ''direct_gateway'', xi_Attempted := [provider]\<rparr> in
          case CreateRedirectSessionRepo (hi_Attempt ids) (hi_Event ids) now inp' s of
            Inl e \<Rightarrow> (Inl e, s)
          | Inr (session, s1) \<Rightarrow>
              (case hg_CreateRedirect g session of
                 Inl e \<Rightarrow> (Inl (ErrHostedGateway e),
                           snd (run_op (FailRedirectSession (hi_FailEvent ids) now (cr_PaymentID (fst session)) '''' ProviderFailed ''REDIRECT_GATEWAY_ERROR'' e) s1))
               | Inr res \<Rightarrow> (case AttachRedirectGatewayData (cr_MerchantID (fst session)) (cr_PaymentID (fst session)) res s1 of
                               Inl e \<Rightarrow> (Inl e, s1) | Inr (r, s2) \<Rightarrow> (Inr r, s2))))"

definition PollRedirectSession ::
  "redirect_gateway option \<Rightarrow> session_ids \<Rightarrow> time \<Rightarrow> id \<Rightarrow> id \<Rightarrow> 'a hosted_state \<Rightarrow> (hosted_error + redirect_result) \<times> 'a hosted_state" where
  "PollRedirectSession gw ids now m i s =
     (case gw of
        None \<Rightarrow> (Inl ErrHostedNotConfigured, s)
      | Some g \<Rightarrow>
          (case GetRedirectSession m i s of
             Inl e \<Rightarrow> (Inl e, s)
           | Inr current \<Rightarrow>
               if now > xd_ExpiresAt (snd current) \<and> waiting (fst current) then ExpireRedirectSession (hi_FailEvent ids) now m i s
               else case hg_Poll g current of
                 Inl e \<Rightarrow> (Inl (ErrHostedGateway e), s)
               | Inr st \<Rightarrow>
                   (case PollRedirectSessionRepo m i now (snd s) of
                      Inl e \<Rightarrow> (Inl e, s)
                    | Inr h \<Rightarrow>
                        let s1 = (fst s, h) in
                        case ps_ProviderStatus st of
                          ProviderPending \<Rightarrow> (if cr_Status (fst current) = Some PendingCustomerAction
                                              then drop_flag (run_op (MarkRedirectProcessing i '''') s1) else (GetRedirectSession m i s1, s1))
                        | ProviderSucceeded \<Rightarrow> drop_flag (run_op (CompleteRedirectSession (hi_Capture ids) now i '''' (ps_GatewayReference st)) s1)
                        | ProviderFailed \<Rightarrow>
                            drop_flag (run_op (FailRedirectSession (hi_FailEvent ids) now i '''' ProviderFailed (ps_ErrorCode st) (ps_ErrorDescription st)) s1)
                        | _ \<Rightarrow> (GetRedirectSession m i s1, s1))))"

definition ApplyRedirectCallback ::
  "session_ids \<Rightarrow> time \<Rightarrow> session_callback \<Rightarrow> 'a hosted_state \<Rightarrow> (hosted_error + redirect_result \<times> bool) \<times> 'a hosted_state" where
  "ApplyRedirectCallback ids now cb s =
     (let i = sc_PaymentID cb; ev = sc_EventID cb; st = sc_Status cb; m = sc_MerchantID cb in
      case GetRedirectSession m i s of
        Inl e \<Rightarrow> (Inl e, s)
      | Inr current \<Rightarrow>
          if sc_CallbackToken cb = '''' \<or> sc_CallbackToken cb \<noteq> xd_CallbackToken (snd current) then (Inl ErrUPICallbackRejected, s)
          else if st = ''processing'' then run_op (MarkRedirectProcessing i ev) s
          else if st = ''succeeded'' then run_op (CompleteRedirectSession (hi_Capture ids) now i ev (sc_GatewayReference cb)) s
          else if st = ''failed'' then run_op (FailRedirectSession (hi_FailEvent ids) now i ev ProviderFailed (sc_ErrorCode cb) (sc_ErrorDescription cb)) s
          else if st = ''abandoned'' then flagged (AbandonRedirectSession (hi_FailEvent ids) now m i (sc_ErrorDescription cb) s)
          else if st = ''expired'' then flagged (ExpireRedirectSession (hi_FailEvent ids) now m i s)
          else (Inl ErrUPICallbackRejected, s))"

end
