(* ===== verification/HostedFlow.thy ===== *)
theory HostedFlow
  imports Hosted
begin

text \<open>
  Card payments and hosted sessions together. Every operation is a step on claims, so that each payment follows the
  table and each capture is posted once whatever the interleaving; and what the sessions lack: a bound on what an order
  collects, a check of the merchant, a failure without a reason.
\<close>

section \<open>The flow of claims\<close>

text \<open>
  The abstract state of \<open>PaymentFlow\<close> without the caps: what a session adds to an order is not compared with it. A
  new claim is created or pending; claims move along the table; a capture is posted once.
\<close>

inductive claim_step :: "claim list \<times> (id \<times> int) list \<Rightarrow> claim list \<times> (id \<times> int) list \<Rightarrow> bool" where
  stay: "claim_step x x"
| admit: "c_Status c \<in> {Created, PendingCustomerAction} \<Longrightarrow> c_ID c \<notin> c_ID ` set cs \<Longrightarrow> claim_step (cs, ps) (cs @ [c], ps)"
| move: "c \<in> set cs \<Longrightarrow> Transition (c_Status c) ev = Inr s \<Longrightarrow> s \<noteq> Captured \<Longrightarrow>
    claim_step (cs, ps) (upd_where (\<lambda>d. c_ID d = c_ID c) (\<lambda>d. d\<lparr>c_Status := s\<rparr>) cs, ps)"
| collect: "c \<in> set cs \<Longrightarrow> Transition (c_Status c) Capture = Inr Captured \<Longrightarrow> c_ID c \<notin> fst ` set ps \<Longrightarrow>
    claim_step (cs, ps) (upd_where (\<lambda>d. c_ID d = c_ID c) (\<lambda>d. d\<lparr>c_Status := Captured\<rparr>) cs, ps @ [(c_ID c, i64 (c_Amount c))])"

definition claims_inv :: "claim list \<times> (id \<times> int) list \<Rightarrow> bool" where
  "claims_inv x \<longleftrightarrow> (case x of (cs, ps) \<Rightarrow> unique_key c_ID cs \<and> distinct (map fst ps) \<and> fst ` set ps \<subseteq> c_ID ` set cs \<and> posted_ok cs ps)"

definition forget :: "exposure \<Rightarrow> claim list \<times> (id \<times> int) list" where
  "forget x = (x_claims x, x_posted x)"

lemma exposure_claims: "exposure_step x x' \<Longrightarrow> claim_step (forget x) (forget x')"
  by (cases rule: exposure_step.cases) (auto simp: forget_def intro: claim_step.intros)

lemma claim_step_inv: "claim_step x x' \<Longrightarrow> claims_inv x \<Longrightarrow> claims_inv x'"
proof (induction rule: claim_step.induct)
  case (admit c cs ps)
  then have "c_ID c \<notin> fst ` set ps" "c_Status c \<noteq> Captured" by (auto simp: claims_inv_def)
  then show ?case using admit by (auto simp: claims_inv_def posted_ok_def)
next
  case (move c cs ev s ps)
  let ?cs = "upd_where (\<lambda>d. c_ID d = c_ID c) (\<lambda>d. d\<lparr>c_Status := s\<rparr>) cs"
  have "c_Status c \<noteq> Captured" using move.hyps(2) by (auto simp: Transition_def)
  then have c: "c_ID c \<notin> fst ` set ps" using move.hyps(1) move.prems by (auto simp: claims_inv_def posted_ok_def)
  have "if c_Status e = Captured then (c_ID e, i64 (c_Amount e)) \<in> set ps else c_ID e \<notin> fst ` set ps"
    if "d \<in> set cs" "e = (if c_ID d = c_ID c then d\<lparr>c_Status := s\<rparr> else d)" for d e
    using c move.hyps(3) move.prems that by (cases "c_ID d = c_ID c") (auto simp: claims_inv_def posted_ok_def)
  then have "posted_ok ?cs ps" unfolding posted_ok_def set_upd_where by blast
  then show ?case using move.prems by (simp add: claims_inv_def)
next
  case (collect c cs ps)
  let ?cs = "upd_where (\<lambda>d. c_ID d = c_ID c) (\<lambda>d. d\<lparr>c_Status := Captured\<rparr>) cs" and ?ps = "ps @ [(c_ID c, i64 (c_Amount c))]"
  have "d = c" if "d \<in> set cs" "c_ID d = c_ID c" for d
    using collect.prems collect.hyps(1) that unique_key_inj [of c_ID cs d c] by (simp add: claims_inv_def)
  then have "if c_Status e = Captured then (c_ID e, i64 (c_Amount e)) \<in> set ?ps else c_ID e \<notin> fst ` set ?ps"
    if "d \<in> set cs" "e = (if c_ID d = c_ID c then d\<lparr>c_Status := Captured\<rparr> else d)" for d e
    using collect.prems that by (cases "c_ID d = c_ID c") (auto simp: claims_inv_def posted_ok_def)
  then have "posted_ok ?cs ?ps" unfolding posted_ok_def set_upd_where by blast
  moreover have "fst ` set ?ps \<subseteq> c_ID ` set cs" "distinct (map fst ?ps)" using collect by (auto simp: claims_inv_def)
  ultimately show ?case using collect.prems by (simp add: claims_inv_def)
qed simp

interpretation claims: invariant_system claim_step claims_inv
  by unfold_locales (rule claim_step_inv)

text \<open>A session is pending, in processing, captured or failed: the table never leaves these states.\<close>

definition session_states :: "payment_state set" where
  "session_states = {PendingCustomerAction, Processing, Captured, Failed}"

lemma session_closed: "Transition s ev = Inr s' \<Longrightarrow> s \<in> session_states \<Longrightarrow> s' \<in> session_states"
  by (cases s; cases ev) (auto simp: Transition_def session_states_def)

lemma claim_step_session:
  assumes "claim_step x x'" "claims_inv x" "c \<in> set (fst x)"
  shows "\<exists>c' \<in> set (fst x'). follows c c' \<and> (c_Status c \<in> session_states \<longrightarrow> c_Status c' \<in> session_states)"
proof -
  obtain cs ps where x: "x = (cs, ps)" by (cases x)
  have upd: "\<exists>c' \<in> set (upd_where (\<lambda>d. c_ID d = c_ID b) (\<lambda>d. d\<lparr>c_Status := s\<rparr>) cs).
      follows c c' \<and> (c_Status c \<in> session_states \<longrightarrow> c_Status c' \<in> session_states)"
    if b: "b \<in> set cs" "Transition (c_Status b) ev = Inr s" for b ev s
  proof (cases "c_ID c = c_ID b")
    case True
    then have "c = b" using unique_key_inj [of c_ID cs c b] assms(2,3) b(1) by (simp add: claims_inv_def x)
    moreover have "\<exists>evs. run_machine Transition (c_Status b) evs = Inr s" using b(2) by (intro exI [of _ "[ev]"]) simp
    ultimately have "follows c (c\<lparr>c_Status := s\<rparr>)" by (simp add: follows_def)
    then show ?thesis using True assms(3) session_closed [OF b(2)] \<open>c = b\<close> by (force simp: set_upd_where x)
  next
    case False
    then have "c \<in> set (upd_where (\<lambda>d. c_ID d = c_ID b) (\<lambda>d. d\<lparr>c_Status := s\<rparr>) cs)" using assms(3) by (force simp: set_upd_where x)
    then show ?thesis using follows_refl by blast
  qed
  from assms(1) show ?thesis unfolding x
    by cases (use assms(3) x in \<open>force intro: upd bexI [where x = c]\<close>)+
qed

section \<open>Interleavings\<close>

inductive hosted_step :: "'a hosted_state \<Rightarrow> 'a hosted_state \<Rightarrow> bool" where
  card: "pay_step db db' \<Longrightarrow> hosted_step (db, h) (db', h)"
| create_upi: "CreateUPIIntent attemptID evtID now uin s = Inr (r, s') \<Longrightarrow> hosted_step s s'"
| attach_upi: "AttachUPIIntentGatewayData m i g s = Inr (r, s') \<Longrightarrow> hosted_step s s'"
| poll_upi: "PollUPIIntentRepo m i at h = Inr h' \<Longrightarrow> hosted_step (db, h) (db, h')"
| process_upi: "MarkUPIIntentProcessing i ev s = Inr (r, s') \<Longrightarrow> hosted_step s s'"
| complete_upi: "CompleteUPIIntent ids now i ev gref s = Inr (r, s') \<Longrightarrow> hosted_step s s'"
| fail_upi: "FailUPIIntent evtID now i ev st code desc s = Inr (r, s') \<Longrightarrow> hosted_step s s'"
| create_redirect: "CreateRedirectSessionRepo attemptID evtID now xin s = Inr (x, s') \<Longrightarrow> hosted_step s s'"
| attach_redirect: "AttachRedirectGatewayData m i xg s = Inr (x, s') \<Longrightarrow> hosted_step s s'"
| poll_redirect: "PollRedirectSessionRepo m i at h = Inr h' \<Longrightarrow> hosted_step (db, h) (db, h')"
| process_redirect: "MarkRedirectProcessing i ev s = Inr (y, s') \<Longrightarrow> hosted_step s s'"
| complete_redirect: "CompleteRedirectSession ids now i ev gref s = Inr (y, s') \<Longrightarrow> hosted_step s s'"
| fail_redirect: "FailRedirectSession evtID now i ev st code desc s = Inr (y, s') \<Longrightarrow> hosted_step s s'"

definition abs_claims :: "'a payment_db_scheme \<Rightarrow> claim list \<times> (id \<times> int) list" where
  "abs_claims db = (map claim_of (db_payments db), posted_captures (db_ledger db))"

lemma abs_claims_forget: "abs_claims db = forget (abs_pay db)"
  by (simp add: abs_claims_def forget_def abs_pay_def)

lemma pay_step_claims: "pay_step db db' \<Longrightarrow> claim_step (abs_claims db) (abs_claims db')"
proof (induction rule: pay_step.induct)
  case (start attemptID newPayID splitID evtID now ain db r db')
  then show ?case
  proof (cases rule: StartAuthorization_Inr)
    case (fresh ord pid)
    have "claim_step (abs_claims db) (map claim_of (db_payments db) @ [claim_of (new_payment pid attemptID now ain)], posted_captures (db_ledger db))"
      unfolding abs_claims_def by (rule claim_step.admit) (use fresh(5) in \<open>auto simp: claim_of_def new_payment_def image_iff\<close>)
    then show ?thesis by (simp add: abs_claims_def fresh(7,9))
  qed (simp add: claim_step.stay)
qed (auto simp: abs_claims_forget intro!: exposure_claims
       intro: CreateOrder_abs ExpireDueOrders_abs CreateFailedAttempt_abs UpdateGatewayRouting_abs AttachCardPaymentDetails_abs
         MarkAuthorizationRequiresAction_abs MarkAuthorizationAuthorized_abs MarkAuthorizationFailed_abs CompleteCardChallenge_abs
         FailCardChallenge_abs ReverseAuthorization_abs CaptureAuthorizedPayment_abs expire_payment_abs)

lemma open_session_Inr:
  assumes "open_session attemptID now mstate inp db = Inr (Some db')"
  obtains p where "db_payments db' = db_payments db @ [p]" "p_ID p = ca_PaymentID inp" "p_Status p = PendingCustomerAction"
    "ca_PaymentID inp \<notin> p_ID ` set (db_payments db)" "db_ledger db' = db_ledger db"
proof -
  let ?p = "(new_payment (ca_PaymentID inp) attemptID now inp)\<lparr>p_Status := PendingCustomerAction, p_MethodState := mstate\<rparr>"
  have "db_payments db' = db_payments db @ [?p]" "ca_PaymentID inp \<notin> p_ID ` set (db_payments db)" "db_ledger db' = db_ledger db"
    using assms by (auto simp: open_session_def Let_def bindR_Inr_iff insert_attempt_def insert_payment_def new_payment_def split: if_split_asm option.split_asm)
  then show thesis by (intro that [of ?p]) (simp_all add: new_payment_def)
qed

lemma session_started_tables [simp]:
  "db_payments (session_started e now inp db) = db_payments db" "db_ledger (session_started e now inp db) = db_ledger db"
  by (simp_all add: session_started_def db_simps)

lemma open_session_claims:
  assumes "open_session attemptID now mstate inp db = Inr (Some db')" shows "claim_step (abs_claims db) (abs_claims (session_started e now inp db'))"
  using assms
proof (cases rule: open_session_Inr)
  case (1 p)
  have "claim_step (abs_claims db) (map claim_of (db_payments db) @ [claim_of p], posted_captures (db_ledger db))"
    unfolding abs_claims_def by (rule claim_step.admit) (use 1(2-4) in \<open>auto simp: claim_of_def image_iff\<close>)
  then show ?thesis by (simp add: abs_claims_def 1)
qed

lemma payment_by_idD: "payment_by_id i db = Some p \<Longrightarrow> p \<in> set (db_payments db) \<and> p_ID p = i"
  by (auto simp: payment_by_id_def dest!: find_SomeD)

text \<open>The three changes of a session that is not over.\<close>

lemma process_claims:
  assumes "p \<in> set (db_payments db)" shows "claim_step (abs_claims db) (abs_claims (process_session mstate p db))"
proof (cases "p_Status p = PendingCustomerAction")
  case True
  then have "exposure_step (abs_pay db) (abs_pay (process_session mstate p db))"
    unfolding process_session_def using assms
    by (auto intro!: abs_move [where p = p and ev = ProcessingStarted and s = Processing] simp: set_payment_def Transition_def claim_of_def)
  then show ?thesis by (simp add: abs_claims_forget exposure_claims)
qed (simp add: process_session_def claim_step.stay)

lemma fail_claims:
  assumes "fail_session e now mstate code desc p db = Inr db'" "p \<in> set (db_payments db)" "p_Status p \<in> session_states" "\<not> session_over p"
  shows "claim_step (abs_claims db) (abs_claims db')"
proof -
  have "exposure_step (abs_pay db) (abs_pay db')"
    using assms(1)
    by (intro abs_move [where p = p and ev = AuthFailed and s = Failed and f = "\<lambda>q. q\<lparr>p_Status := Failed, p_MethodState := mstate, p_MethodStateReason := desc,
          p_ErrorCode := code, p_ErrorDescription := desc\<rparr>"])
       (use assms(2-4) in \<open>auto simp: fail_session_def db_simps set_attempts_of_def session_states_def session_over_def Transition_def claim_of_def split: if_split_asm\<close>)
  then show ?thesis by (simp add: abs_claims_forget exposure_claims)
qed

lemma session_debits: "debits (session_entries amount a b) = amount"
  by (simp add: session_entries_def Let_def ledger_line_def)

lemma collect_claims:
  assumes "collect_session ids now texts mstate gref p db = Inr db'" "p \<in> set (db_payments db)" "p_Status p \<in> session_states" "\<not> session_over p"
  shows "claim_step (abs_claims db) (abs_claims db')"
proof -
  obtain t e1 e2 a b d where ids: "ids = (t, e1, e2)" "texts = (a, b, d)" by (metis prod_cases3)
  let ?f = "\<lambda>q. q\<lparr>p_Status := Captured, p_MethodState := mstate, p_Captured := True, p_CapturedAt := Some now,
      p_GatewayReference := nonempty_or gref (p_GatewayReference q), p_Fee := capture_fee (p_Amount p)\<rparr>"
  obtain l where l: "CreateEntriesTx t (p_MerchantID p) ''payment'' (p_ID p) d (session_entries (p_Amount p) a b) (db_ledger db) = Inr l"
    and db': "db_ledger db' = l" "db_payments db' = upd_where (\<lambda>q. p_ID q = p_ID p) ?f (db_payments db)"
    using assms(1) by (auto simp: collect_session_def ids Let_def bindR_Inr_iff mapL_Inr_iff db_simps)
  note post = posted_captures_post [OF l]
  have "Transition (c_Status (claim_of p)) Capture = Inr Captured"
    using assms(3,4) by (auto simp: session_states_def session_over_def Transition_def claim_of_def)
  then have "claim_step (abs_claims db) (upd_where (\<lambda>c. c_ID c = c_ID (claim_of p)) (\<lambda>c. c\<lparr>c_Status := Captured\<rparr>) (map claim_of (db_payments db)),
      posted_captures (db_ledger db) @ [(c_ID (claim_of p), i64 (c_Amount (claim_of p)))])"
    unfolding abs_claims_def by (intro claim_step.collect) (use assms(2) post(2) in \<open>auto simp: claim_of_def\<close>)
  moreover have "map claim_of (db_payments db') = upd_where (\<lambda>c. c_ID c = p_ID p) (\<lambda>c. c\<lparr>c_Status := Captured\<rparr>) (map claim_of (db_payments db))"
    unfolding db' by (rule map_claim_upd) (simp add: claim_of_def)
  ultimately show ?thesis by (simp add: abs_claims_def db' post(1) session_debits claim_of_def)
qed

section \<open>The invariant\<close>

definition hosted_ids :: "hosted_db \<Rightarrow> id set" where
  "hosted_ids h = ud_PaymentID ` set (hd_upi h) \<union> xd_PaymentID ` set (hd_redirects h)"

definition in_session :: "id \<Rightarrow> 'a payment_db_scheme \<Rightarrow> bool" where
  "in_session i db \<longleftrightarrow> (\<exists>p \<in> set (db_payments db). p_ID p = i \<and> p_Status p \<in> session_states)"

definition hosted_inv :: "'a hosted_state \<Rightarrow> bool" where
  "hosted_inv s \<longleftrightarrow> claims_inv (abs_claims (fst s)) \<and> (\<forall>i \<in> hosted_ids (snd s). in_session i (fst s))"

lemma claims_unique: "claims_inv (abs_claims db) \<Longrightarrow> unique_key p_ID (db_payments db)"
  by (simp add: claims_inv_def abs_claims_def unique_key_def comp_def claim_of_def)

lemma in_session_step:
  assumes "claim_step (abs_claims db) (abs_claims db')" "claims_inv (abs_claims db)" "in_session i db" shows "in_session i db'"
proof -
  obtain p where p: "p \<in> set (db_payments db)" "p_ID p = i" "p_Status p \<in> session_states" using assms(3) by (auto simp: in_session_def)
  then have "\<exists>c' \<in> set (fst (abs_claims db')). follows (claim_of p) c' \<and> (c_Status (claim_of p) \<in> session_states \<longrightarrow> c_Status c' \<in> session_states)"
    by (intro claim_step_session [OF assms(1,2)]) (simp add: abs_claims_def)
  then show ?thesis using p by (force simp: abs_claims_def in_session_def follows_def claim_of_def)
qed

text \<open>A step that moves claims and adds only sessions that are there keeps the invariant.\<close>

definition session_step :: "'a hosted_state \<Rightarrow> 'a hosted_state \<Rightarrow> bool" where
  "session_step s s' \<longleftrightarrow> claim_step (abs_claims (fst s)) (abs_claims (fst s'))
     \<and> (\<forall>i \<in> hosted_ids (snd s'). i \<in> hosted_ids (snd s) \<or> in_session i (fst s'))"

lemma hosted_inv_step: "session_step s s' \<Longrightarrow> hosted_inv s \<Longrightarrow> hosted_inv s'"
  using claims.inv_step in_session_step unfolding hosted_inv_def session_step_def by blast

lemma session_same:
  "abs_claims (fst s') = abs_claims (fst s) \<Longrightarrow> hosted_ids (snd s') = hosted_ids (snd s) \<Longrightarrow> session_step s s'"
  by (simp add: session_step_def claim_step.stay)

lemma hosted_payment:
  assumes "hosted_inv (db, h)" "payment_by_id i db = Some p" "i \<in> hosted_ids h"
  shows "p \<in> set (db_payments db) \<and> p_ID p = i \<and> p_Status p \<in> session_states"
proof -
  obtain q where q: "q \<in> set (db_payments db)" "p_ID q = i" "p_Status q \<in> session_states"
    using assms(1,3) by (auto simp: hosted_inv_def in_session_def)
  moreover have "p \<in> set (db_payments db)" "p_ID p = i" using payment_by_idD [OF assms(2)] by simp_all
  ultimately show ?thesis using unique_key_inj [OF claims_unique] assms(1) by (metis fst_conv hosted_inv_def)
qed

lemma find_hosted: "find (\<lambda>d. k d = i) rows = Some d \<Longrightarrow> i \<in> k ` set rows"
  by (auto dest!: find_SomeD)

lemma with_upi_keeps:
  assumes "with_upi i ev act f s = Inr (r, s')" "hosted_inv s" "\<And>d. ud_PaymentID (f d) = ud_PaymentID d"
    and "\<And>p db'. act p (fst s) = Inr db' \<Longrightarrow> p \<in> set (db_payments (fst s)) \<Longrightarrow> p_Status p \<in> session_states \<Longrightarrow> \<not> session_over p
       \<Longrightarrow> claim_step (abs_claims (fst s)) (abs_claims db')"
  shows "session_step s s'"
proof -
  obtain db h where s: "s = (db, h)" by (cases s)
  obtain p d flag h1 where l: "lockUPIIntentTx i ev s = Inr ((p, d), flag, h1)" using assms(1) by (auto simp: with_upi_def bindR_Inr_iff)
  have rows: "payment_by_id i db = Some p" "upi_row i h = Some d" "hosted_ids h1 = hosted_ids h"
    using l by (auto simp: lockUPIIntentTx_def s hosted_ids_def split: option.split_asm)
  have p: "p \<in> set (db_payments db)" "p_Status p \<in> session_states"
    using hosted_payment [OF _ rows(1)] assms(2) find_hosted [of ud_PaymentID i "hd_upi h"] rows(2) by (auto simp: s upi_row_def hosted_ids_def)
  show ?thesis
  proof (cases "\<not> flag \<or> session_over p")
    case True
    then have "s' = (db, h1)" using assms(1) l by (auto simp: with_upi_def s)
    then show ?thesis using rows(3) by (intro session_same) (simp_all add: s)
  next
    case False
    then obtain db' where act: "act p db = Inr db'" and s': "s' = (db', set_upi i f h1)"
      using assms(1) l by (auto simp: with_upi_def s bindR_Inr_iff mapL_Inr_iff Let_def)
    have "hosted_ids (set_upi i f h1) = hosted_ids h" using rows(3) assms(3) by (simp add: hosted_ids_def set_upi_def)
    moreover have "claim_step (abs_claims (fst s)) (abs_claims db')" using assms(4) act p False by (simp add: s)
    ultimately show ?thesis by (simp add: session_step_def s s')
  qed
qed

lemma with_redirect_keeps:
  assumes "with_redirect i ev act f s = Inr (r, s')" "hosted_inv s" "\<And>d. xd_PaymentID (f d) = xd_PaymentID d"
    and "\<And>p db'. act p (fst s) = Inr db' \<Longrightarrow> p \<in> set (db_payments (fst s)) \<Longrightarrow> p_Status p \<in> session_states \<Longrightarrow> \<not> session_over p
       \<Longrightarrow> claim_step (abs_claims (fst s)) (abs_claims db')"
  shows "session_step s s'"
proof -
  obtain db h where s: "s = (db, h)" by (cases s)
  obtain p d flag h1 where l: "lockRedirectSessionTx i ev s = Inr ((p, d), flag, h1)" using assms(1) by (auto simp: with_redirect_def bindR_Inr_iff)
  have rows: "payment_by_id i db = Some p" "redirect_row i h = Some d" "hosted_ids h1 = hosted_ids h"
    using l by (auto simp: lockRedirectSessionTx_def s hosted_ids_def split: option.split_asm)
  have p: "p \<in> set (db_payments db)" "p_Status p \<in> session_states"
    using hosted_payment [OF _ rows(1)] assms(2) find_hosted [of xd_PaymentID i "hd_redirects h"] rows(2) by (auto simp: s redirect_row_def hosted_ids_def)
  show ?thesis
  proof (cases "\<not> flag \<or> session_over p")
    case True
    then have "s' = (db, h1)" using assms(1) l by (auto simp: with_redirect_def s)
    then show ?thesis using rows(3) by (intro session_same) (simp_all add: s)
  next
    case False
    then obtain db' where act: "act p db = Inr db'" and s': "s' = (db', set_redirect i f h1)"
      using assms(1) l by (auto simp: with_redirect_def s bindR_Inr_iff mapL_Inr_iff Let_def)
    have "hosted_ids (set_redirect i f h1) = hosted_ids h" using rows(3) assms(3) by (simp add: hosted_ids_def set_redirect_def)
    moreover have "claim_step (abs_claims (fst s)) (abs_claims db')" using assms(4) act p False by (simp add: s)
    ultimately show ?thesis by (simp add: session_step_def s s')
  qed
qed

lemma CreateUPIIntent_Inr:
  assumes "CreateUPIIntent attemptID evtID now inp s = Inr (r, s')"
  obtains (same) "s' = s" | (fresh) db1 h1 where
    "open_session attemptID now ''upi_pending_customer_action'' (upi_payment_input inp) (fst s) = Inr (Some db1)"
    "insert_upi (new_upi_detail inp) (snd s) = Inr h1" "s' = (session_started evtID now (upi_payment_input inp) db1, h1)"
  using assms by (cases s) (auto simp: CreateUPIIntent_def Let_def bindR_Inr_iff mapL_Inr_iff split: option.split_asm)

lemma CreateRedirectSessionRepo_Inr:
  assumes "CreateRedirectSessionRepo attemptID evtID now inp s = Inr (r, s')"
  obtains (same) "s' = s" | (fresh) db1 h1 where
    "open_session attemptID now (initialMethodState (xi_Method inp)) (redirect_payment_input inp) (fst s) = Inr (Some db1)"
    "insert_redirect (new_redirect_detail inp) (snd s) = Inr h1" "s' = (session_started evtID now (redirect_payment_input inp) db1, h1)"
  using assms by (cases s) (auto simp: CreateRedirectSessionRepo_def Let_def bindR_Inr_iff mapL_Inr_iff split: option.split_asm)

lemma insert_upi_Inr: "insert_upi d h = Inr h' \<Longrightarrow> h' = h\<lparr>hd_upi := hd_upi h @ [d]\<rparr>"
  by (simp add: insert_upi_def split: if_split_asm)

lemma insert_redirect_Inr: "insert_redirect d h = Inr h' \<Longrightarrow> h' = h\<lparr>hd_redirects := hd_redirects h @ [d]\<rparr>"
  by (simp add: insert_redirect_def split: if_split_asm)

lemma create_upi_keeps: "CreateUPIIntent attemptID evtID now inp s = Inr (r, s') \<Longrightarrow> session_step s s'"
proof (erule CreateUPIIntent_Inr)
  fix db1 h1
  let ?pin = "upi_payment_input inp"
  assume o: "open_session attemptID now ''upi_pending_customer_action'' ?pin (fst s) = Inr (Some db1)"
    and i: "insert_upi (new_upi_detail inp) (snd s) = Inr h1" and s': "s' = (session_started evtID now ?pin db1, h1)"
  have "in_session (ui_PaymentID inp) (session_started evtID now ?pin db1)"
    by (rule open_session_Inr [OF o]) (auto simp: in_session_def session_states_def upi_payment_input_def)
  then show ?thesis
    using open_session_claims [OF o] by (auto simp: session_step_def s' insert_upi_Inr [OF i] hosted_ids_def new_upi_detail_def)
qed (simp add: session_same)

lemma create_redirect_keeps: "CreateRedirectSessionRepo attemptID evtID now inp s = Inr (r, s') \<Longrightarrow> session_step s s'"
proof (erule CreateRedirectSessionRepo_Inr)
  fix db1 h1
  let ?pin = "redirect_payment_input inp"
  assume o: "open_session attemptID now (initialMethodState (xi_Method inp)) ?pin (fst s) = Inr (Some db1)"
    and i: "insert_redirect (new_redirect_detail inp) (snd s) = Inr h1" and s': "s' = (session_started evtID now ?pin db1, h1)"
  have "in_session (xi_PaymentID inp) (session_started evtID now ?pin db1)"
    by (rule open_session_Inr [OF o]) (auto simp: in_session_def session_states_def redirect_payment_input_def)
  then show ?thesis
    using open_session_claims [OF o] by (auto simp: session_step_def s' insert_redirect_Inr [OF i] hosted_ids_def new_redirect_detail_def)
qed (simp add: session_same)

text \<open>Attaching and polling change neither claims nor sessions.\<close>

lemma ids_upd:
  "(\<And>d. ud_PaymentID (f d) = ud_PaymentID d) \<Longrightarrow> hosted_ids (h\<lparr>hd_upi := upd_where q f (hd_upi h)\<rparr>) = hosted_ids h"
  "(\<And>d. xd_PaymentID (g d) = xd_PaymentID d) \<Longrightarrow> hosted_ids (h\<lparr>hd_redirects := upd_where q' g (hd_redirects h)\<rparr>) = hosted_ids h"
  by (simp_all add: hosted_ids_def image_key_upd_where)

lemma abs_claims_upd:
  "(\<And>p. claim_of (f p) = claim_of p) \<Longrightarrow> abs_claims (db\<lparr>db_payments := upd_where q f (db_payments db)\<rparr>) = abs_claims db"
  by (simp add: abs_claims_def map_claim_same)

lemma attach_upi_keeps: "AttachUPIIntentGatewayData m i g s = Inr (r, s') \<Longrightarrow> session_step s s'"
  by (rule session_same)
     (clarsimp simp: AttachUPIIntentGatewayData_def Let_def bindR_Inr_iff ids_upd abs_claims_upd claim_of_def split: prod.split_asm)+

lemma attach_redirect_keeps: "AttachRedirectGatewayData m i g s = Inr (r, s') \<Longrightarrow> session_step s s'"
  by (rule session_same)
     (clarsimp simp: AttachRedirectGatewayData_def Let_def bindR_Inr_iff ids_upd abs_claims_upd claim_of_def split: prod.split_asm)+

lemma poll_upi_keeps: "PollUPIIntentRepo m i at h = Inr h' \<Longrightarrow> session_step (db, h) (db, h')"
  by (rule session_same) (auto simp: PollUPIIntentRepo_def Let_def ids_upd split: if_split_asm)

lemma poll_redirect_keeps: "PollRedirectSessionRepo m i at h = Inr h' \<Longrightarrow> session_step (db, h) (db, h')"
  by (rule session_same) (auto simp: PollRedirectSessionRepo_def Let_def ids_upd split: if_split_asm)

lemma hosted_step_session: "hosted_step s s' \<Longrightarrow> hosted_inv s \<Longrightarrow> session_step s s'"
proof (induction rule: hosted_step.induct)
  case (card db db' h)
  then show ?case by (simp add: session_step_def pay_step_claims)
next
  case (process_upi i ev s r s')
  then show ?case unfolding MarkUPIIntentProcessing_def by (rule with_upi_keeps) (auto intro: process_claims)
next
  case (complete_upi ids now i ev gref s r s')
  then show ?case unfolding CompleteUPIIntent_def by (rule with_upi_keeps) (auto intro: collect_claims)
next
  case (fail_upi evtID now i ev st code desc s r s')
  then show ?case unfolding FailUPIIntent_def by (rule with_upi_keeps) (auto intro: fail_claims)
next
  case (process_redirect i ev s y s')
  then show ?case unfolding MarkRedirectProcessing_def by (rule with_redirect_keeps) (auto intro: process_claims)
next
  case (complete_redirect ids now i ev gref s y s')
  then show ?case unfolding CompleteRedirectSession_def by (rule with_redirect_keeps) (auto intro: collect_claims)
next
  case (fail_redirect evtID now i ev st code desc s y s')
  then show ?case unfolding FailRedirectSession_def by (rule with_redirect_keeps) (auto intro: fail_claims)
qed (blast intro: create_upi_keeps create_redirect_keeps attach_upi_keeps attach_redirect_keeps poll_upi_keeps poll_redirect_keeps)+

interpretation hosted: invariant_system hosted_step hosted_inv
  by unfold_locales (rule hosted_inv_step [OF hosted_step_session])

section \<open>The services run steps\<close>

lemma upi_steps:
  "hosted_step\<^sup>*\<^sup>* s (snd (run_op (MarkUPIIntentProcessing i ev) s))" "hosted_step\<^sup>*\<^sup>* s (snd (run_op (CompleteUPIIntent cids now i ev gref) s))"
  "hosted_step\<^sup>*\<^sup>* s (snd (run_op (FailUPIIntent e now i ev st code desc) s))"
  "hosted_step\<^sup>*\<^sup>* s (snd (AbandonUPIIntent e now m i reason s))" "hosted_step\<^sup>*\<^sup>* s (snd (ExpireUPIIntent e now m i s))"
  "hosted_step\<^sup>*\<^sup>* s (snd (persistUPIIntentFailure e now i code desc err s))"
  by (auto simp: run_op_def AbandonUPIIntent_def ExpireUPIIntent_def persistUPIIntentFailure_def split: sum.split
      intro: hosted_step.process_upi hosted_step.complete_upi hosted_step.fail_upi)

lemma redirect_steps:
  "hosted_step\<^sup>*\<^sup>* s (snd (run_op (MarkRedirectProcessing i ev) s))" "hosted_step\<^sup>*\<^sup>* s (snd (run_op (CompleteRedirectSession cids now i ev gref) s))"
  "hosted_step\<^sup>*\<^sup>* s (snd (run_op (FailRedirectSession e now i ev st code desc) s))"
  "hosted_step\<^sup>*\<^sup>* s (snd (AbandonRedirectSession e now m i reason s))" "hosted_step\<^sup>*\<^sup>* s (snd (ExpireRedirectSession e now m i s))"
  by (auto simp: run_op_def AbandonRedirectSession_def ExpireRedirectSession_def split: sum.split
      intro: hosted_step.process_redirect hosted_step.complete_redirect hosted_step.fail_redirect)

lemma snd_flags [simp]: "snd (drop_flag x) = snd x" "snd (flagged y) = snd y"
  by (auto simp: drop_flag_def flagged_def split: prod.split sum.split)

lemma call_upi_steps: "hosted_step\<^sup>*\<^sup>* s (snd (call_upi_gateway gw ids now code intent s))"
proof (cases "hg_CreateUPI gw intent")
  case (Inl e)
  then show ?thesis using upi_steps(6) [where s = s] by (auto simp: call_upi_gateway_def split: prod.split) (metis snd_conv)
next
  case (Inr g)
  then show ?thesis by (auto simp: call_upi_gateway_def split: sum.split intro: hosted_step.attach_upi)
qed

lemma create_upi_steps:
  assumes "\<And>intent s'. hosted_step\<^sup>*\<^sup>* s' (snd (cont intent s'))" shows "hosted_step\<^sup>*\<^sup>* s (snd (create_upi ids now inp cont s))"
proof (cases "CreateUPIIntent (hi_Attempt ids) (hi_Event ids) now inp s")
  case (Inr x)
  obtain intent s' where x: "x = (intent, s')" by (cases x)
  have "hosted_step s s'" using Inr by (auto simp: x intro: hosted_step.create_upi)
  then show ?thesis using assms [of s' intent] by (simp add: create_upi_def Inr x)
qed (simp add: create_upi_def)

lemma mandate_steps:
  "hosted_step\<^sup>*\<^sup>* s (snd (case call_upi_gateway gw ids now code intent s of (Inl e, s2) \<Rightarrow> (Inl e, s2) | (Inr (r, g), s2) \<Rightarrow>
     (case CompleteUPIIntent cids now (k r) ev (gref g) s2 of Inl e \<Rightarrow> (Inl e, s2) | Inr ((out, b), s3) \<Rightarrow> (Inr out, s3))))"
proof -
  obtain x s2 where c: "call_upi_gateway gw ids now code intent s = (x, s2)" by (cases "call_upi_gateway gw ids now code intent s")
  then have "hosted_step\<^sup>*\<^sup>* s s2" using call_upi_steps [of s gw ids now code intent] by simp
  then show ?thesis by (auto simp: c split: sum.split intro: hosted_step.complete_upi rtranclp.rtrancl_into_rtrancl)
qed

lemma attach_steps:
  "hosted_step\<^sup>*\<^sup>* s (snd (case call_upi_gateway gw ids now code intent s of (Inl e, s2) \<Rightarrow> (Inl e, s2) | (Inr (r, g), s2) \<Rightarrow> (Inr r, s2)))"
  using call_upi_steps [of s gw ids now code intent] by (auto split: prod.split sum.split)

lemma upi_service_steps:
  "hosted_step\<^sup>*\<^sup>* s (snd (CreateUPIIntentService upi ids now expiresIn inp s))" "hosted_step\<^sup>*\<^sup>* s (snd (CreateUPIQR upi ids now expiresIn inp s))"
  "hosted_step\<^sup>*\<^sup>* s (snd (CreateUPIMandateCharge upi ids now inp s))"
  by (auto simp: CreateUPIIntentService_def CreateUPIQR_def CreateUPIMandateCharge_def split: option.split sum.split
      intro!: create_upi_steps attach_steps mandate_steps)

text \<open>A poll first records its time, then runs one operation on what it read.\<close>

lemma polled_upi: "PollUPIIntentRepo m i now h = Inr h' \<Longrightarrow> hosted_step\<^sup>*\<^sup>* (db, h') s' \<Longrightarrow> hosted_step\<^sup>*\<^sup>* (db, h) s'"
  by (rule converse_rtranclp_into_rtranclp) (rule hosted_step.poll_upi)

lemma polled_redirect: "PollRedirectSessionRepo m i now h = Inr h' \<Longrightarrow> hosted_step\<^sup>*\<^sup>* (db, h') s' \<Longrightarrow> hosted_step\<^sup>*\<^sup>* (db, h) s'"
  by (rule converse_rtranclp_into_rtranclp) (rule hosted_step.poll_redirect)

lemma PollUPIIntent_steps: "hosted_step\<^sup>*\<^sup>* s (snd (PollUPIIntent upi ids now m i s))"
  by (cases s) (auto simp: PollUPIIntent_def Let_def split: option.split sum.split provider_status.split intro: upi_steps polled_upi)

lemma PollRedirectSession_steps: "hosted_step\<^sup>*\<^sup>* s (snd (PollRedirectSession gw ids now m i s))"
  by (cases s) (auto simp: PollRedirectSession_def Let_def split: option.split sum.split provider_status.split intro: redirect_steps polled_redirect)

lemma ApplyUPICallback_steps: "hosted_step\<^sup>*\<^sup>* s (snd (ApplyUPICallback ids now cb s))"
proof -
  define x where "x = (if sc_MerchantID cb = '''' then ResolveUPIIntentMerchant (sc_PaymentID cb) (sc_CallbackToken cb) (snd s) else Inr (sc_MerchantID cb))"
  show ?thesis unfolding ApplyUPICallback_def Let_def x_def [symmetric] by (simp add: upi_steps split: sum.split)
qed

lemma ApplyRedirectCallback_steps: "hosted_step\<^sup>*\<^sup>* s (snd (ApplyRedirectCallback ids now cb s))"
  by (simp add: ApplyRedirectCallback_def Let_def redirect_steps split: sum.split)

lemma CreateRedirectSession_steps: "hosted_step\<^sup>*\<^sup>* s (snd (CreateRedirectSession gw ids now expiresIn inp s))"
proof -
  have after: "hosted_step\<^sup>*\<^sup>* s s2" if "CreateRedirectSessionRepo a e now inp' s = Inr (x, s1)" "hosted_step\<^sup>*\<^sup>* s1 s2" for a e inp' x s1 s2
    using hosted_step.create_redirect [OF that(1)] that(2) by (rule converse_rtranclp_into_rtranclp)
  have attach: "hosted_step\<^sup>*\<^sup>* s1 s2" if "AttachRedirectGatewayData m i g s1 = Inr (x, s2)" for m i g x s1 s2
    using hosted_step.attach_redirect [OF that] by blast
  have run: "hosted_step\<^sup>*\<^sup>* s (snd (case CreateRedirectSessionRepo a e now inp' s of Inl e \<Rightarrow> (Inl e, s) | Inr (session, s1) \<Rightarrow>
      (case hg_CreateRedirect g session of
         Inl e \<Rightarrow> (Inl (ErrHostedGateway e), snd (run_op (FailRedirectSession (hi_FailEvent ids) now (cr_PaymentID (fst session)) '''' ProviderFailed ''REDIRECT_GATEWAY_ERROR'' e) s1))
       | Inr res \<Rightarrow> (case AttachRedirectGatewayData (cr_MerchantID (fst session)) (cr_PaymentID (fst session)) res s1 of
                       Inl e \<Rightarrow> (Inl e, s1) | Inr (r, s2) \<Rightarrow> (Inr r, s2)))))" for a e inp' g
    by (auto split: sum.split prod.split intro: after redirect_steps(3) attach)
  have either: "hosted_step\<^sup>*\<^sup>* s (snd x) \<Longrightarrow> hosted_step\<^sup>*\<^sup>* s (snd y) \<Longrightarrow> hosted_step\<^sup>*\<^sup>* s (snd (if b then x else y))"
    for b and x y :: "(hosted_error + redirect_result) \<times> 'a hosted_state" by simp
  show ?thesis
  proof (cases gw)
    case (Some g)
    show ?thesis unfolding CreateRedirectSession_def Let_def Some option.case by (rule either either run rtranclp.rtrancl_refl | simp only: snd_conv)+
  qed (simp add: CreateRedirectSession_def)
qed

lemmas session_service_steps = upi_service_steps PollUPIIntent_steps PollRedirectSession_steps ApplyUPICallback_steps ApplyRedirectCallback_steps
  CreateRedirectSession_steps

section \<open>Callback events\<close>

definition receipts :: "hosted_db \<Rightarrow> id set" where
  "receipts h = fst ` set (hd_upi_events h)"

lemma lock_receipts: "lockUPIIntentTx i ev s = Inr (x, flag, h) \<Longrightarrow> receipts (snd s) \<subseteq> receipts h \<and> (ev \<noteq> '''' \<longrightarrow> ev \<in> receipts h)"
  by (cases s) (auto simp: lockUPIIntentTx_def receipts_def insert_event_def split: option.split_asm if_split_asm)

lemma with_upi_receipts:
  assumes "with_upi i ev act f s = Inr (r, s')" shows "receipts (snd s) \<subseteq> receipts (snd s') \<and> (ev \<noteq> '''' \<longrightarrow> ev \<in> receipts (snd s'))"
proof -
  obtain p d flag h where l: "lockUPIIntentTx i ev s = Inr ((p, d), flag, h)" using assms by (auto simp: with_upi_def bindR_Inr_iff)
  have "receipts (snd s') = receipts h"
    using assms l by (auto simp: with_upi_def bindR_Inr_iff mapL_Inr_iff Let_def set_upi_def receipts_def split: if_split_asm)
  then show ?thesis using lock_receipts [OF l] by simp
qed

lemma with_redirect_receipts: "with_redirect i ev act f s = Inr (r, s') \<Longrightarrow> receipts (snd s') = receipts (snd s)"
  by (cases s; clarsimp simp: with_redirect_def lockRedirectSessionTx_def bindR_Inr_iff split: option.split_asm)
     (auto simp: mapL_Inr_iff bindR_Inr_iff Let_def set_redirect_def receipts_def split: if_split_asm)+

lemma hosted_step_receipts: "hosted_step s s' \<Longrightarrow> receipts (snd s) \<subseteq> receipts (snd s')"
proof (induction rule: hosted_step.induct)
  case (create_upi attemptID evtID now uin s r s')
  then show ?case by (auto simp: receipts_def elim!: CreateUPIIntent_Inr dest!: insert_upi_Inr)
next
  case (create_redirect attemptID evtID now xin s x s')
  then show ?case by (auto simp: receipts_def elim!: CreateRedirectSessionRepo_Inr dest!: insert_redirect_Inr)
next
  case (attach_upi m i g s r s')
  then show ?case by (cases s) (auto simp: AttachUPIIntentGatewayData_def Let_def bindR_Inr_iff receipts_def)
next
  case (attach_redirect m i xg s x s')
  then show ?case by (cases s) (auto simp: AttachRedirectGatewayData_def Let_def bindR_Inr_iff receipts_def)
next
  case (poll_upi m i at h h' db)
  then show ?case by (auto simp: PollUPIIntentRepo_def Let_def receipts_def split: if_split_asm)
next
  case (poll_redirect m i at h h' db)
  then show ?case by (auto simp: PollRedirectSessionRepo_def Let_def receipts_def split: if_split_asm)
qed (auto simp: MarkUPIIntentProcessing_def CompleteUPIIntent_def FailUPIIntent_def MarkRedirectProcessing_def CompleteRedirectSession_def
      FailRedirectSession_def dest: with_upi_receipts with_redirect_receipts)

lemma run_receipts: "hosted_step\<^sup>*\<^sup>* s s' \<Longrightarrow> receipts (snd s) \<subseteq> receipts (snd s')"
  by (induction rule: rtranclp_induct) (auto dest: hosted_step_receipts)

text \<open>An outcome for an event that was received leaves everything as it is.\<close>

lemma with_upi_replay: "ev \<in> receipts (snd s) \<Longrightarrow> ev \<noteq> '''' \<Longrightarrow> with_upi i ev act f s = Inr (r, s') \<Longrightarrow> s' = s"
  by (cases s) (auto simp: with_upi_def lockUPIIntentTx_def receipts_def insert_event_def bindR_Inr_iff split: option.split_asm)

lemma run_op_replay:
  assumes "ev \<in> receipts (snd s)" "ev \<noteq> ''''"
  shows "snd (run_op (MarkUPIIntentProcessing i ev) s) = s" "snd (run_op (CompleteUPIIntent cids now i ev gref) s) = s"
    "snd (run_op (FailUPIIntent e now i ev st code desc) s) = s"
  using with_upi_replay [OF assms] 
  by (auto simp: run_op_def MarkUPIIntentProcessing_def CompleteUPIIntent_def FailUPIIntent_def split: sum.split)

lemma run_op_receipt:
  "run_op (MarkUPIIntentProcessing i ev) s = (Inr x, s') \<Longrightarrow> ev \<noteq> '''' \<Longrightarrow> ev \<in> receipts (snd s')"
  "run_op (CompleteUPIIntent cids now i ev gref) s = (Inr x, s') \<Longrightarrow> ev \<noteq> '''' \<Longrightarrow> ev \<in> receipts (snd s')"
  "run_op (FailUPIIntent e now i ev st code desc) s = (Inr x, s') \<Longrightarrow> ev \<noteq> '''' \<Longrightarrow> ev \<in> receipts (snd s')"
  by (auto simp: run_op_def MarkUPIIntentProcessing_def CompleteUPIIntent_def FailUPIIntent_def split: sum.split_asm dest: with_upi_receipts)

section \<open>Properties\<close>

lemma hosted_inv_start:
  assumes "db_payments db = []" "posted_captures (db_ledger db) = []" "hosted_ids h = {}" shows "hosted_inv (db, h)"
  using assms by (simp add: hosted_inv_def claims_inv_def abs_claims_def posted_ok_def)

text \<open>
  C9: However card authorizations, captures, UPI intents, QR and mandate charges, redirects, their callbacks, polls and
  expiries interleave, a captured payment has exactly one ledger transaction, for its amount, and a payment that is not
  captured has none.
\<close>

theorem session_capture_posted_once:
  assumes run: "hosted_step\<^sup>*\<^sup>* (db, h) (db', h')"
    and start: "db_payments db = []" "posted_captures (db_ledger db) = []" "hosted_ids h = {}"
    and p: "p \<in> set (db_payments db')"
  shows "map lt_TotalDebit (filter (\<lambda>t. source_of t = (''payment'', p_ID p)) (ledger_transactions (db_ledger db')))
    = (if p_Status p = Captured then [i64 (p_Amount p)] else [])"
proof -
  have "claims_inv (abs_claims db')" using hosted.inv_steps [OF run hosted_inv_start [OF start]] by (simp add: hosted_inv_def)
  then show ?thesis using p by (intro posted_transactions) (simp_all add: claims_inv_def abs_claims_def unique_key_def)
qed

lemma run_follows:
  assumes "hosted_step\<^sup>*\<^sup>* s s'" "hosted_inv s" "c \<in> set (fst (abs_claims (fst s)))"
  shows "\<exists>c' \<in> set (fst (abs_claims (fst s'))). follows c c' \<and> (c_Status c \<in> session_states \<longrightarrow> c_Status c' \<in> session_states)"
  using assms(1)
proof (induction rule: rtranclp_induct)
  case base
  then show ?case using assms(3) follows_refl by blast
next
  case (step t u)
  have inv: "hosted_inv t" using hosted.inv_steps step.hyps(1) assms(2) by blast
  then have "claim_step (abs_claims (fst t)) (abs_claims (fst u))" "claims_inv (abs_claims (fst t))"
    using hosted_step_session [OF step.hyps(2)] by (simp_all add: session_step_def hosted_inv_def)
  then show ?case using step.IH claim_step_session follows_trans by meson
qed

text \<open>
  C10: Over any such interleaving a payment keeps its identity and amount and moves along the transition table, in at
  most three steps; a hosted session never becomes an authorization or a refund.
\<close>

theorem session_follows_table:
  assumes "hosted_step\<^sup>*\<^sup>* s s'" "hosted_inv s" "p \<in> set (db_payments (fst s))"
  shows "\<exists>p' \<in> set (db_payments (fst s')). p_ID p' = p_ID p \<and> p_MerchantID p' = p_MerchantID p \<and> p_OrderID p' = p_OrderID p
    \<and> p_Amount p' = p_Amount p \<and> (p_Status p \<in> session_states \<longrightarrow> p_Status p' \<in> session_states)
    \<and> (\<exists>evs. length evs \<le> 3 - payment_rank (p_Status p) \<and> run_machine Transition (p_Status p) evs = Inr (p_Status p'))"
proof -
  have "claim_of p \<in> set (fst (abs_claims (fst s)))" using assms(3) by (simp add: abs_claims_def)
  from run_follows [OF assms(1,2) this] show ?thesis
    using pm.run_bounded by (fastforce simp: abs_claims_def follows_def claim_of_def)
qed


section \<open>Concrete sessions\<close>

definition empty_hosted :: hosted_db where
  "empty_hosted = \<lparr>hd_upi = [], hd_upi_events = [], hd_redirects = [], hd_redirect_events = [], hd_mandates = []\<rparr>"

definition sample_upi :: "int \<Rightarrow> string \<Rightarrow> upi_input" where
  "sample_upi amount key = \<lparr>ui_PaymentID = ''p2'', ui_MerchantID = ''m1'', ui_OrderID = ''o1'', ui_Amount = amount, ui_Currency = ''INR'', ui_IdempotencyKey = key,
     ui_FlowType = ''intent'', ui_MandateID = '''', ui_QRMode = '''', ui_QRPayload = '''', ui_QRImageURL = '''', ui_DisplayName = '''', ui_IsReusable = False,
     ui_VPA = ''a@b'', ui_ExpiresAt = 300, ui_CallbackToken = ''tok''\<rparr>"

lemmas session_eval = pay_eval empty_hosted_def sample_upi_def CreateUPIIntent_def open_session_def session_admits_def insert_upi_def new_upi_detail_def
  session_started_def upi_payment_input_def CompleteUPIIntent_def FailUPIIntent_def AbandonUPIIntent_def with_upi_def lockUPIIntentTx_def payment_by_id_def
  upi_row_def insert_event_def GetUPIIntent_def upi_view_def set_upi_def collect_session_def session_entries_def nonempty_or_def fail_session_def
  set_attempts_of_def session_over_def fail_order_def methodStateForFailure_def


text \<open>
  Abandoning a session does not ask whose it is: another merchant is told that there is no such intent, and the
  payment has failed.
\<close>

theorem abandon_crosses_merchants:
  "\<exists>r s1 s2. CreateUPIIntent ''a2'' ''e5'' 8 (sample_upi 500 ''k2'') (sample_pay_db, empty_hosted) = Inr (r, s1)
     \<and> map p_Status (db_payments (fst s1)) = [PendingCustomerAction]
     \<and> AbandonUPIIntent ''e6'' 9 ''m2'' ''p2'' ''left'' s1 = (Inl ErrUPIIntentNotFound, s2)
     \<and> map p_Status (db_payments (fst s2)) = [Failed]"
  by (simp add: session_eval)

text \<open>A session of 500 that is collected, as a run.\<close>

lemma sample_session_run:
  obtains s1 db h r where "hosted_step\<^sup>*\<^sup>* (sample_pay_db, empty_hosted) s1" "map p_ID (db_payments (fst s1)) = [''p2'']"
    "map p_Status (db_payments (fst s1)) = [PendingCustomerAction]"
    "CompleteUPIIntent (''t2'', ''e6'', ''e7'') 9 ''p2'' ''ev1'' ''g2'' s1 = Inr (r, (db, h))" "hosted_step\<^sup>*\<^sup>* (sample_pay_db, empty_hosted) (db, h)"
    "map p_Status (db_payments db) = [Captured]" "map p_Amount (db_payments db) = [500]"
proof -
  obtain r1 s1 r2 db h where c: "CreateUPIIntent ''a2'' ''e5'' 8 (sample_upi 500 ''k2'') (sample_pay_db, empty_hosted) = Inr (r1, s1)"
      "CompleteUPIIntent (''t2'', ''e6'', ''e7'') 9 ''p2'' ''ev1'' ''g2'' s1 = Inr (r2, (db, h))"
    and ok: "map p_ID (db_payments (fst s1)) = [''p2'']" "map p_Status (db_payments (fst s1)) = [PendingCustomerAction]"
      "map p_Status (db_payments db) = [Captured]" "map p_Amount (db_payments db) = [500]"
    by (simp add: session_eval)
  from c have "hosted_step (sample_pay_db, empty_hosted) s1" "hosted_step s1 (db, h)" by (blast intro: hosted_step.intros)+
  then show thesis using that c(2) ok by (meson converse_rtranclp_into_rtranclp rtranclp.rtrancl_refl)
qed

lemma sample_hosted_start: "db_payments sample_pay_db = []" "posted_captures (db_ledger sample_pay_db) = []" "hosted_ids empty_hosted = {}"
  by (simp_all add: sample_pay_start hosted_ids_def empty_hosted_def)

theorem session_capture_posted_once_witness:
  "\<exists>db h p. hosted_step\<^sup>*\<^sup>* (sample_pay_db, empty_hosted) (db, h) \<and> p \<in> set (db_payments db)
     \<and> map lt_TotalDebit (filter (\<lambda>t. source_of t = (''payment'', p_ID p)) (ledger_transactions (db_ledger db))) = [500]"
proof -
  obtain db h p where run: "hosted_step\<^sup>*\<^sup>* (sample_pay_db, empty_hosted) (db, h)" and p: "db_payments db = [p]" "p_Status p = Captured" "p_Amount p = 500"
    by (rule sample_session_run) (auto simp: map_eq_Cons_conv)
  have "i64 500 = 500" by (simp add: in64_def)
  then have "map lt_TotalDebit (filter (\<lambda>t. source_of t = (''payment'', p_ID p)) (ledger_transactions (db_ledger db))) = [500]"
    using session_capture_posted_once [OF run sample_hosted_start, of p] p by simp
  then show ?thesis using run p by (intro exI [of _ db] exI [of _ h] exI [of _ p]) simp
qed

theorem session_follows_table_witness:
  "\<exists>s. hosted_step\<^sup>*\<^sup>* (sample_pay_db, empty_hosted) s \<and> map p_Status (db_payments (fst s)) = [PendingCustomerAction]
     \<and> (\<exists>s'. hosted_step\<^sup>*\<^sup>* s s' \<and> (\<exists>p' \<in> set (db_payments (fst s')). p_ID p' = ''p2'' \<and> p_Status p' \<in> session_states))"
proof (rule sample_session_run)
  fix s1 db h r
  assume a: "hosted_step\<^sup>*\<^sup>* (sample_pay_db, empty_hosted) s1" "map p_ID (db_payments (fst s1)) = [''p2'']"
    "map p_Status (db_payments (fst s1)) = [PendingCustomerAction]" "CompleteUPIIntent (''t2'', ''e6'', ''e7'') 9 ''p2'' ''ev1'' ''g2'' s1 = Inr (r, (db, h))"
  obtain p where p: "p \<in> set (db_payments (fst s1))" "p_ID p = ''p2''" "p_Status p = PendingCustomerAction" using a(2,3) by (auto simp: map_eq_Cons_conv)
  have inv: "hosted_inv s1" by (rule hosted.inv_steps [OF a(1) hosted_inv_start [OF sample_hosted_start]])
  have run: "hosted_step\<^sup>*\<^sup>* s1 (db, h)" using a(4) by (blast intro: hosted_step.intros)
  show ?thesis using session_follows_table [OF run inv p(1)] a(1,3) run p by (intro exI [of _ s1] conjI exI [of _ "(db, h)"]) (auto simp: session_states_def)
qed

definition sample_upi_callback :: "string \<Rightarrow> session_callback" where
  "sample_upi_callback status = \<lparr>sc_MerchantID = '''', sc_PaymentID = ''p2'', sc_CallbackToken = ''tok'', sc_EventID = ''ev1'', sc_Status = status,
     sc_GatewayReference = ''g2'', sc_ErrorCode = ''E'', sc_ErrorDescription = ''declined''\<rparr>"

definition sample_session_ids :: session_ids where
  "sample_session_ids = \<lparr>hi_Payment = ''p2'', hi_Attempt = ''a2'', hi_Event = ''e5'', hi_FailEvent = ''e9'', hi_Token = ''tok'', hi_Capture = (''t2'', ''e6'', ''e7'')\<rparr>"


section \<open>Refused outcomes\<close>

text \<open>A failure needs a description: without one nothing is recorded and the session stays open.\<close>

lemma fail_without_description:
  "with_upi i ev (fail_session e now ms code '''') f s = Inr ((r, True), s') \<Longrightarrow> False"
  by (cases s) (auto simp: with_upi_def lockUPIIntentTx_def fail_session_def bindR_Inr_iff split: option.split_asm if_split_asm)

text \<open>An amount whose fee rounds to zero is never collected: the fee line is empty.\<close>

lemma small_session_never_collected:
  assumes "0 < p_Amount p" "p_Amount p < 50" shows "\<exists>e. collect_session ids now texts ms gref p db = Inl e"
proof -
  have "capture_fee (p_Amount p) = 0" using assms by (simp add: capture_fee_def quot64_nonneg in64_def)
  then show ?thesis
    using assms by (cases ids; cases texts) (simp add: collect_session_def session_entries_def ledger_line_def CreateEntriesTx_def ValidateEntries_def)
qed

text \<open>Without a key an order has one session: the key is stored as an empty text, which is a key too.\<close>

lemma second_keyless_session_refused:
  assumes "a \<in> set (db_attempts db)" "a_MerchantID a = ca_MerchantID inp" "a_OrderID a = ca_OrderID inp" "a_IdempotencyKey a = Some ''''" "ca_IdempotencyKey inp = ''''"
  shows "isl (open_session attemptID now ms inp db)"
  using assms by (auto simp: open_session_def session_admits_def insert_attempt_def attempt_conflict_def new_attempt_def Let_def list_ex_iff bindR_def split: option.split sum.split)

end
