(* ===== verification/Tokenization.thy ===== *)
theory Tokenization
  imports PaymentService
begin

text \<open>
  The card vault (\<open>internal/tokenization\<close>): the check of a card number, the tokens with their classes and states, their
  access log, and the vault as the token interface of the payment service. A single-use token is reserved by one
  authorization at a time; a release puts it back whatever became of it meanwhile. The merchant of a token is taken to
  exist.
\<close>

section \<open>Card numbers\<close>

definition is_digit :: "char \<Rightarrow> bool" where
  "is_digit c \<longleftrightarrow> 48 \<le> (of_char c :: int) \<and> (of_char c :: int) \<le> 57"

definition digitsOnly :: "string \<Rightarrow> string" where
  "digitsOnly v = filter is_digit v"

text \<open>\<open>pan[i] - '0'\<close> is a subtraction of bytes.\<close>

definition digit :: "char \<Rightarrow> int" where
  "digit c = (of_char c - 48) mod 256"

definition luhn_digit :: "bool \<Rightarrow> int \<Rightarrow> int" where
  "luhn_digit double d = (if double then if d * 2 > 9 then d * 2 - 9 else d * 2 else d)"

fun luhn_loop :: "bool \<Rightarrow> int \<Rightarrow> string \<Rightarrow> int option" where
  "luhn_loop double acc [] = Some acc"
| "luhn_loop double acc (c # cs) =
     (if digit c < 0 \<or> digit c > 9 then None else luhn_loop (\<not> double) (acc + luhn_digit double (digit c)) cs)"

definition validLuhn :: "string \<Rightarrow> bool" where
  "validLuhn pan \<longleftrightarrow> pan \<noteq> '''' \<and> (case luhn_loop False 0 (rev pan) of None \<Rightarrow> False | Some acc \<Rightarrow> acc mod 10 = 0)"

text \<open>The year and the month of the clock are arguments.\<close>

definition validExpiry :: "int \<Rightarrow> int \<Rightarrow> int \<times> int \<Rightarrow> bool" where
  "validExpiry month year now =
     (if month < 1 \<or> month > 12 then False
      else if year < fst now then False
      else if year = fst now \<and> month < snd now then False
      else year \<le> fst now + 25)"

definition Atoi :: "string \<Rightarrow> int" where
  "Atoi v = foldl (\<lambda>n c. n * 10 + digit c) 0 v"

definition betweenPrefix :: "string \<Rightarrow> int \<Rightarrow> int \<Rightarrow> bool" where
  "betweenPrefix v lo hi \<longleftrightarrow> v \<noteq> '''' \<and> list_all is_digit v \<and> lo \<le> Atoi v \<and> Atoi v \<le> hi"

definition inferBrand :: "string \<Rightarrow> string" where
  "inferBrand pan =
     (if prefix ''4'' pan then ''visa''
      else if prefix ''34'' pan \<or> prefix ''37'' pan then ''amex''
      else if prefix ''36'' pan \<or> prefix ''38'' pan \<or> prefix ''60'' pan then ''discover''
      else if 2 \<le> length pan \<and> betweenPrefix (take 2 pan) 51 55 then ''mastercard''
      else if 4 \<le> length pan \<and> betweenPrefix (take 4 pan) 2221 2720 then ''mastercard''
      else if prefix ''65'' pan then ''rupay'' else ''card'')"

text \<open>\<open>%0kd\<close> of a number that is not negative.\<close>

definition zero_padded :: "nat \<Rightarrow> int \<Rightarrow> string" where
  "zero_padded k n = (let s = decimal (nat n) in replicate (k - length s) (CHR ''0'') @ s)"

definition fingerprintHash :: "(string \<Rightarrow> string) \<Rightarrow> id \<Rightarrow> string \<Rightarrow> int \<Rightarrow> int \<Rightarrow> string" where
  "fingerprintHash sha merchantID pan expMonth expYear =
     sha (merchantID @ '':'' @ pan @ '':'' @ zero_padded 2 expMonth @ '':'' @ zero_padded 4 expYear)"

section \<open>Tokens\<close>

datatype token_class = SingleUse | Reusable

datatype token_status = TokenActive | TokenReserved | TokenConsumed | TokenDisabled

record card_metadata =
  me_IssuerName :: string
  me_IssuerCountry :: string
  me_CardCountry :: string
  me_FundingType :: string
  me_NetworkTokenType :: string

definition inferCardMetadata :: "string \<Rightarrow> string \<Rightarrow> card_metadata" where
  "inferCardMetadata pan networkReference =
     (let (issuer, funding) =
        (if prefix ''5'' pan \<or> prefix ''22'' pan then (''Sandbox Commercial Bank'', ''debit'')
         else if prefix ''65'' pan \<or> prefix ''60'' pan then (''Sandbox RuPay Bank'', ''prepaid'')
         else (''Sandbox Bank'', ''credit'')) in
      \<lparr>me_IssuerName = issuer, me_IssuerCountry = ''IN'', me_CardCountry = ''IN'', me_FundingType = funding,
       me_NetworkTokenType = (if TrimSpace networkReference \<noteq> '''' then ''network_token'' else ''pan_token'')\<rparr>)"

text \<open>A row of \<open>card_tokens\<close>; its metadata column holds the five entries the service writes.\<close>

record card_token =
  tk_ID :: id
  tk_MerchantID :: id
  tk_TokenClass :: token_class
  tk_Status :: token_status
  tk_FingerprintHash :: string
  tk_Last4 :: string
  tk_BIN :: string
  tk_Brand :: string
  tk_ExpMonth :: int
  tk_ExpYear :: int
  tk_CustomerRef :: string
  tk_NetworkReference :: string
  tk_Metadata :: card_metadata
  tk_CreatedAt :: time
  tk_LastUsedAt :: "time option"
  tk_ConsumedAt :: "time option"
  tk_DisabledAt :: "time option"
  tk_ReservedAt :: "time option"
  tk_ReservedPaymentID :: id

record token_access =
  ta_ID :: id
  ta_TokenID :: id
  ta_MerchantID :: id
  ta_PaymentID :: id
  ta_Action :: string
  ta_Reason :: string
  ta_Actor :: string

record vault =
  vt_tokens :: "card_token list"
  vt_audit :: "token_access list"

datatype token_error =
  ErrInvalidCardNumber | ErrInvalidExpiry | ErrCardTokenNotFound | ErrCardTokenInactive | ErrCardTokenExists | TokenDB

definition getCardTokenTx :: "id \<Rightarrow> id \<Rightarrow> vault \<Rightarrow> token_error + card_token" where
  "getCardTokenTx m i v =
     (case find (\<lambda>t. tk_ID t = i \<and> tk_MerchantID t = m) (vt_tokens v) of None \<Rightarrow> Inl ErrCardTokenNotFound | Some t \<Rightarrow> Inr t)"

definition writeAuditTx :: "id \<Rightarrow> id \<Rightarrow> id \<Rightarrow> id \<Rightarrow> string \<Rightarrow> string \<Rightarrow> string \<Rightarrow> vault \<Rightarrow> token_error + vault" where
  "writeAuditTx auditID tokenID m paymentID action reason actor v =
     (if auditID \<in> ta_ID ` set (vt_audit v) \<or> tokenID \<notin> tk_ID ` set (vt_tokens v) then Inl TokenDB
      else Inr (v\<lparr>vt_audit := vt_audit v @ [\<lparr>ta_ID = auditID, ta_TokenID = tokenID, ta_MerchantID = m, ta_PaymentID = paymentID,
                                              ta_Action = action, ta_Reason = reason, ta_Actor = actor\<rparr>]\<rparr>))"

definition set_token :: "id \<Rightarrow> (card_token \<Rightarrow> card_token) \<Rightarrow> vault \<Rightarrow> vault" where
  "set_token i f v = v\<lparr>vt_tokens := upd_where (\<lambda>t. tk_ID t = i) f (vt_tokens v)\<rparr>"

text \<open>The partial index: one active token for a card of a merchant in each class.\<close>

definition card_key :: "card_token \<Rightarrow> id \<times> string \<times> token_class" where
  "card_key t = (tk_MerchantID t, tk_FingerprintHash t, tk_TokenClass t)"

definition active_clash :: "card_token \<Rightarrow> vault \<Rightarrow> bool" where
  "active_clash t v \<longleftrightarrow> list_ex (\<lambda>u. tk_ID u \<noteq> tk_ID t \<and> tk_Status u = TokenActive \<and> card_key u = card_key t) (vt_tokens v)"

definition CreateCardTokenRepo :: "id \<Rightarrow> card_token \<Rightarrow> vault \<Rightarrow> token_error + card_token \<times> vault" where
  "CreateCardTokenRepo auditID t v =
     (if tk_ExpMonth t \<notin> {1..12} \<or> tk_ExpYear t \<notin> {2000..2200} then Inl TokenDB
      else if tk_ID t \<in> tk_ID ` set (vt_tokens v) \<or> active_clash t v then Inl ErrCardTokenExists
      else bindR (writeAuditTx auditID (tk_ID t) (tk_MerchantID t) '''' ''tokenized'' '''' ''merchant_api'' (v\<lparr>vt_tokens := vt_tokens v @ [t]\<rparr>)) (\<lambda>v'.
        Inr (t, v')))"

definition ListCardTokensRepo :: "id \<Rightarrow> string \<Rightarrow> int \<Rightarrow> vault \<Rightarrow> card_token list" where
  "ListCardTokensRepo m customerRef limit v =
     take (nat limit) (sort_key (\<lambda>t. - tk_CreatedAt t)
       (filter (\<lambda>t. tk_MerchantID t = m \<and> (customerRef = '''' \<or> tk_CustomerRef t = customerRef)) (vt_tokens v)))"

definition GetCardTokenRepo :: "id \<Rightarrow> id \<Rightarrow> id \<Rightarrow> string \<Rightarrow> string \<Rightarrow> string \<Rightarrow> vault \<Rightarrow> token_error + card_token \<times> vault" where
  "GetCardTokenRepo auditID m i action reason actor v =
     bindR (getCardTokenTx m i v) (\<lambda>t.
     bindR (writeAuditTx auditID (tk_ID t) (tk_MerchantID t) '''' action reason actor v) (\<lambda>v'. Inr (t, v')))"

definition PrepareCardTokenAuthorization :: "id \<Rightarrow> id \<Rightarrow> id \<Rightarrow> id \<Rightarrow> time \<Rightarrow> vault \<Rightarrow> token_error + card_token \<times> vault" where
  "PrepareCardTokenAuthorization auditID m i paymentID usedAt v =
     bindR (getCardTokenTx m i v) (\<lambda>t.
       if tk_Status t \<noteq> TokenActive then Inl ErrCardTokenInactive
       else
       let (t', v1) =
         (if tk_TokenClass t = SingleUse
          then (t\<lparr>tk_Status := TokenReserved, tk_LastUsedAt := Some usedAt\<rparr>,
                set_token i (\<lambda>u. u\<lparr>tk_Status := TokenReserved, tk_LastUsedAt := Some usedAt, tk_ReservedAt := Some usedAt, tk_ReservedPaymentID := paymentID\<rparr>) v)
          else (t\<lparr>tk_LastUsedAt := Some usedAt\<rparr>, set_token i (\<lambda>u. u\<lparr>tk_LastUsedAt := Some usedAt\<rparr>) v)) in
       bindR (writeAuditTx auditID (tk_ID t) (tk_MerchantID t) paymentID ''authorize'' '''' ''payment_service'' v1) (\<lambda>v'. Inr (t', v')))"

text \<open>Neither the state of the token nor the payment that holds it is looked at.\<close>

definition CompleteCardTokenAuthorization ::
  "id \<Rightarrow> id \<Rightarrow> id \<Rightarrow> id \<Rightarrow> bool \<Rightarrow> string \<Rightarrow> time \<Rightarrow> vault \<Rightarrow> token_error + vault" where
  "CompleteCardTokenAuthorization auditID m i paymentID success reason usedAt v =
     bindR (getCardTokenTx m i v) (\<lambda>t.
     bindR (if tk_TokenClass t \<noteq> SingleUse then Inr v
            else if success then
              Inr (set_token i (\<lambda>u. u\<lparr>tk_Status := TokenConsumed, tk_ConsumedAt := Some usedAt, tk_ReservedAt := None, tk_ReservedPaymentID := ''''\<rparr>) v)
            else if active_clash t v then Inl TokenDB
            else Inr (set_token i (\<lambda>u. u\<lparr>tk_Status := TokenActive, tk_ReservedAt := None, tk_ReservedPaymentID := ''''\<rparr>) v)) (\<lambda>v1.
       writeAuditTx auditID (tk_ID t) (tk_MerchantID t) paymentID (if success then ''authorize_complete'' else ''authorize_release'') reason
         ''payment_service'' v1))"

definition DisableCardTokenRepo :: "id \<Rightarrow> id \<Rightarrow> id \<Rightarrow> string \<Rightarrow> string \<Rightarrow> time \<Rightarrow> vault \<Rightarrow> token_error + card_token \<times> vault" where
  "DisableCardTokenRepo auditID m i reason actor disabledAt v =
     bindR (getCardTokenTx m i v) (\<lambda>t.
       let (t', v1) = (if tk_Status t = TokenDisabled then (t, v)
             else (t\<lparr>tk_Status := TokenDisabled, tk_DisabledAt := Some disabledAt\<rparr>,
                   set_token i (\<lambda>u. u\<lparr>tk_Status := TokenDisabled, tk_DisabledAt := Some disabledAt\<rparr>) v)) in
       bindR (writeAuditTx auditID (tk_ID t) (tk_MerchantID t) '''' ''disable'' reason actor v1) (\<lambda>v'. Inr (t', v')))"

section \<open>The service\<close>

record create_token_input =
  ct_MerchantID :: id
  ct_CardNumber :: string
  ct_ExpMonth :: int
  ct_ExpYear :: int
  ct_CustomerRef :: string
  ct_IsReusable :: bool
  ct_NetworkReference :: string

definition new_token :: "(string \<Rightarrow> string) \<Rightarrow> id \<Rightarrow> time \<Rightarrow> create_token_input \<Rightarrow> string \<Rightarrow> card_token" where
  "new_token sha tokenID now inp pan =
     \<lparr>tk_ID = tokenID, tk_MerchantID = ct_MerchantID inp, tk_TokenClass = (if ct_IsReusable inp then Reusable else SingleUse), tk_Status = TokenActive,
      tk_FingerprintHash = fingerprintHash sha (ct_MerchantID inp) pan (ct_ExpMonth inp) (ct_ExpYear inp), tk_Last4 = drop (length pan - 4) pan,
      tk_BIN = take 6 pan, tk_Brand = inferBrand pan, tk_ExpMonth = ct_ExpMonth inp, tk_ExpYear = ct_ExpYear inp,
      tk_CustomerRef = TrimSpace (ct_CustomerRef inp), tk_NetworkReference = TrimSpace (ct_NetworkReference inp),
      tk_Metadata = inferCardMetadata pan (ct_NetworkReference inp), tk_CreatedAt = now, tk_LastUsedAt = None, tk_ConsumedAt = None,
      tk_DisabledAt = None, tk_ReservedAt = None, tk_ReservedPaymentID = ''''\<rparr>"

definition CreateCardToken ::
  "(string \<Rightarrow> string) \<Rightarrow> id \<times> id \<Rightarrow> time \<Rightarrow> int \<times> int \<Rightarrow> create_token_input \<Rightarrow> vault \<Rightarrow> token_error + card_token \<times> vault" where
  "CreateCardToken sha ids now today inp v =
     (let pan = digitsOnly (ct_CardNumber inp) in
      if \<not> validLuhn pan \<or> length pan < 12 \<or> length pan > 19 then Inl ErrInvalidCardNumber
      else if \<not> validExpiry (ct_ExpMonth inp) (ct_ExpYear inp) today then Inl ErrInvalidExpiry
      else if ct_MerchantID inp = '''' then Inl ErrCardTokenNotFound
      else CreateCardTokenRepo (snd ids) (new_token sha (fst ids) now inp pan) v)"

definition GetCardToken :: "id \<Rightarrow> id \<Rightarrow> id \<Rightarrow> vault \<Rightarrow> token_error + card_token \<times> vault" where
  "GetCardToken auditID m i = GetCardTokenRepo auditID m i ''view'' '''' ''merchant_api''"

definition ListCardTokens :: "id \<Rightarrow> string \<Rightarrow> int \<Rightarrow> vault \<Rightarrow> card_token list" where
  "ListCardTokens m customerRef limit = ListCardTokensRepo m (TrimSpace customerRef) (if limit \<le> 0 \<or> limit > 100 then 50 else limit)"

definition DisableCardToken :: "id \<Rightarrow> time \<Rightarrow> id \<Rightarrow> id \<Rightarrow> string \<Rightarrow> vault \<Rightarrow> token_error + card_token \<times> vault" where
  "DisableCardToken auditID now m i reason = DisableCardTokenRepo auditID m i reason ''merchant_api'' now"

fun class_text :: "token_class \<Rightarrow> string" where
  "class_text SingleUse = ''single_use''"
| "class_text Reusable = ''reusable''"

definition reference_of :: "card_token \<Rightarrow> card_ref" where
  "reference_of t =
     \<lparr>rf_TokenClass = class_text (tk_TokenClass t), rf_Brand = tk_Brand t, rf_Last4 = tk_Last4 t, rf_ExpMonth = tk_ExpMonth t, rf_ExpYear = tk_ExpYear t,
      rf_IssuerName = me_IssuerName (tk_Metadata t), rf_IssuerCountry = me_IssuerCountry (tk_Metadata t), rf_CardCountry = me_CardCountry (tk_Metadata t),
      rf_FundingType = me_FundingType (tk_Metadata t), rf_NetworkTokenType = me_NetworkTokenType (tk_Metadata t)\<rparr>"

definition PrepareAuthorization :: "id \<Rightarrow> time \<Rightarrow> id \<Rightarrow> id \<Rightarrow> id \<Rightarrow> vault \<Rightarrow> token_error + card_ref \<times> vault" where
  "PrepareAuthorization auditID now m i paymentID v =
     bindR (PrepareCardTokenAuthorization auditID m i paymentID now v) (\<lambda>(t, v'). Inr (reference_of t, v'))"

definition CompleteAuthorization :: "id \<Rightarrow> time \<Rightarrow> id \<Rightarrow> id \<Rightarrow> id \<Rightarrow> bool \<Rightarrow> string \<Rightarrow> vault \<Rightarrow> token_error + vault" where
  "CompleteAuthorization auditID now m i paymentID success reason v =
     CompleteCardTokenAuthorization auditID m i paymentID success reason now v"

fun token_error_text :: "token_error \<Rightarrow> string" where
  "token_error_text ErrInvalidCardNumber = ''invalid card number''"
| "token_error_text ErrInvalidExpiry = ''invalid card expiry''"
| "token_error_text ErrCardTokenNotFound = ''card token not found''"
| "token_error_text ErrCardTokenInactive = ''card token is not active''"
| "token_error_text ErrCardTokenExists = ''an active token already exists for this card''"
| "token_error_text TokenDB = ''database error''"

text \<open>The vault as what the payment service calls; \<open>ids\<close> are the identifiers of the two log rows.\<close>

definition vault_tokens :: "id \<times> id \<Rightarrow> time \<Rightarrow> vault card_tokens" where
  "vault_tokens ids now =
     \<lparr>ct_PrepareAuthorization = (\<lambda>m i paymentID v.
        case PrepareAuthorization (fst ids) now m i paymentID v of Inl e \<Rightarrow> (Inl (token_error_text e), v) | Inr (r, v') \<Rightarrow> (Inr r, v')),
      ct_CompleteAuthorization = (\<lambda>m i paymentID success reason v.
        case CompleteAuthorization (snd ids) now m i paymentID success reason v of Inl e \<Rightarrow> (False, v) | Inr v' \<Rightarrow> (True, v'))\<rparr>"

section \<open>The checksum\<close>

text \<open>The sum of the digits, every second one from the right doubled.\<close>

fun luhn_value :: "bool \<Rightarrow> int list \<Rightarrow> int" where
  "luhn_value double [] = 0"
| "luhn_value double (d # ds) = luhn_digit double d + luhn_value (\<not> double) ds"

lemma digit_range: "is_digit c \<longleftrightarrow> digit c \<le> 9"
proof -
  have "0 \<le> (of_char c :: int)" "(of_char c :: int) < 256" by (simp_all add: of_char_def horner_sum_foldr split: char.split)
  moreover have "(of_char c - 48 :: int) mod 256 = (of_char c - 48 + 256) mod 256" by (simp only: mod_add_self2)
  ultimately show ?thesis by (cases "(of_char c :: int) < 48") (auto simp: is_digit_def digit_def)
qed

lemma digit_nonneg [simp]: "0 \<le> digit c"
  by (simp add: digit_def)

lemma luhn_loop_value:
  "luhn_loop double acc cs = (if list_all is_digit cs then Some (acc + luhn_value double (map digit cs)) else None)"
  by (induction cs arbitrary: double acc) (auto simp: digit_range add.assoc, metis digit_nonneg leD)

lemma validLuhn_value: "validLuhn pan \<longleftrightarrow> pan \<noteq> '''' \<and> list_all is_digit pan \<and> luhn_value False (rev (map digit pan)) mod 10 = 0"
  by (simp add: validLuhn_def luhn_loop_value rev_map)

lemma luhn_value_append: "luhn_value b (xs @ ys) = luhn_value b xs + luhn_value (b \<noteq> odd (length xs)) ys"
proof (induction xs arbitrary: b)
  case (Cons x xs)
  have "(\<not> b) \<noteq> odd (length xs) \<longleftrightarrow> b \<noteq> odd (length (x # xs))" by auto
  then show ?case by (simp add: Cons.IH)
qed simp

lemma luhn_digit_mod:
  assumes "0 \<le> d" "d \<le> 9" "0 \<le> e" "e \<le> 9" shows "luhn_digit b d mod 10 = luhn_digit b e mod 10 \<longleftrightarrow> d = e"
proof (cases b)
  case True
  then show ?thesis using assms unfolding luhn_digit_def by simp presburger
qed (use assms in \<open>simp add: luhn_digit_def\<close>)

lemma ten_digits: "0 \<le> d \<Longrightarrow> d \<le> 9 \<Longrightarrow> d = 0 \<or> d = 1 \<or> d = 2 \<or> d = 3 \<or> d = 4 \<or> d = 5 \<or> d = 6 \<or> d = 7 \<or> d = 8 \<or> d = (9::int)"
  by arith

lemma mod_ten_cancel: "(a + x) mod 10 = 0 \<Longrightarrow> (a + y) mod 10 = 0 \<Longrightarrow> x mod 10 = (y::int) mod 10"
proof -
  assume "(a + x) mod 10 = 0" "(a + y) mod 10 = 0"
  then have "10 dvd (a + x) - (a + y)" by (intro dvd_diff) (simp_all add: dvd_eq_mod_eq_0)
  then show ?thesis by (simp add: mod_eq_dvd_iff)
qed

lemma luhn_swap_mod:
  assumes "0 \<le> d" "d \<le> 9" "0 \<le> e" "e \<le> 9" "(luhn_digit b d + luhn_digit (\<not> b) e) mod 10 = (luhn_digit b e + luhn_digit (\<not> b) d) mod 10"
  shows "d = e \<or> {d, e} = {0, 9}"
  using ten_digits [OF assms(1,2)] ten_digits [OF assms(3,4)]
  by (elim disjE) (use assms(5) in \<open>cases b; simp add: luhn_digit_def insert_commute\<close>)+

lemma digit_inj: "is_digit c \<Longrightarrow> is_digit d \<Longrightarrow> digit c = digit d \<longleftrightarrow> c = d"
  unfolding is_digit_def digit_def by (simp add: mod_pos_pos_trivial)

lemma luhn_value_at:
  "luhn_value False (rev (map digit (xs @ c # ys))) = luhn_value False (rev (map digit ys)) + luhn_digit (odd (length ys)) (digit c)
     + luhn_value (even (length ys)) (rev (map digit xs))"
  by (simp add: luhn_value_append)

text \<open>
  C35: The check of a card number finds every mistyped digit: a number that passes with one digit replaced by another
  does not pass.
\<close>

theorem luhn_detects_digit_error:
  assumes "validLuhn (xs @ c # ys)" "is_digit c'" "c' \<noteq> c" shows "\<not> validLuhn (xs @ c' # ys)"
proof
  assume v: "validLuhn (xs @ c' # ys)"
  have d: "is_digit c" using assms(1) by (simp add: validLuhn_value)
  let ?a = "luhn_value False (rev (map digit ys)) + luhn_value (even (length ys)) (rev (map digit xs))"
  have "(?a + luhn_digit (odd (length ys)) (digit c)) mod 10 = 0" "(?a + luhn_digit (odd (length ys)) (digit c')) mod 10 = 0"
    using assms(1) v unfolding validLuhn_value luhn_value_at by (simp_all add: ac_simps)
  then have "luhn_digit (odd (length ys)) (digit c) mod 10 = luhn_digit (odd (length ys)) (digit c') mod 10" by (rule mod_ten_cancel)
  then have "digit c = digit c'" using d assms(2) by (simp add: luhn_digit_mod digit_range)
  then show False using digit_inj [OF d assms(2)] assms(3) by simp
qed

theorem luhn_detects_digit_error_witness:
  "validLuhn ''4242424242424242'' \<and> \<not> validLuhn ''4242424842424242''"
  using luhn_detects_digit_error [of "''4242424''" "CHR ''2''" "''42424242''" "CHR ''8''"]
  by (simp add: validLuhn_def digit_def luhn_digit_def is_digit_def)

text \<open>Two neighbours swapped are found too, but for 0 and 9.\<close>

lemma luhn_detects_swap:
  assumes "validLuhn (xs @ c # d # ys)" "c \<noteq> d" "{c, d} \<noteq> {CHR ''0'', CHR ''9''}" shows "\<not> validLuhn (xs @ d # c # ys)"
proof
  assume v: "validLuhn (xs @ d # c # ys)"
  have dig: "is_digit c" "is_digit d" using assms(1) by (simp_all add: validLuhn_value)
  let ?a = "luhn_value False (rev (map digit ys)) + luhn_value (odd (length ys)) (rev (map digit xs))"
  let ?b = "odd (length ys)"
  have "(?a + (luhn_digit ?b (digit d) + luhn_digit (\<not> ?b) (digit c))) mod 10 = 0" "(?a + (luhn_digit ?b (digit c) + luhn_digit (\<not> ?b) (digit d))) mod 10 = 0"
    using assms(1) v unfolding validLuhn_value by (simp_all add: luhn_value_append ac_simps)
  then have "(luhn_digit ?b (digit d) + luhn_digit (\<not> ?b) (digit c)) mod 10 = (luhn_digit ?b (digit c) + luhn_digit (\<not> ?b) (digit d)) mod 10"
    by (rule mod_ten_cancel)
  then have "digit d = digit c \<or> {digit d, digit c} = {0, 9}" using dig by (intro luhn_swap_mod [where b = ?b]) (simp_all add: digit_range)
  moreover have "digit (CHR ''0'') = 0" "digit (CHR ''9'') = 9" "is_digit (CHR ''0'')" "is_digit (CHR ''9'')" by (simp_all add: digit_def is_digit_def)
  ultimately have "c = d \<or> {c, d} = {CHR ''0'', CHR ''9''}" using dig digit_inj by (metis doubleton_eq_iff)
  then show False using assms(2,3) by blast
qed

section \<open>The vault's invariant\<close>

inductive vault_step :: "vault \<Rightarrow> vault \<Rightarrow> bool" where
  create: "CreateCardToken sha ids now today inp v = Inr (t, v') \<Longrightarrow> vault_step v v'"
| view: "GetCardToken auditID m i v = Inr (t, v') \<Longrightarrow> vault_step v v'"
| disable: "DisableCardToken auditID now m i reason v = Inr (t, v') \<Longrightarrow> vault_step v v'"
| prepare: "PrepareAuthorization auditID now m i paymentID v = Inr (r, v') \<Longrightarrow> vault_step v v'"
| complete: "CompleteAuthorization auditID now m i paymentID success reason v = Inr v' \<Longrightarrow> vault_step v v'"

text \<open>Only single-use tokens are reserved or consumed; each state has its time; card fields have their sizes.\<close>

definition token_ok :: "card_token \<Rightarrow> bool" where
  "token_ok t \<longleftrightarrow> (tk_Status t \<in> {TokenReserved, TokenConsumed} \<longrightarrow> tk_TokenClass t = SingleUse)
     \<and> (tk_Status t = TokenReserved \<longrightarrow> tk_ReservedAt t \<noteq> None) \<and> (tk_Status t = TokenConsumed \<longrightarrow> tk_ConsumedAt t \<noteq> None)
     \<and> (tk_Status t = TokenDisabled \<longrightarrow> tk_DisabledAt t \<noteq> None) \<and> length (tk_Last4 t) = 4 \<and> length (tk_BIN t) = 6
     \<and> tk_ExpMonth t \<in> {1..12} \<and> tk_ExpYear t \<in> {2000..2200}"

definition log_count :: "string \<Rightarrow> id \<Rightarrow> token_access list \<Rightarrow> nat" where
  "log_count action i log = length (filter (\<lambda>a. ta_Action a = action \<and> ta_TokenID a = i) log)"

definition uses_ok :: "token_access list \<Rightarrow> card_token \<Rightarrow> bool" where
  "uses_ok log t \<longleftrightarrow> (tk_TokenClass t = SingleUse \<longrightarrow>
     log_count ''authorize'' (tk_ID t) log \<le> log_count ''authorize_release'' (tk_ID t) log + (if tk_Status t = TokenActive then 0 else 1))"

definition vault_inv :: "vault \<Rightarrow> bool" where
  "vault_inv v \<longleftrightarrow> unique_key tk_ID (vt_tokens v) \<and> ta_TokenID ` set (vt_audit v) \<subseteq> tk_ID ` set (vt_tokens v)
     \<and> (\<forall>t \<in> set (vt_tokens v). token_ok t \<and> uses_ok (vt_audit v) t)
     \<and> (\<forall>t \<in> set (vt_tokens v). \<forall>u \<in> set (vt_tokens v).
          tk_Status t = TokenActive \<and> tk_Status u = TokenActive \<and> card_key t = card_key u \<longrightarrow> tk_ID t = tk_ID u)"

lemma vault_invD:
  assumes "vault_inv v"
  shows "unique_key tk_ID (vt_tokens v)" "t \<in> set (vt_tokens v) \<Longrightarrow> token_ok t" "t \<in> set (vt_tokens v) \<Longrightarrow> uses_ok (vt_audit v) t"
    "ta_TokenID ` set (vt_audit v) \<subseteq> tk_ID ` set (vt_tokens v)"
    "t \<in> set (vt_tokens v) \<Longrightarrow> u \<in> set (vt_tokens v) \<Longrightarrow> tk_Status t = TokenActive \<Longrightarrow> tk_Status u = TokenActive \<Longrightarrow> card_key t = card_key u \<Longrightarrow> tk_ID t = tk_ID u"
  using assms unfolding vault_inv_def by blast+

lemma vault_invI:
  assumes "unique_key tk_ID (vt_tokens v)" "\<And>t. t \<in> set (vt_tokens v) \<Longrightarrow> token_ok t" "\<And>t. t \<in> set (vt_tokens v) \<Longrightarrow> uses_ok (vt_audit v) t"
    "ta_TokenID ` set (vt_audit v) \<subseteq> tk_ID ` set (vt_tokens v)"
    "\<And>t u. t \<in> set (vt_tokens v) \<Longrightarrow> u \<in> set (vt_tokens v) \<Longrightarrow> tk_Status t = TokenActive \<Longrightarrow> tk_Status u = TokenActive \<Longrightarrow> card_key t = card_key u \<Longrightarrow> tk_ID t = tk_ID u"
  shows "vault_inv v"
  using assms unfolding vault_inv_def by blast

lemma log_count_append [simp]: "log_count a i (log @ [x]) = log_count a i log + (if ta_Action x = a \<and> ta_TokenID x = i then 1 else 0)"
  by (simp add: log_count_def)

lemma writeAudit_Inr:
  "writeAuditTx aid i m pay act reason actor v = Inr v' \<Longrightarrow> vt_tokens v' = vt_tokens v
     \<and> (\<exists>x. vt_audit v' = vt_audit v @ [x] \<and> ta_TokenID x = i \<and> ta_Action x = act) \<and> i \<in> tk_ID ` set (vt_tokens v)"
  by (auto simp: writeAuditTx_def split: if_split_asm)

lemma getCardTokenTx_Inr: "getCardTokenTx m i v = Inr t \<Longrightarrow> t \<in> set (vt_tokens v) \<and> tk_ID t = i \<and> tk_MerchantID t = m"
  by (auto simp: getCardTokenTx_def split: option.split_asm dest!: find_SomeD)

text \<open>
  Every operation on a token is a change of its row and a row of the log. The invariant survives when the new row is
  well formed, when an activation does not clash, and when the log accounts for the change.
\<close>

lemma vault_update:
  assumes inv: "vault_inv v" and t: "t \<in> set (vt_tokens v)"
    and w: "writeAuditTx aid (tk_ID t) m pay act reason actor (set_token (tk_ID t) f v) = Inr v'"
    and f: "card_key (f t) = card_key t" "tk_ID (f t) = tk_ID t" "token_ok (f t)"
    and active: "tk_Status (f t) = TokenActive \<Longrightarrow> tk_Status t = TokenActive \<or> \<not> active_clash t v"
    and log: "\<And>x. ta_TokenID x = tk_ID t \<Longrightarrow> ta_Action x = act \<Longrightarrow> uses_ok (vt_audit v @ [x]) (f t)"
  shows "vault_inv v'"
proof -
  obtain x where x: "vt_tokens v' = upd_where (\<lambda>u. tk_ID u = tk_ID t) f (vt_tokens v)" "vt_audit v' = vt_audit v @ [x]" "ta_TokenID x = tk_ID t" "ta_Action x = act"
    using writeAudit_Inr [OF w] by (auto simp: set_token_def)
  have only: "u = t" if "u \<in> set (vt_tokens v)" "tk_ID u = tk_ID t" for u
    using unique_key_inj [OF vault_invD(1) [OF inv] that(1) t that(2)] .
  have "set (vt_tokens v') = (\<lambda>u. if u = t then f t else u) ` set (vt_tokens v)"
    unfolding x(1) set_upd_where by (rule image_cong) (auto dest: only)
  then have rows: "set (vt_tokens v') = insert (f t) (set (vt_tokens v) - {t})" using t by auto
  have ids: "map tk_ID (vt_tokens v') = map tk_ID (vt_tokens v)" unfolding x(1) upd_where_def using only f(2) by (auto intro!: map_idI simp: comp_def)
  have other: "uses_ok (vt_audit v') u" if "u \<in> set (vt_tokens v)" "u \<noteq> t" for u
    using vault_invD(3) [OF inv that(1)] only [OF that(1)] that(2) x(2,3) by (auto simp: uses_ok_def)
  have act: "tk_ID u = tk_ID t" if "u \<in> set (vt_tokens v)" "tk_Status u = TokenActive" "tk_Status (f t) = TokenActive" "card_key u = card_key t" for u
    using active [OF that(3)] vault_invD(5) [OF inv that(1) t that(2) _ that(4)] that by (auto simp: active_clash_def list_ex_iff)
  show ?thesis
  proof (rule vault_invI)
    show "unique_key tk_ID (vt_tokens v')" using vault_invD(1) [OF inv] ids by (simp add: unique_key_def)
    have "tk_ID ` set (vt_tokens v') = tk_ID ` set (vt_tokens v)" using ids by (metis list.set_map)
    then show "ta_TokenID ` set (vt_audit v') \<subseteq> tk_ID ` set (vt_tokens v')" using vault_invD(4) [OF inv] t x(2,3) by auto
  next
    fix u assume "u \<in> set (vt_tokens v')"
    then show "token_ok u" "uses_ok (vt_audit v') u" unfolding rows using f(3) log [OF x(3,4)] other vault_invD(2) [OF inv] x(2) by auto
  next
    fix a b
    assume ab: "a \<in> set (vt_tokens v')" "b \<in> set (vt_tokens v')" "tk_Status a = TokenActive" "tk_Status b = TokenActive" "card_key a = card_key b"
    then consider "a = f t" "b = f t" | "a = f t" "b \<in> set (vt_tokens v)" | "a \<in> set (vt_tokens v)" "b = f t" | "a \<in> set (vt_tokens v)" "b \<in> set (vt_tokens v)"
      unfolding rows by blast
    then show "tk_ID a = tk_ID b" by cases (use ab(3-5) act [of a] act [of b] f(1,2) vault_invD(5) [OF inv, of a b] in simp_all)
  qed
qed

lemma vault_token:
  assumes "vault_inv v" "getCardTokenTx m i v = Inr t"
  shows "t \<in> set (vt_tokens v)" "tk_ID t = i" "tk_MerchantID t = m" "token_ok t" "uses_ok (vt_audit v) t"
  using getCardTokenTx_Inr [OF assms(2)] vault_invD [OF assms(1)] by auto

lemma set_token_same [simp]: "set_token i (\<lambda>u. u) v = v"
  by (simp add: set_token_def upd_where_def)

lemma view_keeps:
  assumes "GetCardToken aid m i v = Inr (t, v')" "vault_inv v" shows "vault_inv v'"
proof -
  have g: "getCardTokenTx m i v = Inr t" and w: "writeAuditTx aid (tk_ID t) (tk_MerchantID t) '''' ''view'' '''' ''merchant_api'' v = Inr v'"
    using assms(1) by (auto simp: GetCardToken_def GetCardTokenRepo_def bindR_Inr_iff)
  note tok = vault_token [OF assms(2) g]
  show ?thesis by (rule vault_update [OF assms(2) tok(1), where f = "\<lambda>u. u"]) (use w tok in \<open>auto simp: uses_ok_def\<close>)
qed

lemma disable_keeps:
  assumes "DisableCardToken aid now m i reason v = Inr (r, v')" "vault_inv v" shows "vault_inv v'"
proof -
  obtain t where g: "getCardTokenTx m i v = Inr t" using assms(1) by (auto simp: DisableCardToken_def DisableCardTokenRepo_def bindR_Inr_iff)
  note tok = vault_token [OF assms(2) g]
  let ?f = "\<lambda>u. if tk_Status t = TokenDisabled then u else u\<lparr>tk_Status := TokenDisabled, tk_DisabledAt := Some now\<rparr>"
  have w: "writeAuditTx aid (tk_ID t) (tk_MerchantID t) '''' ''disable'' reason ''merchant_api'' (set_token (tk_ID t) ?f v) = Inr v'"
    using assms(1) g tok(2) by (auto simp: DisableCardToken_def DisableCardTokenRepo_def bindR_Inr_iff Let_def split: if_split_asm)
  show ?thesis by (rule vault_update [OF assms(2) tok(1) w]) (use tok(4,5) in \<open>auto simp: uses_ok_def token_ok_def card_key_def split: if_split_asm\<close>)
qed

lemma prepare_keeps:
  assumes "PrepareAuthorization aid now m i pay v = Inr (r, v')" "vault_inv v" shows "vault_inv v'"
proof -
  obtain t where g: "getCardTokenTx m i v = Inr t" and a: "tk_Status t = TokenActive"
    using assms(1) by (auto simp: PrepareAuthorization_def PrepareCardTokenAuthorization_def bindR_Inr_iff split: if_split_asm)
  note tok = vault_token [OF assms(2) g]
  let ?f = "\<lambda>u. if tk_TokenClass t = SingleUse
    then u\<lparr>tk_Status := TokenReserved, tk_LastUsedAt := Some now, tk_ReservedAt := Some now, tk_ReservedPaymentID := pay\<rparr> else u\<lparr>tk_LastUsedAt := Some now\<rparr>"
  have w: "writeAuditTx aid (tk_ID t) (tk_MerchantID t) pay ''authorize'' '''' ''payment_service'' (set_token (tk_ID t) ?f v) = Inr v'"
    using assms(1) g a tok(2) by (auto simp: PrepareAuthorization_def PrepareCardTokenAuthorization_def bindR_Inr_iff Let_def split: if_split_asm)
  show ?thesis
    by (rule vault_update [OF assms(2) tok(1) w]) (use tok(4,5) a in \<open>auto simp: uses_ok_def token_ok_def card_key_def split: if_split_asm\<close>)
qed

lemma complete_keeps:
  assumes "CompleteAuthorization aid now m i pay success reason v = Inr v'" "vault_inv v" shows "vault_inv v'"
proof -
  obtain t where g: "getCardTokenTx m i v = Inr t" using assms(1) by (auto simp: CompleteAuthorization_def CompleteCardTokenAuthorization_def bindR_Inr_iff)
  note tok = vault_token [OF assms(2) g]
  let ?f = "\<lambda>u. if tk_TokenClass t \<noteq> SingleUse then u
    else if success then u\<lparr>tk_Status := TokenConsumed, tk_ConsumedAt := Some now, tk_ReservedAt := None, tk_ReservedPaymentID := ''''\<rparr>
    else u\<lparr>tk_Status := TokenActive, tk_ReservedAt := None, tk_ReservedPaymentID := ''''\<rparr>"
  have w: "writeAuditTx aid (tk_ID t) (tk_MerchantID t) pay (if success then ''authorize_complete'' else ''authorize_release'') reason ''payment_service''
      (set_token (tk_ID t) ?f v) = Inr v'"
    and c: "tk_TokenClass t = SingleUse \<Longrightarrow> \<not> success \<Longrightarrow> \<not> active_clash t v"
    using assms(1) g tok(2) by (auto simp: CompleteAuthorization_def CompleteCardTokenAuthorization_def bindR_Inr_iff split: if_split_asm)
  show ?thesis
    by (rule vault_update [OF assms(2) tok(1) w]) (use tok(4,5) c in \<open>auto simp: uses_ok_def token_ok_def card_key_def split: if_split_asm\<close>)
qed

lemma log_count_zero: "i \<notin> ta_TokenID ` set log \<Longrightarrow> log_count a i log = 0"
  by (auto simp: log_count_def filter_empty_conv)

lemma create_keeps:
  assumes "CreateCardToken sha ids now today inp v = Inr (t, v')" "vault_inv v" shows "vault_inv v'"
proof -
  have t: "t = new_token sha (fst ids) now inp (digitsOnly (ct_CardNumber inp))" "12 \<le> length (digitsOnly (ct_CardNumber inp))"
    and ok: "tk_ExpMonth t \<in> {1..12}" "tk_ExpYear t \<in> {2000..2200}" "tk_ID t \<notin> tk_ID ` set (vt_tokens v)" "\<not> active_clash t v"
    and w: "writeAuditTx (snd ids) (tk_ID t) (tk_MerchantID t) '''' ''tokenized'' '''' ''merchant_api'' (v\<lparr>vt_tokens := vt_tokens v @ [t]\<rparr>) = Inr v'"
    using assms(1) by (auto simp: CreateCardToken_def CreateCardTokenRepo_def Let_def bindR_Inr_iff split: if_split_asm)
  obtain x where x: "vt_tokens v' = vt_tokens v @ [t]" "vt_audit v' = vt_audit v @ [x]" "ta_TokenID x = tk_ID t" "ta_Action x = ''tokenized''"
    using writeAudit_Inr [OF w] by auto
  have new: "token_ok t" using ok t by (simp add: token_ok_def new_token_def)
  have "tk_ID t \<notin> ta_TokenID ` set (vt_audit v)" using vault_invD(4) [OF assms(2)] ok(3) by blast
  then have unused: "uses_ok (vt_audit v') t" using x by (simp add: uses_ok_def log_count_zero)
  have old: "uses_ok (vt_audit v') u" if "u \<in> set (vt_tokens v)" for u
    using vault_invD(3) [OF assms(2) that] that x(2-4) by (simp add: uses_ok_def)
  have lone: False if "u \<in> set (vt_tokens v)" "tk_Status u = TokenActive" "card_key u = card_key t" for u
    using ok(3,4) that unfolding active_clash_def list_ex_iff by (metis imageI)
  show ?thesis
  proof (rule vault_invI)
    show "unique_key tk_ID (vt_tokens v')" using vault_invD(1) [OF assms(2)] ok(3) by (simp add: x(1))
    show "ta_TokenID ` set (vt_audit v') \<subseteq> tk_ID ` set (vt_tokens v')" using vault_invD(4) [OF assms(2)] x by auto
    show "token_ok u" "uses_ok (vt_audit v') u" if "u \<in> set (vt_tokens v')" for u
      using that new unused old vault_invD(2) [OF assms(2)] by (auto simp: x(1))
    show "tk_ID a = tk_ID b" if "a \<in> set (vt_tokens v')" "b \<in> set (vt_tokens v')" "tk_Status a = TokenActive" "tk_Status b = TokenActive" "card_key a = card_key b" for a b
    proof -
      have "a = t \<or> a \<in> set (vt_tokens v)" "b = t \<or> b \<in> set (vt_tokens v)" using that(1,2) by (simp_all add: x(1) disj_commute)
      then show ?thesis using lone [of a] lone [of b] vault_invD(5) [OF assms(2), of a b] that(3-5) by auto
    qed
  qed
qed

lemma vault_step_inv: "vault_step v v' \<Longrightarrow> vault_inv v \<Longrightarrow> vault_inv v'"
  by (induction rule: vault_step.induct) (blast intro: create_keeps view_keeps disable_keeps prepare_keeps complete_keeps)+

interpretation vaulting: invariant_system vault_step vault_inv
  by unfold_locales (rule vault_step_inv)

section \<open>The vault behind the payment service\<close>

text \<open>What an authorization does to a vault: a relation that its two calls respect holds along the whole of it.\<close>

locale token_store =
  fixes V :: "'v \<Rightarrow> 'v \<Rightarrow> bool" and t :: "'v card_tokens"
  assumes refl: "V v v"
    and trans: "V v v1 \<Longrightarrow> V v1 v2 \<Longrightarrow> V v v2"
    and prepares: "V v (snd (ct_PrepareAuthorization t m i pay v))"
    and completes: "V v (snd (ct_CompleteAuthorization t m i pay success reason v))"
begin

lemma completing: "V v (snd (complete_token (Some t) m i pay success reason v))"
  by (simp add: complete_token_def refl completes)

lemma persisting: "V v (snd (snd (persistAuthorizationFailure (Some t) e now pending tok d code desc reason prim (db, v))))"
  using completing [of v "cr_MerchantID pending" tok "cr_PaymentID pending" False reason]
  by (auto simp: persistAuthorizationFailure_def refl split: prod.split sum.split)

lemma preparing: "V v (snd (snd (prepare_card (Some t) inp pid pending (db, v))))"
  using prepares [of v "au_MerchantID inp" "au_PaymentMethodTokenID inp" pid]
  by (auto simp: prepare_card_def refl split: prod.split sum.split)

lemma settling: "V v (snd (snd (settle_authorization (Some t) ids now inp pending tok outcome (db, v))))"
proof -
  obtain gres d where outcome: "outcome = (gres, d)" by (cases outcome)
  show ?thesis
  proof (cases gres)
    case (Inl e)
    then show ?thesis
      using persisting by (simp add: settle_authorization_def outcome case_prod_unfold)
  next
    case (Inr res)
    have either: "V v a \<Longrightarrow> V v b \<Longrightarrow> V v (if c then a else b)" for a b c by simp
    from Inr show ?thesis
      using persisting
      by (cases "gr_RequiresAction res"; cases "gr_Success res")
         (simp_all add: settle_authorization_def outcome Let_def case_prod_unfold refl completing either split: sum.split split del: if_split)
  qed
qed

lemma authorizing: "V v (snd (snd (Authorize gw (Some t) ids now inp (db, v))))"
proof -
  have card: "V v (snd (snd (case prepare_card (Some t) inp pid pending (db1, v) of (Inl e, s2) \<Rightarrow> (Inl e, s2)
      | (Inr tok, s2) \<Rightarrow> settle_authorization (Some t) ids now inp pending tok out s2)))" for pid pending db1 out
  proof -
    obtain x db2 v2 where p: "prepare_card (Some t) inp pid pending (db1, v) = (x, db2, v2)" by (metis surj_pair)
    then have "V v v2" using preparing [of v inp pid pending db1] by simp
    then show ?thesis by (cases x) (auto simp: p intro: trans settling)
  qed
  have started: "V v (snd (snd (case st of Inl e \<Rightarrow> (Inl e, (db, v)) | Inr (pending, db1) \<Rightarrow>
      if cr_Status pending \<noteq> Some Created then (Inr pending, db1, v)
      else case prepare_card (Some t) inp pid pending (db1, v) of (Inl e, s2) \<Rightarrow> (Inl e, s2)
        | (Inr tok, s2) \<Rightarrow> settle_authorization (Some t) ids now inp pending tok out s2)))" for st pid out
    by (cases st) (simp_all add: refl card split: prod.split)
  show ?thesis
    by (cases "au_Amount inp \<le> 0"; cases "validateSplitInstructions inp") (simp_all add: Authorize_def Let_def refl started split del: if_split)
qed

lemma challenged: "V v (snd (snd (CompleteCardChallengeService (Some t) e now cb (db, v))))"
proof -
  have finish: "V v (snd (snd (case out of Inl e \<Rightarrow> (Inl e, db, v) | Inr ((r, processed), db') \<Rightarrow>
      (Inr (r, processed), db', if processed then snd (complete_token (Some t) m tok pay success reason v) else v))))" for out m tok pay success reason
    using completing refl by (auto split: sum.split)
  have either: "V v (snd (snd a)) \<Longrightarrow> V v (snd (snd b)) \<Longrightarrow> V v (snd (snd (if c then a else b)))" for c and a b :: "'x \<times> 'y \<times> 'v" by simp
  define x where "x = (if cb_MerchantID cb = '''' then ResolveCardChallengeMerchant (cb_PaymentID cb) (cb_CallbackToken cb) db else Inr (cb_MerchantID cb))"
  show ?thesis
  proof (cases x)
    case (Inr m)
    show ?thesis
    proof (cases "GetPayment m (cb_PaymentID cb) db")
      case (Inr r)
      show ?thesis unfolding CompleteCardChallengeService_def Let_def prod.case x_def [symmetric] \<open>x = Inr m\<close> Inr sum.case
        by (rule either finish | simp only: snd_conv refl)+
    qed (simp add: CompleteCardChallengeService_def Let_def x_def [symmetric] Inr refl)
  qed (simp add: CompleteCardChallengeService_def Let_def x_def [symmetric] refl)
qed

end

lemma vault_tokens_steps:
  "vault_step\<^sup>*\<^sup>* v (snd (ct_PrepareAuthorization (vault_tokens aids now) m i pay v))"
  "vault_step\<^sup>*\<^sup>* v (snd (ct_CompleteAuthorization (vault_tokens aids now) m i pay success reason v))"
  by (auto simp: vault_tokens_def split: sum.split intro: vault_step.prepare vault_step.complete)

interpretation vaulted: token_store "vault_step\<^sup>*\<^sup>*" "vault_tokens aids now" for aids now
  by unfold_locales (auto intro: vault_tokens_steps)

text \<open>Authorizations, challenge callbacks and the merchant's own use of the vault, in any order.\<close>

inductive card_step :: "payment_db \<times> vault \<Rightarrow> payment_db \<times> vault \<Rightarrow> bool" where
  authorize: "Authorize gw (Some (vault_tokens aids now)) ids now inp s = (res, s') \<Longrightarrow> card_step s s'"
| challenge: "CompleteCardChallengeService (Some (vault_tokens aids now)) e now cb s = (cres, s') \<Longrightarrow> card_step s s'"
| vault: "vault_step v v' \<Longrightarrow> card_step (db, v) (db, v')"

definition card_inv :: "payment_db \<times> vault \<Rightarrow> bool" where
  "card_inv s \<longleftrightarrow> pay_inv (fst s) \<and> vault_inv (snd s)"

lemma card_step_inv: "card_step s s' \<Longrightarrow> card_inv s \<Longrightarrow> card_inv s'"
proof (induction rule: card_step.induct)
  case (authorize gw aids now ids inp s res s')
  obtain db v db' v' where s: "s = (db, v)" "s' = (db', v')" by (cases s; cases s')
  have "pay_step\<^sup>*\<^sup>* db db'" using authorize.hyps by (simp add: s service_run.Authorize_rel)
  moreover have "vault_step\<^sup>*\<^sup>* v v'" using authorize.hyps vaulted.authorizing [of v gw aids now ids now inp db] by (simp add: s)
  ultimately show ?case using authorize.prems flow.inv_steps vaulting.inv_steps by (auto simp: card_inv_def s)
next
  case (challenge aids now e cb s cres s')
  obtain db v db' v' where s: "s = (db, v)" "s' = (db', v')" by (cases s; cases s')
  have "pay_step\<^sup>*\<^sup>* db db'" using challenge.hyps by (auto simp: s intro: challenge_service_run)
  moreover have "vault_step\<^sup>*\<^sup>* v v'" using challenge.hyps vaulted.challenged [of v aids now e now cb db] by (simp add: s)
  ultimately show ?case using challenge.prems flow.inv_steps vaulting.inv_steps by (auto simp: card_inv_def s)
qed (simp add: card_inv_def vault_step_inv)

interpretation cards: invariant_system card_step card_inv
  by unfold_locales (rule card_step_inv)

definition empty_vault :: vault where
  "empty_vault = \<lparr>vt_tokens = [], vt_audit = []\<rparr>"

lemma empty_vault_inv: "vault_inv empty_vault"
  by (simp add: vault_inv_def empty_vault_def)

lemma card_inv_start: "db_payments db = [] \<Longrightarrow> posted_captures (db_ledger db) = [] \<Longrightarrow> orders_inv db \<Longrightarrow> card_inv (db, empty_vault)"
  by (simp add: card_inv_def pay_inv_start empty_vault_inv)

text \<open>
  C16: However authorizations, challenge callbacks and the merchant's operations interleave, a single-use token is handed
  to at most one authorization more than have released it, and to none while it is reserved, consumed or disabled.
\<close>

theorem single_use_token_not_shared:
  assumes run: "card_step\<^sup>*\<^sup>* (db, empty_vault) (db', v)" and start: "db_payments db = []" "posted_captures (db_ledger db) = []" "orders_inv db"
    and t: "t \<in> set (vt_tokens v)" "tk_TokenClass t = SingleUse"
  shows "log_count ''authorize'' (tk_ID t) (vt_audit v) \<le> log_count ''authorize_release'' (tk_ID t) (vt_audit v) + 1
    \<and> (tk_Status t \<noteq> TokenActive \<longrightarrow> PrepareAuthorization auditID now m (tk_ID t) paymentID v \<in> {Inl ErrCardTokenInactive, Inl ErrCardTokenNotFound})"
proof (intro conjI impI)
  have inv: "vault_inv v" using cards.inv_steps [OF run card_inv_start [OF start]] by (simp add: card_inv_def)
  show "log_count ''authorize'' (tk_ID t) (vt_audit v) \<le> log_count ''authorize_release'' (tk_ID t) (vt_audit v) + 1"
    using vault_invD(3) [OF inv t(1)] t(2) by (simp add: uses_ok_def split: if_split_asm)
  show "PrepareAuthorization auditID now m (tk_ID t) paymentID v \<in> {Inl ErrCardTokenInactive, Inl ErrCardTokenNotFound}" if "tk_Status t \<noteq> TokenActive"
  proof (cases "getCardTokenTx m (tk_ID t) v")
    case (Inl e)
    then have "e = ErrCardTokenNotFound" by (auto simp: getCardTokenTx_def split: option.split_asm)
    then show ?thesis using Inl by (simp add: PrepareAuthorization_def PrepareCardTokenAuthorization_def)
  next
    case (Inr u)
    have "u = t" by (rule unique_key_inj [OF vault_invD(1) [OF inv] vault_token(1) [OF inv Inr] t(1) vault_token(2) [OF inv Inr]])
    then show ?thesis using that Inr by (simp add: PrepareAuthorization_def PrepareCardTokenAuthorization_def)
  qed
qed

text \<open>
  C22: In every reachable vault the rows are well formed: only single-use tokens are reserved or consumed, every state has
  its time, the card fields have their sizes, and no card of a merchant has two active tokens of one class.
\<close>

theorem vault_rows_typed:
  assumes "vault_step\<^sup>*\<^sup>* empty_vault v"
  shows "list_all token_ok (vt_tokens v) \<and> unique_key tk_ID (vt_tokens v) \<and> unique_key card_key (filter (\<lambda>t. tk_Status t = TokenActive) (vt_tokens v))"
proof -
  have inv: "vault_inv v" by (rule vaulting.inv_steps [OF assms empty_vault_inv])
  have "distinct (vt_tokens v)" using vault_invD(1) [OF inv] by (simp add: unique_key_def distinct_map)
  moreover have "inj_on card_key {t \<in> set (vt_tokens v). tk_Status t = TokenActive}"
    by (rule inj_onI) (use vault_invD(5) [OF inv] unique_key_inj [OF vault_invD(1) [OF inv]] in blast)
  ultimately show ?thesis using vault_invD(1,2) [OF inv] by (simp add: unique_key_def distinct_map list_all_iff)
qed

section \<open>Tokens on concrete data\<close>

definition sample_card :: "bool \<Rightarrow> create_token_input" where
  "sample_card reusable = \<lparr>ct_MerchantID = ''m1'', ct_CardNumber = ''4242 4242 4242 4242'', ct_ExpMonth = 12, ct_ExpYear = 2030, ct_CustomerRef = ''c1'',
     ct_IsReusable = reusable, ct_NetworkReference = ''''\<rparr>"

definition sample_vault :: "token_error + card_token \<times> vault" where
  "sample_vault = CreateCardToken (\<lambda>s. s) (''tk1'', ''l1'') 5 (2025, 6) (sample_card False) empty_vault"

lemma sample_pan: "digitsOnly ''4242 4242 4242 4242'' = ''4242424242424242''" "validLuhn ''4242424242424242''"
  by (simp_all add: digitsOnly_def is_digit_def validLuhn_def digit_def luhn_digit_def)

lemmas vault_eval = sample_card_def sample_vault_def empty_vault_def CreateCardToken_def CreateCardTokenRepo_def sample_pan validExpiry_def new_token_def
  active_clash_def card_key_def fingerprintHash_def writeAuditTx_def getCardTokenTx_def set_token_def PrepareAuthorization_def PrepareCardTokenAuthorization_def
  CompleteAuthorization_def CompleteCardTokenAuthorization_def DisableCardToken_def DisableCardTokenRepo_def log_count_def Let_def

theorem single_use_token_not_shared_witness:
  "\<exists>t v r v1. sample_vault = Inr (t, v) \<and> PrepareAuthorization ''l2'' 6 ''m1'' ''tk1'' ''p1'' v = Inr (r, v1)
     \<and> map tk_Status (vt_tokens v1) = [TokenReserved]
     \<and> PrepareAuthorization ''l3'' 7 ''m1'' ''tk1'' ''p2'' v1 \<in> {Inl ErrCardTokenInactive, Inl ErrCardTokenNotFound}"
proof -
  obtain t v r v1 u where c: "sample_vault = Inr (t, v)" "PrepareAuthorization ''l2'' 6 ''m1'' ''tk1'' ''p1'' v = Inr (r, v1)"
    and u: "vt_tokens v1 = [u]" "tk_Status u = TokenReserved" "tk_TokenClass u = SingleUse" "tk_ID u = ''tk1''"
    by (simp add: vault_eval)
  have "vault_step empty_vault v" "vault_step v v1" using c by (auto simp: sample_vault_def intro: vault_step.create vault_step.prepare)
  then have "card_step (sample_pay_db, empty_vault) (sample_pay_db, v)" "card_step (sample_pay_db, v) (sample_pay_db, v1)" by (simp_all add: card_step.vault)
  then have run: "card_step\<^sup>*\<^sup>* (sample_pay_db, empty_vault) (sample_pay_db, v1)" by simp
  have "PrepareAuthorization ''l3'' 7 ''m1'' ''tk1'' ''p2'' v1 \<in> {Inl ErrCardTokenInactive, Inl ErrCardTokenNotFound}"
    using single_use_token_not_shared [OF run sample_pay_start, of u] u by simp
  then show ?thesis using c u by (intro exI [of _ t] exI [of _ v] exI [of _ r] exI [of _ v1] conjI) simp_all
qed

theorem vault_rows_typed_witness:
  "\<exists>t v. sample_vault = Inr (t, v) \<and> length (vt_tokens v) = 1 \<and> list_all token_ok (vt_tokens v)"
proof -
  obtain t v where c: "sample_vault = Inr (t, v)" "length (vt_tokens v) = 1" by (simp add: vault_eval)
  then have "vault_step empty_vault v" by (auto simp: sample_vault_def intro: vault_step.create)
  then have "list_all token_ok (vt_tokens v)" using vault_rows_typed [of v] by blast
  with c show ?thesis by (intro exI [of _ t] exI [of _ v] conjI)
qed

text \<open>
  A release does not look at the state of the token: a token that its merchant disabled while an authorization held it is
  active again once that authorization has failed, and pays.
\<close>

theorem disabled_token_revived:
  "\<exists>t v r v1 t2 v2 v3 r4 v4. sample_vault = Inr (t, v) \<and> PrepareAuthorization ''l2'' 6 ''m1'' ''tk1'' ''p1'' v = Inr (r, v1)
     \<and> DisableCardToken ''l3'' 7 ''m1'' ''tk1'' ''stolen'' v1 = Inr (t2, v2) \<and> map tk_Status (vt_tokens v2) = [TokenDisabled]
     \<and> CompleteAuthorization ''l4'' 8 ''m1'' ''tk1'' ''p1'' False ''declined'' v2 = Inr v3 \<and> map tk_Status (vt_tokens v3) = [TokenActive]
     \<and> PrepareAuthorization ''l5'' 9 ''m1'' ''tk1'' ''p2'' v3 = Inr (r4, v4)"
  by (simp add: vault_eval)

text \<open>A card saved again while its token is reserved blocks the release: the token stays reserved for ever.\<close>

lemma release_blocked_by_second_token:
  "\<exists>t v r v1 t2 v2. sample_vault = Inr (t, v) \<and> PrepareAuthorization ''l2'' 6 ''m1'' ''tk1'' ''p1'' v = Inr (r, v1)
     \<and> CreateCardToken (\<lambda>s. s) (''tk2'', ''l3'') 7 (2025, 6) (sample_card False) v1 = Inr (t2, v2)
     \<and> CompleteAuthorization ''l4'' 8 ''m1'' ''tk1'' ''p1'' False ''declined'' v2 = Inl TokenDB"
  by (simp add: vault_eval)

text \<open>A listing holds tokens of the merchant only, a hundred at most, the newest first.\<close>

lemma ListCardTokens_spec:
  "set (ListCardTokens m ref limit v) \<subseteq> {t \<in> set (vt_tokens v). tk_MerchantID t = m} \<and> length (ListCardTokens m ref limit v) \<le> 100
     \<and> sorted_wrt (\<lambda>a b. tk_CreatedAt a \<ge> tk_CreatedAt b) (ListCardTokens m ref limit v)"
proof (intro conjI)
  have "sorted_wrt (\<lambda>a b. tk_CreatedAt a \<ge> tk_CreatedAt b) (sort_key (\<lambda>t. - tk_CreatedAt t) xs)" for xs
    using sorted_sort_key [of "\<lambda>t. - tk_CreatedAt t" xs] by (simp add: sorted_map sorted_wrt_map)
  then show "sorted_wrt (\<lambda>a b. tk_CreatedAt a \<ge> tk_CreatedAt b) (ListCardTokens m ref limit v)"
    unfolding ListCardTokens_def ListCardTokensRepo_def by (rule sorted_wrt_take)
qed (auto simp: ListCardTokens_def ListCardTokensRepo_def dest!: in_set_takeD)

end
