(* ===== verification/Protect.thy ===== *)
theory Protect
  imports Ledger
begin

text \<open>
  Envelope encryption of single columns (\<open>internal/common/protect\<close>): base64, the keys of the environment, and the
  sealing and opening of a value for a domain. The two functions of AES-GCM are parameters; what is used of them is
  \<open>gcm_ok\<close>. The random nonce is an argument, absent when the reader of random bytes fails.
\<close>

section \<open>Base64\<close>

text \<open>The standard encoding with padding; decoding skips line breaks and does not look at the bits that are left over.\<close>

definition b64_alphabet :: string where
  "b64_alphabet = ''ABCDEFGHIJKLMNOPQRSTUVWXYZabcdefghijklmnopqrstuvwxyz0123456789+/''"

definition b64_char :: "nat \<Rightarrow> char" where
  "b64_char n = b64_alphabet ! n"

definition b64_digit :: "char \<Rightarrow> nat option" where
  "b64_digit c = map_of (zip b64_alphabet [0..<64]) c"

fun b64_quanta :: "nat list \<Rightarrow> string" where
  "b64_quanta [] = ''''"
| "b64_quanta [a] = [b64_char (a div 4), b64_char (a mod 4 * 16), CHR ''='', CHR ''='']"
| "b64_quanta [a, b] = [b64_char (a div 4), b64_char (a mod 4 * 16 + b div 16), b64_char (b mod 16 * 4), CHR ''='']"
| "b64_quanta (a # b # c # bs) =
     b64_char (a div 4) # b64_char (a mod 4 * 16 + b div 16) # b64_char (b mod 16 * 4 + c div 64) # b64_char (c mod 64) # b64_quanta bs"

definition EncodeToString :: "string \<Rightarrow> string" where
  "EncodeToString s = b64_quanta (map of_char s)"

fun b64_bytes :: "string \<Rightarrow> nat list option" where
  "b64_bytes [] = Some []"
| "b64_bytes (a # b # c # d # cs) =
     (case (b64_digit a, b64_digit b) of
        (Some i, Some j) \<Rightarrow>
          (case b64_digit c of
             None \<Rightarrow> (if c = CHR ''='' \<and> d = CHR ''='' \<and> cs = [] then Some [i * 4 + j div 16] else None)
           | Some k \<Rightarrow>
               (case b64_digit d of
                  None \<Rightarrow> (if d = CHR ''='' \<and> cs = [] then Some [i * 4 + j div 16, j mod 16 * 16 + k div 4] else None)
                | Some l \<Rightarrow> map_option (\<lambda>bs. (i * 4 + j div 16) # (j mod 16 * 16 + k div 4) # (k mod 4 * 64 + l) # bs) (b64_bytes cs)))
      | _ \<Rightarrow> None)"
| "b64_bytes _ = None"

definition DecodeString :: "string \<Rightarrow> string option" where
  "DecodeString s = map_option (map char_of) (b64_bytes (filter (\<lambda>c. of_char c \<noteq> (10 :: nat) \<and> of_char c \<noteq> (13 :: nat)) s))"

lemma b64_alphabet_props: "length b64_alphabet = 64" "distinct b64_alphabet" "CHR ''='' \<notin> set b64_alphabet"
  "\<forall>c \<in> set b64_alphabet. of_char c \<noteq> (10 :: nat) \<and> of_char c \<noteq> (13 :: nat) \<and> c \<noteq> CHR '':''"
  by (simp_all add: b64_alphabet_def)

lemma b64_digit_char [simp]: "n < 64 \<Longrightarrow> b64_digit (b64_char n) = Some n"
  unfolding b64_digit_def b64_char_def using b64_alphabet_props(1,2) by (subst map_of_zip_nth) simp_all

lemma b64_digit_pad [simp]: "b64_digit (CHR ''='') = None"
  using b64_alphabet_props(1,3) by (simp add: b64_digit_def)

lemma b64_char_in: "n < 64 \<Longrightarrow> b64_char n \<in> set b64_alphabet"
  by (simp add: b64_char_def b64_alphabet_props(1))

text \<open>The two bytes around a border of six bits, put together again.\<close>

lemma join_parts: "r < m \<Longrightarrow> (q * m + r) div m = q" "r < m \<Longrightarrow> (q * m + r) mod m = r" for r m q :: nat
  by simp_all

lemma byte_parts:
  fixes a :: nat assumes "a < 256" shows "a div 4 < 64" "a div 16 < 16" "a div 64 < 4" "a mod 4 * 16 \<le> 48" "a mod 16 * 4 \<le> 60"
  using assms by (simp_all add: less_mult_imp_div_less)

lemma byte_splits:
  fixes a b c :: nat assumes "a < 256" "b < 256" "c < 256"
  shows "a div 4 < 64" "a mod 4 * 16 + b div 16 < 64" "b mod 16 * 4 + c div 64 < 64" "a mod 4 * 16 < 64" "b mod 16 * 4 < 64"
    and "a div 4 * 4 + (a mod 4 * 16 + b div 16) div 16 = a" "(a mod 4 * 16 + b div 16) mod 16 * 16 + (b mod 16 * 4 + c div 64) div 4 = b"
    and "(b mod 16 * 4 + c div 64) mod 4 * 64 + c mod 64 = c"
  using byte_parts [OF assms(1)] byte_parts [OF assms(2)] byte_parts [OF assms(3)] by (simp_all only: join_parts div_mult_mod_eq)

lemma b64_bytes_quanta: "\<forall>b \<in> set bs. b < 256 \<Longrightarrow> b64_bytes (b64_quanta bs) = Some bs"
proof (induction bs rule: b64_quanta.induct)
  case (2 a)
  then show ?case using byte_splits [of a 0 0] by simp
next
  case (3 a b)
  then show ?case using byte_splits [of a b 0] by simp
next
  case (4 a b c bs)
  then show ?case using byte_splits [of a b c] byte_parts(2) [of b] by simp
qed simp

lemma set_b64_quanta: "\<forall>b \<in> set bs. b < 256 \<Longrightarrow> set (b64_quanta bs) \<subseteq> insert (CHR ''='') (set b64_alphabet)"
proof (induction bs rule: b64_quanta.induct)
  case (2 a)
  then show ?case using byte_splits [of a 0 0] by (simp add: b64_char_in)
next
  case (3 a b)
  then show ?case using byte_splits [of a b 0] by (simp add: b64_char_in)
next
  case (4 a b c bs)
  then show ?case using byte_splits [of a b c] by (simp add: b64_char_in)
qed simp

lemma string_bytes: "\<forall>b \<in> set (map of_char s). b < (256 :: nat)"
  by simp

lemma EncodeToString_plain:
  assumes "c \<in> set (EncodeToString s)" shows "of_char c \<noteq> (10 :: nat) \<and> of_char c \<noteq> (13 :: nat) \<and> c \<noteq> CHR '':''"
proof -
  have "c = CHR ''='' \<or> c \<in> set b64_alphabet" using assms set_b64_quanta [OF string_bytes, of s] by (auto simp: EncodeToString_def)
  then show ?thesis
  proof
    assume "c \<in> set b64_alphabet"
    then show ?thesis using b64_alphabet_props(4) by blast
  qed simp
qed

lemma DecodeString_EncodeToString [simp]: "DecodeString (EncodeToString s) = Some s"
proof -
  have "filter (\<lambda>c. of_char c \<noteq> (10 :: nat) \<and> of_char c \<noteq> (13 :: nat)) (EncodeToString s) = EncodeToString s"
    by (rule filter_True) (auto dest: EncodeToString_plain)
  then show ?thesis by (simp add: DecodeString_def) (simp add: EncodeToString_def b64_bytes_quanta comp_def)
qed

section \<open>Keys\<close>

record protector =
  pr_ActiveVersion :: string
  pr_Keys :: "(string \<times> string) list"
  pr_Enabled :: bool
  pr_Provider :: string
  pr_KMSKeyURI :: string

datatype protect_error =
  ErrKeyEntry | ErrKeyEncoding string | ErrKeySize string | ErrActiveKey
  | ErrCipherKey | ErrRandom | ErrPayload | ErrKeyMissing string | ErrPayloadLength | ErrDomainMismatch string string | ErrOpenFailed

text \<open>\<open>strings.SplitN\<close> with a one-character separator and at least one part.\<close>

fun SplitN :: "nat \<Rightarrow> char \<Rightarrow> string \<Rightarrow> string list" where
  "SplitN (Suc (Suc n)) c s =
     (if c \<in> set s then takeWhile (\<lambda>x. x \<noteq> c) s # SplitN (Suc n) c (tl (dropWhile (\<lambda>x. x \<noteq> c) s)) else [s])"
| "SplitN _ c s = [s]"

definition Split :: "char \<Rightarrow> string \<Rightarrow> string list" where
  "Split c s = SplitN (Suc (length s)) c s"

fun read_keys :: "string list \<Rightarrow> (string \<times> string) list \<Rightarrow> protect_error + (string \<times> string) list" where
  "read_keys [] keys = Inr keys"
| "read_keys (x # xs) keys =
     (if TrimSpace x = '''' then read_keys xs keys
      else case SplitN 2 (CHR '':'') (TrimSpace x) of
        [version, code] \<Rightarrow>
          (case DecodeString code of
             None \<Rightarrow> Inl (ErrKeyEncoding version)
           | Some key \<Rightarrow> if length key \<noteq> 32 then Inl (ErrKeySize version) else read_keys xs ((version, key) # keys))
      | _ \<Rightarrow> Inl ErrKeyEntry)"

text \<open>The variables of the environment; \<open>pick\<close> is the key that the iteration over the map yields first.\<close>

record key_env =
  ke_Keys :: string
  ke_Active :: string
  ke_Provider :: string
  ke_KMSKeyURI :: string

definition mustFromEnv :: "((string \<times> string) list \<Rightarrow> string) \<Rightarrow> key_env \<Rightarrow> protect_error + protector" where
  "mustFromEnv pick env =
     (let raw = TrimSpace (ke_Keys env); provider = TrimSpace (ke_Provider env); uri = TrimSpace (ke_KMSKeyURI env) in
      if raw = '''' then
        Inr \<lparr>pr_ActiveVersion = '''', pr_Keys = [], pr_Enabled = False, pr_Provider = (if provider = '''' then ''disabled'' else provider), pr_KMSKeyURI = uri\<rparr>
      else bindR (read_keys (Split (CHR '','') raw) []) (\<lambda>keys.
        let active = TrimSpace (ke_Active env);
            active' = (if active = '''' then (if keys = [] then '''' else pick keys) else active) in
        if map_of keys active' = None then Inl ErrActiveKey
        else Inr \<lparr>pr_ActiveVersion = active', pr_Keys = keys, pr_Enabled = True, pr_Provider = (if provider = '''' then ''env'' else provider), pr_KMSKeyURI = uri\<rparr>))"

section \<open>Sealing and opening\<close>

text \<open>\<open>gcm_Seal key nonce plaintext aad\<close> and \<open>gcm_Open key nonce ciphertext aad\<close>.\<close>

record gcm =
  gcm_Seal :: "string \<Rightarrow> string \<Rightarrow> string \<Rightarrow> string \<Rightarrow> string"
  gcm_Open :: "string \<Rightarrow> string \<Rightarrow> string \<Rightarrow> string \<Rightarrow> string option"

definition NonceSize :: nat where
  "NonceSize = 12"

definition NewCipher :: "string option \<Rightarrow> protect_error + string" where
  "NewCipher key = (case key of Some k \<Rightarrow> (if length k \<in> {16, 24, 32} then Inr k else Inl ErrCipherKey) | None \<Rightarrow> Inl ErrCipherKey)"

definition envelopePrefix :: string where
  "envelopePrefix = ''enc:''"

definition DomainGeneric :: string where
  "DomainGeneric = ''generic''"

definition SealStringForDomain :: "gcm \<Rightarrow> protector \<Rightarrow> string \<Rightarrow> string option \<Rightarrow> string \<Rightarrow> protect_error + string" where
  "SealStringForDomain g p domain random value =
     (if \<not> pr_Enabled p \<or> TrimSpace value = '''' then Inr value
      else bindR (NewCipher (map_of (pr_Keys p) (pr_ActiveVersion p))) (\<lambda>key.
        case random of
          None \<Rightarrow> Inl ErrRandom
        | Some nonce \<Rightarrow> Inr (envelopePrefix @ pr_ActiveVersion p @ '':'' @ domain @ '':'' @ EncodeToString (nonce @ gcm_Seal g key nonce value domain))))"

definition OpenStringForDomain :: "gcm \<Rightarrow> protector \<Rightarrow> string \<Rightarrow> string \<Rightarrow> protect_error + string" where
  "OpenStringForDomain g p domain value =
     (if \<not> pr_Enabled p \<or> TrimSpace value = '''' \<or> take (length envelopePrefix) value \<noteq> envelopePrefix then Inr value
      else
      let parts = SplitN 3 (CHR '':'') (drop (length envelopePrefix) value) in
      if length parts < 2 then Inl ErrPayload
      else
      let version = parts ! 0;
          cipherDomain = (if length parts = 2 then DomainGeneric else parts ! 1);
          payload = (if length parts = 2 then parts ! 1 else parts ! 2) in
      case map_of (pr_Keys p) version of
        None \<Rightarrow> Inl (ErrKeyMissing version)
      | Some k \<Rightarrow>
          (case DecodeString payload of
             None \<Rightarrow> Inl ErrPayload
           | Some raw \<Rightarrow>
               bindR (NewCipher (Some k)) (\<lambda>key.
                 if length raw < NonceSize then Inl ErrPayloadLength
                 else if length parts \<noteq> 2 \<and> domain \<noteq> DomainGeneric \<and> cipherDomain \<noteq> domain then Inl (ErrDomainMismatch domain cipherDomain)
                 else case gcm_Open g key (take NonceSize raw) (drop NonceSize raw) (if length parts = 2 then '''' else cipherDomain) of
                   None \<Rightarrow> Inl ErrOpenFailed | Some plaintext \<Rightarrow> Inr plaintext)))"

definition SealString :: "gcm \<Rightarrow> protector \<Rightarrow> string option \<Rightarrow> string \<Rightarrow> protect_error + string" where
  "SealString g p = SealStringForDomain g p DomainGeneric"

definition OpenString :: "gcm \<Rightarrow> protector \<Rightarrow> string \<Rightarrow> protect_error + string" where
  "OpenString g p = OpenStringForDomain g p DomainGeneric"

section \<open>Correctness\<close>

text \<open>What AES-GCM promises: opening what was sealed under the same key, nonce and associated data returns it.\<close>

definition gcm_ok :: "gcm \<Rightarrow> bool" where
  "gcm_ok g \<longleftrightarrow> (\<forall>key nonce value aad. gcm_Open g key nonce (gcm_Seal g key nonce value aad) aad = Some value)"

definition keys_ok :: "(string \<times> string) list \<Rightarrow> bool" where
  "keys_ok keys \<longleftrightarrow> (\<forall>(version, key) \<in> set keys. CHR '':'' \<notin> set version \<and> length key = 32)"

definition protector_ok :: "protector \<Rightarrow> bool" where
  "protector_ok p \<longleftrightarrow> keys_ok (pr_Keys p) \<and> (pr_Enabled p \<longrightarrow> map_of (pr_Keys p) (pr_ActiveVersion p) \<noteq> None)"

lemma SplitN_cut: "c \<notin> set s \<Longrightarrow> SplitN (Suc (Suc n)) c (s @ c # t) = s # SplitN (Suc n) c t"
  by (simp add: takeWhile_append dropWhile_append)

lemma SplitN_head: "SplitN 2 c s = [x, y] \<Longrightarrow> c \<notin> set x"
  by (auto simp: numeral_2_eq_2 split: if_split_asm dest: set_takeWhileD)

lemma read_keys_ok: "read_keys xs keys = Inr ks \<Longrightarrow> keys_ok keys \<Longrightarrow> keys_ok ks"
proof (induction xs arbitrary: keys)
  case (Cons x xs)
  show ?case
  proof (cases "TrimSpace x = ''''")
    case False
    with Cons.prems(1) obtain version code key where e: "SplitN 2 (CHR '':'') (TrimSpace x) = [version, code]" "length key = 32"
      and rest: "read_keys xs ((version, key) # keys) = Inr ks"
      by (auto split: list.split_asm option.split_asm if_split_asm)
    have "keys_ok ((version, key) # keys)" using e SplitN_head [OF e(1)] Cons.prems(2) by (simp add: keys_ok_def)
    then show ?thesis by (rule Cons.IH [OF rest])
  qed (use Cons in simp)
qed simp

lemma mustFromEnv_ok: "mustFromEnv pick env = Inr p \<Longrightarrow> protector_ok p"
  by (auto simp: mustFromEnv_def protector_ok_def Let_def bindR_Inr_iff keys_ok_def [of "[]"] split: if_split_asm intro: read_keys_ok)

text \<open>The parts of an envelope are read back as they were written.\<close>

lemma envelope_parts:
  assumes "CHR '':'' \<notin> set version" "CHR '':'' \<notin> set domain"
  shows "SplitN 3 (CHR '':'') (version @ '':'' @ domain @ '':'' @ EncodeToString raw) = [version, domain, EncodeToString raw]"
  using assms by (simp add: numeral_3_eq_3 SplitN_cut del: SplitN.simps(1))

lemma envelope_not_blank: "TrimSpace (envelopePrefix @ s) \<noteq> ''''"
  by (auto simp: TrimSpace_def envelopePrefix_def is_space_def dropWhile_eq_Nil_conv)

lemma key_of_version:
  assumes "protector_ok p" "pr_Enabled p"
  obtains key where "map_of (pr_Keys p) (pr_ActiveVersion p) = Some key" "length key = 32" "CHR '':'' \<notin> set (pr_ActiveVersion p)"
  using assms by (auto simp: protector_ok_def keys_ok_def dest: map_of_SomeD)

lemma seal_enabled:
  assumes "protector_ok p" "pr_Enabled p" "TrimSpace value \<noteq> ''''" "SealStringForDomain g p domain (Some nonce) value = Inr s"
  obtains key where "map_of (pr_Keys p) (pr_ActiveVersion p) = Some key" "length key = 32" "CHR '':'' \<notin> set (pr_ActiveVersion p)"
    "s = envelopePrefix @ pr_ActiveVersion p @ '':'' @ domain @ '':'' @ EncodeToString (nonce @ gcm_Seal g key nonce value domain)"
  using assms by (auto simp: SealStringForDomain_def bindR_Inr_iff NewCipher_def elim!: key_of_version)

text \<open>Opening an envelope, when the version it names is among the keys.\<close>

lemma open_split:
  assumes "pr_Enabled q" "map_of (pr_Keys q) version = Some key" "length key = 32" "length nonce = NonceSize"
    and "SplitN 3 (CHR '':'') x = [version, domain, EncodeToString (nonce @ cipher)]"
  shows "OpenStringForDomain g q reader (envelopePrefix @ x) =
    (if reader \<noteq> DomainGeneric \<and> domain \<noteq> reader then Inl (ErrDomainMismatch reader domain)
     else case gcm_Open g key nonce cipher domain of None \<Rightarrow> Inl ErrOpenFailed | Some plaintext \<Rightarrow> Inr plaintext)"
  using assms envelope_not_blank [of x] by (simp add: OpenStringForDomain_def NewCipher_def)

lemmas open_envelope = open_split [OF _ _ _ _ envelope_parts]

lemma sealed_opens:
  assumes "protector_ok p" "pr_Enabled p" "pr_Enabled q" "map_of (pr_Keys p) \<subseteq>\<^sub>m map_of (pr_Keys q)"
    and "gcm_ok g" "length nonce = NonceSize" "CHR '':'' \<notin> set domain"
  shows "\<exists>s. SealStringForDomain g p domain (Some nonce) value = Inr s \<and> OpenStringForDomain g q domain s = Inr value"
proof (cases "TrimSpace value = ''''")
  case False
  obtain key where k: "map_of (pr_Keys p) (pr_ActiveVersion p) = Some key" "length key = 32" "CHR '':'' \<notin> set (pr_ActiveVersion p)"
    using assms(1,2) by (rule key_of_version)
  have "map_of (pr_Keys q) (pr_ActiveVersion p) = Some key" using assms(4) k(1) by (auto simp: map_le_def dom_def)
  note read_back = open_envelope [OF assms(3) this k(2) assms(6) k(3) assms(7), of g domain "gcm_Seal g key nonce value domain"]
  have "SealStringForDomain g p domain (Some nonce) value
      = Inr (envelopePrefix @ pr_ActiveVersion p @ '':'' @ domain @ '':'' @ EncodeToString (nonce @ gcm_Seal g key nonce value domain))"
    using assms(2) False k(1,2) by (simp add: SealStringForDomain_def NewCipher_def)
  then show ?thesis using read_back assms(5) by (simp add: gcm_ok_def)
qed (simp add: SealStringForDomain_def OpenStringForDomain_def)

text \<open>
  C38: Whatever was sealed for a domain opens again for that domain, also after the keys were rotated, as long as the key
  that sealed it is still configured: every protector is one the environment gives.
\<close>

theorem sealed_value_survives_rotation:
  assumes "mustFromEnv pick env = Inr p" "mustFromEnv pick' env' = Inr q" "pr_Enabled q"
    and "map_of (pr_Keys p) \<subseteq>\<^sub>m map_of (pr_Keys q)" "pr_Enabled p"
    and "gcm_ok g" "length nonce = NonceSize" "CHR '':'' \<notin> set domain"
  shows "\<exists>s. SealStringForDomain g p domain (Some nonce) value = Inr s \<and> OpenStringForDomain g q domain s = Inr value"
  using sealed_opens [OF mustFromEnv_ok [OF assms(1)] assms(5,3,4,6-8)] .

lemma sealed_reads:
  assumes "protector_ok p" "gcm_ok g" "\<And>nonce. random = Some nonce \<Longrightarrow> length nonce = NonceSize" "CHR '':'' \<notin> set domain"
    and "SealStringForDomain g p domain random value = Inr s"
  shows "OpenStringForDomain g p domain s = Inr value"
proof (cases "pr_Enabled p \<and> TrimSpace value \<noteq> ''''")
  case True
  then obtain nonce where n: "random = Some nonce" using assms(5) by (auto simp: SealStringForDomain_def bindR_Inr_iff split: option.split_asm)
  note len = assms(3) [OF n]
  show ?thesis using sealed_opens [OF assms(1) _ _ map_le_refl assms(2) len assms(4), of "value"] True assms(5) n by auto
next
  case False
  then have "s = value" using assms(5) by (auto simp: SealStringForDomain_def)
  then show ?thesis using False by (auto simp: OpenStringForDomain_def)
qed

text \<open>A sealed value of one domain is refused for every other domain but the generic one.\<close>

lemma sealed_value_stays_in_domain:
  assumes "mustFromEnv pick env = Inr p" "pr_Enabled p" "TrimSpace value \<noteq> ''''" "length nonce = NonceSize" "CHR '':'' \<notin> set domain"
    and "SealStringForDomain g p domain (Some nonce) value = Inr s" "reader \<noteq> DomainGeneric" "reader \<noteq> domain"
  shows "OpenStringForDomain g p reader s = Inl (ErrDomainMismatch reader domain)"
proof -
  obtain key where k: "map_of (pr_Keys p) (pr_ActiveVersion p) = Some key" "length key = 32" "CHR '':'' \<notin> set (pr_ActiveVersion p)"
    "s = envelopePrefix @ pr_ActiveVersion p @ '':'' @ domain @ '':'' @ EncodeToString (nonce @ gcm_Seal g key nonce value domain)"
    by (rule seal_enabled [OF mustFromEnv_ok [OF assms(1)] assms(2,3,6)])
  show ?thesis unfolding k(4) using open_envelope [OF assms(2) k(1,2) assms(4) k(3) assms(5)] assms(7,8) by simp
qed

text \<open>A value stored before the keys were configured, and that looks like an envelope, is not readable any more.\<close>

lemma plain_envelope_unreadable:
  "pr_Enabled q \<Longrightarrow> CHR '':'' \<notin> set s \<Longrightarrow> OpenStringForDomain g q domain (envelopePrefix @ s) = Inl ErrPayload"
  using envelope_not_blank [of s] by (simp add: OpenStringForDomain_def numeral_3_eq_3)

section \<open>Keys on concrete data\<close>

definition sample_env :: key_env where
  "sample_env = \<lparr>ke_Keys = ''v1:AAAAAAAAAAAAAAAAAAAAAAAAAAAAAAAAAAAAAAAAAAA='', ke_Active = ''v1'', ke_Provider = '''', ke_KMSKeyURI = ''''\<rparr>"

definition rotated_env :: key_env where
  "rotated_env = \<lparr>ke_Keys = ''v1:AAAAAAAAAAAAAAAAAAAAAAAAAAAAAAAAAAAAAAAAAAA=, v2:BBBBBBBBBBBBBBBBBBBBBBBBBBBBBBBBBBBBBBBBBBA='', ke_Active = ''v2'',
     ke_Provider = ''kms'', ke_KMSKeyURI = ''''\<rparr>"

definition plain_gcm :: gcm where
  "plain_gcm = \<lparr>gcm_Seal = (\<lambda>key nonce value aad. value), gcm_Open = (\<lambda>key nonce c aad. Some c)\<rparr>"

definition sample_protector :: protector where
  "sample_protector = \<lparr>pr_ActiveVersion = ''v1'', pr_Keys = [(''v1'', replicate 32 (CHR 0x00))], pr_Enabled = True, pr_Provider = ''env'', pr_KMSKeyURI = ''''\<rparr>"

definition rotated_protector :: protector where
  "rotated_protector = \<lparr>pr_ActiveVersion = ''v2'', pr_Keys = [(''v2'', concat (replicate 10 [CHR 0x04, CHR 0x10, CHR 0x41]) @ [CHR 0x04, CHR 0x10]),
     (''v1'', replicate 32 (CHR 0x00))], pr_Enabled = True, pr_Provider = ''kms'', pr_KMSKeyURI = ''''\<rparr>"

lemma sample_from_env: "mustFromEnv (fst \<circ> hd) sample_env = Inr sample_protector"
  by code_simp

lemma rotated_from_env: "mustFromEnv (fst \<circ> hd) rotated_env = Inr rotated_protector"
  by code_simp

theorem sealed_value_survives_rotation_witness:
  "pr_ActiveVersion rotated_protector = ''v2''
   \<and> (\<exists>s. SealStringForDomain plain_gcm sample_protector ''webhook_secret'' (Some ''0123456789ab'') ''s3cret'' = Inr s
        \<and> OpenStringForDomain plain_gcm rotated_protector ''webhook_secret'' s = Inr ''s3cret'')"
proof (intro conjI sealed_value_survives_rotation)
  show "map_of (pr_Keys sample_protector) \<subseteq>\<^sub>m map_of (pr_Keys rotated_protector)"
    by (simp add: map_le_def sample_protector_def rotated_protector_def)
qed (rule sample_from_env rotated_from_env | simp add: gcm_ok_def plain_gcm_def NonceSize_def sample_protector_def rotated_protector_def)+

end
