(* ===== verification/Calendar.thy ===== *)
theory Calendar
  imports Prelude
begin

text \<open>
  Civil dates in UTC, as Go's package \<open>time\<close> adds years, months and days to a time: months are counted through
  (\<open>12 * year + month - 1\<close>), a month is where it starts, and a day that a month does not have runs over into the next one.
\<close>

section \<open>Months and days\<close>

definition day_length :: time where
  "day_length = 24 * 60 * 60 * 1000000"

text \<open>
  The day on which a month starts, counted from 1970. Years are counted from March, so that the leap day is the last of
  its year.
\<close>

definition month_start :: "int \<Rightarrow> int" where
  "month_start m = (let y = (m - 2) div 12; k = (m - 2) mod 12 in 365 * y + y div 4 - y div 100 + y div 400 + (153 * k + 2) div 5 - 719468)"

fun month_search :: "nat \<Rightarrow> int \<Rightarrow> int \<Rightarrow> int" where
  "month_search 0 m n = m"
| "month_search (Suc f) m n = (if month_start (m + 1) \<le> n then month_search f (m + 1) n else m)"

text \<open>The estimate by the mean length of a month is at most three months early.\<close>

definition month_of_day :: "int \<Rightarrow> int" where
  "month_of_day n = month_search 6 ((n + 719468) * 4800 div 146097 - 1) n"

definition AddDate :: "int \<Rightarrow> int \<Rightarrow> time \<Rightarrow> time" where
  "AddDate months days t =
     (let n = t div day_length; m = month_of_day n; d = n - month_start m in
      (month_start (m + months) + d + days) * day_length + t mod day_length)"

section \<open>Correctness\<close>

lemma month_start_at:
  "0 \<le> k \<Longrightarrow> k < 12 \<Longrightarrow> month_start (12 * y + k + 2) = 365 * y + y div 4 - y div 100 + y div 400 + (153 * k + 2) div 5 - 719468"
  by (simp add: month_start_def)

lemma month_split: obtains y k :: int where "m = 12 * y + k + 2" "0 \<le> k" "k < 12"
  by (rule that [of "(m - 2) div 12" "(m - 2) mod 12"]) simp_all

lemma month_start_step: "month_start m < month_start (m + 1)"
proof -
  obtain y k where m: "m = 12 * y + k + 2" "0 \<le> k" "k < 12" by (rule month_split)
  show ?thesis
  proof (cases "k = 11")
    case True
    have succ: "month_start (m + 1) = 365 * (y + 1) + (y + 1) div 4 - (y + 1) div 100 + (y + 1) div 400 - 719468"
      using month_start_at [of 0 "y + 1"] m(1) True by (simp add: algebra_simps)
    have "y div 4 \<le> (y + 1) div 4" "(y + 1) div 100 \<le> y div 100 + 1" "y div 400 \<le> (y + 1) div 400" by (simp_all add: zdiv_mono1)
    moreover have "month_start m = 365 * y + y div 4 - y div 100 + y div 400 + 337 - 719468" using month_start_at [OF m(2,3)] True by (simp add: m(1))
    moreover have "a \<le> a' \<Longrightarrow> b' \<le> b + 1 \<Longrightarrow> c \<le> c' \<Longrightarrow> 365 * y + a - b + c + 337 - 719468 < 365 * (y + 1) + a' - b' + c' - 719468" for a b c a' b' c' :: int
      by simp
    ultimately show ?thesis unfolding succ by metis
  next
    case False
    have succ: "month_start (m + 1) = 365 * y + y div 4 - y div 100 + y div 400 + (153 * (k + 1) + 2) div 5 - 719468"
      using month_start_at [of "k + 1" y] m False by (simp add: algebra_simps)
    have "(153 * k + 2) div 5 < (153 * (k + 1) + 2) div 5" by presburger
    then show ?thesis using succ month_start_at [OF m(2,3)] by (simp add: m(1))
  qed
qed

lemma month_start_bounds:
  "146097 * (m - 2) - 24000 \<le> 4800 * (month_start m + 719468)" "4800 * (month_start m + 719468) \<le> 146097 * (m - 2) + 24000"
proof -
  obtain y k where m: "m = 12 * y + k + 2" "0 \<le> k" "k < 12" by (rule month_split)
  define a b c d where "a = y div 4" and "b = y div 100" and "c = y div 400" and "d = (153 * k + 2) div 5"
  have "4 * a \<le> y" "y < 4 * a + 4" "100 * b \<le> y" "y < 100 * b + 100" "400 * c \<le> y" "y < 400 * c + 400" "5 * d \<le> 153 * k + 2" "153 * k + 2 < 5 * d + 5"
    unfolding a_def b_def c_def d_def by presburger+
  then have q: "1200 * y - 3600 \<le> 4800 * a" "4800 * a \<le> 1200 * y" "48 * y - 4752 \<le> 4800 * b" "4800 * b \<le> 48 * y" "12 * y - 4788 \<le> 4800 * c" "4800 * c \<le> 12 * y"
    "146880 * k - 1920 \<le> 4800 * d" "4800 * d \<le> 146880 * k + 1920" by simp_all
  have start: "month_start m + 719468 = 365 * y + a - b + c + d" "m - 2 = 12 * y + k"
    using month_start_at [OF m(2,3)] by (simp_all add: m(1) a_def b_def c_def d_def)
  show "146097 * (m - 2) - 24000 \<le> 4800 * (month_start m + 719468)" unfolding start using q m(2,3) by (simp add: algebra_simps)
  show "4800 * (month_start m + 719468) \<le> 146097 * (m - 2) + 24000" unfolding start using q m(2,3) by (simp add: algebra_simps)
qed

lemma month_start_less: "m < k \<Longrightarrow> month_start m < month_start k"
proof (induction k rule: int_gr_induct)
  case (step k)
  then show ?case using month_start_step [of k] by simp
qed (use month_start_step [of m] in simp)

lemma month_start_le: "m \<le> k \<Longrightarrow> month_start m \<le> month_start k"
  using month_start_less [of m k] by (cases "m = k") auto

lemma month_search_correct:
  "month_start m \<le> n \<Longrightarrow> n < month_start (m + int f + 1) \<Longrightarrow> month_start (month_search f m n) \<le> n \<and> n < month_start (month_search f m n + 1)"
  by (induction f m n rule: month_search.induct) (auto simp: algebra_simps)

lemma month_of_day_correct: "month_start (month_of_day n) \<le> n" "n < month_start (month_of_day n + 1)"
proof -
  define e where "e = (n + 719468) * 4800 div 146097 - 1"
  have e: "146097 * (e + 1) \<le> (n + 719468) * 4800" "(n + 719468) * 4800 < 146097 * (e + 2)"
    using div_mult_mod_eq [of "(n + 719468) * 4800" 146097] pos_mod_sign [of 146097 "(n + 719468) * 4800"] pos_mod_bound [of 146097 "(n + 719468) * 4800"] unfolding e_def by (simp_all add: algebra_simps)
  have "month_start e \<le> n" using month_start_bounds(2) [of e] e(1) by (simp add: algebra_simps)
  moreover have "n < month_start (e + int 6 + 1)" using month_start_bounds(1) [of "e + int 6 + 1"] e(2) by simp
  ultimately have "month_start (month_search 6 e n) \<le> n \<and> n < month_start (month_search 6 e n + 1)" by (rule month_search_correct)
  then show "month_start (month_of_day n) \<le> n" "n < month_start (month_of_day n + 1)" by (simp_all add: month_of_day_def e_def)
qed

text \<open>The month of a day is the only one that has it.\<close>

lemma month_of_day_unique: assumes "month_start m \<le> n" "n < month_start (m + 1)" shows "month_of_day n = m"
proof (cases "month_of_day n" m rule: linorder_cases)
  case less
  then have "month_start (month_of_day n + 1) \<le> month_start m" by (intro month_start_le) simp
  then show ?thesis using month_of_day_correct(2) [of n] assms(1) by simp
next
  case greater
  then have "month_start (m + 1) \<le> month_start (month_of_day n)" by (intro month_start_le) simp
  then show ?thesis using month_of_day_correct(1) [of n] assms(2) by simp
qed

lemma AddDate_later: "0 \<le> months \<Longrightarrow> 0 \<le> ds \<Longrightarrow> 0 < months + ds \<Longrightarrow> t < AddDate months ds t"
proof -
  assume a: "0 \<le> months" "0 \<le> ds" "0 < months + ds"
  define n where "n = t div day_length"
  have "month_start (month_of_day n) + months * 0 \<le> month_start (month_of_day n + months)"
    using month_start_less [of "month_of_day n" "month_of_day n + months"] a(1) by (cases "months = 0") auto
  moreover have "month_start (month_of_day n) < month_start (month_of_day n + months)" if "0 < months" using that by (simp add: month_start_less)
  ultimately have "n < month_start (month_of_day n + months) + (n - month_start (month_of_day n)) + ds" using a by (cases "0 < months") auto
  then have "n + 1 \<le> month_start (month_of_day n + months) + (n - month_start (month_of_day n)) + ds" by simp
  then have "(n + 1) * day_length \<le> (month_start (month_of_day n + months) + (n - month_start (month_of_day n)) + ds) * day_length"
    by (rule mult_right_mono) (simp add: day_length_def)
  moreover have "t = n * day_length + t mod day_length" "t mod day_length < day_length" "0 \<le> t mod day_length" by (simp_all add: n_def day_length_def)
  ultimately show "t < AddDate months ds t" by (simp add: AddDate_def Let_def n_def [symmetric] algebra_simps)
qed

text \<open>The day after the last of February comes on the first of March, and a day that is not there runs over.\<close>

lemma AddDate_examples:
  "AddDate 1 0 (19753 * day_length) = 19784 * day_length"
  "month_of_day 19753 = 24288" "month_start 24288 + 30 = 19753" "month_start 24290 + 1 = 19784"
  by code_simp+

end
