(* ===== verification/Billing.thy ===== *)
theory Billing
  imports Calendar Protect UPIVerify HostedFlow Tokenization
begin

text \<open>
  Billing (\<open>internal/billing\<close>): customers, UPI mandates, subscriptions with their invoices and attempts, virtual accounts with
  inbound collections, connected accounts, payment links and manual invoices. The runner charges a subscription through
  the order service, the card vault, the payment service or a UPI mandate; these are the models of the other theories,
  put together in \<open>billing_world\<close>. The text of an error, the sealing of personal data and the providers are arguments; a
  run reads the clock once. Metadata columns, which the code only stores, are left out.
\<close>

section \<open>Tables\<close>

datatype subscription_status = SubActive | SubPaused | SubCanceled

datatype mandate_status = MandatePending | MandateActive | MandatePaused | MandateRevoked | MandateExpired | MandateFailed

datatype mandate_event_type =
  EvMandateCreated | EvMandateActivated | EvMandatePaused | EvMandateResumed | EvMandateRevoked | EvMandateExpired | EvChargeOK | EvChargeErr

datatype invoice_status = InvoiceOpen | InvoicePaid | InvoiceFailed | InvoiceVoid

datatype invoice_attempt_status = InvAttStarted | InvAttAuthorized | InvAttCaptured | InvAttFailed

datatype collection_status = CollectionMatched | CollectionReview

datatype link_status = LinkActive | LinkDisabled | LinkExpired | LinkPaid

record customer =
  cu_ID :: id
  cu_MerchantID :: id
  cu_Name :: string
  cu_Email :: string
  cu_Phone :: string
  cu_ExternalReference :: string
  cu_DefaultPaymentTokenID :: id
  cu_CreatedAt :: time

record bill_subscription =
  sb_ID :: id
  sb_MerchantID :: id
  sb_CustomerID :: id
  sb_PlanName :: string
  sb_CollectionMethod :: string
  sb_PaymentMethodTokenID :: id
  sb_UPIMandateID :: id
  sb_Amount :: int
  sb_Currency :: string
  sb_IntervalUnit :: string
  sb_IntervalCount :: int
  sb_Status :: subscription_status
  sb_NextBillingAt :: time
  sb_RetryCount :: int
  sb_MaxRetryCount :: int
  sb_RetryIntervalHours :: int
  sb_CancelAtPeriodEnd :: bool
  sb_PauseReason :: string
  sb_CanceledAt :: "time option"
  sb_CreatedAt :: time

record mandate =
  md_ID :: id
  md_MerchantID :: id
  md_CustomerID :: id
  md_Reference :: string
  md_DisplayName :: string
  md_VPA :: string
  md_AmountLimit :: int
  md_Currency :: string
  md_IntervalUnit :: string
  md_IntervalCount :: int
  md_RetryWindowHours :: int
  md_Status :: mandate_status
  md_ApprovalToken :: string
  md_ApprovedAt :: "time option"
  md_PausedAt :: "time option"
  md_RevokedAt :: "time option"
  md_ExpiresAt :: "time option"
  md_CreatedAt :: time

record mandate_event =
  mv_ID :: id
  mv_MerchantID :: id
  mv_MandateID :: id
  mv_EventType :: mandate_event_type
  mv_ActorType :: string
  mv_ActorID :: string
  mv_Reason :: string
  mv_PaymentID :: id
  mv_CreatedAt :: time

record invoice =
  iv_ID :: id
  iv_MerchantID :: id
  iv_CustomerID :: id
  iv_SubscriptionID :: id
  iv_ExternalReference :: string
  iv_Description :: string
  iv_Amount :: int
  iv_Currency :: string
  iv_Status :: invoice_status
  iv_Overdue :: bool
  iv_BillingReason :: string
  iv_PeriodStart :: time
  iv_PeriodEnd :: time
  iv_DueAt :: time
  iv_OrderID :: id
  iv_PaymentID :: id
  iv_PaymentLinkID :: id
  iv_VirtualAccountID :: id
  iv_ReminderCount :: int
  iv_LastRemindedAt :: "time option"
  iv_FailureCode :: string
  iv_FailureMessage :: string
  iv_CreatedAt :: time

record invoice_attempt =
  ia_ID :: id
  ia_InvoiceID :: id
  ia_MerchantID :: id
  ia_SubscriptionID :: id
  ia_AttemptNumber :: int
  ia_Status :: invoice_attempt_status
  ia_OrderID :: id
  ia_PaymentID :: id
  ia_FailureCode :: string
  ia_FailureMessage :: string

record virtual_account =
  ac_ID :: id
  ac_MerchantID :: id
  ac_CustomerID :: id
  ac_OrderID :: id
  ac_Reference :: string
  ac_Provider :: string
  ac_BankName :: string
  ac_AccountNumber :: string
  ac_IFSC :: string
  ac_UPIVPA :: string
  ac_Active :: bool
  ac_CreatedAt :: time

record collection =
  ic_ID :: id
  ic_MerchantID :: id
  ic_VirtualAccountID :: id
  ic_CustomerID :: id
  ic_OrderID :: id
  ic_Amount :: int
  ic_Currency :: string
  ic_RemitterName :: string
  ic_RemitterAccount :: string
  ic_RemitterIFSC :: string
  ic_RemitterVPA :: string
  ic_UTR :: string
  ic_Status :: collection_status
  ic_ReviewNotes :: string
  ic_MatchedAt :: "time option"
  ic_CreatedAt :: time

record connected_account =
  cn_ID :: id
  cn_MerchantID :: id
  cn_LinkedMerchantID :: id
  cn_BeneficiaryID :: id
  cn_DisplayName :: string
  cn_ExternalReference :: string
  cn_Active :: bool
  cn_CreatedAt :: time

record payment_link =
  pk_ID :: id
  pk_MerchantID :: id
  pk_CustomerID :: id
  pk_OrderID :: id
  pk_ExternalReference :: string
  pk_Title :: string
  pk_Description :: string
  pk_Amount :: int
  pk_Currency :: string
  pk_Status :: link_status
  pk_CallbackURL :: string
  pk_ExpiresAt :: time
  pk_LastVisitedAt :: "time option"
  pk_CreatedAt :: time

record billing_db =
  bl_customers :: "customer list"
  bl_mandates :: "mandate list"
  bl_mandate_events :: "mandate_event list"
  bl_subscriptions :: "bill_subscription list"
  bl_invoices :: "invoice list"
  bl_attempts :: "invoice_attempt list"
  bl_accounts :: "virtual_account list"
  bl_collections :: "collection list"
  bl_connected :: "connected_account list"
  bl_links :: "payment_link list"

datatype billing_error =
  ErrCustomerNotFound | ErrVirtualAccountNotFound | ErrCollectionNotFound | ErrConnectedAccountNotFound | ErrSubscriptionNotFound
  | ErrInvoiceNotFound | ErrUPIMandateNotFound | ErrInvalidCustomer | ErrInvalidSubscription | ErrSubscriptionNotActive | ErrCardTokenNotReusable
  | ErrCustomerTokenMismatch | ErrSubscriptionAlreadyDone | ErrInvalidUPIMandate | ErrUPIMandateNotActive | ErrMandateCustomerMismatch | ErrInvalidVirtualAccount
  | ErrInvalidCollection | ErrInvalidConnectedAccount | ErrInvalidSplitInstruction | ErrPaymentLinkNotFound | ErrInvalidPaymentLink | ErrVPAVerificationRequired
  | ErrSealing protect_error
  | BillOrder order_error | BillPay payment_error | BillHosted hosted_error | BillToken token_error | BillVPA vpa_error | BillDB
  | BillJoin billing_error "billing_error list"

text \<open>Everything a billing operation reads or writes.\<close>

record billing_world =
  bw_pay :: payment_db
  bw_hosted :: hosted_db
  bw_vault :: vault
  bw_vpa :: "verification list"
  bw_bill :: billing_db

section \<open>Validation\<close>

definition is_blank :: "string \<Rightarrow> bool" where
  "is_blank s \<longleftrightarrow> TrimSpace s = ''''"

definition interval_units :: "string list" where
  "interval_units = [''day'', ''week'', ''month'']"

definition ValidateCustomer :: "customer \<Rightarrow> billing_error + unit" where
  "ValidateCustomer c = (if is_blank (cu_MerchantID c) \<or> is_blank (cu_Name c) then Inl ErrInvalidCustomer else Inr ())"

definition ValidateSubscription :: "bill_subscription \<Rightarrow> billing_error + unit" where
  "ValidateSubscription s =
     (if is_blank (sb_MerchantID s) \<or> is_blank (sb_CustomerID s) \<or> is_blank (sb_PlanName s) then Inl ErrInvalidSubscription
      else if (if sb_CollectionMethod s \<in> {'''', ''card''} then is_blank (sb_PaymentMethodTokenID s)
               else if sb_CollectionMethod s = ''upi_mandate'' then is_blank (sb_UPIMandateID s) else True) then Inl ErrInvalidSubscription
      else if sb_Amount s \<le> 0 \<or> sb_IntervalCount s \<le> 0 then Inl ErrInvalidSubscription
      else if sb_IntervalUnit s \<notin> set interval_units then Inl ErrInvalidSubscription
      else if is_blank (sb_Currency s) then Inl ErrInvalidSubscription
      else Inr ())"

definition ValidateMandate :: "mandate \<Rightarrow> billing_error + unit" where
  "ValidateMandate m =
     (if is_blank (md_MerchantID m) \<or> is_blank (md_CustomerID m) \<or> is_blank (md_Reference m) then Inl ErrInvalidUPIMandate
      else if is_blank (md_DisplayName m) \<or> is_blank (md_VPA m) \<or> is_blank (md_Currency m) then Inl ErrInvalidUPIMandate
      else if md_AmountLimit m \<le> 0 \<or> md_IntervalCount m \<le> 0 then Inl ErrInvalidUPIMandate
      else if md_IntervalUnit m \<notin> set interval_units then Inl ErrInvalidUPIMandate
      else Inr ())"

definition ValidateAccount :: "virtual_account \<Rightarrow> billing_error + unit" where
  "ValidateAccount a = (if is_blank (ac_MerchantID a) \<or> is_blank (ac_Reference a) then Inl ErrInvalidVirtualAccount else Inr ())"

definition ValidateCollection :: "collection \<Rightarrow> billing_error + unit" where
  "ValidateCollection c =
     (if is_blank (ic_MerchantID c) \<or> is_blank (ic_VirtualAccountID c) \<or> ic_Amount c \<le> 0 then Inl ErrInvalidCollection
      else if is_blank (ic_Currency c) then Inl ErrInvalidCollection else Inr ())"

definition ValidateConnected :: "connected_account \<Rightarrow> billing_error + unit" where
  "ValidateConnected a = (if is_blank (cn_MerchantID a) \<or> is_blank (cn_DisplayName a) then Inl ErrInvalidConnectedAccount else Inr ())"

definition ValidateLink :: "payment_link \<Rightarrow> billing_error + unit" where
  "ValidateLink l =
     (if is_blank (pk_MerchantID l) \<or> is_blank (pk_OrderID l) \<or> pk_Amount l \<le> 0 \<or> is_blank (pk_Currency l) then Inl ErrInvalidPaymentLink else Inr ())"

text \<open>Any unit but day and week counts as month.\<close>

definition nextPeriodStart :: "time \<Rightarrow> string \<Rightarrow> int \<Rightarrow> time" where
  "nextPeriodStart t u n = (if u = ''day'' then AddDate 0 n t else if u = ''week'' then AddDate 0 (n * 7) t else AddDate n 0 t)"

section \<open>Sealed columns\<close>

text \<open>The cipher, the keys and the nonces of one operation, in the order they are drawn.\<close>

record sealing_env =
  se_gcm :: gcm
  se_protector :: protector
  se_nonce :: "nat \<Rightarrow> string option"

definition seal_at :: "sealing_env \<Rightarrow> nat \<Rightarrow> string \<Rightarrow> string \<Rightarrow> billing_error + string" where
  "seal_at e k domain value = mapL ErrSealing (SealStringForDomain (se_gcm e) (se_protector e) domain (se_nonce e k) value)"

definition open_at :: "sealing_env \<Rightarrow> string \<Rightarrow> string \<Rightarrow> billing_error + string" where
  "open_at e domain value = mapL ErrSealing (OpenStringForDomain (se_gcm e) (se_protector e) domain value)"

fun traverse :: "('a \<Rightarrow> 'e + 'b) \<Rightarrow> 'a list \<Rightarrow> 'e + 'b list" where
  "traverse f [] = Inr []"
| "traverse f (x # xs) = bindR (f x) (\<lambda>y. bindR (traverse f xs) (\<lambda>ys. Inr (y # ys)))"

definition newest :: "int \<Rightarrow> int \<Rightarrow> ('r \<Rightarrow> time) \<Rightarrow> 'r list \<Rightarrow> 'r list" where
  "newest standard limit created rows = take (nat (if limit \<le> 0 \<or> limit > 100 then standard else limit)) (sort_key (\<lambda>r. - created r) rows)"

section \<open>Customers\<close>

definition customer_domain :: string where
  "customer_domain = ''billing_customer_pii''"

definition seal_customer :: "sealing_env \<Rightarrow> customer \<Rightarrow> billing_error + customer" where
  "seal_customer e c =
     bindR (seal_at e 0 customer_domain (cu_Email c)) (\<lambda>email.
     bindR (seal_at e 1 customer_domain (cu_Phone c)) (\<lambda>phone.
     bindR (seal_at e 2 customer_domain (cu_ExternalReference c)) (\<lambda>reference.
       Inr (c\<lparr>cu_Email := email, cu_Phone := phone, cu_ExternalReference := reference\<rparr>))))"

definition decryptCustomer :: "sealing_env \<Rightarrow> customer \<Rightarrow> billing_error + customer" where
  "decryptCustomer e c =
     bindR (open_at e customer_domain (cu_Email c)) (\<lambda>email.
     bindR (open_at e customer_domain (cu_Phone c)) (\<lambda>phone.
     bindR (open_at e customer_domain (cu_ExternalReference c)) (\<lambda>reference.
       Inr (c\<lparr>cu_Email := email, cu_Phone := phone, cu_ExternalReference := reference\<rparr>))))"

definition customer_at :: "id \<Rightarrow> id \<Rightarrow> customer \<Rightarrow> bool" where
  "customer_at m i c \<longleftrightarrow> cu_MerchantID c = m \<and> cu_ID c = i"

text \<open>The partial unique index compares the stored, that is the sealed, references.\<close>

definition reference_clash :: "customer \<Rightarrow> customer list \<Rightarrow> bool" where
  "reference_clash c rows \<longleftrightarrow> cu_ExternalReference c \<noteq> ''''
     \<and> list_ex (\<lambda>r. cu_ID r \<noteq> cu_ID c \<and> cu_MerchantID r = cu_MerchantID c \<and> cu_ExternalReference r = cu_ExternalReference c) rows"

definition CreateCustomerRepo :: "sealing_env \<Rightarrow> id \<Rightarrow> time \<Rightarrow> customer \<Rightarrow> billing_db \<Rightarrow> billing_error + customer \<times> billing_db" where
  "CreateCustomerRepo e newid now c db =
     (let c' = c\<lparr>cu_ID := newid, cu_CreatedAt := now\<rparr> in
      bindR (seal_customer e c') (\<lambda>row.
        if newid \<in> cu_ID ` set (bl_customers db) \<or> reference_clash row (bl_customers db) then Inl BillDB
        else Inr (c', db\<lparr>bl_customers := bl_customers db @ [row]\<rparr>)))"

definition GetCustomer :: "sealing_env \<Rightarrow> id \<Rightarrow> id \<Rightarrow> billing_db \<Rightarrow> billing_error + customer" where
  "GetCustomer e m i db =
     (case find (customer_at m i) (bl_customers db) of None \<Rightarrow> Inl ErrCustomerNotFound | Some c \<Rightarrow> decryptCustomer e c)"

definition ListCustomers :: "sealing_env \<Rightarrow> id \<Rightarrow> int \<Rightarrow> billing_db \<Rightarrow> billing_error + customer list" where
  "ListCustomers e m limit db = traverse (decryptCustomer e) (newest 25 limit cu_CreatedAt (filter (\<lambda>c. cu_MerchantID c = m) (bl_customers db)))"

definition UpdateCustomerRepo :: "sealing_env \<Rightarrow> customer \<Rightarrow> billing_db \<Rightarrow> billing_error + customer \<times> billing_db" where
  "UpdateCustomerRepo e c db =
     bindR (seal_customer e c) (\<lambda>row.
       case find (customer_at (cu_MerchantID c) (cu_ID c)) (bl_customers db) of
         None \<Rightarrow> Inl ErrCustomerNotFound
       | Some old \<Rightarrow>
           if reference_clash row (bl_customers db) then Inl BillDB
           else Inr (c\<lparr>cu_CreatedAt := cu_CreatedAt old\<rparr>,
             db\<lparr>bl_customers := upd_where (customer_at (cu_MerchantID c) (cu_ID c)) (\<lambda>r. row\<lparr>cu_CreatedAt := cu_CreatedAt r\<rparr>) (bl_customers db)\<rparr>))"

section \<open>UPI mandates\<close>

definition mandate_at :: "id \<Rightarrow> id \<Rightarrow> mandate \<Rightarrow> bool" where
  "mandate_at m i d \<longleftrightarrow> md_MerchantID d = m \<and> md_ID d = i"

definition insertUPIMandateEventTx ::
  "id \<Rightarrow> time \<Rightarrow> id \<Rightarrow> id \<Rightarrow> mandate_event_type \<Rightarrow> string \<Rightarrow> string \<Rightarrow> string \<Rightarrow> id \<Rightarrow> billing_db \<Rightarrow> billing_error + billing_db" where
  "insertUPIMandateEventTx newid now m i kind actorType actorID reason paymentID db =
     (if newid \<in> mv_ID ` set (bl_mandate_events db) \<or> i \<notin> md_ID ` set (bl_mandates db) then Inl BillDB
      else Inr (db\<lparr>bl_mandate_events := bl_mandate_events db @
        [\<lparr>mv_ID = newid, mv_MerchantID = m, mv_MandateID = i, mv_EventType = kind, mv_ActorType = actorType, mv_ActorID = actorID, mv_Reason = reason,
          mv_PaymentID = paymentID, mv_CreatedAt = now\<rparr>]\<rparr>))"

fun mandate_status_text :: "mandate_status \<Rightarrow> string" where
  "mandate_status_text MandatePending = ''pending_approval''"
| "mandate_status_text MandateActive = ''active''"
| "mandate_status_text MandatePaused = ''paused''"
| "mandate_status_text MandateRevoked = ''revoked''"
| "mandate_status_text MandateExpired = ''expired''"
| "mandate_status_text MandateFailed = ''failed''"

definition writeUPIMandateOutboxTx :: "id \<Rightarrow> time \<Rightarrow> mandate \<Rightarrow> string \<Rightarrow> payment_db \<Rightarrow> payment_db" where
  "writeUPIMandateOutboxTx evtID now d kind =
     emit evtID now (pay_event ''upi_mandate'' (md_ID d) kind (md_MerchantID d)
       [(''mandate_id'', PStr (md_ID d)), (''customer_id'', PStr (md_CustomerID d)), (''status'', PStr (mandate_status_text (md_Status d))),
        (''reference'', PStr (md_Reference d)), (''amount_limit'', PInt (md_AmountLimit d)), (''currency'', PStr (md_Currency d)),
        (''interval_unit'', PStr (md_IntervalUnit d)), (''interval_count'', PInt (md_IntervalCount d)), (''retry_window_hours'', PInt (md_RetryWindowHours d))])"

record mandate_ids =
  mi_Mandate :: id
  mi_Reference :: id
  mi_Token :: id
  mi_Event :: id
  mi_OutboxEvent :: id
  mi_Verification :: id

definition CreateUPIMandateRepo :: "mandate_ids \<Rightarrow> time \<Rightarrow> mandate \<Rightarrow> string \<Rightarrow> string \<Rightarrow> billing_world \<Rightarrow> billing_error + mandate \<times> billing_world" where
  "CreateUPIMandateRepo ids now d actorType actorID w =
     (let d' = d\<lparr>md_ID := mi_Mandate ids, md_ApprovedAt := None, md_PausedAt := None, md_RevokedAt := None, md_CreatedAt := now\<rparr>; db = bw_bill w in
      if md_ID d' \<in> md_ID ` set (bl_mandates db) \<or> list_ex (\<lambda>r. md_MerchantID r = md_MerchantID d \<and> md_Reference r = md_Reference d) (bl_mandates db)
         \<or> md_CustomerID d \<notin> cu_ID ` set (bl_customers db) then Inl BillDB
      else
      bindR (insertUPIMandateEventTx (mi_Event ids) now (md_MerchantID d) (md_ID d') EvMandateCreated actorType actorID '''' ''''
               (db\<lparr>bl_mandates := bl_mandates db @ [d']\<rparr>)) (\<lambda>db'.
        Inr (d', w\<lparr>bw_bill := db', bw_hosted := (bw_hosted w)\<lparr>hd_mandates := hd_mandates (bw_hosted w) @ [md_ID d']\<rparr>,
                   bw_pay := writeUPIMandateOutboxTx (mi_OutboxEvent ids) now d' ''upi_mandate.created'' (bw_pay w)\<rparr>)))"

definition GetUPIMandateRepo :: "id \<Rightarrow> id \<Rightarrow> billing_db \<Rightarrow> billing_error + mandate" where
  "GetUPIMandateRepo m i db = (case find (mandate_at m i) (bl_mandates db) of None \<Rightarrow> Inl ErrUPIMandateNotFound | Some d \<Rightarrow> Inr d)"

definition ListUPIMandatesRepo :: "id \<Rightarrow> int \<Rightarrow> billing_db \<Rightarrow> mandate list" where
  "ListUPIMandatesRepo m limit db = newest 25 limit md_CreatedAt (filter (\<lambda>d. md_MerchantID d = m) (bl_mandates db))"

definition ListUPIMandateEvents :: "id \<Rightarrow> id \<Rightarrow> int \<Rightarrow> billing_db \<Rightarrow> mandate_event list" where
  "ListUPIMandateEvents m i limit db =
     newest 50 limit mv_CreatedAt (filter (\<lambda>v. mv_MerchantID v = m \<and> mv_MandateID v = i) (bl_mandate_events db))"

definition mandate_event_of :: "mandate_status \<Rightarrow> (mandate_event_type \<times> string) option" where
  "mandate_event_of s =
     (case s of
        MandateActive \<Rightarrow> Some (EvMandateActivated, ''upi_mandate.activated'')
      | MandatePaused \<Rightarrow> Some (EvMandatePaused, ''upi_mandate.paused'')
      | MandateRevoked \<Rightarrow> Some (EvMandateRevoked, ''upi_mandate.revoked'')
      | MandateExpired \<Rightarrow> Some (EvMandateExpired, ''upi_mandate.expired'')
      | _ \<Rightarrow> None)"

definition set_mandate_status :: "mandate_status \<Rightarrow> time \<Rightarrow> mandate \<Rightarrow> mandate" where
  "set_mandate_status s now d =
     d\<lparr>md_Status := s,
        md_ApprovedAt := (if s = MandateActive \<and> md_ApprovedAt d = None then Some now else md_ApprovedAt d),
        md_PausedAt := (if s = MandatePaused then Some now else if s = MandateActive then None else md_PausedAt d),
        md_RevokedAt := (if s = MandateRevoked then Some now else md_RevokedAt d),
        md_ApprovalToken := (if s = MandateActive then '''' else md_ApprovalToken d)\<rparr>"

text \<open>The status a mandate has is not looked at.\<close>

definition UpdateUPIMandateStatus ::
  "id \<times> id \<Rightarrow> time \<Rightarrow> id \<Rightarrow> id \<Rightarrow> mandate_status \<Rightarrow> string \<Rightarrow> string \<Rightarrow> string \<Rightarrow> billing_world \<Rightarrow> billing_error + mandate \<times> billing_world" where
  "UpdateUPIMandateStatus ids now m i s actorType actorID reason w =
     (case mandate_event_of s of
        None \<Rightarrow> Inl ErrInvalidUPIMandate
      | Some (kind, name) \<Rightarrow>
          (case find (mandate_at m i) (bl_mandates (bw_bill w)) of
             None \<Rightarrow> Inl ErrUPIMandateNotFound
           | Some d \<Rightarrow>
               let d' = set_mandate_status s now d;
                   db = (bw_bill w)\<lparr>bl_mandates := upd_where (mandate_at m i) (set_mandate_status s now) (bl_mandates (bw_bill w))\<rparr> in
               bindR (insertUPIMandateEventTx (fst ids) now m i kind actorType actorID reason '''' db) (\<lambda>db'.
                 Inr (d', w\<lparr>bw_bill := db', bw_pay := writeUPIMandateOutboxTx (snd ids) now d' name (bw_pay w)\<rparr>))))"

definition RecordUPIMandateChargeResult ::
  "id \<Rightarrow> time \<Rightarrow> id \<Rightarrow> id \<Rightarrow> mandate_event_type \<Rightarrow> id \<Rightarrow> string \<Rightarrow> billing_db \<Rightarrow> billing_error + billing_db" where
  "RecordUPIMandateChargeResult newid now m i kind paymentID reason db =
     insertUPIMandateEventTx newid now m i kind ''system'' ''subscription_runner'' reason paymentID db"

section \<open>Virtual accounts and inbound collections\<close>

text \<open>The replacer deletes \<open>va_\<close>, dashes and underscores, from left to right.\<close>

fun strip_id :: "string \<Rightarrow> string" where
  "strip_id [] = []"
| "strip_id (c # s) =
     (if take 3 (c # s) = ''va_'' then strip_id (drop 2 s)
      else if c = CHR ''-'' \<or> c = CHR ''_'' then strip_id s
      else c # strip_id s)"

definition generateVirtualAccountNumber :: "id \<Rightarrow> string" where
  "generateVirtualAccountNumber i =
     (let suffix = strip_id i; s = drop (length suffix - 12) suffix in ''100700'' @ replicate (12 - length s) (CHR ''0'') @ s)"

definition account_at :: "id \<Rightarrow> id \<Rightarrow> virtual_account \<Rightarrow> bool" where
  "account_at m i a \<longleftrightarrow> ac_MerchantID a = m \<and> ac_ID a = i"

definition CreateVirtualAccountRepo :: "id \<Rightarrow> time \<Rightarrow> virtual_account \<Rightarrow> billing_db \<Rightarrow> billing_error + virtual_account \<times> billing_db" where
  "CreateVirtualAccountRepo newid now a db =
     (let a' = a\<lparr>ac_ID := newid, ac_AccountNumber := generateVirtualAccountNumber newid, ac_UPIVPA := ac_Reference a @ ''@paygate'',
                 ac_Provider := (if ac_Provider a = '''' then ''simulated'' else ac_Provider a),
                 ac_BankName := (if ac_BankName a = '''' then ''PayGate Bank'' else ac_BankName a),
                 ac_IFSC := (if ac_IFSC a = '''' then ''PGAT0001234'' else ac_IFSC a), ac_CreatedAt := now\<rparr> in
      if list_ex (\<lambda>r. ac_ID r = newid \<or> ac_AccountNumber r = ac_AccountNumber a' \<or> ac_MerchantID r = ac_MerchantID a \<and> ac_Reference r = ac_Reference a)
           (bl_accounts db) then Inl BillDB
      else Inr (a', db\<lparr>bl_accounts := bl_accounts db @ [a']\<rparr>))"

definition GetVirtualAccount :: "id \<Rightarrow> id \<Rightarrow> billing_db \<Rightarrow> billing_error + virtual_account" where
  "GetVirtualAccount m i db = (case find (account_at m i) (bl_accounts db) of None \<Rightarrow> Inl ErrVirtualAccountNotFound | Some a \<Rightarrow> Inr a)"

definition ListVirtualAccounts :: "id \<Rightarrow> int \<Rightarrow> billing_db \<Rightarrow> virtual_account list" where
  "ListVirtualAccounts m limit db = newest 25 limit ac_CreatedAt (filter (\<lambda>a. ac_MerchantID a = m) (bl_accounts db))"

definition collection_domain :: string where
  "collection_domain = ''billing_inbound_collection''"

definition seal_collection :: "sealing_env \<Rightarrow> collection \<Rightarrow> billing_error + collection" where
  "seal_collection e c =
     bindR (seal_at e 0 collection_domain (ic_RemitterAccount c)) (\<lambda>account.
     bindR (seal_at e 1 collection_domain (ic_RemitterIFSC c)) (\<lambda>ifsc.
     bindR (seal_at e 2 collection_domain (ic_RemitterVPA c)) (\<lambda>vpa.
       Inr (c\<lparr>ic_RemitterAccount := account, ic_RemitterIFSC := ifsc, ic_RemitterVPA := vpa\<rparr>))))"

definition decryptInboundCollection :: "sealing_env \<Rightarrow> collection \<Rightarrow> billing_error + collection" where
  "decryptInboundCollection e c =
     bindR (open_at e collection_domain (ic_RemitterAccount c)) (\<lambda>account.
     bindR (open_at e collection_domain (ic_RemitterIFSC c)) (\<lambda>ifsc.
     bindR (open_at e collection_domain (ic_RemitterVPA c)) (\<lambda>vpa.
       Inr (c\<lparr>ic_RemitterAccount := account, ic_RemitterIFSC := ifsc, ic_RemitterVPA := vpa\<rparr>))))"

definition collection_at :: "id \<Rightarrow> id \<Rightarrow> collection \<Rightarrow> bool" where
  "collection_at m i c \<longleftrightarrow> ic_MerchantID c = m \<and> ic_ID c = i"

definition CreateInboundCollection :: "sealing_env \<Rightarrow> id \<Rightarrow> time \<Rightarrow> collection \<Rightarrow> billing_db \<Rightarrow> billing_error + collection \<times> billing_db" where
  "CreateInboundCollection e newid now c db =
     (let c' = c\<lparr>ic_ID := newid, ic_CreatedAt := now, ic_MatchedAt := (if ic_Status c = CollectionMatched then Some now else None)\<rparr> in
      bindR (seal_collection e c') (\<lambda>row.
        if newid \<in> ic_ID ` set (bl_collections db) \<or> ic_VirtualAccountID c \<notin> ac_ID ` set (bl_accounts db)
           \<or> ic_UTR c \<noteq> '''' \<and> list_ex (\<lambda>r. ic_MerchantID r = ic_MerchantID c \<and> ic_UTR r = ic_UTR c) (bl_collections db) then Inl BillDB
        else Inr (c', db\<lparr>bl_collections := bl_collections db @ [row]\<rparr>)))"

definition GetInboundCollection :: "sealing_env \<Rightarrow> id \<Rightarrow> id \<Rightarrow> billing_db \<Rightarrow> billing_error + collection" where
  "GetInboundCollection e m i db =
     (case find (collection_at m i) (bl_collections db) of None \<Rightarrow> Inl ErrCollectionNotFound | Some c \<Rightarrow> decryptInboundCollection e c)"

definition ListInboundCollections :: "sealing_env \<Rightarrow> id \<Rightarrow> int \<Rightarrow> bool \<Rightarrow> billing_db \<Rightarrow> billing_error + collection list" where
  "ListInboundCollections e m limit reviewOnly db =
     traverse (decryptInboundCollection e)
       (newest 25 limit ic_CreatedAt (filter (\<lambda>c. ic_MerchantID c = m \<and> (\<not> reviewOnly \<or> ic_Status c = CollectionReview)) (bl_collections db)))"

definition review_collection :: "time \<Rightarrow> id \<Rightarrow> id \<Rightarrow> string \<Rightarrow> collection \<Rightarrow> collection" where
  "review_collection now orderID customerID reviewNotes c =
     (let matched = (if orderID \<noteq> '''' then orderID else ic_OrderID c) \<noteq> '''' in
      c\<lparr>ic_OrderID := (if orderID \<noteq> '''' then orderID else ic_OrderID c), ic_CustomerID := (if customerID \<noteq> '''' then customerID else ic_CustomerID c),
         ic_ReviewNotes := reviewNotes, ic_Status := (if matched then CollectionMatched else ic_Status c),
         ic_MatchedAt := (if matched \<and> ic_MatchedAt c = None then Some now else ic_MatchedAt c)\<rparr>)"

definition ReviewInboundCollectionRepo ::
  "sealing_env \<Rightarrow> time \<Rightarrow> id \<Rightarrow> id \<Rightarrow> id \<Rightarrow> id \<Rightarrow> string \<Rightarrow> billing_db \<Rightarrow> (billing_error + collection) \<times> billing_db" where
  "ReviewInboundCollectionRepo e now m i orderID customerID reviewNotes db =
     (case find (collection_at m i) (bl_collections db) of
        None \<Rightarrow> (Inl ErrCollectionNotFound, db)
      | Some c \<Rightarrow> (decryptInboundCollection e (review_collection now orderID customerID reviewNotes c),
                   db\<lparr>bl_collections := upd_where (collection_at m i) (review_collection now orderID customerID reviewNotes) (bl_collections db)\<rparr>))"

section \<open>Connected accounts\<close>

definition connected_domain :: string where
  "connected_domain = ''billing_connected_account''"

definition connected_at :: "id \<Rightarrow> id \<Rightarrow> connected_account \<Rightarrow> bool" where
  "connected_at m i a \<longleftrightarrow> cn_MerchantID a = m \<and> cn_ID a = i"

definition CreateConnectedAccountRepo ::
  "sealing_env \<Rightarrow> id \<Rightarrow> time \<Rightarrow> connected_account \<Rightarrow> billing_db \<Rightarrow> billing_error + connected_account \<times> billing_db" where
  "CreateConnectedAccountRepo e newid now a db =
     (let a' = a\<lparr>cn_ID := newid, cn_CreatedAt := now\<rparr> in
      bindR (seal_at e 0 connected_domain (cn_ExternalReference a)) (\<lambda>reference.
        if newid \<in> cn_ID ` set (bl_connected db)
           \<or> reference \<noteq> '''' \<and> list_ex (\<lambda>r. cn_MerchantID r = cn_MerchantID a \<and> cn_ExternalReference r = reference) (bl_connected db) then Inl BillDB
        else Inr (a', db\<lparr>bl_connected := bl_connected db @ [a'\<lparr>cn_ExternalReference := reference\<rparr>]\<rparr>)))"

definition decryptConnectedAccount :: "sealing_env \<Rightarrow> connected_account \<Rightarrow> billing_error + connected_account" where
  "decryptConnectedAccount e a =
     bindR (open_at e connected_domain (cn_ExternalReference a)) (\<lambda>reference. Inr (a\<lparr>cn_ExternalReference := reference\<rparr>))"

definition GetConnectedAccount :: "sealing_env \<Rightarrow> id \<Rightarrow> id \<Rightarrow> billing_db \<Rightarrow> billing_error + connected_account" where
  "GetConnectedAccount e m i db =
     (case find (connected_at m i) (bl_connected db) of None \<Rightarrow> Inl ErrConnectedAccountNotFound | Some a \<Rightarrow> decryptConnectedAccount e a)"

definition ListConnectedAccounts :: "sealing_env \<Rightarrow> id \<Rightarrow> int \<Rightarrow> billing_db \<Rightarrow> billing_error + connected_account list" where
  "ListConnectedAccounts e m limit db =
     traverse (decryptConnectedAccount e) (newest 25 limit cn_CreatedAt (filter (\<lambda>a. cn_MerchantID a = m) (bl_connected db)))"

section \<open>Subscriptions\<close>

definition bsub_at :: "id \<Rightarrow> id \<Rightarrow> bill_subscription \<Rightarrow> bool" where
  "bsub_at m i s \<longleftrightarrow> sb_MerchantID s = m \<and> sb_ID s = i"

definition set_bsub :: "id \<Rightarrow> id \<Rightarrow> (bill_subscription \<Rightarrow> bill_subscription) \<Rightarrow> billing_db \<Rightarrow> billing_db" where
  "set_bsub m i f db = db\<lparr>bl_subscriptions := upd_where (bsub_at m i) f (bl_subscriptions db)\<rparr>"

definition InsertBillingSubscription :: "id \<Rightarrow> time \<Rightarrow> bill_subscription \<Rightarrow> billing_db \<Rightarrow> billing_error + bill_subscription \<times> billing_db" where
  "InsertBillingSubscription newid now s db =
     (let s' = s\<lparr>sb_ID := newid, sb_RetryCount := 0, sb_CanceledAt := None, sb_CreatedAt := now\<rparr> in
      if newid \<in> sb_ID ` set (bl_subscriptions db) \<or> sb_CustomerID s \<notin> cu_ID ` set (bl_customers db)
         \<or> sb_UPIMandateID s \<noteq> '''' \<and> sb_UPIMandateID s \<notin> md_ID ` set (bl_mandates db)
         \<or> sb_CollectionMethod s \<notin> {''card'', ''upi_mandate''} then Inl BillDB
      else Inr (s', db\<lparr>bl_subscriptions := bl_subscriptions db @ [s']\<rparr>))"

definition GetBillingSubscription :: "id \<Rightarrow> id \<Rightarrow> billing_db \<Rightarrow> billing_error + bill_subscription" where
  "GetBillingSubscription m i db = (case find (bsub_at m i) (bl_subscriptions db) of None \<Rightarrow> Inl ErrSubscriptionNotFound | Some s \<Rightarrow> Inr s)"

definition ListBillingSubscriptions :: "id \<Rightarrow> int \<Rightarrow> billing_db \<Rightarrow> bill_subscription list" where
  "ListBillingSubscriptions m limit db = newest 25 limit sb_CreatedAt (filter (\<lambda>s. sb_MerchantID s = m) (bl_subscriptions db))"

text \<open>Nor is the status of a subscription.\<close>

definition set_sub_status :: "time \<Rightarrow> subscription_status \<Rightarrow> string \<Rightarrow> bool \<Rightarrow> time option \<Rightarrow> bill_subscription \<Rightarrow> bill_subscription" where
  "set_sub_status now st pauseReason atPeriodEnd nextAt s =
     s\<lparr>sb_Status := st, sb_PauseReason := pauseReason, sb_CancelAtPeriodEnd := atPeriodEnd,
        sb_NextBillingAt := (case nextAt of Some t \<Rightarrow> t | None \<Rightarrow> sb_NextBillingAt s),
        sb_CanceledAt := (if st = SubCanceled then Some now else sb_CanceledAt s)\<rparr>"

definition UpdateSubscriptionStatus ::
  "time \<Rightarrow> id \<Rightarrow> id \<Rightarrow> subscription_status \<Rightarrow> string \<Rightarrow> bool \<Rightarrow> time option \<Rightarrow> billing_db \<Rightarrow> billing_error + bill_subscription \<times> billing_db" where
  "UpdateSubscriptionStatus now m i st pauseReason atPeriodEnd nextAt db =
     bindR (GetBillingSubscription m i db) (\<lambda>s.
       Inr (set_sub_status now st pauseReason atPeriodEnd nextAt s, set_bsub m i (set_sub_status now st pauseReason atPeriodEnd nextAt) db))"

text \<open>The rows that are due, of every merchant, the longest due first. Nothing is locked or marked.\<close>

definition LeaseDueSubscriptions :: "time \<Rightarrow> int \<Rightarrow> billing_db \<Rightarrow> bill_subscription list" where
  "LeaseDueSubscriptions before limit db =
     take (nat (if limit \<le> 0 \<or> limit > 100 then 10 else limit))
       (sort_key sb_NextBillingAt (filter (\<lambda>s. sb_Status s = SubActive \<and> sb_NextBillingAt s \<le> before) (bl_subscriptions db)))"

section \<open>Invoices\<close>

definition invoice_at :: "id \<Rightarrow> id \<Rightarrow> invoice \<Rightarrow> bool" where
  "invoice_at m i v \<longleftrightarrow> iv_MerchantID v = m \<and> iv_ID v = i"

definition set_invoice :: "id \<Rightarrow> id \<Rightarrow> (invoice \<Rightarrow> invoice) \<Rightarrow> billing_db \<Rightarrow> billing_db" where
  "set_invoice m i f db = db\<lparr>bl_invoices := upd_where (invoice_at m i) f (bl_invoices db)\<rparr>"

definition CreateInvoice :: "id \<Rightarrow> time \<Rightarrow> invoice \<Rightarrow> billing_db \<Rightarrow> billing_error + invoice \<times> billing_db" where
  "CreateInvoice newid now v db =
     (let v' = v\<lparr>iv_ID := newid, iv_CreatedAt := now\<rparr> in
      if newid \<in> iv_ID ` set (bl_invoices db) \<or> iv_Amount v \<le> 0 \<or> iv_CustomerID v \<notin> cu_ID ` set (bl_customers db)
         \<or> iv_SubscriptionID v \<noteq> '''' \<and> iv_SubscriptionID v \<notin> sb_ID ` set (bl_subscriptions db) then Inl BillDB
      else Inr (v', db\<lparr>bl_invoices := bl_invoices db @ [v'\<lparr>iv_FailureCode := '''', iv_FailureMessage := '''', iv_LastRemindedAt := None, iv_Overdue := False\<rparr>]\<rparr>))"

definition GetInvoiceRepo :: "id \<Rightarrow> id \<Rightarrow> billing_db \<Rightarrow> billing_error + invoice" where
  "GetInvoiceRepo m i db = (case find (invoice_at m i) (bl_invoices db) of None \<Rightarrow> Inl ErrInvoiceNotFound | Some v \<Rightarrow> Inr v)"

definition ListInvoicesRepo :: "id \<Rightarrow> id \<Rightarrow> int \<Rightarrow> billing_db \<Rightarrow> invoice list" where
  "ListInvoicesRepo m subscriptionID limit db =
     newest 25 limit iv_CreatedAt (filter (\<lambda>v. iv_MerchantID v = m \<and> (subscriptionID = '''' \<or> iv_SubscriptionID v = subscriptionID)) (bl_invoices db))"

definition CreateInvoiceAttempt :: "id \<Rightarrow> invoice_attempt \<Rightarrow> billing_db \<Rightarrow> billing_error + invoice_attempt \<times> billing_db" where
  "CreateInvoiceAttempt newid a db =
     (if newid \<in> ia_ID ` set (bl_attempts db) \<or> ia_AttemptNumber a \<le> 0 \<or> ia_InvoiceID a \<notin> iv_ID ` set (bl_invoices db)
         \<or> ia_SubscriptionID a \<notin> sb_ID ` set (bl_subscriptions db)
         \<or> list_ex (\<lambda>r. ia_InvoiceID r = ia_InvoiceID a \<and> ia_AttemptNumber r = ia_AttemptNumber a) (bl_attempts db) then Inl BillDB
      else Inr (a\<lparr>ia_ID := newid\<rparr>, db\<lparr>bl_attempts := bl_attempts db @ [a\<lparr>ia_ID := newid\<rparr>]\<rparr>))"

definition attempt_at :: "id \<Rightarrow> id \<Rightarrow> invoice_attempt \<Rightarrow> bool" where
  "attempt_at m i a \<longleftrightarrow> ia_MerchantID a = m \<and> ia_ID a = i"

definition MarkInvoiceAttempt ::
  "id \<Rightarrow> id \<Rightarrow> invoice_attempt_status \<Rightarrow> id \<Rightarrow> id \<Rightarrow> string \<Rightarrow> string \<Rightarrow> billing_db \<Rightarrow> billing_error + billing_db" where
  "MarkInvoiceAttempt m i st orderID paymentID code message db =
     (if \<not> list_ex (attempt_at m i) (bl_attempts db) then Inl ErrInvoiceNotFound
      else Inr (db\<lparr>bl_attempts := upd_where (attempt_at m i)
        (\<lambda>a. a\<lparr>ia_Status := st, ia_OrderID := (if orderID \<noteq> '''' then orderID else ia_OrderID a),
                 ia_PaymentID := (if paymentID \<noteq> '''' then paymentID else ia_PaymentID a), ia_FailureCode := code, ia_FailureMessage := message\<rparr>)
        (bl_attempts db)\<rparr>))"

definition MarkInvoiceReminded :: "id \<Rightarrow> id \<Rightarrow> time \<Rightarrow> billing_db \<Rightarrow> billing_error + invoice \<times> billing_db" where
  "MarkInvoiceReminded m i at db =
     (let f = (\<lambda>v. v\<lparr>iv_ReminderCount := iv_ReminderCount v + 1, iv_LastRemindedAt := Some at\<rparr>) in
      bindR (GetInvoiceRepo m i db) (\<lambda>v. Inr (f v, set_invoice m i f db)))"

text \<open>Both outcomes of a charge: the invoice and, when it has one, its subscription.\<close>

definition pay_invoice :: "id \<Rightarrow> id \<Rightarrow> invoice \<Rightarrow> invoice" where
  "pay_invoice orderID paymentID v =
     v\<lparr>iv_Status := InvoicePaid, iv_OrderID := orderID, iv_PaymentID := paymentID, iv_FailureCode := '''', iv_FailureMessage := ''''\<rparr>"

definition renew_sub :: "time \<Rightarrow> time \<Rightarrow> bill_subscription \<Rightarrow> bill_subscription" where
  "renew_sub now nextAt s =
     s\<lparr>sb_RetryCount := 0, sb_NextBillingAt := nextAt, sb_Status := (if sb_CancelAtPeriodEnd s then SubCanceled else sb_Status s),
        sb_CanceledAt := (if sb_CancelAtPeriodEnd s then Some now else sb_CanceledAt s)\<rparr>"

definition MarkInvoicePaid :: "time \<Rightarrow> id \<Rightarrow> id \<Rightarrow> id \<Rightarrow> id \<Rightarrow> time \<Rightarrow> billing_db \<Rightarrow> billing_error + invoice \<times> billing_db" where
  "MarkInvoicePaid now m i orderID paymentID nextAt db =
     bindR (GetInvoiceRepo m i db) (\<lambda>v.
       let v' = pay_invoice orderID paymentID v; db' = set_invoice m i (pay_invoice orderID paymentID) db in
       Inr (v', if iv_SubscriptionID v = '''' then db' else set_bsub m (iv_SubscriptionID v) (renew_sub now nextAt) db'))"

definition fail_invoice :: "string \<Rightarrow> string \<Rightarrow> invoice \<Rightarrow> invoice" where
  "fail_invoice code message v = v\<lparr>iv_Status := InvoiceFailed, iv_FailureCode := code, iv_FailureMessage := message\<rparr>"

definition reschedule_sub :: "time \<Rightarrow> int \<Rightarrow> bill_subscription \<Rightarrow> bill_subscription" where
  "reschedule_sub nextAt retryCount s = s\<lparr>sb_RetryCount := retryCount, sb_NextBillingAt := nextAt\<rparr>"

definition MarkInvoiceFailed :: "id \<Rightarrow> id \<Rightarrow> string \<Rightarrow> string \<Rightarrow> time \<Rightarrow> int \<Rightarrow> billing_db \<Rightarrow> billing_error + invoice \<times> billing_db" where
  "MarkInvoiceFailed m i code message nextAt retryCount db =
     bindR (GetInvoiceRepo m i db) (\<lambda>v.
       let v' = fail_invoice code message v; db' = set_invoice m i (fail_invoice code message) db in
       Inr (v', if iv_SubscriptionID v = '''' then db' else set_bsub m (iv_SubscriptionID v) (reschedule_sub nextAt retryCount) db'))"

section \<open>Payment links\<close>

definition link_at :: "id \<Rightarrow> id \<Rightarrow> payment_link \<Rightarrow> bool" where
  "link_at m i l \<longleftrightarrow> pk_MerchantID l = m \<and> pk_ID l = i"

definition CreatePaymentLinkRepo :: "id \<Rightarrow> time \<Rightarrow> payment_link \<Rightarrow> billing_db \<Rightarrow> billing_error + payment_link \<times> billing_db" where
  "CreatePaymentLinkRepo newid now l db =
     (let l' = l\<lparr>pk_ID := newid, pk_CreatedAt := now, pk_LastVisitedAt := None\<rparr> in
      if newid \<in> pk_ID ` set (bl_links db) \<or> pk_CustomerID l \<noteq> '''' \<and> pk_CustomerID l \<notin> cu_ID ` set (bl_customers db) then Inl BillDB
      else Inr (l', db\<lparr>bl_links := bl_links db @ [l']\<rparr>))"

definition GetPaymentLinkRepo :: "id \<Rightarrow> id \<Rightarrow> billing_db \<Rightarrow> billing_error + payment_link" where
  "GetPaymentLinkRepo m i db = (case find (link_at m i) (bl_links db) of None \<Rightarrow> Inl ErrPaymentLinkNotFound | Some l \<Rightarrow> Inr l)"

definition ListPaymentLinksRepo :: "id \<Rightarrow> int \<Rightarrow> billing_db \<Rightarrow> payment_link list" where
  "ListPaymentLinksRepo m limit db = newest 25 limit pk_CreatedAt (filter (\<lambda>l. pk_MerchantID l = m) (bl_links db))"

definition set_link :: "id \<Rightarrow> id \<Rightarrow> (payment_link \<Rightarrow> payment_link) \<Rightarrow> billing_db \<Rightarrow> billing_error + payment_link \<times> billing_db" where
  "set_link m i f db = bindR (GetPaymentLinkRepo m i db) (\<lambda>l. Inr (f l, db\<lparr>bl_links := upd_where (link_at m i) f (bl_links db)\<rparr>))"

definition UpdatePaymentLinkStatus :: "id \<Rightarrow> id \<Rightarrow> link_status \<Rightarrow> billing_db \<Rightarrow> billing_error + payment_link \<times> billing_db" where
  "UpdatePaymentLinkStatus m i st = set_link m i (\<lambda>l. l\<lparr>pk_Status := st\<rparr>)"

definition MarkPaymentLinkVisited :: "id \<Rightarrow> id \<Rightarrow> time \<Rightarrow> billing_db \<Rightarrow> billing_error + payment_link \<times> billing_db" where
  "MarkPaymentLinkVisited m i at = set_link m i (\<lambda>l. l\<lparr>pk_LastVisitedAt := Some at\<rparr>)"

end
