(* ===== verification/BillingService.thy ===== *)
theory BillingService
  imports Billing
begin

text \<open>
  The billing service (\<open>internal/billing/service.go\<close>, \<open>payment_link.go\<close> and \<open>invoice_manual.go\<close>) over the tables of
  Billing. The order service is configured, as the commands set it up; the verifier of UPI addresses may be absent.
\<close>

section \<open>Customers\<close>

definition trimmed_customer :: "customer \<Rightarrow> customer" where
  "trimmed_customer c = c\<lparr>cu_Name := TrimSpace (cu_Name c), cu_Email := TrimSpace (cu_Email c), cu_Phone := TrimSpace (cu_Phone c),
     cu_ExternalReference := TrimSpace (cu_ExternalReference c), cu_DefaultPaymentTokenID := TrimSpace (cu_DefaultPaymentTokenID c)\<rparr>"

definition CreateCustomer :: "sealing_env \<Rightarrow> id \<Rightarrow> time \<Rightarrow> customer \<Rightarrow> billing_db \<Rightarrow> billing_error + customer \<times> billing_db" where
  "CreateCustomer e newid now inp db =
     (let c = trimmed_customer inp in bindR (ValidateCustomer c) (\<lambda>_. CreateCustomerRepo e newid now c db))"

text \<open>Reading a token writes to its access log, also when the token is then refused.\<close>

definition get_token :: "id \<Rightarrow> id \<Rightarrow> id \<Rightarrow> billing_world \<Rightarrow> (billing_error + card_token) \<times> billing_world" where
  "get_token auditID m i w =
     (case GetCardToken auditID m i (bw_vault w) of Inl e \<Rightarrow> (Inl (BillToken e), w) | Inr (t, v) \<Rightarrow> (Inr t, w\<lparr>bw_vault := v\<rparr>))"

definition reusable_for :: "id \<Rightarrow> card_token \<Rightarrow> billing_error + unit" where
  "reusable_for customerID t =
     (if tk_TokenClass t \<noteq> Reusable then Inl ErrCardTokenNotReusable
      else if tk_CustomerRef t \<noteq> '''' \<and> tk_CustomerRef t \<noteq> customerID then Inl ErrCustomerTokenMismatch else Inr ())"

definition validateCustomerDefaultToken :: "id \<Rightarrow> id \<Rightarrow> id \<Rightarrow> id \<Rightarrow> billing_world \<Rightarrow> (billing_error + unit) \<times> billing_world" where
  "validateCustomerDefaultToken auditID m customerID tokenID w =
     (case get_token auditID m tokenID w of (Inl e, w') \<Rightarrow> (Inl e, w') | (Inr t, w') \<Rightarrow> (reusable_for customerID t, w'))"

text \<open>An operation on the tables alone, as a step of the service: its error leaves the tables as they are.\<close>

definition on_bill :: "(billing_db \<Rightarrow> billing_error + 'r \<times> billing_db) \<Rightarrow> billing_world \<Rightarrow> (billing_error + 'r) \<times> billing_world" where
  "on_bill f w = (case f (bw_bill w) of Inl e \<Rightarrow> (Inl e, w) | Inr (r, db) \<Rightarrow> (Inr r, w\<lparr>bw_bill := db\<rparr>))"

definition UpdateCustomer :: "sealing_env \<Rightarrow> id \<Rightarrow> customer \<Rightarrow> billing_world \<Rightarrow> (billing_error + customer) \<times> billing_world" where
  "UpdateCustomer e auditID c w =
     (case ValidateCustomer c of
        Inl err \<Rightarrow> (Inl err, w)
      | Inr _ \<Rightarrow>
          (case (if cu_DefaultPaymentTokenID c \<noteq> '''' then validateCustomerDefaultToken auditID (cu_MerchantID c) (cu_ID c) (cu_DefaultPaymentTokenID c) w
                 else (Inr (), w)) of
             (Inl err, w') \<Rightarrow> (Inl err, w')
           | (Inr _, w') \<Rightarrow> on_bill (UpdateCustomerRepo e c) w'))"

section \<open>UPI mandates\<close>

type_synonym vpa_directory = "id \<Rightarrow> string \<Rightarrow> string \<Rightarrow> string + vpa_answer"
type_synonym mandate_view = "mandate \<times> verification option"

text \<open>\<open>None\<close>: no verifier; \<open>Some None\<close>: one without a provider.\<close>

definition ensureFreshVPAVerification ::
  "vpa_directory option option \<Rightarrow> id \<Rightarrow> time \<Rightarrow> id \<Rightarrow> string \<Rightarrow> billing_world \<Rightarrow> (billing_error + verification option) \<times> billing_world" where
  "ensureFreshVPAVerification verifier newid now m vpa w =
     (case verifier of
        None \<Rightarrow> (case NormalizeVPA vpa of Inl _ \<Rightarrow> (Inl ErrInvalidUPIMandate, w) | Inr _ \<Rightarrow> (Inr None, w))
      | Some directory \<Rightarrow>
          (case EnsureFresh directory newid now m vpa ''mandate'' (days 30) (bw_vpa w) of
             (Inl e, rows) \<Rightarrow> (Inl (if e = ErrInvalidVPA then ErrInvalidUPIMandate else BillVPA e), w\<lparr>bw_vpa := rows\<rparr>)
           | (Inr v, rows) \<Rightarrow> (if vv_Status v \<noteq> VPAVerified then Inl ErrVPAVerificationRequired else Inr (Some v), w\<lparr>bw_vpa := rows\<rparr>)))"

definition attachMandateVerification :: "mandate \<Rightarrow> verification option \<Rightarrow> mandate_view" where
  "attachMandateVerification d v = (d, case v of Some x \<Rightarrow> (if vv_ID x = '''' then None else Some x) | None \<Rightarrow> None)"

definition hydrateMandateVerification :: "bool \<Rightarrow> mandate \<Rightarrow> verification list \<Rightarrow> billing_error + mandate_view" where
  "hydrateMandateVerification configured d rows =
     (if \<not> configured \<or> is_blank (md_VPA d) then Inr (d, None)
      else case GetLatest (md_MerchantID d) (md_VPA d) ''mandate'' rows of
        Inl e \<Rightarrow> if e = ErrVPAVerificationMiss then Inr (d, None) else Inl (BillVPA e)
      | Inr v \<Rightarrow> Inr (attachMandateVerification d (Some v)))"

record mandate_input =
  mn_MerchantID :: id
  mn_CustomerID :: id
  mn_Reference :: string
  mn_DisplayName :: string
  mn_VPA :: string
  mn_AmountLimit :: int
  mn_Currency :: string
  mn_IntervalUnit :: string
  mn_IntervalCount :: int
  mn_RetryWindowHours :: int
  mn_ExpiresAt :: int

definition or_else :: "string \<Rightarrow> string \<Rightarrow> string" where
  "or_else s t = (if s = '''' then t else s)"

definition new_mandate :: "mandate_ids \<Rightarrow> mandate_input \<Rightarrow> mandate" where
  "new_mandate ids inp =
     \<lparr>md_ID = '''', md_MerchantID = mn_MerchantID inp, md_CustomerID = TrimSpace (mn_CustomerID inp),
      md_Reference = or_else (TrimSpace (mn_Reference inp)) (''mandate-'' @ mi_Reference ids),
      md_DisplayName = or_else (TrimSpace (mn_DisplayName inp)) ''PayGate AutoPay'', md_VPA = TrimSpace (ToLower (mn_VPA inp)),
      md_AmountLimit = mn_AmountLimit inp, md_Currency = or_else (ToUpper (TrimSpace (mn_Currency inp))) ''INR'', md_IntervalUnit = mn_IntervalUnit inp,
      md_IntervalCount = mn_IntervalCount inp, md_RetryWindowHours = (if mn_RetryWindowHours inp \<le> 0 then 24 else mn_RetryWindowHours inp),
      md_Status = MandatePending, md_ApprovalToken = mi_Token ids, md_ApprovedAt = None, md_PausedAt = None, md_RevokedAt = None,
      md_ExpiresAt = (if mn_ExpiresAt inp > 0 then Some (seconds (mn_ExpiresAt inp)) else None), md_CreatedAt = 0\<rparr>"

definition CreateUPIMandate ::
  "sealing_env \<Rightarrow> vpa_directory option option \<Rightarrow> mandate_ids \<Rightarrow> time \<Rightarrow> mandate_input \<Rightarrow> string \<Rightarrow> string \<Rightarrow> billing_world
     \<Rightarrow> (billing_error + mandate_view) \<times> billing_world" where
  "CreateUPIMandate e verifier ids now inp actorType actorID w =
     (case GetCustomer e (mn_MerchantID inp) (mn_CustomerID inp) (bw_bill w) of
        Inl err \<Rightarrow> (Inl err, w)
      | Inr _ \<Rightarrow>
          (case ensureFreshVPAVerification verifier (mi_Verification ids) now (mn_MerchantID inp) (TrimSpace (ToLower (mn_VPA inp))) w of
             (Inl err, w1) \<Rightarrow> (Inl err, w1)
           | (Inr v, w1) \<Rightarrow>
               (case bindR (ValidateMandate (new_mandate ids inp)) (\<lambda>_. CreateUPIMandateRepo ids now (new_mandate ids inp) actorType actorID w1) of
                  Inl err \<Rightarrow> (Inl err, w1)
                | Inr (d, w2) \<Rightarrow> (Inr (attachMandateVerification d v), w2))))"

definition GetUPIMandate :: "bool \<Rightarrow> id \<Rightarrow> id \<Rightarrow> billing_world \<Rightarrow> billing_error + mandate_view" where
  "GetUPIMandate configured m i w = bindR (GetUPIMandateRepo m i (bw_bill w)) (\<lambda>d. hydrateMandateVerification configured d (bw_vpa w))"

text \<open>The list drops the error of a hydration, and with it the mandate.\<close>

definition ListUPIMandates :: "bool \<Rightarrow> id \<Rightarrow> int \<Rightarrow> billing_world \<Rightarrow> mandate_view option list" where
  "ListUPIMandates configured m limit w =
     map (\<lambda>d. case hydrateMandateVerification configured d (bw_vpa w) of Inl _ \<Rightarrow> None | Inr v \<Rightarrow> Some v) (ListUPIMandatesRepo m limit (bw_bill w))"

definition change_mandate ::
  "id \<times> id \<Rightarrow> time \<Rightarrow> id \<Rightarrow> id \<Rightarrow> mandate_status \<Rightarrow> string \<Rightarrow> string \<Rightarrow> string \<Rightarrow> billing_world \<Rightarrow> (billing_error + mandate) \<times> billing_world" where
  "change_mandate ids now m i s actorType actorID reason w =
     (case UpdateUPIMandateStatus ids now m i s actorType actorID reason w of Inl e \<Rightarrow> (Inl e, w) | Inr (d, w') \<Rightarrow> (Inr d, w'))"

definition ActivateUPIMandate ::
  "vpa_directory option option \<Rightarrow> id \<Rightarrow> id \<times> id \<Rightarrow> time \<Rightarrow> id \<Rightarrow> id \<Rightarrow> string \<Rightarrow> string \<Rightarrow> string \<Rightarrow> billing_world
     \<Rightarrow> (billing_error + mandate_view) \<times> billing_world" where
  "ActivateUPIMandate verifier vid ids now m i actorType actorID reason w =
     (case GetUPIMandateRepo m i (bw_bill w) of
        Inl e \<Rightarrow> (Inl e, w)
      | Inr d \<Rightarrow>
          (case ensureFreshVPAVerification verifier vid now m (md_VPA d) w of
             (Inl e, w1) \<Rightarrow> (Inl e, w1)
           | (Inr v, w1) \<Rightarrow>
               (case change_mandate ids now m i MandateActive actorType actorID reason w1 of
                  (Inl e, w2) \<Rightarrow> (Inl e, w2) | (Inr d', w2) \<Rightarrow> (Inr (attachMandateVerification d' v), w2))))"

definition PauseUPIMandate :: "id \<times> id \<Rightarrow> time \<Rightarrow> id \<Rightarrow> id \<Rightarrow> string \<Rightarrow> string \<Rightarrow> string \<Rightarrow> billing_world \<Rightarrow> (billing_error + mandate) \<times> billing_world" where
  "PauseUPIMandate ids now m i = change_mandate ids now m i MandatePaused"

definition RevokeUPIMandate :: "id \<times> id \<Rightarrow> time \<Rightarrow> id \<Rightarrow> id \<Rightarrow> string \<Rightarrow> string \<Rightarrow> string \<Rightarrow> billing_world \<Rightarrow> (billing_error + mandate) \<times> billing_world" where
  "RevokeUPIMandate ids now m i = change_mandate ids now m i MandateRevoked"

definition ExpireUPIMandate :: "id \<times> id \<Rightarrow> time \<Rightarrow> id \<Rightarrow> id \<Rightarrow> string \<Rightarrow> string \<Rightarrow> string \<Rightarrow> billing_world \<Rightarrow> (billing_error + mandate) \<times> billing_world" where
  "ExpireUPIMandate ids now m i = change_mandate ids now m i MandateExpired"

section \<open>Accounts and collections\<close>

definition CreateVirtualAccount ::
  "sealing_env \<Rightarrow> id \<Rightarrow> id \<Rightarrow> time \<Rightarrow> id \<Rightarrow> id \<Rightarrow> id \<Rightarrow> string \<Rightarrow> billing_world \<Rightarrow> (billing_error + virtual_account) \<times> billing_world" where
  "CreateVirtualAccount e newid refID now m customerID orderID reference w =
     (let a = \<lparr>ac_ID = '''', ac_MerchantID = m, ac_CustomerID = TrimSpace customerID, ac_OrderID = TrimSpace orderID,
               ac_Reference = or_else (TrimSpace reference) (''va-'' @ refID), ac_Provider = ''simulated'', ac_BankName = '''', ac_AccountNumber = '''',
               ac_IFSC = '''', ac_UPIVPA = '''', ac_Active = True, ac_CreatedAt = 0\<rparr> in
      case bindR (if ac_CustomerID a \<noteq> '''' then bindR (GetCustomer e m (ac_CustomerID a) (bw_bill w)) (\<lambda>_. Inr ()) else Inr ()) (\<lambda>_.
           bindR (if ac_OrderID a \<noteq> '''' then bindR (mapL BillOrder (GetOrder m (ac_OrderID a) (bw_pay w))) (\<lambda>_. Inr ()) else Inr ()) (\<lambda>_.
             ValidateAccount a)) of
        Inl err \<Rightarrow> (Inl err, w)
      | Inr _ \<Rightarrow> on_bill (CreateVirtualAccountRepo newid now a) w)"

record collection_input =
  cx_MerchantID :: id
  cx_VirtualAccountID :: id
  cx_OrderID :: id
  cx_Amount :: int
  cx_Currency :: string
  cx_RemitterName :: string
  cx_RemitterAccount :: string
  cx_RemitterIFSC :: string
  cx_RemitterVPA :: string
  cx_UTR :: string

definition new_collection :: "collection_input \<Rightarrow> virtual_account \<Rightarrow> collection" where
  "new_collection inp a =
     (let orderID = or_else (TrimSpace (cx_OrderID inp)) (ac_OrderID a) in
      \<lparr>ic_ID = '''', ic_MerchantID = cx_MerchantID inp, ic_VirtualAccountID = ac_ID a, ic_CustomerID = ac_CustomerID a, ic_OrderID = orderID,
       ic_Amount = cx_Amount inp, ic_Currency = or_else (ToUpper (TrimSpace (cx_Currency inp))) ''INR'', ic_RemitterName = TrimSpace (cx_RemitterName inp),
       ic_RemitterAccount = TrimSpace (cx_RemitterAccount inp), ic_RemitterIFSC = TrimSpace (ToUpper (cx_RemitterIFSC inp)),
       ic_RemitterVPA = TrimSpace (ToLower (cx_RemitterVPA inp)), ic_UTR = TrimSpace (cx_UTR inp),
       ic_Status = (if orderID \<noteq> '''' then CollectionMatched else CollectionReview), ic_ReviewNotes = '''', ic_MatchedAt = None, ic_CreatedAt = 0\<rparr>)"

definition RecordInboundCollection :: "sealing_env \<Rightarrow> id \<Rightarrow> time \<Rightarrow> collection_input \<Rightarrow> billing_world \<Rightarrow> (billing_error + collection) \<times> billing_world" where
  "RecordInboundCollection e newid now inp w =
     (case bindR (GetVirtualAccount (cx_MerchantID inp) (cx_VirtualAccountID inp) (bw_bill w)) (\<lambda>a.
           let c = new_collection inp a in
           bindR (if ic_OrderID c \<noteq> '''' then bindR (mapL BillOrder (GetOrder (cx_MerchantID inp) (ic_OrderID c) (bw_pay w))) (\<lambda>_. Inr ()) else Inr ()) (\<lambda>_.
           bindR (ValidateCollection c) (\<lambda>_. Inr c))) of
        Inl err \<Rightarrow> (Inl err, w)
      | Inr c \<Rightarrow> on_bill (CreateInboundCollection e newid now c) w)"

definition ReviewInboundCollection ::
  "sealing_env \<Rightarrow> time \<Rightarrow> id \<Rightarrow> id \<Rightarrow> id \<Rightarrow> id \<Rightarrow> string \<Rightarrow> billing_world \<Rightarrow> (billing_error + collection) \<times> billing_world" where
  "ReviewInboundCollection e now m i orderID customerID reviewNotes w =
     (case bindR (if orderID \<noteq> '''' then bindR (mapL BillOrder (GetOrder m orderID (bw_pay w))) (\<lambda>_. Inr ()) else Inr ()) (\<lambda>_.
           if customerID \<noteq> '''' then bindR (GetCustomer e m customerID (bw_bill w)) (\<lambda>_. Inr ()) else Inr ()) of
        Inl err \<Rightarrow> (Inl err, w)
      | Inr _ \<Rightarrow> (case ReviewInboundCollectionRepo e now m i (TrimSpace orderID) (TrimSpace customerID) (TrimSpace reviewNotes) (bw_bill w) of
                    (r, db) \<Rightarrow> (r, w\<lparr>bw_bill := db\<rparr>)))"

definition CreateConnectedAccount ::
  "sealing_env \<Rightarrow> id \<Rightarrow> time \<Rightarrow> connected_account \<Rightarrow> billing_db \<Rightarrow> billing_error + connected_account \<times> billing_db" where
  "CreateConnectedAccount e newid now inp db =
     (let a = inp\<lparr>cn_LinkedMerchantID := TrimSpace (cn_LinkedMerchantID inp), cn_BeneficiaryID := TrimSpace (cn_BeneficiaryID inp),
                  cn_DisplayName := TrimSpace (cn_DisplayName inp), cn_ExternalReference := TrimSpace (cn_ExternalReference inp), cn_Active := True\<rparr> in
      bindR (ValidateConnected a) (\<lambda>_. CreateConnectedAccountRepo e newid now a db))"

section \<open>Subscriptions\<close>

record subscription_input =
  si_MerchantID :: id
  si_CustomerID :: id
  si_PlanName :: string
  si_CollectionMethod :: string
  si_PaymentMethodTokenID :: id
  si_UPIMandateID :: id
  si_Amount :: int
  si_Currency :: string
  si_IntervalUnit :: string
  si_IntervalCount :: int
  si_StartsAt :: int
  si_MaxRetryCount :: int
  si_RetryIntervalHours :: int

definition new_subscription :: "time \<Rightarrow> customer \<Rightarrow> subscription_input \<Rightarrow> bill_subscription" where
  "new_subscription now c inp =
     \<lparr>sb_ID = '''', sb_MerchantID = si_MerchantID inp, sb_CustomerID = cu_ID c, sb_PlanName = TrimSpace (si_PlanName inp),
      sb_CollectionMethod = or_else (si_CollectionMethod inp) ''card'', sb_PaymentMethodTokenID = si_PaymentMethodTokenID inp,
      sb_UPIMandateID = TrimSpace (si_UPIMandateID inp), sb_Amount = si_Amount inp, sb_Currency = or_else (ToUpper (TrimSpace (si_Currency inp))) ''INR'',
      sb_IntervalUnit = si_IntervalUnit inp, sb_IntervalCount = si_IntervalCount inp, sb_Status = SubActive,
      sb_NextBillingAt = (if si_StartsAt inp > 0 then seconds (si_StartsAt inp) else now), sb_RetryCount = 0,
      sb_MaxRetryCount = (if si_MaxRetryCount inp \<le> 0 then 3 else si_MaxRetryCount inp),
      sb_RetryIntervalHours = (if si_RetryIntervalHours inp \<le> 0 then 24 else si_RetryIntervalHours inp),
      sb_CancelAtPeriodEnd = False, sb_PauseReason = '''', sb_CanceledAt = None, sb_CreatedAt = 0\<rparr>"

text \<open>What the payment method of a new subscription must be; a method that is neither is left to the validation.\<close>

definition check_method :: "id \<Rightarrow> customer \<Rightarrow> subscription_input \<Rightarrow> billing_world \<Rightarrow> (billing_error + unit) \<times> billing_world" where
  "check_method auditID c inp w =
     (let kind = or_else (si_CollectionMethod inp) ''card'' in
      if kind = ''card'' then
        (case get_token auditID (si_MerchantID inp) (si_PaymentMethodTokenID inp) w of
           (Inl e, w') \<Rightarrow> (Inl e, w') | (Inr t, w') \<Rightarrow> (reusable_for (cu_ID c) t, w'))
      else if kind = ''upi_mandate'' then
        (bindR (GetUPIMandateRepo (si_MerchantID inp) (si_UPIMandateID inp) (bw_bill w)) (\<lambda>d.
           if md_CustomerID d \<noteq> cu_ID c then Inl ErrMandateCustomerMismatch
           else if md_Status d \<noteq> MandateActive then Inl ErrUPIMandateNotActive
           else if md_AmountLimit d < si_Amount inp \<or> md_Currency d \<noteq> or_else (ToUpper (TrimSpace (si_Currency inp))) ''INR'' then Inl ErrInvalidUPIMandate
           else Inr ()), w)
      else (Inr (), w))"

definition CreateBillingSubscription ::
  "sealing_env \<Rightarrow> id \<Rightarrow> id \<Rightarrow> time \<Rightarrow> subscription_input \<Rightarrow> billing_world \<Rightarrow> (billing_error + bill_subscription) \<times> billing_world" where
  "CreateBillingSubscription e auditID newid now inp w =
     (case GetCustomer e (si_MerchantID inp) (si_CustomerID inp) (bw_bill w) of
        Inl err \<Rightarrow> (Inl err, w)
      | Inr c \<Rightarrow>
          (case check_method auditID c inp w of
             (Inl err, w1) \<Rightarrow> (Inl err, w1)
           | (Inr _, w1) \<Rightarrow>
               let s = new_subscription now c inp in
               on_bill (\<lambda>db. bindR (ValidateSubscription s) (\<lambda>_. InsertBillingSubscription newid now s db)) w1))"

definition PauseSubscription :: "time \<Rightarrow> id \<Rightarrow> id \<Rightarrow> string \<Rightarrow> billing_db \<Rightarrow> billing_error + bill_subscription \<times> billing_db" where
  "PauseSubscription now m i reason = UpdateSubscriptionStatus now m i SubPaused reason False None"

definition ResumeSubscription :: "time \<Rightarrow> id \<Rightarrow> id \<Rightarrow> billing_db \<Rightarrow> billing_error + bill_subscription \<times> billing_db" where
  "ResumeSubscription now m i = UpdateSubscriptionStatus now m i SubActive '''' False (Some now)"

definition CancelSubscription :: "time \<Rightarrow> id \<Rightarrow> id \<Rightarrow> bool \<Rightarrow> billing_db \<Rightarrow> billing_error + bill_subscription \<times> billing_db" where
  "CancelSubscription now m i atPeriodEnd = UpdateSubscriptionStatus now m i (if atPeriodEnd then SubActive else SubCanceled) '''' atPeriodEnd None"

section \<open>The runner\<close>

record billing_env =
  be_gateway :: gateway
  be_upi :: "upi_gateway option"
  be_text :: "billing_error \<Rightarrow> string"

record run_ids =
  rn_Invoice :: id
  rn_Attempt :: id
  rn_Order :: id
  rn_OrderEvent :: id
  rn_Payment :: id
  rn_Tokens :: "id \<times> id"
  rn_Auth :: auth_ids
  rn_Session :: session_ids
  rn_Capture :: "id \<times> id \<times> id"
  rn_ReverseEvent :: id
  rn_MandateEvent :: id

text \<open>The receipt: identifiers are ASCII, so forty runes are forty bytes. Times are after 1970.\<close>

definition subscriptionReceipt :: "id \<Rightarrow> time \<Rightarrow> string" where
  "subscriptionReceipt i now = take 40 (''sub-'' @ i @ ''-'' @ decimal (nat (now div 1000000)))"

text \<open>The delay is an int64 number of nanoseconds.\<close>

definition retry_delay :: "int \<Rightarrow> time" where
  "retry_delay h = i64 (h * 3600000000000) div 1000"

definition subscriptionFailureSchedule :: "time \<Rightarrow> bill_subscription \<Rightarrow> time \<times> int" where
  "subscriptionFailureSchedule now s =
     (if sb_RetryCount s + 1 \<le> sb_MaxRetryCount s then (now + retry_delay (sb_RetryIntervalHours s), sb_RetryCount s + 1)
      else (nextPeriodStart (sb_NextBillingAt s) (sb_IntervalUnit s) (sb_IntervalCount s), 0))"

definition join_errors :: "billing_error \<Rightarrow> billing_error list \<Rightarrow> billing_error" where
  "join_errors primary errs = (if errs = [] then primary else BillJoin primary errs)"

definition markSubscriptionInvoiceFailure ::
  "billing_env \<Rightarrow> time \<Rightarrow> bill_subscription \<Rightarrow> id \<Rightarrow> id \<Rightarrow> id \<Rightarrow> id \<Rightarrow> string \<Rightarrow> billing_error \<Rightarrow> billing_db \<Rightarrow> billing_error \<times> billing_db" where
  "markSubscriptionInvoiceFailure env now s attemptID invoiceID orderID paymentID code primary db =
     (let m = sb_MerchantID s; text = be_text env primary; schedule = subscriptionFailureSchedule now s;
          a = MarkInvoiceAttempt m attemptID InvAttFailed orderID paymentID code text db;
          db1 = (case a of Inl _ \<Rightarrow> db | Inr d \<Rightarrow> d);
          f = MarkInvoiceFailed m invoiceID code text (fst schedule) (snd schedule) db1;
          db2 = (case f of Inl _ \<Rightarrow> db1 | Inr (_, d) \<Rightarrow> d) in
      (join_errors primary ((case a of Inl e \<Rightarrow> [e] | Inr _ \<Rightarrow> []) @ (case f of Inl e \<Rightarrow> [e] | Inr _ \<Rightarrow> [])), db2))"

definition recordInvoiceAttemptNonFatal ::
  "bill_subscription \<Rightarrow> id \<Rightarrow> invoice_attempt_status \<Rightarrow> id \<Rightarrow> id \<Rightarrow> billing_world \<Rightarrow> billing_world" where
  "recordInvoiceAttemptNonFatal s attemptID st orderID paymentID w =
     (case MarkInvoiceAttempt (sb_MerchantID s) attemptID st orderID paymentID '''' '''' (bw_bill w) of Inl _ \<Rightarrow> w | Inr db \<Rightarrow> w\<lparr>bw_bill := db\<rparr>)"

definition recordMandateChargeResultNonFatal :: "id \<Rightarrow> time \<Rightarrow> bill_subscription \<Rightarrow> id \<Rightarrow> mandate_event_type \<Rightarrow> id \<Rightarrow> billing_world \<Rightarrow> billing_world" where
  "recordMandateChargeResultNonFatal evtID now s mandateID kind paymentID w =
     (case RecordUPIMandateChargeResult evtID now (sb_MerchantID s) mandateID kind paymentID '''' (bw_bill w) of Inl _ \<Rightarrow> w | Inr db \<Rightarrow> w\<lparr>bw_bill := db\<rparr>)"

text \<open>The two ways to charge: a failure is the payment, the code and the error that the invoice is marked with.\<close>

type_synonym charge_result = "((id \<times> string \<times> billing_error) + capture_result) \<times> billing_world"

definition mandate_charge :: "run_ids \<Rightarrow> bill_subscription \<Rightarrow> mandate \<Rightarrow> id \<Rightarrow> upi_input" where
  "mandate_charge ids s d orderID =
     \<lparr>ui_PaymentID = rn_Payment ids, ui_MerchantID = sb_MerchantID s, ui_OrderID = orderID, ui_Amount = sb_Amount s, ui_Currency = sb_Currency s,
      ui_IdempotencyKey = ''invoice-payment:'' @ rn_Invoice ids, ui_FlowType = '''', ui_MandateID = md_ID d, ui_QRMode = '''', ui_QRPayload = '''',
      ui_QRImageURL = '''', ui_DisplayName = md_DisplayName d, ui_IsReusable = False, ui_VPA = md_VPA d, ui_ExpiresAt = 0, ui_CallbackToken = ''''\<rparr>"

definition charge_mandate :: "billing_env \<Rightarrow> run_ids \<Rightarrow> time \<Rightarrow> bill_subscription \<Rightarrow> id \<Rightarrow> billing_world \<Rightarrow> charge_result" where
  "charge_mandate env ids now s orderID w =
     (let m = sb_MerchantID s in
      case GetUPIMandateRepo m (sb_UPIMandateID s) (bw_bill w) of
        Inl e \<Rightarrow> (Inl ('''', ''MANDATE_LOOKUP_FAILED'', e), w)
      | Inr d \<Rightarrow>
          if md_Status d \<noteq> MandateActive then (Inl ('''', ''MANDATE_NOT_ACTIVE'', ErrUPIMandateNotActive), w)
          else case CreateUPIMandateCharge (be_upi env) (rn_Session ids) now (mandate_charge ids s d orderID) (bw_pay w, bw_hosted w) of
            (Inl e, db, h) \<Rightarrow>
              let w1 = w\<lparr>bw_pay := db, bw_hosted := h\<rparr> in
              (case RecordUPIMandateChargeResult (rn_MandateEvent ids) now m (md_ID d) EvChargeErr '''' (be_text env (BillHosted e)) (bw_bill w1) of
                 Inl e2 \<Rightarrow> (Inl ('''', ''MANDATE_CHARGE_FAILED'', BillJoin (BillHosted e) [e2]), w1)
               | Inr bill \<Rightarrow> (Inl ('''', ''MANDATE_CHARGE_FAILED'', BillHosted e), w1\<lparr>bw_bill := bill\<rparr>))
          | (Inr r, db, h) \<Rightarrow>
              let w1 = recordInvoiceAttemptNonFatal s (rn_Attempt ids) InvAttCaptured orderID (cr_PaymentID (fst r)) (w\<lparr>bw_pay := db, bw_hosted := h\<rparr>) in
              (Inr (fst r), recordMandateChargeResultNonFatal (rn_MandateEvent ids) now s (md_ID d) EvChargeOK (cr_PaymentID (fst r)) w1))"

definition card_charge :: "run_ids \<Rightarrow> bill_subscription \<Rightarrow> id \<Rightarrow> authorize_input" where
  "card_charge ids s orderID =
     \<lparr>au_PaymentID = rn_Payment ids, au_MerchantID = sb_MerchantID s, au_OrderID = orderID, au_Amount = sb_Amount s, au_Currency = sb_Currency s,
      au_Method = ''card'', au_PaymentMethodTokenID = sb_PaymentMethodTokenID s, au_IdempotencyKey = ''invoice-payment:'' @ rn_Invoice ids,
      au_AutoCapture = False, au_SplitInstructions = []\<rparr>"

definition charge_card :: "billing_env \<Rightarrow> run_ids \<Rightarrow> time \<Rightarrow> bill_subscription \<Rightarrow> id \<Rightarrow> billing_world \<Rightarrow> charge_result" where
  "charge_card env ids now s orderID w =
     (let m = sb_MerchantID s in
      case Authorize (be_gateway env) (Some (vault_tokens (rn_Tokens ids) now)) (rn_Auth ids) now (card_charge ids s orderID) (bw_pay w, bw_vault w) of
        (Inl e, db, v) \<Rightarrow> (Inl ('''', ''AUTH_FAILED'', BillPay e), w\<lparr>bw_pay := db, bw_vault := v\<rparr>)
      | (Inr a, db, v) \<Rightarrow>
          let w1 = recordInvoiceAttemptNonFatal s (rn_Attempt ids) InvAttAuthorized orderID (cr_PaymentID a) (w\<lparr>bw_pay := db, bw_vault := v\<rparr>) in
          (case CaptureForMerchant (rn_Capture ids) now m (cr_PaymentID a) (sb_Amount s) (bw_pay w1) of
             Inl e \<Rightarrow>
               (case ReverseAuthorization (rn_ReverseEvent ids) now m (cr_PaymentID a) ''subscription capture failed'' (bw_pay w1) of
                  Inl e2 \<Rightarrow> (Inl (cr_PaymentID a, ''CAPTURE_FAILED'', BillJoin (BillPay e) [BillPay e2]), w1)
                | Inr (_, db') \<Rightarrow> (Inl (cr_PaymentID a, ''CAPTURE_FAILED'', BillPay e), w1\<lparr>bw_pay := db'\<rparr>))
           | Inr (c, db') \<Rightarrow> (Inr c, recordInvoiceAttemptNonFatal s (rn_Attempt ids) InvAttCaptured orderID (cr_PaymentID c) (w1\<lparr>bw_pay := db'\<rparr>))))"

definition cycle_invoice :: "bill_subscription \<Rightarrow> invoice" where
  "cycle_invoice s =
     \<lparr>iv_ID = '''', iv_MerchantID = sb_MerchantID s, iv_CustomerID = sb_CustomerID s, iv_SubscriptionID = sb_ID s, iv_ExternalReference = '''',
      iv_Description = '''', iv_Amount = sb_Amount s, iv_Currency = sb_Currency s, iv_Status = InvoiceOpen, iv_Overdue = False,
      iv_BillingReason = ''subscription_cycle'', iv_PeriodStart = sb_NextBillingAt s,
      iv_PeriodEnd = nextPeriodStart (sb_NextBillingAt s) (sb_IntervalUnit s) (sb_IntervalCount s), iv_DueAt = sb_NextBillingAt s, iv_OrderID = '''',
      iv_PaymentID = '''', iv_PaymentLinkID = '''', iv_VirtualAccountID = '''', iv_ReminderCount = 0, iv_LastRemindedAt = None, iv_FailureCode = '''',
      iv_FailureMessage = '''', iv_CreatedAt = 0\<rparr>"

definition cycle_attempt :: "bill_subscription \<Rightarrow> id \<Rightarrow> invoice_attempt" where
  "cycle_attempt s invoiceID =
     \<lparr>ia_ID = '''', ia_InvoiceID = invoiceID, ia_MerchantID = sb_MerchantID s, ia_SubscriptionID = sb_ID s, ia_AttemptNumber = sb_RetryCount s + 1,
      ia_Status = InvAttStarted, ia_OrderID = '''', ia_PaymentID = '''', ia_FailureCode = '''', ia_FailureMessage = ''''\<rparr>"

definition cycle_order :: "bill_subscription \<Rightarrow> id \<Rightarrow> time \<Rightarrow> create_input" where
  "cycle_order s invoiceID now =
     \<lparr>ci_MerchantID = sb_MerchantID s, ci_IdempotencyKey = ''invoice:'' @ invoiceID, ci_Amount = sb_Amount s, ci_Currency = sb_Currency s,
      ci_Receipt = subscriptionReceipt (sb_ID s) now,
      ci_Notes = [(''subscription_id'', NoteStr (sb_ID s)), (''invoice_id'', NoteStr invoiceID), (''customer_id'', NoteStr (sb_CustomerID s))],
      ci_PartialPayment = False\<rparr>"

text \<open>Each statement commits by itself: an error of the second insert leaves the invoice behind.\<close>

definition open_cycle :: "run_ids \<Rightarrow> time \<Rightarrow> bill_subscription \<Rightarrow> billing_db \<Rightarrow> (billing_error + unit) \<times> billing_db" where
  "open_cycle ids now s db =
     (if sb_Status s \<noteq> SubActive then (Inl ErrSubscriptionNotActive, db)
      else case CreateInvoice (rn_Invoice ids) now (cycle_invoice s) db of
        Inl e \<Rightarrow> (Inl e, db)
      | Inr (_, db1) \<Rightarrow>
          (case CreateInvoiceAttempt (rn_Attempt ids) (cycle_attempt s (rn_Invoice ids)) db1 of Inl e \<Rightarrow> (Inl e, db1) | Inr (_, db2) \<Rightarrow> (Inr (), db2)))"

definition runSubscription ::
  "billing_env \<Rightarrow> run_ids \<Rightarrow> time \<Rightarrow> bill_subscription \<Rightarrow> billing_world \<Rightarrow> (billing_error + invoice \<times> capture_result) \<times> billing_world" where
  "runSubscription env ids now s w =
     (case open_cycle ids now s (bw_bill w) of
        (Inl e, bill) \<Rightarrow> (Inl e, w\<lparr>bw_bill := bill\<rparr>)
      | (Inr _, bill) \<Rightarrow>
          let failed = (\<lambda>orderID paymentID code err u.
                case markSubscriptionInvoiceFailure env now s (rn_Attempt ids) (rn_Invoice ids) orderID paymentID code err (bw_bill u) of
                  (err', bill') \<Rightarrow> (Inl err', u\<lparr>bw_bill := bill'\<rparr>)) in
          (case CreateOrder (rn_Order ids) (rn_OrderEvent ids) now (cycle_order s (rn_Invoice ids) now) (bw_pay w) of
             Inl e \<Rightarrow> failed '''' '''' ''ORDER_CREATE_FAILED'' (BillOrder e) (w\<lparr>bw_bill := bill\<rparr>)
           | Inr (ord, db) \<Rightarrow>
               let w1 = recordInvoiceAttemptNonFatal s (rn_Attempt ids) InvAttStarted (o_ID ord) '''' (w\<lparr>bw_bill := bill, bw_pay := db\<rparr>) in
               (case (if sb_CollectionMethod s = ''upi_mandate'' then charge_mandate env ids now s (o_ID ord) w1 else charge_card env ids now s (o_ID ord) w1) of
                  (Inl (paymentID, code, err), w2) \<Rightarrow> failed (o_ID ord) paymentID code err w2
                | (Inr c, w2) \<Rightarrow>
                    (case on_bill (MarkInvoicePaid now (sb_MerchantID s) (rn_Invoice ids) (o_ID ord) (cr_PaymentID c)
                             (nextPeriodStart (sb_NextBillingAt s) (sb_IntervalUnit s) (sb_IntervalCount s))) w2 of
                       (Inl e, w3) \<Rightarrow> (Inl e, w3) | (Inr v, w3) \<Rightarrow> (Inr (v, c), w3)))))"

definition RunSubscription ::
  "billing_env \<Rightarrow> run_ids \<Rightarrow> time \<Rightarrow> id \<Rightarrow> id \<Rightarrow> billing_world \<Rightarrow> (billing_error + invoice \<times> capture_result) \<times> billing_world" where
  "RunSubscription env ids now m i w =
     (case GetBillingSubscription m i (bw_bill w) of Inl e \<Rightarrow> (Inl e, w) | Inr s \<Rightarrow> runSubscription env ids now s w)"

text \<open>The loop goes over the rows as they were read; the identifiers and the clock are given for each turn.\<close>

fun run_all ::
  "billing_env \<Rightarrow> (nat \<Rightarrow> run_ids) \<Rightarrow> (nat \<Rightarrow> time) \<Rightarrow> nat \<Rightarrow> bill_subscription list \<Rightarrow> billing_world
     \<Rightarrow> (invoice list \<times> (id \<times> billing_error) list) \<times> billing_world" where
  "run_all env ids clock k [] w = (([], []), w)"
| "run_all env ids clock k (s # ss) w =
     (case runSubscription env (ids k) (clock k) s w of
        (Inl e, w1) \<Rightarrow> (case run_all env ids clock (Suc k) ss w1 of ((vs, es), w2) \<Rightarrow> ((vs, (sb_ID s, e) # es), w2))
      | (Inr (v, _), w1) \<Rightarrow> (case run_all env ids clock (Suc k) ss w1 of ((vs, es), w2) \<Rightarrow> ((v # vs, es), w2)))"

definition RunDueSubscriptions ::
  "billing_env \<Rightarrow> (nat \<Rightarrow> run_ids) \<Rightarrow> (nat \<Rightarrow> time) \<Rightarrow> time \<Rightarrow> int \<Rightarrow> billing_world \<Rightarrow> (invoice list \<times> (id \<times> billing_error) list) \<times> billing_world" where
  "RunDueSubscriptions env ids clock now limit w = run_all env ids clock 0 (LeaseDueSubscriptions now limit (bw_bill w)) w"

section \<open>Payment links\<close>

record link_input =
  li_MerchantID :: id
  li_CustomerID :: id
  li_ExternalReference :: string
  li_Title :: string
  li_Description :: string
  li_Amount :: int
  li_Currency :: string
  li_CallbackURL :: string
  li_ExpiresAt :: int
  li_Notes :: "(string \<times> note_value) list"

record link_ids =
  ln_Link :: id
  ln_Receipt :: id
  ln_Order :: id
  ln_OrderEvent :: id

definition link_order :: "link_ids \<Rightarrow> link_input \<Rightarrow> create_input" where
  "link_order ids inp =
     (let receipt = ''plink-'' @ ln_Receipt ids in
      \<lparr>ci_MerchantID = li_MerchantID inp, ci_IdempotencyKey = ''payment-link:'' @ or_else (TrimSpace (li_ExternalReference inp)) receipt,
       ci_Amount = li_Amount inp, ci_Currency = ToUpper (TrimSpace (li_Currency inp)), ci_Receipt = receipt,
       ci_Notes = (if ''payment_link_title'' \<in> fst ` set (li_Notes inp) then li_Notes inp
                   else (''payment_link_title'', NoteStr (TrimSpace (li_Title inp))) # li_Notes inp),
       ci_PartialPayment = False\<rparr>)"

definition new_link :: "time \<Rightarrow> link_input \<Rightarrow> id \<Rightarrow> payment_link" where
  "new_link now inp orderID =
     \<lparr>pk_ID = '''', pk_MerchantID = li_MerchantID inp, pk_CustomerID = TrimSpace (li_CustomerID inp), pk_OrderID = orderID,
      pk_ExternalReference = TrimSpace (li_ExternalReference inp), pk_Title = TrimSpace (li_Title inp), pk_Description = TrimSpace (li_Description inp),
      pk_Amount = li_Amount inp, pk_Currency = or_else (ToUpper (TrimSpace (li_Currency inp))) ''INR'', pk_Status = LinkActive,
      pk_CallbackURL = TrimSpace (li_CallbackURL inp), pk_ExpiresAt = (if li_ExpiresAt inp > 0 then seconds (li_ExpiresAt inp) else now + days 7),
      pk_LastVisitedAt = None, pk_CreatedAt = 0\<rparr>"

definition CreatePaymentLink :: "sealing_env \<Rightarrow> link_ids \<Rightarrow> time \<Rightarrow> link_input \<Rightarrow> billing_world \<Rightarrow> (billing_error + payment_link) \<times> billing_world" where
  "CreatePaymentLink e ids now inp w =
     (case (if li_CustomerID inp \<noteq> '''' then bindR (GetCustomer e (li_MerchantID inp) (li_CustomerID inp) (bw_bill w)) (\<lambda>_. Inr ()) else Inr ()) of
        Inl err \<Rightarrow> (Inl err, w)
      | Inr _ \<Rightarrow>
          (case CreateOrder (ln_Order ids) (ln_OrderEvent ids) now (link_order ids inp) (bw_pay w) of
             Inl err \<Rightarrow> (Inl (BillOrder err), w)
           | Inr (ord, db) \<Rightarrow>
               let l = new_link now inp (o_ID ord) in
               on_bill (\<lambda>bill. bindR (ValidateLink l) (\<lambda>_. CreatePaymentLinkRepo (ln_Link ids) now l bill)) (w\<lparr>bw_pay := db\<rparr>)))"

definition refreshPaymentLinkStatus :: "time \<Rightarrow> payment_link \<Rightarrow> billing_world \<Rightarrow> (billing_error + payment_link) \<times> billing_world" where
  "refreshPaymentLinkStatus now l w =
     (if pk_Status l = LinkDisabled \<or> pk_Status l = LinkExpired then (Inr l, w)
      else if now > pk_ExpiresAt l \<and> pk_Status l = LinkActive then on_bill (UpdatePaymentLinkStatus (pk_MerchantID l) (pk_ID l) LinkExpired) w
      else if pk_OrderID l = '''' then (Inr l, w)
      else case GetOrder (pk_MerchantID l) (pk_OrderID l) (bw_pay w) of
        Inl e \<Rightarrow> (Inl (BillOrder e), w)
      | Inr ord \<Rightarrow> if o_Status ord = OrderPaid \<and> pk_Status l \<noteq> LinkPaid then on_bill (UpdatePaymentLinkStatus (pk_MerchantID l) (pk_ID l) LinkPaid) w
                   else (Inr l, w))"

definition GetPaymentLink :: "time \<Rightarrow> id \<Rightarrow> id \<Rightarrow> billing_world \<Rightarrow> (billing_error + payment_link) \<times> billing_world" where
  "GetPaymentLink now m i w = (case GetPaymentLinkRepo m i (bw_bill w) of Inl e \<Rightarrow> (Inl e, w) | Inr l \<Rightarrow> refreshPaymentLinkStatus now l w)"

fun refresh_all :: "time \<Rightarrow> payment_link list \<Rightarrow> billing_world \<Rightarrow> (billing_error + payment_link list) \<times> billing_world" where
  "refresh_all now [] w = (Inr [], w)"
| "refresh_all now (l # ls) w =
     (case refreshPaymentLinkStatus now l w of
        (Inl e, w1) \<Rightarrow> (Inl e, w1)
      | (Inr l', w1) \<Rightarrow> (case refresh_all now ls w1 of (Inl e, w2) \<Rightarrow> (Inl e, w2) | (Inr ls', w2) \<Rightarrow> (Inr (l' # ls'), w2)))"

definition ListPaymentLinks :: "time \<Rightarrow> id \<Rightarrow> int \<Rightarrow> billing_world \<Rightarrow> (billing_error + payment_link list) \<times> billing_world" where
  "ListPaymentLinks now m limit w = refresh_all now (ListPaymentLinksRepo m limit (bw_bill w)) w"

definition DisablePaymentLink :: "id \<Rightarrow> id \<Rightarrow> billing_world \<Rightarrow> (billing_error + payment_link) \<times> billing_world" where
  "DisablePaymentLink m i = on_bill (UpdatePaymentLinkStatus m i LinkDisabled)"

definition ExpirePaymentLink :: "id \<Rightarrow> id \<Rightarrow> billing_world \<Rightarrow> (billing_error + payment_link) \<times> billing_world" where
  "ExpirePaymentLink m i = on_bill (UpdatePaymentLinkStatus m i LinkExpired)"

definition ResolvePaymentLink :: "time \<Rightarrow> id \<Rightarrow> id \<Rightarrow> billing_world \<Rightarrow> (billing_error + payment_link \<times> order) \<times> billing_world" where
  "ResolvePaymentLink now m i w =
     (case GetPaymentLink now m i w of
        (Inl e, w1) \<Rightarrow> (Inl e, w1)
      | (Inr l, w1) \<Rightarrow>
          if pk_Status l \<noteq> LinkActive then (Inl ErrInvalidPaymentLink, w1)
          else if now > pk_ExpiresAt l then (Inl ErrInvalidPaymentLink, snd (on_bill (UpdatePaymentLinkStatus m i LinkExpired) w1))
          else
          (case on_bill (MarkPaymentLinkVisited m i now) w1 of
             (visited, w2) \<Rightarrow>
               let l' = (case visited of Inl _ \<Rightarrow> l | Inr u \<Rightarrow> u) in
               (case GetOrder m (pk_OrderID l') (bw_pay w2) of Inl e \<Rightarrow> (Inl (BillOrder e), w2) | Inr ord \<Rightarrow> (Inr (l', ord), w2))))"

section \<open>Invoices\<close>

definition overdue :: "time \<Rightarrow> invoice \<Rightarrow> invoice" where
  "overdue now v = v\<lparr>iv_Overdue := (iv_Status v = InvoiceOpen \<and> now > iv_DueAt v)\<rparr>"

definition hydrateInvoice :: "time \<Rightarrow> invoice \<Rightarrow> billing_world \<Rightarrow> invoice" where
  "hydrateInvoice now v w =
     (if iv_Status v \<in> {InvoicePaid, InvoiceFailed, InvoiceVoid} then overdue now v
      else
      let v1 = (if iv_OrderID v \<noteq> '''' \<and> (case GetOrder (iv_MerchantID v) (iv_OrderID v) (bw_pay w) of Inr ord \<Rightarrow> o_Status ord = OrderPaid | Inl _ \<Rightarrow> False)
                then v\<lparr>iv_Status := InvoicePaid\<rparr> else v);
          v2 = (if iv_PaymentID v1 = '''' \<and> iv_OrderID v1 \<noteq> ''''
                then case find (\<lambda>p. cr_Status p = Some Captured) (ListPayments (iv_MerchantID v1) (iv_OrderID v1) 10 (bw_pay w)) of
                       None \<Rightarrow> v1 | Some p \<Rightarrow> v1\<lparr>iv_PaymentID := cr_PaymentID p, iv_Status := InvoicePaid\<rparr>
                else v1) in
      overdue now v2)"

definition GetInvoice :: "time \<Rightarrow> id \<Rightarrow> id \<Rightarrow> billing_world \<Rightarrow> billing_error + invoice" where
  "GetInvoice now m i w = bindR (GetInvoiceRepo m i (bw_bill w)) (\<lambda>v. Inr (hydrateInvoice now v w))"

definition ListInvoices :: "time \<Rightarrow> id \<Rightarrow> id \<Rightarrow> int \<Rightarrow> billing_world \<Rightarrow> invoice list" where
  "ListInvoices now m subscriptionID limit w = map (\<lambda>v. hydrateInvoice now v w) (ListInvoicesRepo m subscriptionID limit (bw_bill w))"

record invoice_input =
  ii_MerchantID :: id
  ii_CustomerID :: id
  ii_Amount :: int
  ii_Currency :: string
  ii_DueAt :: int
  ii_Description :: string
  ii_ExternalReference :: string
  ii_CollectionSurface :: string

record invoice_ids =
  in_Invoice :: id
  in_Link :: link_ids
  in_Order :: id
  in_OrderEvent :: id
  in_Account :: id
  in_Reference :: id

definition manual_order :: "invoice_input \<Rightarrow> create_input" where
  "manual_order inp =
     \<lparr>ci_MerchantID = ii_MerchantID inp, ci_IdempotencyKey = '''', ci_Amount = ii_Amount inp, ci_Currency = or_else (ii_Currency inp) ''INR'',
      ci_Receipt = ''invoice-'' @ or_else (ii_ExternalReference inp) ''manual'', ci_Notes = [(''manual_invoice'', NoteOther)], ci_PartialPayment = False\<rparr>"

definition due_at :: "time \<Rightarrow> invoice_input \<Rightarrow> time" where
  "due_at now inp = (if ii_DueAt inp > 0 then seconds (ii_DueAt inp) else now + days 7)"

text \<open>The order, the link and the account of an invoice, by the surface it is collected on.\<close>

definition collection_surface ::
  "sealing_env \<Rightarrow> invoice_ids \<Rightarrow> time \<Rightarrow> invoice_input \<Rightarrow> billing_world \<Rightarrow> (billing_error + id \<times> id \<times> id) \<times> billing_world" where
  "collection_surface e ids now inp w =
     (if ii_CollectionSurface inp = ''payment_link'' then
        (case CreatePaymentLink e (in_Link ids) now
           \<lparr>li_MerchantID = ii_MerchantID inp, li_CustomerID = ii_CustomerID inp, li_ExternalReference = ii_ExternalReference inp, li_Title = ii_Description inp,
            li_Description = ii_Description inp, li_Amount = ii_Amount inp, li_Currency = or_else (ii_Currency inp) ''INR'',
            li_CallbackURL = ''/checkout/callback'', li_ExpiresAt = due_at now inp div 1000000, li_Notes = [(''manual_invoice'', NoteOther)]\<rparr> w of
           (Inl err, w1) \<Rightarrow> (Inl err, w1) | (Inr l, w1) \<Rightarrow> (Inr (pk_OrderID l, pk_ID l, ''''), w1))
      else
        (case CreateOrder (in_Order ids) (in_OrderEvent ids) now (manual_order inp) (bw_pay w) of
           Inl err \<Rightarrow> (Inl (BillOrder err), w)
         | Inr (ord, db) \<Rightarrow>
             let w1 = w\<lparr>bw_pay := db\<rparr> in
             if ii_CollectionSurface inp = ''virtual_account'' then
               (case CreateVirtualAccount e (in_Account ids) (in_Reference ids) now (ii_MerchantID inp) (ii_CustomerID inp) (o_ID ord)
                       (''invoice-'' @ ii_ExternalReference inp) w1 of
                  (Inl err, w2) \<Rightarrow> (Inl err, w2) | (Inr a, w2) \<Rightarrow> (Inr (o_ID ord, '''', ac_ID a), w2))
             else (Inr (o_ID ord, '''', ''''), w1)))"

definition CreateManualInvoice :: "sealing_env \<Rightarrow> invoice_ids \<Rightarrow> time \<Rightarrow> invoice_input \<Rightarrow> billing_world \<Rightarrow> (billing_error + invoice) \<times> billing_world" where
  "CreateManualInvoice e ids now inp w =
     (case GetCustomer e (ii_MerchantID inp) (ii_CustomerID inp) (bw_bill w) of
        Inl err \<Rightarrow> (Inl err, w)
      | Inr _ \<Rightarrow>
          (case collection_surface e ids now inp w of
             (Inl err, w1) \<Rightarrow> (Inl err, w1)
           | (Inr (orderID, linkID, accountID), w1) \<Rightarrow>
               let at = due_at now inp;
                   v = \<lparr>iv_ID = '''', iv_MerchantID = ii_MerchantID inp, iv_CustomerID = ii_CustomerID inp, iv_SubscriptionID = '''',
                        iv_ExternalReference = ii_ExternalReference inp, iv_Description = ii_Description inp, iv_Amount = ii_Amount inp,
                        iv_Currency = or_else (ii_Currency inp) ''INR'', iv_Status = InvoiceOpen, iv_Overdue = False, iv_BillingReason = ''manual_invoice'',
                        iv_PeriodStart = at, iv_PeriodEnd = at, iv_DueAt = at, iv_OrderID = orderID, iv_PaymentID = '''', iv_PaymentLinkID = linkID,
                        iv_VirtualAccountID = accountID, iv_ReminderCount = 0, iv_LastRemindedAt = None, iv_FailureCode = '''', iv_FailureMessage = '''',
                        iv_CreatedAt = 0\<rparr> in
               (case on_bill (CreateInvoice (in_Invoice ids) now v) w1 of
                  (Inl err, w2) \<Rightarrow> (Inl err, w2) | (Inr u, w2) \<Rightarrow> (Inr (hydrateInvoice now u w2), w2))))"

definition SendInvoiceReminder :: "time \<Rightarrow> id \<Rightarrow> id \<Rightarrow> billing_world \<Rightarrow> (billing_error + invoice) \<times> billing_world" where
  "SendInvoiceReminder now m i w =
     (case on_bill (MarkInvoiceReminded m i now) w of (Inl e, w1) \<Rightarrow> (Inl e, w1) | (Inr v, w1) \<Rightarrow> (Inr (hydrateInvoice now v w1), w1))"

end
