(* ===== verification/BillingFlow.thy ===== *)
theory BillingFlow
  imports BillingService
begin

text \<open>
  How a run of a subscription unfolds, and everything that happens to a billing world as one step relation: each
  operation keeps the payments, the sessions and the card vault in order, and a paid invoice backed by its payment.
\<close>

section \<open>Reading back\<close>

lemma GetSubscription_Inr: "GetBillingSubscription m i db = Inr s \<longleftrightarrow> find (bsub_at m i) (bl_subscriptions db) = Some s"
  by (simp add: GetBillingSubscription_def split: option.split)

lemma GetInvoiceRepo_Inr: "GetInvoiceRepo m i db = Inr v \<longleftrightarrow> find (invoice_at m i) (bl_invoices db) = Some v"
  by (simp add: GetInvoiceRepo_def split: option.split)

lemma sub_atD: "GetBillingSubscription m i db = Inr s \<Longrightarrow> sb_MerchantID s = m \<and> sb_ID s = i"
  by (auto simp: GetSubscription_Inr bsub_at_def dest: find_SomeD)

lemma set_sub_find:
  assumes "GetBillingSubscription m i db = Inr s" "\<And>r. bsub_at m i (f r) = bsub_at m i r"
  shows "GetBillingSubscription m i (set_bsub m i f db) = Inr (f s)"
  using assms by (simp add: GetSubscription_Inr set_bsub_def find_upd_where)

lemma set_invoice_find:
  assumes "GetInvoiceRepo m i db = Inr v" "\<And>r. invoice_at m i (f r) = invoice_at m i r"
  shows "GetInvoiceRepo m i (set_invoice m i f db) = Inr (f v)"
  using assms by (simp add: GetInvoiceRepo_Inr set_invoice_def find_upd_where)

lemma set_sub_invoices [simp]: "bl_invoices (set_bsub m i f db) = bl_invoices db" "GetInvoiceRepo m' j (set_bsub m i f db) = GetInvoiceRepo m' j db"
  by (simp_all add: set_bsub_def GetInvoiceRepo_def)

lemma set_invoice_subs [simp]:
  "bl_subscriptions (set_invoice m i f db) = bl_subscriptions db" "GetBillingSubscription m' j (set_invoice m i f db) = GetBillingSubscription m' j db"
  by (simp_all add: set_invoice_def GetBillingSubscription_def)

lemma MarkInvoicePaid_Inr:
  assumes "GetInvoiceRepo m j db = Inr v" "iv_SubscriptionID v = i" "i \<noteq> ''''" "GetBillingSubscription m i db = Inr s"
  shows "\<exists>db'. MarkInvoicePaid now m j orderID paymentID nextAt db = Inr (pay_invoice orderID paymentID v, db')
    \<and> GetInvoiceRepo m j db' = Inr (pay_invoice orderID paymentID v) \<and> GetBillingSubscription m i db' = Inr (renew_sub now nextAt s)"
  using assms set_invoice_find [OF assms(1), of "pay_invoice orderID paymentID"]
  by (simp add: MarkInvoicePaid_def Let_def set_sub_find renew_sub_def pay_invoice_def invoice_at_def bsub_at_def)

lemma MarkInvoiceFailed_Inr:
  assumes "GetInvoiceRepo m j db = Inr v" "iv_SubscriptionID v = i" "i \<noteq> ''''" "GetBillingSubscription m i db = Inr s"
  shows "\<exists>db'. MarkInvoiceFailed m j code message nextAt retryCount db = Inr (fail_invoice code message v, db')
    \<and> GetInvoiceRepo m j db' = Inr (fail_invoice code message v) \<and> GetBillingSubscription m i db' = Inr (reschedule_sub nextAt retryCount s)"
  using assms set_invoice_find [OF assms(1), of "fail_invoice code message"]
  by (simp add: MarkInvoiceFailed_def Let_def set_sub_find reschedule_sub_def fail_invoice_def invoice_at_def bsub_at_def)

text \<open>What the bookkeeping of a charge leaves alone.\<close>

definition same_books :: "billing_db \<Rightarrow> billing_db \<Rightarrow> bool" where
  "same_books db db' \<longleftrightarrow> bl_subscriptions db' = bl_subscriptions db \<and> bl_invoices db' = bl_invoices db"

lemma same_books_trans: "same_books a b \<Longrightarrow> same_books b c \<Longrightarrow> same_books a c"
  by (simp add: same_books_def)

lemma same_books_read: "same_books db db' \<Longrightarrow> GetBillingSubscription m i db' = GetBillingSubscription m i db \<and> GetInvoiceRepo m j db' = GetInvoiceRepo m j db"
  by (simp add: same_books_def GetBillingSubscription_def GetInvoiceRepo_def)

lemma MarkInvoiceAttempt_books: "MarkInvoiceAttempt m i st orderID paymentID code message db = Inr db' \<Longrightarrow> same_books db db'"
  by (auto simp: MarkInvoiceAttempt_def same_books_def split: if_split_asm)

lemma RecordUPIMandateChargeResult_books: "RecordUPIMandateChargeResult newid now m i kind paymentID reason db = Inr db' \<Longrightarrow> same_books db db'"
  by (auto simp: RecordUPIMandateChargeResult_def insertUPIMandateEventTx_def same_books_def split: if_split_asm)

lemma note_books: "same_books (bw_bill w) (bw_bill (recordInvoiceAttemptNonFatal s a st orderID paymentID w))"
  "same_books (bw_bill w) (bw_bill (recordMandateChargeResultNonFatal evtID now s d kind paymentID w))"
  by (auto simp: recordInvoiceAttemptNonFatal_def recordMandateChargeResultNonFatal_def same_books_def
      dest: MarkInvoiceAttempt_books RecordUPIMandateChargeResult_books split: sum.split)

lemma note_money [simp]:
  "bw_pay (recordInvoiceAttemptNonFatal s a st orderID paymentID w) = bw_pay w" "bw_hosted (recordInvoiceAttemptNonFatal s a st orderID paymentID w) = bw_hosted w"
  "bw_vault (recordInvoiceAttemptNonFatal s a st orderID paymentID w) = bw_vault w"
  "bw_pay (recordMandateChargeResultNonFatal evtID now s d kind paymentID w) = bw_pay w"
  "bw_hosted (recordMandateChargeResultNonFatal evtID now s d kind paymentID w) = bw_hosted w"
  "bw_vault (recordMandateChargeResultNonFatal evtID now s d kind paymentID w) = bw_vault w"
  by (simp_all add: recordInvoiceAttemptNonFatal_def recordMandateChargeResultNonFatal_def split: sum.split)

lemma charge_mandate_books: "charge_mandate env ids now s orderID w = (r, w') \<Longrightarrow> same_books (bw_bill w) (bw_bill w')"
proof -
  assume "charge_mandate env ids now s orderID w = (r, w')"
  moreover have "same_books (bw_bill w) (bw_bill (recordMandateChargeResultNonFatal e now s d k p (recordInvoiceAttemptNonFatal s a st orderID q (w\<lparr>bw_pay := db, bw_hosted := h\<rparr>))))"
    for e d k p a st q db h
    using same_books_trans [OF note_books(1) note_books(2), of "w\<lparr>bw_pay := db, bw_hosted := h\<rparr>"] by simp
  ultimately show ?thesis
    by (auto simp: charge_mandate_def Let_def same_books_def split: sum.split_asm if_split_asm prod.split_asm dest!: RecordUPIMandateChargeResult_books)
qed

lemma charge_card_books: "charge_card env ids now s orderID w = (r, w') \<Longrightarrow> same_books (bw_bill w) (bw_bill w')"
proof -
  assume c: "charge_card env ids now s orderID w = (r, w')"
  have one: "same_books (bw_bill w) (bw_bill (recordInvoiceAttemptNonFatal s a st orderID q (w\<lparr>bw_pay := db, bw_vault := v\<rparr>)))" for a st q db v
    using note_books(1) [of "w\<lparr>bw_pay := db, bw_vault := v\<rparr>"] by simp
  have two: "same_books (bw_bill w) (bw_bill (recordInvoiceAttemptNonFatal s a st orderID q (u\<lparr>bw_pay := db\<rparr>)))" if "same_books (bw_bill w) (bw_bill u)" for a st q db u
    using same_books_trans [OF that, of "bw_bill (recordInvoiceAttemptNonFatal s a st orderID q (u\<lparr>bw_pay := db\<rparr>))"] note_books(1) [of "u\<lparr>bw_pay := db\<rparr>"] by simp
  show ?thesis using c one two by (auto simp: charge_card_def Let_def same_books_def [of "bw_bill w" "bw_bill w"] split: sum.split_asm prod.split_asm)
qed

section \<open>Money\<close>

text \<open>
  What an operation may do to the payments, the sessions and the vault: a run of their steps; the outbox and the list of
  mandates may grow.
\<close>

definition moves :: "billing_world \<Rightarrow> billing_world \<Rightarrow> bool" where
  "moves w w' \<longleftrightarrow> hosted_step\<^sup>*\<^sup>* (bw_pay w, bw_hosted w) (bw_pay w', bw_hosted w') \<and> vault_step\<^sup>*\<^sup>* (bw_vault w) (bw_vault w')"

lemma moves_refl: "bw_pay w' = bw_pay w \<Longrightarrow> bw_hosted w' = bw_hosted w \<Longrightarrow> bw_vault w' = bw_vault w \<Longrightarrow> moves w w'"
  by (simp add: moves_def)

lemma moves_trans: "moves a b \<Longrightarrow> moves b c \<Longrightarrow> moves a c"
  by (auto simp: moves_def)

lemma pay_moves: "pay_step\<^sup>*\<^sup>* db db' \<Longrightarrow> hosted_step\<^sup>*\<^sup>* (db, h) (db', h)"
  by (induction rule: rtranclp_induct) (auto intro: hosted_step.card rtranclp.rtrancl_into_rtrancl)

lemma CreateOrder_moves: "CreateOrder newid evtID now inp (bw_pay w) = Inr (ord, db) \<Longrightarrow> moves w (w\<lparr>bw_pay := db\<rparr>)"
  by (auto simp: moves_def intro: hosted_step.card pay_step.intros)

lemma charge_mandate_moves: "charge_mandate env ids now s orderID w = (r, w') \<Longrightarrow> moves w w'"
proof -
  assume c: "charge_mandate env ids now s orderID w = (r, w')"
  have "moves w (w\<lparr>bw_pay := db, bw_hosted := h\<rparr>)" if "CreateUPIMandateCharge upi sids now inp (bw_pay w, bw_hosted w) = (x, db, h)" for upi sids inp x db h
    using upi_service_steps(3) [of "(bw_pay w, bw_hosted w)" upi sids now inp] that by (simp add: moves_def)
  then show ?thesis using c
    by (auto simp: charge_mandate_def Let_def moves_def split: sum.split_asm if_split_asm prod.split_asm)
qed

lemma Authorize_moves:
  assumes "Authorize gw (Some (vault_tokens aids now)) ids now inp (bw_pay w, bw_vault w) = (res, db, v)" shows "moves w (w\<lparr>bw_pay := db, bw_vault := v\<rparr>)"
proof -
  have "pay_step\<^sup>*\<^sup>* (bw_pay w) db" using assms by (simp add: service_run.Authorize_rel)
  moreover have "vault_step\<^sup>*\<^sup>* (bw_vault w) v" using assms vaulted.authorizing [of "bw_vault w" gw aids now ids now inp "bw_pay w"] by simp
  ultimately show ?thesis by (simp add: moves_def pay_moves)
qed

lemma capture_moves:
  "CaptureForMerchant ids now m i amount (bw_pay w) = Inr (c, db) \<Longrightarrow> moves w (w\<lparr>bw_pay := db\<rparr>)"
  "ReverseAuthorization evtID now m i reason (bw_pay w) = Inr (c, db) \<Longrightarrow> moves w (w\<lparr>bw_pay := db\<rparr>)"
  by (auto simp: moves_def CaptureForMerchant_def split: if_split_asm intro: hosted_step.card pay_step.intros)

lemma charge_card_moves: assumes "charge_card env ids now s orderID w = (r, w')" shows "moves w w'"
proof -
  obtain x db v where a: "Authorize (be_gateway env) (Some (vault_tokens (rn_Tokens ids) now)) (rn_Auth ids) now (card_charge ids s orderID) (bw_pay w, bw_vault w) = (x, db, v)"
    by (metis prod_cases3)
  note auth = Authorize_moves [OF a]
  show ?thesis
  proof (cases x)
    case (Inl e)
    then show ?thesis using assms a auth by (simp add: charge_card_def)
  next
    case (Inr p)
    define w1 where "w1 = recordInvoiceAttemptNonFatal s (rn_Attempt ids) InvAttAuthorized orderID (cr_PaymentID p) (w\<lparr>bw_pay := db, bw_vault := v\<rparr>)"
    have "moves w w1" using moves_trans [OF auth moves_refl] by (simp add: w1_def)
    moreover have "moves w1 w'"
      using assms a Inr capture_moves(1) [of "rn_Capture ids" _ _ _ _ w1] capture_moves(2) [of _ _ _ _ _ w1]
      by (auto simp: charge_card_def Let_def w1_def moves_def split: sum.split_asm)
    ultimately show ?thesis by (rule moves_trans)
  qed
qed

section \<open>The outcome of a run\<close>

lemma open_cycle_invoices:
  assumes "open_cycle ids now s db = (Inr (), db')"
  shows "rn_Invoice ids \<notin> iv_ID ` set (bl_invoices db)" "bl_subscriptions db' = bl_subscriptions db" "sb_Status s = SubActive"
    "bl_invoices db' = bl_invoices db @ [(cycle_invoice s)\<lparr>iv_ID := rn_Invoice ids, iv_CreatedAt := now\<rparr>]"
proof -
  obtain v db1 a where o: "sb_Status s = SubActive" "CreateInvoice (rn_Invoice ids) now (cycle_invoice s) db = Inr (v, db1)"
    "CreateInvoiceAttempt (rn_Attempt ids) (cycle_attempt s (rn_Invoice ids)) db1 = Inr (a, db')"
    using assms by (auto simp: open_cycle_def split: if_split_asm sum.split_asm)
  have "rn_Invoice ids \<notin> iv_ID ` set (bl_invoices db)" "bl_subscriptions db1 = bl_subscriptions db"
    "bl_invoices db1 = bl_invoices db @ [(cycle_invoice s)\<lparr>iv_ID := rn_Invoice ids, iv_CreatedAt := now\<rparr>]"
    using o(2) by (auto simp: CreateInvoice_def Let_def cycle_invoice_def split: if_split_asm)
  moreover have "same_books db1 db'" using o(3) by (auto simp: CreateInvoiceAttempt_def same_books_def split: if_split_asm)
  ultimately show "rn_Invoice ids \<notin> iv_ID ` set (bl_invoices db)" "bl_subscriptions db' = bl_subscriptions db" "sb_Status s = SubActive"
    "bl_invoices db' = bl_invoices db @ [(cycle_invoice s)\<lparr>iv_ID := rn_Invoice ids, iv_CreatedAt := now\<rparr>]"
    using o(1) by (simp_all add: same_books_def)
qed

lemma open_cycle_opened:
  assumes "open_cycle ids now s db = (Inr (), db')"
  shows "bl_subscriptions db' = bl_subscriptions db
    \<and> GetInvoiceRepo (sb_MerchantID s) (rn_Invoice ids) db' = Inr ((cycle_invoice s)\<lparr>iv_ID := rn_Invoice ids, iv_CreatedAt := now\<rparr>)"
proof -
  note c = open_cycle_invoices [OF assms]
  have "find (invoice_at (sb_MerchantID s) (rn_Invoice ids)) (bl_invoices db) = None" using c(1) by (force simp: find_None_iff invoice_at_def)
  then show ?thesis using c(2,4) by (simp add: GetInvoiceRepo_def find_append invoice_at_def cycle_invoice_def)
qed

lemma open_cycle_refused: "open_cycle ids now s db = (Inl e, db') \<Longrightarrow> bl_subscriptions db' = bl_subscriptions db"
  by (auto simp: open_cycle_def CreateInvoice_def Let_def split: if_split_asm sum.split_asm)

text \<open>How a run ends: before it began, with a failure that is marked, or with a charge.\<close>

definition cycle_charge :: "billing_env \<Rightarrow> run_ids \<Rightarrow> time \<Rightarrow> bill_subscription \<Rightarrow> order \<Rightarrow> billing_world \<Rightarrow> charge_result" where
  "cycle_charge env ids now s ord w =
     (let w1 = recordInvoiceAttemptNonFatal s (rn_Attempt ids) InvAttStarted (o_ID ord) '''' w in
      if sb_CollectionMethod s = ''upi_mandate'' then charge_mandate env ids now s (o_ID ord) w1 else charge_card env ids now s (o_ID ord) w1)"

lemma cycle_charge_keeps:
  assumes "cycle_charge env ids now s ord w = (r, w')" shows "same_books (bw_bill w) (bw_bill w') \<and> moves w w'"
proof -
  let ?w1 = "recordInvoiceAttemptNonFatal s (rn_Attempt ids) InvAttStarted (o_ID ord) '''' w"
  have "same_books (bw_bill ?w1) (bw_bill w') \<and> moves ?w1 w'"
    using assms charge_mandate_books charge_card_books charge_mandate_moves charge_card_moves by (simp add: cycle_charge_def Let_def split: if_split_asm)
  moreover have "moves w ?w1" by (rule moves_refl) simp_all
  ultimately show ?thesis using note_books(1) same_books_trans moves_trans by metis
qed

lemma runSubscription_cases:
  assumes run: "runSubscription env ids now s w = (r, w')"
  obtains (refused) e bill where "open_cycle ids now s (bw_bill w) = (Inl e, bill)" "r = Inl e" "w' = w\<lparr>bw_bill := bill\<rparr>"
  | (failed) bill x orderID paymentID code err err' bill' where "open_cycle ids now s (bw_bill w) = (Inr (), bill)" "same_books bill (bw_bill x)" "moves w x"
      "markSubscriptionInvoiceFailure env now s (rn_Attempt ids) (rn_Invoice ids) orderID paymentID code err (bw_bill x) = (err', bill')"
      "r = Inl err'" "w' = x\<lparr>bw_bill := bill'\<rparr>"
  | (charged) bill ord db c w2 x where "open_cycle ids now s (bw_bill w) = (Inr (), bill)"
      "CreateOrder (rn_Order ids) (rn_OrderEvent ids) now (cycle_order s (rn_Invoice ids) now) (bw_pay w) = Inr (ord, db)"
      "cycle_charge env ids now s ord (w\<lparr>bw_bill := bill, bw_pay := db\<rparr>) = (Inr c, w2)" "same_books bill (bw_bill w2)" "moves w w2"
      "on_bill (MarkInvoicePaid now (sb_MerchantID s) (rn_Invoice ids) (o_ID ord) (cr_PaymentID c)
         (nextPeriodStart (sb_NextBillingAt s) (sb_IntervalUnit s) (sb_IntervalCount s))) w2 = (x, w')" "r = map_sum id (\<lambda>v. (v, c)) x"
proof -
  obtain x0 bill where o: "open_cycle ids now s (bw_bill w) = (x0, bill)" by (cases "open_cycle ids now s (bw_bill w)")
  show thesis
  proof (cases x0)
    case (Inl e)
    then show thesis using run o refused by (simp add: runSubscription_def)
  next
    case (Inr u)
    then have o: "open_cycle ids now s (bw_bill w) = (Inr (), bill)" using o by simp
    show thesis
    proof (cases "CreateOrder (rn_Order ids) (rn_OrderEvent ids) now (cycle_order s (rn_Invoice ids) now) (bw_pay w)")
      case (Inl e)
      then show thesis using run o failed [of bill "w\<lparr>bw_bill := bill\<rparr>"]
        by (auto simp: runSubscription_def Let_def same_books_def moves_refl split: prod.split_asm)
    next
      case (Inr y)
      obtain ord db where y: "y = (ord, db)" by (cases y)
      obtain cr w2 where c: "cycle_charge env ids now s ord (w\<lparr>bw_bill := bill, bw_pay := db\<rparr>) = (cr, w2)" by (metis surj_pair)
      have "moves w (w\<lparr>bw_bill := bill, bw_pay := db\<rparr>)" using CreateOrder_moves [of _ _ _ _ w ord db] Inr y by (simp add: moves_def)
      then have w2: "same_books bill (bw_bill w2)" "moves w w2" using cycle_charge_keeps [OF c] moves_trans by auto
      show thesis
      proof (cases cr)
        case (Inl f)
        then show thesis using run o Inr y c w2 failed [of bill w2]
          by (auto simp: runSubscription_def Let_def cycle_charge_def split: prod.split_asm)
      next
        case (Inr ca)
        obtain x where "on_bill (MarkInvoicePaid now (sb_MerchantID s) (rn_Invoice ids) (o_ID ord) (cr_PaymentID ca)
            (nextPeriodStart (sb_NextBillingAt s) (sb_IntervalUnit s) (sb_IntervalCount s))) w2 = (x, w')" "r = map_sum id (\<lambda>v. (v, ca)) x"
          using run o \<open>CreateOrder _ _ _ _ _ = Inr y\<close> y c Inr by (auto simp: runSubscription_def Let_def cycle_charge_def split: prod.split_asm sum.split_asm)
        then show thesis using charged [OF o] \<open>CreateOrder _ _ _ _ _ = Inr y\<close> y c Inr w2 by simp
      qed
    qed
  qed
qed

text \<open>A failure after the invoice was opened: the invoice is failed and the subscription rescheduled.\<close>

lemma failure_marked:
  assumes "markSubscriptionInvoiceFailure env now s a j orderID paymentID code primary db = (e, db')"
    and "GetInvoiceRepo (sb_MerchantID s) j db = Inr v" "iv_SubscriptionID v = sb_ID s" "sb_ID s \<noteq> ''''" "GetBillingSubscription (sb_MerchantID s) (sb_ID s) db = Inr s'"
  shows "GetInvoiceRepo (sb_MerchantID s) j db' = Inr (fail_invoice code (be_text env primary) v)
    \<and> GetBillingSubscription (sb_MerchantID s) (sb_ID s) db' = Inr (reschedule_sub (fst (subscriptionFailureSchedule now s)) (snd (subscriptionFailureSchedule now s)) s')"
proof -
  define db1 where "db1 = (case MarkInvoiceAttempt (sb_MerchantID s) a InvAttFailed orderID paymentID code (be_text env primary) db of Inl _ \<Rightarrow> db | Inr d \<Rightarrow> d)"
  have "same_books db db1" unfolding db1_def by (auto simp: same_books_def split: sum.split dest: MarkInvoiceAttempt_books)
  then have r: "GetInvoiceRepo (sb_MerchantID s) j db1 = Inr v" "GetBillingSubscription (sb_MerchantID s) (sb_ID s) db1 = Inr s'"
    using same_books_read assms(2,5) by metis+
  obtain db2 where "MarkInvoiceFailed (sb_MerchantID s) j code (be_text env primary) (fst (subscriptionFailureSchedule now s)) (snd (subscriptionFailureSchedule now s)) db1
      = Inr (fail_invoice code (be_text env primary) v, db2)"
    "GetInvoiceRepo (sb_MerchantID s) j db2 = Inr (fail_invoice code (be_text env primary) v)"
    "GetBillingSubscription (sb_MerchantID s) (sb_ID s) db2 = Inr (reschedule_sub (fst (subscriptionFailureSchedule now s)) (snd (subscriptionFailureSchedule now s)) s')"
    using MarkInvoiceFailed_Inr [OF r(1) assms(3,4) r(2)] by blast
  then show ?thesis using assms(1) by (simp add: markSubscriptionInvoiceFailure_def Let_def db1_def [symmetric])
qed

text \<open>The schedule after a failure: retries up to the maximum, then the next period.\<close>

lemma schedule_retry_bound: "0 \<le> sb_RetryCount s \<Longrightarrow> 0 \<le> sb_MaxRetryCount s \<Longrightarrow> 0 \<le> snd (subscriptionFailureSchedule now s) \<and> snd (subscriptionFailureSchedule now s) \<le> sb_MaxRetryCount s"
  by (simp add: subscriptionFailureSchedule_def)

lemma nextPeriodStart_later: "0 < n \<Longrightarrow> t < nextPeriodStart t u n"
  by (simp add: nextPeriodStart_def AddDate_later)

lemma retry_delay_hours: "0 < h \<Longrightarrow> h \<le> 2562047 \<Longrightarrow> retry_delay h = h * 3600000000"
  by (simp add: retry_delay_def i64_id in64_def)

section \<open>A charge that succeeded\<close>

text \<open>The key of the charge is new: no attempt has it.\<close>

definition new_key :: "string \<Rightarrow> payment_db \<Rightarrow> bool" where
  "new_key key db \<longleftrightarrow> (\<forall>a \<in> set (db_attempts db). a_IdempotencyKey a \<noteq> Some key)"

lemma StartAuthorization_new:
  assumes "StartAuthorization attemptID newPayID splitID evtID now inp db = Inr (r, db')" "new_key (ca_IdempotencyKey inp) db" "ca_IdempotencyKey inp \<noteq> ''''"
  shows "cr_PaymentID r \<notin> p_ID ` set (db_payments db)"
proof -
  have "filter (\<lambda>a. a_MerchantID a = m \<and> a_OrderID a = i \<and> a_IdempotencyKey a = Some (ca_IdempotencyKey inp) \<and> a_PaymentID a \<noteq> '''') (db_attempts db) = []" for m i
    using assms(2) by (auto simp: new_key_def filter_empty_conv)
  then have "getPaymentByIdempotencyKey m i (ca_IdempotencyKey inp) db = Inl ErrPaymentNotFound" for m i by (simp add: getPaymentByIdempotencyKey_def)
  then show ?thesis using assms(1)
    by (auto simp: StartAuthorization_def bindR_Inr_iff Let_def insert_payment_def insert_attempt_def new_payment_def current_of_def
        split: if_split_asm option.split_asm)
qed

lemma lock_payment_id: "lock_payment m i db = Inr p \<Longrightarrow> p_ID p = i \<and> p_MerchantID p = m \<and> p \<in> set (db_payments db)"
  by (auto simp: lock_payment_def pay_at_def split: option.split_asm dest: find_SomeD)

lemma commit_get_id: "commit_get m i db = Inr (r, db') \<Longrightarrow> cr_PaymentID r = i \<and> db' = db"
  by (auto simp: commit_get_def GetPayment_def bindR_Inr_iff result_of_def current_of_def dest: lock_payment_id)

lemma outcome_id:
  "MarkAuthorizationAuthorized evtID now m i gref auth cap db = Inr (r, db') \<Longrightarrow> cr_PaymentID r = i"
  "MarkAuthorizationRequiresAction evtID now m i cin db = Inr (r, db') \<Longrightarrow> cr_PaymentID r = i"
  by (auto simp: MarkAuthorizationAuthorized_def MarkAuthorizationRequiresAction_def bindR_Inr_iff Let_def current_of_def
      dest!: lock_payment_id commit_get_id split: if_split_asm)

lemma settle_id: "settle_authorization tokens ids now inp pending tok outcome (db, v) = (Inr a, db', v') \<Longrightarrow> cr_PaymentID a = cr_PaymentID pending"
  by (cases outcome) (auto simp: settle_authorization_def Let_def with_route_def split: sum.split_asm if_split_asm prod.split_asm dest!: outcome_id)

lemma Authorize_new:
  assumes "Authorize gw tokens ids now inp (db, v) = (Inr a, db', v')" "new_key (au_IdempotencyKey inp) db" "au_IdempotencyKey inp \<noteq> ''''"
  shows "cr_PaymentID a \<notin> p_ID ` set (db_payments db)"
  using assms StartAuthorization_new
  by (fastforce simp: Authorize_def Let_def split: if_split_asm sum.split_asm prod.split_asm dest!: settle_id)

text \<open>An authorization does not touch the ledger.\<close>

interpretation unposted: authorization_closed "\<lambda>db db'. db_ledger db' = db_ledger db" True
  by unfold_locales (auto simp: UpdateGatewayRouting_def AttachCardPaymentDetails_def MarkAuthorizationRequiresAction_def MarkAuthorizationAuthorized_def
      MarkAuthorizationFailed_def bindR_Inr_iff Let_def emit_def set_payment_def set_attempt_def set_challenge_def upsert_challenge_def
      split: if_split_asm option.split_asm elim!: StartAuthorization_Inr dest!: commit_get_id)

definition backed :: "id \<Rightarrow> id \<Rightarrow> int \<Rightarrow> payment_db \<Rightarrow> bool" where
  "backed m i amount db \<longleftrightarrow> (\<exists>p \<in> set (db_payments db). p_ID p = i \<and> p_MerchantID p = m \<and> p_Amount p = amount \<and> p_Status p = Captured)"

lemma capture_backed:
  assumes "CaptureForMerchant ids now m i amount db = Inr (c, db')" "\<And>p. p \<in> set (db_payments db) \<Longrightarrow> p_ID p = i \<Longrightarrow> p_Status p \<noteq> Captured"
  shows "backed m (cr_PaymentID c) amount db'"
proof -
  obtain p where p: "lock_payment m i db = Inr p" "p_Status p = Authorized" "amount = p_Amount p"
    using assms by (cases ids) (auto simp: CaptureForMerchant_def CaptureAuthorizedPayment_def bindR_Inr_iff split: if_split_asm dest: lock_payment_id)
  have "cr_PaymentID c = i" "db_payments db' = upd_where (\<lambda>q. p_ID q = i) (capture_payment now (capture_fee amount)) (db_payments db)"
    using assms(1) p by (cases ids; auto simp: CaptureForMerchant_def CaptureAuthorizedPayment_def bindR_Inr_iff emit_def set_order_def set_payment_def
        split: if_split_asm dest!: commit_get_id)+
  moreover have "capture_payment now (capture_fee amount) p \<in> set (upd_where (\<lambda>q. p_ID q = i) (capture_payment now (capture_fee amount)) (db_payments db))"
    using lock_payment_id [OF p(1)] by (force simp: set_upd_where)
  ultimately show ?thesis using lock_payment_id [OF p(1)] p(3) unfolding backed_def by (intro bexI) (auto simp: capture_payment_def)
qed

text \<open>Captured payments are posted, so a payment that is new and not posted is not captured.\<close>

lemma captured_posted: "claims_inv (abs_claims db) \<Longrightarrow> p \<in> set (db_payments db) \<Longrightarrow> p_Status p = Captured \<Longrightarrow> p_ID p \<in> fst ` set (posted_captures (db_ledger db))"
  by (force simp: claims_inv_def abs_claims_def posted_ok_def claim_of_def)

lemma posted_payment: "claims_inv (abs_claims db) \<Longrightarrow> fst ` set (posted_captures (db_ledger db)) \<subseteq> p_ID ` set (db_payments db)"
  by (force simp: claims_inv_def abs_claims_def claim_of_def)

lemma charge_card_backed:
  assumes c: "charge_card env ids now s orderID w = (Inr c, w')" and inv: "hosted_inv (bw_pay w, bw_hosted w)" and key: "new_key (''invoice-payment:'' @ rn_Invoice ids) (bw_pay w)"
  shows "backed (sb_MerchantID s) (cr_PaymentID c) (sb_Amount s) (bw_pay w')"
proof -
  obtain a db v db' where a: "Authorize (be_gateway env) (Some (vault_tokens (rn_Tokens ids) now)) (rn_Auth ids) now (card_charge ids s orderID) (bw_pay w, bw_vault w) = (Inr a, db, v)"
    and cap: "CaptureForMerchant (rn_Capture ids) now (sb_MerchantID s) (cr_PaymentID a) (sb_Amount s) db = Inr (c, db')" "bw_pay w' = db'"
    using c by (auto simp: charge_card_def Let_def split: prod.split_asm sum.split_asm)
  have new: "cr_PaymentID a \<notin> p_ID ` set (db_payments (bw_pay w))" using Authorize_new [OF a] key by (simp add: card_charge_def)
  have ledger: "db_ledger db = db_ledger (bw_pay w)" using unposted.Authorize_rel [OF a] by simp
  have "claims_inv (abs_claims db)" using hosted.inv_steps [OF _ inv] Authorize_moves [OF a] by (auto simp: moves_def hosted_inv_def)
  moreover have "fst ` set (posted_captures (db_ledger (bw_pay w))) \<subseteq> p_ID ` set (db_payments (bw_pay w))"
    using inv by (intro posted_payment) (simp add: hosted_inv_def)
  ultimately have "p_Status p \<noteq> Captured" if "p \<in> set (db_payments db)" "p_ID p = cr_PaymentID a" for p
    using captured_posted [of db p] that new unfolding ledger by (metis subsetD)
  then show ?thesis using capture_backed [OF cap(1)] cap(2) by simp
qed

text \<open>The payment of a new session is the last row.\<close>

lemma CreateUPIIntent_new:
  assumes "CreateUPIIntent attemptID evtID now inp (db, h) = Inr (r, s')" "new_key (ui_IdempotencyKey inp) db"
  obtains q where "db_payments (fst s') = db_payments db @ [q]" "p_ID q = ui_PaymentID inp" "p_ID q \<notin> p_ID ` set (db_payments db)"
    "p_MerchantID q = ui_MerchantID inp" "p_Amount q = ui_Amount inp" "p_Status q = PendingCustomerAction"
    "cr_PaymentID (fst r) = ui_PaymentID inp" "cr_MerchantID (fst r) = ui_MerchantID inp"
proof -
  have "keyed_payment m i (ui_IdempotencyKey inp) db = None" for m i
    using assms(2) by (auto simp: keyed_payment_def new_key_def filter_empty_conv split: list.split)
  then obtain db1 where o: "open_session attemptID now ''upi_pending_customer_action'' (upi_payment_input inp) db = Inr (Some db1)"
      "fst s' = session_started evtID now (upi_payment_input inp) db1"
    and r: "cr_PaymentID (fst r) = ui_PaymentID inp" "cr_MerchantID (fst r) = ui_MerchantID inp"
    using assms(1) by (auto simp: CreateUPIIntent_def Let_def bindR_Inr_iff getUPIIntentByIdempotencyKey_def current_of_def new_payment_def upi_payment_input_def
        split: option.split_asm)
  let ?q = "(new_payment (ui_PaymentID inp) attemptID now (upi_payment_input inp))\<lparr>p_Status := PendingCustomerAction, p_MethodState := ''upi_pending_customer_action''\<rparr>"
  have "db_payments (fst s') = db_payments db @ [?q]" "ui_PaymentID inp \<notin> p_ID ` set (db_payments db)"
    using o by (auto simp: open_session_def bindR_Inr_iff Let_def insert_attempt_def insert_payment_def session_started_def emit_def set_order_def
        upi_payment_input_def new_payment_def split: option.split_asm if_split_asm)
  then show thesis using that [of ?q] r by (simp add: new_payment_def upi_payment_input_def)
qed

lemma GetUPIIntent_id: "GetUPIIntent m i s = Inr r \<Longrightarrow> cr_PaymentID (fst r) = i"
  by (cases s) (auto simp: GetUPIIntent_def upi_view_def current_of_def pay_at_def split: option.split_asm dest!: find_SomeD)

lemma attach_payments:
  assumes "AttachUPIIntentGatewayData m i g (db, h) = Inr (r, s')" "db_payments db = ps @ [q]" "i \<notin> p_ID ` set ps"
  obtains q' where "db_payments (fst s') = ps @ [q']" "p_ID q' = p_ID q" "p_MerchantID q' = p_MerchantID q" "p_Amount q' = p_Amount q" "p_Status q' = p_Status q"
    "cr_PaymentID (fst r) = i"
proof -
  let ?f = "\<lambda>p. p\<lparr>p_GatewayReference := ug_GatewayReference g, p_MethodState := ''upi_pending_customer_action''\<rparr>"
  have "upd_where (pay_at m i) ?f ps = ps" using assms(3) by (intro upd_where_none) (auto simp: pay_at_def)
  then have s': "db_payments (fst s') = ps @ [if pay_at m i q then ?f q else q]" using assms(1,2) by (auto simp: AttachUPIIntentGatewayData_def Let_def bindR_Inr_iff upd_where_def)
  have "cr_PaymentID (fst r) = i" using assms(1) by (auto simp: AttachUPIIntentGatewayData_def Let_def bindR_Inr_iff dest: GetUPIIntent_id)
  then show thesis using that [of "if pay_at m i q then ?f q else q"] s' by simp
qed

lemma CompleteUPIIntent_backed:
  assumes "CompleteUPIIntent ids now i '''' gref (db, h) = Inr ((out, flag), (db', h'))" "db_payments db = ps @ [q]" "i \<notin> p_ID ` set ps" "p_ID q = i"
    "p_Status q = PendingCustomerAction"
  shows "backed (p_MerchantID q) (cr_PaymentID (fst out)) (p_Amount q) db'"
proof -
  have "find (\<lambda>p. p_ID p = i) ps = None" using assms(3) by (auto simp: find_None_iff)
  then have q: "payment_by_id i db = Some q" using assms(2,4) by (simp add: payment_by_id_def find_append)
  obtain db1 where c: "collect_session ids now (''upi intent capture receivable'', ''merchant payable on upi capture'', ''upi payment capture'') ''upi_collected'' gref q db = Inr db1"
      "db' = db1" "cr_PaymentID (fst out) = i"
    using assms(1) q assms(5)
    by (auto simp: CompleteUPIIntent_def with_upi_def lockUPIIntentTx_def bindR_Inr_iff insert_event_def session_over_def Let_def split: option.split_asm
        dest!: GetUPIIntent_id)
  obtain f where f: "db_payments db1 = upd_where (\<lambda>r. p_ID r = p_ID q) f (db_payments db)" "\<And>r. p_ID (f r) = p_ID r" "\<And>r. p_MerchantID (f r) = p_MerchantID r"
      "\<And>r. p_Amount (f r) = p_Amount r" "\<And>r. p_Status (f r) = Captured"
    using c(1) by (auto simp: collect_session_def bindR_Inr_iff Let_def emit_def set_order_def set_payment_def split: prod.split_asm)
  have "f q \<in> set (db_payments db1)" unfolding f(1) assms(2) by (force simp: set_upd_where)
  then show ?thesis unfolding backed_def c(2,3) using f(2-5) assms(4) by metis
qed

lemma mandate_charge_backed:
  assumes "CreateUPIMandateCharge upi sids now inp (db, h) = (Inr r, db', h')" "new_key (ui_IdempotencyKey inp) db"
  shows "backed (ui_MerchantID inp) (cr_PaymentID (fst r)) (ui_Amount inp) db'"
proof -
  let ?inp = "with_session sids now (minutes 5) ''mandate'' inp"
  have i: "ui_IdempotencyKey ?inp = ui_IdempotencyKey inp" "ui_MerchantID ?inp = ui_MerchantID inp" "ui_Amount ?inp = ui_Amount inp" by (simp_all add: with_session_def)
  obtain intent s1 g r1 s2 flag where c: "CreateUPIIntent (hi_Attempt sids) (hi_Event sids) now ?inp (db, h) = Inr (intent, s1)"
    "AttachUPIIntentGatewayData (cr_MerchantID (fst intent)) (cr_PaymentID (fst intent)) g s1 = Inr (r1, s2)"
    "CompleteUPIIntent (hi_Capture sids) now (cr_PaymentID (fst r1)) '''' (ug_GatewayReference g) s2 = Inr ((r, flag), (db', h'))"
    using assms(1) by (auto simp: CreateUPIMandateCharge_def create_upi_def call_upi_gateway_def split: option.split_asm if_split_asm sum.split_asm prod.split_asm)
  obtain q where q: "db_payments (fst s1) = db_payments db @ [q]" "p_ID q = ui_PaymentID ?inp" "p_ID q \<notin> p_ID ` set (db_payments db)"
    "p_MerchantID q = ui_MerchantID ?inp" "p_Amount q = ui_Amount ?inp" "p_Status q = PendingCustomerAction" "cr_PaymentID (fst intent) = ui_PaymentID ?inp"
    using CreateUPIIntent_new [OF c(1)] assms(2) i(1) by metis
  obtain db1 h1 db2 h2 where s: "s1 = (db1, h1)" "s2 = (db2, h2)" by (cases s1; cases s2)
  have "cr_PaymentID (fst intent) \<notin> p_ID ` set (db_payments db)" using q(2,3,7) by simp
  then obtain q' where q': "db_payments db2 = db_payments db @ [q']" "p_ID q' = p_ID q" "p_MerchantID q' = p_MerchantID q" "p_Amount q' = p_Amount q"
    "p_Status q' = p_Status q" "cr_PaymentID (fst r1) = cr_PaymentID (fst intent)"
    using attach_payments [OF c(2) [unfolded s] q(1) [unfolded s fst_conv]] s(2) by (metis fst_conv)
  show ?thesis using CompleteUPIIntent_backed [OF c(3) [unfolded s] q'(1)] q q' i by simp
qed

lemma charge_mandate_backed:
  assumes "charge_mandate env ids now s orderID w = (Inr c, w')" "new_key (''invoice-payment:'' @ rn_Invoice ids) (bw_pay w)"
  shows "backed (sb_MerchantID s) (cr_PaymentID c) (sb_Amount s) (bw_pay w')"
proof -
  obtain d r db h where "CreateUPIMandateCharge (be_upi env) (rn_Session ids) now (mandate_charge ids s d orderID) (bw_pay w, bw_hosted w) = (Inr r, db, h)"
    "c = fst r" "bw_pay w' = db"
    using assms(1) by (auto simp: charge_mandate_def Let_def split: sum.split_asm if_split_asm prod.split_asm)
  then show ?thesis using mandate_charge_backed [of "be_upi env" "rn_Session ids" now "mandate_charge ids s d orderID" "bw_pay w" "bw_hosted w" r db h] assms(2)
    by (simp add: mandate_charge_def)
qed

section \<open>Interleavings\<close>

text \<open>
  Everything that happens to a world: the payments, sessions and the vault move by themselves, the runner works on a row that
  it read some time ago, and the operations of the service come in any order. The identifiers of a run are new.
\<close>

inductive bill_step :: "billing_world \<Rightarrow> billing_world \<Rightarrow> bool" where
  money: "hosted_step (bw_pay w, bw_hosted w) (db, h) \<Longrightarrow> bill_step w (w\<lparr>bw_pay := db, bw_hosted := h\<rparr>)"
| vault: "vault_step (bw_vault w) v \<Longrightarrow> bill_step w (w\<lparr>bw_vault := v\<rparr>)"
| run: "new_key (''invoice-payment:'' @ rn_Invoice ids) (bw_pay w) \<Longrightarrow> runSubscription env ids now s w = (r, w') \<Longrightarrow> bill_step w w'"
| subscribe: "CreateBillingSubscription e auditID newid now sinp w = (rs, w') \<Longrightarrow> bill_step w w'"
| status: "UpdateSubscriptionStatus now m i st reason atEnd nextAt (bw_bill w) = Inr (s, bill) \<Longrightarrow> bill_step w (w\<lparr>bw_bill := bill\<rparr>)"
| customer: "CreateCustomer e newid now c (bw_bill w) = Inr (c', bill) \<Longrightarrow> bill_step w (w\<lparr>bw_bill := bill\<rparr>)"
| update_customer: "UpdateCustomer e auditID c w = (rc, w') \<Longrightarrow> bill_step w w'"
| mandate: "CreateUPIMandate e verifier mids now minp actorType actorID w = (rm, w') \<Longrightarrow> bill_step w w'"
| activate: "ActivateUPIMandate verifier vid eids now m i actorType actorID reason w = (rm, w') \<Longrightarrow> bill_step w w'"
| change: "change_mandate eids now m i ms actorType actorID reason w = (rd, w') \<Longrightarrow> bill_step w w'"
| account: "CreateVirtualAccount e newid refID now m customerID orderID reference w = (ra, w') \<Longrightarrow> bill_step w w'"
| collect: "RecordInboundCollection e newid now cinp w = (rl, w') \<Longrightarrow> bill_step w w'"
| review: "ReviewInboundCollection e now m i orderID customerID reviewNotes w = (rl, w') \<Longrightarrow> bill_step w w'"
| connect: "CreateConnectedAccount e newid now a (bw_bill w) = Inr (a', bill) \<Longrightarrow> bill_step w (w\<lparr>bw_bill := bill\<rparr>)"
| link: "CreatePaymentLink e lids now linp w = (rk, w') \<Longrightarrow> bill_step w w'"
| resolve: "ResolvePaymentLink now m i w = (ro, w') \<Longrightarrow> bill_step w w'"
| get_link: "GetPaymentLink now m i w = (rk, w') \<Longrightarrow> bill_step w w'"
| set_link: "on_bill (UpdatePaymentLinkStatus m i ls) w = (rk, w') \<Longrightarrow> bill_step w w'"
| invoice: "CreateManualInvoice e iids now iinp w = (ri, w') \<Longrightarrow> bill_step w w'"
| remind: "SendInvoiceReminder now m i w = (ri, w') \<Longrightarrow> bill_step w w'"

text \<open>The stored status of an invoice that was paid by the runner names a captured payment of its amount.\<close>

definition invoices_backed :: "billing_world \<Rightarrow> bool" where
  "invoices_backed w \<longleftrightarrow> (\<forall>v \<in> set (bl_invoices (bw_bill w)). iv_Status v = InvoicePaid \<longrightarrow> backed (iv_MerchantID v) (iv_PaymentID v) (iv_Amount v) (bw_pay w))"

definition bill_inv :: "billing_world \<Rightarrow> bool" where
  "bill_inv w \<longleftrightarrow> hosted_inv (bw_pay w, bw_hosted w) \<and> vault_inv (bw_vault w) \<and> invoices_backed w"

text \<open>What an operation owes: it keeps the invariants of the money, and captured payments stay.\<close>

definition keeps_money :: "billing_world \<Rightarrow> billing_world \<Rightarrow> bool" where
  "keeps_money w w' \<longleftrightarrow> (hosted_inv (bw_pay w, bw_hosted w) \<and> vault_inv (bw_vault w) \<longrightarrow>
     hosted_inv (bw_pay w', bw_hosted w') \<and> vault_inv (bw_vault w') \<and> (\<forall>m i amount. backed m i amount (bw_pay w) \<longrightarrow> backed m i amount (bw_pay w')))"

lemma keeps_money_refl: "bw_pay w' = bw_pay w \<Longrightarrow> bw_hosted w' = bw_hosted w \<Longrightarrow> bw_vault w' = bw_vault w \<Longrightarrow> keeps_money w w'"
  by (simp add: keeps_money_def)

lemma keeps_money_trans: "keeps_money a b \<Longrightarrow> keeps_money b c \<Longrightarrow> keeps_money a c"
  by (simp add: keeps_money_def)

lemma captured_final: "run_machine Transition Captured evs = Inr st \<Longrightarrow> st = Captured"
  by (cases evs) (auto simp: Transition_def bindR_def split: payment_event.split_asm)

lemma backed_steps:
  assumes "hosted_step\<^sup>*\<^sup>* (db, h) (db', h')" "hosted_inv (db, h)" "backed m i amount db" shows "backed m i amount db'"
proof -
  obtain p where p: "p \<in> set (db_payments db)" "p_ID p = i" "p_MerchantID p = m" "p_Amount p = amount" "p_Status p = Captured"
    using assms(3) by (auto simp: backed_def)
  obtain c' where c': "c' \<in> set (fst (abs_claims db'))" "follows (claim_of p) c'"
    using run_follows [OF assms(1,2), of "claim_of p"] p(1) by (auto simp: abs_claims_def)
  then obtain p' where "p' \<in> set (db_payments db')" "c' = claim_of p'" by (auto simp: abs_claims_def)
  then show ?thesis using c'(2) p captured_final unfolding backed_def by (intro bexI [of _ p']) (auto simp: follows_def claim_of_def)
qed

lemma moves_keeps: "moves w w' \<Longrightarrow> keeps_money w w'"
  unfolding moves_def keeps_money_def using hosted.inv_steps vaulting.inv_steps backed_steps by blast

lemma emit_keeps:
  assumes "\<exists>evtID now ev. bw_pay w' = emit evtID now ev (bw_pay w)" "hd_upi (bw_hosted w') = hd_upi (bw_hosted w)" "hd_redirects (bw_hosted w') = hd_redirects (bw_hosted w)"
    "bw_vault w' = bw_vault w"
  shows "keeps_money w w'"
proof -
  obtain evtID now ev where e: "bw_pay w' = emit evtID now ev (bw_pay w)" using assms(1) by blast
  have "session_step (bw_pay w, bw_hosted w) (bw_pay w', bw_hosted w')"
    by (rule session_same) (simp_all add: e assms(2-4) abs_claims_def emit_def hosted_ids_def)
  then show ?thesis using hosted_inv_step unfolding keeps_money_def by (auto simp: e assms(2-4) backed_def emit_def)
qed

text \<open>No invoice becomes paid.\<close>

definition pays_none :: "billing_db \<Rightarrow> billing_db \<Rightarrow> bool" where
  "pays_none db db' \<longleftrightarrow> (\<forall>v' \<in> set (bl_invoices db'). iv_Status v' = InvoicePaid \<longrightarrow>
     (\<exists>v \<in> set (bl_invoices db). iv_Status v = InvoicePaid \<and> iv_MerchantID v = iv_MerchantID v' \<and> iv_PaymentID v = iv_PaymentID v' \<and> iv_Amount v = iv_Amount v'))"

lemma quiet_same: "bl_invoices db' = bl_invoices db \<Longrightarrow> pays_none db db'"
  by (auto simp: pays_none_def)

lemma quiet_upd:
  assumes "bl_invoices db' = upd_where q f (bl_invoices db)"
    "\<And>v. iv_Status (f v) = InvoicePaid \<Longrightarrow> iv_Status v = InvoicePaid \<and> iv_MerchantID (f v) = iv_MerchantID v \<and> iv_PaymentID (f v) = iv_PaymentID v \<and> iv_Amount (f v) = iv_Amount v"
  shows "pays_none db db'"
  unfolding pays_none_def assms(1) set_upd_where
proof (intro ballI impI)
  fix v' assume "v' \<in> (\<lambda>v. if q v then f v else v) ` set (bl_invoices db)" "iv_Status v' = InvoicePaid"
  then obtain v where "v \<in> set (bl_invoices db)" "v' = (if q v then f v else v)" "iv_Status v' = InvoicePaid" by blast
  then show "\<exists>v \<in> set (bl_invoices db). iv_Status v = InvoicePaid \<and> iv_MerchantID v = iv_MerchantID v' \<and> iv_PaymentID v = iv_PaymentID v' \<and> iv_Amount v = iv_Amount v'"
    using assms(2) [of v] by (intro bexI [of _ v]) (auto split: if_split_asm)
qed

lemma quiet_trans: "pays_none a b \<Longrightarrow> pays_none b c \<Longrightarrow> pays_none a c"
  unfolding pays_none_def by metis

definition tidy :: "billing_world \<Rightarrow> billing_world \<Rightarrow> bool" where
  "tidy w w' \<longleftrightarrow> keeps_money w w' \<and> pays_none (bw_bill w) (bw_bill w')"

lemma tidy_bill: "pays_none (bw_bill w) bill \<Longrightarrow> tidy w (w\<lparr>bw_bill := bill\<rparr>)"
  by (simp add: tidy_def keeps_money_refl)

lemma tidy_refl: "tidy w w"
  by (simp add: tidy_def keeps_money_refl quiet_same)

lemma tidy_trans: "tidy a b \<Longrightarrow> tidy b c \<Longrightarrow> tidy a c"
  unfolding tidy_def using keeps_money_trans quiet_trans by blast

lemma tidy_moves: "moves w w' \<Longrightarrow> bl_invoices (bw_bill w') = bl_invoices (bw_bill w) \<Longrightarrow> tidy w w'"
  by (simp add: tidy_def moves_keeps quiet_same)

lemma tidy_inv: "tidy w w' \<Longrightarrow> bill_inv w \<Longrightarrow> bill_inv w'"
  unfolding tidy_def bill_inv_def keeps_money_def invoices_backed_def pays_none_def by metis

lemma on_bill_tidy:
  assumes "on_bill f w = (x, w')" "\<And>r db'. f (bw_bill w) = Inr (r, db') \<Longrightarrow> pays_none (bw_bill w) db'" shows "tidy w w'"
  using assms by (auto simp: on_bill_def tidy_refl tidy_bill split: sum.split_asm)

lemma validated_tidy:
  "on_bill (\<lambda>db. bindR checked (\<lambda>_. f db)) w = (x, w') \<Longrightarrow> (\<And>r db'. f (bw_bill w) = Inr (r, db') \<Longrightarrow> pays_none (bw_bill w) db') \<Longrightarrow> tidy w w'"
  by (erule on_bill_tidy) (auto simp: bindR_Inr_iff)

lemma repo_quiet:
  "CreateCustomer e newid now c db = Inr (rc, db') \<Longrightarrow> pays_none db db'"
  "UpdateCustomerRepo e c db = Inr (rc, db') \<Longrightarrow> pays_none db db'"
  "CreateVirtualAccountRepo newid now a db = Inr (ra, db') \<Longrightarrow> pays_none db db'"
  "CreateInboundCollection e newid now ic db = Inr (ri, db') \<Longrightarrow> pays_none db db'"
  "CreateConnectedAccount e newid now cn db = Inr (rn, db') \<Longrightarrow> pays_none db db'"
  "InsertBillingSubscription newid now s db = Inr (rs, db') \<Longrightarrow> pays_none db db'"
  "UpdateSubscriptionStatus now m i st reason atEnd nextAt db = Inr (rs, db') \<Longrightarrow> pays_none db db'"
  "CreatePaymentLinkRepo newid now l db = Inr (rl, db') \<Longrightarrow> pays_none db db'"
  "UpdatePaymentLinkStatus m i ls db = Inr (rl, db') \<Longrightarrow> pays_none db db'"
  "MarkPaymentLinkVisited m i now db = Inr (rl, db') \<Longrightarrow> pays_none db db'"
  by (auto intro!: quiet_same simp: CreateCustomer_def CreateCustomerRepo_def UpdateCustomerRepo_def CreateVirtualAccountRepo_def CreateInboundCollection_def
      CreateConnectedAccount_def CreateConnectedAccountRepo_def InsertBillingSubscription_def UpdateSubscriptionStatus_def set_bsub_def CreatePaymentLinkRepo_def
      UpdatePaymentLinkStatus_def MarkPaymentLinkVisited_def set_link_def bindR_Inr_iff Let_def split: if_split_asm option.split_asm)

lemma invoice_quiet:
  "CreateInvoice newid now v db = Inr (rv, db') \<Longrightarrow> iv_Status v \<noteq> InvoicePaid \<Longrightarrow> pays_none db db'"
  "MarkInvoiceReminded m i at db = Inr (rv, db') \<Longrightarrow> pays_none db db'"
  "MarkInvoiceFailed m i code message nextAt retryCount db = Inr (rv, db') \<Longrightarrow> pays_none db db'"
proof -
  show "CreateInvoice newid now v db = Inr (rv, db') \<Longrightarrow> iv_Status v \<noteq> InvoicePaid \<Longrightarrow> pays_none db db'"
    by (auto simp: pays_none_def CreateInvoice_def Let_def split: if_split_asm)
  show "MarkInvoiceReminded m i at db = Inr (rv, db') \<Longrightarrow> pays_none db db'"
    by (rule quiet_upd [where q = "invoice_at m i" and f = "\<lambda>v. v\<lparr>iv_ReminderCount := iv_ReminderCount v + 1, iv_LastRemindedAt := Some at\<rparr>"])
       (auto simp: MarkInvoiceReminded_def set_invoice_def bindR_Inr_iff Let_def)
  show "MarkInvoiceFailed m i code message nextAt retryCount db = Inr (rv, db') \<Longrightarrow> pays_none db db'"
    by (rule quiet_upd [where q = "invoice_at m i" and f = "fail_invoice code message"])
       (auto simp: MarkInvoiceFailed_def fail_invoice_def set_invoice_def set_bsub_def bindR_Inr_iff Let_def)
qed

lemma get_token_tidy: "get_token auditID m i w = (x, w') \<Longrightarrow> tidy w w'"
  by (auto simp: get_token_def moves_def split: sum.split_asm intro!: tidy_moves tidy_refl r_into_rtranclp dest: vault_step.view)

lemma verification_tidy: "ensureFreshVPAVerification verifier newid now m vpa w = (x, w') \<Longrightarrow> tidy w w' \<and> bw_bill w' = bw_bill w"
  by (auto simp: ensureFreshVPAVerification_def tidy_refl tidy_def keeps_money_refl quiet_same split: option.split_asm sum.split_asm prod.split_asm)

lemma insert_event_books: "insertUPIMandateEventTx newid now m i kind at ai reason p db = Inr db' \<Longrightarrow> bl_invoices db' = bl_invoices db"
  by (auto simp: insertUPIMandateEventTx_def split: if_split_asm)

lemma outbox_event: "\<exists>evtID' now' ev. writeUPIMandateOutboxTx evtID now d kind db = emit evtID' now' ev db"
  unfolding writeUPIMandateOutboxTx_def by blast

lemma mandate_tidy:
  "UpdateUPIMandateStatus ids now m i st actorType actorID reason w = Inr (d, w') \<Longrightarrow> tidy w w'"
  "CreateUPIMandateRepo mids now md actorType actorID w = Inr (d, w') \<Longrightarrow> tidy w w'"
  unfolding tidy_def
  by (auto simp: UpdateUPIMandateStatus_def CreateUPIMandateRepo_def bindR_Inr_iff Let_def
      split: option.split_asm if_split_asm dest!: insert_event_books intro!: quiet_same emit_keeps outbox_event)

lemma change_mandate_tidy: "change_mandate ids now m i st actorType actorID reason w = (x, w') \<Longrightarrow> tidy w w'"
  by (auto simp: change_mandate_def tidy_refl split: sum.split_asm dest: mandate_tidy)

text \<open>The operations of the service.\<close>

lemma customer_tidy: "UpdateCustomer e auditID c w = (x, w') \<Longrightarrow> tidy w w'"
  by (auto simp: UpdateCustomer_def validateCustomerDefaultToken_def tidy_refl split: sum.split_asm prod.split_asm if_split_asm
      dest!: get_token_tidy on_bill_tidy [OF _ repo_quiet(2)] intro: tidy_trans)

lemma CreateSubscription_tidy: "CreateBillingSubscription e auditID newid now inp w = (x, w') \<Longrightarrow> tidy w w'"
  by (auto simp: CreateBillingSubscription_def check_method_def Let_def tidy_refl bindR_Inr_iff split: sum.split_asm prod.split_asm if_split_asm
      dest!: get_token_tidy validated_tidy [OF _ repo_quiet(6)] intro: tidy_trans)

lemma CreateUPIMandate_tidy: "CreateUPIMandate e verifier ids now inp actorType actorID w = (x, w') \<Longrightarrow> tidy w w'"
  by (auto simp: CreateUPIMandate_def tidy_refl bindR_Inr_iff split: sum.split_asm prod.split_asm dest!: verification_tidy mandate_tidy(2) intro: tidy_trans)

lemma ActivateUPIMandate_tidy: "ActivateUPIMandate verifier vid ids now m i actorType actorID reason w = (x, w') \<Longrightarrow> tidy w w'"
  by (auto simp: ActivateUPIMandate_def tidy_refl split: sum.split_asm prod.split_asm dest!: verification_tidy change_mandate_tidy intro: tidy_trans)

lemma CreateVirtualAccount_tidy: "CreateVirtualAccount e newid refID now m customerID orderID reference w = (x, w') \<Longrightarrow> tidy w w'"
  unfolding CreateVirtualAccount_def Let_def by (auto simp: tidy_refl split: sum.split_asm dest!: on_bill_tidy [OF _ repo_quiet(3)] split del: if_split)

lemma collection_tidy:
  "RecordInboundCollection e newid now cinp w = (x, w') \<Longrightarrow> tidy w w'"
  "ReviewInboundCollection e now m i orderID customerID reviewNotes w = (x, w') \<Longrightarrow> tidy w w'"
  unfolding RecordInboundCollection_def ReviewInboundCollection_def
  by (auto simp: tidy_refl ReviewInboundCollectionRepo_def split: sum.split_asm option.split_asm dest!: on_bill_tidy [OF _ repo_quiet(4)]
      intro!: tidy_bill quiet_same split del: if_split)

lemma order_tidy: "CreateOrder newid evtID now inp (bw_pay w) = Inr (ord, db) \<Longrightarrow> tidy w (w\<lparr>bw_pay := db\<rparr>)"
  by (rule tidy_moves [OF CreateOrder_moves]) simp_all

lemma CreatePaymentLink_tidy: "CreatePaymentLink e ids now inp w = (x, w') \<Longrightarrow> tidy w w'"
  unfolding CreatePaymentLink_def Let_def
  by (auto simp: tidy_refl bindR_Inr_iff split: sum.split_asm split del: if_split dest!: order_tidy validated_tidy [OF _ repo_quiet(8)] intro: tidy_trans)

lemma refresh_tidy: "refreshPaymentLinkStatus now l w = (x, w') \<Longrightarrow> tidy w w'"
  by (auto simp: refreshPaymentLinkStatus_def tidy_refl split: if_split_asm sum.split_asm dest!: on_bill_tidy [OF _ repo_quiet(9)])

lemma link_tidy:
  "GetPaymentLink now m i w = (x, w') \<Longrightarrow> tidy w w'" "ResolvePaymentLink now m i w = (y, w') \<Longrightarrow> tidy w w'"
  "on_bill (UpdatePaymentLinkStatus m i ls) w = (z, w') \<Longrightarrow> tidy w w'"
proof -
  show get: "GetPaymentLink now m i w = (x, w') \<Longrightarrow> tidy w w'" for x w'
    by (auto simp: GetPaymentLink_def tidy_refl split: sum.split_asm dest: refresh_tidy)
  show status: "on_bill (UpdatePaymentLinkStatus m i ls) w = (z, w') \<Longrightarrow> tidy w w'" for z w w' ls by (erule on_bill_tidy) (rule repo_quiet(9))
  have visit: "on_bill (MarkPaymentLinkVisited m i now) w = (z, w') \<Longrightarrow> tidy w w'" for z w w' by (erule on_bill_tidy) (rule repo_quiet(10))
  show "ResolvePaymentLink now m i w = (y, w') \<Longrightarrow> tidy w w'"
    by (auto simp: ResolvePaymentLink_def Let_def split: prod.split_asm sum.split_asm if_split_asm dest!: get visit intro: tidy_trans)
       (metis get prod.collapse status tidy_trans)+
qed

lemma surface_tidy: "collection_surface e ids now inp w = (x, w') \<Longrightarrow> tidy w w'"
  unfolding collection_surface_def Let_def
  by (auto simp: tidy_refl split: sum.split_asm prod.split_asm if_split_asm dest!: CreatePaymentLink_tidy order_tidy CreateVirtualAccount_tidy intro: tidy_trans)

lemma invoice_tidy:
  "CreateManualInvoice e ids now inp w = (x, w') \<Longrightarrow> tidy w w'" "SendInvoiceReminder now m i w = (y, w') \<Longrightarrow> tidy w w'"
proof -
  have create: "on_bill (CreateInvoice newid now v) w = (z, w') \<Longrightarrow> iv_Status v \<noteq> InvoicePaid \<Longrightarrow> tidy w w'" for newid v w z w'
    by (erule on_bill_tidy) (rule invoice_quiet(1))
  show "CreateManualInvoice e ids now inp w = (x, w') \<Longrightarrow> tidy w w'"
    by (auto simp: CreateManualInvoice_def Let_def tidy_refl split: sum.split_asm prod.split_asm dest!: surface_tidy create intro: tidy_trans)
  have "on_bill (MarkInvoiceReminded m i now) w = (z, w') \<Longrightarrow> tidy w w'" for z w' by (erule on_bill_tidy) (rule invoice_quiet(2))
  then show "SendInvoiceReminder now m i w = (y, w') \<Longrightarrow> tidy w w'" by (auto simp: SendInvoiceReminder_def split: sum.split_asm prod.split_asm)
qed

text \<open>A run: only the invoice it opened becomes paid, and that one is backed.\<close>

lemma open_cycle_quiet: "open_cycle ids now s db = (x, db') \<Longrightarrow> pays_none db db'"
proof -
  assume o: "open_cycle ids now s db = (x, db')"
  have inv: "pays_none db db1" if "CreateInvoice (rn_Invoice ids) now (cycle_invoice s) db = Inr (v, db1)" for v db1
    using invoice_quiet(1) [OF that] by (simp add: cycle_invoice_def)
  have "bl_invoices db2 = bl_invoices db1" if "CreateInvoiceAttempt (rn_Attempt ids) (cycle_attempt s (rn_Invoice ids)) db1 = Inr (a, db2)" for a db1 db2
    using that by (auto simp: CreateInvoiceAttempt_def split: if_split_asm)
  then have "pays_none db1 db2" if "CreateInvoiceAttempt (rn_Attempt ids) (cycle_attempt s (rn_Invoice ids)) db1 = Inr (a, db2)" for a db1 db2
    using that quiet_same by metis
  then have "pays_none db db2" if "CreateInvoice (rn_Invoice ids) now (cycle_invoice s) db = Inr (v, db1)"
    "CreateInvoiceAttempt (rn_Attempt ids) (cycle_attempt s (rn_Invoice ids)) db1 = Inr (a, db2)" for v db1 a db2
    using inv that quiet_trans by metis
  then show ?thesis using o inv by (auto simp: open_cycle_def quiet_same [OF refl] split: if_split_asm sum.split_asm)
qed

lemma open_cycle_rows:
  assumes "open_cycle ids now s db = (Inr (), db')" "v \<in> set (bl_invoices db')" "iv_ID v = rn_Invoice ids"
  shows "iv_MerchantID v = sb_MerchantID s \<and> iv_Amount v = sb_Amount s"
proof (cases "v \<in> set (bl_invoices db)")
  case True
  then show ?thesis using open_cycle_invoices(1) [OF assms(1)] assms(3) by (metis imageI)
next
  case False
  then show ?thesis using open_cycle_invoices(4) [OF assms(1)] assms(2) by (simp add: cycle_invoice_def)
qed

lemma marked_quiet: "markSubscriptionInvoiceFailure env now s a j orderID paymentID code err db = (e, db') \<Longrightarrow> pays_none db db'"
proof -
  define db1 where "db1 = (case MarkInvoiceAttempt (sb_MerchantID s) a InvAttFailed orderID paymentID code (be_text env err) db of Inl _ \<Rightarrow> db | Inr d \<Rightarrow> d)"
  assume "markSubscriptionInvoiceFailure env now s a j orderID paymentID code err db = (e, db')"
  moreover have "pays_none db db1" unfolding db1_def by (auto simp: same_books_def intro!: quiet_same split: sum.split dest: MarkInvoiceAttempt_books)
  ultimately show ?thesis
    by (auto simp: markSubscriptionInvoiceFailure_def Let_def db1_def [symmetric] split: sum.split_asm intro: quiet_trans dest!: invoice_quiet(3))
qed

lemma invoices_backed_upd:
  assumes "invoices_backed w" "bw_pay w' = bw_pay w" "bl_invoices (bw_bill w') = upd_where q (pay_invoice orderID i) (bl_invoices (bw_bill w))"
    "\<And>v. v \<in> set (bl_invoices (bw_bill w)) \<Longrightarrow> q v \<Longrightarrow> backed (iv_MerchantID v) i (iv_Amount v) (bw_pay w)"
  shows "invoices_backed w'"
  using assms(1,4) unfolding invoices_backed_def assms(2,3) set_upd_where by (auto simp: pay_invoice_def)

lemma run_keeps:
  assumes run: "runSubscription env ids now s w = (r, w')" and inv: "bill_inv w" and key: "new_key (''invoice-payment:'' @ rn_Invoice ids) (bw_pay w)"
  shows "bill_inv w'"
  using run
proof (cases rule: runSubscription_cases)
  case (refused e bill)
  then show ?thesis using tidy_inv [OF tidy_bill [OF open_cycle_quiet [OF refused(1)]] inv] by simp
next
  case (failed bill x orderID paymentID code err err' bill')
  have "pays_none (bw_bill w) bill'"
    using open_cycle_quiet [OF failed(1)] marked_quiet [OF failed(4)] failed(2) by (metis quiet_same quiet_trans same_books_def)
  moreover have "keeps_money w w'" using moves_keeps [OF failed(3)] failed(6) by (simp add: keeps_money_def)
  ultimately show ?thesis using tidy_inv [OF _ inv] failed(6) by (simp add: tidy_def)
next
  case (charged bill ord db c w2 x)
  let ?w1 = "recordInvoiceAttemptNonFatal s (rn_Attempt ids) InvAttStarted (o_ID ord) '''' (w\<lparr>bw_bill := bill, bw_pay := db\<rparr>)"
  have "tidy w w2" using moves_keeps [OF charged(5)] open_cycle_quiet [OF charged(1)] charged(4)
    unfolding tidy_def by (metis quiet_same quiet_trans same_books_def)
  then have w2: "bill_inv w2" using tidy_inv inv by blast
  have "hosted_inv (db, bw_hosted w)" using order_tidy [OF charged(2)] inv by (auto simp: tidy_def keeps_money_def bill_inv_def)
  moreover have "db_attempts db = db_attempts (bw_pay w)"
    using charged(2) by (auto simp: CreateOrder_def InsertOrder_def bindR_Inr_iff Let_def split: if_split_asm)
  ultimately have "hosted_inv (bw_pay ?w1, bw_hosted ?w1)" "new_key (''invoice-payment:'' @ rn_Invoice ids) (bw_pay ?w1)" using key by (simp_all add: new_key_def)
  then have b: "backed (sb_MerchantID s) (cr_PaymentID c) (sb_Amount s) (bw_pay w2)"
    using charged(3) charge_card_backed charge_mandate_backed by (auto simp: cycle_charge_def Let_def split: if_split_asm)
  have rows: "iv_MerchantID v = sb_MerchantID s \<and> iv_Amount v = sb_Amount s" if "v \<in> set (bl_invoices (bw_bill w2))" "iv_ID v = rn_Invoice ids" for v
    using open_cycle_rows [OF charged(1), of v] charged(4) that by (simp add: same_books_def)
  consider "w' = w2" | bill' where "w' = w2\<lparr>bw_bill := bill'\<rparr>"
    "bl_invoices bill' = upd_where (invoice_at (sb_MerchantID s) (rn_Invoice ids)) (pay_invoice (o_ID ord) (cr_PaymentID c)) (bl_invoices (bw_bill w2))"
    using charged(6) by (auto simp: on_bill_def MarkInvoicePaid_def bindR_Inr_iff Let_def set_invoice_def set_bsub_def split: sum.split_asm)
  then show ?thesis
  proof cases
    case 2
    have "backed (iv_MerchantID v) (cr_PaymentID c) (iv_Amount v) (bw_pay w2)"
      if "v \<in> set (bl_invoices (bw_bill w2))" "invoice_at (sb_MerchantID s) (rn_Invoice ids) v" for v
      using rows [OF that(1)] that(2) b by (simp add: invoice_at_def)
    then have "invoices_backed w'" by (rule invoices_backed_upd [rotated 3]) (use w2 2 in \<open>simp_all add: bill_inv_def\<close>)
    then show ?thesis using w2 2(1) by (simp add: bill_inv_def)
  qed (use w2 in simp)
qed

lemma bill_step_inv: "bill_step w w' \<Longrightarrow> bill_inv w \<Longrightarrow> bill_inv w'"
proof (induction rule: bill_step.induct)
  case (money w db h)
  then have "moves w (w\<lparr>bw_pay := db, bw_hosted := h\<rparr>)" by (simp add: moves_def r_into_rtranclp)
  then show ?case using tidy_inv [OF tidy_moves] money.prems by simp
next
  case (vault w v)
  then have "moves w (w\<lparr>bw_vault := v\<rparr>)" by (simp add: moves_def r_into_rtranclp)
  then show ?case using tidy_inv [OF tidy_moves] vault.prems by simp
next
  case (run ids w env now s r w')
  then show ?case by (blast intro: run_keeps)
qed (rule tidy_inv, ((rule tidy_bill, erule repo_quiet) | erule CreateSubscription_tidy customer_tidy CreateUPIMandate_tidy ActivateUPIMandate_tidy
    change_mandate_tidy CreateVirtualAccount_tidy collection_tidy CreatePaymentLink_tidy link_tidy invoice_tidy), assumption)+

interpretation billing: invariant_system bill_step bill_inv
  by unfold_locales (rule bill_step_inv)

end
