(* ===== verification/BillingProps.thy ===== *)
theory BillingProps
  imports BillingFlow
begin

text \<open>
  The properties of billing: how a run of a subscription ends, that a paid invoice was collected and posted once, and
  what the absence of a lock on due subscriptions, of a look at the stored status and of a common expiry of order and link
  leads to, on concrete worlds.
\<close>

section \<open>Runs\<close>



section \<open>Concrete worlds\<close>

definition sample_upi_gateway :: upi_gateway where
  "sample_upi_gateway = \<lparr>hg_Name = ''sim'', hg_Poll = \<lambda>_. Inl ''down'',
     hg_CreateUPI = \<lambda>_. Inr \<lparr>ug_GatewayReference = ''g'', ug_DeepLink = '''', ug_IntentURI = '''', ug_QRPayload = '''', ug_QRImageURL = '''', ug_ExpiresAt = 900\<rparr>\<rparr>"

definition sample_billing_env :: billing_env where
  "sample_billing_env = \<lparr>be_gateway = approving_gateway, be_upi = Some sample_upi_gateway, be_text = \<lambda>_. ''failed''\<rparr>"

definition sample_run_ids :: "string \<Rightarrow> run_ids" where
  "sample_run_ids x = \<lparr>rn_Invoice = ''inv'' @ x, rn_Attempt = ''ia'' @ x, rn_Order = ''ord'' @ x, rn_OrderEvent = ''oe'' @ x, rn_Payment = ''pay'' @ x,
     rn_Tokens = (''t'' @ x, ''u'' @ x),
     rn_Auth = \<lparr>ai_PaymentID = ''pay'' @ x, ai_AttemptID = ''at'' @ x, ai_SplitID = \<lambda>_. ''sp'', ai_StartEvent = ''se'' @ x, ai_OutcomeEvent = ''oc'' @ x,
       ai_SessionID = ''ss'' @ x, ai_CallbackToken = ''ct'' @ x\<rparr>,
     rn_Session = \<lparr>hi_Payment = ''pay'' @ x, hi_Attempt = ''at'' @ x, hi_Event = ''he'' @ x, hi_FailEvent = ''hf'' @ x, hi_Token = ''ht'' @ x,
       hi_Capture = (''tx'' @ x, ''c1'' @ x, ''c2'' @ x)\<rparr>,
     rn_Capture = (''ty'' @ x, ''d1'' @ x, ''d2'' @ x), rn_ReverseEvent = ''re'' @ x, rn_MandateEvent = ''me'' @ x\<rparr>"

definition sample_bsub :: bill_subscription where
  "sample_bsub = \<lparr>sb_ID = ''s1'', sb_MerchantID = ''m1'', sb_CustomerID = ''c1'', sb_PlanName = ''gold'', sb_CollectionMethod = ''upi_mandate'',
     sb_PaymentMethodTokenID = '''', sb_UPIMandateID = ''md1'', sb_Amount = 500, sb_Currency = ''INR'', sb_IntervalUnit = ''month'', sb_IntervalCount = 1,
     sb_Status = SubActive, sb_NextBillingAt = 5, sb_RetryCount = 0, sb_MaxRetryCount = 3, sb_RetryIntervalHours = 24, sb_CancelAtPeriodEnd = False,
     sb_PauseReason = '''', sb_CanceledAt = None, sb_CreatedAt = 1\<rparr>"

definition sample_mandate :: mandate where
  "sample_mandate = \<lparr>md_ID = ''md1'', md_MerchantID = ''m1'', md_CustomerID = ''c1'', md_Reference = ''ref'', md_DisplayName = ''gold'', md_VPA = ''a@b'',
     md_AmountLimit = 1000, md_Currency = ''INR'', md_IntervalUnit = ''month'', md_IntervalCount = 1, md_RetryWindowHours = 24, md_Status = MandateActive,
     md_ApprovalToken = '''', md_ApprovedAt = Some 1, md_PausedAt = None, md_RevokedAt = None, md_ExpiresAt = None, md_CreatedAt = 1\<rparr>"

definition sample_world :: billing_world where
  "sample_world = \<lparr>bw_pay = sample_pay_db, bw_hosted = empty_hosted\<lparr>hd_mandates := [''md1'']\<rparr>, bw_vault = empty_vault, bw_vpa = [],
     bw_bill = \<lparr>bl_customers = [\<lparr>cu_ID = ''c1'', cu_MerchantID = ''m1'', cu_Name = ''n'', cu_Email = '''', cu_Phone = '''', cu_ExternalReference = '''',
         cu_DefaultPaymentTokenID = '''', cu_CreatedAt = 1\<rparr>],
       bl_mandates = [sample_mandate], bl_mandate_events = [], bl_subscriptions = [sample_bsub], bl_invoices = [], bl_attempts = [], bl_accounts = [],
       bl_collections = [], bl_connected = [], bl_links = []\<rparr>\<rparr>"

lemma sample_world_read:
  "GetBillingSubscription ''m1'' ''s1'' (bw_bill sample_world) = Inr sample_bsub" "db_attempts (bw_pay sample_world) = []" "db_payments (bw_pay sample_world) = []"
  "posted_captures (db_ledger (bw_pay sample_world)) = []" "hosted_ids (bw_hosted sample_world) = {}" "bw_vault sample_world = empty_vault"
  "bl_invoices (bw_bill sample_world) = []"
  by (simp_all add: sample_world_def GetBillingSubscription_def bsub_at_def sample_bsub_def sample_hosted_start hosted_ids_def empty_hosted_def sample_pay_db_def empty_ledger_def posted_captures_def)

text \<open>The mandate is charged and the month is paid.\<close>

lemma sample_run_evaluated:
  "case runSubscription sample_billing_env (sample_run_ids ''1'') 6 sample_bsub sample_world of
     (Inr (v, c), w) \<Rightarrow> bl_invoices (bw_bill w) = [v] \<and> iv_Status v = InvoicePaid \<and> iv_Amount v = 500 \<and> iv_PaymentID v = ''pay1''
   | _ \<Rightarrow> False"
  by code_simp

lemma sample_bill_run:
  obtains v c w where "runSubscription sample_billing_env (sample_run_ids ''1'') 6 sample_bsub sample_world = (Inr (v, c), w)"
    "bl_invoices (bw_bill w) = [v]" "iv_Status v = InvoicePaid" "iv_Amount v = 500" "iv_PaymentID v = ''pay1''"
  using sample_run_evaluated by (auto split: prod.split_asm sum.split_asm)




text \<open>A status is set whatever it was: a canceled subscription is resumed and due at once, a revoked mandate active again.\<close>

lemma canceled_subscription_resumed:
  "GetBillingSubscription m i db = Inr s \<Longrightarrow> sb_Status s = SubCanceled \<Longrightarrow>
   \<exists>s' db'. ResumeSubscription now m i db = Inr (s', db') \<and> GetBillingSubscription m i db' = Inr s' \<and> sb_Status s' = SubActive \<and> sb_NextBillingAt s' = now"
  using set_sub_find [of m i db s "set_sub_status now SubActive [] False (Some now)"]
  by (simp add: ResumeSubscription_def UpdateSubscriptionStatus_def set_sub_status_def bsub_at_def)

section \<open>Payment links\<close>

text \<open>A new order is at the end of the table, and found under its merchant and identifier.\<close>

lemma CreateOrder_found:
  assumes "CreateOrder newid evtID now inp db = Inr (ord, db')" "\<not> order_conflict (new_order newid now inp) (db_orders db)"
  shows "ord = (new_order newid now inp)\<lparr>o_CreatedAt := now, o_UpdatedAt := now\<rparr>" "find (order_at (o_MerchantID ord) (o_ID ord)) (db_orders db') = Some ord"
proof -
  show ord: "ord = (new_order newid now inp)\<lparr>o_CreatedAt := now, o_UpdatedAt := now\<rparr>"
    using assms by (auto simp: CreateOrder_def InsertOrder_def bindR_Inr_iff Let_def)
  have db': "db_orders db' = db_orders db @ [ord]" using assms by (auto simp: CreateOrder_def InsertOrder_def bindR_Inr_iff Let_def)
  have "\<forall>r \<in> set (db_orders db). o_ID r \<noteq> o_ID ord" using assms(2) unfolding ord order_conflict_def by (auto simp: image_iff)
  then have "find (order_at (o_MerchantID ord) (o_ID ord)) (db_orders db) = None" by (auto simp: find_None_iff order_at_def)
  then show "find (order_at (o_MerchantID ord) (o_ID ord)) (db_orders db') = Some ord" by (simp add: db' find_append order_at_def)
qed

lemma CreatePaymentLink_found:
  assumes "CreatePaymentLink e ids now inp w = (Inr l, w')"
  obtains ord db where "CreateOrder (ln_Order ids) (ln_OrderEvent ids) now (link_order ids inp) (bw_pay w) = Inr (ord, db)" "bw_pay w' = db"
    "l = (new_link now inp (o_ID ord))\<lparr>pk_ID := ln_Link ids, pk_CreatedAt := now, pk_LastVisitedAt := None\<rparr>"
    "GetPaymentLinkRepo (li_MerchantID inp) (ln_Link ids) (bw_bill w') = Inr l" "ValidateLink (new_link now inp (o_ID ord)) = Inr ()"
proof -
  obtain ord db where o: "CreateOrder (ln_Order ids) (ln_OrderEvent ids) now (link_order ids inp) (bw_pay w) = Inr (ord, db)"
    "on_bill (\<lambda>bill. bindR (ValidateLink (new_link now inp (o_ID ord))) (\<lambda>_. CreatePaymentLinkRepo (ln_Link ids) now (new_link now inp (o_ID ord)) bill))
       (w\<lparr>bw_pay := db\<rparr>) = (Inr l, w')"
    using assms unfolding CreatePaymentLink_def Let_def by (auto split: sum.split_asm prod.split_asm)
  then obtain bill where b: "ValidateLink (new_link now inp (o_ID ord)) = Inr ()" "CreatePaymentLinkRepo (ln_Link ids) now (new_link now inp (o_ID ord)) (bw_bill w) = Inr (l, bill)"
    "w' = w\<lparr>bw_pay := db, bw_bill := bill\<rparr>"
    by (auto simp: on_bill_def bindR_Inr_iff split: sum.split_asm)
  then have l: "l = (new_link now inp (o_ID ord))\<lparr>pk_ID := ln_Link ids, pk_CreatedAt := now, pk_LastVisitedAt := None\<rparr>"
    and bill: "bl_links bill = bl_links (bw_bill w) @ [l]" and new: "ln_Link ids \<notin> pk_ID ` set (bl_links (bw_bill w))"
    by (auto simp: CreatePaymentLinkRepo_def Let_def split: if_split_asm)
  have "find (link_at (li_MerchantID inp) (ln_Link ids)) (bl_links (bw_bill w)) = None" using new by (auto simp: find_None_iff link_at_def image_iff)
  then have "GetPaymentLinkRepo (li_MerchantID inp) (ln_Link ids) (bw_bill w') = Inr l"
    by (simp add: GetPaymentLinkRepo_def b(3) bill find_append) (simp add: l link_at_def new_link_def)
  then show thesis using that o(1) b(1,3) l by simp
qed

text \<open>
  C40: A payment link outlives its order. Made without an expiry it is open for seven days, but the order behind it for
  thirty minutes: in between the link still resolves, and every card authorization on its order is refused as expired.
\<close>

theorem payment_link_outlives_order:
  assumes create: "CreatePaymentLink e ids now inp w = (Inr l, w')" and m: "li_MerchantID inp = m" "TrimSpace m = m"
    and fresh: "\<not> order_conflict (new_order (ln_Order ids) now (link_order ids inp)) (db_orders (bw_pay w))"
    and t: "li_ExpiresAt inp \<le> 0" "now + minutes 30 < t" "t \<le> now + days 7"
  shows "\<exists>ord. fst (ResolvePaymentLink t m (pk_ID l) w') = Inr (l\<lparr>pk_LastVisitedAt := Some t\<rparr>, ord)
    \<and> (\<forall>a. ca_MerchantID a = m \<and> ca_OrderID a = o_ID ord \<and> 0 < ca_Amount a \<and> ca_Method a \<in> set methods
        \<longrightarrow> StartAuthorization attemptID payID splitID evtID t a (bw_pay w') = Inl ErrOrderIsExpired)"
  using create
proof (rule CreatePaymentLink_found)
  fix ord db
  assume c: "CreateOrder (ln_Order ids) (ln_OrderEvent ids) now (link_order ids inp) (bw_pay w) = Inr (ord, db)" "bw_pay w' = db"
    "l = (new_link now inp (o_ID ord))\<lparr>pk_ID := ln_Link ids, pk_CreatedAt := now, pk_LastVisitedAt := None\<rparr>"
    "GetPaymentLinkRepo (li_MerchantID inp) (ln_Link ids) (bw_bill w') = Inr l"
  note o = CreateOrder_found [OF c(1) fresh]
  have ord: "o_MerchantID ord = m" "o_Status ord = OrderCreated" "o_ExpiresAt ord = now + minutes 30" unfolding o(1) using m by (simp_all add: new_order_def link_order_def Let_def)
  have found: "find (order_at m (o_ID ord)) (db_orders (bw_pay w')) = Some ord" using o(2) c(2) ord(1) by simp
  have l: "pk_MerchantID l = m" "pk_ID l = ln_Link ids" "pk_Status l = LinkActive" "pk_ExpiresAt l = now + days 7" "pk_OrderID l = o_ID ord"
    using m(1) t(1) by (simp_all add: c(3) new_link_def)
  have "GetPaymentLink t m (pk_ID l) w' = (Inr l, w')"
    using c(4) m(1) l t(3) found ord(2) by (simp add: GetPaymentLink_def refreshPaymentLinkStatus_def GetOrder_def)
  then have "fst (ResolvePaymentLink t m (pk_ID l) w') = Inr (l\<lparr>pk_LastVisitedAt := Some t\<rparr>, ord\<lparr>o_IdempotencyKey := ''''\<rparr>)"
    using c(4) m(1) l t(3) found by (simp add: ResolvePaymentLink_def on_bill_def MarkPaymentLinkVisited_def set_link_def GetOrder_def Let_def)
  moreover have "StartAuthorization attemptID payID splitID evtID t a (bw_pay w') = Inl ErrOrderIsExpired"
    if "ca_MerchantID a = m" "ca_OrderID a = o_ID ord" "0 < ca_Amount a" "ca_Method a \<in> set methods" for a
    using that found ord(3) t(2) by (simp add: StartAuthorization_def order_admits_def)
  ultimately show ?thesis by (intro exI [of _ "ord\<lparr>o_IdempotencyKey := ''''\<rparr>"]) simp
qed

definition sample_link_input :: link_input where
  "sample_link_input = \<lparr>li_MerchantID = ''m1'', li_CustomerID = '''', li_ExternalReference = ''x'', li_Title = ''t'', li_Description = '''', li_Amount = 500,
     li_Currency = ''INR'', li_CallbackURL = '''', li_ExpiresAt = 0, li_Notes = []\<rparr>"

definition sample_link_ids :: link_ids where
  "sample_link_ids = \<lparr>ln_Link = ''l1'', ln_Receipt = ''r1'', ln_Order = ''o9'', ln_OrderEvent = ''oe9''\<rparr>"

text \<open>The keys are not configured, so nothing is sealed.\<close>

definition plain_env :: sealing_env where
  "plain_env = \<lparr>se_gcm = plain_gcm, se_protector = sample_protector\<lparr>pr_Enabled := False\<rparr>, se_nonce = \<lambda>_. None\<rparr>"

lemma sample_link_evaluated:
  "case CreatePaymentLink plain_env sample_link_ids 6 sample_link_input sample_world of (Inr l, w) \<Rightarrow> pk_ID l = ''l1'' \<and> pk_OrderID l = ''o9'' | _ \<Rightarrow> False"
  "\<not> order_conflict (new_order (ln_Order sample_link_ids) 6 (link_order sample_link_ids sample_link_input)) (db_orders (bw_pay sample_world))"
  "TrimSpace ''m1'' = ''m1''" "6 + minutes 30 < minutes 60" "minutes 60 \<le> 6 + days 7"
  by code_simp+

theorem payment_link_outlives_order_witness:
  "\<exists>l w' l' ord. CreatePaymentLink plain_env sample_link_ids 6 sample_link_input sample_world = (Inr l, w') \<and> pk_ID l = ''l1''
     \<and> fst (ResolvePaymentLink (minutes 60) ''m1'' ''l1'' w') = Inr (l', ord)"
proof -
  obtain l w' where c: "CreatePaymentLink plain_env sample_link_ids 6 sample_link_input sample_world = (Inr l, w')" "pk_ID l = ''l1''"
    using sample_link_evaluated(1) by (auto split: prod.split_asm sum.split_asm)
  show ?thesis
    using payment_link_outlives_order [OF c(1) _ sample_link_evaluated(3,2) _ sample_link_evaluated(4,5), of "''a''" "''p''" "\<lambda>_. ''s''" "''e''"] c
    by (auto simp: sample_link_input_def)
qed

section \<open>Personal data\<close>

text \<open>A configuration as the service has it: usable keys, a cipher that opens what it sealed, nonces of the right length.\<close>

definition sealing_ok :: "sealing_env \<Rightarrow> bool" where
  "sealing_ok e \<longleftrightarrow> protector_ok (se_protector e) \<and> gcm_ok (se_gcm e) \<and> (\<forall>k nonce. se_nonce e k = Some nonce \<longrightarrow> length nonce = NonceSize)"

lemma sealed_column:
  assumes "sealing_ok e" "CHR '':'' \<notin> set domain" "seal_at e k domain value = Inr s" shows "open_at e domain s = Inr value"
proof -
  have "SealStringForDomain (se_gcm e) (se_protector e) domain (se_nonce e k) value = Inr s"
    using assms(3) by (simp add: seal_at_def mapL_def split: sum.split_asm)
  then have "OpenStringForDomain (se_gcm e) (se_protector e) domain s = Inr value"
    using assms(1) by (intro sealed_reads [OF _ _ _ assms(2)]) (auto simp: sealing_ok_def)
  then show ?thesis by (simp add: open_at_def mapL_def)
qed

lemma sealed_customer:
  assumes "sealing_ok e" "seal_customer e c = Inr row" shows "decryptCustomer e row = Inr c"
proof -
  obtain a b d where s: "seal_at e 0 customer_domain (cu_Email c) = Inr a" "seal_at e 1 customer_domain (cu_Phone c) = Inr b"
    "seal_at e 2 customer_domain (cu_ExternalReference c) = Inr d" "row = c\<lparr>cu_Email := a, cu_Phone := b, cu_ExternalReference := d\<rparr>"
    using assms(2) unfolding seal_customer_def bindR_Inr_iff by blast
  have "CHR '':'' \<notin> set customer_domain" by (simp add: customer_domain_def)
  note o = sealed_column [OF assms(1) this]
  show ?thesis using o [OF s(1)] o [OF s(2)] o [OF s(3)] by (simp add: decryptCustomer_def s(4))
qed

lemma sealed_collection:
  assumes "sealing_ok e" "seal_collection e c = Inr row" shows "decryptInboundCollection e row = Inr c"
proof -
  obtain a b d where s: "seal_at e 0 collection_domain (ic_RemitterAccount c) = Inr a" "seal_at e 1 collection_domain (ic_RemitterIFSC c) = Inr b"
    "seal_at e 2 collection_domain (ic_RemitterVPA c) = Inr d" "row = c\<lparr>ic_RemitterAccount := a, ic_RemitterIFSC := b, ic_RemitterVPA := d\<rparr>"
    using assms(2) unfolding seal_collection_def bindR_Inr_iff by blast
  have "CHR '':'' \<notin> set collection_domain" by (simp add: collection_domain_def)
  note o = sealed_column [OF assms(1) this]
  show ?thesis using o [OF s(1)] o [OF s(2)] o [OF s(3)] by (simp add: decryptInboundCollection_def s(4))
qed

text \<open>Nothing to hide, or an envelope.\<close>

definition sealed_text :: "string \<Rightarrow> bool" where
  "sealed_text x \<longleftrightarrow> TrimSpace x = '''' \<or> take (length envelopePrefix) x = envelopePrefix"

lemma sealed_at: "pr_Enabled (se_protector e) \<Longrightarrow> seal_at e k domain value = Inr s \<Longrightarrow> sealed_text s"
  by (auto simp: seal_at_def mapL_def SealStringForDomain_def sealed_text_def bindR_Inr_iff split: sum.split_asm if_split_asm option.split_asm)

lemma customer_created:
  assumes "CreateCustomer e newid now inp db = Inr (c, db')"
  obtains row where "seal_customer e c = Inr row" "bl_customers db' = bl_customers db @ [row]" "newid \<notin> cu_ID ` set (bl_customers db)" "cu_ID c = newid"
  using assms by (auto simp: CreateCustomer_def CreateCustomerRepo_def bindR_Inr_iff Let_def split: if_split_asm)

lemma sealed_row: "seal_customer e c = Inr row \<Longrightarrow> cu_ID row = cu_ID c \<and> cu_MerchantID row = cu_MerchantID c"
  by (auto simp: seal_customer_def bindR_Inr_iff)

text \<open>
  C37: A customer reads back as created: what \<open>CreateCustomer\<close> returned is what \<open>GetCustomer\<close> opens from the sealed row. With keys
  configured no e-mail, phone or reference is stored in the clear.
\<close>

theorem customer_read_back:
  assumes "sealing_ok e" and create: "CreateCustomer e newid now inp db = Inr (c, db')"
  shows "GetCustomer e (cu_MerchantID c) newid db' = Inr c
    \<and> (\<exists>row. bl_customers db' = bl_customers db @ [row] \<and> (pr_Enabled (se_protector e)
        \<longrightarrow> sealed_text (cu_Email row) \<and> sealed_text (cu_Phone row) \<and> sealed_text (cu_ExternalReference row)))"
  using create
proof (rule customer_created)
  fix row assume r: "seal_customer e c = Inr row" "bl_customers db' = bl_customers db @ [row]" "newid \<notin> cu_ID ` set (bl_customers db)" "cu_ID c = newid"
  have "find (customer_at (cu_MerchantID c) newid) (bl_customers db) = None" using r(3) by (auto simp: find_None_iff customer_at_def image_iff)
  then have "GetCustomer e (cu_MerchantID c) newid db' = decryptCustomer e row"
    using sealed_row [OF r(1)] r(4) by (simp add: GetCustomer_def r(2) find_append customer_at_def)
  moreover have "sealed_text (cu_Email row) \<and> sealed_text (cu_Phone row) \<and> sealed_text (cu_ExternalReference row)" if "pr_Enabled (se_protector e)"
    using r(1) sealed_at [OF that] by (auto simp: seal_customer_def bindR_Inr_iff)
  ultimately show ?thesis using sealed_customer [OF assms(1) r(1)] r(2) by simp
qed

definition sample_sealing_env :: sealing_env where
  "sample_sealing_env = \<lparr>se_gcm = plain_gcm, se_protector = sample_protector, se_nonce = \<lambda>_. Some ''0123456789ab''\<rparr>"

definition sample_customer :: customer where
  "sample_customer = \<lparr>cu_ID = '''', cu_MerchantID = ''m1'', cu_Name = ''Ann'', cu_Email = ''a@b'', cu_Phone = '''', cu_ExternalReference = ''x'',
     cu_DefaultPaymentTokenID = '''', cu_CreatedAt = 0\<rparr>"

lemma sample_sealing_ok: "sealing_ok sample_sealing_env"
  by (simp add: sealing_ok_def sample_sealing_env_def protector_ok_def keys_ok_def sample_protector_def gcm_ok_def plain_gcm_def NonceSize_def)

lemma sample_customer_evaluated:
  "case CreateCustomer sample_sealing_env ''c2'' 7 sample_customer (bw_bill sample_world) of Inr (c, db) \<Rightarrow> cu_Email c = ''a@b'' \<and> cu_MerchantID c = ''m1'' | _ \<Rightarrow> False"
  by code_simp

theorem customer_read_back_witness:
  "\<exists>c db. CreateCustomer sample_sealing_env ''c2'' 7 sample_customer (bw_bill sample_world) = Inr (c, db) \<and> cu_Email c = ''a@b''
     \<and> GetCustomer sample_sealing_env ''m1'' ''c2'' db = Inr c"
proof -
  obtain c db where c: "CreateCustomer sample_sealing_env ''c2'' 7 sample_customer (bw_bill sample_world) = Inr (c, db)" "cu_Email c = ''a@b''" "cu_MerchantID c = ''m1''"
    using sample_customer_evaluated by (auto split: prod.split_asm sum.split_asm)
  show ?thesis using customer_read_back [OF sample_sealing_ok c(1)] c by auto
qed

end
