(* ===== verification/Spec2Isabelle.thy ===== *)
theory Spec2Isabelle
  imports Prelude Outbox Ledger Order Payment PaymentFlow Capture PaymentService Settlement Refund Treasury TreasuryFlow
    Payout PayoutFlow PayoutService Money PayoutProps
    Idempotency WebhookTarget Webhook WebhookFlow Saga SagaFlow EventSchema Recon
    Gateway Risk Dispute UPIVerify Hosted HostedFlow Tokenization
    Protect Calendar Billing BillingService BillingFlow BillingProps
begin

text \<open>
  A verification development for PayGate, a payment gateway written in Go. Services for orders,
  payments, refunds, settlements and payouts share one PostgreSQL database, post to a double-entry
  ledger inside their transactions, and announce what they did through an outbox table that a relay
  hands over to Kafka or to local subscribers.

  \<^bold>\<open>How the code is modelled.\<close> Go structs are records with a prefix per type, string enumerations are
  datatypes, tables are lists of rows in insertion order. A repository method is one database
  transaction: a function from the tables to an error or a result with the new tables, so an error
  leaves the tables unchanged, and concurrent requests are interleavings of these functions (the code
  locks the rows it changes). Constraints of the schema (primary keys, unique indexes, checks) are
  branches of the operations that insert. The databases extend each other: \<open>core_db\<close> (ledger, outbox,
  orders), \<open>payment_db\<close>, \<open>settlement_db\<close>, \<open>refund_db\<close>, \<open>payout_db\<close>. Identifiers the code draws with \<open>idgen\<close>
  and the clock are arguments. Amounts are integers within int64, and \<open>i64\<close> wraps where the code adds
  or multiplies. Times are microseconds.

  \<^bold>\<open>The theories.\<close>
  \<^item> \<open>Prelude\<close>: \<open>int64\<close> arithmetic, results, tables as lists, state machines (\<open>state_machine\<close> locale) and
    systems with an invariant (\<open>invariant_system\<close> locale).
  \<^item> \<open>Outbox\<close> (\<open>internal/outbox\<close>): writer, relay, publishers. No event is lost, the backlog drains.
  \<^item> \<open>Ledger\<close> (\<open>internal/ledger\<close>): postings, balances, payout holds. Trial balance, holds committed once.
  \<^item> \<open>Order\<close> (\<open>internal/order\<close>): creation with idempotency, cursor pagination, expiry.
  \<^item> \<open>Payment\<close> (\<open>internal/payment\<close>): state machine and repository of card payments. \<open>PaymentFlow\<close> abstracts
    the payments of an order to claims on its amount and shows the invariant over all interleavings.
    \<open>Capture\<close> holds what a capture does to the ledger and where it falls short; \<open>PaymentService\<close> the service
    paths over an arbitrary gateway and token vault.
  \<^item> \<open>Settlement\<close> (\<open>internal/settlement\<close>, reserve policies of \<open>internal/merchant\<close>) and \<open>Refund\<close> (\<open>internal/refund\<close>):
    batches, holds, preferences, adjustments; the life of a refund.
  \<^item> \<open>Treasury\<close>: an abstract specification, purses that are filled, refunded and emptied into settlement
    items, with the equations of the books. \<open>TreasuryFlow\<close> shows that every operation of payments, refunds
    and settlements is a move of it.
  \<^item> \<open>Payout\<close> (\<open>internal/payout\<close>): state machine, repository, rail callbacks, beneficiaries, simulator, service,
    batches. \<open>PayoutFlow\<close> adds them to the flow of cash; \<open>PayoutService\<close> shows that the service operations are
    runs of it.
  \<^item> \<open>Money\<close> and \<open>PayoutProps\<close>: what holds over every run of the whole flow.
  \<^item> \<open>Idempotency\<close> (\<open>internal/idempotency\<close>): the store of answers in PostgreSQL and Redis and the middleware around a
    handler. Within the lock a request runs at most once, later ones replay its answer.
  \<^item> \<open>WebhookTarget\<close>, \<open>Webhook\<close> (\<open>internal/webhook\<close>): which addresses may be called; subscriptions, signatures, delivery,
    retries, the consumer. \<open>WebhookFlow\<close>: interleavings of deliverers and retry workers, one success per event
    and subscription, every subscriber covered, retries end in the dead letter.
  \<^item> \<open>Saga\<close> (\<open>internal/saga\<close>): instances, leases, dispatches, compensation, operator actions, service and worker with
    the handlers as parameters. \<open>SagaFlow\<close>: the worker's loop ends, a failing command is compensated once.
  \<^item> \<open>EventSchema\<close> (\<open>internal/eventschema\<close>): documents, versions, rollouts and the bootstrap. The compatibility check is
    given a meaning by the values that conform to a document; the resolver of the outbox is instantiated.
  \<^item> \<open>Recon\<close> (\<open>internal/recon\<close>): the reconciliation checks and imports, against what the flow of cash guarantees.
  \<^item> \<open>Gateway\<close> (\<open>internal/gateway\<close>): routing policies, scenarios, method overrides and the simulator, an instance of the
    gateway of \<open>PaymentService\<close>.
  \<^item> \<open>Risk\<close> (\<open>internal/risk\<close>): scoring, velocity counters, the gate in front of an authorization, manual review. A held
    payment is never captured by itself; the argument is the locale \<open>authorization_closed\<close> of \<open>PaymentService\<close>.
  \<^item> \<open>Dispute\<close> (\<open>internal/dispute\<close>): the life of a dispute, serial and interleaved.
  \<^item> \<open>UPIVerify\<close> (\<open>internal/upiverify\<close>): the syntax of UPI addresses and the freshness of their verification.
  \<^item> \<open>Hosted\<close> (\<open>internal/payment\<close>, UPI and redirects): sessions the customer completes elsewhere. \<open>HostedFlow\<close> abstracts
    them and the card payments to one flow of claims: each capture is posted once, each payment follows the table,
    each event counts once; and what the sessions do not check.
  \<^item> \<open>Tokenization\<close> (\<open>internal/tokenization\<close>): the card vault, an instance of the tokens of \<open>PaymentService\<close> through the
    locale \<open>token_store\<close>. Rows stay well formed, a single-use token is held by one authorization.
  \<^item> \<open>Protect\<close> (\<open>internal/common/protect\<close>): sealed columns, key configuration and rotation, over an arbitrary AES-GCM.
  \<^item> \<open>Calendar\<close>: Go's \<open>time.AddDate\<close> on UTC times. \<open>Billing\<close> (\<open>internal/billing\<close>): the tables of customers, mandates, accounts,
    collections, subscriptions, invoices and payment links. \<open>BillingService\<close>: the service and the subscription runner over
    the orders, payments, sessions, vault and verifications of the other theories. \<open>BillingFlow\<close>: everything that happens
    to such a world as one step relation with an invariant. \<open>BillingProps\<close>: how a run ends, paid invoices are collected
    and posted once, personal data reads back, and where runs, links and orders fall out of step.

  \<^bold>\<open>Bounds.\<close> Products of the fee arithmetic stay within int64 when a payment is below 2 to the 34 minor
  units and the volume of a batch below 2 to the 49 (\<open>money_bound\<close>, \<open>volume_bound\<close>); the exposure of an order
  needs an order below 2 to the 62 (\<open>cap_bound\<close>). Theorems that need them name them as hypotheses, and the
  overflow properties show what happens beyond.

  \<^bold>\<open>Not modelled.\<close> HTTP decoding, authentication of requests, JSON presentation, logging, metrics and
  tracing, the drivers of PostgreSQL, Redis and Kafka, Go's scheduler. Operations that only list rows are
  modelled where another operation uses them. Roles and sessions of users, onboarding of merchants, rate limits,
  audit records, reports, retention, settlement statements and the simulated checkout pages are not modelled.
\<close>

end
